(* ===== verification/Prelude.thy ===== *)
theory Prelude
  imports Main "HOL-Library.Word"
begin

text \<open>
  Shared vocabulary of the development: the C integer types as words, the errno values the
  drivers return, and the generic facts about words, lists and options that the component
  theories use. A C function that returns 0 or a negative errno is modelled with an \<open>int\<close>
  status; one that returns a pointer or \<open>ERR_PTR(status)\<close> with a sum, the error on the left.
\<close>

unbundle bit_operations_syntax

type_synonym u8 = "8 word"
type_synonym u16 = "16 word"
type_synonym u32 = "32 word"
type_synonym u64 = "64 word"

text \<open>The values of the Linux errno macros the sources use.\<close>

abbreviation EAGAIN :: int where "EAGAIN \<equiv> 11"
abbreviation ENOMEM :: int where "ENOMEM \<equiv> 12"
abbreviation EFAULT :: int where "EFAULT \<equiv> 14"
abbreviation EINVAL :: int where "EINVAL \<equiv> 22"
abbreviation EBUSY :: int where "EBUSY \<equiv> 16"
abbreviation EOPNOTSUPP :: int where "EOPNOTSUPP \<equiv> 95"
abbreviation EOVERFLOW :: int where "EOVERFLOW \<equiv> 75"

named_theorems word_bits \<open>bitwise characterisations of the packing routines\<close>
named_theorems trace_simps \<open>what an operation appends to the I/O history\<close>

section \<open>Words\<close>

lemma bit_word_beyond [simp]: "LENGTH('a) \<le> n \<Longrightarrow> \<not> bit (w :: 'a::len word) n"
  by (meson bit_imp_le_length not_less)

lemma word_eqI_bits:
  fixes v w :: "'a::len word"
  assumes "\<And>n. n < LENGTH('a) \<Longrightarrow> bit v n = bit w n"
  shows "v = w"
  by (rule bit_word_eqI) (use assms in simp)

lemma bit_push_u32 [word_bits]:
  "n < 32 \<Longrightarrow> bit (push_bit k (w :: u32)) n = (k \<le> n \<and> bit w (n - k))"
  by (simp add: bit_push_bit_iff)

lemma bit_drop_u32 [word_bits]: "bit (drop_bit k (w :: u32)) n = bit w (k + n)"
  by (simp add: bit_drop_bit_eq)

lemma bit_above_u32: "(w :: u32) < 2 ^ k \<Longrightarrow> k \<le> n \<Longrightarrow> \<not> bit w n"
  using less_mask_eq [of w k] bit_take_bit_iff [of k w n] take_bit_eq_mask [of k w]
  by (metis linorder_not_less)

lemma unat_u32_less: "unat (w :: u32) < 2 ^ 32"
  by (rule order.strict_trans2 [OF unsigned_less]) simp

lemma unat_u32_of_nat [simp]: "n < 2 ^ 32 \<Longrightarrow> unat (word_of_nat n :: u32) = n"
  by (simp add: unsigned_of_nat take_bit_nat_eq_self)

lemma and_all_u32 [simp]: "(w :: u32) AND 0xffffffff = w"
proof -
  have "(0xffffffff :: u32) = - 1" by simp
  then show ?thesis by (simp only: and.right_neutral)
qed

lemma and_byte_u32: "(w :: u32) AND 0xff = take_bit 8 w"
proof -
  have "(0xff :: u32) = mask 8" by (simp add: mask_eq_exp_minus_1)
  then show ?thesis by (simp only: take_bit_eq_mask)
qed

section \<open>Lists and options\<close>

lemma fold_invariant_list:
  assumes "P s" and "\<And>x s. x \<in> set xs \<Longrightarrow> P s \<Longrightarrow> P (f x s)"
  shows "P (fold f xs s)"
  using assms by (induction xs arbitrary: s) auto

lemma inj_on_map_distinct: "distinct (map f xs) \<Longrightarrow> inj_on f (set xs)"
  by (simp add: distinct_map)

lemma length_filter_remove1:
  "x \<in> set xs \<Longrightarrow> length (remove1 x xs) = length xs - 1"
  by (simp add: length_remove1)

lemma finite_card_remove: "finite A \<Longrightarrow> x \<in> A \<Longrightarrow> Suc (card (A - {x})) = card A"
  by (rule card_Suc_Diff1)

end
