(* ===== verification/Kernel.thy ===== *)
theory Kernel
  imports Prelude
begin

text \<open>
  What the drivers see of the kernel and of the card. The state \<open>kern\<close> is the history of
  everything that leaves the driver: register writes and reads, allocations and frees, lock
  operations, barriers and user copies, newest first. The answers of the environment (the
  value a register read returns, whether an allocation or a user copy succeeds, the bus
  address of a buffer) are functions of that history, collected in the record \<open>env\<close>:
  every definition takes an arbitrary \<open>env\<close>, so every theorem holds for every hardware
  and every pattern of failures unless it names a hypothesis about them.

  A polling loop of the source may run forever. It is a \<open>partial_function (option)\<close>, and
  None is "does not return".
\<close>

section \<open>History and environment\<close>

datatype region = Pcie_bar | Mac_regs

datatype lock = Hw_lock | Dev_lock | Q_lock | Cq_lock | Sq_cq_lock | Rq_cq_lock | Resource_lock
  | Mm_list_lock | Rss_mutex

datatype event =
    Ewrite region u32 u32      \<comment> \<open>\<open>writel(value, region + address)\<close>: address, value\<close>
  | Eread region u32 u32       \<comment> \<open>\<open>readl\<close>: address, the value returned\<close>
  | Ekalloc nat | Ekalloc_fail | Ekfree nat
  | Edma_alloc nat u32 | Edma_fail | Edma_free nat
  | Elock lock | Eunlock lock
  | Ewmb
  | Ecopy bool                 \<comment> \<open>a copy to or from user space, and whether it succeeded\<close>
  | Edesc nat nat u32          \<comment> \<open>a store to a descriptor: its place in the ring, word, value\<close>
  | Edma_map u64 u32 bool | Edma_unmap u64 u32 bool  \<comment> \<open>address, length, mapped as a page\<close>
  | Eskb_cow bool | Eskb_alloc nat | Efree_skb nat | Erx_skb nat
  | Eskb_frag nat nat          \<comment> \<open>a page becomes a fragment of a socket buffer\<close>
  | Epage_alloc nat | Epage_get nat | Epage_put nat
  | Equeue_stop nat | Equeue_wake nat
  | Equeue_sent nat u32 | Equeue_done nat u32 u32    \<comment> \<open>queue, (packets and) bytes\<close>
  | Etimer
  | Ecall string "nat list"    \<comment> \<open>another service of the kernel: its name and arguments\<close>

record kern =
  trace :: "event list"
  next_obj :: nat

record env =
  hw_read :: "event list \<Rightarrow> region \<Rightarrow> u32 \<Rightarrow> u32"
  alloc_ok :: "event list \<Rightarrow> bool"
  dma_addr :: "event list \<Rightarrow> u64"
  copy_ok :: "event list \<Rightarrow> bool"

definition emit :: "event \<Rightarrow> kern \<Rightarrow> kern" where
  "emit e s = s\<lparr>trace := e # trace s\<rparr>"

definition writel :: "region \<Rightarrow> u32 \<Rightarrow> u32 \<Rightarrow> kern \<Rightarrow> kern" where
  "writel r v a = emit (Ewrite r a v)"

definition readl :: "env \<Rightarrow> region \<Rightarrow> u32 \<Rightarrow> kern \<Rightarrow> u32 \<times> kern" where
  "readl E r a s = (let v = hw_read E (trace s) r a in (v, emit (Eread r a v) s))"

definition mutex_lock :: "lock \<Rightarrow> kern \<Rightarrow> kern" where
  "mutex_lock l = emit (Elock l)"

definition mutex_unlock :: "lock \<Rightarrow> kern \<Rightarrow> kern" where
  "mutex_unlock l = emit (Eunlock l)"

text \<open>\<open>kmalloc\<close>, \<open>kzalloc\<close> and \<open>kcalloc\<close>: a fresh object, or NULL.\<close>

definition kalloc :: "env \<Rightarrow> kern \<Rightarrow> nat option \<times> kern" where
  "kalloc E s =
     (if alloc_ok E (trace s)
      then (Some (next_obj s), (emit (Ekalloc (next_obj s)) s)\<lparr>next_obj := Suc (next_obj s)\<rparr>)
      else (None, emit Ekalloc_fail s))"

text \<open>\<open>kfree\<close> of a null pointer does nothing.\<close>

definition kfree :: "nat option \<Rightarrow> kern \<Rightarrow> kern" where
  "kfree p s = (case p of None \<Rightarrow> s | Some i \<Rightarrow> emit (Ekfree i) s)"

text \<open>\<open>dma_alloc_coherent\<close>: a buffer and its bus address, or NULL.\<close>

definition dma_alloc :: "env \<Rightarrow> u32 \<Rightarrow> kern \<Rightarrow> (nat \<times> u64) option \<times> kern" where
  "dma_alloc E len s =
     (if alloc_ok E (trace s)
      then (Some (next_obj s, dma_addr E (trace s)),
            (emit (Edma_alloc (next_obj s) len) s)\<lparr>next_obj := Suc (next_obj s)\<rparr>)
      else (None, emit Edma_fail s))"

definition dma_free :: "nat \<Rightarrow> kern \<Rightarrow> kern" where
  "dma_free i = emit (Edma_free i)"

definition copy_user :: "env \<Rightarrow> kern \<Rightarrow> bool \<times> kern" where
  "copy_user E s = (let ok = copy_ok E (trace s) in (ok, emit (Ecopy ok) s))"

lemma trace_emit [simp, trace_simps]: "trace (emit e s) = e # trace s"
  by (simp add: emit_def)

lemma next_obj_emit [simp]: "next_obj (emit e s) = next_obj s"
  by (simp add: emit_def)

lemma trace_writel [simp, trace_simps]: "trace (writel r v a s) = Ewrite r a v # trace s"
  by (simp add: writel_def)

lemma trace_lock [simp, trace_simps]:
  "trace (mutex_lock l s) = Elock l # trace s"
  "trace (mutex_unlock l s) = Eunlock l # trace s"
  by (simp_all add: mutex_lock_def mutex_unlock_def)

lemma trace_kfree [simp, trace_simps]:
  "trace (kfree p s) = (case p of None \<Rightarrow> [] | Some i \<Rightarrow> [Ekfree i]) @ trace s"
  by (simp add: kfree_def split: option.split)

lemma trace_dma_free [simp, trace_simps]: "trace (dma_free i s) = Edma_free i # trace s"
  by (simp add: dma_free_def)

lemma next_obj_simps [simp]:
  "next_obj (writel r v a s) = next_obj s"
  "next_obj (mutex_lock l s) = next_obj s"
  "next_obj (mutex_unlock l s) = next_obj s"
  "next_obj (kfree p s) = next_obj s"
  "next_obj (dma_free i s) = next_obj s"
  by (simp_all add: writel_def mutex_lock_def mutex_unlock_def kfree_def dma_free_def
      split: option.split)

section \<open>What a history says\<close>

text \<open>How deep a lock is held, and which objects are live, at the end of a history.\<close>

fun held :: "lock \<Rightarrow> event list \<Rightarrow> int" where
  "held l [] = 0"
| "held l (Elock m # t) = (if m = l then 1 else 0) + held l t"
| "held l (Eunlock m # t) = held l t - (if m = l then 1 else 0)"
| "held l (_ # t) = held l t"

fun live_objs :: "event list \<Rightarrow> nat set" where
  "live_objs [] = {}"
| "live_objs (Ekalloc i # t) = insert i (live_objs t)"
| "live_objs (Edma_alloc i n # t) = insert i (live_objs t)"
| "live_objs (Ekfree i # t) = live_objs t - {i}"
| "live_objs (Edma_free i # t) = live_objs t - {i}"
| "live_objs (_ # t) = live_objs t"

text \<open>The register writes of a history, oldest first.\<close>

fun writes :: "event list \<Rightarrow> (region \<times> u32 \<times> u32) list" where
  "writes [] = []"
| "writes (Ewrite r a v # t) = writes t @ [(r, a, v)]"
| "writes (_ # t) = writes t"

definition objs_below :: "kern \<Rightarrow> bool" where
  "objs_below s \<longleftrightarrow> (\<forall>i \<in> live_objs (trace s). i < next_obj s)"

definition empty_kern :: kern where
  "empty_kern = \<lparr>trace = [], next_obj = 0\<rparr>"

end
