(* ===== verification/Idalloc.thy ===== *)
theory Idalloc
  imports Kernel
begin

text \<open>
  Identifier allocation over bitmaps. \<open>zero_bit_search\<close> is what the drivers rely on of the
  kernel's \<open>find_next_zero_bit\<close> and \<open>find_first_zero_bit\<close>, whose code is not in the
  repository: the searches are arguments of the definitions, and the contract is their
  kernel-doc (the position of the next clear bit, or the size when there is none).
  \<open>id_allocator\<close> is the interface every allocator of the driver offers its callers; the
  allocator of QP and CQ numbers (bxroce_hw.c) provides it here, the address-vector table in
  Ah. The index allocator of the object pools (Pool) does not: it has no failure value.
\<close>

type_synonym bitmap = "nat \<Rightarrow> bool"

definition set_bit_at :: "nat \<Rightarrow> bitmap \<Rightarrow> bitmap" where
  "set_bit_at i b = b(i := True)"

definition clear_bit_at :: "nat \<Rightarrow> bitmap \<Rightarrow> bitmap" where
  "clear_bit_at i b = b(i := False)"

lemma set_bit_at_apply [simp]: "set_bit_at i b j = (j = i \<or> b j)"
  by (simp add: set_bit_at_def)

lemma clear_bit_at_apply [simp]: "clear_bit_at i b j = (j \<noteq> i \<and> b j)"
  by (simp add: clear_bit_at_def)

section \<open>The kernel's searches\<close>

locale zero_bit_search =
  fixes fnz :: "bitmap \<Rightarrow> nat \<Rightarrow> nat \<Rightarrow> nat" \<comment> \<open>\<open>find_next_zero_bit(map, size, offset)\<close>\<close>
    and ffz :: "bitmap \<Rightarrow> nat \<Rightarrow> nat"        \<comment> \<open>\<open>find_first_zero_bit(map, size)\<close>\<close>
  assumes next_found: "fnz b n k < n \<Longrightarrow> k \<le> fnz b n k \<and> \<not> b (fnz b n k)"
    and next_none: "n \<le> fnz b n k \<Longrightarrow> k \<le> i \<Longrightarrow> i < n \<Longrightarrow> b i"
    and first_found: "ffz b n < n \<Longrightarrow> \<not> b (ffz b n)"
    and first_none: "n \<le> ffz b n \<Longrightarrow> i < n \<Longrightarrow> b i"
    and next_size: "fnz b n k \<le> n"
    and first_size: "ffz b n \<le> n"

fun scan_zero :: "bitmap \<Rightarrow> nat \<Rightarrow> nat \<Rightarrow> nat" where
  "scan_zero b 0 k = k"
| "scan_zero b (Suc m) k = (if b k then scan_zero b m (Suc k) else k)"

definition scan_next_zero :: "bitmap \<Rightarrow> nat \<Rightarrow> nat \<Rightarrow> nat" where
  "scan_next_zero b n k = (if k < n then scan_zero b (n - k) k else n)"

definition scan_first_zero :: "bitmap \<Rightarrow> nat \<Rightarrow> nat" where
  "scan_first_zero b n = scan_next_zero b n 0"

lemma scan_zero_numeral [simp]:
  "scan_zero b (numeral n) k = (if b k then scan_zero b (pred_numeral n) (Suc k) else k)"
  by (simp add: numeral_eq_Suc)

lemma scan_zero_bounds: "k \<le> scan_zero b m k \<and> scan_zero b m k \<le> k + m"
proof (induction b m k rule: scan_zero.induct)
  case (2 b m k)
  then show ?case by auto
qed simp

lemma scan_zero_found: "scan_zero b m k < k + m \<Longrightarrow> \<not> b (scan_zero b m k)"
  by (induction b m k rule: scan_zero.induct) auto

lemma scan_zero_none: "k + m \<le> scan_zero b m k \<Longrightarrow> k \<le> i \<Longrightarrow> i < k + m \<Longrightarrow> b i"
proof (induction b m k rule: scan_zero.induct)
  case (2 b m k)
  then show ?case by (cases "i = k") (auto split: if_splits)
qed simp

interpretation scan_search: zero_bit_search scan_next_zero scan_first_zero
proof unfold_locales
  fix b n k i
  show "scan_next_zero b n k < n \<Longrightarrow> k \<le> scan_next_zero b n k \<and> \<not> b (scan_next_zero b n k)"
    using scan_zero_bounds [of k b "n - k"] scan_zero_found [of b "n - k" k]
    by (auto simp: scan_next_zero_def split: if_splits)
  show "n \<le> scan_next_zero b n k \<Longrightarrow> k \<le> i \<Longrightarrow> i < n \<Longrightarrow> b i"
    using scan_zero_none [of k "n - k" b i] by (auto simp: scan_next_zero_def split: if_splits)
  show "scan_first_zero b n < n \<Longrightarrow> \<not> b (scan_first_zero b n)"
    using scan_zero_found [of b n 0]
    by (auto simp: scan_first_zero_def scan_next_zero_def split: if_splits)
  show "scan_next_zero b n k \<le> n" "scan_first_zero b n \<le> n"
    using scan_zero_bounds [of k b "n - k"] scan_zero_bounds [of 0 b n]
    by (auto simp: scan_first_zero_def scan_next_zero_def)
  show "n \<le> scan_first_zero b n \<Longrightarrow> i < n \<Longrightarrow> b i"
    using scan_zero_none [of 0 n b i]
    by (auto simp: scan_first_zero_def scan_next_zero_def split: if_splits)
qed

section \<open>The allocator interface\<close>

locale id_allocator =
  fixes alloc :: "'s \<Rightarrow> nat option \<times> 's"
    and release :: "nat \<Rightarrow> 's \<Rightarrow> 's"
    and live :: "'s \<Rightarrow> nat set"
    and ids :: "'s \<Rightarrow> nat set"
    and inv :: "'s \<Rightarrow> bool"
  assumes alloc_fresh: "inv s \<Longrightarrow> alloc s = (Some i, s') \<Longrightarrow> i \<in> ids s \<and> i \<notin> live s"
    and alloc_live: "inv s \<Longrightarrow> alloc s = (Some i, s') \<Longrightarrow> live s' = insert i (live s)"
    and alloc_keeps: "inv s \<Longrightarrow> alloc s = (r, s') \<Longrightarrow> inv s' \<and> ids s' = ids s"
    and alloc_none: "inv s \<Longrightarrow> alloc s = (None, s') \<Longrightarrow> ids s \<subseteq> live s \<and> live s' = live s"
    and release_live: "inv s \<Longrightarrow> i \<in> live s \<Longrightarrow> live (release i s) = live s - {i}"
    and release_keeps: "inv s \<Longrightarrow> i \<in> live s \<Longrightarrow> inv (release i s) \<and> ids (release i s) = ids s"

datatype id_op = Id_alloc | Id_release nat

text \<open>
  A client's run: the identifiers it holds and the allocator state. A client gives back only
  what it holds.
\<close>

fun id_run :: "('s \<Rightarrow> nat option \<times> 's) \<Rightarrow> (nat \<Rightarrow> 's \<Rightarrow> 's) \<Rightarrow> id_op list \<Rightarrow>
    nat list \<times> 's \<Rightarrow> nat list \<times> 's" where
  "id_run alloc release [] c = c"
| "id_run alloc release (Id_alloc # ops) (hs, s) =
     (case alloc s of
        (None, s') \<Rightarrow> id_run alloc release ops (hs, s')
      | (Some i, s') \<Rightarrow> id_run alloc release ops (i # hs, s'))"
| "id_run alloc release (Id_release i # ops) (hs, s) =
     (if i \<in> set hs then id_run alloc release ops (remove1 i hs, release i s)
      else id_run alloc release ops (hs, s))"

context id_allocator
begin

definition client_ok :: "nat list \<times> 's \<Rightarrow> bool" where
  "client_ok c \<longleftrightarrow> inv (snd c) \<and> distinct (fst c) \<and> set (fst c) \<subseteq> live (snd c) \<inter> ids (snd c)"

lemma client_ok_alloc:
  assumes "client_ok (hs, s)" and "alloc s = (Some i, s')"
  shows "client_ok (i # hs, s')"
  using assms alloc_fresh [of s i s'] alloc_live [of s i s'] alloc_keeps [of s "Some i" s']
  by (auto simp: client_ok_def)

lemma client_ok_alloc_none:
  assumes "client_ok (hs, s)" and "alloc s = (None, s')"
  shows "client_ok (hs, s')"
  using assms alloc_none [of s s'] alloc_keeps [of s None s'] by (auto simp: client_ok_def)

lemma client_ok_release:
  assumes "client_ok (hs, s)" and "i \<in> set hs"
  shows "client_ok (remove1 i hs, release i s)"
proof -
  from assms have i: "inv s" "i \<in> live s" by (auto simp: client_ok_def)
  then show ?thesis
    using assms release_live [OF i] release_keeps [OF i]
    by (auto simp: client_ok_def)
qed

lemma run_ok: "client_ok c \<Longrightarrow> client_ok (id_run alloc release ops c)"
proof (induction ops arbitrary: c)
  case (Cons op ops)
  obtain hs s where c: "c = (hs, s)" by force
  show ?case
  proof (cases op)
    case Id_alloc
    obtain r s' where al: "alloc s = (r, s')" by force
    show ?thesis
      using Cons al client_ok_alloc [of hs s _ s'] client_ok_alloc_none [of hs s s']
      by (cases r) (auto simp: c Id_alloc)
  next
    case (Id_release i)
    then show ?thesis using Cons client_ok_release [of hs s i] by (auto simp: c)
  qed
qed simp

text \<open>No identifier is handed out twice while it is held, and only identifiers of the range.\<close>

lemma run_distinct:
  assumes "inv s" and "id_run alloc release ops ([], s) = (hs, s')"
  shows "distinct hs \<and> set hs \<subseteq> ids s \<and> set hs \<subseteq> live s'"
proof -
  have same_ids: "ids (snd (id_run alloc release ops c)) = ids (snd c)" if "client_ok c" for c
    using that
  proof (induction ops arbitrary: c)
    case (Cons op ops)
    obtain hs s where c: "c = (hs, s)" by force
    show ?case
    proof (cases op)
      case Id_alloc
      obtain r s' where al: "alloc s = (r, s')" by force
      then have "ids s' = ids s" using Cons.prems alloc_keeps by (auto simp: c client_ok_def)
      then show ?thesis
        using Cons al client_ok_alloc [of hs s _ s'] client_ok_alloc_none [of hs s s']
        by (cases r) (auto simp: c Id_alloc)
    next
      case (Id_release i)
      then show ?thesis
        using Cons client_ok_release [of hs s i] release_keeps [of s i]
        by (auto simp: c client_ok_def)
    qed
  qed simp
  have start: "client_ok ([], s)" using assms(1) by (simp add: client_ok_def)
  from same_ids [OF start] have "ids s' = ids s" by (simp add: assms(2))
  with run_ok [OF start, of ops] show ?thesis by (simp add: assms(2) client_ok_def)
qed

text \<open>A failed allocation means that every identifier is taken.\<close>

lemma full_when_none: "inv s \<Longrightarrow> fst (alloc s) = None \<Longrightarrow> ids s \<subseteq> live s"
  using alloc_none [of s "snd (alloc s)"] by (metis prod.collapse)

end

section \<open>QP and CQ numbers (bxroce_hw.c, bxroce_hw.h)\<close>

text \<open>
  The result is the status, the bitmap, the number allocated (None when \<open>*req_resource_num\<close>
  is not written) and the new \<open>*next\<close>. The body runs under \<open>resource_lock\<close>.
\<close>

definition bxroce_alloc_cqqpresource ::
    "(bitmap \<Rightarrow> nat \<Rightarrow> nat \<Rightarrow> nat) \<Rightarrow> (bitmap \<Rightarrow> nat \<Rightarrow> nat) \<Rightarrow> bitmap \<Rightarrow> nat \<Rightarrow> nat \<Rightarrow>
     int \<times> bitmap \<times> nat option \<times> nat" where
  "bxroce_alloc_cqqpresource fnz ffz resource_array max_resources next_id =
     (let found = fnz resource_array max_resources next_id;
          resource_num = (if found \<ge> max_resources then ffz resource_array max_resources else found)
      in if found \<ge> max_resources \<and> resource_num \<ge> max_resources
         then (- EOVERFLOW, resource_array, None, next_id)
         else (0, set_bit_at resource_num resource_array, Some resource_num,
               if resource_num + 1 = max_resources then 0 else resource_num + 1))"

definition bxroce_free_cqqpresource :: "bitmap \<Rightarrow> nat \<Rightarrow> bitmap" where
  "bxroce_free_cqqpresource resource_array resource_num = clear_bit_at resource_num resource_array"

definition bxroce_is_resource_allocated :: "bitmap \<Rightarrow> nat \<Rightarrow> bool" where
  "bxroce_is_resource_allocated resource_array resource_num = resource_array resource_num"

text \<open>The three values an allocator works on, as one state.\<close>

record cqqp =
  allocated :: bitmap
  max_resources :: nat
  next_id :: nat

definition cqqp_alloc :: "(bitmap \<Rightarrow> nat \<Rightarrow> nat \<Rightarrow> nat) \<Rightarrow> (bitmap \<Rightarrow> nat \<Rightarrow> nat) \<Rightarrow>
    cqqp \<Rightarrow> nat option \<times> cqqp" where
  "cqqp_alloc fnz ffz s =
     (let (status, b, r, nx) =
            bxroce_alloc_cqqpresource fnz ffz (allocated s) (max_resources s) (next_id s)
      in (r, s\<lparr>allocated := b, next_id := nx\<rparr>))"

definition cqqp_release :: "nat \<Rightarrow> cqqp \<Rightarrow> cqqp" where
  "cqqp_release i s = s\<lparr>allocated := bxroce_free_cqqpresource (allocated s) i\<rparr>"

definition cqqp_live :: "cqqp \<Rightarrow> nat set" where
  "cqqp_live s = {i. allocated s i}"

definition cqqp_ids :: "cqqp \<Rightarrow> nat set" where
  "cqqp_ids s = {..<max_resources s}"

lemmas cqqp_defs = cqqp_alloc_def cqqp_release_def cqqp_live_def cqqp_ids_def
  bxroce_alloc_cqqpresource_def bxroce_free_cqqpresource_def

context zero_bit_search
begin

lemma cqqp_found:
  assumes "bxroce_alloc_cqqpresource fnz ffz b n k = (st, b', Some i, k')"
  shows "i < n \<and> \<not> b i \<and> b' = set_bit_at i b \<and> st = 0 \<and> k' < n"
  using assms next_found [of b n k] first_found [of b n]
  by (auto simp: bxroce_alloc_cqqpresource_def Let_def split: if_splits)

lemma cqqp_none:
  assumes "bxroce_alloc_cqqpresource fnz ffz b n k = (st, b', None, k')"
  shows "(\<forall>i < n. b i) \<and> b' = b \<and> st = - EOVERFLOW \<and> k' = k"
  using assms first_none [of n b]
  by (auto simp: bxroce_alloc_cqqpresource_def Let_def split: if_splits)

end

sublocale zero_bit_search \<subseteq> cqqp: id_allocator "cqqp_alloc fnz ffz" cqqp_release cqqp_live cqqp_ids "\<lambda>_. True"
proof unfold_locales
  fix s i s' r
  show "cqqp_alloc fnz ffz s = (Some i, s') \<Longrightarrow> i \<in> cqqp_ids s \<and> i \<notin> cqqp_live s"
    by (auto simp: cqqp_alloc_def cqqp_ids_def cqqp_live_def dest: cqqp_found split: prod.splits)
  show "cqqp_alloc fnz ffz s = (Some i, s') \<Longrightarrow> cqqp_live s' = insert i (cqqp_live s)"
    by (auto simp: cqqp_alloc_def cqqp_live_def dest!: cqqp_found split: prod.splits)
  show "cqqp_alloc fnz ffz s = (r, s') \<Longrightarrow> True \<and> cqqp_ids s' = cqqp_ids s"
    by (auto simp: cqqp_alloc_def cqqp_ids_def split: prod.splits)
  show "cqqp_alloc fnz ffz s = (None, s') \<Longrightarrow>
      cqqp_ids s \<subseteq> cqqp_live s \<and> cqqp_live s' = cqqp_live s"
    by (auto simp: cqqp_alloc_def cqqp_ids_def cqqp_live_def dest!: cqqp_none split: prod.splits)
qed (auto simp: cqqp_release_def bxroce_free_cqqpresource_def cqqp_live_def cqqp_ids_def)

context zero_bit_search
begin

lemmas cqqp_run_distinct = cqqp.run_distinct

end

interpretation scan_cqqp: id_allocator
  "cqqp_alloc scan_next_zero scan_first_zero" cqqp_release cqqp_live cqqp_ids "\<lambda>_. True"
  by (rule scan_search.cqqp.id_allocator_axioms)

section \<open>Properties\<close>

text \<open>
  C25. Whatever sequence of allocations and releases its callers make, the number allocator of
  QPs and CQs never hands out a number that is held, hands out numbers below \<open>max_resources\<close>
  only, and fails, with \<open>-EOVERFLOW\<close> and its state unchanged, only when all are taken.
\<close>

theorem cqqp_numbers_unique:
  assumes "zero_bit_search fnz ffz"
    and "id_run (cqqp_alloc fnz ffz) cqqp_release ops ([], s) = (hs, s')"
  shows "distinct hs \<and> set hs \<subseteq> {..<max_resources s} \<and> set hs \<subseteq> cqqp_live s' \<and>
    (fst (cqqp_alloc fnz ffz s') = None \<longrightarrow>
      {..<max_resources s'} \<subseteq> cqqp_live s' \<and> snd (cqqp_alloc fnz ffz s') = s' \<and>
      fst (bxroce_alloc_cqqpresource fnz ffz (allocated s') (max_resources s') (next_id s'))
        = - EOVERFLOW)"
proof -
  have run: "distinct hs \<and> set hs \<subseteq> {..<max_resources s} \<and> set hs \<subseteq> cqqp_live s'"
    using zero_bit_search.cqqp_run_distinct [OF assms(1) TrueI assms(2)] by (simp add: cqqp_ids_def)
  obtain st b r k where al: "bxroce_alloc_cqqpresource fnz ffz (allocated s') (max_resources s')
      (next_id s') = (st, b, r, k)"
    by (metis prod_cases4)
  show ?thesis
  proof (cases r)
    case None
    with al zero_bit_search.cqqp_none [OF assms(1), of "allocated s'" "max_resources s'"] run
    show ?thesis by (auto simp: cqqp_alloc_def cqqp_live_def)
  next
    case (Some i)
    with al run show ?thesis by (simp add: cqqp_alloc_def)
  qed
qed

definition small_cqqp :: cqqp where
  "small_cqqp = \<lparr>allocated = (\<lambda>_. False), max_resources = 2, next_id = 0\<rparr>"

theorem cqqp_numbers_unique_witness:
  "distinct (fst (id_run (cqqp_alloc scan_next_zero scan_first_zero) cqqp_release
     [Id_alloc, Id_alloc, Id_release 0, Id_alloc, Id_alloc] ([], small_cqqp)))"
  using cqqp_numbers_unique [OF scan_search.zero_bit_search_axioms, of _ small_cqqp]
  by (metis prod.collapse)

end
