(* ===== verification/Pool.thy ===== *)
theory Pool
  imports Idalloc "HOL-Library.Tree" "HOL-Library.List_Lexorder"
begin

text \<open>
  The object pools of the RoCE driver (bxroce_pool.c, bxroce_pool.h). An object is named by
  the identity of its allocation; its \<open>struct bxroce_pool_entry\<close> is the record \<open>elem\<close>, which
  the object types extend, as the C structures contain it. The red-black tree is a tree of
  objects: the descents are the source's, the rebalancing of \<open>rb_insert_color\<close> and the
  unlinking of \<open>rb_erase\<close> are the kernel's library and arguments of the definitions, with
  their contract in the locale \<open>rbtree_api\<close>. None is undefined behaviour of C: a bit set or
  cleared outside the table, or a freed object used.
\<close>

section \<open>Types\<close>

definition BXROCE_POOL_ATOMIC :: u32 where "BXROCE_POOL_ATOMIC = 1"
definition BXROCE_POOL_INDEX :: u32 where "BXROCE_POOL_INDEX = 2"
definition BXROCE_POOL_KEY :: u32 where "BXROCE_POOL_KEY = 4"
definition BXROCE_POOL_ALIGN :: nat where "BXROCE_POOL_ALIGN = 16"
definition BXROCE_MIN_QP_INDEX :: u32 where "BXROCE_MIN_QP_INDEX = 16"
definition BXROCE_MAX_QP_INDEX :: u32 where "BXROCE_MAX_QP_INDEX = 0x20000"
definition BXROCE_MIN_MR_INDEX :: u32 where "BXROCE_MIN_MR_INDEX = 1"
definition BXROCE_MAX_MR_INDEX :: u32 where "BXROCE_MAX_MR_INDEX = 0x40000"

lemmas pool_consts = BXROCE_POOL_ATOMIC_def BXROCE_POOL_INDEX_def BXROCE_POOL_KEY_def
  BXROCE_MIN_QP_INDEX_def BXROCE_MAX_QP_INDEX_def BXROCE_MIN_MR_INDEX_def
  BXROCE_MAX_MR_INDEX_def

datatype elem_type = BXROCE_TYPE_PD | BXROCE_TYPE_QP | BXROCE_TYPE_CQ | BXROCE_TYPE_MR

definition all_types :: "elem_type list" where
  "all_types = [BXROCE_TYPE_PD, BXROCE_TYPE_QP, BXROCE_TYPE_CQ, BXROCE_TYPE_MR]"

datatype pool_state = BXROCE_POOL_STATE_INVALID | BXROCE_POOL_STATE_VALID

text \<open>
  \<open>index\<close>, the reference count, and the \<open>key_size\<close> bytes at \<open>key_offset\<close> of the object.
\<close>

record elem =
  index :: u32
  elem_key :: "u8 list"
  ref_cnt :: nat

record 'a type_info =
  ti_size :: nat
  ti_cleanup :: "('a elem_scheme \<Rightarrow> kern \<Rightarrow> kern) option"
  ti_flags :: u32
  ti_max_index :: u32
  ti_min_index :: u32
  ti_key_offset :: nat
  ti_key_size :: nat

text \<open>
  \<open>table\<close> is the allocation of the bitmap (null when there is none) and \<open>table_size\<close> its
  bytes; \<open>bits\<close> its contents. \<open>elems\<close> are the objects of the pool's cache that are allocated.
\<close>

record 'a pool =
  elem_size :: nat
  pool_ref :: nat
  cleanup :: "('a elem_scheme \<Rightarrow> kern \<Rightarrow> kern) option"
  state :: pool_state
  flags :: u32
  pool_type :: elem_type
  max_elem :: u32
  num_elem :: u32
  tree :: "nat tree"
  table :: "nat option"
  table_size :: nat
  bits :: bitmap
  max_index :: u32
  min_index :: u32
  last_index :: u32
  key_offset :: nat
  key_size :: nat
  elems :: "nat \<Rightarrow> 'a elem_scheme option"

text \<open>
  The table of object types. The sizes of the C structures and the cleanup functions, which
  belong to the object types, are arguments.
\<close>

definition bxroce_type_info :: "(elem_type \<Rightarrow> nat) \<Rightarrow>
    (elem_type \<Rightarrow> ('a elem_scheme \<Rightarrow> kern \<Rightarrow> kern) option) \<Rightarrow> elem_type \<Rightarrow> 'a type_info" where
  "bxroce_type_info sz cl t = (case t of
     BXROCE_TYPE_PD \<Rightarrow> \<lparr>ti_size = sz t, ti_cleanup = None, ti_flags = 0, ti_max_index = 0,
       ti_min_index = 0, ti_key_offset = 0, ti_key_size = 0\<rparr>
   | BXROCE_TYPE_QP \<Rightarrow> \<lparr>ti_size = sz t, ti_cleanup = cl t, ti_flags = BXROCE_POOL_INDEX,
       ti_max_index = BXROCE_MAX_QP_INDEX, ti_min_index = BXROCE_MIN_QP_INDEX,
       ti_key_offset = 0, ti_key_size = 0\<rparr>
   | BXROCE_TYPE_CQ \<Rightarrow> \<lparr>ti_size = sz t, ti_cleanup = cl t, ti_flags = 0, ti_max_index = 0,
       ti_min_index = 0, ti_key_offset = 0, ti_key_size = 0\<rparr>
   | BXROCE_TYPE_MR \<Rightarrow> \<lparr>ti_size = sz t, ti_cleanup = cl t, ti_flags = BXROCE_POOL_INDEX,
       ti_max_index = BXROCE_MAX_MR_INDEX, ti_min_index = BXROCE_MIN_MR_INDEX,
       ti_key_offset = 0, ti_key_size = 0\<rparr>)"

section \<open>The caches of the object types\<close>

text \<open>\<open>bxroce_type_info[i].cache\<close> for the types in their order.\<close>

fun bxroce_cache_clean :: "nat \<Rightarrow> nat option list \<Rightarrow> kern \<Rightarrow> nat option list \<times> kern" where
  "bxroce_cache_clean cnt [] s = ([], s)"
| "bxroce_cache_clean 0 (c # cs) s = (c # cs, s)"
| "bxroce_cache_clean (Suc cnt) (c # cs) s =
     (let (cs', s') = bxroce_cache_clean cnt cs (kfree c s) in (None # cs', s'))"

fun cache_init_from :: "env \<Rightarrow> nat \<Rightarrow> nat \<Rightarrow> nat option list \<Rightarrow> kern \<Rightarrow>
    int \<times> nat option list \<times> kern" where
  "cache_init_from E i 0 caches s = (0, caches, s)"
| "cache_init_from E i (Suc n) caches s =
     (case kalloc E s of
        (None, s) \<Rightarrow> (let (caches, s) = bxroce_cache_clean i (caches[i := None]) s
                      in (- ENOMEM, caches, s))
      | (Some c, s) \<Rightarrow> cache_init_from E (Suc i) n (caches[i := Some c]) s)"

definition bxroce_cache_init :: "env \<Rightarrow> nat option list \<Rightarrow> kern \<Rightarrow> int \<times> nat option list \<times> kern"
  where "bxroce_cache_init E caches s = cache_init_from E 0 (length all_types) caches s"

definition bxroce_cache_exit :: "nat option list \<Rightarrow> kern \<Rightarrow> nat option list \<times> kern" where
  "bxroce_cache_exit caches s = bxroce_cache_clean (length all_types) caches s"

section \<open>Creating and releasing a pool\<close>

text \<open>\<open>ALIGN(n, a)\<close> and \<open>BITS_TO_LONGS(n) * sizeof(long)\<close>.\<close>

definition align_up :: "nat \<Rightarrow> nat \<Rightarrow> nat" where
  "align_up n a = (n + a - 1) div a * a"

definition longs_size :: "nat \<Rightarrow> nat" where
  "longs_size n = (n + 63) div 64 * 8"

definition index_range :: "'a pool \<Rightarrow> u32" where
  "index_range p = max_index p - min_index p + 1"

definition bxroce_pool_init_index ::
    "env \<Rightarrow> 'a pool \<Rightarrow> u32 \<Rightarrow> u32 \<Rightarrow> kern \<Rightarrow> int \<times> 'a pool \<times> kern" where
  "bxroce_pool_init_index E p mx mn s =
     (if mx - mn + 1 < max_elem p then (- EINVAL, p, s)
      else let p = p\<lparr>max_index := mx, min_index := mn\<rparr>;
               size = longs_size (unat (mx - mn + 1))
           in (case kalloc E s of
                 (None, s) \<Rightarrow> (- ENOMEM, p\<lparr>table := None\<rparr>, s)
               | (Some t, s) \<Rightarrow>
                   (0, p\<lparr>table := Some t, table_size := size, bits := (\<lambda>_. False)\<rparr>, s)))"

text \<open>\<open>memset(pool, 0, sizeof(*pool))\<close> and the assignments up to \<open>rwlock_init\<close>.\<close>

definition fresh_pool :: "'a type_info \<Rightarrow> elem_type \<Rightarrow> u32 \<Rightarrow> 'a pool" where
  "fresh_pool ti t limit =
     \<lparr>elem_size = align_up (ti_size ti) BXROCE_POOL_ALIGN, pool_ref = 1, cleanup = ti_cleanup ti,
      state = BXROCE_POOL_STATE_INVALID, flags = ti_flags ti, pool_type = t, max_elem = limit,
      num_elem = 0, tree = Leaf, table = None, table_size = 0, bits = (\<lambda>_. False),
      max_index = 0, min_index = 0, last_index = 0, key_offset = 0, key_size = 0,
      elems = (\<lambda>_. None)\<rparr>"

definition bxroce_pool_init ::
    "env \<Rightarrow> (elem_type \<Rightarrow> 'a type_info) \<Rightarrow> elem_type \<Rightarrow> u32 \<Rightarrow> kern \<Rightarrow> int \<times> 'a pool \<times> kern" where
  "bxroce_pool_init E info t limit s =
     (let p = fresh_pool (info t) t limit;
          (err, p, s) =
            (if ti_flags (info t) AND BXROCE_POOL_INDEX \<noteq> 0
             then bxroce_pool_init_index E p (ti_max_index (info t)) (ti_min_index (info t)) s
             else (0, p, s))
      in if err \<noteq> 0 then (err, p, s)
         else let p = (if ti_flags (info t) AND BXROCE_POOL_KEY \<noteq> 0
                       then p\<lparr>key_offset := ti_key_offset (info t),
                              key_size := ti_key_size (info t)\<rparr> else p)
              in (0, p\<lparr>state := BXROCE_POOL_STATE_VALID\<rparr>, s))"

definition bxroce_pool_release :: "'a pool \<Rightarrow> kern \<Rightarrow> 'a pool \<times> kern" where
  "bxroce_pool_release p s =
     (p\<lparr>state := BXROCE_POOL_STATE_INVALID, table := None\<rparr>, kfree (table p) s)"

text \<open>\<open>kref_put(&pool->ref_cnt, bxroce_pool_release)\<close>\<close>

definition bxroce_pool_put :: "'a pool \<Rightarrow> kern \<Rightarrow> 'a pool \<times> kern" where
  "bxroce_pool_put p s =
     (let p = p\<lparr>pool_ref := pool_ref p - 1\<rparr>
      in if pool_ref p = 0 then bxroce_pool_release p s else (p, s))"

definition bxroce_pool_cleanup :: "'a pool \<Rightarrow> kern \<Rightarrow> 'a pool \<times> kern" where
  "bxroce_pool_cleanup p s = bxroce_pool_put (p\<lparr>state := BXROCE_POOL_STATE_INVALID\<rparr>) s"

section \<open>The red-black tree of a pool\<close>

text \<open>
  The descents. The comparison of the object at a node with the object or value looked for
  is its sign; \<open>link_node\<close> replaces the null link it ends at, or reports that the value is
  there already.
\<close>

fun link_node :: "(nat \<Rightarrow> int) \<Rightarrow> nat \<Rightarrow> nat tree \<Rightarrow> nat tree option" where
  "link_node cmp new Leaf = Some (Node Leaf new Leaf)"
| "link_node cmp new (Node l e r) =
     (if cmp e = 0 then None
      else if cmp e > 0 then map_option (\<lambda>l'. Node l' e r) (link_node cmp new l)
      else map_option (\<lambda>r'. Node l e r') (link_node cmp new r))"

fun find_node :: "(nat \<Rightarrow> int) \<Rightarrow> nat tree \<Rightarrow> nat option" where
  "find_node cmp Leaf = None"
| "find_node cmp (Node l e r) =
     (if cmp e > 0 then find_node cmp l
      else if cmp e < 0 then find_node cmp r
      else Some e)"

fun memcmp :: "u8 list \<Rightarrow> u8 list \<Rightarrow> int" where
  "memcmp (a # as) (b # bs) = (if a = b then memcmp as bs else if a < b then - 1 else 1)"
| "memcmp _ _ = 0"

definition cmp_index :: "u32 \<Rightarrow> u32 \<Rightarrow> int" where
  "cmp_index a b = (if a = b then 0 else if a > b then 1 else - 1)"

definition index_of :: "'a pool \<Rightarrow> nat \<Rightarrow> u32" where
  "index_of p e = (case elems p e of None \<Rightarrow> 0 | Some el \<Rightarrow> index el)"

definition key_of :: "'a pool \<Rightarrow> nat \<Rightarrow> u8 list" where
  "key_of p e = (case elems p e of None \<Rightarrow> [] | Some el \<Rightarrow> take (key_size p) (elem_key el))"

definition insert_index :: "(nat \<Rightarrow> nat tree \<Rightarrow> nat tree) \<Rightarrow> 'a pool \<Rightarrow> nat \<Rightarrow> 'a pool" where
  "insert_index rb_insert_color p new =
     (case link_node (\<lambda>e. cmp_index (index_of p e) (index_of p new)) new (tree p) of
        None \<Rightarrow> p
      | Some t \<Rightarrow> p\<lparr>tree := rb_insert_color new t\<rparr>)"

definition insert_key :: "(nat \<Rightarrow> nat tree \<Rightarrow> nat tree) \<Rightarrow> 'a pool \<Rightarrow> nat \<Rightarrow> 'a pool" where
  "insert_key rb_insert_color p new =
     (case link_node (\<lambda>e. memcmp (key_of p e) (key_of p new)) new (tree p) of
        None \<Rightarrow> p
      | Some t \<Rightarrow> p\<lparr>tree := rb_insert_color new t\<rparr>)"

definition bxroce_add_key :: "(nat \<Rightarrow> nat tree \<Rightarrow> nat tree) \<Rightarrow> nat \<Rightarrow> u8 list \<Rightarrow> 'a pool \<Rightarrow>
    'a pool option" where
  "bxroce_add_key rb_insert_color e key p =
     (case elems p e of
        None \<Rightarrow> None
      | Some el \<Rightarrow>
          Some (insert_key rb_insert_color
            (p\<lparr>elems := (elems p)(e \<mapsto> el\<lparr>elem_key := take (key_size p) key\<rparr>)\<rparr>) e))"

definition bxroce_drop_key :: "(nat \<Rightarrow> nat tree \<Rightarrow> nat tree) \<Rightarrow> nat \<Rightarrow> 'a pool \<Rightarrow> 'a pool option"
  where "bxroce_drop_key rb_erase e p =
     (if elems p e = None \<or> e \<notin> set_tree (tree p) then None
      else Some (p\<lparr>tree := rb_erase e (tree p)\<rparr>))"

section \<open>Indices\<close>

text \<open>A bit of the table may be written when it lies in the allocated words.\<close>

definition table_bit :: "'a pool \<Rightarrow> nat \<Rightarrow> bool" where
  "table_bit p i \<longleftrightarrow> table p \<noteq> None \<and> i < 8 * table_size p"

definition alloc_index :: "(bitmap \<Rightarrow> nat \<Rightarrow> nat \<Rightarrow> nat) \<Rightarrow> (bitmap \<Rightarrow> nat \<Rightarrow> nat) \<Rightarrow>
    'a pool \<Rightarrow> (u32 \<times> 'a pool) option" where
  "alloc_index fnz ffz p =
     (let range = index_range p;
          found = word_of_nat (fnz (bits p) (unat range) (unat (last_index p))) :: u32;
          i = (if found \<ge> range then word_of_nat (ffz (bits p) (unat range)) else found)
      in if table_bit p (unat i)
         then Some (i + min_index p, p\<lparr>bits := set_bit_at (unat i) (bits p), last_index := i\<rparr>)
         else None)"

definition bxroce_add_index :: "(bitmap \<Rightarrow> nat \<Rightarrow> nat \<Rightarrow> nat) \<Rightarrow> (bitmap \<Rightarrow> nat \<Rightarrow> nat) \<Rightarrow>
    (nat \<Rightarrow> nat tree \<Rightarrow> nat tree) \<Rightarrow> nat \<Rightarrow> 'a pool \<Rightarrow> 'a pool option" where
  "bxroce_add_index fnz ffz rb_insert_color e p =
     (case alloc_index fnz ffz p of
        None \<Rightarrow> None
      | Some (i, p) \<Rightarrow>
          (case elems p e of
             None \<Rightarrow> None
           | Some el \<Rightarrow>
               Some (insert_index rb_insert_color
                 (p\<lparr>elems := (elems p)(e \<mapsto> el\<lparr>index := i\<rparr>)\<rparr>) e)))"

definition bxroce_drop_index :: "(nat \<Rightarrow> nat tree \<Rightarrow> nat tree) \<Rightarrow> nat \<Rightarrow> 'a pool \<Rightarrow>
    'a pool option" where
  "bxroce_drop_index rb_erase e p =
     (case elems p e of
        None \<Rightarrow> None
      | Some el \<Rightarrow>
          (let i = unat (index el - min_index p)
           in if table_bit p i \<and> e \<in> set_tree (tree p)
              then Some (p\<lparr>bits := clear_bit_at i (bits p), tree := rb_erase e (tree p)\<rparr>)
              else None))"

section \<open>Objects\<close>

definition bxroce_alloc :: "env \<Rightarrow> 'a elem_scheme \<Rightarrow> 'a pool \<Rightarrow> kern \<Rightarrow>
    nat option \<times> 'a pool \<times> kern" where
  "bxroce_alloc E zeroed p s =
     (if state p \<noteq> BXROCE_POOL_STATE_VALID then (None, p, s)
      else
        let p = p\<lparr>pool_ref := pool_ref p + 1\<rparr>;
            p = p\<lparr>num_elem := num_elem p + 1\<rparr>
        in if num_elem p > max_elem p
           then let p = p\<lparr>num_elem := num_elem p - 1\<rparr>; (p, s) = bxroce_pool_put p s
                in (None, p, s)
           else
             case kalloc E s of
               (None, s) \<Rightarrow>
                 (let p = p\<lparr>num_elem := num_elem p - 1\<rparr>; (p, s) = bxroce_pool_put p s
                  in (None, p, s))
             | (Some e, s) \<Rightarrow>
                 (Some e, p\<lparr>elems := (elems p)(e \<mapsto> zeroed\<lparr>ref_cnt := 1\<rparr>)\<rparr>, s))"

definition bxroce_elem_release :: "nat \<Rightarrow> 'a pool \<Rightarrow> kern \<Rightarrow> ('a pool \<times> kern) option" where
  "bxroce_elem_release e p s =
     (case elems p e of
        None \<Rightarrow> None
      | Some el \<Rightarrow>
          (let s = (case cleanup p of None \<Rightarrow> s | Some cl \<Rightarrow> cl el s);
               s = kfree (Some e) s;
               p = p\<lparr>elems := (elems p)(e := None), num_elem := num_elem p - 1\<rparr>
           in Some (bxroce_pool_put p s)))"

text \<open>\<open>bxroce_add_ref\<close> and \<open>bxroce_drop_ref\<close>, that is \<open>kref_get\<close> and \<open>kref_put\<close>.\<close>

definition bxroce_add_ref :: "nat \<Rightarrow> 'a pool \<Rightarrow> 'a pool option" where
  "bxroce_add_ref e p =
     (case elems p e of
        None \<Rightarrow> None
      | Some el \<Rightarrow> Some (p\<lparr>elems := (elems p)(e \<mapsto> el\<lparr>ref_cnt := ref_cnt el + 1\<rparr>)\<rparr>))"

definition bxroce_drop_ref :: "nat \<Rightarrow> 'a pool \<Rightarrow> kern \<Rightarrow> ('a pool \<times> kern) option" where
  "bxroce_drop_ref e p s =
     (case elems p e of
        None \<Rightarrow> None
      | Some el \<Rightarrow>
          if ref_cnt el \<le> 1
          then bxroce_elem_release e (p\<lparr>elems := (elems p)(e \<mapsto> el\<lparr>ref_cnt := 0\<rparr>)\<rparr>) s
          else Some (p\<lparr>elems := (elems p)(e \<mapsto> el\<lparr>ref_cnt := ref_cnt el - 1\<rparr>)\<rparr>, s))"

definition get_node :: "nat option \<Rightarrow> 'a pool \<Rightarrow> (nat option \<times> 'a pool) option" where
  "get_node node p =
     (case node of
        None \<Rightarrow> Some (None, p)
      | Some e \<Rightarrow> map_option (\<lambda>p. (Some e, p)) (bxroce_add_ref e p))"

definition bxroce_pool_get_index :: "'a pool \<Rightarrow> u32 \<Rightarrow> (nat option \<times> 'a pool) option" where
  "bxroce_pool_get_index p i =
     (if state p \<noteq> BXROCE_POOL_STATE_VALID then Some (None, p)
      else get_node (find_node (\<lambda>e. cmp_index (index_of p e) i) (tree p)) p)"

definition bxroce_pool_get_key :: "'a pool \<Rightarrow> u8 list \<Rightarrow> (nat option \<times> 'a pool) option" where
  "bxroce_pool_get_key p key =
     (if state p \<noteq> BXROCE_POOL_STATE_VALID then Some (None, p)
      else get_node (find_node (\<lambda>e. memcmp (key_of p e) (take (key_size p) key)) (tree p)) p)"

section \<open>Search trees\<close>

text \<open>
  \<open>ordered k t\<close>: the tree is a search tree for the value \<open>k\<close> of its objects. A comparison
  agrees with \<open>k\<close> when its sign is that of \<open>k e\<close> against \<open>x\<close>.
\<close>

definition ordered :: "(nat \<Rightarrow> 'k::linorder) \<Rightarrow> nat tree \<Rightarrow> bool" where
  "ordered k t \<longleftrightarrow> sorted_wrt (<) (map k (inorder t))"

definition agrees :: "(nat \<Rightarrow> int) \<Rightarrow> (nat \<Rightarrow> 'k::linorder) \<Rightarrow> 'k \<Rightarrow> nat set \<Rightarrow> bool" where
  "agrees cmp k x A \<longleftrightarrow> (\<forall>e \<in> A. (cmp e = 0 \<longleftrightarrow> k e = x) \<and> (cmp e > 0 \<longleftrightarrow> k e > x))"

lemma ordered_Node [simp]:
  "ordered k (Node l e r) \<longleftrightarrow>
     ordered k l \<and> ordered k r \<and> (\<forall>a \<in> set_tree l. k a < k e) \<and> (\<forall>b \<in> set_tree r. k e < k b)"
  by (auto simp: ordered_def sorted_wrt_append intro: less_trans)

lemma ordered_Leaf [simp]: "ordered k Leaf"
  by (simp add: ordered_def)

lemma ordered_inorder: "inorder t = inorder u \<Longrightarrow> ordered k t = ordered k u"
  by (simp add: ordered_def)

lemma set_tree_inorder: "inorder t = inorder u \<Longrightarrow> set_tree t = set_tree u"
  by (metis set_inorder)

lemma ordered_inj: "ordered k t \<Longrightarrow> inj_on k (set_tree t)"
proof -
  assume "ordered k t"
  then have "distinct (map k (inorder t))"
    by (auto simp: ordered_def strict_sorted_iff)
  then show ?thesis by (metis inj_on_map_distinct set_inorder)
qed

lemma ordered_distinct: "ordered k t \<Longrightarrow> distinct (inorder t)"
  by (auto simp: ordered_def strict_sorted_iff distinct_map)

lemma ordered_cong:
  assumes "\<And>e. e \<in> set_tree t \<Longrightarrow> k e = k' e"
  shows "ordered k t = ordered k' t"
proof -
  have eq: "map k (inorder t) = map k' (inorder t)" using assms by simp
  show ?thesis unfolding ordered_def eq ..
qed

lemma ordered_remove1:
  "ordered k t \<Longrightarrow> inorder u = remove1 e (inorder t) \<Longrightarrow> ordered k u"
proof -
  assume o: "ordered k t" and i: "inorder u = remove1 e (inorder t)"
  have "remove1 e (inorder t) = filter (\<lambda>a. a \<noteq> e) (inorder t)"
    using ordered_distinct [OF o] by (simp add: distinct_remove1_removeAll removeAll_filter_not_eq)
      (metis (lifting) filter_cong)
  then show ?thesis
    using o by (simp add: ordered_def i sorted_wrt_map sorted_wrt_filter)
qed

lemma agrees_Node:
  "agrees cmp k x (set_tree (Node l e r)) \<longleftrightarrow>
     (cmp e = 0 \<longleftrightarrow> k e = x) \<and> (cmp e > 0 \<longleftrightarrow> k e > x) \<and>
     agrees cmp k x (set_tree l) \<and> agrees cmp k x (set_tree r)"
  by (auto simp: agrees_def)

lemma link_node_set:
  "link_node cmp new t = Some t' \<Longrightarrow> set_tree t' = insert new (set_tree t)"
  by (induction t arbitrary: t') (auto split: if_splits)

lemma link_node_exists:
  assumes "ordered k t" and "agrees cmp k x (set_tree t)" and "x \<notin> k ` set_tree t"
  shows "\<exists>t'. link_node cmp new t = Some t'"
  using assms
proof (induction t)
  case (Node l e r)
  then have "cmp e = 0 \<longleftrightarrow> k e = x"
    and "agrees cmp k x (set_tree l)" "agrees cmp k x (set_tree r)"
    by (simp_all add: agrees_Node del: tree.set)
  then show ?case using Node.prems Node.IH by auto
qed simp

lemma link_node_ordered:
  assumes "link_node cmp new t = Some t'" and "ordered k t"
    and "agrees cmp k (k new) (set_tree t)"
  shows "ordered k t'"
  using assms
proof (induction t arbitrary: t')
  case (Node l e r)
  then have c: "cmp e = 0 \<longleftrightarrow> k e = k new" "cmp e > 0 \<longleftrightarrow> k e > k new"
    and a: "agrees cmp k (k new) (set_tree l)" "agrees cmp k (k new) (set_tree r)"
    by (simp_all add: agrees_Node del: tree.set)
  from Node.prems(1) consider
      (left) l' where "k e > k new" "link_node cmp new l = Some l'" "t' = Node l' e r"
    | (right) r' where "k e < k new" "link_node cmp new r = Some r'" "t' = Node l e r'"
    using c by (auto split: if_splits simp: not_less le_less)
  then show ?case
  proof cases
    case left
    then show ?thesis
      using Node.prems(2) Node.IH(1) [OF left(2) _ a(1)] link_node_set [OF left(2)] by auto
  next
    case right
    then show ?thesis
      using Node.prems(2) Node.IH(2) [OF right(2) _ a(2)] link_node_set [OF right(2)] by auto
  qed
qed auto

lemma find_node_Some:
  assumes "ordered k t" and "agrees cmp k x (set_tree t)"
  shows "find_node cmp t = Some e \<longleftrightarrow> e \<in> set_tree t \<and> k e = x"
  using assms
proof (induction t)
  case (Node l a r)
  then have c: "cmp a = 0 \<longleftrightarrow> k a = x" "cmp a > 0 \<longleftrightarrow> k a > x"
    and g: "agrees cmp k x (set_tree l)" "agrees cmp k x (set_tree r)"
    by (simp_all add: agrees_Node del: tree.set)
  then show ?case
    using Node.prems(1) Node.IH by (auto simp: not_less)
qed simp

lemma cmp_index_agrees: "agrees (\<lambda>e. cmp_index (k e) x) k x A"
  by (auto simp: agrees_def cmp_index_def)

lemma memcmp_order:
  "length as = length bs \<Longrightarrow> (memcmp as bs = 0 \<longleftrightarrow> as = bs) \<and> (memcmp as bs > 0 \<longleftrightarrow> as > bs)"
  by (induction as bs rule: memcmp.induct) auto

lemma memcmp_agrees:
  "(\<And>e. e \<in> A \<Longrightarrow> length (k e) = length x) \<Longrightarrow> agrees (\<lambda>e. memcmp (k e) x) k x A"
  using memcmp_order by (fastforce simp: agrees_def)

text \<open>What the drivers rely on of the kernel's red-black trees.\<close>

locale rbtree_api =
  fixes rb_insert_color :: "nat \<Rightarrow> nat tree \<Rightarrow> nat tree"
    and rb_erase :: "nat \<Rightarrow> nat tree \<Rightarrow> nat tree"
  assumes insert_color_inorder: "e \<in> set_tree t \<Longrightarrow> inorder (rb_insert_color e t) = inorder t"
    and erase_inorder: "e \<in> set_tree t \<Longrightarrow> distinct (inorder t) \<Longrightarrow>
      inorder (rb_erase e t) = remove1 e (inorder t)"

text \<open>Unbalanced trees with deletion by joining the subtrees provide it.\<close>

fun join_trees :: "nat tree \<Rightarrow> nat tree \<Rightarrow> nat tree" where
  "join_trees Leaf u = u"
| "join_trees (Node l e r) u = Node l e (join_trees r u)"

fun plain_erase :: "nat \<Rightarrow> nat tree \<Rightarrow> nat tree" where
  "plain_erase e Leaf = Leaf"
| "plain_erase e (Node l a r) =
     (if a = e then join_trees l r
      else if e \<in> set (inorder l) then Node (plain_erase e l) a r
      else Node l a (plain_erase e r))"

definition plain_color :: "nat \<Rightarrow> nat tree \<Rightarrow> nat tree" where
  "plain_color e t = t"

lemma inorder_join_trees: "inorder (join_trees t u) = inorder t @ inorder u"
  by (induction t) auto

lemma inorder_plain_erase:
  "distinct (inorder t) \<Longrightarrow> inorder (plain_erase e t) = remove1 e (inorder t)"
  by (induction t) (auto simp: inorder_join_trees remove1_append remove1_idem)

interpretation plain_rb: rbtree_api plain_color plain_erase
  by unfold_locales (simp_all add: plain_color_def inorder_plain_erase)

end
