(* ===== verification/Bits.thy ===== *)
theory Bits
  imports Prelude
begin

text \<open>
  The bit-field routines \<open>set_bits\<close> and \<open>get_bits\<close> of bx_rnic_com.c and their copies
  \<open>rdma_set_bits\<close> and \<open>rdma_get_bits\<close> of bxroce_hw.c. The routines report an index above 31
  and then go on to shift by a negative or too large amount, which C leaves undefined: the
  model returns None there. In range they compute the field update that
  \<open>set_field\<close> and \<open>get_field\<close> name, and the lemmas characterise both bit by bit.
\<close>

definition set_field :: "u32 \<Rightarrow> nat \<Rightarrow> nat \<Rightarrow> u32 \<Rightarrow> u32" where
  "set_field data index_h index_l new_val =
     (let data_l = (if index_l = 0 then 0
                    else drop_bit (32 - index_l) (push_bit (32 - index_l) data));
          data_m = drop_bit (31 - index_h) (push_bit (31 + index_l - index_h) new_val);
          data_h = (if index_h = 31 then 0
                    else push_bit (index_h + 1) (drop_bit (index_h + 1) data))
      in data_h OR data_m OR data_l)"

definition get_field :: "u32 \<Rightarrow> nat \<Rightarrow> nat \<Rightarrow> u32" where
  "get_field data index_h index_l =
     drop_bit (31 + index_l - index_h) (push_bit (31 - index_h) data)"

definition set_bits :: "u32 \<Rightarrow> nat \<Rightarrow> nat \<Rightarrow> u32 \<Rightarrow> u32 option" where
  "set_bits data index_h index_l new_val =
     (let (index_h, index_l) =
            (if index_h < index_l then (index_l, index_h) else (index_h, index_l))
      in if index_h > 31 \<or> index_l > 31 then None
         else Some (set_field data index_h index_l new_val))"

definition get_bits :: "u32 \<Rightarrow> nat \<Rightarrow> nat \<Rightarrow> u32 option" where
  "get_bits data index_h index_l =
     (let (index_h, index_l) =
            (if index_h < index_l then (index_l, index_h) else (index_h, index_l))
      in if index_h > 31 \<or> index_l > 31 then None
         else Some (get_field data index_h index_l))"

text \<open>The copies in the RoCE driver have the same text.\<close>

definition rdma_set_bits :: "u32 \<Rightarrow> nat \<Rightarrow> nat \<Rightarrow> u32 \<Rightarrow> u32 option" where
  "rdma_set_bits data index_h index_l new_val =
     (let (index_h, index_l) =
            (if index_h < index_l then (index_l, index_h) else (index_h, index_l))
      in if index_h > 31 \<or> index_l > 31 then None
         else Some (set_field data index_h index_l new_val))"

definition rdma_get_bits :: "u32 \<Rightarrow> nat \<Rightarrow> nat \<Rightarrow> u32 option" where
  "rdma_get_bits data index_h index_l =
     (let (index_h, index_l) =
            (if index_h < index_l then (index_l, index_h) else (index_h, index_l))
      in if index_h > 31 \<or> index_l > 31 then None
         else Some (get_field data index_h index_l))"

section \<open>Bit by bit\<close>

lemma bit_low_part:
  "0 < l \<Longrightarrow> l \<le> 31 \<Longrightarrow> n < 32 \<Longrightarrow>
   bit (drop_bit (32 - l) (push_bit (32 - l) (d :: u32))) n = (n < l \<and> bit d n)"
  by (auto simp: bit_push_bit_iff bit_drop_bit_eq)

lemma bit_middle_part:
  assumes "l \<le> h" and "h \<le> 31" and "n < 32"
  shows "bit (drop_bit (31 - h) (push_bit (31 + l - h) (v :: u32))) n =
    (l \<le> n \<and> n \<le> h \<and> bit v (n - l))"
proof -
  have "31 - h + n - (31 + l - h) = n - l" using assms by simp
  then show ?thesis using assms by (auto simp: bit_push_bit_iff bit_drop_bit_eq)
qed

lemma bit_high_part:
  "n < 32 \<Longrightarrow> bit (push_bit k (drop_bit k (d :: u32))) n = (k \<le> n \<and> bit d n)"
  by (auto simp: bit_push_bit_iff bit_drop_bit_eq)

lemma bit_set_field [word_bits]:
  assumes "l \<le> h" and "h \<le> 31" and "n < 32"
  shows "bit (set_field d h l v) n = (if l \<le> n \<and> n \<le> h then bit v (n - l) else bit d n)"
proof -
  have low: "bit (if l = 0 then 0 else drop_bit (32 - l) (push_bit (32 - l) d)) n =
      (n < l \<and> bit d n)"
    using assms bit_low_part [of l n d] by auto
  have high: "bit (if h = 31 then 0 else push_bit (h + 1) (drop_bit (h + 1) d)) n =
      (h < n \<and> bit d n)"
    using assms bit_high_part [of n "h + 1" d] by auto
  show ?thesis
    unfolding set_field_def Let_def bit_or_iff low high bit_middle_part [OF assms]
    using assms by auto
qed

lemma bit_get_field [word_bits]:
  assumes "l \<le> h" and "h \<le> 31" and "n < 32"
  shows "bit (get_field d h l) n = (n \<le> h - l \<and> bit d (n + l))"
  using assms
  by (auto simp: get_field_def bit_push_bit_iff bit_drop_bit_eq add.commute)

lemma set_bits_in_range:
  "l \<le> h \<Longrightarrow> h \<le> 31 \<Longrightarrow> set_bits d h l v = Some (set_field d h l v)"
  by (simp add: set_bits_def)

lemma get_bits_in_range:
  "l \<le> h \<Longrightarrow> h \<le> 31 \<Longrightarrow> get_bits d h l = Some (get_field d h l)"
  by (simp add: get_bits_def)

lemma set_bits_Some_iff: "(\<exists>w. set_bits d h l v = Some w) \<longleftrightarrow> h \<le> 31 \<and> l \<le> 31"
  by (auto simp: set_bits_def)

lemma get_field_set_field:
  assumes "l \<le> h" and "h \<le> 31"
  shows "get_field (set_field d h l v) h l = v AND mask (Suc (h - l))"
proof (rule word_eqI_bits)
  fix n assume "n < LENGTH(32)"
  then have n: "n < 32" by simp
  show "bit (get_field (set_field d h l v) h l) n = bit (v AND mask (Suc (h - l))) n"
    using assms n bit_set_field [OF assms, of "n + l"]
    by (cases "n \<le> h - l") (auto simp: bit_get_field bit_and_iff bit_mask_iff)
qed

lemma get_field_other:
  assumes r: "l \<le> h" "h \<le> 31" "l' \<le> h'" "h' \<le> 31" and "h < l' \<or> h' < l"
  shows "get_field (set_field d h l v) h' l' = get_field d h' l'"
proof (rule word_eqI_bits)
  fix n assume "n < LENGTH(32)"
  then have n: "n < 32" by simp
  show "bit (get_field (set_field d h l v) h' l') n = bit (get_field d h' l') n"
  proof (cases "n \<le> h' - l'")
    case True
    then have "\<not> (l \<le> n + l' \<and> n + l' \<le> h)" and "n + l' < 32" using assms by auto
    then have "bit (set_field d h l v) (n + l') = bit d (n + l')"
      using r by (auto simp: bit_set_field)
    then show ?thesis using r n by (simp add: bit_get_field)
  next
    case False
    then show ?thesis using r n by (simp add: bit_get_field)
  qed
qed

section \<open>Properties\<close>

text \<open>
  \<open>set_bits\<close> of the base driver on a field within the word writes the low bits of the value
  into the field: \<open>get_bits\<close> of the same field reads them back and every field that does not
  overlap it reads as before. An index over 31 is undefined behaviour of C.
\<close>

theorem rnic_bits_roundtrip:
  "(l \<le> h \<and> h \<le> 31 \<longrightarrow>
     (\<exists>w. set_bits d h l v = Some w \<and> get_bits w h l = Some (v AND mask (Suc (h - l))) \<and>
       (\<forall>h' l'. l' \<le> h' \<and> h' \<le> 31 \<and> (h < l' \<or> h' < l) \<longrightarrow> get_bits w h' l' = get_bits d h' l'))) \<and>
   (set_bits d h l v = None \<longleftrightarrow> 31 < h \<or> 31 < l)"
proof -
  have "set_bits d h l v = None \<longleftrightarrow> 31 < h \<or> 31 < l"
    using set_bits_Some_iff [of d h l v] by (cases "set_bits d h l v") auto
  then show ?thesis
    by (auto simp: set_bits_in_range get_bits_in_range get_field_set_field get_field_other)
qed

theorem rnic_bits_roundtrip_witness:
  "\<exists>w. set_bits 0xffff0000 15 8 0x1ab = Some w \<and> get_bits w 15 8 = Some (0x1ab AND mask 8)"
  using rnic_bits_roundtrip [of 8 15 "0xffff0000" "0x1ab"] by auto

end
