(* ===== verification/Mpb.thy ===== *)
theory Mpb
  imports Kernel Bits
begin

text \<open>
  The indirect register window of the card (bxroce_mpb_reg.c, bx_mpb.c): the driver writes
  the internal address to one register of the PCIe bar and then reads or writes the data
  register. \<open>mpb_device\<close> is the contract of the card for plain internal registers, as a
  locale over the environment; the polling loops of the driver are here too.
\<close>

definition RNIC_REG_BASE_ADDR_MPB :: u32 where "RNIC_REG_BASE_ADDR_MPB = 0x0000000"
definition MPB_STEP_ADDR_OFFSET :: u32 where "MPB_STEP_ADDR_OFFSET = 0x0"
definition MPB_STEP_DATA_OFFSET :: u32 where "MPB_STEP_DATA_OFFSET = 0x100"

definition bxroce_mpb_reg_write :: "u32 \<Rightarrow> u32 \<Rightarrow> u32 \<Rightarrow> kern \<Rightarrow> kern" where
  "bxroce_mpb_reg_write module_addr offset wdata s =
     (let s = writel Pcie_bar (module_addr + offset)
                (RNIC_REG_BASE_ADDR_MPB + MPB_STEP_ADDR_OFFSET) s
      in writel Pcie_bar wdata (RNIC_REG_BASE_ADDR_MPB + MPB_STEP_DATA_OFFSET) s)"

definition bxroce_mpb_reg_read :: "env \<Rightarrow> u32 \<Rightarrow> u32 \<Rightarrow> kern \<Rightarrow> u32 \<times> kern" where
  "bxroce_mpb_reg_read E module_addr offset s =
     (let s = writel Pcie_bar (module_addr + offset)
                (RNIC_REG_BASE_ADDR_MPB + MPB_STEP_ADDR_OFFSET) s
      in readl E Pcie_bar (RNIC_REG_BASE_ADDR_MPB + MPB_STEP_DATA_OFFSET) s)"

text \<open>The copies of the base driver, through \<open>reg_write\<close> and \<open>reg_read\<close> of bx_rnic_com.c.\<close>

definition reg_write :: "u32 \<Rightarrow> u32 \<Rightarrow> kern \<Rightarrow> kern" where
  "reg_write addr data = writel Pcie_bar data addr"

definition reg_read :: "env \<Rightarrow> u32 \<Rightarrow> kern \<Rightarrow> u32 \<times> kern" where
  "reg_read E addr = readl E Pcie_bar addr"

definition mpb_reg_write :: "u32 \<Rightarrow> u32 \<Rightarrow> u32 \<Rightarrow> kern \<Rightarrow> kern" where
  "mpb_reg_write module_addr offset wdata s =
     (let s = reg_write (RNIC_REG_BASE_ADDR_MPB + MPB_STEP_ADDR_OFFSET)
                (module_addr + offset) s
      in reg_write (RNIC_REG_BASE_ADDR_MPB + MPB_STEP_DATA_OFFSET) wdata s)"

definition mpb_reg_read :: "env \<Rightarrow> u32 \<Rightarrow> u32 \<Rightarrow> kern \<Rightarrow> u32 \<times> kern" where
  "mpb_reg_read E module_addr offset s =
     (let s = reg_write (RNIC_REG_BASE_ADDR_MPB + MPB_STEP_ADDR_OFFSET)
                (module_addr + offset) s
      in reg_read E (RNIC_REG_BASE_ADDR_MPB + MPB_STEP_DATA_OFFSET) s)"

lemmas mpb_addr_defs =
  RNIC_REG_BASE_ADDR_MPB_def MPB_STEP_ADDR_OFFSET_def MPB_STEP_DATA_OFFSET_def

lemma mpb_reg_write_eq: "mpb_reg_write = bxroce_mpb_reg_write"
  by (intro ext) (simp add: mpb_reg_write_def bxroce_mpb_reg_write_def reg_write_def)

lemma mpb_reg_read_eq: "mpb_reg_read = bxroce_mpb_reg_read"
  by (intro ext)
    (simp add: mpb_reg_read_def bxroce_mpb_reg_read_def reg_write_def reg_read_def)

lemma trace_mpb_write [simp, trace_simps]:
  "trace (bxroce_mpb_reg_write m off v s) =
     Ewrite Pcie_bar 0x100 v # Ewrite Pcie_bar 0 (m + off) # trace s"
  by (simp add: bxroce_mpb_reg_write_def mpb_addr_defs Let_def)

lemma next_obj_mpb_write [simp]: "next_obj (bxroce_mpb_reg_write m off v s) = next_obj s"
  by (simp add: bxroce_mpb_reg_write_def Let_def)

lemma trace_mpb_read [simp, trace_simps]:
  "trace (snd (bxroce_mpb_reg_read E m off s)) =
     Eread Pcie_bar 0x100 (fst (bxroce_mpb_reg_read E m off s))
       # Ewrite Pcie_bar 0 (m + off) # trace s"
  by (simp add: bxroce_mpb_reg_read_def readl_def mpb_addr_defs Let_def)

lemma next_obj_mpb_read [simp]:
  "next_obj (snd (bxroce_mpb_reg_read E m off s)) = next_obj s"
  by (simp add: bxroce_mpb_reg_read_def readl_def Let_def)

section \<open>The card as a window on a register file\<close>

text \<open>
  What a history of writes leaves in the card: the selected internal address and the
  internal registers.
\<close>

fun mpb_sel :: "event list \<Rightarrow> u32" where
  "mpb_sel [] = 0"
| "mpb_sel (Ewrite Pcie_bar a v # t) = (if a = 0 then v else mpb_sel t)"
| "mpb_sel (_ # t) = mpb_sel t"

fun mpb_file :: "event list \<Rightarrow> u32 \<Rightarrow> u32" where
  "mpb_file [] i = 0"
| "mpb_file (Ewrite Pcie_bar a v # t) i =
     (if a = 0x100 \<and> mpb_sel t = i then v else mpb_file t i)"
| "mpb_file (_ # t) i = mpb_file t i"

text \<open>
  A card whose internal registers in \<open>plain\<close> read back what was last written to them.
\<close>

locale mpb_device =
  fixes E :: env and plain :: "u32 set"
  assumes window: "mpb_sel t \<in> plain \<Longrightarrow> hw_read E t Pcie_bar 0x100 = mpb_file t (mpb_sel t)"
begin

lemma read_value:
  "m + off \<in> plain \<Longrightarrow>
   fst (bxroce_mpb_reg_read E m off s) = mpb_file (trace s) (m + off)"
  by (simp add: bxroce_mpb_reg_read_def readl_def mpb_addr_defs Let_def window)

lemma read_after_write:
  "m + off \<in> plain \<Longrightarrow>
   fst (bxroce_mpb_reg_read E m off (bxroce_mpb_reg_write m off v s)) = v"
  by (simp add: read_value)

end

lemma mpb_file_write:
  "mpb_file (trace (bxroce_mpb_reg_write m off v s)) i =
     (if i = m + off then v else mpb_file (trace s) i)"
  by simp

lemma mpb_file_read:
  "mpb_file (trace (snd (bxroce_mpb_reg_read E m off s))) i = mpb_file (trace s) i"
  by simp

text \<open>The environment that is exactly this register file, with every request granted.\<close>

definition file_env :: env where
  "file_env = \<lparr>hw_read = (\<lambda>t r a. if r = Pcie_bar \<and> a = 0x100 then mpb_file t (mpb_sel t) else 0),
     alloc_ok = (\<lambda>_. True), dma_addr = (\<lambda>t. of_nat (length t) * 0x1000), copy_ok = (\<lambda>_. True)\<rparr>"

interpretation file_device: mpb_device file_env UNIV
  by unfold_locales (simp add: file_env_def)

section \<open>Polling loops\<close>

text \<open>\<open>while (op & 0x1) op = bxroce_mpb_reg_read(dev, base_addr, module, offset);\<close>\<close>

partial_function (option) poll_busy :: "env \<Rightarrow> u32 \<Rightarrow> u32 \<Rightarrow> u32 \<Rightarrow> kern \<Rightarrow> kern option" where
  "poll_busy E m off op s =
     (if bit op 0
      then poll_busy E m off (fst (bxroce_mpb_reg_read E m off s))
             (snd (bxroce_mpb_reg_read E m off s))
      else Some s)"

text \<open>\<open>do { v = read } while (v != 0);\<close>\<close>

partial_function (option) poll_zero :: "env \<Rightarrow> u32 \<Rightarrow> u32 \<Rightarrow> kern \<Rightarrow> kern option" where
  "poll_zero E m off s =
     (if fst (bxroce_mpb_reg_read E m off s) = 0 then Some (snd (bxroce_mpb_reg_read E m off s))
      else poll_zero E m off (snd (bxroce_mpb_reg_read E m off s)))"

text \<open>The value of the k-th read of a run of reads, and the state after it.\<close>

fun poll_read :: "env \<Rightarrow> u32 \<Rightarrow> u32 \<Rightarrow> nat \<Rightarrow> kern \<Rightarrow> u32 \<times> kern" where
  "poll_read E m off 0 s = bxroce_mpb_reg_read E m off s"
| "poll_read E m off (Suc k) s = poll_read E m off k (snd (bxroce_mpb_reg_read E m off s))"

lemma poll_busy_clear: "\<not> bit op 0 \<Longrightarrow> poll_busy E m off op s = Some s"
  by (simp add: poll_busy.simps)

lemma poll_busy_returns:
  assumes "\<not> bit (fst (poll_read E m off k s)) 0"
  shows "\<exists>s'. poll_busy E m off op s = Some s'"
  using assms
proof (induction k arbitrary: op s)
  case 0
  then show ?case
    by (subst poll_busy.simps) (simp add: poll_busy_clear)
next
  case (Suc k)
  then show ?case by (subst poll_busy.simps) simp
qed

lemma poll_busy_only_if:
  assumes "poll_busy E m off op s = Some s'"
  shows "\<not> bit op 0 \<or> (\<exists>k. \<not> bit (fst (poll_read E m off k s)) 0)"
proof (rule poll_busy.raw_induct
    [where P = "\<lambda>E m off op s s'. \<not> bit op 0 \<or> (\<exists>k. \<not> bit (fst (poll_read E m off k s)) 0)",
      OF _ assms])
  fix f E m off op s s'
  let ?r = "bxroce_mpb_reg_read E m off s"
  assume IH: "\<And>E m off op s s'. f E m off op s = Some s' \<Longrightarrow>
      \<not> bit op 0 \<or> (\<exists>k. \<not> bit (fst (poll_read E m off k s)) 0)"
    and eq: "(if bit op 0 then f E m off (fst ?r) (snd ?r) else Some s) = Some s'"
  show "\<not> bit op 0 \<or> (\<exists>k. \<not> bit (fst (poll_read E m off k s)) 0)"
  proof (cases "bit op 0")
    case True
    with eq have "\<not> bit (fst ?r) 0 \<or> (\<exists>k. \<not> bit (fst (poll_read E m off k (snd ?r))) 0)"
      by (auto dest: IH)
    then show ?thesis by (metis poll_read.simps)
  qed simp
qed

lemma poll_busy_iff:
  "(\<exists>s'. poll_busy E m off op s = Some s') \<longleftrightarrow>
   \<not> bit op 0 \<or> (\<exists>k. \<not> bit (fst (poll_read E m off k s)) 0)"
  using poll_busy_returns poll_busy_only_if poll_busy_clear by metis

lemma poll_zero_returns:
  assumes "fst (poll_read E m off k s) = 0"
  shows "\<exists>s'. poll_zero E m off s = Some s'"
  using assms
proof (induction k arbitrary: s)
  case 0
  then show ?case by (subst poll_zero.simps) simp
next
  case (Suc k)
  then show ?case by (subst poll_zero.simps) simp
qed

text \<open>A poll leaves only window reads of its own register behind.\<close>

inductive window_reads :: "u32 \<Rightarrow> event list \<Rightarrow> event list \<Rightarrow> bool" for i where
  window_reads_none: "window_reads i t t"
| window_reads_read:
    "window_reads i t u \<Longrightarrow> window_reads i t (Eread Pcie_bar 0x100 v # Ewrite Pcie_bar 0 i # u)"

lemma window_reads_first:
  "window_reads i (Eread Pcie_bar 0x100 v # Ewrite Pcie_bar 0 i # t) u \<Longrightarrow> window_reads i t u"
  by (induction "Eread Pcie_bar 0x100 v # Ewrite Pcie_bar 0 i # t" u rule: window_reads.induct)
    (auto intro: window_reads.intros)

lemma poll_busy_trace:
  assumes "poll_busy E m off op s = Some s'"
  shows "window_reads (m + off) (trace s) (trace s') \<and> next_obj s' = next_obj s"
proof (rule poll_busy.raw_induct
    [where P = "\<lambda>E m off op s s'. window_reads (m + off) (trace s) (trace s') \<and>
        next_obj s' = next_obj s", OF _ assms])
  fix f E m off op s s'
  let ?r = "bxroce_mpb_reg_read E m off s"
  assume IH: "\<And>E m off op s s'. f E m off op s = Some s' \<Longrightarrow>
      window_reads (m + off) (trace s) (trace s') \<and> next_obj s' = next_obj s"
    and eq: "(if bit op 0 then f E m off (fst ?r) (snd ?r) else Some s) = Some s'"
  show "window_reads (m + off) (trace s) (trace s') \<and> next_obj s' = next_obj s"
  proof (cases "bit op 0")
    case True
    with eq have "window_reads (m + off) (trace (snd ?r)) (trace s') \<and>
        next_obj s' = next_obj (snd ?r)"
      by (auto dest: IH)
    then show ?thesis by (auto intro: window_reads_first)
  next
    case False
    with eq show ?thesis by (auto intro: window_reads_none)
  qed
qed

lemma poll_zero_only_if:
  assumes "poll_zero E m off s = Some s'"
  shows "(\<exists>k. fst (poll_read E m off k s) = 0) \<and> window_reads (m + off) (trace s) (trace s')"
proof (rule poll_zero.raw_induct
    [where P = "\<lambda>E m off s s'. (\<exists>k. fst (poll_read E m off k s) = 0) \<and>
        window_reads (m + off) (trace s) (trace s')", OF _ assms])
  fix f E m off s s'
  let ?r = "bxroce_mpb_reg_read E m off s"
  assume IH: "\<And>E m off s s'. f E m off s = Some s' \<Longrightarrow>
      (\<exists>k. fst (poll_read E m off k s) = 0) \<and> window_reads (m + off) (trace s) (trace s')"
    and eq: "(if fst ?r = 0 then Some (snd ?r) else f E m off (snd ?r)) = Some s'"
  have one: "window_reads (m + off) (trace s) (trace (snd ?r))"
    by (simp add: window_reads.intros)
  show "(\<exists>k. fst (poll_read E m off k s) = 0) \<and> window_reads (m + off) (trace s) (trace s')"
  proof (cases "fst ?r = 0")
    case True
    with eq one show ?thesis by (auto intro: exI [of _ 0])
  next
    case False
    with eq have "f E m off (snd ?r) = Some s'" by simp
    then obtain k where k: "fst (poll_read E m off k (snd ?r)) = 0"
      and w: "window_reads (m + off) (trace (snd ?r)) (trace s')" using IH by blast
    from k have "fst (poll_read E m off (Suc k) s) = 0" by simp
    moreover from w have "window_reads (m + off) (trace s) (trace s')"
      by (auto intro: window_reads_first)
    ultimately show ?thesis by blast
  qed
qed

lemma poll_zero_iff:
  "(\<exists>s'. poll_zero E m off s = Some s') \<longleftrightarrow> (\<exists>k. fst (poll_read E m off k s) = 0)"
  using poll_zero_returns poll_zero_only_if by blast

lemma window_reads_file: "window_reads i t u \<Longrightarrow> mpb_file u j = mpb_file t j"
  by (induction rule: window_reads.induct) auto

lemma window_reads_held: "window_reads i t u \<Longrightarrow> held l u = held l t"
  by (induction rule: window_reads.induct) auto

lemma window_reads_live: "window_reads i t u \<Longrightarrow> live_objs u = live_objs t"
  by (induction rule: window_reads.induct) auto

section \<open>Properties\<close>

text \<open>
  On a card whose internal registers in \<open>plain\<close> keep what is written to them, a register
  written through the window reads back the value, and reading another plain register is not
  affected by the write.
\<close>

theorem mpb_read_after_write:
  assumes "mpb_device E plain" and "m + off \<in> plain" and "m' + off' \<in> plain"
  shows "fst (bxroce_mpb_reg_read E m' off' (bxroce_mpb_reg_write m off v s)) =
    (if m' + off' = m + off then v else fst (bxroce_mpb_reg_read E m' off' s))"
  using mpb_device.read_value [OF assms(1,3)] mpb_file_write by simp

theorem mpb_read_after_write_witness:
  "fst (bxroce_mpb_reg_read file_env 0 0x4024 (bxroce_mpb_reg_write 0 0x4024 7 empty_kern)) = 7"
  using mpb_read_after_write [OF file_device.mpb_device_axioms, of 0 "0x4024" 0 "0x4024"] by simp

text \<open>
  The polling loop on a busy bit returns exactly when the bit is clear to begin with or
  some later read of the register gives it clear; it issues nothing but reads of that
  register, and changes no lock and no allocation.
\<close>

theorem poll_busy_exact:
  "((\<exists>s'. poll_busy E m off op s = Some s') \<longleftrightarrow>
      \<not> bit op 0 \<or> (\<exists>k. \<not> bit (fst (poll_read E m off k s)) 0)) \<and>
   (\<forall>s'. poll_busy E m off op s = Some s' \<longrightarrow>
      window_reads (m + off) (trace s) (trace s') \<and>
      held l (trace s') = held l (trace s) \<and> live_objs (trace s') = live_objs (trace s))"
  using poll_busy_iff poll_busy_trace window_reads_held window_reads_live by blast

theorem poll_busy_exact_witness:
  "\<exists>s'. poll_busy file_env 0 0x4004 3 empty_kern = Some s'"
  using poll_busy_exact [of file_env 0 "0x4004" 3 empty_kern]
    file_device.read_value [of 0 "0x4004" empty_kern]
  by (metis UNIV_I bit_0_eq bot_apply bot_bool_def mpb_file.simps(1) poll_read.simps(1)
      select_convs(1) empty_kern_def kern.select_convs(1))

end
