(* ===== verification/Pool_Correct.thy ===== *)
theory Pool_Correct
  imports Pool Mpb
begin

text \<open>
  The invariant of an indexed pool and what its operations do. A bit of the table is set
  exactly for the indices of the objects in the tree, the tree is a search tree, the counters
  count, and there are at least as many indices as objects. Every operation that a client may
  call keeps the invariant and is defined: no bit outside the table, no freed object.
\<close>

definition offset_of :: "'a pool \<Rightarrow> nat \<Rightarrow> nat" where
  "offset_of p e = unat (index_of p e - min_index p)"

definition indexed :: "'a pool \<Rightarrow> nat set" where
  "indexed p = set_tree (tree p)"

text \<open>A cleanup function does not make allocated identities fresh again.\<close>

definition cleanup_ok :: "('a elem_scheme \<Rightarrow> kern \<Rightarrow> kern) option \<Rightarrow> bool" where
  "cleanup_ok c \<longleftrightarrow>
     (case c of None \<Rightarrow> True | Some cl \<Rightarrow> \<forall>el s. next_obj s \<le> next_obj (cl el s))"

definition limits_ok :: "'a pool \<Rightarrow> bool" where
  "limits_ok p \<longleftrightarrow> max_elem p \<le> index_range p \<and> max_elem p < - 1 \<and>
     table_size p = longs_size (unat (index_range p)) \<and>
     cleanup_ok (cleanup p)"

definition counts_ok :: "'a pool \<Rightarrow> kern \<Rightarrow> bool" where
  "counts_ok p s \<longleftrightarrow> finite (dom (elems p)) \<and> unat (num_elem p) = card (dom (elems p)) \<and>
     num_elem p \<le> max_elem p \<and>
     pool_ref p = card (dom (elems p)) + (if state p = BXROCE_POOL_STATE_VALID then 1 else 0) \<and>
     (pool_ref p > 0 \<longrightarrow> table p \<noteq> None) \<and>
     (\<forall>e el. elems p e = Some el \<longrightarrow> 0 < ref_cnt el \<and> e < next_obj s)"

definition index_ok :: "'a pool \<Rightarrow> bool" where
  "index_ok p \<longleftrightarrow> indexed p \<subseteq> dom (elems p) \<and> ordered (index_of p) (tree p) \<and>
     (\<forall>e \<in> indexed p. offset_of p e < unat (index_range p)) \<and>
     (\<forall>i. i < unat (index_range p) \<longrightarrow> bits p i = (i \<in> offset_of p ` indexed p))"

definition pool_ok :: "'a pool \<Rightarrow> kern \<Rightarrow> bool" where
  "pool_ok p s \<longleftrightarrow> limits_ok p \<and> counts_ok p s \<and> index_ok p"

text \<open>What a pool stands for: a finite map from indices to objects.\<close>

definition pool_abs :: "'a pool \<Rightarrow> u32 \<Rightarrow> nat option" where
  "pool_abs p i =
     find_node (\<lambda>e. cmp_index (index_of p e) i) (tree p)"

section \<open>Lemmas\<close>

lemma pool_abs_Some:
  "index_ok p \<Longrightarrow> pool_abs p i = Some e \<longleftrightarrow> e \<in> indexed p \<and> index_of p e = i"
  using find_node_Some [OF _ cmp_index_agrees, of "index_of p" "tree p" i e]
  by (simp add: pool_abs_def index_ok_def indexed_def)

lemma longs_size_enough: "n \<le> 8 * longs_size n"
  unfolding longs_size_def by presburger

lemma offset_of_inj: "offset_of p e = offset_of p e' \<longleftrightarrow> index_of p e = index_of p e'"
  by (simp add: offset_of_def word_unat_eq_iff [symmetric])

lemma free_offset:
  assumes "pool_ok p s" and "e \<in> dom (elems p)" and "e \<notin> indexed p"
  shows "\<exists>i < unat (index_range p). \<not> bits p i"
proof (rule ccontr)
  assume "\<not> ?thesis"
  with assms(1) have "{..<unat (index_range p)} \<subseteq> offset_of p ` indexed p"
    by (auto simp: pool_ok_def index_ok_def)
  moreover have fin: "finite (dom (elems p))" and sub: "indexed p \<subset> dom (elems p)"
    using assms by (auto simp: pool_ok_def counts_ok_def index_ok_def)
  ultimately have "unat (index_range p) \<le> card (indexed p)"
    by (metis card_image_le card_lessThan card_mono finite_imageI finite_subset le_trans psubset_imp_subset)
  also have "\<dots> < card (dom (elems p))" using psubset_card_mono [OF fin sub] .
  also have "\<dots> \<le> unat (max_elem p)"
    using assms(1) by (auto simp: pool_ok_def counts_ok_def word_le_nat_alt)
  also have "\<dots> \<le> unat (index_range p)"
    using assms(1) by (auto simp: pool_ok_def limits_ok_def word_le_nat_alt)
  finally show False by simp
qed

context zero_bit_search
begin

lemma alloc_index_found:
  assumes free: "\<exists>i < unat (index_range p). \<not> bits p i"
    and tab: "table p \<noteq> None" "table_size p = longs_size (unat (index_range p))"
  shows "\<exists>i. alloc_index fnz ffz p =
      Some (i + min_index p, p\<lparr>bits := set_bit_at (unat i) (bits p), last_index := i\<rparr>) \<and>
    i < index_range p \<and> \<not> bits p (unat i)"
proof -
  let ?n = "unat (index_range p)"
  let ?a = "fnz (bits p) ?n (unat (last_index p))"
  let ?b = "ffz (bits p) ?n"
  have small: "?a < 2 ^ 32" "?b < 2 ^ 32"
    using next_size [of "bits p" ?n "unat (last_index p)"] first_size [of "bits p" ?n]
      unat_u32_less [of "index_range p"] by linarith+
  then have un: "unat (word_of_nat ?a :: u32) = ?a" "unat (word_of_nat ?b :: u32) = ?b"
    by simp_all
  define i :: u32 where "i = (if ?a \<ge> ?n then word_of_nat ?b else word_of_nat ?a)"
  have "?b < ?n" using free first_none [of ?n "bits p"] by (meson not_le)
  then have i: "unat i < ?n" "\<not> bits p (unat i)"
    using next_found [of "bits p" ?n "unat (last_index p)"] first_found [of "bits p" ?n]
    by (auto simp: i_def un)
  then have "table_bit p (unat i)"
    using tab longs_size_enough [of ?n] by (simp add: table_bit_def)
  then show ?thesis
    using i by (auto simp: alloc_index_def Let_def i_def word_le_nat_alt word_less_nat_alt un)
qed

end

lemma index_of_update:
  "index_of (p\<lparr>elems := (elems p)(e \<mapsto> el)\<rparr>) e' = (if e' = e then index el else index_of p e')"
  by (simp add: index_of_def)

lemma index_of_other [simp]:
  "index_of (p\<lparr>tree := t\<rparr>) = index_of p" "index_of (p\<lparr>bits := b\<rparr>) = index_of p"
  "index_of (p\<lparr>last_index := i\<rparr>) = index_of p" "index_of (p\<lparr>pool_ref := r\<rparr>) = index_of p"
  "index_of (p\<lparr>num_elem := n\<rparr>) = index_of p" "index_of (p\<lparr>state := st\<rparr>) = index_of p"
  "index_of (p\<lparr>table := tb\<rparr>) = index_of p"
  by (auto simp: index_of_def)

lemma ok_updates [simp]:
  "limits_ok (p\<lparr>tree := t\<rparr>) = limits_ok p" "limits_ok (p\<lparr>bits := b\<rparr>) = limits_ok p"
  "limits_ok (p\<lparr>last_index := i\<rparr>) = limits_ok p" "limits_ok (p\<lparr>elems := es\<rparr>) = limits_ok p"
  "limits_ok (p\<lparr>pool_ref := r\<rparr>) = limits_ok p" "limits_ok (p\<lparr>num_elem := n\<rparr>) = limits_ok p"
  "limits_ok (p\<lparr>state := st\<rparr>) = limits_ok p" "limits_ok (p\<lparr>table := tb\<rparr>) = limits_ok p"
  "counts_ok (p\<lparr>tree := t\<rparr>) s = counts_ok p s" "counts_ok (p\<lparr>bits := b\<rparr>) s = counts_ok p s"
  "counts_ok (p\<lparr>last_index := i\<rparr>) s = counts_ok p s"
  by (simp_all add: limits_ok_def counts_ok_def index_range_def)

lemma pool_ok_later: "pool_ok p s \<Longrightarrow> next_obj s \<le> next_obj s' \<Longrightarrow> pool_ok p s'"
  unfolding pool_ok_def counts_ok_def using less_le_trans by blast

lemma counts_ok_update:
  assumes "counts_ok p s" and "elems p e = Some el" and "0 < ref_cnt el'"
  shows "counts_ok (p\<lparr>elems := (elems p)(e \<mapsto> el')\<rparr>) s"
proof -
  have "dom ((elems p)(e \<mapsto> el')) = dom (elems p)" using assms(2) by auto
  then show ?thesis using assms by (simp add: counts_ok_def del: dom_fun_upd)
qed

text \<open>An insertion keeps the rebalanced tree a search tree that has the new object.\<close>

lemma insert_index_tree:
  assumes rb: "rbtree_api rb_insert_color rb_erase" and o: "ordered (index_of p) (tree p)"
    and new: "index_of p e \<notin> index_of p ` set_tree (tree p)"
  shows "\<exists>t. insert_index rb_insert_color p e = p\<lparr>tree := t\<rparr> \<and> ordered (index_of p) t \<and>
    set_tree t = insert e (set_tree (tree p))"
proof -
  let ?cmp = "\<lambda>a. cmp_index (index_of p a) (index_of p e)"
  obtain t where t: "link_node ?cmp e (tree p) = Some t"
    using link_node_exists [OF o cmp_index_agrees new] by blast
  have "ordered (index_of p) t" "set_tree t = insert e (set_tree (tree p))"
    using link_node_ordered [OF t o cmp_index_agrees] link_node_set [OF t] by simp_all
  moreover from this have "inorder (rb_insert_color e t) = inorder t"
    using rbtree_api.insert_color_inorder [OF rb, of e t] by simp
  ultimately have "ordered (index_of p) (rb_insert_color e t) \<and>
      set_tree (rb_insert_color e t) = insert e (set_tree (tree p))"
    using ordered_inorder set_tree_inorder by metis
  then show ?thesis using t by (auto simp: insert_index_def)
qed

locale pool_env =
  zero_bit_search fnz ffz + rbtree_api rb_insert_color rb_erase
  for fnz ffz rb_insert_color rb_erase
begin

lemma add_index_ok:
  assumes ok: "pool_ok p s" and e: "e \<in> dom (elems p)" "e \<notin> indexed p"
  shows "\<exists>p' i. bxroce_add_index fnz ffz rb_insert_color e p = Some p' \<and> pool_ok p' s \<and>
    i - min_index p < index_range p \<and> pool_abs p i = None \<and> pool_abs p' = (pool_abs p)(i \<mapsto> e)"
proof -
  note defs = pool_ok_def limits_ok_def counts_ok_def index_ok_def
  have ref: "0 < pool_ref p"
    using ok e(1) card_gt_0_iff [of "dom (elems p)"] by (auto simp: pool_ok_def counts_ok_def)
  then have tab: "table p \<noteq> None" "table_size p = longs_size (unat (index_range p))"
    using ok by (auto simp: defs)
  obtain i where al: "alloc_index fnz ffz p =
      Some (i + min_index p, p\<lparr>bits := set_bit_at (unat i) (bits p), last_index := i\<rparr>)"
    and i: "i < index_range p" "\<not> bits p (unat i)"
    using alloc_index_found [OF free_offset [OF ok e] tab] by blast
  obtain el where el: "elems p e = Some el" using e(1) by blast
  define q where "q = p\<lparr>bits := set_bit_at (unat i) (bits p), last_index := i,
      elems := (elems p)(e \<mapsto> el\<lparr>index := i + min_index p\<rparr>)\<rparr>"
  have same: "index_of q a = index_of p a" if "a \<noteq> e" for a
    using that by (simp add: q_def index_of_def)
  have qe: "index_of q e = i + min_index p" by (simp add: q_def index_of_def)
  have off: "offset_of q a = (if a = e then unat i else offset_of p a)" for a
    using same qe by (simp add: offset_of_def) (simp add: q_def)
  have tq: "tree q = tree p" by (simp add: q_def)
  have "ordered (index_of q) (tree p) = ordered (index_of p) (tree p)"
    by (rule ordered_cong) (metis e(2) indexed_def same)
  then have ordq: "ordered (index_of q) (tree q)"
    using ok tq by (simp add: pool_ok_def index_ok_def)
  have free: "unat i \<notin> offset_of p ` indexed p"
    using ok i by (auto simp: pool_ok_def index_ok_def word_less_nat_alt)
  have "index_of q a \<noteq> index_of q e" if "a \<in> indexed p" for a
  proof -
    have "a \<noteq> e" using that e(2) by blast
    have "offset_of p a \<in> offset_of p ` indexed p" using that by (rule imageI)
    with free have "offset_of p a \<noteq> unat i" by metis
    then show ?thesis using \<open>a \<noteq> e\<close> off [of a] off [of e] offset_of_inj [of q a e] by simp
  qed
  then have "index_of q e \<notin> index_of q ` set_tree (tree q)"
    unfolding tq by (metis (no_types, lifting) imageE indexed_def)
  then obtain t where ins: "insert_index rb_insert_color q e = q\<lparr>tree := t\<rparr>"
    and t: "ordered (index_of q) t" "set_tree t = insert e (indexed p)"
    using insert_index_tree [OF rbtree_api_axioms ordq, of e] by (auto simp: q_def indexed_def)
  let ?p' = "q\<lparr>tree := t\<rparr>"
  have run: "bxroce_add_index fnz ffz rb_insert_color e p = Some ?p'"
    using al el ins by (simp add: bxroce_add_index_def q_def)
  have off': "offset_of ?p' = offset_of q" by (auto simp: offset_of_def)
  have ix: "index_ok ?p'"
    using ok i t e off off' free
    by (auto simp: pool_ok_def index_ok_def indexed_def q_def index_range_def word_less_nat_alt)
  have "limits_ok ?p'" using ok by (simp add: pool_ok_def q_def)
  moreover have "counts_ok ?p' s"
    using ok el counts_ok_update [of p s e el "el\<lparr>index := i + min_index p\<rparr>"]
    by (auto simp: pool_ok_def counts_ok_def q_def)
  ultimately have ok': "pool_ok ?p' s" using ix by (simp add: pool_ok_def)
  have ixp: "index_ok p" using ok by (simp add: pool_ok_def)
  have none: "pool_abs p (i + min_index p) = None"
  proof (cases "pool_abs p (i + min_index p)")
    case (Some a)
    then have "a \<in> indexed p" "offset_of p a = unat i"
      using pool_abs_Some [OF ixp] by (auto simp: offset_of_def)
    then show ?thesis using free by (metis imageI)
  qed
  have none': "index_of p a \<noteq> i + min_index p" if "a \<in> indexed p" for a
    using that none pool_abs_Some [OF ixp] by (metis option.distinct(1))
  have "pool_abs ?p' j = Some a \<longleftrightarrow> ((pool_abs p)(i + min_index p \<mapsto> e)) j = Some a" for j a
    using pool_abs_Some [OF ix, of j a] pool_abs_Some [OF ixp, of j a] t(2) same qe e(2)
      none' [of a]
    by (cases "a = e") (auto simp: indexed_def pool_abs_Some [OF ixp])
  then have "pool_abs ?p' = (pool_abs p)(i + min_index p \<mapsto> e)"
    by (intro ext) (metis not_Some_eq)
  then show ?thesis using run ok' none i by force
qed

lemma drop_index_ok:
  assumes ok: "pool_ok p s" and e: "e \<in> indexed p"
  shows "\<exists>p'. bxroce_drop_index rb_erase e p = Some p' \<and> pool_ok p' s \<and>
    pool_abs p' = (pool_abs p)(index_of p e := None) \<and> indexed p' = indexed p - {e}"
proof -
  have ix: "index_ok p" and c: "counts_ok p s" and l: "limits_ok p"
    using ok by (simp_all add: pool_ok_def)
  obtain el where el: "elems p e = Some el" using ix e by (auto simp: index_ok_def)
  have o: "ordered (index_of p) (tree p)" using ix by (simp add: index_ok_def)
  have off: "unat (index el - min_index p) = offset_of p e"
    using el by (simp add: offset_of_def index_of_def)
  have lt: "offset_of p e < unat (index_range p)" using ix e by (simp add: index_ok_def)
  have "0 < pool_ref p"
    using c el card_gt_0_iff [of "dom (elems p)"] by (auto simp: counts_ok_def)
  then have tab: "table_bit p (offset_of p e)"
    using c l lt longs_size_enough [of "unat (index_range p)"]
    by (simp add: table_bit_def counts_ok_def limits_ok_def)
  let ?t = "rb_erase e (tree p)"
  let ?p' = "p\<lparr>bits := clear_bit_at (offset_of p e) (bits p), tree := ?t\<rparr>"
  have i: "inorder ?t = remove1 e (inorder (tree p))"
    using erase_inorder ordered_distinct [OF o] e by (simp add: indexed_def)
  have set_t: "set_tree ?t = indexed p - {e}"
    using ordered_distinct [OF o] set_inorder [of ?t] by (simp add: i indexed_def)
  have ix': "index_ok ?p'"
  proof -
    have "bits ?p' j = (j \<in> offset_of p ` (indexed p - {e}))" if "j < unat (index_range p)" for j
    proof -
      have "offset_of p a \<noteq> offset_of p e" if "a \<in> indexed p" "a \<noteq> e" for a
        using that e inj_onD [OF ordered_inj [OF o], of a e] by (auto simp: offset_of_inj indexed_def)
      then show ?thesis using ix that by (auto simp: index_ok_def)
    qed
    moreover have "offset_of ?p' = offset_of p" by (auto simp: offset_of_def)
    ultimately show ?thesis
      using ix ordered_remove1 [OF o i] set_t
      by (auto simp: index_ok_def indexed_def index_range_def)
  qed
  have run: "bxroce_drop_index rb_erase e p = Some ?p'"
    using el tab e by (simp add: bxroce_drop_index_def off indexed_def Let_def)
  have idx': "indexed ?p' = indexed p - {e}" using set_t by (simp add: indexed_def)
  have "pool_abs ?p' j = Some a \<longleftrightarrow> ((pool_abs p)(index_of p e := None)) j = Some a" for j a
    using pool_abs_Some [OF ix', of j a] pool_abs_Some [OF ix, of j a] idx' e
      inj_onD [OF ordered_inj [OF o], of a e] by (auto simp: indexed_def)
  then have "pool_abs ?p' = (pool_abs p)(index_of p e := None)"
    by (intro ext) (metis not_Some_eq)
  then show ?thesis using run ix' c l idx' by (simp add: pool_ok_def)
qed

end

text \<open>A change of an object that keeps its index keeps the invariant of the tree.\<close>

lemma index_ok_update:
  assumes "index_ok p" and "elems p e = Some el" and "index el' = index el"
  shows "index_ok (p\<lparr>elems := (elems p)(e \<mapsto> el')\<rparr>)"
    and "pool_abs (p\<lparr>elems := (elems p)(e \<mapsto> el')\<rparr>) = pool_abs p"
proof -
  have i: "index_of (p\<lparr>elems := (elems p)(e \<mapsto> el')\<rparr>) = index_of p"
    using assms(2,3) by (auto simp: index_of_def)
  then have "offset_of (p\<lparr>elems := (elems p)(e \<mapsto> el')\<rparr>) = offset_of p"
    by (auto simp: offset_of_def)
  then show "index_ok (p\<lparr>elems := (elems p)(e \<mapsto> el')\<rparr>)"
    using assms(1) i by (auto simp: index_ok_def indexed_def index_range_def)
  show "pool_abs (p\<lparr>elems := (elems p)(e \<mapsto> el')\<rparr>) = pool_abs p"
    using i by (auto simp: pool_abs_def)
qed

text \<open>So does a change of the objects that are not in the tree.\<close>

lemma index_ok_outside:
  assumes "index_ok p" and "e \<notin> indexed p"
  shows "index_ok (p\<lparr>elems := (elems p)(e := x)\<rparr>)"
    and "pool_abs (p\<lparr>elems := (elems p)(e := x)\<rparr>) = pool_abs p"
proof -
  let ?q = "p\<lparr>elems := (elems p)(e := x)\<rparr>"
  have i: "index_of ?q a = index_of p a" if "a \<in> indexed p" for a
    using that assms(2) by (auto simp: index_of_def)
  then have off: "offset_of ?q a = offset_of p a" if "a \<in> indexed p" for a
    using that by (simp add: offset_of_def)
  have "ordered (index_of ?q) (tree p) = ordered (index_of p) (tree p)"
    by (rule ordered_cong) (metis i indexed_def)
  then show ix: "index_ok ?q"
    using assms off
    by (auto simp: index_ok_def indexed_def index_range_def image_iff)
  have "indexed ?q = indexed p" by (simp add: indexed_def)
  then have "pool_abs ?q j = Some a \<longleftrightarrow> pool_abs p j = Some a" for j a
    using pool_abs_Some [OF ix, of j a] pool_abs_Some [OF assms(1), of j a] i [of a] by auto
  then show "pool_abs ?q = pool_abs p" by (intro ext) (metis not_Some_eq)
qed

lemma index_ok_updates [simp]:
  "index_ok (p\<lparr>pool_ref := r\<rparr>) = index_ok p" "index_ok (p\<lparr>num_elem := n\<rparr>) = index_ok p"
  "index_ok (p\<lparr>state := st\<rparr>) = index_ok p" "index_ok (p\<lparr>table := tb\<rparr>) = index_ok p"
  by (simp_all add: index_ok_def indexed_def index_range_def offset_of_def)

lemma pool_abs_updates [simp]:
  "pool_abs (p\<lparr>pool_ref := r\<rparr>) = pool_abs p" "pool_abs (p\<lparr>num_elem := n\<rparr>) = pool_abs p"
  "pool_abs (p\<lparr>state := st\<rparr>) = pool_abs p" "pool_abs (p\<lparr>table := tb\<rparr>) = pool_abs p"
  by (auto simp: pool_abs_def fun_eq_iff)

lemma indexed_updates [simp]:
  "indexed (p\<lparr>pool_ref := r\<rparr>) = indexed p" "indexed (p\<lparr>num_elem := n\<rparr>) = indexed p"
  "indexed (p\<lparr>state := st\<rparr>) = indexed p" "indexed (p\<lparr>table := tb\<rparr>) = indexed p"
  "indexed (p\<lparr>elems := es\<rparr>) = indexed p" "indexed (p\<lparr>bits := b\<rparr>) = indexed p"
  by (simp_all add: indexed_def)

lemma counts_positive: "counts_ok p s \<Longrightarrow> e \<in> dom (elems p) \<Longrightarrow> 0 < card (dom (elems p))"
  using card_gt_0_iff [of "dom (elems p)"] by (auto simp: counts_ok_def)

section \<open>Allocation and reference counts\<close>

lemma unat_succ_u32: "(n :: u32) < - 1 \<Longrightarrow> unat (n + 1) = Suc (unat n)"
  by (metis add.commute eq_neg_iff_add_eq_0 less_irrefl unatSuc)

lemma unat_pred_u32: "0 < unat (n :: u32) \<Longrightarrow> unat (n - 1) = unat n - 1"
  by (metis less_irrefl unat_0 unat_minus_one)

text \<open>
  An allocation of a valid pool gives a fresh object with one reference, or leaves the pool as
  it was; it fails exactly when the pool is full or the kernel has no memory.
\<close>

lemma bxroce_alloc_cases:
  assumes ok: "pool_ok p s" and al: "bxroce_alloc E z p s = (r, p', s')"
  shows "case r of
      None \<Rightarrow> p' = p \<and> pool_ok p' s' \<and>
        (state p = BXROCE_POOL_STATE_VALID \<longrightarrow> num_elem p = max_elem p \<or> \<not> alloc_ok E (trace s))
    | Some e \<Rightarrow> state p = BXROCE_POOL_STATE_VALID \<and> num_elem p < max_elem p \<and>
        e = next_obj s \<and> e \<notin> dom (elems p) \<and> pool_ok p' s' \<and>
        elems p' = (elems p)(e \<mapsto> z\<lparr>ref_cnt := 1\<rparr>) \<and>
        pool_abs p' = pool_abs p \<and> indexed p' = indexed p \<and> e \<notin> indexed p"
proof -
  have c: "counts_ok p s" and l: "limits_ok p" and ix: "index_ok p"
    using ok by (simp_all add: pool_ok_def)
  show ?thesis
  proof (cases "state p = BXROCE_POOL_STATE_VALID")
    case False
    then show ?thesis using al ok by (auto simp: bxroce_alloc_def)
  next
    case valid: True
    have le: "num_elem p \<le> max_elem p" "max_elem p < - 1"
      using c l by (simp_all add: counts_ok_def limits_ok_def)
    then have suc: "unat (num_elem p + 1) = Suc (unat (num_elem p))"
      by (intro unat_succ_u32) (rule le_less_trans)
    have undo: "bxroce_pool_put (p\<lparr>pool_ref := Suc (pool_ref p), num_elem := num_elem p\<rparr>) t
        = (p, t)" for t :: kern
      using c valid by (auto simp: bxroce_pool_put_def counts_ok_def)
    show ?thesis
    proof (cases "num_elem p + 1 > max_elem p")
      case True
      then have "num_elem p = max_elem p"
        using le suc by (simp add: word_le_nat_alt word_less_nat_alt word_unat_eq_iff)
      moreover have "r = None" "p' = p" "s' = s"
        using al valid True undo by (auto simp: bxroce_alloc_def Let_def)
      ultimately show ?thesis using ok by simp
    next
      case room: False
      show ?thesis
      proof (cases "alloc_ok E (trace s)")
        case False
        then have "r = None" "p' = p" "s' = emit Ekalloc_fail s"
          using al valid room undo by (auto simp: bxroce_alloc_def Let_def kalloc_def)
        moreover have "pool_ok p (emit Ekalloc_fail s)"
          using ok by (simp add: pool_ok_def counts_ok_def)
        ultimately show ?thesis using False by simp
      next
        case True
        let ?e = "next_obj s"
        have fresh: "?e \<notin> dom (elems p)" using c by (auto simp: counts_ok_def)
        have out: "?e \<notin> indexed p" using ix fresh by (auto simp: index_ok_def)
        have p': "r = Some ?e" "next_obj s' = Suc (next_obj s)"
          "p' = p\<lparr>pool_ref := Suc (pool_ref p), num_elem := num_elem p + 1,
              elems := (elems p)(?e \<mapsto> z\<lparr>ref_cnt := 1\<rparr>)\<rparr>"
          using al valid room True by (auto simp: bxroce_alloc_def Let_def kalloc_def)
        have "num_elem p < max_elem p"
          using room suc by (simp add: word_less_nat_alt)
        moreover have "counts_ok p' s'"
          using c fresh valid room suc p'(2) unfolding p'(3)
          by (auto simp: counts_ok_def not_less less_Suc_eq)
        moreover have "index_ok p'" "pool_abs p' = pool_abs p"
          using index_ok_outside [of "p\<lparr>pool_ref := Suc (pool_ref p), num_elem := num_elem p + 1\<rparr>" ?e] ix out
          unfolding p'(3) by simp_all
        ultimately show ?thesis
          using p' valid fresh out l by (simp add: pool_ok_def)
      qed
    qed
  qed
qed

lemma bxroce_add_ref_ok:
  assumes ok: "pool_ok p s" and e: "elems p e = Some el"
  shows "\<exists>p'. bxroce_add_ref e p = Some p' \<and> pool_ok p' s \<and> pool_abs p' = pool_abs p \<and>
    indexed p' = indexed p \<and> elems p' = (elems p)(e \<mapsto> el\<lparr>ref_cnt := ref_cnt el + 1\<rparr>)"
  using ok e index_ok_update [of p e el "el\<lparr>ref_cnt := ref_cnt el + 1\<rparr>"]
    counts_ok_update [of p s e el "el\<lparr>ref_cnt := ref_cnt el + 1\<rparr>"]
  by (simp add: bxroce_add_ref_def pool_ok_def)

lemma bxroce_elem_release_ok:
  assumes c: "counts_ok p s" and l: "limits_ok p" and ix: "index_ok p"
    and e: "elems q e = Some el" and out: "e \<notin> indexed p"
    and q: "q = p\<lparr>elems := (elems p)(e \<mapsto> el)\<rparr>" and here: "e \<in> dom (elems p)"
  shows "\<exists>p' s'. bxroce_elem_release e q s = Some (p', s') \<and> pool_ok p' s' \<and>
    pool_abs p' = pool_abs p \<and> indexed p' = indexed p \<and> elems p' = (elems p)(e := None)"
proof -
  define t where "t = (case cleanup q of None \<Rightarrow> s | Some cl \<Rightarrow> cl el s)"
  have t: "next_obj s \<le> next_obj t"
    using l by (auto simp: t_def q limits_ok_def cleanup_ok_def split: option.splits)
  let ?r = "p\<lparr>elems := (elems p)(e := None), num_elem := num_elem p - 1\<rparr>"
  have r: "q\<lparr>elems := (elems q)(e := None), num_elem := num_elem q - 1\<rparr> = ?r"
    by (simp add: q)
  obtain p' s' where put: "bxroce_pool_put ?r (kfree (Some e) t) = (p', s')" by force
  have run: "bxroce_elem_release e q s = Some (p', s')"
    using put by (simp add: bxroce_elem_release_def e t_def [symmetric] Let_def r)
  have p': "p' = ?r\<lparr>pool_ref := pool_ref p - 1\<rparr> \<and> pool_ref p - 1 \<noteq> 0 \<or>
      p' = ?r\<lparr>pool_ref := 0, state := BXROCE_POOL_STATE_INVALID, table := None\<rparr> \<and>
        pool_ref p - 1 = 0"
    and s': "next_obj s' = next_obj t"
    using put by (auto simp: bxroce_pool_put_def bxroce_pool_release_def Let_def split: if_splits)
  have card: "card (dom (elems p)) = Suc (card (dom (elems p) - {e}))"
    using c here by (intro card.remove) (auto simp: counts_ok_def)
  then have num: "unat (num_elem p - 1) = card (dom (elems p) - {e})"
    using c by (subst unat_pred_u32) (simp_all add: counts_ok_def)
  have le: "num_elem p - 1 \<le> max_elem p"
    using c card num by (auto simp: counts_ok_def word_le_nat_alt)
  have "counts_ok p' s'"
    using p' c card num le t s' unfolding counts_ok_def
    by (auto split: if_splits) (meson less_le_trans)+
  moreover have "limits_ok p'" "index_ok p'" "pool_abs p' = pool_abs p" "indexed p' = indexed p"
    "elems p' = (elems p)(e := None)"
    using p' l index_ok_outside [OF ix out, of None] by auto
  ultimately show ?thesis using run by (auto simp: pool_ok_def)
qed

lemma bxroce_drop_ref_ok:
  assumes ok: "pool_ok p s" and e: "elems p e = Some el"
    and out: "ref_cnt el = 1 \<Longrightarrow> e \<notin> indexed p"
  shows "\<exists>p' s'. bxroce_drop_ref e p s = Some (p', s') \<and> pool_ok p' s' \<and>
    pool_abs p' = pool_abs p \<and> indexed p' = indexed p \<and>
    elems p' = (elems p)(e := if ref_cnt el = 1 then None
                              else Some (el\<lparr>ref_cnt := ref_cnt el - 1\<rparr>))"
proof (cases "ref_cnt el = 1")
  case True
  let ?q = "p\<lparr>elems := (elems p)(e \<mapsto> el\<lparr>ref_cnt := 0\<rparr>)\<rparr>"
  have "\<exists>p' s'. bxroce_elem_release e ?q s = Some (p', s') \<and> pool_ok p' s' \<and>
      pool_abs p' = pool_abs p \<and> indexed p' = indexed p \<and> elems p' = (elems p)(e := None)"
    using ok e out True
    by (intro bxroce_elem_release_ok [where el = "el\<lparr>ref_cnt := 0\<rparr>"]) (auto simp: pool_ok_def)
  then show ?thesis using e True by (simp add: bxroce_drop_ref_def)
next
  case False
  then have "1 < ref_cnt el" using ok e by (auto simp: pool_ok_def counts_ok_def le_less Suc_lessI)
  then show ?thesis
    using ok e index_ok_update [of p e el "el\<lparr>ref_cnt := ref_cnt el - 1\<rparr>"]
      counts_ok_update [of p s e el "el\<lparr>ref_cnt := ref_cnt el - 1\<rparr>"]
    by (simp add: bxroce_drop_ref_def pool_ok_def)
qed

text \<open>A lookup in a valid pool is the map the pool stands for, and takes a reference.\<close>

lemma bxroce_pool_get_index_ok:
  assumes ok: "pool_ok p s"
  shows "\<exists>r p'. bxroce_pool_get_index p i = Some (r, p') \<and> pool_ok p' s \<and>
    pool_abs p' = pool_abs p \<and> indexed p' = indexed p \<and>
    r = (if state p = BXROCE_POOL_STATE_VALID then pool_abs p i else None) \<and>
    elems p' = (case r of None \<Rightarrow> elems p
      | Some e \<Rightarrow> (elems p)(e := map_option (\<lambda>el. el\<lparr>ref_cnt := ref_cnt el + 1\<rparr>) (elems p e)))"
proof (cases "state p = BXROCE_POOL_STATE_VALID \<and> pool_abs p i \<noteq> None")
  case True
  then obtain e where e: "pool_abs p i = Some e" by blast
  then obtain el where el: "elems p e = Some el"
    using pool_abs_Some [of p i e] ok by (auto simp: pool_ok_def index_ok_def)
  show ?thesis
    using bxroce_add_ref_ok [OF ok el] True e el
    by (auto simp: bxroce_pool_get_index_def get_node_def pool_abs_def)
next
  case False
  then show ?thesis
    using ok by (auto simp: bxroce_pool_get_index_def get_node_def pool_abs_def)
qed

lemma bxroce_pool_cleanup_ok:
  assumes ok: "pool_ok p s" and v: "state p = BXROCE_POOL_STATE_VALID"
  shows "pool_ok (fst (bxroce_pool_cleanup p s)) (snd (bxroce_pool_cleanup p s)) \<and>
    state (fst (bxroce_pool_cleanup p s)) = BXROCE_POOL_STATE_INVALID \<and>
    elems (fst (bxroce_pool_cleanup p s)) = elems p"
  using assms
  by (auto simp: bxroce_pool_cleanup_def bxroce_pool_put_def bxroce_pool_release_def Let_def
      pool_ok_def counts_ok_def limits_ok_def index_range_def)

section \<open>A new pool\<close>

lemma bxroce_pool_init_ok:
  assumes i: "bxroce_pool_init E info t limit s = (0, p, s')"
    and ix: "ti_flags (info t) AND BXROCE_POOL_INDEX \<noteq> 0" and lim: "limit < - 1"
    and cl: "cleanup_ok (ti_cleanup (info t))"
  shows "pool_ok p s' \<and> state p = BXROCE_POOL_STATE_VALID \<and> pool_abs p = Map.empty \<and>
    dom (elems p) = {}"
proof -
  have room: "\<not> ti_max_index (info t) - ti_min_index (info t) + 1 < limit"
    using i ix by (auto simp: bxroce_pool_init_def bxroce_pool_init_index_def fresh_pool_def Let_def)
  obtain b where p: "p = (fresh_pool (info t) t limit)
      \<lparr>max_index := ti_max_index (info t), min_index := ti_min_index (info t), table := Some b,
       table_size := longs_size (unat (ti_max_index (info t) - ti_min_index (info t) + 1)),
       bits := \<lambda>_. False, key_offset := key_offset p, key_size := key_size p,
       state := BXROCE_POOL_STATE_VALID\<rparr>"
    using i ix room
    by (auto simp: bxroce_pool_init_def bxroce_pool_init_index_def fresh_pool_def Let_def
        split: if_splits prod.splits option.splits)
  have "limits_ok p"
    using room lim cl by (subst p) (auto simp: limits_ok_def fresh_pool_def index_range_def
        not_less split: option.splits)
  moreover have "counts_ok p s'" by (subst p) (simp add: counts_ok_def fresh_pool_def)
  moreover have "index_ok p" by (subst p) (simp add: index_ok_def indexed_def fresh_pool_def)
  moreover have "state p = BXROCE_POOL_STATE_VALID" by (subst p) simp
  moreover have "pool_abs p = Map.empty"
    by (subst p) (simp add: fun_eq_iff pool_abs_def fresh_pool_def)
  moreover have "dom (elems p) = {}" by (subst p) (simp add: fresh_pool_def)
  ultimately show ?thesis by (simp add: pool_ok_def)
qed

section \<open>Every run of a client\<close>

datatype pool_op = P_alloc | P_add_index nat | P_drop_index nat | P_get u32 | P_drop_ref nat
  | P_cleanup

fun pool_exec :: "env \<Rightarrow> (bitmap \<Rightarrow> nat \<Rightarrow> nat \<Rightarrow> nat) \<Rightarrow> (bitmap \<Rightarrow> nat \<Rightarrow> nat) \<Rightarrow>
    (nat \<Rightarrow> nat tree \<Rightarrow> nat tree) \<Rightarrow> (nat \<Rightarrow> nat tree \<Rightarrow> nat tree) \<Rightarrow> 'a elem_scheme \<Rightarrow>
    pool_op \<Rightarrow> 'a pool \<Rightarrow> kern \<Rightarrow> ('a pool \<times> kern) option" where
  "pool_exec E fnz ffz rbi rbe z P_alloc p s = Some (snd (bxroce_alloc E z p s))"
| "pool_exec E fnz ffz rbi rbe z (P_add_index e) p s =
     map_option (\<lambda>p. (p, s)) (bxroce_add_index fnz ffz rbi e p)"
| "pool_exec E fnz ffz rbi rbe z (P_drop_index e) p s =
     map_option (\<lambda>p. (p, s)) (bxroce_drop_index rbe e p)"
| "pool_exec E fnz ffz rbi rbe z (P_get i) p s =
     map_option (\<lambda>(r, p). (p, s)) (bxroce_pool_get_index p i)"
| "pool_exec E fnz ffz rbi rbe z (P_drop_ref e) p s = bxroce_drop_ref e p s"
| "pool_exec E fnz ffz rbi rbe z P_cleanup p s = Some (bxroce_pool_cleanup p s)"

text \<open>
  What a client may call: an index for an object that has none, the index dropped once, no
  last reference dropped while the object is indexed, and one cleanup.
\<close>

fun permitted :: "'a pool \<Rightarrow> pool_op \<Rightarrow> bool" where
  "permitted p P_alloc = True"
| "permitted p (P_add_index e) = (elems p e \<noteq> None \<and> e \<notin> indexed p)"
| "permitted p (P_drop_index e) = (e \<in> indexed p)"
| "permitted p (P_get i) = True"
| "permitted p (P_drop_ref e) =
     (case elems p e of None \<Rightarrow> False | Some el \<Rightarrow> ref_cnt el = 1 \<longrightarrow> e \<notin> indexed p)"
| "permitted p P_cleanup = (state p = BXROCE_POOL_STATE_VALID)"

inductive pool_reach :: "(pool_op \<Rightarrow> 'a pool \<Rightarrow> kern \<Rightarrow> ('a pool \<times> kern) option) \<Rightarrow>
    'a pool \<Rightarrow> kern \<Rightarrow> 'a pool \<Rightarrow> kern \<Rightarrow> bool" for exec p0 s0 where
  pool_reach_start: "pool_reach exec p0 s0 p0 s0"
| pool_reach_step: "pool_reach exec p0 s0 p s \<Longrightarrow> permitted p op \<Longrightarrow>
    exec op p s = Some (p', s') \<Longrightarrow> pool_reach exec p0 s0 p' s'"

context pool_env
begin

lemma exec_ok:
  assumes ok: "pool_ok p s" and perm: "permitted p op"
  shows "\<exists>p' s'. pool_exec E fnz ffz rb_insert_color rb_erase z op p s = Some (p', s') \<and>
    pool_ok p' s'"
proof (cases op)
  case P_alloc
  obtain r p' s' where "bxroce_alloc E z p s = (r, p', s')" by (metis prod_cases3)
  with bxroce_alloc_cases [OF ok this] show ?thesis by (auto simp: P_alloc split: option.splits)
next
  case (P_add_index e)
  then show ?thesis using add_index_ok [OF ok, of e] perm by auto
next
  case (P_drop_index e)
  then show ?thesis using drop_index_ok [OF ok, of e] perm by auto
next
  case (P_get i)
  then show ?thesis using bxroce_pool_get_index_ok [OF ok, of i] by auto
next
  case (P_drop_ref e)
  then obtain el where "elems p e = Some el" using perm by (auto split: option.splits)
  then show ?thesis using bxroce_drop_ref_ok [OF ok, of e el] perm P_drop_ref by auto
next
  case P_cleanup
  then show ?thesis using bxroce_pool_cleanup_ok [OF ok] perm
    by (metis permitted.simps(6) pool_exec.simps(6) prod.collapse)
qed

lemma reach_ok:
  assumes "pool_reach (pool_exec E fnz ffz rb_insert_color rb_erase z) p0 s0 p s"
    and "pool_ok p0 s0"
  shows "pool_ok p s"
  using assms
proof induction
  case (pool_reach_step p s op p' s')
  then show ?case using exec_ok [of p s op E z] by auto
qed simp

end

lemma plain_pool_env: "pool_env scan_next_zero scan_first_zero plain_color plain_erase"
  by (intro pool_env.intro scan_search.zero_bit_search_axioms plain_rb.rbtree_api_axioms)

interpretation plain_pool: pool_env scan_next_zero scan_first_zero plain_color plain_erase
  by (rule plain_pool_env)

section \<open>Properties\<close>

text \<open>
  C1. From the creation of an indexed pool on, whatever sequence of allocations, index
  additions and removals, lookups and reference drops its clients make, the pool's invariant
  holds (table bits are exactly the indices in use, the tree is a search tree, the counters
  are exact and within \<open>max_elem\<close>) and the next permitted operation is defined: no bit outside
  the table is written and no freed object is touched.
\<close>

theorem pool_runs_defined:
  assumes "pool_env fnz ffz rbi rbe"
    and "bxroce_pool_init E info t limit s = (0, p0, s0)"
    and "ti_flags (info t) AND BXROCE_POOL_INDEX \<noteq> 0" and "limit < - 1"
    and "cleanup_ok (ti_cleanup (info t))"
    and "pool_reach (pool_exec E fnz ffz rbi rbe z) p0 s0 p s'"
  shows "pool_ok p s' \<and>
    (permitted p op \<longrightarrow> pool_exec E fnz ffz rbi rbe z op p s' \<noteq> None)"
proof -
  have "pool_ok p s'"
    using pool_env.reach_ok [OF assms(1,6)] bxroce_pool_init_ok [OF assms(2-5)] by blast
  then show ?thesis using pool_env.exec_ok [OF assms(1)] by blast
qed

text \<open>The MR pool of the driver in a run, with a first object that gets the first index.\<close>

definition mr_info :: "elem_type \<Rightarrow> unit type_info" where
  "mr_info = bxroce_type_info (\<lambda>_. 64) (\<lambda>_. None)"

definition mr_pool :: "unit pool \<times> kern" where
  "mr_pool = snd (bxroce_pool_init file_env mr_info BXROCE_TYPE_MR 0x40000 empty_kern)"

definition zero_elem :: elem where
  "zero_elem = \<lparr>index = 0, elem_key = [], ref_cnt = 0\<rparr>"

definition plain_exec :: "pool_op \<Rightarrow> unit pool \<Rightarrow> kern \<Rightarrow> (unit pool \<times> kern) option" where
  "plain_exec = pool_exec file_env scan_next_zero scan_first_zero plain_color plain_erase zero_elem"

lemmas mr_run_defs = mr_pool_def mr_info_def bxroce_pool_init_def bxroce_pool_init_index_def
  bxroce_type_info_def fresh_pool_def Let_def pool_consts kalloc_def file_env_def empty_kern_def

lemma mr_pool_init:
  "bxroce_pool_init file_env mr_info BXROCE_TYPE_MR 0x40000 empty_kern = (0, fst mr_pool, snd mr_pool)"
  by (simp add: mr_run_defs)

lemma mr_pool_alloc:
  "pool_reach plain_exec (fst mr_pool) (snd mr_pool)
     (fst (snd (bxroce_alloc file_env zero_elem (fst mr_pool) (snd mr_pool))))
     (snd (snd (bxroce_alloc file_env zero_elem (fst mr_pool) (snd mr_pool))))"
  by (rule pool_reach_step [OF pool_reach_start, of _ P_alloc]) (simp_all add: plain_exec_def)

lemma mr_pool_first:
  "elems (fst (snd (bxroce_alloc file_env zero_elem (fst mr_pool) (snd mr_pool)))) 1 \<noteq> None \<and>
   1 \<notin> indexed (fst (snd (bxroce_alloc file_env zero_elem (fst mr_pool) (snd mr_pool))))"
  by (simp add: mr_run_defs bxroce_alloc_def indexed_def)

lemma mr_info_facts:
  "ti_flags (mr_info BXROCE_TYPE_MR) AND BXROCE_POOL_INDEX \<noteq> 0"
  "(0x40000 :: u32) < - 1" "cleanup_ok (ti_cleanup (mr_info BXROCE_TYPE_MR))"
  by (simp_all add: cleanup_ok_def mr_info_def bxroce_type_info_def pool_consts)

theorem pool_runs_defined_witness:
  "plain_exec (P_add_index 1)
     (fst (snd (bxroce_alloc file_env zero_elem (fst mr_pool) (snd mr_pool))))
     (snd (snd (bxroce_alloc file_env zero_elem (fst mr_pool) (snd mr_pool)))) \<noteq> None"
  using pool_runs_defined [OF plain_pool_env mr_pool_init mr_info_facts
      mr_pool_alloc [unfolded plain_exec_def], of "P_add_index 1"] mr_pool_first
  by (simp add: plain_exec_def)

text \<open>
  C2. An index added to an object is one no other object has; looking it up gives the object
  back, every other lookup is as before, and dropping it restores the map of indices.
\<close>

theorem pool_index_roundtrip:
  assumes "pool_env fnz ffz rbi rbe" and "pool_ok p s" and "state p = BXROCE_POOL_STATE_VALID"
    and "e \<in> dom (elems p)" and "e \<notin> indexed p"
  shows "\<exists>p' i. bxroce_add_index fnz ffz rbi e p = Some p' \<and> pool_abs p i = None \<and>
    (\<exists>q. bxroce_pool_get_index p' i = Some (Some e, q)) \<and>
    (\<forall>j. j \<noteq> i \<longrightarrow> map_option fst (bxroce_pool_get_index p' j) =
                    map_option fst (bxroce_pool_get_index p j)) \<and>
    (\<exists>q. bxroce_drop_index rbe e p' = Some q \<and> pool_abs q = pool_abs p)"
proof -
  obtain p' i where add: "bxroce_add_index fnz ffz rbi e p = Some p'" "pool_ok p' s"
      "pool_abs p i = None" "pool_abs p' = (pool_abs p)(i \<mapsto> e)"
    using pool_env.add_index_ok [OF assms(1,2,4,5)] by blast
  have st: "state p' = BXROCE_POOL_STATE_VALID"
    using add(1) assms(3)
    by (auto simp: bxroce_add_index_def alloc_index_def insert_index_def Let_def
        split: option.splits if_splits)
  have get: "map_option fst (bxroce_pool_get_index q j) = Some (pool_abs q j)"
    if "pool_ok q s" "state q = BXROCE_POOL_STATE_VALID" for q j
    using bxroce_pool_get_index_ok [OF that(1), of j] that(2) by auto
  have ie: "e \<in> indexed p'" "index_of p' e = i"
    using pool_abs_Some [of p' i e] add(2,4) by (auto simp: pool_ok_def)
  obtain q where "bxroce_drop_index rbe e p' = Some q" "pool_abs q = (pool_abs p')(i := None)"
    using pool_env.drop_index_ok [OF assms(1) add(2) ie(1)] ie(2) by blast
  then have "\<exists>q. bxroce_drop_index rbe e p' = Some q \<and> pool_abs q = pool_abs p"
    using add(3,4) by (auto simp: fun_eq_iff)
  moreover have "\<exists>q. bxroce_pool_get_index p' i = Some (Some e, q)"
    using get [OF add(2) st, of i] add(4) by auto
  moreover have "\<forall>j. j \<noteq> i \<longrightarrow> map_option fst (bxroce_pool_get_index p' j) =
      map_option fst (bxroce_pool_get_index p j)"
    by (simp only: get [OF add(2) st] get [OF assms(2,3)]) (simp add: add(4))
  ultimately show ?thesis using add(1,3) by blast
qed

definition mr_pool1 :: "unit pool \<times> kern" where
  "mr_pool1 = snd (bxroce_alloc file_env zero_elem (fst mr_pool) (snd mr_pool))"

lemma mr_pool1_facts:
  "pool_ok (fst mr_pool1) (snd mr_pool1)" "state (fst mr_pool1) = BXROCE_POOL_STATE_VALID"
  "1 \<in> dom (elems (fst mr_pool1))" "1 \<notin> indexed (fst mr_pool1)"
proof -
  have "pool_ok (fst mr_pool) (snd mr_pool)"
    using bxroce_pool_init_ok [OF mr_pool_init mr_info_facts] by blast
  from plain_pool.reach_ok [OF mr_pool_alloc [unfolded plain_exec_def] this]
  show "pool_ok (fst mr_pool1) (snd mr_pool1)" by (simp add: mr_pool1_def)
  show "1 \<in> dom (elems (fst mr_pool1))" "1 \<notin> indexed (fst mr_pool1)"
    using mr_pool_first by (auto simp: mr_pool1_def)
  show "state (fst mr_pool1) = BXROCE_POOL_STATE_VALID"
    by (simp add: mr_pool1_def mr_run_defs bxroce_alloc_def)
qed

theorem pool_index_roundtrip_witness:
  "\<exists>p' i. bxroce_add_index scan_next_zero scan_first_zero plain_color 1 (fst mr_pool1) = Some p' \<and>
    (\<exists>q. bxroce_pool_get_index p' i = Some (Some 1, q))"
  using pool_index_roundtrip [OF plain_pool_env mr_pool1_facts] by blast

text \<open>
  Allocating from a valid pool fails exactly when the pool holds \<open>max_elem\<close> objects or the
  kernel has no memory, and a failure leaves the pool as it was; on success the pool has one
  object more, with one reference, and never more than \<open>max_elem\<close>.
\<close>

theorem pool_alloc_bounded:
  assumes "pool_ok p s" and "state p = BXROCE_POOL_STATE_VALID"
    and "bxroce_alloc E z p s = (r, p', s')"
  shows "(r = None \<longleftrightarrow> card (dom (elems p)) = unat (max_elem p) \<or> \<not> alloc_ok E (trace s)) \<and>
    (r = None \<longrightarrow> p' = p) \<and>
    (\<forall>e. r = Some e \<longrightarrow> e \<notin> dom (elems p) \<and> elems p' = (elems p)(e \<mapsto> z\<lparr>ref_cnt := 1\<rparr>)) \<and>
    card (dom (elems p')) \<le> unat (max_elem p)"
proof -
  note c = bxroce_alloc_cases [OF assms(1,3)]
  have n: "unat (num_elem p) = card (dom (elems p))"
    using assms(1) by (simp add: pool_ok_def counts_ok_def)
  have m: "max_elem p' = max_elem p"
    using assms(3) by (auto simp: bxroce_alloc_def bxroce_pool_put_def bxroce_pool_release_def
        Let_def split: if_splits prod.splits option.splits)
  have no_mem: "r = None" if "\<not> alloc_ok E (trace s)"
    using assms(3) that by (auto simp: bxroce_alloc_def kalloc_def Let_def split: if_splits prod.splits)
  have ok': "pool_ok p' s'" using c by (auto split: option.splits)
  then have "card (dom (elems p')) \<le> unat (max_elem p)"
    by (simp add: pool_ok_def counts_ok_def m [symmetric] word_le_nat_alt)
  then show ?thesis
    using c n no_mem assms(2)
    by (cases r) (auto simp: word_unat_eq_iff word_less_nat_alt)
qed

theorem pool_alloc_bounded_witness:
  "card (dom (elems (fst (snd (bxroce_alloc file_env zero_elem (fst mr_pool1) (snd mr_pool1))))))
     \<le> unat (max_elem (fst mr_pool1))"
  using pool_alloc_bounded [OF mr_pool1_facts(1,2), of file_env zero_elem] by (metis prod.collapse)

text \<open>
  In a pool searched by key, adding a new key to an object makes the object what a lookup
  of that key finds, and changes no lookup of another key.
\<close>

definition keys_ok :: "'a pool \<Rightarrow> bool" where
  "keys_ok p \<longleftrightarrow> ordered (key_of p) (tree p) \<and> indexed p \<subseteq> dom (elems p) \<and>
     (\<forall>e \<in> indexed p. length (key_of p e) = key_size p)"

definition lookup_key :: "'a pool \<Rightarrow> u8 list \<Rightarrow> nat option" where
  "lookup_key p key = (case bxroce_pool_get_key p key of Some (r, q) \<Rightarrow> r | None \<Rightarrow> None)"

lemma lookup_key_Some:
  assumes "keys_ok p" and "state p = BXROCE_POOL_STATE_VALID" and "length key = key_size p"
  shows "lookup_key p key = Some e \<longleftrightarrow> e \<in> indexed p \<and> key_of p e = key"
proof -
  let ?f = "find_node (\<lambda>e. memcmp (key_of p e) key) (tree p)"
  have f: "?f = Some a \<longleftrightarrow> a \<in> indexed p \<and> key_of p a = key" for a
    using assms find_node_Some [OF _ memcmp_agrees, of "key_of p" "tree p" key a]
    by (simp add: keys_ok_def indexed_def)
  have "lookup_key p key = ?f"
  proof (cases ?f)
    case None
    then show ?thesis
      using assms(2,3) by (simp add: lookup_key_def bxroce_pool_get_key_def get_node_def)
  next
    case (Some a)
    then have "elems p a \<noteq> None" using f assms(1) by (auto simp: keys_ok_def)
    then show ?thesis
      using Some assms(2,3)
      by (auto simp: lookup_key_def bxroce_pool_get_key_def get_node_def bxroce_add_ref_def)
  qed
  then show ?thesis using f by simp
qed

lemma bxroce_add_key_ok:
  assumes rb: "rbtree_api rbi rbe" and k: "keys_ok p" and e: "e \<in> dom (elems p)" "e \<notin> indexed p"
    and new: "length key = key_size p" "\<And>a. a \<in> indexed p \<Longrightarrow> key_of p a \<noteq> key"
  shows "\<exists>p'. bxroce_add_key rbi e key p = Some p' \<and> keys_ok p' \<and>
    indexed p' = insert e (indexed p) \<and> state p' = state p \<and> key_size p' = key_size p \<and>
    (\<forall>a. key_of p' a = (if a = e then key else key_of p a))"
proof -
  obtain el where el: "elems p e = Some el" using e(1) by blast
  define q where "q = p\<lparr>elems := (elems p)(e \<mapsto> el\<lparr>elem_key := take (key_size p) key\<rparr>)\<rparr>"
  have kq: "key_of q a = (if a = e then key else key_of p a)" for a
    using new(1) by (auto simp: q_def key_of_def split: option.split)
  have tq: "tree q = tree p" "key_size q = key_size p" "state q = state p"
    "dom (elems q) = dom (elems p)" using el by (auto simp: q_def)
  let ?cmp = "\<lambda>a. memcmp (key_of q a) (key_of q e)"
  have ag: "agrees ?cmp (key_of q) (key_of q e) (set_tree (tree p))"
    using k e(2) new(1) by (intro memcmp_agrees) (auto simp: kq keys_ok_def indexed_def)
  have "ordered (key_of q) (tree p) = ordered (key_of p) (tree p)"
    by (rule ordered_cong) (metis e(2) indexed_def kq)
  then have o: "ordered (key_of q) (tree p)" using k by (simp add: keys_ok_def)
  have "key_of q e \<notin> key_of q ` set_tree (tree p)"
    using e(2) new(2) by (auto simp: kq indexed_def)
  then obtain t where t: "link_node ?cmp e (tree p) = Some t"
    using link_node_exists [OF o ag] by blast
  have t': "ordered (key_of q) t" "set_tree t = insert e (indexed p)"
    using link_node_ordered [OF t o ag] link_node_set [OF t] by (simp_all add: indexed_def)
  let ?p' = "q\<lparr>tree := rbi e t\<rparr>"
  have "inorder (rbi e t) = inorder t"
    using rbtree_api.insert_color_inorder [OF rb, of e t] t'(2) by simp
  then have r: "ordered (key_of q) (rbi e t)" "set_tree (rbi e t) = insert e (indexed p)"
    using ordered_inorder set_tree_inorder t' by metis+
  have run: "bxroce_add_key rbi e key p = Some ?p'"
    using t tq(1) by (simp add: bxroce_add_key_def el insert_key_def q_def)
  have kp: "key_of ?p' = key_of q" by (auto simp: fun_eq_iff key_of_def split: option.split)
  have "keys_ok ?p'"
    using k r tq e new(1) by (auto simp: keys_ok_def kp indexed_def kq)
  then show ?thesis using run r(2) tq kp kq by (auto simp: indexed_def)
qed

theorem pool_key_lookup:
  assumes "rbtree_api rbi rbe" and "keys_ok p" and "state p = BXROCE_POOL_STATE_VALID"
    and "e \<in> dom (elems p)" and "e \<notin> indexed p"
    and "length key = key_size p" and "lookup_key p key = None"
  shows "\<exists>p'. bxroce_add_key rbi e key p = Some p' \<and> keys_ok p' \<and>
    (\<forall>k. length k = key_size p \<longrightarrow> lookup_key p' k = (if k = key then Some e else lookup_key p k))"
proof -
  have new: "key_of p a \<noteq> key" if "a \<in> indexed p" for a
    using lookup_key_Some [OF assms(2,3,6), of a] assms(7) that by auto
  obtain p' where p': "bxroce_add_key rbi e key p = Some p'" "keys_ok p'"
      "indexed p' = insert e (indexed p)" "state p' = state p" "key_size p' = key_size p"
      "\<forall>a. key_of p' a = (if a = e then key else key_of p a)"
    using bxroce_add_key_ok [OF assms(1,2,4,5,6) new] by blast
  have "lookup_key p' k = (if k = key then Some e else lookup_key p k)"
    if "length k = key_size p" for k
  proof -
    have "lookup_key p' k = Some a \<longleftrightarrow> (if k = key then Some e else lookup_key p k) = Some a" for a
      using lookup_key_Some [OF p'(2), of k a] lookup_key_Some [OF assms(2,3), of k a] that p' new
        assms(3,5) by auto
    then show ?thesis by (metis not_Some_eq)
  qed
  then show ?thesis using p'(1,2) by blast
qed

theorem pool_key_lookup_witness:
  "\<exists>p'. bxroce_add_key plain_color 1 [7] ((fst mr_pool1)\<lparr>key_size := 1\<rparr>) = Some p' \<and>
     lookup_key p' [7] = Some 1"
proof -
  let ?p = "(fst mr_pool1)\<lparr>key_size := 1\<rparr>"
  have t: "tree ?p = Leaf"
    by (simp add: mr_pool1_def mr_run_defs bxroce_alloc_def)
  then have "keys_ok ?p" "lookup_key ?p [7] = None"
    by (simp_all add: keys_ok_def indexed_def lookup_key_def bxroce_pool_get_key_def get_node_def)
  then show ?thesis
    using pool_key_lookup [OF plain_rb.rbtree_api_axioms, of ?p 1 "[7]"] mr_pool1_facts t
    by (auto simp: indexed_def)
qed

end
