(* ===== verification/Mr.thy ===== *)
theory Mr
  imports Pool_Correct "HOL-Library.Monad_Syntax"
begin

text \<open>
  Memory regions (bxroce_pool.c, bxroce_verbs.c): the keys, the page maps, the registration
  of user memory and the verbs on regions. A \<open>struct bxroce_mr\<close> is a pool object extended by
  the record \<open>mr\<close>; protection domains are the objects of another pool. What \<open>ib_umem_get\<close>
  returns for a range of user memory is the argument \<open>umem_info\<close>. None is undefined behaviour
  of C, a read outside the array of maps for instance.
\<close>

section \<open>Types\<close>

datatype mem_state = BXROCE_MEM_STATE_ZOMBIE | BXROCE_MEM_STATE_INVALID
  | BXROCE_MEM_STATE_FREE | BXROCE_MEM_STATE_VALID

datatype mem_type = BXROCE_MEM_TYPE_NONE | BXROCE_MEM_TYPE_DMA | BXROCE_MEM_TYPE_MR
  | BXROCE_MEM_TYPE_FMR | BXROCE_MEM_TYPE_MW

text \<open>What \<open>mr->pd\<close> points to: an object of the pool of domains, or the device.\<close>

datatype pd_ptr = Pd_null | Pd_obj nat | Pd_dev

record pd = elem +
  pd_id :: u32
  pd_uctx :: "nat option"

text \<open>
  \<open>map_ptr\<close> is the array of maps and \<open>map_elems\<close> the maps it points to; \<open>phys_buf k i\<close> is
  \<open>map[k]->buf[i]\<close>, address and size.
\<close>

record mr = elem +
  ibmr_lkey :: u32
  ibmr_rkey :: u32
  mr_pd :: pd_ptr
  umem :: "nat option"
  lkey :: u32
  rkey :: u32
  mr_state :: mem_state
  mr_type :: mem_type
  va :: u64
  iova :: u64
  mr_length :: u64
  mr_offset :: u32
  access :: u32
  page_shift :: nat
  page_mask :: u32
  map_shift :: nat
  map_mask :: nat
  num_buf :: nat
  max_buf :: nat
  num_map :: nat
  map_ptr :: "nat option"
  map_elems :: "nat list"
  phys_buf :: "nat \<Rightarrow> nat \<Rightarrow> (u64 \<times> u64) option"

type_synonym mr_pool = "unit mr_ext pool"
type_synonym pd_pool = "unit pd_ext pool"

definition BXROCE_BUF_PER_MAP :: nat where "BXROCE_BUF_PER_MAP = 4096 div 16"
definition MAX_SG_NUM :: nat where "MAX_SG_NUM = 128"
definition BXROCE_HUGEPAGE_SIZE :: u64 where "BXROCE_HUGEPAGE_SIZE = 0x200000"

text \<open>\<open>IB_ACCESS_REMOTE_READ | IB_ACCESS_REMOTE_WRITE | IB_ACCESS_REMOTE_ATOMIC\<close>\<close>

definition IB_ACCESS_REMOTE :: u32 where "IB_ACCESS_REMOTE = 4 OR 2 OR 8"

text \<open>The object \<open>kmem_cache_zalloc\<close> returns.\<close>

definition zero_mr :: mr where
  "zero_mr = \<lparr>index = 0, elem_key = [], ref_cnt = 0, ibmr_lkey = 0, ibmr_rkey = 0,
     mr_pd = Pd_null, umem = None, lkey = 0, rkey = 0, mr_state = BXROCE_MEM_STATE_ZOMBIE,
     mr_type = BXROCE_MEM_TYPE_NONE, va = 0, iova = 0, mr_length = 0, mr_offset = 0,
     access = 0, page_shift = 0, page_mask = 0, map_shift = 0, map_mask = 0, num_buf = 0,
     max_buf = 0, num_map = 0, map_ptr = None, map_elems = [], phys_buf = (\<lambda>_ _. None)\<rparr>"

section \<open>Keys\<close>

text \<open>The next value of the static variable \<open>key\<close>, which is also returned, as a byte.\<close>

definition next_key :: "u32 \<Rightarrow> u32" where
  "next_key key0 =
     (let key = push_bit 1 key0;
          key = key OR of_bool (((0 \<noteq> key AND 0x100) \<noteq> (0 \<noteq> key AND 0x10)) \<noteq>
                                ((0 \<noteq> key AND 0x80) \<noteq> (0 \<noteq> key AND 0x40)))
      in key AND 0xff)"

definition bxroce_get_key :: "u32 \<Rightarrow> u8 \<times> u32" where
  "bxroce_get_key key = (ucast (next_key key), next_key key)"

definition bxroce_mem_init :: "u32 \<Rightarrow> elem_type \<Rightarrow> u32 \<Rightarrow> mr \<Rightarrow> mr \<times> u32" where
  "bxroce_mem_init acc ptype key m =
     (let (k, key) = bxroce_get_key key;
          lk = push_bit 8 (index m) OR ucast k;
          rk = (if acc AND IB_ACCESS_REMOTE \<noteq> 0 then lk else 0);
          m = (if ptype = BXROCE_TYPE_MR then m\<lparr>ibmr_lkey := lk, ibmr_rkey := rk\<rparr> else m)
      in (m\<lparr>lkey := lk, rkey := rk, mr_state := BXROCE_MEM_STATE_INVALID,
            mr_type := BXROCE_MEM_TYPE_NONE, map_shift := 8\<rparr>, key))"

section \<open>Page maps\<close>

text \<open>The loop over \<open>kmalloc(sizeof(**map))\<close>: the maps allocated, and whether all were.\<close>

fun alloc_maps :: "env \<Rightarrow> nat \<Rightarrow> nat list \<Rightarrow> kern \<Rightarrow> bool \<times> nat list \<times> kern" where
  "alloc_maps E 0 ms s = (True, ms, s)"
| "alloc_maps E (Suc n) ms s =
     (case kalloc E s of
        (None, s) \<Rightarrow> (False, ms, s)
      | (Some a, s) \<Rightarrow> alloc_maps E n (ms @ [a]) s)"

fun kfree_all :: "nat list \<Rightarrow> kern \<Rightarrow> kern" where
  "kfree_all [] s = s"
| "kfree_all (a # as) s = kfree_all as (kfree (Some a) s)"

text \<open>On failure the maps are freed last to first, and \<open>mr->map\<close> keeps the freed pointer.\<close>

definition bxroce_mem_alloc :: "env \<Rightarrow> nat \<Rightarrow> mr \<Rightarrow> kern \<Rightarrow> int \<times> mr \<times> kern" where
  "bxroce_mem_alloc E n m s =
     (let maps = (n + BXROCE_BUF_PER_MAP - 1) div BXROCE_BUF_PER_MAP
      in case kalloc E s of
           (None, s) \<Rightarrow> (- ENOMEM, m\<lparr>map_ptr := None\<rparr>, s)
         | (Some a, s) \<Rightarrow>
             (let m = m\<lparr>map_ptr := Some a\<rparr>; (ok, ms, s) = alloc_maps E maps [] s
              in if \<not> ok then (- ENOMEM, m\<lparr>map_elems := ms\<rparr>, kfree (Some a) (kfree_all (rev ms) s))
                 else (0, m\<lparr>map_elems := ms, map_shift := 8, map_mask := BXROCE_BUF_PER_MAP - 1,
                           num_buf := n, num_map := maps,
                           max_buf := maps * BXROCE_BUF_PER_MAP\<rparr>, s)))"

definition bxroce_mem_cleanup :: "mr \<Rightarrow> kern \<Rightarrow> kern" where
  "bxroce_mem_cleanup m s =
     (let s = kfree (umem m) s
      in case map_ptr m of
           None \<Rightarrow> s
         | Some a \<Rightarrow> kfree (Some a) (kfree_all (take (num_map m) (map_elems m)) s))"

definition bxroce_qp_cleanup :: "'a elem_scheme \<Rightarrow> kern \<Rightarrow> kern" where
  "bxroce_qp_cleanup arg s = s"

definition bxroce_cq_cleanup :: "'a elem_scheme \<Rightarrow> kern \<Rightarrow> kern" where
  "bxroce_cq_cleanup arg s = s"

section \<open>User memory\<close>

text \<open>
  What \<open>ib_umem_get\<close> and the scatter list say of a range: bus address and length of each
  entry, the page shift, whether huge pages back it, and the offset in the first page.
\<close>

record umem_info =
  sgs :: "(u64 \<times> u32) list"
  umem_shift :: nat
  hugetlb :: bool
  umem_offset :: u32

text \<open>
  The locals of the loop: \<open>map\<close> as the index of its map, \<open>buf\<close> as the index in it
  (\<open>num_buf\<close>), and the two tables of the response, whose length is \<open>i\<close>.
\<close>

record sg_loop =
  cur_map :: nat
  cur_buf :: nat
  memsize :: u64
  leftsize :: u64
  sg_phy_addr :: "u64 list"
  sg_phy_size :: "u32 list"
  bufs :: "nat \<Rightarrow> nat \<Rightarrow> (u64 \<times> u64) option"

definition sg_put :: "u64 \<Rightarrow> u64 \<Rightarrow> sg_loop \<Rightarrow> sg_loop" where
  "sg_put a n st =
     st\<lparr>sg_phy_addr := sg_phy_addr st @ [a], sg_phy_size := sg_phy_size st @ [ucast n]\<rparr>"

definition sg_full :: "sg_loop \<Rightarrow> bool" where
  "sg_full st \<longleftrightarrow> length (sg_phy_addr st) \<ge> MAX_SG_NUM"

text \<open>The part of the body before the counters move: the state, and whether it breaks.\<close>

definition sg_store :: "bool \<Rightarrow> u64 \<Rightarrow> u32 \<Rightarrow> sg_loop \<Rightarrow> bool \<times> sg_loop" where
  "sg_store huge a len st =
     (if huge then
        (let start = memsize st mod BXROCE_HUGEPAGE_SIZE = 0 \<and>
               leftsize st \<ge> BXROCE_HUGEPAGE_SIZE
         in if start \<and> sg_full st then (True, st)
            else
              let st = (if start
                        then sg_put a (if leftsize st > BXROCE_HUGEPAGE_SIZE
                                       then BXROCE_HUGEPAGE_SIZE else leftsize st) st
                        else st)
              in if (memsize st mod BXROCE_HUGEPAGE_SIZE + leftsize st) div BXROCE_HUGEPAGE_SIZE = 0
                 then if sg_full st then (True, st) else (True, sg_put a (leftsize st) st)
                 else (False, st))
      else if sg_full st then (True, st)
      else (False, sg_put a (if leftsize st > ucast len then ucast len else leftsize st) st))"

fun sg_iter :: "umem_info \<Rightarrow> nat \<Rightarrow> (u64 \<times> u32) list \<Rightarrow> sg_loop \<Rightarrow> sg_loop option" where
  "sg_iter u maps [] st = Some st"
| "sg_iter u maps ((a, len) # rest) st =
     (let st = st\<lparr>bufs := (bufs st)(cur_map st := (bufs st (cur_map st))
                  (cur_buf st := Some (a, push_bit (umem_shift u) 1)))\<rparr>;
          (stop, st) = sg_store (hugetlb u) a len st
      in if stop then Some st
         else
           let st = st\<lparr>memsize := memsize st + ucast len, leftsize := leftsize st - ucast len,
                       cur_buf := cur_buf st + 1\<rparr>
           in if cur_buf st \<ge> BXROCE_BUF_PER_MAP
              then if cur_map st + 1 < maps
                   then sg_iter u maps rest (st\<lparr>cur_map := cur_map st + 1, cur_buf := 0\<rparr>)
                   else None
              else sg_iter u maps rest st)"

record reg_mr_uresp =
  sg_phy_num :: nat
  uresp_offset :: u32
  uresp_addr :: "u64 list"
  uresp_size :: "u32 list"

definition sg_start :: "u64 \<Rightarrow> mr \<Rightarrow> sg_loop" where
  "sg_start len m = \<lparr>cur_map = 0, cur_buf = 0, memsize = 0, leftsize = len,
     sg_phy_addr = [], sg_phy_size = [], bufs = phys_buf m\<rparr>"

definition sg_run :: "umem_info \<Rightarrow> u64 \<Rightarrow> mr \<Rightarrow> sg_loop option" where
  "sg_run u len m =
     (if len = 0 then Some (sg_start len m)
      else if num_map m = 0 then None
      else sg_iter u (num_map m) (sgs u) (sg_start len m))"

definition bxroce_mem_init_user :: "env \<Rightarrow> umem_info \<Rightarrow> nat \<Rightarrow> elem_type \<Rightarrow> u64 \<Rightarrow> u64 \<Rightarrow> u64 \<Rightarrow>
    u32 \<Rightarrow> bool \<Rightarrow> u32 \<Rightarrow> mr \<Rightarrow> kern \<Rightarrow> (int \<times> mr \<times> u32 \<times> reg_mr_uresp option \<times> kern) option" where
  "bxroce_mem_init_user E u pd ptype start len io acc udata key m s =
     (case kalloc E s of
        (None, s) \<Rightarrow> Some (- EINVAL, m, key, None, s)
      | (Some um, s) \<Rightarrow>
          (let m = m\<lparr>umem := Some um\<rparr>;
               (m, key) = bxroce_mem_init acc ptype key m;
               (err, m, s) = bxroce_mem_alloc E (length (sgs u)) m s
           in if err \<noteq> 0 then Some (err, m, key, None, kfree (Some um) s)
              else do {
                st \<leftarrow> sg_run u len m;
                let m = m\<lparr>page_shift := umem_shift u, page_mask := ucast (push_bit (umem_shift u) 1 - 1 :: u64),
                          phys_buf := bufs st, mr_pd := Pd_obj pd, access := acc,
                          mr_length := len, iova := io, va := start,
                          mr_offset := umem_offset u, mr_state := BXROCE_MEM_STATE_VALID,
                          mr_type := BXROCE_MEM_TYPE_MR\<rparr>;
                let uresp = \<lparr>sg_phy_num = length (sg_phy_addr st), uresp_offset = mr_offset m,
                             uresp_addr = sg_phy_addr st, uresp_size = sg_phy_size st\<rparr>;
                let (ok, s) = (if udata then copy_user E s else (True, s));
                Some (if ok then (0, m, key, Some uresp, s)
                      else (- EINVAL, m, key, None, s))
              }))"

definition bxroce_mem_init_fast :: "env \<Rightarrow> pd_ptr \<Rightarrow> elem_type \<Rightarrow> nat \<Rightarrow> u32 \<Rightarrow> mr \<Rightarrow> kern \<Rightarrow>
    int \<times> mr \<times> u32 \<times> kern" where
  "bxroce_mem_init_fast E pd ptype max_pages key m s =
     (let (m, key) = bxroce_mem_init 0 ptype key m;
          m = m\<lparr>ibmr_rkey := ibmr_lkey m\<rparr>;
          (err, m, s) = bxroce_mem_alloc E max_pages m s
      in if err \<noteq> 0 then (err, m, key, s)
         else (0, m\<lparr>mr_pd := pd, max_buf := max_pages, mr_state := BXROCE_MEM_STATE_FREE,
                    mr_type := BXROCE_MEM_TYPE_MR\<rparr>, key, s))"

definition bxroce_mem_init_dma :: "nat \<Rightarrow> elem_type \<Rightarrow> u32 \<Rightarrow> u32 \<Rightarrow> mr \<Rightarrow> int \<times> mr \<times> u32" where
  "bxroce_mem_init_dma pd ptype acc key m =
     (let (m, key) = bxroce_mem_init acc ptype key m
      in (0, m\<lparr>mr_pd := Pd_obj pd, access := acc, mr_state := BXROCE_MEM_STATE_VALID,
               mr_type := BXROCE_MEM_TYPE_DMA\<rparr>, key))"

section \<open>The verbs on memory regions\<close>

text \<open>
  The library the pools rest on, and the part of \<open>struct bxroce_dev\<close> the verbs use. \<open>mr_key\<close>
  is the static variable of \<open>bxroce_get_key\<close>.
\<close>

record klib =
  find_next_zero_bit :: "bitmap \<Rightarrow> nat \<Rightarrow> nat \<Rightarrow> nat"
  find_first_zero_bit :: "bitmap \<Rightarrow> nat \<Rightarrow> nat"
  rb_color :: "nat \<Rightarrow> nat tree \<Rightarrow> nat tree"
  rb_unlink :: "nat \<Rightarrow> nat tree \<Rightarrow> nat tree"

record mr_dev =
  mr_pool :: mr_pool
  pd_pool :: pd_pool
  mr_key :: u32

definition add_mr_index :: "klib \<Rightarrow> nat \<Rightarrow> mr_dev \<Rightarrow> mr_dev option" where
  "add_mr_index L m d =
     map_option (\<lambda>p. d\<lparr>mr_pool := p\<rparr>)
       (bxroce_add_index (find_next_zero_bit L) (find_first_zero_bit L) (rb_color L) m (mr_pool d))"

definition drop_mr_index :: "klib \<Rightarrow> nat \<Rightarrow> mr_dev \<Rightarrow> mr_dev option" where
  "drop_mr_index L m d =
     map_option (\<lambda>p. d\<lparr>mr_pool := p\<rparr>) (bxroce_drop_index (rb_unlink L) m (mr_pool d))"

definition drop_mr_ref :: "nat \<Rightarrow> mr_dev \<Rightarrow> kern \<Rightarrow> (mr_dev \<times> kern) option" where
  "drop_mr_ref m d s =
     map_option (\<lambda>(p, s). (d\<lparr>mr_pool := p\<rparr>, s)) (bxroce_drop_ref m (mr_pool d) s)"

definition add_pd_ref :: "nat \<Rightarrow> mr_dev \<Rightarrow> mr_dev option" where
  "add_pd_ref pd d = map_option (\<lambda>p. d\<lparr>pd_pool := p\<rparr>) (bxroce_add_ref pd (pd_pool d))"

text \<open>\<open>bxroce_drop_ref\<close> of what \<open>mr->pd\<close> points to: defined for a domain only.\<close>

definition drop_pd_ref :: "pd_ptr \<Rightarrow> mr_dev \<Rightarrow> kern \<Rightarrow> (mr_dev \<times> kern) option" where
  "drop_pd_ref p d s =
     (case p of
        Pd_obj pd \<Rightarrow> map_option (\<lambda>(q, s). (d\<lparr>pd_pool := q\<rparr>, s)) (bxroce_drop_ref pd (pd_pool d) s)
      | _ \<Rightarrow> None)"

definition put_mr :: "nat \<Rightarrow> mr \<Rightarrow> mr_dev \<Rightarrow> mr_dev" where
  "put_mr m x d = d\<lparr>mr_pool := (mr_pool d)\<lparr>elems := (elems (mr_pool d))(m \<mapsto> x)\<rparr>\<rparr>"

text \<open>The labels \<open>err2\<close> and \<open>err3\<close> of the verbs, with the error.\<close>

definition mr_undo :: "klib \<Rightarrow> nat \<Rightarrow> nat \<Rightarrow> int \<Rightarrow> mr_dev \<Rightarrow> kern \<Rightarrow>
    ((int + nat) \<times> mr_dev \<times> kern) option" where
  "mr_undo L pd m err d s = do {
     (d, s) \<leftarrow> drop_pd_ref (Pd_obj pd) d s;
     d \<leftarrow> drop_mr_index L m d;
     (d, s) \<leftarrow> drop_mr_ref m d s;
     Some (Inl err, d, s)
   }"

definition bxroce_dereg_mr :: "klib \<Rightarrow> nat \<Rightarrow> mr_dev \<Rightarrow> kern \<Rightarrow> (int \<times> mr_dev \<times> kern) option"
  where "bxroce_dereg_mr L m d s = do {
     x \<leftarrow> elems (mr_pool d) m;
     let d = put_mr m (x\<lparr>mr_state := BXROCE_MEM_STATE_ZOMBIE\<rparr>) d;
     (d, s) \<leftarrow> drop_pd_ref (mr_pd x) d s;
     d \<leftarrow> drop_mr_index L m d;
     (d, s) \<leftarrow> drop_mr_ref m d s;
     Some (0, d, s)
   }"

definition bxroce_get_dma_mr :: "env \<Rightarrow> klib \<Rightarrow> nat \<Rightarrow> u32 \<Rightarrow> mr_dev \<Rightarrow> kern \<Rightarrow>
    ((int + nat) \<times> mr_dev \<times> kern) option" where
  "bxroce_get_dma_mr E L pd acc d s =
     (case bxroce_alloc E zero_mr (mr_pool d) s of
        (None, p, s) \<Rightarrow> Some (Inl (- ENOMEM), d\<lparr>mr_pool := p\<rparr>, s)
      | (Some m, p, s) \<Rightarrow> do {
          d \<leftarrow> add_mr_index L m (d\<lparr>mr_pool := p\<rparr>);
          d \<leftarrow> add_pd_ref pd d;
          x \<leftarrow> elems (mr_pool d) m;
          let (err, x, key) = bxroce_mem_init_dma pd (pool_type (mr_pool d)) acc (mr_key d) x;
          let d = put_mr m x d\<lparr>mr_key := key\<rparr>;
          if err \<noteq> 0 then mr_undo L pd m err d s else Some (Inr m, d, s)
        })"

definition bxroce_reg_user_mr :: "env \<Rightarrow> klib \<Rightarrow> umem_info \<Rightarrow> nat \<Rightarrow> u64 \<Rightarrow> u64 \<Rightarrow> u64 \<Rightarrow> u32 \<Rightarrow>
    bool \<Rightarrow> mr_dev \<Rightarrow> kern \<Rightarrow> ((int + nat) \<times> mr_dev \<times> kern) option" where
  "bxroce_reg_user_mr E L u pd start len io acc udata d s =
     (case bxroce_alloc E zero_mr (mr_pool d) s of
        (None, p, s) \<Rightarrow> Some (Inl (- ENOMEM), d\<lparr>mr_pool := p\<rparr>, s)
      | (Some m, p, s) \<Rightarrow>
          (let d = d\<lparr>mr_pool := p\<rparr>; (ok, s) = (if udata then copy_user E s else (True, s))
           in if \<not> ok then Some (Inl (- EFAULT), d, s)
              else do {
                d \<leftarrow> add_mr_index L m d;
                d \<leftarrow> add_pd_ref pd d;
                x \<leftarrow> elems (mr_pool d) m;
                (err, x, key, uresp, s) \<leftarrow> bxroce_mem_init_user E u pd (pool_type (mr_pool d))
                   start len io acc udata (mr_key d) x s;
                let d = put_mr m x d\<lparr>mr_key := key\<rparr>;
                if err \<noteq> 0 then mr_undo L pd m err d s else Some (Inr m, d, s)
              }))"

text \<open>The second argument of \<open>bxroce_mem_init_fast\<close> is the device where a domain is expected.\<close>

definition bxroce_alloc_mr :: "env \<Rightarrow> klib \<Rightarrow> nat \<Rightarrow> bool \<Rightarrow> nat \<Rightarrow> mr_dev \<Rightarrow> kern \<Rightarrow>
    ((int + nat) \<times> mr_dev \<times> kern) option" where
  "bxroce_alloc_mr E L pd type_mem_reg max_num_sg d s =
     (if \<not> type_mem_reg then Some (Inl (- EINVAL), d, s)
      else case bxroce_alloc E zero_mr (mr_pool d) s of
        (None, p, s) \<Rightarrow> Some (Inl (- ENOMEM), d\<lparr>mr_pool := p\<rparr>, s)
      | (Some m, p, s) \<Rightarrow> do {
          d \<leftarrow> add_mr_index L m (d\<lparr>mr_pool := p\<rparr>);
          d \<leftarrow> add_pd_ref pd d;
          x \<leftarrow> elems (mr_pool d) m;
          let (err, x, key, s) = bxroce_mem_init_fast E Pd_dev (pool_type (mr_pool d)) max_num_sg
                (mr_key d) x s;
          let d = put_mr m x d\<lparr>mr_key := key\<rparr>;
          if err \<noteq> 0 then mr_undo L pd m err d s else Some (Inr m, d, s)
        })"

end
