(* ===== verification/Mr_Correct.thy ===== *)
theory Mr_Correct
  imports Mr
begin

text \<open>
  Properties of memory regions: the keys, the scatter list of a registration, that the verbs
  undo each other, and the error paths on which they do not.
\<close>

section \<open>Keys\<close>

lemma bit_below_24:
  assumes "i < (2 ^ 24 :: u32)" and "bit i n"
  shows "n < 24"
proof -
  have "unat i < 2 ^ 24" using assms(1) by (simp add: word_less_nat_alt)
  then have "take_bit 24 (unat i) = unat i" by (simp add: take_bit_nat_eq_self_iff)
  then have "unat (take_bit 24 i) = unat i" by (simp add: unsigned_take_bit_eq)
  then have "take_bit 24 i = i" by (simp add: word_unat_eq_iff)
  then show ?thesis using assms(2) by (metis bit_take_bit_iff)
qed

lemma lkey_index:
  assumes "i < 2 ^ 24"
  shows "drop_bit 8 (push_bit 8 i OR ucast (k :: u8)) = (i :: u32)"
proof (rule word_eqI_bits)
  fix n assume "n < LENGTH(32)"
  then show "bit (drop_bit 8 (push_bit 8 i OR ucast k)) n = bit i n"
    using bit_below_24 [OF assms] by (auto simp: bit_simps)
qed

text \<open>The fifteen values the static variable takes, in their order.\<close>

definition key_cycle :: "u32 list" where
  "key_cycle = [1, 2, 4, 8, 17, 34, 69, 139, 22, 44, 88, 176, 96, 192, 128]"

lemma next_key_values:
  "next_key 1 = 2"
  "next_key 2 = 4"
  "next_key 4 = 8"
  "next_key 8 = 17"
  "next_key 17 = 34"
  "next_key 34 = 69"
  "next_key 69 = 139"
  "next_key 139 = 22"
  "next_key 22 = 44"
  "next_key 44 = 88"
  "next_key 88 = 176"
  "next_key 176 = 96"
  "next_key 96 = 192"
  "next_key 192 = 128"
  "next_key 128 = 1"
  by (simp_all add: next_key_def)

lemma next_key_cycle: "k \<in> set key_cycle \<Longrightarrow> next_key k \<in> set key_cycle"
  unfolding key_cycle_def by (auto simp: next_key_values)

lemma next_key_period: "k \<in> set key_cycle \<Longrightarrow> (next_key ^^ 15) k = k"
  unfolding key_cycle_def
  by (auto simp: numeral_eq_Suc funpow_swap1 next_key_values)

text \<open>
  The key byte of a memory region is never zero, but it only ever takes fifteen values: the
  feedback of \<open>bxroce_get_key\<close> has period 15, not 255, from its start value 1.
\<close>

theorem mr_key_values:
  "(next_key ^^ n) 1 \<in> set key_cycle \<and> (next_key ^^ n) 1 \<noteq> 0 \<and>
   (next_key ^^ (n + 15)) 1 = (next_key ^^ n) 1 \<and> distinct key_cycle"
proof -
  have k: "(next_key ^^ n) 1 \<in> set key_cycle"
    by (induction n) (simp_all add: next_key_cycle, simp add: key_cycle_def)
  moreover have "0 \<notin> set key_cycle" "distinct key_cycle" by (simp_all add: key_cycle_def)
  moreover have "(next_key ^^ (n + 15)) 1 = (next_key ^^ n) 1"
    using next_key_period [OF k] by (simp add: add.commute [of n] funpow_add)
  ultimately show ?thesis by metis
qed

section \<open>The scatter list of a registration\<close>

lemma sg_put_simps [simp]:
  "sg_phy_addr (sg_put a n st) = sg_phy_addr st @ [a]"
  "sg_phy_size (sg_put a n st) = sg_phy_size st @ [ucast n]"
  "cur_map (sg_put a n st) = cur_map st" "cur_buf (sg_put a n st) = cur_buf st"
  "leftsize (sg_put a n st) = leftsize st" "memsize (sg_put a n st) = memsize st"
  by (simp_all add: sg_put_def)

lemma sg_full_update [simp]: "sg_full (st\<lparr>bufs := b\<rparr>) = sg_full st"
  by (simp add: sg_full_def)

lemma sg_iter_small:
  assumes "\<not> hugetlb u" and "cur_buf st = length (sg_phy_addr st)"
    and "length (sg_phy_addr st) \<le> MAX_SG_NUM"
    and "length (sg_phy_size st) = length (sg_phy_addr st)"
  shows "\<exists>st'. sg_iter u maps xs st = Some st' \<and>
    sg_phy_addr st' = sg_phy_addr st @ map fst (take (MAX_SG_NUM - length (sg_phy_addr st)) xs) \<and>
    length (sg_phy_size st') = length (sg_phy_addr st')"
  using assms
proof (induction xs arbitrary: st)
  case (Cons x xs)
  obtain a n where x: "x = (a, n)" by force
  show ?case
  proof (cases "sg_full st")
    case True
    then show ?thesis using Cons.prems by (auto simp: x sg_store_def sg_full_def Let_def)
  next
    case False
    define st1 where "st1 = st\<lparr>bufs := (bufs st)(cur_map st := (bufs st (cur_map st))
        (cur_buf st := Some (a, push_bit (umem_shift u) 1)))\<rparr>"
    define st2 where "st2 = sg_put a (if leftsize st > ucast n then ucast n else leftsize st) st1"
    define st3 where "st3 = st2\<lparr>memsize := memsize st2 + ucast n,
        leftsize := leftsize st2 - ucast n, cur_buf := cur_buf st2 + 1\<rparr>"
    have eqs: "sg_phy_addr st3 = sg_phy_addr st @ [a]" "cur_buf st3 = cur_buf st + 1"
      "length (sg_phy_size st3) = length (sg_phy_size st) + 1"
      by (simp_all add: st3_def st2_def st1_def)
    have lt: "length (sg_phy_addr st) < 128"
      using False by (simp add: sg_full_def MAX_SG_NUM_def)
    have "sg_iter u maps (x # xs) st = sg_iter u maps xs st3"
      using False Cons.prems(1,2) lt
      by (simp add: x sg_store_def st3_def st2_def st1_def BXROCE_BUF_PER_MAP_def Let_def)
    moreover have "\<exists>st'. sg_iter u maps xs st3 = Some st' \<and>
        sg_phy_addr st' = sg_phy_addr st3 @ map fst (take (MAX_SG_NUM - length (sg_phy_addr st3)) xs) \<and>
        length (sg_phy_size st') = length (sg_phy_addr st')"
      using Cons.prems lt eqs by (intro Cons.IH) (simp_all add: MAX_SG_NUM_def)
    moreover have "MAX_SG_NUM - length (sg_phy_addr st) =
        Suc (MAX_SG_NUM - length (sg_phy_addr st3))"
      using lt eqs by (simp add: MAX_SG_NUM_def)
    ultimately show ?thesis using eqs(1) by (auto simp: x)
  qed
qed simp

lemma sg_run_small:
  assumes "\<not> hugetlb u" and "len \<noteq> 0" and "num_map m \<noteq> 0"
  shows "\<exists>st. sg_run u len m = Some st \<and> sg_phy_addr st = map fst (take MAX_SG_NUM (sgs u)) \<and>
    length (sg_phy_size st) = length (sg_phy_addr st)"
  using sg_iter_small [of u "sg_start len m" "num_map m" "sgs u"] assms
  by (simp add: sg_run_def sg_start_def)

lemma mem_alloc_maps:
  assumes "bxroce_mem_alloc E n m s = (0, m', s')" and "0 < n"
  shows "num_map m' \<noteq> 0"
  using assms
  by (auto simp: bxroce_mem_alloc_def BXROCE_BUF_PER_MAP_def Let_def split: option.splits if_splits
      prod.splits)

text \<open>
  Registering user memory that is not in huge pages never writes outside its page maps,
  and the response lists the bus addresses of the first 128 scatter entries: a region with
  more entries is registered, with status 0, although its tail is not in the response.
\<close>

theorem mr_user_sg_table:
  assumes "\<not> hugetlb u" and "len \<noteq> 0" and "sgs u \<noteq> []"
  shows "\<exists>r m' key' resp s'. bxroce_mem_init_user E u pd t start len io acc udata key m s =
      Some (r, m', key', resp, s') \<and>
    (\<forall>v. resp = Some v \<longrightarrow> r = 0 \<and> uresp_addr v = map fst (take MAX_SG_NUM (sgs u)) \<and>
      sg_phy_num v = min MAX_SG_NUM (length (sgs u)) \<and> length (uresp_size v) = sg_phy_num v)"
proof -
  obtain um s1 where um: "kalloc E s = (um, s1)" by force
  show ?thesis
  proof (cases um)
    case None
    then show ?thesis using um by (simp add: bxroce_mem_init_user_def)
  next
    case (Some a)
    obtain m1 key1 where i: "bxroce_mem_init acc t key (m\<lparr>umem := Some a\<rparr>) = (m1, key1)" by force
    obtain err m2 s2 where al: "bxroce_mem_alloc E (length (sgs u)) m1 s1 = (err, m2, s2)"
      by (metis prod_cases3)
    show ?thesis
    proof (cases "err = 0")
      case False
      then show ?thesis using um Some i al by (simp add: bxroce_mem_init_user_def Let_def)
    next
      case True
      obtain st where st: "sg_run u len m2 = Some st"
          "sg_phy_addr st = map fst (take MAX_SG_NUM (sgs u))"
          "length (sg_phy_size st) = length (sg_phy_addr st)"
        using sg_run_small [OF assms(1,2) mem_alloc_maps [OF al [unfolded True]]] assms(3) by auto
      show ?thesis
        using um Some i al True st
        by (cases "udata") (auto simp: bxroce_mem_init_user_def copy_user_def Let_def min_def)
    qed
  qed
qed

definition long_umem :: umem_info where
  "long_umem = \<lparr>sgs = map (\<lambda>i. (word_of_nat i * 0x1000, 0x1000)) [0..<200], umem_shift = 12,
     hugetlb = False, umem_offset = 0\<rparr>"

theorem mr_user_sg_table_witness:
  "\<exists>r m' key' resp s'. bxroce_mem_init_user file_env long_umem 0 BXROCE_TYPE_MR 0 0xc8000 0 7
     True 1 zero_mr empty_kern = Some (r, m', key', resp, s')"
  using mr_user_sg_table [of long_umem "0xc8000" file_env 0 BXROCE_TYPE_MR 0 0 7 True 1 zero_mr
      empty_kern]
  by (auto simp: long_umem_def)

section \<open>Error paths\<close>

lemma trace_kfree_all: "trace (kfree_all as s) = map Ekfree (rev as) @ trace s"
  by (induction as arbitrary: s) auto

lemma next_obj_kfree_all [simp]: "next_obj (kfree_all as s) = next_obj s"
  by (induction as arbitrary: s) auto

lemma next_obj_mem_cleanup [simp]: "next_obj (bxroce_mem_cleanup m s) = next_obj s"
  by (simp add: bxroce_mem_cleanup_def Let_def split: option.split)

lemma mem_init_keeps [simp]:
  "umem (fst (bxroce_mem_init acc t key m)) = umem m"
  "map_ptr (fst (bxroce_mem_init acc t key m)) = map_ptr m"
  "num_map (fst (bxroce_mem_init acc t key m)) = num_map m"
  "index (fst (bxroce_mem_init acc t key m)) = index m"
  "ref_cnt (fst (bxroce_mem_init acc t key m)) = ref_cnt m"
  by (simp_all add: bxroce_mem_init_def Let_def split: prod.split)

text \<open>
  When the page maps of a registration cannot be allocated, the user memory is released
  by \<open>bxroce_mem_init_user\<close> and once more by the cleanup of the region that the error path
  of \<open>bxroce_reg_user_mr\<close> then drops: the region still points to it.
\<close>

theorem mr_failed_registration_releases_twice:
  assumes "bxroce_mem_init_user E u pd t start len io acc udata key m s =
      Some (- ENOMEM, m', key', resp, s')"
  shows "\<exists>um. umem m' = Some um \<and>
    2 \<le> count_list (trace (bxroce_mem_cleanup m' s')) (Ekfree um)"
proof -
  obtain um s1 where um: "kalloc E s = (um, s1)" by force
  obtain a where a: "um = Some a"
    using assms um by (cases um) (auto simp: bxroce_mem_init_user_def)
  obtain m1 key1 where i: "bxroce_mem_init acc t key (m\<lparr>umem := Some a\<rparr>) = (m1, key1)" by force
  have um1: "umem m1 = Some a" using mem_init_keeps(1) [of acc t key "m\<lparr>umem := Some a\<rparr>"] i by simp
  obtain err m2 s2 where al: "bxroce_mem_alloc E (length (sgs u)) m1 s1 = (err, m2, s2)"
    by (metis prod_cases3)
  have um2: "umem m2 = Some a"
    using al um1 by (auto simp: bxroce_mem_alloc_def Let_def split: option.splits prod.splits if_splits)
  have "err \<noteq> 0"
    using assms um a i al
    by (auto simp: bxroce_mem_init_user_def copy_user_def Let_def bind_eq_Some_conv split: if_splits)
  then have "m' = m2" "s' = kfree (Some a) s2"
    using assms um a i al by (auto simp: bxroce_mem_init_user_def Let_def)
  then show ?thesis
    using um2
    by (auto simp: bxroce_mem_cleanup_def Let_def trace_kfree_all split: option.split)
qed

text \<open>An environment that refuses every allocation after the first.\<close>

definition poor_env :: env where
  "poor_env = file_env\<lparr>alloc_ok := (\<lambda>t. t = [])\<rparr>"

theorem mr_failed_registration_releases_twice_witness:
  "\<exists>m' key' s' um. bxroce_mem_init_user poor_env long_umem 0 BXROCE_TYPE_MR 0 0x1000 0 7 False 1
      zero_mr empty_kern = Some (- ENOMEM, m', key', None, s') \<and>
    2 \<le> count_list (trace (bxroce_mem_cleanup m' s')) (Ekfree um)"
proof -
  have "\<exists>m' key' s'. bxroce_mem_init_user poor_env long_umem 0 BXROCE_TYPE_MR 0 0x1000 0 7 False 1
      zero_mr empty_kern = Some (- ENOMEM, m', key', None, s')"
    by (simp add: bxroce_mem_init_user_def bxroce_mem_alloc_def kalloc_def poor_env_def file_env_def
        empty_kern_def emit_def Let_def split: prod.split)
  then obtain m' key' s' where r: "bxroce_mem_init_user poor_env long_umem 0 BXROCE_TYPE_MR 0
      0x1000 0 7 False 1 zero_mr empty_kern = Some (- ENOMEM, m', key', None, s')"
    by blast
  from mr_failed_registration_releases_twice [OF r] r show ?thesis by blast
qed

text \<open>
  When the copy of the user's request fails, \<open>bxroce_reg_user_mr\<close> returns \<open>-EFAULT\<close> but
  keeps the region it allocated: the pool has one object more, without an index and with its
  reference, that nothing points to.
\<close>

theorem mr_copy_fault_leaks:
  assumes "pool_ok (mr_pool d) s"
    and "bxroce_reg_user_mr E L u pd start len io acc True d s = Some (Inl (- EFAULT), d', s')"
  shows "\<exists>m. m \<notin> dom (elems (mr_pool d)) \<and> m \<notin> indexed (mr_pool d') \<and>
    elems (mr_pool d') = (elems (mr_pool d))(m \<mapsto> zero_mr\<lparr>ref_cnt := 1\<rparr>)"
proof -
  obtain r p s1 where al: "bxroce_alloc E zero_mr (mr_pool d) s = (r, p, s1)" by (metis prod_cases3)
  have init: "fst z \<noteq> - EFAULT"
    if "bxroce_mem_init_user E u pd t start len io acc True key m s2 = Some z" for z t key m s2
    using that
    by (auto simp: bxroce_mem_init_user_def bxroce_mem_alloc_def copy_user_def Let_def
        bind_eq_Some_conv split: option.splits prod.splits if_splits)
  obtain m where m: "r = Some m"
    using al assms(2) by (cases r) (auto simp: bxroce_reg_user_mr_def)
  obtain ok s2 where c: "copy_user E s1 = (ok, s2)" by force
  have "\<not> ok"
  proof
    assume "ok"
    then show False
      using assms(2) al m c init
      by (fastforce simp: bxroce_reg_user_mr_def Let_def bind_eq_Some_conv mr_undo_def
          split: if_splits prod.splits)
  qed
  then have "d' = d\<lparr>mr_pool := p\<rparr>"
    using assms(2) al m c by (simp add: bxroce_reg_user_mr_def Let_def)
  then show ?thesis using bxroce_alloc_cases [OF assms(1) al] m by auto
qed

definition fault_env :: env where
  "fault_env = file_env\<lparr>copy_ok := (\<lambda>_. False)\<rparr>"

definition plain_lib :: klib where
  "plain_lib = \<lparr>find_next_zero_bit = scan_next_zero, find_first_zero_bit = scan_first_zero,
     rb_color = plain_color, rb_unlink = plain_erase\<rparr>"

definition mr_types :: "elem_type \<Rightarrow> unit mr_ext type_info" where
  "mr_types = bxroce_type_info (\<lambda>_. 512) (\<lambda>_. Some bxroce_mem_cleanup)"

definition mr_start :: "mr_pool \<times> kern" where
  "mr_start = snd (bxroce_pool_init file_env mr_types BXROCE_TYPE_MR 0x40000 empty_kern)"

definition zero_pd :: pd where
  "zero_pd = \<lparr>index = 0, elem_key = [], ref_cnt = 1, pd_id = 0, pd_uctx = None\<rparr>"

definition pd_types :: "elem_type \<Rightarrow> unit pd_ext type_info" where
  "pd_types = bxroce_type_info (\<lambda>_. 64) (\<lambda>_. None)"

definition pd_start :: pd_pool where
  "pd_start = (fresh_pool (pd_types BXROCE_TYPE_PD) BXROCE_TYPE_PD 1024)
     \<lparr>state := BXROCE_POOL_STATE_VALID, pool_ref := 2, num_elem := 1, elems := [0 \<mapsto> zero_pd]\<rparr>"

definition dev_start :: mr_dev where
  "dev_start = \<lparr>mr_pool = fst mr_start, pd_pool = pd_start, mr_key = 1\<rparr>"

lemmas dev_start_defs = dev_start_def mr_start_def mr_types_def mr_run_defs

lemma dev_start_ok: "pool_ok (mr_pool dev_start) (snd mr_start)"
proof -
  have i: "bxroce_pool_init file_env mr_types BXROCE_TYPE_MR 0x40000 empty_kern =
      (0, fst mr_start, snd mr_start)"
    by (simp add: dev_start_defs)
  have "ti_flags (mr_types BXROCE_TYPE_MR) AND BXROCE_POOL_INDEX \<noteq> 0"
    "cleanup_ok (ti_cleanup (mr_types BXROCE_TYPE_MR))"
    by (simp_all add: mr_types_def bxroce_type_info_def pool_consts cleanup_ok_def)
  from bxroce_pool_init_ok [OF i this(1) _ this(2)] show ?thesis by (simp add: dev_start_def)
qed

theorem mr_copy_fault_leaks_witness:
  "\<exists>d' s' m. bxroce_reg_user_mr fault_env plain_lib long_umem 0 0 0x1000 0 7 True dev_start
      (snd mr_start) = Some (Inl (- EFAULT), d', s') \<and> m \<notin> indexed (mr_pool d') \<and>
    m \<in> dom (elems (mr_pool d'))"
proof -
  have "\<exists>d' s'. bxroce_reg_user_mr fault_env plain_lib long_umem 0 0 0x1000 0 7 True dev_start
      (snd mr_start) = Some (Inl (- EFAULT), d', s')"
    by (simp add: bxroce_reg_user_mr_def bxroce_alloc_def copy_user_def fault_env_def dev_start_defs)
  then obtain d' s' where r: "bxroce_reg_user_mr fault_env plain_lib long_umem 0 0 0x1000 0 7 True
      dev_start (snd mr_start) = Some (Inl (- EFAULT), d', s')"
    by blast
  from mr_copy_fault_leaks [OF dev_start_ok r] r show ?thesis by auto
qed

lemma mem_init_fast_pd:
  "bxroce_mem_init_fast E P t n key m s = (err, m', key', s') \<Longrightarrow> err = 0 \<Longrightarrow> mr_pd m' = P"
  by (auto simp: bxroce_mem_init_fast_def Let_def split: prod.splits if_splits)

text \<open>
  A region made by \<open>bxroce_alloc_mr\<close> cannot be deregistered: it points to the device
  where its protection domain is expected, and \<open>bxroce_dereg_mr\<close> drops a reference there.
\<close>

theorem mr_fast_dereg_undefined:
  assumes "bxroce_alloc_mr E L pd True n d s = Some (Inr m, d', s')"
  shows "bxroce_dereg_mr L m d' t = None"
proof -
  obtain r p s1 where al: "bxroce_alloc E zero_mr (mr_pool d) s = (r, p, s1)" by (metis prod_cases3)
  obtain a where a: "r = Some a"
    using assms al by (cases r) (auto simp: bxroce_alloc_mr_def)
  obtain d2 x where x: "elems (mr_pool d2) a = Some x"
      "(let (err, x, key, s) = bxroce_mem_init_fast E Pd_dev (pool_type (mr_pool d2)) n
            (mr_key d2) x s1;
          d = put_mr a x d2\<lparr>mr_key := key\<rparr>
        in if err \<noteq> 0 then mr_undo L pd a err d s else Some (Inr a, d, s)) = Some (Inr m, d', s')"
    using assms al a by (auto simp: bxroce_alloc_mr_def bind_eq_Some_conv)
  obtain err x2 key s2 where i: "bxroce_mem_init_fast E Pd_dev (pool_type (mr_pool d2)) n
      (mr_key d2) x s1 = (err, x2, key, s2)"
    by (metis prod_cases4)
  have "err = 0 \<and> m = a \<and> d' = put_mr a x2 d2\<lparr>mr_key := key\<rparr>"
    using x(2) i by (auto simp: Let_def mr_undo_def bind_eq_Some_conv split: if_splits prod.splits)
  moreover have "err = 0 \<Longrightarrow> mr_pd x2 = Pd_dev" using i by (rule mem_init_fast_pd)
  ultimately show ?thesis
    by (simp add: bxroce_dereg_mr_def put_mr_def drop_pd_ref_def)
qed

lemmas mr_first_defs = plain_lib_def index_range_def scan_next_zero_def table_bit_def
  longs_size_def plain_color_def pd_start_def pd_types_def bxroce_mem_init_fast_def
  bxroce_mem_alloc_def bxroce_mem_init_def bxroce_get_key_def next_key_def zero_mr_def
  BXROCE_BUF_PER_MAP_def put_mr_def emit_def index_of_def

theorem mr_fast_dereg_undefined_witness:
  "\<exists>d' s'. bxroce_alloc_mr file_env plain_lib 0 True 1 dev_start (snd mr_start) =
      Some (Inr 1, d', s') \<and> bxroce_dereg_mr plain_lib 1 d' s' = None"
proof -
  have "\<exists>d' s'. bxroce_alloc_mr file_env plain_lib 0 True 1 dev_start (snd mr_start) =
      Some (Inr 1, d', s')"
    by (simp add: bxroce_alloc_mr_def bxroce_alloc_def add_mr_index_def bxroce_add_index_def
        alloc_index_def insert_index_def add_pd_ref_def bxroce_add_ref_def dev_start_defs
        mr_first_defs)
  then obtain d' s' where r: "bxroce_alloc_mr file_env plain_lib 0 True 1 dev_start (snd mr_start) =
      Some (Inr 1, d', s')"
    by blast
  from mr_fast_dereg_undefined [OF r] r show ?thesis by blast
qed

section \<open>Registering and deregistering\<close>

definition lib_ok :: "klib \<Rightarrow> bool" where
  "lib_ok L \<longleftrightarrow>
     pool_env (find_next_zero_bit L) (find_first_zero_bit L) (rb_color L) (rb_unlink L)"

lemma plain_lib_ok: "lib_ok plain_lib"
  using plain_pool_env by (simp add: lib_ok_def plain_lib_def)

text \<open>
  What a successful registration leaves: a new indexed region that points to its domain, whose
  reference count is one more.
\<close>

definition registered :: "nat \<Rightarrow> mr_dev \<Rightarrow> nat \<Rightarrow> mr_dev \<Rightarrow> kern \<Rightarrow> bool" where
  "registered pd d m d' s' \<longleftrightarrow> pool_ok (mr_pool d') s' \<and> m \<notin> dom (elems (mr_pool d)) \<and>
     (\<exists>x i px. elems (mr_pool d') = (elems (mr_pool d))(m \<mapsto> x) \<and> mr_pd x = Pd_obj pd \<and>
        ref_cnt x = 1 \<and> pool_abs (mr_pool d) i = None \<and>
        pool_abs (mr_pool d') = (pool_abs (mr_pool d))(i \<mapsto> m) \<and>
        elems (pd_pool d) pd = Some px \<and> 0 < ref_cnt px \<and>
        elems (pd_pool d') = (elems (pd_pool d))(pd \<mapsto> px\<lparr>ref_cnt := ref_cnt px + 1\<rparr>))"

lemma put_mr_ok:
  assumes "pool_ok (mr_pool d) s" and "elems (mr_pool d) m = Some x"
    and "index y = index x" and "0 < ref_cnt y"
  shows "pool_ok (mr_pool (put_mr m y d)) s \<and>
    pool_abs (mr_pool (put_mr m y d)) = pool_abs (mr_pool d) \<and>
    indexed (mr_pool (put_mr m y d)) = indexed (mr_pool d)"
  using assms index_ok_update [of "mr_pool d" m x y] counts_ok_update [of "mr_pool d" s m x y]
  by (simp add: put_mr_def pool_ok_def)

lemma put_mr_simps [simp]:
  "elems (mr_pool (put_mr m y d)) = (elems (mr_pool d))(m \<mapsto> y)"
  "pd_pool (put_mr m y d) = pd_pool d" "mr_key (put_mr m y d) = mr_key d"
  by (simp_all add: put_mr_def)

lemma pd_ref_restored:
  "elems (pd_pool d) pd = Some px \<Longrightarrow> 1 < ref_cnt px \<Longrightarrow>
   \<exists>q. drop_pd_ref (Pd_obj pd) d s = Some (d\<lparr>pd_pool := q\<rparr>, s) \<and>
     elems q = (elems (pd_pool d))(pd \<mapsto> px\<lparr>ref_cnt := ref_cnt px - 1\<rparr>)"
  by (auto simp: drop_pd_ref_def bxroce_drop_ref_def)

lemma dereg_registered:
  assumes L: "lib_ok L" and r: "registered pd d m d' s'" and ok: "pool_ok (mr_pool d) s"
  shows "\<exists>d2 s2. bxroce_dereg_mr L m d' s' = Some (0, d2, s2) \<and> pool_ok (mr_pool d2) s2 \<and>
    pool_abs (mr_pool d2) = pool_abs (mr_pool d) \<and> elems (mr_pool d2) = elems (mr_pool d) \<and>
    elems (pd_pool d2) = elems (pd_pool d)"
proof -
  obtain x i px where x: "elems (mr_pool d') = (elems (mr_pool d))(m \<mapsto> x)" "mr_pd x = Pd_obj pd"
      "ref_cnt x = 1" "pool_abs (mr_pool d) i = None"
      "pool_abs (mr_pool d') = (pool_abs (mr_pool d))(i \<mapsto> m)"
    and px: "elems (pd_pool d) pd = Some px" "0 < ref_cnt px"
      "elems (pd_pool d') = (elems (pd_pool d))(pd \<mapsto> px\<lparr>ref_cnt := ref_cnt px + 1\<rparr>)"
    and ok': "pool_ok (mr_pool d') s'" and new: "m \<notin> dom (elems (mr_pool d))"
    using r by (auto simp: registered_def)
  let ?z = "x\<lparr>mr_state := BXROCE_MEM_STATE_ZOMBIE\<rparr>"
  define d1 where "d1 = put_mr m ?z d'"
  have d1: "pool_ok (mr_pool d1) s'" "pool_abs (mr_pool d1) = pool_abs (mr_pool d')"
    "elems (mr_pool d1) m = Some ?z"
    using put_mr_ok [OF ok', of m x ?z] x(1,3) by (simp_all add: d1_def)
  obtain q where q: "drop_pd_ref (Pd_obj pd) d1 s' = Some (d1\<lparr>pd_pool := q\<rparr>, s')"
      "elems q = (elems (pd_pool d1))(pd \<mapsto> px)"
    using pd_ref_restored [of d1 pd "px\<lparr>ref_cnt := ref_cnt px + 1\<rparr>" s'] px by (auto simp: d1_def)
  have eq: "elems q = elems (pd_pool d)" using q(2) px by (auto simp: d1_def fun_eq_iff)
  have ixm: "m \<in> indexed (mr_pool d1)" "index_of (mr_pool d1) m = i"
    using pool_abs_Some [of "mr_pool d1" i m] d1 x(5) by (auto simp: pool_ok_def)
  obtain p2 where p2: "bxroce_drop_index (rb_unlink L) m (mr_pool d1) = Some p2" "pool_ok p2 s'"
      "pool_abs p2 = (pool_abs (mr_pool d1))(i := None)"
      "indexed p2 = indexed (mr_pool d1) - {m}"
    using pool_env.drop_index_ok [OF L [unfolded lib_ok_def] d1(1) ixm(1)] ixm(2) by auto
  have e2: "elems p2 = elems (mr_pool d1)"
    using p2(1) by (auto simp: bxroce_drop_index_def Let_def split: option.splits if_splits)
  have "elems p2 m = Some ?z" using e2 d1(3) by simp
  then obtain p3 s3 where p3: "bxroce_drop_ref m p2 s' = Some (p3, s3)" "pool_ok p3 s3"
      "pool_abs p3 = pool_abs p2" "elems p3 = (elems p2)(m := None)"
    using bxroce_drop_ref_ok [OF p2(2), of m ?z] p2(4) x(3) by auto
  have "bxroce_dereg_mr L m d' s' = Some (0, d1\<lparr>pd_pool := q, mr_pool := p3\<rparr>, s3)"
    using x(1,2) q(1) p2(1) p3(1) by (simp add: bxroce_dereg_mr_def d1_def [symmetric]
        drop_mr_index_def drop_mr_ref_def)
  moreover have "pool_abs p3 = pool_abs (mr_pool d)"
    using p3(3) p2(3) d1(2) x(4,5) by (auto simp: fun_eq_iff)
  moreover have "elems p3 = elems (mr_pool d)"
    using p3(4) e2 x(1) new by (auto simp: d1_def fun_eq_iff)
  ultimately show ?thesis using p3(2) eq by simp
qed

text \<open>Both verbs allocate, index and take a reference, and then fill in the region.\<close>

lemma registered_intro:
  assumes L: "lib_ok L" and ok: "pool_ok (mr_pool d) s"
    and al: "bxroce_alloc E zero_mr (mr_pool d) s = (Some m, p, s1)"
    and px: "elems (pd_pool d) pd = Some px" "0 < ref_cnt px"
  shows "\<exists>d1 d2 x. add_mr_index L m (d\<lparr>mr_pool := p\<rparr>) = Some d1 \<and> add_pd_ref pd d1 = Some d2 \<and>
    elems (mr_pool d2) m = Some x \<and> ref_cnt x = 1 \<and>
    (\<forall>y k s'. index y = index x \<and> ref_cnt y = 1 \<and> mr_pd y = Pd_obj pd \<and>
       next_obj s1 \<le> next_obj s' \<longrightarrow>
       registered pd d m (put_mr m y d2\<lparr>mr_key := k\<rparr>) s')"
proof -
  have a: "m \<notin> dom (elems (mr_pool d))" "pool_ok p s1" "pool_abs p = pool_abs (mr_pool d)"
      "elems p = (elems (mr_pool d))(m \<mapsto> zero_mr\<lparr>ref_cnt := 1\<rparr>)" "m \<notin> indexed p"
    using bxroce_alloc_cases [OF ok al] by auto
  obtain p1 i where p1: "bxroce_add_index (find_next_zero_bit L) (find_first_zero_bit L)
      (rb_color L) m p = Some p1" "pool_ok p1 s1" "pool_abs p i = None"
      "pool_abs p1 = (pool_abs p)(i \<mapsto> m)"
    using pool_env.add_index_ok [OF L [unfolded lib_ok_def] a(2), of m] a(4,5) by auto
  obtain j where e1: "elems p1 = (elems p)(m \<mapsto> zero_mr\<lparr>ref_cnt := 1, index := j\<rparr>)"
    using p1(1) a(4)
    by (auto simp: bxroce_add_index_def insert_index_def alloc_index_def Let_def
        split: option.splits if_splits)
  define d1 where "d1 = d\<lparr>mr_pool := p1\<rparr>"
  have s1: "add_mr_index L m (d\<lparr>mr_pool := p\<rparr>) = Some d1"
    using p1(1) by (simp add: add_mr_index_def d1_def)
  obtain q where q: "bxroce_add_ref pd (pd_pool d1) = Some q"
      "elems q = (elems (pd_pool d))(pd \<mapsto> px\<lparr>ref_cnt := ref_cnt px + 1\<rparr>)"
    using px(1) by (auto simp: bxroce_add_ref_def d1_def)
  define d2 where "d2 = d1\<lparr>pd_pool := q\<rparr>"
  have s2: "add_pd_ref pd d1 = Some d2" using q(1) by (simp add: add_pd_ref_def d2_def)
  let ?x = "zero_mr\<lparr>ref_cnt := 1, index := j\<rparr>"
  have x: "elems (mr_pool d2) m = Some ?x" using e1 by (simp add: d2_def d1_def)
  have "registered pd d m (put_mr m y d2\<lparr>mr_key := k\<rparr>) s'"
    if y: "index y = index ?x \<and> ref_cnt y = 1 \<and> mr_pd y = Pd_obj pd \<and> next_obj s1 \<le> next_obj s'"
    for y k s'
  proof -
    have "pool_ok (mr_pool d2) s'"
      using pool_ok_later [OF p1(2)] y by (simp add: d2_def d1_def)
    from put_mr_ok [OF this x, of y] y
    show ?thesis
      using a p1(3,4) e1 px q(2)
      by (auto simp: registered_def d2_def d1_def put_mr_def)
  qed
  then show ?thesis using s1 s2 x by auto
qed

lemma mem_init_user_mr:
  assumes "bxroce_mem_init_user E u pd t start len io acc udata key m s = Some (0, m', key', v, s')"
  shows "index m' = index m \<and> ref_cnt m' = ref_cnt m \<and> mr_pd m' = Pd_obj pd \<and>
    next_obj s \<le> next_obj s'"
proof -
  have maps: "next_obj s \<le> next_obj (snd (snd (alloc_maps E n ms s)))" for n ms s
    by (induction E n ms s rule: alloc_maps.induct)
      (auto simp: kalloc_def split: option.splits prod.splits if_splits)
  have maps': "next_obj b \<le> next_obj b'" if "alloc_maps E n ms b = (ok, ms', b')" for b n ms ok ms' b'
    using maps [of b n ms] that by simp
  have mem: "index x' = index x \<and> ref_cnt x' = ref_cnt x \<and> next_obj a \<le> next_obj a'"
    if "bxroce_mem_alloc E n x a = (0, x', a')" for n x x' a a'
    using that
    by (auto simp: bxroce_mem_alloc_def kalloc_def Let_def split: prod.splits if_splits
        dest!: maps')
  obtain um s1 where um: "kalloc E s = (um, s1)" by force
  obtain a where a: "um = Some a"
    using assms um by (cases um) (auto simp: bxroce_mem_init_user_def)
  obtain m1 key1 where i: "bxroce_mem_init acc t key (m\<lparr>umem := Some a\<rparr>) = (m1, key1)" by force
  obtain err m2 s2 where al: "bxroce_mem_alloc E (length (sgs u)) m1 s1 = (err, m2, s2)"
    by (metis prod_cases3)
  have "err = 0" using assms um a i al
    by (auto simp: bxroce_mem_init_user_def Let_def split: if_splits)
  moreover have "index m1 = index m" "ref_cnt m1 = ref_cnt m"
    using mem_init_keeps(4,5) [of acc t key "m\<lparr>umem := Some a\<rparr>"] i by simp_all
  moreover have "next_obj s \<le> next_obj s1"
    using um by (auto simp: kalloc_def split: if_splits)
  ultimately show ?thesis
    using assms um a i al mem [of "length (sgs u)" m1 s1 m2 s2]
    by (auto simp: bxroce_mem_init_user_def copy_user_def Let_def bind_eq_Some_conv split: if_splits)
qed

lemma reg_user_registered:
  assumes "lib_ok L" and ok: "pool_ok (mr_pool d) s"
    and px: "elems (pd_pool d) pd = Some px" "0 < ref_cnt px"
    and r: "bxroce_reg_user_mr E L u pd start len io acc udata d s = Some (Inr m, d', s')"
  shows "registered pd d m d' s'"
proof -
  obtain r p s1 where al0: "bxroce_alloc E zero_mr (mr_pool d) s = (r, p, s1)" by (metis prod_cases3)
  then obtain a where a: "r = Some a"
    using r by (cases r) (auto simp: bxroce_reg_user_mr_def)
  note al = al0 [unfolded a]
  obtain d1 d2 x where steps: "add_mr_index L a (d\<lparr>mr_pool := p\<rparr>) = Some d1"
      "add_pd_ref pd d1 = Some d2" "elems (mr_pool d2) a = Some x" "ref_cnt x = 1"
      "\<And>y k s'. index y = index x \<Longrightarrow> ref_cnt y = 1 \<Longrightarrow> mr_pd y = Pd_obj pd \<Longrightarrow>
         next_obj s1 \<le> next_obj s' \<Longrightarrow> registered pd d a (put_mr a y d2\<lparr>mr_key := k\<rparr>) s'"
    using registered_intro [OF assms(1) ok al px] by blast
  obtain ok2 s2 where c: "(if udata then copy_user E s1 else (True, s1)) = (ok2, s2)" by force
  have ok2: ok2 using r al c by (auto simp: bxroce_reg_user_mr_def Let_def split: if_splits)
  have s12: "next_obj s2 = next_obj s1" using c by (auto simp: copy_user_def Let_def split: if_splits)
  obtain err y key v s3 where i: "bxroce_mem_init_user E u pd (pool_type (mr_pool d2)) start len io
      acc udata (mr_key d2) x s2 = Some (err, y, key, v, s3)"
    and fin: "(let d = put_mr a y d2\<lparr>mr_key := key\<rparr>
       in if err \<noteq> 0 then mr_undo L pd a err d s3 else Some (Inr a, d, s3)) = Some (Inr m, d', s')"
    using r al c ok2 steps(1-3) by (auto simp: bxroce_reg_user_mr_def Let_def bind_eq_Some_conv)
  have e: "err = 0" "m = a" "d' = put_mr a y d2\<lparr>mr_key := key\<rparr>" "s3 = s'"
    using fin by (auto simp: Let_def mr_undo_def bind_eq_Some_conv split: if_splits)
  show ?thesis
    using mem_init_user_mr [OF i [unfolded e]] steps(4,5) s12 e by simp
qed

lemma get_dma_registered:
  assumes "lib_ok L" and ok: "pool_ok (mr_pool d) s"
    and px: "elems (pd_pool d) pd = Some px" "0 < ref_cnt px"
    and r: "bxroce_get_dma_mr E L pd acc d s = Some (Inr m, d', s')"
  shows "registered pd d m d' s'"
proof -
  obtain r p s1 where al0: "bxroce_alloc E zero_mr (mr_pool d) s = (r, p, s1)" by (metis prod_cases3)
  then obtain a where a: "r = Some a"
    using r by (cases r) (auto simp: bxroce_get_dma_mr_def)
  note al = al0 [unfolded a]
  obtain d1 d2 x where steps: "add_mr_index L a (d\<lparr>mr_pool := p\<rparr>) = Some d1"
      "add_pd_ref pd d1 = Some d2" "elems (mr_pool d2) a = Some x" "ref_cnt x = 1"
      "\<And>y k s'. index y = index x \<Longrightarrow> ref_cnt y = 1 \<Longrightarrow> mr_pd y = Pd_obj pd \<Longrightarrow>
         next_obj s1 \<le> next_obj s' \<Longrightarrow> registered pd d a (put_mr a y d2\<lparr>mr_key := k\<rparr>) s'"
    using registered_intro [OF assms(1) ok al px] by blast
  obtain y key where i: "bxroce_mem_init acc (pool_type (mr_pool d2)) (mr_key d2) x = (y, key)"
    by force
  have y: "index y = index x" "ref_cnt y = ref_cnt x"
    using mem_init_keeps(4,5) [of acc "pool_type (mr_pool d2)" "mr_key d2" x] i by simp_all
  let ?y = "y\<lparr>mr_pd := Pd_obj pd, access := acc, mr_state := BXROCE_MEM_STATE_VALID,
      mr_type := BXROCE_MEM_TYPE_DMA\<rparr>"
  have "m = a" "d' = put_mr a ?y d2\<lparr>mr_key := key\<rparr>" "s' = s1"
    using r al steps(1-3) i
    by (auto simp: bxroce_get_dma_mr_def bxroce_mem_init_dma_def Let_def)
  then show ?thesis using steps(5) [of ?y s1 key] y steps(4) by simp
qed

text \<open>
  Deregistering a region, whether \<open>bxroce_reg_user_mr\<close> or \<open>bxroce_get_dma_mr\<close> made it,
  is defined and restores what was before the registration: the regions of the pool, its map
  of indices and the reference count of the domain.
\<close>

theorem mr_dereg_restores:
  assumes "lib_ok L" and "pool_ok (mr_pool d) s"
    and "elems (pd_pool d) pd = Some px" and "0 < ref_cnt px"
    and "bxroce_reg_user_mr E L u pd start len io acc udata d s = Some (Inr m, d', s') \<or>
      bxroce_get_dma_mr E L pd acc d s = Some (Inr m, d', s')"
  shows "\<exists>d2 s2. bxroce_dereg_mr L m d' s' = Some (0, d2, s2) \<and> pool_ok (mr_pool d2) s2 \<and>
    pool_abs (mr_pool d2) = pool_abs (mr_pool d) \<and> elems (mr_pool d2) = elems (mr_pool d) \<and>
    elems (pd_pool d2) = elems (pd_pool d)"
proof -
  have "registered pd d m d' s'"
    using assms(5) reg_user_registered [OF assms(1-4)] get_dma_registered [OF assms(1-4)] by metis
  from dereg_registered [OF assms(1) this assms(2)] show ?thesis .
qed

theorem mr_dereg_restores_witness:
  "\<exists>d' s' d2 s2. bxroce_get_dma_mr file_env plain_lib 0 7 dev_start (snd mr_start) =
      Some (Inr 1, d', s') \<and> bxroce_dereg_mr plain_lib 1 d' s' = Some (0, d2, s2)"
proof -
  have "\<exists>d' s'. bxroce_get_dma_mr file_env plain_lib 0 7 dev_start (snd mr_start) =
      Some (Inr 1, d', s')"
    by (simp add: bxroce_get_dma_mr_def bxroce_alloc_def add_mr_index_def bxroce_add_index_def
        alloc_index_def insert_index_def add_pd_ref_def bxroce_add_ref_def dev_start_defs
        mr_first_defs bxroce_mem_init_dma_def)
  then obtain d' s' where r: "bxroce_get_dma_mr file_env plain_lib 0 7 dev_start (snd mr_start) =
      Some (Inr 1, d', s')"
    by blast
  have "elems (pd_pool dev_start) 0 = Some zero_pd" "0 < ref_cnt zero_pd"
    by (simp_all add: dev_start_def pd_start_def zero_pd_def)
  from mr_dereg_restores [OF plain_lib_ok dev_start_ok this, of _ _ _ _ _ 7 _ 1 d' s'] r
  show ?thesis by blast
qed

section \<open>The keys of the regions of a device\<close>

text \<open>
  Every history of the verbs that make and destroy regions, with any arguments, any environment and
  any outcome that is defined.
\<close>

inductive mr_run :: "klib \<Rightarrow> mr_dev \<times> kern \<Rightarrow> mr_dev \<times> kern \<Rightarrow> bool" for L z where
  start: "mr_run L z z"
| reg: "mr_run L z (d, s) \<Longrightarrow> bxroce_reg_user_mr E L u pd start len io acc udata d s = Some (r, d', s') \<Longrightarrow> mr_run L z (d', s')"
| dma: "mr_run L z (d, s) \<Longrightarrow> bxroce_get_dma_mr E L pd acc d s = Some (r, d', s') \<Longrightarrow> mr_run L z (d', s')"
| fast: "mr_run L z (d, s) \<Longrightarrow> bxroce_alloc_mr E L pd mem n d s = Some (r, d', s') \<Longrightarrow> mr_run L z (d', s')"
| dereg: "mr_run L z (d, s) \<Longrightarrow> bxroce_dereg_mr L m d s = Some (ret, d', s') \<Longrightarrow> mr_run L z (d', s')"

definition key_ok :: "mr \<Rightarrow> bool" where
  "key_ok x \<longleftrightarrow> drop_bit 8 (lkey x) = index x \<and> ibmr_lkey x = lkey x \<and>
     rkey x = (if access x AND IB_ACCESS_REMOTE \<noteq> 0 then lkey x else 0)"

text \<open>The pool of regions has the range of indices of its type.\<close>

definition mr_range :: "mr_pool \<Rightarrow> bool" where
  "mr_range p \<longleftrightarrow> min_index p = BXROCE_MIN_MR_INDEX \<and> max_index p = BXROCE_MAX_MR_INDEX \<and> pool_type p = BXROCE_TYPE_MR"

text \<open>A device between two verbs; while a region is made, \<open>M\<close> has that region.\<close>

definition mr_good :: "nat set \<Rightarrow> mr_dev \<Rightarrow> kern \<Rightarrow> bool" where
  "mr_good M d s \<longleftrightarrow> pool_ok (mr_pool d) s \<and> mr_range (mr_pool d) \<and> cleanup_ok (cleanup (pd_pool d)) \<and>
     (\<forall>m \<in> indexed (mr_pool d) - M. \<exists>x. elems (mr_pool d) m = Some x \<and> key_ok x)"

lemma mr_good_key [simp]: "mr_good M (d\<lparr>mr_key := k\<rparr>) s = mr_good M d s"
  by (simp add: mr_good_def)

lemma mr_good_pd: "mr_good M d s \<Longrightarrow> cleanup q = cleanup (pd_pool d) \<Longrightarrow> mr_good M (d\<lparr>pd_pool := q\<rparr>) s"
  by (simp add: mr_good_def)

lemma mr_good_later: "mr_good M d s \<Longrightarrow> next_obj s \<le> next_obj s' \<Longrightarrow> mr_good M d s'"
  using pool_ok_later by (auto simp: mr_good_def)

lemma range_kept:
  "bxroce_alloc E z p s = (r, p', s') \<Longrightarrow> mr_range p' = mr_range p"
  "bxroce_add_index f g h m p = Some p' \<Longrightarrow> mr_range p' = mr_range p"
  "bxroce_drop_index e m p = Some p' \<Longrightarrow> mr_range p' = mr_range p"
  "bxroce_drop_ref m p s = Some (p', s') \<Longrightarrow> mr_range p' = mr_range p"
  by (auto simp: mr_range_def bxroce_alloc_def bxroce_add_index_def insert_index_def alloc_index_def bxroce_drop_index_def
      bxroce_drop_ref_def bxroce_elem_release_def bxroce_pool_put_def bxroce_pool_release_def Let_def
      split: if_splits option.splits prod.splits)

lemma index_small:
  assumes "mr_range p" "pool_ok p s" "m \<in> indexed p" "elems p m = Some x"
  shows "index x < 2 ^ 24"
proof -
  have r: "index_range p = 0x40000" "min_index p = 1" using assms(1) by (simp_all add: mr_range_def index_range_def pool_consts)
  have "offset_of p m < unat (index_range p)" using assms(2,3) by (simp add: pool_ok_def index_ok_def)
  then have "index x - 1 < 0x40000" using assms(4) r by (simp add: offset_of_def index_of_def word_less_nat_alt)
  then show ?thesis by unat_arith
qed

lemma mem_init_key:
  assumes "bxroce_mem_init acc BXROCE_TYPE_MR key m = (m', key')" "index m < 2 ^ 24"
  shows "drop_bit 8 (lkey m') = index m' \<and> ibmr_lkey m' = lkey m' \<and> rkey m' = (if acc AND IB_ACCESS_REMOTE \<noteq> 0 then lkey m' else 0) \<and>
    index m' = index m \<and> ref_cnt m' = ref_cnt m \<and> access m' = access m"
  using assms lkey_index by (auto simp: bxroce_mem_init_def bxroce_get_key_def Let_def)

text \<open>What follows \<open>bxroce_mem_init\<close> keeps the keys.\<close>

definition same_keys :: "mr \<Rightarrow> mr \<Rightarrow> bool" where
  "same_keys x y \<longleftrightarrow> index y = index x \<and> ref_cnt y = ref_cnt x \<and> lkey y = lkey x \<and> rkey y = rkey x \<and>
     ibmr_lkey y = ibmr_lkey x \<and> access y = access x"

lemma alloc_maps_next: "alloc_maps E n ms s = (ok, ms', s') \<Longrightarrow> next_obj s \<le> next_obj s'"
proof -
  have "next_obj s \<le> next_obj (snd (snd (alloc_maps E n ms s)))"
    by (induction E n ms s rule: alloc_maps.induct) (auto simp: kalloc_def split: option.splits prod.splits if_splits)
  then show "alloc_maps E n ms s = (ok, ms', s') \<Longrightarrow> next_obj s \<le> next_obj s'" by simp
qed

lemma mem_alloc_keys: "bxroce_mem_alloc E n x s = (err, x', s') \<Longrightarrow> same_keys x x' \<and> next_obj s \<le> next_obj s'"
  by (auto simp: bxroce_mem_alloc_def same_keys_def kalloc_def Let_def split: prod.splits if_splits dest!: alloc_maps_next)

lemma mem_init_user_keys:
  assumes "bxroce_mem_init_user E u pd BXROCE_TYPE_MR start len io acc udata key m s = Some (err, m', key', v, s')"
    "index m < 2 ^ 24"
  shows "index m' = index m \<and> ref_cnt m' = ref_cnt m \<and> next_obj s \<le> next_obj s' \<and> (err = 0 \<longrightarrow> key_ok m' \<and> access m' = acc)"
proof -
  obtain um s1 where um: "kalloc E s = (um, s1)" by force
  have n1: "next_obj s \<le> next_obj s1" using um by (auto simp: kalloc_def split: if_splits)
  show ?thesis
  proof (cases um)
    case None
    then show ?thesis using assms(1) um n1 by (auto simp: bxroce_mem_init_user_def)
  next
    case (Some a)
    obtain m1 key1 where i: "bxroce_mem_init acc BXROCE_TYPE_MR key (m\<lparr>umem := Some a\<rparr>) = (m1, key1)" by force
    obtain e m2 s2 where al: "bxroce_mem_alloc E (length (sgs u)) m1 s1 = (e, m2, s2)" by (metis prod_cases3)
    have k: "drop_bit 8 (lkey m1) = index m1" "ibmr_lkey m1 = lkey m1" "rkey m1 = (if acc AND IB_ACCESS_REMOTE \<noteq> 0 then lkey m1 else 0)"
      "index m1 = index m" "ref_cnt m1 = ref_cnt m"
      using mem_init_key [OF i] assms(2) by simp_all
    have k2: "index m2 = index m1" "ref_cnt m2 = ref_cnt m1" "lkey m2 = lkey m1" "rkey m2 = rkey m1" "ibmr_lkey m2 = ibmr_lkey m1"
      "next_obj s1 \<le> next_obj s2"
      using mem_alloc_keys [OF al] by (simp_all add: same_keys_def)
    show ?thesis
    proof (cases "e = 0")
      case False
      then have "m' = m2 \<and> s' = kfree (Some a) s2 \<and> err = e" using assms(1) um Some i al by (auto simp: bxroce_mem_init_user_def Let_def)
      then show ?thesis using k(4,5) k2(1,2,6) n1 False by simp
    next
      case True
      obtain st where st: "sg_run u len m2 = Some st"
        using assms(1) um Some i al True by (cases "sg_run u len m2") (simp_all add: bxroce_mem_init_user_def)
      obtain c s3 where c: "(if udata then copy_user E s2 else (True, s2)) = (c, s3)" by force
      then have n3: "next_obj s3 = next_obj s2" by (auto simp: copy_user_def Let_def split: if_splits)
      have "m' = m2\<lparr>page_shift := umem_shift u, page_mask := ucast (push_bit (umem_shift u) 1 - 1 :: u64),
                          phys_buf := bufs st, mr_pd := Pd_obj pd, access := acc,
                          mr_length := len, iova := io, va := start,
                          mr_offset := umem_offset u, mr_state := BXROCE_MEM_STATE_VALID,
                          mr_type := BXROCE_MEM_TYPE_MR\<rparr> \<and> s' = s3"
        using assms(1) um Some i al True st c by (cases c) (simp_all add: bxroce_mem_init_user_def Let_def split: if_splits)
      then have "index m' = index m" "ref_cnt m' = ref_cnt m" "lkey m' = lkey m1" "rkey m' = rkey m1" "ibmr_lkey m' = lkey m1"
        "access m' = acc" "next_obj s \<le> next_obj s'" using k(2,4,5) k2 n1 n3 by simp_all
      then show ?thesis unfolding key_ok_def by (simp add: k(1,3,4))
    qed
  qed
qed

lemma mem_init_dma_keys:
  assumes "bxroce_mem_init_dma pd BXROCE_TYPE_MR acc key m = (err, m', key')" "index m < 2 ^ 24"
  shows "index m' = index m \<and> ref_cnt m' = ref_cnt m \<and> key_ok m'"
proof -
  obtain m1 key1 where i: "bxroce_mem_init acc BXROCE_TYPE_MR key m = (m1, key1)" by force
  show ?thesis using assms(1) mem_init_key [OF i assms(2)] by (auto simp: bxroce_mem_init_dma_def i key_ok_def)
qed

lemma mem_init_fast_keys:
  assumes "bxroce_mem_init_fast E P BXROCE_TYPE_MR n key m s = (err, m', key', s')" "index m < 2 ^ 24" "access m = 0"
  shows "index m' = index m \<and> ref_cnt m' = ref_cnt m \<and> next_obj s \<le> next_obj s' \<and> (err = 0 \<longrightarrow> key_ok m')"
proof -
  obtain m1 key1 where i: "bxroce_mem_init 0 BXROCE_TYPE_MR key m = (m1, key1)" by force
  obtain e m2 s2 where al: "bxroce_mem_alloc E n (m1\<lparr>ibmr_rkey := ibmr_lkey m1\<rparr>) s = (e, m2, s2)" by (metis prod_cases3)
  note k = mem_init_key [OF i assms(2)] and k2 = mem_alloc_keys [OF al]
  have "(err, m', key', s') = (if e \<noteq> 0 then (e, m2, key1, s2)
      else (0, m2\<lparr>mr_pd := P, max_buf := n, mr_state := BXROCE_MEM_STATE_FREE, mr_type := BXROCE_MEM_TYPE_MR\<rparr>, key1, s2))"
    using assms(1) unfolding bxroce_mem_init_fast_def i Let_def prod.case al by simp
  then show ?thesis using k k2 assms(3) by (cases "e = 0") (simp_all add: key_ok_def same_keys_def)
qed

text \<open>The steps the verbs share: a new object with an index, then a region or the way back.\<close>

lemma mr_indexed:
  assumes L: "lib_ok L" and g: "mr_good {} d s" and al: "bxroce_alloc E zero_mr (mr_pool d) s = (Some m, p, s1)"
    and ix: "add_mr_index L m (d\<lparr>mr_pool := p\<rparr>) = Some d1"
  shows "mr_good {m} d1 s1 \<and> m \<notin> dom (elems (mr_pool d)) \<and> indexed (mr_pool d1) = insert m (indexed (mr_pool d)) \<and>
    (\<exists>x. elems (mr_pool d1) = (elems (mr_pool d))(m \<mapsto> x) \<and> ref_cnt x = 1 \<and> access x = 0)"
proof -
  have a: "m \<notin> dom (elems (mr_pool d))" "pool_ok p s1" "elems p = (elems (mr_pool d))(m \<mapsto> zero_mr\<lparr>ref_cnt := 1\<rparr>)"
    "indexed p = indexed (mr_pool d)" "m \<notin> indexed p"
    using bxroce_alloc_cases [OF _ al] g by (auto simp: mr_good_def)
  obtain p1 where p1: "bxroce_add_index (find_next_zero_bit L) (find_first_zero_bit L) (rb_color L) m p = Some p1" "d1 = d\<lparr>mr_pool := p1\<rparr>"
    using ix by (auto simp: add_mr_index_def)
  obtain i where ok: "pool_ok p1 s1" "pool_abs p i = None" "pool_abs p1 = (pool_abs p)(i \<mapsto> m)"
    using pool_env.add_index_ok [OF L [unfolded lib_ok_def] a(2), of m] a(3,5) p1(1) by auto
  have ix2: "index_ok p" "index_ok p1" using a(2) ok(1) by (simp_all add: pool_ok_def)
  obtain j where e: "elems p1 = (elems p)(m \<mapsto> zero_mr\<lparr>ref_cnt := 1, index := j\<rparr>)"
    using p1(1) a(3) by (auto simp: bxroce_add_index_def insert_index_def alloc_index_def Let_def split: option.splits if_splits)
  have i1: "indexed p1 = insert m (indexed p)"
  proof -
    have "e \<in> indexed p1 \<longleftrightarrow> (\<exists>k. pool_abs p1 k = Some e)" "e \<in> indexed p \<longleftrightarrow> (\<exists>k. pool_abs p k = Some e)" for e
      using pool_abs_Some [OF ix2(1)] pool_abs_Some [OF ix2(2)] by auto
    then show ?thesis using ok(2,3) by (auto split: if_splits) (metis option.distinct(1))
  qed
  have "\<exists>x. elems p1 n = Some x \<and> key_ok x" if "n \<in> indexed p1 - {m}" for n
  proof -
    have "n \<in> indexed (mr_pool d)" using that i1 a(4) by simp
    then show ?thesis using g that e a(3) by (auto simp: mr_good_def)
  qed
  moreover have "mr_range p1" using range_kept(1) [OF al] range_kept(2) [OF p1(1)] g by (simp add: mr_good_def)
  moreover have "elems p1 = (elems (mr_pool d))(m \<mapsto> zero_mr\<lparr>ref_cnt := 1, index := j\<rparr>)" using e a(3) by simp
  moreover have "cleanup_ok (cleanup (pd_pool d))" using g by (simp add: mr_good_def)
  moreover have "ref_cnt (zero_mr\<lparr>ref_cnt := 1, index := j\<rparr>) = 1 \<and> access (zero_mr\<lparr>ref_cnt := 1, index := j\<rparr>) = 0"
    by (simp add: zero_mr_def)
  ultimately show ?thesis using ok(1) i1 a(1,4) p1(2) unfolding mr_good_def by auto
qed

lemma mr_filled:
  assumes "mr_good {m} d s" "elems (mr_pool d) m = Some x" "index y = index x" "0 < ref_cnt y" "key_ok y"
  shows "mr_good {} (put_mr m y d) s \<and> indexed (mr_pool (put_mr m y d)) = indexed (mr_pool d)"
proof -
  have "mr_range (mr_pool (put_mr m y d))" using assms(1) by (simp add: mr_good_def put_mr_def mr_range_def)
  moreover have "\<exists>x. elems (mr_pool (put_mr m y d)) n = Some x \<and> key_ok x" if "n \<in> indexed (mr_pool d)" for n
    using that assms(1,5) by (cases "n = m") (auto simp: mr_good_def)
  moreover have "pool_ok (mr_pool (put_mr m y d)) s \<and> indexed (mr_pool (put_mr m y d)) = indexed (mr_pool d)"
    using put_mr_ok [OF _ assms(2-4), of s] assms(1) by (simp add: mr_good_def)
  ultimately show ?thesis using assms(1) by (auto simp: mr_good_def)
qed

lemma mr_rewritten:
  assumes "mr_good {m} d s" "elems (mr_pool d) m = Some x" "index y = index x" "0 < ref_cnt y"
  shows "mr_good {m} (put_mr m y d) s"
proof -
  have "mr_range (mr_pool (put_mr m y d))" using assms(1) by (simp add: mr_good_def put_mr_def mr_range_def)
  moreover have "pool_ok (mr_pool (put_mr m y d)) s \<and> indexed (mr_pool (put_mr m y d)) = indexed (mr_pool d)"
    using put_mr_ok [OF _ assms(2-4), of s] assms(1) by (simp add: mr_good_def)
  ultimately show ?thesis using assms(1) by (auto simp: mr_good_def)
qed

lemma mr_dropped:
  assumes L: "lib_ok L" and g: "mr_good {m} d s" and dr: "drop_mr_index L m d = Some d1" "drop_mr_ref m d1 s = Some (d2, s2)"
  shows "mr_good {} d2 s2"
proof -
  obtain p1 where p1: "bxroce_drop_index (rb_unlink L) m (mr_pool d) = Some p1" "d1 = d\<lparr>mr_pool := p1\<rparr>"
    using dr(1) by (auto simp: drop_mr_index_def)
  obtain p2 where p2: "bxroce_drop_ref m p1 s = Some (p2, s2)" "d2 = d1\<lparr>mr_pool := p2\<rparr>"
    using dr(2) p1(2) by (auto simp: drop_mr_ref_def)
  have m: "m \<in> indexed (mr_pool d)"
    using p1(1) by (auto simp: bxroce_drop_index_def indexed_def Let_def split: option.splits if_splits)
  have 1: "pool_ok p1 s" "indexed p1 = indexed (mr_pool d) - {m}"
    using pool_env.drop_index_ok [OF L [unfolded lib_ok_def] _ m] g p1(1) by (auto simp: mr_good_def)
  have e1: "elems p1 = elems (mr_pool d)"
    using p1(1) by (auto simp: bxroce_drop_index_def Let_def split: option.splits if_splits)
  obtain x where x: "elems p1 m = Some x" using p2(1) by (auto simp: bxroce_drop_ref_def split: option.splits)
  have 2: "pool_ok p2 s2" "indexed p2 = indexed p1"
    "elems p2 = (elems p1)(m := if ref_cnt x = 1 then None else Some (x\<lparr>ref_cnt := ref_cnt x - 1\<rparr>))"
    using bxroce_drop_ref_ok [OF 1(1) x] 1(2) p2(1) by auto
  have "\<exists>x. elems p2 n = Some x \<and> key_ok x" if "n \<in> indexed p2" for n
    using that 1(2) 2(2,3) e1 g by (auto simp: mr_good_def)
  moreover have "mr_range p2" using range_kept(3) [OF p1(1)] range_kept(4) [OF p2(1)] g by (simp add: mr_good_def)
  moreover have "cleanup_ok (cleanup (pd_pool d))" using g by (simp add: mr_good_def)
  ultimately show ?thesis using 2(1) p1(2) p2(2) by (simp add: mr_good_def)
qed

lemma pd_ref_good:
  assumes "drop_pd_ref P d s = Some (d', s')" "mr_good M d s"
  shows "mr_good M d' s' \<and> mr_pool d' = mr_pool d"
proof -
  obtain pd q where q: "bxroce_drop_ref pd (pd_pool d) s = Some (q, s')" "d' = d\<lparr>pd_pool := q\<rparr>"
    using assms(1) by (auto simp: drop_pd_ref_def split: pd_ptr.splits)
  have c: "cleanup_ok (cleanup (pd_pool d))" using assms(2) by (simp add: mr_good_def)
  have "cleanup q = cleanup (pd_pool d) \<and> next_obj s \<le> next_obj s'"
    using q(1) c by (auto simp: bxroce_drop_ref_def bxroce_elem_release_def bxroce_pool_put_def bxroce_pool_release_def
        cleanup_ok_def Let_def split: option.splits if_splits)
  then show ?thesis using mr_good_later [OF mr_good_pd [OF assms(2)]] q(2) by simp
qed

lemma mr_undone:
  assumes "lib_ok L" "mr_good {m} d s" "mr_undo L pd m err d s = Some (r, d', s')"
  shows "mr_good {} d' s' \<and> r = Inl err"
proof -
  obtain d1 s1 d2 where 1: "drop_pd_ref (Pd_obj pd) d s = Some (d1, s1)" "drop_mr_index L m d1 = Some d2"
    "drop_mr_ref m d2 s1 = Some (d', s')" "r = Inl err"
    using assms(3) by (auto simp: mr_undo_def bind_eq_Some_conv)
  show ?thesis using mr_dropped [OF assms(1) _ 1(2,3)] pd_ref_good [OF 1(1) assms(2)] 1(4) by blast
qed

text \<open>The end of each verb that makes a region.\<close>

lemma mr_made:
  assumes L: "lib_ok L" and g: "mr_good {m} d s" and x: "elems (mr_pool d) m = Some x"
    and y: "index y = index x" "0 < ref_cnt y" "err = 0 \<Longrightarrow> key_ok y" and n: "next_obj s \<le> next_obj s1"
    and r: "(let d = put_mr m y d\<lparr>mr_key := key\<rparr> in if err \<noteq> 0 then mr_undo L pd m err d s1 else Some (Inr m, d, s1)) = Some (r, d', s')"
  shows "mr_good {} d' s' \<and>
    (\<forall>m'. r = Inr m' \<longrightarrow> m' = m \<and> elems (mr_pool d') = (elems (mr_pool d))(m \<mapsto> y) \<and> indexed (mr_pool d') = indexed (mr_pool d))"
proof (cases "err = 0")
  case True
  then have "r = Inr m \<and> d' = put_mr m y d\<lparr>mr_key := key\<rparr> \<and> s' = s1" using r by (simp add: Let_def)
  then show ?thesis using mr_filled [OF mr_good_later [OF g n] x y(1,2) y(3) [OF True]] by simp
next
  case False
  then have "mr_undo L pd m err (put_mr m y d\<lparr>mr_key := key\<rparr>) s1 = Some (r, d', s')" using r by (simp add: Let_def)
  from mr_undone [OF L _ this] mr_rewritten [OF mr_good_later [OF g n] x y(1,2)] show ?thesis by simp
qed

lemma new_region:
  assumes L: "lib_ok L" and g: "mr_good {} d s" and al: "bxroce_alloc E zero_mr (mr_pool d) s = (Some m, p, s1)"
    and ix: "add_mr_index L m (d\<lparr>mr_pool := p\<rparr>) = Some d1" and pd: "add_pd_ref pd d1 = Some d2"
    and x: "elems (mr_pool d2) m = Some x" and n: "next_obj s1 \<le> next_obj s2"
  shows "mr_good {m} d2 s2" "ref_cnt x = 1" "access x = 0" "index x < 2 ^ 24" "pool_type (mr_pool d2) = BXROCE_TYPE_MR"
    "indexed (mr_pool d2) = insert m (indexed (mr_pool d))" "m \<notin> dom (elems (mr_pool d))"
    "elems (mr_pool d2) = (elems (mr_pool d))(m \<mapsto> x)"
proof -
  note i = mr_indexed [OF L g al ix]
  obtain q where q: "d2 = d1\<lparr>pd_pool := q\<rparr>" "cleanup q = cleanup (pd_pool d1)"
    using pd by (auto simp: add_pd_ref_def bxroce_add_ref_def split: option.splits)
  show g2: "mr_good {m} d2 s2" using mr_good_later [OF mr_good_pd n] i q by blast
  show "ref_cnt x = 1" "access x = 0" "elems (mr_pool d2) = (elems (mr_pool d))(m \<mapsto> x)" "m \<notin> dom (elems (mr_pool d))"
    "indexed (mr_pool d2) = insert m (indexed (mr_pool d))"
    using i q x by auto
  then show "index x < 2 ^ 24" using index_small [OF _ _ _ x, of s2] g2 by (simp add: mr_good_def)
  show "pool_type (mr_pool d2) = BXROCE_TYPE_MR" using g2 by (simp add: mr_good_def mr_range_def)
qed

lemma failed_region:
  assumes "mr_good {} d s" "bxroce_alloc E zero_mr (mr_pool d) s = (r, p, s1)"
  shows "mr_good {} (d\<lparr>mr_pool := p\<rparr>) s1"
proof -
  note c = bxroce_alloc_cases [OF _ assms(2)]
  have "pool_ok p s1 \<and> (\<forall>m \<in> indexed p. \<exists>x. elems p m = Some x \<and> key_ok x)"
    using c assms(1) by (cases r) (auto simp: mr_good_def)
  then show ?thesis using range_kept(1) [OF assms(2)] assms(1) by (simp add: mr_good_def)
qed

lemma reg_good:
  assumes L: "lib_ok L" and g: "mr_good {} d s" and r: "bxroce_reg_user_mr E L u pd start len io acc udata d s = Some (r, d', s')"
  shows "mr_good {} d' s' \<and> (\<forall>m. r = Inr m \<longrightarrow> m \<notin> dom (elems (mr_pool d)) \<and> indexed (mr_pool d') = insert m (indexed (mr_pool d)) \<and>
     (\<exists>x. elems (mr_pool d') = (elems (mr_pool d))(m \<mapsto> x) \<and> access x = acc))"
proof -
  obtain ob p s1 where al: "bxroce_alloc E zero_mr (mr_pool d) s = (ob, p, s1)" by (metis prod_cases3)
  obtain ok s2 where c: "(if udata then copy_user E s1 else (True, s1)) = (ok, s2)" by force
  then have n: "next_obj s2 = next_obj s1" by (auto simp: copy_user_def Let_def split: if_splits)
  note f = failed_region [OF g al]
  show ?thesis
  proof (cases "ob = None \<or> \<not> ok")
    case True
    then have "d' = d\<lparr>mr_pool := p\<rparr> \<and> (s' = s1 \<or> s' = s2) \<and> (\<exists>e. r = Inl e)"
      using r al c by (auto simp: bxroce_reg_user_mr_def Let_def split: option.splits)
    then show ?thesis using f mr_good_later [OF f, of s2] n by auto
  next
    case False
    then obtain m where m: "ob = Some m" ok by auto
    obtain d1 d2 x err y key v s3 where o: "add_mr_index L m (d\<lparr>mr_pool := p\<rparr>) = Some d1" "add_pd_ref pd d1 = Some d2"
      "elems (mr_pool d2) m = Some x"
      "bxroce_mem_init_user E u pd (pool_type (mr_pool d2)) start len io acc udata (mr_key d2) x s2 = Some (err, y, key, v, s3)"
      "(let d = put_mr m y d2\<lparr>mr_key := key\<rparr> in if err \<noteq> 0 then mr_undo L pd m err d s3 else Some (Inr m, d, s3)) = Some (r, d', s')"
      using r al c m by (auto simp: bxroce_reg_user_mr_def Let_def bind_eq_Some_conv)
    note w = new_region [OF L g al [unfolded m(1)] o(1-3), of s2]
    have k: "index y = index x" "ref_cnt y = ref_cnt x" "next_obj s2 \<le> next_obj s3" "err = 0 \<Longrightarrow> key_ok y \<and> access y = acc"
      using mem_init_user_keys [OF o(4) [unfolded w(5) [OF eq_imp_le [OF n [symmetric]]]]] w(4) n by auto
    note e = mr_made [OF L w(1) o(3) k(1) _ _ k(3) o(5)]
    have err: "err = 0" if "r = Inr m'" for m'
      using o(5) that by (auto simp: Let_def mr_undo_def bind_eq_Some_conv split: if_splits)
    have new: "elems (mr_pool d') = (elems (mr_pool d))(m \<mapsto> y) \<and> indexed (mr_pool d') = insert m (indexed (mr_pool d)) \<and> m' = m"
      if "r = Inr m'" for m'
      using e that w(2,6,8) n k(2,4) by simp
    show ?thesis using e new w(2,7) n k(2,4) err by auto
  qed
qed

lemma dma_good:
  assumes L: "lib_ok L" and g: "mr_good {} d s" and r: "bxroce_get_dma_mr E L pd acc d s = Some (r, d', s')"
  shows "mr_good {} d' s'"
proof -
  obtain ob p s1 where al: "bxroce_alloc E zero_mr (mr_pool d) s = (ob, p, s1)" by (metis prod_cases3)
  show ?thesis
  proof (cases ob)
    case None
    then show ?thesis using r al failed_region [OF g al] by (simp add: bxroce_get_dma_mr_def)
  next
    case (Some m)
    obtain d1 d2 x where a: "add_mr_index L m (d\<lparr>mr_pool := p\<rparr>) = Some d1" "add_pd_ref pd d1 = Some d2" "elems (mr_pool d2) m = Some x"
      using r al Some by (auto simp: bxroce_get_dma_mr_def bind_eq_Some_conv)
    obtain err y key where i: "bxroce_mem_init_dma pd (pool_type (mr_pool d2)) acc (mr_key d2) x = (err, y, key)" by (metis prod_cases3)
    have "(let d = put_mr m y d2\<lparr>mr_key := key\<rparr> in if err \<noteq> 0 then mr_undo L pd m err d s1 else Some (Inr m, d, s1)) = Some (r, d', s')"
      using r al Some a i by (simp add: bxroce_get_dma_mr_def)
    note o = a i this
    note w = new_region [OF L g al [unfolded Some] o(1-3), of s1, simplified]
    note k = mem_init_dma_keys [OF o(4) [unfolded w(5)]]
    show ?thesis using mr_made [OF L w(1) o(3) _ _ _ order_refl o(5)] k w(2,4) by simp
  qed
qed

lemma fast_good:
  assumes L: "lib_ok L" and g: "mr_good {} d s" and r: "bxroce_alloc_mr E L pd mem n d s = Some (r, d', s')"
  shows "mr_good {} d' s'"
proof -
  obtain ob p s1 where al: "bxroce_alloc E zero_mr (mr_pool d) s = (ob, p, s1)" by (metis prod_cases3)
  show ?thesis
  proof (cases "mem \<and> ob \<noteq> None")
    case False
    then show ?thesis using r al g failed_region [OF g al] by (auto simp: bxroce_alloc_mr_def split: if_splits)
  next
    case True
    then obtain m where m: "mem" "ob = Some m" by auto
    obtain d1 d2 x where a: "add_mr_index L m (d\<lparr>mr_pool := p\<rparr>) = Some d1" "add_pd_ref pd d1 = Some d2" "elems (mr_pool d2) m = Some x"
      using r al m by (auto simp: bxroce_alloc_mr_def bind_eq_Some_conv)
    obtain err y key s2 where i: "bxroce_mem_init_fast E Pd_dev (pool_type (mr_pool d2)) n (mr_key d2) x s1 = (err, y, key, s2)"
      by (metis prod_cases4)
    have "(let d = put_mr m y d2\<lparr>mr_key := key\<rparr> in if err \<noteq> 0 then mr_undo L pd m err d s2 else Some (Inr m, d, s2)) = Some (r, d', s')"
      using r al m a i by (simp add: bxroce_alloc_mr_def)
    note o = a i this
    note w = new_region [OF L g al [unfolded m(2)] o(1-3), of s1, simplified]
    note k = mem_init_fast_keys [OF o(4) [unfolded w(5)]]
    show ?thesis using mr_made [OF L w(1) o(3) _ _ _ _ o(5)] k w(2-4) by simp
  qed
qed

lemma dereg_good:
  assumes L: "lib_ok L" and g: "mr_good {} d s" and r: "bxroce_dereg_mr L m d s = Some (ret, d', s')"
  shows "mr_good {} d' s'"
proof -
  obtain x d1 s1 d2 where o: "elems (mr_pool d) m = Some x" 
    "drop_pd_ref (mr_pd x) (put_mr m (x\<lparr>mr_state := BXROCE_MEM_STATE_ZOMBIE\<rparr>) d) s = Some (d1, s1)"
    "drop_mr_index L m d1 = Some d2" "drop_mr_ref m d2 s1 = Some (d', s')"
    using r by (auto simp: bxroce_dereg_mr_def bind_eq_Some_conv Let_def)
  have "0 < ref_cnt x" using g o(1) by (auto simp: mr_good_def pool_ok_def counts_ok_def)
  moreover have "mr_good {m} d s" using g by (simp add: mr_good_def)
  ultimately have "mr_good {m} (put_mr m (x\<lparr>mr_state := BXROCE_MEM_STATE_ZOMBIE\<rparr>) d) s"
    using o(1) by (intro mr_rewritten) simp_all
  from mr_dropped [OF L _ o(3,4)] pd_ref_good [OF o(2) this] show ?thesis by blast
qed

lemma mr_run_good: "mr_run L (d0, s0) (d, s) \<Longrightarrow> lib_ok L \<Longrightarrow> mr_good {} d0 s0 \<Longrightarrow> mr_good {} d s"
proof (induction "(d, s)" arbitrary: d s rule: mr_run.induct)
  case (reg d s E u pd start len io acc udata r d' s')
  then show ?case using reg_good by blast
qed (blast intro: dma_good fast_good dereg_good)+

lemma mr_pool_good:
  assumes "bxroce_pool_init E (bxroce_type_info sz cl) BXROCE_TYPE_MR limit s = (0, p, s0)" "limit < - 1" "cleanup_ok (cl BXROCE_TYPE_MR)"
    "cleanup_ok (cleanup q)"
  shows "mr_good {} \<lparr>mr_pool = p, pd_pool = q, mr_key = k\<rparr> s0"
proof -
  have f: "ti_flags (bxroce_type_info sz cl BXROCE_TYPE_MR) AND BXROCE_POOL_INDEX \<noteq> 0"
    "ti_cleanup (bxroce_type_info sz cl BXROCE_TYPE_MR) = cl BXROCE_TYPE_MR"
    by (simp_all add: bxroce_type_info_def pool_consts)
  have i: "pool_ok p s0 \<and> pool_abs p = Map.empty \<and> dom (elems p) = {}"
    using bxroce_pool_init_ok [OF assms(1) f(1) assms(2)] assms(3) f(2) by simp
  have "mr_range p"
    using assms(1) by (auto simp: mr_range_def bxroce_pool_init_def bxroce_pool_init_index_def fresh_pool_def bxroce_type_info_def
        Let_def pool_consts split: option.splits if_splits prod.splits)
  moreover have "indexed p = {}" using i by (auto simp: pool_ok_def index_ok_def)
  ultimately show ?thesis using i assms(4) by (simp add: mr_good_def)
qed

text \<open>
  C3. Keys of registered regions are unique: after any history of registrations, regions for DMA, fast
  regions and deregistrations on a device, failures included, a registration by \<open>bxroce_reg_user_mr\<close>
  that succeeds gives a region whose local key no other region of the pool has, and all regions of the
  pool have different local keys. The upper 24 bits of the key are the index under which the pool
  finds the region; the key shown to the user is the same, and the remote key is the local key when a
  remote access right was asked for and zero otherwise. The regions that were there keep their keys.
\<close>

theorem mr_lkey_unique:
  assumes "lib_ok L" "bxroce_pool_init E0 (bxroce_type_info sz cl) BXROCE_TYPE_MR limit sb = (0, p, s0)" "limit < - 1"
    "cleanup_ok (cl BXROCE_TYPE_MR)" "cleanup_ok (cleanup q)" "mr_run L (\<lparr>mr_pool = p, pd_pool = q, mr_key = k\<rparr>, s0) (d, s)"
    "bxroce_reg_user_mr E L u pd start len io acc udata d s = Some (Inr m, d', s')"
  shows "inj_on (\<lambda>n. lkey (the (elems (mr_pool d') n))) (indexed (mr_pool d')) \<and>
    m \<notin> indexed (mr_pool d) \<and> indexed (mr_pool d') = insert m (indexed (mr_pool d)) \<and>
    (\<forall>n \<in> indexed (mr_pool d). elems (mr_pool d') n = elems (mr_pool d) n) \<and>
    (\<exists>x. elems (mr_pool d') m = Some x \<and> pool_abs (mr_pool d') (drop_bit 8 (lkey x)) = Some m \<and> ibmr_lkey x = lkey x \<and>
       rkey x = (if acc AND IB_ACCESS_REMOTE \<noteq> 0 then lkey x else 0))"
proof -
  have g: "mr_good {} d s" by (rule mr_run_good [OF assms(6,1) mr_pool_good [OF assms(2-5)]])
  note r = reg_good [OF assms(1) g assms(7)]
  have g': "mr_good {} d' s'" using r by blast
  obtain x where x: "elems (mr_pool d') = (elems (mr_pool d))(m \<mapsto> x)" "access x = acc" "m \<notin> dom (elems (mr_pool d))"
    "indexed (mr_pool d') = insert m (indexed (mr_pool d))"
    using r by auto
  have ix: "index_ok (mr_pool d)" "index_ok (mr_pool d')" using g g' by (simp_all add: mr_good_def pool_ok_def)
  then have sub: "indexed (mr_pool d) \<subseteq> dom (elems (mr_pool d))" by (simp add: index_ok_def)
  have found: "pool_abs (mr_pool d') (drop_bit 8 (lkey (the (elems (mr_pool d') n)))) = Some n" if "n \<in> indexed (mr_pool d')" for n
    using g' that pool_abs_Some [OF ix(2)] by (auto simp: mr_good_def key_ok_def index_of_def)
  have "inj_on (\<lambda>n. lkey (the (elems (mr_pool d') n))) (indexed (mr_pool d'))"
    using found by (intro inj_onI) (metis option.inject)
  moreover have "key_ok x" using g' x by (auto simp: mr_good_def)
  moreover have "pool_abs (mr_pool d') (drop_bit 8 (lkey x)) = Some m" using found [of m] x(1,4) by simp
  moreover have "m \<notin> indexed (mr_pool d)" using sub x(3) by blast
  ultimately show ?thesis using x by (auto simp: key_ok_def)
qed


text \<open>With memory, a domain and a free index, a registration of small pages succeeds.\<close>

lemma alloc_maps_succeeds: "\<forall>h. alloc_ok E h \<Longrightarrow> \<exists>ms' s'. alloc_maps E n ms s = (True, ms', s')"
  by (induction E n ms s rule: alloc_maps.induct) (simp_all add: kalloc_def)

lemma mem_alloc_succeeds:
  assumes "\<forall>h. alloc_ok E h"
  shows "\<exists>m' s'. bxroce_mem_alloc E n m s = (0, m', s')"
proof -
  obtain a s1 where "kalloc E s = (Some a, s1)" using assms by (simp add: kalloc_def)
  moreover obtain ms s2 where "alloc_maps E ((n + BXROCE_BUF_PER_MAP - 1) div BXROCE_BUF_PER_MAP) [] s1 = (True, ms, s2)"
    using alloc_maps_succeeds [OF assms] by blast
  ultimately show ?thesis by (simp add: bxroce_mem_alloc_def Let_def)
qed

lemma reg_user_succeeds:
  assumes L: "lib_ok L" and ok: "pool_ok (mr_pool d) s" "state (mr_pool d) = BXROCE_POOL_STATE_VALID" "num_elem (mr_pool d) < max_elem (mr_pool d)"
    and px: "elems (pd_pool d) pd = Some px" "0 < ref_cnt px" and E: "\<forall>h. alloc_ok E h" "\<forall>h. copy_ok E h"
    and u: "\<not> hugetlb u" "len \<noteq> 0" "sgs u \<noteq> []"
  shows "\<exists>m d' s'. bxroce_reg_user_mr E L u pd start len io acc True d s = Some (Inr m, d', s')"
proof -
  obtain ob p s1 where al0: "bxroce_alloc E zero_mr (mr_pool d) s = (ob, p, s1)" by (metis prod_cases3)
  then obtain m where ob: "ob = Some m" using bxroce_alloc_cases [OF ok(1) al0] ok(2,3) E(1) by (cases ob) auto
  note al = al0 [unfolded ob]
  obtain d1 d2 x where o: "add_mr_index L m (d\<lparr>mr_pool := p\<rparr>) = Some d1" "add_pd_ref pd d1 = Some d2" "elems (mr_pool d2) m = Some x"
    using registered_intro [OF L ok(1) al px] by blast
  obtain s2 where c: "copy_user E s1 = (True, s2)" using E(2) by (simp add: copy_user_def Let_def)
  obtain um s3 where um: "kalloc E s2 = (Some um, s3)" using E(1) by (simp add: kalloc_def)
  obtain m1 k1 where i: "bxroce_mem_init acc (pool_type (mr_pool d2)) (mr_key d2) (x\<lparr>umem := Some um\<rparr>) = (m1, k1)" by force
  obtain m2 s4 where a: "bxroce_mem_alloc E (length (sgs u)) m1 s3 = (0, m2, s4)" using mem_alloc_succeeds [OF E(1)] by blast
  obtain st where st: "sg_run u len m2 = Some st" using sg_run_small [OF u(1,2) mem_alloc_maps [OF a]] u(3) by auto
  obtain s5 where c2: "copy_user E s4 = (True, s5)" using E(2) by (simp add: copy_user_def Let_def)
  show ?thesis by (simp add: bxroce_reg_user_mr_def al c o bxroce_mem_init_user_def um i a st c2 Let_def)
qed

text \<open>A region for DMA, then two pages of user memory.\<close>

definition two_pages :: umem_info where
  "two_pages = \<lparr>sgs = [(0x5000, 0x1000), (0x9000, 0x1000)], umem_shift = 12, hugetlb = False, umem_offset = 0\<rparr>"

theorem mr_lkey_unique_witness:
  "\<exists>d s m d' s'. bxroce_get_dma_mr file_env plain_lib 0 7 dev_start (snd mr_start) = Some (Inr 1, d, s) \<and>
     bxroce_reg_user_mr file_env plain_lib two_pages 0 0x4000 0x2000 0 7 True d s = Some (Inr m, d', s') \<and>
     m \<noteq> 1 \<and> lkey (the (elems (mr_pool d') 1)) \<noteq> lkey (the (elems (mr_pool d') m))"
proof -
  obtain d s where d: "bxroce_get_dma_mr file_env plain_lib 0 7 dev_start (snd mr_start) = Some (Inr 1, d, s)"
    and one: "1 \<in> indexed (mr_pool d)" "state (mr_pool d) = BXROCE_POOL_STATE_VALID" "num_elem (mr_pool d) < max_elem (mr_pool d)"
      "\<exists>px. elems (pd_pool d) 0 = Some px \<and> 0 < ref_cnt px"
    by (simp add: bxroce_get_dma_mr_def bxroce_mem_init_dma_def bxroce_alloc_def add_mr_index_def bxroce_add_index_def
        alloc_index_def insert_index_def add_pd_ref_def bxroce_add_ref_def dev_start_defs mr_first_defs indexed_def zero_pd_def)
  have init: "bxroce_pool_init file_env (bxroce_type_info (\<lambda>_. 512) (\<lambda>_. Some bxroce_mem_cleanup)) BXROCE_TYPE_MR 0x40000 empty_kern =
      (0, fst mr_start, snd mr_start)"
    by (simp add: dev_start_defs)
  have c: "cleanup_ok (Some bxroce_mem_cleanup)" "cleanup_ok (cleanup pd_start)"
    by (simp_all add: cleanup_ok_def pd_start_def fresh_pool_def pd_types_def bxroce_type_info_def)
  have run: "mr_run plain_lib (\<lparr>mr_pool = fst mr_start, pd_pool = pd_start, mr_key = 1\<rparr>, snd mr_start) (d, s)"
    using mr_run.dma [OF mr_run.start d [unfolded dev_start_def]] by simp
  have g: "mr_good {} d s"
    by (rule mr_run_good [OF run plain_lib_ok mr_pool_good [OF init]]) (use c in simp_all)
  have E: "\<forall>h. alloc_ok file_env h" "\<forall>h. copy_ok file_env h" by (simp_all add: file_env_def)
  have u: "\<not> hugetlb two_pages" "sgs two_pages \<noteq> []" by (simp_all add: two_pages_def)
  obtain px where px: "elems (pd_pool d) 0 = Some px" "0 < ref_cnt px" using one(4) by blast
  obtain m d' s' where r: "bxroce_reg_user_mr file_env plain_lib two_pages 0 0x4000 0x2000 0 7 True d s = Some (Inr m, d', s')"
    using reg_user_succeeds [OF plain_lib_ok _ one(2,3) px E u(1) _ u(2), of s "0x2000" "0x4000" 0 7] g
    by (auto simp: mr_good_def)
  note v = mr_lkey_unique [OF plain_lib_ok init _ _ c(2) run r]
  then have "m \<noteq> 1" "inj_on (\<lambda>n. lkey (the (elems (mr_pool d') n))) (indexed (mr_pool d'))" "1 \<in> indexed (mr_pool d')" "m \<in> indexed (mr_pool d')"
    using c one(1) by auto
  then show ?thesis using d r by (metis (no_types, lifting) inj_on_def)
qed

section \<open>Huge pages\<close>

lemma unat_u64_of_nat [simp]: "n < 2 ^ 64 \<Longrightarrow> unat (word_of_nat n :: u64) = n"
  by (simp add: unsigned_of_nat take_bit_nat_eq_self)

lemma unat_add_u64: "unat a + unat b < 2 ^ 64 \<Longrightarrow> unat (a + b :: u64) = unat a + unat b"
  by (simp add: unat_word_ariths(1))

definition pages_begun :: "nat \<Rightarrow> nat" where
  "pages_begun j = (if j mod 512 = 0 then j div 512 else j div 512 + 1)"

lemma pages_begun_Suc:
  "pages_begun (Suc j) = (if j mod 512 = 0 then pages_begun j + 1 else pages_begun j)"
  by (auto simp: pages_begun_def div_Suc mod_Suc)

text \<open>
  The loop on huge pages whose scatter entries are 4096 bytes, after \<open>j\<close> of the entries of
  \<open>k\<close> pages.
\<close>

definition huge_at :: "nat \<Rightarrow> nat \<Rightarrow> sg_loop \<Rightarrow> bool" where
  "huge_at k j st \<longleftrightarrow> unat (memsize st) = 4096 * j \<and>
     unat (leftsize st) = 4096 * (512 * k - j) \<and>
     cur_map st = j div 256 \<and> cur_buf st = j mod 256 \<and>
     length (sg_phy_addr st) = pages_begun j"

lemma huge_store:
  assumes h: "huge_at k j st" and j: "j < 512 * k" and k: "k \<le> 128"
  shows "\<exists>st'. sg_store True a n st = (False, st') \<and> memsize st' = memsize st \<and>
    leftsize st' = leftsize st \<and> cur_map st' = cur_map st \<and> cur_buf st' = cur_buf st \<and>
    length (sg_phy_addr st') = pages_begun (Suc j)"
proof -
  let ?m = "memsize st mod BXROCE_HUGEPAGE_SIZE"
  have "4096 * j mod 0x200000 = 4096 * (j mod 512)"
    using mult_mod_right [of 4096 j 512] by simp
  then have m: "unat ?m = 4096 * (j mod 512)"
    using h by (simp add: huge_at_def unat_mod_distrib BXROCE_HUGEPAGE_SIZE_def)
  have l: "leftsize st \<ge> BXROCE_HUGEPAGE_SIZE \<longleftrightarrow> 512 \<le> 512 * k - j"
    using h by (simp add: huge_at_def word_le_nat_alt BXROCE_HUGEPAGE_SIZE_def)
  have z: "?m = 0 \<longleftrightarrow> j mod 512 = 0"
    using m by (metis mult_eq_0_iff unat_eq_zero zero_neq_numeral)
  have "512 \<le> j mod 512 + (512 * k - j)"
  proof -
    have "j = 512 * (j div 512) + j mod 512" by simp
    moreover have "j div 512 < k" using j by (simp add: less_mult_imp_div_less mult.commute)
    ultimately show ?thesis using j by linarith
  qed
  then have big: "0x200000 \<le> 4096 * (j mod 512) + 4096 * (512 * k - j)" by linarith
  have bs: "4096 * (j mod 512) + 4096 * (512 * k - j) < 2 ^ 64"
    using k mod_less_divisor [of 512 j] by simp
  have "unat (?m + leftsize st) = 4096 * (j mod 512) + 4096 * (512 * k - j)"
    using m h bs by (subst unat_add_u64) (simp_all add: huge_at_def)
  then have "unat ((?m + leftsize st) div BXROCE_HUGEPAGE_SIZE) \<noteq> 0"
    using big by (simp add: unat_div_distrib BXROCE_HUGEPAGE_SIZE_def div_eq_0_iff)
  then have stop: "(?m + leftsize st) div BXROCE_HUGEPAGE_SIZE \<noteq> 0" by auto
  have len: "length (sg_phy_addr st) = pages_begun j" using h by (simp add: huge_at_def)
  show ?thesis
  proof (cases "j mod 512 = 0")
    case True
    have "j div 512 < k" using j by (simp add: less_mult_imp_div_less mult.commute)
    then have "\<not> sg_full st" using True k len
      by (simp add: sg_full_def MAX_SG_NUM_def pages_begun_def)
    moreover have "512 \<le> 512 * k - j" using \<open>512 \<le> j mod 512 + (512 * k - j)\<close> True by simp
    ultimately show ?thesis
      using stop l z True len by (simp add: sg_store_def Let_def pages_begun_Suc)
  next
    case False
    then have "sg_store True a n st = (False, st)" using stop z by (simp add: sg_store_def Let_def)
    then show ?thesis using len False by (simp add: pages_begun_Suc)
  qed
qed

lemma huge_overread:
  assumes "huge_at k j st" and "j < 512 * k" and "k \<le> 128" and "hugetlb u"
    and "length xs = 512 * k - j" and "\<forall>x \<in> set xs. snd x = 4096"
  shows "sg_iter u (2 * k) xs st = None"
  using assms
proof (induction xs arbitrary: j st)
  case (Cons x xs)
  obtain a where x: "x = (a, 4096)" using Cons.prems(6) by (cases x) auto
  define st1 where "st1 = st\<lparr>bufs := (bufs st)(cur_map st := (bufs st (cur_map st))
      (cur_buf st := Some (a, push_bit (umem_shift u) 1)))\<rparr>"
  have h1: "huge_at k j st1" using Cons.prems(1) by (simp add: huge_at_def st1_def)
  obtain st2 where st2: "sg_store True a 4096 st1 = (False, st2)" "memsize st2 = memsize st1"
      "leftsize st2 = leftsize st1" "cur_map st2 = cur_map st1" "cur_buf st2 = cur_buf st1"
      "length (sg_phy_addr st2) = pages_begun (Suc j)"
    using huge_store [OF h1 Cons.prems(2,3)] by blast
  define st3 where "st3 = st2\<lparr>memsize := memsize st2 + 4096, leftsize := leftsize st2 - 4096,
      cur_buf := cur_buf st2 + 1\<rparr>"
  have step: "sg_iter u (2 * k) (x # xs) st =
      (if 256 \<le> j mod 256 + 1
       then if j div 256 + 1 < 2 * k
            then sg_iter u (2 * k) xs (st3\<lparr>cur_map := j div 256 + 1, cur_buf := 0\<rparr>) else None
       else sg_iter u (2 * k) xs st3)"
    unfolding x sg_iter.simps st1_def [symmetric]
    using Cons.prems(4) st2 h1 by (simp add: st3_def BXROCE_BUF_PER_MAP_def huge_at_def)
  have mem: "unat (memsize st3) = 4096 * (j + 1)"
    using st2 h1 Cons.prems(2,3) unat_add_u64 [of "memsize st2" 4096]
    by (simp add: st3_def huge_at_def)
  have "(4096 :: u64) \<le> leftsize st2"
    using st2 h1 Cons.prems(2) by (simp add: huge_at_def word_le_nat_alt)
  then have left: "unat (leftsize st3) = 4096 * (512 * k - (j + 1))"
    using st2 h1 Cons.prems(2) by (simp add: st3_def huge_at_def unat_sub)
  show ?case
  proof (cases "j + 1 < 512 * k")
    case True
    have len: "length xs = 512 * k - (j + 1)" using Cons.prems(5) by simp
    show ?thesis
    proof (cases "256 \<le> j mod 256 + 1")
      case wrap: True
      then have "j div 256 + 1 = (j + 1) div 256" "(j + 1) mod 256 = 0"
        using mod_less_divisor [of 256 j] by (simp_all add: div_Suc mod_Suc)
      then have "huge_at k (j + 1) (st3\<lparr>cur_map := j div 256 + 1, cur_buf := 0\<rparr>)"
        using mem left st2(6) by (simp add: huge_at_def st3_def)
      then show ?thesis
        using step wrap Cons.IH [OF _ True Cons.prems(3,4) len] Cons.prems(6) by simp
    next
      case False
      then have "j div 256 = (j + 1) div 256" "(j + 1) mod 256 = j mod 256 + 1"
        by (simp_all add: div_Suc mod_Suc)
      then have "huge_at k (j + 1) st3"
        using mem left st2(4-6) h1 by (simp add: huge_at_def st3_def)
      then show ?thesis
        using step False Cons.IH [OF _ True Cons.prems(3,4) len] Cons.prems(6) by simp
    qed
  next
    case False
    then have "j + 1 = 512 * k" using Cons.prems(2) by simp
    then have "(j + 1) mod 256 = 0" "(j + 1) div 256 = 2 * k" by simp_all
    then have "256 \<le> j mod 256 + 1" "j div 256 + 1 = 2 * k"
      by (simp_all add: div_Suc mod_Suc split: if_splits)
    then show ?thesis using step by simp
  qed
qed simp


text \<open>
  Registering whole huge pages, in scatter entries of 4096 bytes, reads past the array of
  page maps: after the last entry the loop advances to a map that was not allocated.
\<close>

theorem mr_hugepage_overread:
  assumes "hugetlb u" and "0 < k" and "k \<le> 128" and "length (sgs u) = 512 * k"
    and "\<forall>x \<in> set (sgs u). snd x = 0x1000"
    and "bxroce_mem_alloc E (length (sgs u)) m s = (0, m', s')"
  shows "sg_run u (word_of_nat (0x200000 * k)) m' = None"
proof -
  have "num_map m' = (512 * k + 255) div 256"
    using assms(4,6)
    by (auto simp: bxroce_mem_alloc_def BXROCE_BUF_PER_MAP_def Let_def
        split: option.splits if_splits prod.splits)
  then have maps: "num_map m' = 2 * k" by simp
  have len: "unat (word_of_nat (0x200000 * k) :: u64) = 0x200000 * k" using assms(3) by (simp del: of_nat_mult)
  then have "huge_at k 0 (sg_start (word_of_nat (0x200000 * k)) m')"
    by (simp add: huge_at_def sg_start_def pages_begun_def)
  moreover have "(word_of_nat (0x200000 * k) :: u64) \<noteq> 0"
    using len assms(2) by (metis less_irrefl nat_0_less_mult_iff unat_0 zero_less_numeral)
  ultimately show ?thesis
    using huge_overread [of k 0 _ u "sgs u"] assms maps by (simp add: sg_run_def)
qed

definition huge_umem :: umem_info where
  "huge_umem = \<lparr>sgs = map (\<lambda>i. (word_of_nat i * 0x1000, 0x1000)) [0..<512], umem_shift = 12,
     hugetlb = True, umem_offset = 0\<rparr>"

theorem mr_hugepage_overread_witness:
  "\<exists>m' s'. bxroce_mem_alloc file_env 512 zero_mr empty_kern = (0, m', s') \<and>
     sg_run huge_umem 0x200000 m' = None"
proof -
  have h: "hugetlb huge_umem" "length (sgs huge_umem) = 512 * 1"
    "\<forall>x \<in> set (sgs huge_umem). snd x = 0x1000"
    by (simp_all add: huge_umem_def)
  have "\<exists>m' s'. bxroce_mem_alloc file_env 512 zero_mr empty_kern = (0, m', s')"
    by (simp add: bxroce_mem_alloc_def BXROCE_BUF_PER_MAP_def kalloc_def file_env_def numeral_2_eq_2)
  then obtain m' s' where r: "bxroce_mem_alloc file_env 512 zero_mr empty_kern = (0, m', s')"
    by blast
  from mr_hugepage_overread [OF h(1) _ _ h(2,3), of file_env zero_mr empty_kern m' s'] h(2) r
  show ?thesis by simp
qed

end
