(* ===== verification/Ah.thy ===== *)
theory Ah
  imports Idalloc Mpb "HOL-Library.Monad_Syntax"
begin

text \<open>
  Address handles (bxroce_ah.c): the table of address vectors in device memory, the packing of
  an address vector, and the verbs. The header part of \<open>struct bxroce_av\<close> is its 64 bytes,
  because the source addresses it by byte offset; integers are stored on a little-endian
  host. The address helpers of the kernel (\<open>rdma_is_multicast_addr\<close>, \<open>rdma_gid2ip\<close> and
  others) and what the netdev says of its VLAN are arguments. None is undefined behaviour of C.
\<close>

section \<open>Bytes\<close>

definition put_bytes :: "nat \<Rightarrow> u8 list \<Rightarrow> u8 list \<Rightarrow> u8 list" where
  "put_bytes off bs mem = take off mem @ bs @ drop (off + length bs) mem"

definition get_bytes :: "nat \<Rightarrow> nat \<Rightarrow> u8 list \<Rightarrow> u8 list" where
  "get_bytes off n mem = take n (drop off mem)"

text \<open>\<open>cpu_to_be16\<close> and \<open>cpu_to_be32\<close>, as the bytes they leave in memory, and back.\<close>

definition be16 :: "u16 \<Rightarrow> u8 list" where
  "be16 w = [ucast (drop_bit 8 w), ucast w]"

definition be32 :: "u32 \<Rightarrow> u8 list" where
  "be32 w = [ucast (drop_bit 24 w), ucast (drop_bit 16 w), ucast (drop_bit 8 w), ucast w]"

fun from_be16 :: "u8 list \<Rightarrow> u16" where
  "from_be16 [a, b] = push_bit 8 (ucast a) OR ucast b"
| "from_be16 _ = 0"

fun from_be32 :: "u8 list \<Rightarrow> u32" where
  "from_be32 [a, b, c, d] =
     push_bit 24 (ucast a) OR push_bit 16 (ucast b) OR push_bit 8 (ucast c) OR ucast d"
| "from_be32 _ = 0"

lemma get_put_bytes:
  "off + length bs \<le> length mem \<Longrightarrow> get_bytes off (length bs) (put_bytes off bs mem) = bs"
  by (simp add: get_bytes_def put_bytes_def)

lemma get_bytes_put_bytes:
  "off + length bs \<le> length mem \<Longrightarrow> k + n \<le> length bs \<Longrightarrow>
   get_bytes (off + k) n (put_bytes off bs mem) = get_bytes k n bs"
  by (simp add: get_bytes_def put_bytes_def)

lemma length_put_bytes [simp]:
  "off + length bs \<le> length mem \<Longrightarrow> length (put_bytes off bs mem) = length mem"
  by (simp add: put_bytes_def)

lemma from_be16_be16 [simp]: "from_be16 (be16 w) = w"
proof (rule word_eqI_bits)
  fix n assume "n < LENGTH(16)"
  then show "bit (from_be16 (be16 w)) n = bit w n"
    by (auto simp: be16_def bit_simps)
qed

lemma from_be32_be32 [simp]: "from_be32 (be32 w) = w"
proof (rule word_eqI_bits)
  fix n assume "n < LENGTH(32)"
  then have "n < 8 \<or> 8 \<le> n \<and> n < 16 \<or> 16 \<le> n \<and> n < 24 \<or> 24 \<le> n \<and> n < 32" by auto
  then show "bit (from_be32 (be32 w)) n = bit w n"
    by (auto simp: be32_def bit_simps)
qed

section \<open>Types\<close>

datatype network_type = RDMA_NETWORK_IB | RDMA_NETWORK_IPV4 | RDMA_NETWORK_IPV6

definition BXROCE_AV_VALID :: u32 where "BXROCE_AV_VALID = 0x80"
definition BXROCE_AV_VLAN_VALID :: u32 where "BXROCE_AV_VLAN_VALID = 0x2"
definition ETH_P_IBOE :: u16 where "ETH_P_IBOE = 0x8915"

text \<open>\<open>sizeof(struct bxroce_eth_vlan)\<close> and \<open>sizeof(struct bxroce_eth_basic)\<close>\<close>

definition eth_vlan_size :: nat where "eth_vlan_size = 18"
definition eth_basic_size :: nat where "eth_basic_size = 14"

record av =
  av_mem :: "u8 list"
  valid :: u32

text \<open>\<open>ah_av\<close> is the slot of the table that \<open>ah->av\<close> points to.\<close>

record ah =
  ah_av :: nat
  sgid_index :: u16
  ah_id :: nat
  hdr_type :: network_type

record global_route =
  dgid :: "u8 list"
  grh_sgid_index :: u16
  traffic_class :: u8
  flow_label :: u32
  hop_limit :: u8

record ah_attr =
  attr_roce :: bool      \<comment> \<open>\<open>type == RDMA_AH_ATTR_TYPE_ROCE\<close>\<close>
  attr_has_grh :: bool   \<comment> \<open>\<open>ah_flags & IB_AH_GRH\<close>\<close>
  grh :: global_route
  attr_dmac :: "u8 list"

record net_lib =
  is_multicast :: "u8 list \<Rightarrow> bool"
  mcast_mac :: "u8 list \<Rightarrow> u8 list"
  is_link_local :: "u8 list \<Rightarrow> bool"
  ll_mac :: "u8 list \<Rightarrow> u8 list"
  gid2ip :: "u8 list \<Rightarrow> u8 list"

section \<open>Address vectors\<close>

definition bxroce_hdr_type_to_proto_num :: "network_type \<Rightarrow> u16" where
  "bxroce_hdr_type_to_proto_num t = (case t of
     RDMA_NETWORK_IB \<Rightarrow> ETH_P_IBOE | RDMA_NETWORK_IPV4 \<Rightarrow> 0x0800 | RDMA_NETWORK_IPV6 \<Rightarrow> 0x86dd)"

definition bxroce_resolve_dmac :: "net_lib \<Rightarrow> ah_attr \<Rightarrow> u8 list" where
  "bxroce_resolve_dmac N attr =
     (let in6 = dgid (grh attr)
      in if is_multicast N in6 then mcast_mac N in6
         else if is_link_local N in6 then ll_mac N in6
         else attr_dmac attr)"

text \<open>The Ethernet header with a VLAN tag, the IPv4 header and the GRH, as bytes.\<close>

definition eth_vlan_bytes :: "u8 list \<Rightarrow> u8 list \<Rightarrow> u16 \<Rightarrow> u16 \<Rightarrow> u8 list" where
  "eth_vlan_bytes dmac smac vlan_tag proto =
     take 6 dmac @ take 6 smac @ be16 0x8100 @ be16 vlan_tag @ be16 proto"

definition ipv4_bytes :: "global_route \<Rightarrow> u32 \<Rightarrow> u8 \<Rightarrow> u8 list \<Rightarrow> u8 list \<Rightarrow> u8 list \<Rightarrow> u8 list"
  where "ipv4_bytes g pdid nxthdr check saddr daddr =
     be16 (0x4000 OR 0x500 OR ucast (traffic_class g)) @ be16 0 @ be16 (ucast pdid) @
     be16 0x4000 @ [hop_limit g, nxthdr] @ take 2 check @ take 4 saddr @ take 4 daddr"

definition grh_bytes :: "global_route \<Rightarrow> u32 \<Rightarrow> u8 \<Rightarrow> u8 list \<Rightarrow> u8 list" where
  "grh_bytes g pdid nxthdr sgid =
     be32 (0x60000000 OR push_bit 24 (ucast (traffic_class g)) OR flow_label g) @
     be32 (push_bit 16 pdid OR push_bit 8 (ucast nxthdr) OR ucast (hop_limit g)) @
     take 16 sgid @ take 16 (dgid g) @ [0, 0, 0, 0]"

text \<open>
  \<open>check\<close> is the checksum field of the local \<open>ipv4\<close>, which is never assigned. The result is
  the status, the handle, its vector and \<open>*isvlan\<close>.
\<close>

definition set_av_attr :: "net_lib \<Rightarrow> u8 list \<Rightarrow> u8 list \<Rightarrow> ah \<Rightarrow> av \<Rightarrow> ah_attr \<Rightarrow> u8 list \<Rightarrow> u32 \<Rightarrow>
    bool \<Rightarrow> u16 \<Rightarrow> int \<times> ah \<times> av \<times> bool" where
  "set_av_attr N dev_addr check a v attr sgid pdid isvlan vlan_tag =
     (let proto_num = bxroce_hdr_type_to_proto_num (hdr_type a)
      in if proto_num = 0 then (- EINVAL, a, v, isvlan)
         else
           let nxthdr = (if proto_num = ETH_P_IBOE then 0x1b else 0x11) :: u8
           in if vlan_tag = 0 \<or> vlan_tag > 0xfff then (- EINVAL, a, v, isvlan)
              else
                let isvlan = True;
                    eth = eth_vlan_bytes (bxroce_resolve_dmac N attr) dev_addr vlan_tag proto_num;
                    g = grh attr;
                    a = a\<lparr>sgid_index := grh_sgid_index g\<rparr>;
                    v = v\<lparr>av_mem := put_bytes 0 eth (av_mem v)\<rparr>;
                    v = (if hdr_type a = RDMA_NETWORK_IPV4
                         then v\<lparr>av_mem := put_bytes eth_vlan_size
                                (ipv4_bytes g pdid nxthdr check (gid2ip N sgid) (gid2ip N (dgid g)))
                                (av_mem v)\<rparr>
                         else v\<lparr>av_mem := put_bytes eth_vlan_size (grh_bytes g pdid nxthdr sgid)
                                (av_mem v)\<rparr>);
                    v = v\<lparr>valid := valid v OR BXROCE_AV_VLAN_VALID\<rparr>
                in (0, a, v, isvlan))"

text \<open>The scan for a slot whose \<open>valid\<close> is 0, from slot \<open>i\<close> on.\<close>

fun free_slot :: "av list \<Rightarrow> nat \<Rightarrow> nat option" where
  "free_slot [] i = None"
| "free_slot (v # vs) i = (if valid v = 0 then Some i else free_slot vs (Suc i))"

definition bxroce_alloc_av :: "av list \<Rightarrow> ah \<Rightarrow> int \<times> av list \<times> ah" where
  "bxroce_alloc_av tbl a =
     (case free_slot tbl 0 of
        None \<Rightarrow> (- EAGAIN, tbl, a)
      | Some i \<Rightarrow> (0, tbl[i := (tbl ! i)\<lparr>valid := BXROCE_AV_VALID\<rparr>], a\<lparr>ah_av := i, ah_id := i\<rparr>))"

definition bxroce_free_av :: "av list \<Rightarrow> ah \<Rightarrow> int \<times> av list" where
  "bxroce_free_av tbl a = (0, tbl[ah_av a := (tbl ! ah_av a)\<lparr>valid := 0\<rparr>])"

text \<open>
  \<open>memcpy(&uresp.dmac[0], ah->av->eth_hdr.dmac[0], ETH_ALEN)\<close> takes the first byte of the MAC
  address as the address to copy from: \<open>kmem\<close> is what the kernel finds at an address, None a
  fault. The response is the address and the MAC it copies out.
\<close>

definition bxroce_copy_ah_uresp :: "env \<Rightarrow> (nat \<Rightarrow> nat \<Rightarrow> u8 list option) \<Rightarrow> av \<Rightarrow> u16 \<Rightarrow> kern \<Rightarrow>
    (int \<times> (u32 \<times> u8 list) \<times> kern) option" where
  "bxroce_copy_ah_uresp E kmem v vlan_tag s = do {
     let eth_sz = (if vlan_tag \<noteq> 0 then eth_vlan_size else eth_basic_size);
     let daddr = from_be32 (get_bytes (eth_sz + 16) 4 (av_mem v));
     dmac \<leftarrow> kmem (unat (av_mem v ! 0)) 6;
     let (ok, s) = copy_user E s;
     Some (if ok then 0 else - EFAULT, (daddr, dmac), s)
   }"

section \<open>The verbs\<close>

text \<open>
  \<open>vlan\<close> is the VLAN of the netdev of the source GID, if it is a VLAN device; \<open>net\<close> the
  network type of the GID. A handle is created in the kernel object \<open>p\<close>.
\<close>

definition bxroce_create_ah :: "env \<Rightarrow> net_lib \<Rightarrow> (nat \<Rightarrow> nat \<Rightarrow> u8 list option) \<Rightarrow> u8 list \<Rightarrow>
    u8 list \<Rightarrow> u32 \<Rightarrow> ah_attr \<Rightarrow> u8 list \<Rightarrow> u16 option \<Rightarrow> network_type \<Rightarrow> bool \<Rightarrow> av list \<Rightarrow> kern \<Rightarrow>
    ((int + nat \<times> ah) \<times> av list \<times> kern) option" where
  "bxroce_create_ah E N kmem dev_addr check pdid attr sgid vlan net udata tbl s =
     (if attr_roce attr \<and> \<not> attr_has_grh attr then Some (Inl (- EINVAL), tbl, s)
      else case kalloc E s of
        (None, s) \<Rightarrow> Some (Inl (- ENOMEM), tbl, s)
      | (Some p, s) \<Rightarrow>
          (let a = \<lparr>ah_av = 0, sgid_index = 0, ah_id = 0, hdr_type = RDMA_NETWORK_IB\<rparr>;
               (status, tbl, a) = bxroce_alloc_av tbl a
           in if status \<noteq> 0 then Some (Inl status, tbl, kfree (Some p) s)
              else
                let vlan_tag = (case vlan of Some t \<Rightarrow> t | None \<Rightarrow> 0xffff);
                    a = a\<lparr>hdr_type := net\<rparr>;
                    (status, a, v, isvlan) =
                      set_av_attr N dev_addr check a (tbl ! ah_av a) attr sgid pdid False vlan_tag;
                    tbl = tbl[ah_av a := v]
                in if status \<noteq> 0
                   then Some (Inl status, snd (bxroce_free_av tbl a), kfree (Some p) s)
                   else if udata
                   then do {
                     (status, resp, s) \<leftarrow> bxroce_copy_ah_uresp E kmem v vlan_tag s;
                     Some (if status \<noteq> 0
                           then (Inl status, snd (bxroce_free_av tbl a), kfree (Some p) s)
                           else (Inr (p, a), tbl, s))
                   }
                   else Some (Inr (p, a), tbl, s)))"

definition bxroce_destroy_ah :: "nat \<Rightarrow> ah \<Rightarrow> av list \<Rightarrow> kern \<Rightarrow> int \<times> av list \<times> kern" where
  "bxroce_destroy_ah p a tbl s = (0, snd (bxroce_free_av tbl a), kfree (Some p) s)"

record queried_attr =
  q_sl :: u8
  q_flow_label :: u32
  q_sgid_index :: u16
  q_hop_limit :: u8
  q_traffic_class :: u8
  q_dgid :: "u8 list"

definition bxroce_query_ah :: "ah \<Rightarrow> av list \<Rightarrow> queried_attr" where
  "bxroce_query_ah a tbl =
     (let v = tbl ! ah_av a;
          vlan = valid v AND BXROCE_AV_VALID \<noteq> 0;
          off = (if vlan then eth_vlan_size else eth_basic_size);
          sl = (if vlan then ucast (drop_bit 13 (from_be16 (get_bytes 14 2 (av_mem v)))) else 0);
          tclass_flow = from_be32 (get_bytes off 4 (av_mem v));
          pdid_hoplimit = from_be32 (get_bytes (off + 4) 4 (av_mem v))
      in \<lparr>q_sl = sl, q_flow_label = tclass_flow AND 0xffffffff, q_sgid_index = sgid_index a,
          q_hop_limit = ucast (pdid_hoplimit AND 0xff),
          q_traffic_class = ucast (drop_bit 24 tclass_flow),
          q_dgid = get_bytes (off + 24) 16 (av_mem v)\<rparr>)"

definition bxroce_modify_ah :: "ah \<Rightarrow> ah_attr \<Rightarrow> int" where
  "bxroce_modify_ah a attr = 0"

definition bxroce_pma_counters :: int where
  "bxroce_pma_counters = - 1"

text \<open>The results are flags: \<open>FAILURE\<close> 0, \<open>SUCCESS\<close> 1, \<open>REPLY\<close> 2.\<close>

definition bxroce_process_mad :: "nat \<Rightarrow> nat \<Rightarrow> nat \<Rightarrow> bool \<Rightarrow> u32" where
  "bxroce_process_mad mad_size in_size out_size perf_mgmt =
     (if in_size \<noteq> mad_size \<or> out_size \<noteq> mad_size then 0
      else if perf_mgmt then if bxroce_pma_counters = 0 then 1 OR 2 else 1
      else 1)"

section \<open>The table as an allocator\<close>

lemma free_slot_bounds: "free_slot vs i = Some j \<Longrightarrow> i \<le> j \<and> j < i + length vs"
  by (induction vs i rule: free_slot.induct) (auto split: if_splits)

lemma free_slot_found: "free_slot vs i = Some j \<Longrightarrow> valid (vs ! (j - i)) = 0"
proof (induction vs i rule: free_slot.induct)
  case (2 v vs i)
  then show ?case
    using free_slot_bounds [of vs "Suc i" j] by (auto split: if_splits simp: nth_Cons')
qed simp

lemma free_slot_none: "free_slot vs i = None \<Longrightarrow> v \<in> set vs \<Longrightarrow> valid v \<noteq> 0"
  by (induction vs i rule: free_slot.induct) (auto split: if_splits)

definition no_ah :: ah where
  "no_ah = \<lparr>ah_av = 0, sgid_index = 0, ah_id = 0, hdr_type = RDMA_NETWORK_IB\<rparr>"

definition av_alloc :: "av list \<Rightarrow> nat option \<times> av list" where
  "av_alloc tbl =
     (let (status, tbl', a) = bxroce_alloc_av tbl no_ah
      in (if status = 0 then Some (ah_av a) else None, tbl'))"

definition av_release :: "nat \<Rightarrow> av list \<Rightarrow> av list" where
  "av_release i tbl = snd (bxroce_free_av tbl (no_ah\<lparr>ah_av := i\<rparr>))"

definition av_live :: "av list \<Rightarrow> nat set" where
  "av_live tbl = {i. i < length tbl \<and> valid (tbl ! i) \<noteq> 0}"

definition av_slots :: "av list \<Rightarrow> nat set" where
  "av_slots tbl = {..<length tbl}"

lemma alloc_av_found:
  assumes "bxroce_alloc_av tbl a = (st, tbl', a')" and "st = 0"
  shows "ah_av a' < length tbl \<and> valid (tbl ! ah_av a') = 0 \<and> ah_id a' = ah_av a' \<and>
    tbl' = tbl[ah_av a' := (tbl ! ah_av a')\<lparr>valid := BXROCE_AV_VALID\<rparr>]"
  using assms free_slot_bounds [of tbl 0] free_slot_found [of tbl 0]
  by (auto simp: bxroce_alloc_av_def split: option.splits)

lemma alloc_av_none:
  assumes "bxroce_alloc_av tbl a = (st, tbl', a')" and "st \<noteq> 0"
  shows "st = - EAGAIN \<and> tbl' = tbl \<and> a' = a \<and> (\<forall>i < length tbl. valid (tbl ! i) \<noteq> 0)"
  using assms free_slot_none [of tbl 0]
  by (auto simp: bxroce_alloc_av_def split: option.splits)

interpretation av_table: id_allocator av_alloc av_release av_live av_slots "\<lambda>_. True"
proof unfold_locales
  fix s s' :: "av list" and i r
  obtain st t a where al: "bxroce_alloc_av s no_ah = (st, t, a)" by (metis prod_cases3)
  show "av_alloc s = (Some i, s') \<Longrightarrow> i \<in> av_slots s \<and> i \<notin> av_live s"
    using al alloc_av_found [OF al]
    by (auto simp: av_alloc_def av_slots_def av_live_def split: if_splits)
  show "av_alloc s = (Some i, s') \<Longrightarrow> av_live s' = insert i (av_live s)"
    using al alloc_av_found [OF al]
    by (auto simp: av_alloc_def av_live_def nth_list_update BXROCE_AV_VALID_def split: if_splits)
  show "av_alloc s = (r, s') \<Longrightarrow> True \<and> av_slots s' = av_slots s"
    using al by (auto simp: av_alloc_def av_slots_def bxroce_alloc_av_def split: option.splits)
  show "av_alloc s = (None, s') \<Longrightarrow> av_slots s \<subseteq> av_live s \<and> av_live s' = av_live s"
    using al alloc_av_none [OF al]
    by (auto simp: av_alloc_def av_slots_def av_live_def split: if_splits)
  show "i \<in> av_live s \<Longrightarrow> av_live (av_release i s) = av_live s - {i}"
    by (auto simp: av_release_def bxroce_free_av_def av_live_def nth_list_update)
  show "i \<in> av_live s \<Longrightarrow> True \<and> av_slots (av_release i s) = av_slots s"
    by (simp add: av_release_def bxroce_free_av_def av_slots_def)
qed

section \<open>Lemmas\<close>

lemma no_ah_eq: "\<lparr>ah_av = 0, sgid_index = 0, ah_id = 0, hdr_type = RDMA_NETWORK_IB\<rparr> = no_ah"
  by (simp add: no_ah_def)

lemma set_av_attr_vlan:
  "fst (set_av_attr N mac check a v attr sgid pdid isvlan tag) =
     (if tag = 0 \<or> tag > 0xfff then - EINVAL else 0)"
  by (simp add: set_av_attr_def bxroce_hdr_type_to_proto_num_def ETH_P_IBOE_def Let_def
      split: network_type.split)

lemma set_av_attr_fails:
  "set_av_attr N mac check a v attr sgid pdid isvlan tag = (st, a', v', iv) \<Longrightarrow> st \<noteq> 0 \<Longrightarrow>
   a' = a \<and> v' = v"
  by (auto simp: set_av_attr_def Let_def split: if_splits)

lemma set_av_attr_slot:
  "set_av_attr N mac check a v attr sgid pdid isvlan tag = (st, a', v', iv) \<Longrightarrow> ah_av a' = ah_av a"
  by (auto simp: set_av_attr_def Let_def split: if_splits)

text \<open>Allocating a slot and freeing it again leaves a table with the same slots in use.\<close>

lemma alloc_free_av_live:
  assumes "bxroce_alloc_av tbl no_ah = (0, tbl', a)"
  shows "av_live (snd (bxroce_free_av (tbl'[ah_av a := v]) (a\<lparr>hdr_type := t\<rparr>))) = av_live tbl"
  using alloc_av_found [OF assms]
  by (auto simp: bxroce_free_av_def av_live_def nth_list_update)

lemma live_objs_fresh:
  "kalloc E s = (Some p, s') \<Longrightarrow> p \<notin> live_objs (trace s) \<Longrightarrow>
   live_objs (trace (kfree (Some p) s')) = live_objs (trace s)"
  by (auto simp: kalloc_def split: if_splits)

section \<open>Properties\<close>

text \<open>
  The address-vector table never gives a slot to two handles at a time, gives only slots
  of the table, and fails only when every slot is taken.
\<close>

theorem av_slots_unique:
  assumes "id_run av_alloc av_release ops ([], tbl) = (hs, tbl')"
  shows "distinct hs \<and> set hs \<subseteq> {..<length tbl} \<and> set hs \<subseteq> av_live tbl' \<and>
    (fst (bxroce_alloc_av tbl' a) \<noteq> 0 \<longrightarrow>
      fst (bxroce_alloc_av tbl' a) = - EAGAIN \<and> av_live tbl' = {..<length tbl'})"
proof -
  have "distinct hs \<and> set hs \<subseteq> {..<length tbl} \<and> set hs \<subseteq> av_live tbl'"
    using av_table.run_distinct [OF TrueI assms] by (simp add: av_slots_def)
  moreover obtain st t b where al: "bxroce_alloc_av tbl' a = (st, t, b)" by (metis prod_cases3)
  ultimately show ?thesis using alloc_av_none [OF al] by (auto simp: al av_live_def)
qed

definition two_slots :: "av list" where
  "two_slots = replicate 2 \<lparr>av_mem = replicate 64 0, valid = 0\<rparr>"

lemma two_slots_eq: "two_slots = [\<lparr>av_mem = replicate 64 0, valid = 0\<rparr>, \<lparr>av_mem = replicate 64 0, valid = 0\<rparr>]"
  by (simp add: two_slots_def numeral_2_eq_2)

theorem av_slots_unique_witness:
  "distinct (fst (id_run av_alloc av_release [Id_alloc, Id_alloc, Id_release 0, Id_alloc]
     ([], two_slots)))"
  using av_slots_unique [of "[Id_alloc, Id_alloc, Id_release 0, Id_alloc]" two_slots]
  by (metis prod.collapse)

text \<open>
  On a netdev that is not a VLAN device no address handle can be created: the call always
  fails, because \<open>set_av_attr\<close> refuses the tag 0xffff that stands for "no VLAN". The failure
  leaves the slots in use and the allocations as they were.
\<close>

theorem create_ah_needs_vlan:
  assumes "\<forall>i \<in> live_objs (trace s). i < next_obj s"
  shows "\<exists>err tbl' s'. bxroce_create_ah E N kmem mac check pdid attr sgid None net udata tbl s =
      Some (Inl err, tbl', s') \<and> err < 0 \<and> av_live tbl' = av_live tbl \<and>
    live_objs (trace s') = live_objs (trace s)"
proof (cases "attr_roce attr \<and> \<not> attr_has_grh attr")
  case True
  then show ?thesis by (simp add: bxroce_create_ah_def)
next
  case grh: False
  obtain p s1 where k: "kalloc E s = (p, s1)" by force
  show ?thesis
  proof (cases p)
    case None
    then show ?thesis using grh k by (auto simp: bxroce_create_ah_def kalloc_def split: if_splits)
  next
    case (Some i)
    have "i = next_obj s" using k Some by (auto simp: kalloc_def split: if_splits)
    then have live: "live_objs (trace (kfree (Some i) s1)) = live_objs (trace s)"
      using live_objs_fresh [of E s i s1] k Some assms by blast
    obtain st tbl1 a where al: "bxroce_alloc_av tbl no_ah = (st, tbl1, a)" by (metis prod_cases3)
    show ?thesis
    proof (cases "st = 0")
      case False
      then show ?thesis
        using grh k Some al alloc_av_none [OF al] live
        by (simp add: bxroce_create_ah_def no_ah_eq Let_def)
    next
      case True
      let ?a = "a\<lparr>hdr_type := net\<rparr>"
      obtain st2 a2 v iv where av: "set_av_attr N mac check ?a (tbl1 ! ah_av a) attr sgid pdid False
          0xffff = (st2, a2, v, iv)" by (metis prod_cases4)
      have "st2 = - EINVAL"
        using set_av_attr_vlan [of N mac check ?a "tbl1 ! ah_av a" attr sgid pdid False "0xffff"] av
        by simp
      moreover from this have "a2 = ?a" using set_av_attr_fails [OF av] by simp
      ultimately show ?thesis
        using grh k Some al av True live alloc_free_av_live [OF al [unfolded True]]
        by (simp add: bxroce_create_ah_def no_ah_eq Let_def)
    qed
  qed
qed

definition plain_net :: net_lib where
  "plain_net = \<lparr>is_multicast = (\<lambda>_. False), mcast_mac = (\<lambda>_. replicate 6 0),
     is_link_local = (\<lambda>_. False), ll_mac = (\<lambda>_. replicate 6 0), gid2ip = drop 12\<rparr>"

definition some_attr :: ah_attr where
  "some_attr = \<lparr>attr_roce = True, attr_has_grh = True,
     grh = \<lparr>dgid = replicate 16 1, grh_sgid_index = 3, traffic_class = 8, flow_label = 5,
            hop_limit = 64\<rparr>, attr_dmac = replicate 6 2\<rparr>"

theorem create_ah_needs_vlan_witness:
  "\<exists>err tbl' s'. bxroce_create_ah file_env plain_net (\<lambda>_ _. None) (replicate 6 3) [0, 0] 0 some_attr
     (replicate 16 4) None RDMA_NETWORK_IPV6 False two_slots empty_kern = Some (Inl err, tbl', s')"
  using create_ah_needs_vlan [of empty_kern file_env plain_net "\<lambda>_ _. None" "replicate 6 3" "[0, 0]"
      0 some_attr "replicate 16 4" RDMA_NETWORK_IPV6 False two_slots]
  by (auto simp: empty_kern_def)

lemma length_be [simp]: "length (be16 w) = 2" "length (be32 x) = 4"
  by (simp_all add: be16_def be32_def)

text \<open>The three fields \<open>bxroce_query_ah\<close> reads of a GRH, found at their offsets.\<close>

lemma grh_bytes_fields:
  assumes "length sgid = 16" and "length (dgid g) = 16"
  shows "length (grh_bytes g pdid nx sgid) = 44"
    and "get_bytes 0 4 (grh_bytes g pdid nx sgid) =
      be32 (0x60000000 OR push_bit 24 (ucast (traffic_class g)) OR flow_label g)"
    and "get_bytes 4 4 (grh_bytes g pdid nx sgid) =
      be32 (push_bit 16 pdid OR push_bit 8 (ucast nx) OR ucast (hop_limit g))"
    and "get_bytes 24 16 (grh_bytes g pdid nx sgid) = dgid g"
  using assms by (simp_all add: grh_bytes_def get_bytes_def)

lemma hop_limit_byte:
  "ucast ((push_bit 16 pdid OR push_bit 8 (ucast (nx :: u8)) OR ucast (h :: u8)) AND (0xff :: u32)) = h"
  unfolding and_byte_u32
proof (rule word_eqI_bits)
  fix n assume "n < LENGTH(8)"
  then show "bit (ucast (take_bit 8 (push_bit 16 pdid OR push_bit 8 (ucast nx) OR ucast h) :: u32) :: u8) n
      = bit h n"
    by (auto simp: bit_simps)
qed

lemma proto_num_nonzero [simp]: "bxroce_hdr_type_to_proto_num t \<noteq> 0"
  by (simp add: bxroce_hdr_type_to_proto_num_def ETH_P_IBOE_def split: network_type.split)

lemma set_av_attr_grh:
  assumes "hdr_type a \<noteq> RDMA_NETWORK_IPV4" and "0 < tag" and "tag \<le> 0xfff"
    and "length (av_mem v) = 64" and "length (bxroce_resolve_dmac N attr) = 6" and "length mac = 6"
    and "length sgid = 16" and "length (dgid (grh attr)) = 16"
    and "set_av_attr N mac check a v attr sgid pdid iv tag = (st, a', v', iv')"
  shows "sgid_index a' = grh_sgid_index (grh attr) \<and>
    valid v' = valid v OR BXROCE_AV_VLAN_VALID \<and>
    (\<exists>eth nx. length eth = 18 \<and> av_mem v' =
       put_bytes 18 (grh_bytes (grh attr) pdid nx sgid) (put_bytes 0 eth (av_mem v)))"
  using assms
  by (auto simp: set_av_attr_def Let_def eth_vlan_size_def eth_vlan_bytes_def
      split: if_splits intro!: exI [of _ "eth_vlan_bytes (bxroce_resolve_dmac N attr) mac tag
        (bxroce_hdr_type_to_proto_num (hdr_type a))"])

text \<open>
  What \<open>bxroce_query_ah\<close> says of a handle that the kernel created for an IPv6 or InfiniBand
  GID on a VLAN device: the destination GID, the hop limit and the source index are those of
  the creation. The flow label and the traffic class are not: the whole first word of the
  header, with the version and the class in it, comes back as the flow label, and its top
  byte as the class.
\<close>

theorem query_ah_after_create:
  assumes "bxroce_create_ah E N kmem mac check pdid attr sgid (Some tag) net False tbl s =
      Some (Inr (p, a), tbl', s')"
    and "net \<noteq> RDMA_NETWORK_IPV4" and "\<forall>v \<in> set tbl. length (av_mem v) = 64"
    and "length (bxroce_resolve_dmac N attr) = 6" and "length mac = 6"
    and "length sgid = 16" and "length (dgid (grh attr)) = 16"
  shows "q_dgid (bxroce_query_ah a tbl') = dgid (grh attr) \<and>
    q_hop_limit (bxroce_query_ah a tbl') = hop_limit (grh attr) \<and>
    q_sgid_index (bxroce_query_ah a tbl') = grh_sgid_index (grh attr) \<and>
    q_flow_label (bxroce_query_ah a tbl') =
      0x60000000 OR push_bit 24 (ucast (traffic_class (grh attr))) OR flow_label (grh attr)"
proof -
  obtain p0 s1 where k: "kalloc E s = (Some p0, s1)"
    using assms(1) by (cases "kalloc E s") (auto simp: bxroce_create_ah_def split: option.splits if_splits)
  obtain st tbl1 a1 where al: "bxroce_alloc_av tbl no_ah = (st, tbl1, a1)" by (metis prod_cases3)
  have st: "st = 0"
    using assms(1) k al by (auto simp: bxroce_create_ah_def no_ah_eq Let_def split: if_splits)
  note found = alloc_av_found [OF al st]
  let ?a = "a1\<lparr>hdr_type := net\<rparr>"
  obtain st2 a2 v iv where av: "set_av_attr N mac check ?a (tbl1 ! ah_av a1) attr sgid pdid False tag =
      (st2, a2, v, iv)" by (metis prod_cases4)
  have st2: "st2 = 0" and res: "a = a2" "tbl' = tbl1[ah_av a2 := v]"
    using assms(1) k al st av
    by (auto simp: bxroce_create_ah_def no_ah_eq Let_def split: if_splits)
  have tag: "0 < tag" "tag \<le> 0xfff"
    using set_av_attr_vlan [of N mac check ?a "tbl1 ! ah_av a1" attr sgid pdid False tag] av st2
    by (auto simp: word_gt_0 not_less split: if_splits)
  have mem: "length (av_mem (tbl1 ! ah_av a1)) = 64" "valid (tbl1 ! ah_av a1) = BXROCE_AV_VALID"
    using found assms(3) by auto
  obtain eth nx where v: "sgid_index a2 = grh_sgid_index (grh attr)"
      "valid v = BXROCE_AV_VALID OR BXROCE_AV_VLAN_VALID" "length eth = 18" "av_mem v =
       put_bytes 18 (grh_bytes (grh attr) pdid nx sgid) (put_bytes 0 eth (av_mem (tbl1 ! ah_av a1)))"
    using set_av_attr_grh [OF _ tag mem(1) assms(4-7) av] mem(2) assms(2) by auto
  have slot: "ah_av a2 = ah_av a1" "tbl' ! ah_av a2 = v"
    using set_av_attr_slot [OF av] found res(2) by auto
  let ?g = "grh_bytes (grh attr) pdid nx sgid"
  note f = grh_bytes_fields [OF assms(6,7), of pdid nx]
  have at: "get_bytes (18 + k) n (av_mem v) = get_bytes k n ?g" if "k + n \<le> 44" for k n
    using that v(3,4) mem(1) f(1) by (simp add: get_bytes_put_bytes)
  show ?thesis
    using slot v(1,2) res(1) at [of 0 4] at [of 4 4] at [of 24 16] f(2-4)
    by (simp add: bxroce_query_ah_def Let_def eth_vlan_size_def BXROCE_AV_VALID_def
        BXROCE_AV_VLAN_VALID_def hop_limit_byte)
qed

theorem query_ah_after_create_witness:
  "\<exists>a tbl' s'. bxroce_create_ah file_env plain_net (\<lambda>_ _. None) (replicate 6 3) [0, 0] 0 some_attr
      (replicate 16 4) (Some 7) RDMA_NETWORK_IPV6 False two_slots empty_kern =
      Some (Inr (0, a), tbl', s') \<and> q_flow_label (bxroce_query_ah a tbl') = 0x68000005"
proof -
  have "\<exists>a tbl' s'. bxroce_create_ah file_env plain_net (\<lambda>_ _. None) (replicate 6 3) [0, 0] 0
      some_attr (replicate 16 4) (Some 7) RDMA_NETWORK_IPV6 False two_slots empty_kern =
      Some (Inr (0, a), tbl', s')"
    by (simp add: bxroce_create_ah_def bxroce_alloc_av_def set_av_attr_def two_slots_eq
        some_attr_def kalloc_def file_env_def empty_kern_def Let_def)
  then obtain a tbl' s' where r: "bxroce_create_ah file_env plain_net (\<lambda>_ _. None) (replicate 6 3)
      [0, 0] 0 some_attr (replicate 16 4) (Some 7) RDMA_NETWORK_IPV6 False two_slots empty_kern =
      Some (Inr (0, a), tbl', s')" by blast
  have "q_flow_label (bxroce_query_ah a tbl') = 0x60000000 OR
      push_bit 24 (ucast (traffic_class (grh some_attr))) OR flow_label (grh some_attr)"
    using query_ah_after_create [OF r]
    by (simp add: two_slots_def some_attr_def plain_net_def bxroce_resolve_dmac_def Let_def)
  with r show ?thesis by (simp add: some_attr_def)
qed

text \<open>
  A handle a user process asks for is never returned: once the address vector is set up,
  \<open>bxroce_copy_ah_uresp\<close> reads six bytes at the address that the first byte of the MAC
  address is, and the kernel faults wherever the first page of memory is not mapped.
\<close>

theorem create_ah_user_faults:
  assumes "\<forall>i n. i < 256 \<longrightarrow> kmem i n = None"
    and "bxroce_create_ah E N kmem mac check pdid attr sgid vlan net True tbl s = Some (r, tbl', s')"
  shows "\<exists>err. r = Inl err"
proof -
  have "unat (b :: u8) < 256" for b
    by (rule order.strict_trans2 [OF unsigned_less]) simp
  then have none: "bxroce_copy_ah_uresp E kmem v tag t = None" for v tag t
    using assms(1) by (simp add: bxroce_copy_ah_uresp_def Let_def)
  show ?thesis
    using assms(2) none
    by (auto simp: bxroce_create_ah_def Let_def split: if_splits option.splits prod.splits)
qed

theorem create_ah_user_faults_witness:
  "\<exists>err tbl' s'. bxroce_create_ah file_env plain_net (\<lambda>_ _. None) (replicate 6 3) [0, 0] 0 some_attr
     (replicate 16 4) (Some 0) RDMA_NETWORK_IPV6 True two_slots empty_kern = Some (Inl err, tbl', s')"
proof -
  have "\<exists>r tbl' s'. bxroce_create_ah file_env plain_net (\<lambda>_ _. None) (replicate 6 3) [0, 0] 0
      some_attr (replicate 16 4) (Some 0) RDMA_NETWORK_IPV6 True two_slots empty_kern =
      Some (r, tbl', s')"
    by (simp add: bxroce_create_ah_def bxroce_alloc_av_def set_av_attr_def two_slots_eq
        some_attr_def kalloc_def file_env_def empty_kern_def Let_def)
  then obtain r tbl' s' where r: "bxroce_create_ah file_env plain_net (\<lambda>_ _. None) (replicate 6 3)
      [0, 0] 0 some_attr (replicate 16 4) (Some 0) RDMA_NETWORK_IPV6 True two_slots empty_kern =
      Some (r, tbl', s')" by blast
  from create_ah_user_faults [OF _ r] r show ?thesis by auto
qed

end
