(* ===== verification/Context.thy ===== *)
theory Context
  imports Mr
begin

text \<open>
  User contexts and protection domains (bxroce_verbs.c): the list of physical ranges a process
  may map, the context's own protection domain, and the verbs that create, map and destroy
  them. A list entry carries the allocation it lives in. \<open>virt_to_phys\<close> is an argument.
\<close>

section \<open>Types\<close>

record mm_entry =
  mm_obj :: nat
  phy_addr :: u64
  mm_len :: u64

text \<open>\<open>ctx_pd\<close> is null or an object of the pool of domains; \<open>ah_va\<close> the DMA buffer.\<close>

record ucontext =
  uctx_obj :: nat
  mm_head :: "mm_entry list"
  ctx_pd :: "nat option"
  pd_in_use :: bool
  ah_va :: nat
  ah_pa :: u64
  ah_len :: u64

definition zero_pd_obj :: pd where
  "zero_pd_obj = \<lparr>index = 0, elem_key = [], ref_cnt = 0, pd_id = 0, pd_uctx = None\<rparr>"

section \<open>Ranges a process may map\<close>

definition bxroce_add_mmap :: "env \<Rightarrow> ucontext \<Rightarrow> u64 \<Rightarrow> u64 \<Rightarrow> kern \<Rightarrow> int \<times> ucontext \<times> kern" where
  "bxroce_add_mmap E u phy len s =
     (case kalloc E s of
        (None, s) \<Rightarrow> (- ENOMEM, u, s)
      | (Some p, s) \<Rightarrow>
          (let s = mutex_lock Mm_list_lock s;
               u = u\<lparr>mm_head := mm_head u @ [\<lparr>mm_obj = p, phy_addr = phy, mm_len = len\<rparr>]\<rparr>;
               s = mutex_unlock Mm_list_lock s
           in (0, u, s)))"

text \<open>The test the loops skip an entry on: both the length and the address differ.\<close>

definition mm_skip :: "u64 \<Rightarrow> u64 \<Rightarrow> mm_entry \<Rightarrow> bool" where
  "mm_skip phy len mm \<longleftrightarrow> len \<noteq> mm_len mm \<and> phy \<noteq> phy_addr mm"

fun del_first :: "u64 \<Rightarrow> u64 \<Rightarrow> mm_entry list \<Rightarrow> kern \<Rightarrow> mm_entry list \<times> kern" where
  "del_first phy len [] s = ([], s)"
| "del_first phy len (mm # ms) s =
     (if mm_skip phy len mm then (let (ms, s) = del_first phy len ms s in (mm # ms, s))
      else (ms, kfree (Some (mm_obj mm)) s))"

definition bxroce_del_mmap :: "ucontext \<Rightarrow> u64 \<Rightarrow> u64 \<Rightarrow> kern \<Rightarrow> ucontext \<times> kern" where
  "bxroce_del_mmap u phy len s =
     (let s = mutex_lock Mm_list_lock s;
          (ms, s) = del_first phy len (mm_head u) s
      in (u\<lparr>mm_head := ms\<rparr>, mutex_unlock Mm_list_lock s))"

fun find_entry :: "u64 \<Rightarrow> u64 \<Rightarrow> mm_entry list \<Rightarrow> bool" where
  "find_entry phy len [] = False"
| "find_entry phy len (mm # ms) = (if mm_skip phy len mm then find_entry phy len ms else True)"

definition bxroce_find_mmap :: "ucontext \<Rightarrow> u64 \<Rightarrow> u64 \<Rightarrow> kern \<Rightarrow> bool \<times> kern" where
  "bxroce_find_mmap u phy len s =
     (let s = mutex_lock Mm_list_lock s; found = find_entry phy len (mm_head u)
      in (found, mutex_unlock Mm_list_lock s))"

record vma =
  vm_start :: u64
  vm_end :: u64
  vm_pgoff :: u64

text \<open>
  What is handed to the kernel: nothing, with an error, or the first page frame and the length
  given to \<open>io_remap_pfn_range\<close> or \<open>remap_pfn_range\<close>, whose status is returned.
\<close>

datatype mmap_result = Mmap_err int | Mmap_io u64 u64 | Mmap_mem u64 u64

definition SQ_REG_LEN :: u64 where "SQ_REG_LEN = 0x1000"

definition bxroce_mmap :: "u64 \<Rightarrow> ucontext \<Rightarrow> vma \<Rightarrow> kern \<Rightarrow> mmap_result \<times> kern" where
  "bxroce_mmap regaddr u v s =
     (let vm_page = push_bit 12 (vm_pgoff v); len = vm_end v - vm_start v
      in if vm_start v AND 0xfff \<noteq> 0 then (Mmap_err (- EINVAL), s)
         else
           let (found, s) = bxroce_find_mmap u (push_bit 12 (vm_pgoff v)) len s
           in if \<not> found then (Mmap_err (- EINVAL), s)
              else if vm_page \<ge> regaddr \<and> vm_page \<le> regaddr + SQ_REG_LEN \<and> len \<le> SQ_REG_LEN
                   then (Mmap_io (vm_pgoff v) len, s)
                   else (Mmap_mem (vm_pgoff v) len, s))"

section \<open>The domain of a context\<close>

definition alloc_pd_obj :: "env \<Rightarrow> pd_pool \<Rightarrow> kern \<Rightarrow> nat option \<times> pd_pool \<times> kern" where
  "alloc_pd_obj E p s = bxroce_alloc E zero_pd_obj p s"

definition dealloc_pd_obj :: "nat \<Rightarrow> pd_pool \<Rightarrow> kern \<Rightarrow> (pd_pool \<times> kern) option" where
  "dealloc_pd_obj pd p s = bxroce_drop_ref pd p s"

text \<open>\<open>pd->uctx = uctx\<close>: a null pointer is dereferenced when there is no domain.\<close>

definition set_pd_uctx :: "nat option \<Rightarrow> nat \<Rightarrow> pd_pool \<Rightarrow> pd_pool option" where
  "set_pd_uctx pd u p =
     (case pd of
        None \<Rightarrow> None
      | Some e \<Rightarrow> (case elems p e of
          None \<Rightarrow> None
        | Some x \<Rightarrow> Some (p\<lparr>elems := (elems p)(e \<mapsto> x\<lparr>pd_uctx := Some u\<rparr>)\<rparr>)))"

text \<open>\<open>IS_ERR\<close> of what \<open>_bxroce_alloc_pd\<close> returns is false, also for null.\<close>

definition bxroce_alloc_ucontext_pd :: "env \<Rightarrow> ucontext \<Rightarrow> pd_pool \<Rightarrow> kern \<Rightarrow>
    (int \<times> ucontext \<times> pd_pool \<times> kern) option" where
  "bxroce_alloc_ucontext_pd E u p s =
     (let (pd, p, s) = alloc_pd_obj E p s; u = u\<lparr>ctx_pd := pd\<rparr>
      in do { p \<leftarrow> set_pd_uctx (ctx_pd u) (uctx_obj u) p; Some (0, u, p, s) })"

definition bxroce_dealloc_ucontext_pd :: "ucontext \<Rightarrow> pd_pool \<Rightarrow> kern \<Rightarrow>
    (int \<times> ucontext \<times> pd_pool \<times> kern) option" where
  "bxroce_dealloc_ucontext_pd u p s = do {
     pd \<leftarrow> ctx_pd u;
     let u = u\<lparr>ctx_pd := None\<rparr>;
     (p, s) \<leftarrow> dealloc_pd_obj pd p s;
     Some (0, u, p, s)
   }"

section \<open>Contexts\<close>

definition ah_map_len :: u32 where "ah_map_len = 0x2000"

definition bxroce_alloc_ucontext :: "env \<Rightarrow> (nat \<Rightarrow> u64) \<Rightarrow> bool \<Rightarrow> pd_pool \<Rightarrow> kern \<Rightarrow>
    ((int + ucontext) \<times> pd_pool \<times> kern) option" where
  "bxroce_alloc_ucontext E virt_to_phys udata p s =
     (if \<not> udata then Some (Inl (- EFAULT), p, s)
      else case kalloc E s of
        (None, s) \<Rightarrow> Some (Inl (- ENOMEM), p, s)
      | (Some c, s) \<Rightarrow>
          (case dma_alloc E ah_map_len s of
             (None, s) \<Rightarrow> Some (Inl (- ENOMEM), p, kfree (Some c) s)
           | (Some (dva, pa), s) \<Rightarrow>
               (let u = \<lparr>uctx_obj = c, mm_head = [], ctx_pd = None, pd_in_use = False, ah_va = dva,
                         ah_pa = pa, ah_len = ucast ah_map_len\<rparr>;
                    (status, u, s) = bxroce_add_mmap E u (virt_to_phys dva) (ah_len u) s
                in if status \<noteq> 0
                   then Some (Inl status, p, kfree (Some c) (dma_free dva s))
                   else do {
                     (status, u, p, s) \<leftarrow> bxroce_alloc_ucontext_pd E u p s;
                     let (ok, s) = copy_user E s;
                     if ok then Some (Inr u, p, s)
                     else let (u, s) = bxroce_del_mmap u (ah_pa u) (ah_len u) s
                          in Some (Inl (- EFAULT), p, kfree (Some c) (dma_free dva s))
                   })))"

definition bxroce_dealloc_ucontext :: "ucontext \<Rightarrow> pd_pool \<Rightarrow> kern \<Rightarrow> (int \<times> pd_pool \<times> kern) option"
  where "bxroce_dealloc_ucontext u p s = do {
     (status, u, p, s) \<leftarrow> bxroce_dealloc_ucontext_pd u p s;
     let (u, s) = bxroce_del_mmap u (ah_pa u) (ah_len u) s;
     let s = dma_free (ah_va u) s;
     let s = kfree_all (map mm_obj (mm_head u)) s;
     Some (status, p, kfree (Some (uctx_obj u)) s)
   }"

section \<open>Protection domains\<close>

definition bxroce_get_ucontext_pd :: "ucontext \<Rightarrow> kern \<Rightarrow> nat option \<times> ucontext \<times> kern" where
  "bxroce_get_ucontext_pd u s =
     (let s = mutex_lock Mm_list_lock s;
          (pd, u) = (if \<not> pd_in_use u then (ctx_pd u, u\<lparr>pd_in_use := True\<rparr>) else (None, u))
      in (pd, u, mutex_unlock Mm_list_lock s))"

definition is_ucontext_pd :: "ucontext \<Rightarrow> nat \<Rightarrow> bool" where
  "is_ucontext_pd u pd \<longleftrightarrow> ctx_pd u = Some pd"

definition bxroce_release_ucontext_pd :: "ucontext \<Rightarrow> kern \<Rightarrow> ucontext \<times> kern" where
  "bxroce_release_ucontext_pd u s =
     (let s = mutex_lock Mm_list_lock s
      in (u\<lparr>pd_in_use := False\<rparr>, mutex_unlock Mm_list_lock s))"

text \<open>\<open>ibctx\<close> is the context of a user process, or null.\<close>

definition bxroce_alloc_pd :: "env \<Rightarrow> ucontext option \<Rightarrow> pd_pool \<Rightarrow> kern \<Rightarrow>
    ((int + nat) \<times> ucontext option \<times> pd_pool \<times> kern) option" where
  "bxroce_alloc_pd E ibctx p s =
     (let (pd, ibctx, s) =
            (case ibctx of
               None \<Rightarrow> (None, None, s)
             | Some u \<Rightarrow> (let (pd, u, s) = bxroce_get_ucontext_pd u s in (pd, Some u, s)));
          (pd, p, s) = (case pd of Some e \<Rightarrow> (Some e, p, s) | None \<Rightarrow> alloc_pd_obj E p s)
      in do {
        p \<leftarrow> (case ibctx of None \<Rightarrow> Some p | Some u \<Rightarrow> set_pd_uctx pd (uctx_obj u) p);
        Some (case pd of Some e \<Rightarrow> Inr e | None \<Rightarrow> Inl (- ENOMEM), ibctx, p, s)
      })"

text \<open>The context a domain points to is among \<open>uctxs\<close>.\<close>

definition bxroce_dealloc_pd :: "nat \<Rightarrow> (nat \<Rightarrow> ucontext option) \<Rightarrow> pd_pool \<Rightarrow> kern \<Rightarrow>
    (int \<times> (nat \<Rightarrow> ucontext option) \<times> pd_pool \<times> kern) option" where
  "bxroce_dealloc_pd pd uctxs p s = do {
     x \<leftarrow> elems p pd;
     case pd_uctx x of
       None \<Rightarrow> do { (p, s) \<leftarrow> dealloc_pd_obj pd p s; Some (0, uctxs, p, s) }
     | Some c \<Rightarrow> do {
         u \<leftarrow> uctxs c;
         if is_ucontext_pd u pd
         then let (u, s) = bxroce_release_ucontext_pd u s in Some (0, uctxs(c \<mapsto> u), p, s)
         else do { (p, s) \<leftarrow> dealloc_pd_obj pd p s; Some (0, uctxs, p, s) }
       }
   }"

section \<open>Lemmas\<close>

lemma find_entry_iff: "find_entry phy len ms \<longleftrightarrow> (\<exists>mm \<in> set ms. mm_len mm = len \<or> phy_addr mm = phy)"
  by (induction ms) (auto simp: mm_skip_def)

lemma del_first_split:
  assumes "\<forall>mm \<in> set ms. mm_skip phy len mm" and "\<not> mm_skip phy len m"
  shows "del_first phy len (ms @ m # ms') s = (ms @ ms', kfree (Some (mm_obj m)) s)"
  using assms(1) by (induction ms) (simp_all add: assms(2))

lemma del_first_none:
  "\<forall>mm \<in> set ms. mm_skip phy len mm \<Longrightarrow> del_first phy len ms s = (ms, s)"
  by (induction ms) auto

text \<open>An object allocated from a pool without cleanup, and dropped, leaves the pool as it was.\<close>

lemma drop_last_same:
  assumes "0 < pool_ref p" and "cleanup p = None" and "elems p e = None" and "ref_cnt x = 1"
  shows "bxroce_drop_ref e (p\<lparr>pool_ref := pool_ref p + 1, num_elem := num_elem p + 1,
      elems := (elems p)(e \<mapsto> x)\<rparr>) t = Some (p, kfree (Some e) t)"
proof -
  have "(elems p)(e := None) = elems p" using assms(3) by auto
  then show ?thesis
    using assms(1,2,4)
    by (simp add: bxroce_drop_ref_def bxroce_elem_release_def bxroce_pool_put_def Let_def)
qed

lemma alloc_fresh_pd:
  "bxroce_alloc E z p s = (Some e, p1, s1) \<Longrightarrow>
   e = next_obj s \<and> trace s1 = Ekalloc e # trace s \<and> next_obj s1 = Suc e \<and>
   p1 = p\<lparr>pool_ref := pool_ref p + 1, num_elem := num_elem p + 1,
          elems := (elems p)(e \<mapsto> z\<lparr>ref_cnt := 1\<rparr>)\<rparr>"
  by (auto simp: bxroce_alloc_def kalloc_def bxroce_pool_put_def bxroce_pool_release_def Let_def
      split: if_splits prod.splits)

lemma alloc_ucontext_shape:
  assumes "bxroce_alloc_ucontext E v2p udata p s = Some (Inr u, p1, s1)"
  shows "\<exists>phy. p1 = p\<lparr>pool_ref := pool_ref p + 1, num_elem := num_elem p + 1,
      elems := (elems p)(next_obj s + 3 \<mapsto>
        zero_pd_obj\<lparr>ref_cnt := 1, pd_uctx := Some (next_obj s)\<rparr>)\<rparr> \<and>
    uctx_obj u = next_obj s \<and> ah_va u = next_obj s + 1 \<and> ctx_pd u = Some (next_obj s + 3) \<and>
    mm_head u = [\<lparr>mm_obj = next_obj s + 2, phy_addr = phy, mm_len = ah_len u\<rparr>] \<and>
    trace s1 = [Ecopy True, Ekalloc (next_obj s + 3), Eunlock Mm_list_lock, Elock Mm_list_lock,
      Ekalloc (next_obj s + 2), Edma_alloc (next_obj s + 1) ah_map_len, Ekalloc (next_obj s)] @ trace s"
  using assms
  by (auto simp: bxroce_alloc_ucontext_def kalloc_def dma_alloc_def bxroce_add_mmap_def
      bxroce_alloc_ucontext_pd_def alloc_pd_obj_def set_pd_uctx_def copy_user_def Let_def
      bind_eq_Some_conv split: if_splits prod.splits option.splits dest!: alloc_fresh_pd)
      (simp_all add: numeral_3_eq_3)

section \<open>Properties\<close>

text \<open>
  A process may map any physical page: \<open>bxroce_mmap\<close> accepts every page offset as long as
  the length of the mapping is that of some range the driver registered for the process,
  because the search skips an entry only when both its length and its address differ.
\<close>

theorem mmap_accepts_any_page:
  assumes "mm \<in> set (mm_head u)" and "vm_end v - vm_start v = mm_len mm"
    and "vm_start v AND 0xfff = 0"
  shows "fst (bxroce_mmap regaddr u (v\<lparr>vm_pgoff := pg\<rparr>) s) \<in>
    {Mmap_io pg (mm_len mm), Mmap_mem pg (mm_len mm)}"
  using assms find_entry_iff by (auto simp: bxroce_mmap_def bxroce_find_mmap_def Let_def)

definition one_range :: ucontext where
  "one_range = \<lparr>uctx_obj = 0, mm_head = [\<lparr>mm_obj = 2, phy_addr = 0x7000, mm_len = 0x2000\<rparr>],
     ctx_pd = None, pd_in_use = False, ah_va = 1, ah_pa = 0x7000, ah_len = 0x2000\<rparr>"

theorem mmap_accepts_any_page_witness:
  "fst (bxroce_mmap 0 one_range \<lparr>vm_start = 0x4000, vm_end = 0x6000, vm_pgoff = 0xabcde\<rparr> empty_kern)
     \<in> {Mmap_io 0xabcde 0x2000, Mmap_mem 0xabcde 0x2000}"
  using mmap_accepts_any_page [of "\<lparr>mm_obj = 2, phy_addr = 0x7000, mm_len = 0x2000\<rparr>" one_range
      "\<lparr>vm_start = 0x4000, vm_end = 0x6000, vm_pgoff = 0\<rparr>" 0 "0xabcde" empty_kern]
  by (simp add: one_range_def)

text \<open>
  \<open>bxroce_del_mmap\<close> frees the first entry that has the address or the length, and only that
  one: the entry meant when no earlier entry has its length or its address, and another
  entry, which is then still in use, when an earlier one has the same length.
\<close>

theorem del_mmap_first_match:
  assumes "mm_head u = ms @ m # ms'" and "mm_len m = len \<or> phy_addr m = phy"
    and "\<forall>x \<in> set ms. mm_len x \<noteq> len \<and> phy_addr x \<noteq> phy"
  shows "mm_head (fst (bxroce_del_mmap u phy len s)) = ms @ ms' \<and>
    live_objs (trace (snd (bxroce_del_mmap u phy len s))) = live_objs (trace s) - {mm_obj m} \<and>
    held l (trace (snd (bxroce_del_mmap u phy len s))) = held l (trace s)"
proof -
  have "del_first phy len (ms @ m # ms') t = (ms @ ms', kfree (Some (mm_obj m)) t)" for t
    using assms(2,3) by (intro del_first_split) (auto simp: mm_skip_def)
  then show ?thesis by (simp add: bxroce_del_mmap_def assms(1) Let_def)
qed

theorem del_mmap_first_match_witness:
  "mm_head (fst (bxroce_del_mmap (one_range\<lparr>mm_head := [\<lparr>mm_obj = 2, phy_addr = 0x7000, mm_len = 0x1000\<rparr>,
       \<lparr>mm_obj = 3, phy_addr = 0x9000, mm_len = 0x1000\<rparr>]\<rparr>) 0x9000 0x1000 empty_kern)) =
     [\<lparr>mm_obj = 3, phy_addr = 0x9000, mm_len = 0x1000\<rparr>]"
  using del_mmap_first_match [of "one_range\<lparr>mm_head := [\<lparr>mm_obj = 2, phy_addr = 0x7000, mm_len = 0x1000\<rparr>,
       \<lparr>mm_obj = 3, phy_addr = 0x9000, mm_len = 0x1000\<rparr>]\<rparr>" "[]"
      "\<lparr>mm_obj = 2, phy_addr = 0x7000, mm_len = 0x1000\<rparr>"
      "[\<lparr>mm_obj = 3, phy_addr = 0x9000, mm_len = 0x1000\<rparr>]" "0x1000" "0x9000"]
  by simp

text \<open>
  A context that was created can be destroyed, and that gives back everything: the pool of
  domains is what it was, the same objects are allocated and no lock is left held.
\<close>

theorem ucontext_create_destroy:
  assumes "bxroce_alloc_ucontext E v2p udata p s = Some (Inr u, p1, s1)"
    and "0 < pool_ref p" and "cleanup p = None"
    and "\<forall>e. next_obj s \<le> e \<longrightarrow> elems p e = None"
    and "\<forall>i \<in> live_objs (trace s). i < next_obj s"
  shows "\<exists>s2. bxroce_dealloc_ucontext u p1 s1 = Some (0, p, s2) \<and>
    live_objs (trace s2) = live_objs (trace s) \<and> held l (trace s2) = held l (trace s)"
proof -
  let ?c = "next_obj s"
  obtain phy where p1: "p1 = p\<lparr>pool_ref := pool_ref p + 1, num_elem := num_elem p + 1,
      elems := (elems p)(?c + 3 \<mapsto> zero_pd_obj\<lparr>ref_cnt := 1, pd_uctx := Some ?c\<rparr>)\<rparr>"
    and u: "uctx_obj u = ?c" "ah_va u = ?c + 1" "ctx_pd u = Some (?c + 3)"
      "mm_head u = [\<lparr>mm_obj = ?c + 2, phy_addr = phy, mm_len = ah_len u\<rparr>]"
    and t1: "trace s1 = [Ecopy True, Ekalloc (?c + 3), Eunlock Mm_list_lock, Elock Mm_list_lock,
      Ekalloc (?c + 2), Edma_alloc (?c + 1) ah_map_len, Ekalloc ?c] @ trace s"
    using alloc_ucontext_shape [OF assms(1)] by blast
  have "bxroce_drop_ref (?c + 3) p1 s1 = Some (p, kfree (Some (?c + 3)) s1)"
    unfolding p1 using assms(2-4) by (intro drop_last_same) simp_all
  then have "\<exists>s2. bxroce_dealloc_ucontext u p1 s1 = Some (0, p, s2) \<and>
      trace s2 = [Ekfree ?c, Edma_free (?c + 1), Eunlock Mm_list_lock, Ekfree (?c + 2),
        Elock Mm_list_lock, Ekfree (?c + 3)] @ trace s1"
    using u by (simp add: bxroce_dealloc_ucontext_def bxroce_dealloc_ucontext_pd_def
        dealloc_pd_obj_def bxroce_del_mmap_def mm_skip_def Let_def)
  moreover have "?c + k \<notin> live_objs (trace s)" for k using assms(5) by force
  from this [of 0] this [of 1] this [of 2] this [of 3]
  have "live_objs (trace s) - {?c + 3, ?c + 2, ?c + 1, ?c} = live_objs (trace s)" by auto
  ultimately show ?thesis by (auto simp: t1)
qed

definition empty_pds :: pd_pool where
  "empty_pds = (fresh_pool (bxroce_type_info (\<lambda>_. 64) (\<lambda>_. None) BXROCE_TYPE_PD) BXROCE_TYPE_PD 1024)
     \<lparr>state := BXROCE_POOL_STATE_VALID\<rparr>"

lemmas ucontext_run_defs = bxroce_alloc_ucontext_def kalloc_def dma_alloc_def bxroce_add_mmap_def
  bxroce_alloc_ucontext_pd_def alloc_pd_obj_def bxroce_alloc_def set_pd_uctx_def copy_user_def
  file_env_def empty_kern_def empty_pds_def fresh_pool_def bxroce_type_info_def

theorem ucontext_create_destroy_witness:
  "\<exists>u p1 s1 s2. bxroce_alloc_ucontext file_env (\<lambda>_. 0x5000) True empty_pds empty_kern =
      Some (Inr u, p1, s1) \<and> bxroce_dealloc_ucontext u p1 s1 = Some (0, empty_pds, s2) \<and>
    live_objs (trace s2) = {}"
proof -
  have "\<exists>u p1 s1. bxroce_alloc_ucontext file_env (\<lambda>_. 0x5000) True empty_pds empty_kern =
      Some (Inr u, p1, s1)"
    by (simp add: ucontext_run_defs Let_def)
  then obtain u p1 s1 where r: "bxroce_alloc_ucontext file_env (\<lambda>_. 0x5000) True empty_pds empty_kern =
      Some (Inr u, p1, s1)" by blast
  have "0 < pool_ref empty_pds" "cleanup empty_pds = None"
    "\<forall>e. next_obj empty_kern \<le> e \<longrightarrow> elems empty_pds e = None"
    "\<forall>i \<in> live_objs (trace empty_kern). i < next_obj empty_kern"
    by (simp_all add: empty_pds_def fresh_pool_def bxroce_type_info_def empty_kern_def)
  from ucontext_create_destroy [OF r this] r show ?thesis by (auto simp: empty_kern_def)
qed

text \<open>
  What goes wrong when a context is created: without a free domain the driver writes
  through a null pointer, and when the response cannot be copied out the domain stays
  allocated although the context is freed.
\<close>

theorem ucontext_create_faults:
  "(bxroce_alloc_ucontext_pd E u p s = None \<longleftrightarrow> fst (alloc_pd_obj E p s) = None) \<and>
   (bxroce_alloc_ucontext E v2p True p s = Some (Inl (- EFAULT), p1, s1) \<longrightarrow>
      (\<exists>e. e = next_obj s + 3 \<and> elems p1 = (elems p)(e \<mapsto>
         zero_pd_obj\<lparr>ref_cnt := 1, pd_uctx := Some (next_obj s)\<rparr>) \<and>
       num_elem p1 = num_elem p + 1 \<and> Ekfree (next_obj s) \<in> set (trace s1)))"
proof -
  obtain r q t where al: "bxroce_alloc E zero_pd_obj p s = (r, q, t)" by (metis prod_cases3)
  have "bxroce_alloc_ucontext_pd E u p s = None \<longleftrightarrow> r = None"
    using al by (cases r)
      (auto simp: bxroce_alloc_ucontext_pd_def alloc_pd_obj_def set_pd_uctx_def dest: alloc_fresh_pd)
  moreover have "\<exists>e. e = next_obj s + 3 \<and> elems p1 = (elems p)(e \<mapsto>
         zero_pd_obj\<lparr>ref_cnt := 1, pd_uctx := Some (next_obj s)\<rparr>) \<and>
       num_elem p1 = num_elem p + 1 \<and> Ekfree (next_obj s) \<in> set (trace s1)"
    if "bxroce_alloc_ucontext E v2p True p s = Some (Inl (- EFAULT), p1, s1)"
    using that
    by (auto simp: bxroce_alloc_ucontext_def kalloc_def dma_alloc_def bxroce_add_mmap_def
        bxroce_alloc_ucontext_pd_def alloc_pd_obj_def set_pd_uctx_def copy_user_def Let_def
        bind_eq_Some_conv split: if_splits prod.splits option.splits dest!: alloc_fresh_pd)
  ultimately show ?thesis using al by (simp add: alloc_pd_obj_def)
qed

theorem ucontext_create_faults_witness:
  "\<exists>p1 s1. bxroce_alloc_ucontext (file_env\<lparr>copy_ok := \<lambda>_. False\<rparr>) (\<lambda>_. 0x5000) True empty_pds empty_kern =
      Some (Inl (- EFAULT), p1, s1) \<and> num_elem p1 = 1"
proof -
  have "\<exists>p1 s1. bxroce_alloc_ucontext (file_env\<lparr>copy_ok := \<lambda>_. False\<rparr>) (\<lambda>_. 0x5000) True empty_pds
      empty_kern = Some (Inl (- EFAULT), p1, s1)"
    by (simp add: ucontext_run_defs Let_def bxroce_del_mmap_def mm_skip_def)
  then obtain p1 s1 where r: "bxroce_alloc_ucontext (file_env\<lparr>copy_ok := \<lambda>_. False\<rparr>) (\<lambda>_. 0x5000) True
      empty_pds empty_kern = Some (Inl (- EFAULT), p1, s1)" by blast
  with ucontext_create_faults [of _ one_range empty_pds empty_kern "\<lambda>_. 0x5000" p1 s1]
  have "num_elem p1 = num_elem empty_pds + 1" by blast
  then show ?thesis using r by (auto simp: empty_pds_def fresh_pool_def)
qed

text \<open>
  The domain that comes with a context is lent to one user at a time: the first
  \<open>bxroce_alloc_pd\<close> gets it, the next one gets a fresh domain, and \<open>bxroce_dealloc_pd\<close> of it
  only gives it back to the context, which then lends it again; the object stays allocated.
\<close>

theorem context_domain_lent_once:
  assumes "ctx_pd u = Some e" and "\<not> pd_in_use u" and "elems p e = Some x" and "e < next_obj s"
  shows "\<exists>u1 p1 s1. bxroce_alloc_pd E (Some u) p s = Some (Inr e, Some u1, p1, s1) \<and> pd_in_use u1 \<and>
    (\<forall>r u2 p2 s2. bxroce_alloc_pd E (Some u1) p1 s1 = Some (Inr r, u2, p2, s2) \<longrightarrow> r \<noteq> e) \<and>
    (\<exists>s3. bxroce_dealloc_pd e [uctx_obj u \<mapsto> u1] p1 s1 = Some (0, [uctx_obj u \<mapsto> u], p1, s3) \<and>
       (\<exists>u4 p4 s4. bxroce_alloc_pd E (Some u) p1 s3 = Some (Inr e, u4, p4, s4)))"
proof -
  define p1 where "p1 = p\<lparr>elems := (elems p)(e \<mapsto> x\<lparr>pd_uctx := Some (uctx_obj u)\<rparr>)\<rparr>"
  define u1 where "u1 = u\<lparr>pd_in_use := True\<rparr>"
  define s1 where "s1 = mutex_unlock Mm_list_lock (mutex_lock Mm_list_lock s)"
  have lend: "bxroce_alloc_pd E (Some u) q t =
      Some (Inr e, Some u1, q\<lparr>elems := (elems q)(e \<mapsto> y\<lparr>pd_uctx := Some (uctx_obj u)\<rparr>)\<rparr>,
        mutex_unlock Mm_list_lock (mutex_lock Mm_list_lock t))"
    if "elems q e = Some y" for q t y
    using that assms(1,2)
    by (simp add: bxroce_alloc_pd_def bxroce_get_ucontext_pd_def set_pd_uctx_def u1_def Let_def)
  have first: "bxroce_alloc_pd E (Some u) p s = Some (Inr e, Some u1, p1, s1)"
    using lend [OF assms(3), of s] by (simp add: p1_def s1_def)
  have second: "r \<noteq> e" if r: "bxroce_alloc_pd E (Some u1) p1 s1 = Some (Inr r, u2, p2, s2)"
    for r u2 p2 s2
  proof -
    let ?t = "mutex_unlock Mm_list_lock (mutex_lock Mm_list_lock s1)"
    obtain a q t where al: "bxroce_alloc E zero_pd_obj p1 ?t = (a, q, t)" by (metis prod_cases3)
    have "a = Some r"
      using r al by (cases a) (auto simp: bxroce_alloc_pd_def bxroce_get_ucontext_pd_def u1_def
          alloc_pd_obj_def bind_eq_Some_conv Let_def set_pd_uctx_def split: option.splits)
    then have "r = next_obj ?t" using al alloc_fresh_pd by blast
    then show ?thesis using assms(4) by (simp add: s1_def)
  qed
  have u: "u1\<lparr>pd_in_use := False\<rparr> = u" using assms(2) by (simp add: u1_def)
  have e1: "elems p1 e = Some (x\<lparr>pd_uctx := Some (uctx_obj u)\<rparr>)" by (simp add: p1_def)
  have given: "\<exists>s3. bxroce_dealloc_pd e [uctx_obj u \<mapsto> u1] p1 s1 = Some (0, [uctx_obj u \<mapsto> u], p1, s3)"
    using e1 assms(1) u
    by (simp add: bxroce_dealloc_pd_def is_ucontext_pd_def bxroce_release_ucontext_pd_def Let_def u1_def)
  show ?thesis
    using first second given lend [OF e1] by (auto simp: u1_def)
qed

theorem context_domain_lent_once_witness:
  "\<exists>u1 p1 s1. bxroce_alloc_pd file_env (Some (one_range\<lparr>ctx_pd := Some 3\<rparr>))
      (empty_pds\<lparr>elems := [3 \<mapsto> zero_pd_obj]\<rparr>) (empty_kern\<lparr>next_obj := 4\<rparr>) =
      Some (Inr 3, Some u1, p1, s1) \<and> pd_in_use u1"
  using context_domain_lent_once [of "one_range\<lparr>ctx_pd := Some 3\<rparr>" 3
      "empty_pds\<lparr>elems := [3 \<mapsto> zero_pd_obj]\<rparr>" zero_pd_obj "empty_kern\<lparr>next_obj := 4\<rparr>" file_env]
  by (auto simp: one_range_def)

end
