(* ===== verification/Regs.thy ===== *)
theory Regs
  imports Mpb
begin

text \<open>
  The offsets of the PGU registers (bxroce_mpb_reg.h), and runs of writes to them. The driver
  passes \<open>PGU_BASE\<close>, which is 0, as the module address of every one of these accesses.
\<close>

abbreviation (input) PGU_BASE :: u32 where "PGU_BASE \<equiv> 0x0"
abbreviation (input) GENRSP :: u32 where "GENRSP \<equiv> 0x2000"
abbreviation (input) CFGRNR :: u32 where "CFGRNR \<equiv> 0x2004"
abbreviation (input) CFGSIZEOFWRENTRY :: u32 where "CFGSIZEOFWRENTRY \<equiv> 0x2008"
abbreviation (input) UPLINKDOWNLINK :: u32 where "UPLINKDOWNLINK \<equiv> 0x2010"
abbreviation (input) WQERETRYCOUNT :: u32 where "WQERETRYCOUNT \<equiv> 0x2014"
abbreviation (input) WQERETRYTIMER :: u32 where "WQERETRYTIMER \<equiv> 0x2018"
abbreviation (input) INTRMASK :: u32 where "INTRMASK \<equiv> 0x2020"
abbreviation (input) TLBINIT :: u32 where "TLBINIT \<equiv> 0x202c"
abbreviation (input) SOCKETID :: u32 where "SOCKETID \<equiv> 0x2030"
abbreviation (input) SRCQP :: u32 where "SRCQP \<equiv> 0x2034"
abbreviation (input) DESTQP :: u32 where "DESTQP \<equiv> 0x2038"
abbreviation (input) RC_QPMAPPING :: u32 where "RC_QPMAPPING \<equiv> 0x203c"
abbreviation (input) CQQUEUEUP :: u32 where "CQQUEUEUP \<equiv> 0x0"
abbreviation (input) CQQUEUEDOWN :: u32 where "CQQUEUEDOWN \<equiv> 0x8"
abbreviation (input) CQREADPTR :: u32 where "CQREADPTR \<equiv> 0x10"
abbreviation (input) CQESIZE :: u32 where "CQESIZE \<equiv> 0x18"
abbreviation (input) CQWRITEPTR :: u32 where "CQWRITEPTR \<equiv> 0x1c"
abbreviation (input) RxUpAddrCQE :: u32 where "RxUpAddrCQE \<equiv> 0x28"
abbreviation (input) RxBaseAddrCQE :: u32 where "RxBaseAddrCQE \<equiv> 0x30"
abbreviation (input) RxCQEWP :: u32 where "RxCQEWP \<equiv> 0x38"
abbreviation (input) RxCQEOp :: u32 where "RxCQEOp \<equiv> 0x40"
abbreviation (input) RxCQWPT :: u32 where "RxCQWPT \<equiv> 0x44"
abbreviation (input) XmitUpAddrCQE :: u32 where "XmitUpAddrCQE \<equiv> 0x50"
abbreviation (input) XmitBaseAddrCQE :: u32 where "XmitBaseAddrCQE \<equiv> 0x58"
abbreviation (input) XmitCQEWP :: u32 where "XmitCQEWP \<equiv> 0x60"
abbreviation (input) XmitCQEOp :: u32 where "XmitCQEOp \<equiv> 0x68"
abbreviation (input) XmitCQWPT :: u32 where "XmitCQWPT \<equiv> 0x6c"
abbreviation (input) RCVQ_INF :: u32 where "RCVQ_INF \<equiv> 0x2040"
abbreviation (input) RCVQ_DI :: u32 where "RCVQ_DI \<equiv> 0x2044"
abbreviation (input) RCVQ_WRRD :: u32 where "RCVQ_WRRD \<equiv> 0x2050"
abbreviation (input) QPLISTREADQPN :: u32 where "QPLISTREADQPN \<equiv> 0x4000"
abbreviation (input) WRITEORREADQPLIST :: u32 where "WRITEORREADQPLIST \<equiv> 0x4004"
abbreviation (input) WPFORQPLIST :: u32 where "WPFORQPLIST \<equiv> 0x4008"
abbreviation (input) WPFORQPLIST2 :: u32 where "WPFORQPLIST2 \<equiv> 0x400c"
abbreviation (input) RPFORQPLIST :: u32 where "RPFORQPLIST \<equiv> 0x4010"
abbreviation (input) RPFORQPLIST2 :: u32 where "RPFORQPLIST2 \<equiv> 0x4014"
abbreviation (input) QPNANDVALID :: u32 where "QPNANDVALID \<equiv> 0x4018"
abbreviation (input) QPNANDVALID2 :: u32 where "QPNANDVALID2 \<equiv> 0x401c"
abbreviation (input) QPLISTWRITEQPN :: u32 where "QPLISTWRITEQPN \<equiv> 0x4020"
abbreviation (input) READQPLISTDATA :: u32 where "READQPLISTDATA \<equiv> 0x4024"
abbreviation (input) READQPLISTDATA2 :: u32 where "READQPLISTDATA2 \<equiv> 0x4028"
abbreviation (input) READQPLISTDATA3 :: u32 where "READQPLISTDATA3 \<equiv> 0x402c"
abbreviation (input) READQPLISTDATA4 :: u32 where "READQPLISTDATA4 \<equiv> 0x4030"
abbreviation (input) WRITEQPLISTMASK :: u32 where "WRITEQPLISTMASK \<equiv> 0x403c"
abbreviation (input) STARTINITPSN :: u32 where "STARTINITPSN \<equiv> 0x8000"
abbreviation (input) INITQP :: u32 where "INITQP \<equiv> 0x8010"
abbreviation (input) INITQPTABLE :: u32 where "INITQPTABLE \<equiv> 0x8014"

definition pgu_write :: "u32 \<Rightarrow> u32 \<Rightarrow> kern \<Rightarrow> kern" where
  "pgu_write off v = bxroce_mpb_reg_write PGU_BASE off v"

definition pgu_read :: "env \<Rightarrow> u32 \<Rightarrow> kern \<Rightarrow> u32 \<times> kern" where
  "pgu_read E off = bxroce_mpb_reg_read E PGU_BASE off"

text \<open>Writes one after the other.\<close>

fun pgu_writes :: "(u32 \<times> u32) list \<Rightarrow> kern \<Rightarrow> kern" where
  "pgu_writes [] s = s"
| "pgu_writes ((off, v) # ws) s = pgu_writes ws (pgu_write off v s)"

lemma trace_pgu_write [simp, trace_simps]:
  "trace (pgu_write off v s) = Ewrite Pcie_bar 0x100 v # Ewrite Pcie_bar 0 off # trace s"
  by (simp add: pgu_write_def)

lemma trace_pgu_read [simp, trace_simps]:
  "trace (snd (pgu_read E off s)) =
     Eread Pcie_bar 0x100 (fst (pgu_read E off s)) # Ewrite Pcie_bar 0 off # trace s"
  by (simp add: pgu_read_def)

lemma next_obj_pgu [simp]:
  "next_obj (pgu_write off v s) = next_obj s" "next_obj (snd (pgu_read E off s)) = next_obj s"
  by (simp_all add: pgu_write_def pgu_read_def)

lemma next_obj_pgu_writes [simp]: "next_obj (pgu_writes ws s) = next_obj s"
  by (induction ws s rule: pgu_writes.induct) auto

text \<open>A history to which only register accesses were added.\<close>

fun io_event :: "event \<Rightarrow> bool" where
  "io_event (Ewrite r a v) = True"
| "io_event (Eread r a v) = True"
| "io_event _ = False"

definition io_only :: "kern \<Rightarrow> kern \<Rightarrow> bool" where
  "io_only s s' \<longleftrightarrow> (\<exists>es. trace s' = es @ trace s \<and> (\<forall>e \<in> set es. io_event e)) \<and> next_obj s' = next_obj s"

lemma io_only_refl [simp]: "io_only s s"
  by (simp add: io_only_def)

lemma io_only_trans: "io_only s t \<Longrightarrow> io_only t u \<Longrightarrow> io_only s u"
  unfolding io_only_def by (metis Un_iff append_assoc set_append)

lemma io_only_write [simp]: "io_only s (pgu_write off v s)"
  by (auto simp: io_only_def intro: exI [of _ "[Ewrite Pcie_bar 0x100 v, Ewrite Pcie_bar 0 off]"])

lemma io_only_read [simp]: "io_only s (snd (pgu_read E off s))"
  by (auto simp: io_only_def
      intro: exI [of _ "[Eread Pcie_bar 0x100 (fst (pgu_read E off s)), Ewrite Pcie_bar 0 off]"])

lemma io_only_writes [simp]: "io_only s (pgu_writes ws s)"
  by (induction ws s rule: pgu_writes.induct) (auto intro: io_only_trans [OF io_only_write])

lemma io_events_held: "\<forall>e \<in> set es. io_event e \<Longrightarrow> held l (es @ t) = held l t"
proof (induction es)
  case (Cons e es)
  then show ?case by (cases e) auto
qed simp

lemma io_events_live: "\<forall>e \<in> set es. io_event e \<Longrightarrow> live_objs (es @ t) = live_objs t"
proof (induction es)
  case (Cons e es)
  then show ?case by (cases e) auto
qed simp

lemma io_only_held: "io_only s s' \<Longrightarrow> held l (trace s') = held l (trace s)"
  by (auto simp: io_only_def io_events_held)

lemma io_only_live: "io_only s s' \<Longrightarrow> live_objs (trace s') = live_objs (trace s)"
  by (auto simp: io_only_def io_events_live)

end
