(* ===== verification/Wqe.thy ===== *)
theory Wqe
  imports Regs "HOL-Library.Monad_Syntax"
begin

text \<open>
  Work queue entries (bxroce_verbs.c, bxroce_verbs.h): the queue pair's data, the bit packing
  of a send queue entry, and the building of the entries of a work request. A send or receive
  queue is the list of the entries in its buffer; None is an access outside a buffer.
\<close>

section \<open>Types\<close>

datatype ib_qp_type = IB_QPT_RC | IB_QPT_UC | IB_QPT_UD | IB_QPT_GSI | IB_QPT_RESERVED2
  | IB_QPT_OTHER

datatype wr_opcode = IB_WR_SEND | IB_WR_SEND_WITH_IMM | IB_WR_SEND_WITH_INV | IB_WR_RDMA_WRITE
  | IB_WR_RDMA_WRITE_WITH_IMM | IB_WR_RDMA_READ | IB_WR_LOCAL_INV | IB_WR_REG_MR | IB_WR_OTHER

datatype qp_foe = BXROCE_Q_FULL | BXROCE_Q_EMPTY | BXROCE_Q_FREE

datatype qp_state = BXROCE_QPS_RST | BXROCE_QPS_INIT | BXROCE_QPS_RTR | BXROCE_QPS_RTS
  | BXROCE_QPS_SQE | BXROCE_QPS_SQ_DRAINING | BXROCE_QPS_ERR | BXROCE_QPS_SQD

record wqe =
  immdt :: u32
  wqe_pkey :: u16
  wqe_rkey :: u32
  wqe_lkey :: u32
  wqe_qkey :: u32
  dmalen :: u32
  destaddr :: u64
  localaddr :: u64
  eecntx :: u16
  wqe_destqp :: u16
  destsocket1 :: u32
  destsocket2 :: u8
  wqe_opcode :: u8
  llpinfo_lo :: u64
  llpinfo_hi :: u64

record rqe =
  descbaseaddr :: u64
  rqe_dmalen :: u32
  rqe_opcode :: u32

record hwq =
  q_pa :: u64
  max_sges :: u32
  head :: u32
  tail :: u32
  entry_size :: u32
  max_cnt :: u32
  max_wqe_idx :: u32
  q_len :: u32
  foe :: qp_foe

text \<open>\<open>sq_mem\<close> and \<open>rq_mem\<close> are the entries at \<open>sq.va\<close> and \<open>rq.va\<close>.\<close>

record qp =
  qp_id :: u32
  qp_len :: u32
  sq :: hwq
  rq :: hwq
  sq_mem :: "wqe list"
  rq_mem :: "rqe list"
  wr_id_tbl :: "(u64 \<times> u8) list"     \<comment> \<open>\<open>wqe_wr_id_tbl\<close>: \<open>wrid\<close>, \<open>signaled\<close>\<close>
  rqe_wr_id_tbl :: "u64 list"
  qp_type :: ib_qp_type
  qp_state :: qp_state
  qkey :: u32
  init_sqpsn :: u32
  init_rqpsn :: u32
  signaled :: bool
  destqp :: u32
  pkey_index :: u32
  sgid_idx :: int
  mac_addr :: "u8 list"
  qp_dgid :: "u8 list"
  qp_sgid :: "u8 list"
  overhead :: bool

record sge =
  sge_addr :: u64
  sge_length :: u32
  sge_lkey :: u32

record send_wr =
  wr_id :: u64
  sg_list :: "sge list"
  wr_op :: wr_opcode
  send_signaled :: bool
  send_inline :: bool
  imm_data :: u32
  invalidate_rkey :: u32
  remote_qpn :: u32
  remote_qkey :: u32
  wr_rkey :: u32
  remote_addr :: u64

record recv_wr =
  rwr_id :: u64
  rsg_list :: "sge list"

definition zero_wqe :: wqe where
  "zero_wqe = \<lparr>immdt = 0, wqe_pkey = 0, wqe_rkey = 0, wqe_lkey = 0, wqe_qkey = 0, dmalen = 0,
     destaddr = 0, localaddr = 0, eecntx = 0, wqe_destqp = 0, destsocket1 = 0, destsocket2 = 0,
     wqe_opcode = 0, llpinfo_lo = 0, llpinfo_hi = 0\<rparr>"

abbreviation (input) UD :: u8 where "UD \<equiv> 6"
abbreviation (input) UC :: u8 where "UC \<equiv> 2"
abbreviation (input) RC :: u8 where "RC \<equiv> 0"
abbreviation (input) RD :: u8 where "RD \<equiv> 4"
abbreviation (input) SEND :: u8 where "SEND \<equiv> 4"
abbreviation (input) SEND_WITH_IMM :: u8 where "SEND_WITH_IMM \<equiv> 5"
abbreviation (input) SEND_WITH_INV :: u8 where "SEND_WITH_INV \<equiv> 6"
abbreviation (input) RDMA_WRITE :: u8 where "RDMA_WRITE \<equiv> 8"
abbreviation (input) WRITE_WITH_IMM :: u8 where "WRITE_WITH_IMM \<equiv> 9"
abbreviation (input) RDMA_READ :: u8 where "RDMA_READ \<equiv> 0"

section \<open>Packing\<close>

text \<open>The locals \<open>tmpwqe.destqp\<close>, \<open>tmpwqe.destsocket1\<close> and \<open>tmpwqe.destsocket2\<close>.\<close>

definition dmac_destqp :: "u8 list \<Rightarrow> u16" where
  "dmac_destqp mac = push_bit 4 (push_bit 8 (ucast (mac ! 1)) + ucast (mac ! 0))"

definition dmac_socket1 :: "u8 list \<Rightarrow> u32" where
  "dmac_socket1 mac =
     (let v = ucast (mac ! 5); v = push_bit 8 v + ucast (mac ! 4); v = push_bit 8 v + ucast (mac ! 3);
          v = push_bit 8 v + ucast (mac ! 2); v = push_bit 4 v
      in v + ucast (drop_bit 4 (mac ! 1)))"

definition bxroce_set_wqe_dmac :: "qp \<Rightarrow> wqe \<Rightarrow> wqe" where
  "bxroce_set_wqe_dmac q w =
     (let mac = mac_addr q
      in w\<lparr>wqe_destqp := (wqe_destqp w AND 0x000f) + dmac_destqp mac,
           destsocket1 := dmac_socket1 mac,
           destsocket2 := (destsocket2 w AND 0xf0) + drop_bit 4 (mac ! 5)\<rparr>)"

definition bxroce_set_wqe_opcode :: "wqe \<Rightarrow> u8 \<Rightarrow> u8 \<Rightarrow> wqe" where
  "bxroce_set_wqe_opcode w qpt opcode =
     (let opcode_l = push_bit 4 opcode; opcode_h = qpt;
          w = (if drop_bit 4 (destsocket2 w) \<noteq> 0
               then w\<lparr>destsocket2 := destsocket2 w AND 0x0f\<rparr> else w);
          w = w\<lparr>destsocket2 := destsocket2 w + opcode_l\<rparr>;
          w = (if wqe_opcode w \<noteq> 0 then w\<lparr>wqe_opcode := destsocket2 w AND 0xf0\<rparr> else w);
          w = w\<lparr>wqe_opcode := wqe_opcode w + opcode_h\<rparr>
      in w\<lparr>wqe_opcode := wqe_opcode w + 0x10\<rparr>)"

text \<open>The queue pair number of \<open>bxroce_set_rcwqe_destqp\<close> and \<open>bxroce_set_wqe_destqp\<close>.\<close>

definition set_destqp_bits :: "u16 \<Rightarrow> wqe \<Rightarrow> wqe" where
  "set_destqp_bits tempqpn w =
     (let tempqpn_l = push_bit 10 (tempqpn AND 0x003f); tempqpn_h = drop_bit 6 (tempqpn AND 0x03c0);
          w = (if drop_bit 10 (eecntx w) \<noteq> 0 then w\<lparr>eecntx := eecntx w AND 0x03ff\<rparr> else w);
          w = w\<lparr>eecntx := eecntx w + tempqpn_l\<rparr>;
          w = (if wqe_destqp w \<noteq> 0 then w\<lparr>wqe_destqp := wqe_destqp w AND 0xfff0\<rparr> else w)
      in w\<lparr>wqe_destqp := wqe_destqp w + tempqpn_h\<rparr>)"

definition bxroce_set_rcwqe_destqp :: "qp \<Rightarrow> wqe \<Rightarrow> wqe" where
  "bxroce_set_rcwqe_destqp q w = set_destqp_bits (ucast (destqp q)) w"

definition bxroce_set_wqe_destqp :: "wqe \<Rightarrow> send_wr \<Rightarrow> wqe" where
  "bxroce_set_wqe_destqp w wr = set_destqp_bits (ucast (remote_qpn wr)) w"

definition hw_qp_type :: "ib_qp_type \<Rightarrow> u8 option" where
  "hw_qp_type t = (case t of IB_QPT_UD \<Rightarrow> Some UD | IB_QPT_UC \<Rightarrow> Some UC
     | IB_QPT_RESERVED2 \<Rightarrow> Some RD | IB_QPT_RC \<Rightarrow> Some RC | _ \<Rightarrow> None)"

definition hw_opcode :: "wr_opcode \<Rightarrow> u8 option" where
  "hw_opcode oc = (case oc of IB_WR_SEND \<Rightarrow> Some SEND | IB_WR_SEND_WITH_IMM \<Rightarrow> Some SEND_WITH_IMM
     | IB_WR_SEND_WITH_INV \<Rightarrow> Some SEND_WITH_INV | IB_WR_RDMA_WRITE \<Rightarrow> Some RDMA_WRITE
     | IB_WR_RDMA_WRITE_WITH_IMM \<Rightarrow> Some WRITE_WITH_IMM | IB_WR_RDMA_READ \<Rightarrow> Some RDMA_READ
     | _ \<Rightarrow> None)"

definition bxroce_build_wqe_opcode :: "qp \<Rightarrow> wqe \<Rightarrow> send_wr \<Rightarrow> int \<times> wqe" where
  "bxroce_build_wqe_opcode q w wr =
     (case (hw_qp_type (qp_type q), hw_opcode (wr_op wr)) of
        (Some t, Some oc) \<Rightarrow>
          if t = UD \<and> oc AND (SEND OR SEND_WITH_IMM) = 0 then (- EINVAL, w)
          else if t = UC \<and> oc AND (SEND OR SEND_WITH_IMM OR RDMA_WRITE OR WRITE_WITH_IMM) = 0
          then (- EINVAL, w)
          else if t = RD \<and> oc AND SEND_WITH_INV \<noteq> 0 then (- EINVAL, w)
          else (0, bxroce_set_wqe_opcode w t oc)
      | _ \<Rightarrow> (- EINVAL, w))"

text \<open>\<open>memcpy(&tmpwqe->llpinfo_lo, &qp->dgid[0], 4)\<close> into a zeroed 64-bit field.\<close>

definition llpinfo_of :: "u8 list \<Rightarrow> u64" where
  "llpinfo_of g = ucast (g ! 0) OR push_bit 8 (ucast (g ! 1)) OR push_bit 16 (ucast (g ! 2)) OR
     push_bit 24 (ucast (g ! 3))"

text \<open>The end of both \<open>prepare\<close> functions: the table entry of the request.\<close>

definition note_wr_id :: "qp \<Rightarrow> send_wr \<Rightarrow> qp option" where
  "note_wr_id q wr =
     (let h = unat (head (sq q))
      in if h < length (wr_id_tbl q)
         then Some (q\<lparr>wr_id_tbl := (wr_id_tbl q)[h :=
                (wr_id wr, if send_signaled wr \<or> signaled q then 1 else 0)]\<rparr>)
         else None)"

definition bxroce_prepare_send_wqe :: "qp \<Rightarrow> wqe \<Rightarrow> send_wr \<Rightarrow> (int \<times> qp \<times> wqe) option" where
  "bxroce_prepare_send_wqe q w wr =
     (let w = (if qp_type q = IB_QPT_UD \<or> qp_type q = IB_QPT_GSI
               then let w = bxroce_set_wqe_destqp w wr
                    in w\<lparr>wqe_qkey := if qp_type q = IB_QPT_GSI then qkey q else remote_qkey wr\<rparr>
               else w\<lparr>wqe_qkey := qkey q\<rparr>);
          (status, w) = bxroce_build_wqe_opcode q w wr
      in if status \<noteq> 0 then Some (status, q, w)
         else
           let w = (if destqp q \<noteq> 0 then bxroce_set_rcwqe_destqp q w else w);
               w = bxroce_set_wqe_dmac q w;
               w = w\<lparr>wqe_pkey := ucast (pkey_index q), llpinfo_lo := llpinfo_of (qp_dgid q),
                     llpinfo_hi := 0\<rparr>
           in map_option (\<lambda>q. (status, q, w)) (note_wr_id q wr))"

definition bxroce_prepare_write_wqe :: "qp \<Rightarrow> wqe \<Rightarrow> send_wr \<Rightarrow> (int \<times> qp \<times> wqe) option" where
  "bxroce_prepare_write_wqe q w wr =
     (let (status, w) = bxroce_build_wqe_opcode q w wr
      in if status \<noteq> 0 then Some (- EINVAL, q, w)
         else
           let w = (if destqp q \<noteq> 0 then bxroce_set_rcwqe_destqp q w else w);
               w = bxroce_set_wqe_dmac q w;
               w = w\<lparr>wqe_rkey := wr_rkey wr, destaddr := remote_addr wr, wqe_qkey := qkey q,
                     wqe_pkey := ucast (pkey_index q), llpinfo_lo := llpinfo_of (qp_dgid q),
                     llpinfo_hi := 0\<rparr>
           in map_option (\<lambda>q. (status, q, w)) (note_wr_id q wr))"

section \<open>The entries of a work request\<close>

text \<open>
  \<open>(qp->sq.head + 1) == qp->sq.max_cnt\<close> sets \<open>overhead\<close>; the head moves modulo \<open>max_cnt\<close>.
\<close>

definition advance_sq_head :: "qp \<Rightarrow> qp option" where
  "advance_sq_head q =
     (if max_cnt (sq q) = 0 then None
      else Some (q\<lparr>overhead := overhead q \<or> head (sq q) + 1 = max_cnt (sq q),
                   sq := (sq q)\<lparr>head := (head (sq q) + 1) mod max_cnt (sq q)\<rparr>\<rparr>))"

definition put_wqe :: "nat \<Rightarrow> wqe \<Rightarrow> qp \<Rightarrow> qp option" where
  "put_wqe i w q =
     (if i < length (sq_mem q) then Some (q\<lparr>sq_mem := (sq_mem q)[i := w]\<rparr>) else None)"

text \<open>
  The loop of \<open>bxroce_build_sges\<close> and \<open>bxroce_buildwrite_sges\<close>, which differ in the function
  that prepares an entry; \<open>i\<close> is the entry \<open>tmpwqe\<close> points to.
\<close>

fun sges_loop :: "(qp \<Rightarrow> wqe \<Rightarrow> send_wr \<Rightarrow> (int \<times> qp \<times> wqe) option) \<Rightarrow> send_wr \<Rightarrow> sge list \<Rightarrow> nat \<Rightarrow>
    qp \<Rightarrow> (int \<times> nat \<times> qp) option" where
  "sges_loop prepare wr [] i q = Some (0, i, q)"
| "sges_loop prepare wr (g # gs) i q = do {
     q \<leftarrow> put_wqe i zero_wqe q;
     (status, q, w) \<leftarrow> prepare q zero_wqe wr;
     if status \<noteq> 0 then do { q \<leftarrow> put_wqe i w q; Some (status, i, q) }
     else do {
       q \<leftarrow> put_wqe i (w\<lparr>wqe_lkey := sge_lkey g, localaddr := sge_addr g, dmalen := sge_length g\<rparr>) q;
       q \<leftarrow> advance_sq_head q;
       sges_loop prepare wr gs (unat (head (sq q))) q
     }
   }"

definition build_entries :: "(qp \<Rightarrow> wqe \<Rightarrow> send_wr \<Rightarrow> (int \<times> qp \<times> wqe) option) \<Rightarrow> wr_opcode \<Rightarrow>
    nat \<Rightarrow> send_wr \<Rightarrow> qp \<Rightarrow> (int \<times> qp) option" where
  "build_entries prepare imm_op i wr q = do {
     (status, i, q) \<leftarrow> sges_loop prepare wr (sg_list wr) i q;
     if status = 0 \<and> sg_list wr = [] \<and> wr_op wr = imm_op
     then if i < length (sq_mem q)
          then do {
            (status, q, w) \<leftarrow> prepare q (sq_mem q ! i) wr;
            q \<leftarrow> put_wqe i w q;
            q \<leftarrow> advance_sq_head q;
            Some (status, q)
          }
          else None
     else Some (status, q)
   }"

definition bxroce_build_sges :: "nat \<Rightarrow> send_wr \<Rightarrow> qp \<Rightarrow> (int \<times> qp) option" where
  "bxroce_build_sges = build_entries bxroce_prepare_send_wqe IB_WR_SEND_WITH_IMM"

definition bxroce_buildwrite_sges :: "nat \<Rightarrow> send_wr \<Rightarrow> qp \<Rightarrow> (int \<times> qp) option" where
  "bxroce_buildwrite_sges = build_entries bxroce_prepare_write_wqe IB_WR_RDMA_WRITE_WITH_IMM"

definition bxroce_sglist_len :: "sge list \<Rightarrow> u32" where
  "bxroce_sglist_len gs = sum_list (map sge_length gs)"

text \<open>Inline data is refused, after the length is stored in the entry.\<close>

definition refuse_inline :: "nat \<Rightarrow> send_wr \<Rightarrow> qp \<Rightarrow> (int \<times> qp) option" where
  "refuse_inline i wr q =
     (if i < length (sq_mem q)
      then map_option (\<lambda>q. (- EINVAL, q))
             (put_wqe i ((sq_mem q ! i)\<lparr>dmalen := bxroce_sglist_len (sg_list wr)\<rparr>) q)
      else None)"

text \<open>The status of \<open>bxroce_build_sges\<close> is dropped.\<close>

definition bxroce_build_inline_sges :: "nat \<Rightarrow> send_wr \<Rightarrow> qp \<Rightarrow> (int \<times> qp) option" where
  "bxroce_build_inline_sges i wr q =
     (if send_inline wr \<and> qp_type q \<noteq> IB_QPT_UD then refuse_inline i wr q
      else map_option (\<lambda>(status, q). (0, q)) (bxroce_build_sges i wr q))"

definition bxroce_buildwrite_inline_sges :: "nat \<Rightarrow> send_wr \<Rightarrow> qp \<Rightarrow> (int \<times> qp) option" where
  "bxroce_buildwrite_inline_sges i wr q =
     (if send_inline wr \<and> qp_type q \<noteq> IB_QPT_UD then refuse_inline i wr q
      else bxroce_buildwrite_sges i wr q)"

definition bxroce_build_send :: "nat \<Rightarrow> send_wr \<Rightarrow> qp \<Rightarrow> (int \<times> qp) option" where
  "bxroce_build_send i wr q = bxroce_build_inline_sges i wr q"

definition bxroce_build_write :: "nat \<Rightarrow> send_wr \<Rightarrow> qp \<Rightarrow> (int \<times> qp) option" where
  "bxroce_build_write i wr q = bxroce_buildwrite_inline_sges i wr q"

definition bxroce_build_read :: "nat \<Rightarrow> send_wr \<Rightarrow> qp \<Rightarrow> qp option" where
  "bxroce_build_read i wr q = map_option snd (bxroce_buildwrite_inline_sges i wr q)"

definition bxroce_build_reg :: "qp \<Rightarrow> int \<times> qp" where
  "bxroce_build_reg q = (0, q)"

section \<open>Lemmas and properties of the packing\<close>

lemma and_mask_16: "(w :: u16) AND 0xf = take_bit 4 w" "w AND 0x3f = take_bit 6 w"
  "w AND 0x3ff = take_bit 10 w"
proof -
  have "(0xf :: u16) = mask 4" "(0x3f :: u16) = mask 6" "(0x3ff :: u16) = mask 10"
    by (simp_all add: mask_eq_exp_minus_1)
  then show "w AND 0xf = take_bit 4 w" "w AND 0x3f = take_bit 6 w" "w AND 0x3ff = take_bit 10 w"
    by (simp_all only: take_bit_eq_mask)
qed

lemma add_disjoint:
  fixes a b :: "'a::len word"
  assumes "\<And>n. n < LENGTH('a) \<Longrightarrow> \<not> (bit a n \<and> bit b n)"
  shows "a + b = a OR b"
  by (rule disjunctive_add_eq_or, rule bit_word_eqI) (use assms in \<open>auto simp: bit_simps\<close>)

lemma bit_take_u16:
  "bit (take_bit 4 (w :: u16)) n = (n < 4 \<and> bit w n)" "bit (take_bit 6 w) n = (n < 6 \<and> bit w n)"
  "bit (take_bit 10 w) n = (n < 10 \<and> bit w n)"
  by (simp_all add: bit_take_bit_iff)

lemma and_fff0: "bit ((w :: u16) AND 0xfff0) n = (4 \<le> n \<and> n < 16 \<and> bit w n)"
proof -
  have eq: "(0xfff0 :: u16) = NOT (mask 4)" by (simp add: mask_eq_exp_minus_1)
  show ?thesis unfolding eq by (auto simp: bit_simps)
qed

lemma and_3c0: "bit ((w :: u16) AND 0x3c0) n = (6 \<le> n \<and> n < 10 \<and> bit w n)"
proof -
  have eq: "(0x3c0 :: u16) = push_bit 6 (mask 4)" by (simp add: mask_eq_exp_minus_1)
  show ?thesis unfolding eq by (auto simp: bit_simps)
qed

lemma and_f0_u8: "bit ((w :: u8) AND 0xf0) n = (4 \<le> n \<and> n < 8 \<and> bit w n)"
  "bit (w AND 0xf) n = (n < 4 \<and> bit w n)"
proof -
  have eq: "(0xf0 :: u8) = NOT (mask 4)" "(0xf :: u8) = mask 4"
    by (simp_all add: mask_eq_exp_minus_1)
  show "bit (w AND 0xf0) n = (4 \<le> n \<and> n < 8 \<and> bit w n)" "bit (w AND 0xf) n = (n < 4 \<and> bit w n)"
    unfolding eq by (auto simp: bit_simps)
qed

text \<open>Where the number and the address go, bit by bit.\<close>

lemma eecntx_bits:
  "n < 16 \<Longrightarrow> bit (eecntx (set_destqp_bits m w)) n =
     (if n < 10 then bit (eecntx w) n else bit m (n - 10))"
proof -
  assume n: "n < 16"
  have low: "(if drop_bit 10 (eecntx w) \<noteq> 0 then eecntx w AND 0x3ff else eecntx w) =
      take_bit 10 (eecntx w)"
  proof (cases "drop_bit 10 (eecntx w) = 0")
    case True
    have "\<not> bit (eecntx w) (10 + j)" for j
    proof -
      have "bit (eecntx w) (10 + j) = bit (drop_bit 10 (eecntx w)) j"
        by (simp add: bit_drop_bit_eq)
      then show ?thesis using True by simp
    qed
    then have "bit (eecntx w) k \<Longrightarrow> k < 10" for k by (metis le_add_diff_inverse not_less)
    then have "take_bit 10 (eecntx w) = eecntx w"
      by (intro bit_word_eqI) (auto simp: bit_take_u16)
    then show ?thesis using True by simp
  qed (simp add: and_mask_16)
  have "eecntx (set_destqp_bits m w) = take_bit 10 (eecntx w) + push_bit 10 (m AND 0x3f)"
    using low by (auto simp: set_destqp_bits_def Let_def split: if_splits)
  also have "\<dots> = take_bit 10 (eecntx w) OR push_bit 10 (m AND 0x3f)"
    by (rule add_disjoint) (auto simp: bit_simps)
  finally show ?thesis using n by (auto simp: and_mask_16 bit_simps)
qed

lemma destqp_bits:
  "n < 16 \<Longrightarrow> bit (wqe_destqp (set_destqp_bits m w)) n =
     (if n < 4 then bit m (n + 6) else bit (wqe_destqp w) n)"
proof -
  assume n: "n < 16"
  have "wqe_destqp (set_destqp_bits m w) = (wqe_destqp w AND 0xfff0) + drop_bit 6 (m AND 0x3c0)"
    by (simp add: set_destqp_bits_def Let_def)
  also have "\<dots> = (wqe_destqp w AND 0xfff0) OR drop_bit 6 (m AND 0x3c0)"
    by (rule add_disjoint) (simp only: and_fff0 bit_drop_bit_eq and_3c0 comp_apply, auto)
  finally show ?thesis
    using n by (simp only: bit_or_iff and_fff0 bit_drop_bit_eq and_3c0 comp_apply)
      (auto simp: add.commute)
qed

definition mac_bit :: "u8 list \<Rightarrow> nat \<Rightarrow> bool" where
  "mac_bit mac k = bit (mac ! (k div 8)) (k mod 8)"

lemma mac_bit_at: "k = 8 * i + j \<Longrightarrow> j < 8 \<Longrightarrow> mac_bit mac k = bit (mac ! i) j"
  by (simp add: mac_bit_def)

lemma bit_dmac_destqp: "n < 16 \<Longrightarrow> bit (dmac_destqp mac) n = (4 \<le> n \<and> mac_bit mac (n - 4))"
proof -
  assume n: "n < 16"
  have "push_bit 8 (ucast (mac ! 1)) + ucast (mac ! 0) =
      (push_bit 8 (ucast (mac ! 1)) OR ucast (mac ! 0) :: u16)"
    by (rule add_disjoint) (auto simp: bit_simps)
  then have eq: "dmac_destqp mac = push_bit 4 (push_bit 8 (ucast (mac ! 1)) OR ucast (mac ! 0))"
    by (simp add: dmac_destqp_def)
  consider "n < 4" | "4 \<le> n" "n < 12" | "12 \<le> n" by linarith
  then show ?thesis
  proof cases
    case 1
    then show ?thesis unfolding eq by (simp add: bit_simps)
  next
    case 2
    then show ?thesis
      using mac_bit_at [of "n - 4" 0 "n - 4" mac] unfolding eq by (auto simp: bit_simps)
  next
    case 3
    then have "mac_bit mac (n - 4) = bit (mac ! 1) (n - 12)"
      using n by (intro mac_bit_at) simp_all
    then show ?thesis using 3 n unfolding eq by (auto simp: bit_simps)
  qed
qed

lemma dmac_socket1_or:
  "dmac_socket1 mac = push_bit 28 (ucast (mac ! 5)) OR push_bit 20 (ucast (mac ! 4)) OR
     push_bit 12 (ucast (mac ! 3)) OR push_bit 4 (ucast (mac ! 2)) OR ucast (drop_bit 4 (mac ! 1))"
proof -
  have p: "push_bit 8 v + ucast (b :: u8) = push_bit 8 v OR ucast b" for v :: u32 and b
    by (rule add_disjoint) (auto simp: bit_simps)
  have q: "push_bit 4 v + ucast (drop_bit 4 b) = push_bit 4 v OR ucast (drop_bit 4 b)"
    for v :: u32 and b :: u8
    by (rule add_disjoint) (auto simp: bit_simps)
  show ?thesis unfolding dmac_socket1_def Let_def p q by (simp add: push_bit_or or.assoc)
qed

lemma bit_dmac_socket1: "n < 32 \<Longrightarrow> bit (dmac_socket1 mac) n = mac_bit mac (n + 12)"
proof -
  assume n: "n < 32"
  consider "n < 4" | "4 \<le> n" "n < 12" | "12 \<le> n" "n < 20" | "20 \<le> n" "n < 28" | "28 \<le> n"
    by linarith
  then show ?thesis
  proof cases
    case 1
    then show ?thesis
      using mac_bit_at [of "n + 12" 1 "n + 4" mac] by (auto simp: dmac_socket1_or bit_simps add.commute)
  next
    case 2
    then show ?thesis
      using mac_bit_at [of "n + 12" 2 "n - 4" mac] by (auto simp: dmac_socket1_or bit_simps)
  next
    case 3
    then show ?thesis
      using mac_bit_at [of "n + 12" 3 "n - 12" mac] by (auto simp: dmac_socket1_or bit_simps)
  next
    case 4
    then show ?thesis
      using mac_bit_at [of "n + 12" 4 "n - 20" mac] by (auto simp: dmac_socket1_or bit_simps)
  next
    case 5
    then show ?thesis
      using n mac_bit_at [of "n + 12" 5 "n - 28" mac] by (auto simp: dmac_socket1_or bit_simps)
  qed
qed

lemma dmac_bits:
  "n < 16 \<Longrightarrow> bit (wqe_destqp (bxroce_set_wqe_dmac q w)) n =
     (if n < 4 then bit (wqe_destqp w) n else mac_bit (mac_addr q) (n - 4))"
  "n < 32 \<Longrightarrow> bit (destsocket1 (bxroce_set_wqe_dmac q w)) n = mac_bit (mac_addr q) (n + 12)"
  "n < 8 \<Longrightarrow> bit (destsocket2 (bxroce_set_wqe_dmac q w)) n =
     (if n < 4 then mac_bit (mac_addr q) (n + 44) else bit (destsocket2 w) n)"
  "eecntx (bxroce_set_wqe_dmac q w) = eecntx w"
  "wqe_opcode (bxroce_set_wqe_dmac q w) = wqe_opcode w"
proof -
  let ?m = "mac_addr q"
  have "(wqe_destqp w AND 0xf) + dmac_destqp ?m = (wqe_destqp w AND 0xf) OR dmac_destqp ?m"
    by (rule add_disjoint) (auto simp: and_mask_16 bit_simps bit_dmac_destqp)
  then show "bit (wqe_destqp (bxroce_set_wqe_dmac q w)) n =
      (if n < 4 then bit (wqe_destqp w) n else mac_bit ?m (n - 4))" if "n < 16"
    using that by (auto simp: bxroce_set_wqe_dmac_def Let_def and_mask_16 bit_simps bit_dmac_destqp)
  show "n < 32 \<Longrightarrow> bit (destsocket1 (bxroce_set_wqe_dmac q w)) n = mac_bit ?m (n + 12)"
    by (simp add: bxroce_set_wqe_dmac_def Let_def bit_dmac_socket1)
  have "(destsocket2 w AND 0xf0) + drop_bit 4 (?m ! 5) = (destsocket2 w AND 0xf0) OR drop_bit 4 (?m ! 5)"
    by (rule add_disjoint) (auto simp: and_f0_u8 bit_drop_bit_eq)
  then show "bit (destsocket2 (bxroce_set_wqe_dmac q w)) n =
      (if n < 4 then mac_bit ?m (n + 44) else bit (destsocket2 w) n)" if "n < 8"
    using that mac_bit_at [of "n + 44" 5 "n + 4" ?m]
    by (auto simp: bxroce_set_wqe_dmac_def Let_def bit_or_iff and_f0_u8 bit_drop_bit_eq add.commute)
qed (simp_all add: bxroce_set_wqe_dmac_def Let_def)

lemma set_wqe_opcode_bits:
  "n < 8 \<Longrightarrow> bit (destsocket2 (bxroce_set_wqe_opcode w t oc)) n =
     (if n < 4 then bit (destsocket2 w) n else bit oc (n - 4))"
  "wqe_opcode w = 0 \<Longrightarrow> wqe_opcode (bxroce_set_wqe_opcode w t oc) = t + 0x10"
  "eecntx (bxroce_set_wqe_opcode w t oc) = eecntx w"
  "wqe_destqp (bxroce_set_wqe_opcode w t oc) = wqe_destqp w"
proof -
  have low: "bit (if drop_bit 4 (destsocket2 w) \<noteq> 0 then destsocket2 w AND 0xf else destsocket2 w) n =
      (n < 4 \<and> bit (destsocket2 w) n)" if "n < 8" for n
  proof (cases "drop_bit 4 (destsocket2 w) = 0")
    case True
    have "\<not> bit (destsocket2 w) (4 + j)" for j
    proof -
      have "bit (destsocket2 w) (4 + j) = bit (drop_bit 4 (destsocket2 w)) j"
        by (simp add: bit_drop_bit_eq)
      then show ?thesis using True by simp
    qed
    from this [of "n - 4"] show ?thesis using True by (cases "n < 4") simp_all
  qed (simp add: and_f0_u8)
  have "destsocket2 (bxroce_set_wqe_opcode w t oc) =
      (if drop_bit 4 (destsocket2 w) \<noteq> 0 then destsocket2 w AND 0xf else destsocket2 w) + push_bit 4 oc"
    by (simp add: bxroce_set_wqe_opcode_def Let_def)
  also have "\<dots> = (if drop_bit 4 (destsocket2 w) \<noteq> 0 then destsocket2 w AND 0xf else destsocket2 w)
      OR push_bit 4 oc"
    by (rule add_disjoint) (use low in \<open>auto simp: bit_simps\<close>)
  finally show "bit (destsocket2 (bxroce_set_wqe_opcode w t oc)) n =
      (if n < 4 then bit (destsocket2 w) n else bit oc (n - 4))" if "n < 8"
    using that by (simp add: bit_or_iff low) (auto simp: bit_simps)
qed (simp_all add: bxroce_set_wqe_opcode_def Let_def)

lemma build_wqe_opcode_0:
  "bxroce_build_wqe_opcode q w wr = (0, w') \<Longrightarrow>
   \<exists>t oc. hw_qp_type (qp_type q) = Some t \<and> hw_opcode (wr_op wr) = Some oc \<and>
     w' = bxroce_set_wqe_opcode w t oc"
  by (auto simp: bxroce_build_wqe_opcode_def split: option.splits if_splits)

text \<open>The number of the remote queue pair an entry is for.\<close>

definition target_qpn :: "qp \<Rightarrow> send_wr \<Rightarrow> u16" where
  "target_qpn q wr =
     (if destqp q \<noteq> 0 then ucast (destqp q)
      else if qp_type q = IB_QPT_UD then ucast (remote_qpn wr) else 0)"

lemma zero_wqe_simps [simp]:
  "eecntx zero_wqe = 0" "wqe_destqp zero_wqe = 0" "destsocket2 zero_wqe = 0" "wqe_opcode zero_wqe = 0"
  by (simp_all add: zero_wqe_def)

lemma set_destqp_keeps [simp]:
  "destsocket2 (set_destqp_bits m w) = destsocket2 w" "wqe_opcode (set_destqp_bits m w) = wqe_opcode w"
  by (simp_all add: set_destqp_bits_def Let_def)

text \<open>
  The layout of a send entry: the 10 bits of the remote queue pair number are bits 10 to 15
  of \<open>eecntx\<close> and 0 to 3 of \<open>destqp\<close>, the 48 bits of the MAC address follow through \<open>destqp\<close>,
  \<open>destsocket1\<close> and the low half of \<open>destsocket2\<close>, then the opcode, and the transport type is
  in \<open>opcode\<close> with bit 4 set. So number, address, opcode and type can be read back.
\<close>

theorem wqe_layout:
  assumes "bxroce_prepare_send_wqe q zero_wqe wr = Some (0, q', w)"
  shows "\<exists>t oc. hw_qp_type (qp_type q) = Some t \<and> hw_opcode (wr_op wr) = Some oc \<and>
    (\<forall>k < 10. bit (target_qpn q wr) k =
       (if k < 6 then bit (eecntx w) (k + 10) else bit (wqe_destqp w) (k - 6))) \<and>
    (\<forall>k < 48. mac_bit (mac_addr q) k =
       (if k < 12 then bit (wqe_destqp w) (k + 4)
        else if k < 44 then bit (destsocket1 w) (k - 12) else bit (destsocket2 w) (k - 44))) \<and>
    (\<forall>k < 4. bit oc k = bit (destsocket2 w) (k + 4)) \<and> wqe_opcode w = t + 0x10"
proof -
  define w1 where "w1 = (if qp_type q = IB_QPT_UD \<or> qp_type q = IB_QPT_GSI
      then (bxroce_set_wqe_destqp zero_wqe wr)
        \<lparr>wqe_qkey := if qp_type q = IB_QPT_GSI then qkey q else remote_qkey wr\<rparr>
      else zero_wqe\<lparr>wqe_qkey := qkey q\<rparr>)"
  obtain st w2 where b: "bxroce_build_wqe_opcode q w1 wr = (st, w2)" by force
  define w3 where "w3 = (if destqp q \<noteq> 0 then bxroce_set_rcwqe_destqp q w2 else w2)"
  have prep: "bxroce_prepare_send_wqe q zero_wqe wr =
      (if st \<noteq> 0 then Some (st, q, w2)
       else map_option (\<lambda>q'. (st, q', (bxroce_set_wqe_dmac q w3)\<lparr>wqe_pkey := ucast (pkey_index q),
              llpinfo_lo := llpinfo_of (qp_dgid q), llpinfo_hi := 0\<rparr>)) (note_wr_id q wr))"
    using b by (cases "qp_type q")
      (simp_all add: bxroce_prepare_send_wqe_def w1_def w3_def Let_def)
  have st: "st = 0" using assms prep by (auto split: if_splits)
  obtain t oc where t: "hw_qp_type (qp_type q) = Some t" "hw_opcode (wr_op wr) = Some oc"
      "w2 = bxroce_set_wqe_opcode w1 t oc"
    using build_wqe_opcode_0 [OF b [unfolded st]] by blast
  have w: "w = (bxroce_set_wqe_dmac q w3)\<lparr>wqe_pkey := ucast (pkey_index q),
      llpinfo_lo := llpinfo_of (qp_dgid q), llpinfo_hi := 0\<rparr>"
    using assms prep st by auto
  have gsi: "qp_type q \<noteq> IB_QPT_GSI" using t(1) by (auto simp: hw_qp_type_def)
  have q3: "bit (target_qpn q wr) k = (if k < 6 then bit (eecntx w3) (k + 10) else bit (wqe_destqp w3) (k - 6))"
    if "k < 10" for k
    using that gsi
    by (auto simp: target_qpn_def w3_def w1_def t(3) bxroce_set_rcwqe_destqp_def
        bxroce_set_wqe_destqp_def eecntx_bits destqp_bits set_wqe_opcode_bits)
  have o3: "wqe_opcode w3 = t + 0x10" "k < 4 \<Longrightarrow> bit (destsocket2 w3) (k + 4) = bit oc k" for k
    by (auto simp: w3_def w1_def t(3) bxroce_set_rcwqe_destqp_def bxroce_set_wqe_destqp_def
        set_wqe_opcode_bits)
  have "bit (wqe_destqp w) (k - 6) = bit (wqe_destqp w3) (k - 6)" if "6 \<le> k" "k < 10" for k
  proof -
    have "k - 6 < 4" using that by linarith
    then show ?thesis by (simp add: w dmac_bits)
  qed
  then have qpn: "\<forall>k < 10. bit (target_qpn q wr) k =
       (if k < 6 then bit (eecntx w) (k + 10) else bit (wqe_destqp w) (k - 6))"
    using q3 by (simp add: w dmac_bits)
  have mac: "mac_bit (mac_addr q) k = (if k < 12 then bit (wqe_destqp w) (k + 4)
        else if k < 44 then bit (destsocket1 w) (k - 12) else bit (destsocket2 w) (k - 44))"
    if "k < 48" for k
    using that by (auto simp: w dmac_bits)
  have "\<forall>k < 4. bit oc k = bit (destsocket2 w) (k + 4)" using o3 by (simp add: w dmac_bits)
  moreover have "wqe_opcode w = t + 0x10" using o3 by (simp add: w dmac_bits)
  ultimately show ?thesis using t qpn mac by blast
qed

definition small_hwq :: hwq where
  "small_hwq = \<lparr>q_pa = 0, max_sges = 2, head = 0, tail = 0, entry_size = 64, max_cnt = 4,
     max_wqe_idx = 3, q_len = 256, foe = BXROCE_Q_EMPTY\<rparr>"

definition small_qp :: qp where
  "small_qp = \<lparr>qp_id = 3, qp_len = 256, sq = small_hwq, rq = small_hwq\<lparr>entry_size := 16\<rparr>,
     sq_mem = replicate 4 zero_wqe, rq_mem = replicate 4 \<lparr>descbaseaddr = 0, rqe_dmalen = 0, rqe_opcode = 0\<rparr>,
     wr_id_tbl = replicate 4 (0, 0), rqe_wr_id_tbl = replicate 4 0, qp_type = IB_QPT_RC,
     qp_state = BXROCE_QPS_RTS, qkey = 1, init_sqpsn = 0, init_rqpsn = 0, signaled = False,
     destqp = 0x155, pkey_index = 0, sgid_idx = 0, mac_addr = [1, 2, 3, 4, 5, 0xa6],
     qp_dgid = replicate 16 0, qp_sgid = replicate 16 0, overhead = False\<rparr>"

definition small_wr :: send_wr where
  "small_wr = \<lparr>wr_id = 9, sg_list = [\<lparr>sge_addr = 0x1000, sge_length = 64, sge_lkey = 0x100\<rparr>],
     wr_op = IB_WR_SEND_WITH_IMM, send_signaled = True, send_inline = False, imm_data = 0x11223344,
     invalidate_rkey = 0, remote_qpn = 0, remote_qkey = 0, wr_rkey = 0, remote_addr = 0\<rparr>"

theorem wqe_layout_witness:
  "\<exists>q' w. bxroce_prepare_send_wqe small_qp zero_wqe small_wr = Some (0, q', w) \<and> wqe_opcode w = 0x10"
proof -
  have "\<exists>q' w. bxroce_prepare_send_wqe small_qp zero_wqe small_wr = Some (0, q', w)"
    by (simp add: bxroce_prepare_send_wqe_def bxroce_build_wqe_opcode_def hw_qp_type_def hw_opcode_def
        note_wr_id_def small_qp_def small_hwq_def small_wr_def)
  then obtain q' w where r: "bxroce_prepare_send_wqe small_qp zero_wqe small_wr = Some (0, q', w)"
    by blast
  from wqe_layout [OF r] r show ?thesis by (auto simp: small_qp_def hw_qp_type_def)
qed

text \<open>
  Which opcodes a transport accepts. A reliable connection accepts all six, an unreliable
  one all but reads; a datagram queue pair also accepts sends that invalidate and writes with
  immediate data, and a reliable datagram queue pair no send at all; the type of the
  management queue pair accepts nothing.
\<close>

definition accepted_ops :: "ib_qp_type \<Rightarrow> wr_opcode list" where
  "accepted_ops t = (case t of
     IB_QPT_RC \<Rightarrow> [IB_WR_SEND, IB_WR_SEND_WITH_IMM, IB_WR_SEND_WITH_INV, IB_WR_RDMA_WRITE,
       IB_WR_RDMA_WRITE_WITH_IMM, IB_WR_RDMA_READ]
   | IB_QPT_UC \<Rightarrow> [IB_WR_SEND, IB_WR_SEND_WITH_IMM, IB_WR_SEND_WITH_INV, IB_WR_RDMA_WRITE,
       IB_WR_RDMA_WRITE_WITH_IMM]
   | IB_QPT_UD \<Rightarrow> [IB_WR_SEND, IB_WR_SEND_WITH_IMM, IB_WR_SEND_WITH_INV, IB_WR_RDMA_WRITE_WITH_IMM]
   | IB_QPT_RESERVED2 \<Rightarrow> [IB_WR_RDMA_WRITE, IB_WR_RDMA_WRITE_WITH_IMM, IB_WR_RDMA_READ]
   | _ \<Rightarrow> [])"

theorem wqe_opcodes_accepted:
  "fst (bxroce_build_wqe_opcode q w wr) =
     (if wr_op wr \<in> set (accepted_ops (qp_type q)) then 0 else - EINVAL)"
  by (cases "qp_type q"; cases "wr_op wr")
    (simp_all add: bxroce_build_wqe_opcode_def hw_qp_type_def hw_opcode_def accepted_ops_def)

end
