(* ===== verification/Post.thy ===== *)
theory Post
  imports Wqe
begin

text \<open>
  Posting work requests (bxroce_verbs.c): the head and tail of a hardware queue, the doorbell
  writes, \<open>bxroce_post_send\<close> and \<open>bxroce_post_recv\<close>. The card is the environment: it answers
  every read of a pointer register. None is an access outside a buffer or a division by zero.
\<close>

section \<open>The hardware queue\<close>

definition bxroce_check_foe :: "nat \<Rightarrow> u32 \<Rightarrow> int" where
  "bxroce_check_foe num_sge free_cnt = (if word_of_nat num_sge > free_cnt then - ENOMEM else 0)"

definition bxroce_hwq_free_cnt :: "hwq \<Rightarrow> u32" where
  "bxroce_hwq_free_cnt q =
     (if head q > tail q then (max_wqe_idx q - head q + tail q) mod max_cnt q
      else if head q = tail q then (if foe q = BXROCE_Q_EMPTY then max_cnt q else 0)
      else tail q - head q)"

definition bxroce_hwq_head :: "hwq \<Rightarrow> nat" where
  "bxroce_hwq_head q = unat (head q)"

definition bxroce_hwq_inc_tail :: "hwq \<Rightarrow> hwq" where
  "bxroce_hwq_inc_tail q = q\<lparr>tail := (tail q + 1) AND max_wqe_idx q\<rparr>"

section \<open>The send queue\<close>

text \<open>One round of the loop of \<open>bxroce_ring_sq_hw\<close>.\<close>

definition ring_sq_once :: "env \<Rightarrow> qp \<times> kern \<Rightarrow> qp \<times> kern" where
  "ring_sq_once E c =
     (let (q, s) = c;
          s = pgu_writes [(QPLISTREADQPN, qp_id q), (WRITEORREADQPLIST, 1), (WRITEQPLISTMASK, 7),
                          (QPLISTWRITEQPN, 0)] s;
          (tmpvalue, s) = pgu_read E READQPLISTDATA s;
          (phyaddr, q) =
            (if overhead q then (max_cnt (sq q) * entry_size (sq q), q\<lparr>overhead := False\<rparr>)
             else (head (sq q) * entry_size (sq q), q));
          s = pgu_writes [(WPFORQPLIST, phyaddr), (WRITEQPLISTMASK, 3), (QPLISTWRITEQPN, 1),
                          (WRITEORREADQPLIST, 0)] s
      in (q, s))"

definition bxroce_ring_sq_hw :: "env \<Rightarrow> qp \<Rightarrow> send_wr \<Rightarrow> kern \<Rightarrow> qp \<times> kern" where
  "bxroce_ring_sq_hw E q wr s =
     (let num = (if overhead q then 2 else 1) :: nat
      in if sg_list wr = [] \<and> wr_op wr \<noteq> IB_WR_RDMA_WRITE_WITH_IMM \<and> wr_op wr \<noteq> IB_WR_SEND_WITH_IMM
         then (q, s)
         else
           let s = mutex_lock Hw_lock s;
               (q, s) = (ring_sq_once E ^^ num) (q, s)
           in (q, mutex_unlock Hw_lock s))"

text \<open>The read of a pointer of the card's queue list, and the new tail and head.\<close>

definition read_qplist :: "env \<Rightarrow> u32 \<Rightarrow> u32 \<Rightarrow> kern \<Rightarrow> u32 \<times> kern" where
  "read_qplist E qpn reg s =
     (let s = mutex_lock Hw_lock s;
          s = pgu_writes [(QPLISTREADQPN, qpn), (WRITEORREADQPLIST, 1), (WRITEQPLISTMASK, 7),
                          (QPLISTWRITEQPN, 0)] s;
          (v, s) = pgu_read E reg s;
          s = pgu_writes [(WRITEORREADQPLIST, 0)] s
      in (v, mutex_unlock Hw_lock s))"

definition bxroce_update_sq_tail :: "env \<Rightarrow> qp \<Rightarrow> kern \<Rightarrow> (qp \<times> kern) option" where
  "bxroce_update_sq_tail E q s =
     (let (t, s) = read_qplist E (qp_id q) READQPLISTDATA2 s
      in if entry_size (sq q) = 0 then None
         else
           let h = (sq q)\<lparr>tail := t div entry_size (sq q)\<rparr>;
               h = (if tail h = head h then h\<lparr>foe := BXROCE_Q_EMPTY\<rparr> else h)
           in Some (q\<lparr>sq := h\<rparr>, s))"

definition bxroce_update_sq_head :: "env \<Rightarrow> qp \<Rightarrow> kern \<Rightarrow> (qp \<times> kern) option" where
  "bxroce_update_sq_head E q s =
     (let (v, s) = read_qplist E (qp_id q) READQPLISTDATA s
      in if entry_size (sq q) = 0 then None
         else
           let tmphead = head (sq q);
               h = (sq q)\<lparr>head := v div entry_size (sq q)\<rparr>;
               h = (if tmphead \<noteq> head h \<and> head h = tail h then h\<lparr>foe := BXROCE_Q_FULL\<rparr> else h)
           in Some (q\<lparr>sq := h\<rparr>, s))"

text \<open>\<open>ntohl\<close>\<close>

definition ntohl :: "u32 \<Rightarrow> u32" where
  "ntohl w = push_bit 24 (w AND 0xff) OR push_bit 8 (w AND 0xff00) OR
     drop_bit 8 (w AND 0xff0000) OR drop_bit 24 w"

text \<open>The switch on the opcode, on the entry at the head.\<close>

definition build_wr :: "send_wr \<Rightarrow> qp \<Rightarrow> (int \<times> qp) option" where
  "build_wr wr q =
     (let i = bxroce_hwq_head (sq q)
      in case wr_op wr of
           IB_WR_SEND_WITH_IMM \<Rightarrow> do {
             q \<leftarrow> put_wqe i (zero_wqe\<lparr>immdt := ntohl (imm_data wr)\<rparr>) q;
             bxroce_build_send i wr q
           }
         | IB_WR_SEND \<Rightarrow> bxroce_build_send i wr q
         | IB_WR_SEND_WITH_INV \<Rightarrow> do {
             q \<leftarrow> put_wqe i (zero_wqe\<lparr>wqe_lkey := invalidate_rkey wr\<rparr>) q;
             bxroce_build_send i wr q
           }
         | IB_WR_RDMA_WRITE_WITH_IMM \<Rightarrow> do {
             q \<leftarrow> put_wqe i (zero_wqe\<lparr>immdt := ntohl (imm_data wr)\<rparr>) q;
             bxroce_build_write i wr q
           }
         | IB_WR_RDMA_WRITE \<Rightarrow> bxroce_build_write i wr q
         | IB_WR_RDMA_READ \<Rightarrow> map_option (\<lambda>q. (0, q)) (bxroce_build_read i wr q)
         | IB_WR_LOCAL_INV \<Rightarrow>
             (if i < length (sq_mem q)
              then map_option bxroce_build_reg
                     (put_wqe i ((sq_mem q ! i)\<lparr>wqe_lkey := invalidate_rkey wr\<rparr>) q)
              else None)
         | IB_WR_REG_MR \<Rightarrow> Some (bxroce_build_reg q)
         | IB_WR_OTHER \<Rightarrow> Some (- EINVAL, q))"

text \<open>
  The loop of \<open>bxroce_post_send\<close>. The result is the status, \<open>*bad_wr\<close> if it is set, the queue
  pair and the history. \<open>bxroce_check_foe\<close> failing leaves \<open>*bad_wr\<close> unset.
\<close>

fun post_send_loop :: "env \<Rightarrow> send_wr list \<Rightarrow> qp \<Rightarrow> kern \<Rightarrow>
    (int \<times> send_wr option \<times> qp \<times> kern) option" where
  "post_send_loop E [] q s = Some (0, None, q, s)"
| "post_send_loop E (wr # wrs) q s =
     (if qp_type q = IB_QPT_UD \<and> wr_op wr \<noteq> IB_WR_SEND \<and> wr_op wr \<noteq> IB_WR_SEND_WITH_IMM
      then Some (- EINVAL, Some wr, q, s)
      else
        let free_cnt = bxroce_hwq_free_cnt (sq q)
        in if free_cnt = 0 \<or> word_of_nat (length (sg_list wr)) > max_sges (sq q)
           then Some (- ENOMEM, Some wr, q, s)
           else
             let status = bxroce_check_foe (length (sg_list wr)) free_cnt
             in if status \<noteq> 0 then Some (status, None, q, s)
                else do {
                  (status, q) \<leftarrow> build_wr wr q;
                  if status \<noteq> 0 then Some (status, Some wr, q, s)
                  else do {
                    let s = emit Ewmb s;
                    let (q, s) = bxroce_ring_sq_hw E q wr s;
                    (q, s) \<leftarrow> bxroce_update_sq_head E q s;
                    post_send_loop E wrs q s
                  }
                })"

definition bxroce_post_send :: "env \<Rightarrow> send_wr list \<Rightarrow> qp \<Rightarrow> kern \<Rightarrow>
    (int \<times> send_wr option \<times> qp \<times> kern) option" where
  "bxroce_post_send E wrs q s = do {
     let s = mutex_lock Q_lock s;
     let q = q\<lparr>overhead := False\<rparr>;
     (q, s) \<leftarrow> bxroce_update_sq_tail E q s;
     if qp_state q \<noteq> BXROCE_QPS_RTS \<and> qp_state q \<noteq> BXROCE_QPS_SQD
     then Some (- EINVAL, (case wrs of [] \<Rightarrow> None | wr # _ \<Rightarrow> Some wr), q, mutex_unlock Q_lock s)
     else do {
       (status, bad, q, s) \<leftarrow> post_send_loop E wrs q s;
       Some (status, bad, q, mutex_unlock Q_lock s)
     }
   }"

section \<open>The receive queue\<close>

definition bxroce_ring_rq_hw :: "qp \<Rightarrow> recv_wr \<Rightarrow> kern \<Rightarrow> kern" where
  "bxroce_ring_rq_hw q wr s =
     (let phyaddr = (head (rq q) + word_of_nat (length (rsg_list wr))) * 16;
          s = mutex_lock Hw_lock s;
          s = pgu_writes [(RCVQ_INF, qp_id q), (RCVQ_DI, phyaddr), (RCVQ_DI + 4, 0), (RCVQ_WRRD, 2)] s
      in mutex_unlock Hw_lock s)"

text \<open>
  The loop of \<open>bxroce_build_rqsges\<close>: \<open>i\<close> is the loop variable and \<open>tmprqe\<close> the entry
  \<open>rqe + i\<close>, which is not taken modulo the queue's length.
\<close>

fun rqsges_loop :: "u64 \<Rightarrow> sge list \<Rightarrow> nat \<Rightarrow> nat \<Rightarrow> qp \<Rightarrow> qp option" where
  "rqsges_loop wrid [] r i q = Some q"
| "rqsges_loop wrid (g # gs) r i q =
     (let k = unat ((head (rq q) + word_of_nat i) mod max_cnt (rq q))
      in if r + i < length (rq_mem q) \<and> max_cnt (rq q) \<noteq> 0 \<and> k < length (rqe_wr_id_tbl q)
         then rqsges_loop wrid gs r (Suc i)
                (q\<lparr>rq_mem := (rq_mem q)[r + i := \<lparr>descbaseaddr = sge_addr g,
                     rqe_dmalen = sge_length g, rqe_opcode = 0x80000000\<rparr>],
                   rqe_wr_id_tbl := (rqe_wr_id_tbl q)[k := wrid]\<rparr>)
         else None)"

definition bxroce_build_rqsges :: "nat \<Rightarrow> recv_wr \<Rightarrow> qp \<Rightarrow> qp option" where
  "bxroce_build_rqsges r wr q =
     (if rsg_list wr = []
      then if r < length (rq_mem q)
           then Some (q\<lparr>rq_mem := (rq_mem q)[r := \<lparr>descbaseaddr = 0, rqe_dmalen = 0, rqe_opcode = 0\<rparr>]\<rparr>)
           else None
      else rqsges_loop (rwr_id wr) (rsg_list wr) r 0 q)"

definition bxroce_build_rqe :: "nat \<Rightarrow> recv_wr \<Rightarrow> qp \<Rightarrow> qp option" where
  "bxroce_build_rqe r wr q = bxroce_build_rqsges r wr q"

definition bxroce_update_rq_tail :: "env \<Rightarrow> qp \<Rightarrow> kern \<Rightarrow> qp \<times> kern" where
  "bxroce_update_rq_tail E q s =
     (let s = mutex_lock Hw_lock s;
          s = pgu_writes [(RCVQ_INF, qp_id q), (RCVQ_WRRD, 0x20)] s;
          (tail_l, s) = pgu_read E RCVQ_DI s;
          s = mutex_unlock Hw_lock s;
          h = (rq q)\<lparr>tail := (tail_l AND 0xfff) div 16\<rparr>;
          h = (if tail h = head h then h\<lparr>foe := BXROCE_Q_EMPTY\<rparr> else h)
      in (q\<lparr>rq := h\<rparr>, s))"

definition bxroce_update_rq_head :: "recv_wr \<Rightarrow> qp \<Rightarrow> qp" where
  "bxroce_update_rq_head wr q =
     (if rsg_list wr \<noteq> []
      then let h = (rq q)\<lparr>head := (head (rq q) + word_of_nat (length (rsg_list wr))) AND (max_cnt (rq q) - 1)\<rparr>;
               h = (if head h = tail h then h\<lparr>foe := BXROCE_Q_FULL\<rparr> else h)
           in q\<lparr>rq := h\<rparr>
      else q)"

fun post_recv_loop :: "recv_wr list \<Rightarrow> qp \<Rightarrow> kern \<Rightarrow> (int \<times> recv_wr option \<times> qp \<times> kern) option" where
  "post_recv_loop [] q s = Some (0, None, q, s)"
| "post_recv_loop (wr # wrs) q s =
     (let free_cnt = bxroce_hwq_free_cnt (rq q)
      in if free_cnt = 0 \<or> word_of_nat (length (rsg_list wr)) > max_sges (rq q)
         then Some (- ENOMEM, Some wr, q, s)
         else
           let status = bxroce_check_foe (length (rsg_list wr)) free_cnt
           in if status \<noteq> 0 then Some (status, None, q, s)
              else do {
                q \<leftarrow> bxroce_build_rqe (bxroce_hwq_head (rq q)) wr q;
                let s = emit Ewmb s;
                let s = bxroce_ring_rq_hw q wr s;
                post_recv_loop wrs (bxroce_update_rq_head wr q) s
              })"

definition bxroce_post_recv :: "env \<Rightarrow> recv_wr list \<Rightarrow> qp \<Rightarrow> kern \<Rightarrow>
    (int \<times> recv_wr option \<times> qp \<times> kern) option" where
  "bxroce_post_recv E wrs q s = do {
     let s = mutex_lock Q_lock s;
     let (q, s) = bxroce_update_rq_tail E q s;
     if qp_state q = BXROCE_QPS_RST \<or> qp_state q = BXROCE_QPS_ERR
     then Some (- EINVAL, (case wrs of [] \<Rightarrow> None | wr # _ \<Rightarrow> Some wr), q, mutex_unlock Q_lock s)
     else do {
       (status, bad, q, s) \<leftarrow> post_recv_loop wrs q s;
       Some (status, bad, q, mutex_unlock Q_lock s)
     }
   }"

section \<open>Locks\<close>

text \<open>A step that adds to the history and after which every lock is held as often as before.\<close>

definition balanced :: "kern \<Rightarrow> kern \<Rightarrow> bool" where
  "balanced s s' \<longleftrightarrow> (\<exists>es. trace s' = es @ trace s) \<and> (\<forall>l. held l (trace s') = held l (trace s))"

lemma balanced_refl [simp]: "balanced s s"
  by (simp add: balanced_def)

lemma balanced_trans [trans]: "balanced s t \<Longrightarrow> balanced t u \<Longrightarrow> balanced s u"
  by (auto simp: balanced_def)

lemma balanced_io: "io_only s t \<Longrightarrow> balanced s t"
  by (auto simp: balanced_def io_only_held io_only_def [of s t])

lemma balanced_wmb [simp]: "balanced s (emit Ewmb s)"
  by (simp add: balanced_def)

lemma balanced_section:
  assumes "balanced (mutex_lock l s) t"
  shows "balanced s (mutex_unlock l t)"
  using assms by (auto simp: balanced_def)

lemma ring_sq_once_io: "io_only (snd c) (snd (ring_sq_once E c))"
proof -
  let ?s1 = "pgu_writes [(QPLISTREADQPN, qp_id (fst c)), (WRITEORREADQPLIST, 1), (WRITEQPLISTMASK, 7),
      (QPLISTWRITEQPN, 0)] (snd c)"
  let ?s2 = "snd (pgu_read E READQPLISTDATA ?s1)"
  have "io_only (snd c) (pgu_writes ws ?s2)" for ws
    by (rule io_only_trans [OF io_only_trans [OF io_only_writes io_only_read] io_only_writes])
  then show ?thesis
    by (simp only: ring_sq_once_def Let_def split_def snd_conv)
qed

lemma ring_sq_iter_io: "io_only (snd c) (snd ((ring_sq_once E ^^ n) c))"
proof (induction n)
  case (Suc n)
  show ?case
    using io_only_trans [OF Suc.IH ring_sq_once_io] by simp
qed simp

lemma ring_sq_balanced: "balanced s (snd (bxroce_ring_sq_hw E q wr s))"
proof -
  have "balanced s (mutex_unlock Hw_lock (snd ((ring_sq_once E ^^ n) (q, mutex_lock Hw_lock s))))" for n
    using ring_sq_iter_io [where c = "(q, mutex_lock Hw_lock s)" and n = n and E = E]
    by (intro balanced_section balanced_io) simp
  then show ?thesis by (simp add: bxroce_ring_sq_hw_def Let_def split_def)
qed

lemma read_qplist_section:
  "\<exists>t. balanced (mutex_lock Hw_lock s) t \<and> snd (read_qplist E qpn reg s) = mutex_unlock Hw_lock t"
proof -
  let ?s0 = "mutex_lock Hw_lock s"
  let ?s1 = "pgu_writes [(QPLISTREADQPN, qpn), (WRITEORREADQPLIST, 1), (WRITEQPLISTMASK, 7),
      (QPLISTWRITEQPN, 0)] ?s0"
  let ?s2 = "snd (pgu_read E reg ?s1)"
  have "io_only ?s0 (pgu_writes [(WRITEORREADQPLIST, 0)] ?s2)"
    by (meson io_only_read io_only_trans io_only_writes)
  moreover have "snd (read_qplist E qpn reg s) =
      mutex_unlock Hw_lock (pgu_writes [(WRITEORREADQPLIST, 0)] ?s2)"
    by (simp only: read_qplist_def Let_def split_def snd_conv)
  ultimately show ?thesis using balanced_io by blast
qed

lemma read_qplist_balanced: "balanced s (snd (read_qplist E qpn reg s))"
  using read_qplist_section balanced_section by metis

lemma update_sq_balanced:
  "bxroce_update_sq_tail E q s = Some (q', s') \<Longrightarrow> balanced s s'"
  "bxroce_update_sq_head E q s = Some (q', s') \<Longrightarrow> balanced s s'"
  using read_qplist_balanced
  by (auto simp: bxroce_update_sq_tail_def bxroce_update_sq_head_def Let_def split_def
      split: if_splits)

lemma post_send_loop_balanced:
  "post_send_loop E wrs q s = Some (st, bad, q', s') \<Longrightarrow> balanced s s'"
proof (induction wrs arbitrary: q s)
  case (Cons wr wrs)
  have step: "balanced s s'" if "bxroce_update_sq_head E q2 (snd (bxroce_ring_sq_hw E q1 wr (emit Ewmb s))) = Some (q3, s3)"
      "post_send_loop E wrs q3 s3 = Some (st, bad, q', s')" for q1 q2 q3 s3
    using balanced_trans [OF balanced_wmb balanced_trans [OF ring_sq_balanced
          balanced_trans [OF update_sq_balanced(2) [OF that(1)] Cons.IH [OF that(2)]]]] .
  from Cons.prems show ?case
    by (auto simp: Let_def bind_eq_Some_conv split_def split: if_splits intro: step)
qed simp

lemma ring_rq_balanced: "balanced s (bxroce_ring_rq_hw q wr s)"
  unfolding bxroce_ring_rq_hw_def Let_def by (intro balanced_section balanced_io) (rule io_only_writes)

lemma update_rq_tail_section:
  "\<exists>t. balanced (mutex_lock Hw_lock s) t \<and> snd (bxroce_update_rq_tail E q s) = mutex_unlock Hw_lock t"
proof -
  let ?s0 = "mutex_lock Hw_lock s"
  let ?s1 = "pgu_writes [(RCVQ_INF, qp_id q), (RCVQ_WRRD, 0x20)] ?s0"
  have "io_only ?s0 (snd (pgu_read E RCVQ_DI ?s1))"
    by (rule io_only_trans [OF io_only_writes io_only_read])
  moreover have "snd (bxroce_update_rq_tail E q s) = mutex_unlock Hw_lock (snd (pgu_read E RCVQ_DI ?s1))"
    by (simp only: bxroce_update_rq_tail_def Let_def split_def snd_conv)
  ultimately show ?thesis using balanced_io by blast
qed

lemma update_rq_tail_balanced: "balanced s (snd (bxroce_update_rq_tail E q s))"
  using update_rq_tail_section balanced_section by metis

lemma post_recv_loop_balanced:
  "post_recv_loop wrs q s = Some (st, bad, q', s') \<Longrightarrow> balanced s s'"
proof (induction wrs arbitrary: q s)
  case (Cons wr wrs)
  have step: "balanced s s'"
    if "post_recv_loop wrs q2 (bxroce_ring_rq_hw q1 wr (emit Ewmb s)) = Some (st, bad, q', s')" for q1 q2
    using balanced_trans [OF balanced_wmb balanced_trans [OF ring_rq_balanced Cons.IH [OF that]]] .
  from Cons.prems show ?case
    by (auto simp: Let_def bind_eq_Some_conv split: if_splits intro: step)
qed simp

text \<open>What both functions do after they have read the tail, up to the release of \<open>q_lock\<close>.\<close>

lemma post_send_tail:
  assumes r: "bxroce_post_send E wrs q s = Some (st, bad, q', s')"
    and t: "bxroce_update_sq_tail E (q\<lparr>overhead := False\<rparr>) (mutex_lock Q_lock s) = Some (q1, s1)"
  shows "\<exists>s2. balanced s1 s2 \<and> s' = mutex_unlock Q_lock s2"
proof (cases "qp_state q1 \<noteq> BXROCE_QPS_RTS \<and> qp_state q1 \<noteq> BXROCE_QPS_SQD")
  case True
  then have "s' = mutex_unlock Q_lock s1" using r t by (simp add: bxroce_post_send_def)
  then show ?thesis using balanced_refl by blast
next
  case False
  then obtain s2 q2 where "post_send_loop E wrs q1 s1 = Some (st, bad, q2, s2)" "s' = mutex_unlock Q_lock s2"
    using r t by (auto simp: bxroce_post_send_def bind_eq_Some_conv)
  then show ?thesis using post_send_loop_balanced by blast
qed

lemma post_recv_tail:
  assumes r: "bxroce_post_recv E wrs q s = Some (st, bad, q', s')"
  shows "\<exists>s2. balanced (snd (bxroce_update_rq_tail E q (mutex_lock Q_lock s))) s2 \<and>
    s' = mutex_unlock Q_lock s2"
proof -
  obtain q1 s1 where t: "bxroce_update_rq_tail E q (mutex_lock Q_lock s) = (q1, s1)" by force
  show ?thesis
  proof (cases "qp_state q1 = BXROCE_QPS_RST \<or> qp_state q1 = BXROCE_QPS_ERR")
    case True
    then have "s' = mutex_unlock Q_lock s1" using r t by (auto simp: bxroce_post_recv_def)
    then show ?thesis using t balanced_refl by (metis snd_conv)
  next
    case False
    then obtain s2 q2 where "post_recv_loop wrs q1 s1 = Some (st, bad, q2, s2)" "s' = mutex_unlock Q_lock s2"
      using r t by (auto simp: bxroce_post_recv_def bind_eq_Some_conv)
    then show ?thesis using t post_recv_loop_balanced by (metis snd_conv)
  qed
qed

lemma post_send_balanced:
  assumes r: "bxroce_post_send E wrs q s = Some (st, bad, q', s')"
  shows "balanced s s'"
proof -
  obtain q1 s1 where t: "bxroce_update_sq_tail E (q\<lparr>overhead := False\<rparr>) (mutex_lock Q_lock s) = Some (q1, s1)"
    using r by (auto simp: bxroce_post_send_def bind_eq_Some_conv)
  from post_send_tail [OF r t] show ?thesis
    using balanced_section balanced_trans [OF update_sq_balanced(1) [OF t]] by blast
qed

lemma post_recv_balanced:
  assumes r: "bxroce_post_recv E wrs q s = Some (st, bad, q', s')"
  shows "balanced s s'"
  using post_recv_tail [OF r] balanced_section balanced_trans [OF update_rq_tail_balanced] by blast

text \<open>
  Posting sends or receives releases every lock it takes, on every path: after the call
  each lock is held as often as before it.
\<close>

theorem post_locks_balanced:
  "(bxroce_post_send E wrs q s = Some (st, bad, q', s') \<longrightarrow> held l (trace s') = held l (trace s)) \<and>
   (bxroce_post_recv E rwrs q s = Some (st, rbad, q', s') \<longrightarrow> held l (trace s') = held l (trace s))"
  using post_send_balanced post_recv_balanced unfolding balanced_def by blast

theorem post_locks_balanced_witness:
  "\<exists>q' s'. bxroce_post_send file_env [] small_qp empty_kern = Some (0, None, q', s') \<and>
     held Q_lock (trace s') = 0 \<and> held Hw_lock (trace s') = 0"
proof -
  have "\<exists>q' s'. bxroce_post_send file_env [] small_qp empty_kern = Some (0, None, q', s')"
    by (simp add: bxroce_post_send_def bxroce_update_sq_tail_def small_qp_def small_hwq_def
        Let_def split_def)
  then obtain q' s' where r: "bxroce_post_send file_env [] small_qp empty_kern = Some (0, None, q', s')"
    by blast
  have "held l (trace s') = 0" for l
    using post_locks_balanced [of file_env "[]" small_qp empty_kern 0 None q' s' l] r
    by (simp add: empty_kern_def)
  with r show ?thesis by blast
qed

lemma balanced_grows: "balanced s t \<Longrightarrow> \<exists>es. trace t = es @ trace s"
  by (simp add: balanced_def)

lemma section_first_events:
  assumes "balanced (mutex_lock Hw_lock s) t" "balanced (mutex_unlock Hw_lock t) u"
  shows "\<exists>es. trace u = es @ Elock Hw_lock # trace s"
  using assms [THEN balanced_grows] by (auto simp: append_eq_append_conv2)

lemma post_send_first_events:
  assumes r: "bxroce_post_send E wrs q s = Some (st, bad, q', s')"
  shows "\<exists>es. trace s' = es @ [Elock Hw_lock, Elock Q_lock] @ trace s"
proof -
  let ?s = "mutex_lock Q_lock s" and ?q = "q\<lparr>overhead := False\<rparr>"
  obtain q1 s1 where t: "bxroce_update_sq_tail E ?q ?s = Some (q1, s1)"
    using r by (auto simp: bxroce_post_send_def bind_eq_Some_conv)
  obtain s2 where s2: "balanced s1 s2" "s' = mutex_unlock Q_lock s2"
    using post_send_tail [OF r t] by blast
  have "s1 = snd (read_qplist E (qp_id ?q) READQPLISTDATA2 ?s)"
    using t by (auto simp: bxroce_update_sq_tail_def Let_def split_def split: if_splits)
  then obtain es where "trace s1 = es @ Elock Hw_lock # trace ?s"
    using read_qplist_section [of ?s E "qp_id ?q" READQPLISTDATA2] section_first_events [OF _ balanced_refl]
    by metis
  with s2 balanced_grows [OF s2(1)] show ?thesis by auto
qed

lemma post_recv_first_events:
  assumes r: "bxroce_post_recv E wrs q s = Some (st, bad, q', s')"
  shows "\<exists>es. trace s' = es @ [Elock Hw_lock, Elock Q_lock] @ trace s"
proof -
  let ?s = "mutex_lock Q_lock s"
  obtain s2 where s2: "balanced (snd (bxroce_update_rq_tail E q ?s)) s2" "s' = mutex_unlock Q_lock s2"
    using post_recv_tail [OF r] by blast
  obtain es where "trace (snd (bxroce_update_rq_tail E q ?s)) = es @ Elock Hw_lock # trace ?s"
    using update_rq_tail_section [of ?s E q] section_first_events [OF _ balanced_refl] by metis
  with s2 balanced_grows [OF s2(1)] show ?thesis by auto
qed

text \<open>
  \<open>q_lock\<close> is a spin lock and \<open>hw_lock\<close> a mutex. Every call of \<open>bxroce_post_send\<close> and of
  \<open>bxroce_post_recv\<close> that returns has taken the mutex, which may sleep, while it held the
  spin lock and right after it took that lock.
\<close>

theorem post_takes_mutex_in_spinlock:
  "(bxroce_post_send E wrs q s = Some (st, bad, q', s') \<longrightarrow>
      (\<exists>es. trace s' = es @ [Elock Hw_lock, Elock Q_lock] @ trace s)) \<and>
   (bxroce_post_recv E rwrs q s = Some (st, rbad, q', s') \<longrightarrow>
      (\<exists>es. trace s' = es @ [Elock Hw_lock, Elock Q_lock] @ trace s))"
  using post_send_first_events post_recv_first_events by blast

theorem post_takes_mutex_in_spinlock_witness:
  "\<exists>q' s' es. bxroce_post_recv file_env [] small_qp empty_kern = Some (0, None, q', s') \<and>
     trace s' = es @ [Elock Hw_lock, Elock Q_lock]"
proof -
  have "\<exists>q' s'. bxroce_post_recv file_env [] small_qp empty_kern = Some (0, None, q', s')"
    by (simp add: bxroce_post_recv_def bxroce_update_rq_tail_def small_qp_def Let_def split_def)
  then obtain q' s' where r: "bxroce_post_recv file_env [] small_qp empty_kern = Some (0, None, q', s')"
    by blast
  with post_takes_mutex_in_spinlock [of file_env "[]" small_qp empty_kern 0 None q' s' "[]" None]
  show ?thesis by (simp add: empty_kern_def)
qed

section \<open>Free entries\<close>

text \<open>
  How many entries \<open>bxroce_hwq_free_cnt\<close> calls free, for a queue of \<open>max_cnt\<close> entries of
  which the \<open>(head - tail) mod max_cnt\<close> from the tail on are in use. When the head has not
  wrapped around one entry is kept back; in every case the count never exceeds what is free,
  provided a queue whose head and tail meet is not full but marked empty.
\<close>

theorem hwq_free_cnt_safe:
  assumes "head q < max_cnt q" "tail q < max_cnt q" "max_wqe_idx q = max_cnt q - 1"
  shows "int (unat (bxroce_hwq_free_cnt q)) =
     (if head q = tail q then (if foe q = BXROCE_Q_EMPTY then int (unat (max_cnt q)) else 0)
      else int (unat (max_cnt q)) - (int (unat (head q)) - int (unat (tail q))) mod int (unat (max_cnt q))
           - (if head q > tail q then 1 else 0))"
proof -
  let ?M = "unat (max_cnt q)" and ?h = "unat (head q)" and ?t = "unat (tail q)"
  have le: "?h < ?M" "?t < ?M" using assms by (simp_all add: word_less_nat_alt)
  have bound: "?M < 2 ^ 32" using unsigned_less [of "max_cnt q"] by simp
  consider "head q = tail q" | "tail q < head q" | "head q < tail q" by fastforce
  then show ?thesis
  proof cases
    case 1
    then show ?thesis by (simp add: bxroce_hwq_free_cnt_def)
  next
    case 2
    then have lt: "?t < ?h" by (simp add: word_less_nat_alt)
    have m1: "unat (max_cnt q - 1) = ?M - 1"
      using le by (intro unat_sub [THEN trans]) (auto simp: word_le_nat_alt)
    have m2: "unat (max_cnt q - 1 - head q) = ?M - 1 - ?h"
      using le m1 by (subst unat_sub) (auto simp: word_le_nat_alt)
    have "unat (max_cnt q - 1 - head q + tail q) = ?M - 1 - ?h + ?t"
      using le lt m2 bound by (subst unat_add_lem [THEN iffD1]) auto
    then have "unat (bxroce_hwq_free_cnt q) = ?M - 1 - ?h + ?t"
      using 2 le lt by (simp add: bxroce_hwq_free_cnt_def assms(3) unat_mod)
    moreover have "(int ?h - int ?t) mod int ?M = int ?h - int ?t"
      by (rule mod_pos_pos_trivial) (use le lt in linarith)+
    ultimately show ?thesis using 2 le lt by auto
  next
    case 3
    then have lt: "?h < ?t" by (simp add: word_less_nat_alt)
    have "unat (tail q - head q) = ?t - ?h" using lt by (subst unat_sub) (auto simp: word_le_nat_alt)
    moreover have "(int ?h - int ?t) mod int ?M = int ?h - int ?t + int ?M"
      by (subst mod_add_self2 [symmetric], rule mod_pos_pos_trivial) (use le lt in linarith)+
    moreover have "int (unat (bxroce_hwq_free_cnt q)) = int (unat (tail q - head q))"
      using 3 by (auto simp: bxroce_hwq_free_cnt_def)
    ultimately have "int (unat (bxroce_hwq_free_cnt q)) =
        int ?M - (int ?h - int ?t) mod int ?M"
      using lt of_nat_diff [of ?h ?t, where 'a = int] by linarith
    then show ?thesis using 3 by auto
  qed
qed

theorem hwq_free_cnt_safe_witness:
  "int (unat (bxroce_hwq_free_cnt (small_hwq\<lparr>head := 3, tail := 1\<rparr>))) = 1"
  using hwq_free_cnt_safe [of "small_hwq\<lparr>head := 3, tail := 1\<rparr>"] by (simp add: small_hwq_def)

text \<open>
  A full queue is taken for an empty one. When the card has consumed nothing since the
  queue became full, so that the tail it reports still equals the head, \<open>bxroce_update_sq_tail\<close>
  marks the queue empty and all its entries count as free: the next requests overwrite
  entries the card has not read. The receive queue does the same.
\<close>

theorem full_queue_seen_empty:
  assumes "entry_size (sq q) \<noteq> 0"
    and "fst (read_qplist E (qp_id q) READQPLISTDATA2 s) div entry_size (sq q) = head (sq q)"
    and "(fst (pgu_read E RCVQ_DI (pgu_writes [(RCVQ_INF, qp_id q), (RCVQ_WRRD, 0x20)]
            (mutex_lock Hw_lock s))) AND 0xfff) div 16 = head (rq q)"
  shows "\<exists>q1 s1. bxroce_update_sq_tail E q s = Some (q1, s1) \<and> bxroce_hwq_free_cnt (sq q1) = max_cnt (sq q) \<and>
    bxroce_hwq_free_cnt (rq (fst (bxroce_update_rq_tail E q s))) = max_cnt (rq q)"
  using assms by (simp add: bxroce_update_sq_tail_def bxroce_update_rq_tail_def bxroce_hwq_free_cnt_def
      Let_def split_def)

text \<open>A card that answers 0 to every read.\<close>

definition zero_env :: env where
  "zero_env = file_env\<lparr>hw_read := \<lambda>_ _ _. 0\<rparr>"

lemma zero_env_read [simp]:
  "fst (pgu_read zero_env off s) = 0" "fst (read_qplist zero_env qpn off s) = 0"
  by (simp_all add: zero_env_def pgu_read_def bxroce_mpb_reg_read_def read_qplist_def readl_def
      Let_def split_def)

theorem full_queue_seen_empty_witness:
  "\<exists>q1 s1. bxroce_update_sq_tail zero_env (small_qp\<lparr>sq := small_hwq\<lparr>foe := BXROCE_Q_FULL\<rparr>\<rparr>) empty_kern
     = Some (q1, s1) \<and> bxroce_hwq_free_cnt (sq q1) = 4"
  using full_queue_seen_empty [of "small_qp\<lparr>sq := small_hwq\<lparr>foe := BXROCE_Q_FULL\<rparr>\<rparr>" zero_env empty_kern]
  by (auto simp: small_qp_def small_hwq_def)

section \<open>The entries of a request in the send queue\<close>

text \<open>A send queue whose buffer and table have an entry for every position.\<close>

definition sq_ok :: "qp \<Rightarrow> bool" where
  "sq_ok q \<longleftrightarrow> head (sq q) < max_cnt (sq q) \<and> unat (max_cnt (sq q)) \<le> length (sq_mem q) \<and>
     unat (max_cnt (sq q)) \<le> length (wr_id_tbl q)"

text \<open>An entry that describes a scatter element; its immediate data is 0.\<close>

definition sge_in_wqe :: "sge \<Rightarrow> wqe \<Rightarrow> bool" where
  "sge_in_wqe g w \<longleftrightarrow> localaddr w = sge_addr g \<and> dmalen w = sge_length g \<and>
     wqe_lkey w = sge_lkey g \<and> immdt w = 0"

lemma next_head:
  assumes "h < (m :: u32)"
  shows "unat ((h + 1) mod m) = Suc (unat h) mod unat m" "(h + 1) mod m < m"
proof -
  have "unat h < unat m" using assms by (simp add: word_less_nat_alt)
  moreover have "unat m < 2 ^ 32" using unsigned_less [of m] by simp
  ultimately have "unat (h + 1) = Suc (unat h)"
    by (subst unat_add_lem [THEN iffD1]) auto
  then show u: "unat ((h + 1) mod m) = Suc (unat h) mod unat m" by (simp add: unat_mod)
  show "(h + 1) mod m < m"
    using \<open>unat h < unat m\<close> u by (simp add: word_less_nat_alt del: unat_mod)
qed

text \<open>
  What the loop over the scatter list needs of the function that prepares an entry: it
  returns, it does not touch the queue, and it leaves the immediate data alone.
\<close>

locale wqe_preparer =
  fixes prepare :: "qp \<Rightarrow> wqe \<Rightarrow> send_wr \<Rightarrow> (int \<times> qp \<times> wqe) option"
  assumes prepares: "sq_ok q \<Longrightarrow> \<exists>st t w'. prepare q w wr = Some (st, q\<lparr>wr_id_tbl := t\<rparr>, w') \<and>
      length t = length (wr_id_tbl q) \<and> immdt w' = immdt w"
begin

lemma loop_step:
  assumes ok: "sq_ok q" and h: "h = unat (head (sq q))"
  shows "\<exists>st w t. length t = length (wr_id_tbl q) \<and> immdt w = 0 \<and> (st = 0 \<longrightarrow> sge_in_wqe g w) \<and>
    sges_loop prepare wr (g # gs) h q =
      (if st \<noteq> 0 then Some (st, h, q\<lparr>sq_mem := (sq_mem q)[h := w], wr_id_tbl := t\<rparr>)
       else sges_loop prepare wr gs (Suc h mod unat (max_cnt (sq q)))
         (q\<lparr>sq_mem := (sq_mem q)[h := w], wr_id_tbl := t,
            overhead := overhead q \<or> head (sq q) + 1 = max_cnt (sq q),
            sq := (sq q)\<lparr>head := (head (sq q) + 1) mod max_cnt (sq q)\<rparr>\<rparr>))"
proof -
  have hl: "h < length (sq_mem q)"
    using ok h by (auto simp: sq_ok_def word_less_nat_alt)
  have m: "max_cnt (sq q) \<noteq> 0" using ok by (auto simp: sq_ok_def)
  let ?q = "q\<lparr>sq_mem := (sq_mem q)[h := zero_wqe]\<rparr>"
  have "sq_ok ?q" using ok by (simp add: sq_ok_def)
  then obtain st t w where p: "prepare ?q zero_wqe wr = Some (st, ?q\<lparr>wr_id_tbl := t\<rparr>, w)"
      "length t = length (wr_id_tbl ?q)" "immdt w = immdt zero_wqe"
    using prepares by blast
  let ?w = "w\<lparr>wqe_lkey := sge_lkey g, localaddr := sge_addr g, dmalen := sge_length g\<rparr>"
  have n: "unat ((head (sq q) + 1) mod max_cnt (sq q)) = Suc h mod unat (max_cnt (sq q))"
    using ok next_head(1) h by (simp add: sq_ok_def)
  show ?thesis
  proof (intro exI conjI)
    show "length t = length (wr_id_tbl q)" using p by simp
    show "immdt (if st \<noteq> 0 then w else ?w) = 0" using p(3) by (simp add: zero_wqe_def)
    show "st = 0 \<longrightarrow> sge_in_wqe g (if st \<noteq> 0 then w else ?w)"
      using p(3) by (simp add: sge_in_wqe_def zero_wqe_def)
    show "sges_loop prepare wr (g # gs) h q =
      (if st \<noteq> 0 then Some (st, h, q\<lparr>sq_mem := (sq_mem q)[h := if st \<noteq> 0 then w else ?w], wr_id_tbl := t\<rparr>)
       else sges_loop prepare wr gs (Suc h mod unat (max_cnt (sq q)))
         (q\<lparr>sq_mem := (sq_mem q)[h := if st \<noteq> 0 then w else ?w], wr_id_tbl := t,
            overhead := overhead q \<or> head (sq q) + 1 = max_cnt (sq q),
            sq := (sq q)\<lparr>head := (head (sq q) + 1) mod max_cnt (sq q)\<rparr>\<rparr>))"
      using hl p(1) m n by (cases q) (simp add: put_wqe_def advance_sq_head_def del: unat_mod)
  qed
qed

lemma loop_entries:
  "sq_ok q \<Longrightarrow> h = unat (head (sq q)) \<Longrightarrow> M = unat (max_cnt (sq q)) \<Longrightarrow> length gs \<le> M \<Longrightarrow>
   \<exists>st j q'. sges_loop prepare wr gs h q = Some (st, j, q') \<and> sq_ok q' \<and>
     max_cnt (sq q') = max_cnt (sq q) \<and> length (sq_mem q') = length (sq_mem q) \<and>
     (gs \<noteq> [] \<longrightarrow> immdt (sq_mem q' ! h) = 0) \<and>
     (st = 0 \<longrightarrow> unat (head (sq q')) = (h + length gs) mod M \<and> j = (h + length gs) mod M \<and>
       (\<forall>k < length gs. sge_in_wqe (gs ! k) (sq_mem q' ! ((h + k) mod M)))) \<and>
     (\<forall>p < length (sq_mem q). (\<forall>k < length gs. p \<noteq> (h + k) mod M) \<longrightarrow> sq_mem q' ! p = sq_mem q ! p)"
proof (induction gs arbitrary: q h)
  case Nil
  then show ?case by (auto simp: sq_ok_def word_less_nat_alt)
next
  case (Cons g gs)
  have hM: "h < M" "M \<le> length (sq_mem q)"
    using Cons.prems by (auto simp: sq_ok_def word_less_nat_alt)
  obtain st w t where t: "length t = length (wr_id_tbl q)" "immdt w = 0" "st = 0 \<longrightarrow> sge_in_wqe g w"
    and step: "sges_loop prepare wr (g # gs) h q =
      (if st \<noteq> 0 then Some (st, h, q\<lparr>sq_mem := (sq_mem q)[h := w], wr_id_tbl := t\<rparr>)
       else sges_loop prepare wr gs (Suc h mod unat (max_cnt (sq q)))
         (q\<lparr>sq_mem := (sq_mem q)[h := w], wr_id_tbl := t,
            overhead := overhead q \<or> head (sq q) + 1 = max_cnt (sq q),
            sq := (sq q)\<lparr>head := (head (sq q) + 1) mod max_cnt (sq q)\<rparr>\<rparr>))"
    using loop_step [OF Cons.prems(1,2)] by blast
  show ?case
  proof (cases "st = 0")
    case False
    then show ?thesis using step t hM Cons.prems
      by (auto simp: sq_ok_def nth_list_update dest: spec [of _ 0])
  next
    case True
    let ?q = "q\<lparr>sq_mem := (sq_mem q)[h := w], wr_id_tbl := t,
            overhead := overhead q \<or> head (sq q) + 1 = max_cnt (sq q),
            sq := (sq q)\<lparr>head := (head (sq q) + 1) mod max_cnt (sq q)\<rparr>\<rparr>"
    let ?h = "Suc h mod M"
    have "sq_ok ?q" using Cons.prems t next_head(2) by (auto simp: sq_ok_def)
    moreover have "?h = unat (head (sq ?q))"
      using Cons.prems next_head(1) by (simp add: sq_ok_def del: unat_mod)
    ultimately obtain st' j q' where ih: "sges_loop prepare wr gs ?h ?q = Some (st', j, q')" "sq_ok q'"
        "max_cnt (sq q') = max_cnt (sq q)" "length (sq_mem q') = length (sq_mem q)"
        "st' = 0 \<longrightarrow> unat (head (sq q')) = (?h + length gs) mod M \<and> j = (?h + length gs) mod M \<and>
          (\<forall>k < length gs. sge_in_wqe (gs ! k) (sq_mem q' ! ((?h + k) mod M)))"
        "\<forall>p < length (sq_mem q). (\<forall>k < length gs. p \<noteq> (?h + k) mod M) \<longrightarrow>
           sq_mem q' ! p = (sq_mem q)[h := w] ! p"
      using Cons.IH [of ?q ?h] Cons.prems by fastforce
    have shift: "(?h + k) mod M = (h + Suc k) mod M" for k by (simp add: mod_simps)
    have new: "h \<noteq> (?h + k) mod M" if "k < length gs" for k
      using that Cons.prems(4) hM by (auto simp: shift mod_if split: if_splits)
    have "sge_in_wqe g (sq_mem q' ! h)"
      using ih(6) [rule_format, of h] new hM t(3) True by (auto simp: nth_list_update)
    moreover from this have "sge_in_wqe ((g # gs) ! k) (sq_mem q' ! ((h + k) mod M))"
      if "st' = 0" "k < length (g # gs)" for k
      using that ih(5) hM shift by (cases k) auto
    moreover have "sq_mem q' ! p = sq_mem q ! p"
      if "p < length (sq_mem q)" "\<forall>k < length (g # gs). p \<noteq> (h + k) mod M" for p
    proof -
      have "p \<noteq> h" using that(2) [rule_format, of 0] hM by simp
      moreover have "\<forall>k < length gs. p \<noteq> (?h + k) mod M" using that(2) shift by auto
      ultimately show ?thesis using ih(6) that(1) by simp
    qed
    moreover have "sges_loop prepare wr (g # gs) h q = Some (st', j, q')"
      using step True ih(1) Cons.prems(3) by simp
    ultimately show ?thesis using ih shift by (auto simp: mod_simps sge_in_wqe_def)
  qed
qed

lemma built_entries:
  assumes "sq_ok q" "h = unat (head (sq q))" "M = unat (max_cnt (sq q))" "length gs \<le> M"
  shows "\<exists>st q'. map_option (\<lambda>(st, j, q'). (st, q')) (sges_loop prepare wr gs h q) = Some (st, q') \<and> sq_ok q' \<and>
     (gs \<noteq> [] \<longrightarrow> immdt (sq_mem q' ! h) = 0) \<and>
     (st = 0 \<longrightarrow> unat (head (sq q')) = (h + length gs) mod M \<and>
       (\<forall>k < length gs. sge_in_wqe (gs ! k) (sq_mem q' ! ((h + k) mod M)))) \<and>
     (\<forall>p < length (sq_mem q). (\<forall>k < length gs. p \<noteq> (h + k) mod M) \<longrightarrow> sq_mem q' ! p = sq_mem q ! p)"
proof -
  obtain st j q' where r: "sges_loop prepare wr gs h q = Some (st, j, q')" and rest: "sq_ok q'"
      "gs \<noteq> [] \<longrightarrow> immdt (sq_mem q' ! h) = 0"
      "st = 0 \<longrightarrow> unat (head (sq q')) = (h + length gs) mod M \<and> j = (h + length gs) mod M \<and>
       (\<forall>k < length gs. sge_in_wqe (gs ! k) (sq_mem q' ! ((h + k) mod M)))"
      "\<forall>p < length (sq_mem q). (\<forall>k < length gs. p \<noteq> (h + k) mod M) \<longrightarrow> sq_mem q' ! p = sq_mem q ! p"
    using loop_entries [OF assms, of wr] by blast
  have m: "map_option (\<lambda>(st, j, q'). (st, q')) (sges_loop prepare wr gs h q) = Some (st, q')"
    by (simp add: r)
  show ?thesis by (rule exI [of _ st], rule exI [of _ q']) (use m rest in blast)
qed

end

lemma build_opcode_immdt: "immdt (snd (bxroce_build_wqe_opcode q w wr)) = immdt w"
  by (simp add: bxroce_build_wqe_opcode_def bxroce_set_wqe_opcode_def Let_def split: option.split)

lemma note_wr_id_ok:
  "sq_ok q \<Longrightarrow> \<exists>t. note_wr_id q wr = Some (q\<lparr>wr_id_tbl := t\<rparr>) \<and> length t = length (wr_id_tbl q)"
  by (auto simp: note_wr_id_def sq_ok_def word_less_nat_alt Let_def)

lemma immdt_helpers:
  "immdt (bxroce_set_rcwqe_destqp q w) = immdt w" "immdt (bxroce_set_wqe_destqp w wr) = immdt w"
  "immdt (bxroce_set_wqe_dmac q w) = immdt w"
  by (simp_all add: bxroce_set_rcwqe_destqp_def bxroce_set_wqe_destqp_def set_destqp_bits_def
      bxroce_set_wqe_dmac_def Let_def)

lemma same_tbl [simp]: "\<exists>t. q = q\<lparr>wr_id_tbl := t\<rparr> \<and> length t = length (wr_id_tbl q)" for q :: qp
  by (rule exI [of _ "wr_id_tbl q"]) simp

interpretation send_preparer: wqe_preparer bxroce_prepare_send_wqe
proof
  fix q :: qp and w wr
  assume ok: "sq_ok q"
  show "\<exists>st t w'. bxroce_prepare_send_wqe q w wr = Some (st, q\<lparr>wr_id_tbl := t\<rparr>, w') \<and>
      length t = length (wr_id_tbl q) \<and> immdt w' = immdt w"
    using note_wr_id_ok [OF ok, of wr] build_opcode_immdt
    by (auto simp: bxroce_prepare_send_wqe_def Let_def split_def immdt_helpers)
qed

interpretation write_preparer: wqe_preparer bxroce_prepare_write_wqe
proof
  fix q :: qp and w wr
  assume ok: "sq_ok q"
  show "\<exists>st t w'. bxroce_prepare_write_wqe q w wr = Some (st, q\<lparr>wr_id_tbl := t\<rparr>, w') \<and>
      length t = length (wr_id_tbl q) \<and> immdt w' = immdt w"
    using note_wr_id_ok [OF ok, of wr] build_opcode_immdt
    by (auto simp: bxroce_prepare_write_wqe_def Let_def split_def immdt_helpers)
qed

lemma build_sges_loop:
  assumes "sg_list wr \<noteq> []"
  shows "bxroce_build_sges h wr q =
      map_option (\<lambda>(st, j, q'). (st, q')) (sges_loop bxroce_prepare_send_wqe wr (sg_list wr) h q)"
    "bxroce_buildwrite_sges h wr q =
      map_option (\<lambda>(st, j, q'). (st, q')) (sges_loop bxroce_prepare_write_wqe wr (sg_list wr) h q)"
  subgoal
    using assms by (cases "sges_loop bxroce_prepare_send_wqe wr (sg_list wr) h q")
      (auto simp: bxroce_build_sges_def build_entries_def)
  subgoal
    using assms by (cases "sges_loop bxroce_prepare_write_wqe wr (sg_list wr) h q")
      (auto simp: bxroce_buildwrite_sges_def build_entries_def)
  done

text \<open>
  C6. Building a send or a write of \<open>n\<close> scatter elements in a queue with room for them always
  returns. When its status is 0, element \<open>k\<close> is described by the entry \<open>k\<close> after the head,
  round the ring, with its address, length and key, and the head has moved on by \<open>n\<close>; in
  every case no other entry has changed and the head is still inside the queue.
\<close>

theorem sq_entries_written:
  assumes "build \<in> {bxroce_build_sges, bxroce_buildwrite_sges}"
    and "sq_ok q" "sg_list wr \<noteq> []" "length (sg_list wr) \<le> M"
    and "h = unat (head (sq q))" "M = unat (max_cnt (sq q))"
  shows "\<exists>st q'. build h wr q = Some (st, q') \<and> sq_ok q' \<and>
    (st = 0 \<longrightarrow> unat (head (sq q')) = (h + length (sg_list wr)) mod M \<and>
      (\<forall>k < length (sg_list wr). sge_in_wqe (sg_list wr ! k) (sq_mem q' ! ((h + k) mod M)))) \<and>
    (\<forall>p < length (sq_mem q). (\<forall>k < length (sg_list wr). p \<noteq> (h + k) mod M) \<longrightarrow>
      sq_mem q' ! p = sq_mem q ! p)"
proof -
  from assms(1) consider "build = bxroce_build_sges" | "build = bxroce_buildwrite_sges" by blast
  then show ?thesis
  proof cases
    case 1
    show ?thesis unfolding 1 build_sges_loop(1) [OF assms(3)]
      using send_preparer.built_entries [OF assms(2,5,6,4), of wr] by blast
  next
    case 2
    show ?thesis unfolding 2 build_sges_loop(2) [OF assms(3)]
      using write_preparer.built_entries [OF assms(2,5,6,4), of wr] by blast
  qed
qed

theorem sq_entries_written_witness:
  "\<exists>st q'. bxroce_build_sges 0 small_wr small_qp = Some (st, q') \<and> sq_ok q'"
proof -
  have "sq_ok small_qp" "sg_list small_wr \<noteq> []" "length (sg_list small_wr) \<le> 4"
      "0 = unat (head (sq small_qp))" "4 = unat (max_cnt (sq small_qp))"
    by (simp_all add: small_qp_def small_hwq_def small_wr_def sq_ok_def)
  from sq_entries_written [OF insertI1 this] show ?thesis by blast
qed

text \<open>
  Immediate data is lost. For a send or a write with immediate data and at least one
  scatter element, \<open>bxroce_post_send\<close> stores the data in the entry at the head, and the loop
  over the elements clears that entry before it fills it: the entry handed to the card
  carries 0.
\<close>

theorem immediate_data_lost:
  assumes "wr_op wr \<in> {IB_WR_SEND_WITH_IMM, IB_WR_RDMA_WRITE_WITH_IMM}" "\<not> send_inline wr"
    and "sq_ok q" "sg_list wr \<noteq> []" "length (sg_list wr) \<le> unat (max_cnt (sq q))"
  shows "\<exists>st q'. build_wr wr q = Some (st, q') \<and> immdt (sq_mem q' ! unat (head (sq q))) = 0"
proof -
  let ?h = "unat (head (sq q))"
  let ?q = "q\<lparr>sq_mem := (sq_mem q)[?h := zero_wqe\<lparr>immdt := ntohl (imm_data wr)\<rparr>]\<rparr>"
  have h: "?h < length (sq_mem q)" using assms(3) by (auto simp: sq_ok_def word_less_nat_alt)
  have ok: "sq_ok ?q" using assms(3) by (simp add: sq_ok_def)
  have len: "length (sg_list wr) \<le> unat (max_cnt (sq ?q))" using assms(5) by simp
  have head: "?h = unat (head (sq ?q))" by simp
  from assms(1) consider "wr_op wr = IB_WR_SEND_WITH_IMM" | "wr_op wr = IB_WR_RDMA_WRITE_WITH_IMM"
    by blast
  then show ?thesis
  proof cases
    case 1
    obtain st q' where "bxroce_build_sges ?h wr ?q = Some (st, q')" "immdt (sq_mem q' ! ?h) = 0"
      using send_preparer.built_entries [OF ok head refl len, of wr] assms(4)
      unfolding build_sges_loop(1) [OF assms(4)] by blast
    then show ?thesis
      using 1 h assms(2) by (simp add: build_wr_def bxroce_hwq_head_def put_wqe_def Let_def
          bxroce_build_send_def bxroce_build_inline_sges_def)
  next
    case 2
    obtain st q' where "bxroce_buildwrite_sges ?h wr ?q = Some (st, q')" "immdt (sq_mem q' ! ?h) = 0"
      using write_preparer.built_entries [OF ok head refl len, of wr] assms(4)
      unfolding build_sges_loop(2) [OF assms(4)] by blast
    then show ?thesis
      using 2 h assms(2) by (simp add: build_wr_def bxroce_hwq_head_def put_wqe_def Let_def
          bxroce_build_write_def bxroce_buildwrite_inline_sges_def)
  qed
qed

theorem immediate_data_lost_witness:
  "imm_data small_wr = 0x11223344 \<and>
   (\<exists>st q'. build_wr small_wr small_qp = Some (st, q') \<and> immdt (sq_mem q' ! 0) = 0)"
  using immediate_data_lost [of small_wr small_qp]
  by (auto simp: small_qp_def small_hwq_def small_wr_def sq_ok_def)

section \<open>The entries of a request in the receive queue\<close>

definition rqe_of :: "sge \<Rightarrow> rqe" where
  "rqe_of g = \<lparr>descbaseaddr = sge_addr g, rqe_dmalen = sge_length g, rqe_opcode = 0x80000000\<rparr>"

definition rq_filled :: "nat \<Rightarrow> sge list \<Rightarrow> rqe list \<Rightarrow> rqe list" where
  "rq_filled r gs mem = take r mem @ map rqe_of gs @ drop (r + length gs) mem"

lemma rq_filled_Cons:
  "r < length mem \<Longrightarrow> rq_filled (Suc r) gs (mem[r := rqe_of g]) = rq_filled r (g # gs) mem"
  by (simp add: rq_filled_def take_Suc_conv_app_nth)

lemma rqsges_loop_entries:
  assumes "max_cnt (rq q) \<noteq> 0" "unat (max_cnt (rq q)) \<le> length (rqe_wr_id_tbl q)"
  shows "\<exists>t. rqsges_loop wrid gs r i q =
    (if gs = [] \<or> r + i + length gs \<le> length (rq_mem q)
     then Some (q\<lparr>rq_mem := rq_filled (r + i) gs (rq_mem q), rqe_wr_id_tbl := t\<rparr>) else None)"
  using assms
proof (induction gs arbitrary: i q)
  case Nil
  show ?case by (rule exI [of _ "rqe_wr_id_tbl q"]) (simp add: rq_filled_def)
next
  case (Cons g gs)
  let ?k = "unat ((head (rq q) + word_of_nat i) mod max_cnt (rq q))"
  let ?q = "q\<lparr>rq_mem := (rq_mem q)[r + i := rqe_of g], rqe_wr_id_tbl := (rqe_wr_id_tbl q)[?k := wrid]\<rparr>"
  have "?k < length (rqe_wr_id_tbl q)"
    using Cons.prems word_mod_less_divisor [of "max_cnt (rq q)" "head (rq q) + word_of_nat i"]
    by (simp add: word_less_nat_alt word_neq_0_conv del: unat_mod)
  then have step: "rqsges_loop wrid (g # gs) r i q =
      (if r + i < length (rq_mem q) then rqsges_loop wrid gs r (Suc i) ?q else None)"
    using Cons.prems by (simp add: rqe_of_def Let_def del: unat_mod)
  obtain t where "rqsges_loop wrid gs r (Suc i) ?q =
      (if gs = [] \<or> r + Suc i + length gs \<le> length (rq_mem ?q)
       then Some (?q\<lparr>rq_mem := rq_filled (r + Suc i) gs (rq_mem ?q), rqe_wr_id_tbl := t\<rparr>) else None)"
    using Cons.IH [of ?q "Suc i"] Cons.prems by auto
  then have "rqsges_loop wrid (g # gs) r i q =
      (if r + i + length (g # gs) \<le> length (rq_mem q)
       then Some (q\<lparr>rq_mem := rq_filled (r + i) (g # gs) (rq_mem q), rqe_wr_id_tbl := t\<rparr>) else None)"
    unfolding step using rq_filled_Cons [of "r + i" "rq_mem q" gs g]
    by (auto simp del: rqsges_loop.simps)
  then show ?case by auto
qed

text \<open>
  Receive entries do not wrap. A receive request of \<open>n > 0\<close> scatter elements fills the \<open>n\<close>
  entries that follow the head in the buffer, and exactly those, when they end inside the buffer.
  The last position of the ring, \<open>max_cnt - 1\<close>, has no part in it: the entries go on past it
  instead of continuing at entry 0, although \<open>bxroce_hwq_free_cnt\<close> counts the entries at the
  start of the ring as free. When the buffer is not long enough the function writes outside it.
\<close>

theorem rq_entries_do_not_wrap:
  assumes "max_cnt (rq q) \<noteq> 0" "unat (max_cnt (rq q)) \<le> length (rqe_wr_id_tbl q)" "rsg_list wr \<noteq> []"
  shows "if unat (head (rq q)) + length (rsg_list wr) \<le> length (rq_mem q)
    then \<exists>t. bxroce_build_rqe (bxroce_hwq_head (rq q)) wr q =
      Some (q\<lparr>rq_mem := rq_filled (unat (head (rq q))) (rsg_list wr) (rq_mem q), rqe_wr_id_tbl := t\<rparr>)
    else bxroce_build_rqe (bxroce_hwq_head (rq q)) wr q = None"
proof -
  have "bxroce_build_rqe (bxroce_hwq_head (rq q)) wr q =
      rqsges_loop (rwr_id wr) (rsg_list wr) (unat (head (rq q))) 0 q"
    using assms(3) by (simp add: bxroce_build_rqe_def bxroce_build_rqsges_def bxroce_hwq_head_def)
  then show ?thesis
    using rqsges_loop_entries [OF assms(1,2), of "rwr_id wr" "rsg_list wr" "unat (head (rq q))" 0] assms(3)
    by auto
qed

theorem rq_entries_do_not_wrap_witness:
  "let q = small_qp\<lparr>rq := (rq small_qp)\<lparr>head := 3, tail := 2\<rparr>,
       rq_mem := replicate 8 \<lparr>descbaseaddr = 0, rqe_dmalen = 0, rqe_opcode = 0\<rparr>\<rparr>;
     g = \<lparr>sge_addr = 0, sge_length = 8, sge_lkey = 0\<rparr>
   in max_cnt (rq q) = 4 \<and> bxroce_hwq_free_cnt (rq q) = 2 \<and>
     (\<exists>t. bxroce_build_rqe 3 \<lparr>rwr_id = 1, rsg_list = [g, g]\<rparr> q =
       Some (q\<lparr>rq_mem := rq_filled 3 [g, g] (rq_mem q), rqe_wr_id_tbl := t\<rparr>))"
  using rq_entries_do_not_wrap [of "small_qp\<lparr>rq := (rq small_qp)\<lparr>head := 3, tail := 2\<rparr>,
       rq_mem := replicate 8 \<lparr>descbaseaddr = 0, rqe_dmalen = 0, rqe_opcode = 0\<rparr>\<rparr>"
      "\<lparr>rwr_id = 1, rsg_list = [\<lparr>sge_addr = 0, sge_length = 8, sge_lkey = 0\<rparr>, \<lparr>sge_addr = 0, sge_length = 8, sge_lkey = 0\<rparr>]\<rparr>"]
  by (simp add: small_qp_def small_hwq_def bxroce_hwq_free_cnt_def bxroce_hwq_head_def)

end
