(* ===== verification/Dev.thy ===== *)
theory Dev
  imports Mr Ah
begin

text \<open>
  The RDMA device: its attributes (\<open>bxroce_query_device\<close> and the other queries of
  bxroce_verbs.c), the tables of completion queues and queue pairs, and the set-up of its
  resources (bxroce_main.c). What the PCI device and the network device say is an argument.

  The structure \<open>bxroce_dev\<close> is also memory: \<open>_bxroce_destroy_qp\<close> passes the address of its
  field \<open>allocated_qps\<close> where the field itself is meant, and so clears a bit of the structure.
  \<open>dev_words\<close> are the 64-bit words of the structure from that field on. The first three hold
  pointers, \<open>allocated_qps\<close>, \<open>qp_table\<close> and \<open>cq_table\<close>; \<open>dev_home\<close> is what the set-up stored in
  them. A table is found as long as its pointer is the one stored; after that, using it is
  undefined.
\<close>

section \<open>Attributes\<close>

datatype cap_flag = IB_DEVICE_CURR_QP_STATE_MOD | IB_DEVICE_RC_RNR_NAK_GEN | IB_DEVICE_SYS_IMAGE_GUID
  | IB_DEVICE_LOCAL_DMA_LKEY

record dev_attr =
  sys_image_guid :: "u8 list"
  vendor_id :: u32
  vendor_part_id :: u32
  page_size_cap :: u64
  fw_ver :: u64
  device_cap_flags :: "cap_flag list"
  max_ah :: u32
  max_pd :: u32
  max_mr :: u32
  max_cq :: u32
  max_qp :: u32
  max_cqe :: u32
  max_qp_wr :: u32
  max_send_sge :: u32
  max_recv_sge :: u32
  max_pkeys :: u16

definition bxroce_get_guid :: "u8 list \<Rightarrow> u8 list" where
  "bxroce_get_guid mac =
     [mac ! 0 XOR 2, mac ! 1, mac ! 2, 0xff, 0xfe, mac ! 3, mac ! 4, mac ! 5]"

definition bxroce_query_device :: "u8 list \<Rightarrow> u32 \<Rightarrow> u32 \<Rightarrow> int \<times> dev_attr" where
  "bxroce_query_device mac vendor device =
     (0, \<lparr>sys_image_guid = bxroce_get_guid mac, vendor_id = vendor, vendor_part_id = device,
          page_size_cap = 0xffff000, fw_ver = 0,
          device_cap_flags = [IB_DEVICE_CURR_QP_STATE_MOD, IB_DEVICE_RC_RNR_NAK_GEN,
            IB_DEVICE_SYS_IMAGE_GUID, IB_DEVICE_LOCAL_DMA_LKEY],
          max_ah = 512, max_pd = 1024, max_mr = 256 * 1024, max_cq = 1024, max_qp = 1024,
          max_cqe = 256, max_qp_wr = 1024, max_send_sge = 2, max_recv_sge = 2, max_pkeys = 1\<rparr>)"

definition bxroce_init_dev_attr :: "u8 list \<Rightarrow> u32 \<Rightarrow> u32 \<Rightarrow> int \<times> dev_attr" where
  "bxroce_init_dev_attr mac vendor device =
     (let (err, a) = bxroce_query_device mac vendor device in if err \<noteq> 0 then (err, a) else (0, a))"

datatype port_state = IB_PORT_DOWN | IB_PORT_ACTIVE

datatype port_cap = IB_PORT_CM_SUP | IB_PORT_REINIT_SUP | IB_PORT_DEVICE_MGMT_SUP
  | IB_PORT_VENDOR_CLASS_SUP

text \<open>
  The fields the function sets; \<open>mtu\<close> is the value of \<open>iboe_get_mtu(netdev->mtu)\<close>. The fields
  set to 0 are left out.
\<close>

record 'm port_attr =
  port_state :: port_state
  phys_state :: u8
  active_mtu :: 'm
  port_cap_flags :: "port_cap list"
  ip_gids :: bool
  gid_tbl_len :: nat
  pkey_tbl_len :: u16
  max_msg_sz :: u32

definition bxroce_query_port :: "bool \<Rightarrow> bool \<Rightarrow> 'm \<Rightarrow> int \<times> 'm port_attr" where
  "bxroce_query_port running oper_up mtu =
     (let (st, ph) = (if running \<and> oper_up then (IB_PORT_ACTIVE, 5) else (IB_PORT_DOWN, 3))
      in (0, \<lparr>port_state = st, phys_state = ph, active_mtu = mtu,
              port_cap_flags = [IB_PORT_CM_SUP, IB_PORT_REINIT_SUP, IB_PORT_DEVICE_MGMT_SUP,
                IB_PORT_VENDOR_CLASS_SUP],
              ip_gids = True, gid_tbl_len = 16, pkey_tbl_len = 1, max_msg_sz = push_bit 16 1\<rparr>))"

text \<open>The status and \<open>*pkey\<close> when it is written.\<close>

definition bxroce_query_pkey :: "u16 \<Rightarrow> int \<times> u16 option" where
  "bxroce_query_pkey i = (if i > 1 then (- EINVAL, None) else (0, Some 0xffff))"

section \<open>The device\<close>

record dev =
  attr :: dev_attr
  mem_resources :: "nat option"
  qps_bits :: bitmap
  cqs_bits :: bitmap
  qp_tab :: "nat \<Rightarrow> nat option"
  cq_tab :: "nat \<Rightarrow> nat option"
  dev_words :: "nat \<Rightarrow> u64"
  dev_home :: "nat \<Rightarrow> u64"
  next_qp :: nat
  next_cq :: nat
  used_qps :: nat
  used_cqs :: nat
  is_qp1_allocated :: bool
  gsi_sqcq :: "nat option"
  gsi_rqcq :: "nat option"
  ioaddr :: u64

definition qps_found :: "dev \<Rightarrow> bool" where "qps_found d \<longleftrightarrow> dev_words d 0 = dev_home d 0"
definition qp_tab_found :: "dev \<Rightarrow> bool" where "qp_tab_found d \<longleftrightarrow> dev_words d 1 = dev_home d 1"
definition cq_tab_found :: "dev \<Rightarrow> bool" where "cq_tab_found d \<longleftrightarrow> dev_words d 2 = dev_home d 2"

text \<open>\<open>clear_bit(n, addr)\<close> for an address inside the structure: bit \<open>n mod 64\<close> of word \<open>n div 64\<close>.\<close>

definition clear_dev_bit :: "nat \<Rightarrow> dev \<Rightarrow> dev" where
  "clear_dev_bit n d = d\<lparr>dev_words := (dev_words d)(n div 64 := unset_bit (n mod 64) (dev_words d (n div 64)))\<rparr>"

section \<open>Resources\<close>

definition bxroce_init_pools :: "env \<Rightarrow> (elem_type \<Rightarrow> unit pd_ext type_info) \<Rightarrow>
    (elem_type \<Rightarrow> unit mr_ext type_info) \<Rightarrow> dev_attr \<Rightarrow> pd_pool \<Rightarrow> mr_pool \<Rightarrow> kern \<Rightarrow>
    int \<times> pd_pool \<times> mr_pool \<times> kern" where
  "bxroce_init_pools E pinfo minfo a pds mrs s =
     (let (err, pds, s) = bxroce_pool_init E pinfo BXROCE_TYPE_PD (max_pd a) s
      in if err \<noteq> 0 then let (pds, s) = bxroce_pool_cleanup pds s in (err, pds, mrs, s)
         else
           let (err, mrs, s) = bxroce_pool_init E minfo BXROCE_TYPE_MR (max_mr a) s
           in if err \<noteq> 0
              then let (mrs, s) = bxroce_pool_cleanup mrs s; (pds, s) = bxroce_pool_cleanup pds s
                   in (err, pds, mrs, s)
              else (0, pds, mrs, s))"

text \<open>
  \<open>ptr\<close> is the address of an allocation. The four tables follow one another in it, in the order
  of the source: two bitmaps in whole words, then the pointers.
\<close>

definition bxroce_init_cqqp :: "env \<Rightarrow> (nat \<Rightarrow> u64) \<Rightarrow> dev \<Rightarrow> kern \<Rightarrow> int \<times> dev \<times> kern" where
  "bxroce_init_cqqp E ptr d s =
     (case kalloc E s of
        (None, s) \<Rightarrow> (- ENOMEM, d\<lparr>mem_resources := None\<rparr>, s)
      | (Some m, s) \<Rightarrow>
          (let qps = ptr m;
               cqs = qps + word_of_nat (longs_size (unat (max_qp (attr d))));
               qpt = cqs + word_of_nat (longs_size (unat (max_cq (attr d))));
               cqt = qpt + 8 * ucast (max_qp (attr d));
               w = (\<lambda>k. if k = 0 then qps else if k = 1 then qpt else if k = 2 then cqt else dev_words d k)
           in (0, d\<lparr>mem_resources := Some m, dev_words := w, dev_home := w,
                    qps_bits := set_bit_at 1 (set_bit_at 0 (\<lambda>_. False)),
                    cqs_bits := set_bit_at 2 (set_bit_at 1 (set_bit_at 0 (\<lambda>_. False))),
                    qp_tab := (\<lambda>_. None), cq_tab := (\<lambda>_. None)\<rparr>, s)))"

definition bxroce_get_used_rsrc :: "(bitmap \<Rightarrow> nat \<Rightarrow> nat \<Rightarrow> nat) \<Rightarrow> dev \<Rightarrow> int \<times> dev" where
  "bxroce_get_used_rsrc fnz d =
     (0, d\<lparr>used_qps := fnz (qps_bits d) (unat (max_qp (attr d))) 0,
           used_cqs := fnz (cqs_bits d) (unat (max_cq (attr d))) 0\<rparr>)"

text \<open>
  The table of address vectors (\<open>dev->av_tbl\<close>): its slots, its buffer and bus address, its size
  in bytes, and the list of the pages of the buffer, an entry of high and low word each.
\<close>

record av_tbl =
  av_va :: "nat option"
  av_pa :: u64
  av_size :: nat
  num_ah :: nat
  av_slots :: "av list"
  pbl_va :: "nat option"
  pbl_pa :: u64
  pbes :: "(u32 \<times> u32) list"
  ahid :: u32

definition sizeof_av :: nat where "sizeof_av = 68"

definition zero_av :: av where "zero_av = \<lparr>av_mem = replicate 64 0, valid = 0\<rparr>"

definition page_entries :: "u64 \<Rightarrow> nat \<Rightarrow> (u32 \<times> u32) list" where
  "page_entries pa n =
     map (\<lambda>i. let a = pa + 4096 * word_of_nat i in (ucast (drop_bit 32 a), ucast a)) [0..<n]"

definition bxroce_create_ah_tbl :: "env \<Rightarrow> av_tbl \<Rightarrow> kern \<Rightarrow> int \<times> av_tbl \<times> kern" where
  "bxroce_create_ah_tbl E t s =
     (let mx = 256; t = t\<lparr>av_size := sizeof_av * mx\<rparr>
      in case dma_alloc E 4096 s of
           (None, s) \<Rightarrow> (- ENOMEM, t\<lparr>pbl_va := None\<rparr>, s)
         | (Some (b, bpa), s) \<Rightarrow>
             (let t = t\<lparr>pbl_va := Some b, pbl_pa := bpa\<rparr>
              in case dma_alloc E (word_of_nat (av_size t)) s of
                   (None, s) \<Rightarrow> (- ENOMEM, t\<lparr>av_va := None, pbl_va := None, av_size := 0\<rparr>, dma_free b s)
                 | (Some (v, pa), s) \<Rightarrow>
                     (0, t\<lparr>av_va := Some v, av_pa := pa, num_ah := mx, av_slots := replicate mx zero_av,
                           pbes := page_entries pa (av_size t div 4096), ahid := ucast bpa\<rparr>, s)))"

text \<open>\<open>bxroce_alloc_resource\<close>: nothing is undone when a later step fails.\<close>

record resources =
  r_pds :: pd_pool
  r_mrs :: mr_pool
  r_dev :: dev
  r_avs :: av_tbl

definition bxroce_alloc_resource :: "env \<Rightarrow> (nat \<Rightarrow> u64) \<Rightarrow> (bitmap \<Rightarrow> nat \<Rightarrow> nat \<Rightarrow> nat) \<Rightarrow>
    (elem_type \<Rightarrow> unit pd_ext type_info) \<Rightarrow> (elem_type \<Rightarrow> unit mr_ext type_info) \<Rightarrow>
    resources \<Rightarrow> kern \<Rightarrow> int \<times> resources \<times> kern" where
  "bxroce_alloc_resource E ptr fnz pinfo minfo r s =
     (let (st, pds, mrs, s) = bxroce_init_pools E pinfo minfo (attr (r_dev r)) (r_pds r) (r_mrs r) s;
          r = r\<lparr>r_pds := pds, r_mrs := mrs\<rparr>
      in if st \<noteq> 0 then (st, r, s)
         else
           let (st, d, s) = bxroce_init_cqqp E ptr (r_dev r) s; r = r\<lparr>r_dev := d\<rparr>
           in if st \<noteq> 0 then (st, r, s)
              else
                let (st, d) = bxroce_get_used_rsrc fnz (r_dev r); r = r\<lparr>r_dev := d\<rparr>
                in if st \<noteq> 0 then (st, r, s)
                   else
                     let (st, t, s) = bxroce_create_ah_tbl E (r_avs r) s; r = r\<lparr>r_avs := t\<rparr>
                     in (st, r, s))"

text \<open>The releases of \<open>bx_remove\<close>; the buffer of the address vectors is not among them.\<close>

definition bx_remove :: "resources \<Rightarrow> kern \<Rightarrow> resources \<times> kern" where
  "bx_remove r s =
     (let s = (case pbl_va (r_avs r) of None \<Rightarrow> s | Some b \<Rightarrow> dma_free b s);
          r = r\<lparr>r_avs := (r_avs r)\<lparr>pbl_va := None, av_size := 0\<rparr>\<rparr>;
          s = kfree (mem_resources (r_dev r)) s;
          (pds, s) = bxroce_pool_cleanup (r_pds r) s;
          (mrs, s) = bxroce_pool_cleanup (r_mrs r) s
      in (r\<lparr>r_pds := pds, r_mrs := mrs\<rparr>, s))"

section \<open>Set-up and removal\<close>

lemma clear_dev_bit_apply:
  "bit (dev_words (clear_dev_bit n d) w) b \<longleftrightarrow>
     bit (dev_words d w) b \<and> \<not> (w = n div 64 \<and> b = n mod 64)"
  by (auto simp: clear_dev_bit_def bit_unset_bit_iff)

lemma clear_dev_bit_tables [simp]:
  "attr (clear_dev_bit n d) = attr d" "qps_bits (clear_dev_bit n d) = qps_bits d"
  "cqs_bits (clear_dev_bit n d) = cqs_bits d" "qp_tab (clear_dev_bit n d) = qp_tab d"
  "cq_tab (clear_dev_bit n d) = cq_tab d" "dev_home (clear_dev_bit n d) = dev_home d"
  by (simp_all add: clear_dev_bit_def)

lemma mr_pool_range: "\<not> BXROCE_MAX_MR_INDEX - BXROCE_MIN_MR_INDEX + 1 < (0x40000 :: u32)"
  by (simp add: BXROCE_MAX_MR_INDEX_def BXROCE_MIN_MR_INDEX_def)

lemma init_pools_ok:
  assumes "bxroce_init_pools E (bxroce_type_info psz pcl) (bxroce_type_info msz mcl) a pds mrs s =
      (0, pds', mrs', s')"
    and "max_mr a = 256 * 1024"
  shows "pool_ref pds' = 1 \<and> table pds' = None \<and> pool_ref mrs' = 1 \<and> table mrs' = Some (next_obj s) \<and>
    s' = (emit (Ekalloc (next_obj s)) s)\<lparr>next_obj := Suc (next_obj s)\<rparr>"
  using assms
  by (auto simp: bxroce_init_pools_def bxroce_pool_init_def bxroce_type_info_def fresh_pool_def
      bxroce_pool_init_index_def mr_pool_range kalloc_def Let_def pool_consts
      split: prod.splits if_splits)

lemma alloc_resource_ok:
  assumes "bxroce_alloc_resource E ptr fnz (bxroce_type_info psz pcl) (bxroce_type_info msz mcl) r s =
      (0, r', s')"
    and "max_mr (attr (r_dev r)) = 256 * 1024"
  shows "pool_ref (r_pds r') = 1 \<and> table (r_pds r') = None \<and>
    pool_ref (r_mrs r') = 1 \<and> table (r_mrs r') = Some (next_obj s) \<and>
    mem_resources (r_dev r') = Some (next_obj s + 1) \<and>
    pbl_va (r_avs r') = Some (next_obj s + 2) \<and> av_va (r_avs r') = Some (next_obj s + 3) \<and>
    trace s' = [Edma_alloc (next_obj s + 3) 17408, Edma_alloc (next_obj s + 2) 4096,
      Ekalloc (next_obj s + 1), Ekalloc (next_obj s)] @ trace s"
proof -
  obtain pds mrs s1 where p: "bxroce_init_pools E (bxroce_type_info psz pcl) (bxroce_type_info msz mcl)
      (attr (r_dev r)) (r_pds r) (r_mrs r) s = (0, pds, mrs, s1)"
    using assms(1) by (auto simp: bxroce_alloc_resource_def Let_def split: prod.splits if_splits)
  note q = init_pools_ok [OF p assms(2)]
  show ?thesis
    using assms(1) q
    by (auto simp: bxroce_alloc_resource_def p bxroce_init_cqqp_def bxroce_get_used_rsrc_def kalloc_def
        bxroce_create_ah_tbl_def dma_alloc_def sizeof_av_def Let_def split: if_splits)
qed

lemma init_cqqp_ok:
  assumes "bxroce_init_cqqp E ptr d s = (0, d', s')"
  shows "dev_words d' = dev_home d'" "attr d' = attr d" "qps_bits d' = (\<lambda>i. i < 2)"
    "cqs_bits d' = (\<lambda>i. i < 3)" "qp_tab d' = (\<lambda>_. None)" "cq_tab d' = (\<lambda>_. None)"
proof -
  have bits: "set_bit_at 1 (set_bit_at 0 (\<lambda>_. False)) = (\<lambda>i. i < 2)"
    "set_bit_at 2 (\<lambda>i. i < 2) = (\<lambda>i. i < 3)"
    by (auto simp: fun_eq_iff)
  obtain m t where k: "kalloc E s = (Some m, t)"
    using assms by (cases "kalloc E s"; cases "fst (kalloc E s)") (auto simp: bxroce_init_cqqp_def)
  show "dev_words d' = dev_home d'" "attr d' = attr d" "qps_bits d' = (\<lambda>i. i < 2)"
    "cqs_bits d' = (\<lambda>i. i < 3)" "qp_tab d' = (\<lambda>_. None)" "cq_tab d' = (\<lambda>_. None)"
    using assms unfolding bxroce_init_cqqp_def k Let_def bits by auto
qed

lemma create_ah_tbl_ok:
  assumes "bxroce_create_ah_tbl E t s = (0, t', s')"
  shows "av_slots t' = replicate 256 zero_av \<and> av_size t' = 17408 \<and> length (pbes t') = 4"
  using assms
  by (auto simp: bxroce_create_ah_tbl_def page_entries_def sizeof_av_def Let_def
      split: prod.splits option.splits)

lemma alloc_resource_dev:
  assumes "bxroce_alloc_resource E ptr fnz pinfo minfo r s = (0, r', s')"
  shows "dev_words (r_dev r') = dev_home (r_dev r') \<and> attr (r_dev r') = attr (r_dev r) \<and>
    qps_bits (r_dev r') = (\<lambda>i. i < 2) \<and> cqs_bits (r_dev r') = (\<lambda>i. i < 3) \<and>
    qp_tab (r_dev r') = (\<lambda>_. None) \<and> cq_tab (r_dev r') = (\<lambda>_. None) \<and>
    used_qps (r_dev r') = fnz (\<lambda>i. i < 2) (unat (max_qp (attr (r_dev r)))) 0 \<and>
    used_cqs (r_dev r') = fnz (\<lambda>i. i < 3) (unat (max_cq (attr (r_dev r)))) 0 \<and>
    av_slots (r_avs r') = replicate 256 zero_av \<and> av_size (r_avs r') = 17408 \<and>
    length (pbes (r_avs r')) = 4"
proof -
  obtain pds mrs s1 where p: "bxroce_init_pools E pinfo minfo (attr (r_dev r)) (r_pds r) (r_mrs r) s =
      (0, pds, mrs, s1)"
    using assms by (auto simp: bxroce_alloc_resource_def Let_def split: prod.splits if_splits)
  obtain d s2 where i: "bxroce_init_cqqp E ptr (r_dev r) s1 = (0, d, s2)"
    using assms by (auto simp: bxroce_alloc_resource_def p Let_def split: prod.splits if_splits)
  obtain t where c: "bxroce_create_ah_tbl E (r_avs r) s2 = (0, t, s')"
    and r': "r' = r\<lparr>r_pds := pds, r_mrs := mrs, r_dev := snd (bxroce_get_used_rsrc fnz d), r_avs := t\<rparr>"
    using assms
    by (auto simp: bxroce_alloc_resource_def p i bxroce_get_used_rsrc_def Let_def split: prod.splits)
  show ?thesis
    using init_cqqp_ok [OF i] create_ah_tbl_ok [OF c] by (simp add: r' bxroce_get_used_rsrc_def)
qed

text \<open>
  Setting the device up, and removing it. When \<open>bxroce_alloc_resource\<close> returns 0, queue pairs 0
  and 1 and completion queues 0 to 2 are taken and no others, both tables are empty and found
  through their pointers, \<open>used_qps\<close> and \<open>used_cqs\<close> are free numbers, and the 256 address vectors are free.
  The list of the pages of the address vectors has four entries although the vectors take more
  than four pages. \<open>bx_remove\<close> then gives back every object except the buffer of the vectors.
\<close>

theorem setup_and_removal:
  assumes "bxroce_alloc_resource E ptr fnz (bxroce_type_info psz pcl) (bxroce_type_info msz mcl) r s =
      (0, r', s')"
    and "attr (r_dev r) = snd (bxroce_query_device mac ven devn)"
    and "zero_bit_search fnz ffz" and "objs_below s"
  shows "qps_found (r_dev r') \<and> qp_tab_found (r_dev r') \<and> cq_tab_found (r_dev r') \<and>
    qps_bits (r_dev r') = (\<lambda>i. i < 2) \<and> cqs_bits (r_dev r') = (\<lambda>i. i < 3) \<and>
    used_qps (r_dev r') \<in> {2..<1024} \<and> used_cqs (r_dev r') \<in> {3..<1024} \<and>
    length (av_slots (r_avs r')) = 256 \<and> (\<forall>v \<in> set (av_slots (r_avs r')). valid v = 0) \<and>
    4096 * length (pbes (r_avs r')) < av_size (r_avs r') \<and>
    (\<exists>v. av_va (r_avs r') = Some v \<and> live_objs (trace (snd (bx_remove r' s'))) = insert v (live_objs (trace s)))"
proof -
  have a: "max_mr (attr (r_dev r)) = 256 * 1024" "unat (max_qp (attr (r_dev r))) = 1024"
      "unat (max_cq (attr (r_dev r))) = 1024"
    by (simp_all add: assms(2) bxroce_query_device_def)
  note d = alloc_resource_dev [OF assms(1)] and o = alloc_resource_ok [OF assms(1) a(1)]
  have free: "fnz (\<lambda>i. i < m) 1024 0 \<in> {m..<1024}" if "m < 1024" for m
    using zero_bit_search.next_found [OF assms(3), of "\<lambda>i. i < m" 1024 0]
      zero_bit_search.next_none [OF assms(3), of 1024 "\<lambda>i. i < m" 0 1023] that
    by (cases "fnz (\<lambda>i. i < m) 1024 0 < 1024") auto
  have fresh: "next_obj s + k \<notin> live_objs (trace s)" for k
    using assms(4) by (auto simp: objs_below_def)
  have "live_objs (trace (snd (bx_remove r' s'))) = insert (next_obj s + 3) (live_objs (trace s))"
    using o fresh [of 0] fresh [of 1] fresh [of 2]
    by (auto simp: bx_remove_def bxroce_pool_cleanup_def bxroce_pool_put_def bxroce_pool_release_def Let_def)
  then show ?thesis
    using d o free [of 2] free [of 3] by (simp add: qps_found_def qp_tab_found_def cq_tab_found_def a zero_av_def)
qed

definition blank_resources :: resources where
  "blank_resources =
     \<lparr>r_pds = fresh_pool (bxroce_type_info (\<lambda>_. 64) (\<lambda>_. None) BXROCE_TYPE_PD) BXROCE_TYPE_PD 0,
      r_mrs = fresh_pool (bxroce_type_info (\<lambda>_. 512) (\<lambda>_. None) BXROCE_TYPE_MR) BXROCE_TYPE_MR 0,
      r_dev = \<lparr>attr = snd (bxroce_query_device [2, 0, 0, 0, 0, 1] 0x16c3 0xabcd), mem_resources = None,
        qps_bits = (\<lambda>_. False), cqs_bits = (\<lambda>_. False), qp_tab = (\<lambda>_. None), cq_tab = (\<lambda>_. None),
        dev_words = (\<lambda>_. 0), dev_home = (\<lambda>_. 0), next_qp = 0, next_cq = 0, used_qps = 0, used_cqs = 0,
        is_qp1_allocated = False, gsi_sqcq = None, gsi_rqcq = None, ioaddr = 0\<rparr>,
      r_avs = \<lparr>av_va = None, av_pa = 0, av_size = 0, num_ah = 0, av_slots = [], pbl_va = None, pbl_pa = 0,
        pbes = [], ahid = 0\<rparr>\<rparr>"

theorem setup_and_removal_witness:
  "\<exists>r s. bxroce_alloc_resource file_env (\<lambda>_. 0xffff888000000000) scan_next_zero
      (bxroce_type_info (\<lambda>_. 64) (\<lambda>_. None)) (bxroce_type_info (\<lambda>_. 512) (\<lambda>_. None))
      blank_resources empty_kern = (0, r, s) \<and>
    qp_tab_found (r_dev r) \<and> live_objs (trace (snd (bx_remove r s))) = {3}"
proof -
  obtain r s where r: "bxroce_alloc_resource file_env (\<lambda>_. 0xffff888000000000) scan_next_zero
      (bxroce_type_info (\<lambda>_. 64) (\<lambda>_. None)) (bxroce_type_info (\<lambda>_. 512) (\<lambda>_. None))
      blank_resources empty_kern = (0, r, s)" and "av_va (r_avs r) = Some 3"
    by (simp add: bxroce_alloc_resource_def bxroce_init_pools_def bxroce_pool_init_def
        bxroce_type_info_def fresh_pool_def bxroce_pool_init_index_def mr_pool_range kalloc_def Let_def
        pool_consts blank_resources_def bxroce_query_device_def file_env_def empty_kern_def
        bxroce_init_cqqp_def bxroce_get_used_rsrc_def bxroce_create_ah_tbl_def dma_alloc_def)
  moreover have "attr (r_dev blank_resources) = snd (bxroce_query_device [2, 0, 0, 0, 0, 1] 0x16c3 0xabcd)"
    by (simp add: blank_resources_def)
  moreover have "objs_below empty_kern" by (simp add: objs_below_def empty_kern_def)
  ultimately show ?thesis
    using setup_and_removal [OF r _ scan_search.zero_bit_search_axioms] by (auto simp: empty_kern_def)
qed

end
