(* ===== verification/Mac_cfg.thy ===== *)
theory Mac_cfg
  imports Mpb Regs "HOL-Library.Monad_Syntax"
begin

text \<open>
  Configuration of the Ethernet MACs (bx_mac_cfg.c). The registers of the two MACs are mapped
  on the PCIe bar; most functions read one, change some of its fields with \<open>set_bits\<close> and write
  it back. The field ranges are constants between 0 and 31, where \<open>set_bits\<close> is \<open>set_field\<close>.
  \<open>RNIC_PRINTK\<close> is empty in the build, so the register reads in its arguments do not happen.
  None of the macros \<open>MAC_PFC_EN\<close>, \<open>MAC_LOOPBACK_EN\<close>, \<open>JUMBO_EN\<close>, \<open>MPB_SIM_USE_MAC_0\<close> and the
  like is defined. None is a wait for the card that does not end.
\<close>

section \<open>Access\<close>

text \<open>\<open>RNIC_REG_BASE_ADDR_MAC_0\<close> and \<open>RNIC_REG_BASE_ADDR_MAC_1\<close>\<close>

definition mac_base :: "nat \<Rightarrow> u32" where
  "mac_base mac_id = (if mac_id \<noteq> 0 then 0xC000000 else 0xB000000)"

definition mac_reg_write :: "nat \<Rightarrow> u32 \<Rightarrow> u32 \<Rightarrow> kern \<Rightarrow> kern" where
  "mac_reg_write mac_id offset wdata = reg_write (mac_base mac_id + offset) wdata"

definition mac_reg_read :: "env \<Rightarrow> nat \<Rightarrow> u32 \<Rightarrow> kern \<Rightarrow> u32 \<times> kern" where
  "mac_reg_read E mac_id offset = reg_read E (mac_base mac_id + offset)"

text \<open>A read, some fields set one after the other (high bit, low bit, value), and the write.\<close>

definition set_fields :: "(nat \<times> nat \<times> u32) list \<Rightarrow> u32 \<Rightarrow> u32" where
  "set_fields fs data = fold (\<lambda>(h, l, v) d. set_field d h l v) fs data"

definition mac_rmw :: "env \<Rightarrow> nat \<Rightarrow> u32 \<Rightarrow> (nat \<times> nat \<times> u32) list \<Rightarrow> kern \<Rightarrow> kern" where
  "mac_rmw E mac_id addr fs s =
     (let (data, s) = mac_reg_read E mac_id addr s
      in mac_reg_write mac_id addr (set_fields fs data) s)"

fun mac_writes :: "nat \<Rightarrow> (u32 \<times> u32) list \<Rightarrow> kern \<Rightarrow> kern" where
  "mac_writes mac_id [] s = s"
| "mac_writes mac_id ((a, v) # ws) s = mac_writes mac_id ws (mac_reg_write mac_id a v s)"

fun mac_reads :: "env \<Rightarrow> nat \<Rightarrow> u32 list \<Rightarrow> kern \<Rightarrow> kern" where
  "mac_reads E mac_id [] s = s"
| "mac_reads E mac_id (a # as) s = mac_reads E mac_id as (snd (mac_reg_read E mac_id a s))"

text \<open>The loops over the seven channels, with the offset \<open>0x80 * i\<close>.\<close>

definition for_channels :: "(u32 \<Rightarrow> kern \<Rightarrow> kern) \<Rightarrow> kern \<Rightarrow> kern" where
  "for_channels f s = fold (\<lambda>i. f (0x80 * word_of_nat i)) [0..<7] s"

text \<open>\<open>while (get_bits(data, 0, 0) == 1) data = mac_reg_read(rnic_pdata, mac_id, addr);\<close>\<close>

partial_function (option) mac_wait :: "env \<Rightarrow> nat \<Rightarrow> u32 \<Rightarrow> u32 \<Rightarrow> kern \<Rightarrow> (u32 \<times> kern) option" where
  "mac_wait E mac_id addr data s =
     (if get_field data 0 0 = 1
      then mac_wait E mac_id addr (fst (mac_reg_read E mac_id addr s)) (snd (mac_reg_read E mac_id addr s))
      else Some (data, s))"

section \<open>Operations that change fields of one register\<close>

definition mac_recevie_all_en :: "env \<Rightarrow> nat \<Rightarrow> kern \<Rightarrow> kern" where
  "mac_recevie_all_en E mac_id = mac_rmw E mac_id 0x8 [(31, 31, 1)]"

definition mac_loopback_on :: "env \<Rightarrow> nat \<Rightarrow> kern \<Rightarrow> kern" where
  "mac_loopback_on E mac_id = mac_rmw E mac_id 0x4 [(10, 10, 1)]"

definition mac_jumbo_on :: "env \<Rightarrow> nat \<Rightarrow> kern \<Rightarrow> kern" where
  "mac_jumbo_on E mac_id = mac_rmw E mac_id 0x4 [(8, 8, 1)]"

definition mac_loopback_off :: "env \<Rightarrow> nat \<Rightarrow> kern \<Rightarrow> kern" where
  "mac_loopback_off E mac_id = mac_rmw E mac_id 0x4 [(10, 10, 0)]"

definition mac_receive_crc_check_on :: "env \<Rightarrow> nat \<Rightarrow> kern \<Rightarrow> kern" where
  "mac_receive_crc_check_on E mac_id = mac_rmw E mac_id 0x4 [(3, 3, 0)]"

definition mac_receive_crc_check_off :: "env \<Rightarrow> nat \<Rightarrow> kern \<Rightarrow> kern" where
  "mac_receive_crc_check_off E mac_id = mac_rmw E mac_id 0x4 [(3, 3, 1)]"

definition mac_set_blen_for_pcie_mps_lmt :: "env \<Rightarrow> nat \<Rightarrow> kern \<Rightarrow> kern" where
  "mac_set_blen_for_pcie_mps_lmt E mac_id = mac_rmw E mac_id 0x3004 [(7, 0, 0x11), (12, 12, 1)]"

definition mac_set_axi_osr_lmt :: "env \<Rightarrow> nat \<Rightarrow> kern \<Rightarrow> kern" where
  "mac_set_axi_osr_lmt E mac_id = mac_rmw E mac_id 0x3004 [(31, 24, 0x3f), (23, 16, 0x3f)]"

definition mac_ipc_off :: "env \<Rightarrow> nat \<Rightarrow> kern \<Rightarrow> kern" where
  "mac_ipc_off E mac_id = mac_rmw E mac_id 0x4 [(9, 9, 0)]"

definition mac_ipc_on :: "env \<Rightarrow> nat \<Rightarrow> kern \<Rightarrow> kern" where
  "mac_ipc_on E mac_id = mac_rmw E mac_id 0x4 [(9, 9, 1)]"

definition mac_source_addr_replace_on :: "env \<Rightarrow> nat \<Rightarrow> kern \<Rightarrow> kern" where
  "mac_source_addr_replace_on E mac_id = mac_rmw E mac_id 0x0 [(22, 20, 0)]"

definition mac_split_header_on :: "env \<Rightarrow> nat \<Rightarrow> u32 \<Rightarrow> kern \<Rightarrow> kern" where
  "mac_split_header_on E mac_id channel_base_addr = mac_rmw E mac_id (0x3100 + channel_base_addr) [(24, 24, 1)]"

definition mac_split_header_off :: "env \<Rightarrow> nat \<Rightarrow> u32 \<Rightarrow> kern \<Rightarrow> kern" where
  "mac_split_header_off E mac_id channel_base_addr = mac_rmw E mac_id (0x3100 + channel_base_addr) [(24, 24, 0)]"

definition mac_set_dsl :: "env \<Rightarrow> nat \<Rightarrow> u32 \<Rightarrow> kern \<Rightarrow> kern" where
  "mac_set_dsl E mac_id channel_base_addr = mac_rmw E mac_id (0x3100 + channel_base_addr) [(20, 18, 1)]"

definition mac_drop_tcpip_checksum_err_pkg_on :: "env \<Rightarrow> nat \<Rightarrow> u32 \<Rightarrow> kern \<Rightarrow> kern" where
  "mac_drop_tcpip_checksum_err_pkg_on E mac_id channel_base_addr = mac_rmw E mac_id (0x1140 + channel_base_addr) [(6, 6, 0)]"

definition mac_drop_tcpip_checksum_err_pkg_off :: "env \<Rightarrow> nat \<Rightarrow> u32 \<Rightarrow> kern \<Rightarrow> kern" where
  "mac_drop_tcpip_checksum_err_pkg_off E mac_id channel_base_addr = mac_rmw E mac_id (0x1140 + channel_base_addr) [(6, 6, 1)]"

definition mac_dma_promiscuous_mode_en :: "env \<Rightarrow> nat \<Rightarrow> kern \<Rightarrow> kern" where
  "mac_dma_promiscuous_mode_en E mac_id = mac_rmw E mac_id 0x8 [(0, 0, 1)]"

definition mac_dma_intr_mode_cfg :: "env \<Rightarrow> nat \<Rightarrow> kern \<Rightarrow> kern" where
  "mac_dma_intr_mode_cfg E mac_id = mac_rmw E mac_id 0x3000 [(13, 12, 2)]"

definition mac_enable_dspw :: "env \<Rightarrow> nat \<Rightarrow> kern \<Rightarrow> kern" where
  "mac_enable_dspw E mac_id = mac_rmw E mac_id 0x3000 [(8, 8, 1)]"

definition mac_enable_tmrp :: "env \<Rightarrow> nat \<Rightarrow> kern \<Rightarrow> kern" where
  "mac_enable_tmrp E mac_id = mac_rmw E mac_id 0x3000 [(5, 5, 1)]"

definition mac_enable_tdrp :: "env \<Rightarrow> nat \<Rightarrow> kern \<Rightarrow> kern" where
  "mac_enable_tdrp E mac_id = mac_rmw E mac_id 0x3000 [(4, 4, 1)]"

definition mac_rwtu_cfg :: "env \<Rightarrow> nat \<Rightarrow> kern \<Rightarrow> kern" where
  "mac_rwtu_cfg E mac_id = mac_rmw E mac_id 0x313c [(13, 12, 3)]"

definition mac_transmitter_enable :: "env \<Rightarrow> nat \<Rightarrow> kern \<Rightarrow> kern" where
  "mac_transmitter_enable E mac_id = mac_rmw E mac_id 0x0 [(0, 0, 1)]"

definition mac_transmitter_disable :: "env \<Rightarrow> nat \<Rightarrow> kern \<Rightarrow> kern" where
  "mac_transmitter_disable E mac_id = mac_rmw E mac_id 0x0 [(0, 0, 0)]"

definition mac_receiver_enable :: "env \<Rightarrow> nat \<Rightarrow> kern \<Rightarrow> kern" where
  "mac_receiver_enable E mac_id = mac_rmw E mac_id 0x4 [(0, 0, 1)]"

definition mac_receiver_disable :: "env \<Rightarrow> nat \<Rightarrow> kern \<Rightarrow> kern" where
  "mac_receiver_disable E mac_id = mac_rmw E mac_id 0x4 [(0, 0, 0)]"

definition mac_tsf_off :: "env \<Rightarrow> nat \<Rightarrow> kern \<Rightarrow> kern" where
  "mac_tsf_off E mac_id = for_channels (\<lambda>c. mac_rmw E mac_id (0x1100 + c) [(1, 1, 0)])"

definition mac_ttc_cfg :: "env \<Rightarrow> nat \<Rightarrow> kern \<Rightarrow> kern" where
  "mac_ttc_cfg E mac_id = for_channels (\<lambda>c. mac_rmw E mac_id (0x1100 + c) [(6, 4, 3)])"

definition mac_disable_dma_intr_tx :: "env \<Rightarrow> nat \<Rightarrow> kern \<Rightarrow> kern" where
  "mac_disable_dma_intr_tx E mac_id = for_channels (\<lambda>c. mac_rmw E mac_id (0x3138 + c) [(0, 0, 0)])"

definition mac_enable_dma_intr_tx :: "env \<Rightarrow> nat \<Rightarrow> kern \<Rightarrow> kern" where
  "mac_enable_dma_intr_tx E mac_id = for_channels (\<lambda>c. mac_rmw E mac_id (0x3138 + c) [(0, 0, 1)])"

definition mac_dma_rx_int_watchdog_timer_cfg :: "env \<Rightarrow> nat \<Rightarrow> kern \<Rightarrow> kern" where
  "mac_dma_rx_int_watchdog_timer_cfg E mac_id = for_channels (\<lambda>c. mac_rmw E mac_id (0x313c + c) [(25, 16, 0), (13, 12, 1), (7, 0, 0x10)])"

definition mac_enable_mtl_intr :: "nat \<Rightarrow> kern \<Rightarrow> kern" where
  "mac_enable_mtl_intr mac_id = for_channels (\<lambda>c. mac_reg_write mac_id (0x1170 + c) 0xffffffff)"

definition mac_disable_mtl_intr :: "nat \<Rightarrow> kern \<Rightarrow> kern" where
  "mac_disable_mtl_intr mac_id = for_channels (\<lambda>c. mac_reg_write mac_id (0x1170 + c) 0)"

definition mac_enable_dma_intr :: "nat \<Rightarrow> kern \<Rightarrow> kern" where
  "mac_enable_dma_intr mac_id = for_channels (\<lambda>c. mac_reg_write mac_id (0x3138 + c) 0xffffffff)"

definition mac_enable_dma_intr_ri_only :: "nat \<Rightarrow> kern \<Rightarrow> kern" where
  "mac_enable_dma_intr_ri_only mac_id = for_channels (\<lambda>c. mac_reg_write mac_id (0x3138 + c) 0x8040)"

definition mac_disable_dma_intr :: "nat \<Rightarrow> kern \<Rightarrow> kern" where
  "mac_disable_dma_intr mac_id = for_channels (\<lambda>c. mac_reg_write mac_id (0x3138 + c) 0)"

definition mac_enable_dma_riwt_intr :: "nat \<Rightarrow> kern \<Rightarrow> kern" where
  "mac_enable_dma_riwt_intr mac_id = for_channels (\<lambda>c. mac_reg_write mac_id (0x313c + c) 0x3f0000)"

definition mac_disable_dma_riwt_intr :: "nat \<Rightarrow> kern \<Rightarrow> kern" where
  "mac_disable_dma_riwt_intr mac_id = for_channels (\<lambda>c. mac_reg_write mac_id (0x313c + c) 0)"

definition mac_pfc_en :: "nat \<Rightarrow> kern \<Rightarrow> kern" where
  "mac_pfc_en mac_id = mac_writes mac_id [(0x50, 0x600000), (0x60, 0x100000), (0x70, 0x800012), (0x84, 0x800012), (0x90, 0x101),
     (0x160, 0x8040201), (0x164, 0xc02010)]"

definition mac_enable_mac_intr :: "nat \<Rightarrow> kern \<Rightarrow> kern" where
  "mac_enable_mac_intr mac_id = mac_writes mac_id [(0xb4, 0xffffffff)]"

definition mac_disable_mac_intr :: "nat \<Rightarrow> kern \<Rightarrow> kern" where
  "mac_disable_mac_intr mac_id = mac_writes mac_id [(0xb4, 0)]"

definition mac_enable_mmc_intr :: "nat \<Rightarrow> kern \<Rightarrow> kern" where
  "mac_enable_mmc_intr mac_id = mac_writes mac_id [(0x80c, 0xffffffff), (0x810, 0xffffffff)]"

definition mac_disable_mmc_intr :: "nat \<Rightarrow> kern \<Rightarrow> kern" where
  "mac_disable_mmc_intr mac_id = mac_writes mac_id [(0x80c, 0), (0x810, 0)]"

definition mac_use_channel_0_only :: "nat \<Rightarrow> kern \<Rightarrow> kern" where
  "mac_use_channel_0_only mac_id = mac_writes mac_id [(0x1030, 0), (0x1034, 0), (0x1038, 0), (0x103c, 0), (0x1040, 0xff), (0x1044, 0)]"

section \<open>Other operations\<close>

text \<open>The values of \<open>set_bits\<close> are dropped, so the register is written back unchanged.\<close>

definition mac_rxq_flow_control_cfg :: "env \<Rightarrow> nat \<Rightarrow> u32 \<Rightarrow> kern \<Rightarrow> kern" where
  "mac_rxq_flow_control_cfg E mac_id channel_base_addr = mac_rmw E mac_id (0x1150 + channel_base_addr) []"

text \<open>The variable \<open>addr\<close> is computed and not used.\<close>

definition mac_av_cfg :: "env \<Rightarrow> nat \<Rightarrow> kern \<Rightarrow> kern" where
  "mac_av_cfg E mac_id = for_channels (\<lambda>addr. mac_rmw E mac_id 0x313c [(3, 2, 1)])"

definition mac_axi_cfg :: "env \<Rightarrow> nat \<Rightarrow> kern \<Rightarrow> kern" where
  "mac_axi_cfg E mac_id s =
     mac_set_axi_osr_lmt E mac_id (mac_set_blen_for_pcie_mps_lmt E mac_id
       (mac_writes mac_id [(0x3010, 0xa0a0a), (0x3018, 0x6060606), (0x301c, 0xa06)] s))"

definition mac_alloc_rx_fifo :: "env \<Rightarrow> nat \<Rightarrow> kern \<Rightarrow> kern" where
  "mac_alloc_rx_fifo E mac_id =
     for_channels (\<lambda>c. mac_rmw E mac_id (0x1140 + c) [(24, 16, if c = 0 then 0xff else 0)])"

definition mac_pfc_off :: "env \<Rightarrow> nat \<Rightarrow> kern \<Rightarrow> kern" where
  "mac_pfc_off E mac_id s =
     fold (\<lambda>i. mac_rmw E mac_id (0x70 + 4 * word_of_nat i) [(1, 1, 0)]) [0..<7]
       (mac_rmw E mac_id 0x90 [(0, 0, 0), (8, 8, 0)] s)"

definition mac_dma_edma_cfg :: "env \<Rightarrow> nat \<Rightarrow> kern \<Rightarrow> kern" where
  "mac_dma_edma_cfg E mac_id s = mac_rmw E mac_id 0x3044 [(2, 0, 1)] (mac_rmw E mac_id 0x3040 [(2, 0, 1)] s)"

definition mac_disable_all_intr :: "nat \<Rightarrow> kern \<Rightarrow> kern" where
  "mac_disable_all_intr mac_id s =
     for_channels (\<lambda>c. mac_writes mac_id [(0x1170 + c, 0), (0x3138 + c, 0), (0x313c + c, 0)])
       (mac_writes mac_id [(0xb4, 0), (0x80c, 0), (0x810, 0)] s)"

definition mac_enable_all_intr :: "nat \<Rightarrow> kern \<Rightarrow> kern" where
  "mac_enable_all_intr mac_id s =
     for_channels (\<lambda>c. mac_writes mac_id [(0x1170 + c, 0xffffffff), (0x3138 + c, 0xffffffff), (0x313c + c, 0x8c)])
       (mac_writes mac_id [(0xb4, 0xffffffff), (0x80c, 0xffffffff), (0x810, 0xffffffff)] s)"

definition mac_clear_all_intr :: "nat \<Rightarrow> kern \<Rightarrow> kern" where
  "mac_clear_all_intr mac_id =
     for_channels (\<lambda>c. mac_writes mac_id [(0x1174 + c, 0xffffffff), (0x3160 + c, 0xffffffff)])"

definition mac_clear_dma_intr_tx :: "env \<Rightarrow> nat \<Rightarrow> nat \<Rightarrow> kern \<Rightarrow> kern" where
  "mac_clear_dma_intr_tx E mac_id channel_num = mac_rmw E mac_id (0x3160 + word_of_nat channel_num * 0x80) [(0, 0, 1)]"

definition mac_clear_dma_rx_intr :: "env \<Rightarrow> nat \<Rightarrow> nat \<Rightarrow> kern \<Rightarrow> kern" where
  "mac_clear_dma_rx_intr E mac_id channel_num = mac_rmw E mac_id (0x3160 + word_of_nat channel_num * 0x80) [(6, 6, 1)]"

text \<open>The first loop runs once and the second, from 7 to 7, not at all.\<close>

definition mac_bandwidth_alloc :: "env \<Rightarrow> nat \<Rightarrow> kern \<Rightarrow> kern" where
  "mac_bandwidth_alloc E mac_id s =
     (let s = mac_rmw E mac_id 0x1100 [(10, 8, 6), (3, 2, 1)] s;
          s = mac_rmw E mac_id 0x1118 [(20, 0, 14746)] s;
          s = mac_rmw E mac_id 0x111c [(15, 0, 180022)] s;
          s = mac_rmw E mac_id 0x1120 [(28, 0, 844800)] s
      in mac_rmw E mac_id 0x1124 [(28, 0, 0)] s)"

text \<open>The argument \<open>mac_id\<close> is not used.\<close>

definition mac_get_link_status :: "env \<Rightarrow> nat \<Rightarrow> kern \<Rightarrow> u32 \<times> kern" where
  "mac_get_link_status E mac_id s =
     (let (data, s) = mac_reg_read E 0 0xb0 s in (get_field data 25 24, s))"

definition mac_soft_reset :: "env \<Rightarrow> nat \<Rightarrow> kern \<Rightarrow> kern option" where
  "mac_soft_reset E mac_id s =
     (let s = mac_rmw E mac_id 0x3000 [(0, 0, 1)] s;
          (data, s) = mac_reg_read E mac_id 0x3000 s
      in map_option snd (mac_wait E mac_id 0x3000 data s))"

section \<open>The layer 3 and 4 filter\<close>

definition mac_l3_l4_filter_cfg_reg_write :: "env \<Rightarrow> nat \<Rightarrow> u32 \<Rightarrow> u32 \<Rightarrow> kern \<Rightarrow> kern option" where
  "mac_l3_l4_filter_cfg_reg_write E mac_id addr wdata s = do {
     let (data, s) = mac_reg_read E mac_id 0xc00 s;
     (data, s) \<leftarrow> mac_wait E mac_id 0xc00 data s;
     let s = mac_reg_write mac_id 0xc04 wdata s;
     let (data, s) = mac_reg_read E mac_id 0xc00 s;
     (data, s) \<leftarrow> mac_wait E mac_id 0xc00 data s;
     Some (mac_reg_write mac_id 0xc00 (set_fields [(15, 8, addr), (1, 1, 0), (0, 0, 1)] data) s)
   }"

definition mac_l3_l4_filter_cfg_reg_read :: "env \<Rightarrow> nat \<Rightarrow> u32 \<Rightarrow> kern \<Rightarrow> (u32 \<times> kern) option" where
  "mac_l3_l4_filter_cfg_reg_read E mac_id addr s = do {
     let (data, s) = mac_reg_read E mac_id 0xc00 s;
     (data, s) \<leftarrow> mac_wait E mac_id 0xc00 data s;
     let s = mac_reg_write mac_id 0xc00 (set_fields [(15, 8, addr), (1, 1, 1), (0, 0, 1)] data) s;
     let (data, s) = mac_reg_read E mac_id 0xc00 s;
     (data, s) \<leftarrow> mac_wait E mac_id 0xc00 data s;
     Some (mac_reg_read E mac_id 0xc04 s)
   }"

text \<open>\<open>MAC_DMA_CHANNEL_ID_FOR_MPB\<close> is 6; 4791 is the UDP port of RoCE.\<close>

definition mac_mpb_channel_mpb_l3_l4_filter_on :: "env \<Rightarrow> nat \<Rightarrow> kern \<Rightarrow> kern option" where
  "mac_mpb_channel_mpb_l3_l4_filter_on E mac_id s = do {
     (data, s) \<leftarrow> mac_l3_l4_filter_cfg_reg_read E mac_id 0 s;
     let data = set_fields [(31, 31, 1), (27, 24, 6), (20, 20, 1), (16, 16, 1)] data;
     s \<leftarrow> mac_l3_l4_filter_cfg_reg_write E mac_id 0 data s;
     (data, s) \<leftarrow> mac_l3_l4_filter_cfg_reg_read E mac_id 0 s;
     s \<leftarrow> mac_l3_l4_filter_cfg_reg_write E mac_id 1 (push_bit 16 4791) s;
     (data, s) \<leftarrow> mac_l3_l4_filter_cfg_reg_read E mac_id 0 s;
     (data, s) \<leftarrow> mac_l3_l4_filter_cfg_reg_read E mac_id 1 s;
     Some s
   }"

section \<open>Initialisation\<close>

text \<open>The fields of \<open>struct rnic_pdata\<close> these functions read.\<close>

record rnic_pdata =
  mac_0_speed_mode :: u32
  mac_1_speed_mode :: u32
  malloc_high_addr :: u32
  tx_desc_base_addr :: u32
  rx_desc_base_addr :: u32

definition mac_speed_cfg :: "env \<Rightarrow> rnic_pdata \<Rightarrow> nat \<Rightarrow> kern \<Rightarrow> kern" where
  "mac_speed_cfg E P mac_id =
     mac_rmw E mac_id 0 [(30, 28, if mac_id \<noteq> 0 then mac_1_speed_mode P else mac_0_speed_mode P)]"

definition mac_eth_channel_cfg :: "env \<Rightarrow> rnic_pdata \<Rightarrow> nat \<Rightarrow> nat \<Rightarrow> kern \<Rightarrow> kern" where
  "mac_eth_channel_cfg E P mac_id channel_id s =
     (let c = 0x80 * word_of_nat channel_id;
          s = mac_writes mac_id
           [(0x1100 + c, 0xff000a), (0x1118 + c, 0xa), (0x1140 + c, 0xff00b0),
            (0x1170 + c, 0x10000), (0x3100 + c, 0x10000), (0x3138 + c, 0xffff),
            (0x3110 + c, malloc_high_addr P), (0x3114 + c, tx_desc_base_addr P),
            (0x3118 + c, malloc_high_addr P), (0x311c + c, rx_desc_base_addr P),
            (0x3120 + c, malloc_high_addr P), (0x3124 + c, tx_desc_base_addr P),
            (0x3128 + c, malloc_high_addr P), (0x312c + c, rx_desc_base_addr P),
            (0x3130 + c, 0x3ff), (0x3134 + c, 0x3ff)] s;
          s = mac_set_blen_for_pcie_mps_lmt E mac_id s;
          s = mac_split_header_off E mac_id c s;
          s = mac_drop_tcpip_checksum_err_pkg_off E mac_id c s
      in mac_writes mac_id [(0x3104 + c, 0x200001), (0x3108 + c, 0x207fe1)] s)"

text \<open>The registers are read back and printed at the end.\<close>

definition mac_mpb_channel_cfg :: "env \<Rightarrow> nat \<Rightarrow> kern \<Rightarrow> kern option" where
  "mac_mpb_channel_cfg E mac_id s = do {
     let h = ((if mac_id = 0 then 0x8000 else 0xC000) :: u32);
     let c = 0x80 * 6;
     let s = mac_writes mac_id
           [(0x1100 + c, 0x3f050a), (0x1118 + c, 0xa), (0x1140 + c, 0xff00b0),
            (0x1170 + c, 0x10000), (0x3100 + c, 0x10000), (0x3130 + c, 0x3ff),
            (0x3134 + c, 0x3ff), (0x3110 + c, h), (0x3114 + c, 0), (0x3124 + c, 0),
            (0x3120 + c, h), (0x3118 + c, 1 + h), (0x311c + c, 0), (0x312c + c, 0),
            (0x3128 + c, 1 + h), (0x3138 + c, 0xc0c5)] s;
     let s = mac_split_header_off E mac_id c s;
     let s = mac_drop_tcpip_checksum_err_pkg_off E mac_id c s;
     s \<leftarrow> mac_mpb_channel_mpb_l3_l4_filter_on E mac_id s;
     let s = mac_writes mac_id [(0x3104 + c, 0x200001), (0x3108 + c, 0x207fe1)] s;
     Some (mac_reads E mac_id (map ((+) c) [0x1100, 0x1118, 0x1140, 0x1170, 0x3100, 0x3138, 0x3110, 0x3114, 0x3118, 0x311c, 0x3120, 0x3124, 0x3128, 0x312c, 0x3130, 0x3134] @ [0xc00, 0xc04, 0x3104 + c, 0x3108 + c]) s)
   }"

definition mac_init_cust :: "env \<Rightarrow> rnic_pdata \<Rightarrow> nat \<Rightarrow> kern \<Rightarrow> kern option" where
  "mac_init_cust E P mac_id s = do {
     s \<leftarrow> mac_soft_reset E mac_id s;
     let s = mac_writes mac_id [(0x0, 0x30110001), (0x4, 5), (0x8, 0x80), (0x140, 0x802), (0x150, 0),
     (0x300, 0x80005a5a), (0x304, 0x5a5a5a5a), (0x1000, 0), (0x1030, 0x3020180),
     (0x1034, 0x7068004), (0x1038, 0xb0a0908), (0x1040, 0), (0x1044, 0x2000), (0x3000, 0),
     (0x3004, 0xf0f08ff), (0x3010, 0xa0a0a), (0x3018, 0x6060606), (0x301c, 0xa06),
     (0x3040, 1), (0x3044, 1)] s;
     let s = mac_ipc_on E mac_id s;
     let s = mac_recevie_all_en E mac_id s;
     let s = mac_receive_crc_check_on E mac_id s;
     let s = mac_source_addr_replace_on E mac_id s;
     let s = mac_speed_cfg E P mac_id s;
     Some (mac_use_channel_0_only mac_id s)
   }"

section \<open>Reports\<close>

text \<open>Functions that read and print. \<open>addr_range a b\<close> are the addresses from \<open>a\<close> below \<open>b\<close>, step 4.\<close>

definition addr_range :: "nat \<Rightarrow> nat \<Rightarrow> u32 list" where
  "addr_range a b = map (\<lambda>k. word_of_nat (a + 4 * k)) [0..<(b - a + 3) div 4]"

definition per_channel :: "u32 list \<Rightarrow> u32 list" where
  "per_channel as = concat (map (\<lambda>a. map (\<lambda>i. a + 0x80 * word_of_nat i) [0..<7]) as)"

definition mac_print_all_regs :: "env \<Rightarrow> nat \<Rightarrow> kern \<Rightarrow> kern" where
  "mac_print_all_regs E mac_id =
     mac_reads E mac_id
       (addr_range 0 0xc4 @ addr_range 0xd0 0xdc @ addr_range 0x110 0x124 @ addr_range 0x140 0x144 @
        addr_range 0x150 0x154 @ addr_range 0x160 0x16c @ addr_range 0x200 0x268 @ addr_range 0x300 0x400 @
        addr_range 0x800 0x9a0 @ addr_range 0xc00 0xdbc @ addr_range 0x1000 0x1048 @
        per_channel (addr_range 0x1100 0x1174) @ per_channel (addr_range 0x111c 0x1124) @
        addr_range 0x3000 0x3050 @ per_channel (addr_range 0x3100 0x317c))"

definition mac_report_mtl_rxq_missed_pkt_overflow_cnt :: "env \<Rightarrow> nat \<Rightarrow> kern \<Rightarrow> kern" where
  "mac_report_mtl_rxq_missed_pkt_overflow_cnt E mac_id = mac_reads E mac_id (per_channel [0x1144])"

definition mac_report_dma_ch_miss_frame_cnt :: "env \<Rightarrow> nat \<Rightarrow> kern \<Rightarrow> kern" where
  "mac_report_dma_ch_miss_frame_cnt E mac_id = mac_reads E mac_id (per_channel [0x31c6])"

definition mac_report_tx_rx_status :: "env \<Rightarrow> nat \<Rightarrow> kern \<Rightarrow> kern" where
  "mac_report_tx_rx_status E mac_id = mac_reads E mac_id (addr_range 0x800 0x9a0)"

definition mac_report_status :: "env \<Rightarrow> nat \<Rightarrow> kern \<Rightarrow> kern" where
  "mac_report_status E mac_id s =
     mac_report_tx_rx_status E mac_id (mac_report_dma_ch_miss_frame_cnt E mac_id
       (mac_report_mtl_rxq_missed_pkt_overflow_cnt E mac_id s))"

definition mac_report_desc_status :: "env \<Rightarrow> nat \<Rightarrow> kern \<Rightarrow> kern" where
  "mac_report_desc_status E mac_id =
     mac_reads E mac_id [0x3130, 0x3134, 0x3110, 0x3118, 0x3120, 0x3128, 0x3140, 0x3148, 0x3150, 0x3158,
       0x3114, 0x311c, 0x3124, 0x312c, 0x3144, 0x314c, 0x3154, 0x315c, 0x3160, 0x3164, 0x316c,
       0x3100, 0x3104, 0x3108]"

end
