(* ===== verification/Cq.thy ===== *)
theory Cq
  imports Dev Context Post Mac_cfg
begin

text \<open>
  Completion queues (bxroce_verbs.c, bxroce_hw.c): their three rings in one DMA buffer, the verbs
  that create, resize, destroy and poll them, and the translation of completion entries. The
  entries of the rings are written by the card: what a read of the buffer finds at a byte offset
  is an argument. None is undefined behaviour, or a failed \<open>BUG_ON\<close>.
\<close>

section \<open>Entries\<close>

record txcqe =
  tx_pkey :: u16
  tx_opcode :: u8
  tx_destqp :: u16
  tx_reserved1 :: u32
  tx_reserved2 :: u16
  tx_reserved3 :: u8
  tx_immdt :: u32

record rxcqe =
  bth_pkey :: u16
  bth_24_31 :: u8
  bth_destqp :: u16
  destqpeec :: u16        \<comment> \<open>\<open>rcvdestqpeecofremoterqt\<close>, \<open>destqpeecofremoterqt\<close>\<close>
  bth_64_87_lo :: u16
  bth_64_87_hi :: u8
  aeth :: u8
  rx_immdt :: u32
  hff :: u8

type_synonym xmitcqe = rxcqe

definition sizeof_cqe :: nat where "sizeof_cqe = 16"

section \<open>Queues\<close>

text \<open>
  \<open>cq_buf\<close> is the buffer at \<open>txva\<close>; \<open>xmitva\<close> and \<open>rxva\<close> lie \<open>len\<close> and \<open>2 * len\<close> bytes into it.
  \<open>cq_uctx\<close> is the context of the owner.
\<close>

record cq =
  cq_obj :: nat
  cqe :: int
  cq_qp_id :: u32
  cq_buf :: "nat option"
  txwp :: u32
  txrp :: u32
  rxwp :: u32
  rxrp :: u32
  xmitwp :: u32
  xmitrp :: u32
  txpa :: u64
  rxpa :: u64
  xmitpa :: u64
  cqe_size :: u32
  max_hw_cqe :: u32
  cq_id :: u32
  cqe_cnt :: u32
  cq_len :: u32
  cq_uctx :: "nat option"

definition zero_cq :: "nat \<Rightarrow> cq" where
  "zero_cq c = \<lparr>cq_obj = c, cqe = 0, cq_qp_id = 0, cq_buf = None, txwp = 0, txrp = 0, rxwp = 0, rxrp = 0,
     xmitwp = 0, xmitrp = 0, txpa = 0, rxpa = 0, xmitpa = 0, cqe_size = 0, max_hw_cqe = 0, cq_id = 0,
     cqe_cnt = 0, cq_len = 0, cq_uctx = None\<rparr>"

definition roundup :: "u32 \<Rightarrow> u32 \<Rightarrow> u32" where
  "roundup x y = (x + (y - 1)) div y * y"

definition page_align :: "u32 \<Rightarrow> u32" where
  "page_align x = (x + 0xfff) AND NOT 0xfff"

definition bxroce_hw_create_cq :: "env \<Rightarrow> dev_attr \<Rightarrow> cq \<Rightarrow> kern \<Rightarrow> int \<times> cq \<times> kern" where
  "bxroce_hw_create_cq E a c s =
     (let c = c\<lparr>max_hw_cqe := max_cqe a, cqe_size := word_of_nat sizeof_cqe\<rparr>;
          c = c\<lparr>cq_len := roundup (max_cqe a * cqe_size c) 4096\<rparr>
      in case dma_alloc E (cq_len c * 3) s of
           (None, s) \<Rightarrow> (- ENOMEM, c\<lparr>cq_buf := None\<rparr>, s)
         | (Some (b, pa), s) \<Rightarrow>
             (0, c\<lparr>cq_buf := Some b, txpa := pa, xmitpa := pa + ucast (cq_len c),
                   rxpa := pa + ucast (cq_len c) + ucast (cq_len c),
                   txwp := 0, txrp := 0, rxwp := 0, rxrp := 0, xmitwp := 0, xmitrp := 0,
                   cqe_cnt := cq_len c div cqe_size c\<rparr>, s))"

section \<open>Creation and destruction\<close>

text \<open>\<open>udata\<close> is dereferenced.\<close>

definition bxroce_copy_cq_uresp :: "env \<Rightarrow> (nat \<Rightarrow> u64) \<Rightarrow> cq \<Rightarrow> bool \<Rightarrow> ucontext \<Rightarrow> kern \<Rightarrow>
    (int \<times> cq \<times> ucontext \<times> kern) option" where
  "bxroce_copy_cq_uresp E virt_to_phys c udata u s =
     (case (udata, cq_buf c) of
        (True, Some b) \<Rightarrow>
          (let (ok, s) = copy_user E s
           in if \<not> ok then Some (- EFAULT, c, u, s)
              else
                let (status, u, s) = bxroce_add_mmap E u (virt_to_phys b) (ucast (3 * page_align (cq_len c))) s
                in if status \<noteq> 0 then Some (status, c, u, s)
                   else Some (0, c\<lparr>cq_uctx := Some (uctx_obj u)\<rparr>, u, s))
      | _ \<Rightarrow> None)"

definition bxroce_free_cqresource :: "dev \<Rightarrow> cq \<Rightarrow> kern \<Rightarrow> dev \<times> cq \<times> kern" where
  "bxroce_free_cqresource d c s =
     (let s = (case cq_buf c of None \<Rightarrow> s | Some b \<Rightarrow> dma_free b s)
      in (d\<lparr>cqs_bits := bxroce_free_cqqpresource (cqs_bits d) (unat (cq_id c))\<rparr>, c\<lparr>cq_buf := None\<rparr>, s))"

definition bxroce_create_cq :: "env \<Rightarrow> klib \<Rightarrow> (nat \<Rightarrow> u64) \<Rightarrow> bool \<Rightarrow> ucontext option \<Rightarrow> dev \<Rightarrow> kern \<Rightarrow>
    ((int + cq) \<times> ucontext option \<times> dev \<times> kern) option" where
  "bxroce_create_cq E L virt_to_phys udata ibctx d s =
     (let (ok, s) = (if udata then copy_user E s else (True, s))
      in if \<not> ok then Some (Inl (- EFAULT), ibctx, d, s)
         else case kalloc E s of
           (None, s) \<Rightarrow> Some (Inl (- ENOMEM), ibctx, d, s)
         | (Some p, s) \<Rightarrow>
             (case bxroce_alloc_cqqpresource (find_next_zero_bit L) (find_first_zero_bit L) (cqs_bits d)
                  (unat (max_cq (attr d))) (next_cq d) of
                (status, bm, None, nx) \<Rightarrow> Some (Inl status, ibctx, d, kfree (Some p) s)
              | (status, bm, Some n, nx) \<Rightarrow>
                  (let d = d\<lparr>cqs_bits := bm, next_cq := nx\<rparr>;
                       c = (zero_cq p)\<lparr>cq_id := word_of_nat n\<rparr>;
                       (status, c, s) = bxroce_hw_create_cq E (attr d) c s
                   in if status \<noteq> 0 then Some (Inl status, ibctx, d, kfree (Some p) s)
                      else do {
                        (status, c, ibctx, s) \<leftarrow>
                          (case ibctx of
                             None \<Rightarrow> Some (0, c, None, s)
                           | Some u \<Rightarrow> do {
                               (status, c, u, s) \<leftarrow> bxroce_copy_cq_uresp E virt_to_phys c udata u s;
                               Some (status, c, Some u, s)
                             });
                        if status \<noteq> 0
                        then let (d, c, s) = bxroce_free_cqresource d c s
                             in Some (Inl status, ibctx, d, kfree (Some p) s)
                        else if cq_tab_found d
                             then Some (Inr c, ibctx, d\<lparr>cq_tab := (cq_tab d)(unat (cq_id c) \<mapsto> p)\<rparr>, s)
                             else None
                      })))"

definition bxroce_resize_cq :: "cq \<Rightarrow> int \<Rightarrow> int \<times> cq" where
  "bxroce_resize_cq c n =
     (if n < 1 \<or> (word_of_int n :: u32) > max_hw_cqe c then (- EINVAL, c) else (0, c\<lparr>cqe := n\<rparr>))"

text \<open>\<open>u\<close> is the context \<open>cq->uctx\<close> points to, when it is set.\<close>

definition bxroce_destroy_cq :: "cq \<Rightarrow> ucontext option \<Rightarrow> dev \<Rightarrow> kern \<Rightarrow>
    (int \<times> ucontext option \<times> dev \<times> kern) option" where
  "bxroce_destroy_cq c u d s =
     (if \<not> cq_tab_found d then None
      else let d = d\<lparr>cq_tab := (cq_tab d)(unat (cq_id c) := None)\<rparr>;
               (d, c, s) = bxroce_free_cqresource d c s;
               (u, s) = (case (cq_uctx c, u) of
                  (Some _, Some u) \<Rightarrow>
                    (let (u, s) = bxroce_del_mmap u (txpa c) (ucast (3 * page_align (cq_len c))) s in (Some u, s))
                | _ \<Rightarrow> (u, s))
           in Some (0, u, d, kfree (Some (cq_obj c)) s))"

section \<open>Pointers of the rings\<close>

text \<open>A pointer into the buffer is its byte offset from \<open>txva\<close>.\<close>

definition bxroce_txcq_head :: "cq \<Rightarrow> nat" where
  "bxroce_txcq_head c = unat (cqe_size c * txrp c)"

definition bxroce_rxcq_head :: "cq \<Rightarrow> nat" where
  "bxroce_rxcq_head c = 2 * unat (cq_len c) + unat (cqe_size c * rxrp c)"

definition bxroce_xmitcq_head :: "cq \<Rightarrow> nat" where
  "bxroce_xmitcq_head c = unat (cq_len c) + unat (cqe_size c * xmitrp c)"

text \<open>Ask the card for its write pointer of a ring: the bus address, under the lock.\<close>

definition read_wp :: "env \<Rightarrow> u32 \<Rightarrow> u32 \<Rightarrow> u32 \<Rightarrow> kern \<Rightarrow> u64 \<times> kern" where
  "read_wp E opreg wpreg qpn s =
     (let s = mutex_lock Hw_lock s;
          s = pgu_write opreg (push_bit 2 qpn + 0x1) s;
          (lo, s) = pgu_read E wpreg s;
          (hi, s) = pgu_read E (wpreg + 0x4) s;
          s = mutex_unlock Hw_lock s
      in (push_bit 32 (ucast hi) + ucast lo, s))"

definition bxroce_txcq_hwwp :: "env \<Rightarrow> u32 \<Rightarrow> cq \<Rightarrow> kern \<Rightarrow> (nat \<times> cq \<times> kern) option" where
  "bxroce_txcq_hwwp E qpn c s =
     (let (wp, s) = read_wp E CQESIZE CQWRITEPTR qpn s
      in if cqe_size c = 0 then None
         else let c = c\<lparr>txwp := ucast ((wp - txpa c) div ucast (cqe_size c))\<rparr>
              in Some (unat (txwp c * cqe_size c), c, s))"

definition bxroce_rxcq_hwwp :: "env \<Rightarrow> u32 \<Rightarrow> cq \<Rightarrow> kern \<Rightarrow> (nat \<times> cq \<times> kern) option" where
  "bxroce_rxcq_hwwp E qpn c s =
     (let (wp, s) = read_wp E RxCQEOp RxCQWPT qpn s
      in if cqe_size c = 0 then None
         else let c = c\<lparr>rxwp := ucast ((wp - rxpa c) div ucast (cqe_size c))\<rparr>
              in Some (2 * unat (cq_len c) + unat (rxwp c * cqe_size c), c, s))"

definition bxroce_xmitcq_hwwp :: "env \<Rightarrow> u32 \<Rightarrow> cq \<Rightarrow> kern \<Rightarrow> (nat \<times> cq \<times> kern) option" where
  "bxroce_xmitcq_hwwp E qpn c s =
     (let (wp, s) = read_wp E XmitCQEOp XmitCQWPT qpn s
      in if cqe_size c = 0 then None
         else let c = c\<lparr>xmitwp := ucast ((wp - xmitpa c) div ucast (cqe_size c))\<rparr>
              in Some (unat (cq_len c) + unat (xmitwp c * cqe_size c), c, s))"

text \<open>The new read pointer is computed, and the writes that would publish it are commented out.\<close>

definition bxroce_update_hw_txcq_rp :: "u32 \<Rightarrow> cq \<Rightarrow> kern \<Rightarrow> kern" where
  "bxroce_update_hw_txcq_rp qpn c s = s"

definition bxroce_update_hw_rxcq_rp :: "u32 \<Rightarrow> cq \<Rightarrow> kern \<Rightarrow> kern" where
  "bxroce_update_hw_rxcq_rp qpn c s = s"

section \<open>Work completions\<close>

datatype wc_status = IB_WC_SUCCESS | IB_WC_GENERAL_ERR
datatype wc_opcode = IB_WC_SEND | IB_WC_RDMA_WRITE | IB_WC_RDMA_READ | IB_WC_RECV

record wc =
  wc_wr_id :: u64
  wc_status :: wc_status
  wc_opcode :: wc_opcode
  wc_byte_len :: u32
  wc_qp :: u32
  wc_grh :: bool
  wc_with_imm :: bool
  wc_imm :: u32
  wc_src_qp :: u32
  wc_pkey_index :: u16

definition bxroce_get_hwq_by_idx :: "qp \<Rightarrow> u32 \<Rightarrow> wqe option" where
  "bxroce_get_hwq_by_idx q i = (if unat i < length (sq_mem q) then Some (sq_mem q ! unat i) else None)"

definition bxroce_update_wc :: "qp \<Rightarrow> wc \<Rightarrow> u32 \<Rightarrow> txcqe \<Rightarrow> wc option" where
  "bxroce_update_wc q w idx e =
     (if unat idx < length (wr_id_tbl q)
      then let w = w\<lparr>wc_wr_id := fst (wr_id_tbl q ! unat idx)\<rparr>; opcode = tx_opcode e AND 0x0f
           in if opcode = RDMA_WRITE then Some (w\<lparr>wc_opcode := IB_WC_RDMA_WRITE\<rparr>)
              else if opcode = RDMA_READ then
                map_option (\<lambda>x. w\<lparr>wc_opcode := IB_WC_RDMA_READ, wc_byte_len := dmalen x\<rparr>)
                  (bxroce_get_hwq_by_idx q idx)
              else if opcode = SEND \<or> opcode = SEND_WITH_IMM \<or> opcode = SEND_WITH_INV
                   then Some (w\<lparr>wc_opcode := IB_WC_SEND\<rparr>)
              else Some (w\<lparr>wc_status := IB_WC_GENERAL_ERR\<rparr>)
      else None)"

text \<open>The result is the queue pair, the completion and \<open>*polled\<close>.\<close>

definition bxroce_poll_success_scqe :: "qp \<Rightarrow> txcqe \<Rightarrow> wc \<Rightarrow> (qp \<times> wc \<times> bool) option" where
  "bxroce_poll_success_scqe q e w = do {
     let t = tail (sq q);
     (w, polled) \<leftarrow>
       (if unat t < length (wr_id_tbl q)
        then if snd (wr_id_tbl q ! unat t) \<noteq> 0 then Some (w, False)
             else map_option (\<lambda>w. (w, True))
               (bxroce_update_wc q (w\<lparr>wc_status := IB_WC_SUCCESS, wc_grh := False, wc_with_imm := False,
                  wc_qp := qp_id q\<rparr>) t e)
        else None);
     Some (q\<lparr>sq := bxroce_hwq_inc_tail (sq q)\<rparr>, w, polled)
   }"

definition bxroce_update_ud_rcqe :: "wc \<Rightarrow> rxcqe \<Rightarrow> wc" where
  "bxroce_update_ud_rcqe w e =
     w\<lparr>wc_src_qp := ucast (bth_destqp e AND 0x3ff), wc_pkey_index := 0, wc_grh := True, wc_with_imm := False\<rparr>"

definition swap32 :: "u32 \<Rightarrow> u32" where
  "swap32 w = push_bit 24 (w AND 0xff) OR push_bit 8 (w AND 0xff00) OR
     drop_bit 8 (w AND 0xff0000) OR drop_bit 24 w"

definition bxroce_poll_success_rcqe :: "qp \<Rightarrow> rxcqe \<Rightarrow> wc \<Rightarrow> (qp \<times> wc \<times> bool) option" where
  "bxroce_poll_success_rcqe q e w =
     (let w = w\<lparr>wc_grh := False, wc_with_imm := False, wc_opcode := IB_WC_RECV, wc_qp := qp_id q,
                wc_status := IB_WC_SUCCESS\<rparr>;
          w = (if qp_type q = IB_QPT_UD \<or> qp_type q = IB_QPT_GSI then bxroce_update_ud_rcqe w e else w);
          w = (if rx_immdt e \<noteq> 0 then w\<lparr>wc_imm := swap32 (rx_immdt e), wc_with_imm := True\<rparr> else w)
      in if unat (tail (rq q)) < length (rqe_wr_id_tbl q)
         then Some (q\<lparr>rq := bxroce_hwq_inc_tail (rq q)\<rparr>,
                    w\<lparr>wc_wr_id := rqe_wr_id_tbl q ! unat (tail (rq q))\<rparr>, True)
         else None)"

section \<open>Polling\<close>

text \<open>An entry at a byte offset lies in the buffer, and the buffer exists.\<close>

definition entry_inside :: "cq \<Rightarrow> nat \<Rightarrow> bool" where
  "entry_inside c off \<longleftrightarrow> cq_buf c \<noteq> None \<and> off + sizeof_cqe \<le> 3 * unat (cq_len c)"

text \<open>
  The loop that visits the receive and the transmit ring. \<open>mem\<close> is what the buffer holds at a
  byte offset; the totals are printed.
\<close>

fun poll_loop :: "(nat \<Rightarrow> rxcqe) \<Rightarrow> nat \<Rightarrow> cq \<Rightarrow> nat \<times> nat \<Rightarrow> ((nat \<times> nat) \<times> cq) option" where
  "poll_loop mem 0 c tot = Some (tot, c)"
| "poll_loop mem (Suc tmpvalue) c (rx, xmit) =
     (if entry_inside c (bxroce_rxcq_head c) \<and> entry_inside c (bxroce_xmitcq_head c)
      then let rx = (if hff (mem (bxroce_rxcq_head c)) \<noteq> 0 then rx + 1 else rx);
               xmit = (if hff (mem (bxroce_xmitcq_head c)) \<noteq> 0 then xmit + 1 else xmit)
           in poll_loop mem tmpvalue
                (c\<lparr>rxrp := (rxrp c + 1) mod 256, xmitrp := (xmitrp c + 1) mod 256\<rparr>) (rx, xmit)
      else None)"

text \<open>
  \<open>ids\<close> gives the number of a queue pair object that exists. The result is the number of
  completions, the totals printed, the queue and the history.
\<close>

definition bxroce_poll_hwcq :: "env \<Rightarrow> (nat \<Rightarrow> rxcqe) \<Rightarrow> dev \<Rightarrow> (nat \<Rightarrow> u32 option) \<Rightarrow> cq \<Rightarrow> int \<Rightarrow> kern \<Rightarrow>
    (int \<times> (nat \<times> nat) \<times> cq \<times> kern) option" where
  "bxroce_poll_hwcq E mem d ids c num_entries s = do {
     let s = mutex_lock Dev_lock s;
     q \<leftarrow> (if qp_tab_found d \<and> cq_qp_id c < max_qp (attr d) then qp_tab d (unat (cq_qp_id c)) else None);
     let s = mutex_unlock Dev_lock s;
     qpn \<leftarrow> ids q;
     (txwpcqe, c, s) \<leftarrow> bxroce_txcq_hwwp E qpn c s;
     (rxwpcqe, c, s) \<leftarrow> bxroce_rxcq_hwwp E qpn c s;
     (xmitwpcqe, c, s) \<leftarrow> bxroce_xmitcq_hwwp E qpn c s;
     if entry_inside c (bxroce_txcq_head c) \<and> entry_inside c (bxroce_rxcq_head c) \<and>
        entry_inside c (bxroce_xmitcq_head c)
     then do {
       (tot, c) \<leftarrow> (if num_entries \<noteq> 0 then poll_loop mem 400 c (0, 0) else Some ((0, 0), c));
       if entry_inside c (bxroce_rxcq_head c) \<and> entry_inside c (bxroce_xmitcq_head c)
       then Some (0, tot, c, s) else None
     }
     else None
   }"

definition mac_dma_reads :: "env \<Rightarrow> u32 list \<Rightarrow> kern \<Rightarrow> kern" where
  "mac_dma_reads E offs = fold (\<lambda>off s. snd (readl E Mac_regs (0x3100 + 0x80 * 6 + off) s)) offs"

definition bxroce_poll_cq :: "env \<Rightarrow> (nat \<Rightarrow> rxcqe) \<Rightarrow> dev \<Rightarrow> (nat \<Rightarrow> u32 option) \<Rightarrow> cq \<Rightarrow> int \<Rightarrow> kern \<Rightarrow>
    (int \<times> (nat \<times> nat) \<times> cq \<times> kern) option" where
  "bxroce_poll_cq E mem d ids c num_entries s = do {
     let s = mutex_lock Cq_lock s;
     (num_os_cqe, tot, c, s) \<leftarrow> bxroce_poll_hwcq E mem d ids c num_entries s;
     let s = mutex_unlock Cq_lock s;
     let s = mutex_lock Hw_lock s;
     let s = mac_print_all_regs E 0 s;
     let s = snd (pgu_read E GENRSP s);
     let s = snd (pgu_read E 0x2024 s);
     let s = snd (pgu_read E 0x2028 s);
     let s = mac_dma_reads E [0x44, 0x40, 0x4c, 0x48, 0x54, 0x50, 0x5c, 0x58] s;
     let s = mutex_unlock Hw_lock s;
     Some (num_os_cqe, tot, c, s)
   }"

definition bxroce_arm_cq :: "cq \<Rightarrow> int \<times> cq" where
  "bxroce_arm_cq c = (0, c)"

end
