(* ===== verification/Pbu.thy ===== *)
theory Pbu
  imports Mpb "HOL-Library.Monad_Syntax"
begin

text \<open>
  The packet buffer unit (bx_pbu.c), which checks the sequence number, the partition key and
  the queue key of what a queue pair receives. Its registers are addressed by a partition
  (queue pair or EE context), a field and a number, packed into one word by \<open>set_bits\<close>; None
  is the undefined shift of \<open>set_bits\<close> outside 0 to 31, which no call here reaches.
\<close>

section \<open>Registers\<close>

abbreviation (input) BASE_ADDR_PBU :: u32 where "BASE_ADDR_PBU \<equiv> 0x10000000"
abbreviation (input) QP_PARTION :: u32 where "QP_PARTION \<equiv> 1"
abbreviation (input) EEC_PARTION :: u32 where "EEC_PARTION \<equiv> 0"
abbreviation (input) PSN_PARTION :: u32 where "PSN_PARTION \<equiv> 0"
abbreviation (input) QKEY_PARTION :: u32 where "QKEY_PARTION \<equiv> 1"
abbreviation (input) PKEY_PARTION :: u32 where "PKEY_PARTION \<equiv> 2"
abbreviation (input) REG_PARTION :: u32 where "REG_PARTION \<equiv> 3"

datatype service_type = RC_TYPE | RD_TYPE | UD_TYPE

definition pbu_reg_write :: "u32 \<Rightarrow> u32 \<Rightarrow> kern \<Rightarrow> kern" where
  "pbu_reg_write addr data = mpb_reg_write BASE_ADDR_PBU addr data"

definition pbu_reg_read :: "env \<Rightarrow> u32 \<Rightarrow> kern \<Rightarrow> u32 \<times> kern" where
  "pbu_reg_read E addr = mpb_reg_read E BASE_ADDR_PBU addr"

text \<open>
  The three calls of \<open>set_bits\<close> that make an address, with \<open>REG_TYPE_PARTION\<close>,
  \<open>REG_PARTION_ADDR\<close> and \<open>REG_OFFSET\<close>, and the two that make the value of a key register.
\<close>

definition pbu_addr :: "u32 \<Rightarrow> u32 \<Rightarrow> u32 \<Rightarrow> u32 option" where
  "pbu_addr part field off = do {
     addr \<leftarrow> set_bits 0 24 24 part;
     addr \<leftarrow> set_bits addr 26 25 field;
     set_bits addr 23 0 off
   }"

definition pbu_pkey :: "u32 \<Rightarrow> u32 option" where
  "pbu_pkey init_pkey = do {
     wdata \<leftarrow> set_bits init_pkey 16 16 1;
     set_bits wdata 31 17 0
   }"

section \<open>Operations\<close>

definition pbu_init_for_recv_req :: "env \<Rightarrow> service_type \<Rightarrow> u32 \<Rightarrow> u32 \<Rightarrow> u32 \<Rightarrow> u32 \<Rightarrow> u32 \<Rightarrow> kern \<Rightarrow>
    kern option" where
  "pbu_init_for_recv_req E service_type dst_qp dst_eec init_psn init_pkey init_qkey s = do {
     let s = pbu_reg_write 0 0 s;
     case service_type of
       RC_TYPE \<Rightarrow> do {
         addr \<leftarrow> pbu_addr QP_PARTION PSN_PARTION dst_qp;
         let s = pbu_reg_write addr init_psn s;
         let (regval, s) = pbu_reg_read E addr s;
         addr \<leftarrow> pbu_addr QP_PARTION PKEY_PARTION dst_qp;
         wdata \<leftarrow> pbu_pkey init_pkey;
         let s = pbu_reg_write addr wdata s;
         let (regval, s) = pbu_reg_read E addr s;
         Some s
       }
     | RD_TYPE \<Rightarrow> do {
         addr \<leftarrow> pbu_addr EEC_PARTION PSN_PARTION dst_eec;
         let s = pbu_reg_write addr init_psn s;
         addr \<leftarrow> pbu_addr QP_PARTION PKEY_PARTION dst_qp;
         wdata \<leftarrow> pbu_pkey init_pkey;
         let s = pbu_reg_write addr wdata s;
         addr \<leftarrow> pbu_addr QP_PARTION QKEY_PARTION dst_qp;
         Some (pbu_reg_write addr init_qkey s)
       }
     | UD_TYPE \<Rightarrow> do {
         addr \<leftarrow> pbu_addr QP_PARTION PKEY_PARTION dst_qp;
         wdata \<leftarrow> pbu_pkey init_pkey;
         let s = pbu_reg_write addr wdata s;
         addr \<leftarrow> pbu_addr QP_PARTION QKEY_PARTION dst_qp;
         Some (pbu_reg_write addr init_qkey s)
       }
   }"

definition pbu_init_for_recv_rsp :: "env \<Rightarrow> service_type \<Rightarrow> u32 \<Rightarrow> u32 \<Rightarrow> u32 \<Rightarrow> kern \<Rightarrow> kern option" where
  "pbu_init_for_recv_rsp E service_type src_qp src_eec init_pkey s =
     (case service_type of
        RC_TYPE \<Rightarrow> do {
          addr \<leftarrow> pbu_addr QP_PARTION PKEY_PARTION src_qp;
          wdata \<leftarrow> pbu_pkey init_pkey;
          let s = pbu_reg_write addr wdata s;
          let (regval, s) = pbu_reg_read E addr s;
          Some s
        }
      | RD_TYPE \<Rightarrow> do {
          addr \<leftarrow> pbu_addr QP_PARTION PKEY_PARTION src_eec;
          wdata \<leftarrow> pbu_pkey init_pkey;
          Some (pbu_reg_write addr wdata s)
        }
      | UD_TYPE \<Rightarrow> Some s)"

definition pbu_set_general_reg :: "env \<Rightarrow> u32 \<Rightarrow> u32 \<Rightarrow> kern \<Rightarrow> kern option" where
  "pbu_set_general_reg E offset wdata s = do {
     addr \<leftarrow> pbu_addr EEC_PARTION REG_PARTION offset;
     let s = pbu_reg_write addr wdata s;
     Some (snd (pbu_reg_read E addr s))
   }"

definition pbu_init_mtu_reg :: "env \<Rightarrow> u32 \<Rightarrow> kern \<Rightarrow> kern option" where
  "pbu_init_mtu_reg E mtu_size s = do {
     addr \<leftarrow> pbu_addr EEC_PARTION REG_PARTION 0x30;
     wdata \<leftarrow> set_bits 0 4 0 mtu_size;
     let s = pbu_reg_write addr wdata s;
     Some (snd (pbu_reg_read E addr s))
   }"

text \<open>\<open>MTU_1K\<close>, then \<open>ERR_EN_REG\<close>, \<open>RETRY_NUM_REG\<close>, \<open>TIME_0_OUT_REG\<close> and \<open>TIME_1_OUT_REG\<close>.\<close>

definition pbu_init :: "env \<Rightarrow> kern \<Rightarrow> kern option" where
  "pbu_init E s = do {
     s \<leftarrow> pbu_init_mtu_reg E 3 s;
     s \<leftarrow> pbu_set_general_reg E 0x60 1 s;
     s \<leftarrow> pbu_set_general_reg E 0x20 5 s;
     s \<leftarrow> pbu_set_general_reg E 0 4000000 s;
     pbu_set_general_reg E 0x10 0 s
   }"

section \<open>Addresses\<close>

definition addr_word :: "u32 \<Rightarrow> u32 \<Rightarrow> u32 \<Rightarrow> u32" where
  "addr_word part field off = set_field (set_field (set_field 0 24 24 part) 26 25 field) 23 0 off"

definition pkey_word :: "u32 \<Rightarrow> u32" where
  "pkey_word pk = set_field (set_field pk 16 16 1) 31 17 0"

lemma pbu_addr_eq [simp]: "pbu_addr part field off = Some (addr_word part field off)"
  by (simp add: pbu_addr_def addr_word_def set_bits_in_range)

lemma pbu_pkey_eq [simp]: "pbu_pkey pk = Some (pkey_word pk)"
  by (simp add: pbu_pkey_def pkey_word_def set_bits_in_range)

lemma bit_addr_word:
  "n < 32 \<Longrightarrow> bit (addr_word part field off) n =
     (if n < 24 then bit off n else if n = 24 then bit part 0
      else n < 27 \<and> bit field (n - 25))"
  by (auto simp: addr_word_def bit_set_field)

lemma addr_word_eq_iff:
  assumes "off < 2 ^ 24" "off' < 2 ^ 24" "part < 2" "part' < 2" "field < 4" "field' < 4"
  shows "addr_word part field off = addr_word part' field' off' \<longleftrightarrow> part = part' \<and> field = field' \<and> off = off'"
proof
  assume eq: "addr_word part field off = addr_word part' field' off'"
  have b: "bit (addr_word part field off) n = bit (addr_word part' field' off') n" for n
    using eq by simp
  have "off = off'"
  proof (rule word_eqI_bits)
    fix n assume "n < LENGTH(32)"
    then show "bit off n = bit off' n"
      using b [of n] bit_above_u32 [of off 24 n] bit_above_u32 [of off' 24 n] assms(1,2) by (cases "n < 24") (auto simp: bit_addr_word)
  qed
  moreover have "part = part'"
  proof (rule word_eqI_bits)
    fix n assume "n < LENGTH(32)"
    then show "bit part n = bit part' n"
      using b [of 24] bit_above_u32 [of part 1 n] bit_above_u32 [of part' 1 n] assms(3,4)
      by (cases "n = 0") (auto simp: bit_addr_word)
  qed
  moreover have "field = field'"
  proof (rule word_eqI_bits)
    fix n assume "n < LENGTH(32)"
    then show "bit field n = bit field' n"
      using b [of "n + 25"] bit_above_u32 [of field 2 n] bit_above_u32 [of field' 2 n] assms(5,6)
      by (cases "n < 2") (auto simp: bit_addr_word)
  qed
  ultimately show "part = part' \<and> field = field' \<and> off = off'" by simp
qed simp

section \<open>What a queue pair's registers hold\<close>

text \<open>The value last written to a register of the unit.\<close>

definition pbu_reg :: "kern \<Rightarrow> u32 \<Rightarrow> u32 \<Rightarrow> u32 \<Rightarrow> u32" where
  "pbu_reg s part field off = mpb_file (trace s) (BASE_ADDR_PBU + addr_word part field off)"

lemma file_pbu_write [simp]:
  "mpb_file (trace (pbu_reg_write a v s)) i = (if i = BASE_ADDR_PBU + a then v else mpb_file (trace s) i)"
  by (simp add: pbu_reg_write_def mpb_reg_write_eq mpb_file_write)

lemma file_pbu_read [simp]: "mpb_file (trace (snd (pbu_reg_read E a s))) i = mpb_file (trace s) i"
  by (simp add: pbu_reg_read_def mpb_reg_read_eq mpb_file_read)

lemma zero_is_eec: "(0 :: u32) = addr_word 0 0 0"
  by (rule word_eqI_bits) (auto simp: bit_addr_word)

lemma pbu_req_regs:
  assumes "d < 2 ^ 24" "q < 2 ^ 24" "field < 3"
  shows "\<exists>s'. pbu_init_for_recv_req E ty d eec psn pk qk s = Some s' \<and>
    pbu_reg s' QP_PARTION field q =
      (if q \<noteq> d then pbu_reg s QP_PARTION field q
       else if field = PKEY_PARTION then pkey_word pk
       else if field = QKEY_PARTION \<and> ty \<noteq> RC_TYPE then qk
       else if field = PSN_PARTION \<and> ty = RC_TYPE then psn
       else pbu_reg s QP_PARTION field q)"
proof -
  have f: "field < 4" using assms(3) by (simp add: word_less_nat_alt)
  have eq: "addr_word 1 field q = addr_word 1 g d \<longleftrightarrow> field = g \<and> q = d" if "g < 4" for g
    using addr_word_eq_iff [of q d 1 1 field g] assms f that by auto
  have ne: "addr_word 1 field q \<noteq> addr_word 0 g e" for g e
    using bit_addr_word [of 24 1 field q] bit_addr_word [of 24 0 g e] by auto
  have nz: "addr_word 1 field q \<noteq> 0" using ne [of 0 0] by (simp add: zero_is_eec [symmetric])
  note defs = pbu_init_for_recv_req_def pbu_reg_def split_def Let_def
  show ?thesis
  proof (cases "q = d")
    case True
    then show ?thesis using nz ne eq by (cases ty) (simp_all add: defs)
  next
    case False
    then show ?thesis using nz ne eq by (cases ty) (simp_all add: defs)
  qed
qed

lemma pbu_rsp_regs:
  assumes "d < 2 ^ 24" "q < 2 ^ 24" "field < 3"
  shows "\<exists>s'. pbu_init_for_recv_rsp E RC_TYPE d eec pk s = Some s' \<and>
    pbu_reg s' QP_PARTION field q =
      (if q = d \<and> field = PKEY_PARTION then pkey_word pk else pbu_reg s QP_PARTION field q)"
proof -
  have "field < 4" using assms(3) by (simp add: word_less_nat_alt)
  then have "addr_word 1 field q = addr_word 1 PKEY_PARTION d \<longleftrightarrow> field = PKEY_PARTION \<and> q = d"
    using addr_word_eq_iff [of q d 1 1 field PKEY_PARTION] assms by auto
  then show ?thesis by (auto simp: pbu_init_for_recv_rsp_def pbu_reg_def split_def Let_def)
qed

text \<open>
  Programming the packet buffer unit for the requests of one queue pair writes its own
  registers only. The call always returns; afterwards the sequence number register of a
  connected queue pair holds the initial number, the key registers hold the key with its
  valid bit (and, except for connections, the queue key), and every register of another queue
  pair holds what it held before.
\<close>

theorem pbu_programs_one_qp:
  assumes "d < 2 ^ 24" "q < 2 ^ 24" "field < 3"
  shows "\<exists>s'. pbu_init_for_recv_req E ty d eec psn pk qk s = Some s' \<and>
    pbu_reg s' QP_PARTION field q =
      (if q \<noteq> d then pbu_reg s QP_PARTION field q
       else if field = PKEY_PARTION then pkey_word pk
       else if field = QKEY_PARTION \<and> ty \<noteq> RC_TYPE then qk
       else if field = PSN_PARTION \<and> ty = RC_TYPE then psn
       else pbu_reg s QP_PARTION field q)"
  using assms by (rule pbu_req_regs)

theorem pbu_programs_one_qp_witness:
  "\<exists>s'. pbu_init_for_recv_req file_env RC_TYPE 5 0 7 0x8888 0 empty_kern = Some s' \<and>
     pbu_reg s' QP_PARTION PSN_PARTION 5 = 7"
  using pbu_programs_one_qp [of 5 5 0 file_env RC_TYPE 0 7 "0x8888" 0 empty_kern] by auto

end
