(* ===== verification/Qp_state.thy ===== *)
theory Qp_state
  imports Post Ah Pbu
begin

text \<open>
  Changing a queue pair (bxroce_hw.c, bxroce_verbs.c): the two enumerations of states, the
  attributes a caller may set, the path of a connection, and \<open>bxroce_modify_qp\<close>. None is a
  call that does not return, because the card never clears the bit the driver waits for.
  \<open>ib_modify_qp_is_ok\<close> of the kernel has no effect here: the driver only prints its verdict.
\<close>

section \<open>States\<close>

datatype ib_qp_state = IB_QPS_RESET | IB_QPS_INIT | IB_QPS_RTR | IB_QPS_RTS | IB_QPS_SQD
  | IB_QPS_SQE | IB_QPS_ERR

fun get_ibqp_state :: "qp_state \<Rightarrow> ib_qp_state" where
  "get_ibqp_state BXROCE_QPS_RST = IB_QPS_RESET"
| "get_ibqp_state BXROCE_QPS_INIT = IB_QPS_INIT"
| "get_ibqp_state BXROCE_QPS_RTR = IB_QPS_RTR"
| "get_ibqp_state BXROCE_QPS_RTS = IB_QPS_RTS"
| "get_ibqp_state BXROCE_QPS_SQD = IB_QPS_SQD"
| "get_ibqp_state BXROCE_QPS_SQ_DRAINING = IB_QPS_SQD"
| "get_ibqp_state BXROCE_QPS_SQE = IB_QPS_SQE"
| "get_ibqp_state BXROCE_QPS_ERR = IB_QPS_ERR"

fun get_bxroce_qp_state :: "ib_qp_state \<Rightarrow> qp_state" where
  "get_bxroce_qp_state IB_QPS_RESET = BXROCE_QPS_RST"
| "get_bxroce_qp_state IB_QPS_INIT = BXROCE_QPS_INIT"
| "get_bxroce_qp_state IB_QPS_RTR = BXROCE_QPS_RTR"
| "get_bxroce_qp_state IB_QPS_RTS = BXROCE_QPS_RTS"
| "get_bxroce_qp_state IB_QPS_SQD = BXROCE_QPS_SQD"
| "get_bxroce_qp_state IB_QPS_SQE = BXROCE_QPS_SQE"
| "get_bxroce_qp_state IB_QPS_ERR = BXROCE_QPS_ERR"

section \<open>Attributes\<close>

text \<open>The copy of some fields of a queue pair that its process reads.\<close>

record qp_change_info =
  ci_qkey :: u32
  ci_signaled :: bool
  ci_destqp :: u32
  ci_pkey_index :: u32
  ci_sgid_idx :: int
  ci_mac_addr :: "u8 list"
  ci_sgid :: "u8 list"
  ci_dgid :: "u8 list"

record mqp = qp +
  change_info :: qp_change_info

text \<open>What the path of an attribute says of the source: \<open>ah_attr->grh.sgid_attr\<close>.\<close>

record sgid_attr =
  ndev_addr :: "u8 list"
  sgid_network :: network_type
  sgid_gid :: "u8 list"

record qp_attr =
  attr_state :: ib_qp_state
  attr_pkey_index :: u16
  attr_qkey :: u32
  attr_dest_qp_num :: u32
  attr_ah :: ah_attr
  attr_sgid :: sgid_attr
  attr_path_mtu :: int
  attr_sq_psn :: u32
  attr_rq_psn :: u32

text \<open>Bits of the attribute mask.\<close>

abbreviation (input) IB_QP_STATE :: nat where "IB_QP_STATE \<equiv> 0"
abbreviation (input) IB_QP_PKEY_INDEX :: nat where "IB_QP_PKEY_INDEX \<equiv> 4"
abbreviation (input) IB_QP_QKEY :: nat where "IB_QP_QKEY \<equiv> 6"
abbreviation (input) IB_QP_AV :: nat where "IB_QP_AV \<equiv> 7"
abbreviation (input) IB_QP_PATH_MTU :: nat where "IB_QP_PATH_MTU \<equiv> 8"
abbreviation (input) IB_QP_RQ_PSN :: nat where "IB_QP_RQ_PSN \<equiv> 12"
abbreviation (input) IB_QP_SQ_PSN :: nat where "IB_QP_SQ_PSN \<equiv> 16"
abbreviation (input) IB_QP_DEST_QPN :: nat where "IB_QP_DEST_QPN \<equiv> 20"

abbreviation (input) IB_MTU_512 :: int where "IB_MTU_512 \<equiv> 2"
abbreviation (input) IB_MTU_4096 :: int where "IB_MTU_4096 \<equiv> 5"

text \<open>
  \<open>rdma_gid2ip\<close> gives an IPv4 address as four bytes in network order; the driver converts it
  to the host's order and stores it, so its bytes are reversed.
\<close>

definition bxroce_set_av_params :: "net_lib \<Rightarrow> qp_attr \<Rightarrow> mqp \<Rightarrow> int \<times> mqp" where
  "bxroce_set_av_params N attrs q =
     (if \<not> attr_has_grh (attr_ah attrs) then (- EINVAL, q)
      else
        let g = grh (attr_ah attrs);
            q = q\<lparr>mac_addr := ndev_addr (attr_sgid attrs)\<rparr>;
            q = q\<lparr>sgid_idx := uint (grh_sgid_index g)\<rparr>;
            q = q\<lparr>change_info := (change_info q)\<lparr>ci_sgid_idx := sgid_idx q\<rparr>\<rparr>;
            q = q\<lparr>mac_addr := bxroce_resolve_dmac N (attr_ah attrs)\<rparr>;
            q = q\<lparr>change_info := (change_info q)\<lparr>ci_mac_addr := mac_addr q\<rparr>\<rparr>
        in if sgid_network (attr_sgid attrs) = RDMA_NETWORK_IPV4
           then let q = q\<lparr>qp_dgid := put_bytes 0 (rev (take 4 (gid2ip N (dgid g)))) (qp_dgid q),
                          qp_sgid := put_bytes 0 (rev (take 4 (gid2ip N (sgid_gid (attr_sgid attrs))))) (qp_sgid q)\<rparr>;
                    q = q\<lparr>change_info := (change_info q)
                          \<lparr>ci_dgid := put_bytes 0 (take 4 (qp_dgid q)) (ci_dgid (change_info q)),
                           ci_sgid := put_bytes 0 (take 4 (qp_sgid q)) (ci_sgid (change_info q))\<rparr>\<rparr>
                in (0, q)
           else (0, q))"

definition bxroce_qp_state_change :: "ib_qp_state \<Rightarrow> mqp \<Rightarrow> kern \<Rightarrow> int \<times> mqp \<times> kern" where
  "bxroce_qp_state_change new_ib_state q s =
     (let new_state = get_bxroce_qp_state new_ib_state;
          s = mutex_lock Q_lock s
      in if new_state = qp_state q then (1, q, mutex_unlock Q_lock s)
         else
           let q = (if new_state = BXROCE_QPS_INIT
                    then q\<lparr>sq := (sq q)\<lparr>head := 0, tail := 0, foe := BXROCE_Q_EMPTY\<rparr>,
                           rq := (rq q)\<lparr>head := 0, tail := 0, foe := BXROCE_Q_EMPTY\<rparr>\<rparr>
                    else q);
               q = q\<lparr>qp_state := new_state\<rparr>
           in (0, q, mutex_unlock Q_lock s))"

text \<open>The attributes that are only printed (the timers, the retry counts, the atomics) are left out.\<close>

definition bxroce_set_qp_params :: "net_lib \<Rightarrow> qp_attr \<Rightarrow> u32 \<Rightarrow> mqp \<Rightarrow> int \<times> mqp" where
  "bxroce_set_qp_params N attrs attr_mask q =
     (let q = (if bit attr_mask IB_QP_PKEY_INDEX
               then q\<lparr>pkey_index := ucast (attr_pkey_index attrs),
                      change_info := (change_info q)\<lparr>ci_pkey_index := ucast (attr_pkey_index attrs)\<rparr>\<rparr>
               else q);
          q = (if bit attr_mask IB_QP_QKEY
               then q\<lparr>qkey := attr_qkey attrs, change_info := (change_info q)\<lparr>ci_qkey := attr_qkey attrs\<rparr>\<rparr>
               else q);
          q = (if bit attr_mask IB_QP_DEST_QPN
               then q\<lparr>destqp := attr_dest_qp_num attrs,
                      change_info := (change_info q)\<lparr>ci_destqp := attr_dest_qp_num attrs\<rparr>\<rparr>
               else q);
          (status, q) = (if bit attr_mask IB_QP_AV then bxroce_set_av_params N attrs q else (0, q))
      in if status \<noteq> 0 then (status, q)
         else
           let status = (if bit attr_mask IB_QP_PATH_MTU \<and>
                            (attr_path_mtu attrs < IB_MTU_512 \<or> attr_path_mtu attrs > IB_MTU_4096)
                         then - EINVAL else status);
               q = (if bit attr_mask IB_QP_SQ_PSN then q\<lparr>init_sqpsn := attr_sq_psn attrs\<rparr> else q);
               q = (if bit attr_mask IB_QP_RQ_PSN then q\<lparr>init_rqpsn := attr_rq_psn attrs\<rparr> else q)
           in (status, q))"

section \<open>Modification\<close>

definition qp_service_type :: "ib_qp_type \<Rightarrow> service_type option" where
  "qp_service_type t = (case t of IB_QPT_RC \<Rightarrow> Some RC_TYPE | IB_QPT_RESERVED2 \<Rightarrow> Some RD_TYPE
     | IB_QPT_UD \<Rightarrow> Some UD_TYPE | _ \<Rightarrow> None)"

text \<open>The part for a queue pair in state RTR, under \<open>hw_lock\<close>.\<close>

definition map_rc_qp :: "env \<Rightarrow> mqp \<Rightarrow> kern \<Rightarrow> kern option" where
  "map_rc_qp E q s = do {
     let s = mutex_lock Hw_lock s;
     let s = pgu_writes [(SRCQP, qp_id q), (DESTQP, destqp q), (RC_QPMAPPING, 1)] s;
     s \<leftarrow> poll_zero E PGU_BASE RC_QPMAPPING s;
     s \<leftarrow> (case qp_service_type (qp_type q) of
            None \<Rightarrow> Some s
          | Some ty \<Rightarrow> do {
              s \<leftarrow> pbu_init_for_recv_req E ty (destqp q) 0 0 (pkey_index q) (qkey q) s;
              pbu_init_for_recv_rsp E ty (qp_id q) 0 (pkey_index q) s
            });
     Some (mutex_unlock Hw_lock s)
   }"

text \<open>\<open>_bxroce_modify_qp\<close>\<close>

definition modify_qp_inner :: "env \<Rightarrow> net_lib \<Rightarrow> qp_attr \<Rightarrow> u32 \<Rightarrow> mqp \<Rightarrow> kern \<Rightarrow> (int \<times> mqp \<times> kern) option" where
  "modify_qp_inner E N attr attr_mask q s =
     (let (status, q, s) = (if bit attr_mask IB_QP_STATE
                            then bxroce_qp_state_change (attr_state attr) q s else (0, q, s))
      in if status < 0 then Some (status, q, s)
         else
           let (status, q) = bxroce_set_qp_params N attr attr_mask q
           in if status \<noteq> 0 then Some (status, q, s)
              else if qp_state q = BXROCE_QPS_RTR
              then map_option (\<lambda>s. (status, q, s)) (map_rc_qp E q s)
              else Some (status, q, s))"

definition bxroce_modify_qp :: "env \<Rightarrow> net_lib \<Rightarrow> qp_attr \<Rightarrow> u32 \<Rightarrow> mqp \<Rightarrow> kern \<Rightarrow> (int \<times> mqp \<times> kern) option" where
  "bxroce_modify_qp E N attr attr_mask q s = do {
     let s = mutex_lock Dev_lock s;
     let s = mutex_unlock Q_lock (mutex_lock Q_lock s);
     (status, q, s) \<leftarrow> modify_qp_inner E N attr attr_mask q s;
     Some (if status > 0 then 0 else status, q, mutex_unlock Dev_lock s)
   }"

section \<open>Locks and what is kept\<close>

lemma get_state_inverse [simp]: "get_ibqp_state (get_bxroce_qp_state st) = st"
  by (cases st) auto

lemma set_av_params_keeps [simp]:
  "qp_state (snd (bxroce_set_av_params N attrs q)) = qp_state q"
  "sq (snd (bxroce_set_av_params N attrs q)) = sq q"
  "rq (snd (bxroce_set_av_params N attrs q)) = rq q"
  by (simp_all add: bxroce_set_av_params_def Let_def)

lemmas if_fields = if_distrib [where f = qp_state] if_distrib [where f = sq] if_distrib [where f = rq]
  if_distrib [where f = snd]

lemma set_qp_params_keeps [simp]:
  "qp_state (snd (bxroce_set_qp_params N attrs m q)) = qp_state q"
  "sq (snd (bxroce_set_qp_params N attrs m q)) = sq q"
  "rq (snd (bxroce_set_qp_params N attrs m q)) = rq q"
  by (simp_all add: bxroce_set_qp_params_def Let_def split_def if_fields)

text \<open>A step that adds only register accesses on the PCIe bar, so it takes no lock.\<close>

lemma io_only_pbu_write [simp]: "io_only s (pbu_reg_write a v s)"
  by (auto simp: io_only_def pbu_reg_write_def mpb_reg_write_eq
      intro: exI [of _ "[Ewrite Pcie_bar 0x100 v, Ewrite Pcie_bar 0 (BASE_ADDR_PBU + a)]"])

lemma io_only_pbu_read [simp]: "io_only s (snd (pbu_reg_read E a s))"
  by (auto simp: io_only_def pbu_reg_read_def mpb_reg_read_eq)

lemma io_only_pbu_req: "pbu_init_for_recv_req E ty d e psn pk qk s = Some s' \<Longrightarrow> io_only s s'"
  by (cases ty) (auto simp: pbu_init_for_recv_req_def split_def Let_def
      intro!: io_only_trans [OF _ io_only_pbu_write] io_only_trans [OF _ io_only_pbu_read])

lemma io_only_pbu_rsp: "pbu_init_for_recv_rsp E ty d e pk s = Some s' \<Longrightarrow> io_only s s'"
  by (cases ty) (auto simp: pbu_init_for_recv_rsp_def split_def Let_def
      intro!: io_only_trans [OF _ io_only_pbu_write] io_only_trans [OF _ io_only_pbu_read])

lemma pbu_req_total: "\<exists>s'. pbu_init_for_recv_req E ty d e psn pk qk s = Some s'"
  by (cases ty) (simp_all add: pbu_init_for_recv_req_def split_def Let_def)

lemma pbu_rsp_total: "\<exists>s'. pbu_init_for_recv_rsp E ty d e pk s = Some s'"
  by (cases ty) (simp_all add: pbu_init_for_recv_rsp_def split_def Let_def)

text \<open>The state in which the mapping is polled.\<close>

definition mapping_posted :: "mqp \<Rightarrow> kern \<Rightarrow> kern" where
  "mapping_posted q s =
     pgu_writes [(SRCQP, qp_id q), (DESTQP, destqp q), (RC_QPMAPPING, 1)] (mutex_lock Hw_lock s)"

lemma map_rc_qp_cases:
  assumes "map_rc_qp E q s = Some s'"
  obtains s1 s2 where "poll_zero E PGU_BASE RC_QPMAPPING (mapping_posted q s) = Some s1"
    and "io_only s1 s2" and "s' = mutex_unlock Hw_lock s2"
    and "\<And>ty. qp_service_type (qp_type q) = Some ty \<Longrightarrow> \<exists>t.
      pbu_init_for_recv_req E ty (destqp q) 0 0 (pkey_index q) (qkey q) s1 = Some t \<and>
      pbu_init_for_recv_rsp E ty (qp_id q) 0 (pkey_index q) t = Some s2"
proof -
  obtain s1 where s1: "poll_zero E PGU_BASE RC_QPMAPPING (mapping_posted q s) = Some s1"
    using assms by (auto simp: map_rc_qp_def mapping_posted_def bind_eq_Some_conv)
  show ?thesis
  proof (cases "qp_service_type (qp_type q)")
    case None
    then have "s' = mutex_unlock Hw_lock s1"
      using assms s1 by (simp add: map_rc_qp_def mapping_posted_def)
    then show ?thesis using that [OF s1 io_only_refl] None by auto
  next
    case (Some ty)
    then obtain t s2 where
      t: "pbu_init_for_recv_req E ty (destqp q) 0 0 (pkey_index q) (qkey q) s1 = Some t"
      and s2: "pbu_init_for_recv_rsp E ty (qp_id q) 0 (pkey_index q) t = Some s2"
      and s': "s' = mutex_unlock Hw_lock s2"
      using assms s1 by (auto simp: map_rc_qp_def mapping_posted_def bind_eq_Some_conv)
    show ?thesis
      using that [OF s1 io_only_trans [OF io_only_pbu_req [OF t] io_only_pbu_rsp [OF s2]] s'] Some t s2
      by auto
  qed
qed

lemma map_rc_qp_iff:
  "(\<exists>s'. map_rc_qp E q s = Some s') \<longleftrightarrow>
   (\<exists>k. fst (poll_read E PGU_BASE RC_QPMAPPING k (mapping_posted q s)) = 0)"
proof
  assume "\<exists>s'. map_rc_qp E q s = Some s'"
  then show "\<exists>k. fst (poll_read E PGU_BASE RC_QPMAPPING k (mapping_posted q s)) = 0"
    using poll_zero_only_if map_rc_qp_cases by metis
next
  assume "\<exists>k. fst (poll_read E PGU_BASE RC_QPMAPPING k (mapping_posted q s)) = 0"
  then obtain s1 where s1: "poll_zero E PGU_BASE RC_QPMAPPING (mapping_posted q s) = Some s1"
    using poll_zero_iff by blast
  show "\<exists>s'. map_rc_qp E q s = Some s'"
  proof (cases "qp_service_type (qp_type q)")
    case None
    then show ?thesis using s1 by (simp add: map_rc_qp_def mapping_posted_def)
  next
    case (Some ty)
    obtain t where t: "pbu_init_for_recv_req E ty (destqp q) 0 0 (pkey_index q) (qkey q) s1 = Some t"
      using pbu_req_total by blast
    obtain s2 where "pbu_init_for_recv_rsp E ty (qp_id q) 0 (pkey_index q) t = Some s2"
      using pbu_rsp_total by blast
    with t Some s1 show ?thesis by (simp add: map_rc_qp_def mapping_posted_def)
  qed
qed

lemma map_rc_qp_balanced: "map_rc_qp E q s = Some s' \<Longrightarrow> held l (trace s') = held l (trace s)"
proof (erule map_rc_qp_cases)
  fix s1 s2
  assume "poll_zero E PGU_BASE RC_QPMAPPING (mapping_posted q s) = Some s1" "io_only s1 s2"
    and s': "s' = mutex_unlock Hw_lock s2"
  then have "held l (trace s2) = held l (trace (mapping_posted q s))" for l
    using io_only_held poll_zero_only_if window_reads_held by metis
  moreover have "held l (trace (mapping_posted q s)) = held l (trace (mutex_lock Hw_lock s))" for l
    unfolding mapping_posted_def using io_only_writes io_only_held by blast
  ultimately show ?thesis by (simp add: s')
qed

lemma map_rc_qp_regs:
  assumes r: "map_rc_qp E q s = Some s'"
    and rc: "qp_type q = IB_QPT_RC" "destqp q < 2 ^ 24" "qp_id q < 2 ^ 24"
  shows "pbu_reg s' QP_PARTION PSN_PARTION (destqp q) = 0 \<and>
    pbu_reg s' QP_PARTION PKEY_PARTION (destqp q) = pkey_word (pkey_index q)"
proof -
  have ty: "qp_service_type (qp_type q) = Some RC_TYPE" using rc(1) by (simp add: qp_service_type_def)
  obtain s1 s2 t where s': "s' = mutex_unlock Hw_lock s2"
    and t: "pbu_init_for_recv_req E RC_TYPE (destqp q) 0 0 (pkey_index q) (qkey q) s1 = Some t"
    and s2: "pbu_init_for_recv_rsp E RC_TYPE (qp_id q) 0 (pkey_index q) t = Some s2"
    by (rule map_rc_qp_cases [OF r]) (use ty in blast)
  have "pbu_reg s' part field off = pbu_reg s2 part field off" for part field off
    by (simp add: s' pbu_reg_def)
  moreover have "pbu_reg t QP_PARTION PSN_PARTION (destqp q) = 0"
      "pbu_reg t QP_PARTION PKEY_PARTION (destqp q) = pkey_word (pkey_index q)"
    using pbu_req_regs [OF rc(2) rc(2), of _ E RC_TYPE 0 0 "pkey_index q" "qkey q" s1] t
    by force+
  ultimately show ?thesis
    using pbu_rsp_regs [OF rc(3) rc(2), of _ E 0 "pkey_index q" t] s2 by force
qed

lemma state_change_facts:
  assumes "bxroce_qp_state_change st q s = (r, q1, s1)"
  shows "qp_state q1 = get_bxroce_qp_state st"
    and "held l (trace s1) = held l (trace s)" "r \<ge> 0"
    and "st = IB_QPS_INIT \<Longrightarrow> qp_state q \<noteq> BXROCE_QPS_INIT \<Longrightarrow>
      sq q1 = (sq q)\<lparr>head := 0, tail := 0, foe := BXROCE_Q_EMPTY\<rparr> \<and>
      rq q1 = (rq q)\<lparr>head := 0, tail := 0, foe := BXROCE_Q_EMPTY\<rparr>"
  using assms by (auto simp: bxroce_qp_state_change_def Let_def split: if_splits)

lemma modify_inner_facts:
  assumes r: "modify_qp_inner E N attr m q s = Some (st, q', s')" and "bit m IB_QP_STATE"
  shows "get_ibqp_state (qp_state q') = attr_state attr \<and> held l (trace s') = held l (trace s) \<and>
    (attr_state attr = IB_QPS_INIT \<and> qp_state q \<noteq> BXROCE_QPS_INIT \<longrightarrow>
       sq q' = (sq q)\<lparr>head := 0, tail := 0, foe := BXROCE_Q_EMPTY\<rparr> \<and>
       rq q' = (rq q)\<lparr>head := 0, tail := 0, foe := BXROCE_Q_EMPTY\<rparr>)"
proof -
  obtain r q1 s1 where c: "bxroce_qp_state_change (attr_state attr) q s = (r, q1, s1)"
    by (cases "bxroce_qp_state_change (attr_state attr) q s") auto
  obtain st2 q2 where p: "bxroce_set_qp_params N attr m q1 = (st2, q2)" by force
  note f = state_change_facts [OF c]
  have q2: "qp_state q2 = qp_state q1" "sq q2 = sq q1" "rq q2 = rq q1"
    using set_qp_params_keeps [of N attr m q1] p by simp_all
  have "q' = q2" and "held l (trace s') = held l (trace s1)"
    using r c p f(3) assms(2) map_rc_qp_balanced
    by (auto simp: modify_qp_inner_def split: if_splits)
  then show ?thesis using f q2 by simp
qed

text \<open>
  The state machine of the standard is not enforced. Whatever state a queue pair is in, a
  call of \<open>bxroce_modify_qp\<close> that names a new state and returns leaves it in exactly that
  state, even when the call fails because an attribute is refused; a queue pair that enters
  INIT from another state has both queues emptied. Every lock is given back.
\<close>

theorem modify_qp_enters_any_state:
  assumes "bxroce_modify_qp E N attr m q s = Some (st, q', s')" and "bit m IB_QP_STATE"
  shows "get_ibqp_state (qp_state q') = attr_state attr \<and> held l (trace s') = held l (trace s) \<and>
    (attr_state attr = IB_QPS_INIT \<and> qp_state q \<noteq> BXROCE_QPS_INIT \<longrightarrow>
       bxroce_hwq_free_cnt (sq q') = max_cnt (sq q) \<and> bxroce_hwq_free_cnt (rq q') = max_cnt (rq q))"
proof -
  let ?s = "mutex_unlock Q_lock (mutex_lock Q_lock (mutex_lock Dev_lock s))"
  obtain st1 s1 where i: "modify_qp_inner E N attr m q ?s = Some (st1, q', s1)"
      "s' = mutex_unlock Dev_lock s1"
    using assms(1) by (auto simp: bxroce_modify_qp_def bind_eq_Some_conv)
  from modify_inner_facts [OF i(1) assms(2)] show ?thesis
    by (auto simp: i(2) bxroce_hwq_free_cnt_def)
qed

definition plain_ci :: qp_change_info where
  "plain_ci = \<lparr>ci_qkey = 0, ci_signaled = False, ci_destqp = 0, ci_pkey_index = 0, ci_sgid_idx = 0,
     ci_mac_addr = replicate 6 0, ci_sgid = replicate 16 0, ci_dgid = replicate 16 0\<rparr>"

definition small_mqp :: mqp where
  "small_mqp = qp.extend (small_qp\<lparr>qp_state := BXROCE_QPS_RST\<rparr>) (mqp.fields plain_ci)"

definition rts_attr :: qp_attr where
  "rts_attr = \<lparr>attr_state = IB_QPS_RTS, attr_pkey_index = 0, attr_qkey = 0, attr_dest_qp_num = 0,
     attr_ah = some_attr, attr_sgid = \<lparr>ndev_addr = replicate 6 0, sgid_network = RDMA_NETWORK_IB,
     sgid_gid = replicate 16 0\<rparr>, attr_path_mtu = 9, attr_sq_psn = 0, attr_rq_psn = 0\<rparr>"

text \<open>From reset straight to ready-to-send, with a path MTU that is refused.\<close>

theorem modify_qp_enters_any_state_witness:
  "\<exists>q' s'. bxroce_modify_qp file_env plain_net rts_attr 0x101 small_mqp empty_kern = Some (- EINVAL, q', s') \<and>
     qp_state small_mqp = BXROCE_QPS_RST \<and> get_ibqp_state (qp_state q') = IB_QPS_RTS"
proof -
  have "\<exists>q' s'. bxroce_modify_qp file_env plain_net rts_attr 0x101 small_mqp empty_kern = Some (- EINVAL, q', s')"
    by (simp add: bxroce_modify_qp_def modify_qp_inner_def bxroce_qp_state_change_def
        bxroce_set_qp_params_def small_mqp_def small_qp_def rts_attr_def mqp.fields_def qp.extend_def Let_def)
  then obtain q' s' where
    r: "bxroce_modify_qp file_env plain_net rts_attr 0x101 small_mqp empty_kern = Some (- EINVAL, q', s')"
    by blast
  have "bit (0x101 :: u32) IB_QP_STATE" by simp
  from modify_qp_enters_any_state [OF r this] r show ?thesis
    by (simp add: small_mqp_def small_qp_def rts_attr_def mqp.fields_def qp.extend_def)
qed

text \<open>
  Entering RTR waits for the card. The part of \<open>bxroce_modify_qp\<close> for that state returns
  exactly when some read of the mapping register gives 0. When it returns, every lock is given
  back, and the packet buffer unit accepts what the peer of a connection sends: its sequence
  number register holds 0 and its key register the partition key, marked valid.
\<close>

theorem rtr_mapping_exact:
  "((\<exists>s'. map_rc_qp E q s = Some s') \<longleftrightarrow>
      (\<exists>k. fst (poll_read E PGU_BASE RC_QPMAPPING k (mapping_posted q s)) = 0)) \<and>
   (\<forall>s'. map_rc_qp E q s = Some s' \<longrightarrow> held l (trace s') = held l (trace s) \<and>
      (qp_type q = IB_QPT_RC \<and> destqp q < 2 ^ 24 \<and> qp_id q < 2 ^ 24 \<longrightarrow>
        pbu_reg s' QP_PARTION PSN_PARTION (destqp q) = 0 \<and>
        pbu_reg s' QP_PARTION PKEY_PARTION (destqp q) = pkey_word (pkey_index q)))"
proof (intro conjI allI impI)
  show "(\<exists>s'. map_rc_qp E q s = Some s') \<longleftrightarrow>
      (\<exists>k. fst (poll_read E PGU_BASE RC_QPMAPPING k (mapping_posted q s)) = 0)"
    by (rule map_rc_qp_iff)
next
  fix s' assume r: "map_rc_qp E q s = Some s'"
  show "held l (trace s') = held l (trace s)" using r by (rule map_rc_qp_balanced)
  assume rc: "qp_type q = IB_QPT_RC \<and> destqp q < 2 ^ 24 \<and> qp_id q < 2 ^ 24"
  then show "pbu_reg s' QP_PARTION PSN_PARTION (destqp q) = 0"
    and "pbu_reg s' QP_PARTION PKEY_PARTION (destqp q) = pkey_word (pkey_index q)"
    using map_rc_qp_regs [OF r] by auto
qed

theorem rtr_mapping_exact_witness:
  "\<exists>s'. map_rc_qp zero_env small_mqp empty_kern = Some s' \<and>
     pbu_reg s' QP_PARTION PSN_PARTION 0x155 = 0 \<and> held Hw_lock (trace s') = 0"
proof -
  have "fst (poll_read zero_env PGU_BASE RC_QPMAPPING 0 t) = 0" for t
    using zero_env_read(1) by (simp add: pgu_read_def)
  then obtain s' where r: "map_rc_qp zero_env small_mqp empty_kern = Some s'"
    using rtr_mapping_exact [of zero_env small_mqp empty_kern] by blast
  with rtr_mapping_exact [of zero_env small_mqp empty_kern Hw_lock] show ?thesis
    by (auto simp: small_mqp_def small_qp_def mqp.fields_def qp.extend_def empty_kern_def)
qed

end
