(* ===== verification/Qp.thy ===== *)
theory Qp
  imports Cq Qp_state
begin

text \<open>
  Creation and destruction of queue pairs (bxroce_verbs.c, bxroce_hw.c). The completion queues
  the attributes name are objects of \<open>cqs\<close>. None is undefined behaviour, or a wait for the card
  that does not end. Memory from \<open>dma_alloc_coherent\<close> is zero.
\<close>

section \<open>Queue pairs\<close>

record kqp = mqp +
  qp_obj :: nat
  sq_va :: "nat option"
  rq_va :: "nat option"
  sq_cq :: "nat option"
  rq_cq :: "nat option"
  qp_pd :: nat
  max_inline_data :: u32
  info_obj :: "nat option"        \<comment> \<open>the page \<open>qp_change_info\<close> lives in\<close>
  wqe_tbl :: "nat option"
  rqe_tbl :: "nat option"

definition zero_hwq :: hwq where
  "zero_hwq = \<lparr>q_pa = 0, max_sges = 0, head = 0, tail = 0, entry_size = 0, max_cnt = 0, max_wqe_idx = 0,
     q_len = 0, foe = BXROCE_Q_FULL\<rparr>"

definition zero_info :: qp_change_info where
  "zero_info = \<lparr>ci_qkey = 0, ci_signaled = False, ci_destqp = 0, ci_pkey_index = 0, ci_sgid_idx = 0,
     ci_mac_addr = replicate 6 0, ci_sgid = replicate 16 0, ci_dgid = replicate 16 0\<rparr>"

definition zero_rqe :: rqe where
  "zero_rqe = \<lparr>descbaseaddr = 0, rqe_dmalen = 0, rqe_opcode = 0\<rparr>"

definition zero_qp :: "nat \<Rightarrow> kqp" where
  "zero_qp p = \<lparr>qp_id = 0, qp_len = 0, sq = zero_hwq, rq = zero_hwq, sq_mem = [], rq_mem = [], wr_id_tbl = [],
     rqe_wr_id_tbl = [], qp_type = IB_QPT_RC, qp_state = BXROCE_QPS_RST, qkey = 0, init_sqpsn = 0,
     init_rqpsn = 0, signaled = False, destqp = 0, pkey_index = 0, sgid_idx = 0, mac_addr = replicate 6 0,
     qp_dgid = replicate 16 0, qp_sgid = replicate 16 0, overhead = False, change_info = zero_info,
     qp_obj = p, sq_va = None, rq_va = None, sq_cq = None, rq_cq = None, qp_pd = 0, max_inline_data = 0,
     info_obj = None, wqe_tbl = None, rqe_tbl = None\<rparr>"

record qp_init_attr =
  ia_type :: ib_qp_type
  ia_max_send_wr :: u32
  ia_max_recv_wr :: u32
  ia_max_send_sge :: u32
  ia_max_recv_sge :: u32
  ia_max_inline :: u32
  ia_srq :: bool
  ia_signal_all :: bool
  ia_send_cq :: "nat option"
  ia_recv_cq :: "nat option"

definition bxroce_check_qp_params :: "dev_attr \<Rightarrow> qp_init_attr \<Rightarrow> bool \<Rightarrow> int" where
  "bxroce_check_qp_params a i udata =
     (if ia_type i \<noteq> IB_QPT_GSI \<and> ia_type i \<noteq> IB_QPT_RC \<and> ia_type i \<noteq> IB_QPT_UD then - EINVAL
      else if ia_type i \<noteq> IB_QPT_GSI \<and> ia_max_send_wr i > max_qp_wr a then - EINVAL
      else if \<not> ia_srq i \<and> ia_max_recv_wr i > max_qp_wr a then - EINVAL
      else if ia_max_inline i > 0 then - EINVAL
      else if ia_max_send_sge i > max_send_sge a then - EINVAL
      else if ia_max_recv_sge i > max_recv_sge a then - EINVAL
      else if ia_type i = IB_QPT_GSI \<and> udata then - EINVAL
      else 0)"

definition bxroce_set_qp_init_params :: "kqp \<Rightarrow> nat \<Rightarrow> qp_init_attr \<Rightarrow> kqp" where
  "bxroce_set_qp_init_params q pd i =
     q\<lparr>qp_pd := pd, qp_type := ia_type i, max_inline_data := ia_max_inline i,
       sq := (sq q)\<lparr>max_sges := ia_max_send_sge i\<rparr>, rq := (rq q)\<lparr>max_sges := ia_max_recv_sge i\<rparr>,
       qp_state := BXROCE_QPS_RST, signaled := ia_signal_all i,
       change_info := (change_info q)\<lparr>ci_signaled := ia_signal_all i\<rparr>\<rparr>"

definition bxroce_alloc_wr_id_tbl :: "env \<Rightarrow> kqp \<Rightarrow> kern \<Rightarrow> int \<times> kqp \<times> kern" where
  "bxroce_alloc_wr_id_tbl E q s =
     (case kalloc E s of
        (None, s) \<Rightarrow> (- ENOMEM, q\<lparr>wqe_tbl := None\<rparr>, s)
      | (Some t, s) \<Rightarrow>
          (let q = q\<lparr>wqe_tbl := Some t, wr_id_tbl := replicate (unat (max_cnt (sq q))) (0, 0)\<rparr>
           in case kalloc E s of
                (None, s) \<Rightarrow> (- ENOMEM, q\<lparr>rqe_tbl := None\<rparr>, s)
              | (Some r, s) \<Rightarrow>
                  (0, q\<lparr>rqe_tbl := Some r, rqe_wr_id_tbl := replicate (unat (max_cnt (rq q))) 0\<rparr>, s)))"

section \<open>The card's side of a queue pair\<close>

text \<open>Give the card the bounds and the pointer of a ring, and wait until it has taken them.\<close>

definition program_ring :: "env \<Rightarrow> u32 \<Rightarrow> u32 \<Rightarrow> u32 \<Rightarrow> u32 \<Rightarrow> u64 \<Rightarrow> u32 \<Rightarrow> u32 \<Rightarrow> kern \<Rightarrow> kern option" where
  "program_ring E up base ptr opreg pa len qpn s =
     (let pa_l = ucast pa; pa_h = ucast (drop_bit 32 pa); opv = push_bit 2 qpn + 0x3
      in poll_busy E PGU_BASE opreg opv
           (pgu_writes [(up, pa_l + len), (up + 0x4, pa_h), (base, pa_l), (base + 0x4, pa_h),
              (ptr, pa_l), (ptr + 0x4, pa_h), (opreg, opv)] s))"

definition qp_start_writes :: "u32 \<Rightarrow> u64 \<Rightarrow> u64 \<Rightarrow> (u32 \<times> u32) list" where
  "qp_start_writes qpn rpa spa =
     (let rpa = drop_bit 12 rpa; rpa_l = ucast rpa; rpa_h = ucast (drop_bit 32 rpa);
          spa = drop_bit 12 spa; spa_l = ucast spa; spa_h = ucast (drop_bit 32 spa) + 0x00100000
      in [(STARTINITPSN, 0x0000), (STARTINITPSN + 0x4, 0x0000), (STARTINITPSN + 0x8, 0x0000),
          (STARTINITPSN + 0xc, 0x1000000), (INITQP, qpn), (INITQPTABLE, 0x1),
          (RCVQ_INF, qpn), (RCVQ_DI, rpa_l), (RCVQ_DI + 0x4, rpa_h), (RCVQ_WRRD, 0x1),
          (RCVQ_INF, qpn), (RCVQ_DI, 0x0), (RCVQ_DI + 0x4, 0x0), (RCVQ_WRRD, 0x2),
          (RCVQ_INF, qpn), (RCVQ_DI, 0x0), (RCVQ_DI + 0x4, 0x0), (RCVQ_WRRD, 0x4),
          (QPLISTREADQPN, qpn), (WPFORQPLIST, 0x0), (WPFORQPLIST2, 0x0), (RPFORQPLIST, spa_l),
          (RPFORQPLIST2, spa_h), (WRITEORREADQPLIST, 0x1), (WRITEQPLISTMASK, 0x7), (QPLISTWRITEQPN, 0x1),
          (CFGSIZEOFWRENTRY, 64), (CFGSIZEOFWRENTRY + 0x4, 0x0), (WRITEORREADQPLIST, 0x0)])"

text \<open>
  The body of the \<open>do\<close> loop runs once, since it ends with \<open>Notsharedcq = false\<close>: the send and
  transmit rings are those of the send queue's completion queue, the receive ring that of the
  other one, with the length of the first.
\<close>

definition program_qp :: "env \<Rightarrow> kqp \<Rightarrow> cq \<Rightarrow> cq \<Rightarrow> kern \<Rightarrow> kern option" where
  "program_qp E q c rc s = do {
     let s = mutex_lock Hw_lock s;
     let s = pgu_writes (qp_start_writes (qp_id q) (q_pa (rq q)) (q_pa (sq q))) s;
     let len = cq_len c - 1;
     s \<leftarrow> program_ring E CQQUEUEUP CQQUEUEDOWN CQREADPTR CQESIZE (txpa c) len (qp_id q) s;
     s \<leftarrow> program_ring E XmitUpAddrCQE XmitBaseAddrCQE XmitCQEWP XmitCQEOp (xmitpa c) len (qp_id q) s;
     s \<leftarrow> program_ring E RxUpAddrCQE RxBaseAddrCQE RxCQEWP RxCQEOp (rxpa rc) len (qp_id q) s;
     Some (mutex_unlock Hw_lock s)
   }"

definition MAX_RQE :: u32 where "MAX_RQE = 256"

text \<open>The buffers of the receive and the send queue. The first is not freed when there is no second.\<close>

definition alloc_queues :: "env \<Rightarrow> dev_attr \<Rightarrow> kqp \<Rightarrow> kern \<Rightarrow> int \<times> kqp \<times> kern" where
  "alloc_queues E a q s =
     (let n = max_qp_wr a * max_recv_sge a;
          rlen = roundup (16 * n) 4096; slen = roundup (64 * n) 4096;
          q = q\<lparr>rq := (rq q)\<lparr>max_cnt := MAX_RQE, max_wqe_idx := MAX_RQE - 1\<rparr>\<rparr>
      in case dma_alloc E rlen s of
           (None, s) \<Rightarrow> (- EINVAL, q, s)
         | (Some (rva, rpa), s) \<Rightarrow>
             (let q = q\<lparr>rq_va := Some rva, rq_mem := replicate (unat rlen div 16) zero_rqe,
                        rq := (rq q)\<lparr>q_len := rlen, q_pa := rpa, entry_size := 16\<rparr>,
                        sq := (sq q)\<lparr>max_cnt := n, max_wqe_idx := n - 1\<rparr>\<rparr>
              in case dma_alloc E slen s of
                   (None, s) \<Rightarrow> (- EINVAL, q, s)
                 | (Some (sva, spa), s) \<Rightarrow>
                     (0, q\<lparr>sq_va := Some sva, sq_mem := replicate (unat slen div 64) zero_wqe,
                           sq := (sq q)\<lparr>q_len := slen, q_pa := spa, entry_size := 64\<rparr>\<rparr>, s)))"

text \<open>Both completion queues learn the number of the queue pair.\<close>

definition attach_cqs :: "qp_init_attr \<Rightarrow> kqp \<Rightarrow> (nat \<Rightarrow> cq option) \<Rightarrow> (kqp \<times> cq \<times> cq \<times> (nat \<Rightarrow> cq option)) option" where
  "attach_cqs i q cqs = do {
     c \<leftarrow> ia_send_cq i;
     x \<leftarrow> cqs c;
     let cqs = cqs(c \<mapsto> x\<lparr>cq_qp_id := qp_id q\<rparr>);
     rc \<leftarrow> ia_recv_cq i;
     y \<leftarrow> cqs rc;
     let cqs = cqs(rc \<mapsto> y\<lparr>cq_qp_id := qp_id q\<rparr>);
     Some (q\<lparr>sq_cq := Some c, rq_cq := Some rc\<rparr>, x, y, cqs)
   }"

definition bxroce_hw_create_qp :: "env \<Rightarrow> dev_attr \<Rightarrow> qp_init_attr \<Rightarrow> kqp \<Rightarrow> (nat \<Rightarrow> cq option) \<Rightarrow> kern \<Rightarrow>
    (int \<times> kqp \<times> (nat \<Rightarrow> cq option) \<times> kern) option" where
  "bxroce_hw_create_qp E a i q cqs s =
     (let (st, q, s) = alloc_queues E a q s
      in if st \<noteq> 0 then Some (st, q, cqs, s)
         else do {
           (q, x, y, cqs) \<leftarrow> attach_cqs i q cqs;
           s \<leftarrow> program_qp E q x y s;
           Some (0, q, cqs, s)
         })"

section \<open>The verbs\<close>

text \<open>What the process is told, and the ranges it may map: the two queues, the doorbells, the shared fields.\<close>

definition bxroce_copy_qp_uresp :: "env \<Rightarrow> (nat \<Rightarrow> u64) \<Rightarrow> dev \<Rightarrow> kqp \<Rightarrow> ucontext \<Rightarrow> kern \<Rightarrow>
    (int \<times> ucontext \<times> kern) option" where
  "bxroce_copy_qp_uresp E v2p d q u s = do {
     sva \<leftarrow> sq_va q; rva \<leftarrow> rq_va q; info \<leftarrow> info_obj q;
     let sq_len = ucast (page_align (q_len (sq q)));
     let rq_len = ucast (page_align (q_len (rq q)));
     let (ok, s) = copy_user E s;
     if \<not> ok then Some (- EFAULT, u, s) else
     let (st, u, s) = bxroce_add_mmap E u (v2p sva) sq_len s in
     if st \<noteq> 0 then Some (st, u, s) else
     let (st, u, s) = bxroce_add_mmap E u (v2p rva) rq_len s in
     if st \<noteq> 0 then let (u, s) = bxroce_del_mmap u (v2p sva) sq_len s in Some (st, u, s) else
     let (st, u, s) = bxroce_add_mmap E u (ioaddr d) SQ_REG_LEN s in
     if st \<noteq> 0 then let (u, s) = bxroce_del_mmap u (v2p rva) rq_len s;
                        (u, s) = bxroce_del_mmap u (v2p sva) sq_len s in Some (st, u, s) else
     let (st, u, s) = bxroce_add_mmap E u (v2p info) 4096 s in
     if st \<noteq> 0 then let (u, s) = bxroce_del_mmap u (ioaddr d) SQ_REG_LEN s;
                        (u, s) = bxroce_del_mmap u (v2p rva) rq_len s;
                        (u, s) = bxroce_del_mmap u (v2p sva) sq_len s in Some (st, u, s)
     else Some (0, u, s)
   }"

definition bxroce_store_qp1_resource :: "qp_init_attr \<Rightarrow> dev \<Rightarrow> dev" where
  "bxroce_store_qp1_resource i d =
     (if ia_type i = IB_QPT_GSI
      then d\<lparr>is_qp1_allocated := True, gsi_sqcq := ia_send_cq i, gsi_rqcq := ia_recv_cq i\<rparr> else d)"

text \<open>
  \<open>_bxroce_destroy_qp\<close>. The number is cleared in the structure of the device, at the address of
  the pointer to the bitmap, and not in the bitmap.
\<close>

definition destroy_qp_inner :: "kqp \<Rightarrow> dev \<Rightarrow> kern \<Rightarrow> dev \<times> kern" where
  "destroy_qp_inner q d s =
     (let s = (case sq_va q of None \<Rightarrow> s | Some b \<Rightarrow> dma_free b s);
          s = (case rq_va q of None \<Rightarrow> s | Some b \<Rightarrow> dma_free b s)
      in (clear_dev_bit (unat (qp_id q)) d, s))"

text \<open>\<open>map_err\<close>: the slot of the table is cleared whoever it belongs to.\<close>

definition create_qp_undo :: "kqp \<Rightarrow> dev \<Rightarrow> kern \<Rightarrow> (dev \<times> kern) option" where
  "create_qp_undo q d s =
     (if \<not> qp_tab_found d \<or> qp_id q \<ge> max_qp (attr d) then None
      else let d = d\<lparr>qp_tab := (qp_tab d)(unat (qp_id q) := None)\<rparr>;
               (d, s) = destroy_qp_inner q d s;
               s = mutex_unlock Dev_lock s;
               s = kfree (wqe_tbl q) s;
               s = kfree (rqe_tbl q) s
           in Some (d, kfree (Some (qp_obj q)) s))"

text \<open>The number of a new queue pair, None when a second GSI queue pair is asked for.\<close>

definition draw_qp_num :: "klib \<Rightarrow> ib_qp_type \<Rightarrow> dev \<Rightarrow> (u32 option \<times> dev) option" where
  "draw_qp_num L t d =
     (if t = IB_QPT_GSI
      then Some (if \<not> is_qp1_allocated d then (Some 1, d\<lparr>is_qp1_allocated := True\<rparr>) else (None, d))
      else if \<not> qps_found d then None
      else case bxroce_alloc_cqqpresource (find_next_zero_bit L) (find_first_zero_bit L) (qps_bits d)
                 (unat (max_qp (attr d))) (next_qp d) of
             (status, bm, None, nx) \<Rightarrow> Some (Some 0, d)
           | (status, bm, Some n, nx) \<Rightarrow> Some (Some (word_of_nat n), d\<lparr>qps_bits := bm, next_qp := nx\<rparr>))"

text \<open>
  From the queue pair with its number on. \<open>u\<close> is the context of the protection domain, which a
  user process has.
\<close>

definition create_qp_rest :: "env \<Rightarrow> (nat \<Rightarrow> u64) \<Rightarrow> qp_init_attr \<Rightarrow> bool \<Rightarrow> ucontext option \<Rightarrow> kqp \<Rightarrow>
    (nat \<Rightarrow> cq option) \<Rightarrow> dev \<Rightarrow> kern \<Rightarrow>
    ((int + kqp) \<times> ucontext option \<times> (nat \<Rightarrow> cq option) \<times> dev \<times> kern) option" where
  "create_qp_rest E v2p i udata u q cqs d s = do {
     let s = mutex_lock Dev_lock s;
     (st, q, cqs, s) \<leftarrow> bxroce_hw_create_qp E (attr d) i q cqs s;
     if st \<noteq> 0 then Some (Inl st, u, cqs, d, kfree (Some (qp_obj q)) s) else do {
       let (st, q, s) = (if \<not> udata then bxroce_alloc_wr_id_tbl E q s else (0, q, s));
       if st \<noteq> 0 then do { (d, s) \<leftarrow> create_qp_undo q d s; Some (Inl st, u, cqs, d, s) } else
       if \<not> qp_tab_found d then None else
       if \<not> (qp_id q < 1024 \<and> qp_tab d (unat (qp_id q)) = None)
       then do { (d, s) \<leftarrow> create_qp_undo q d s; Some (Inl (- EINVAL), u, cqs, d, s) } else do {
         let d = d\<lparr>qp_tab := (qp_tab d)(unat (qp_id q) \<mapsto> qp_obj q)\<rparr>;
         (st, u, s) \<leftarrow> (if udata then (case u of
                            None \<Rightarrow> None
                          | Some c \<Rightarrow> map_option (\<lambda>(st, c, s). (st, Some c, s)) (bxroce_copy_qp_uresp E v2p d q c s))
                        else Some (0, u, s));
         if st \<noteq> 0 then do { (d, s) \<leftarrow> create_qp_undo q d s; Some (Inl st, u, cqs, d, s) } else
         let d = bxroce_store_qp1_resource i d; s = mutex_unlock Dev_lock s
         in Some (Inr q, u, cqs, d, s)
       }
     }
   }"

definition bxroce_create_qp :: "env \<Rightarrow> klib \<Rightarrow> (nat \<Rightarrow> u64) \<Rightarrow> nat \<Rightarrow> qp_init_attr \<Rightarrow> bool \<Rightarrow> ucontext option \<Rightarrow>
    (nat \<Rightarrow> cq option) \<Rightarrow> dev \<Rightarrow> kern \<Rightarrow>
    ((int + kqp) \<times> ucontext option \<times> (nat \<Rightarrow> cq option) \<times> dev \<times> kern) option" where
  "bxroce_create_qp E L v2p pd i udata u cqs d s =
     (let st = bxroce_check_qp_params (attr d) i udata
      in if ia_send_cq i = None then Some (Inl (- ENOMEM), u, cqs, d, s)
         else if st \<noteq> 0 then Some (Inl st, u, cqs, d, s)
         else
           let (ok, s) = (if udata then copy_user E s else (True, s))
           in if \<not> ok then Some (Inl (- EFAULT), u, cqs, d, s)
              else case kalloc E s of
                (None, s) \<Rightarrow> Some (Inl (- ENOMEM), u, cqs, d, s)
              | (Some p, s) \<Rightarrow>
                  (case kalloc E s of
                     (None, s) \<Rightarrow> Some (Inl (- ENOMEM), u, cqs, d, s)
                   | (Some ci, s) \<Rightarrow>
                       (let q = bxroce_set_qp_init_params ((zero_qp p)\<lparr>info_obj := Some ci\<rparr>) pd i
                        in case draw_qp_num L (ia_type i) d of
                             None \<Rightarrow> None
                           | Some (None, d) \<Rightarrow> Some (Inl (- EINVAL), u, cqs, d, s)
                           | Some (Some n, d) \<Rightarrow> create_qp_rest E v2p i udata u (q\<lparr>qp_id := n\<rparr>) cqs d s)))"

definition bxroce_query_qp :: "kqp \<Rightarrow> int \<times> kqp" where
  "bxroce_query_qp q = (0, q)"

text \<open>\<open>u\<close> is the context \<open>pd->uctx\<close> points to, when it is set.\<close>

definition bxroce_destroy_qp :: "kqp \<Rightarrow> ucontext option \<Rightarrow> dev \<Rightarrow> kern \<Rightarrow>
    (int \<times> ucontext option \<times> dev \<times> kern) option" where
  "bxroce_destroy_qp q u d s =
     (let s = mutex_lock Dev_lock s;
          (d, s) = destroy_qp_inner q d s
      in if sq_cq q = None \<or> \<not> qp_tab_found d \<or> qp_id q \<ge> max_qp (attr d) then None
         else
           let s = mutex_lock Sq_cq_lock s;
               shared = (rq_cq q = None \<or> rq_cq q = sq_cq q);
               s = (if shared then s else mutex_lock Rq_cq_lock s);
               d = d\<lparr>qp_tab := (qp_tab d)(unat (qp_id q) := None)\<rparr>;
               s = (if shared then s else mutex_unlock Rq_cq_lock s);
               s = mutex_unlock Sq_cq_lock s;
               s = mutex_unlock Dev_lock s;
               (u, s) = (case u of None \<Rightarrow> (None, s) | Some c \<Rightarrow>
                 (let (c, s) = bxroce_del_mmap c (q_pa (sq q)) (ucast (page_align (q_len (sq q)))) s;
                      (c, s) = bxroce_del_mmap c (q_pa (rq q)) (ucast (page_align (q_len (rq q)))) s;
                      (c, s) = bxroce_del_mmap c (ioaddr d) SQ_REG_LEN s
                  in (Some c, s)));
               s = kfree (wqe_tbl q) s;
               s = kfree (rqe_tbl q) s
           in Some (0, u, d, kfree (Some (qp_obj q)) s))"

text \<open>Shared receive queues are not supported: the verbs return without doing anything.\<close>

definition bxroce_create_srq :: "kern \<Rightarrow> nat option \<times> kern" where "bxroce_create_srq s = (None, s)"
definition bxroce_modify_srq :: "kern \<Rightarrow> int \<times> kern" where "bxroce_modify_srq s = (0, s)"
definition bxroce_query_srq :: "kern \<Rightarrow> int \<times> kern" where "bxroce_query_srq s = (0, s)"
definition bxroce_destroy_srq :: "kern \<Rightarrow> int \<times> kern" where "bxroce_destroy_srq s = (0, s)"
definition bxroce_post_srq_recv :: "kern \<Rightarrow> int \<times> kern" where "bxroce_post_srq_recv s = (0, s)"

end
