(* ===== verification/Cq_Correct.thy ===== *)
theory Cq_Correct
  imports Cq
begin

text \<open>
  Completion queues: what creating and destroying one gives back, what polling returns, and the
  ranges a process may map for them.
\<close>

section \<open>The shape of a queue\<close>

text \<open>A queue as \<open>bxroce_create_cq\<close> makes it, with read pointers inside the rings.\<close>

definition cq_ok :: "cq \<Rightarrow> bool" where
  "cq_ok c \<longleftrightarrow> cq_buf c \<noteq> None \<and> cqe_size c = 16 \<and> cq_len c = 4096 \<and>
     txrp c < 256 \<and> rxrp c < 256 \<and> xmitrp c < 256"

definition device_attr :: "dev_attr \<Rightarrow> bool" where
  "device_attr a \<longleftrightarrow> (\<exists>mac ven devn. a = snd (bxroce_query_device mac ven devn))"

lemma device_attr_limits:
  "device_attr a \<Longrightarrow> max_cqe a = 256 \<and> max_cq a = 1024 \<and> max_qp a = 1024 \<and> max_qp_wr a = 1024 \<and>
     max_send_sge a = 2 \<and> max_recv_sge a = 2"
  by (auto simp: device_attr_def bxroce_query_device_def)

lemma hw_create_cq_ok:
  assumes "bxroce_hw_create_cq E a c s = (0, c', s')" "device_attr a"
  shows "cq_ok c' \<and> cq_obj c' = cq_obj c \<and> cq_id c' = cq_id c \<and> cq_uctx c' = cq_uctx c \<and>
    cq_qp_id c' = cq_qp_id c \<and> cq_buf c' = Some (next_obj s) \<and>
    s' = (emit (Edma_alloc (next_obj s) 12288) s)\<lparr>next_obj := Suc (next_obj s)\<rparr>"
  using assms device_attr_limits [OF assms(2)]
  by (auto simp: bxroce_hw_create_cq_def cq_ok_def sizeof_cqe_def roundup_def dma_alloc_def Let_def
      split: if_splits)

lemma hw_create_cq_fail:
  assumes "bxroce_hw_create_cq E a c s = (st, c', s')" "st \<noteq> 0"
  shows "st = - ENOMEM \<and> s' = emit Edma_fail s"
  using assms by (auto simp: bxroce_hw_create_cq_def dma_alloc_def Let_def split: if_splits)

lemma ring_offset: "i < 256 \<Longrightarrow> unat (16 * i :: u32) = 16 * unat i"
  by (subst unat_mult_lem [THEN iffD1]) (auto simp: word_less_nat_alt)

lemma heads_inside:
  assumes "cq_ok c"
  shows "entry_inside c (bxroce_txcq_head c)" "entry_inside c (bxroce_rxcq_head c)"
    "entry_inside c (bxroce_xmitcq_head c)"
    "bxroce_rxcq_head c = 8192 + 16 * unat (rxrp c)" "bxroce_xmitcq_head c = 4096 + 16 * unat (xmitrp c)"
  using assms ring_offset [of "txrp c"] ring_offset [of "rxrp c"] ring_offset [of "xmitrp c"]
  by (auto simp: cq_ok_def entry_inside_def sizeof_cqe_def bxroce_txcq_head_def bxroce_rxcq_head_def
      bxroce_xmitcq_head_def word_less_nat_alt)

section \<open>Polling\<close>

text \<open>How many of the \<open>n\<close> entries of a ring from position \<open>p\<close> on have their last byte set.\<close>

definition marked :: "(nat \<Rightarrow> rxcqe) \<Rightarrow> nat \<Rightarrow> nat \<Rightarrow> nat \<Rightarrow> nat" where
  "marked mem base p n = length (filter (\<lambda>i. hff (mem (base + 16 * ((p + i) mod 256))) \<noteq> 0) [0..<n])"

lemma marked_0 [simp]: "marked mem base p 0 = 0"
  by (simp add: marked_def)

lemma marked_Suc:
  assumes "p < 256"
  shows "marked mem base p (Suc n) =
    (if hff (mem (base + 16 * p)) \<noteq> 0 then 1 else 0) + marked mem base (Suc p mod 256) n"
proof -
  have "[0..<Suc n] = 0 # map Suc [0..<n]" by (simp add: map_Suc_upt upt_conv_Cons)
  then show ?thesis
    using assms by (simp add: marked_def filter_map comp_def mod_simps)
qed

lemma next_rp: "i < 256 \<Longrightarrow> (i + 1) mod 256 < (256 :: u32) \<and> unat ((i + 1) mod 256) = Suc (unat i) mod 256"
  for i :: u32
  by (auto simp: word_less_nat_alt unat_mod unat_word_ariths)

lemma poll_loop_returns:
  assumes "cq_ok c"
  shows "\<exists>c'. poll_loop mem n c (a, b) =
      Some ((a + marked mem 8192 (unat (rxrp c)) n, b + marked mem 4096 (unat (xmitrp c)) n), c') \<and> cq_ok c' \<and>
    c' = c\<lparr>rxrp := rxrp c', xmitrp := xmitrp c'\<rparr> \<and>
    unat (rxrp c') = (unat (rxrp c) + n) mod 256 \<and> unat (xmitrp c') = (unat (xmitrp c) + n) mod 256"
  using assms
proof (induction n arbitrary: c a b)
  case 0
  then show ?case by (auto simp: cq_ok_def word_less_nat_alt)
next
  case (Suc n)
  let ?c = "c\<lparr>rxrp := (rxrp c + 1) mod 256, xmitrp := (xmitrp c + 1) mod 256\<rparr>"
  have lt: "rxrp c < 256" "xmitrp c < 256" using Suc.prems by (simp_all add: cq_ok_def)
  note rx = next_rp [OF lt(1)] and xm = next_rp [OF lt(2)]
  have "cq_ok ?c" using Suc.prems rx xm by (simp add: cq_ok_def)
  from Suc.IH [OF this, of "a + (if hff (mem (8192 + 16 * unat (rxrp c))) \<noteq> 0 then 1 else 0)"
      "b + (if hff (mem (4096 + 16 * unat (xmitrp c))) \<noteq> 0 then 1 else 0)"]
  show ?case
    using heads_inside [OF Suc.prems] rx xm lt
    by (auto simp: marked_Suc word_less_nat_alt mod_simps)
qed

lemma read_wp_balanced: "balanced s (snd (read_wp E r w q s))"
proof -
  have "io_only t (snd (pgu_read E (w + 4) (snd (pgu_read E w (pgu_write r v t)))))" for t v
    by (rule io_only_trans [OF io_only_trans [OF io_only_write io_only_read] io_only_read])
  then show ?thesis
    unfolding read_wp_def Let_def split_def snd_conv by (intro balanced_section balanced_io)
qed

lemma hwwp_ok:
  assumes "cq_ok c"
  shows "\<exists>p v s'. bxroce_txcq_hwwp E q c s = Some (p, c\<lparr>txwp := v\<rparr>, s') \<and> balanced s s'"
    "\<exists>p v s'. bxroce_rxcq_hwwp E q c s = Some (p, c\<lparr>rxwp := v\<rparr>, s') \<and> balanced s s'"
    "\<exists>p v s'. bxroce_xmitcq_hwwp E q c s = Some (p, c\<lparr>xmitwp := v\<rparr>, s') \<and> balanced s s'"
  using assms read_wp_balanced [of s E]
  by (auto simp: cq_ok_def bxroce_txcq_hwwp_def bxroce_rxcq_hwwp_def bxroce_xmitcq_hwwp_def
      Let_def split_def)

lemma cq_ok_wp [simp]: "cq_ok (c\<lparr>txwp := v\<rparr>) = cq_ok c" "cq_ok (c\<lparr>rxwp := v\<rparr>) = cq_ok c"
  "cq_ok (c\<lparr>xmitwp := v\<rparr>) = cq_ok c"
  by (simp_all add: cq_ok_def)

text \<open>What polling does to a queue: the three write pointers and the two read pointers.\<close>

definition polled :: "nat \<Rightarrow> cq \<Rightarrow> cq \<Rightarrow> bool" where
  "polled n c c' \<longleftrightarrow>
     c' = c\<lparr>txwp := txwp c', rxwp := rxwp c', xmitwp := xmitwp c', rxrp := rxrp c', xmitrp := xmitrp c'\<rparr> \<and>
     unat (rxrp c') = (unat (rxrp c) + n) mod 256 \<and> unat (xmitrp c') = (unat (xmitrp c) + n) mod 256"

lemma poll_visits:
  assumes "cq_ok c"
  shows "\<exists>c'. (if n \<noteq> 0 then poll_loop mem 400 c (0, 0) else Some ((0, 0), c)) =
      Some ((marked mem 8192 (unat (rxrp c)) (if n = (0 :: int) then 0 else 400),
             marked mem 4096 (unat (xmitrp c)) (if n = 0 then 0 else 400)), c') \<and> cq_ok c' \<and>
    c' = c\<lparr>rxrp := rxrp c', xmitrp := xmitrp c'\<rparr> \<and>
    unat (rxrp c') = (unat (rxrp c) + (if n = 0 then 0 else 400)) mod 256 \<and>
    unat (xmitrp c') = (unat (xmitrp c) + (if n = 0 then 0 else 400)) mod 256"
  using assms poll_loop_returns [OF assms, of mem 400 0 0]
  by (cases "n = 0") (auto simp: cq_ok_def word_less_nat_alt)

lemma poll_hwcq_returns:
  assumes "cq_ok c" "qp_tab_found d" "cq_qp_id c < max_qp (attr d)"
    "qp_tab d (unat (cq_qp_id c)) = Some p" "ids p = Some q"
  shows "\<exists>c' s'. bxroce_poll_hwcq E mem d ids c n s =
      Some (0, (marked mem 8192 (unat (rxrp c)) (if n = 0 then 0 else 400),
                marked mem 4096 (unat (xmitrp c)) (if n = 0 then 0 else 400)), c', s') \<and>
    polled (if n = 0 then 0 else 400) c c' \<and> cq_ok c' \<and> balanced s s'"
proof -
  let ?s = "mutex_unlock Dev_lock (mutex_lock Dev_lock s)"
  obtain p1 v1 s1 where 1: "bxroce_txcq_hwwp E q c ?s = Some (p1, c\<lparr>txwp := v1\<rparr>, s1)" "balanced ?s s1"
    using hwwp_ok(1) [OF assms(1)] by blast
  let ?c1 = "c\<lparr>txwp := v1\<rparr>"
  obtain p2 v2 s2 where 2: "bxroce_rxcq_hwwp E q ?c1 s1 = Some (p2, ?c1\<lparr>rxwp := v2\<rparr>, s2)" "balanced s1 s2"
    using hwwp_ok(2) [of ?c1 E q s1] assms(1) by auto
  let ?c2 = "?c1\<lparr>rxwp := v2\<rparr>"
  obtain p3 v3 s3 where 3: "bxroce_xmitcq_hwwp E q ?c2 s2 = Some (p3, ?c2\<lparr>xmitwp := v3\<rparr>, s3)" "balanced s2 s3"
    using hwwp_ok(3) [of ?c2 E q s2] assms(1) by auto
  let ?c3 = "?c2\<lparr>xmitwp := v3\<rparr>"
  have ok: "cq_ok ?c3" using assms(1) by simp
  obtain c' where c': "(if n \<noteq> 0 then poll_loop mem 400 ?c3 (0, 0) else Some ((0, 0), ?c3)) =
      Some ((marked mem 8192 (unat (rxrp ?c3)) (if n = 0 then 0 else 400),
             marked mem 4096 (unat (xmitrp ?c3)) (if n = 0 then 0 else 400)), c')" and ok': "cq_ok c'"
    and up: "c' = ?c3\<lparr>rxrp := rxrp c', xmitrp := xmitrp c'\<rparr>"
      "unat (rxrp c') = (unat (rxrp c) + (if n = 0 then 0 else 400)) mod 256"
      "unat (xmitrp c') = (unat (xmitrp c) + (if n = 0 then 0 else 400)) mod 256"
    using poll_visits [OF ok, where n = n and mem = mem] by auto
  have "polled (if n = 0 then 0 else 400) c c'"
    unfolding polled_def using up by (cases c, cases c') simp
  moreover have "balanced s s3"
  proof -
    have "balanced s ?s" by (rule balanced_section) simp
    with 1(2) 2(2) 3(2) show ?thesis by (meson balanced_trans)
  qed
  ultimately show ?thesis
    using assms(2-5) heads_inside [OF ok] heads_inside [OF ok'] ok' 1(1) 2(1) 3(1) c'
    unfolding bxroce_poll_hwcq_def Let_def by simp
qed

lemma io_only_readl [simp]: "io_only s (snd (readl E r a s))"
  by (auto simp: io_only_def readl_def Let_def)

lemma io_only_mac_reads [simp]: "io_only s (mac_reads E i as s)"
proof (induction as arbitrary: s)
  case (Cons a as)
  then show ?case
    using io_only_trans [OF io_only_readl Cons.IH] by (simp add: mac_reg_read_def reg_read_def)
qed simp

lemma io_only_mac_dma_reads [simp]: "io_only s (mac_dma_reads E as s)"
proof (induction as arbitrary: s)
  case (Cons a as)
  then show ?case using io_only_trans [OF io_only_readl Cons.IH] by (simp add: mac_dma_reads_def)
qed (simp add: mac_dma_reads_def)

lemma poll_report_balanced:
  "balanced s (mutex_unlock Hw_lock (mac_dma_reads E as (snd (pgu_read E r3 (snd (pgu_read E r2
     (snd (pgu_read E r1 (mac_print_all_regs E i (mutex_lock Hw_lock s))))))))))"
  unfolding mac_print_all_regs_def
  by (intro balanced_section balanced_io)
    (meson io_only_mac_dma_reads io_only_mac_reads io_only_read io_only_trans)

lemma poll_cq_returns:
  assumes "cq_ok c" "qp_tab_found d" "cq_qp_id c < max_qp (attr d)"
    "qp_tab d (unat (cq_qp_id c)) = Some p" "ids p = Some q"
  shows "\<exists>c' s'. bxroce_poll_cq E mem d ids c n s =
      Some (0, (marked mem 8192 (unat (rxrp c)) (if n = 0 then 0 else 400),
                marked mem 4096 (unat (xmitrp c)) (if n = 0 then 0 else 400)), c', s') \<and>
    polled (if n = 0 then 0 else 400) c c' \<and> cq_ok c' \<and> balanced s s'"
proof -
  obtain c' s1 where h: "bxroce_poll_hwcq E mem d ids c n (mutex_lock Cq_lock s) =
      Some (0, (marked mem 8192 (unat (rxrp c)) (if n = 0 then 0 else 400),
                marked mem 4096 (unat (xmitrp c)) (if n = 0 then 0 else 400)), c', s1)"
    and pc: "polled (if n = 0 then 0 else 400) c c'" "cq_ok c'" "balanced (mutex_lock Cq_lock s) s1"
    using poll_hwcq_returns [where ids = ids, OF assms] by blast
  from pc(3) have "balanced s (mutex_unlock Cq_lock s1)" by (rule balanced_section)
  from balanced_trans [OF this poll_report_balanced] pc(1,2) show ?thesis
    unfolding bxroce_poll_cq_def Let_def h by simp
qed

text \<open>
  Polling completes nothing. For a queue as it was created, \<open>bxroce_poll_cq\<close> returns exactly
  when a queue pair that exists is attached to it (a new queue has none, and \<open>BUG_ON\<close> stops the
  kernel). It then returns 0 whatever the card has written, leaves every lock as it was, counts
  the marked entries among the 400 it visits in each ring, and moves both read pointers on by
  400 modulo 256, over entries that no one was told about.
\<close>

theorem poll_cq_completes_nothing:
  assumes "cq_ok c" "qp_tab_found d" "cq_qp_id c < max_qp (attr d)" "n \<noteq> 0"
  shows "((\<exists>r. bxroce_poll_cq E mem d ids c n s = Some r) \<longleftrightarrow>
      (\<exists>p. qp_tab d (unat (cq_qp_id c)) = Some p \<and> ids p \<noteq> None)) \<and>
    (\<forall>r tot c' s'. bxroce_poll_cq E mem d ids c n s = Some (r, tot, c', s') \<longrightarrow>
      r = 0 \<and> tot = (marked mem 8192 (unat (rxrp c)) 400, marked mem 4096 (unat (xmitrp c)) 400) \<and>
      polled 400 c c' \<and> cq_ok c' \<and> held l (trace s') = held l (trace s))"
proof (cases "\<exists>p q. qp_tab d (unat (cq_qp_id c)) = Some p \<and> ids p = Some q")
  case True
  then obtain p q where "qp_tab d (unat (cq_qp_id c)) = Some p" "ids p = Some q" by blast
  with poll_cq_returns [where ids = ids, OF assms(1-3) this, of E mem n s] assms(4) show ?thesis
    by (auto simp: balanced_def)
next
  case False
  then have "bxroce_poll_cq E mem d ids c n s = None"
    by (cases "qp_tab d (unat (cq_qp_id c))") (auto simp: bxroce_poll_cq_def bxroce_poll_hwcq_def Let_def)
  with False show ?thesis by auto
qed

definition small_cq :: cq where
  "small_cq = (zero_cq 7)\<lparr>cq_buf := Some 8, cqe_size := 16, cq_len := 4096, cq_id := 3, cq_qp_id := 2\<rparr>"

definition small_dev :: dev where
  "small_dev = (r_dev blank_resources)\<lparr>qp_tab := [2 \<mapsto> 9]\<rparr>"

lemma small_cq_ok: "cq_ok small_cq" "qp_tab_found small_dev" "cq_qp_id small_cq < max_qp (attr small_dev)"
  by (simp_all add: small_cq_def zero_cq_def cq_ok_def small_dev_def blank_resources_def qp_tab_found_def
      bxroce_query_device_def)

definition marked_entry :: rxcqe where
  "marked_entry = \<lparr>bth_pkey = 0, bth_24_31 = 0, bth_destqp = 0, destqpeec = 0, bth_64_87_lo = 0,
     bth_64_87_hi = 0, aeth = 0, rx_immdt = 0, hff = 0xff\<rparr>"

theorem poll_cq_completes_nothing_witness:
  "(\<exists>tot c s. bxroce_poll_cq file_env (\<lambda>_. marked_entry) small_dev [9 \<mapsto> 2] small_cq 1 empty_kern =
      Some (0, tot, c, s) \<and> unat (rxrp c) = 144) \<and>
   bxroce_poll_cq file_env (\<lambda>_. marked_entry) small_dev [9 \<mapsto> 2] (small_cq\<lparr>cq_qp_id := 0\<rparr>) 1 empty_kern = None"
proof -
  note poll = poll_cq_completes_nothing [where n = 1 and E = file_env and mem = "\<lambda>_. marked_entry"
      and ids = "[9 \<mapsto> 2]" and s = empty_kern and d = small_dev and l = Hw_lock]
  have "qp_tab small_dev (unat (cq_qp_id small_cq)) = Some 9"
    by (simp add: small_cq_def small_dev_def)
  then obtain r tot c s where r: "bxroce_poll_cq file_env (\<lambda>_. marked_entry) small_dev [9 \<mapsto> 2] small_cq 1
      empty_kern = Some (r, tot, c, s)"
    using poll [OF small_cq_ok] by force
  then have "polled 400 small_cq c" "r = 0"
    using poll [OF small_cq_ok one_neq_zero] by blast+
  then have "unat (rxrp c) = 144" "r = 0" by (simp_all add: polled_def small_cq_def zero_cq_def)
  have new: "cq_ok (small_cq\<lparr>cq_qp_id := 0\<rparr>)"
      "cq_qp_id (small_cq\<lparr>cq_qp_id := 0\<rparr>) < max_qp (attr small_dev)"
      "qp_tab small_dev (unat (cq_qp_id (small_cq\<lparr>cq_qp_id := 0\<rparr>))) = None"
    using small_cq_ok(1) by (simp_all add: cq_ok_def small_dev_def blank_resources_def bxroce_query_device_def)
  then have "bxroce_poll_cq file_env (\<lambda>_. marked_entry) small_dev [9 \<mapsto> 2] (small_cq\<lparr>cq_qp_id := 0\<rparr>) 1
      empty_kern = None"
    using conjunct1 [OF poll [OF new(1) small_cq_ok(2) new(2) one_neq_zero]] by (metis not_Some_eq)
  with \<open>unat (rxrp c) = 144\<close> \<open>r = 0\<close> r show ?thesis by blast
qed

section \<open>Creation and destruction\<close>

abbreviation search_ok :: "klib \<Rightarrow> bool" where
  "search_ok L \<equiv> zero_bit_search (find_next_zero_bit L) (find_first_zero_bit L)"

definition allocated_at :: "kern \<Rightarrow> kern" where
  "allocated_at s = (emit (Ekalloc (next_obj s)) s)\<lparr>next_obj := Suc (next_obj s)\<rparr>"

lemma create_cq_kernel:
  assumes "bxroce_create_cq E L v2p False None d s = Some (Inr c, ctx', d', s')"
    and "search_ok L" "device_attr (attr d)"
  shows "\<exists>n nx. n < 1024 \<and> \<not> cqs_bits d n \<and> cq_id c = word_of_nat n \<and> cq_ok c \<and>
    cq_obj c = next_obj s \<and> cq_buf c = Some (next_obj s + 1) \<and> cq_uctx c = None \<and> cq_qp_id c = 0 \<and>
    cq_tab_found d \<and> ctx' = None \<and>
    d' = d\<lparr>cqs_bits := set_bit_at n (cqs_bits d), next_cq := nx, cq_tab := (cq_tab d)(n \<mapsto> next_obj s)\<rparr> \<and>
    trace s' = Edma_alloc (next_obj s + 1) 12288 # Ekalloc (next_obj s) # trace s"
proof -
  obtain st bm n nx where
    al: "bxroce_alloc_cqqpresource (find_next_zero_bit L) (find_first_zero_bit L) (cqs_bits d)
      (unat (max_cq (attr d))) (next_cq d) = (st, bm, Some n, nx)"
    and hw: "bxroce_hw_create_cq E (attr d) ((zero_cq (next_obj s))\<lparr>cq_id := word_of_nat n\<rparr>) (allocated_at s) =
      (0, c, s')"
    and d': "d' = d\<lparr>cqs_bits := bm, next_cq := nx, cq_tab := (cq_tab d)(unat (cq_id c) \<mapsto> next_obj s)\<rparr>"
      "cq_tab_found d" "ctx' = None"
    using assms(1)
    by (auto simp: bxroce_create_cq_def kalloc_def allocated_at_def cq_tab_found_def Let_def
        split: prod.splits if_splits option.splits)
  have n: "n < 1024" "\<not> cqs_bits d n" "bm = set_bit_at n (cqs_bits d)"
    using zero_bit_search.cqqp_found [OF assms(2) al] device_attr_limits [OF assms(3)] by simp_all
  show ?thesis
    by (rule exI [of _ n], rule exI [of _ nx])
      (use n hw_create_cq_ok [OF hw assms(3)] d' in \<open>simp add: zero_cq_def allocated_at_def\<close>)
qed

text \<open>
  A completion queue of the kernel is created and destroyed without a trace: its number was
  free and is free again, the table is what it was, every object is given back.
\<close>

theorem cq_create_destroy:
  assumes "bxroce_create_cq E L v2p False None d s = Some (Inr c, ctx', d', s')"
    and "search_ok L" "device_attr (attr d)" "objs_below s" "\<forall>i. \<not> cqs_bits d i \<longrightarrow> cq_tab d i = None"
  shows "cqs_bits d' (unat (cq_id c)) \<and> cq_tab d' (unat (cq_id c)) = Some (cq_obj c) \<and>
    (\<exists>d'' s''. bxroce_destroy_cq c None d' s' = Some (0, None, d'', s'') \<and> cqs_bits d'' = cqs_bits d \<and>
      cq_tab d'' = cq_tab d \<and> live_objs (trace s'') = live_objs (trace s))"
proof -
  obtain n nx where n: "n < 1024" "\<not> cqs_bits d n" "cq_id c = word_of_nat n" "cq_obj c = next_obj s"
      "cq_buf c = Some (next_obj s + 1)" "cq_uctx c = None" "cq_tab_found d"
      "d' = d\<lparr>cqs_bits := set_bit_at n (cqs_bits d), next_cq := nx, cq_tab := (cq_tab d)(n \<mapsto> next_obj s)\<rparr>"
      "trace s' = Edma_alloc (next_obj s + 1) 12288 # Ekalloc (next_obj s) # trace s"
    using create_cq_kernel [OF assms(1-3)] by blast
  have "next_obj s \<notin> live_objs (trace s)" "Suc (next_obj s) \<notin> live_objs (trace s)"
    using assms(4) by (auto simp: objs_below_def)
  moreover have "clear_bit_at n (set_bit_at n (cqs_bits d)) = cqs_bits d" using n(2) by (auto simp: fun_eq_iff)
  moreover have "(cq_tab d)(n := None) = cq_tab d" using n(2) assms(5) by auto
  ultimately show ?thesis
    using n by (auto simp: bxroce_destroy_cq_def cq_tab_found_def bxroce_free_cqresource_def
        bxroce_free_cqqpresource_def Let_def)
qed

definition scan_lib :: klib where
  "scan_lib = \<lparr>find_next_zero_bit = scan_next_zero, find_first_zero_bit = scan_first_zero,
     rb_color = (\<lambda>_ t. t), rb_unlink = (\<lambda>_ t. t)\<rparr>"

lemma scan_lib_ok: "search_ok scan_lib"
  using scan_search.zero_bit_search_axioms by (simp add: scan_lib_def)

lemma small_dev_attr: "device_attr (attr small_dev)"
  unfolding device_attr_def small_dev_def blank_resources_def by auto

lemma create_cq_small:
  "\<exists>c d' s'. bxroce_create_cq file_env scan_lib (\<lambda>_. 0) False None small_dev empty_kern =
     Some (Inr c, None, d', s')"
  by (simp add: bxroce_create_cq_def kalloc_def file_env_def empty_kern_def scan_lib_def
      bxroce_alloc_cqqpresource_def small_dev_def blank_resources_def bxroce_query_device_def
      scan_next_zero_def bxroce_hw_create_cq_def dma_alloc_def cq_tab_found_def Let_def)

theorem cq_create_destroy_witness:
  "\<exists>c d' s' d'' s''. bxroce_create_cq file_env scan_lib (\<lambda>_. 0) False None small_dev empty_kern =
      Some (Inr c, None, d', s') \<and>
    bxroce_destroy_cq c None d' s' = Some (0, None, d'', s'') \<and> live_objs (trace s'') = {}"
proof -
  obtain c d' s' where r: "bxroce_create_cq file_env scan_lib (\<lambda>_. 0) False None small_dev empty_kern =
      Some (Inr c, None, d', s')"
    using create_cq_small by blast
  have "objs_below empty_kern" "\<forall>i. \<not> cqs_bits small_dev i \<longrightarrow> cq_tab small_dev i = None"
    by (simp_all add: objs_below_def empty_kern_def small_dev_def blank_resources_def)
  from cq_create_destroy [OF r scan_lib_ok small_dev_attr this] r show ?thesis
    by (auto simp: empty_kern_def)
qed

text \<open>
  A queue that cannot get its buffer takes its number with it: \<open>bxroce_create_cq\<close> fails with
  \<open>-ENOMEM\<close> and frees what it allocated, but the number it drew stays taken and belongs to no queue.
\<close>

theorem create_cq_loses_number:
  assumes "alloc_ok E (trace s)" "\<not> alloc_ok E (Ekalloc (next_obj s) # trace s)"
    and "search_ok L" "device_attr (attr d)" "i < 1024" "\<not> cqs_bits d i" "objs_below s"
  shows "\<exists>n nx s'. bxroce_create_cq E L v2p False None d s =
      Some (Inl (- ENOMEM), None, d\<lparr>cqs_bits := set_bit_at n (cqs_bits d), next_cq := nx\<rparr>, s') \<and>
    n < 1024 \<and> \<not> cqs_bits d n \<and> live_objs (trace s') = live_objs (trace s)"
proof -
  obtain st bm r nx where
    al: "bxroce_alloc_cqqpresource (find_next_zero_bit L) (find_first_zero_bit L) (cqs_bits d)
      (unat (max_cq (attr d))) (next_cq d) = (st, bm, r, nx)"
    by (metis prod_cases4)
  have lim: "unat (max_cq (attr d)) = 1024" using device_attr_limits [OF assms(4)] by simp
  obtain n where r: "r = Some n"
    using zero_bit_search.cqqp_none [OF assms(3)] al assms(5,6) lim by (cases r) (metis, blast)
  then have n: "n < 1024" "\<not> cqs_bits d n" "bm = set_bit_at n (cqs_bits d)"
    using zero_bit_search.cqqp_found [OF assms(3)] al lim by (metis)+
  have fresh: "next_obj s \<notin> live_objs (trace s)" using assms(7) by (auto simp: objs_below_def)
  show ?thesis
    by (rule exI [of _ n], rule exI [of _ nx])
      (use assms(1,2) al r n fresh in \<open>simp add: bxroce_create_cq_def kalloc_def bxroce_hw_create_cq_def
        dma_alloc_def Let_def\<close>)
qed

definition one_alloc_env :: env where
  "one_alloc_env = file_env\<lparr>alloc_ok := (\<lambda>t. t = [])\<rparr>"

theorem create_cq_loses_number_witness:
  "\<exists>n nx s'. bxroce_create_cq one_alloc_env scan_lib (\<lambda>_. 0) False None small_dev empty_kern =
      Some (Inl (- ENOMEM), None, small_dev\<lparr>cqs_bits := set_bit_at n (cqs_bits small_dev), next_cq := nx\<rparr>, s') \<and>
    \<not> cqs_bits small_dev n \<and> live_objs (trace s') = {}"
proof -
  have "alloc_ok one_alloc_env (trace empty_kern)"
    "\<not> alloc_ok one_alloc_env (Ekalloc (next_obj empty_kern) # trace empty_kern)"
    "(0 :: nat) < 1024" "\<not> cqs_bits small_dev 0" "objs_below empty_kern"
    by (simp_all add: one_alloc_env_def empty_kern_def small_dev_def blank_resources_def objs_below_def)
  from create_cq_loses_number [OF this(1,2) scan_lib_ok small_dev_attr this(3-5), of "\<lambda>_. 0"]
  show ?thesis by (auto simp: empty_kern_def)
qed

section \<open>The ranges of a process\<close>

lemma page_align_4096: "(3 :: u32) * page_align 4096 = 12288"
  by (simp add: page_align_def)

lemma create_cq_user:
  assumes "bxroce_create_cq E L v2p True (Some u) d s = Some (Inr c, Some u', d', s')"
    and "search_ok L" "device_attr (attr d)"
  shows "cq_buf c = Some (next_obj s + 1) \<and> cq_len c = 4096 \<and> cq_uctx c = Some (uctx_obj u) \<and>
    cq_tab_found d' \<and> attr d' = attr d \<and>
    u' = u\<lparr>mm_head := mm_head u @ [\<lparr>mm_obj = next_obj s + 2, phy_addr = v2p (next_obj s + 1), mm_len = 12288\<rparr>]\<rparr> \<and>
    next_obj s' = next_obj s + 3"
proof -
  let ?s0 = "emit (Ecopy True) s"
  obtain st bm n nx c0 s1 where
    al: "bxroce_alloc_cqqpresource (find_next_zero_bit L) (find_first_zero_bit L) (cqs_bits d)
      (unat (max_cq (attr d))) (next_cq d) = (st, bm, Some n, nx)"
    and hw: "bxroce_hw_create_cq E (attr d) ((zero_cq (next_obj s))\<lparr>cq_id := word_of_nat n\<rparr>)
      (allocated_at ?s0) = (0, c0, s1)"
    and up: "bxroce_copy_cq_uresp E v2p c0 True u s1 = Some (0, c, u', s')"
    and d': "d' = d\<lparr>cqs_bits := bm, next_cq := nx, cq_tab := (cq_tab d)(unat (cq_id c) \<mapsto> next_obj s)\<rparr>"
      "cq_tab_found d"
    using assms(1)
    by (auto simp: bxroce_create_cq_def kalloc_def allocated_at_def cq_tab_found_def copy_user_def Let_def
        bind_eq_Some_conv split: prod.splits if_splits option.splits)
  note hw' = hw_create_cq_ok [OF hw assms(3)]
  have "cq_buf c0 = Some (next_obj s + 1)" "cq_len c0 = 4096" "next_obj s1 = next_obj s + 2"
    using hw' by (simp_all add: allocated_at_def cq_ok_def)
  with up d' show ?thesis
    by (auto simp: bxroce_copy_cq_uresp_def copy_user_def bxroce_add_mmap_def kalloc_def Let_def
        page_align_4096 cq_tab_found_def split: if_splits prod.splits option.splits)
qed

text \<open>
  Destroying a completion queue takes away the range of another. All queues of a process have
  ranges of the same length, and \<open>bxroce_destroy_cq\<close> removes the first entry that matches in
  length or address: when a process creates two queues and destroys the second, the first
  loses its range, and the range of the second stays although its buffer is freed, so that
  \<open>bxroce_mmap\<close> goes on mapping freed memory.
\<close>

theorem destroy_cq_unmaps_another:
  assumes "bxroce_create_cq E L v2p True (Some u) d s = Some (Inr c1, Some u1, d1, s1)"
    and "bxroce_create_cq E L v2p True (Some u1) d1 s1 = Some (Inr c2, Some u2, d2, s2)"
    and "search_ok L" "device_attr (attr d)"
    and "\<forall>m \<in> set (mm_head u). mm_skip (txpa c2) 12288 m"
  shows "\<exists>b1 b2 m1 m2 u3 d3 s3. cq_buf c1 = Some b1 \<and> cq_buf c2 = Some b2 \<and>
    mm_head u2 = mm_head u @ [m1, m2] \<and> phy_addr m1 = v2p b1 \<and> phy_addr m2 = v2p b2 \<and>
    bxroce_destroy_cq c2 (Some u2) d2 s2 = Some (0, Some u3, d3, s3) \<and>
    mm_head u3 = mm_head u @ [m2] \<and> b2 \<notin> live_objs (trace s3) \<and>
    fst (bxroce_find_mmap u3 (v2p b2) 12288 s3)"
proof -
  note c1 = create_cq_user [OF assms(1,3,4)]
  have "device_attr (attr d1)" using c1 assms(4) by simp
  note c2 = create_cq_user [OF assms(2,3) this]
  let ?m1 = "\<lparr>mm_obj = next_obj s + 2, phy_addr = v2p (next_obj s + 1), mm_len = 12288\<rparr>"
  let ?m2 = "\<lparr>mm_obj = next_obj s1 + 2, phy_addr = v2p (next_obj s1 + 1), mm_len = 12288\<rparr>"
  have u2: "mm_head u2 = mm_head u @ ?m1 # [?m2]" using c1 c2 by simp
  have "\<not> mm_skip (txpa c2) 12288 ?m1" by (simp add: mm_skip_def)
  from del_first_split [OF assms(5) this, of "[?m2]"]
  have del: "bxroce_del_mmap u2 (txpa c2) 12288 t =
      (u2\<lparr>mm_head := mm_head u @ [?m2]\<rparr>,
       mutex_unlock Mm_list_lock (kfree (Some (next_obj s + 2)) (mutex_lock Mm_list_lock t)))" for t
    by (simp add: bxroce_del_mmap_def u2 Let_def)
  have find: "fst (bxroce_find_mmap (u2\<lparr>mm_head := mm_head u @ [?m2]\<rparr>) (v2p (next_obj s1 + 1)) 12288 t)" for t
    by (simp add: bxroce_find_mmap_def find_entry_iff Let_def)
  have f2: "cq_buf c2 = Some (next_obj s1 + 1)" "cq_len c2 = 4096" "cq_uctx c2 = Some (uctx_obj u1)" "cq_tab_found d2"
    using c2 by simp_all
  have des: "\<exists>d3 s3. bxroce_destroy_cq c2 (Some u2) d2 s2 = Some (0, Some (u2\<lparr>mm_head := mm_head u @ [?m2]\<rparr>), d3, s3) \<and>
      next_obj s1 + 1 \<notin> live_objs (trace s3)"
    using f2 page_align_4096
    by (auto simp: bxroce_destroy_cq_def bxroce_free_cqresource_def cq_tab_found_def del Let_def)
  then obtain d3 s3 where "bxroce_destroy_cq c2 (Some u2) d2 s2 =
      Some (0, Some (u2\<lparr>mm_head := mm_head u @ [?m2]\<rparr>), d3, s3)" "next_obj s1 + 1 \<notin> live_objs (trace s3)"
    by blast
  with c1 c2 u2 find show ?thesis
    by (intro exI [of _ "next_obj s + 1"] exI [of _ "next_obj s1 + 1"] exI [of _ ?m1] exI [of _ ?m2]
        exI [of _ "u2\<lparr>mm_head := mm_head u @ [?m2]\<rparr>"] exI [of _ d3] exI [of _ s3]) simp
qed

definition small_uctx :: ucontext where
  "small_uctx = \<lparr>uctx_obj = 0, mm_head = [], ctx_pd = None, pd_in_use = False, ah_va = 1, ah_pa = 0, ah_len = 0\<rparr>"

lemma create_cq_user_returns:
  assumes "\<And>t. alloc_ok E t" "\<And>t. copy_ok E t" "search_ok L" "device_attr (attr d)" "cq_tab_found d"
    and "i < 1024" "\<not> cqs_bits d i"
  shows "\<exists>c u' d' s' n. bxroce_create_cq E L v2p True (Some u) d s = Some (Inr c, Some u', d', s') \<and>
    cqs_bits d' = set_bit_at n (cqs_bits d)"
proof -
  obtain st bm r nx where
    al: "bxroce_alloc_cqqpresource (find_next_zero_bit L) (find_first_zero_bit L) (cqs_bits d)
      (unat (max_cq (attr d))) (next_cq d) = (st, bm, r, nx)"
    by (metis prod_cases4)
  have lim: "unat (max_cq (attr d)) = 1024" using device_attr_limits [OF assms(4)] by simp
  obtain n where r: "r = Some n"
    using zero_bit_search.cqqp_none [OF assms(3)] al assms(6,7) lim by (cases r) (metis, blast)
  then have "bm = set_bit_at n (cqs_bits d)"
    using zero_bit_search.cqqp_found [OF assms(3)] al by metis
  with al r show ?thesis
    using assms(1,2,5)
    by (auto simp: bxroce_create_cq_def copy_user_def kalloc_def bxroce_hw_create_cq_def dma_alloc_def
        bxroce_copy_cq_uresp_def bxroce_add_mmap_def cq_tab_found_def Let_def)
qed

theorem destroy_cq_unmaps_another_witness:
  "\<exists>c1 u1 d1 s1 c2 u2 d2 s2 u3 d3 s3.
    bxroce_create_cq file_env scan_lib word_of_nat True (Some small_uctx) small_dev empty_kern =
      Some (Inr c1, Some u1, d1, s1) \<and>
    bxroce_create_cq file_env scan_lib word_of_nat True (Some u1) d1 s1 = Some (Inr c2, Some u2, d2, s2) \<and>
    bxroce_destroy_cq c2 (Some u2) d2 s2 = Some (0, Some u3, d3, s3) \<and>
    length (mm_head u2) = 2 \<and> mm_head u3 = tl (mm_head u2)"
proof -
  have env: "\<And>t. alloc_ok file_env t" "\<And>t. copy_ok file_env t" by (simp_all add: file_env_def)
  have d: "cq_tab_found small_dev" "(0 :: nat) < 1024" "\<not> cqs_bits small_dev 0"
    by (simp_all add: small_dev_def blank_resources_def cq_tab_found_def)
  obtain c1 u1 d1 s1 n where 1: "bxroce_create_cq file_env scan_lib word_of_nat True (Some small_uctx)
      small_dev empty_kern = Some (Inr c1, Some u1, d1, s1)" "cqs_bits d1 = set_bit_at n (cqs_bits small_dev)"
    using create_cq_user_returns [OF env scan_lib_ok small_dev_attr d] by blast
  note f = create_cq_user [OF 1(1) scan_lib_ok small_dev_attr]
  have d1: "device_attr (attr d1)" "cq_tab_found d1" using f small_dev_attr by simp_all
  have fr: "Suc n mod 2 < 1024" "\<not> cqs_bits d1 (Suc n mod 2)"
    using 1(2) by (auto simp: small_dev_def blank_resources_def) presburger
  obtain c2 u2 d2 s2 where 2: "bxroce_create_cq file_env scan_lib word_of_nat True (Some u1) d1 s1 =
      Some (Inr c2, Some u2, d2, s2)"
    using create_cq_user_returns [OF env scan_lib_ok d1 fr] by blast
  have "\<forall>m \<in> set (mm_head small_uctx). mm_skip (txpa c2) 12288 m"
    by (simp add: small_uctx_def)
  from destroy_cq_unmaps_another [OF 1(1) 2 scan_lib_ok small_dev_attr this] 1(1) 2 show ?thesis
    by (auto simp: small_uctx_def)
qed

end
