(* ===== verification/Qp_Correct.thy ===== *)
theory Qp_Correct
  imports Qp Cq_Correct
begin

text \<open>
  Queue pairs: what a created queue pair looks like and that it can be used, what its destruction
  gives back and what it damages, and the failures of creation.
\<close>

section \<open>The card's side\<close>

lemma window_reads_io:
  assumes "window_reads i t u"
  shows "\<exists>es. u = es @ t \<and> (\<forall>e \<in> set es. io_event e)"
  using assms
proof (induction rule: window_reads.induct)
  case (window_reads_read t u v)
  then obtain es where "u = es @ t" "\<forall>e \<in> set es. io_event e" by blast
  then show ?case
    by (intro exI [of _ "Eread Pcie_bar 0x100 v # Ewrite Pcie_bar 0 i # es"]) simp
qed simp

lemma poll_busy_io: "poll_busy E m off opv s = Some s' \<Longrightarrow> io_only s s'"
  using poll_busy_trace window_reads_io unfolding io_only_def by metis

lemma program_ring_io: "program_ring E up base ptr opreg pa len qpn s = Some s' \<Longrightarrow> io_only s s'"
  unfolding program_ring_def Let_def using io_only_trans [OF io_only_writes poll_busy_io] by blast

text \<open>A part of a run that does nothing but register accesses, in a section of the lock of the card.\<close>

lemma program_qp_section:
  assumes "program_qp E q c rc s = Some s'"
  obtains s1 where "io_only (mutex_lock Hw_lock s) s1" "s' = mutex_unlock Hw_lock s1"
proof -
  obtain t1 t2 t3 where
    "program_ring E CQQUEUEUP CQQUEUEDOWN CQREADPTR CQESIZE (txpa c) (cq_len c - 1) (qp_id q)
      (pgu_writes (qp_start_writes (qp_id q) (q_pa (rq q)) (q_pa (sq q))) (mutex_lock Hw_lock s)) = Some t1"
    "program_ring E XmitUpAddrCQE XmitBaseAddrCQE XmitCQEWP XmitCQEOp (xmitpa c) (cq_len c - 1) (qp_id q) t1 = Some t2"
    "program_ring E RxUpAddrCQE RxBaseAddrCQE RxCQEWP RxCQEOp (rxpa rc) (cq_len c - 1) (qp_id q) t2 = Some t3"
    "s' = mutex_unlock Hw_lock t3"
    using assms by (auto simp: program_qp_def Let_def bind_eq_Some_conv)
  with that [of t3] show thesis
    by (meson io_only_trans io_only_writes program_ring_io)
qed

lemma program_qp_facts:
  assumes "program_qp E q c rc s = Some s'"
  shows "balanced s s' \<and> live_objs (trace s') = live_objs (trace s) \<and> next_obj s' = next_obj s"
proof -
  obtain s1 where io: "io_only (mutex_lock Hw_lock s) s1" and s': "s' = mutex_unlock Hw_lock s1"
    using program_qp_section [OF assms] .
  from io have "balanced s s'" unfolding s' by (intro balanced_section balanced_io)
  moreover have "live_objs (trace s') = live_objs (trace s)" "next_obj s' = next_obj s"
    using io_only_live [OF io] io by (simp_all add: s' io_only_def)
  ultimately show ?thesis by blast
qed

section \<open>The buffers\<close>

text \<open>The queues of a created queue pair.\<close>

definition queues_ok :: "kqp \<Rightarrow> bool" where
  "queues_ok q \<longleftrightarrow> max_cnt (sq q) = 2048 \<and> max_wqe_idx (sq q) = 2047 \<and> length (sq_mem q) = 2048 \<and>
     entry_size (sq q) = 64 \<and> q_len (sq q) = 0x20000 \<and> head (sq q) = 0 \<and> tail (sq q) = 0 \<and>
     max_cnt (rq q) = 256 \<and> max_wqe_idx (rq q) = 255 \<and> length (rq_mem q) = 2048 \<and>
     entry_size (rq q) = 16 \<and> q_len (rq q) = 0x8000 \<and> head (rq q) = 0 \<and> tail (rq q) = 0"

definition attached :: "qp_init_attr \<Rightarrow> u32 \<Rightarrow> (nat \<Rightarrow> cq option) \<Rightarrow> (nat \<Rightarrow> cq option) \<Rightarrow> bool" where
  "attached i n cqs cqs' \<longleftrightarrow> (\<exists>c rc x y. ia_send_cq i = Some c \<and> ia_recv_cq i = Some rc \<and>
     cqs c = Some x \<and> cqs rc = Some y \<and>
     cqs' = cqs(c \<mapsto> x\<lparr>cq_qp_id := n\<rparr>, rc \<mapsto> y\<lparr>cq_qp_id := n\<rparr>))"

text \<open>The queue pair after its two buffers were allocated.\<close>

definition with_buffers :: "nat \<Rightarrow> u64 \<Rightarrow> u64 \<Rightarrow> kqp \<Rightarrow> kqp" where
  "with_buffers b rpa spa q = q\<lparr>rq_va := Some b, rq_mem := replicate 2048 zero_rqe,
     rq := (rq q)\<lparr>max_cnt := 256, max_wqe_idx := 255, q_len := 0x8000, q_pa := rpa, entry_size := 16\<rparr>,
     sq_va := Some (Suc b), sq_mem := replicate 2048 zero_wqe,
     sq := (sq q)\<lparr>max_cnt := 2048, max_wqe_idx := 2047, q_len := 0x20000, q_pa := spa, entry_size := 64\<rparr>\<rparr>"

lemma device_queue_sizes:
  assumes "device_attr a"
  shows "roundup (16 * (max_qp_wr a * max_recv_sge a)) 4096 = 0x8000"
    "roundup (64 * (max_qp_wr a * max_recv_sge a)) 4096 = 0x20000" "max_qp_wr a * max_recv_sge a = 2048"
  using device_attr_limits [OF assms] by (simp_all add: roundup_def)

lemma alloc_queues_ok:
  assumes "alloc_queues E a q s = (0, q', s')" "device_attr a"
  shows "\<exists>rpa spa. q' = with_buffers (next_obj s) rpa spa q \<and> next_obj s' = next_obj s + 2 \<and>
    trace s' = Edma_alloc (next_obj s + 1) 0x20000 # Edma_alloc (next_obj s) 0x8000 # trace s"
  using assms(1) unfolding alloc_queues_def device_queue_sizes [OF assms(2)] Let_def dma_alloc_def
  by (cases q) (auto simp: with_buffers_def MAX_RQE_def roundup_def split: if_splits)

lemma alloc_queues_fail:
  assumes "alloc_queues E a q s = (st, q', s')" "st \<noteq> 0"
  shows "st = - EINVAL \<and> qp_obj q' = qp_obj q \<and> balanced s s' \<and>
    (trace s' = Edma_fail # trace s \<or>
     (\<exists>n. trace s' = Edma_fail # Edma_alloc (next_obj s) n # trace s))"
  using assms unfolding alloc_queues_def Let_def dma_alloc_def
  by (auto simp: balanced_def split: if_splits)

lemma attach_cqs_ok:
  assumes "attach_cqs i q cqs = Some (q', x, y, cqs')"
  shows "q' = q\<lparr>sq_cq := ia_send_cq i, rq_cq := ia_recv_cq i\<rparr> \<and> ia_send_cq i \<noteq> None \<and>
    attached i (qp_id q) cqs cqs'"
  using assms by (auto simp: attach_cqs_def attached_def bind_eq_Some_conv split: if_splits)

lemma hw_create_qp_ok:
  assumes "bxroce_hw_create_qp E a i q cqs s = Some (0, q', cqs', s')" "device_attr a"
  shows "\<exists>rpa spa. q' = (with_buffers (next_obj s) rpa spa q)\<lparr>sq_cq := ia_send_cq i, rq_cq := ia_recv_cq i\<rparr> \<and>
    ia_send_cq i \<noteq> None \<and> attached i (qp_id q) cqs cqs' \<and> balanced s s' \<and> next_obj s' = next_obj s + 2 \<and>
    live_objs (trace s') = insert (next_obj s) (insert (next_obj s + 1) (live_objs (trace s)))"
proof -
  obtain q1 s1 x y where 1: "alloc_queues E a q s = (0, q1, s1)"
    and 2: "attach_cqs i q1 cqs = Some (q', x, y, cqs')" and 3: "program_qp E q' x y s1 = Some s'"
    using assms(1) by (auto simp: bxroce_hw_create_qp_def Let_def bind_eq_Some_conv split: if_splits prod.splits)
  obtain rpa spa where q1: "q1 = with_buffers (next_obj s) rpa spa q" and s1: "next_obj s1 = next_obj s + 2"
    "trace s1 = Edma_alloc (next_obj s + 1) 0x20000 # Edma_alloc (next_obj s) 0x8000 # trace s"
    using alloc_queues_ok [OF 1 assms(2)] by blast
  have "balanced s s1" using s1 by (simp add: balanced_def)
  with program_qp_facts [OF 3] have "balanced s s'" using balanced_trans by blast
  moreover have "qp_id q1 = qp_id q" by (simp add: q1 with_buffers_def)
  ultimately show ?thesis
    using attach_cqs_ok [OF 2] program_qp_facts [OF 3] q1 s1 by auto
qed

section \<open>Creation\<close>

lemma alloc_tbl_ok:
  assumes "bxroce_alloc_wr_id_tbl E q s = (0, q', s')"
  shows "q' = q\<lparr>wqe_tbl := Some (next_obj s), rqe_tbl := Some (next_obj s + 1),
      wr_id_tbl := replicate (unat (max_cnt (sq q))) (0, 0), rqe_wr_id_tbl := replicate (unat (max_cnt (rq q))) 0\<rparr> \<and>
    trace s' = Ekalloc (next_obj s + 1) # Ekalloc (next_obj s) # trace s \<and> next_obj s' = next_obj s + 2"
  using assms by (cases q) (auto simp: bxroce_alloc_wr_id_tbl_def kalloc_def Let_def split: if_splits)

lemma draw_qp_num_cases:
  assumes "draw_qp_num L t d = Some (Some n, d')" "search_ok L" "device_attr (attr d)" "t \<noteq> IB_QPT_GSI"
  shows "(\<exists>m nx. m < 1024 \<and> \<not> qps_bits d m \<and> n = word_of_nat m \<and>
      d' = d\<lparr>qps_bits := set_bit_at m (qps_bits d), next_qp := nx\<rparr>) \<or>
    ((\<forall>m < 1024. qps_bits d m) \<and> n = 0 \<and> d' = d)"
proof -
  have lim: "unat (max_qp (attr d)) = 1024" using device_attr_limits [OF assms(3)] by simp
  obtain st bm r nx where al: "bxroce_alloc_cqqpresource (find_next_zero_bit L) (find_first_zero_bit L)
      (qps_bits d) (unat (max_qp (attr d))) (next_qp d) = (st, bm, r, nx)"
    by (metis prod_cases4)
  show ?thesis
  proof (cases r)
    case None
    from zero_bit_search.cqqp_none [OF assms(2) al [unfolded None]] lim show ?thesis
      using assms(1,4) al None by (auto simp: draw_qp_num_def split: if_splits)
  next
    case (Some m)
    from zero_bit_search.cqqp_found [OF assms(2) al [unfolded Some]] lim show ?thesis
      using assms(1,4) al Some by (auto simp: draw_qp_num_def split: if_splits)
  qed
qed

text \<open>The queue pair with its number, before the card and the tables come in.\<close>

definition numbered_qp :: "nat \<Rightarrow> qp_init_attr \<Rightarrow> u32 \<Rightarrow> nat \<Rightarrow> kqp" where
  "numbered_qp pd i n p =
     (bxroce_set_qp_init_params ((zero_qp p)\<lparr>info_obj := Some (Suc p)\<rparr>) pd i)\<lparr>qp_id := n\<rparr>"

definition after_objs :: "kern \<Rightarrow> kern" where
  "after_objs s = allocated_at (allocated_at s)"

lemma after_objs_simps [simp]:
  "trace (after_objs s) = Ekalloc (Suc (next_obj s)) # Ekalloc (next_obj s) # trace s"
  "next_obj (after_objs s) = next_obj s + 2"
  by (simp_all add: after_objs_def allocated_at_def)

lemma create_qp_kernel_rest:
  assumes "bxroce_create_qp E L v2p pd i False u cqs d s = Some (Inr q, u', cqs', d', s')"
  shows "\<exists>n d1. draw_qp_num L (ia_type i) d = Some (Some n, d1) \<and>
    create_qp_rest E v2p i False u (numbered_qp pd i n (next_obj s)) cqs d1 (after_objs s) =
      Some (Inr q, u', cqs', d', s')"
  using assms
  by (auto simp: bxroce_create_qp_def kalloc_def numbered_qp_def after_objs_def allocated_at_def Let_def
      split: if_splits option.splits prod.splits)

lemma create_qp_rest_kernel:
  assumes "create_qp_rest E v2p i False u q0 cqs d s = Some (Inr q, u', cqs', d', s')"
  shows "\<exists>q1 s1 s2. bxroce_hw_create_qp E (attr d) i q0 cqs (mutex_lock Dev_lock s) = Some (0, q1, cqs', s1) \<and>
    bxroce_alloc_wr_id_tbl E q1 s1 = (0, q, s2) \<and> qp_tab_found d \<and> qp_id q < 1024 \<and>
    qp_tab d (unat (qp_id q)) = None \<and> u' = u \<and> s' = mutex_unlock Dev_lock s2 \<and>
    d' = bxroce_store_qp1_resource i (d\<lparr>qp_tab := (qp_tab d)(unat (qp_id q) \<mapsto> qp_obj q)\<rparr>)"
  using assms
  by (auto simp: create_qp_rest_def bind_eq_Some_conv Let_def split: if_splits prod.splits)

lemma created_qp_shape:
  assumes "bxroce_create_qp E L v2p pd i False u cqs d s = Some (Inr q, u', cqs', d', s')"
    and "search_ok L" "device_attr (attr d)" "ia_type i \<noteq> IB_QPT_GSI"
  shows "\<exists>n d1. draw_qp_num L (ia_type i) d = Some (Some n, d1) \<and> qp_id q = n \<and> qp_obj q = next_obj s \<and>
    queues_ok q \<and> length (wr_id_tbl q) = 2048 \<and> length (rqe_wr_id_tbl q) = 256 \<and>
    info_obj q = Some (next_obj s + 1) \<and> rq_va q = Some (next_obj s + 2) \<and> sq_va q = Some (next_obj s + 3) \<and>
    wqe_tbl q = Some (next_obj s + 4) \<and> rqe_tbl q = Some (next_obj s + 5) \<and>
    sq_cq q = ia_send_cq i \<and> rq_cq q = ia_recv_cq i \<and> ia_send_cq i \<noteq> None \<and>
    attached i n cqs cqs' \<and> balanced s s' \<and> qp_tab_found d \<and> n < 1024 \<and> qp_tab d (unat n) = None \<and>
    d' = d1\<lparr>qp_tab := (qp_tab d)(unat n \<mapsto> qp_obj q)\<rparr> \<and>
    live_objs (trace s') = live_objs (trace s) \<union> {next_obj s ..< next_obj s + 6}"
proof -
  obtain n d1 where dr: "draw_qp_num L (ia_type i) d = Some (Some n, d1)"
    and re: "create_qp_rest E v2p i False u (numbered_qp pd i n (next_obj s)) cqs d1 (after_objs s) =
      Some (Inr q, u', cqs', d', s')"
    using create_qp_kernel_rest [OF assms(1)] by blast
  have d1: "attr d1 = attr d" "qp_tab d1 = qp_tab d" "qp_tab_found d1 = qp_tab_found d"
    using draw_qp_num_cases [OF dr assms(2-4)] by (auto simp: qp_tab_found_def)
  let ?q0 = "numbered_qp pd i n (next_obj s)" and ?s0 = "mutex_lock Dev_lock (after_objs s)"
  obtain q1 s1 s2 where hw: "bxroce_hw_create_qp E (attr d1) i ?q0 cqs ?s0 = Some (0, q1, cqs', s1)"
    and tb: "bxroce_alloc_wr_id_tbl E q1 s1 = (0, q, s2)" and tab: "qp_tab_found d1" "qp_id q < 1024"
      "qp_tab d1 (unat (qp_id q)) = None" "s' = mutex_unlock Dev_lock s2"
      "d' = bxroce_store_qp1_resource i (d1\<lparr>qp_tab := (qp_tab d1)(unat (qp_id q) \<mapsto> qp_obj q)\<rparr>)"
    using create_qp_rest_kernel [OF re] by blast
  have da: "device_attr (attr d1)" using assms(3) d1 by simp
  obtain rpa spa where
    q1: "q1 = (with_buffers (next_obj ?s0) rpa spa ?q0)\<lparr>sq_cq := ia_send_cq i, rq_cq := ia_recv_cq i\<rparr>"
    and cq: "ia_send_cq i \<noteq> None" "attached i (qp_id ?q0) cqs cqs'"
    and s1: "balanced ?s0 s1" "next_obj s1 = next_obj ?s0 + 2"
      "live_objs (trace s1) = insert (next_obj ?s0) (insert (next_obj ?s0 + 1) (live_objs (trace ?s0)))"
    using hw_create_qp_ok [OF hw da] by blast
  note tb' = alloc_tbl_ok [OF tb]
  have "balanced s s'"
  proof -
    have "balanced ?s0 s2" using s1(1) tb' by (auto simp: balanced_def)
    then have "balanced (after_objs s) s'" unfolding tab(4) by (rule balanced_section)
    then show ?thesis by (auto simp: balanced_def)
  qed
  moreover have "queues_ok q"
    using tb' by (simp add: q1 queues_ok_def with_buffers_def numbered_qp_def bxroce_set_qp_init_params_def
        zero_qp_def zero_hwq_def)
  moreover have "live_objs (trace s') = live_objs (trace s) \<union> {next_obj s ..< next_obj s + 6}"
  proof -
    have "{next_obj s ..< next_obj s + 6} =
        {next_obj s, next_obj s + 1, next_obj s + 2, next_obj s + 3, next_obj s + 4, next_obj s + 5}"
      by auto
    moreover have "live_objs (trace s') = insert (next_obj s1 + 1) (insert (next_obj s1) (live_objs (trace s1)))"
      using tb' by (simp add: tab(4))
    moreover have "next_obj s1 = next_obj s + 4" "next_obj s1 + 1 = next_obj s + 5"
      "next_obj ?s0 = next_obj s + 2" "next_obj ?s0 + 1 = next_obj s + 3"
      "live_objs (trace ?s0) = insert (next_obj s + 1) (insert (next_obj s) (live_objs (trace s)))"
      using s1(2) by simp_all
    ultimately show ?thesis unfolding s1(3) by (simp only:) blast
  qed
  moreover have "length (wr_id_tbl q) = 2048" "length (rqe_wr_id_tbl q) = 256" "qp_id q = n"
    "qp_obj q = next_obj s" "info_obj q = Some (next_obj s + 1)" "rq_va q = Some (next_obj s + 2)"
    "sq_va q = Some (next_obj s + 3)" "sq_cq q = ia_send_cq i" "rq_cq q = ia_recv_cq i"
    "wqe_tbl q = Some (next_obj s + 4)" "rqe_tbl q = Some (next_obj s + 5)" "qp_id ?q0 = n"
    using tb' s1(2) by (simp_all add: q1 with_buffers_def numbered_qp_def bxroce_set_qp_init_params_def zero_qp_def)
  ultimately show ?thesis
    using dr tab d1 cq assms(4) by (auto simp: bxroce_store_qp1_resource_def)
qed

text \<open>
  C24. A created queue pair can be used. When \<open>bxroce_create_qp\<close> succeeds for a client of the kernel
  and numbers are left, the number was free, is taken now, and finds the queue pair in the
  table; the queues have the sizes the posting functions rely on; both completion queues are
  attached, so that polling them returns; and every lock is as before.
\<close>

theorem created_qp_usable:
  assumes "bxroce_create_qp E L v2p pd i False u cqs d s = Some (Inr q, u', cqs', d', s')"
    and "search_ok L" "device_attr (attr d)" "ia_type i \<noteq> IB_QPT_GSI" "m0 < 1024" "\<not> qps_bits d m0"
  shows "\<exists>m < 1024. \<not> qps_bits d m \<and> qp_id q = word_of_nat m \<and> qps_bits d' = set_bit_at m (qps_bits d) \<and>
    qp_tab d' = (qp_tab d)(m \<mapsto> qp_obj q) \<and> queues_ok q \<and> sq_ok (qp.truncate q) \<and>
    unat (max_cnt (rq q)) \<le> length (rqe_wr_id_tbl q) \<and> attached i (qp_id q) cqs cqs' \<and>
    held l (trace s') = held l (trace s) \<and>
    (\<forall>c x E' mem k t. c \<in> {ia_send_cq i, ia_recv_cq i} \<longrightarrow> Option.bind c cqs' = Some x \<longrightarrow> cq_ok x \<longrightarrow>
      (\<exists>r. bxroce_poll_cq E' mem d' [qp_obj q \<mapsto> qp_id q] x k t = Some r))"
proof -
  obtain n d1 where dr: "draw_qp_num L (ia_type i) d = Some (Some n, d1)"
    and f: "qp_id q = n" "queues_ok q" "length (wr_id_tbl q) = 2048" "length (rqe_wr_id_tbl q) = 256"
      "attached i n cqs cqs'" "balanced s s'" "qp_tab_found d"
      "d' = d1\<lparr>qp_tab := (qp_tab d)(unat n \<mapsto> qp_obj q)\<rparr>"
    using created_qp_shape [OF assms(1-4)] by blast
  obtain m nx where m: "m < 1024" "\<not> qps_bits d m" "n = word_of_nat m"
    "d1 = d\<lparr>qps_bits := set_bit_at m (qps_bits d), next_qp := nx\<rparr>"
    using draw_qp_num_cases [OF dr assms(2-4)] assms(5,6) by blast
  have "sq_ok (qp.truncate q)" using f by (simp add: queues_ok_def sq_ok_def qp.truncate_def)
  moreover have "\<exists>r. bxroce_poll_cq E' mem d' [qp_obj q \<mapsto> qp_id q] x k t = Some r"
    if "c \<in> {ia_send_cq i, ia_recv_cq i}" "Option.bind c cqs' = Some x" "cq_ok x" for c x E' mem k t
  proof -
    have "cq_qp_id x = n" using that(1,2) f(5) by (auto simp: attached_def split: if_splits)
    then have id: "unat (cq_qp_id x) = m" "cq_qp_id x < max_qp (attr d')"
      using m device_attr_limits [OF assms(3)] by (simp_all add: f(8) word_less_nat_alt)
    moreover have "qp_tab_found d'" using f(7,8) m(4) by (simp add: qp_tab_found_def)
    moreover have "qp_tab d' (unat (cq_qp_id x)) = Some (qp_obj q)" using f(8) m id by simp
    ultimately show ?thesis
      using poll_cq_returns [where ids = "[qp_obj q \<mapsto> qp_id q]" and p = "qp_obj q" and q = "qp_id q"] that(3)
      by (metis fun_upd_same)
  qed
  ultimately show ?thesis
    using m f by (intro exI [of _ m]) (auto simp: balanced_def queues_ok_def)
qed

text \<open>On a card that is never busy, with memory left, creation succeeds.\<close>

lemma program_ring_returns:
  assumes "\<And>t r a. \<not> bit (hw_read E t r a) 0"
  shows "\<exists>s'. program_ring E up base ptr opreg pa len qpn s = Some s'"
proof -
  have "\<not> bit (fst (poll_read E PGU_BASE opreg 0 t)) 0" for t
    using assms by (simp add: bxroce_mpb_reg_read_def readl_def Let_def)
  then show ?thesis unfolding program_ring_def Let_def using poll_busy_returns by blast
qed

lemma program_qp_returns:
  assumes "\<And>t r a. \<not> bit (hw_read E t r a) 0"
  shows "\<exists>s'. program_qp E q x y s = Some s'"
proof -
  obtain s1 where 1: "program_ring E CQQUEUEUP CQQUEUEDOWN CQREADPTR CQESIZE (txpa x) (cq_len x - 1) (qp_id q)
      (pgu_writes (qp_start_writes (qp_id q) (q_pa (rq q)) (q_pa (sq q))) (mutex_lock Hw_lock s)) = Some s1"
    using program_ring_returns [OF assms] by blast
  obtain s2 where 2: "program_ring E XmitUpAddrCQE XmitBaseAddrCQE XmitCQEWP XmitCQEOp (xmitpa x)
      (cq_len x - 1) (qp_id q) s1 = Some s2"
    using program_ring_returns [OF assms] by blast
  obtain s3 where 3: "program_ring E RxUpAddrCQE RxBaseAddrCQE RxCQEWP RxCQEOp (rxpa y) (cq_len x - 1)
      (qp_id q) s2 = Some s3"
    using program_ring_returns [OF assms] by blast
  from 1 2 3 show ?thesis by (simp add: program_qp_def)
qed

lemma hw_create_qp_returns:
  assumes "\<And>t r a. \<not> bit (hw_read E t r a) 0" "\<And>t. alloc_ok E t"
    and "ia_send_cq i = Some c" "ia_recv_cq i = Some rc" "cqs c \<noteq> None" "cqs rc \<noteq> None"
  shows "\<exists>q' cqs' s'. bxroce_hw_create_qp E a i q cqs s = Some (0, q', cqs', s') \<and> qp_id q' = qp_id q"
proof -
  obtain q1 s1 where 1: "alloc_queues E a q s = (0, q1, s1)" "qp_id q1 = qp_id q"
    using assms(2) by (simp add: alloc_queues_def dma_alloc_def Let_def)
  obtain q2 x y cqs' where 2: "attach_cqs i q1 cqs = Some (q2, x, y, cqs')" "qp_id q2 = qp_id q"
    using assms(3-6) 1(2) by (cases "c = rc") (auto simp: attach_cqs_def)
  obtain s2 where "program_qp E q2 x y s1 = Some s2" using program_qp_returns [OF assms(1)] by blast
  with 1 2 show ?thesis by (simp add: bxroce_hw_create_qp_def)
qed

lemma create_qp_returns:
  assumes "\<And>t r a. \<not> bit (hw_read E t r a) 0" "\<And>t. alloc_ok E t"
    and "ia_send_cq i = Some c" "ia_recv_cq i = Some rc" "cqs c \<noteq> None" "cqs rc \<noteq> None"
    and "bxroce_check_qp_params (attr d) i False = 0" "draw_qp_num L (ia_type i) d = Some (Some n, d1)"
    and "qp_tab_found d1" "n < 1024" "qp_tab d1 (unat n) = None"
  shows "\<exists>q cqs' d' s'. bxroce_create_qp E L v2p pd i False u cqs d s = Some (Inr q, u, cqs', d', s')"
proof -
  let ?q = "numbered_qp pd i n (next_obj s)"
  obtain q1 cqs' s1 where hw: "bxroce_hw_create_qp E (attr d1) i ?q cqs (mutex_lock Dev_lock (after_objs s)) =
      Some (0, q1, cqs', s1)" "qp_id q1 = qp_id ?q"
    using hw_create_qp_returns [where c = c and rc = rc, OF assms(1-6)] by blast
  obtain q2 s2 where tb: "bxroce_alloc_wr_id_tbl E q1 s1 = (0, q2, s2)" "qp_id q2 = qp_id q1"
    using assms(2) by (simp add: bxroce_alloc_wr_id_tbl_def kalloc_def Let_def)
  have "qp_id ?q = n" by (simp add: numbered_qp_def)
  then have "create_qp_rest E v2p i False u ?q cqs d1 (after_objs s) =
      Some (Inr q2, u, cqs', bxroce_store_qp1_resource i (d1\<lparr>qp_tab := (qp_tab d1)(unat n \<mapsto> qp_obj q2)\<rparr>),
        mutex_unlock Dev_lock s2)"
    using hw tb assms(9-11) by (simp add: create_qp_rest_def Let_def)
  moreover have "bxroce_create_qp E L v2p pd i False u cqs d s =
      create_qp_rest E v2p i False u ?q cqs d1 (after_objs s)"
    using assms(2,3,7,8)
    by (simp add: bxroce_create_qp_def kalloc_def numbered_qp_def after_objs_def allocated_at_def)
  ultimately show ?thesis by auto
qed

definition rc_attr :: qp_init_attr where
  "rc_attr = \<lparr>ia_type = IB_QPT_RC, ia_max_send_wr = 8, ia_max_recv_wr = 8, ia_max_send_sge = 1,
     ia_max_recv_sge = 1, ia_max_inline = 0, ia_srq = False, ia_signal_all = False,
     ia_send_cq = Some 7, ia_recv_cq = Some 7\<rparr>"

text \<open>A device without queue pairs, of whose numbers the first \<open>m\<close> are taken.\<close>

definition plain_dev :: "nat \<Rightarrow> dev" where
  "plain_dev m = (r_dev blank_resources)\<lparr>qps_bits := (\<lambda>k. k < m), next_qp := m\<rparr>"

lemma plain_dev_simps [simp]:
  "device_attr (attr (plain_dev m))" "qp_tab_found (plain_dev m)" "qps_found (plain_dev m)"
  "qp_tab (plain_dev m) = (\<lambda>_. None)" "qps_bits (plain_dev m) = (\<lambda>k. k < m)"
  "bxroce_check_qp_params (attr (plain_dev m)) rc_attr False = 0"
  by (auto simp: plain_dev_def blank_resources_def device_attr_def qp_tab_found_def qps_found_def
      bxroce_check_qp_params_def rc_attr_def bxroce_query_device_def)

lemma zero_env_simps [simp]: "\<not> bit (hw_read zero_env t r a) 0" "alloc_ok zero_env t" "copy_ok zero_env t"
  by (simp_all add: zero_env_def file_env_def)

lemma draw_plain_dev:
  assumes "m < 1024"
  shows "\<exists>n d1. draw_qp_num scan_lib IB_QPT_RC (plain_dev m) = Some (Some n, d1) \<and> n < 1024 \<and>
    qp_tab_found d1 \<and> qp_tab d1 = (\<lambda>_. None)"
proof -
  have "\<exists>n d1. draw_qp_num scan_lib IB_QPT_RC (plain_dev m) = Some (Some n, d1)"
    by (auto simp: draw_qp_num_def split: prod.splits option.splits)
  then obtain n d1 where d: "draw_qp_num scan_lib IB_QPT_RC (plain_dev m) = Some (Some n, d1)" by blast
  from draw_qp_num_cases [OF this scan_lib_ok] assms have
    "(\<exists>k nx. k < 1024 \<and> n = word_of_nat k \<and> d1 = (plain_dev m)\<lparr>qps_bits := set_bit_at k (\<lambda>k. k < m), next_qp := nx\<rparr>) \<or>
     n = 0 \<and> d1 = plain_dev m" by auto
  moreover have "qp_tab_found ((plain_dev m)\<lparr>qps_bits := b, next_qp := nx\<rparr>)" for b nx
    using plain_dev_simps(2) [of m] by (simp add: qp_tab_found_def)
  ultimately have "n < 1024 \<and> qp_tab_found d1 \<and> qp_tab d1 = (\<lambda>_. None)"
    by (auto simp: word_less_nat_alt)
  with d show ?thesis by blast
qed

theorem created_qp_usable_witness:
  "\<exists>q u' cqs' d' s'. bxroce_create_qp zero_env scan_lib word_of_nat 0 rc_attr False None [7 \<mapsto> small_cq]
      (plain_dev 2) empty_kern = Some (Inr q, u', cqs', d', s') \<and>
    max_cnt (sq q) = 2048 \<and> held Dev_lock (trace s') = 0"
proof -
  obtain n d1 where d: "draw_qp_num scan_lib (ia_type rc_attr) (plain_dev 2) = Some (Some n, d1)" "n < 1024"
    "qp_tab_found d1" "qp_tab d1 (unat n) = None"
    using draw_plain_dev [of 2] by (auto simp: rc_attr_def)
  have cq: "ia_send_cq rc_attr = Some 7" "ia_recv_cq rc_attr = Some 7" "[7 \<mapsto> small_cq] 7 \<noteq> None"
    by (simp_all add: rc_attr_def)
  have hi: "\<And>t r a. \<not> bit (hw_read zero_env t r a) 0" "\<And>t. alloc_ok zero_env t" by simp_all
  obtain q cqs' d' s' where
    r: "bxroce_create_qp zero_env scan_lib word_of_nat 0 rc_attr False None [7 \<mapsto> small_cq] (plain_dev 2) empty_kern =
      Some (Inr q, None, cqs', d', s')"
    using create_qp_returns [where cqs = "[7 \<mapsto> small_cq]" and d = "plain_dev 2",
        OF hi cq(1,2,3,3) plain_dev_simps(6) d(1,3,2,4)] by blast
  have ty: "ia_type rc_attr \<noteq> IB_QPT_GSI" "(5 :: nat) < 1024" "\<not> qps_bits (plain_dev 2) 5"
    by (simp_all add: rc_attr_def)
  from created_qp_usable [OF r scan_lib_ok plain_dev_simps(1) ty, of Dev_lock] r show ?thesis
    by (auto simp: queues_ok_def empty_kern_def)
qed

section \<open>Failures of creation\<close>

text \<open>
  A queue pair whose receive queue cannot be allocated leaves the device locked.
  \<open>bxroce_create_qp\<close> returns \<open>-EINVAL\<close> without releasing \<open>dev_lock\<close>, so that the next verb that
  takes it waits forever; the number stays taken, and the page shared with the process stays
  allocated although nothing points to it.
\<close>

theorem create_qp_failure_keeps_lock:
  assumes "ia_send_cq i = Some c" "bxroce_check_qp_params (attr d) i False = 0"
    and "draw_qp_num L (ia_type i) d = Some (Some n, d1)"
    and "alloc_ok E (trace s)" "alloc_ok E (Ekalloc (next_obj s) # trace s)"
    and "\<not> alloc_ok E (Elock Dev_lock # Ekalloc (Suc (next_obj s)) # Ekalloc (next_obj s) # trace s)"
  shows "\<exists>s'. bxroce_create_qp E L v2p pd i False u cqs d s = Some (Inl (- EINVAL), u, cqs, d1, s') \<and>
    held Dev_lock (trace s') = held Dev_lock (trace s) + 1 \<and>
    next_obj s \<notin> live_objs (trace s') \<and> Suc (next_obj s) \<in> live_objs (trace s')"
  using assms
  by (simp add: bxroce_create_qp_def kalloc_def create_qp_rest_def bxroce_hw_create_qp_def alloc_queues_def
      dma_alloc_def Let_def bxroce_set_qp_init_params_def zero_qp_def)

definition two_allocs_env :: env where
  "two_allocs_env = zero_env\<lparr>alloc_ok := (\<lambda>t. length t < 2)\<rparr>"

theorem create_qp_failure_keeps_lock_witness:
  "\<exists>d' s'. bxroce_create_qp two_allocs_env scan_lib word_of_nat 0 rc_attr False None [7 \<mapsto> small_cq]
      (plain_dev 2) empty_kern = Some (Inl (- EINVAL), None, [7 \<mapsto> small_cq], d', s') \<and>
    held Dev_lock (trace s') = 1"
proof -
  obtain n d1 where d: "draw_qp_num scan_lib (ia_type rc_attr) (plain_dev 2) = Some (Some n, d1)"
    using draw_plain_dev [of 2] by (auto simp: rc_attr_def)
  have "ia_send_cq rc_attr = Some 7" by (simp add: rc_attr_def)
  from create_qp_failure_keeps_lock [where E = two_allocs_env and s = empty_kern,
      OF this plain_dev_simps(6) d, of word_of_nat 0 None "[7 \<mapsto> small_cq]"]
  show ?thesis by (auto simp: two_allocs_env_def empty_kern_def)
qed

text \<open>What \<open>map_err\<close> leaves when the slot of the table is taken.\<close>

lemma create_qp_slot_taken:
  assumes "\<And>t r a. \<not> bit (hw_read E t r a) 0" "\<And>t. alloc_ok E t"
    and "ia_send_cq i = Some c" "ia_recv_cq i = Some rc" "cqs c \<noteq> None" "cqs rc \<noteq> None"
    and "bxroce_check_qp_params (attr d) i False = 0" "draw_qp_num L (ia_type i) d = Some (Some n, d1)"
    and "qp_tab_found d1" "n < max_qp (attr d1)" "qp_tab d1 (unat n) = Some p"
  shows "\<exists>cqs' d' s'. bxroce_create_qp E L v2p pd i False u cqs d s = Some (Inl (- EINVAL), u, cqs', d', s') \<and>
    qp_tab d' = (qp_tab d1)(unat n := None)"
proof -
  let ?q = "numbered_qp pd i n (next_obj s)"
  obtain q1 cqs' s1 where hw: "bxroce_hw_create_qp E (attr d1) i ?q cqs (mutex_lock Dev_lock (after_objs s)) =
      Some (0, q1, cqs', s1)" "qp_id q1 = qp_id ?q"
    using hw_create_qp_returns [where c = c and rc = rc, OF assms(1-6)] by blast
  obtain q2 s2 where tb: "bxroce_alloc_wr_id_tbl E q1 s1 = (0, q2, s2)" "qp_id q2 = qp_id q1"
    using assms(2) by (simp add: bxroce_alloc_wr_id_tbl_def kalloc_def Let_def)
  have "qp_id ?q = n" by (simp add: numbered_qp_def)
  then have id: "qp_id q2 = n" using hw tb by simp
  have "\<exists>d' s'. create_qp_undo q2 d1 s2 = Some (d', s') \<and> qp_tab d' = (qp_tab d1)(unat n := None)"
    using assms(9,10) id by (simp add: create_qp_undo_def destroy_qp_inner_def Let_def not_le)
  then obtain d' s' where un: "create_qp_undo q2 d1 s2 = Some (d', s')" "qp_tab d' = (qp_tab d1)(unat n := None)"
    by blast
  then have "create_qp_rest E v2p i False u ?q cqs d1 (after_objs s) = Some (Inl (- EINVAL), u, cqs', d', s')"
    using hw tb assms(9,11) id by (simp add: create_qp_rest_def Let_def)
  moreover have "bxroce_create_qp E L v2p pd i False u cqs d s =
      create_qp_rest E v2p i False u ?q cqs d1 (after_objs s)"
    using assms(2,3,7,8)
    by (simp add: bxroce_create_qp_def kalloc_def numbered_qp_def after_objs_def allocated_at_def)
  ultimately show ?thesis using un(2) by auto
qed

lemma draw_exhausted:
  assumes "search_ok L" "device_attr (attr d)" "\<forall>m < 1024. qps_bits d m" "qps_found d" "t \<noteq> IB_QPT_GSI"
  shows "draw_qp_num L t d = Some (Some 0, d)"
proof -
  have "\<exists>n d1. draw_qp_num L t d = Some (Some n, d1)"
    using assms(4,5) by (auto simp: draw_qp_num_def split: prod.splits option.splits)
  then obtain n d1 where d: "draw_qp_num L t d = Some (Some n, d1)" by blast
  from draw_qp_num_cases [OF this assms(1,2,5)] assms(3) d show ?thesis by auto
qed

text \<open>
  When all numbers are taken, \<open>bxroce_create_qp\<close> does not fail: it ignores the status of the
  allocator and goes on with number 0, which is reserved. The first such queue pair is created
  as queue pair 0; for the next one the call fails, and on its way out it removes the first,
  which is in use, from the table.
\<close>

theorem exhausted_numbers_give_qp0:
  assumes "\<And>t r a. \<not> bit (hw_read E t r a) 0" "\<And>t. alloc_ok E t" "search_ok L" "device_attr (attr d)"
    and "\<forall>m < 1024. qps_bits d m" "qps_found d" "qp_tab_found d" "ia_type i \<noteq> IB_QPT_GSI"
    and "bxroce_check_qp_params (attr d) i False = 0"
    and "ia_send_cq i = Some c" "ia_recv_cq i = Some rc" "cqs c \<noteq> None" "cqs rc \<noteq> None"
  shows "if qp_tab d 0 = None
    then \<exists>q cqs' d' s'. bxroce_create_qp E L v2p pd i False u cqs d s = Some (Inr q, u, cqs', d', s') \<and>
      qp_id q = 0 \<and> qp_tab d' 0 = Some (qp_obj q)
    else \<exists>cqs' d' s'. bxroce_create_qp E L v2p pd i False u cqs d s = Some (Inl (- EINVAL), u, cqs', d', s') \<and>
      qp_tab d' 0 = None"
proof -
  note dr = draw_exhausted [OF assms(3-6,8)]
  show ?thesis
  proof (cases "qp_tab d 0")
    case None
    then obtain q cqs' d' s' where
      r: "bxroce_create_qp E L v2p pd i False u cqs d s = Some (Inr q, u, cqs', d', s')"
      using create_qp_returns [where cqs = cqs and d = d, OF assms(1,2,10-13,9) dr assms(7), of v2p pd u s]
      by auto
    obtain n d1 where "draw_qp_num L (ia_type i) d = Some (Some n, d1)" "qp_id q = n"
      "d' = d1\<lparr>qp_tab := (qp_tab d)(unat n \<mapsto> qp_obj q)\<rparr>"
      using created_qp_shape [OF r assms(3,4,8)] by blast
    with r dr None show ?thesis by auto
  next
    case (Some p)
    have "0 < max_qp (attr d)" using device_attr_limits [OF assms(4)] by simp
    from create_qp_slot_taken [where cqs = cqs and d = d and p = p, OF assms(1,2,10-13,9) dr assms(7) this, of v2p pd u s] Some
    obtain cqs' d' s' where "bxroce_create_qp E L v2p pd i False u cqs d s = Some (Inl (- EINVAL), u, cqs', d', s')"
      "qp_tab d' = (qp_tab d)(0 := None)" by auto
    with Some show ?thesis by simp
  qed
qed

theorem exhausted_numbers_give_qp0_witness:
  "\<exists>q cqs' d' s'. bxroce_create_qp zero_env scan_lib word_of_nat 0 rc_attr False None [7 \<mapsto> small_cq]
      (plain_dev 1024) empty_kern = Some (Inr q, None, cqs', d', s') \<and> qp_id q = 0"
proof -
  have hi: "\<And>t r a. \<not> bit (hw_read zero_env t r a) 0" "\<And>t. alloc_ok zero_env t" by simp_all
  have cq: "ia_send_cq rc_attr = Some 7" "ia_recv_cq rc_attr = Some 7" "[7 \<mapsto> small_cq] 7 \<noteq> None"
    "ia_type rc_attr \<noteq> IB_QPT_GSI" "\<forall>m < 1024. qps_bits (plain_dev 1024) m"
    by (simp_all add: rc_attr_def)
  from exhausted_numbers_give_qp0 [where cqs = "[7 \<mapsto> small_cq]", OF hi scan_lib_ok plain_dev_simps(1) cq(5)
      plain_dev_simps(3,2) cq(4) plain_dev_simps(6) cq(1,2,3,3), of word_of_nat 0 None empty_kern]
  show ?thesis by auto
qed

section \<open>Destruction\<close>

lemma del_first_held: "held l (trace (snd (del_first phy len ms s))) = held l (trace s)"
  by (induction ms arbitrary: s) (auto simp: split_def Let_def)

lemma del_mmap_held: "held l (trace (snd (bxroce_del_mmap u phy len s))) = held l (trace s)"
proof -
  have "held l (trace (snd (del_first phy len (mm_head u) (mutex_lock Mm_list_lock s)))) =
      held l (trace (mutex_lock Mm_list_lock s))"
    by (rule del_first_held)
  then show ?thesis by (simp add: bxroce_del_mmap_def split_def Let_def)
qed

lemma destroy_qp_returns:
  "(\<exists>r. bxroce_destroy_qp q u d s = Some r) \<longleftrightarrow>
     sq_cq q \<noteq> None \<and> qp_tab_found (clear_dev_bit (unat (qp_id q)) d) \<and> qp_id q < max_qp (attr d)"
  by (auto simp: bxroce_destroy_qp_def destroy_qp_inner_def Let_def split_def not_le split: if_splits)

lemma destroy_qp_dev:
  assumes "bxroce_destroy_qp q u d s = Some (st, u', d', s')"
  shows "st = 0 \<and> d' = (clear_dev_bit (unat (qp_id q)) d)\<lparr>qp_tab := (qp_tab d)(unat (qp_id q) := None)\<rparr>"
  using assms
  by (auto simp: bxroce_destroy_qp_def destroy_qp_inner_def Let_def split_def split: if_splits)

lemma destroy_qp_held:
  assumes "bxroce_destroy_qp q u d s = Some (st, u', d', s')"
  shows "held l (trace s') = held l (trace s)"
  using assms
  by (auto simp: bxroce_destroy_qp_def destroy_qp_inner_def Let_def split_def del_mmap_held
      split: if_splits option.splits)

text \<open>
  Destroying a queue pair damages the device. \<open>_bxroce_destroy_qp\<close> passes the address of the
  pointer \<open>allocated_qps\<close> instead of the pointer: the number of the queue pair stays taken for
  ever, and its bit is cleared in the device structure, at that pointer and the fields behind
  it, and nowhere else. If the number is below 64 and the bit was set in the pointer, the next creation
  of a queue pair follows a wrong pointer; for a number from 64 to 127 it is the pointer to the table.
\<close>

theorem destroy_qp_damages_device:
  assumes "bxroce_destroy_qp q u d s = Some (st, u', d', s')"
  shows "st = 0 \<and> qps_bits d' = qps_bits d \<and> qp_tab d' = (qp_tab d)(unat (qp_id q) := None) \<and>
    held l (trace s') = held l (trace s) \<and>
    (\<forall>w b. bit (dev_words d' w) b \<longleftrightarrow>
       bit (dev_words d w) b \<and> \<not> (w = unat (qp_id q) div 64 \<and> b = unat (qp_id q) mod 64)) \<and>
    (qps_found d \<and> qp_id q < 64 \<and> bit (dev_words d 0) (unat (qp_id q)) \<longrightarrow>
       (\<forall>L t. t \<noteq> IB_QPT_GSI \<longrightarrow> draw_qp_num L t d' = None))"
proof -
  note d' = destroy_qp_dev [OF assms]
  have "\<not> qps_found d'" if "qps_found d" "qp_id q < 64" "bit (dev_words d 0) (unat (qp_id q))"
  proof -
    have n: "unat (qp_id q) div 64 = 0" "unat (qp_id q) mod 64 = unat (qp_id q)"
      using that(2) by (simp_all add: word_less_nat_alt)
    have "\<not> bit (dev_words d' 0) (unat (qp_id q))"
      using d' clear_dev_bit_apply [of "unat (qp_id q)" d 0 "unat (qp_id q)"] n by simp
    moreover have "dev_home d' 0 = dev_words d 0" using d' that(1) by (simp add: qps_found_def)
    ultimately show ?thesis using that(3) by (auto simp: qps_found_def)
  qed
  then show ?thesis
    using d' destroy_qp_held [OF assms] clear_dev_bit_apply [of "unat (qp_id q)" d]
    by (auto simp: draw_qp_num_def)
qed

theorem destroy_qp_damages_device_witness:
  "let d = (plain_dev 2)\<lparr>dev_words := (\<lambda>_. 0xffff888012340000), dev_home := (\<lambda>_. 0xffff888012340000)\<rparr>;
       q = (zero_qp 5)\<lparr>qp_id := 18, sq_cq := Some 7\<rparr>
   in \<exists>u d' s'. bxroce_destroy_qp q None d empty_kern = Some (0, u, d', s') \<and>
        draw_qp_num scan_lib IB_QPT_RC d' = None \<and> draw_qp_num scan_lib IB_QPT_RC d \<noteq> None"
proof -
  let ?d = "(plain_dev 2)\<lparr>dev_words := (\<lambda>_. 0xffff888012340000), dev_home := (\<lambda>_. 0xffff888012340000)\<rparr>"
  let ?q = "(zero_qp 5)\<lparr>qp_id := 18, sq_cq := Some 7\<rparr>"
  have at: "attr ?d = attr (plain_dev 2)" by simp
  have "qp_tab_found (clear_dev_bit (unat (qp_id ?q)) ?d)" "qp_id ?q < max_qp (attr ?d)" "qps_found ?d"
    using device_attr_limits [OF plain_dev_simps(1), of 2]
    by (simp_all add: qp_tab_found_def clear_dev_bit_def qps_found_def)
  then obtain st u d' s' where r: "bxroce_destroy_qp ?q None ?d empty_kern = Some (st, u, d', s')"
    using destroy_qp_returns [of ?q None ?d empty_kern] by auto
  have "bit (dev_words ?d 0) (unat (qp_id ?q))" "qp_id ?q < 64" by simp_all
  moreover have "draw_qp_num scan_lib IB_QPT_RC ?d \<noteq> None"
    using \<open>qps_found ?d\<close> by (auto simp: draw_qp_num_def split: prod.splits option.splits)
  ultimately show ?thesis
    using destroy_qp_damages_device [OF r, of Hw_lock] r \<open>qps_found ?d\<close> unfolding Let_def by blast
qed

end
