(* ===== verification/Mac_Correct.thy ===== *)
theory Mac_Correct
  imports Mac_cfg
begin

text \<open>
  What the MAC configuration does to the registers of a card: field updates as functions on a
  register file, the waits, and the indirect access to the layer 3 and 4 filter.
\<close>

section \<open>Fields\<close>

lemma set_field_absorb:
  assumes "l \<le> h" "h \<le> 31"
  shows "set_field (set_field d h l v) h l w = set_field d h l w"
  by (rule word_eqI_bits) (use assms in \<open>auto simp: bit_set_field\<close>)

lemma set_field_commute:
  assumes "l \<le> h" "h \<le> 31" "l' \<le> h'" "h' \<le> 31" "h < l' \<or> h' < l"
  shows "set_field (set_field d h l v) h' l' w = set_field (set_field d h' l' w) h l v"
  by (rule word_eqI_bits) (use assms in \<open>auto simp: bit_set_field\<close>)

section \<open>The registers on the bar\<close>

text \<open>The value last written to an address of the bar.\<close>

fun bar_file :: "event list \<Rightarrow> u32 \<Rightarrow> u32" where
  "bar_file [] a = 0"
| "bar_file (Ewrite Pcie_bar b v # t) a = (if a = b then v else bar_file t a)"
| "bar_file (_ # t) a = bar_file t a"

abbreviation regs :: "kern \<Rightarrow> u32 \<Rightarrow> u32" where
  "regs s \<equiv> bar_file (trace s)"

definition upd_reg :: "u32 \<Rightarrow> (u32 \<Rightarrow> u32) \<Rightarrow> (u32 \<Rightarrow> u32) \<Rightarrow> u32 \<Rightarrow> u32" where
  "upd_reg a f R = R(a := f (R a))"

lemma regs_mac_write [simp]: "regs (mac_reg_write i off v s) = (regs s)(mac_base i + off := v)"
  by (rule ext) (simp add: mac_reg_write_def reg_write_def)

lemma regs_mac_read [simp]: "regs (snd (mac_reg_read E i off s)) = regs s"
  by (rule ext) (simp add: mac_reg_read_def reg_read_def readl_def Let_def)

text \<open>A card whose registers on the bar keep what is written to them.\<close>

locale mac_device =
  fixes E :: env
  assumes keeps: "hw_read E t Pcie_bar a = bar_file t a"
begin

lemma read_value: "fst (mac_reg_read E i off s) = regs s (mac_base i + off)"
  by (simp add: mac_reg_read_def reg_read_def readl_def keeps Let_def)

lemma regs_rmw: "regs (mac_rmw E i off fs s) = upd_reg (mac_base i + off) (set_fields fs) (regs s)"
  by (simp add: mac_rmw_def upd_reg_def read_value Let_def split_def)

lemma regs_for_channels:
  assumes "\<And>c s. regs (f c s) = g c (regs s)"
  shows "regs (for_channels f s) = fold (\<lambda>i. g (0x80 * word_of_nat i)) [0..<7] (regs s)"
proof -
  have "regs (fold (\<lambda>i. f (0x80 * word_of_nat i)) is s) =
      fold (\<lambda>i. g (0x80 * word_of_nat i)) is (regs s)" for "is" :: "nat list"
    by (induction "is" arbitrary: s) (simp_all add: assms)
  then show ?thesis by (simp add: for_channels_def)
qed

end

definition keep_env :: env where
  "keep_env = file_env\<lparr>hw_read := \<lambda>t r a. if r = Pcie_bar then bar_file t a else 0\<rparr>"

interpretation keep_card: mac_device keep_env
  by unfold_locales (simp add: keep_env_def)

section \<open>Switches\<close>

text \<open>
  A switch is a field of a register, of every channel or of one, with its two settings. The
  settings absorb each other, and switches of different fields commute.
\<close>

lemma upd_absorb:
  assumes "\<And>d. f (g d) = f d"
  shows "upd_reg a f (upd_reg a g R) = upd_reg a f R"
  using assms by (auto simp: upd_reg_def)

lemma upd_commute:
  assumes "a \<noteq> b \<or> (\<forall>d. f (g d) = g (f d))"
  shows "upd_reg a f (upd_reg b g R) = upd_reg b g (upd_reg a f R)"
  using assms by (auto simp: upd_reg_def)

lemma set_fields_one [simp]: "set_fields [(h, l, v)] d = set_field d h l v"
  by (simp add: set_fields_def)

definition switches :: "env \<Rightarrow> nat \<Rightarrow> u32 \<Rightarrow> ((kern \<Rightarrow> kern) \<times> (kern \<Rightarrow> kern)) set" where
  "switches E i c =
     {(mac_loopback_on E i, mac_loopback_off E i), (mac_ipc_on E i, mac_ipc_off E i),
      (mac_receive_crc_check_on E i, mac_receive_crc_check_off E i),
      (mac_transmitter_enable E i, mac_transmitter_disable E i),
      (mac_receiver_enable E i, mac_receiver_disable E i),
      (mac_split_header_on E i c, mac_split_header_off E i c),
      (mac_drop_tcpip_checksum_err_pkg_on E i c, mac_drop_tcpip_checksum_err_pkg_off E i c)}"

lemmas switch_defs = mac_loopback_on_def mac_loopback_off_def mac_ipc_on_def mac_ipc_off_def
  mac_receive_crc_check_on_def mac_receive_crc_check_off_def mac_transmitter_enable_def
  mac_transmitter_disable_def mac_receiver_enable_def mac_receiver_disable_def mac_split_header_on_def
  mac_split_header_off_def mac_drop_tcpip_checksum_err_pkg_on_def mac_drop_tcpip_checksum_err_pkg_off_def

definition is_switch :: "env \<Rightarrow> nat \<Rightarrow> (kern \<Rightarrow> kern) \<Rightarrow> (kern \<Rightarrow> kern) \<Rightarrow> bool" where
  "is_switch E i on off \<longleftrightarrow> (\<exists>r b v w. on = mac_rmw E i r [(b, b, v)] \<and> off = mac_rmw E i r [(b, b, w)] \<and>
     b \<le> 31 \<and> bit v 0 \<noteq> bit w 0)"

lemma is_switchI:
  "b \<le> 31 \<Longrightarrow> bit v 0 \<noteq> bit w 0 \<Longrightarrow> is_switch E i (mac_rmw E i r [(b, b, v)]) (mac_rmw E i r [(b, b, w)])"
  by (auto simp: is_switch_def)

lemma switches_are: "(on, off) \<in> switches E i c \<Longrightarrow> is_switch E i on off"
  by (auto simp: switches_def switch_defs intro!: is_switchI)

text \<open>
  The switches of the MAC (loopback, checksum offload, frame check, transmitter, receiver,
  header split, dropping of bad packets) behave as switches: on a card whose registers keep
  what is written, the last setting wins whatever the register held, and a setting changes
  nothing but its own field of its own register.
\<close>

theorem mac_switches_absorb:
  assumes "mac_device E" and "(on, off) \<in> switches E i c"
  shows "regs (off (on s)) = regs (off s) \<and> regs (on (off s)) = regs (on s) \<and>
    (\<exists>a b. \<forall>r. (\<forall>k. (r, k) \<noteq> (a, b) \<longrightarrow> bit (regs (on s) r) k = bit (regs s r) k) \<and>
       bit (regs (on s) a) b \<noteq> bit (regs (off s) a) b)"
proof -
  note rmw = mac_device.regs_rmw [OF assms(1)]
  have sw: ?thesis if "on = mac_rmw E i r [(b, b, v)]" "off = mac_rmw E i r [(b, b, w)]" "b \<le> 31"
      "bit v 0 \<noteq> bit w 0" for r b v w
  proof -
    have 1: "regs (off (on s)) = regs (off s)" "regs (on (off s)) = regs (on s)"
      using that by (simp_all add: rmw upd_absorb set_field_absorb)
    have 2: "bit (regs (on s) r') k = bit (regs s r') k" if "(r', k) \<noteq> (mac_base i + r, b)" for r' k
      using that \<open>b \<le> 31\<close> by (cases "k < 32")
        (auto simp: \<open>on = _\<close> rmw upd_reg_def bit_set_field)
    have 3: "bit (regs (on s) (mac_base i + r)) b \<noteq> bit (regs (off s) (mac_base i + r)) b"
      using that by (simp add: rmw upd_reg_def bit_set_field)
    from 1 2 3 show ?thesis by blast
  qed
  have "is_switch E i on off" using assms(2) by (rule switches_are)
  then show ?thesis unfolding is_switch_def using sw by blast
qed

theorem mac_switches_absorb_witness:
  "regs (mac_loopback_off keep_env 0 (mac_loopback_on keep_env 0 empty_kern)) =
   regs (mac_loopback_off keep_env 0 empty_kern)"
  using mac_switches_absorb [OF keep_card.mac_device_axioms, of "mac_loopback_on keep_env 0"
      "mac_loopback_off keep_env 0" 0 0 empty_kern]
  by (simp add: switches_def)

text \<open>
  Two configuration functions have no effect. \<open>mac_rxq_flow_control_cfg\<close> drops the values it
  computes and leaves every register as it was; \<open>mac_av_cfg\<close> computes the address of each queue's
  mode register and changes another register instead, so no queue is configured for AVB.
\<close>

theorem mac_config_without_effect:
  assumes "mac_device E"
  shows "regs (mac_rxq_flow_control_cfg E i c s) = regs s \<and>
    (a \<noteq> 0x313c \<longrightarrow> regs (mac_av_cfg E i s) (mac_base i + a) = regs s (mac_base i + a))"
proof (intro conjI impI)
  show "regs (mac_rxq_flow_control_cfg E i c s) = regs s"
    by (simp add: mac_rxq_flow_control_cfg_def mac_device.regs_rmw [OF assms] upd_reg_def set_fields_def)
  assume "a \<noteq> 0x313c"
  then have "regs (fold (\<lambda>j. mac_rmw E i 0x313c [(3, 2, 1)]) js t) (mac_base i + a) = regs t (mac_base i + a)"
    for js :: "nat list" and t
    by (induction js arbitrary: t) (simp_all add: mac_device.regs_rmw [OF assms] upd_reg_def)
  then show "regs (mac_av_cfg E i s) (mac_base i + a) = regs s (mac_base i + a)"
    by (simp add: mac_av_cfg_def for_channels_def)
qed

theorem mac_config_without_effect_witness:
  "regs (mac_av_cfg keep_env 0 empty_kern) (mac_base 0 + 0x1100) = 0 \<and>
   regs (mac_rxq_flow_control_cfg keep_env 0 0 empty_kern) = regs empty_kern"
  using mac_config_without_effect [OF keep_card.mac_device_axioms, of 0 0 empty_kern "0x1100"]
  by (simp add: empty_kern_def)

section \<open>Waiting for a bit\<close>

fun mac_nth_read :: "env \<Rightarrow> nat \<Rightarrow> u32 \<Rightarrow> nat \<Rightarrow> kern \<Rightarrow> u32" where
  "mac_nth_read E i a 0 s = fst (mac_reg_read E i a s)"
| "mac_nth_read E i a (Suc k) s = mac_nth_read E i a k (snd (mac_reg_read E i a s))"

text \<open>A history that has grown by reads of one register.\<close>

inductive only_reads :: "u32 \<Rightarrow> event list \<Rightarrow> event list \<Rightarrow> bool" for a where
  only_reads_none: "only_reads a t t"
| only_reads_more: "only_reads a t u \<Longrightarrow> only_reads a t (Eread Pcie_bar a v # u)"

lemma only_reads_first: "only_reads a (Eread Pcie_bar a v # t) u \<Longrightarrow> only_reads a t u"
  by (induction "Eread Pcie_bar a v # t" u rule: only_reads.induct) (auto intro: only_reads.intros)

lemma trace_mac_read:
  "trace (snd (mac_reg_read E i a s)) =
     Eread Pcie_bar (mac_base i + a) (fst (mac_reg_read E i a s)) # trace s"
  by (simp add: mac_reg_read_def reg_read_def readl_def Let_def)

lemma mac_wait_returns:
  assumes "get_field (mac_nth_read E i a k s) 0 0 \<noteq> 1"
  shows "\<exists>r. mac_wait E i a data s = Some r"
  using assms
proof (induction k arbitrary: data s)
  case 0
  then show ?case
    by (subst mac_wait.simps, subst mac_wait.simps) auto
next
  case (Suc k)
  then show ?case by (subst mac_wait.simps) auto
qed

lemma mac_wait_only_if:
  assumes "mac_wait E i a data s = Some (d', s')"
  shows "(get_field data 0 0 \<noteq> 1 \<or> (\<exists>k. get_field (mac_nth_read E i a k s) 0 0 \<noteq> 1)) \<and>
    get_field d' 0 0 \<noteq> 1 \<and> only_reads (mac_base i + a) (trace s) (trace s')"
proof -
  let ?P = "\<lambda>E i a data s r. (get_field data 0 0 \<noteq> 1 \<or> (\<exists>k. get_field (mac_nth_read E i a k s) 0 0 \<noteq> 1)) \<and>
    get_field (fst r) 0 0 \<noteq> 1 \<and> only_reads (mac_base i + a) (trace s) (trace (snd r))"
  have "?P E i a data s (d', s')"
  proof (rule mac_wait.raw_induct [where P = ?P, OF _ assms])
    fix f E i a data s r
    let ?r = "mac_reg_read E i a s"
    assume IH: "\<And>E i a data s r. f E i a data s = Some r \<Longrightarrow> ?P E i a data s r"
      and eq: "(if get_field data 0 0 = 1 then f E i a (fst ?r) (snd ?r) else Some (data, s)) = Some r"
    show "?P E i a data s r"
    proof (cases "get_field data 0 0 = 1")
      case True
      with eq have "f E i a (fst ?r) (snd ?r) = Some r" by simp
      then have ih: "?P E i a (fst ?r) (snd ?r) r" by (rule IH)
      then have "\<exists>k. get_field (mac_nth_read E i a k s) 0 0 \<noteq> 1"
        by (metis mac_nth_read.simps)
      with ih show ?thesis
        unfolding trace_mac_read by (blast intro: only_reads_first)
    next
      case False
      with eq show ?thesis by (auto intro: only_reads.intros)
    qed
  qed
  then show ?thesis by simp
qed

lemma mac_wait_iff:
  "(\<exists>r. mac_wait E i a (mac_nth_read E i a 0 s) (snd (mac_reg_read E i a s)) = Some r) \<longleftrightarrow>
   (\<exists>k. get_field (mac_nth_read E i a k s) 0 0 \<noteq> 1)"
proof
  assume "\<exists>r. mac_wait E i a (mac_nth_read E i a 0 s) (snd (mac_reg_read E i a s)) = Some r"
  then show "\<exists>k. get_field (mac_nth_read E i a k s) 0 0 \<noteq> 1"
    using mac_wait_only_if by (metis mac_nth_read.simps prod.collapse)
next
  assume "\<exists>k. get_field (mac_nth_read E i a k s) 0 0 \<noteq> 1"
  then obtain k where "get_field (mac_nth_read E i a k s) 0 0 \<noteq> 1" by blast
  then show "\<exists>r. mac_wait E i a (mac_nth_read E i a 0 s) (snd (mac_reg_read E i a s)) = Some r"
  proof (cases k)
    case 0
    then show ?thesis
      using \<open>get_field (mac_nth_read E i a k s) 0 0 \<noteq> 1\<close> by (subst mac_wait.simps) simp
  next
    case (Suc n)
    then show ?thesis
      using \<open>get_field (mac_nth_read E i a k s) 0 0 \<noteq> 1\<close> mac_wait_returns [of E i a n] by simp
  qed
qed

text \<open>
  A soft reset returns exactly when the card ever clears the reset bit, and it keeps
  waiting as long as it does not: there is no time-out.
\<close>

theorem mac_soft_reset_exact:
  "(\<exists>s'. mac_soft_reset E i s = Some s') \<longleftrightarrow>
   (\<exists>k. get_field (mac_nth_read E i 0x3000 k (mac_rmw E i 0x3000 [(0, 0, 1)] s)) 0 0 \<noteq> 1)"
  using mac_wait_iff [of E i "0x3000" "mac_rmw E i 0x3000 [(0, 0, 1)] s"]
  by (auto simp: mac_soft_reset_def Let_def split_def)

section \<open>The indirect filter registers\<close>

text \<open>
  A write of the control register with bit 0 set is a command: with bit 1 clear it stores the
  data register in the filter register whose number is in bits 15 to 8, with bit 1 set it
  loads the data register from there.
\<close>

fun filt :: "nat \<Rightarrow> event list \<Rightarrow> u32 \<Rightarrow> u32" and filt_data :: "nat \<Rightarrow> event list \<Rightarrow> u32" where
  "filt i [] = (\<lambda>_. 0)"
| "filt i (Ewrite Pcie_bar a v # t) =
     (if a = mac_base i + 0xc00 \<and> bit v 0 \<and> \<not> bit v 1 then (filt i t)(get_field v 15 8 := filt_data i t)
      else filt i t)"
| "filt i (e # t) = filt i t"
| "filt_data i [] = 0"
| "filt_data i (Ewrite Pcie_bar a v # t) =
     (if a = mac_base i + 0xc04 then v
      else if a = mac_base i + 0xc00 \<and> bit v 0 \<and> bit v 1 then filt i t (get_field v 15 8)
      else filt_data i t)"
| "filt_data i (e # t) = filt_data i t"

lemma only_reads_filt:
  "only_reads a t u \<Longrightarrow> filt i u = filt i t \<and> filt_data i u = filt_data i t"
  by (induction rule: only_reads.induct) auto

lemma filt_mac_read [simp]:
  "filt i (trace (snd (mac_reg_read E j a s))) = filt i (trace s)"
  "filt_data i (trace (snd (mac_reg_read E j a s))) = filt_data i (trace s)"
  by (simp_all add: trace_mac_read)

lemma trace_mac_write: "trace (mac_reg_write i a v s) = Ewrite Pcie_bar (mac_base i + a) v # trace s"
  by (simp add: mac_reg_write_def reg_write_def)

text \<open>A card that finishes every command, and whose data register reads what it holds.\<close>

locale filter_device =
  fixes E :: env and i :: nat
  assumes ready: "\<exists>k. get_field (mac_nth_read E i 0xc00 k s) 0 0 \<noteq> 1"
    and data_reg: "hw_read E t Pcie_bar (mac_base i + 0xc04) = filt_data i t"
begin

lemma wait_idle:
  obtains d s' where "mac_wait E i 0xc00 (fst (mac_reg_read E i 0xc00 s)) (snd (mac_reg_read E i 0xc00 s)) = Some (d, s')"
    and "filt i (trace s') = filt i (trace s)" and "filt_data i (trace s') = filt_data i (trace s)"
proof -
  obtain d s' where w: "mac_wait E i 0xc00 (fst (mac_reg_read E i 0xc00 s)) (snd (mac_reg_read E i 0xc00 s)) = Some (d, s')"
    using mac_wait_iff [of E i "0xc00" s] ready [of s] by auto
  then have "only_reads (mac_base i + 0xc00) (trace (snd (mac_reg_read E i 0xc00 s))) (trace s')"
    using mac_wait_only_if by blast
  from only_reads_filt [OF this, of i] that [OF w] show ?thesis by simp
qed

lemma cmd_bits:
  "bit (set_fields [(15, 8, a), (1, 1, r), (0, 0, 1)] d) 0"
  "bit (set_fields [(15, 8, a), (1, 1, r), (0, 0, 1)] d) 1 = bit r 0"
  "a < 256 \<Longrightarrow> get_field (set_fields [(15, 8, a), (1, 1, r), (0, 0, 1)] d) 15 8 = a"
proof -
  show "bit (set_fields [(15, 8, a), (1, 1, r), (0, 0, 1)] d) 0"
    "bit (set_fields [(15, 8, a), (1, 1, r), (0, 0, 1)] d) 1 = bit r 0"
    by (simp_all add: set_fields_def bit_set_field)
  assume "a < 256"
  then have high: "\<not> bit a n" if "8 \<le> n" for n
    using that bit_above_u32 [of a 8 n] by simp
  show "get_field (set_fields [(15, 8, a), (1, 1, r), (0, 0, 1)] d) 15 8 = a"
  proof (rule word_eqI_bits)
    fix n assume "n < LENGTH(32)"
    then show "bit (get_field (set_fields [(15, 8, a), (1, 1, r), (0, 0, 1)] d) 15 8) n = bit a n"
      using high [of n] by (cases "n < 8") (auto simp: set_fields_def bit_set_field bit_get_field)
  qed
qed

lemma filter_write:
  assumes "a < 256"
  shows "\<exists>s'. mac_l3_l4_filter_cfg_reg_write E i a v s = Some s' \<and>
    filt i (trace s') = (filt i (trace s))(a := v)"
proof -
  obtain d1 s1 where w1: "mac_wait E i 0xc00 (fst (mac_reg_read E i 0xc00 s)) (snd (mac_reg_read E i 0xc00 s)) = Some (d1, s1)"
    and f1: "filt i (trace s1) = filt i (trace s)" by (rule wait_idle)
  let ?s = "mac_reg_write i 0xc04 v s1"
  obtain d2 s2 where w2: "mac_wait E i 0xc00 (fst (mac_reg_read E i 0xc00 ?s)) (snd (mac_reg_read E i 0xc00 ?s)) = Some (d2, s2)"
    and f2: "filt i (trace s2) = filt i (trace ?s)" "filt_data i (trace s2) = filt_data i (trace ?s)"
    by (rule wait_idle)
  show ?thesis
    using w1 w2 f1 f2 cmd_bits [of a 0 d2] assms
    by (simp add: mac_l3_l4_filter_cfg_reg_write_def Let_def split_def trace_mac_write)
qed

lemma filter_read:
  assumes "a < 256"
  shows "\<exists>s'. mac_l3_l4_filter_cfg_reg_read E i a s = Some (filt i (trace s) a, s') \<and>
    filt i (trace s') = filt i (trace s)"
proof -
  obtain d1 s1 where w1: "mac_wait E i 0xc00 (fst (mac_reg_read E i 0xc00 s)) (snd (mac_reg_read E i 0xc00 s)) = Some (d1, s1)"
    and f1: "filt i (trace s1) = filt i (trace s)" by (rule wait_idle)
  let ?s = "mac_reg_write i 0xc00 (set_fields [(15, 8, a), (1, 1, 1), (0, 0, 1)] d1) s1"
  obtain d2 s2 where w2: "mac_wait E i 0xc00 (fst (mac_reg_read E i 0xc00 ?s)) (snd (mac_reg_read E i 0xc00 ?s)) = Some (d2, s2)"
    and f2: "filt i (trace s2) = filt i (trace ?s)" "filt_data i (trace s2) = filt_data i (trace ?s)"
    by (rule wait_idle)
  have "fst (mac_reg_read E i 0xc04 s2) = filt i (trace s) a"
    using f1 f2 cmd_bits [of a 1 d1] assms
    by (simp add: mac_reg_read_def reg_read_def readl_def data_reg Let_def trace_mac_write)
  moreover have "filt i (trace s2) = filt i (trace s)"
    using f1 f2 cmd_bits [of a 1 d1] by (simp add: trace_mac_write)
  ultimately show ?thesis
    using w1 w2 by (simp add: mac_l3_l4_filter_cfg_reg_read_def Let_def split_def prod_eq_iff)
qed

lemma filter_on:
  "\<exists>s'. mac_mpb_channel_mpb_l3_l4_filter_on E i s = Some s' \<and>
    filt i (trace s') = (filt i (trace s))
      (0 := set_fields [(31, 31, 1), (27, 24, 6), (20, 20, 1), (16, 16, 1)] (filt i (trace s) 0),
       1 := push_bit 16 4791)"
proof -
  let ?d = "set_fields [(31, 31, 1), (27, 24, 6), (20, 20, 1), (16, 16, 1)] (filt i (trace s) 0)"
  obtain s1 where s1: "mac_l3_l4_filter_cfg_reg_read E i 0 s = Some (filt i (trace s) 0, s1)"
    "filt i (trace s1) = filt i (trace s)" using filter_read [of 0 s] by auto
  obtain s2 where s2: "mac_l3_l4_filter_cfg_reg_write E i 0 ?d s1 = Some s2"
    "filt i (trace s2) = (filt i (trace s1))(0 := ?d)" using filter_write [of 0 ?d s1] by auto
  obtain d3 s3 where s3: "mac_l3_l4_filter_cfg_reg_read E i 0 s2 = Some (d3, s3)"
    "filt i (trace s3) = filt i (trace s2)" using filter_read [of 0 s2] by auto
  obtain s4 where s4: "mac_l3_l4_filter_cfg_reg_write E i 1 (push_bit 16 4791) s3 = Some s4"
    "filt i (trace s4) = (filt i (trace s3))(1 := push_bit 16 4791)"
    using filter_write [of 1 "push_bit 16 4791" s3] by auto
  obtain d5 s5 where s5: "mac_l3_l4_filter_cfg_reg_read E i 0 s4 = Some (d5, s5)"
    "filt i (trace s5) = filt i (trace s4)" using filter_read [of 0 s4] by auto
  obtain d6 s6 where s6: "mac_l3_l4_filter_cfg_reg_read E i 1 s5 = Some (d6, s6)"
    "filt i (trace s6) = filt i (trace s5)" using filter_read [of 1 s5] by auto
  have "mac_mpb_channel_mpb_l3_l4_filter_on E i s = Some s6"
    unfolding mac_mpb_channel_mpb_l3_l4_filter_on_def using s1(1) s2(1) s3(1) s4(1) s5(1) s6(1) by simp
  then show ?thesis using s1(2) s2(2) s3(2) s4(2) s5(2) s6(2) by simp
qed

end

definition filter_env :: env where
  "filter_env = file_env\<lparr>hw_read := \<lambda>t r a. if r = Pcie_bar \<and> a = mac_base 0 + 0xc04 then filt_data 0 t else 0\<rparr>"

interpretation filter_card: filter_device filter_env 0
proof
  fix s
  have "mac_nth_read filter_env 0 0xc00 0 s = 0"
    by (simp add: mac_reg_read_def reg_read_def readl_def filter_env_def mac_base_def Let_def)
  moreover have "get_field 0 0 0 \<noteq> 1" by (simp add: get_field_def)
  ultimately show "\<exists>k. get_field (mac_nth_read filter_env 0 0xc00 k s) 0 0 \<noteq> 1" by metis
qed (simp add: filter_env_def)

text \<open>
  On a card that finishes its commands, the filter registers behind the indirect access are
  memory: reading one after a write gives what was written if it is the same register and
  what it held otherwise, and both calls return.
\<close>

theorem filter_roundtrip:
  assumes "filter_device E i" and "a < 256" "b < 256"
  shows "\<exists>s1 s2. mac_l3_l4_filter_cfg_reg_write E i a v s = Some s1 \<and>
    mac_l3_l4_filter_cfg_reg_read E i b s1 = Some (if b = a then v else filt i (trace s) b, s2)"
proof -
  obtain s1 where "mac_l3_l4_filter_cfg_reg_write E i a v s = Some s1"
    "filt i (trace s1) = (filt i (trace s))(a := v)"
    using filter_device.filter_write [OF assms(1,2)] by blast
  then show ?thesis using filter_device.filter_read [OF assms(1,3), of s1] by auto
qed

theorem filter_roundtrip_witness:
  "\<exists>s1 s2. mac_l3_l4_filter_cfg_reg_write filter_env 0 1 7 empty_kern = Some s1 \<and>
     mac_l3_l4_filter_cfg_reg_read filter_env 0 1 s1 = Some (7, s2)"
  using filter_roundtrip [OF filter_card.filter_device_axioms, of 1 1 7 empty_kern] by simp

text \<open>
  Switching the filter on sends RoCE to the message-passing channel: afterwards the
  layer 4 address register holds port 4791 in its upper half, and the control register selects
  DMA channel 6 for UDP packets that match the destination port, whatever it held before.
\<close>

theorem roce_filter_installed:
  assumes "filter_device E i"
  shows "\<exists>s'. mac_mpb_channel_mpb_l3_l4_filter_on E i s = Some s' \<and>
    filt i (trace s') 1 = push_bit 16 4791 \<and> get_field (filt i (trace s') 0) 27 24 = 6 \<and>
    bit (filt i (trace s') 0) 31 \<and> bit (filt i (trace s') 0) 20 \<and> bit (filt i (trace s') 0) 16"
proof -
  let ?fs = "[(31, 31, 1), (27, 24, 6), (20, 20, 1), (16, 16, 1)]"
  have b: "bit (set_fields ?fs d) 31" "bit (set_fields ?fs d) 20" "bit (set_fields ?fs d) 16" for d
    by (simp_all add: set_fields_def bit_set_field)
  have c: "get_field (set_fields ?fs d) 27 24 = 6" for d
    using get_field_set_field [of 24 27 "set_field d 31 31 1" 6]
    by (simp add: set_fields_def get_field_other mask_eq_exp_minus_1)
  show ?thesis
    using filter_device.filter_on [OF assms, of s] b c by auto
qed

theorem roce_filter_installed_witness:
  "\<exists>s'. mac_mpb_channel_mpb_l3_l4_filter_on filter_env 0 empty_kern = Some s' \<and>
     filt 0 (trace s') 1 = push_bit 16 4791"
  using roce_filter_installed [OF filter_card.filter_device_axioms, of empty_kern] by blast

end
