(* ===== verification/Macreg.thy ===== *)
theory Macreg
  imports Bits Regs
begin

text \<open>
  The register accesses of the Ethernet driver (header/bx_mac.h): the field macros
  \<open>MAC_SET_REG_BITS\<close> and \<open>MAC_GET_REG_BITS\<close>, the addresses of the queue and channel registers,
  and read-modify-write. They name a field by position and length, where \<open>set_bits\<close> (bx_rnic_com.c)
  takes the two ends; on fields inside a word both do the same.
\<close>

section \<open>Fields\<close>

type_synonym field = "nat \<times> nat"

text \<open>\<open>GENMASK(pos + len - 1, pos)\<close>\<close>

definition genmask :: "field \<Rightarrow> u32" where
  "genmask f = push_bit (fst f) (mask (snd f))"

definition MAC_GET_REG_BITS :: "u32 \<Rightarrow> field \<Rightarrow> u32" where
  "MAC_GET_REG_BITS var f = drop_bit (fst f) (var AND genmask f)"

definition MAC_SET_REG_BITS :: "u32 \<Rightarrow> field \<Rightarrow> u32 \<Rightarrow> u32" where
  "MAC_SET_REG_BITS var f val = (var AND NOT (genmask f)) OR (push_bit (fst f) val AND genmask f)"

definition in_word :: "field \<Rightarrow> bool" where
  "in_word f \<longleftrightarrow> 0 < snd f \<and> fst f + snd f \<le> 32"

lemma bit_genmask: "n < 32 \<Longrightarrow> bit (genmask f) n \<longleftrightarrow> fst f \<le> n \<and> n < fst f + snd f"
  by (auto simp: genmask_def bit_push_bit_iff bit_mask_iff)

lemma bit_MAC_SET: "n < 32 \<Longrightarrow> bit (MAC_SET_REG_BITS var f v) n \<longleftrightarrow>
    (if fst f \<le> n \<and> n < fst f + snd f then bit v (n - fst f) else bit var n)"
  by (auto simp: MAC_SET_REG_BITS_def bit_or_iff bit_and_iff bit_not_iff bit_push_bit_iff bit_genmask)

lemma bit_MAC_GET: "bit (MAC_GET_REG_BITS var f) n \<longleftrightarrow> n < snd f \<and> bit var (fst f + n)"
proof (cases "fst f + n < 32")
  case True
  then show ?thesis by (auto simp: MAC_GET_REG_BITS_def bit_drop_bit_eq bit_and_iff bit_genmask)
qed (simp add: MAC_GET_REG_BITS_def bit_drop_bit_eq bit_and_iff)

lemma MAC_SET_is_set_field:
  assumes "in_word f"
  shows "MAC_SET_REG_BITS var f v = set_field var (fst f + snd f - 1) (fst f) v"
proof (rule word_eqI_bits)
  fix n assume "n < LENGTH(32)"
  then show "bit (MAC_SET_REG_BITS var f v) n = bit (set_field var (fst f + snd f - 1) (fst f) v) n"
    using assms by (subst bit_set_field) (auto simp: bit_MAC_SET in_word_def)
qed

lemma MAC_GET_is_get_field:
  assumes "in_word f"
  shows "MAC_GET_REG_BITS var f = get_field var (fst f + snd f - 1) (fst f)"
proof (rule word_eqI_bits)
  fix n assume "n < LENGTH(32)"
  then show "bit (MAC_GET_REG_BITS var f) n = bit (get_field var (fst f + snd f - 1) (fst f)) n"
    using assms by (subst bit_get_field) (auto simp: bit_MAC_GET in_word_def add.commute [of n])
qed

lemma MAC_GET_SET:
  assumes "in_word f" "v < 2 ^ snd f"
  shows "MAC_GET_REG_BITS (MAC_SET_REG_BITS var f v) f = v"
proof (rule word_eqI_bits)
  fix n assume "n < LENGTH(32)"
  then show "bit (MAC_GET_REG_BITS (MAC_SET_REG_BITS var f v) f) n = bit v n"
    using assms bit_above_u32 [of v "snd f" n]
    by (cases "fst f + n < 32") (auto simp: bit_MAC_GET bit_MAC_SET in_word_def)
qed

lemma MAC_GET_other:
  assumes "fst f + snd f \<le> fst g \<or> fst g + snd g \<le> fst f"
  shows "MAC_GET_REG_BITS (MAC_SET_REG_BITS v g x) f = MAC_GET_REG_BITS v f"
proof (rule word_eqI_bits)
  fix n
  show "bit (MAC_GET_REG_BITS (MAC_SET_REG_BITS v g x) f) n = bit (MAC_GET_REG_BITS v f) n"
    using assms bit_imp_le_length [of v "fst f + n"] bit_imp_le_length [of "MAC_SET_REG_BITS v g x" "fst f + n"]
    by (cases "fst f + n < 32") (auto simp: bit_MAC_GET bit_MAC_SET)
qed

lemma MAC_GET_mod:
  assumes "in_word f"
  shows "MAC_GET_REG_BITS (MAC_SET_REG_BITS v f x) f = x AND mask (snd f)"
proof (rule word_eqI_bits)
  fix n assume "n < LENGTH(32)"
  then show "bit (MAC_GET_REG_BITS (MAC_SET_REG_BITS v f x) f) n = bit (x AND mask (snd f)) n"
    using assms by (cases "fst f + n < 32") (auto simp: bit_MAC_GET bit_MAC_SET in_word_def bit_and_iff bit_mask_iff)
qed

text \<open>
  C30. The three ways the drivers set a field agree: on a field inside a word, the macros of the
  Ethernet driver, \<open>set_bits\<close> of the device and \<open>rdma_set_bits\<close> of the RDMA driver give the same
  word, and their readers the same value.
\<close>

theorem field_routines_agree:
  assumes "0 < len" "pos + len \<le> 32"
  shows "set_bits var (pos + len - 1) pos v = Some (MAC_SET_REG_BITS var (pos, len) v) \<and>
    rdma_set_bits var (pos + len - 1) pos v = Some (MAC_SET_REG_BITS var (pos, len) v) \<and>
    get_bits var (pos + len - 1) pos = Some (MAC_GET_REG_BITS var (pos, len)) \<and>
    rdma_get_bits var (pos + len - 1) pos = Some (MAC_GET_REG_BITS var (pos, len))"
proof -
  have f: "in_word (pos, len)" using assms by (simp add: in_word_def)
  show ?thesis
    using assms MAC_SET_is_set_field [OF f] MAC_GET_is_get_field [OF f]
    by (auto simp: set_bits_def rdma_set_bits_def get_bits_def rdma_get_bits_def Let_def)
qed

theorem field_routines_agree_witness:
  "set_bits 0xffff0000 19 16 5 = Some (MAC_SET_REG_BITS 0xffff0000 (16, 4) 5) \<and>
   MAC_SET_REG_BITS 0xffff0000 (16, 4) 5 = 0xfff50000"
proof
  show "set_bits 0xffff0000 19 16 5 = Some (MAC_SET_REG_BITS 0xffff0000 (16, 4) 5)"
    using field_routines_agree [of 4 16 "0xffff0000" 5] by simp
  show "MAC_SET_REG_BITS 0xffff0000 (16, 4) 5 = 0xfff50000" by (simp add: MAC_SET_REG_BITS_def genmask_def mask_eq_exp_minus_1)
qed

section \<open>Accesses\<close>

text \<open>\<open>MAC_MTL_REG(pdata, n, reg)\<close> and \<open>MAC_DMA_REG\<close> of channel \<open>n\<close>, as offsets from \<open>mac_regs\<close>.\<close>

definition mtl_reg :: "nat \<Rightarrow> u32 \<Rightarrow> u32" where
  "mtl_reg n reg = 0x1100 + word_of_nat n * 0x80 + reg"

definition dma_reg :: "nat \<Rightarrow> u32 \<Rightarrow> u32" where
  "dma_reg n reg = 0x3100 + 0x80 * word_of_nat n + reg"

definition mread :: "env \<Rightarrow> u32 \<Rightarrow> kern \<Rightarrow> u32 \<times> kern" where
  "mread E a = readl E Mac_regs a"

definition mwrite :: "u32 \<Rightarrow> u32 \<Rightarrow> kern \<Rightarrow> kern" where
  "mwrite a v = writel Mac_regs v a"

definition set_reg_bits :: "(field \<times> u32) list \<Rightarrow> u32 \<Rightarrow> u32" where
  "set_reg_bits fs v = fold (\<lambda>(f, x) v. MAC_SET_REG_BITS v f x) fs v"

definition mset :: "env \<Rightarrow> u32 \<Rightarrow> (field \<times> u32) list \<Rightarrow> kern \<Rightarrow> kern" where
  "mset E a fs s = (let (regval, s) = mread E a s in mwrite a (set_reg_bits fs regval) s)"

fun mwrites :: "(u32 \<times> u32) list \<Rightarrow> kern \<Rightarrow> kern" where
  "mwrites [] s = s"
| "mwrites ((a, v) # ws) s = mwrites ws (mwrite a v s)"

fun mreads :: "env \<Rightarrow> u32 list \<Rightarrow> kern \<Rightarrow> kern" where
  "mreads E [] s = s"
| "mreads E (a # as) s = mreads E as (snd (mread E a s))"

section \<open>A card whose registers keep their values\<close>

fun mac_file :: "event list \<Rightarrow> u32 \<Rightarrow> u32" where
  "mac_file [] a = 0"
| "mac_file (Ewrite Mac_regs b v # t) a = (if a = b then v else mac_file t a)"
| "mac_file (_ # t) a = mac_file t a"

abbreviation mregs :: "kern \<Rightarrow> u32 \<Rightarrow> u32" where
  "mregs s \<equiv> mac_file (trace s)"

lemma mregs_write [simp]: "mregs (mwrite a v s) = (mregs s)(a := v)"
  by (rule ext) (simp add: mwrite_def)

lemma mregs_read [simp]: "mregs (snd (mread E a s)) = mregs s"
  by (rule ext) (simp add: mread_def readl_def Let_def)

lemma mregs_writes: "mregs (mwrites ws s) = fold (\<lambda>(a, v) R. R(a := v)) ws (mregs s)"
  by (induction ws s rule: mwrites.induct) simp_all

lemma mregs_reads [simp]: "mregs (mreads E as s) = mregs s"
  by (induction as arbitrary: s) simp_all

text \<open>The registers in \<open>plain\<close> read back what was written; others may have a life of their own.\<close>

locale mac_card =
  fixes E :: env and plain :: "u32 set"
  assumes keeps: "a \<in> plain \<Longrightarrow> hw_read E t Mac_regs a = mac_file t a"
begin

lemma read_value: "a \<in> plain \<Longrightarrow> fst (mread E a s) = mregs s a"
  by (simp add: mread_def readl_def keeps Let_def)

lemma regs_mset: "a \<in> plain \<Longrightarrow> mregs (mset E a fs s) = (mregs s)(a := set_reg_bits fs (mregs s a))"
  by (simp add: mset_def read_value split_def Let_def)

end

definition mac_env :: env where
  "mac_env = file_env\<lparr>hw_read := \<lambda>t r a. if r = Mac_regs then mac_file t a else 0\<rparr>"

interpretation plain_card: mac_card mac_env UNIV
  by unfold_locales (simp add: mac_env_def)

lemma set_reg_bits_simps [simp]:
  "set_reg_bits [] v = v" "set_reg_bits ((f, x) # fs) v = set_reg_bits fs (MAC_SET_REG_BITS v f x)"
  by (simp_all add: set_reg_bits_def)

text \<open>Setting fields leaves a bit outside all of them as it is.\<close>

lemma set_reg_bits_other:
  assumes "\<forall>(f, x) \<in> set fs. \<not> (fst f \<le> n \<and> n < fst f + snd f)" "n < 32"
  shows "bit (set_reg_bits fs v) n = bit v n"
  using assms by (induction fs arbitrary: v) (auto simp: bit_MAC_SET)

lemma io_only_mread [simp]: "io_only s (snd (mread E a s))"
  by (auto simp: io_only_def mread_def readl_def Let_def)

lemma io_only_mwrite [simp]: "io_only s (mwrite a v s)"
  by (auto simp: io_only_def mwrite_def)

lemma io_only_mset [simp]: "io_only s (mset E a fs s)"
  unfolding mset_def Let_def split_def by (rule io_only_trans [OF io_only_mread io_only_mwrite])

lemma io_only_mwrites [simp]: "io_only s (mwrites ws s)"
  by (induction ws s rule: mwrites.induct) (auto intro: io_only_trans [OF io_only_mwrite])

lemma io_only_mreads [simp]: "io_only s (mreads E as s)"
  by (induction as arbitrary: s) (auto intro: io_only_trans [OF io_only_mread])

end
