(* ===== verification/Hw_init.thy ===== *)
theory Hw_init
  imports Macreg Dev Pbu
begin

text \<open>
  Bringing the card up (bxroce_hw.c, \<open>bxroce_init_hw\<close> and what it calls): the DMA channel of the
  MAC that carries RDMA traffic, the connection manager, the packet header unit, the packet buffer
  unit and the packet generation unit with its 1024 queue pairs. \<open>devinfo->mac_base\<close> is the base of
  \<open>Mac_regs\<close>, \<open>devinfo->base_addr\<close> the window. The bits \<open>rdma_set_bits\<close> and \<open>rdma_get_bits\<close> are
  called with are constants between 0 and 31, where they are \<open>set_field\<close> and \<open>get_field\<close>. Code
  under \<open>#if 0\<close> is not there. None is a wait for the card that does not end.
\<close>

section \<open>Register map\<close>

text \<open>Register offsets, and fields as position and length, from the headers.\<close>

abbreviation (input) CMERREN :: u32 where "CMERREN \<equiv> 0x1"
abbreviation (input) CMINTEN :: u32 where "CMINTEN \<equiv> 0x2"
abbreviation (input) CMLOGEN :: u32 where "CMLOGEN \<equiv> 0x0"
abbreviation (input) CM_CFG :: u32 where "CM_CFG \<equiv> 0x20000000"
abbreviation (input) DMA_CH_BASE :: u32 where "DMA_CH_BASE \<equiv> 0x3100"
abbreviation (input) DMA_CH_CR :: u32 where "DMA_CH_CR \<equiv> 0x0"
abbreviation (input) DMA_CH_CR_PBLX8 :: "nat \<times> nat" where "DMA_CH_CR_PBLX8 \<equiv> (16, 1)"
abbreviation (input) DMA_CH_CR_SPH :: "nat \<times> nat" where "DMA_CH_CR_SPH \<equiv> (24, 1)"
abbreviation (input) DMA_CH_IER :: u32 where "DMA_CH_IER \<equiv> 0x38"
abbreviation (input) DMA_CH_INC :: u32 where "DMA_CH_INC \<equiv> 0x80"
abbreviation (input) DMA_CH_RCR :: u32 where "DMA_CH_RCR \<equiv> 0x8"
abbreviation (input) DMA_CH_RCR_PBL :: "nat \<times> nat" where "DMA_CH_RCR_PBL \<equiv> (16, 6)"
abbreviation (input) DMA_CH_RCR_RBSZ :: "nat \<times> nat" where "DMA_CH_RCR_RBSZ \<equiv> (1, 14)"
abbreviation (input) DMA_CH_RCR_SR :: "nat \<times> nat" where "DMA_CH_RCR_SR \<equiv> (0, 1)"
abbreviation (input) DMA_CH_RDLR_HI :: u32 where "DMA_CH_RDLR_HI \<equiv> 0x18"
abbreviation (input) DMA_CH_RDLR_LO :: u32 where "DMA_CH_RDLR_LO \<equiv> 0x1c"
abbreviation (input) DMA_CH_RDRLR :: u32 where "DMA_CH_RDRLR \<equiv> 0x34"
abbreviation (input) DMA_CH_RDTR_HI :: u32 where "DMA_CH_RDTR_HI \<equiv> 0x28"
abbreviation (input) DMA_CH_RDTR_LO :: u32 where "DMA_CH_RDTR_LO \<equiv> 0x2c"
abbreviation (input) DMA_CH_RIWT :: u32 where "DMA_CH_RIWT \<equiv> 0x3c"
abbreviation (input) DMA_CH_RIWT_RWT :: "nat \<times> nat" where "DMA_CH_RIWT_RWT \<equiv> (0, 8)"
abbreviation (input) DMA_CH_SR :: u32 where "DMA_CH_SR \<equiv> 0x60"
abbreviation (input) DMA_CH_TCR :: u32 where "DMA_CH_TCR \<equiv> 0x4"
abbreviation (input) DMA_CH_TCR_OSP :: "nat \<times> nat" where "DMA_CH_TCR_OSP \<equiv> (4, 1)"
abbreviation (input) DMA_CH_TCR_PBL :: "nat \<times> nat" where "DMA_CH_TCR_PBL \<equiv> (16, 6)"
abbreviation (input) DMA_CH_TCR_ST :: "nat \<times> nat" where "DMA_CH_TCR_ST \<equiv> (0, 1)"
abbreviation (input) DMA_CH_TCR_TSE :: "nat \<times> nat" where "DMA_CH_TCR_TSE \<equiv> (12, 1)"
abbreviation (input) DMA_CH_TDLR_HI :: u32 where "DMA_CH_TDLR_HI \<equiv> 0x10"
abbreviation (input) DMA_CH_TDLR_LO :: u32 where "DMA_CH_TDLR_LO \<equiv> 0x14"
abbreviation (input) DMA_CH_TDRLR :: u32 where "DMA_CH_TDRLR \<equiv> 0x30"
abbreviation (input) DMA_CH_TDTR_HI :: u32 where "DMA_CH_TDTR_HI \<equiv> 0x20"
abbreviation (input) DMA_CH_TDTR_LO :: u32 where "DMA_CH_TDTR_LO \<equiv> 0x24"
abbreviation (input) MAC_DMA_CHANNEL_ID_FOR_MPB :: u32 where "MAC_DMA_CHANNEL_ID_FOR_MPB \<equiv> 0x6"
abbreviation (input) MAC_MACA1HR :: u32 where "MAC_MACA1HR \<equiv> 0x308"
abbreviation (input) MAC_MACA1HR_AE :: "nat \<times> nat" where "MAC_MACA1HR_AE \<equiv> (31, 1)"
abbreviation (input) MAC_MACA_INC :: u32 where "MAC_MACA_INC \<equiv> 0x4"
abbreviation (input) MAC_Q0TFCR :: u32 where "MAC_Q0TFCR \<equiv> 0x70"
abbreviation (input) MAC_Q0TFCR_TFE :: "nat \<times> nat" where "MAC_Q0TFCR_TFE \<equiv> (1, 1)"
abbreviation (input) MAC_QTFCR_INC :: u32 where "MAC_QTFCR_INC \<equiv> 0x4"
abbreviation (input) MAC_RCR :: u32 where "MAC_RCR \<equiv> 0x4"
abbreviation (input) MAC_RCR_LM :: "nat \<times> nat" where "MAC_RCR_LM \<equiv> (10, 1)"
abbreviation (input) MAC_RQEC :: u32 where "MAC_RQEC \<equiv> 0x140"
abbreviation (input) MTL_Q_ENABLED :: u32 where "MTL_Q_ENABLED \<equiv> 0x2"
abbreviation (input) MTL_Q_IER :: u32 where "MTL_Q_IER \<equiv> 0x70"
abbreviation (input) MTL_Q_IER_RXOIE :: "nat \<times> nat" where "MTL_Q_IER_RXOIE \<equiv> (16, 1)"
abbreviation (input) MTL_Q_ISR :: u32 where "MTL_Q_ISR \<equiv> 0x74"
abbreviation (input) MTL_Q_QWR :: u32 where "MTL_Q_QWR \<equiv> 0x18"
abbreviation (input) MTL_Q_QWR_QW :: "nat \<times> nat" where "MTL_Q_QWR_QW \<equiv> (0, 21)"
abbreviation (input) MTL_Q_RQ0MR_DIS_TCP_EF :: "nat \<times> nat" where "MTL_Q_RQ0MR_DIS_TCP_EF \<equiv> (6, 1)"
abbreviation (input) MTL_Q_RQFCR :: u32 where "MTL_Q_RQFCR \<equiv> 0x50"
abbreviation (input) MTL_Q_RQFCR_RFA :: "nat \<times> nat" where "MTL_Q_RQFCR_RFA \<equiv> (1, 6)"
abbreviation (input) MTL_Q_RQFCR_RFD :: "nat \<times> nat" where "MTL_Q_RQFCR_RFD \<equiv> (17, 6)"
abbreviation (input) MTL_Q_RQOMR :: u32 where "MTL_Q_RQOMR \<equiv> 0x40"
abbreviation (input) MTL_Q_RQOMR_EHFC :: "nat \<times> nat" where "MTL_Q_RQOMR_EHFC \<equiv> (7, 1)"
abbreviation (input) MTL_Q_RQOMR_FEP :: "nat \<times> nat" where "MTL_Q_RQOMR_FEP \<equiv> (4, 1)"
abbreviation (input) MTL_Q_RQOMR_RQS :: "nat \<times> nat" where "MTL_Q_RQOMR_RQS \<equiv> (16, 9)"
abbreviation (input) MTL_Q_RQOMR_RSF :: "nat \<times> nat" where "MTL_Q_RQOMR_RSF \<equiv> (5, 1)"
abbreviation (input) MTL_Q_RQOMR_RTC :: "nat \<times> nat" where "MTL_Q_RQOMR_RTC \<equiv> (0, 2)"
abbreviation (input) MTL_Q_TQOMR :: u32 where "MTL_Q_TQOMR \<equiv> 0x0"
abbreviation (input) MTL_Q_TQOMR_FTQ :: "nat \<times> nat" where "MTL_Q_TQOMR_FTQ \<equiv> (0, 1)"
abbreviation (input) MTL_Q_TQOMR_Q2TCMAP :: "nat \<times> nat" where "MTL_Q_TQOMR_Q2TCMAP \<equiv> (8, 3)"
abbreviation (input) MTL_Q_TQOMR_TQS :: "nat \<times> nat" where "MTL_Q_TQOMR_TQS \<equiv> (16, 10)"
abbreviation (input) MTL_Q_TQOMR_TSF :: "nat \<times> nat" where "MTL_Q_TQOMR_TSF \<equiv> (1, 1)"
abbreviation (input) MTL_Q_TQOMR_TTC :: "nat \<times> nat" where "MTL_Q_TQOMR_TTC \<equiv> (4, 3)"
abbreviation (input) MTL_Q_TQOMR_TXQEN :: "nat \<times> nat" where "MTL_Q_TQOMR_TXQEN \<equiv> (2, 2)"
abbreviation (input) PHDBYTEORDER :: u32 where "PHDBYTEORDER \<equiv> 0x1"
abbreviation (input) PHDCONTEXT_TDES0 :: u32 where "PHDCONTEXT_TDES0 \<equiv> 0x23"
abbreviation (input) PHDCONTEXT_TDES1 :: u32 where "PHDCONTEXT_TDES1 \<equiv> 0x24"
abbreviation (input) PHDCONTEXT_TDES2 :: u32 where "PHDCONTEXT_TDES2 \<equiv> 0x25"
abbreviation (input) PHDCONTEXT_TDES3 :: u32 where "PHDCONTEXT_TDES3 \<equiv> 0x26"
abbreviation (input) PHDIPV4FLAG :: u32 where "PHDIPV4FLAG \<equiv> 0x11"
abbreviation (input) PHDIPV4HEADER_LEN :: u32 where "PHDIPV4HEADER_LEN \<equiv> 0xe"
abbreviation (input) PHDIPV4ID :: u32 where "PHDIPV4ID \<equiv> 0x10"
abbreviation (input) PHDIPV4OFFSET :: u32 where "PHDIPV4OFFSET \<equiv> 0x12"
abbreviation (input) PHDIPV4PROTOCOL :: u32 where "PHDIPV4PROTOCOL \<equiv> 0x14"
abbreviation (input) PHDIPV4SOURCEADDR :: u32 where "PHDIPV4SOURCEADDR \<equiv> 0x16"
abbreviation (input) PHDIPV4TOS :: u32 where "PHDIPV4TOS \<equiv> 0xf"
abbreviation (input) PHDIPV4TTL :: u32 where "PHDIPV4TTL \<equiv> 0x13"
abbreviation (input) PHDIPV4VERSION :: u32 where "PHDIPV4VERSION \<equiv> 0xd"
abbreviation (input) PHDIPV6CLASS :: u32 where "PHDIPV6CLASS \<equiv> 0x18"
abbreviation (input) PHDIPV6FLOWLABLE :: u32 where "PHDIPV6FLOWLABLE \<equiv> 0x19"
abbreviation (input) PHDIPV6HOPLIMIT :: u32 where "PHDIPV6HOPLIMIT \<equiv> 0x1b"
abbreviation (input) PHDIPV6NEXTHEADER :: u32 where "PHDIPV6NEXTHEADER \<equiv> 0x1a"
abbreviation (input) PHDIPV6SOURCEADDR_0 :: u32 where "PHDIPV6SOURCEADDR_0 \<equiv> 0x1c"
abbreviation (input) PHDIPV6SOURCEADDR_1 :: u32 where "PHDIPV6SOURCEADDR_1 \<equiv> 0x1d"
abbreviation (input) PHDIPV6SOURCEADDR_2 :: u32 where "PHDIPV6SOURCEADDR_2 \<equiv> 0x1e"
abbreviation (input) PHDIPV6SOURCEADDR_3 :: u32 where "PHDIPV6SOURCEADDR_3 \<equiv> 0x1f"
abbreviation (input) PHDIPV6VERSION :: u32 where "PHDIPV6VERSION \<equiv> 0x17"
abbreviation (input) PHDMACSOURCEADDR_H :: u32 where "PHDMACSOURCEADDR_H \<equiv> 0xa"
abbreviation (input) PHDMACSOURCEADDR_L :: u32 where "PHDMACSOURCEADDR_L \<equiv> 0x9"
abbreviation (input) PHDMACTYPEIPV4 :: u32 where "PHDMACTYPEIPV4 \<equiv> 0xb"
abbreviation (input) PHDMACTYPEIPV6 :: u32 where "PHDMACTYPEIPV6 \<equiv> 0xc"
abbreviation (input) PHDMACTYPEIPV6RECV :: u32 where "PHDMACTYPEIPV6RECV \<equiv> 0x2e"
abbreviation (input) PHDNORMAL_RDES1 :: u32 where "PHDNORMAL_RDES1 \<equiv> 0x2a"
abbreviation (input) PHDNORMAL_RDES2 :: u32 where "PHDNORMAL_RDES2 \<equiv> 0x2b"
abbreviation (input) PHDNORMAL_RDES3 :: u32 where "PHDNORMAL_RDES3 \<equiv> 0x2c"
abbreviation (input) PHDNORMAL_TDES1 :: u32 where "PHDNORMAL_TDES1 \<equiv> 0x27"
abbreviation (input) PHDNORMAL_TDES2 :: u32 where "PHDNORMAL_TDES2 \<equiv> 0x28"
abbreviation (input) PHDNORMAL_TDES3 :: u32 where "PHDNORMAL_TDES3 \<equiv> 0x29"
abbreviation (input) PHDRXDESCTAILPTR_H :: u32 where "PHDRXDESCTAILPTR_H \<equiv> 0x8"
abbreviation (input) PHDRXDESCTAILPTR_INCR_STEP :: u32 where "PHDRXDESCTAILPTR_INCR_STEP \<equiv> 0x6"
abbreviation (input) PHDRXDESCTAILPTR_L :: u32 where "PHDRXDESCTAILPTR_L \<equiv> 0x7"
abbreviation (input) PHDRXDESCTAILPTR_THRESDHOLD :: u32 where "PHDRXDESCTAILPTR_THRESDHOLD \<equiv> 0x5"
abbreviation (input) PHDSRAM_RMC :: u32 where "PHDSRAM_RMC \<equiv> 0x2d"
abbreviation (input) PHDSTART :: u32 where "PHDSTART \<equiv> 0x0"
abbreviation (input) PHDTXDESCTAILPTR_H :: u32 where "PHDTXDESCTAILPTR_H \<equiv> 0x3"
abbreviation (input) PHDTXDESCTAILPTR_L :: u32 where "PHDTXDESCTAILPTR_L \<equiv> 0x2"
abbreviation (input) PHDTXDESCTAILPTR_THRESDHOLD :: u32 where "PHDTXDESCTAILPTR_THRESDHOLD \<equiv> 0x4"
abbreviation (input) PHDUDPCHECKSUM :: u32 where "PHDUDPCHECKSUM \<equiv> 0x22"
abbreviation (input) PHDUDPDESTPORT :: u32 where "PHDUDPDESTPORT \<equiv> 0x21"
abbreviation (input) PHDUDPSOURCEPORT :: u32 where "PHDUDPSOURCEPORT \<equiv> 0x20"
abbreviation (input) PHD_BASE_0 :: u32 where "PHD_BASE_0 \<equiv> 0x50000000"
abbreviation (input) PHD_BASE_1 :: u32 where "PHD_BASE_1 \<equiv> 0x60000000"
abbreviation (input) RDMA_CHANNEL :: u32 where "RDMA_CHANNEL \<equiv> 0x6"
abbreviation (input) RNIC_BASE_ADDR_MPB_DATA_S_0_H :: u32 where "RNIC_BASE_ADDR_MPB_DATA_S_0_H \<equiv> 0x8000"
abbreviation (input) RNIC_BASE_ADDR_MPB_DATA_S_1_H :: u32 where "RNIC_BASE_ADDR_MPB_DATA_S_1_H \<equiv> 0xc000"
abbreviation (input) RNIC_REG_BASE_ADDR_MAC_0 :: u32 where "RNIC_REG_BASE_ADDR_MAC_0 \<equiv> 0xb000000"

section \<open>The device's information\<close>

text \<open>
  What these functions read of \<open>struct bx_dev_info\<close>, its \<open>pdata\<close> and the net device:
  \<open>di_ip\<close> is None without \<open>ip_ptr\<close>, Some None without an address on the interface.
\<close>

record dev_info =
  di_mac :: "u8 list"
  di_ip :: "u32 option option"
  dev_addr :: "u8 list option"
  tx_osp_mode :: u32
  pblx8 :: u32
  tx_pbl :: u32
  rx_pbl :: u32
  rx_riwt :: u32
  feat_tso :: bool
  di_vendor :: u32
  di_device :: u32

definition be32_to_cpu :: "u32 \<Rightarrow> u32" where
  "be32_to_cpu w = push_bit 24 (w AND 0xff) OR push_bit 8 (w AND 0xff00) OR
     drop_bit 8 (w AND 0xff0000) OR drop_bit 24 w"

definition macaddr_h :: "u8 list \<Rightarrow> u32" where
  "macaddr_h addr = push_bit 8 (ucast (addr ! 5)) OR ucast (addr ! 4)"

definition macaddr_l :: "u8 list \<Rightarrow> u32" where
  "macaddr_l addr = push_bit 24 (ucast (addr ! 3)) OR push_bit 16 (ucast (addr ! 2)) OR
     push_bit 8 (ucast (addr ! 1)) OR ucast (addr ! 0)"

section \<open>Packet header unit\<close>

definition phd_write :: "u32 \<Rightarrow> u32 \<Rightarrow> kern \<Rightarrow> kern" where
  "phd_write off v = bxroce_mpb_reg_write PHD_BASE_0 off v"

definition phd_start :: "env \<Rightarrow> kern \<Rightarrow> int \<times> kern" where
  "phd_start E s =
     (let s = phd_write PHDSTART 0x1 s;
          s = snd (bxroce_mpb_reg_read E PHD_BASE_0 PHDSTART s);
          s = snd (bxroce_mpb_reg_read E PHD_BASE_1 PHDSTART s)
      in (0, s))"

definition phd_udp_init :: "kern \<Rightarrow> int \<times> kern" where
  "phd_udp_init s = (0, s)"

text \<open>Called by nothing, and without a return statement.\<close>

definition phd_ipv6_init :: "kern \<Rightarrow> kern" where
  "phd_ipv6_init s =
     fold (\<lambda>base. fold (\<lambda>off. bxroce_mpb_reg_write base off 0x0)
       [PHDIPV6VERSION, PHDIPV6CLASS, PHDIPV6FLOWLABLE, PHDIPV6NEXTHEADER, PHDIPV6HOPLIMIT,
        PHDIPV6SOURCEADDR_0, PHDIPV6SOURCEADDR_1, PHDIPV6SOURCEADDR_2, PHDIPV6SOURCEADDR_3])
       [PHD_BASE_0, PHD_BASE_1] s"

definition phd_ipv4_init :: "dev_info \<Rightarrow> kern \<Rightarrow> int \<times> kern" where
  "phd_ipv4_init d s =
     (case di_ip d of
        None \<Rightarrow> (0, s)
      | Some None \<Rightarrow> (0, s)
      | Some (Some ifa_local) \<Rightarrow> (0, phd_write PHDIPV4SOURCEADDR (be32_to_cpu ifa_local) s))"

definition phd_mac_init :: "dev_info \<Rightarrow> kern \<Rightarrow> int \<times> kern" where
  "phd_mac_init d s =
     (let s = phd_write PHDMACSOURCEADDR_H (macaddr_h (di_mac d)) s;
          s = phd_write PHDMACSOURCEADDR_L (macaddr_l (di_mac d)) s
      in (0, s))"

text \<open>The address of the RDMA channel's registers on the card's own bus.\<close>

definition channel_base :: u32 where
  "channel_base = RNIC_REG_BASE_ADDR_MAC_0 + DMA_CH_BASE + DMA_CH_INC * RDMA_CHANNEL"

definition phd_rxdesc_init :: "kern \<Rightarrow> int \<times> kern" where
  "phd_rxdesc_init s =
     (0, phd_write PHDRXDESCTAILPTR_L (channel_base + DMA_CH_RDTR_LO) (phd_write PHDRXDESCTAILPTR_H 0 s))"

definition phd_txdesc_init :: "kern \<Rightarrow> int \<times> kern" where
  "phd_txdesc_init s =
     (0, phd_write PHDTXDESCTAILPTR_L (channel_base + DMA_CH_TDTR_LO) (phd_write PHDTXDESCTAILPTR_H 0 s))"

definition phd_context_tdes3_init :: "kern \<Rightarrow> int \<times> kern" where
  "phd_context_tdes3_init s = (0, phd_write PHDCONTEXT_TDES3 0xc001b000 s)"

definition bxroce_init_phd :: "env \<Rightarrow> dev_info \<Rightarrow> kern \<Rightarrow> int \<times> kern" where
  "bxroce_init_phd E d s =
     (let (status, s) = phd_txdesc_init s in if status \<noteq> 0 then (status, s)
      else let (status, s) = phd_rxdesc_init s in if status \<noteq> 0 then (status, s)
      else let (status, s) = phd_context_tdes3_init s in if status \<noteq> 0 then (status, s)
      else let (status, s) = phd_mac_init d s in if status \<noteq> 0 then (status, s)
      else let (status, s) = phd_ipv4_init d s in if status \<noteq> 0 then (status, s)
      else let (status, s) = phd_start E s in if status \<noteq> 0 then (status, s)
      else (0, s))"

definition phd_read_regs :: "u32 list" where
  "phd_read_regs =
     [PHDBYTEORDER, PHDTXDESCTAILPTR_L, PHDTXDESCTAILPTR_H, PHDTXDESCTAILPTR_THRESDHOLD,
      PHDRXDESCTAILPTR_THRESDHOLD, PHDRXDESCTAILPTR_INCR_STEP, PHDRXDESCTAILPTR_L,
      PHDRXDESCTAILPTR_H, PHDMACSOURCEADDR_L, PHDMACSOURCEADDR_H, PHDMACTYPEIPV4, PHDMACTYPEIPV6,
      PHDIPV4VERSION, PHDIPV4HEADER_LEN, PHDIPV4TOS, PHDIPV4ID, PHDIPV4FLAG, PHDIPV4OFFSET,
      PHDIPV4TTL, PHDIPV4PROTOCOL, PHDIPV4SOURCEADDR, PHDIPV6VERSION, PHDIPV6CLASS,
      PHDIPV6FLOWLABLE, PHDIPV6NEXTHEADER, PHDIPV6HOPLIMIT, PHDIPV6SOURCEADDR_0,
      PHDIPV6SOURCEADDR_1, PHDIPV6SOURCEADDR_2, PHDIPV6SOURCEADDR_3, PHDUDPSOURCEPORT,
      PHDUDPDESTPORT, PHDUDPCHECKSUM, PHDCONTEXT_TDES0, PHDCONTEXT_TDES1, PHDCONTEXT_TDES2,
      PHDCONTEXT_TDES3, PHDNORMAL_TDES1, PHDNORMAL_TDES2, PHDNORMAL_TDES3, PHDNORMAL_RDES1,
      PHDNORMAL_RDES2, PHDNORMAL_RDES3, PHDSRAM_RMC, PHDMACTYPEIPV6RECV]"

definition bxroce_read_phd :: "env \<Rightarrow> kern \<Rightarrow> int \<times> kern" where
  "bxroce_read_phd E s =
     (0, fold (\<lambda>base. fold (\<lambda>off s. snd (bxroce_mpb_reg_read E base off s)) phd_read_regs)
           [PHD_BASE_0, PHD_BASE_1] s)"

definition bxroce_get_hwinfo :: "env \<Rightarrow> kern \<Rightarrow> int \<times> kern" where
  "bxroce_get_hwinfo E s =
     (let (status, s) = bxroce_read_phd E s in if status \<noteq> 0 then (status, s) else (0, s))"

section \<open>Connection manager, packet generation unit\<close>

definition bxroce_init_cm :: "kern \<Rightarrow> int \<times> kern" where
  "bxroce_init_cm s =
     (let s = bxroce_mpb_reg_write CM_CFG CMLOGEN 0x7 s;
          s = bxroce_mpb_reg_write CM_CFG CMERREN 0x7 s;
          s = bxroce_mpb_reg_write CM_CFG CMINTEN 0x7 s
      in (0, s))"

definition bxroce_init_tlb :: "env \<Rightarrow> kern \<Rightarrow> kern option" where
  "bxroce_init_tlb E s = poll_busy E PGU_BASE TLBINIT 0x1 s"

text \<open>The number of queue pairs, \<open>1 << QPNUM\<close>, and the loops over them.\<close>

definition qp_count :: nat where "qp_count = 1024"

definition qp_entry_writes :: "u32 \<Rightarrow> (u32 \<times> u32) list" where
  "qp_entry_writes i =
     [(QPLISTREADQPN, i), (WPFORQPLIST, 0x0), (WPFORQPLIST2, 0x0), (RPFORQPLIST, 0x0),
      (RPFORQPLIST2, 0x0), (QPNANDVALID, 0x0), (QPNANDVALID2, 0x0), (WRITEORREADQPLIST, 0x1),
      (WRITEQPLISTMASK, 0x7), (QPLISTWRITEQPN, 0x1), (WRITEORREADQPLIST, 0x0)]"

definition bxroce_init_pgu_wqe :: "env \<Rightarrow> dev_info \<Rightarrow> kern \<Rightarrow> (int \<times> kern) option" where
  "bxroce_init_pgu_wqe E d s = do {
     let (regval, s) = pgu_read E TLBINIT s;
     let s = pgu_write TLBINIT (set_field regval 31 0 (macaddr_l (di_mac d))) s;
     let (regval, s) = pgu_read E SOCKETID s;
     let s = pgu_write SOCKETID (set_field regval 15 0 (macaddr_h (di_mac d))) s;
     s \<leftarrow> bxroce_init_tlb E s;
     Some (0, fold (\<lambda>i. pgu_writes (qp_entry_writes (word_of_nat i))) [0..<qp_count] s)
   }"

text \<open>One ring of a queue pair: no memory yet, an upper bound of \<open>0x2000\<close>, and a wait.\<close>

definition init_ring :: "env \<Rightarrow> u32 \<Rightarrow> u32 \<Rightarrow> u32 \<Rightarrow> u32 \<Rightarrow> nat \<Rightarrow> kern \<Rightarrow> kern option" where
  "init_ring E up base ptr opreg i s =
     (let opv = push_bit 2 (word_of_nat i) + 0x3
      in poll_busy E PGU_BASE opreg opv
           (pgu_writes [(up, 0x2000), (up + 0x4, 0), (base, 0), (base + 0x4, 0),
              (ptr, 0), (ptr + 0x4, 0), (opreg, opv)] s))"

fun ring_loop :: "(nat \<Rightarrow> kern \<Rightarrow> kern option) \<Rightarrow> nat list \<Rightarrow> kern \<Rightarrow> kern option" where
  "ring_loop f [] s = Some s"
| "ring_loop f (i # is) s = do { s \<leftarrow> f i s; ring_loop f is s }"

definition bxroce_init_pgu_cq :: "env \<Rightarrow> kern \<Rightarrow> (int \<times> kern) option" where
  "bxroce_init_pgu_cq E s = do {
     s \<leftarrow> ring_loop (init_ring E CQQUEUEUP CQQUEUEDOWN CQREADPTR CQESIZE) [0..<qp_count] s;
     s \<leftarrow> ring_loop (init_ring E RxUpAddrCQE RxBaseAddrCQE RxCQEWP RxCQEOp) [0..<qp_count] s;
     s \<leftarrow> ring_loop (init_ring E XmitUpAddrCQE XmitBaseAddrCQE XmitCQEWP XmitCQEOp) [0..<qp_count] s;
     let s = pgu_writes [(0x205c, 0x0), (0x2060, 0x0), (0x2064, 0x0), (0x2068, 0x0),
       (WQERETRYCOUNT, 0xffffffff), (WQERETRYTIMER, 0xffffffff), (WQERETRYTIMER + 0x4, 0xff),
       (INTRMASK, 0x7ffff), (UPLINKDOWNLINK, 0x00800400), (GENRSP, 0x01f9f3c), (CFGRNR, 0x04010041)] s;
     Some (0, s)
   }"

text \<open>
  \<open>bxroce_init_qp\<close> and \<open>bxroce_init_pbu\<close> end without a return statement, though their result is
  used; \<open>junk\<close> is what the caller finds in its place.
\<close>

definition bxroce_init_qp :: "env \<Rightarrow> int \<Rightarrow> kern \<Rightarrow> int \<times> kern" where
  "bxroce_init_qp E junk s =
     (junk, fold (\<lambda>off s. snd (pgu_read E off s))
        [SOCKETID, TLBINIT, WQERETRYCOUNT, WQERETRYTIMER, WQERETRYTIMER + 0x4] s)"

definition bxroce_init_pbu :: "env \<Rightarrow> int \<Rightarrow> kern \<Rightarrow> (int \<times> kern) option" where
  "bxroce_init_pbu E junk s = do { s \<leftarrow> pbu_init E s; Some (junk, s) }"

section \<open>The RDMA channel of the MAC\<close>

abbreviation rdma_mtl :: "u32 \<Rightarrow> u32" where "rdma_mtl reg \<equiv> mtl_reg 6 reg"
abbreviation rdma_dma :: "u32 \<Rightarrow> u32" where "rdma_dma reg \<equiv> dma_reg 6 reg"

text \<open>Not called. The address is stored byte by byte, which makes words on a little-endian machine.\<close>

definition mac_config_mpb_mac :: "env \<Rightarrow> dev_info \<Rightarrow> kern \<Rightarrow> kern" where
  "mac_config_mpb_mac E d s =
     (case dev_addr d of
        None \<Rightarrow> s
      | Some haddr \<Rightarrow>
          (let hi = MAC_SET_REG_BITS (macaddr_h haddr) MAC_MACA1HR_AE 1
                      OR (push_bit 16 MAC_DMA_CHANNEL_ID_FOR_MPB AND 0x00ff0000);
               reg = MAC_MACA1HR + MAC_MACA_INC * 2 * (MAC_DMA_CHANNEL_ID_FOR_MPB - 1);
               s = mwrite reg hi s;
               s = mwrite (reg + MAC_MACA_INC) (macaddr_l haddr) s
           in mreads E [reg, reg + MAC_MACA_INC] s))"

text \<open>\<open>while (--count && regval) usleep_range(500, 600);\<close> The flag is not read again in the loop.\<close>

fun flush_wait :: "nat \<Rightarrow> u32 \<Rightarrow> nat" where
  "flush_wait count regval =
     (if count - 1 \<noteq> 0 \<and> regval \<noteq> 0 then flush_wait (count - 1) regval else count - 1)"

definition mac_mpb_flush_tx_queues :: "env \<Rightarrow> kern \<Rightarrow> int \<times> kern" where
  "mac_mpb_flush_tx_queues E s =
     (let s = mset E (rdma_mtl MTL_Q_TQOMR) [(MTL_Q_TQOMR_FTQ, 1)] s;
          (regval, s) = mread E (rdma_mtl MTL_Q_TQOMR) s
      in if flush_wait 2000 (MAC_GET_REG_BITS regval MTL_Q_TQOMR_FTQ) = 0 then (- EBUSY, s) else (0, s))"

definition mac_mpb_config_osp_mode :: "env \<Rightarrow> dev_info \<Rightarrow> kern \<Rightarrow> kern" where
  "mac_mpb_config_osp_mode E d = mset E (rdma_dma DMA_CH_TCR) [(DMA_CH_TCR_OSP, tx_osp_mode d)]"

definition mac_mpb_config_dis_tcp_ef_off :: "env \<Rightarrow> kern \<Rightarrow> kern" where
  "mac_mpb_config_dis_tcp_ef_off E = mset E (rdma_mtl MTL_Q_RQOMR) [(MTL_Q_RQ0MR_DIS_TCP_EF, 1)]"

definition mac_rdma_config_pblx8 :: "env \<Rightarrow> dev_info \<Rightarrow> kern \<Rightarrow> kern" where
  "mac_rdma_config_pblx8 E d = mset E (rdma_dma DMA_CH_CR) [(DMA_CH_CR_PBLX8, pblx8 d)]"

definition mac_rdma_config_tx_pbl_val :: "env \<Rightarrow> dev_info \<Rightarrow> kern \<Rightarrow> kern" where
  "mac_rdma_config_tx_pbl_val E d = mset E (rdma_dma DMA_CH_TCR) [(DMA_CH_TCR_PBL, tx_pbl d)]"

definition mac_rdma_config_rx_pbl_val :: "env \<Rightarrow> dev_info \<Rightarrow> kern \<Rightarrow> kern" where
  "mac_rdma_config_rx_pbl_val E d = mset E (rdma_dma DMA_CH_RCR) [(DMA_CH_RCR_PBL, rx_pbl d)]"

definition mac_rdma_config_rx_coalesce :: "env \<Rightarrow> dev_info \<Rightarrow> kern \<Rightarrow> kern" where
  "mac_rdma_config_rx_coalesce E d = mset E (rdma_dma DMA_CH_RIWT) [(DMA_CH_RIWT_RWT, rx_riwt d)]"

definition mac_rdma_config_rx_buffer_size :: "env \<Rightarrow> kern \<Rightarrow> kern" where
  "mac_rdma_config_rx_buffer_size E = mset E (rdma_dma DMA_CH_RCR) [(DMA_CH_RCR_RBSZ, 0x3ff0)]"

definition mac_rdma_config_tso_mode :: "env \<Rightarrow> dev_info \<Rightarrow> kern \<Rightarrow> kern" where
  "mac_rdma_config_tso_mode E d s =
     (if feat_tso d then mset E (rdma_dma DMA_CH_TCR) [(DMA_CH_TCR_TSE, 0)] s else s)"

definition mac_rdma_config_sph_mode :: "env \<Rightarrow> kern \<Rightarrow> kern" where
  "mac_rdma_config_sph_mode E = mset E (rdma_dma DMA_CH_CR) [(DMA_CH_CR_SPH, 0)]"

definition mpb_base_addr_h :: "nat \<Rightarrow> u32" where
  "mpb_base_addr_h mac_id =
     (if mac_id = 0 then RNIC_BASE_ADDR_MPB_DATA_S_0_H else RNIC_BASE_ADDR_MPB_DATA_S_1_H)"

definition mac_rdma_tx_desc_init :: "nat \<Rightarrow> kern \<Rightarrow> kern" where
  "mac_rdma_tx_desc_init mac_id =
     mwrites [(rdma_dma DMA_CH_TDRLR, 0x3ff), (rdma_dma DMA_CH_TDLR_HI, mpb_base_addr_h mac_id),
       (rdma_dma DMA_CH_TDLR_LO, 0), (rdma_dma DMA_CH_TDTR_LO, 0),
       (rdma_dma DMA_CH_TDTR_HI, mpb_base_addr_h mac_id)]"

definition mac_rdma_rx_desc_init :: "nat \<Rightarrow> kern \<Rightarrow> kern" where
  "mac_rdma_rx_desc_init mac_id =
     mwrites [(rdma_dma DMA_CH_RDRLR, 0x3ff), (rdma_dma DMA_CH_RDLR_HI, 1 + mpb_base_addr_h mac_id),
       (rdma_dma DMA_CH_RDLR_LO, 0), (rdma_dma DMA_CH_RDTR_LO, 0),
       (rdma_dma DMA_CH_RDTR_HI, 1 + mpb_base_addr_h mac_id)]"

definition mac_rdma_enable_dma_interrupts :: "env \<Rightarrow> kern \<Rightarrow> kern" where
  "mac_rdma_enable_dma_interrupts E s =
     (let (dma_ch_isr, s) = mread E (rdma_dma DMA_CH_SR) s;
          s = mwrite (rdma_dma DMA_CH_SR) dma_ch_isr s
      in mwrite (rdma_dma DMA_CH_IER) 0 s)"

definition mac_rdma_config_tsf_mode :: "env \<Rightarrow> u32 \<Rightarrow> kern \<Rightarrow> kern" where
  "mac_rdma_config_tsf_mode E val = mset E (rdma_mtl MTL_Q_TQOMR) [(MTL_Q_TQOMR_TSF, val)]"

definition mac_rdma_config_rsf_mode :: "env \<Rightarrow> u32 \<Rightarrow> kern \<Rightarrow> kern" where
  "mac_rdma_config_rsf_mode E val = mset E (rdma_mtl MTL_Q_RQOMR) [(MTL_Q_RQOMR_RSF, val)]"

definition mac_rdma_config_tx_threshold :: "env \<Rightarrow> u32 \<Rightarrow> kern \<Rightarrow> kern" where
  "mac_rdma_config_tx_threshold E val = mset E (rdma_mtl MTL_Q_TQOMR) [(MTL_Q_TQOMR_TTC, val)]"

definition mac_rdma_config_rx_threshold :: "env \<Rightarrow> u32 \<Rightarrow> kern \<Rightarrow> kern" where
  "mac_rdma_config_rx_threshold E val = mset E (rdma_mtl MTL_Q_RQOMR) [(MTL_Q_RQOMR_RTC, val)]"

definition mac_rdma_config_tx_fifo_size :: "env \<Rightarrow> kern \<Rightarrow> kern" where
  "mac_rdma_config_tx_fifo_size E = mset E (rdma_mtl MTL_Q_TQOMR) [(MTL_Q_TQOMR_TQS, 0x3f)]"

definition mac_rdma_config_rx_fifo_size :: "env \<Rightarrow> kern \<Rightarrow> kern" where
  "mac_rdma_config_rx_fifo_size E = mset E (rdma_mtl MTL_Q_RQOMR) [(MTL_Q_RQOMR_RQS, 0xff)]"

definition mac_rdma_config_flow_control_threshold :: "env \<Rightarrow> kern \<Rightarrow> kern" where
  "mac_rdma_config_flow_control_threshold E =
     mset E (rdma_mtl MTL_Q_RQFCR) [(MTL_Q_RQFCR_RFA, 30), (MTL_Q_RQFCR_RFD, 14)]"

definition mac_rdma_config_rx_fep_enable :: "env \<Rightarrow> kern \<Rightarrow> kern" where
  "mac_rdma_config_rx_fep_enable E = mset E (rdma_mtl MTL_Q_RQOMR) [(MTL_Q_RQOMR_FEP, 1)]"

definition mac_rdma_config_q2tcmap :: "env \<Rightarrow> kern \<Rightarrow> kern" where
  "mac_rdma_config_q2tcmap E = mset E (rdma_mtl MTL_Q_TQOMR) [(MTL_Q_TQOMR_Q2TCMAP, RDMA_CHANNEL)]"

definition mac_rdma_enable_mtl_interrupts :: "env \<Rightarrow> kern \<Rightarrow> kern" where
  "mac_rdma_enable_mtl_interrupts E s =
     (let (mtl_q_isr, s) = mread E (rdma_mtl MTL_Q_ISR) s;
          s = mwrite (rdma_mtl MTL_Q_ISR) mtl_q_isr s;
          s = mwrite (rdma_mtl MTL_Q_IER) 0 s
      in mset E (rdma_mtl MTL_Q_IER) [(MTL_Q_IER_RXOIE, 1)] s)"

definition mac_rdma_disable_tx_flow_control :: "env \<Rightarrow> kern \<Rightarrow> kern" where
  "mac_rdma_disable_tx_flow_control E s =
     (let s = mset E (rdma_mtl MTL_Q_RQOMR) [(MTL_Q_RQOMR_EHFC, 0)] s
      in mset E (MAC_Q0TFCR + MAC_QTFCR_INC * RDMA_CHANNEL) [(MAC_Q0TFCR_TFE, 0)] s)"

definition mac_rdma_enable_tx_flow_control :: "env \<Rightarrow> kern \<Rightarrow> kern" where
  "mac_rdma_enable_tx_flow_control E s =
     (let s = mset E (rdma_mtl MTL_Q_RQOMR) [(MTL_Q_RQOMR_EHFC, 1)] s
      in mwrite (MAC_Q0TFCR + MAC_QTFCR_INC * RDMA_CHANNEL) 0x00800012 s)"

definition mac_rdma_config_tx_flow_control :: "env \<Rightarrow> kern \<Rightarrow> kern" where
  "mac_rdma_config_tx_flow_control E s =
     (let enable_fw = True
      in if enable_fw then mac_rdma_enable_tx_flow_control E s else mac_rdma_disable_tx_flow_control E s)"

definition mac_rdma_config_flow_control :: "env \<Rightarrow> kern \<Rightarrow> kern" where
  "mac_rdma_config_flow_control E = mac_rdma_config_tx_flow_control E"

definition mac_rdma_config_mtl_tc_quantum_weight :: "env \<Rightarrow> kern \<Rightarrow> kern" where
  "mac_rdma_config_mtl_tc_quantum_weight E = mset E (rdma_mtl MTL_Q_QWR) [(MTL_Q_QWR_QW, 0xa)]"

section \<open>The packet filter\<close>

text \<open>
  The filter registers are behind a control register (\<open>0x0c00\<close>) and a data register (\<open>0x0c04\<close>);
  bit 0 of the first is set to start an access and clear when it is over.
\<close>

partial_function (option) rdma_mac_wait :: "env \<Rightarrow> u32 \<Rightarrow> kern \<Rightarrow> (u32 \<times> kern) option" where
  "rdma_mac_wait E data s =
     (if get_field data 0 0 = 1
      then rdma_mac_wait E (fst (mread E 0x0c00 s)) (snd (mread E 0x0c00 s))
      else Some (data, s))"

definition mac_rdma_l3_l4_filter_cfg_reg_read :: "env \<Rightarrow> u32 \<Rightarrow> kern \<Rightarrow> (u32 \<times> kern) option" where
  "mac_rdma_l3_l4_filter_cfg_reg_read E addr s = do {
     let (data, s) = mread E 0x0c00 s;
     (data, s) \<leftarrow> rdma_mac_wait E data s;
     let data = set_field (set_field (set_field data 15 8 addr) 1 1 1) 0 0 1;
     let s = mwrite 0x0c00 data s;
     let (data, s) = mread E 0x0c00 s;
     (data, s) \<leftarrow> rdma_mac_wait E data s;
     Some (mread E 0x0c04 s)
   }"

definition mac_rdma_l3_l4_filter_cfg_reg_write :: "env \<Rightarrow> u32 \<Rightarrow> u32 \<Rightarrow> kern \<Rightarrow> kern option" where
  "mac_rdma_l3_l4_filter_cfg_reg_write E addr wdata s = do {
     let (data, s) = mread E 0x0c00 s;
     (data, s) \<leftarrow> rdma_mac_wait E data s;
     let s = mwrite 0x0c04 wdata s;
     let (data, s) = mread E 0x0c00 s;
     (data, s) \<leftarrow> rdma_mac_wait E data s;
     let data = set_field (set_field (set_field data 15 8 addr) 1 1 0) 0 0 1;
     Some (mwrite 0x0c00 data s)
   }"

definition mac_rdma_channel_mpb_l3_l4_filter_on :: "env \<Rightarrow> kern \<Rightarrow> kern option" where
  "mac_rdma_channel_mpb_l3_l4_filter_on E s = do {
     (data, s) \<leftarrow> mac_rdma_l3_l4_filter_cfg_reg_read E 0x0 s;
     let data = set_field (set_field (set_field (set_field data 31 31 1) 27 24 RDMA_CHANNEL) 20 20 1) 16 16 1;
     s \<leftarrow> mac_rdma_l3_l4_filter_cfg_reg_write E 0x0 data s;
     mac_rdma_l3_l4_filter_cfg_reg_write E 0x1 (push_bit 16 4791) s
   }"

section \<open>Switching on\<close>

text \<open>\<open>mac_config_loopback\<close> and \<open>mac_rdma_config_rqec\<close> are not called.\<close>

definition mac_config_loopback :: "env \<Rightarrow> kern \<Rightarrow> kern" where
  "mac_config_loopback E = mset E MAC_RCR [(MAC_RCR_LM, 0)]"

definition mac_rdma_config_rqec :: "env \<Rightarrow> kern \<Rightarrow> kern" where
  "mac_rdma_config_rqec E s =
     (let (regval, s) = mread E MAC_RQEC s
      in mwrite MAC_RQEC (regval OR push_bit (6 * 2) 0x02) s)"

definition mac_rdma_enable_tx :: "env \<Rightarrow> kern \<Rightarrow> kern" where
  "mac_rdma_enable_tx E s =
     (let s = mset E (rdma_dma DMA_CH_TCR) [(DMA_CH_TCR_ST, 1)] s
      in mset E (rdma_mtl MTL_Q_TQOMR) [(MTL_Q_TQOMR_TXQEN, MTL_Q_ENABLED)] s)"

definition mac_rdma_enable_rx :: "env \<Rightarrow> kern \<Rightarrow> kern" where
  "mac_rdma_enable_rx E s =
     (let s = mset E (rdma_dma DMA_CH_RCR) [(DMA_CH_RCR_SR, 1)] s;
          (regval, s) = mread E MAC_RQEC s
      in mwrite MAC_RQEC (regval OR push_bit (6 * 2) 0x02) s)"

definition mac_rdma_print_regval :: "env \<Rightarrow> kern \<Rightarrow> kern option" where
  "mac_rdma_print_regval E s = do {
     let s = mutex_lock Hw_lock s;
     let s = mreads E [rdma_mtl MTL_Q_TQOMR, rdma_mtl MTL_Q_RQOMR, rdma_mtl MTL_Q_RQFCR,
       rdma_mtl MTL_Q_ISR, rdma_mtl MTL_Q_IER, rdma_mtl MTL_Q_QWR, rdma_dma DMA_CH_TCR,
       rdma_dma DMA_CH_CR, rdma_dma DMA_CH_RCR, rdma_dma DMA_CH_RIWT, rdma_dma DMA_CH_TDRLR,
       rdma_dma DMA_CH_TDLR_HI, rdma_dma DMA_CH_TDLR_LO, rdma_dma DMA_CH_TDTR_LO,
       rdma_dma DMA_CH_RDRLR, rdma_dma DMA_CH_RDLR_HI, rdma_dma DMA_CH_RDLR_LO,
       rdma_dma DMA_CH_RDTR_LO, rdma_dma DMA_CH_SR, rdma_dma DMA_CH_IER] s;
     (regval, s) \<leftarrow> mac_rdma_l3_l4_filter_cfg_reg_read E 0x0 s;
     (regval, s) \<leftarrow> mac_rdma_l3_l4_filter_cfg_reg_read E 0x1 s;
     Some (mutex_unlock Hw_lock (mreads E [MAC_RQEC, MAC_RCR] s))
   }"

text \<open>The steps after the flush, up to the filter.\<close>

definition channel_config :: "env \<Rightarrow> dev_info \<Rightarrow> kern \<Rightarrow> kern" where
  "channel_config E d s =
     (let s = mac_mpb_config_osp_mode E d s;
          s = mac_rdma_config_pblx8 E d s;
          s = mac_rdma_config_tx_pbl_val E d s;
          s = mac_rdma_config_rx_pbl_val E d s;
          s = mac_rdma_config_rx_coalesce E d s;
          s = mac_rdma_config_rx_buffer_size E s;
          s = mac_rdma_config_tso_mode E d s;
          s = mac_rdma_config_sph_mode E s;
          s = mac_mpb_config_dis_tcp_ef_off E s;
          s = mac_rdma_tx_desc_init 0 s;
          s = mac_rdma_rx_desc_init 0 s;
          s = mac_rdma_enable_dma_interrupts E s;
          s = mac_rdma_config_tsf_mode E 1 s;
          s = mac_rdma_config_rsf_mode E 1 s;
          s = mac_rdma_config_tx_threshold E 0x0 s;
          s = mac_rdma_config_rx_threshold E 0x0 s;
          s = mac_rdma_config_tx_fifo_size E s;
          s = mac_rdma_config_rx_fifo_size E s;
          s = mac_rdma_config_flow_control_threshold E s;
          s = mac_rdma_config_rx_fep_enable E s;
          s = mac_rdma_config_q2tcmap E s;
          s = mac_rdma_enable_mtl_interrupts E s;
          s = mac_rdma_config_flow_control E s
      in mac_rdma_config_mtl_tc_quantum_weight E s)"

definition bxroce_init_mac_channel :: "env \<Rightarrow> dev_info \<Rightarrow> kern \<Rightarrow> (int \<times> kern) option" where
  "bxroce_init_mac_channel E d s = do {
     let (regval, s) = mac_mpb_flush_tx_queues E s;
     if regval \<noteq> 0 then Some (regval, s)
     else do {
       let s = channel_config E d s;
       s \<leftarrow> mac_rdma_channel_mpb_l3_l4_filter_on E s;
       let s = mac_rdma_enable_tx E s;
       let s = mac_rdma_enable_rx E s;
       Some (0, s)
     }
   }"

section \<open>The whole initialisation\<close>

text \<open>
  \<open>junk_pbu\<close> and \<open>junk_qp\<close> are the values of the two missing results. Each step is given the state
  and returns a status; the first status that is not 0 ends the function.
\<close>

definition bxroce_init_hw :: "env \<Rightarrow> dev_info \<Rightarrow> int \<Rightarrow> int \<Rightarrow> dev_attr \<Rightarrow> kern \<Rightarrow>
    (int \<times> dev_attr \<times> kern) option" where
  "bxroce_init_hw E d junk_pbu junk_qp a s = do {
     (status, s) \<leftarrow> bxroce_init_mac_channel E d s;
     if status \<noteq> 0 then Some (status, a, s) else do {
     let (status, s) = bxroce_init_cm s;
     if status \<noteq> 0 then Some (status, a, s) else do {
     let (status, s) = bxroce_init_phd E d s;
     if status \<noteq> 0 then Some (status, a, s) else do {
     (status, s) \<leftarrow> bxroce_init_pbu E junk_pbu s;
     if status \<noteq> 0 then Some (status, a, s) else do {
     (status, s) \<leftarrow> bxroce_init_pgu_wqe E d s;
     if status \<noteq> 0 then Some (status, a, s) else do {
     (status, s) \<leftarrow> bxroce_init_pgu_cq E s;
     if status \<noteq> 0 then Some (status, a, s) else do {
     let (status, s) = bxroce_init_qp E junk_qp s;
     if status \<noteq> 0 then Some (status, a, s) else do {
     let (status, a) = bxroce_init_dev_attr (di_mac d) (di_vendor d) (di_device d);
     if status \<noteq> 0 then Some (status, a, s) else Some (0, a, s)
   }}}}}}}}"

end
