(* ===== verification/Hw_Correct.thy ===== *)
theory Hw_Correct
  imports Hw_init Qp_Correct
begin

text \<open>
  Bringing the card up: it returns on every card that answers its polls, what decides its status,
  and how the registers of the RDMA channel stand afterwards.
\<close>

section \<open>The flush of the transmit queue\<close>

lemma flush_wait_eq: "flush_wait n regval = (if regval \<noteq> 0 then 0 else n - 1)"
proof (induction n regval rule: flush_wait.induct)
  case (1 n regval)
  then show ?case by (subst flush_wait.simps) (simp del: flush_wait.simps)
qed

declare flush_wait.simps [simp del]

abbreviation TQ :: u32 where "TQ \<equiv> mtl_reg 6 0"

text \<open>The state in which the flag is read, and its value.\<close>

definition flush_started :: "env \<Rightarrow> kern \<Rightarrow> kern" where
  "flush_started E s = mset E TQ [((0, 1), 1)] s"

definition flush_pending :: "env \<Rightarrow> kern \<Rightarrow> bool" where
  "flush_pending E s \<longleftrightarrow> bit (fst (mread E TQ (flush_started E s))) 0"

lemma flag_zero_iff: "MAC_GET_REG_BITS v (0, Suc 0) = 0 \<longleftrightarrow> \<not> bit v 0"
proof
  assume "MAC_GET_REG_BITS v (0, Suc 0) = 0"
  then show "\<not> bit v 0" using bit_MAC_GET [of v "(0, Suc 0)" 0] by simp
next
  assume "\<not> bit v 0"
  then show "MAC_GET_REG_BITS v (0, Suc 0) = 0"
    by (intro word_eqI_bits) (auto simp: bit_MAC_GET)
qed

lemma flush_eq: "mac_mpb_flush_tx_queues E s =
    (if flush_pending E s then - EBUSY else 0, snd (mread E TQ (flush_started E s)))"
  by (simp add: mac_mpb_flush_tx_queues_def flush_wait_eq flush_pending_def flush_started_def
      Let_def split_def flag_zero_iff)

section \<open>Cards that answer\<close>

text \<open>The value of the k-th of a run of reads of the filter's control register.\<close>

fun filter_read :: "env \<Rightarrow> nat \<Rightarrow> kern \<Rightarrow> u32" where
  "filter_read E 0 s = fst (mread E 0x0c00 s)"
| "filter_read E (Suc k) s = filter_read E k (snd (mread E 0x0c00 s))"

lemma busy_bit: "get_field v 0 0 = (1 :: u32) \<longleftrightarrow> bit v 0"
proof -
  have "get_field v 0 0 = (if bit v 0 then 1 else 0 :: u32)"
    by (rule word_eqI_bits) (auto simp: bit_get_field bit_1_iff)
  then show ?thesis by simp
qed

lemma rdma_mac_wait_returns:
  assumes "\<not> bit (filter_read E k s) 0"
  shows "\<exists>d s'. rdma_mac_wait E data s = Some (d, s') \<and> io_only s s'"
  using assms
proof (induction k arbitrary: data s)
  case 0
  then have "rdma_mac_wait E (fst (mread E 0x0c00 s)) (snd (mread E 0x0c00 s)) =
      Some (fst (mread E 0x0c00 s), snd (mread E 0x0c00 s))"
    by (subst rdma_mac_wait.simps) (simp add: busy_bit)
  then show ?case
    using io_only_mread [of s E "0x0c00"] by (subst rdma_mac_wait.simps) (metis io_only_refl)
next
  case (Suc k)
  obtain d s' where "rdma_mac_wait E (fst (mread E 0x0c00 s)) (snd (mread E 0x0c00 s)) = Some (d, s')"
    and "io_only (snd (mread E 0x0c00 s)) s'" using Suc.IH Suc.prems by fastforce
  then show ?case by (subst rdma_mac_wait.simps) (auto intro: io_only_trans [OF io_only_mread])
qed

section \<open>Accesses only\<close>

lemmas chan_defs = mac_mpb_config_osp_mode_def mac_rdma_config_pblx8_def mac_rdma_config_tx_pbl_val_def
  mac_rdma_config_rx_pbl_val_def mac_rdma_config_rx_coalesce_def mac_rdma_config_rx_buffer_size_def
  mac_rdma_config_tso_mode_def mac_rdma_config_sph_mode_def mac_mpb_config_dis_tcp_ef_off_def
  mac_rdma_tx_desc_init_def mac_rdma_rx_desc_init_def mac_rdma_config_tsf_mode_def
  mac_rdma_config_rsf_mode_def mac_rdma_config_tx_threshold_def mac_rdma_config_rx_threshold_def
  mac_rdma_config_tx_fifo_size_def mac_rdma_config_rx_fifo_size_def
  mac_rdma_config_flow_control_threshold_def mac_rdma_config_rx_fep_enable_def
  mac_rdma_config_q2tcmap_def mac_rdma_config_mtl_tc_quantum_weight_def

lemma io_cm: "fst (bxroce_init_cm s) = 0" "io_only s (snd (bxroce_init_cm s))"
  by (auto simp: bxroce_init_cm_def io_only_def Let_def)

lemma io_phd: "fst (bxroce_init_phd E d s) = 0" "io_only s (snd (bxroce_init_phd E d s))"
  by (auto simp: bxroce_init_phd_def phd_txdesc_init_def phd_rxdesc_init_def phd_context_tdes3_init_def
      phd_mac_init_def phd_ipv4_init_def phd_start_def phd_write_def io_only_def Let_def
      split: option.splits)

lemma io_fold: "(\<And>x t. io_only t (f x t)) \<Longrightarrow> io_only s (fold f xs s)"
  by (induction xs arbitrary: s) (auto intro: io_only_trans)

lemma io_dma_interrupts: "io_only s (mac_rdma_enable_dma_interrupts E s)"
  unfolding mac_rdma_enable_dma_interrupts_def Let_def split_def
  by (meson io_only_trans io_only_mread io_only_mwrite)

lemma io_mtl_interrupts: "io_only s (mac_rdma_enable_mtl_interrupts E s)"
  unfolding mac_rdma_enable_mtl_interrupts_def Let_def split_def
  by (meson io_only_trans io_only_mread io_only_mwrite io_only_mset)

lemma io_flow_control: "io_only s (mac_rdma_config_flow_control E s)"
  unfolding mac_rdma_config_flow_control_def mac_rdma_config_tx_flow_control_def
    mac_rdma_enable_tx_flow_control_def Let_def if_True
  by (meson io_only_trans io_only_mwrite io_only_mset)

lemma io_config: "io_only s (channel_config E d s)"
proof -
  have step: "\<And>t a fs. io_only s t \<Longrightarrow> io_only s (mset E a fs t)"
      "\<And>t ws. io_only s t \<Longrightarrow> io_only s (mwrites ws t)"
      "\<And>t. io_only s t \<Longrightarrow> io_only s (mac_rdma_enable_dma_interrupts E t)"
      "\<And>t. io_only s t \<Longrightarrow> io_only s (mac_rdma_enable_mtl_interrupts E t)"
      "\<And>t. io_only s t \<Longrightarrow> io_only s (mac_rdma_config_flow_control E t)"
    using io_only_trans io_only_mset io_only_mwrites io_dma_interrupts io_mtl_interrupts io_flow_control
    by blast+
  have tso: "\<And>t. io_only s t \<Longrightarrow> io_only s (if feat_tso d then mset E (rdma_dma DMA_CH_TCR) [(DMA_CH_TCR_TSE, 0)] t else t)"
    using step(1) by simp
  show ?thesis unfolding channel_config_def chan_defs Let_def
    by (intro step tso io_only_refl)
qed

lemma io_enable: "io_only s (mac_rdma_enable_rx E (mac_rdma_enable_tx E s))"
  unfolding mac_rdma_enable_rx_def mac_rdma_enable_tx_def Let_def split_def
  by (meson io_only_trans io_only_mread io_only_mwrite io_only_mset)

lemma io_flush: "io_only s (snd (mac_mpb_flush_tx_queues E s))"
  unfolding flush_eq flush_started_def snd_conv by (rule io_only_trans [OF io_only_mset io_only_mread])

lemma io_pbu: "\<exists>s'. bxroce_init_pbu E j s = Some (j, s') \<and> io_only s s'"
proof -
  have step: "\<And>a v t. io_only s t \<Longrightarrow> io_only s (snd (pbu_reg_read E a (pbu_reg_write a v t)))"
    by (meson io_only_trans io_only_pbu_read io_only_pbu_write)
  show ?thesis
    by (simp add: bxroce_init_pbu_def pbu_init_def pbu_init_mtu_reg_def pbu_set_general_reg_def
        set_bits_in_range step)
qed

lemma io_qp: "fst (bxroce_init_qp E j s) = j" "io_only s (snd (bxroce_init_qp E j s))"
  unfolding bxroce_init_qp_def fst_conv snd_conv by (rule refl, rule io_fold, rule io_only_read)

text \<open>What the initialisation reports, given the two results that are missing.\<close>

definition init_status :: "env \<Rightarrow> int \<Rightarrow> int \<Rightarrow> kern \<Rightarrow> int" where
  "init_status E jp jq s = (if flush_pending E s then - EBUSY else if jp \<noteq> 0 then jp else jq)"

text \<open>
  A card on which every wait of the initialisation ends: the bit it waits for is some day read
  clear, in every state.
\<close>

locale answering_card =
  fixes E :: env
  assumes window: "off \<in> {TLBINIT, CQESIZE, RxCQEOp, XmitCQEOp} \<Longrightarrow>
      \<exists>k. \<not> bit (fst (poll_read E PGU_BASE off k s)) 0"
    and filter: "\<exists>k. \<not> bit (filter_read E k s) 0"
begin

lemma poll_ok:
  assumes "off \<in> {TLBINIT, CQESIZE, RxCQEOp, XmitCQEOp}"
  shows "\<exists>s'. poll_busy E PGU_BASE off opv s = Some s' \<and> io_only s s'"
proof -
  obtain k where "\<not> bit (fst (poll_read E PGU_BASE off k s)) 0" using window [OF assms] by blast
  then obtain s' where "poll_busy E PGU_BASE off opv s = Some s'" using poll_busy_returns by blast
  then show ?thesis using poll_busy_io by blast
qed

lemma init_ring_ok:
  assumes "off \<in> {CQESIZE, RxCQEOp, XmitCQEOp}"
  shows "\<exists>s'. init_ring E up base ptr off i s = Some s' \<and> io_only s s'"
proof -
  let ?v = "push_bit 2 (word_of_nat i) + 0x3"
  let ?t = "pgu_writes [(up, 0x2000), (up + 0x4, 0), (base, 0), (base + 0x4, 0),
      (ptr, 0), (ptr + 0x4, 0), (off, ?v)] s"
  obtain s' where "poll_busy E PGU_BASE off ?v ?t = Some s'" and "io_only ?t s'"
    using poll_ok [of off ?v ?t] assms by blast
  then show ?thesis
    unfolding init_ring_def Let_def using io_only_trans [OF io_only_writes] by blast
qed

lemma ring_loop_ok:
  assumes "off \<in> {CQESIZE, RxCQEOp, XmitCQEOp}"
  shows "\<exists>s'. ring_loop (init_ring E up base ptr off) is s = Some s' \<and> io_only s s'"
proof (induction "is" arbitrary: s)
  case (Cons i "is")
  obtain t where "init_ring E up base ptr off i s = Some t" and t: "io_only s t"
    using init_ring_ok [OF assms] by blast
  moreover obtain u where "ring_loop (init_ring E up base ptr off) is t = Some u" and "io_only t u"
    using Cons.IH by blast
  ultimately show ?case using io_only_trans [OF t] by simp
qed simp

lemma init_pgu_cq_ok: "\<exists>s'. bxroce_init_pgu_cq E s = Some (0, s') \<and> io_only s s'"
proof -
  obtain t where t: "ring_loop (init_ring E CQQUEUEUP CQQUEUEDOWN CQREADPTR CQESIZE) [0..<qp_count] s = Some t"
      "io_only s t" using ring_loop_ok by blast
  obtain u where u: "ring_loop (init_ring E RxUpAddrCQE RxBaseAddrCQE RxCQEWP RxCQEOp) [0..<qp_count] t = Some u"
      "io_only t u" using ring_loop_ok by blast
  obtain v where v: "ring_loop (init_ring E XmitUpAddrCQE XmitBaseAddrCQE XmitCQEWP XmitCQEOp) [0..<qp_count] u = Some v"
      "io_only u v" using ring_loop_ok by blast
  have "\<And>ws. io_only s (pgu_writes ws v)"
    using io_only_trans [OF t(2) io_only_trans [OF u(2) io_only_trans [OF v(2) io_only_writes]]] .
  then show ?thesis
    unfolding bxroce_init_pgu_cq_def by (simp only: t(1) u(1) v(1) Let_def Option.bind.simps) blast
qed

lemma wait_ok: "\<exists>d s'. rdma_mac_wait E data s = Some (d, s') \<and> io_only s s'"
  using filter [of s] rdma_mac_wait_returns by blast

lemma filter_reg_read_ok:
  "\<exists>d s'. mac_rdma_l3_l4_filter_cfg_reg_read E addr s = Some (d, s') \<and> io_only s s'"
proof -
  obtain d t where t: "rdma_mac_wait E (fst (mread E 0x0c00 s)) (snd (mread E 0x0c00 s)) = Some (d, t)"
      "io_only (snd (mread E 0x0c00 s)) t" using wait_ok by blast
  define u where "u = mwrite 0x0c00 (set_field (set_field (set_field d 15 8 addr) 1 1 1) 0 0 1) t"
  obtain e v where v: "rdma_mac_wait E (fst (mread E 0x0c00 u)) (snd (mread E 0x0c00 u)) = Some (e, v)"
      "io_only (snd (mread E 0x0c00 u)) v" using wait_ok by blast
  have "io_only s u"
    unfolding u_def by (rule io_only_trans [OF io_only_trans [OF io_only_mread t(2)] io_only_mwrite])
  then have "io_only s (snd (mread E 0x0c04 v))"
    by (meson io_only_trans io_only_mread v(2))
  moreover have "mac_rdma_l3_l4_filter_cfg_reg_read E addr s =
      Some (fst (mread E 0x0c04 v), snd (mread E 0x0c04 v))"
    unfolding mac_rdma_l3_l4_filter_cfg_reg_read_def
    using v(1) unfolding u_def by (simp add: Let_def split_def t(1))
  ultimately show ?thesis by blast
qed

lemma filter_reg_write_ok:
  "\<exists>s'. mac_rdma_l3_l4_filter_cfg_reg_write E addr w s = Some s' \<and> io_only s s'"
proof -
  obtain d t where t: "rdma_mac_wait E (fst (mread E 0x0c00 s)) (snd (mread E 0x0c00 s)) = Some (d, t)"
      "io_only (snd (mread E 0x0c00 s)) t" using wait_ok by blast
  define u where "u = mwrite 0x0c04 w t"
  obtain e v where v: "rdma_mac_wait E (fst (mread E 0x0c00 u)) (snd (mread E 0x0c00 u)) = Some (e, v)"
      "io_only (snd (mread E 0x0c00 u)) v" using wait_ok by blast
  have "io_only s u"
    unfolding u_def by (rule io_only_trans [OF io_only_trans [OF io_only_mread t(2)] io_only_mwrite])
  then have "io_only s (mwrite 0x0c00 (set_field (set_field (set_field e 15 8 addr) 1 1 0) 0 0 1) v)"
    by (meson io_only_trans io_only_mread io_only_mwrite v(2))
  then show ?thesis
    unfolding mac_rdma_l3_l4_filter_cfg_reg_write_def
    by (simp add: Let_def split_def t(1) v(1) u_def [symmetric])
qed

lemma filter_on_ok: "\<exists>s'. mac_rdma_channel_mpb_l3_l4_filter_on E s = Some s' \<and> io_only s s'"
proof -
  obtain d t where t: "mac_rdma_l3_l4_filter_cfg_reg_read E 0x0 s = Some (d, t)" "io_only s t"
    using filter_reg_read_ok by blast
  let ?d = "set_field (set_field (set_field (set_field d 31 31 1) 27 24 6) 20 20 1) 16 16 1"
  obtain u where u: "mac_rdma_l3_l4_filter_cfg_reg_write E 0x0 ?d t = Some u" "io_only t u"
    using filter_reg_write_ok by blast
  obtain v where v: "mac_rdma_l3_l4_filter_cfg_reg_write E 0x1 (push_bit 16 4791) u = Some v" "io_only u v"
    using filter_reg_write_ok by blast
  have "mac_rdma_channel_mpb_l3_l4_filter_on E s = Some v"
    unfolding mac_rdma_channel_mpb_l3_l4_filter_on_def using t(1) u(1) v(1) by simp
  then show ?thesis using io_only_trans [OF t(2) io_only_trans [OF u(2) v(2)]] by blast
qed

lemma mac_channel_ok:
  "\<exists>s'. bxroce_init_mac_channel E d s = Some (if flush_pending E s then - EBUSY else 0, s') \<and> io_only s s'"
proof (cases "flush_pending E s")
  case True
  then show ?thesis
    using io_flush [of s E] by (simp add: bxroce_init_mac_channel_def flush_eq)
next
  case False
  let ?t = "channel_config E d (snd (mac_mpb_flush_tx_queues E s))"
  obtain u where u: "mac_rdma_channel_mpb_l3_l4_filter_on E ?t = Some u" "io_only ?t u"
    using filter_on_ok by blast
  have "io_only s (mac_rdma_enable_rx E (mac_rdma_enable_tx E u))"
    by (rule io_only_trans [OF io_only_trans [OF io_only_trans [OF io_flush io_config] u(2)] io_enable])
  moreover have "bxroce_init_mac_channel E d s = Some (0, mac_rdma_enable_rx E (mac_rdma_enable_tx E u))"
    using False u(1) by (simp add: bxroce_init_mac_channel_def flush_eq)
  ultimately show ?thesis using False by simp
qed

lemma init_pgu_wqe_ok: "\<exists>s'. bxroce_init_pgu_wqe E d s = Some (0, s') \<and> io_only s s'"
proof -
  define t where "t = pgu_write TLBINIT (set_field (fst (pgu_read E TLBINIT s)) 31 0 (macaddr_l (di_mac d)))
      (snd (pgu_read E TLBINIT s))"
  define u where "u = pgu_write SOCKETID (set_field (fst (pgu_read E SOCKETID t)) 15 0 (macaddr_h (di_mac d)))
      (snd (pgu_read E SOCKETID t))"
  obtain v where v: "bxroce_init_tlb E u = Some v" "io_only u v"
    unfolding bxroce_init_tlb_def using poll_ok [of TLBINIT] by blast
  have "io_only s u" unfolding u_def t_def
    by (meson io_only_trans io_only_read io_only_write)
  then have "io_only s v" using v(2) io_only_trans by blast
  then have "io_only s (fold (\<lambda>i. pgu_writes (qp_entry_writes (word_of_nat i))) [0..<qp_count] v)"
    using io_fold [of "\<lambda>i. pgu_writes (qp_entry_writes (word_of_nat i))" v] io_only_writes io_only_trans by blast
  moreover have "bxroce_init_pgu_wqe E d s =
      Some (0, fold (\<lambda>i. pgu_writes (qp_entry_writes (word_of_nat i))) [0..<qp_count] v)"
    using v(1) unfolding bxroce_init_pgu_wqe_def u_def t_def by (simp add: split_def Let_def)
  ultimately show ?thesis by blast
qed

lemma init_hw_ok:
  "\<exists>a' s'. bxroce_init_hw E d jp jq a s = Some (init_status E jp jq s, a', s') \<and> io_only s s' \<and>
     (init_status E jp jq s = 0 \<longrightarrow> a' = snd (bxroce_query_device (di_mac d) (di_vendor d) (di_device d)))"
proof -
  obtain t where t: "bxroce_init_mac_channel E d s = Some (if flush_pending E s then - EBUSY else 0, t)"
      "io_only s t" using mac_channel_ok by blast
  define u where "u = snd (bxroce_init_phd E d (snd (bxroce_init_cm t)))"
  have u: "io_only s u" unfolding u_def
    by (rule io_only_trans [OF io_only_trans [OF t(2) io_cm(2)] io_phd(2)])
  obtain v where v: "bxroce_init_pbu E jp u = Some (jp, v)" "io_only u v" using io_pbu by blast
  obtain w where w: "bxroce_init_pgu_wqe E d v = Some (0, w)" "io_only v w" using init_pgu_wqe_ok by blast
  obtain x where x: "bxroce_init_pgu_cq E w = Some (0, x)" "io_only w x" using init_pgu_cq_ok by blast
  have sv: "io_only s v" using io_only_trans [OF u v(2)] .
  have sx: "io_only s (snd (bxroce_init_qp E jq x))"
    by (rule io_only_trans [OF sv io_only_trans [OF w(2) io_only_trans [OF x(2) io_qp(2)]]])
  show ?thesis
  proof (cases "flush_pending E s")
    case True
    then show ?thesis using t by (simp add: bxroce_init_hw_def init_status_def)
  next
    case False
    have "bxroce_init_hw E d jp jq a s =
        (if jp \<noteq> 0 then Some (jp, a, v) else if jq \<noteq> 0 then Some (jq, a, snd (bxroce_init_qp E jq x))
         else Some (0, snd (bxroce_query_device (di_mac d) (di_vendor d) (di_device d)),
                snd (bxroce_init_qp E jq x)))"
      using False t(1) v(1) w(1) x(1) unfolding bxroce_init_hw_def
      by (simp add: split_def Let_def io_cm(1) io_phd(1) io_qp(1) u_def [symmetric]
          bxroce_init_dev_attr_def bxroce_query_device_def)
    then show ?thesis using False sv sx by (cases "jq = 0") (auto simp: init_status_def)
  qed
qed

end

section \<open>A card that answers at once\<close>

text \<open>
  Its MAC registers keep what is written, but for the start bit of the filter's control register
  and the flush bit, which the card clears itself; its window reads 0.
\<close>

definition self_clearing :: "u32 \<Rightarrow> u32" where
  "self_clearing a = (if a = 0x0c00 \<or> a = TQ then 1 else 0)"

definition init_env :: env where
  "init_env = file_env\<lparr>hw_read := \<lambda>t r a.
     if r = Mac_regs then mac_file t a AND NOT (self_clearing a) else 0\<rparr>"

lemma init_env_mread [simp]: "fst (mread init_env a s) = mregs s a AND NOT (self_clearing a)"
  by (simp add: mread_def readl_def init_env_def Let_def)

interpretation init_card: answering_card init_env
proof
  show "\<exists>k. \<not> bit (fst (poll_read init_env PGU_BASE off k s)) 0" for off s
    by (rule exI [of _ 0]) (simp add: bxroce_mpb_reg_read_def readl_def init_env_def Let_def)
  show "\<exists>k. \<not> bit (filter_read init_env k s) 0" for s
    by (rule exI [of _ 0]) (simp add: self_clearing_def bit_and_iff bit_not_iff)
qed

lemma init_env_flush: "\<not> flush_pending init_env s"
  by (simp add: flush_pending_def self_clearing_def bit_and_iff bit_not_iff)

text \<open>
  Bringing the card up ends on every card that answers its waits. Its status is \<open>-EBUSY\<close> when the
  flush flag is read set right after it was set, and otherwise one of the two results the functions
  \<open>bxroce_init_pbu\<close> and \<open>bxroce_init_qp\<close> forget to return; it takes and leaves no lock and no memory,
  and on success the device has its attributes.
\<close>

theorem init_hw_returns:
  assumes "answering_card E"
  shows "\<exists>status a' s'. bxroce_init_hw E d junk_pbu junk_qp a s = Some (status, a', s') \<and>
    status = (if flush_pending E s then - EBUSY else if junk_pbu \<noteq> 0 then junk_pbu else junk_qp) \<and>
    held l (trace s') = held l (trace s) \<and> live_objs (trace s') = live_objs (trace s) \<and>
    (status = 0 \<longrightarrow> bxroce_query_device (di_mac d) (di_vendor d) (di_device d) = (0, a'))"
proof -
  obtain a' s' where r: "bxroce_init_hw E d junk_pbu junk_qp a s =
      Some (init_status E junk_pbu junk_qp s, a', s')" and io: "io_only s s'"
    and a': "init_status E junk_pbu junk_qp s = 0 \<longrightarrow>
      a' = snd (bxroce_query_device (di_mac d) (di_vendor d) (di_device d))"
    using answering_card.init_hw_ok [OF assms] by blast
  have "init_status E junk_pbu junk_qp s = 0 \<longrightarrow>
      bxroce_query_device (di_mac d) (di_vendor d) (di_device d) = (0, a')"
    using a' by (simp add: bxroce_query_device_def)
  then show ?thesis
    using r io_only_held [OF io] io_only_live [OF io] unfolding init_status_def by blast
qed

theorem init_hw_returns_witness:
  "\<exists>status a' s'. bxroce_init_hw init_env \<lparr>di_mac = [2, 0, 0, 0, 0, 1], di_ip = None, dev_addr = None,
      tx_osp_mode = 1, pblx8 = 1, tx_pbl = 8, rx_pbl = 8, rx_riwt = 0, feat_tso = True,
      di_vendor = 0x1234, di_device = 1\<rparr> 0 0 (snd (bxroce_query_device [] 0 0)) empty_kern = Some (status, a', s') \<and>
    status = 0"
  using init_hw_returns [OF init_card.answering_card_axioms, of
      "\<lparr>di_mac = [2, 0, 0, 0, 0, 1], di_ip = None, dev_addr = None,
      tx_osp_mode = 1, pblx8 = 1, tx_pbl = 8, rx_pbl = 8, rx_riwt = 0, feat_tso = True,
      di_vendor = 0x1234, di_device = 1\<rparr>" 0 0 "snd (bxroce_query_device [] 0 0)" empty_kern]
    init_env_flush [of empty_kern] by fastforce

section \<open>The registers of the channel\<close>

lemma MAC_GET_unset: "0 < fst f \<Longrightarrow> MAC_GET_REG_BITS (v AND - 2) f = MAC_GET_REG_BITS v f"
proof (rule word_eqI_bits)
  fix n assume "0 < fst f"
  moreover have "(- 2 :: u32) = NOT 1" by simp
  ultimately show "bit (MAC_GET_REG_BITS (v AND - 2) f) n = bit (MAC_GET_REG_BITS v f) n"
    using bit_imp_le_length [of v "fst f + n"]
    by (simp only: bit_MAC_GET bit_and_iff bit_not_iff bit_1_iff) auto
qed

lemmas mac_field_simps = MAC_GET_other MAC_GET_mod MAC_GET_unset in_word_def

text \<open>
  A card whose MAC registers keep what is written, but for the bits it clears itself; of the two
  interrupt status registers nothing is assumed.
\<close>

locale channel_card =
  fixes E :: env
  assumes keeps: "a \<noteq> rdma_dma DMA_CH_SR \<Longrightarrow> a \<noteq> rdma_mtl MTL_Q_ISR \<Longrightarrow>
    hw_read E t Mac_regs a = mac_file t a AND NOT (self_clearing a)"
begin

lemma read_value: "a \<noteq> rdma_dma DMA_CH_SR \<Longrightarrow> a \<noteq> rdma_mtl MTL_Q_ISR \<Longrightarrow>
    fst (mread E a s) = mregs s a AND NOT (self_clearing a)"
  by (simp add: mread_def readl_def keeps Let_def)

lemma regs_mset: "a \<noteq> 0x3460 \<Longrightarrow> a \<noteq> 0x1474 \<Longrightarrow> mregs (mset E a fs s) b =
    (if b = a then set_reg_bits fs (mregs s a AND NOT (self_clearing a)) else mregs s b)"
  by (simp add: mset_def read_value split_def Let_def mtl_reg_def dma_reg_def)

lemma wait_idle: "rdma_mac_wait E (fst (mread E 0x0c00 s)) t = Some (fst (mread E 0x0c00 s), t)"
  by (subst rdma_mac_wait.simps)
    (simp add: busy_bit read_value self_clearing_def mtl_reg_def dma_reg_def bit_and_iff bit_not_iff)

lemma filter_regs:
  "\<exists>s'. mac_rdma_channel_mpb_l3_l4_filter_on E s = Some s' \<and>
     (\<forall>a. a \<noteq> 0x0c00 \<longrightarrow> a \<noteq> 0x0c04 \<longrightarrow> mregs s' a = mregs s a)"
  by (simp add: mac_rdma_channel_mpb_l3_l4_filter_on_def mac_rdma_l3_l4_filter_cfg_reg_read_def
      mac_rdma_l3_l4_filter_cfg_reg_write_def split_def Let_def wait_idle)

lemmas config_regs = channel_config_def chan_defs mac_rdma_enable_dma_interrupts_def
  mac_rdma_enable_mtl_interrupts_def mac_rdma_config_flow_control_def
  mac_rdma_config_tx_flow_control_def mac_rdma_enable_tx_flow_control_def Let_def split_def
  regs_mset mtl_reg_def dma_reg_def self_clearing_def

lemma config_TCR:
  "mregs (channel_config E d s) 0x3404 =
     set_reg_bits ([((4, 1), tx_osp_mode d), ((16, 6), tx_pbl d)] @ (if feat_tso d then [((12, 1), 0)] else []))
       (mregs s 0x3404)"
  by (simp add: config_regs)

lemma config_RCR:
  "mregs (channel_config E d s) 0x3408 = set_reg_bits [((16, 6), rx_pbl d), ((1, 14), 0x3ff0)] (mregs s 0x3408)"
  by (simp add: config_regs)

lemma config_TQOMR:
  "mregs (channel_config E d s) 0x1400 =
     set_reg_bits [((8, 3), 6)] (set_reg_bits [((16, 10), 0x3f)]
       (set_reg_bits [((4, 3), 0)] (set_reg_bits [((1, 1), 1)] (mregs s 0x1400 AND NOT 1)
          AND NOT 1) AND NOT 1) AND NOT 1)"
  by (simp add: config_regs)

lemma config_RQOMR:
  "mregs (channel_config E d s) 0x1440 =
     set_reg_bits [((6, 1), 1), ((5, 1), 1), ((0, 2), 0), ((16, 9), 0xff), ((4, 1), 1), ((7, 1), 1)] (mregs s 0x1440)"
  by (simp add: config_regs)

lemma config_others:
  "mregs (channel_config E d s) 0x3438 = 0" "mregs (channel_config E d s) 0x3424 = 0"
  "mregs (channel_config E d s) 0x342c = 0" "mregs (channel_config E d s) 0x3430 = 0x3ff"
  "mregs (channel_config E d s) 0x3434 = 0x3ff" "mregs (channel_config E d s) 0x88 = 0x00800012"
  by (simp_all add: config_regs)

lemma enable_regs:
  "mregs (mac_rdma_enable_rx E (mac_rdma_enable_tx E s)) b =
     (if b = 0x140 then mregs s 0x140 OR 0x2000
      else if b = 0x3408 then set_reg_bits [((0, 1), 1)] (mregs s b)
      else if b = 0x3404 then set_reg_bits [((0, 1), 1)] (mregs s b)
      else if b = 0x1400 then set_reg_bits [((2, 2), 2)] (mregs s b AND NOT 1)
      else mregs s b)"
  by (simp add: mac_rdma_enable_rx_def mac_rdma_enable_tx_def Let_def split_def regs_mset read_value
      mtl_reg_def dma_reg_def self_clearing_def)

lemma no_flush: "\<not> flush_pending E s"
  by (simp add: flush_pending_def read_value self_clearing_def mtl_reg_def dma_reg_def bit_and_iff bit_not_iff)

lemma channel_regs:
  obtains s0 s' where "bxroce_init_mac_channel E d s = Some (0, s')"
    "\<And>b. b \<noteq> 0x0c00 \<Longrightarrow> b \<noteq> 0x0c04 \<Longrightarrow> b \<noteq> 0x140 \<Longrightarrow> mregs s' b =
      (if b = 0x3408 \<or> b = 0x3404 then set_reg_bits [((0, 1), 1)] (mregs (channel_config E d s0) b)
       else if b = 0x1400 then set_reg_bits [((2, 2), 2)] (mregs (channel_config E d s0) b AND NOT 1)
       else mregs (channel_config E d s0) b)" "bit (mregs s' 0x140) 13"
proof -
  define s0 where "s0 = snd (mac_mpb_flush_tx_queues E s)"
  obtain u where u: "mac_rdma_channel_mpb_l3_l4_filter_on E (channel_config E d s0) = Some u"
    "\<forall>a. a \<noteq> 0x0c00 \<longrightarrow> a \<noteq> 0x0c04 \<longrightarrow> mregs u a = mregs (channel_config E d s0) a"
    using filter_regs by blast
  let ?t = "mac_rdma_enable_rx E (mac_rdma_enable_tx E u)"
  have "bxroce_init_mac_channel E d s = Some (0, ?t)"
    using u(1) no_flush [of s] unfolding s0_def by (simp add: bxroce_init_mac_channel_def flush_eq)
  moreover have "bit (mregs ?t 0x140) 13" by (simp add: enable_regs bit_or_iff)
  moreover have "\<And>b. b \<noteq> 0x0c00 \<Longrightarrow> b \<noteq> 0x0c04 \<Longrightarrow> b \<noteq> 0x140 \<Longrightarrow> mregs ?t b =
      (if b = 0x3408 \<or> b = 0x3404 then set_reg_bits [((0, 1), 1)] (mregs (channel_config E d s0) b)
       else if b = 0x1400 then set_reg_bits [((2, 2), 2)] (mregs (channel_config E d s0) b AND NOT 1)
       else mregs (channel_config E d s0) b)" using u(2) by (simp add: enable_regs)
  ultimately show ?thesis using that by blast
qed

lemma channel_fields:
  shows "\<exists>s'. bxroce_init_mac_channel E d s = Some (0, s') \<and>
    MAC_GET_REG_BITS (mregs s' 0x3404) (0, 1) = 1 \<and> MAC_GET_REG_BITS (mregs s' 0x3408) (0, 1) = 1 \<and>
    MAC_GET_REG_BITS (mregs s' 0x3404) (16, 6) = tx_pbl d AND mask 6 \<and>
    MAC_GET_REG_BITS (mregs s' 0x3408) (16, 6) = rx_pbl d AND mask 6 \<and>
    MAC_GET_REG_BITS (mregs s' 0x3408) (1, 14) = 0x3ff0 \<and>
    MAC_GET_REG_BITS (mregs s' 0x1400) (2, 2) = 2 \<and> MAC_GET_REG_BITS (mregs s' 0x1400) (1, 1) = 1 \<and>
    MAC_GET_REG_BITS (mregs s' 0x1400) (8, 3) = 6 \<and> MAC_GET_REG_BITS (mregs s' 0x1400) (16, 10) = 0x3f \<and>
    MAC_GET_REG_BITS (mregs s' 0x1440) (5, 1) = 1 \<and> MAC_GET_REG_BITS (mregs s' 0x1440) (4, 1) = 1 \<and>
    bit (mregs s' 0x140) 13 \<and> mregs s' 0x3438 = 0"
proof -
  obtain s0 s' where r: "bxroce_init_mac_channel E d s = Some (0, s')" and
    R: "\<And>b. b \<noteq> 0x0c00 \<Longrightarrow> b \<noteq> 0x0c04 \<Longrightarrow> b \<noteq> 0x140 \<Longrightarrow> mregs s' b =
      (if b = 0x3408 \<or> b = 0x3404 then set_reg_bits [((0, 1), 1)] (mregs (channel_config E d s0) b)
       else if b = 0x1400 then set_reg_bits [((2, 2), 2)] (mregs (channel_config E d s0) b AND NOT 1)
       else mregs (channel_config E d s0) b)" and q: "bit (mregs s' 0x140) 13"
    using channel_regs by blast
  show ?thesis
    by (rule exI [of _ s'])
      (simp add: r q R config_TCR config_RCR config_TQOMR config_RQOMR config_others mac_field_simps
        mask_eq_exp_minus_1)
qed

end

interpretation init_channel: channel_card init_env
  by unfold_locales (simp add: init_env_def)

text \<open>
  On a card whose MAC registers keep what is written to them, but for the flush and the start
  bit that it clears itself, the RDMA channel is set up: both DMA engines run with the burst
  lengths asked for and buffers of \<open>0x3ff0\<close> bytes, the transmit queue is enabled in store and
  forward mode, mapped to traffic class 6 and 16 KB deep, the receive queue is enabled in store and
  forward mode and keeps packets with errors, and every DMA interrupt of the channel is off.
\<close>

theorem rdma_channel_configured:
  assumes "channel_card E"
  shows "\<exists>s'. bxroce_init_mac_channel E d s = Some (0, s') \<and>
    MAC_GET_REG_BITS (mregs s' 0x3404) (0, 1) = 1 \<and> MAC_GET_REG_BITS (mregs s' 0x3408) (0, 1) = 1 \<and>
    MAC_GET_REG_BITS (mregs s' 0x3404) (16, 6) = tx_pbl d AND mask 6 \<and>
    MAC_GET_REG_BITS (mregs s' 0x3408) (16, 6) = rx_pbl d AND mask 6 \<and>
    MAC_GET_REG_BITS (mregs s' 0x3408) (1, 14) = 0x3ff0 \<and>
    MAC_GET_REG_BITS (mregs s' 0x1400) (2, 2) = 2 \<and> MAC_GET_REG_BITS (mregs s' 0x1400) (1, 1) = 1 \<and>
    MAC_GET_REG_BITS (mregs s' 0x1400) (8, 3) = 6 \<and> MAC_GET_REG_BITS (mregs s' 0x1400) (16, 10) = 0x3f \<and>
    MAC_GET_REG_BITS (mregs s' 0x1440) (5, 1) = 1 \<and> MAC_GET_REG_BITS (mregs s' 0x1440) (4, 1) = 1 \<and>
    bit (mregs s' 0x140) 13 \<and> mregs s' 0x3438 = 0"
  by (rule channel_card.channel_fields [OF assms])

theorem rdma_channel_configured_witness:
  "\<exists>s'. bxroce_init_mac_channel init_env \<lparr>di_mac = [2, 0, 0, 0, 0, 1], di_ip = None, dev_addr = None,
      tx_osp_mode = 1, pblx8 = 1, tx_pbl = 8, rx_pbl = 8, rx_riwt = 0, feat_tso = True,
      di_vendor = 0x1234, di_device = 1\<rparr> empty_kern = Some (0, s') \<and>
    MAC_GET_REG_BITS (mregs s' 0x3404) (0, 1) = 1 \<and> mregs s' 0x3438 = 0"
  using rdma_channel_configured [OF init_channel.channel_card_axioms, of
      "\<lparr>di_mac = [2, 0, 0, 0, 0, 1], di_ip = None, dev_addr = None,
      tx_osp_mode = 1, pblx8 = 1, tx_pbl = 8, rx_pbl = 8, rx_riwt = 0, feat_tso = True,
      di_vendor = 0x1234, di_device = 1\<rparr>" empty_kern] by blast

end
