(* ===== verification/Mac_hw.thy ===== *)
theory Mac_hw
  imports Macreg "HOL-Library.Monad_Syntax"
begin

text \<open>
  The hardware layer of the Ethernet driver, bx_mac_hw.c: address and VLAN filters, starting and
  stopping of the queues, flow control and the configuration of queues and channels. Functions that
  always return 0 are functions on the state. \<open>crc32_le\<close> of the kernel is an argument. A wait ends
  at the latest when the time is up; \<open>rounds\<close> is how often the time allows the loop to look.
\<close>

section \<open>Register map\<close>

text \<open>Register offsets, and fields as position and length, from the headers.\<close>

abbreviation (input) DMA_CH_CR :: u32 where "DMA_CH_CR \<equiv> 0x0"
abbreviation (input) DMA_CH_CR_PBLX8 :: "nat \<times> nat" where "DMA_CH_CR_PBLX8 \<equiv> (16, 1)"
abbreviation (input) DMA_CH_CR_SPH :: "nat \<times> nat" where "DMA_CH_CR_SPH \<equiv> (24, 1)"
abbreviation (input) DMA_CH_RCR :: u32 where "DMA_CH_RCR \<equiv> 0x8"
abbreviation (input) DMA_CH_RCR_PBL :: "nat \<times> nat" where "DMA_CH_RCR_PBL \<equiv> (16, 6)"
abbreviation (input) DMA_CH_RCR_RBSZ :: "nat \<times> nat" where "DMA_CH_RCR_RBSZ \<equiv> (1, 14)"
abbreviation (input) DMA_CH_RCR_SR :: "nat \<times> nat" where "DMA_CH_RCR_SR \<equiv> (0, 1)"
abbreviation (input) DMA_CH_RIWT :: u32 where "DMA_CH_RIWT \<equiv> 0x3c"
abbreviation (input) DMA_CH_RIWT_RWT :: "nat \<times> nat" where "DMA_CH_RIWT_RWT \<equiv> (0, 8)"
abbreviation (input) DMA_CH_TCR :: u32 where "DMA_CH_TCR \<equiv> 0x4"
abbreviation (input) DMA_CH_TCR_OSP :: "nat \<times> nat" where "DMA_CH_TCR_OSP \<equiv> (4, 1)"
abbreviation (input) DMA_CH_TCR_PBL :: "nat \<times> nat" where "DMA_CH_TCR_PBL \<equiv> (16, 6)"
abbreviation (input) DMA_CH_TCR_ST :: "nat \<times> nat" where "DMA_CH_TCR_ST \<equiv> (0, 1)"
abbreviation (input) DMA_CH_TCR_TSE :: "nat \<times> nat" where "DMA_CH_TCR_TSE \<equiv> (12, 1)"
abbreviation (input) DMA_DSR0 :: u32 where "DMA_DSR0 \<equiv> 0x3020"
abbreviation (input) DMA_DSR1 :: u32 where "DMA_DSR1 \<equiv> 0x3024"
abbreviation (input) MAC_HTR0 :: u32 where "MAC_HTR0 \<equiv> 0x10"
abbreviation (input) MAC_HTR_INC :: u32 where "MAC_HTR_INC \<equiv> 0x4"
abbreviation (input) MAC_MACA0HR :: u32 where "MAC_MACA0HR \<equiv> 0x300"
abbreviation (input) MAC_MACA0LR :: u32 where "MAC_MACA0LR \<equiv> 0x304"
abbreviation (input) MAC_MACA1HR :: u32 where "MAC_MACA1HR \<equiv> 0x308"
abbreviation (input) MAC_MACA1HR_AE :: "nat \<times> nat" where "MAC_MACA1HR_AE \<equiv> (31, 1)"
abbreviation (input) MAC_MACA_INC :: u32 where "MAC_MACA_INC \<equiv> 0x4"
abbreviation (input) MAC_PFR :: u32 where "MAC_PFR \<equiv> 0x8"
abbreviation (input) MAC_PFR_HMC :: "nat \<times> nat" where "MAC_PFR_HMC \<equiv> (2, 1)"
abbreviation (input) MAC_PFR_HPF :: "nat \<times> nat" where "MAC_PFR_HPF \<equiv> (10, 1)"
abbreviation (input) MAC_PFR_HUC :: "nat \<times> nat" where "MAC_PFR_HUC \<equiv> (1, 1)"
abbreviation (input) MAC_PFR_PM :: "nat \<times> nat" where "MAC_PFR_PM \<equiv> (4, 1)"
abbreviation (input) MAC_PFR_PR :: "nat \<times> nat" where "MAC_PFR_PR \<equiv> (0, 1)"
abbreviation (input) MAC_PFR_VTFE :: "nat \<times> nat" where "MAC_PFR_VTFE \<equiv> (16, 1)"
abbreviation (input) MAC_Q0TFCR :: u32 where "MAC_Q0TFCR \<equiv> 0x70"
abbreviation (input) MAC_Q0TFCR_PT :: "nat \<times> nat" where "MAC_Q0TFCR_PT \<equiv> (16, 16)"
abbreviation (input) MAC_Q0TFCR_TFE :: "nat \<times> nat" where "MAC_Q0TFCR_TFE \<equiv> (1, 1)"
abbreviation (input) MAC_QTFCR_INC :: u32 where "MAC_QTFCR_INC \<equiv> 0x4"
abbreviation (input) MAC_RCR :: u32 where "MAC_RCR \<equiv> 0x4"
abbreviation (input) MAC_RCR_ACS :: "nat \<times> nat" where "MAC_RCR_ACS \<equiv> (1, 1)"
abbreviation (input) MAC_RCR_CST :: "nat \<times> nat" where "MAC_RCR_CST \<equiv> (2, 1)"
abbreviation (input) MAC_RCR_DCRCC :: "nat \<times> nat" where "MAC_RCR_DCRCC \<equiv> (3, 1)"
abbreviation (input) MAC_RCR_HDSMS :: "nat \<times> nat" where "MAC_RCR_HDSMS \<equiv> (12, 3)"
abbreviation (input) MAC_RCR_IPC :: "nat \<times> nat" where "MAC_RCR_IPC \<equiv> (9, 1)"
abbreviation (input) MAC_RCR_JE :: "nat \<times> nat" where "MAC_RCR_JE \<equiv> (8, 1)"
abbreviation (input) MAC_RCR_RE :: "nat \<times> nat" where "MAC_RCR_RE \<equiv> (0, 1)"
abbreviation (input) MAC_RFCR :: u32 where "MAC_RFCR \<equiv> 0x90"
abbreviation (input) MAC_RFCR_RFE :: "nat \<times> nat" where "MAC_RFCR_RFE \<equiv> (0, 1)"
abbreviation (input) MAC_RQEC :: u32 where "MAC_RQEC \<equiv> 0x140"
abbreviation (input) MAC_RQMC :: u32 where "MAC_RQMC \<equiv> 0x160"
abbreviation (input) MAC_RQMC_INC :: u32 where "MAC_RQMC_INC \<equiv> 0x4"
abbreviation (input) MAC_SPH_HDSMS_SIZE :: u32 where "MAC_SPH_HDSMS_SIZE \<equiv> 0x3"
abbreviation (input) MAC_TCR :: u32 where "MAC_TCR \<equiv> 0x0"
abbreviation (input) MAC_TCR_TE :: "nat \<times> nat" where "MAC_TCR_TE \<equiv> (0, 1)"
abbreviation (input) MAC_VLANHTR :: u32 where "MAC_VLANHTR \<equiv> 0x58"
abbreviation (input) MAC_VLANHTR_VLHT :: "nat \<times> nat" where "MAC_VLANHTR_VLHT \<equiv> (0, 16)"
abbreviation (input) MAC_VLANIR :: u32 where "MAC_VLANIR \<equiv> 0x60"
abbreviation (input) MAC_VLANIR_CSVL :: "nat \<times> nat" where "MAC_VLANIR_CSVL \<equiv> (19, 1)"
abbreviation (input) MAC_VLANIR_VLTI :: "nat \<times> nat" where "MAC_VLANIR_VLTI \<equiv> (20, 1)"
abbreviation (input) MAC_VLANTR :: u32 where "MAC_VLANTR \<equiv> 0x50"
abbreviation (input) MAC_VLANTR_DOVLTC :: "nat \<times> nat" where "MAC_VLANTR_DOVLTC \<equiv> (20, 1)"
abbreviation (input) MAC_VLANTR_ERSVLM :: "nat \<times> nat" where "MAC_VLANTR_ERSVLM \<equiv> (19, 1)"
abbreviation (input) MAC_VLANTR_ESVL :: "nat \<times> nat" where "MAC_VLANTR_ESVL \<equiv> (18, 1)"
abbreviation (input) MAC_VLANTR_ETV :: "nat \<times> nat" where "MAC_VLANTR_ETV \<equiv> (16, 1)"
abbreviation (input) MAC_VLANTR_EVLRXS :: "nat \<times> nat" where "MAC_VLANTR_EVLRXS \<equiv> (24, 1)"
abbreviation (input) MAC_VLANTR_EVLS :: "nat \<times> nat" where "MAC_VLANTR_EVLS \<equiv> (21, 2)"
abbreviation (input) MAC_VLANTR_VL :: "nat \<times> nat" where "MAC_VLANTR_VL \<equiv> (0, 16)"
abbreviation (input) MAC_VLANTR_VTHM :: "nat \<times> nat" where "MAC_VLANTR_VTHM \<equiv> (25, 1)"
abbreviation (input) MAC_VLANTR_VTIM :: "nat \<times> nat" where "MAC_VLANTR_VTIM \<equiv> (17, 1)"
abbreviation (input) MTL_ETSALG_WRR :: u32 where "MTL_ETSALG_WRR \<equiv> 0x0"
abbreviation (input) MTL_OMR :: u32 where "MTL_OMR \<equiv> 0x1000"
abbreviation (input) MTL_OMR_ETSALG :: "nat \<times> nat" where "MTL_OMR_ETSALG \<equiv> (5, 2)"
abbreviation (input) MTL_OMR_RAA :: "nat \<times> nat" where "MTL_OMR_RAA \<equiv> (2, 1)"
abbreviation (input) MTL_Q_ENABLED :: u32 where "MTL_Q_ENABLED \<equiv> 0x2"
abbreviation (input) MTL_Q_RQDR :: u32 where "MTL_Q_RQDR \<equiv> 0x48"
abbreviation (input) MTL_Q_RQDR_PRXQ :: "nat \<times> nat" where "MTL_Q_RQDR_PRXQ \<equiv> (16, 14)"
abbreviation (input) MTL_Q_RQDR_RXQSTS :: "nat \<times> nat" where "MTL_Q_RQDR_RXQSTS \<equiv> (4, 2)"
abbreviation (input) MTL_Q_RQFCR :: u32 where "MTL_Q_RQFCR \<equiv> 0x50"
abbreviation (input) MTL_Q_RQFCR_RFA :: "nat \<times> nat" where "MTL_Q_RQFCR_RFA \<equiv> (1, 6)"
abbreviation (input) MTL_Q_RQFCR_RFD :: "nat \<times> nat" where "MTL_Q_RQFCR_RFD \<equiv> (17, 6)"
abbreviation (input) MTL_Q_RQOMR :: u32 where "MTL_Q_RQOMR \<equiv> 0x40"
abbreviation (input) MTL_Q_RQOMR_EHFC :: "nat \<times> nat" where "MTL_Q_RQOMR_EHFC \<equiv> (7, 1)"
abbreviation (input) MTL_Q_RQOMR_FEP :: "nat \<times> nat" where "MTL_Q_RQOMR_FEP \<equiv> (4, 1)"
abbreviation (input) MTL_Q_RQOMR_FUP :: "nat \<times> nat" where "MTL_Q_RQOMR_FUP \<equiv> (3, 1)"
abbreviation (input) MTL_Q_RQOMR_RQS :: "nat \<times> nat" where "MTL_Q_RQOMR_RQS \<equiv> (16, 9)"
abbreviation (input) MTL_Q_RQOMR_RSF :: "nat \<times> nat" where "MTL_Q_RQOMR_RSF \<equiv> (5, 1)"
abbreviation (input) MTL_Q_RQOMR_RTC :: "nat \<times> nat" where "MTL_Q_RQOMR_RTC \<equiv> (0, 2)"
abbreviation (input) MTL_Q_TQOMR :: u32 where "MTL_Q_TQOMR \<equiv> 0x0"
abbreviation (input) MTL_Q_TQOMR_Q2TCMAP :: "nat \<times> nat" where "MTL_Q_TQOMR_Q2TCMAP \<equiv> (8, 3)"
abbreviation (input) MTL_Q_TQOMR_TQS :: "nat \<times> nat" where "MTL_Q_TQOMR_TQS \<equiv> (16, 10)"
abbreviation (input) MTL_Q_TQOMR_TSF :: "nat \<times> nat" where "MTL_Q_TQOMR_TSF \<equiv> (1, 1)"
abbreviation (input) MTL_Q_TQOMR_TTC :: "nat \<times> nat" where "MTL_Q_TQOMR_TTC \<equiv> (4, 3)"
abbreviation (input) MTL_Q_TQOMR_TXQEN :: "nat \<times> nat" where "MTL_Q_TQOMR_TXQEN \<equiv> (2, 2)"
abbreviation (input) MTL_RAA_SP :: u32 where "MTL_RAA_SP \<equiv> 0x0"
abbreviation (input) MTL_RQDCM0R :: u32 where "MTL_RQDCM0R \<equiv> 0x1030"
abbreviation (input) MTL_RQDCM_INC :: u32 where "MTL_RQDCM_INC \<equiv> 0x4"
abbreviation (input) MTL_TC_ETSCR :: u32 where "MTL_TC_ETSCR \<equiv> 0x10"
abbreviation (input) MTL_TC_ETSCR_TSA :: "nat \<times> nat" where "MTL_TC_ETSCR_TSA \<equiv> (0, 2)"
abbreviation (input) MTL_TC_QWR :: u32 where "MTL_TC_QWR \<equiv> 0x18"
abbreviation (input) MTL_TC_QWR_QW :: "nat \<times> nat" where "MTL_TC_QWR_QW \<equiv> (0, 21)"
abbreviation (input) MTL_TSA_ETS :: u32 where "MTL_TSA_ETS \<equiv> 0x2"

section \<open>State\<close>

text \<open>
  A channel: its queue, the address of its registers, and which rings it has. Of the driver's data
  (\<open>struct mac_pdata\<close>, its \<open>hw_feat\<close> and \<open>netdev\<close>) what these functions read.
\<close>

record mac_channel =
  queue_index :: nat
  dma_regs :: u32
  has_tx_ring :: bool
  has_rx_ring :: bool

record mac_pdata =
  channels :: "mac_channel list"
  tx_q_count :: nat
  rx_q_count :: nat
  hw_tso :: bool
  hw_rss :: bool
  tc_cnt :: nat
  hash_table_size :: nat
  addn_mac :: nat
  nd_addr :: "u8 list"
  nd_mtu :: nat
  f_rxcsum :: bool
  f_vlan_filter :: bool
  f_vlan_rx :: bool
  f_rxhash :: bool
  promisc :: bool
  allmulti :: bool
  uc_addrs :: "u8 list list"
  mc_addrs :: "u8 list list"
  active_vlans :: "nat set"
  tx_pause :: bool
  rx_pause :: bool
  riwt :: u32
  rx_buf_size :: u32
  osp_mode :: u32
  pbl8 :: u32
  tx_pbl_val :: u32
  rx_pbl_val :: u32
  sysclk_rate :: nat

text \<open>Loops over the channels stop at the first without the ring in question.\<close>

definition tx_channels :: "mac_pdata \<Rightarrow> mac_channel list" where
  "tx_channels p = takeWhile has_tx_ring (channels p)"

definition rx_channels :: "mac_pdata \<Rightarrow> mac_channel list" where
  "rx_channels p = takeWhile has_rx_ring (channels p)"

definition for_queues :: "nat \<Rightarrow> (nat \<Rightarrow> kern \<Rightarrow> kern) \<Rightarrow> kern \<Rightarrow> kern" where
  "for_queues n f = fold f [0..<n]"

section \<open>Checksums and addresses\<close>

definition mac_disable_rx_csum :: "env \<Rightarrow> kern \<Rightarrow> kern" where
  "mac_disable_rx_csum E = mset E MAC_RCR [(MAC_RCR_IPC, 0)]"

definition mac_enable_rx_csum :: "env \<Rightarrow> kern \<Rightarrow> kern" where
  "mac_enable_rx_csum E = mset E MAC_RCR [(MAC_RCR_IPC, 1)]"

definition addr_hi :: "u8 list \<Rightarrow> u32" where
  "addr_hi addr = push_bit 8 (ucast (addr ! 5)) OR ucast (addr ! 4)"

definition addr_lo :: "u8 list \<Rightarrow> u32" where
  "addr_lo addr = push_bit 24 (ucast (addr ! 3)) OR push_bit 16 (ucast (addr ! 2)) OR
     push_bit 8 (ucast (addr ! 1)) OR ucast (addr ! 0)"

definition mac_set_mac_address :: "u8 list \<Rightarrow> kern \<Rightarrow> kern" where
  "mac_set_mac_address addr = mwrites [(MAC_MACA0HR, addr_hi addr), (MAC_MACA0LR, addr_lo addr)]"

text \<open>Takes the register and returns the next one. The bytes make words on a little-endian machine.\<close>

definition mac_set_mac_reg :: "u8 list option \<Rightarrow> u32 \<Rightarrow> kern \<Rightarrow> u32 \<times> kern" where
  "mac_set_mac_reg ha mac_reg s =
     (let (hi, lo) = (case ha of None \<Rightarrow> (0, 0)
            | Some addr \<Rightarrow> (MAC_SET_REG_BITS (addr_hi addr) MAC_MACA1HR_AE 1, addr_lo addr))
      in (mac_reg + MAC_MACA_INC + MAC_MACA_INC, mwrite (mac_reg + MAC_MACA_INC) lo (mwrite mac_reg hi s)))"

section \<open>VLAN\<close>

definition mac_enable_rx_vlan_stripping :: "env \<Rightarrow> kern \<Rightarrow> kern" where
  "mac_enable_rx_vlan_stripping E =
     mset E MAC_VLANTR [(MAC_VLANTR_EVLRXS, 1), (MAC_VLANTR_DOVLTC, 1), (MAC_VLANTR_ERSVLM, 0),
       (MAC_VLANTR_ESVL, 0), (MAC_VLANTR_EVLS, 0x3)]"

definition mac_disable_rx_vlan_stripping :: "env \<Rightarrow> kern \<Rightarrow> kern" where
  "mac_disable_rx_vlan_stripping E = mset E MAC_VLANTR [(MAC_VLANTR_EVLS, 0)]"

definition mac_enable_rx_vlan_filtering :: "env \<Rightarrow> kern \<Rightarrow> kern" where
  "mac_enable_rx_vlan_filtering E s =
     (let s = mset E MAC_PFR [(MAC_PFR_VTFE, 1)] s
      in mset E MAC_VLANTR [(MAC_VLANTR_VTHM, 1), (MAC_VLANTR_VTIM, 0), (MAC_VLANTR_ETV, 1),
           (MAC_VLANTR_VL, 1)] s)"

definition mac_disable_rx_vlan_filtering :: "env \<Rightarrow> kern \<Rightarrow> kern" where
  "mac_disable_rx_vlan_filtering E = mset E MAC_PFR [(MAC_PFR_VTFE, 0)]"

text \<open>
  The loop of \<open>mac_vid_crc32_le\<close> from round \<open>i\<close> of \<open>n\<close>, on the two bytes of the number; a new byte is
  fetched every eight rounds. \<open>get_bitmask_order(VLAN_VID_MASK)\<close> is 12, \<open>CRC32_POLY_LE\<close> 0xedb88320.
\<close>

function crc_loop :: "u8 list \<Rightarrow> nat \<Rightarrow> nat \<Rightarrow> u8 \<Rightarrow> u32 \<Rightarrow> u32" where
  "crc_loop data n i data_byte crc =
     (if i < n then
        let data_byte = (if i mod 8 = 0 then data ! (i div 8) else data_byte);
            temp = ((crc AND 1) XOR ucast data_byte) AND 1;
            crc = drop_bit 1 crc;
            crc = (if temp \<noteq> 0 then crc XOR 0xedb88320 else crc)
        in crc_loop data n (i + 1) (drop_bit 1 data_byte) crc
      else crc)"
  by pat_completeness auto
termination by (relation "measure (\<lambda>(data, n, i, b, c). n - i)") auto

declare crc_loop.simps [simp del]

definition mac_vid_crc32_le :: "u16 \<Rightarrow> u32" where
  "mac_vid_crc32_le vid = crc_loop [ucast vid, ucast (drop_bit 8 vid)] 12 0 0 (NOT 0)"

text \<open>\<open>bitrev32\<close> of the kernel.\<close>

definition bitrev32 :: "u32 \<Rightarrow> u32" where
  "bitrev32 w = horner_sum of_bool 2 (rev (map (bit w) [0..<32]))"

definition vlan_hash :: "u16 \<Rightarrow> nat" where
  "vlan_hash vid = unat (drop_bit 28 (bitrev32 (NOT (mac_vid_crc32_le vid))))"

definition vlan_hash_table :: "nat set \<Rightarrow> u16" where
  "vlan_hash_table vlans =
     fold (\<lambda>vid t. t OR push_bit (vlan_hash (word_of_nat vid)) 1)
       (filter (\<lambda>vid. vid \<in> vlans) [0..<4096]) 0"

definition mac_update_vlan_hash_table :: "env \<Rightarrow> mac_pdata \<Rightarrow> kern \<Rightarrow> kern" where
  "mac_update_vlan_hash_table E p =
     mset E MAC_VLANHTR [(MAC_VLANHTR_VLHT, ucast (vlan_hash_table (active_vlans p)))]"

section \<open>Receive filters\<close>

definition mac_set_promiscuous_mode :: "env \<Rightarrow> mac_pdata \<Rightarrow> bool \<Rightarrow> kern \<Rightarrow> kern" where
  "mac_set_promiscuous_mode E p enable s =
     (let val = (if enable then 1 else 0);
          (regval, s) = mread E MAC_PFR s
      in if MAC_GET_REG_BITS regval MAC_PFR_PR = val then s
         else let s = mset E MAC_PFR [(MAC_PFR_PR, val)] s
              in if enable then mac_disable_rx_vlan_filtering E s
                 else if f_vlan_filter p then mac_enable_rx_vlan_filtering E s else s)"

definition mac_set_all_multicast_mode :: "env \<Rightarrow> bool \<Rightarrow> kern \<Rightarrow> kern" where
  "mac_set_all_multicast_mode E enable s =
     (let val = (if enable then 1 else 0);
          (regval, s) = mread E MAC_PFR s
      in if MAC_GET_REG_BITS regval MAC_PFR_PM = val then s else mset E MAC_PFR [(MAC_PFR_PM, val)] s)"

fun set_mac_regs :: "u8 list option list \<Rightarrow> u32 \<Rightarrow> kern \<Rightarrow> u32 \<times> kern" where
  "set_mac_regs [] reg s = (reg, s)"
| "set_mac_regs (ha # has) reg s = (let (reg, s) = mac_set_mac_reg ha reg s in set_mac_regs has reg s)"

text \<open>
  One address goes to the registers after another, as long as all of a kind fit; the counter of
  what is left starts at \<open>addn_mac\<close> and decides how many registers are cleared at the end.
\<close>

definition mac_set_mac_addn_addrs :: "env \<Rightarrow> mac_pdata \<Rightarrow> kern \<Rightarrow> kern" where
  "mac_set_mac_addn_addrs E p s =
     (let reg = MAC_MACA1HR; addn_macs = addn_mac p;
          (addn_macs, reg, s) =
            (if length (uc_addrs p) > addn_macs then (addn_macs, reg, mac_set_promiscuous_mode E p True s)
             else let (reg, s) = set_mac_regs (map Some (uc_addrs p)) reg s;
                      addn_macs = addn_macs - length (uc_addrs p)
                  in if length (mc_addrs p) > addn_macs
                     then (addn_macs, reg, mac_set_all_multicast_mode E True s)
                     else let (reg, s) = set_mac_regs (map Some (mc_addrs p)) reg s
                          in (addn_macs - length (mc_addrs p), reg, s))
      in snd (set_mac_regs (replicate addn_macs None) reg s))"

text \<open>
  The table of eight words on the stack. None is an access outside it, or a shift by more than 31.
\<close>

definition hash_add :: "(u8 list \<Rightarrow> u32) \<Rightarrow> nat \<Rightarrow> u8 list \<Rightarrow> u32 list option \<Rightarrow> u32 list option" where
  "hash_add crc32 shift addr t = do {
     t \<leftarrow> t;
     let crc = drop_bit shift (bitrev32 (NOT (crc32 addr)));
     if shift < 32 \<and> unat (drop_bit 5 crc) < length t
     then Some (t[unat (drop_bit 5 crc) := (t ! unat (drop_bit 5 crc)) OR push_bit (unat (crc AND 0x1f)) 1])
     else None
   }"

definition hash_table_words :: "(u8 list \<Rightarrow> u32) \<Rightarrow> mac_pdata \<Rightarrow> u32 list option" where
  "hash_table_words crc32 p =
     (let shift = unat (26 - word_of_nat (hash_table_size p div 128) :: u32)
      in fold (hash_add crc32 shift) (uc_addrs p @ mc_addrs p) (Some (replicate 8 0)))"

definition mac_set_mac_hash_table :: "(u8 list \<Rightarrow> u32) \<Rightarrow> mac_pdata \<Rightarrow> kern \<Rightarrow> kern option" where
  "mac_set_mac_hash_table crc32 p s = do {
     hash_table \<leftarrow> hash_table_words crc32 p;
     let count = hash_table_size p div 32;
     if count \<le> 8
     then Some (mwrites (map (\<lambda>i. (MAC_HTR0 + MAC_HTR_INC * word_of_nat i, hash_table ! i)) [0..<count]) s)
     else None
   }"

definition mac_add_mac_addresses :: "env \<Rightarrow> (u8 list \<Rightarrow> u32) \<Rightarrow> mac_pdata \<Rightarrow> kern \<Rightarrow> kern option" where
  "mac_add_mac_addresses E crc32 p s =
     (if hash_table_size p \<noteq> 0 then mac_set_mac_hash_table crc32 p s
      else Some (mac_set_mac_addn_addrs E p s))"

definition mac_config_mac_address :: "env \<Rightarrow> mac_pdata \<Rightarrow> kern \<Rightarrow> kern" where
  "mac_config_mac_address E p s =
     (let s = mac_set_mac_address (nd_addr p) s
      in if hash_table_size p \<noteq> 0
         then mset E MAC_PFR [(MAC_PFR_HPF, 1), (MAC_PFR_HUC, 1), (MAC_PFR_HMC, 1)] s else s)"

definition mac_config_jumbo_enable :: "env \<Rightarrow> mac_pdata \<Rightarrow> kern \<Rightarrow> kern" where
  "mac_config_jumbo_enable E p = mset E MAC_RCR [(MAC_RCR_JE, if nd_mtu p > 1500 then 1 else 0)]"

definition mac_config_checksum_offload :: "env \<Rightarrow> mac_pdata \<Rightarrow> kern \<Rightarrow> kern" where
  "mac_config_checksum_offload E p = (if f_rxcsum p then mac_enable_rx_csum E else mac_disable_rx_csum E)"

definition mac_config_vlan_support :: "env \<Rightarrow> mac_pdata \<Rightarrow> kern \<Rightarrow> kern" where
  "mac_config_vlan_support E p s =
     (let s = mset E MAC_VLANIR [(MAC_VLANIR_CSVL, 0), (MAC_VLANIR_VLTI, 1)] s;
          s = mac_update_vlan_hash_table E p s;
          s = (if f_vlan_filter p then mac_enable_rx_vlan_filtering E s else mac_disable_rx_vlan_filtering E s)
      in if f_vlan_rx p then mac_enable_rx_vlan_stripping E s else mac_disable_rx_vlan_stripping E s)"

definition mac_config_rx_mode :: "env \<Rightarrow> (u8 list \<Rightarrow> u32) \<Rightarrow> mac_pdata \<Rightarrow> kern \<Rightarrow> kern option" where
  "mac_config_rx_mode E crc32 p s =
     (let s = mac_set_promiscuous_mode E p (promisc p) s;
          s = mac_set_all_multicast_mode E (allmulti p) s
      in mac_add_mac_addresses E crc32 p s)"

section \<open>Starting and stopping\<close>

text \<open>The register and the position of the state of a transmit queue.\<close>

definition tx_status_at :: "nat \<Rightarrow> u32 \<times> nat" where
  "tx_status_at q =
     (if q < 3 then (DMA_DSR0, q * 8 + 12)
      else (DMA_DSR1 + word_of_nat ((q - 3) div 4 * 4), (q - 3) mod 4 * 8 + 4))"

fun mac_prepare_tx_stop :: "env \<Rightarrow> nat \<Rightarrow> mac_channel \<Rightarrow> kern \<Rightarrow> kern" where
  "mac_prepare_tx_stop E 0 c s = s"
| "mac_prepare_tx_stop E (Suc rounds) c s =
     (let (tx_dsr, tx_pos) = tx_status_at (queue_index c);
          (v, s) = mread E tx_dsr s;
          tx_status = MAC_GET_REG_BITS v (tx_pos, 4)
      in if tx_status = 0 \<or> tx_status = 6 then s else mac_prepare_tx_stop E rounds c s)"

definition mac_enable_tx :: "env \<Rightarrow> mac_pdata \<Rightarrow> kern \<Rightarrow> kern" where
  "mac_enable_tx E p s =
     (let s = fold (\<lambda>c. mset E (dma_regs c + DMA_CH_TCR) [(DMA_CH_TCR_ST, 1)]) (tx_channels p) s;
          s = for_queues (tx_q_count p) (\<lambda>i. mset E (mtl_reg i MTL_Q_TQOMR) [(MTL_Q_TQOMR_TXQEN, MTL_Q_ENABLED)]) s
      in mset E MAC_TCR [(MAC_TCR_TE, 1)] s)"

definition mac_disable_tx :: "env \<Rightarrow> nat \<Rightarrow> mac_pdata \<Rightarrow> kern \<Rightarrow> kern" where
  "mac_disable_tx E rounds p s =
     (let s = fold (mac_prepare_tx_stop E rounds) (tx_channels p) s;
          s = mset E MAC_TCR [(MAC_TCR_TE, 0)] s;
          s = for_queues (tx_q_count p) (\<lambda>i. mset E (mtl_reg i MTL_Q_TQOMR) [(MTL_Q_TQOMR_TXQEN, 0)]) s
      in fold (\<lambda>c. mset E (dma_regs c + DMA_CH_TCR) [(DMA_CH_TCR_ST, 0)]) (tx_channels p) s)"

fun mac_prepare_rx_stop :: "env \<Rightarrow> nat \<Rightarrow> nat \<Rightarrow> kern \<Rightarrow> kern" where
  "mac_prepare_rx_stop E 0 queue s = s"
| "mac_prepare_rx_stop E (Suc rounds) queue s =
     (let (v, s) = mread E (mtl_reg queue MTL_Q_RQDR) s
      in if MAC_GET_REG_BITS v MTL_Q_RQDR_PRXQ = 0 \<and> MAC_GET_REG_BITS v MTL_Q_RQDR_RXQSTS = 0 then s
         else mac_prepare_rx_stop E rounds queue s)"

definition rqec_value :: "nat \<Rightarrow> u32" where
  "rqec_value n = fold (\<lambda>i v. v OR push_bit (i * 2) 0x02) [0..<n] 0"

definition mac_enable_rx :: "env \<Rightarrow> mac_pdata \<Rightarrow> kern \<Rightarrow> kern" where
  "mac_enable_rx E p s =
     (let s = fold (\<lambda>c. mset E (dma_regs c + DMA_CH_RCR) [(DMA_CH_RCR_SR, 1)]) (rx_channels p) s;
          s = mwrite MAC_RQEC (rqec_value (rx_q_count p)) s
      in mset E MAC_RCR [(MAC_RCR_DCRCC, 1), (MAC_RCR_CST, 1), (MAC_RCR_ACS, 1), (MAC_RCR_RE, 1)] s)"

definition mac_disable_rx :: "env \<Rightarrow> nat \<Rightarrow> mac_pdata \<Rightarrow> kern \<Rightarrow> kern" where
  "mac_disable_rx E rounds p s =
     (let s = mset E MAC_RCR [(MAC_RCR_DCRCC, 0), (MAC_RCR_CST, 0), (MAC_RCR_ACS, 0), (MAC_RCR_RE, 0)] s;
          s = for_queues (rx_q_count p) (mac_prepare_rx_stop E rounds) s;
          s = mwrite MAC_RQEC 0 s
      in fold (\<lambda>c. mset E (dma_regs c + DMA_CH_RCR) [(DMA_CH_RCR_SR, 0)]) (rx_channels p) s)"

section \<open>Flow control\<close>

definition mac_disable_tx_flow_control :: "env \<Rightarrow> mac_pdata \<Rightarrow> kern \<Rightarrow> kern" where
  "mac_disable_tx_flow_control E p s =
     (let s = for_queues (rx_q_count p) (\<lambda>i. mset E (mtl_reg i MTL_Q_RQOMR) [(MTL_Q_RQOMR_EHFC, 0)]) s
      in for_queues (min (tx_q_count p) 7)
           (\<lambda>i. mset E (MAC_Q0TFCR + MAC_QTFCR_INC * word_of_nat i) [(MAC_Q0TFCR_TFE, 0)]) s)"

definition mac_enable_tx_flow_control :: "env \<Rightarrow> mac_pdata \<Rightarrow> kern \<Rightarrow> kern" where
  "mac_enable_tx_flow_control E p s =
     (let s = for_queues (rx_q_count p) (\<lambda>i. mset E (mtl_reg i MTL_Q_RQOMR) [(MTL_Q_RQOMR_EHFC, 1)]) s
      in for_queues (min (tx_q_count p) 7)
           (\<lambda>i. mset E (MAC_Q0TFCR + MAC_QTFCR_INC * word_of_nat i)
                  [(MAC_Q0TFCR_TFE, 1), (MAC_Q0TFCR_PT, 0xffff)]) s)"

definition mac_disable_rx_flow_control :: "env \<Rightarrow> kern \<Rightarrow> kern" where
  "mac_disable_rx_flow_control E = mset E MAC_RFCR [(MAC_RFCR_RFE, 0)]"

definition mac_enable_rx_flow_control :: "env \<Rightarrow> kern \<Rightarrow> kern" where
  "mac_enable_rx_flow_control E = mset E MAC_RFCR [(MAC_RFCR_RFE, 1)]"

definition mac_config_tx_flow_control :: "env \<Rightarrow> mac_pdata \<Rightarrow> kern \<Rightarrow> kern" where
  "mac_config_tx_flow_control E p =
     (if tx_pause p then mac_enable_tx_flow_control E p else mac_disable_tx_flow_control E p)"

definition mac_config_rx_flow_control :: "env \<Rightarrow> mac_pdata \<Rightarrow> kern \<Rightarrow> kern" where
  "mac_config_rx_flow_control E p =
     (if rx_pause p then mac_enable_rx_flow_control E else mac_disable_rx_flow_control E)"

definition mac_config_flow_control :: "env \<Rightarrow> mac_pdata \<Rightarrow> kern \<Rightarrow> kern" where
  "mac_config_flow_control E p s = mac_config_rx_flow_control E p (mac_config_tx_flow_control E p s)"

definition mac_config_flow_control_threshold :: "env \<Rightarrow> mac_pdata \<Rightarrow> kern \<Rightarrow> kern" where
  "mac_config_flow_control_threshold E p =
     for_queues (rx_q_count p) (\<lambda>i. mset E (mtl_reg i MTL_Q_RQFCR) [(MTL_Q_RQFCR_RFA, 2), (MTL_Q_RQFCR_RFD, 4)])"

section \<open>Queues and channels\<close>

definition mac_config_rx_coalesce :: "env \<Rightarrow> mac_pdata \<Rightarrow> kern \<Rightarrow> kern" where
  "mac_config_rx_coalesce E p =
     fold (\<lambda>c. mset E (dma_regs c + DMA_CH_RIWT) [(DMA_CH_RIWT_RWT, riwt p)]) (rx_channels p)"

definition mac_config_rx_fep_enable :: "env \<Rightarrow> mac_pdata \<Rightarrow> kern \<Rightarrow> kern" where
  "mac_config_rx_fep_enable E p =
     for_queues (rx_q_count p) (\<lambda>i. mset E (mtl_reg i MTL_Q_RQOMR) [(MTL_Q_RQOMR_FEP, 1)])"

definition mac_config_rx_fup_enable :: "env \<Rightarrow> mac_pdata \<Rightarrow> kern \<Rightarrow> kern" where
  "mac_config_rx_fup_enable E p =
     for_queues (rx_q_count p) (\<lambda>i. mset E (mtl_reg i MTL_Q_RQOMR) [(MTL_Q_RQOMR_FUP, 1)])"

definition mac_config_tx_coalesce :: "kern \<Rightarrow> kern" where
  "mac_config_tx_coalesce s = s"

definition mac_config_rx_buffer_size :: "env \<Rightarrow> mac_pdata \<Rightarrow> kern \<Rightarrow> kern" where
  "mac_config_rx_buffer_size E p =
     fold (\<lambda>c. mset E (dma_regs c + DMA_CH_RCR) [(DMA_CH_RCR_RBSZ, rx_buf_size p)]) (rx_channels p)"

definition mac_config_tso_mode :: "env \<Rightarrow> mac_pdata \<Rightarrow> kern \<Rightarrow> kern" where
  "mac_config_tso_mode E p =
     fold (\<lambda>c s. if hw_tso p then mset E (dma_regs c + DMA_CH_TCR) [(DMA_CH_TCR_TSE, 1)] s else s) (tx_channels p)"

definition mac_config_sph_mode :: "env \<Rightarrow> mac_pdata \<Rightarrow> kern \<Rightarrow> kern" where
  "mac_config_sph_mode E p s =
     (let s = fold (\<lambda>c. mset E (dma_regs c + DMA_CH_CR) [(DMA_CH_CR_SPH, 1)]) (rx_channels p) s
      in mset E MAC_RCR [(MAC_RCR_HDSMS, MAC_SPH_HDSMS_SIZE)] s)"

text \<open>
  The watchdog timer counts in units of 256 clock cycles. \<open>rate\<close> is an \<open>unsigned long\<close>, so the
  first product has 64 bits and the second 32; None is a division by 0.
\<close>

definition mac_usec_to_riwt :: "mac_pdata \<Rightarrow> u32 \<Rightarrow> u32" where
  "mac_usec_to_riwt p usec =
     word_of_nat ((unat usec * (sysclk_rate p div 1000000)) mod 2 ^ 64 div 256)"

definition mac_riwt_to_usec :: "mac_pdata \<Rightarrow> u32 \<Rightarrow> u32 option" where
  "mac_riwt_to_usec p r =
     (let rate = sysclk_rate p
      in if rate div 1000000 = 0 then None
         else Some (word_of_nat (unat (r * 256) div (rate div 1000000))))"

definition mac_config_rx_threshold :: "env \<Rightarrow> mac_pdata \<Rightarrow> u32 \<Rightarrow> kern \<Rightarrow> kern" where
  "mac_config_rx_threshold E p val =
     for_queues (rx_q_count p) (\<lambda>i. mset E (mtl_reg i MTL_Q_RQOMR) [(MTL_Q_RQOMR_RTC, val)])"

definition mac_config_mtl_mode :: "env \<Rightarrow> mac_pdata \<Rightarrow> kern \<Rightarrow> kern" where
  "mac_config_mtl_mode E p s =
     (let s = mset E MTL_OMR [(MTL_OMR_ETSALG, MTL_ETSALG_WRR)] s;
          s = for_queues (tc_cnt p) (\<lambda>i s. mset E (mtl_reg i MTL_TC_QWR) [(MTL_TC_QWR_QW, 1)]
                (mset E (mtl_reg i MTL_TC_ETSCR) [(MTL_TC_ETSCR_TSA, MTL_TSA_ETS)] s)) s
      in mset E MTL_OMR [(MTL_OMR_RAA, MTL_RAA_SP)] s)"

text \<open>Transmit queues to traffic classes: one queue, and the queues of class \<open>i\<close>.\<close>

definition map_queue :: "env \<Rightarrow> nat \<Rightarrow> nat \<times> kern \<Rightarrow> nat \<times> kern" where
  "map_queue E i = (\<lambda>(queue, s).
     (queue + 1, mset E (mtl_reg queue MTL_Q_TQOMR) [(MTL_Q_TQOMR_Q2TCMAP, word_of_nat i)] s))"

definition map_class :: "env \<Rightarrow> nat \<Rightarrow> nat \<Rightarrow> nat \<Rightarrow> nat \<times> kern \<Rightarrow> nat \<times> kern" where
  "map_class E qptc qptc_extra i x =
     (let x = (map_queue E i ^^ qptc) x in if i < qptc_extra then map_queue E i x else x)"

text \<open>
  Priorities to receive queues: the bits of the priorities from \<open>prio\<close> on, and one round of the loop
  on (priority, register, value, state). Four queues share a register, which is written when it is
  full or the queues are done.
\<close>

definition prio_mask :: "nat \<Rightarrow> nat \<Rightarrow> u32" where
  "prio_mask prio n = fold (\<lambda>j m. m OR push_bit (prio + j) 1) [0..<n] 0"

definition map_prio :: "nat \<Rightarrow> nat \<Rightarrow> nat \<Rightarrow> nat \<Rightarrow> nat \<times> u32 \<times> u32 \<times> kern \<Rightarrow> nat \<times> u32 \<times> u32 \<times> kern" where
  "map_prio prio_queues ppq ppq_extra i = (\<lambda>(prio, reg, regval, s).
     (let n = ppq + (if i < ppq_extra then 1 else 0);
          regval = regval OR push_bit (i mod 4 * 8) (prio_mask prio n);
          prio = prio + n
      in if (i + 1) mod 4 \<noteq> 0 \<and> i + 1 \<noteq> prio_queues then (prio, reg, regval, s)
         else (prio, reg + MAC_RQMC_INC, 0, mwrite reg regval s)))"

definition orset :: "env \<Rightarrow> u32 \<Rightarrow> u32 \<Rightarrow> kern \<Rightarrow> kern" where
  "orset E a v s = (let (regval, s) = mread E a s in mwrite a (regval OR v) s)"

definition mac_config_queue_mapping :: "env \<Rightarrow> mac_pdata \<Rightarrow> kern \<Rightarrow> kern option" where
  "mac_config_queue_mapping E p s =
     (if tc_cnt p = 0 \<or> rx_q_count p = 0 then None
      else
        let qptc = tx_q_count p div tc_cnt p; qptc_extra = tx_q_count p mod tc_cnt p;
            (queue, s) = fold (map_class E qptc qptc_extra) [0..<tc_cnt p] (0, s);
            prio_queues = min 8 (rx_q_count p);
            ppq = 8 div prio_queues; ppq_extra = 8 mod prio_queues;
            (prio, reg, regval, s) = fold (map_prio prio_queues ppq ppq_extra) [0..<prio_queues] (0, MAC_RQMC, 0, s);
            s = orset E MTL_RQDCM0R 0x03020100 s;
            s = orset E (MTL_RQDCM0R + MTL_RQDCM_INC) 0x07060504 s;
            s = orset E (MTL_RQDCM0R + MTL_RQDCM_INC + MTL_RQDCM_INC) 0x0b0a0908 s
        in Some s)"

text \<open>Not called: the sizes below are constants. None is a shift by more than 31 or a division by 0.\<close>

definition mac_calculate_per_queue_fifo :: "nat \<Rightarrow> nat \<Rightarrow> nat option" where
  "mac_calculate_per_queue_fifo fifo_size queue_count =
     (if 31 < fifo_size + 7 \<or> queue_count = 0 then None
      else let q_fifo_size = min 0x10000 (2 ^ (fifo_size + 7)) div queue_count;
               p_fifo = q_fifo_size div 256
           in Some (if p_fifo \<noteq> 0 then p_fifo - 1 else p_fifo))"

definition mac_config_tx_fifo_size :: "env \<Rightarrow> mac_pdata \<Rightarrow> kern \<Rightarrow> kern" where
  "mac_config_tx_fifo_size E p =
     for_queues (tx_q_count p) (\<lambda>i. mset E (mtl_reg i MTL_Q_TQOMR) [(MTL_Q_TQOMR_TQS, 0x3f)])"

definition mac_config_rx_fifo_size :: "env \<Rightarrow> mac_pdata \<Rightarrow> kern \<Rightarrow> kern" where
  "mac_config_rx_fifo_size E p =
     for_queues (rx_q_count p) (\<lambda>i. mset E (mtl_reg i MTL_Q_RQOMR) [(MTL_Q_RQOMR_RQS, 0x3f)])"

definition mac_config_tx_threshold :: "env \<Rightarrow> mac_pdata \<Rightarrow> u32 \<Rightarrow> kern \<Rightarrow> kern" where
  "mac_config_tx_threshold E p val =
     for_queues (tx_q_count p) (\<lambda>i. mset E (mtl_reg i MTL_Q_TQOMR) [(MTL_Q_TQOMR_TTC, val)])"

definition mac_config_rsf_mode :: "env \<Rightarrow> mac_pdata \<Rightarrow> u32 \<Rightarrow> kern \<Rightarrow> kern" where
  "mac_config_rsf_mode E p val =
     for_queues (rx_q_count p) (\<lambda>i. mset E (mtl_reg i MTL_Q_RQOMR) [(MTL_Q_RQOMR_RSF, val)])"

definition mac_config_tsf_mode :: "env \<Rightarrow> mac_pdata \<Rightarrow> u32 \<Rightarrow> kern \<Rightarrow> kern" where
  "mac_config_tsf_mode E p val =
     for_queues (tx_q_count p) (\<lambda>i. mset E (mtl_reg i MTL_Q_TQOMR) [(MTL_Q_TQOMR_TSF, val)])"

definition mac_config_osp_mode :: "env \<Rightarrow> mac_pdata \<Rightarrow> kern \<Rightarrow> kern" where
  "mac_config_osp_mode E p =
     fold (\<lambda>c. mset E (dma_regs c + DMA_CH_TCR) [(DMA_CH_TCR_OSP, osp_mode p)]) (tx_channels p)"

definition mac_config_pblx8 :: "env \<Rightarrow> mac_pdata \<Rightarrow> kern \<Rightarrow> kern" where
  "mac_config_pblx8 E p =
     fold (\<lambda>c. mset E (dma_regs c + DMA_CH_CR) [(DMA_CH_CR_PBLX8, pbl8 p)]) (channels p)"

text \<open>The readers of the burst lengths take the first channel; None without one.\<close>

definition mac_get_tx_pbl_val :: "env \<Rightarrow> mac_pdata \<Rightarrow> kern \<Rightarrow> (u32 \<times> kern) option" where
  "mac_get_tx_pbl_val E p s =
     (case channels p of [] \<Rightarrow> None
      | c # cs \<Rightarrow> (let (v, s) = mread E (dma_regs c + DMA_CH_TCR) s in Some (MAC_GET_REG_BITS v DMA_CH_TCR_PBL, s)))"

definition mac_config_tx_pbl_val :: "env \<Rightarrow> mac_pdata \<Rightarrow> kern \<Rightarrow> kern" where
  "mac_config_tx_pbl_val E p =
     fold (\<lambda>c. mset E (dma_regs c + DMA_CH_TCR) [(DMA_CH_TCR_PBL, tx_pbl_val p)]) (tx_channels p)"

definition mac_get_rx_pbl_val :: "env \<Rightarrow> mac_pdata \<Rightarrow> kern \<Rightarrow> (u32 \<times> kern) option" where
  "mac_get_rx_pbl_val E p s =
     (case channels p of [] \<Rightarrow> None
      | c # cs \<Rightarrow> (let (v, s) = mread E (dma_regs c + DMA_CH_RCR) s in Some (MAC_GET_REG_BITS v DMA_CH_RCR_PBL, s)))"

definition mac_config_rx_pbl_val :: "env \<Rightarrow> mac_pdata \<Rightarrow> kern \<Rightarrow> kern" where
  "mac_config_rx_pbl_val E p =
     fold (\<lambda>c. mset E (dma_regs c + DMA_CH_RCR) [(DMA_CH_RCR_PBL, rx_pbl_val p)]) (rx_channels p)"

end
