(* ===== verification/Mac_filter.thy ===== *)
theory Mac_filter
  imports Mac_hw
begin

text \<open>
  The receive filters of the Ethernet driver do what they are for: the VLAN hash table lets the
  active VLANs through, the address registers and the address hash table hold the addresses of the
  interface.
\<close>

section \<open>The checksum of a VLAN number\<close>

text \<open>
  The textbook form of the bit-serial CRC-32: one step for each bit of the message, with no bytes.
\<close>

definition crc_step :: "bool \<Rightarrow> u32 \<Rightarrow> u32" where
  "crc_step b crc = (if bit crc 0 \<noteq> b then drop_bit 1 crc XOR 0xedb88320 else drop_bit 1 crc)"

definition crc_bits :: "bool list \<Rightarrow> u32 \<Rightarrow> u32" where
  "crc_bits bs crc = fold crc_step bs crc"

lemma temp_bit: "((crc AND 1) XOR ucast (b :: u8)) AND 1 \<noteq> (0 :: u32) \<longleftrightarrow> bit crc 0 \<noteq> bit b 0"
  by (simp add: and_one_eq mod_2_eq_odd even_xor_iff bit_0 flip: bit_0) (auto simp: bit_simps)

lemma crc_loop_step:
  assumes "i < n"
  shows "crc_loop data n i b crc =
    (let b' = (if i mod 8 = 0 then data ! (i div 8) else b)
     in crc_loop data n (Suc i) (drop_bit 1 b') (crc_step (bit b' 0) crc))"
  using assms by (subst crc_loop.simps) (simp only: Let_def temp_bit crc_step_def if_True Suc_eq_plus1)

lemma crc_loop_bits:
  assumes "i mod 8 \<noteq> 0 \<Longrightarrow> b = drop_bit (i mod 8) (data ! (i div 8))"
  shows "crc_loop data n i b crc = crc_bits (map (\<lambda>k. bit (data ! (k div 8)) (k mod 8)) [i..<n]) crc"
  using assms
proof (induction "n - i" arbitrary: i b crc)
  case 0
  then show ?case by (subst crc_loop.simps) (simp add: crc_bits_def)
next
  case (Suc m)
  then have lt: "i < n" by simp
  define b' where "b' = (if i mod 8 = 0 then data ! (i div 8) else b)"
  have b': "b' = drop_bit (i mod 8) (data ! (i div 8))" using Suc.prems by (simp add: b'_def)
  have "drop_bit 1 b' = drop_bit (Suc i mod 8) (data ! (Suc i div 8))" if "Suc i mod 8 \<noteq> 0"
  proof -
    from that have "Suc i mod 8 = Suc (i mod 8)" "Suc i div 8 = i div 8"
      by (simp_all add: mod_Suc div_Suc split: if_splits)
    then show ?thesis by (simp add: b')
  qed
  from Suc.hyps(1) [OF _ this, of "crc_step (bit b' 0) crc"] Suc.hyps(2)
  have "crc_loop data n (Suc i) (drop_bit 1 b') (crc_step (bit b' 0) crc) =
      crc_bits (map (\<lambda>k. bit (data ! (k div 8)) (k mod 8)) [Suc i..<n]) (crc_step (bit b' 0) crc)"
    by simp
  moreover have "bit b' 0 = bit (data ! (i div 8)) (i mod 8)" by (simp add: b' bit_drop_bit_eq)
  ultimately show ?case
    by (simp only: crc_loop_step [OF lt] Let_def b'_def [symmetric] upt_conv_Cons [OF lt] list.map crc_bits_def
        fold_Cons o_apply)
qed

lemma vid_crc: "mac_vid_crc32_le vid = crc_bits (map (bit vid) [0..<12]) (NOT 0)"
proof -
  have "bit ([ucast vid, ucast (drop_bit 8 vid)] ! (k div 8) :: u8) (k mod 8) = bit vid k" if "k < 12" for k
  proof (cases "k < 8")
    case False
    then have "k div 8 = 1" "k mod 8 = k - 8" using that by (simp_all add: div_if mod_if)
    moreover have "k - 8 < 8" using that by linarith
    ultimately show ?thesis using False by (simp add: bit_simps)
  qed (simp add: bit_simps)
  then show ?thesis
    unfolding mac_vid_crc32_le_def by (subst crc_loop_bits) (auto intro!: arg_cong2 [where f = crc_bits])
qed

section \<open>The VLAN hash table\<close>

lemma vlan_hash_less: "vlan_hash vid < 16"
proof -
  have "unat (drop_bit 28 (w :: u32)) < 16" for w
    using unat_u32_less [of w] by (subst unat_drop_bit_eq) (simp add: drop_bit_eq_div less_mult_imp_div_less)
  then show ?thesis by (simp add: vlan_hash_def)
qed

lemma fold_or_bits:
  "n < LENGTH('a) \<Longrightarrow> bit (fold (\<lambda>x t. t OR push_bit (h x) 1) xs (w :: 'a::len word)) n \<longleftrightarrow>
    bit w n \<or> (\<exists>x \<in> set xs. h x = n)"
  by (induction xs arbitrary: w) (auto simp: bit_simps)

lemma bit_vlan_table:
  "k < 16 \<Longrightarrow> bit (vlan_hash_table vlans) k \<longleftrightarrow> (\<exists>vid \<in> vlans. vid < 4096 \<and> vlan_hash (word_of_nat vid) = k)"
  unfolding vlan_hash_table_def by (subst fold_or_bits) auto

text \<open>
  The VLAN hash table is exact. After it is written, a bit of the hash register is set if and only
  if it is the hash of an active VLAN, so that every active VLAN passes, and the rest of the register
  is as it was. The hash of a number is made of the upper four bits of the reflected, inverted CRC-32
  of its 12 bits, taken one after the other.
\<close>

theorem vlan_hash_exact:
  assumes "mac_card E plain" "0x58 \<in> plain" "k < 32"
  shows "bit (mregs (mac_update_vlan_hash_table E p s) 0x58) k \<longleftrightarrow>
    (if k < 16 then \<exists>vid \<in> active_vlans p. vid < 4096 \<and>
        k = unat (drop_bit 28 (bitrev32 (NOT (crc_bits (map (bit (word_of_nat vid :: u16)) [0..<12]) (NOT 0)))))
     else bit (mregs s 0x58) k)"
proof -
  have "bit (mregs (mac_update_vlan_hash_table E p s) 0x58) k \<longleftrightarrow>
      (if k < 16 then bit (vlan_hash_table (active_vlans p)) k else bit (mregs s 0x58) k)"
    unfolding mac_update_vlan_hash_table_def mac_card.regs_mset [OF assms(1,2)]
    using assms(3) by (simp add: bit_MAC_SET bit_simps)
  then show ?thesis by (auto simp: bit_vlan_table vlan_hash_def vid_crc)
qed

text \<open>The active VLANs 5 and 4000; their hash bits are set.\<close>

definition small_pdata :: mac_pdata where
  "small_pdata = \<lparr>channels = [\<lparr>queue_index = 0, dma_regs = 0x3100, has_tx_ring = True, has_rx_ring = True\<rparr>],
     tx_q_count = 1, rx_q_count = 1, hw_tso = True, hw_rss = True, tc_cnt = 1, hash_table_size = 64,
     addn_mac = 3, nd_addr = [2, 0, 0, 0, 0, 1], nd_mtu = 1500, f_rxcsum = True, f_vlan_filter = True,
     f_vlan_rx = True, f_rxhash = True, promisc = False, allmulti = False,
     uc_addrs = [[2, 0, 0, 0, 0, 7]], mc_addrs = [[1, 0, 0x5e, 0, 0, 1]], active_vlans = {5, 4000},
     tx_pause = True, rx_pause = True, riwt = 0, rx_buf_size = 2048, osp_mode = 1, pbl8 = 1,
     tx_pbl_val = 8, rx_pbl_val = 8, sysclk_rate = 125000000\<rparr>"

theorem vlan_hash_exact_witness:
  "bit (mregs (mac_update_vlan_hash_table mac_env small_pdata empty_kern) 0x58) (vlan_hash 5)"
  using vlan_hash_exact [OF plain_card.mac_card_axioms, of "vlan_hash 5" small_pdata empty_kern]
    vlan_hash_less [of 5] by (auto simp: small_pdata_def vlan_hash_def vid_crc)

section \<open>The address registers\<close>

text \<open>What a pair of address registers holds for an address, or for none.\<close>

fun reg_pair :: "u8 list option \<Rightarrow> u32 \<times> u32" where
  "reg_pair None = (0, 0)"
| "reg_pair (Some a) = (MAC_SET_REG_BITS (addr_hi a) (31, 1) 1, addr_lo a)"

fun fill_regs :: "u8 list option list \<Rightarrow> u32 \<Rightarrow> (u32 \<Rightarrow> u32) \<Rightarrow> u32 \<Rightarrow> u32" where
  "fill_regs [] reg R = R"
| "fill_regs (ha # has) reg R = fill_regs has (reg + 8) (R(reg := fst (reg_pair ha), reg + 4 := snd (reg_pair ha)))"

lemma set_mac_regs_fill:
  "set_mac_regs has reg s = (r, s') \<Longrightarrow> r = reg + word_of_nat (8 * length has) \<and> mregs s' = fill_regs has reg (mregs s)"
proof (induction has reg s arbitrary: r s' rule: set_mac_regs.induct)
  case (2 ha has reg s)
  obtain s1 where s1: "mac_set_mac_reg ha reg s = (reg + 8, s1)"
      "mregs s1 = (mregs s)(reg := fst (reg_pair ha), reg + 4 := snd (reg_pair ha))"
    by (cases ha) (simp_all add: mac_set_mac_reg_def add.assoc)
  with 2 have "set_mac_regs has (reg + 8) s1 = (r, s')" by simp
  from "2.IH" [OF s1(1) [symmetric] refl this] s1(2) show ?case by (simp add: algebra_simps fun_upd_def)
qed simp

lemma fill_regs_append: "fill_regs (xs @ ys) reg R = fill_regs ys (reg + word_of_nat (8 * length xs)) (fill_regs xs reg R)"
  by (induction xs arbitrary: reg R) (simp_all add: algebra_simps)

text \<open>Registers as numbers, so that they can be compared.\<close>

lemma fill_regs_other:
  "unat a < unat reg \<or> unat reg + 8 * length has \<le> unat a \<Longrightarrow> unat reg + 8 * length has < 2 ^ 32 \<Longrightarrow>
   fill_regs has reg R a = R a"
proof (induction has arbitrary: reg R)
  case (Cons ha has)
  then have step: "unat (reg + 8) = unat reg + 8" "unat (reg + 4) = unat reg + 4"
    by (simp_all add: unat_word_ariths)
  then have "a \<noteq> reg" "a \<noteq> reg + 4" using Cons.prems by auto
  moreover have "fill_regs has (reg + 8) R' a = R' a" for R'
    using Cons.prems step by (intro Cons.IH) auto
  ultimately show ?case by simp
qed simp

lemma fill_regs_nth:
  "i < length has \<Longrightarrow> unat reg + 8 * length has < 2 ^ 32 \<Longrightarrow>
   fill_regs has reg R (reg + 8 * word_of_nat i) = fst (reg_pair (has ! i)) \<and>
   fill_regs has reg R (reg + 8 * word_of_nat i + 4) = snd (reg_pair (has ! i))"
proof (induction has arbitrary: i reg R)
  case (Cons ha has)
  then have step: "unat (reg + 8) = unat reg + 8" "unat (reg + 4) = unat reg + 4"
    by (simp_all add: unat_word_ariths)
  show ?case
  proof (cases i)
    case 0
    have "fill_regs has (reg + 8) R' reg = R' reg" "fill_regs has (reg + 8) R' (reg + 4) = R' (reg + 4)" for R'
      using Cons.prems step by (auto intro!: fill_regs_other)
    then show ?thesis using 0 by simp
  next
    case (Suc j)
    then show ?thesis using Cons.IH [of j "reg + 8"] Cons.prems step by (simp add: algebra_simps)
  qed
qed simp

text \<open>
  The addresses the registers should hold: all of the two kinds that fit, each kind as a whole.
\<close>

definition addr_entries :: "nat \<Rightarrow> u8 list list \<Rightarrow> u8 list list \<Rightarrow> u8 list option list" where
  "addr_entries n uc mc =
     (let xs = (if length uc > n then [] else if length uc + length mc > n then uc else uc @ mc)
      in map Some xs @ replicate (n - length xs) None)"

lemma length_addr_entries [simp]: "length (addr_entries n uc mc) = n"
  by (simp add: addr_entries_def Let_def)

text \<open>Modes do not touch the address registers.\<close>

definition addr_area :: "u32 \<Rightarrow> bool" where
  "addr_area a \<longleftrightarrow> a \<noteq> 0x8 \<and> a \<noteq> 0x50"

lemma addr_areaI: "0x50 < unat a \<Longrightarrow> addr_area a"
  by (auto simp: addr_area_def)

lemma mset_other: "b \<noteq> a \<Longrightarrow> mregs (mset E a fs s) b = mregs s b"
  by (simp add: mset_def split_def Let_def)

lemma promiscuous_regs: "addr_area a \<Longrightarrow> mregs (mac_set_promiscuous_mode E p e s) a = mregs s a"
  by (simp add: addr_area_def mac_set_promiscuous_mode_def mac_disable_rx_vlan_filtering_def
      mac_enable_rx_vlan_filtering_def Let_def split_def mset_other)

lemma allmulti_regs: "addr_area a \<Longrightarrow> mregs (mac_set_all_multicast_mode E e s) a = mregs s a"
  by (simp add: addr_area_def mac_set_all_multicast_mode_def Let_def split_def mset_other)

lemma fill_regs_cong:
  "(\<And>a. addr_area a \<Longrightarrow> R a = R' a) \<Longrightarrow> addr_area b \<Longrightarrow> fill_regs has reg R b = fill_regs has reg R' b"
proof (induction has arbitrary: reg R R')
  case (Cons ha has)
  show ?case unfolding fill_regs.simps by (rule Cons.IH) (simp_all add: Cons.prems)
qed simp

lemma addn_addrs_fill:
  assumes "addr_area a"
  shows "mregs (mac_set_mac_addn_addrs E p s) a =
    fill_regs (addr_entries (addn_mac p) (uc_addrs p) (mc_addrs p)) 0x308 (mregs s) a"
proof -
  let ?n = "addn_mac p" and ?uc = "uc_addrs p" and ?mc = "mc_addrs p"
  have run: "mregs (snd (set_mac_regs has reg t)) = fill_regs has reg (mregs t)"
    and reg: "fst (set_mac_regs has reg t) = reg + word_of_nat (8 * length has)" for has reg t
    using set_mac_regs_fill [of has reg t] by (metis prod.collapse)+
  consider "?n < length ?uc" | "length ?uc \<le> ?n" "?n < length ?uc + length ?mc" | "length ?uc + length ?mc \<le> ?n"
    by linarith
  then show ?thesis
  proof cases
    case 1
    then show ?thesis
      using fill_regs_cong [OF promiscuous_regs assms] by (simp add: mac_set_mac_addn_addrs_def addr_entries_def run)
  next
    case 2
    then have "?n - length ?uc < length ?mc" by linarith
    with 2 show ?thesis
      using fill_regs_cong [OF allmulti_regs assms]
      by (simp add: mac_set_mac_addn_addrs_def addr_entries_def run reg split_def Let_def fill_regs_append)
  next
    case 3
    then have "\<not> ?n - length ?uc < length ?mc" "?n - length ?uc - length ?mc = ?n - (length ?uc + length ?mc)" by linarith+
    with 3 show ?thesis
      by (simp add: mac_set_mac_addn_addrs_def addr_entries_def run reg split_def Let_def fill_regs_append algebra_simps)
  qed
qed

lemma promiscuous_on:
  assumes "mac_card E plain" "0x8 \<in> plain"
  shows "MAC_GET_REG_BITS (mregs (mac_set_promiscuous_mode E p True s) 0x8) (0, 1) = 1"
  using mac_card.read_value [OF assms]
  by (simp add: mac_set_promiscuous_mode_def mac_disable_rx_vlan_filtering_def Let_def split_def
      mac_card.regs_mset [OF assms] MAC_GET_other MAC_GET_mod in_word_def mask_eq_exp_minus_1)

text \<open>
  The address registers of the interface are filled as they should be, on every card: with
  \<open>addn_mac\<close> (at most 31) pairs of registers, they hold the unicast addresses if all of them fit, then
  the multicast addresses if they fit as well, each enabled, and the rest of the pairs is cleared. If
  the unicast addresses do not fit the card receives everything.
\<close>

theorem address_registers_filled:
  assumes "addn_mac p \<le> 31" "i < addn_mac p"
  shows "(let R = mregs (mac_set_mac_addn_addrs E p s);
              entry = addr_entries (addn_mac p) (uc_addrs p) (mc_addrs p) ! i
          in (R (0x308 + 8 * word_of_nat i), R (0x308 + 8 * word_of_nat i + 4)) = reg_pair entry) \<and>
    (mac_card E plain \<and> 0x8 \<in> plain \<and> addn_mac p < length (uc_addrs p) \<longrightarrow>
      MAC_GET_REG_BITS (mregs (mac_set_mac_addn_addrs E p s) 0x8) (0, 1) = 1)"
proof -
  have "unat (0x308 + 8 * word_of_nat i :: u32) = 0x308 + 8 * i" "unat (0x308 + 8 * word_of_nat i + 4 :: u32) = 0x308 + 8 * i + 4"
    using assms by (simp_all add: unat_word_ariths)
  then have area: "addr_area (0x308 + 8 * word_of_nat i)" "addr_area (0x308 + 8 * word_of_nat i + 4)"
    by (auto intro!: addr_areaI)
  have "fill_regs (addr_entries n uc mc) 0x308 R a = R a" if "n \<le> 31" "a = 0x8" for n uc mc R a
    using that by (intro fill_regs_other) auto
  then have off: "fill_regs (replicate n None) 0x308 R 0x8 = R 0x8" if "n \<le> 31" for n R
    using that fill_regs_other [of "0x8" "0x308" "replicate n None" R] by simp
  have "MAC_GET_REG_BITS (mregs (mac_set_mac_addn_addrs E p s) 0x8) (0, 1) = 1"
    if "mac_card E plain" "0x8 \<in> plain" "addn_mac p < length (uc_addrs p)"
    using set_mac_regs_fill [of "replicate (addn_mac p) None" "0x308" "mac_set_promiscuous_mode E p True s"]
      that promiscuous_on [OF that(1,2), of p s] off [OF assms(1)]
    by (simp add: mac_set_mac_addn_addrs_def) (metis prod.collapse)
  then show ?thesis
    using fill_regs_nth [of i "addr_entries (addn_mac p) (uc_addrs p) (mc_addrs p)" "0x308"] assms
      addn_addrs_fill [OF area(1), of E p s] addn_addrs_fill [OF area(2), of E p s]
    by (simp add: Let_def prod_eq_iff)
qed

theorem address_registers_filled_witness:
  "mregs (mac_set_mac_addn_addrs mac_env small_pdata empty_kern) 0x308 = 0x80000700"
  using address_registers_filled [of small_pdata 0 mac_env empty_kern UNIV]
  by (simp add: small_pdata_def addr_entries_def Let_def addr_hi_def MAC_SET_REG_BITS_def genmask_def mask_eq_exp_minus_1)

section \<open>The address hash table\<close>

text \<open>The hash of an address: the upper 6, 7 or 8 bits, by the size of the table.\<close>

definition addr_hash :: "(u8 list \<Rightarrow> u32) \<Rightarrow> nat \<Rightarrow> u8 list \<Rightarrow> nat" where
  "addr_hash crc32 shift addr = unat (drop_bit shift (bitrev32 (NOT (crc32 addr))))"

lemma addr_hash_less: "24 \<le> shift \<Longrightarrow> shift < 32 \<Longrightarrow> addr_hash crc32 shift addr < 2 ^ (32 - shift)"
proof -
  assume "shift < 32"
  then have "unat w < 2 ^ (32 - shift) * 2 ^ shift" for w :: u32
    using unat_u32_less [of w] by (simp flip: power_add)
  then show ?thesis
    unfolding addr_hash_def by (subst unat_drop_bit_eq) (simp add: drop_bit_eq_div less_mult_imp_div_less)
qed

lemma hash_add_ok:
  assumes "24 \<le> shift" "shift < 32" "length t = 8"
  shows "\<exists>t'. hash_add crc32 shift a (Some t) = Some t' \<and> length t' = 8 \<and>
    (\<forall>h < 256. bit (t' ! (h div 32)) (h mod 32) \<longleftrightarrow> bit (t ! (h div 32)) (h mod 32) \<or> addr_hash crc32 shift a = h)"
proof -
  define c where "c = drop_bit shift (bitrev32 (NOT (crc32 a)))"
  have h: "addr_hash crc32 shift a = unat c" by (simp add: addr_hash_def c_def)
  have "(2 :: nat) ^ (32 - shift) \<le> 2 ^ 8" using assms(1) by (intro power_increasing) auto
  then have less: "unat c < 256" using addr_hash_less [OF assms(1,2), of crc32 a] h by simp
  have q: "unat (drop_bit 5 c) = unat c div 32" by (subst unat_drop_bit_eq) (simp add: drop_bit_eq_div)
  have r: "unat (c AND 0x1f) = unat c mod 32"
    using take_bit_eq_mod [of 5 "unat c"] by (simp add: take_bit_eq_mask mask_eq_exp_minus_1 flip: unsigned_take_bit_eq) (simp add: unsigned_and_eq)
  let ?t = "t[unat c div 32 := (t ! (unat c div 32)) OR push_bit (unat c mod 32) 1]"
  have "hash_add crc32 shift a (Some t) = Some ?t"
    using assms less by (simp add: hash_add_def c_def [symmetric] q r Let_def)
  moreover have "bit (?t ! (x div 32)) (x mod 32) \<longleftrightarrow> bit (t ! (x div 32)) (x mod 32) \<or> unat c = x"
    if "x < 256" for x
  proof (cases "x div 32 = unat c div 32")
    case True
    then have "x mod 32 = unat c mod 32 \<longleftrightarrow> x = unat c" by (metis div_mult_mod_eq)
    moreover have "unat c div 32 < length t" using less assms(3) by simp
    ultimately show ?thesis using True by (auto simp: bit_simps)
  next
    case False
    then show ?thesis by auto
  qed
  ultimately show ?thesis using assms(3) by (simp add: h)
qed

lemma hash_fold_ok:
  assumes "24 \<le> shift" "shift < 32"
  shows "length t = 8 \<Longrightarrow> \<exists>t'. fold (hash_add crc32 shift) as (Some t) = Some t' \<and> length t' = 8 \<and>
    (\<forall>h < 256. bit (t' ! (h div 32)) (h mod 32) \<longleftrightarrow>
       bit (t ! (h div 32)) (h mod 32) \<or> (\<exists>a \<in> set as. addr_hash crc32 shift a = h))"
proof (induction "as" arbitrary: t)
  case (Cons a "as")
  obtain t1 where t1: "hash_add crc32 shift a (Some t) = Some t1" "length t1 = 8"
    "\<forall>h < 256. bit (t1 ! (h div 32)) (h mod 32) \<longleftrightarrow> bit (t ! (h div 32)) (h mod 32) \<or> addr_hash crc32 shift a = h"
    using hash_add_ok [OF assms Cons.prems] by blast
  obtain t2 where t2: "fold (hash_add crc32 shift) as (Some t1) = Some t2" "length t2 = 8"
    "\<forall>h < 256. bit (t2 ! (h div 32)) (h mod 32) \<longleftrightarrow>
       bit (t1 ! (h div 32)) (h mod 32) \<or> (\<exists>a \<in> set as. addr_hash crc32 shift a = h)"
    using Cons.IH [OF t1(2)] by blast
  have "fold (hash_add crc32 shift) (a # as) (Some t) = Some t2" by (simp add: t1(1) t2(1))
  moreover have "\<forall>h < 256. bit (t2 ! (h div 32)) (h mod 32) \<longleftrightarrow>
       bit (t ! (h div 32)) (h mod 32) \<or> (\<exists>a \<in> set (a # as). addr_hash crc32 shift a = h)"
    using t1(3) t2(3) by auto
  ultimately show ?case using t2(2) by blast
qed simp

lemma mwrites_other: "a \<notin> fst ` set ws \<Longrightarrow> mregs (mwrites ws s) a = mregs s a"
  by (induction ws s rule: mwrites.induct) auto

lemma mwrites_table:
  "j < n \<Longrightarrow> n \<le> 8 \<Longrightarrow>
   mregs (mwrites (map (\<lambda>i. (0x10 + 4 * word_of_nat i, f i)) [0..<n]) s) (0x10 + 4 * word_of_nat j) = f j"
proof (induction n)
  case (Suc n)
  have ap: "mwrites (xs @ ys) t = mwrites ys (mwrites xs t)" for xs ys t
    by (induction xs t rule: mwrites.induct) simp_all
  have "(0x10 + 4 * word_of_nat j :: u32) = 0x10 + 4 * word_of_nat n \<Longrightarrow> j = n"
    using Suc.prems by (drule_tac arg_cong [where f = unat]) (simp add: unat_word_ariths)
  then show ?case using Suc by (cases "j = n") (auto simp: ap)
qed simp

text \<open>
  The address hash filter is exact, for each size the hardware can have: the table on the stack is
  never left, and of the bits of the hash registers those are set that are the hash of a unicast or
  multicast address of the interface.
\<close>

theorem address_hash_exact:
  assumes "hash_table_size p \<in> {64, 128, 256}"
  shows "\<exists>s'. mac_set_mac_hash_table crc32 p s = Some s' \<and>
    (\<forall>h < hash_table_size p. bit (mregs s' (0x10 + 4 * word_of_nat (h div 32))) (h mod 32) \<longleftrightarrow>
       (\<exists>addr \<in> set (uc_addrs p) \<union> set (mc_addrs p).
          unat (drop_bit (26 - hash_table_size p div 128) (bitrev32 (NOT (crc32 addr)))) = h))"
proof -
  define shift where "shift = unat (26 - word_of_nat (hash_table_size p div 128) :: u32)"
  have shift: "shift = 26 - hash_table_size p div 128" "24 \<le> shift" "shift < 32"
    using assms by (auto simp: shift_def)
  obtain t where t: "hash_table_words crc32 p = Some t"
    "\<forall>h < 256. bit (t ! (h div 32)) (h mod 32) \<longleftrightarrow>
       (\<exists>a \<in> set (uc_addrs p @ mc_addrs p). addr_hash crc32 shift a = h)"
    using hash_fold_ok [OF shift(2,3), of "replicate 8 0" crc32 "uc_addrs p @ mc_addrs p"]
    unfolding hash_table_words_def Let_def shift_def [symmetric] by (auto simp: less_mult_imp_div_less)
  have le: "hash_table_size p div 32 \<le> 8" "hash_table_size p \<le> 256" using assms by auto
  have "h div 32 < hash_table_size p div 32" if "h < hash_table_size p" for h
    using that assms by (auto simp: less_mult_imp_div_less)
  then have "mregs (mwrites (map (\<lambda>i. (0x10 + 4 * word_of_nat i, t ! i)) [0..<hash_table_size p div 32]) s)
      (0x10 + 4 * word_of_nat (h div 32)) = t ! (h div 32)" if "h < hash_table_size p" for h
    using that mwrites_table le(1) by blast
  then show ?thesis
    using t le by (simp add: mac_set_mac_hash_table_def addr_hash_def shift(1))
qed

theorem address_hash_exact_witness:
  "\<exists>s'. mac_set_mac_hash_table (\<lambda>addr. 0) small_pdata empty_kern = Some s' \<and> bit (mregs s' 0x14) 31"
proof -
  have "bitrev32 (- 1) = - 1" by (simp add: bitrev32_def upt_rec)
  then have *: "\<exists>addr \<in> set (uc_addrs small_pdata) \<union> set (mc_addrs small_pdata).
      unat (drop_bit (26 - hash_table_size small_pdata div 128) (bitrev32 (NOT 0))) = 63"
    by (auto simp: small_pdata_def drop_bit_eq_div)
  have size: "hash_table_size small_pdata \<in> {64, 128, 256}" by (simp add: small_pdata_def)
  obtain s' where s': "mac_set_mac_hash_table (\<lambda>addr. 0) small_pdata empty_kern = Some s'"
    "\<forall>h < hash_table_size small_pdata. bit (mregs s' (0x10 + 4 * word_of_nat (h div 32))) (h mod 32) \<longleftrightarrow>
       (\<exists>addr \<in> set (uc_addrs small_pdata) \<union> set (mc_addrs small_pdata).
          unat (drop_bit (26 - hash_table_size small_pdata div 128) (bitrev32 (NOT 0))) = h)"
    using address_hash_exact [OF size, of "\<lambda>addr. 0" empty_kern] by blast
  have "63 < hash_table_size small_pdata" by (simp add: small_pdata_def)
  with s'(2) * have "bit (mregs s' (0x10 + 4 * word_of_nat (63 div 32))) (63 mod 32)" by blast
  then show ?thesis using s'(1) by auto
qed

end
