(* ===== verification/Mac_stat.thy ===== *)
theory Mac_stat
  imports Mac_hw
begin

text \<open>
  Counters, receive side scaling and interrupts of the Ethernet driver (bx_mac_hw.c). The hardware
  counters (MMC) are added to counters in memory, either those an interrupt names or all of them.
  The tables of receive side scaling are behind an address and a data register.
\<close>

section \<open>Register map\<close>

text \<open>Register offsets, and fields as position and length, from the headers.\<close>

abbreviation (input) DMA_CH_IER :: u32 where "DMA_CH_IER \<equiv> 0x38"
abbreviation (input) DMA_CH_IER_AIE :: "nat \<times> nat" where "DMA_CH_IER_AIE \<equiv> (14, 1)"
abbreviation (input) DMA_CH_IER_FBEE :: "nat \<times> nat" where "DMA_CH_IER_FBEE \<equiv> (12, 1)"
abbreviation (input) DMA_CH_IER_NIE :: "nat \<times> nat" where "DMA_CH_IER_NIE \<equiv> (15, 1)"
abbreviation (input) DMA_CH_IER_RBUE :: "nat \<times> nat" where "DMA_CH_IER_RBUE \<equiv> (7, 1)"
abbreviation (input) DMA_CH_IER_RIE :: "nat \<times> nat" where "DMA_CH_IER_RIE \<equiv> (6, 1)"
abbreviation (input) DMA_CH_IER_RSE :: "nat \<times> nat" where "DMA_CH_IER_RSE \<equiv> (8, 1)"
abbreviation (input) DMA_CH_IER_TBUE :: "nat \<times> nat" where "DMA_CH_IER_TBUE \<equiv> (2, 1)"
abbreviation (input) DMA_CH_IER_TIE :: "nat \<times> nat" where "DMA_CH_IER_TIE \<equiv> (0, 1)"
abbreviation (input) DMA_CH_IER_TXSE :: "nat \<times> nat" where "DMA_CH_IER_TXSE \<equiv> (1, 1)"
abbreviation (input) DMA_CH_SR :: u32 where "DMA_CH_SR \<equiv> 0x60"
abbreviation (input) DMA_SBMR :: u32 where "DMA_SBMR \<equiv> 0x3004"
abbreviation (input) DMA_SBMR_BLEN_256 :: "nat \<times> nat" where "DMA_SBMR_BLEN_256 \<equiv> (7, 1)"
abbreviation (input) DMA_SBMR_EAME :: "nat \<times> nat" where "DMA_SBMR_EAME \<equiv> (11, 1)"
abbreviation (input) DMA_SBMR_UNDEF :: "nat \<times> nat" where "DMA_SBMR_UNDEF \<equiv> (0, 1)"
abbreviation (input) MAC_DMA_INTERRUPT_MASK :: u32 where "MAC_DMA_INTERRUPT_MASK \<equiv> 0x31c7"
abbreviation (input) MAC_IER :: u32 where "MAC_IER \<equiv> 0xb4"
abbreviation (input) MAC_IER_TSIE :: "nat \<times> nat" where "MAC_IER_TSIE \<equiv> (12, 1)"
abbreviation (input) MAC_RSSAR :: u32 where "MAC_RSSAR \<equiv> 0xc88"
abbreviation (input) MAC_RSSAR_ADDRT :: "nat \<times> nat" where "MAC_RSSAR_ADDRT \<equiv> (2, 1)"
abbreviation (input) MAC_RSSAR_CT :: "nat \<times> nat" where "MAC_RSSAR_CT \<equiv> (1, 1)"
abbreviation (input) MAC_RSSAR_OB :: "nat \<times> nat" where "MAC_RSSAR_OB \<equiv> (0, 1)"
abbreviation (input) MAC_RSSAR_RSSIA :: "nat \<times> nat" where "MAC_RSSAR_RSSIA \<equiv> (8, 8)"
abbreviation (input) MAC_RSSCR :: u32 where "MAC_RSSCR \<equiv> 0xc80"
abbreviation (input) MAC_RSSCR_RSSE :: "nat \<times> nat" where "MAC_RSSCR_RSSE \<equiv> (0, 1)"
abbreviation (input) MAC_RSSDR :: u32 where "MAC_RSSDR \<equiv> 0xc8c"
abbreviation (input) MAC_RSSDR_DMCH :: "nat \<times> nat" where "MAC_RSSDR_DMCH \<equiv> (0, 4)"
abbreviation (input) MAC_RSS_HASH_KEY_TYPE :: u32 where "MAC_RSS_HASH_KEY_TYPE \<equiv> 0x1"
abbreviation (input) MAC_RSS_LOOKUP_TABLE_TYPE :: u32 where "MAC_RSS_LOOKUP_TABLE_TYPE \<equiv> 0x0"
abbreviation (input) MMC_CR :: u32 where "MMC_CR \<equiv> 0x800"
abbreviation (input) MMC_CR_CR :: "nat \<times> nat" where "MMC_CR_CR \<equiv> (0, 1)"
abbreviation (input) MMC_CR_MCF :: "nat \<times> nat" where "MMC_CR_MCF \<equiv> (3, 1)"
abbreviation (input) MMC_CR_ROR :: "nat \<times> nat" where "MMC_CR_ROR \<equiv> (2, 1)"
abbreviation (input) MMC_RIER :: u32 where "MMC_RIER \<equiv> 0x80c"
abbreviation (input) MMC_RIER_ALL_INTERRUPTS :: "nat \<times> nat" where "MMC_RIER_ALL_INTERRUPTS \<equiv> (0, 23)"
abbreviation (input) MMC_RISR :: u32 where "MMC_RISR \<equiv> 0x804"
abbreviation (input) MMC_RISR_RX1024TOMAXOCTETS_GB :: "nat \<times> nat" where "MMC_RISR_RX1024TOMAXOCTETS_GB \<equiv> (15, 1)"
abbreviation (input) MMC_RISR_RX128TO255OCTETS_GB :: "nat \<times> nat" where "MMC_RISR_RX128TO255OCTETS_GB \<equiv> (12, 1)"
abbreviation (input) MMC_RISR_RX256TO511OCTETS_GB :: "nat \<times> nat" where "MMC_RISR_RX256TO511OCTETS_GB \<equiv> (13, 1)"
abbreviation (input) MMC_RISR_RX512TO1023OCTETS_GB :: "nat \<times> nat" where "MMC_RISR_RX512TO1023OCTETS_GB \<equiv> (14, 1)"
abbreviation (input) MMC_RISR_RX64OCTETS_GB :: "nat \<times> nat" where "MMC_RISR_RX64OCTETS_GB \<equiv> (10, 1)"
abbreviation (input) MMC_RISR_RX65TO127OCTETS_GB :: "nat \<times> nat" where "MMC_RISR_RX65TO127OCTETS_GB \<equiv> (11, 1)"
abbreviation (input) MMC_RISR_RXBROADCASTFRAMES_G :: "nat \<times> nat" where "MMC_RISR_RXBROADCASTFRAMES_G \<equiv> (3, 1)"
abbreviation (input) MMC_RISR_RXCRCERROR :: "nat \<times> nat" where "MMC_RISR_RXCRCERROR \<equiv> (5, 1)"
abbreviation (input) MMC_RISR_RXFIFOOVERFLOW :: "nat \<times> nat" where "MMC_RISR_RXFIFOOVERFLOW \<equiv> (20, 1)"
abbreviation (input) MMC_RISR_RXFRAMECOUNT_GB :: "nat \<times> nat" where "MMC_RISR_RXFRAMECOUNT_GB \<equiv> (0, 1)"
abbreviation (input) MMC_RISR_RXJABBERERROR :: "nat \<times> nat" where "MMC_RISR_RXJABBERERROR \<equiv> (7, 1)"
abbreviation (input) MMC_RISR_RXLENGTHERROR :: "nat \<times> nat" where "MMC_RISR_RXLENGTHERROR \<equiv> (17, 1)"
abbreviation (input) MMC_RISR_RXMULTICASTFRAMES_G :: "nat \<times> nat" where "MMC_RISR_RXMULTICASTFRAMES_G \<equiv> (4, 1)"
abbreviation (input) MMC_RISR_RXOCTETCOUNT_G :: "nat \<times> nat" where "MMC_RISR_RXOCTETCOUNT_G \<equiv> (2, 1)"
abbreviation (input) MMC_RISR_RXOCTETCOUNT_GB :: "nat \<times> nat" where "MMC_RISR_RXOCTETCOUNT_GB \<equiv> (1, 1)"
abbreviation (input) MMC_RISR_RXOUTOFRANGETYPE :: "nat \<times> nat" where "MMC_RISR_RXOUTOFRANGETYPE \<equiv> (18, 1)"
abbreviation (input) MMC_RISR_RXOVERSIZE_G :: "nat \<times> nat" where "MMC_RISR_RXOVERSIZE_G \<equiv> (9, 1)"
abbreviation (input) MMC_RISR_RXPAUSEFRAMES :: "nat \<times> nat" where "MMC_RISR_RXPAUSEFRAMES \<equiv> (19, 1)"
abbreviation (input) MMC_RISR_RXRUNTERROR :: "nat \<times> nat" where "MMC_RISR_RXRUNTERROR \<equiv> (6, 1)"
abbreviation (input) MMC_RISR_RXUNDERSIZE_G :: "nat \<times> nat" where "MMC_RISR_RXUNDERSIZE_G \<equiv> (8, 1)"
abbreviation (input) MMC_RISR_RXUNICASTFRAMES_G :: "nat \<times> nat" where "MMC_RISR_RXUNICASTFRAMES_G \<equiv> (16, 1)"
abbreviation (input) MMC_RISR_RXVLANFRAMES_GB :: "nat \<times> nat" where "MMC_RISR_RXVLANFRAMES_GB \<equiv> (21, 1)"
abbreviation (input) MMC_RISR_RXWATCHDOGERROR :: "nat \<times> nat" where "MMC_RISR_RXWATCHDOGERROR \<equiv> (22, 1)"
abbreviation (input) MMC_RX1024TOMAXOCTETS_GB_LO :: u32 where "MMC_RX1024TOMAXOCTETS_GB_LO \<equiv> 0x968"
abbreviation (input) MMC_RX128TO255OCTETS_GB_LO :: u32 where "MMC_RX128TO255OCTETS_GB_LO \<equiv> 0x950"
abbreviation (input) MMC_RX256TO511OCTETS_GB_LO :: u32 where "MMC_RX256TO511OCTETS_GB_LO \<equiv> 0x958"
abbreviation (input) MMC_RX512TO1023OCTETS_GB_LO :: u32 where "MMC_RX512TO1023OCTETS_GB_LO \<equiv> 0x960"
abbreviation (input) MMC_RX64OCTETS_GB_LO :: u32 where "MMC_RX64OCTETS_GB_LO \<equiv> 0x940"
abbreviation (input) MMC_RX65TO127OCTETS_GB_LO :: u32 where "MMC_RX65TO127OCTETS_GB_LO \<equiv> 0x948"
abbreviation (input) MMC_RXBROADCASTFRAMES_G_LO :: u32 where "MMC_RXBROADCASTFRAMES_G_LO \<equiv> 0x918"
abbreviation (input) MMC_RXCRCERROR_LO :: u32 where "MMC_RXCRCERROR_LO \<equiv> 0x928"
abbreviation (input) MMC_RXFIFOOVERFLOW_LO :: u32 where "MMC_RXFIFOOVERFLOW_LO \<equiv> 0x990"
abbreviation (input) MMC_RXFRAMECOUNT_GB_LO :: u32 where "MMC_RXFRAMECOUNT_GB_LO \<equiv> 0x900"
abbreviation (input) MMC_RXJABBERERROR :: u32 where "MMC_RXJABBERERROR \<equiv> 0x934"
abbreviation (input) MMC_RXLENGTHERROR_LO :: u32 where "MMC_RXLENGTHERROR_LO \<equiv> 0x978"
abbreviation (input) MMC_RXMULTICASTFRAMES_G_LO :: u32 where "MMC_RXMULTICASTFRAMES_G_LO \<equiv> 0x920"
abbreviation (input) MMC_RXOCTETCOUNT_GB_LO :: u32 where "MMC_RXOCTETCOUNT_GB_LO \<equiv> 0x908"
abbreviation (input) MMC_RXOCTETCOUNT_G_LO :: u32 where "MMC_RXOCTETCOUNT_G_LO \<equiv> 0x910"
abbreviation (input) MMC_RXOUTOFRANGETYPE_LO :: u32 where "MMC_RXOUTOFRANGETYPE_LO \<equiv> 0x980"
abbreviation (input) MMC_RXOVERSIZE_G :: u32 where "MMC_RXOVERSIZE_G \<equiv> 0x93c"
abbreviation (input) MMC_RXPAUSEFRAMES_LO :: u32 where "MMC_RXPAUSEFRAMES_LO \<equiv> 0x988"
abbreviation (input) MMC_RXRUNTERROR :: u32 where "MMC_RXRUNTERROR \<equiv> 0x930"
abbreviation (input) MMC_RXUNDERSIZE_G :: u32 where "MMC_RXUNDERSIZE_G \<equiv> 0x938"
abbreviation (input) MMC_RXUNICASTFRAMES_G_LO :: u32 where "MMC_RXUNICASTFRAMES_G_LO \<equiv> 0x970"
abbreviation (input) MMC_RXVLANFRAMES_GB_LO :: u32 where "MMC_RXVLANFRAMES_GB_LO \<equiv> 0x998"
abbreviation (input) MMC_RXWATCHDOGERROR :: u32 where "MMC_RXWATCHDOGERROR \<equiv> 0x9a0"
abbreviation (input) MMC_TIER :: u32 where "MMC_TIER \<equiv> 0x810"
abbreviation (input) MMC_TIER_ALL_INTERRUPTS :: "nat \<times> nat" where "MMC_TIER_ALL_INTERRUPTS \<equiv> (0, 18)"
abbreviation (input) MMC_TISR :: u32 where "MMC_TISR \<equiv> 0x808"
abbreviation (input) MMC_TISR_TX1024TOMAXOCTETS_GB :: "nat \<times> nat" where "MMC_TISR_TX1024TOMAXOCTETS_GB \<equiv> (9, 1)"
abbreviation (input) MMC_TISR_TX128TO255OCTETS_GB :: "nat \<times> nat" where "MMC_TISR_TX128TO255OCTETS_GB \<equiv> (6, 1)"
abbreviation (input) MMC_TISR_TX256TO511OCTETS_GB :: "nat \<times> nat" where "MMC_TISR_TX256TO511OCTETS_GB \<equiv> (7, 1)"
abbreviation (input) MMC_TISR_TX512TO1023OCTETS_GB :: "nat \<times> nat" where "MMC_TISR_TX512TO1023OCTETS_GB \<equiv> (8, 1)"
abbreviation (input) MMC_TISR_TX64OCTETS_GB :: "nat \<times> nat" where "MMC_TISR_TX64OCTETS_GB \<equiv> (4, 1)"
abbreviation (input) MMC_TISR_TX65TO127OCTETS_GB :: "nat \<times> nat" where "MMC_TISR_TX65TO127OCTETS_GB \<equiv> (5, 1)"
abbreviation (input) MMC_TISR_TXBROADCASTFRAMES_G :: "nat \<times> nat" where "MMC_TISR_TXBROADCASTFRAMES_G \<equiv> (2, 1)"
abbreviation (input) MMC_TISR_TXBROADCASTFRAMES_GB :: "nat \<times> nat" where "MMC_TISR_TXBROADCASTFRAMES_GB \<equiv> (12, 1)"
abbreviation (input) MMC_TISR_TXFRAMECOUNT_G :: "nat \<times> nat" where "MMC_TISR_TXFRAMECOUNT_G \<equiv> (15, 1)"
abbreviation (input) MMC_TISR_TXFRAMECOUNT_GB :: "nat \<times> nat" where "MMC_TISR_TXFRAMECOUNT_GB \<equiv> (1, 1)"
abbreviation (input) MMC_TISR_TXMULTICASTFRAMES_G :: "nat \<times> nat" where "MMC_TISR_TXMULTICASTFRAMES_G \<equiv> (3, 1)"
abbreviation (input) MMC_TISR_TXMULTICASTFRAMES_GB :: "nat \<times> nat" where "MMC_TISR_TXMULTICASTFRAMES_GB \<equiv> (11, 1)"
abbreviation (input) MMC_TISR_TXOCTETCOUNT_G :: "nat \<times> nat" where "MMC_TISR_TXOCTETCOUNT_G \<equiv> (14, 1)"
abbreviation (input) MMC_TISR_TXOCTETCOUNT_GB :: "nat \<times> nat" where "MMC_TISR_TXOCTETCOUNT_GB \<equiv> (0, 1)"
abbreviation (input) MMC_TISR_TXPAUSEFRAMES :: "nat \<times> nat" where "MMC_TISR_TXPAUSEFRAMES \<equiv> (16, 1)"
abbreviation (input) MMC_TISR_TXUNDERFLOWERROR :: "nat \<times> nat" where "MMC_TISR_TXUNDERFLOWERROR \<equiv> (13, 1)"
abbreviation (input) MMC_TISR_TXUNICASTFRAMES_GB :: "nat \<times> nat" where "MMC_TISR_TXUNICASTFRAMES_GB \<equiv> (10, 1)"
abbreviation (input) MMC_TISR_TXVLANFRAMES_G :: "nat \<times> nat" where "MMC_TISR_TXVLANFRAMES_G \<equiv> (17, 1)"
abbreviation (input) MMC_TX1024TOMAXOCTETS_GB_LO :: u32 where "MMC_TX1024TOMAXOCTETS_GB_LO \<equiv> 0x85c"
abbreviation (input) MMC_TX128TO255OCTETS_GB_LO :: u32 where "MMC_TX128TO255OCTETS_GB_LO \<equiv> 0x844"
abbreviation (input) MMC_TX256TO511OCTETS_GB_LO :: u32 where "MMC_TX256TO511OCTETS_GB_LO \<equiv> 0x84c"
abbreviation (input) MMC_TX512TO1023OCTETS_GB_LO :: u32 where "MMC_TX512TO1023OCTETS_GB_LO \<equiv> 0x854"
abbreviation (input) MMC_TX64OCTETS_GB_LO :: u32 where "MMC_TX64OCTETS_GB_LO \<equiv> 0x834"
abbreviation (input) MMC_TX65TO127OCTETS_GB_LO :: u32 where "MMC_TX65TO127OCTETS_GB_LO \<equiv> 0x83c"
abbreviation (input) MMC_TXBROADCASTFRAMES_GB_LO :: u32 where "MMC_TXBROADCASTFRAMES_GB_LO \<equiv> 0x874"
abbreviation (input) MMC_TXBROADCASTFRAMES_G_LO :: u32 where "MMC_TXBROADCASTFRAMES_G_LO \<equiv> 0x824"
abbreviation (input) MMC_TXFRAMECOUNT_GB_LO :: u32 where "MMC_TXFRAMECOUNT_GB_LO \<equiv> 0x81c"
abbreviation (input) MMC_TXFRAMECOUNT_G_LO :: u32 where "MMC_TXFRAMECOUNT_G_LO \<equiv> 0x88c"
abbreviation (input) MMC_TXMULTICASTFRAMES_GB_LO :: u32 where "MMC_TXMULTICASTFRAMES_GB_LO \<equiv> 0x86c"
abbreviation (input) MMC_TXMULTICASTFRAMES_G_LO :: u32 where "MMC_TXMULTICASTFRAMES_G_LO \<equiv> 0x82c"
abbreviation (input) MMC_TXOCTETCOUNT_GB_LO :: u32 where "MMC_TXOCTETCOUNT_GB_LO \<equiv> 0x814"
abbreviation (input) MMC_TXOCTETCOUNT_G_LO :: u32 where "MMC_TXOCTETCOUNT_G_LO \<equiv> 0x884"
abbreviation (input) MMC_TXPAUSEFRAMES_LO :: u32 where "MMC_TXPAUSEFRAMES_LO \<equiv> 0x894"
abbreviation (input) MMC_TXUNDERFLOWERROR_LO :: u32 where "MMC_TXUNDERFLOWERROR_LO \<equiv> 0x87c"
abbreviation (input) MMC_TXUNICASTFRAMES_GB_LO :: u32 where "MMC_TXUNICASTFRAMES_GB_LO \<equiv> 0x864"
abbreviation (input) MMC_TXVLANFRAMES_G_LO :: u32 where "MMC_TXVLANFRAMES_G_LO \<equiv> 0x89c"
abbreviation (input) MTL_Q_IER :: u32 where "MTL_Q_IER \<equiv> 0x70"
abbreviation (input) MTL_Q_ISR :: u32 where "MTL_Q_ISR \<equiv> 0x74"
abbreviation (input) MTL_Q_TQOMR_FTQ :: "nat \<times> nat" where "MTL_Q_TQOMR_FTQ \<equiv> (0, 1)"

section \<open>Counters\<close>

datatype mmc_stat =
   txoctetcount_gb | txframecount_gb | txbroadcastframes_g | txmulticastframes_g | tx64octets_gb |
    tx65to127octets_gb | tx128to255octets_gb | tx256to511octets_gb | tx512to1023octets_gb |
    tx1024tomaxoctets_gb | txunicastframes_gb | txmulticastframes_gb | txbroadcastframes_gb |
    txunderflowerror | txoctetcount_g | txframecount_g | txpauseframes | txvlanframes_g |
    rxframecount_gb | rxoctetcount_gb | rxoctetcount_g | rxbroadcastframes_g | rxmulticastframes_g |
    rxcrcerror | rxrunterror | rxjabbererror | rxundersize_g | rxoversize_g | rx64octets_gb |
    rx65to127octets_gb | rx128to255octets_gb | rx256to511octets_gb | rx512to1023octets_gb |
    rx1024tomaxoctets_gb | rxunicastframes_g | rxlengtherror | rxoutofrangetype | rxpauseframes |
    rxfifooverflow | rxvlanframes_gb | rxwatchdogerror

text \<open>Only the four octet counters have a high word.\<close>

definition mac_mmc_read :: "env \<Rightarrow> u32 \<Rightarrow> kern \<Rightarrow> u64 \<times> kern" where
  "mac_mmc_read E reg_lo s =
     (let read_hi = (reg_lo \<in> {MMC_TXOCTETCOUNT_GB_LO, MMC_TXOCTETCOUNT_G_LO, MMC_RXOCTETCOUNT_GB_LO,
            MMC_RXOCTETCOUNT_G_LO});
          (lo, s) = mread E reg_lo s
      in if read_hi then let (hi, s) = mread E (reg_lo + 4) s in (ucast lo OR push_bit 32 (ucast hi), s)
         else (ucast lo, s))"

definition add_stat :: "env \<Rightarrow> mmc_stat \<Rightarrow> u32 \<Rightarrow> (mmc_stat \<Rightarrow> u64) \<times> kern \<Rightarrow> (mmc_stat \<Rightarrow> u64) \<times> kern" where
  "add_stat E st reg = (\<lambda>(stats, s). let (v, s) = mac_mmc_read E reg s in (stats(st := stats st + v), s))"

text \<open>The bit of the interrupt, the counter in memory and the register, in the order of the tests.\<close>

definition tx_mmc_table :: "(field \<times> mmc_stat \<times> u32) list" where
  "tx_mmc_table =
     [(MMC_TISR_TXOCTETCOUNT_GB, txoctetcount_gb, MMC_TXOCTETCOUNT_GB_LO),
      (MMC_TISR_TXFRAMECOUNT_GB, txframecount_gb, MMC_TXFRAMECOUNT_GB_LO),
      (MMC_TISR_TXBROADCASTFRAMES_G, txbroadcastframes_g, MMC_TXBROADCASTFRAMES_G_LO),
      (MMC_TISR_TXMULTICASTFRAMES_G, txmulticastframes_g, MMC_TXMULTICASTFRAMES_G_LO),
      (MMC_TISR_TX64OCTETS_GB, tx64octets_gb, MMC_TX64OCTETS_GB_LO),
      (MMC_TISR_TX65TO127OCTETS_GB, tx65to127octets_gb, MMC_TX65TO127OCTETS_GB_LO),
      (MMC_TISR_TX128TO255OCTETS_GB, tx128to255octets_gb, MMC_TX128TO255OCTETS_GB_LO),
      (MMC_TISR_TX256TO511OCTETS_GB, tx256to511octets_gb, MMC_TX256TO511OCTETS_GB_LO),
      (MMC_TISR_TX512TO1023OCTETS_GB, tx512to1023octets_gb, MMC_TX512TO1023OCTETS_GB_LO),
      (MMC_TISR_TX1024TOMAXOCTETS_GB, tx1024tomaxoctets_gb, MMC_TX1024TOMAXOCTETS_GB_LO),
      (MMC_TISR_TXUNICASTFRAMES_GB, txunicastframes_gb, MMC_TXUNICASTFRAMES_GB_LO),
      (MMC_TISR_TXMULTICASTFRAMES_GB, txmulticastframes_gb, MMC_TXMULTICASTFRAMES_GB_LO),
      (MMC_TISR_TXBROADCASTFRAMES_GB, txbroadcastframes_g, MMC_TXBROADCASTFRAMES_GB_LO),
      (MMC_TISR_TXUNDERFLOWERROR, txunderflowerror, MMC_TXUNDERFLOWERROR_LO),
      (MMC_TISR_TXOCTETCOUNT_G, txoctetcount_g, MMC_TXOCTETCOUNT_G_LO),
      (MMC_TISR_TXFRAMECOUNT_G, txframecount_g, MMC_TXFRAMECOUNT_G_LO),
      (MMC_TISR_TXPAUSEFRAMES, txpauseframes, MMC_TXPAUSEFRAMES_LO),
      (MMC_TISR_TXVLANFRAMES_G, txvlanframes_g, MMC_TXVLANFRAMES_G_LO)]"

definition rx_mmc_table :: "(field \<times> mmc_stat \<times> u32) list" where
  "rx_mmc_table =
     [(MMC_RISR_RXFRAMECOUNT_GB, rxframecount_gb, MMC_RXFRAMECOUNT_GB_LO),
      (MMC_RISR_RXOCTETCOUNT_GB, rxoctetcount_gb, MMC_RXOCTETCOUNT_GB_LO),
      (MMC_RISR_RXOCTETCOUNT_G, rxoctetcount_g, MMC_RXOCTETCOUNT_G_LO),
      (MMC_RISR_RXBROADCASTFRAMES_G, rxbroadcastframes_g, MMC_RXBROADCASTFRAMES_G_LO),
      (MMC_RISR_RXMULTICASTFRAMES_G, rxmulticastframes_g, MMC_RXMULTICASTFRAMES_G_LO),
      (MMC_RISR_RXCRCERROR, rxcrcerror, MMC_RXCRCERROR_LO),
      (MMC_RISR_RXRUNTERROR, rxrunterror, MMC_RXRUNTERROR),
      (MMC_RISR_RXJABBERERROR, rxjabbererror, MMC_RXJABBERERROR),
      (MMC_RISR_RXUNDERSIZE_G, rxundersize_g, MMC_RXUNDERSIZE_G),
      (MMC_RISR_RXOVERSIZE_G, rxoversize_g, MMC_RXOVERSIZE_G),
      (MMC_RISR_RX64OCTETS_GB, rx64octets_gb, MMC_RX64OCTETS_GB_LO),
      (MMC_RISR_RX65TO127OCTETS_GB, rx65to127octets_gb, MMC_RX65TO127OCTETS_GB_LO),
      (MMC_RISR_RX128TO255OCTETS_GB, rx128to255octets_gb, MMC_RX128TO255OCTETS_GB_LO),
      (MMC_RISR_RX256TO511OCTETS_GB, rx256to511octets_gb, MMC_RX256TO511OCTETS_GB_LO),
      (MMC_RISR_RX512TO1023OCTETS_GB, rx512to1023octets_gb, MMC_RX512TO1023OCTETS_GB_LO),
      (MMC_RISR_RX1024TOMAXOCTETS_GB, rx1024tomaxoctets_gb, MMC_RX1024TOMAXOCTETS_GB_LO),
      (MMC_RISR_RXUNICASTFRAMES_G, rxunicastframes_g, MMC_RXUNICASTFRAMES_G_LO),
      (MMC_RISR_RXLENGTHERROR, rxlengtherror, MMC_RXLENGTHERROR_LO),
      (MMC_RISR_RXOUTOFRANGETYPE, rxoutofrangetype, MMC_RXOUTOFRANGETYPE_LO),
      (MMC_RISR_RXPAUSEFRAMES, rxpauseframes, MMC_RXPAUSEFRAMES_LO),
      (MMC_RISR_RXFIFOOVERFLOW, rxfifooverflow, MMC_RXFIFOOVERFLOW_LO),
      (MMC_RISR_RXVLANFRAMES_GB, rxvlanframes_gb, MMC_RXVLANFRAMES_GB_LO),
      (MMC_RISR_RXWATCHDOGERROR, rxwatchdogerror, MMC_RXWATCHDOGERROR)]"

definition mmc_int :: "env \<Rightarrow> u32 \<Rightarrow> (field \<times> mmc_stat \<times> u32) list \<Rightarrow> (mmc_stat \<Rightarrow> u64) \<Rightarrow> kern \<Rightarrow>
    (mmc_stat \<Rightarrow> u64) \<times> kern" where
  "mmc_int E isr tab stats s =
     (let (mmc_isr, s) = mread E isr s
      in fold (\<lambda>(f, st, reg) x. if MAC_GET_REG_BITS mmc_isr f \<noteq> 0 then add_stat E st reg x else x) tab (stats, s))"

definition mac_tx_mmc_int :: "env \<Rightarrow> (mmc_stat \<Rightarrow> u64) \<Rightarrow> kern \<Rightarrow> (mmc_stat \<Rightarrow> u64) \<times> kern" where
  "mac_tx_mmc_int E = mmc_int E MMC_TISR tx_mmc_table"

definition mac_rx_mmc_int :: "env \<Rightarrow> (mmc_stat \<Rightarrow> u64) \<Rightarrow> kern \<Rightarrow> (mmc_stat \<Rightarrow> u64) \<times> kern" where
  "mac_rx_mmc_int E = mmc_int E MMC_RISR rx_mmc_table"

definition mmc_table :: "(mmc_stat \<times> u32) list" where
  "mmc_table =
     [(txoctetcount_gb, MMC_TXOCTETCOUNT_GB_LO), (txframecount_gb, MMC_TXFRAMECOUNT_GB_LO),
      (txbroadcastframes_g, MMC_TXBROADCASTFRAMES_G_LO),
      (txmulticastframes_g, MMC_TXMULTICASTFRAMES_G_LO), (tx64octets_gb, MMC_TX64OCTETS_GB_LO),
      (tx65to127octets_gb, MMC_TX65TO127OCTETS_GB_LO),
      (tx128to255octets_gb, MMC_TX128TO255OCTETS_GB_LO),
      (tx256to511octets_gb, MMC_TX256TO511OCTETS_GB_LO),
      (tx512to1023octets_gb, MMC_TX512TO1023OCTETS_GB_LO),
      (tx1024tomaxoctets_gb, MMC_TX1024TOMAXOCTETS_GB_LO),
      (txunicastframes_gb, MMC_TXUNICASTFRAMES_GB_LO),
      (txmulticastframes_gb, MMC_TXMULTICASTFRAMES_GB_LO),
      (txbroadcastframes_g, MMC_TXBROADCASTFRAMES_GB_LO),
      (txunderflowerror, MMC_TXUNDERFLOWERROR_LO), (txoctetcount_g, MMC_TXOCTETCOUNT_G_LO),
      (txframecount_g, MMC_TXFRAMECOUNT_G_LO), (txpauseframes, MMC_TXPAUSEFRAMES_LO),
      (txvlanframes_g, MMC_TXVLANFRAMES_G_LO), (rxframecount_gb, MMC_RXFRAMECOUNT_GB_LO),
      (rxoctetcount_gb, MMC_RXOCTETCOUNT_GB_LO), (rxoctetcount_g, MMC_RXOCTETCOUNT_G_LO),
      (rxbroadcastframes_g, MMC_RXBROADCASTFRAMES_G_LO),
      (rxmulticastframes_g, MMC_RXMULTICASTFRAMES_G_LO), (rxcrcerror, MMC_RXCRCERROR_LO),
      (rxrunterror, MMC_RXRUNTERROR), (rxjabbererror, MMC_RXJABBERERROR),
      (rxundersize_g, MMC_RXUNDERSIZE_G), (rxoversize_g, MMC_RXOVERSIZE_G),
      (rx64octets_gb, MMC_RX64OCTETS_GB_LO), (rx65to127octets_gb, MMC_RX65TO127OCTETS_GB_LO),
      (rx128to255octets_gb, MMC_RX128TO255OCTETS_GB_LO),
      (rx256to511octets_gb, MMC_RX256TO511OCTETS_GB_LO),
      (rx512to1023octets_gb, MMC_RX512TO1023OCTETS_GB_LO),
      (rx1024tomaxoctets_gb, MMC_RX1024TOMAXOCTETS_GB_LO),
      (rxunicastframes_g, MMC_RXUNICASTFRAMES_G_LO), (rxlengtherror, MMC_RXLENGTHERROR_LO),
      (rxoutofrangetype, MMC_RXOUTOFRANGETYPE_LO), (rxpauseframes, MMC_RXPAUSEFRAMES_LO),
      (rxfifooverflow, MMC_RXFIFOOVERFLOW_LO), (rxvlanframes_gb, MMC_RXVLANFRAMES_GB_LO),
      (rxwatchdogerror, MMC_RXWATCHDOGERROR)]"

definition mac_read_mmc_stats :: "env \<Rightarrow> (mmc_stat \<Rightarrow> u64) \<Rightarrow> kern \<Rightarrow> (mmc_stat \<Rightarrow> u64) \<times> kern" where
  "mac_read_mmc_stats E stats s =
     (let s = mset E MMC_CR [(MMC_CR_MCF, 1)] s;
          (stats, s) = fold (\<lambda>(st, reg). add_stat E st reg) mmc_table (stats, s)
      in (stats, mset E MMC_CR [(MMC_CR_MCF, 0)] s))"

definition mac_config_mmc :: "env \<Rightarrow> kern \<Rightarrow> kern" where
  "mac_config_mmc E = mset E MMC_CR [(MMC_CR_ROR, 1), (MMC_CR_CR, 1)]"

section \<open>Receive side scaling\<close>

text \<open>\<open>while (wait--) { read; if (!busy) goto unlock; usleep_range(...) } ret = -EBUSY;\<close>\<close>

fun rss_wait :: "env \<Rightarrow> nat \<Rightarrow> kern \<Rightarrow> int \<times> kern" where
  "rss_wait E 0 s = (- EBUSY, s)"
| "rss_wait E (Suc w) s =
     (let (regval, s) = mread E MAC_RSSAR s
      in if MAC_GET_REG_BITS regval MAC_RSSAR_OB = 0 then (0, s) else rss_wait E w s)"

definition mac_write_rss_reg :: "env \<Rightarrow> u32 \<Rightarrow> u32 \<Rightarrow> u32 \<Rightarrow> kern \<Rightarrow> int \<times> kern" where
  "mac_write_rss_reg E type idx val s =
     (let s = mutex_lock Rss_mutex s;
          (regval, s) = mread E MAC_RSSAR s;
          (ret, s) =
            (if MAC_GET_REG_BITS regval MAC_RSSAR_OB \<noteq> 0 then (- EBUSY, s)
             else let s = mwrite MAC_RSSDR val s;
                      s = mset E MAC_RSSAR [(MAC_RSSAR_RSSIA, idx), (MAC_RSSAR_ADDRT, type),
                            (MAC_RSSAR_CT, 0), (MAC_RSSAR_OB, 1)] s
                  in rss_wait E 1000 s)
      in (ret, mutex_unlock Rss_mutex s))"

text \<open>Writes one after the other, up to the first that fails: (type, index, value).\<close>

fun rss_writes :: "env \<Rightarrow> (u32 \<times> u32 \<times> u32) list \<Rightarrow> kern \<Rightarrow> int \<times> kern" where
  "rss_writes E [] s = (0, s)"
| "rss_writes E ((type, idx, val) # ws) s =
     (let (ret, s) = mac_write_rss_reg E type idx val s in if ret \<noteq> 0 then (ret, s) else rss_writes E ws s)"

text \<open>
  What the functions keep in \<open>struct mac_pdata\<close>: the key as ten words and the table of 256. The words
  of the key go to the registers 9, 8, ..., 0.
\<close>

record rss_state =
  rss_key :: "u32 list"
  rss_table :: "u32 list"
  rss_options :: u32

definition rss_key_writes :: "rss_state \<Rightarrow> (u32 \<times> u32 \<times> u32) list" where
  "rss_key_writes r =
     map (\<lambda>i. (MAC_RSS_HASH_KEY_TYPE, word_of_nat (9 - i), rss_key r ! i)) [0..<10]"

definition rss_table_writes :: "rss_state \<Rightarrow> (u32 \<times> u32 \<times> u32) list" where
  "rss_table_writes r =
     map (\<lambda>i. (MAC_RSS_LOOKUP_TABLE_TYPE, word_of_nat i, rss_table r ! i)) [0..<256]"

definition mac_write_rss_hash_key :: "env \<Rightarrow> rss_state \<Rightarrow> kern \<Rightarrow> int \<times> kern" where
  "mac_write_rss_hash_key E r = rss_writes E (rss_key_writes r)"

definition mac_write_rss_lookup_table :: "env \<Rightarrow> rss_state \<Rightarrow> kern \<Rightarrow> int \<times> kern" where
  "mac_write_rss_lookup_table E r = rss_writes E (rss_table_writes r)"

definition mac_set_rss_hash_key :: "env \<Rightarrow> u32 list \<Rightarrow> rss_state \<Rightarrow> kern \<Rightarrow> int \<times> rss_state \<times> kern" where
  "mac_set_rss_hash_key E key r s =
     (let r = r\<lparr>rss_key := key\<rparr>; (ret, s) = mac_write_rss_hash_key E r s in (ret, r, s))"

definition mac_set_rss_lookup_table :: "env \<Rightarrow> u32 list \<Rightarrow> rss_state \<Rightarrow> kern \<Rightarrow> int \<times> rss_state \<times> kern" where
  "mac_set_rss_lookup_table E table r s =
     (let r = r\<lparr>rss_table := map (\<lambda>i. MAC_SET_REG_BITS (rss_table r ! i) MAC_RSSDR_DMCH (table ! i)) [0..<256]\<rparr>;
          (ret, s) = mac_write_rss_lookup_table E r s
      in (ret, r, s))"

definition mac_enable_rss :: "env \<Rightarrow> mac_pdata \<Rightarrow> rss_state \<Rightarrow> kern \<Rightarrow> int \<times> kern" where
  "mac_enable_rss E p r s =
     (if \<not> hw_rss p then (- EOPNOTSUPP, s)
      else let (ret, s) = mac_write_rss_hash_key E r s in if ret \<noteq> 0 then (ret, s)
      else let (ret, s) = mac_write_rss_lookup_table E r s in if ret \<noteq> 0 then (ret, s)
      else let s = mwrite MAC_RSSCR (rss_options r) s
      in (0, mset E MAC_RSSCR [(MAC_RSSCR_RSSE, 1)] s))"

definition mac_disable_rss :: "env \<Rightarrow> mac_pdata \<Rightarrow> kern \<Rightarrow> int \<times> kern" where
  "mac_disable_rss E p s =
     (if \<not> hw_rss p then (- EOPNOTSUPP, s) else (0, mset E MAC_RSSCR [(MAC_RSSCR_RSSE, 0)] s))"

definition mac_config_rss :: "env \<Rightarrow> mac_pdata \<Rightarrow> rss_state \<Rightarrow> kern \<Rightarrow> kern" where
  "mac_config_rss E p r s =
     (if \<not> hw_rss p then s
      else if f_rxhash p then snd (mac_enable_rss E p r s) else snd (mac_disable_rss E p s))"

section \<open>Interrupts\<close>

definition dma_ier :: "bool \<Rightarrow> mac_channel \<Rightarrow> u32" where
  "dma_ier per_channel_irq c =
     set_reg_bits ([(DMA_CH_IER_NIE, 1), (DMA_CH_IER_AIE, 1), (DMA_CH_IER_FBEE, 1)] @
       (if has_tx_ring c \<and> \<not> per_channel_irq then [(DMA_CH_IER_TIE, 1)] else []) @
       (if has_rx_ring c then (DMA_CH_IER_RBUE, 1) # (if \<not> per_channel_irq then [(DMA_CH_IER_RIE, 1)] else []) else [])) 0"

definition mac_enable_dma_interrupts :: "env \<Rightarrow> bool \<Rightarrow> mac_pdata \<Rightarrow> kern \<Rightarrow> kern" where
  "mac_enable_dma_interrupts E per_channel_irq p =
     fold (\<lambda>c s. let (isr, s) = mread E (dma_regs c + DMA_CH_SR) s;
                     s = mwrite (dma_regs c + DMA_CH_SR) isr s
                 in mwrite (dma_regs c + DMA_CH_IER) (dma_ier per_channel_irq c) s) (channels p)"

text \<open>\<open>q_count\<close> is the larger of the two numbers of queues the hardware has.\<close>

definition mac_enable_mtl_interrupts :: "env \<Rightarrow> nat \<Rightarrow> kern \<Rightarrow> kern" where
  "mac_enable_mtl_interrupts E q_count =
     for_queues q_count (\<lambda>i s. let (isr, s) = mread E (mtl_reg i MTL_Q_ISR) s;
                                   s = mwrite (mtl_reg i MTL_Q_ISR) isr s
                               in mwrite (mtl_reg i MTL_Q_IER) 0 s)"

definition mac_enable_mac_interrupts :: "env \<Rightarrow> kern \<Rightarrow> kern" where
  "mac_enable_mac_interrupts E s =
     (let s = mwrite MAC_IER (MAC_SET_REG_BITS 0 MAC_IER_TSIE 1) s;
          s = mset E MMC_RIER [(MMC_RIER_ALL_INTERRUPTS, 0xffffffff)] s
      in mset E MMC_TIER [(MMC_TIER_ALL_INTERRUPTS, 0xffffffff)] s)"

datatype mac_int = MAC_INT_DMA_CH_SR_TI | MAC_INT_DMA_CH_SR_TPS | MAC_INT_DMA_CH_SR_TBU
  | MAC_INT_DMA_CH_SR_RI | MAC_INT_DMA_CH_SR_RBU | MAC_INT_DMA_CH_SR_RPS | MAC_INT_DMA_CH_SR_TI_RI
  | MAC_INT_DMA_CH_SR_FBE | MAC_INT_DMA_ALL

text \<open>The fields of one interrupt; \<open>MAC_INT_DMA_ALL\<close> has none of its own.\<close>

fun int_fields :: "mac_int \<Rightarrow> field list" where
  "int_fields MAC_INT_DMA_CH_SR_TI = [DMA_CH_IER_TIE]"
| "int_fields MAC_INT_DMA_CH_SR_TPS = [DMA_CH_IER_TXSE]"
| "int_fields MAC_INT_DMA_CH_SR_TBU = [DMA_CH_IER_TBUE]"
| "int_fields MAC_INT_DMA_CH_SR_RI = [DMA_CH_IER_RIE]"
| "int_fields MAC_INT_DMA_CH_SR_RBU = [DMA_CH_IER_RBUE]"
| "int_fields MAC_INT_DMA_CH_SR_RPS = [DMA_CH_IER_RSE]"
| "int_fields MAC_INT_DMA_CH_SR_TI_RI = [DMA_CH_IER_TIE, DMA_CH_IER_RIE]"
| "int_fields MAC_INT_DMA_CH_SR_FBE = [DMA_CH_IER_FBEE]"
| "int_fields MAC_INT_DMA_ALL = []"

text \<open>The default cases, which return -1, are those of values outside the type. \<open>saved\<close> is \<open>saved_ier\<close>.\<close>

definition mac_enable_int :: "env \<Rightarrow> mac_channel \<Rightarrow> mac_int \<Rightarrow> u32 \<Rightarrow> kern \<Rightarrow> kern" where
  "mac_enable_int E c int_id saved s =
     (let (ier, s) = mread E (dma_regs c + DMA_CH_IER) s;
          ier = (if int_id = MAC_INT_DMA_ALL then ier OR saved
                 else set_reg_bits (map (\<lambda>f. (f, 1)) (int_fields int_id)) ier)
      in mwrite (dma_regs c + DMA_CH_IER) ier s)"

definition mac_disable_int :: "env \<Rightarrow> mac_channel \<Rightarrow> mac_int \<Rightarrow> u32 \<Rightarrow> kern \<Rightarrow> u32 \<times> kern" where
  "mac_disable_int E c int_id saved s =
     (let (ier, s) = mread E (dma_regs c + DMA_CH_IER) s;
          (saved, ier) = (if int_id = MAC_INT_DMA_ALL
             then (ier AND MAC_DMA_INTERRUPT_MASK, ier AND NOT MAC_DMA_INTERRUPT_MASK)
             else (saved, set_reg_bits (map (\<lambda>f. (f, 0)) (int_fields int_id)) ier))
      in (saved, mwrite (dma_regs c + DMA_CH_IER) ier s))"

section \<open>Flushing, bus\<close>

fun mac_flush_wait :: "nat \<Rightarrow> u32 \<Rightarrow> nat" where
  "mac_flush_wait count regval =
     (if count - 1 \<noteq> 0 \<and> regval \<noteq> 0 then mac_flush_wait (count - 1) regval else count - 1)"

fun mac_flush_poll :: "env \<Rightarrow> nat list \<Rightarrow> kern \<Rightarrow> int \<times> kern" where
  "mac_flush_poll E [] s = (0, s)"
| "mac_flush_poll E (i # is) s =
     (let (regval, s) = mread E (mtl_reg i MTL_Q_TQOMR) s
      in if mac_flush_wait 2000 (MAC_GET_REG_BITS regval MTL_Q_TQOMR_FTQ) = 0 then (- EBUSY, s)
         else mac_flush_poll E is s)"

definition mac_flush_tx_queues :: "env \<Rightarrow> mac_pdata \<Rightarrow> kern \<Rightarrow> int \<times> kern" where
  "mac_flush_tx_queues E p s =
     (let s = for_queues (tx_q_count p) (\<lambda>i. mset E (mtl_reg i MTL_Q_TQOMR) [(MTL_Q_TQOMR_FTQ, 1)]) s
      in mac_flush_poll E [0..<tx_q_count p] s)"

definition mac_config_dma_bus :: "env \<Rightarrow> kern \<Rightarrow> kern" where
  "mac_config_dma_bus E =
     mset E DMA_SBMR [(DMA_SBMR_EAME, 1), (DMA_SBMR_UNDEF, 1), (DMA_SBMR_BLEN_256, 1)]"

end
