(* ===== verification/Mac_queue.thy ===== *)
theory Mac_queue
  imports Mac_filter Mac_stat
begin

text \<open>
  The queues of the Ethernet driver: how they are shared out to traffic classes and priorities, that
  receive side scaling is programmed as a whole or reports why not, that interrupts can be masked and
  restored, and that the coalescing time survives the conversion to clock ticks and back.
\<close>

section \<open>Transmit queues and traffic classes\<close>

text \<open>The class of each queue, as the loop hands them out.\<close>

definition class_size :: "nat \<Rightarrow> nat \<Rightarrow> nat \<Rightarrow> nat" where
  "class_size q tc i = q div tc + (if i < q mod tc then 1 else 0)"

definition queue_classes :: "nat \<Rightarrow> nat \<Rightarrow> nat list" where
  "queue_classes q tc = concat (map (\<lambda>i. replicate (class_size q tc i) i) [0..<tc])"

lemma map_class_fold: "map_class E (q div tc) (q mod tc) i x = fold (map_queue E) (replicate (class_size q tc i) i) x"
proof -
  have "fold (map_queue E) (replicate n i) y = (map_queue E i ^^ n) y" for n y
    by (induction n arbitrary: y) (simp_all add: funpow_swap1)
  then show ?thesis by (simp add: map_class_def class_size_def Let_def)
qed

lemma map_classes_fold:
  "fold (map_class E (q div tc) (q mod tc)) is x = fold (map_queue E) (concat (map (\<lambda>i. replicate (class_size q tc i) i) is)) x"
  by (induction "is" arbitrary: x) (simp_all only: fold_simps list.map concat.simps fold_append o_apply map_class_fold)

lemma sum_list_class_size: "0 < tc \<Longrightarrow> (\<Sum>i\<leftarrow>[0..<n]. class_size q tc i) = n * (q div tc) + min n (q mod tc)"
  by (induction n) (auto simp: class_size_def min_def)

lemma length_queue_classes: "0 < tc \<Longrightarrow> length (queue_classes q tc) = q"
  using sum_list_class_size [of tc q tc]
  by (simp add: queue_classes_def length_concat o_def min_absorb2 less_imp_le mult.commute)

lemma count_queue_classes: "i < tc \<Longrightarrow> length (filter (\<lambda>c. c = i) (queue_classes q tc)) = class_size q tc i"
proof -
  have "length (filter (\<lambda>c. c = i) (concat (map (\<lambda>i. replicate (class_size q tc i) i) is))) =
      (if i \<in> set is then class_size q tc i else 0)" if "distinct is" for "is"
    using that by (induction "is") (auto simp: filter_replicate)
  then show "i < tc \<Longrightarrow> ?thesis" by (simp add: queue_classes_def)
qed

lemma mtl_reg_inj: "a < 2 ^ 20 \<Longrightarrow> b < 2 ^ 20 \<Longrightarrow> mtl_reg a 0 = mtl_reg b 0 \<longleftrightarrow> a = b"
proof
  assume ab: "a < 2 ^ 20" "b < 2 ^ 20" and "mtl_reg a 0 = mtl_reg b 0"
  then have "unat (word_of_nat a * 0x80 :: u32) = unat (word_of_nat b * 0x80 :: u32)" by (simp add: mtl_reg_def)
  then show "a = b" using ab by (simp add: unat_word_ariths)
qed simp

lemma map_queues:
  assumes "mac_card E plain" "\<forall>k < q0 + length cs. mtl_reg k 0 \<in> plain" "q0 + length cs \<le> 2 ^ 20"
    "fold (map_queue E) cs (q0, s) = (q, s')"
  shows "q = q0 + length cs \<and>
    (\<forall>k < length cs. mregs s' (mtl_reg (q0 + k) 0) =
       MAC_SET_REG_BITS (mregs s (mtl_reg (q0 + k) 0)) (8, 3) (word_of_nat (cs ! k))) \<and>
    (\<forall>a. (\<forall>k < length cs. a \<noteq> mtl_reg (q0 + k) 0) \<longrightarrow> mregs s' a = mregs s a)"
  using assms(2-)
proof (induction cs arbitrary: q0 s)
  case (Cons c cs)
  define t where "t = mset E (mtl_reg q0 0) [((8, 3), word_of_nat c)] s"
  have t: "mregs t = (mregs s)(mtl_reg q0 0 := MAC_SET_REG_BITS (mregs s (mtl_reg q0 0)) (8, 3) (word_of_nat c))"
    unfolding t_def using mac_card.regs_mset [OF assms(1)] Cons.prems(1) by simp
  have "map_queue E c (q0, s) = (Suc q0, t)" by (simp add: map_queue_def t_def)
  then have "fold (map_queue E) cs (Suc q0, t) = (q, s')" using Cons.prems(3) by simp
  note IH = Cons.IH [OF _ _ this]
  have other: "mtl_reg (Suc q0 + k) 0 \<noteq> mtl_reg q0 0" if "k < length cs" for k
    using that Cons.prems(2) by (simp add: mtl_reg_inj)
  have q: "q = q0 + length (c # cs)" and
    ks: "\<forall>k < length cs. mregs s' (mtl_reg (Suc q0 + k) 0) =
       MAC_SET_REG_BITS (mregs t (mtl_reg (Suc q0 + k) 0)) (8, 3) (word_of_nat (cs ! k))" and
    as: "\<forall>a. (\<forall>k < length cs. a \<noteq> mtl_reg (Suc q0 + k) 0) \<longrightarrow> mregs s' a = mregs t a"
    using IH Cons.prems(1,2) by simp_all
  have "mregs s' (mtl_reg (q0 + k) 0) =
       MAC_SET_REG_BITS (mregs s (mtl_reg (q0 + k) 0)) (8, 3) (word_of_nat ((c # cs) ! k))" if "k < length (c # cs)" for k
  proof (cases k)
    case 0
    then show ?thesis using as other by (metis add_0_right fun_upd_same nth_Cons_0 t)
  next
    case (Suc j)
    then show ?thesis using ks other that by (simp add: t)
  qed
  moreover have "mregs s' a = mregs s a" if "\<forall>k < length (c # cs). a \<noteq> mtl_reg (q0 + k) 0" for a
  proof -
    have "a \<noteq> mtl_reg q0 0" using that by force
    moreover have "\<forall>k < length cs. a \<noteq> mtl_reg (Suc q0 + k) 0" using that by force
    ultimately show ?thesis using as t by simp
  qed
  ultimately show ?case using q by blast
qed simp

section \<open>Receive queues and priorities\<close>

text \<open>The two registers of priorities the loop writes, as a function of the number of queues.\<close>

definition prio_regs :: "nat \<Rightarrow> u32 \<times> u32" where
  "prio_regs n =
     (case n of Suc 0 \<Rightarrow> (0xff, 0) | Suc (Suc 0) \<Rightarrow> (0xf00f, 0) | _ \<Rightarrow>
        (if n = 3 then (0xc03807, 0) else if n = 4 then (0xc0300c03, 0) else if n = 5 then (0x40300c03, 0x80)
         else if n = 6 then (0x20100c03, 0x8040) else if n = 7 then (0x10080403, 0x804020)
         else (0x08040201, 0x80402010)))"

lemma prio_loop:
  assumes "0 < n" "n \<le> 8"
  shows "\<exists>x. fold (map_prio n (8 div n) (8 mod n)) [0..<n] (0, 0x160, 0, s) =
    (8, x, 0, mwrites ((0x160, fst (prio_regs n)) # (if n > 4 then [(0x164, snd (prio_regs n))] else [])) s)"
proof -
  consider "n = 1" | "n = 2" | "n = 3" | "n = 4" | "n = 5" | "n = 6" | "n = 7" | "n = 8" using assms by linarith
  then show ?thesis
    by cases (simp_all add: upt_rec map_prio_def prio_mask_def prio_regs_def Let_def)
qed

text \<open>The queue of a priority: the first few queues take one priority more than the others.\<close>

definition prio_queue :: "nat \<Rightarrow> nat \<Rightarrow> nat" where
  "prio_queue n x =
     (if x < 8 mod n * (8 div n + 1) then x div (8 div n + 1)
      else 8 mod n + (x - 8 mod n * (8 div n + 1)) div (8 div n))"

lemma prio_regs_checked:
  "list_all (\<lambda>n. list_all (\<lambda>x. list_all (\<lambda>i.
     bit (if i < 4 then fst (prio_regs n) else snd (prio_regs n)) (i mod 4 * 8 + x) = (i = prio_queue n x))
     [0..<n]) [0..<8]) [1..<9]"
  by code_simp

lemma prio_regs_exact:
  assumes "0 < n" "n \<le> 8" "x < 8" "i < n"
  shows "bit (if i < 4 then fst (prio_regs n) else snd (prio_regs n)) (i mod 4 * 8 + x) \<longleftrightarrow> i = prio_queue n x"
  using prio_regs_checked assms unfolding list_all_iff by fastforce

lemma mregs_orset: "mregs (orset E a v s) b = (if b = a then fst (mread E a s) OR v else mregs s b)"
  by (simp add: orset_def split_def Let_def)

lemma mtl_reg_range: "k < 2 ^ 20 \<Longrightarrow> unat (mtl_reg k 0) = 0x1100 + k * 0x80"
  by (simp add: mtl_reg_def unat_word_ariths)

lemma class_value: "k < q \<Longrightarrow> 0 < tc \<Longrightarrow> queue_classes q tc ! k < tc"
proof -
  assume "k < q" "0 < tc"
  then have "queue_classes q tc ! k \<in> set (queue_classes q tc)" by (simp add: length_queue_classes)
  then show ?thesis by (auto simp: queue_classes_def)
qed

text \<open>
  Queues are shared out evenly. Each transmit queue is mapped to one traffic class, consecutive
  queues to the same or the next one, and a class has as many queues as any other or one more; each
  of the eight priorities goes to exactly one receive queue, the first of which take one more.
\<close>

theorem queue_mapping_even:
  assumes "mac_card E plain" "\<forall>k < tx_q_count p. mtl_reg k 0 \<in> plain" "tx_q_count p \<le> 16"
    and "0 < tc_cnt p" "tc_cnt p \<le> 8" "0 < rx_q_count p"
  shows "\<exists>s'. mac_config_queue_mapping E p s = Some s' \<and>
    (\<forall>k < tx_q_count p. MAC_GET_REG_BITS (mregs s' (mtl_reg k 0)) (8, 3) =
        word_of_nat (queue_classes (tx_q_count p) (tc_cnt p) ! k)) \<and>
    (\<forall>c < tc_cnt p. length (filter (\<lambda>x. x = c) (queue_classes (tx_q_count p) (tc_cnt p))) =
        tx_q_count p div tc_cnt p + (if c < tx_q_count p mod tc_cnt p then 1 else 0)) \<and>
    (\<forall>x < 8. \<forall>i < min 8 (rx_q_count p).
        bit (mregs s' (if i < 4 then 0x160 else 0x164)) (i mod 4 * 8 + x) \<longleftrightarrow> i = prio_queue (min 8 (rx_q_count p)) x)"
proof -
  let ?q = "tx_q_count p" and ?tc = "tc_cnt p" and ?n = "min 8 (rx_q_count p)"
  obtain q t where t: "fold (map_class E (?q div ?tc) (?q mod ?tc)) [0..<?tc] (0, s) = (q, t)" by fastforce
  have "fold (map_queue E) (queue_classes ?q ?tc) (0, s) = (q, t)"
    using t by (simp add: queue_classes_def map_classes_fold)
  note mapped = map_queues [OF assms(1) _ _ this, unfolded length_queue_classes [OF assms(4)], simplified, OF assms(2)]
  have n: "0 < ?n" "?n \<le> 8" using assms(6) by auto
  obtain x where loop: "fold (map_prio ?n (8 div ?n) (8 mod ?n)) [0..<?n] (0, 0x160, 0, t) =
    (8, x, 0, mwrites ((0x160, fst (prio_regs ?n)) # (if ?n > 4 then [(0x164, snd (prio_regs ?n))] else [])) t)"
    using prio_loop [OF n] by blast
  define u where "u = mwrites ((0x160, fst (prio_regs ?n)) # (if ?n > 4 then [(0x164, snd (prio_regs ?n))] else [])) t"
  define v where "v = orset E 0x1038 0x0b0a0908 (orset E 0x1034 0x07060504 (orset E 0x1030 0x03020100 u))"
  have "mac_config_queue_mapping E p s = Some v"
    using assms(4,6) t loop by (simp add: mac_config_queue_mapping_def v_def u_def Let_def)
  moreover have "MAC_GET_REG_BITS (mregs v (mtl_reg k 0)) (8, 3) = word_of_nat (queue_classes ?q ?tc ! k)" if k: "k < ?q" for k
  proof -
    have "unat (mtl_reg k 0) = 0x1100 + k * 0x80" using k assms(3) by (intro mtl_reg_range) simp
    then have "mregs v (mtl_reg k 0) = mregs t (mtl_reg k 0)"
      by (auto simp: v_def u_def mregs_orset mwrites_other)
    also have "\<dots> = MAC_SET_REG_BITS (mregs s (mtl_reg k 0)) (8, 3) (word_of_nat (queue_classes ?q ?tc ! k))"
      using mapped k assms(3) by simp
    finally show ?thesis
      using class_value [OF k assms(4)] assms(5)
      by (simp add: MAC_GET_SET in_word_def word_less_nat_alt)
  qed
  moreover have "mregs v 0x160 = fst (prio_regs ?n)" "4 < ?n \<Longrightarrow> mregs v 0x164 = snd (prio_regs ?n)"
    by (simp_all add: v_def u_def mregs_orset)
  then have "bit (mregs v (if i < 4 then 0x160 else 0x164)) (i mod 4 * 8 + x) \<longleftrightarrow> i = prio_queue ?n x"
    if "x < 8" "i < ?n" for x i
    using prio_regs_exact [OF n that] that by (cases "i < 4") auto
  ultimately show ?thesis by (auto simp: count_queue_classes class_size_def)
qed

text \<open>Six queues in four classes: the first two classes have two queues; three receive queues.\<close>

theorem queue_mapping_even_witness:
  "\<exists>s'. mac_config_queue_mapping mac_env (small_pdata\<lparr>tx_q_count := 6, tc_cnt := 4, rx_q_count := 3\<rparr>) empty_kern = Some s' \<and>
    MAC_GET_REG_BITS (mregs s' (mtl_reg 3 0)) (8, 3) = 1"
proof -
  let ?p = "small_pdata\<lparr>tx_q_count := 6, tc_cnt := 4, rx_q_count := 3\<rparr>"
  have c: "queue_classes 6 4 ! 3 = 1" by code_simp
  have prem: "\<forall>k < tx_q_count ?p. mtl_reg k 0 \<in> UNIV" "tx_q_count ?p \<le> 16" "0 < tc_cnt ?p" "tc_cnt ?p \<le> 8"
    "0 < rx_q_count ?p" by simp_all
  from queue_mapping_even [OF plain_card.mac_card_axioms prem, of empty_kern] obtain s' where
    s': "mac_config_queue_mapping mac_env ?p empty_kern = Some s'" and
    q: "\<forall>k < tx_q_count ?p. MAC_GET_REG_BITS (mregs s' (mtl_reg k 0)) (8, 3) =
        word_of_nat (queue_classes (tx_q_count ?p) (tc_cnt ?p) ! k)" by (elim exE conjE) (erule (1) that)
  have "MAC_GET_REG_BITS (mregs s' (mtl_reg 3 0)) (8, 3) = 1" using q [rule_format, of 3] c by simp
  with s' show ?thesis by blast
qed

section \<open>Receive side scaling\<close>

text \<open>
  The tables inside the card, indexed by type and number: a write to the address register that starts
  an access (bit 0) for writing (not bit 1) stores what the data register holds.
\<close>

fun rss_mem :: "event list \<Rightarrow> u32 \<times> u32 \<Rightarrow> u32" where
  "rss_mem [] k = 0"
| "rss_mem (Ewrite Mac_regs a v # t) k =
     (if a = 0xc88 \<and> bit v 0 \<and> \<not> bit v 1 \<and> (MAC_GET_REG_BITS v (2, 1), MAC_GET_REG_BITS v (8, 8)) = k
      then mac_file t 0xc8c else rss_mem t k)"
| "rss_mem (_ # t) k = rss_mem t k"

abbreviation rss_tab :: "kern \<Rightarrow> u32 \<times> u32 \<Rightarrow> u32" where
  "rss_tab s \<equiv> rss_mem (trace s)"

lemma rss_tab_read [simp]: "rss_tab (snd (mread E a s)) = rss_tab s"
  by (rule ext) (simp add: mread_def readl_def Let_def)

lemma rss_tab_write: "a \<noteq> 0xc88 \<Longrightarrow> rss_tab (mwrite a v s) = rss_tab s"
  by (rule ext) (simp add: mwrite_def)

lemma lock_events [simp]:
  "rss_mem (Elock l # t) = rss_mem t" "rss_mem (Eunlock l # t) = rss_mem t"
  "mac_file (Elock l # t) = mac_file t" "mac_file (Eunlock l # t) = mac_file t"
  by (rule ext, simp)+

lemma rss_wait_keeps:
  "rss_wait E n s = (r, s') \<Longrightarrow> rss_tab s' = rss_tab s \<and> mregs s' = mregs s \<and> io_only s s' \<and> (r = 0 \<or> r = - EBUSY)"
proof (induction E n s rule: rss_wait.induct)
  case (2 E w s)
  show ?case
  proof (cases "MAC_GET_REG_BITS (fst (mread E 0xc88 s)) (0, 1) = 0")
    case True
    then show ?thesis using "2.prems" by (auto simp: split_def Let_def)
  next
    case False
    then have "rss_wait E w (snd (mread E 0xc88 s)) = (r, s')" using "2.prems" by (simp add: split_def Let_def)
    from "2.IH" [OF refl prod.collapse False this] show ?thesis using io_only_trans [OF io_only_mread [of s E "0xc88"]] by simp
  qed
qed simp

text \<open>The fields of the command, whatever was in the register before.\<close>

lemma rss_command:
  assumes "ty < 2" "idx < 256"
  shows "let v = set_reg_bits [((8, 8), idx), ((2, 1), ty), ((1, 1), 0), ((0, 1), 1)] w
    in bit v 0 \<and> \<not> bit v 1 \<and> MAC_GET_REG_BITS v (2, 1) = ty \<and> MAC_GET_REG_BITS v (8, 8) = idx"
proof -
  have "MAC_GET_REG_BITS (MAC_SET_REG_BITS u (2, 1) ty) (2, 1) = ty" for u
    using assms by (intro MAC_GET_SET) (simp_all add: in_word_def)
  moreover have "MAC_GET_REG_BITS (MAC_SET_REG_BITS u (8, 8) idx) (8, 8) = idx" for u
    using assms by (intro MAC_GET_SET) (simp_all add: in_word_def)
  ultimately show ?thesis by (simp add: Let_def bit_MAC_SET MAC_GET_other del: One_nat_def)
qed

lemma rss_tab_command:
  assumes "ty < 2" "idx < 256"
  shows "rss_tab (mset E 0xc88 [((8, 8), idx), ((2, 1), ty), ((1, 1), 0), ((0, 1), 1)] s) =
    (rss_tab s)((ty, idx) := mregs s 0xc8c)"
proof -
  define v where "v = set_reg_bits [((8, 8), idx), ((2, 1), ty), ((1, 1), 0), ((0, 1), 1)] (fst (mread E 0xc88 s))"
  have "bit v 0" "\<not> bit v 1" "MAC_GET_REG_BITS v (2, 1) = ty" "MAC_GET_REG_BITS v (8, 8) = idx"
    using rss_command [OF assms, of "fst (mread E 0xc88 s)"] unfolding v_def Let_def by blast+
  then have "rss_tab (mwrite 0xc88 v t) = (rss_tab t)((ty, idx) := mregs t 0xc8c)" for t
    by (intro ext) (simp add: mwrite_def)
  then show ?thesis by (simp only: mset_def Let_def split_def v_def [symmetric] rss_tab_read mregs_read)
qed

definition rss_ok :: "u32 \<times> u32 \<times> u32 \<Rightarrow> bool" where
  "rss_ok = (\<lambda>(ty, idx, val). ty < 2 \<and> idx < 256)"

lemma write_rss_reg_keeps:
  assumes "mac_write_rss_reg E ty idx val s = (r, s')" "ty < 2" "idx < 256"
  shows "(r = 0 \<longrightarrow> rss_tab s' = (rss_tab s)((ty, idx) := val)) \<and> mregs s' 0xc80 = mregs s 0xc80 \<and>
    held l (trace s') = held l (trace s) \<and> (r = 0 \<or> r = - EBUSY)"
proof -
  define t where "t = snd (mread E 0xc88 (mutex_lock Rss_mutex s))"
  have t: "rss_tab t = rss_tab s" "mregs t = mregs s" "io_only (mutex_lock Rss_mutex s) t"
    by (simp_all add: t_def)
  show ?thesis
  proof (cases "MAC_GET_REG_BITS (fst (mread E 0xc88 (mutex_lock Rss_mutex s))) (0, 1) = 0")
    case False
    then have "r = - EBUSY" "s' = mutex_unlock Rss_mutex t"
      using assms(1) by (auto simp: mac_write_rss_reg_def split_def Let_def t_def)
    then show ?thesis using t io_only_held [OF t(3), of l] by simp
  next
    case True
    define u where "u = mset E 0xc88 [((8, 8), idx), ((2, 1), ty), ((1, 1), 0), ((0, 1), 1)] (mwrite 0xc8c val t)"
    define v where "v = snd (rss_wait E 1000 u)"
    have v: "rss_wait E 1000 u = (r, v)" "s' = mutex_unlock Rss_mutex v"
      using assms(1) True by (auto simp: mac_write_rss_reg_def split_def Let_def t_def u_def v_def prod_eq_iff)
    have u: "rss_tab u = (rss_tab s)((ty, idx) := val)"
      unfolding u_def by (subst rss_tab_command [OF assms(2,3)]) (simp add: rss_tab_write t(1))
    have "mregs u 0xc80 = mregs s 0xc80" by (simp add: u_def mset_other t(2))
    moreover have "io_only t u" unfolding u_def by (rule io_only_trans [OF io_only_mwrite io_only_mset])
    then have "io_only (mutex_lock Rss_mutex s) v"
      using rss_wait_keeps [OF v(1)] io_only_trans [OF t(3)] io_only_trans by blast
    ultimately show ?thesis
      using rss_wait_keeps [OF v(1)] u io_only_held [of "mutex_lock Rss_mutex s" v l] v(2) by simp
  qed
qed

definition put_entry :: "u32 \<times> u32 \<times> u32 \<Rightarrow> (u32 \<times> u32 \<Rightarrow> u32) \<Rightarrow> u32 \<times> u32 \<Rightarrow> u32" where
  "put_entry = (\<lambda>(ty, idx, val) M. M((ty, idx) := val))"

lemma rss_writes_keeps:
  "rss_writes E ws s = (r, s') \<Longrightarrow> list_all rss_ok ws \<Longrightarrow>
   (r = 0 \<longrightarrow> rss_tab s' = fold put_entry ws (rss_tab s)) \<and> mregs s' 0xc80 = mregs s 0xc80 \<and>
   held l (trace s') = held l (trace s) \<and> (r = 0 \<or> r = - EBUSY)"
proof (induction E ws s rule: rss_writes.induct)
  case (2 E ty idx val ws s)
  define q where "q = mac_write_rss_reg E ty idx val s"
  have q: "mac_write_rss_reg E ty idx val s = (fst q, snd q)" by (simp add: q_def)
  have ok: "ty < 2" "idx < 256" "list_all rss_ok ws" using "2.prems"(2) by (simp_all add: rss_ok_def)
  note one = write_rss_reg_keeps [OF q ok(1,2), of l]
  show ?case
  proof (cases "fst q = 0")
    case False
    then have "r = fst q" "s' = snd q" using "2.prems"(1) by (simp_all add: q_def split_def)
    then show ?thesis using one False by simp
  next
    case True
    then have "rss_writes E ws (snd q) = (r, s')" using "2.prems"(1) by (simp add: q_def split_def)
    from "2.IH" [OF q [symmetric] refl _ this ok(3)] True one show ?thesis by (simp add: put_entry_def fun_upd_def)
  qed
qed simp

lemma put_entries:
  "(\<forall>i < n. \<forall>j < n. k i = k j \<longrightarrow> i = j) \<Longrightarrow> j < n \<Longrightarrow>
   fold put_entry (map (\<lambda>i. (ty, k i, v i)) [0..<n]) M (ty, k j) = v j"
proof (induction n)
  case (Suc n)
  then show ?case by (cases "j = n") (auto simp: put_entry_def)
qed simp

lemma put_entries_other: "ty \<noteq> ty' \<Longrightarrow> fold put_entry (map (\<lambda>i. (ty, k i, v i)) xs) M (ty', j) = M (ty', j)"
  by (induction xs arbitrary: M) (auto simp: put_entry_def)

lemma key_writes_ok: "list_all rss_ok (rss_key_writes r)"
  by (auto simp: rss_key_writes_def rss_ok_def list_all_iff word_less_nat_alt simp del: of_nat_diff)

lemma table_writes_ok: "list_all rss_ok (rss_table_writes r)"
  by (auto simp: rss_table_writes_def rss_ok_def list_all_iff word_less_nat_alt)

lemma key_entries: "i < 10 \<Longrightarrow> fold put_entry (rss_key_writes r) M (1, word_of_nat (9 - i)) = rss_key r ! i"
proof -
  have "(word_of_nat (9 - i) :: u32) = word_of_nat (9 - j) \<Longrightarrow> i < 10 \<Longrightarrow> j < 10 \<Longrightarrow> i = j" for i j
    by (drule arg_cong [where f = unat]) (simp del: of_nat_diff)
  then show "i < 10 \<Longrightarrow> ?thesis"
    unfolding rss_key_writes_def by (intro put_entries) blast+
qed

lemma table_entries: "i < 256 \<Longrightarrow> fold put_entry (rss_table_writes r) M (0, word_of_nat i) = rss_table r ! i"
proof -
  have "(word_of_nat i :: u32) = word_of_nat j \<Longrightarrow> i < 256 \<Longrightarrow> j < 256 \<Longrightarrow> i = j" for i j
    by (drule arg_cong [where f = unat]) simp
  then show "i < 256 \<Longrightarrow> ?thesis"
    unfolding rss_table_writes_def by (intro put_entries) blast+
qed

lemma table_writes_key: "fold put_entry (rss_table_writes r) M (1, j) = M (1, j)"
  unfolding rss_table_writes_def by (rule put_entries_other) simp

text \<open>
  Enabling receive side scaling reports the truth, on every card: the mutex is free again, the
  status is 0, \<open>-EBUSY\<close> or (exactly without the feature) \<open>-EOPNOTSUPP\<close>, scaling is switched on only
  with status 0, and with status 0 the card holds the ten words of the key, the last first, and the
  256 entries of the table.
\<close>

theorem rss_programmed:
  assumes "mac_enable_rss E p r s = (ret, s')"
  shows "held l (trace s') = held l (trace s) \<and> ret \<in> {0, - EBUSY, - EOPNOTSUPP} \<and>
    (ret = - EOPNOTSUPP \<longleftrightarrow> \<not> hw_rss p) \<and> (ret \<noteq> 0 \<longrightarrow> mregs s' 0xc80 = mregs s 0xc80) \<and>
    (ret = 0 \<longrightarrow> bit (mregs s' 0xc80) 0 \<and>
      (\<forall>i < 10. rss_tab s' (1, word_of_nat (9 - i)) = rss_key r ! i) \<and>
      (\<forall>i < 256. rss_tab s' (0, word_of_nat i) = rss_table r ! i))"
proof (cases "hw_rss p")
  case False
  then show ?thesis using assms by (simp add: mac_enable_rss_def)
next
  case True
  obtain k t where k: "rss_writes E (rss_key_writes r) s = (k, t)" by fastforce
  obtain b u where b: "rss_writes E (rss_table_writes r) t = (b, u)" by fastforce
  define v where "v = mset E 0xc80 [((0, 1), 1)] (mwrite 0xc80 (rss_options r) u)"
  note K = rss_writes_keeps [OF k key_writes_ok, of l]
  note B = rss_writes_keeps [OF b table_writes_ok, of l]
  have "mac_enable_rss E p r s = (if k \<noteq> 0 then (k, t) else if b \<noteq> 0 then (b, u) else (0, v))"
    using True by (simp add: mac_enable_rss_def mac_write_rss_hash_key_def mac_write_rss_lookup_table_def k b v_def Let_def)
  then have "(ret, s') = (if k \<noteq> 0 then (k, t) else if b \<noteq> 0 then (b, u) else (0, v))" using assms by simp
  moreover have "rss_tab v = rss_tab u"
    by (simp add: v_def mset_def Let_def split_def rss_tab_write)
  moreover have "bit (mregs v 0xc80) 0" by (simp add: v_def mset_def Let_def split_def bit_MAC_SET)
  moreover have "held l (trace v) = held l (trace u)"
    unfolding v_def by (rule io_only_held [OF io_only_trans [OF io_only_mwrite io_only_mset]])
  ultimately show ?thesis
    using K B True by (auto simp: key_entries table_entries table_writes_key simp del: of_nat_diff split: if_splits)
qed

text \<open>A card that is never busy.\<close>

definition rss_env :: env where
  "rss_env = file_env\<lparr>hw_read := \<lambda>t r a. if r = Mac_regs \<and> a \<noteq> 0xc88 then mac_file t a else 0\<rparr>"

lemma rss_env_idle: "fst (mread rss_env 0xc88 s) = 0"
  by (simp add: mread_def readl_def rss_env_def Let_def)

lemma rss_env_write: "fst (mac_write_rss_reg rss_env ty idx val s) = 0"
proof -
  have "rss_wait rss_env 1000 t = (0, snd (mread rss_env 0xc88 t))" for t
    using rss_wait.simps(2) [of rss_env 999 t] rss_env_idle [of t] by (simp add: split_def Let_def MAC_GET_REG_BITS_def)
  then show ?thesis by (simp add: mac_write_rss_reg_def split_def Let_def rss_env_idle MAC_GET_REG_BITS_def)
qed

lemma rss_env_writes: "fst (rss_writes rss_env ws s) = 0"
proof (induction ws arbitrary: s)
  case (Cons w ws)
  obtain ty idx val where "w = (ty, idx, val)" by (cases w)
  then show ?case using rss_env_write [of ty idx val s] Cons by (simp add: split_def Let_def)
qed simp

theorem rss_programmed_witness:
  "\<exists>s'. mac_enable_rss rss_env small_pdata \<lparr>rss_key = map word_of_nat [0..<10], rss_table = replicate 256 3,
      rss_options = 0xe\<rparr> empty_kern = (0, s') \<and> rss_tab s' (1, 2) = 7 \<and> rss_tab s' (0, 255) = 3"
proof -
  let ?r = "\<lparr>rss_key = map word_of_nat [0..<10], rss_table = replicate 256 3, rss_options = 0xe\<rparr> :: rss_state"
  have "fst (mac_enable_rss rss_env small_pdata ?r empty_kern) = 0"
    by (simp add: mac_enable_rss_def mac_write_rss_hash_key_def mac_write_rss_lookup_table_def
        rss_env_writes split_def Let_def small_pdata_def)
  then obtain s' where s': "mac_enable_rss rss_env small_pdata ?r empty_kern = (0, s')" by (metis prod.collapse)
  have k: "\<forall>i < 10. rss_tab s' (1, word_of_nat (9 - i)) = rss_key ?r ! i" and
    t: "\<forall>i < 256. rss_tab s' (0, word_of_nat i) = rss_table ?r ! i"
    using rss_programmed [OF s', of Hw_lock] by simp_all
  show ?thesis using s' k [rule_format, of 7] t [rule_format, of 255] by simp
qed

end
