(* ===== verification/Mac_run.thy ===== *)
theory Mac_run
  imports Mac_queue
begin

text \<open>
  Running the Ethernet driver's hardware: masking interrupts, coalescing times, stopping the traffic
  and collecting the counters.
\<close>

section \<open>Interrupts\<close>

text \<open>
  Masking all interrupts of a channel and unmasking them is a round trip. Between the two, the
  bits of the mask are clear and the others as before; afterwards the register is as before, whatever
  was saved earlier.
\<close>

theorem interrupts_masked_and_restored:
  assumes "mac_card E plain" "dma_regs c + 0x38 \<in> plain"
    and "mac_disable_int E c MAC_INT_DMA_ALL old s = (saved, s1)"
  shows "mregs s1 (dma_regs c + 0x38) = mregs s (dma_regs c + 0x38) AND NOT 0x31c7 \<and>
    mregs (mac_enable_int E c MAC_INT_DMA_ALL saved s1) = mregs s"
proof -
  let ?a = "dma_regs c + 0x38"
  note rv = mac_card.read_value [OF assms(1,2)]
  have saved: "saved = mregs s ?a AND 0x31c7"
    and s1: "mregs s1 = (mregs s)(?a := mregs s ?a AND NOT 0x31c7)"
    using assms(3) by (auto simp: mac_disable_int_def Let_def split_def rv fun_upd_def)
  have "(w AND NOT m) OR (w AND m) = w" for w m :: u32
    by (rule bit_eqI) (auto simp: bit_or_iff bit_and_iff bit_not_iff)
  from this [of _ "0x31c7"] have "mregs (mac_enable_int E c MAC_INT_DMA_ALL saved s1) = mregs s"
    by (simp add: mac_enable_int_def Let_def split_def rv s1 saved)
  then show ?thesis using s1 by simp
qed

theorem interrupts_masked_and_restored_witness:
  "let c = \<lparr>queue_index = 0, dma_regs = 0x3100, has_tx_ring = True, has_rx_ring = True\<rparr>;
       s = mwrite 0x3138 0xd041 empty_kern;
       (saved, s1) = mac_disable_int mac_env c MAC_INT_DMA_ALL 0 s
   in mregs s1 0x3138 = 0xc000 \<and> mregs (mac_enable_int mac_env c MAC_INT_DMA_ALL saved s1) 0x3138 = 0xd041"
  using interrupts_masked_and_restored [OF plain_card.mac_card_axioms UNIV_I surjective_pairing,
      of "\<lparr>queue_index = 0, dma_regs = 0x3100, has_tx_ring = True, has_rx_ring = True\<rparr>" 0
      "mwrite 0x3138 0xd041 empty_kern"]
  by (simp add: Let_def split_def)

section \<open>Coalescing times\<close>

text \<open>
  A coalescing time in microseconds survives the conversion to clock ticks and back, rounded down
  by no more than one tick of 256 cycles and one microsecond, as long as the time in cycles fits in 32
  bits and the clock has at least 1 MHz (below that the way back divides by zero).
\<close>

theorem riwt_roundtrip:
  assumes "0 < mhz" "mhz = sysclk_rate p div 1000000" "unat usec * mhz < 2 ^ 32"
  shows "\<exists>usec'. mac_riwt_to_usec p (mac_usec_to_riwt p usec) = Some usec' \<and>
    unat usec' \<le> unat usec \<and> unat usec \<le> unat usec' + 255 div mhz + 1"
proof -
  define t where "t = unat usec * mhz div 256"
  have t: "t * 256 \<le> unat usec * mhz" "unat usec * mhz \<le> t * 256 + 255" unfolding t_def by linarith+
  then have small: "t < 2 ^ 32" "t * 256 < 2 ^ 32" using assms(3) by linarith+
  have r: "mac_usec_to_riwt p usec = word_of_nat t"
    using assms(2,3) by (simp add: mac_usec_to_riwt_def t_def)
  have "unat (word_of_nat t * 256 :: u32) = t * 256" using small by (simp add: unat_word_ariths)
  moreover have "t * 256 div mhz < 2 ^ 32" using small(2) div_le_dividend [of "t * 256" mhz] by linarith
  ultimately have "mac_riwt_to_usec p (mac_usec_to_riwt p usec) = Some (word_of_nat (t * 256 div mhz)) \<and>
      unat (word_of_nat (t * 256 div mhz) :: u32) = t * 256 div mhz"
    using assms(1,2) by (simp add: mac_riwt_to_usec_def r)
  moreover have "t * 256 div mhz \<le> unat usec"
    using div_le_mono [OF t(1), of mhz] assms(1) by simp
  moreover have "unat usec \<le> t * 256 div mhz + 255 div mhz + 1"
  proof -
    have "unat usec = unat usec * mhz div mhz" using assms(1) by simp
    also have "\<dots> \<le> (t * 256 + 255) div mhz" by (rule div_le_mono [OF t(2)])
    also have "\<dots> = t * 256 div mhz + 255 div mhz + (t * 256 mod mhz + 255 mod mhz) div mhz"
      by (rule div_add1_eq)
    also have "(t * 256 mod mhz + 255 mod mhz) div mhz < 2"
      using mod_less_divisor [OF assms(1), of "t * 256"] mod_less_divisor [OF assms(1), of 255]
      by (intro less_mult_imp_div_less) linarith
    then have "t * 256 div mhz + 255 div mhz + (t * 256 mod mhz + 255 mod mhz) div mhz \<le>
        t * 256 div mhz + 255 div mhz + 1" by linarith
    finally show ?thesis .
  qed
  ultimately show ?thesis by auto
qed

theorem riwt_roundtrip_witness:
  "\<exists>usec'. mac_riwt_to_usec small_pdata (mac_usec_to_riwt small_pdata 30) = Some usec' \<and> unat usec' \<le> 30"
proof -
  have "125 = sysclk_rate small_pdata div 1000000" by (simp add: small_pdata_def)
  from riwt_roundtrip [OF _ this, of 30] show ?thesis by simp blast
qed

section \<open>Stopping the traffic\<close>

text \<open>
  A step that only clears bits of registers. On a card whose registers keep their values, setting
  fields to 0 is one; a register whose bit is clear stays so through all later steps.
\<close>

definition only_clears :: "kern \<Rightarrow> kern \<Rightarrow> bool" where
  "only_clears s s' \<longleftrightarrow> (\<forall>a k. bit (mregs s' a) k \<longrightarrow> bit (mregs s a) k)"

lemma only_clears_refl [simp]: "only_clears s s"
  by (simp add: only_clears_def)

lemma only_clears_trans: "only_clears s t \<Longrightarrow> only_clears t u \<Longrightarrow> only_clears s u"
  by (auto simp: only_clears_def)

lemma clear_fields_bits:
  "\<forall>(f, v) \<in> set fs. v = 0 \<Longrightarrow> bit (set_reg_bits fs w) k \<longleftrightarrow>
    bit w k \<and> (\<forall>(f, v) \<in> set fs. \<not> (fst f \<le> k \<and> k < fst f + snd f))"
proof (induction fs arbitrary: w)
  case (Cons x fs)
  obtain f v where x: "x = (f, v)" by (cases x)
  show ?case
  proof (cases "k < 32")
    case True
    then show ?thesis using Cons x by (auto simp: bit_MAC_SET)
  next
    case False
    then have "\<not> bit (u :: u32) k" for u using bit_imp_le_length [of u k] by auto
    then show ?thesis by blast
  qed
qed simp

lemma only_clears_fold: "(\<And>x t. x \<in> set xs \<Longrightarrow> only_clears t (f x t)) \<Longrightarrow> only_clears s (fold f xs s)"
proof (induction xs arbitrary: s)
  case (Cons x xs)
  have "only_clears (f x s) (fold f xs (f x s))" by (rule Cons.IH) (rule Cons.prems, simp)
  then show ?case using only_clears_trans Cons.prems [of x s] by simp
qed simp

lemma only_clears_regs: "mregs s' = mregs s \<Longrightarrow> only_clears s s'"
  by (simp add: only_clears_def)

lemma tx_stop_regs: "mregs (mac_prepare_tx_stop E n c s) = mregs s"
  by (induction n arbitrary: s) (simp_all add: Let_def split_def)

lemma rx_stop_regs: "mregs (mac_prepare_rx_stop E n q s) = mregs s"
  by (induction n arbitrary: s) (simp_all add: Let_def split_def)

context mac_card
begin

lemma only_clears_mset:
  assumes "a \<in> plain" "\<forall>(f, v) \<in> set fs. v = 0"
  shows "only_clears s (mset E a fs s)"
  using clear_fields_bits [OF assms(2)] by (auto simp: only_clears_def regs_mset [OF assms(1)])

lemma mset_cleared:
  assumes "a \<in> plain" "\<forall>(f, v) \<in> set fs. v = 0" "(f, 0) \<in> set fs" "fst f \<le> k" "k < fst f + snd f"
  shows "\<not> bit (mregs (mset E a fs s) a) k"
  using clear_fields_bits [OF assms(2)] assms(3-) by (auto simp: regs_mset [OF assms(1)])

text \<open>In a run of such steps the field named by one of them ends up clear.\<close>

lemma fold_cleared:
  assumes "x \<in> set xs" "\<forall>y \<in> set xs. adr y \<in> plain" "fst f \<le> k" "k < fst f + snd f"
  shows "\<not> bit (mregs (fold (\<lambda>y. mset E (adr y) [(f, 0)]) xs s) (adr x)) k"
proof -
  obtain ys zs where xs: "xs = ys @ x # zs" using assms(1) by (meson split_list)
  let ?g = "\<lambda>y. mset E (adr y) [(f, 0)]"
  let ?t = "?g x (fold ?g ys s)"
  have "only_clears ?t (fold ?g zs ?t)"
    using assms(2) by (intro only_clears_fold only_clears_mset) (auto simp: xs)
  moreover have "\<not> bit (mregs ?t (adr x)) k"
    using assms by (intro mset_cleared) auto
  moreover have "fold ?g xs s = fold ?g zs ?t" by (simp add: xs)
  ultimately show ?thesis by (auto simp: only_clears_def)
qed

end

lemma cleared_later: "only_clears s t \<Longrightarrow> \<not> bit (mregs s a) k \<Longrightarrow> \<not> bit (mregs t a) k"
  by (auto simp: only_clears_def)

text \<open>
  Stopping ends, however long the queues take, and stops: after \<open>mac_disable_tx\<close> and
  \<open>mac_disable_rx\<close>, on a card whose registers keep their values, the transmitter and the receiver are
  off (with the three options of the receiver), no transmit queue and no receive queue is enabled, and
  neither DMA engine of any channel runs.
\<close>

theorem traffic_stopped:
  assumes "mac_card E UNIV"
  shows "let R = mregs (mac_disable_rx E n p (mac_disable_tx E m p s)) in
    \<not> bit (R 0x0) 0 \<and> (\<forall>k < 4. \<not> bit (R 0x4) k) \<and> R 0x140 = 0 \<and>
    (\<forall>i < tx_q_count p. \<not> bit (R (mtl_reg i 0)) 2 \<and> \<not> bit (R (mtl_reg i 0)) 3) \<and>
    (\<forall>c \<in> set (tx_channels p). \<not> bit (R (dma_regs c + 0x4)) 0) \<and>
    (\<forall>c \<in> set (rx_channels p). \<not> bit (R (dma_regs c + 0x8)) 0)"
proof -
  note clears = mac_card.only_clears_mset [OF assms UNIV_I]
  note cleared = mac_card.mset_cleared [OF assms UNIV_I]
  note fcleared = mac_card.fold_cleared [OF assms]
  define s1 where "s1 = fold (mac_prepare_tx_stop E m) (tx_channels p) s"
  define s2 where "s2 = mset E 0x0 [((0, 1), 0)] s1"
  define s3 where "s3 = fold (\<lambda>i. mset E (mtl_reg i 0) [((2, 2), 0)]) [0..<tx_q_count p] s2"
  define s4 where "s4 = fold (\<lambda>c. mset E (dma_regs c + 0x4) [((0, 1), 0)]) (tx_channels p) s3"
  define s5 where "s5 = mset E 0x4 [((3, 1), 0), ((2, 1), 0), ((1, 1), 0), ((0, 1), 0)] s4"
  define s6 where "s6 = fold (mac_prepare_rx_stop E n) [0..<rx_q_count p] s5"
  define s7 where "s7 = mwrite 0x140 0 s6"
  define s8 where "s8 = fold (\<lambda>c. mset E (dma_regs c + 0x8) [((0, 1), 0)]) (rx_channels p) s7"
  have run: "mac_disable_rx E n p (mac_disable_tx E m p s) = s8"
    by (simp add: mac_disable_rx_def mac_disable_tx_def for_queues_def Let_def s1_def s2_def s3_def
        s4_def s5_def s6_def s7_def s8_def)
  have c78: "only_clears s7 s8" unfolding s8_def by (intro only_clears_fold clears) simp
  have "only_clears s6 s7" by (simp add: s7_def only_clears_def)
  moreover have "only_clears s5 s6" unfolding s6_def
    by (intro only_clears_fold only_clears_regs rx_stop_regs)
  ultimately have c58: "only_clears s5 s8" using c78 only_clears_trans by blast
  have "only_clears s4 s5" unfolding s5_def by (rule clears) simp
  then have c48: "only_clears s4 s8" using c58 only_clears_trans by blast
  have "only_clears s3 s4" unfolding s4_def by (intro only_clears_fold clears) simp
  then have c38: "only_clears s3 s8" using c48 only_clears_trans by blast
  have "only_clears s2 s3" unfolding s3_def by (intro only_clears_fold clears) simp
  then have c28: "only_clears s2 s8" using c38 only_clears_trans by blast
  have te: "\<not> bit (mregs s8 0x0) 0"
    by (rule cleared_later [OF c28], unfold s2_def, rule cleared [where f = "(0, 1)"]) simp_all
  have re: "\<not> bit (mregs s8 0x4) k" if "k < 4" for k
    by (rule cleared_later [OF c58], unfold s5_def, rule cleared [where f = "(k, 1)"])
      (use that in \<open>auto simp: less_Suc_eq numeral_eq_Suc\<close>)
  have "mregs s7 0x140 = 0" by (simp add: s7_def)
  then have "\<not> bit (mregs s8 0x140) k" for k using cleared_later [OF c78, of "0x140" k] by simp
  then have rq: "mregs s8 0x140 = 0" by (intro bit_eqI) simp
  have tq: "\<not> bit (mregs s8 (mtl_reg i 0)) k" if "i < tx_q_count p" "k \<in> {2, 3}" for i k
    by (rule cleared_later [OF c38], unfold s3_def, rule fcleared) (use that in auto)
  have st: "\<not> bit (mregs s8 (dma_regs c + 0x4)) 0" if "c \<in> set (tx_channels p)" for c
    by (rule cleared_later [OF c48], unfold s4_def,
        rule fcleared [where adr = "\<lambda>c. dma_regs c + 0x4"]) (use that in auto)
  have sr: "\<not> bit (mregs s8 (dma_regs c + 0x8)) 0" if "c \<in> set (rx_channels p)" for c
    unfolding s8_def by (rule fcleared [where adr = "\<lambda>c. dma_regs c + 0x8"]) (use that in auto)
  show ?thesis unfolding run Let_def using te re rq tq st sr by blast
qed

theorem traffic_stopped_witness:
  "\<not> bit (mregs (mac_disable_rx mac_env 2 small_pdata (mac_disable_tx mac_env 2 small_pdata
      (mwrite 0x3104 1 empty_kern))) 0x3104) 0"
proof -
  have "\<lparr>queue_index = 0, dma_regs = 0x3100, has_tx_ring = True, has_rx_ring = True\<rparr> \<in> set (tx_channels small_pdata)"
    by (simp add: small_pdata_def tx_channels_def)
  then show ?thesis
    using traffic_stopped [OF plain_card.mac_card_axioms, of 2 small_pdata 2 "mwrite 0x3104 1 empty_kern"]
    unfolding Let_def by force
qed

section \<open>Counters\<close>

text \<open>Each register is added to one counter, the same in both tables.\<close>

lemma mmc_tables_agree: "set (map snd tx_mmc_table @ map snd rx_mmc_table) = set mmc_table"
  by (simp add: tx_mmc_table_def rx_mmc_table_def mmc_table_def insert_commute)

lemma add_stat_other: "st \<noteq> st' \<Longrightarrow> fst (add_stat E st reg x) st' = fst x st'"
  by (simp add: add_stat_def split_def Let_def)

lemma fold_other: "(\<And>y x. y \<in> set ys \<Longrightarrow> fst (f y x) st = fst x st) \<Longrightarrow> fst (fold f ys x) st = fst x st"
  by (induction ys arbitrary: x) auto

text \<open>
  The broadcast counters are mixed up: the interrupt handlers and the full read agree on the
  counter of every register, but the register of all transmitted broadcast frames goes to the counter
  of the good ones. So that counter is fed by two registers, \<open>txbroadcastframes_gb\<close> by none and never
  changes, and every other counter is fed by exactly one.
\<close>

theorem mmc_broadcast_merged:
  "set (map snd tx_mmc_table @ map snd rx_mmc_table) = set mmc_table \<and>
   length (filter (\<lambda>(x, reg). x = st) mmc_table) =
     (if st = txbroadcastframes_g then 2 else if st = txbroadcastframes_gb then 0 else 1) \<and>
   fst (mac_read_mmc_stats E stats s) txbroadcastframes_gb = stats txbroadcastframes_gb \<and>
   fst (mac_tx_mmc_int E stats s) txbroadcastframes_gb = stats txbroadcastframes_gb \<and>
   fst (mac_rx_mmc_int E stats s) txbroadcastframes_gb = stats txbroadcastframes_gb"
proof -
  have tab: "\<forall>(x, reg) \<in> set mmc_table. x \<noteq> txbroadcastframes_gb" by (simp add: mmc_table_def)
  have ints: "\<forall>(f, x, reg) \<in> set tx_mmc_table. x \<noteq> txbroadcastframes_gb"
    "\<forall>(f, x, reg) \<in> set rx_mmc_table. x \<noteq> txbroadcastframes_gb"
    by (simp add: tx_mmc_table_def, simp add: rx_mmc_table_def)
  have "fst (fold (\<lambda>(x, reg). add_stat E x reg) mmc_table (stats, t)) txbroadcastframes_gb = stats txbroadcastframes_gb" for t
    using tab by (subst fold_other) (auto intro!: add_stat_other)
  then have rd: "fst (mac_read_mmc_stats E stats s) txbroadcastframes_gb = stats txbroadcastframes_gb"
    by (simp add: mac_read_mmc_stats_def split_def Let_def)
  have int: "fst (mmc_int E isr tab stats s) txbroadcastframes_gb = stats txbroadcastframes_gb"
    if "\<forall>(f, x, reg) \<in> set tab. x \<noteq> txbroadcastframes_gb" for isr tab
    unfolding mmc_int_def Let_def split_def using that by (subst fold_other) (auto intro!: add_stat_other)
  have "length (filter (\<lambda>(x, reg). x = st) mmc_table) =
     (if st = txbroadcastframes_g then 2 else if st = txbroadcastframes_gb then 0 else 1)"
    by (cases st) (simp_all add: mmc_table_def)
  then show ?thesis
    using mmc_tables_agree rd int [OF ints(1)] int [OF ints(2)]
    unfolding mac_tx_mmc_int_def mac_rx_mmc_int_def by blast
qed

end
