(* ===== verification/Ring.thy ===== *)
theory Ring
  imports Mac_hw
begin

text \<open>
  The descriptor rings of the Ethernet driver (header/bx_mac.h, bx_mac_desc.c and the descriptor
  routines of bx_mac_hw.c). A ring is an array of hardware descriptors beside an array of software
  entries; \<open>cur\<close> and \<open>dirty\<close> count up for ever, modulo \<open>2 ^ 32\<close>, and an access masks them with
  the ring's size. A pointer to a descriptor is its place in the array. Each store to a descriptor
  is an event of the history, so the order in which the card sees the stores is part of the model.
\<close>

section \<open>Register map\<close>

text \<open>Register offsets, and fields as position and length, from the headers.\<close>

abbreviation (input) DMA_CH_TDLR_HI :: u32 where "DMA_CH_TDLR_HI \<equiv> 0x10"
abbreviation (input) DMA_CH_TDLR_LO :: u32 where "DMA_CH_TDLR_LO \<equiv> 0x14"
abbreviation (input) DMA_CH_TDRLR :: u32 where "DMA_CH_TDRLR \<equiv> 0x30"
abbreviation (input) DMA_CH_TDTR_LO :: u32 where "DMA_CH_TDTR_LO \<equiv> 0x24"
abbreviation (input) MAC_TX_MAX_BUF_SIZE :: u32 where "MAC_TX_MAX_BUF_SIZE \<equiv> 0x3fc0"
abbreviation (input) TX_NORMAL_DESC3_CTXT :: "nat \<times> nat" where "TX_NORMAL_DESC3_CTXT \<equiv> (30, 1)"
abbreviation (input) TX_NORMAL_DESC3_LD :: "nat \<times> nat" where "TX_NORMAL_DESC3_LD \<equiv> (28, 1)"
abbreviation (input) TX_NORMAL_DESC3_OWN :: "nat \<times> nat" where "TX_NORMAL_DESC3_OWN \<equiv> (31, 1)"
abbreviation (input) TX_PACKET_ATTRIBUTES_TSO_ENABLE :: "nat \<times> nat" where "TX_PACKET_ATTRIBUTES_TSO_ENABLE \<equiv> (1, 1)"
abbreviation (input) TX_PACKET_ATTRIBUTES_VLAN_CTAG :: "nat \<times> nat" where "TX_PACKET_ATTRIBUTES_VLAN_CTAG \<equiv> (2, 1)"

section \<open>Data\<close>

record mac_dma_desc =
  desc0 :: u32
  desc1 :: u32
  desc2 :: u32
  desc3 :: u32

record mac_page_alloc =
  pages :: "nat option"
  pages_len :: u32
  pages_offset :: u32
  pages_dma :: u64

record mac_buffer_data =
  pa :: mac_page_alloc
  pa_unmap :: mac_page_alloc
  dma_base :: u64
  dma_off :: u64
  dma_len :: u32

record mac_rx_desc_data =
  rx_hdr :: mac_buffer_data
  rx_buf :: mac_buffer_data
  rx_hdr_len :: u16
  rx_len :: u16

record mac_desc_data =
  dma_desc :: nat
  dma_desc_addr :: u64
  skb :: "nat option"
  skb_dma :: u64
  skb_dma_len :: u32
  bql_packets :: u32
  bql_bytes :: u32
  rx :: mac_rx_desc_data
  mapped_as_page :: bool
  state_saved :: bool
  state_skb :: "nat option"
  state_len :: u32
  state_error :: u32

datatype pkt_hash = PKT_HASH_TYPE_NONE | PKT_HASH_TYPE_L2 | PKT_HASH_TYPE_L3 | PKT_HASH_TYPE_L4

record mac_pkt_info =
  pkt_skb :: "nat option"
  attributes :: u32
  errors :: u32
  desc_count :: u32
  pkt_length :: u32
  tx_packets :: u32
  tx_bytes :: u32
  header_len :: u32
  tcp_header_len :: u32
  tcp_payload_len :: u32
  mss :: u16
  vlan_ctag :: u16
  rx_tstamp :: u64
  rss_hash :: u32
  rss_hash_type :: pkt_hash

record mac_ring =
  pkt_info :: mac_pkt_info
  descs :: "mac_dma_desc list"
  dma_desc_head_addr :: u64
  dma_desc_count :: u32
  datas :: "mac_desc_data list"
  rx_hdr_pa :: mac_page_alloc
  rx_buf_pa :: mac_page_alloc
  cur :: u32
  dirty :: u32
  coalesce_count :: u32
  xmit_more :: bool
  queue_stopped :: bool
  cur_mss :: u16
  cur_vlan_ctag :: u16

text \<open>Zeroed memory.\<close>

definition no_page :: mac_page_alloc where
  "no_page = \<lparr>pages = None, pages_len = 0, pages_offset = 0, pages_dma = 0\<rparr>"

definition no_buffer :: mac_buffer_data where
  "no_buffer = \<lparr>pa = no_page, pa_unmap = no_page, dma_base = 0, dma_off = 0, dma_len = 0\<rparr>"

definition no_rx :: mac_rx_desc_data where
  "no_rx = \<lparr>rx_hdr = no_buffer, rx_buf = no_buffer, rx_hdr_len = 0, rx_len = 0\<rparr>"

definition no_data :: mac_desc_data where
  "no_data = \<lparr>dma_desc = 0, dma_desc_addr = 0, skb = None, skb_dma = 0, skb_dma_len = 0,
     bql_packets = 0, bql_bytes = 0, rx = no_rx, mapped_as_page = False, state_saved = False,
     state_skb = None, state_len = 0, state_error = 0\<rparr>"

definition no_desc :: mac_dma_desc where
  "no_desc = \<lparr>desc0 = 0, desc1 = 0, desc2 = 0, desc3 = 0\<rparr>"

definition no_pkt :: mac_pkt_info where
  "no_pkt = \<lparr>pkt_skb = None, attributes = 0, errors = 0, desc_count = 0, pkt_length = 0,
     tx_packets = 0, tx_bytes = 0, header_len = 0, tcp_header_len = 0, tcp_payload_len = 0,
     mss = 0, vlan_ctag = 0, rx_tstamp = 0, rss_hash = 0, rss_hash_type = PKT_HASH_TYPE_NONE\<rparr>"

text \<open>\<open>struct mac_pdata\<close> again, with the settings of coalescing.\<close>

record net_pdata = mac_pdata +
  tx_frames :: u32
  tx_usecs :: u32
  rx_frames :: u32
  rx_usecs :: u32

definition lower_32_bits :: "u64 \<Rightarrow> u32" where "lower_32_bits a = ucast a"
definition upper_32_bits :: "u64 \<Rightarrow> u32" where "upper_32_bits a = ucast (drop_bit 32 a)"

section \<open>Access to a ring\<close>

text \<open>\<open>MAC_GET_DESC_DATA\<close>\<close>

definition ridx :: "mac_ring \<Rightarrow> u32 \<Rightarrow> nat" where
  "ridx r i = unat (i AND (dma_desc_count r - 1))"

definition get_data :: "mac_ring \<Rightarrow> u32 \<Rightarrow> mac_desc_data" where
  "get_data r i = datas r ! ridx r i"

definition set_data :: "u32 \<Rightarrow> mac_desc_data \<Rightarrow> mac_ring \<Rightarrow> mac_ring" where
  "set_data i d r = r\<lparr>datas := (datas r)[ridx r i := d]\<rparr>"

definition get_desc :: "mac_ring \<Rightarrow> u32 \<Rightarrow> mac_dma_desc" where
  "get_desc r i = descs r ! dma_desc (get_data r i)"

definition get_word :: "nat \<Rightarrow> mac_dma_desc \<Rightarrow> u32" where
  "get_word n d = (if n = 0 then desc0 d else if n = 1 then desc1 d else if n = 2 then desc2 d else desc3 d)"

definition set_word :: "nat \<Rightarrow> u32 \<Rightarrow> mac_dma_desc \<Rightarrow> mac_dma_desc" where
  "set_word n v d = (if n = 0 then d\<lparr>desc0 := v\<rparr> else if n = 1 then d\<lparr>desc1 := v\<rparr>
     else if n = 2 then d\<lparr>desc2 := v\<rparr> else d\<lparr>desc3 := v\<rparr>)"

text \<open>
  A store to a word of a descriptor: a whole word, or a field by \<open>MAC_SET_REG_BITS_LE\<close>. The model
  is of a little-endian machine.
\<close>

datatype store = Word nat u32 | Field nat field u32

fun store_word :: "store \<Rightarrow> nat" where
  "store_word (Word n v) = n"
| "store_word (Field n f x) = n"

fun store_value :: "store \<Rightarrow> mac_dma_desc \<Rightarrow> u32" where
  "store_value (Word n v) d = v"
| "store_value (Field n f x) d = MAC_SET_REG_BITS (get_word n d) f x"

definition put :: "nat \<Rightarrow> store \<Rightarrow> mac_ring \<times> kern \<Rightarrow> mac_ring \<times> kern" where
  "put k w = (\<lambda>(r, s). let v = store_value w (descs r ! k) in
     (r\<lparr>descs := (descs r)[k := set_word (store_word w) v (descs r ! k)]\<rparr>, emit (Edesc k (store_word w) v) s))"

definition puts :: "nat \<Rightarrow> store list \<Rightarrow> mac_ring \<times> kern \<Rightarrow> mac_ring \<times> kern" where
  "puts k = fold (put k)"

definition desc_bits :: "mac_dma_desc \<Rightarrow> nat \<Rightarrow> field \<Rightarrow> u32" where
  "desc_bits d n f = MAC_GET_REG_BITS (get_word n d) f"

section \<open>DMA mappings\<close>

text \<open>\<open>dma_map_single\<close> and \<open>skb_frag_dma_map\<close> (a page): a bus address, or a mapping error.\<close>

definition dma_map :: "env \<Rightarrow> u32 \<Rightarrow> bool \<Rightarrow> kern \<Rightarrow> u64 option \<times> kern" where
  "dma_map E len page s =
     (if alloc_ok E (trace s)
      then (Some (dma_addr E (trace s)), emit (Edma_map (dma_addr E (trace s)) len page) s)
      else (None, emit Edma_fail s))"

definition dma_unmap :: "u64 \<Rightarrow> u32 \<Rightarrow> bool \<Rightarrow> kern \<Rightarrow> kern" where
  "dma_unmap a len page = emit (Edma_unmap a len page)"

definition free_skb :: "nat option \<Rightarrow> kern \<Rightarrow> kern" where
  "free_skb p s = (case p of None \<Rightarrow> s | Some i \<Rightarrow> emit (Efree_skb i) s)"

definition put_page :: "nat option \<Rightarrow> kern \<Rightarrow> kern" where
  "put_page p s = (case p of None \<Rightarrow> s | Some i \<Rightarrow> emit (Epage_put i) s)"

definition unmap_pages :: "mac_page_alloc \<Rightarrow> kern \<Rightarrow> kern" where
  "unmap_pages p s = (if pages p = None then s
     else put_page (pages p) (dma_unmap (pages_dma p) (pages_len p) True s))"

definition mac_unmap_desc_data :: "mac_desc_data \<times> kern \<Rightarrow> mac_desc_data \<times> kern" where
  "mac_unmap_desc_data = (\<lambda>(d, s).
     let (d, s) = (if skb_dma d \<noteq> 0
           then (d\<lparr>skb_dma := 0, skb_dma_len := 0\<rparr>, dma_unmap (skb_dma d) (skb_dma_len d) (mapped_as_page d) s)
           else (d, s));
         s = free_skb (skb d) s;
         d = d\<lparr>skb := None\<rparr>;
         s = put_page (pages (pa (rx_hdr (rx d)))) s;
         s = unmap_pages (pa_unmap (rx_hdr (rx d))) s;
         s = put_page (pages (pa (rx_buf (rx d)))) s;
         s = unmap_pages (pa_unmap (rx_buf (rx d))) s;
         d = d\<lparr>bql_packets := 0, bql_bytes := 0, rx := no_rx, mapped_as_page := False\<rparr>;
         d = (if state_saved d then d\<lparr>state_saved := False, state_skb := None, state_len := 0, state_error := 0\<rparr>
              else d)
     in (d, s))"

definition unmap_at :: "u32 \<Rightarrow> mac_ring \<times> kern \<Rightarrow> mac_ring \<times> kern" where
  "unmap_at i = (\<lambda>(r, s). let (d, s) = mac_unmap_desc_data (get_data r i, s) in (set_data i d r, s))"

section \<open>Sent buffers\<close>

text \<open>What the driver reads of \<open>struct sk_buff\<close>; \<open>skb_id\<close> is its address.\<close>

record sk_buff =
  skb_id :: nat
  skb_len :: u32
  skb_headlen :: u32
  frags :: "u32 list"
  csum_partial :: bool
  gso_size :: u16
  gso_segs :: u32
  transport_offset :: u32
  tcp_hdrlen :: u32
  vlan_tag :: "u16 option"
  sk_more :: bool
  queue_mapping :: nat

definition tx_attr :: "mac_pkt_info \<Rightarrow> field \<Rightarrow> bool" where
  "tx_attr p f \<longleftrightarrow> MAC_GET_REG_BITS (attributes p) f \<noteq> 0"

definition tso_context :: "mac_ring \<Rightarrow> bool" where
  "tso_context r \<longleftrightarrow> tx_attr (pkt_info r) TX_PACKET_ATTRIBUTES_TSO_ENABLE \<and> mss (pkt_info r) \<noteq> cur_mss r"

definition vlan_context :: "mac_ring \<Rightarrow> bool" where
  "vlan_context r \<longleftrightarrow> tx_attr (pkt_info r) TX_PACKET_ATTRIBUTES_VLAN_CTAG \<and> vlan_ctag (pkt_info r) \<noteq> cur_vlan_ctag r"

text \<open>
  The loops over \<open>datalen\<close>: map at most \<open>MAC_TX_MAX_BUF_SIZE\<close> bytes at a time into the entries
  from \<open>i\<close>. The flag tells whether every mapping succeeded.
\<close>

definition add_length :: "u32 \<Rightarrow> mac_ring \<Rightarrow> mac_ring" where
  "add_length n r = r\<lparr>pkt_info := (pkt_info r)\<lparr>pkt_length := pkt_length (pkt_info r) + n\<rparr>\<rparr>"

function map_area :: "env \<Rightarrow> bool \<Rightarrow> nat \<Rightarrow> mac_ring \<times> u32 \<times> kern \<Rightarrow> bool \<times> mac_ring \<times> u32 \<times> kern" where
  "map_area E page datalen (r, i, s) =
     (if datalen = 0 then (True, r, i, s)
      else let len = min datalen (unat MAC_TX_MAX_BUF_SIZE) in
        case dma_map E (word_of_nat len) page s of
          (None, s) \<Rightarrow> (False, r, i, s)
        | (Some a, s) \<Rightarrow>
            let d = (get_data r i)\<lparr>skb_dma := a, skb_dma_len := word_of_nat len\<rparr>;
                d = (if page then d\<lparr>mapped_as_page := True\<rparr> else d)
            in map_area E page (datalen - len) (add_length (word_of_nat len) (set_data i d r), i + 1, s))"
  by pat_completeness auto

termination by (relation "measure (\<lambda>(E, page, n, t). n)") auto

declare map_area.simps [simp del]

fun map_frags :: "env \<Rightarrow> u32 list \<Rightarrow> mac_ring \<times> u32 \<times> kern \<Rightarrow> bool \<times> mac_ring \<times> u32 \<times> kern" where
  "map_frags E [] t = (True, t)"
| "map_frags E (n # ns) t =
     (case map_area E True (unat n) t of (False, t) \<Rightarrow> (False, t) | (True, t) \<Rightarrow> map_frags E ns t)"

text \<open>The header of a segmented packet has an entry of its own.\<close>

definition map_header :: "env \<Rightarrow> mac_ring \<times> u32 \<times> kern \<Rightarrow> bool \<times> mac_ring \<times> u32 \<times> kern" where
  "map_header E = (\<lambda>(r, i, s).
     if \<not> tx_attr (pkt_info r) TX_PACKET_ATTRIBUTES_TSO_ENABLE then (True, r, i, s)
     else case dma_map E (header_len (pkt_info r)) False s of
          (None, s) \<Rightarrow> (False, r, i, s)
        | (Some a, s) \<Rightarrow>
            (True, add_length (header_len (pkt_info r))
               (set_data i ((get_data r i)\<lparr>skb_dma := a, skb_dma_len := header_len (pkt_info r)\<rparr>) r), i + 1, s))"

definition map_skb :: "env \<Rightarrow> sk_buff \<Rightarrow> mac_ring \<times> u32 \<times> kern \<Rightarrow> bool \<times> mac_ring \<times> u32 \<times> kern" where
  "map_skb E k = (\<lambda>(r, i, s).
     let offset = (if tx_attr (pkt_info r) TX_PACKET_ATTRIBUTES_TSO_ENABLE then header_len (pkt_info r) else 0) in
     case map_header E (r, i, s) of
       (False, t) \<Rightarrow> (False, t)
     | (True, t) \<Rightarrow>
         case map_area E False (unat (skb_headlen k - offset)) t of
           (False, t) \<Rightarrow> (False, t)
         | (True, t) \<Rightarrow> map_frags E (frags k) t)"

text \<open>
  On an error the entries from the first to the one that failed are unmapped; the loop compares
  the two counters, which may have wrapped in between.
\<close>

definition mac_map_tx_skb :: "env \<Rightarrow> sk_buff \<Rightarrow> mac_ring \<times> kern \<Rightarrow> u32 \<times> mac_ring \<times> kern" where
  "mac_map_tx_skb E k = (\<lambda>(r, s).
     let start_index = cur r;
         r = r\<lparr>pkt_info := (pkt_info r)\<lparr>desc_count := 0, pkt_length := 0\<rparr>\<rparr>;
         cur_index = (if tso_context r \<or> vlan_context r then start_index + 1 else start_index)
     in case map_skb E k (r, cur_index, s) of
       (False, r, cur_index, s) \<Rightarrow>
         (0, fold (\<lambda>n. unmap_at (start_index + word_of_nat n)) [0..<unat cur_index - unat start_index] (r, s))
     | (True, r, cur_index, s) \<Rightarrow>
         let r = set_data (cur_index - 1) ((get_data r (cur_index - 1))\<lparr>skb := Some (skb_id k)\<rparr>) r;
             n = cur_index - start_index
         in (n, r\<lparr>pkt_info := (pkt_info r)\<lparr>desc_count := n\<rparr>\<rparr>, s))"

section \<open>Descriptors of the transmitter\<close>

definition mac_tx_complete :: "mac_dma_desc \<Rightarrow> bool" where
  "mac_tx_complete d \<longleftrightarrow> desc_bits d 3 TX_NORMAL_DESC3_OWN = 0"

definition mac_is_context_desc :: "mac_dma_desc \<Rightarrow> u32" where
  "mac_is_context_desc d = desc_bits d 3 TX_NORMAL_DESC3_CTXT"

definition mac_is_last_desc :: "mac_dma_desc \<Rightarrow> u32" where
  "mac_is_last_desc d = desc_bits d 3 TX_NORMAL_DESC3_LD"

definition mac_tx_desc_reset :: "mac_desc_data \<Rightarrow> mac_ring \<times> kern \<Rightarrow> mac_ring \<times> kern" where
  "mac_tx_desc_reset d t = (case puts (dma_desc d) [Word 0 0, Word 1 0, Word 2 0, Word 3 0] t of (r, s) \<Rightarrow> (r, emit Ewmb s))"

text \<open>\<open>mac_tx_desc_init\<close> of bx_mac_hw.c\<close>

definition hw_tx_desc_init :: "mac_channel \<Rightarrow> mac_ring \<times> kern \<Rightarrow> mac_ring \<times> kern" where
  "hw_tx_desc_init c t =
     (case fold (\<lambda>i (r, s). mac_tx_desc_reset (get_data r (word_of_nat i)) (r, s)) [0..<unat (dma_desc_count (fst t))] t of
        (r, s) \<Rightarrow> let a = dma_desc_addr (get_data r (cur r)) in
          (r, mwrites [(dma_regs c + DMA_CH_TDRLR, dma_desc_count r - 1),
                       (dma_regs c + DMA_CH_TDLR_HI, upper_32_bits a),
                       (dma_regs c + DMA_CH_TDLR_LO, lower_32_bits a),
                       (dma_regs c + DMA_CH_TDTR_LO, lower_32_bits a)] s))"

text \<open>\<open>mac_tx_desc_init\<close> of bx_mac_desc.c, on one channel\<close>

definition link_descs :: "mac_ring \<Rightarrow> mac_ring" where
  "link_descs r = fold (\<lambda>j r. set_data (word_of_nat j)
       ((get_data r (word_of_nat j))\<lparr>dma_desc := j, dma_desc_addr := dma_desc_head_addr r + 16 * word_of_nat j\<rparr>) r)
     [0..<unat (dma_desc_count r)] r"

definition mac_tx_desc_init :: "mac_channel \<Rightarrow> mac_ring \<times> kern \<Rightarrow> mac_ring \<times> kern" where
  "mac_tx_desc_init c = (\<lambda>(r, s). hw_tx_desc_init c
     ((link_descs r)\<lparr>cur := 0, dirty := 0, xmit_more := False, queue_stopped := False, cur_mss := 0, cur_vlan_ctag := 0\<rparr>, s))"

end
