(* ===== verification/Xmit.thy ===== *)
theory Xmit
  imports Ring Mac_cfg
begin

text \<open>
  Sending on a ring of the Ethernet driver: \<open>mac_dev_xmit\<close> and \<open>mac_tx_start_xmit\<close> (bx_mac_hw.c),
  \<open>mac_xmit\<close> and \<open>mac_tx_poll\<close> (bx_mac_net.c). The driver's counters of sent packets belong to the
  whole device; a model of one channel keeps them beside its ring. The time stamps that only a
  disabled message prints are left out. \<open>netif_xmit_stopped\<close> of the kernel is the argument \<open>X\<close>, a
  function of the history and of the queue. A poll sees the descriptors as they are when it starts.
\<close>

section \<open>Register map\<close>

text \<open>Register offsets, and fields as position and length, from the headers.\<close>

abbreviation (input) MAC_TX_DESC_CNT :: u32 where "MAC_TX_DESC_CNT \<equiv> 0x1000"
abbreviation (input) MAC_TX_DESC_MAX_PROC :: u32 where "MAC_TX_DESC_MAX_PROC \<equiv> 0x800"
abbreviation (input) MAC_TX_DESC_MIN_FREE :: u32 where "MAC_TX_DESC_MIN_FREE \<equiv> 0x200"
abbreviation (input) TX_CONTEXT_DESC2_MSS :: "nat \<times> nat" where "TX_CONTEXT_DESC2_MSS \<equiv> (0, 15)"
abbreviation (input) TX_CONTEXT_DESC3_CTXT :: "nat \<times> nat" where "TX_CONTEXT_DESC3_CTXT \<equiv> (30, 1)"
abbreviation (input) TX_CONTEXT_DESC3_TCMSSV :: "nat \<times> nat" where "TX_CONTEXT_DESC3_TCMSSV \<equiv> (26, 1)"
abbreviation (input) TX_CONTEXT_DESC3_VLTV :: "nat \<times> nat" where "TX_CONTEXT_DESC3_VLTV \<equiv> (16, 1)"
abbreviation (input) TX_CONTEXT_DESC3_VT :: "nat \<times> nat" where "TX_CONTEXT_DESC3_VT \<equiv> (0, 16)"
abbreviation (input) TX_NORMAL_DESC2_HL_B1L :: "nat \<times> nat" where "TX_NORMAL_DESC2_HL_B1L \<equiv> (0, 14)"
abbreviation (input) TX_NORMAL_DESC2_IC :: "nat \<times> nat" where "TX_NORMAL_DESC2_IC \<equiv> (31, 1)"
abbreviation (input) TX_NORMAL_DESC2_TTSE :: "nat \<times> nat" where "TX_NORMAL_DESC2_TTSE \<equiv> (30, 1)"
abbreviation (input) TX_NORMAL_DESC2_VLAN_INSERT :: u32 where "TX_NORMAL_DESC2_VLAN_INSERT \<equiv> 0x2"
abbreviation (input) TX_NORMAL_DESC2_VTIR :: "nat \<times> nat" where "TX_NORMAL_DESC2_VTIR \<equiv> (14, 2)"
abbreviation (input) TX_NORMAL_DESC3_CIC :: "nat \<times> nat" where "TX_NORMAL_DESC3_CIC \<equiv> (16, 2)"
abbreviation (input) TX_NORMAL_DESC3_CPC :: "nat \<times> nat" where "TX_NORMAL_DESC3_CPC \<equiv> (26, 2)"
abbreviation (input) TX_NORMAL_DESC3_FD :: "nat \<times> nat" where "TX_NORMAL_DESC3_FD \<equiv> (29, 1)"
abbreviation (input) TX_NORMAL_DESC3_FL :: "nat \<times> nat" where "TX_NORMAL_DESC3_FL \<equiv> (0, 15)"
abbreviation (input) TX_NORMAL_DESC3_TCPHDRLEN :: "nat \<times> nat" where "TX_NORMAL_DESC3_TCPHDRLEN \<equiv> (19, 4)"
abbreviation (input) TX_NORMAL_DESC3_TCPPL :: "nat \<times> nat" where "TX_NORMAL_DESC3_TCPPL \<equiv> (0, 18)"
abbreviation (input) TX_NORMAL_DESC3_TSE :: "nat \<times> nat" where "TX_NORMAL_DESC3_TSE \<equiv> (18, 1)"
abbreviation (input) TX_PACKET_ATTRIBUTES_CSUM_ENABLE :: "nat \<times> nat" where "TX_PACKET_ATTRIBUTES_CSUM_ENABLE \<equiv> (0, 1)"
abbreviation (input) TX_PACKET_ATTRIBUTES_PTP :: "nat \<times> nat" where "TX_PACKET_ATTRIBUTES_PTP \<equiv> (3, 1)"

section \<open>State\<close>

text \<open>
  A channel's transmit ring and timer, with the counters that \<open>struct mac_pdata\<close> and its statistics
  hold for all channels.
\<close>

record tx_chan =
  tx_ring :: mac_ring
  tx_timer_active :: bool
  tx_desc_update_cnt :: u32
  tx_desc_cur_last :: u32
  tx_desc_cur_update_total :: u32
  tx_vlan_packets :: u64
  tx_tso_packets :: u64

type_synonym stopped = "event list \<Rightarrow> nat \<Rightarrow> bool"

text \<open>
  \<open>MAX_SKB_FRAGS + MAC_TX_MAX_SPLIT + 2\<close>, with the kernel's 17 fragments and \<open>GSO_MAX_SIZE\<close> 65536.
\<close>

definition MAC_TX_MAX_DESC_NR :: u32 where
  "MAC_TX_MAX_DESC_NR = 17 + (65536 div MAC_TX_MAX_BUF_SIZE + 1) + 2"

abbreviation NETDEV_TX_OK :: int where "NETDEV_TX_OK \<equiv> 0"
abbreviation NETDEV_TX_BUSY :: int where "NETDEV_TX_BUSY \<equiv> 16"

section \<open>Telling the card\<close>

definition mac_tx_start_xmit :: "net_pdata \<Rightarrow> mac_channel \<Rightarrow> tx_chan \<times> kern \<Rightarrow> tx_chan \<times> kern" where
  "mac_tx_start_xmit p c = (\<lambda>(t, s).
     let r = tx_ring t;
         ring_cur_step = (MAC_TX_DESC_CNT + cur r - tx_desc_cur_last t) mod MAC_TX_DESC_CNT;
         s = mwrite (dma_regs c + DMA_CH_TDTR_LO) (lower_32_bits (dma_desc_addr (get_data r (cur r)))) (emit Ewmb s);
         t = t\<lparr>tx_desc_update_cnt := tx_desc_update_cnt t + 1,
               tx_desc_cur_update_total := tx_desc_cur_update_total t + ring_cur_step,
               tx_desc_cur_last := cur r\<rparr>;
         (t, s) = (if tx_usecs p \<noteq> 0 \<and> \<not> tx_timer_active t
                   then (t\<lparr>tx_timer_active := True\<rparr>, emit Etimer s) else (t, s))
     in (t\<lparr>tx_ring := r\<lparr>xmit_more := False\<rparr>\<rparr>, s))"

definition mac_tx_avail_desc :: "mac_ring \<Rightarrow> u32" where
  "mac_tx_avail_desc r = dma_desc_count r - (cur r - dirty r)"

definition mac_maybe_stop_tx_queue ::
    "net_pdata \<Rightarrow> mac_channel \<Rightarrow> u32 \<Rightarrow> tx_chan \<times> kern \<Rightarrow> int \<times> tx_chan \<times> kern" where
  "mac_maybe_stop_tx_queue p c count = (\<lambda>(t, s).
     if count > mac_tx_avail_desc (tx_ring t)
     then let s = emit (Equeue_stop (queue_index c)) s;
              t = t\<lparr>tx_ring := (tx_ring t)\<lparr>queue_stopped := True\<rparr>\<rparr>;
              (t, s) = (if xmit_more (tx_ring t) then mac_tx_start_xmit p c (t, s) else (t, s))
          in (NETDEV_TX_BUSY, t, s)
     else (0, t, s))"

section \<open>Preparing a packet\<close>

definition mac_prep_vlan :: "sk_buff \<Rightarrow> mac_pkt_info \<Rightarrow> mac_pkt_info" where
  "mac_prep_vlan k q = (case vlan_tag k of None \<Rightarrow> q | Some v \<Rightarrow> q\<lparr>vlan_ctag := v\<rparr>)"

definition skb_cow_head :: "env \<Rightarrow> kern \<Rightarrow> int \<times> kern" where
  "skb_cow_head E s = (if alloc_ok E (trace s) then (0, emit (Eskb_cow True) s) else (- ENOMEM, emit (Eskb_cow False) s))"

definition mac_prep_tso :: "env \<Rightarrow> sk_buff \<Rightarrow> mac_pkt_info \<times> kern \<Rightarrow> int \<times> mac_pkt_info \<times> kern" where
  "mac_prep_tso E k = (\<lambda>(q, s).
     if \<not> tx_attr q TX_PACKET_ATTRIBUTES_TSO_ENABLE then (0, q, s)
     else case skb_cow_head E s of (ret, s) \<Rightarrow>
       if ret \<noteq> 0 then (ret, q, s)
       else let hl = transport_offset k + tcp_hdrlen k in
         (0, q\<lparr>header_len := hl, tcp_header_len := tcp_hdrlen k, tcp_payload_len := skb_len k - hl,
               mss := gso_size k, tx_packets := gso_segs k,
               tx_bytes := tx_bytes q + (gso_segs k - 1) * hl\<rparr>, s))"

text \<open>\<open>skb_is_gso\<close> tells whether \<open>gso_size\<close> is set.\<close>

definition mac_is_tso :: "sk_buff \<Rightarrow> bool" where
  "mac_is_tso k \<longleftrightarrow> csum_partial k \<and> gso_size k \<noteq> 0"

text \<open>The loops that count the buffers of an area.\<close>

function count_bufs :: "nat \<Rightarrow> u32 \<Rightarrow> u32" where
  "count_bufs len n = (if len = 0 then n else count_bufs (len - min len (unat MAC_TX_MAX_BUF_SIZE)) (n + 1))"
  by pat_completeness auto

termination by (relation "measure fst") auto

declare count_bufs.simps [simp del]

definition set_attr :: "field \<Rightarrow> mac_pkt_info \<Rightarrow> mac_pkt_info" where
  "set_attr f q = q\<lparr>attributes := MAC_SET_REG_BITS (attributes q) f 1\<rparr>"

definition mac_prep_tx_pkt :: "mac_ring \<Rightarrow> sk_buff \<Rightarrow> mac_pkt_info \<Rightarrow> mac_pkt_info" where
  "mac_prep_tx_pkt r k q =
     (let q = q\<lparr>pkt_skb := Some (skb_id k), desc_count := 0, tx_packets := 1, tx_bytes := skb_len k\<rparr>;
          context_desc = mac_is_tso k \<and> gso_size k \<noteq> cur_mss r;
          q = (if mac_is_tso k
               then set_attr TX_PACKET_ATTRIBUTES_CSUM_ENABLE (set_attr TX_PACKET_ATTRIBUTES_TSO_ENABLE
                      (q\<lparr>desc_count := (if context_desc then 2 else 1)\<rparr>))
               else if csum_partial k then set_attr TX_PACKET_ATTRIBUTES_CSUM_ENABLE q
               else q);
          q = (case vlan_tag k of
                 None \<Rightarrow> q
               | Some v \<Rightarrow> set_attr TX_PACKET_ATTRIBUTES_VLAN_CTAG
                     (if v \<noteq> cur_vlan_ctag r \<and> \<not> context_desc then q\<lparr>desc_count := desc_count q + 1\<rparr> else q));
          q = q\<lparr>desc_count := count_bufs (unat (skb_headlen k)) (desc_count q)\<rparr>
      in q\<lparr>desc_count := fold (\<lambda>f n. count_bufs (unat f) n) (frags k) (desc_count q)\<rparr>)"

section \<open>Writing the descriptors\<close>

definition tx_set_ic :: "net_pdata \<Rightarrow> mac_ring \<Rightarrow> bool" where
  "tx_set_ic p r =
     (if tx_frames p = 0 then False
      else tx_packets (pkt_info r) > tx_frames p \<or> coalesce_count r mod tx_frames p < tx_packets (pkt_info r))"

definition context_stores :: "bool \<Rightarrow> bool \<Rightarrow> mac_pkt_info \<Rightarrow> store list" where
  "context_stores tso vlan q =
     (if tso then [Field 2 TX_CONTEXT_DESC2_MSS (ucast (mss q)), Field 3 TX_CONTEXT_DESC3_CTXT 1,
                   Field 3 TX_CONTEXT_DESC3_TCMSSV 1] else []) @
     (if vlan then [Field 3 TX_CONTEXT_DESC3_CTXT 1, Field 3 TX_CONTEXT_DESC3_VT (ucast (vlan_ctag q)),
                    Field 3 TX_CONTEXT_DESC3_VLTV 1] else [])"

definition buffer_stores :: "mac_desc_data \<Rightarrow> store list" where
  "buffer_stores d = [Word 0 (lower_32_bits (skb_dma d)), Word 1 (upper_32_bits (skb_dma d)),
     Field 2 TX_NORMAL_DESC2_HL_B1L (skb_dma_len d)]"

definition first_stores :: "bool \<Rightarrow> mac_pkt_info \<Rightarrow> mac_desc_data \<Rightarrow> store list" where
  "first_stores own q d = buffer_stores d @
     (if tx_attr q TX_PACKET_ATTRIBUTES_VLAN_CTAG then [Field 2 TX_NORMAL_DESC2_VTIR TX_NORMAL_DESC2_VLAN_INSERT] else []) @
     (if tx_attr q TX_PACKET_ATTRIBUTES_PTP then [Field 2 TX_NORMAL_DESC2_TTSE 1] else []) @
     [Field 3 TX_NORMAL_DESC3_FD 1, Field 3 TX_NORMAL_DESC3_CTXT 0] @
     (if own then [Field 3 TX_NORMAL_DESC3_OWN 1] else []) @
     (if tx_attr q TX_PACKET_ATTRIBUTES_TSO_ENABLE
      then [Field 3 TX_NORMAL_DESC3_TSE 1, Field 3 TX_NORMAL_DESC3_TCPPL (tcp_payload_len q),
            Field 3 TX_NORMAL_DESC3_TCPHDRLEN (tcp_header_len q div 4)]
      else [Field 3 TX_NORMAL_DESC3_CPC 0] @
           (if tx_attr q TX_PACKET_ATTRIBUTES_CSUM_ENABLE then [Field 3 TX_NORMAL_DESC3_CIC 3] else []) @
           [Field 3 TX_NORMAL_DESC3_FL (pkt_length q)])"

definition next_stores :: "mac_pkt_info \<Rightarrow> mac_desc_data \<Rightarrow> store list" where
  "next_stores q d = buffer_stores d @
     [Field 3 TX_NORMAL_DESC3_OWN 1, Field 3 TX_NORMAL_DESC3_CTXT 0] @
     (if tx_attr q TX_PACKET_ATTRIBUTES_CSUM_ENABLE then [Field 3 TX_NORMAL_DESC3_CIC 3] else [])"

definition last_stores :: "bool \<Rightarrow> store list" where
  "last_stores ic = Field 3 TX_NORMAL_DESC3_LD 1 # (if ic then [Field 2 TX_NORMAL_DESC2_IC 1] else [])"

text \<open>The stores to the descriptor of entry \<open>i\<close>.\<close>

definition puts_at :: "u32 \<Rightarrow> store list \<Rightarrow> mac_ring \<times> kern \<Rightarrow> mac_ring \<times> kern" where
  "puts_at i ws t = puts (dma_desc (get_data (fst t) i)) ws t"

definition put_context :: "mac_ring \<times> kern \<Rightarrow> mac_ring \<times> u32 \<times> kern" where
  "put_context = (\<lambda>(r, s).
     if tso_context r \<or> vlan_context r
     then case puts_at (cur r) (context_stores (tso_context r) (vlan_context r) (pkt_info r)) (r, s) of (r', s) \<Rightarrow>
       (r'\<lparr>cur_mss := (if tso_context r then mss (pkt_info r) else cur_mss r),
           cur_vlan_ctag := (if vlan_context r then vlan_ctag (pkt_info r) else cur_vlan_ctag r)\<rparr>, cur r + 1, s)
     else (r, cur r, s))"

definition put_next :: "mac_ring \<times> u32 \<times> kern \<Rightarrow> mac_ring \<times> u32 \<times> kern" where
  "put_next = (\<lambda>(r, i, s).
     case puts_at (i + 1) (next_stores (pkt_info r) (get_data r (i + 1))) (r, s) of (r, s) \<Rightarrow> (r, i + 1, s))"

text \<open>All stores but the one that gives the first descriptor to the card.\<close>

definition put_packet :: "bool \<Rightarrow> mac_ring \<times> kern \<Rightarrow> mac_ring \<times> u32 \<times> kern" where
  "put_packet ic = (\<lambda>(r, s).
     case put_context (r, s) of (r', i, s) \<Rightarrow>
     case puts_at i (first_stores (i \<noteq> cur r) (pkt_info r) (get_data r' i)) (r', s) of (r', s) \<Rightarrow>
     case fold (\<lambda>_. put_next) [unat (i - cur r) + 1..<unat (desc_count (pkt_info r))] (r', i, s) of (r', i, s) \<Rightarrow>
     case puts_at i (last_stores ic) (r', s) of (r', s) \<Rightarrow> (r', i, s))"

definition mac_dev_xmit :: "stopped \<Rightarrow> net_pdata \<Rightarrow> mac_channel \<Rightarrow> sk_buff \<Rightarrow> tx_chan \<times> kern \<Rightarrow> tx_chan \<times> kern" where
  "mac_dev_xmit X p c k = (\<lambda>(t, s).
     let start_index = cur (tx_ring t);
         q = pkt_info (tx_ring t);
         r = (tx_ring t)\<lparr>coalesce_count := coalesce_count (tx_ring t) + tx_packets q\<rparr>
     in case put_packet (tx_set_ic p r) (r, s) of (r, i, s) \<Rightarrow>
        let r = set_data i ((get_data r i)\<lparr>bql_packets := tx_packets q, bql_bytes := tx_bytes q\<rparr>) r in
        case puts_at start_index [Field 3 TX_NORMAL_DESC3_OWN 1] (r, emit Ewmb s) of (r, s) \<Rightarrow>
        let s = emit Ewmb s;
            t = t\<lparr>tx_ring := r\<lparr>cur := i + 1\<rparr>,
                  tx_vlan_packets := tx_vlan_packets t + (if tx_attr q TX_PACKET_ATTRIBUTES_VLAN_CTAG then 1 else 0),
                  tx_tso_packets := tx_tso_packets t + (if tx_attr q TX_PACKET_ATTRIBUTES_TSO_ENABLE then 1 else 0)\<rparr>
        in if \<not> sk_more k \<or> X (trace s) (queue_index c) then mac_tx_start_xmit p c (t, s)
           else (t\<lparr>tx_ring := (tx_ring t)\<lparr>xmit_more := True\<rparr>\<rparr>, s))"

section \<open>Sending\<close>

definition set_pkt :: "mac_pkt_info \<Rightarrow> tx_chan \<Rightarrow> tx_chan" where
  "set_pkt q t = t\<lparr>tx_ring := (tx_ring t)\<lparr>pkt_info := q\<rparr>\<rparr>"

text \<open>From the point where there is room for the packet.\<close>

definition xmit_mapped :: "env \<Rightarrow> stopped \<Rightarrow> net_pdata \<Rightarrow> mac_channel \<Rightarrow> sk_buff \<Rightarrow> tx_chan \<times> kern \<Rightarrow> int \<times> tx_chan \<times> kern" where
  "xmit_mapped E X p c k = (\<lambda>(t, s).
     case mac_map_tx_skb E k (tx_ring t, s) of (n, r, s) \<Rightarrow>
     let t = t\<lparr>tx_ring := r\<rparr> in
     if n = 0 then (NETDEV_TX_OK, t, emit (Efree_skb (skb_id k)) s)
     else let s = emit (Equeue_sent (queue_index c) (tx_bytes (pkt_info r))) s;
              (t, s) = mac_dev_xmit X p c k (t, s);
              (ret, t, s) = mac_maybe_stop_tx_queue p c MAC_TX_MAX_DESC_NR (t, s)
          in (NETDEV_TX_OK, t, s))"

definition xmit_prepared :: "env \<Rightarrow> stopped \<Rightarrow> net_pdata \<Rightarrow> mac_channel \<Rightarrow> sk_buff \<Rightarrow> tx_chan \<times> kern \<Rightarrow> int \<times> tx_chan \<times> kern" where
  "xmit_prepared E X p c k = (\<lambda>(t, s).
     case mac_prep_tso E k (pkt_info (tx_ring t), s) of (ret, q, s) \<Rightarrow>
     if ret \<noteq> 0 then (ret, set_pkt q t, emit (Efree_skb (skb_id k)) s)
     else xmit_mapped E X p c k (set_pkt (mac_prep_vlan k q) t, s))"

definition mac_xmit :: "env \<Rightarrow> stopped \<Rightarrow> net_pdata \<Rightarrow> mac_channel \<Rightarrow> sk_buff \<Rightarrow> tx_chan \<times> kern \<Rightarrow> int \<times> tx_chan \<times> kern" where
  "mac_xmit E X p c k = (\<lambda>(t, s).
     case mac_get_link_status E 0 s of (l, s) \<Rightarrow>
     if l \<noteq> 0 then (1, t, s)
     else if skb_len k = 0 then (NETDEV_TX_OK, t, emit (Efree_skb (skb_id k)) s)
     else let t = set_pkt (mac_prep_tx_pkt (tx_ring t) k no_pkt) t in
       case mac_maybe_stop_tx_queue p c (desc_count (pkt_info (tx_ring t))) (t, s) of (ret, t, s) \<Rightarrow>
       if ret \<noteq> 0 then (ret, t, s) else xmit_prepared E X p c k (t, s))"

section \<open>Completion\<close>

fun tx_poll_loop :: "nat \<Rightarrow> u32 \<Rightarrow> nat \<times> u32 \<times> u32 \<times> mac_ring \<times> kern \<Rightarrow> nat \<times> u32 \<times> u32 \<times> mac_ring \<times> kern" where
  "tx_poll_loop 0 c t = t"
| "tx_poll_loop (Suc m) c (n, pk, by, r, s) =
     (let d = get_desc r (dirty r) in
      if dirty r = c \<or> \<not> mac_tx_complete d then (n, pk, by, r, s)
      else let e = get_data r (dirty r);
               (pk, by) = (if mac_is_last_desc d \<noteq> 0 then (pk + bql_packets e, by + bql_bytes e) else (pk, by));
               (r, s) = unmap_at (dirty r) (r, s);
               (r, s) = mac_tx_desc_reset (get_data r (dirty r)) (r, s)
           in tx_poll_loop m c (Suc n, pk, by, r\<lparr>dirty := dirty r + 1\<rparr>, s))"

definition mac_tx_poll :: "mac_channel \<Rightarrow> tx_chan \<times> kern \<Rightarrow> int \<times> tx_chan \<times> kern" where
  "mac_tx_poll c = (\<lambda>(t, s).
     if \<not> has_tx_ring c then (0, t, s)
     else case tx_poll_loop (unat MAC_TX_DESC_MAX_PROC) (cur (tx_ring t)) (0, 0, 0, tx_ring t, s) of (n, pk, by, r, s) \<Rightarrow>
       if n = 0 then (0, t\<lparr>tx_ring := r\<rparr>, s)
       else let s = emit (Equeue_done (queue_index c) pk by) s;
                (r, s) = (if queue_stopped r \<and> mac_tx_avail_desc r > MAC_TX_DESC_MIN_FREE
                          then (r\<lparr>queue_stopped := False\<rparr>, emit (Equeue_wake (queue_index c)) s) else (r, s))
            in (int n, t\<lparr>tx_ring := r\<rparr>, s))"

end
