(* ===== verification/Ring_Correct.thy ===== *)
theory Ring_Correct
  imports Xmit
begin

text \<open>
  Rings seen from a counter \<open>b\<close>: entry \<open>n\<close> is the one at \<open>b + n\<close>. As long as \<open>n\<close> stays below the
  ring's size the entries are apart, also where the counter wraps, so a store or a change of one
  entry leaves the others alone.
\<close>

section \<open>Shape\<close>

definition ring_size :: "mac_ring \<Rightarrow> nat" where
  "ring_size r = unat (dma_desc_count r)"

definition ring_shape :: "mac_ring \<Rightarrow> bool" where
  "ring_shape r \<longleftrightarrow> (\<exists>k < 32. dma_desc_count r = 2 ^ k) \<and>
     length (descs r) = ring_size r \<and> length (datas r) = ring_size r \<and>
     (\<forall>j < ring_size r. dma_desc (datas r ! j) = j)"

lemma ridx_mod:
  assumes "dma_desc_count r = 2 ^ k" "k < 32"
  shows "ridx r i = unat i mod 2 ^ k"
proof -
  have "i AND (dma_desc_count r - 1) = take_bit k i"
    using assms by (simp add: take_bit_eq_mask mask_eq_exp_minus_1)
  then have "ridx r i = take_bit k (unat i)" by (simp only: ridx_def unsigned_take_bit_eq)
  then show ?thesis by (simp only: take_bit_eq_mod)
qed

lemma unat_2k: "k < 32 \<Longrightarrow> unat ((2 :: u32) ^ k) = 2 ^ k"
  using unat_u32_of_nat [of "2 ^ k"] power_strict_increasing [of k 32 "2::nat"] by simp

lemma ring_size_pos: "ring_shape r \<Longrightarrow> 0 < ring_size r"
  by (auto simp: ring_shape_def ring_size_def unat_2k)

lemma ring_size_bound: "ring_shape r \<Longrightarrow> ring_size r \<le> 2 ^ 31"
proof -
  assume "ring_shape r"
  then obtain k where "k < 32" "dma_desc_count r = 2 ^ k" by (auto simp: ring_shape_def)
  then have "ring_size r = 2 ^ k" "k \<le> 31" by (simp_all add: ring_size_def unat_2k)
  moreover have "(2::nat) ^ k \<le> 2 ^ 31" using \<open>k \<le> 31\<close> by (rule power_increasing) simp
  ultimately show ?thesis by simp
qed

lemma ridx_less [simp]: "ring_shape r \<Longrightarrow> ridx r i < ring_size r"
  by (auto simp: ring_shape_def ring_size_def ridx_mod unat_2k)

lemma ridx_add:
  assumes "ring_shape r"
  shows "ridx r (b + word_of_nat n) = (ridx r b + n) mod ring_size r"
proof -
  from assms obtain k where k: "k < 32" "dma_desc_count r = 2 ^ k" by (auto simp: ring_shape_def)
  have d: "(2::nat) ^ k dvd 2 ^ 32" using k by (intro le_imp_power_dvd) simp
  have m: "x mod 4294967296 mod 2 ^ k = x mod 2 ^ k" for x :: nat using d by (simp add: mod_mod_cancel)
  have "unat (b + word_of_nat n) mod 2 ^ k = (unat b + n) mod 2 ^ k"
    by (simp add: unat_word_ariths unsigned_of_nat take_bit_eq_mod m mod_add_right_eq)
  then show ?thesis using k by (simp add: ridx_mod ring_size_def unat_2k mod_add_left_eq)
qed

lemma mod_apart_le:
  assumes "(a + m) mod k = (a + n) mod k" "m \<le> n" "n < (k::nat)"
  shows "m = n"
proof -
  have "k dvd (a + n) - (a + m)" using assms mod_eq_dvd_iff_nat [of "a + m" "a + n" k] by simp
  then have "n - m = 0" using assms dvd_imp_le [of k "n - m"] by (cases "n - m = 0") auto
  then show ?thesis using assms by simp
qed

lemma mod_apart:
  "(a + m) mod k = (a + n) mod k \<Longrightarrow> m < k \<Longrightarrow> n < (k::nat) \<Longrightarrow> m = n"
  using mod_apart_le [of a m k n] mod_apart_le [of a n k m] by (cases m n rule: le_cases) auto

lemma ridx_inj:
  assumes "ring_shape r" "m < ring_size r" "n < ring_size r"
  shows "ridx r (b + word_of_nat m) = ridx r (b + word_of_nat n) \<longleftrightarrow> m = n"
proof
  assume "ridx r (b + word_of_nat m) = ridx r (b + word_of_nat n)"
  then have "(ridx r b + m) mod ring_size r = (ridx r b + n) mod ring_size r" using assms by (simp add: ridx_add)
  then show "m = n"
    using assms mod_apart [of "ridx r b" m "ring_size r" n] by blast
qed simp

section \<open>One entry at a time\<close>

definition ent_desc :: "mac_ring \<Rightarrow> u32 \<Rightarrow> nat \<Rightarrow> mac_dma_desc" where
  "ent_desc r b n = get_desc r (b + word_of_nat n)"

definition ent_data :: "mac_ring \<Rightarrow> u32 \<Rightarrow> nat \<Rightarrow> mac_desc_data" where
  "ent_data r b n = get_data r (b + word_of_nat n)"

definition desc_after :: "store list \<Rightarrow> mac_dma_desc \<Rightarrow> mac_dma_desc" where
  "desc_after = fold (\<lambda>w d. set_word (store_word w) (store_value w d) d)"

lemma desc_after_simps [simp]:
  "desc_after [] d = d" "desc_after (w # ws) d = desc_after ws (set_word (store_word w) (store_value w d) d)"
  "desc_after (xs @ ys) d = desc_after ys (desc_after xs d)"
  by (simp_all add: desc_after_def)

lemma shape_pointer: "ring_shape r \<Longrightarrow> dma_desc (get_data r i) = ridx r i"
  using ridx_less [of r i] by (simp add: ring_shape_def get_data_def)

lemma get_desc_shape: "ring_shape r \<Longrightarrow> get_desc r i = descs r ! ridx r i"
  by (simp add: get_desc_def shape_pointer)

text \<open>What the stores change of a ring, and what they add to the history.\<close>

fun store_events :: "nat \<Rightarrow> store list \<Rightarrow> mac_dma_desc \<Rightarrow> event list" where
  "store_events k [] d = []"
| "store_events k (w # ws) d =
     store_events k ws (set_word (store_word w) (store_value w d) d) @ [Edesc k (store_word w) (store_value w d)]"

lemma puts_effect:
  assumes "k < length (descs r)"
  shows "fst (puts k ws (r, s)) = r\<lparr>descs := (descs r)[k := desc_after ws (descs r ! k)]\<rparr> \<and>
    trace (snd (puts k ws (r, s))) = store_events k ws (descs r ! k) @ trace s \<and>
    next_obj (snd (puts k ws (r, s))) = next_obj s"
  using assms
proof (induction ws arbitrary: r s)
  case (Cons w ws)
  let ?v = "store_value w (descs r ! k)"
  let ?r = "r\<lparr>descs := (descs r)[k := set_word (store_word w) ?v (descs r ! k)]\<rparr>"
  have "puts k (w # ws) (r, s) = puts k ws (?r, emit (Edesc k (store_word w) ?v) s)"
    by (simp add: puts_def put_def Let_def)
  then show ?case using Cons.IH [of ?r "emit (Edesc k (store_word w) ?v) s"] Cons.prems by simp
qed (simp add: puts_def)

text \<open>The rest of a ring, which stores and changes of entries keep.\<close>

definition frame :: "mac_ring \<Rightarrow> mac_ring" where
  "frame r = r\<lparr>descs := [], datas := []\<rparr>"

lemma frame_eqD:
  assumes "frame r = frame r'"
  shows "pkt_info r = pkt_info r'" "dma_desc_head_addr r = dma_desc_head_addr r'"
    "dma_desc_count r = dma_desc_count r'" "cur r = cur r'" "dirty r = dirty r'"
    "coalesce_count r = coalesce_count r'" "xmit_more r = xmit_more r'" "queue_stopped r = queue_stopped r'"
    "cur_mss r = cur_mss r'" "cur_vlan_ctag r = cur_vlan_ctag r'" "ridx r = ridx r'" "ring_size r = ring_size r'"
  using assms by (cases r; cases r'; simp add: frame_def ridx_def fun_eq_iff ring_size_def)+

lemma frame_upd [simp]: "frame (r\<lparr>descs := x\<rparr>) = frame r" "frame (r\<lparr>datas := y\<rparr>) = frame r"
  by (simp_all add: frame_def)

lemma ridx_upd [simp]: "ridx (r\<lparr>descs := x\<rparr>) = ridx r" "ridx (r\<lparr>datas := y\<rparr>) = ridx r"
  by (simp_all add: ridx_def fun_eq_iff)

lemma puts_at_view:
  assumes "ring_shape r" "m < ring_size r" "puts_at (b + word_of_nat m) ws (r, s) = (r', s')"
  shows "ring_shape r' \<and> frame r' = frame r \<and> datas r' = datas r \<and>
    (\<forall>n < ring_size r. ent_desc r' b n = (if n = m then desc_after ws (ent_desc r b m) else ent_desc r b n)) \<and>
    trace s' = store_events (ridx r (b + word_of_nat m)) ws (ent_desc r b m) @ trace s"
proof -
  let ?k = "ridx r (b + word_of_nat m)"
  have k: "?k < length (descs r)" using assms(1) by (simp add: ring_shape_def)
  have p: "puts ?k ws (r, s) = (r', s')" using assms by (simp add: puts_at_def shape_pointer)
  note e = puts_effect [OF k, of ws s, unfolded p, simplified]
  have sh: "ring_shape r'" using assms(1) e by (simp add: ring_shape_def ring_size_def)
  have i: "ridx r' = ridx r" using e by (simp add: ridx_def fun_eq_iff)
  show ?thesis
    using sh assms(1,2) e k
    by (auto simp: ent_desc_def get_desc_shape i ridx_inj)
qed

lemma set_data_view:
  assumes "ring_shape r" "m < ring_size r" "dma_desc d = dma_desc (ent_data r b m)"
  shows "ring_shape (set_data (b + word_of_nat m) d r) \<and> frame (set_data (b + word_of_nat m) d r) = frame r \<and>
    descs (set_data (b + word_of_nat m) d r) = descs r \<and>
    (\<forall>n < ring_size r. ent_data (set_data (b + word_of_nat m) d r) b n = (if n = m then d else ent_data r b n)) \<and>
    (\<forall>n < ring_size r. ent_desc (set_data (b + word_of_nat m) d r) b n = ent_desc r b n)"
proof -
  let ?k = "ridx r (b + word_of_nat m)" and ?r = "set_data (b + word_of_nat m) d r"
  have k: "?k < length (datas r)" using assms(1) by (simp add: ring_shape_def)
  have d: "dma_desc d = ?k" using assms by (simp add: ent_data_def shape_pointer)
  have i: "ridx ?r = ridx r" by (simp add: ridx_def set_data_def fun_eq_iff)
  have sh: "ring_shape ?r"
    using assms(1) d k by (auto simp: ring_shape_def set_data_def ring_size_def nth_list_update)
  have 1: "\<forall>n < ring_size r. ent_data ?r b n = (if n = m then d else ent_data r b n)"
    using assms(1,2) k by (auto simp: ent_data_def get_data_def i) (auto simp: set_data_def ridx_inj nth_list_update)
  have 2: "\<forall>n. ent_desc ?r b n = ent_desc r b n"
    using sh assms(1) by (auto simp: ent_desc_def get_desc_shape i) (simp add: set_data_def)
  show ?thesis using sh 1 2 by (auto simp: set_data_def)
qed

section \<open>The stores of a packet\<close>

text \<open>\<open>stores ev A\<close>: the events are stores to descriptors in \<open>A\<close>.\<close>

definition stores :: "event list \<Rightarrow> nat set \<Rightarrow> bool" where
  "stores ev A \<longleftrightarrow> (\<forall>e \<in> set ev. \<exists>k n v. e = Edesc k n v \<and> k \<in> A)"

lemma stores_simps [simp]:
  "stores [] A" "stores (xs @ ys) A \<longleftrightarrow> stores xs A \<and> stores ys A"
  "stores (e # xs) A \<longleftrightarrow> (\<exists>k n v. e = Edesc k n v \<and> k \<in> A) \<and> stores xs A"
  by (auto simp: stores_def)

lemma stores_mono: "stores ev A \<Longrightarrow> A \<subseteq> B \<Longrightarrow> stores ev B"
  by (fastforce simp: stores_def)

lemma stores_events [simp]: "k \<in> A \<Longrightarrow> stores (store_events k ws d) A"
  by (induction ws arbitrary: d) auto

definition ring_same :: "mac_ring \<Rightarrow> mac_ring \<Rightarrow> bool" where
  "ring_same r r' \<longleftrightarrow> ring_shape r' \<and> frame r' = frame r \<and> datas r' = datas r"

lemma ring_same_ent:
  "ring_same r r' \<Longrightarrow> ent_data r' b n = ent_data r b n" "ring_same r r' \<Longrightarrow> ring_size r' = ring_size r"
  "ring_same r r' \<Longrightarrow> ridx r' = ridx r" "ring_same r r' \<Longrightarrow> pkt_info r' = pkt_info r"
  "ring_same r r' \<Longrightarrow> ring_shape r'"
  by (auto simp: ring_same_def ent_data_def get_data_def dest: frame_eqD)

lemma ring_same_trans: "ring_same r r1 \<Longrightarrow> ring_same r1 r2 \<Longrightarrow> ring_same r r2"
  by (simp add: ring_same_def)

lemma add_word_Suc: "b + word_of_nat m + 1 = b + word_of_nat (Suc m)"
  by simp

lemma put_next_view:
  assumes "ring_shape r" "Suc m < ring_size r" "put_next (r, b + word_of_nat m, s) = (r', i, s')"
  shows "ring_same r r' \<and> i = b + word_of_nat (Suc m) \<and>
    (\<forall>n < ring_size r. ent_desc r' b n =
       (if n = Suc m then desc_after (next_stores (pkt_info r) (ent_data r b n)) (ent_desc r b n) else ent_desc r b n)) \<and>
    (\<exists>ev. trace s' = ev @ trace s \<and> stores ev {ridx r (b + word_of_nat (Suc m))})"
proof -
  let ?ws = "next_stores (pkt_info r) (ent_data r b (Suc m))"
  obtain r1 s1 where p: "puts_at (b + word_of_nat (Suc m)) ?ws (r, s) = (r1, s1)" by fastforce
  have e: "r' = r1 \<and> i = b + word_of_nat (Suc m) \<and> s' = s1"
    using assms(3) p by (simp add: put_next_def ent_data_def add.assoc [symmetric] add.commute [of 1] del: of_nat_Suc)
      (simp add: add.assoc add.commute [of 1])
  show ?thesis
    using puts_at_view [OF assms(1,2) p] e by (auto simp: ring_same_def)
qed

lemma put_nexts_view:
  assumes "ring_shape r" "m + length xs < ring_size r"
    "fold (\<lambda>_. put_next) xs (r, b + word_of_nat m, s) = (r', i, s')"
  shows "ring_same r r' \<and> i = b + word_of_nat (m + length xs) \<and>
    (\<forall>n < ring_size r. ent_desc r' b n =
       (if m < n \<and> n \<le> m + length xs
        then desc_after (next_stores (pkt_info r) (ent_data r b n)) (ent_desc r b n) else ent_desc r b n)) \<and>
    (\<exists>ev. trace s' = ev @ trace s \<and> stores ev {ridx r (b + word_of_nat n) |n. m < n \<and> n \<le> m + length xs})"
  using assms
proof (induction xs arbitrary: m r s)
  case Nil
  then show ?case by (auto simp: ring_same_def)
next
  case (Cons x xs)
  obtain r1 i1 s1 where 1: "put_next (r, b + word_of_nat m, s) = (r1, i1, s1)" by (metis prod_cases3)
  have v: "ring_same r r1" "i1 = b + word_of_nat (Suc m)"
    "\<forall>n < ring_size r. ent_desc r1 b n =
       (if n = Suc m then desc_after (next_stores (pkt_info r) (ent_data r b n)) (ent_desc r b n) else ent_desc r b n)"
    "\<exists>ev. trace s1 = ev @ trace s \<and> stores ev {ridx r (b + word_of_nat (Suc m))}"
    using put_next_view [OF Cons.prems(1) _ 1] Cons.prems(2) by auto
  note same = ring_same_ent [OF v(1)]
  have "fold (\<lambda>_. put_next) xs (r1, b + word_of_nat (Suc m), s1) = (r', i, s')"
    using Cons.prems(3) 1 v(2) by simp
  then have w: "ring_same r1 r' \<and> i = b + word_of_nat (Suc m + length xs) \<and>
    (\<forall>n < ring_size r1. ent_desc r' b n =
       (if Suc m < n \<and> n \<le> Suc m + length xs
        then desc_after (next_stores (pkt_info r1) (ent_data r1 b n)) (ent_desc r1 b n) else ent_desc r1 b n)) \<and>
    (\<exists>ev. trace s' = ev @ trace s1 \<and> stores ev {ridx r1 (b + word_of_nat n) |n. Suc m < n \<and> n \<le> Suc m + length xs})"
    using Cons.prems(2) same by (intro Cons.IH) auto
  obtain ev1 ev2 where ev: "trace s1 = ev1 @ trace s" "stores ev1 {ridx r (b + word_of_nat (Suc m))}"
    "trace s' = ev2 @ trace s1" "stores ev2 {ridx r (b + word_of_nat n) |n. Suc m < n \<and> n \<le> Suc m + length xs}"
    using v(4) w same by auto
  have "stores (ev2 @ ev1) {ridx r (b + word_of_nat n) |n. m < n \<and> n \<le> m + length (x # xs)}"
    (is "stores _ ?A")
  proof -
    have "ridx r (b + word_of_nat (Suc m)) \<in> ?A" by (intro CollectI exI [of _ "Suc m"]) simp
    then have "stores ev1 ?A" by (intro stores_mono [OF ev(2)]) simp
    moreover have "stores ev2 ?A" by (rule stores_mono [OF ev(4)]) auto
    ultimately show ?thesis by simp
  qed
  moreover have "trace s' = (ev2 @ ev1) @ trace s" using ev by simp
  ultimately have 3: "\<exists>ev. trace s' = ev @ trace s \<and>
      stores ev {ridx r (b + word_of_nat n) |n. m < n \<and> n \<le> m + length (x # xs)}" by blast
  have 2: "ent_desc r' b n = (if m < n \<and> n \<le> m + length (x # xs)
        then desc_after (next_stores (pkt_info r) (ent_data r b n)) (ent_desc r b n) else ent_desc r b n)"
    if "n < ring_size r" for n
    using w v(3) same that by (cases "n = Suc m") auto
  show ?case using w 2 3 ring_same_trans [OF v(1)] by auto
qed

text \<open>The other fields of a ring do not matter to the entries.\<close>

lemma other_fields [simp]:
  "ridx (r\<lparr>pkt_info := x_pkt_info\<rparr>) = ridx r" "ring_size (r\<lparr>pkt_info := x_pkt_info\<rparr>) = ring_size r" "ring_shape (r\<lparr>pkt_info := x_pkt_info\<rparr>) = ring_shape r" "get_data (r\<lparr>pkt_info := x_pkt_info\<rparr>) = get_data r" "get_desc (r\<lparr>pkt_info := x_pkt_info\<rparr>) = get_desc r" "ent_data (r\<lparr>pkt_info := x_pkt_info\<rparr>) = ent_data r" "ent_desc (r\<lparr>pkt_info := x_pkt_info\<rparr>) = ent_desc r"
  "ridx (r\<lparr>cur := x_cur\<rparr>) = ridx r" "ring_size (r\<lparr>cur := x_cur\<rparr>) = ring_size r" "ring_shape (r\<lparr>cur := x_cur\<rparr>) = ring_shape r" "get_data (r\<lparr>cur := x_cur\<rparr>) = get_data r" "get_desc (r\<lparr>cur := x_cur\<rparr>) = get_desc r" "ent_data (r\<lparr>cur := x_cur\<rparr>) = ent_data r" "ent_desc (r\<lparr>cur := x_cur\<rparr>) = ent_desc r"
  "ridx (r\<lparr>dirty := x_dirty\<rparr>) = ridx r" "ring_size (r\<lparr>dirty := x_dirty\<rparr>) = ring_size r" "ring_shape (r\<lparr>dirty := x_dirty\<rparr>) = ring_shape r" "get_data (r\<lparr>dirty := x_dirty\<rparr>) = get_data r" "get_desc (r\<lparr>dirty := x_dirty\<rparr>) = get_desc r" "ent_data (r\<lparr>dirty := x_dirty\<rparr>) = ent_data r" "ent_desc (r\<lparr>dirty := x_dirty\<rparr>) = ent_desc r"
  "ridx (r\<lparr>coalesce_count := x_coalesce_count\<rparr>) = ridx r" "ring_size (r\<lparr>coalesce_count := x_coalesce_count\<rparr>) = ring_size r" "ring_shape (r\<lparr>coalesce_count := x_coalesce_count\<rparr>) = ring_shape r" "get_data (r\<lparr>coalesce_count := x_coalesce_count\<rparr>) = get_data r" "get_desc (r\<lparr>coalesce_count := x_coalesce_count\<rparr>) = get_desc r" "ent_data (r\<lparr>coalesce_count := x_coalesce_count\<rparr>) = ent_data r" "ent_desc (r\<lparr>coalesce_count := x_coalesce_count\<rparr>) = ent_desc r"
  "ridx (r\<lparr>xmit_more := x_xmit_more\<rparr>) = ridx r" "ring_size (r\<lparr>xmit_more := x_xmit_more\<rparr>) = ring_size r" "ring_shape (r\<lparr>xmit_more := x_xmit_more\<rparr>) = ring_shape r" "get_data (r\<lparr>xmit_more := x_xmit_more\<rparr>) = get_data r" "get_desc (r\<lparr>xmit_more := x_xmit_more\<rparr>) = get_desc r" "ent_data (r\<lparr>xmit_more := x_xmit_more\<rparr>) = ent_data r" "ent_desc (r\<lparr>xmit_more := x_xmit_more\<rparr>) = ent_desc r"
  "ridx (r\<lparr>queue_stopped := x_queue_stopped\<rparr>) = ridx r" "ring_size (r\<lparr>queue_stopped := x_queue_stopped\<rparr>) = ring_size r" "ring_shape (r\<lparr>queue_stopped := x_queue_stopped\<rparr>) = ring_shape r" "get_data (r\<lparr>queue_stopped := x_queue_stopped\<rparr>) = get_data r" "get_desc (r\<lparr>queue_stopped := x_queue_stopped\<rparr>) = get_desc r" "ent_data (r\<lparr>queue_stopped := x_queue_stopped\<rparr>) = ent_data r" "ent_desc (r\<lparr>queue_stopped := x_queue_stopped\<rparr>) = ent_desc r"
  "ridx (r\<lparr>cur_mss := x_cur_mss\<rparr>) = ridx r" "ring_size (r\<lparr>cur_mss := x_cur_mss\<rparr>) = ring_size r" "ring_shape (r\<lparr>cur_mss := x_cur_mss\<rparr>) = ring_shape r" "get_data (r\<lparr>cur_mss := x_cur_mss\<rparr>) = get_data r" "get_desc (r\<lparr>cur_mss := x_cur_mss\<rparr>) = get_desc r" "ent_data (r\<lparr>cur_mss := x_cur_mss\<rparr>) = ent_data r" "ent_desc (r\<lparr>cur_mss := x_cur_mss\<rparr>) = ent_desc r"
  "ridx (r\<lparr>cur_vlan_ctag := x_cur_vlan_ctag\<rparr>) = ridx r" "ring_size (r\<lparr>cur_vlan_ctag := x_cur_vlan_ctag\<rparr>) = ring_size r" "ring_shape (r\<lparr>cur_vlan_ctag := x_cur_vlan_ctag\<rparr>) = ring_shape r" "get_data (r\<lparr>cur_vlan_ctag := x_cur_vlan_ctag\<rparr>) = get_data r" "get_desc (r\<lparr>cur_vlan_ctag := x_cur_vlan_ctag\<rparr>) = get_desc r" "ent_data (r\<lparr>cur_vlan_ctag := x_cur_vlan_ctag\<rparr>) = ent_data r" "ent_desc (r\<lparr>cur_vlan_ctag := x_cur_vlan_ctag\<rparr>) = ent_desc r"
  by (simp_all add: ridx_def ring_size_def ring_shape_def get_data_def get_desc_def ent_data_def ent_desc_def fun_eq_iff)

text \<open>The descriptors of a packet, from \<open>d\<close> before and the data \<open>D\<close> of its \<open>N\<close> entries.\<close>

definition packet_desc ::
    "bool \<Rightarrow> bool \<Rightarrow> bool \<Rightarrow> mac_pkt_info \<Rightarrow> nat \<Rightarrow> (nat \<Rightarrow> mac_desc_data) \<Rightarrow> (nat \<Rightarrow> mac_dma_desc) \<Rightarrow> nat \<Rightarrow> mac_dma_desc" where
  "packet_desc tso vlan ic q N D d n =
     (let c = (if tso \<or> vlan then 1 else 0);
          x = (if n < c then desc_after (context_stores tso vlan q) (d n)
               else if n = c then desc_after (first_stores (c \<noteq> 0) q (D n)) (d n)
               else if n < N then desc_after (next_stores q (D n)) (d n) else d n)
      in if n = N - 1 then desc_after (last_stores ic) x else x)"

lemma frame_tags: "frame (r\<lparr>cur_mss := a, cur_vlan_ctag := v\<rparr>) = (frame r)\<lparr>cur_mss := a, cur_vlan_ctag := v\<rparr>"
  by (cases r) (simp add: frame_def)

lemma frame_same_tags: "(frame r)\<lparr>cur_mss := cur_mss r, cur_vlan_ctag := cur_vlan_ctag r\<rparr> = frame r"
  by (cases r) (simp add: frame_def)

lemma put_context_view:
  assumes "ring_shape r" "put_context (r, s) = (r', i, s')"
  shows "ring_shape r' \<and> datas r' = datas r \<and>
    frame r' = (frame r)\<lparr>cur_mss := (if tso_context r then mss (pkt_info r) else cur_mss r),
                       cur_vlan_ctag := (if vlan_context r then vlan_ctag (pkt_info r) else cur_vlan_ctag r)\<rparr> \<and>
    i = cur r + (if tso_context r \<or> vlan_context r then 1 else 0) \<and>
    (\<forall>n < ring_size r. ent_desc r' (cur r) n =
       (if n = 0 \<and> (tso_context r \<or> vlan_context r)
        then desc_after (context_stores (tso_context r) (vlan_context r) (pkt_info r)) (ent_desc r (cur r) n)
        else ent_desc r (cur r) n)) \<and>
    (\<exists>ev. trace s' = ev @ trace s \<and>
       ev = (if tso_context r \<or> vlan_context r
             then store_events (ridx r (cur r)) (context_stores (tso_context r) (vlan_context r) (pkt_info r)) (ent_desc r (cur r) 0)
             else []))"
proof (cases "tso_context r \<or> vlan_context r")
  case True
  let ?ws = "context_stores (tso_context r) (vlan_context r) (pkt_info r)"
  obtain r1 s1 where p: "puts_at (cur r + word_of_nat 0) ?ws (r, s) = (r1, s1)" by fastforce
  note v = puts_at_view [OF assms(1) ring_size_pos [OF assms(1)] p]
  have e: "r' = r1\<lparr>cur_mss := (if tso_context r then mss (pkt_info r) else cur_mss r),
      cur_vlan_ctag := (if vlan_context r then vlan_ctag (pkt_info r) else cur_vlan_ctag r)\<rparr> \<and> i = cur r + 1 \<and> s' = s1"
    using assms(2) p True by (auto simp: put_context_def)
  have f: "frame r1 = frame r" using v by simp
  have "frame r' = (frame r)\<lparr>cur_mss := (if tso_context r then mss (pkt_info r) else cur_mss r),
      cur_vlan_ctag := (if vlan_context r then vlan_ctag (pkt_info r) else cur_vlan_ctag r)\<rparr>"
    using e f by (simp add: frame_tags)
  then show ?thesis using v e True by auto
next
  case False
  then show ?thesis using assms by (auto simp: put_context_def frame_same_tags)
qed

section \<open>Ownership\<close>

definition own :: "mac_dma_desc \<Rightarrow> bool" where
  "own d \<longleftrightarrow> bit (desc3 d) 31"

fun no_own :: "store \<Rightarrow> bool" where
  "no_own (Word n v) = (n < 3)"
| "no_own (Field n f x) = (n < 3 \<or> fst f + snd f \<le> 31)"

lemma no_own_keeps: "no_own w \<Longrightarrow> own (set_word (store_word w) (store_value w d) d) = own d"
  by (cases w) (auto simp: own_def set_word_def get_word_def bit_MAC_SET)

lemma no_own_after: "\<forall>w \<in> set ws. no_own w \<Longrightarrow> own (desc_after ws d) = own d"
  by (induction ws arbitrary: d) (auto simp: no_own_keeps)

text \<open>\<open>quiet ev k\<close>: no store of the history gives descriptor \<open>k\<close> to the card.\<close>

definition quiet :: "event list \<Rightarrow> nat \<Rightarrow> bool" where
  "quiet ev k \<longleftrightarrow> (\<forall>v. Edesc k 3 v \<in> set ev \<longrightarrow> \<not> bit v 31)"

lemma quiet_simps [simp]:
  "quiet [] k" "quiet (xs @ ys) k \<longleftrightarrow> quiet xs k \<and> quiet ys k"
  "quiet (e # xs) k \<longleftrightarrow> (\<forall>v. e = Edesc k 3 v \<longrightarrow> \<not> bit v 31) \<and> quiet xs k"
  by (auto simp: quiet_def)

lemma stores_quiet: "stores ev A \<Longrightarrow> k \<notin> A \<Longrightarrow> quiet ev k"
  by (fastforce simp: stores_def quiet_def)

lemma quiet_store: "no_own w \<Longrightarrow> \<not> own d \<Longrightarrow> store_word w = 3 \<Longrightarrow> \<not> bit (store_value w d) 31"
  by (cases w) (auto simp: own_def get_word_def bit_MAC_SET)

lemma quiet_events: "\<forall>w \<in> set ws. no_own w \<Longrightarrow> \<not> own d \<Longrightarrow> quiet (store_events k ws d) k"
  by (induction ws arbitrary: d) (auto simp: no_own_keeps quiet_store)

lemma no_own_context: "\<forall>w \<in> set (context_stores tso vlan q). no_own w"
  by (auto simp: context_stores_def)

lemma no_own_first: "\<forall>w \<in> set (first_stores False q d). no_own w"
  by (auto simp: first_stores_def buffer_stores_def)

lemma no_own_last: "\<forall>w \<in> set (last_stores ic). no_own w"
  by (simp add: last_stores_def)

lemmas no_own_stores = no_own_context no_own_first no_own_last

lemma frame_tagsD:
  assumes "frame r' = (frame r)\<lparr>cur_mss := a, cur_vlan_ctag := v\<rparr>"
  shows "pkt_info r' = pkt_info r" "dma_desc_head_addr r' = dma_desc_head_addr r"
    "dma_desc_count r' = dma_desc_count r" "cur r' = cur r" "dirty r' = dirty r"
    "coalesce_count r' = coalesce_count r" "xmit_more r' = xmit_more r" "queue_stopped r' = queue_stopped r"
    "cur_mss r' = a" "cur_vlan_ctag r' = v" "ridx r' = ridx r" "ring_size r' = ring_size r"
  using assms by (cases r; cases r'; simp add: frame_def ridx_def fun_eq_iff ring_size_def)+

lemma put_packet_view:
  fixes r :: mac_ring
  defines "c \<equiv> (if tso_context r \<or> vlan_context r then 1 else 0 :: nat)"
  defines "N \<equiv> unat (desc_count (pkt_info r))"
  assumes "ring_shape r" "c < N" "N \<le> ring_size r" "\<not> own (ent_desc r (cur r) 0)"
    "put_packet ic (r, s) = (r', i, s')"
  shows "ring_shape r' \<and> datas r' = datas r \<and>
    frame r' = (frame r)\<lparr>cur_mss := (if tso_context r then mss (pkt_info r) else cur_mss r),
                       cur_vlan_ctag := (if vlan_context r then vlan_ctag (pkt_info r) else cur_vlan_ctag r)\<rparr> \<and>
    i = cur r + word_of_nat (N - 1) \<and>
    (\<forall>n < ring_size r. ent_desc r' (cur r) n =
       packet_desc (tso_context r) (vlan_context r) ic (pkt_info r) N (ent_data r (cur r)) (ent_desc r (cur r)) n) \<and>
    (\<exists>ev. trace s' = ev @ trace s \<and> stores ev {ridx r (cur r + word_of_nat n) |n. n < N} \<and> quiet ev (ridx r (cur r)))"
proof -
  let ?b = "cur r" and ?q = "pkt_info r" and ?A = "{ridx r (cur r + word_of_nat n) |n. n < N}"
  obtain r1 i1 s1 where 1: "put_context (r, s) = (r1, i1, s1)" by (metis prod_cases3)
  note v1 = put_context_view [OF assms(3) 1]
  have i1: "i1 = ?b + word_of_nat c" using v1 by (simp add: c_def)
  have f1: "ring_shape r1" "pkt_info r1 = ?q" "cur r1 = ?b" "ridx r1 = ridx r" "ring_size r1 = ring_size r" "datas r1 = datas r"
    "ent_data r1 = ent_data r"
    using v1 frame_tagsD [where r' = r1 and r = r] by (auto simp: ent_data_def get_data_def fun_eq_iff)
  obtain r2 s2 where 2: "puts_at (?b + word_of_nat c) (first_stores (c \<noteq> 0) ?q (ent_data r ?b c)) (r1, s1) = (r2, s2)"
    by fastforce
  note v2 = puts_at_view [OF f1(1) _ 2, unfolded f1(5)]
  have s2: "ring_same r1 r2" using v2 assms(4,5) by (simp add: ring_same_def)
  note f2 = ring_same_ent [OF s2]
  let ?xs = "[c + 1..<N]"
  obtain r3 i3 s3 where 3: "fold (\<lambda>_. put_next) ?xs (r2, ?b + word_of_nat c, s2) = (r3, i3, s3)" by (metis prod_cases3)
  have l: "c + length ?xs = N - 1" using assms(4) by simp
  have N1: "N - 1 < ring_size r" using assms(4,5) by simp
  note v3 = put_nexts_view [OF f2(5) _ 3, unfolded l f2(2-4)  f1(2-5), OF N1]
  have s3: "ring_same r2 r3" "i3 = ?b + word_of_nat (N - 1)" using v3 assms(4,5) f1 f2 by auto
  note f3 = ring_same_ent [OF s3(1)]
  obtain r4 s4 where 4: "puts_at (?b + word_of_nat (N - 1)) (last_stores ic) (r3, s3) = (r4, s4)" by fastforce
  note v4 = puts_at_view [OF f3(5) _ 4]
  have s4: "ring_same r3 r4" using v4 assms(4,5) f1 f2 f3 by (simp add: ring_same_def)
  have fin: "r' = r4 \<and> i = ?b + word_of_nat (N - 1) \<and> s' = s4"
  proof -
    have c: "c = 0 \<or> c = 1" by (simp add: c_def)
    have "i1 \<noteq> ?b \<longleftrightarrow> c \<noteq> 0" "get_data r1 i1 = ent_data r ?b c" "unat (i1 - ?b) + 1 = c + 1"
      using i1 c f1(7) by (auto simp: ent_data_def fun_eq_iff)
    then show ?thesis using assms(7) 1 2 3 4 i1 s3(2) by (simp add: put_packet_def flip: N_def)
  qed
  have c: "c = (if tso_context r \<or> vlan_context r then 1 else 0)" by (simp add: c_def)
  have k: "ridx r (?b + word_of_nat n) \<in> ?A" if "n < N" for n using that by blast
  have own1: "\<not> own (ent_desc r1 ?b 0)" using v1 assms(6) ring_size_pos [OF assms(3)] by (simp add: no_own_after no_own_context)
  have e: "ent_desc r4 ?b n = packet_desc (tso_context r) (vlan_context r) ic ?q N (ent_data r ?b) (ent_desc r ?b) n"
    if n: "n < ring_size r" for n
  proof -
    have e1: "ent_desc r1 ?b n = (if n < c then desc_after (context_stores (tso_context r) (vlan_context r) ?q) (ent_desc r ?b n)
        else ent_desc r ?b n)" using v1 n by (simp add: c)
    have e2: "ent_desc r2 ?b n = (if n = c then desc_after (first_stores (c \<noteq> 0) ?q (ent_data r ?b c)) (ent_desc r1 ?b n)
        else ent_desc r1 ?b n)" using v2 assms(4,5) n by auto
    have e3: "ent_desc r3 ?b n = (if c < n \<and> n \<le> N - 1 then desc_after (next_stores ?q (ent_data r ?b n)) (ent_desc r2 ?b n)
        else ent_desc r2 ?b n)" using v3 assms(4,5) f1 f2 n by auto
    have e4: "ent_desc r4 ?b n = (if n = N - 1 then desc_after (last_stores ic) (ent_desc r3 ?b n) else ent_desc r3 ?b n)"
      using v4 assms(4,5) f1 f2 f3 n by auto
    have x: "ent_desc r3 ?b n =
        (if n < c then desc_after (context_stores (tso_context r) (vlan_context r) ?q) (ent_desc r ?b n)
         else if n = c then desc_after (first_stores (c \<noteq> 0) ?q (ent_data r ?b n)) (ent_desc r ?b n)
         else if n < N then desc_after (next_stores ?q (ent_data r ?b n)) (ent_desc r ?b n) else ent_desc r ?b n)"
      using e1 e2 e3 assms(4) by (cases "n < c"; cases "n = c"; cases "n < N"; simp)
    show ?thesis using e4 unfolding packet_desc_def Let_def c [symmetric] x by simp
  qed
  have apart: "ridx r (?b + word_of_nat n) = ridx r ?b \<longleftrightarrow> n = 0" if "n < N" for n
    using ridx_inj [OF assms(3), of n 0 ?b] that assms(5) ring_size_pos [OF assms(3)] by simp
  have apart': "ridx r ?b \<noteq> ridx r (?b + word_of_nat n)" if "0 < n" "n \<le> N - 1" for n
  proof -
    have "n < N" "n \<noteq> 0" using that by auto
    then show ?thesis using apart [of n] by simp
  qed
  have own2: "\<not> own (ent_desc r2 ?b 0)"
    using v2 own1 assms(4,5) by (auto simp: no_own_after no_own_first)
  have own3: "\<not> own (ent_desc r3 ?b 0)"
    using v3 own2 assms(4,5) f1 f2 ring_size_pos [OF assms(3)] by auto
  obtain ev1 where ev1: "trace s1 = ev1 @ trace s" "stores ev1 ?A" "quiet ev1 (ridx r ?b)"
    using v1 k [of 0] assms(4,6) by (auto simp: quiet_events no_own_context)
  obtain ev2 where ev2: "trace s2 = ev2 @ trace s1" "stores ev2 ?A" "quiet ev2 (ridx r ?b)"
  proof
    show "trace s2 = store_events (ridx r (?b + word_of_nat c)) (first_stores (c \<noteq> 0) ?q (ent_data r ?b c)) (ent_desc r1 ?b c) @ trace s1"
      using v2 assms(4,5) f1 by simp
    show "stores (store_events (ridx r (?b + word_of_nat c)) (first_stores (c \<noteq> 0) ?q (ent_data r ?b c)) (ent_desc r1 ?b c)) ?A"
      using k [OF assms(4)] by simp
    show "quiet (store_events (ridx r (?b + word_of_nat c)) (first_stores (c \<noteq> 0) ?q (ent_data r ?b c)) (ent_desc r1 ?b c)) (ridx r ?b)"
      using own1 apart [OF assms(4)]
      by (cases "c = 0") (auto simp: quiet_events no_own_first intro!: stores_quiet [of _ "{ridx r (?b + word_of_nat c)}"])
  qed
  obtain ev3 where ev3: "trace s3 = ev3 @ trace s2" "stores ev3 {ridx r (?b + word_of_nat n) |n. c < n \<and> n \<le> N - 1}"
    using v3 assms(4,5) f1 f2 by auto
  have ev3': "stores ev3 ?A" by (rule stores_mono [OF ev3(2)]) (use assms(4) in auto)
  have ev3q: "quiet ev3 (ridx r ?b)" 
  proof (rule stores_quiet [OF ev3(2)], rule notI)
    assume "ridx r ?b \<in> {ridx r (?b + word_of_nat n) |n. c < n \<and> n \<le> N - 1}"
    then obtain n where "ridx r ?b = ridx r (?b + word_of_nat n)" "c < n" "n \<le> N - 1" by blast
    then show False using apart' [of n] by simp
  qed
  obtain ev4 where ev4: "trace s4 = ev4 @ trace s3" "stores ev4 ?A" "quiet ev4 (ridx r ?b)"
  proof
    show "trace s4 = store_events (ridx r (?b + word_of_nat (N - 1))) (last_stores ic) (ent_desc r3 ?b (N - 1)) @ trace s3"
      using v4 assms(4,5) f1 f2 f3 by simp
    show "stores (store_events (ridx r (?b + word_of_nat (N - 1))) (last_stores ic) (ent_desc r3 ?b (N - 1))) ?A"
      using k [of "N - 1"] assms(4) by simp
    show "quiet (store_events (ridx r (?b + word_of_nat (N - 1))) (last_stores ic) (ent_desc r3 ?b (N - 1))) (ridx r ?b)"
      using own3 apart [of "N - 1"] assms(4)
      by (cases "N - 1 = 0") (auto simp: quiet_events no_own_last intro!: stores_quiet [of _ "{ridx r (?b + word_of_nat (N - 1))}"])
  qed
  have "trace s4 = (ev4 @ ev3 @ ev2 @ ev1) @ trace s \<and> stores (ev4 @ ev3 @ ev2 @ ev1) ?A \<and> quiet (ev4 @ ev3 @ ev2 @ ev1) (ridx r ?b)"
    using ev1 ev2 ev3(1) ev3' ev3q ev4 by simp
  then have ev: "\<exists>ev. trace s4 = ev @ trace s \<and> stores ev ?A \<and> quiet ev (ridx r ?b)" by blast
  have "ring_same r1 r4" using s2 s3(1) s4 ring_same_trans by blast
  then show ?thesis using fin e ev v1 by (simp add: ring_same_def)
qed

end
