(* ===== verification/Xmit_Correct.thy ===== *)
theory Xmit_Correct
  imports Ring_Correct
begin

text \<open>
  Sending and completion on a ring refine a queue: a sent packet is appended whole, and a poll
  takes the completed entries off the front. The card never owns the first descriptor of a packet
  before the others are written, and every mapping and buffer is given back exactly once.
\<close>

section \<open>One packet on the ring\<close>

text \<open>Events that leave descriptors, mappings and buffers alone.\<close>

fun signal :: "event \<Rightarrow> bool" where
  "signal Ewmb = True"
| "signal (Ewrite reg a v) = True"
| "signal (Eread reg a v) = True"
| "signal Etimer = True"
| "signal (Equeue_stop q) = True"
| "signal (Equeue_wake q) = True"
| "signal _ = False"

lemma start_xmit_view:
  assumes "mac_tx_start_xmit p c (t, s) = (t', s')"
  shows "tx_ring t' = (tx_ring t)\<lparr>xmit_more := False\<rparr> \<and> (\<exists>ev. trace s' = ev @ trace s \<and> list_all signal ev)"
proof -
  let ?e = "Ewrite Mac_regs (dma_regs c + DMA_CH_TDTR_LO) (lower_32_bits (dma_desc_addr (get_data (tx_ring t) (cur (tx_ring t)))))"
  have "trace s' = (if tx_usecs p \<noteq> 0 \<and> \<not> tx_timer_active t then [Etimer] else []) @ [?e, Ewmb] @ trace s"
    using assms by (auto simp: mac_tx_start_xmit_def Let_def mwrite_def split: if_splits)
  moreover have "list_all signal ((if tx_usecs p \<noteq> 0 \<and> \<not> tx_timer_active t then [Etimer] else []) @ [?e, Ewmb])" by simp
  ultimately have "\<exists>ev. trace s' = ev @ trace s \<and> list_all signal ev" by (metis append_assoc)
  moreover have "tx_ring t' = (tx_ring t)\<lparr>xmit_more := False\<rparr>"
    using assms by (auto simp: mac_tx_start_xmit_def Let_def split: if_splits)
  ultimately show ?thesis by simp
qed

lemma maybe_stop_view:
  assumes "mac_maybe_stop_tx_queue p c n (t, s) = (ret, t', s')"
  shows "(\<exists>x y. tx_ring t' = (tx_ring t)\<lparr>xmit_more := x, queue_stopped := y\<rparr>) \<and>
    (ret = 0 \<longrightarrow> tx_ring t' = tx_ring t) \<and> (ret = 0 \<longleftrightarrow> n \<le> mac_tx_avail_desc (tx_ring t)) \<and>
    (ret \<noteq> 0 \<longrightarrow> queue_stopped (tx_ring t')) \<and>
    (\<exists>ev. trace s' = ev @ trace s \<and> list_all signal ev)"
proof (cases "n > mac_tx_avail_desc (tx_ring t)")
  case stop: True
  let ?t = "t\<lparr>tx_ring := (tx_ring t)\<lparr>queue_stopped := True\<rparr>\<rparr>" and ?s = "emit (Equeue_stop (queue_index c)) s"
  show ?thesis
  proof (cases "xmit_more (tx_ring t)")
    case True
    then have m: "mac_tx_start_xmit p c (?t, ?s) = (t', s')" "ret = NETDEV_TX_BUSY"
      using assms stop by (auto simp: mac_maybe_stop_tx_queue_def Let_def split: prod.splits)
    note v = start_xmit_view [OF m(1)]
    obtain ev where "trace s' = (ev @ [Equeue_stop (queue_index c)]) @ trace s" "list_all signal (ev @ [Equeue_stop (queue_index c)])"
      using v by auto
    then show ?thesis using v m stop by (cases "tx_ring t") (auto simp flip: append_assoc)
  next
    case False
    then have "tx_ring t' = (tx_ring t)\<lparr>queue_stopped := True\<rparr>" "s' = ?s" "ret = NETDEV_TX_BUSY"
      using assms stop by (auto simp: mac_maybe_stop_tx_queue_def Let_def)
    then show ?thesis using stop False by (cases "tx_ring t") auto
  qed
next
  case False
  then show ?thesis using assms by (cases "tx_ring t") (auto simp: mac_maybe_stop_tx_queue_def)
qed

text \<open>The descriptors and data of a sent packet: the first is handed over, the last has the counts.\<close>

definition sent_desc ::
    "bool \<Rightarrow> bool \<Rightarrow> bool \<Rightarrow> mac_pkt_info \<Rightarrow> nat \<Rightarrow> (nat \<Rightarrow> mac_desc_data) \<Rightarrow> (nat \<Rightarrow> mac_dma_desc) \<Rightarrow> nat \<Rightarrow> mac_dma_desc" where
  "sent_desc tso vlan ic q N D d n =
     (let x = packet_desc tso vlan ic q N D d n in
      if n = 0 then desc_after [Field 3 TX_NORMAL_DESC3_OWN 1] x else x)"

definition sent_data :: "mac_pkt_info \<Rightarrow> nat \<Rightarrow> (nat \<Rightarrow> mac_desc_data) \<Rightarrow> nat \<Rightarrow> mac_desc_data" where
  "sent_data q N D n = (if n = N - 1 then (D n)\<lparr>bql_packets := tx_packets q, bql_bytes := tx_bytes q\<rparr> else D n)"

lemma dev_xmit_view:
  fixes t :: tx_chan
  defines "r \<equiv> tx_ring t"
  defines "c \<equiv> (if tso_context r \<or> vlan_context r then 1 else 0 :: nat)"
  defines "N \<equiv> unat (desc_count (pkt_info r))"
  assumes "ring_shape r" "c < N" "N \<le> ring_size r" "\<not> own (ent_desc r (cur r) 0)"
    "mac_dev_xmit X p ch k (t, s) = (t', s')"
  shows "ring_shape (tx_ring t') \<and> cur (tx_ring t') = cur r + word_of_nat N \<and> dirty (tx_ring t') = dirty r \<and>
    dma_desc_count (tx_ring t') = dma_desc_count r \<and> dma_desc_head_addr (tx_ring t') = dma_desc_head_addr r \<and>
    queue_stopped (tx_ring t') = queue_stopped r \<and>
    (\<exists>ic. \<forall>n < ring_size r. ent_desc (tx_ring t') (cur r) n =
       sent_desc (tso_context r) (vlan_context r) ic (pkt_info r) N (ent_data r (cur r)) (ent_desc r (cur r)) n) \<and>
    (\<forall>n < ring_size r. ent_data (tx_ring t') (cur r) n = sent_data (pkt_info r) N (ent_data r (cur r)) n) \<and>
    (\<exists>late early v. trace s' = late @ Edesc (ridx r (cur r)) 3 v # Ewmb # early @ trace s \<and> list_all signal late \<and>
       bit v 31 \<and> stores early {ridx r (cur r + word_of_nat n) |n. n < N} \<and> quiet early (ridx r (cur r)))"
proof -
  let ?b = "cur r" and ?q = "pkt_info r"
  let ?r0 = "r\<lparr>coalesce_count := coalesce_count r + tx_packets ?q\<rparr>"
  let ?ic = "tx_set_ic p ?r0"
  obtain r1 i s1 where 1: "put_packet ?ic (?r0, s) = (r1, i, s1)" by (metis prod_cases3)
  have ctx: "tso_context ?r0 = tso_context r" "vlan_context ?r0 = vlan_context r"
    by (simp_all add: tso_context_def vlan_context_def)
  note v1 = put_packet_view [of ?r0, simplified ctx, simplified, folded c_def N_def, OF assms(4-7) 1]
  have f1: "cur r1 = ?b" "dirty r1 = dirty r" "dma_desc_count r1 = dma_desc_count r"
    "dma_desc_head_addr r1 = dma_desc_head_addr r" "queue_stopped r1 = queue_stopped r" "ridx r1 = ridx r"
    "ring_size r1 = ring_size r" "ent_data r1 = ent_data r" "ring_shape r1"
    using v1 frame_tagsD [where r' = r1 and r = ?r0] by (auto simp: ent_data_def get_data_def fun_eq_iff)
  have N0: "0 < N" using assms(5) by simp
  then have wN: "word_of_nat (N - 1) = desc_count ?q - 1" "word_of_nat N = desc_count ?q"
    by (simp_all add: N_def of_nat_diff)
  have i: "i = ?b + word_of_nat (N - 1)" using v1 wN by simp
  let ?D = "(ent_data r ?b (N - 1))\<lparr>bql_packets := tx_packets ?q, bql_bytes := tx_bytes ?q\<rparr>"
  define r2 where "r2 = set_data (?b + word_of_nat (N - 1)) ?D r1"
  have N1: "N - 1 < ring_size r1" using assms(5,6) f1 by simp
  have v2: "ring_shape r2" "frame r2 = frame r1" "descs r2 = descs r1"
    "\<forall>n < ring_size r. ent_data r2 ?b n = sent_data ?q N (ent_data r ?b) n"
    "\<forall>n < ring_size r. ent_desc r2 ?b n = ent_desc r1 ?b n"
    using set_data_view [OF f1(9) N1, of ?D ?b] f1 by (auto simp: r2_def sent_data_def)
  note f2 = frame_eqD [OF v2(2)]
  let ?w = "[Field 3 TX_NORMAL_DESC3_OWN 1]"
  obtain r3 s3 where 3: "puts_at (?b + word_of_nat 0) ?w (r2, emit Ewmb s1) = (r3, s3)" by fastforce
  note v3 = puts_at_view [OF v2(1) ring_size_pos [OF v2(1)] 3, unfolded f2 f1]
  have f3: "frame r3 = frame r2" "datas r3 = datas r2" "ring_shape r3" "ent_data r3 = ent_data r2"
    using v3 frame_eqD [of r3 r2] by (auto simp: ent_data_def get_data_def fun_eq_iff)
  have own: "trace s3 = Edesc (ridx r ?b) 3 (MAC_SET_REG_BITS (desc3 (ent_desc r2 ?b 0)) (31, 1) 1) # Ewmb # trace s1"
    "bit (MAC_SET_REG_BITS (desc3 (ent_desc r2 ?b 0)) (31, 1) 1) 31"
    using v3 by (simp_all add: get_word_def bit_MAC_SET)
  have desc3: "\<forall>n < ring_size r. ent_desc r3 ?b n =
      sent_desc (tso_context r) (vlan_context r) ?ic ?q N (ent_data r ?b) (ent_desc r ?b) n"
    using v3 v2(5) v1 by (auto simp: sent_desc_def Let_def)
  let ?t = "t\<lparr>tx_ring := r3\<lparr>cur := ?b + word_of_nat (N - 1) + 1\<rparr>,
      tx_vlan_packets := tx_vlan_packets t + (if tx_attr ?q TX_PACKET_ATTRIBUTES_VLAN_CTAG then 1 else 0),
      tx_tso_packets := tx_tso_packets t + (if tx_attr ?q TX_PACKET_ATTRIBUTES_TSO_ENABLE then 1 else 0)\<rparr>"
  have fin: "mac_dev_xmit X p ch k (t, s) =
      (if \<not> sk_more k \<or> X (trace (emit Ewmb s3)) (queue_index ch) then mac_tx_start_xmit p ch (?t, emit Ewmb s3)
       else (?t\<lparr>tx_ring := (tx_ring ?t)\<lparr>xmit_more := True\<rparr>\<rparr>, emit Ewmb s3))"
  proof -
    have "get_data r1 i = ent_data r ?b (N - 1)" using f1(8) by (simp add: ent_data_def i fun_eq_iff)
    then show ?thesis using 1 3 unfolding mac_dev_xmit_def
      by (simp add: r_def [symmetric] r2_def Let_def i split del: if_split cong del: if_weak_cong)
  qed
  obtain early where early: "trace s1 = early @ trace s" "quiet early (ridx r ?b)"
    "stores early {ridx r (?b + word_of_nat n) |n. n < N}" using v1 by auto
  have "\<exists>x. tx_ring t' = r3\<lparr>cur := ?b + word_of_nat N, xmit_more := x\<rparr> \<and>
      (\<exists>ev. trace s' = ev @ trace s3 \<and> list_all signal ev)"
  proof (cases "\<not> sk_more k \<or> X (trace (emit Ewmb s3)) (queue_index ch)")
    case True
    then have m: "mac_tx_start_xmit p ch (?t, emit Ewmb s3) = (t', s')" using fin assms(8) by simp
    obtain ev where "trace s' = (ev @ [Ewmb]) @ trace s3" "list_all signal (ev @ [Ewmb])"
      using start_xmit_view [OF m] by auto
    then show ?thesis using start_xmit_view [OF m] wN by (auto simp flip: append_assoc)
  next
    case False
    then have "t' = ?t\<lparr>tx_ring := (tx_ring ?t)\<lparr>xmit_more := True\<rparr>\<rparr>" "s' = emit Ewmb s3"
      using fin assms(8) by auto
    then show ?thesis using wN by auto
  qed
  then obtain x late where r': "tx_ring t' = r3\<lparr>cur := ?b + word_of_nat N, xmit_more := x\<rparr>"
    "trace s' = late @ trace s3" "list_all signal late" by blast
  have "\<exists>late early v. trace s' = late @ Edesc (ridx r ?b) 3 v # Ewmb # early @ trace s \<and> list_all signal late \<and>
       bit v 31 \<and> stores early {ridx r (?b + word_of_nat n) |n. n < N} \<and> quiet early (ridx r ?b)"
    using r'(2,3) own early by auto
  moreover have "\<forall>n < ring_size r. ent_data (tx_ring t') ?b n = sent_data ?q N (ent_data r ?b) n"
    using r'(1) f3(4) v2(4) by simp
  ultimately show ?thesis
    using desc3 r'(1) f3(3) f1 f2 frame_eqD [OF f3(1)] by auto
qed

section \<open>Mapping a packet\<close>

text \<open>A mapped buffer: address, length, and whether it is a page.\<close>

type_synonym buf = "u64 \<times> u32 \<times> bool"

definition set_buf :: "buf \<Rightarrow> mac_desc_data \<Rightarrow> mac_desc_data" where
  "set_buf = (\<lambda>(a, l, page) d. d\<lparr>skb_dma := a, skb_dma_len := l, mapped_as_page := page \<or> mapped_as_page d\<rparr>)"

definition emap :: "buf \<Rightarrow> event" where
  "emap = (\<lambda>(a, l, page). Edma_map a l page)"

definition total :: "buf list \<Rightarrow> u32" where
  "total bufs = sum_list (map (fst \<circ> snd) bufs)"

definition mapped :: "u32 \<Rightarrow> nat \<Rightarrow> buf list \<Rightarrow> mac_ring \<times> kern \<Rightarrow> mac_ring \<times> kern \<Rightarrow> bool" where
  "mapped b m bufs = (\<lambda>(r, s) (r', s'). ring_shape r' \<and> descs r' = descs r \<and>
     frame r' = (frame r)\<lparr>pkt_info := (pkt_info r)\<lparr>pkt_length := pkt_length (pkt_info r) + total bufs\<rparr>\<rparr> \<and>
     (\<forall>k < ring_size r. ent_data r' b k =
        (if m \<le> k \<and> k < m + length bufs then set_buf (bufs ! (k - m)) (ent_data r b k) else ent_data r b k)) \<and>
     trace s' = rev (map emap bufs) @ trace s)"

lemma frame_pktD:
  assumes "frame r' = (frame r)\<lparr>pkt_info := q\<rparr>"
  shows "pkt_info r' = q" "dma_desc_head_addr r' = dma_desc_head_addr r"
    "dma_desc_count r' = dma_desc_count r" "cur r' = cur r" "dirty r' = dirty r"
    "coalesce_count r' = coalesce_count r" "xmit_more r' = xmit_more r" "queue_stopped r' = queue_stopped r"
    "cur_mss r' = cur_mss r" "cur_vlan_ctag r' = cur_vlan_ctag r" "ridx r' = ridx r" "ring_size r' = ring_size r"
  using assms by (cases r; cases r'; simp add: frame_def ridx_def fun_eq_iff ring_size_def)+

lemma frame_pkt: "frame (r\<lparr>pkt_info := q\<rparr>) = (frame r)\<lparr>pkt_info := q\<rparr>"
  by (cases r) (simp add: frame_def)

lemma frame_pkt_same: "(frame r)\<lparr>pkt_info := pkt_info r\<rparr> = frame r"
  by (cases r) (simp add: frame_def)

lemma mapped_Nil: "ring_shape r \<Longrightarrow> mapped b m [] (r, s) (r, s)"
  by (auto simp: mapped_def total_def frame_pkt_same)

lemma mapped_append:
  assumes "mapped b m xs (r, s) (r1, s1)" "mapped b (m + length xs) ys (r1, s1) (r', s')"
  shows "mapped b m (xs @ ys) (r, s) (r', s')"
proof -
  have f: "frame r1 = (frame r)\<lparr>pkt_info := (pkt_info r)\<lparr>pkt_length := pkt_length (pkt_info r) + total xs\<rparr>\<rparr>"
    using assms(1) by (simp add: mapped_def)
  note f1 = frame_pktD [OF f]
  have "ent_data r' b k = (if m \<le> k \<and> k < m + length (xs @ ys) then set_buf ((xs @ ys) ! (k - m)) (ent_data r b k)
      else ent_data r b k)" if "k < ring_size r" for k
    using assms that f1 unfolding mapped_def by (auto simp: nth_append)
  moreover have "frame r' = (frame r)\<lparr>pkt_info := (pkt_info r)\<lparr>pkt_length := pkt_length (pkt_info r) + total (xs @ ys)\<rparr>\<rparr>"
    using assms f f1 by (simp add: mapped_def total_def add.assoc)
  ultimately show ?thesis using assms by (simp add: mapped_def)
qed

lemma mapped_one:
  assumes "ring_shape r" "m < ring_size r"
  shows "mapped b m [(a, l, page)] (r, s)
    (add_length l (set_data (b + word_of_nat m) (set_buf (a, l, page) (get_data r (b + word_of_nat m))) r), emit (Edma_map a l page) s)"
proof -
  let ?d = "set_buf (a, l, page) (get_data r (b + word_of_nat m))"
  let ?r = "set_data (b + word_of_nat m) ?d r"
  have v: "ring_shape ?r \<and> frame ?r = frame r \<and> descs ?r = descs r \<and>
      (\<forall>n < ring_size r. ent_data ?r b n = (if n = m then ?d else ent_data r b n))"
    using set_data_view [OF assms, of ?d b] by (auto simp: ent_data_def set_buf_def)
  note f = frame_eqD [of ?r r]
  show ?thesis using v f by (auto simp: mapped_def add_length_def frame_pkt total_def emap_def ent_data_def)
qed

text \<open>The lengths of the buffers of an area.\<close>

function chunks :: "nat \<Rightarrow> nat list" where
  "chunks n = (if n = 0 then [] else min n (unat MAC_TX_MAX_BUF_SIZE) # chunks (n - min n (unat MAC_TX_MAX_BUF_SIZE)))"
  by pat_completeness auto

termination by (relation "measure id") auto

declare chunks.simps [simp del]

text \<open>
  A run of mappings from entry \<open>m\<close> on that is meant to map \<open>want\<close>: it maps all of them, or a
  proper part and then fails.
\<close>

definition maps :: "u32 \<Rightarrow> nat \<Rightarrow> (u32 \<times> bool) list \<Rightarrow> mac_ring \<times> kern \<Rightarrow> bool \<times> mac_ring \<times> u32 \<times> kern \<Rightarrow> bool" where
  "maps b m want t = (\<lambda>(ok, r', i, s'). \<exists>bufs s1. mapped b m bufs t (r', s1) \<and> i = b + word_of_nat (m + length bufs) \<and>
     (if ok then s' = s1 \<and> map snd bufs = want
      else s' = emit Edma_fail s1 \<and> length bufs < length want))"

lemma maps_Nil: "ring_shape r \<Longrightarrow> maps b m [] (r, s) (True, r, b + word_of_nat m, s)"
  by (auto simp: maps_def intro!: exI [of _ "[]"] mapped_Nil)

lemma maps_fail: "ring_shape r \<Longrightarrow> maps b m (w # ws) (r, s) (False, r, b + word_of_nat m, emit Edma_fail s)"
  by (auto simp: maps_def intro!: exI [of _ "[]"] exI [of _ s] mapped_Nil)

lemma maps_append:
  assumes "mapped b m bufs t (r1, s1)" "map snd bufs = ws" "maps b (m + length ws) vs (r1, s1) (ok, r', i, s')"
  shows "maps b m (ws @ vs) t (ok, r', i, s')"
proof -
  have l: "length bufs = length ws" using assms(2) by (metis length_map)
  obtain bufs2 s2 where 2: "mapped b (m + length ws) bufs2 (r1, s1) (r', s2)" "i = b + word_of_nat (m + length ws + length bufs2)"
    "if ok then s' = s2 \<and> map snd bufs2 = vs else s' = emit Edma_fail s2 \<and> length bufs2 < length vs"
    using assms(3) by (auto simp: maps_def)
  have "mapped b m (bufs @ bufs2) t (r', s2)"
    using assms(1) 2(1) l mapped_append [of b m bufs "fst t" "snd t" r1 s1] by simp
  then show ?thesis using 2 l assms(2) unfolding maps_def
    by (auto intro!: exI [of _ "bufs @ bufs2"] exI [of _ s2] simp: add.assoc split: if_splits)
qed

lemma maps_fail_append:
  "maps b m ws t (False, r', i, s') \<Longrightarrow> maps b m (ws @ vs) t (False, r', i, s')"
  by (clarsimp simp: maps_def) (blast intro: trans_less_add1)

definition area :: "bool \<Rightarrow> nat \<Rightarrow> (u32 \<times> bool) list" where
  "area page n = map (\<lambda>l. (word_of_nat l, page)) (chunks n)"

lemma area_simps: "area page n =
    (if n = 0 then [] else (word_of_nat (min n (unat MAC_TX_MAX_BUF_SIZE)), page) # area page (n - min n (unat MAC_TX_MAX_BUF_SIZE)))"
  by (subst area_def, subst chunks.simps) (simp add: area_def)

lemma map_area_view:
  assumes "ring_shape r" "m + length (area page n) \<le> ring_size r"
  shows "maps b m (area page n) (r, s) (map_area E page n (r, b + word_of_nat m, s))"
  using assms
proof (induction n arbitrary: r m s rule: less_induct)
  case (less n)
  show ?case
  proof (cases "n = 0")
    case True
    then show ?thesis using less.prems by (simp add: map_area.simps area_simps maps_Nil)
  next
    case n: False
    let ?len = "min n (unat MAC_TX_MAX_BUF_SIZE)"
    let ?w = "word_of_nat ?len :: u32"
    have m: "m < ring_size r" using less.prems n by (subst (asm) area_simps) simp
    show ?thesis
    proof (cases "alloc_ok E (trace s)")
      case False
      then have "map_area E page n (r, b + word_of_nat m, s) = (False, r, b + word_of_nat m, emit Edma_fail s)"
        using n by (simp add: map_area.simps dma_map_def Let_def)
      then show ?thesis using n less.prems by (subst area_simps) (simp add: maps_fail)
    next
      case True
      let ?a = "dma_addr E (trace s)"
      let ?r = "add_length ?w (set_data (b + word_of_nat m) (set_buf (?a, ?w, page) (get_data r (b + word_of_nat m))) r)"
      let ?s = "emit (Edma_map ?a ?w page) s"
      have one: "mapped b m [(?a, ?w, page)] (r, s) (?r, ?s)" using mapped_one [OF less.prems(1) m] .
      have run: "map_area E page n (r, b + word_of_nat m, s) = map_area E page (n - ?len) (?r, b + word_of_nat (Suc m), ?s)"
        using n True by (subst map_area.simps) (simp add: dma_map_def Let_def set_buf_def add.assoc add.commute [of 1])
      have "frame ?r = (frame r)\<lparr>pkt_info := (pkt_info r)\<lparr>pkt_length := pkt_length (pkt_info r) + total [(?a, ?w, page)]\<rparr>\<rparr>" "ring_shape ?r"
        using one by (simp_all add: mapped_def)
      then have "maps b (Suc m) (area page (n - ?len)) (?r, ?s) (map_area E page (n - ?len) (?r, b + word_of_nat (Suc m), ?s))"
        using less.prems n by (intro less.IH) (auto simp: frame_pktD(12) area_simps [of page n])
      then show ?thesis unfolding run
        using maps_append [OF one, of "[(?w, page)]"] n by (cases "map_area E page (n - ?len) (?r, b + word_of_nat (Suc m), ?s)") (simp add: area_simps [of page n])
    qed
  qed
qed

lemma maps_seq:
  assumes "maps b m ws (r, s) (ok, r1, i1, s1)"
    "\<And>x. ok \<Longrightarrow> i1 = b + word_of_nat (m + length ws) \<Longrightarrow> ring_shape r1 \<Longrightarrow> ring_size r1 = ring_size r \<Longrightarrow>
       maps b (m + length ws) vs (r1, s1) res"
  shows "maps b m (ws @ vs) (r, s) (if ok then res else (False, r1, i1, s1))"
proof (cases ok)
  case True
  then obtain bufs where b: "mapped b m bufs (r, s) (r1, s1)" "i1 = b + word_of_nat (m + length bufs)" "map snd bufs = ws"
    using assms(1) by (auto simp: maps_def)
  have l: "length bufs = length ws" using b(3) by (metis length_map)
  have "ring_size r1 = ring_size r" "ring_shape r1" using b(1) by (auto simp: mapped_def dest: frame_pktD(12))
  then have "maps b (m + length ws) vs (r1, s1) res" using assms(2) True b(2) l by simp
  then show ?thesis using maps_append [OF b(1,3)] True by (cases res) simp
next
  case False
  then show ?thesis using assms(1) maps_fail_append by (cases "(r, s)") simp
qed

lemma map_frags_view:
  assumes "ring_shape r" "m + length (concat (map (area True \<circ> unat) fs)) \<le> ring_size r"
  shows "maps b m (concat (map (area True \<circ> unat) fs)) (r, s) (map_frags E fs (r, b + word_of_nat m, s))"
  using assms
proof (induction fs arbitrary: r m s)
  case Nil
  then show ?case by (simp add: maps_Nil)
next
  case (Cons f fs)
  obtain ok r1 i1 s1 where 1: "map_area E True (unat f) (r, b + word_of_nat m, s) = (ok, r1, i1, s1)" by (metis prod_cases4)
  have "maps b m (area True (unat f)) (r, s) (ok, r1, i1, s1)"
    using map_area_view [OF Cons.prems(1), of m True "unat f" b s E] Cons.prems(2) 1 by simp
  then have "maps b m (area True (unat f) @ concat (map (area True \<circ> unat) fs)) (r, s)
      (if ok then map_frags E fs (r1, i1, s1) else (False, r1, i1, s1))"
  proof (rule maps_seq)
    assume c: "i1 = b + word_of_nat (m + length (area True (unat f)))" "ring_shape r1" "ring_size r1 = ring_size r"
    show "maps b (m + length (area True (unat f))) (concat (map (area True \<circ> unat) fs)) (r1, s1) (map_frags E fs (r1, i1, s1))"
      unfolding c(1) by (rule Cons.IH) (use c Cons.prems(2) in simp_all)
  qed
  then show ?case using 1 by (cases ok) (simp_all add: comp_def)
qed

text \<open>The lengths of all buffers of a packet.\<close>

definition packet_areas :: "sk_buff \<Rightarrow> mac_pkt_info \<Rightarrow> (u32 \<times> bool) list" where
  "packet_areas k q =
     (if tx_attr q TX_PACKET_ATTRIBUTES_TSO_ENABLE then (header_len q, False) # area False (unat (skb_headlen k - header_len q))
      else area False (unat (skb_headlen k))) @ concat (map (area True \<circ> unat) (frags k))"

lemma map_header_view:
  assumes "ring_shape r" "tx_attr (pkt_info r) TX_PACKET_ATTRIBUTES_TSO_ENABLE \<Longrightarrow> m < ring_size r"
  shows "maps b m (if tx_attr (pkt_info r) TX_PACKET_ATTRIBUTES_TSO_ENABLE then [(header_len (pkt_info r), False)] else [])
     (r, s) (map_header E (r, b + word_of_nat m, s))"
proof (cases "tx_attr (pkt_info r) TX_PACKET_ATTRIBUTES_TSO_ENABLE")
  case True
  let ?a = "dma_addr E (trace s)" and ?l = "header_len (pkt_info r)"
  let ?r = "set_data (b + word_of_nat m) (set_buf (?a, ?l, False) (get_data r (b + word_of_nat m))) r"
  have one: "mapped b m [(?a, ?l, False)] (r, s) (add_length ?l ?r, emit (Edma_map ?a ?l False) s)"
    using mapped_one [OF assms(1) assms(2) [OF True]] .
  show ?thesis
  proof (cases "alloc_ok E (trace s)")
    case ok: True
    then have "map_header E (r, b + word_of_nat m, s) = (True, add_length ?l ?r, b + word_of_nat (Suc m), emit (Edma_map ?a ?l False) s)"
      using True by (simp add: map_header_def dma_map_def Let_def set_buf_def add.assoc add.commute [of 1])
    then show ?thesis using one True unfolding maps_def by (auto intro!: exI [of _ "[(?a, ?l, False)]"])
  next
    case False
    then show ?thesis using True assms(1) by (simp add: map_header_def dma_map_def maps_fail)
  qed
qed (use assms(1) in \<open>simp add: map_header_def maps_Nil\<close>)

lemma map_skb_view:
  assumes "ring_shape r" "m + length (packet_areas k (pkt_info r)) \<le> ring_size r"
  shows "maps b m (packet_areas k (pkt_info r)) (r, s) (map_skb E k (r, b + word_of_nat m, s))"
proof -
  let ?tso = "tx_attr (pkt_info r) TX_PACKET_ATTRIBUTES_TSO_ENABLE"
  let ?h = "if ?tso then [(header_len (pkt_info r), False)] else []"
  let ?n = "unat (skb_headlen k - (if ?tso then header_len (pkt_info r) else 0))"
  let ?f = "concat (map (area True \<circ> unat) (frags k))"
  have p: "packet_areas k (pkt_info r) = ?h @ area False ?n @ ?f" by (simp add: packet_areas_def)
  have len: "m + length ?h + length (area False ?n) + length ?f \<le> ring_size r" using assms(2) p by simp
  obtain ok r1 i1 s1 where 1: "map_header E (r, b + word_of_nat m, s) = (ok, r1, i1, s1)" by (metis prod_cases4)
  obtain ok2 r2 i2 s2 where 2: "map_area E False ?n (r1, i1, s1) = (ok2, r2, i2, s2)" by (metis prod_cases4)
  have h: "maps b m ?h (r, s) (ok, r1, i1, s1)"
    using map_header_view [OF assms(1), of m b s E] len 1 by (auto split: if_splits)
  have "maps b m (?h @ area False ?n @ ?f) (r, s)
     (if ok then if ok2 then map_frags E (frags k) (r2, i2, s2) else (False, r2, i2, s2) else (False, r1, i1, s1))"
  proof (rule maps_seq [OF h])
    assume c: "i1 = b + word_of_nat (m + length ?h)" "ring_shape r1" "ring_size r1 = ring_size r"
    have "maps b (m + length ?h) (area False ?n) (r1, s1) (ok2, r2, i2, s2)"
      using map_area_view [OF c(2), of "m + length ?h" False ?n b s1 E] 2 c len by simp
    then show "maps b (m + length ?h) (area False ?n @ ?f) (r1, s1)
        (if ok2 then map_frags E (frags k) (r2, i2, s2) else (False, r2, i2, s2))"
    proof (rule maps_seq)
      assume d: "i2 = b + word_of_nat (m + length ?h + length (area False ?n))" "ring_shape r2" "ring_size r2 = ring_size r1"
      show "maps b (m + length ?h + length (area False ?n)) ?f (r2, s2) (map_frags E (frags k) (r2, i2, s2))"
        unfolding d(1) by (rule map_frags_view) (use c d len in simp_all)
    qed
  qed
  moreover have "map_skb E k (r, b + word_of_nat m, s) =
      (if ok then if ok2 then map_frags E (frags k) (r2, i2, s2) else (False, r2, i2, s2) else (False, r1, i1, s1))"
    using 1 2 by (simp add: map_skb_def split: bool.splits)
  ultimately show ?thesis by (simp only: p)
qed

end
