(* ===== verification/Xmit_Queue.thy ===== *)
theory Xmit_Queue
  imports Xmit_Correct
begin

text \<open>
  The transmit ring as a queue. The pending entries, from \<open>dirty\<close> to \<open>cur\<close>, are the queue;
  the others are blank and their descriptors zero. Sending appends a packet's entries, a poll
  removes completed ones from the front.
\<close>

section \<open>Taking mappings back\<close>

text \<open>An entry that was only used to send, and the same entry after its mapping is taken back.\<close>

definition tx_only :: "mac_desc_data \<Rightarrow> bool" where
  "tx_only e \<longleftrightarrow> rx e = no_rx \<and> \<not> state_saved e \<and> state_skb e = None \<and> state_len e = 0 \<and> state_error e = 0"

definition blank :: "mac_desc_data \<Rightarrow> mac_desc_data" where
  "blank e = e\<lparr>skb := None, skb_dma := 0, skb_dma_len := (if skb_dma e = 0 then skb_dma_len e else 0),
     bql_packets := 0, bql_bytes := 0, mapped_as_page := False\<rparr>"

lemma blank_simps [simp]:
  "dma_desc (blank e) = dma_desc e" "dma_desc_addr (blank e) = dma_desc_addr e" "tx_only (blank e) = tx_only e"
  "blank (blank e) = blank e" "skb (blank e) = None" "skb_dma (blank e) = 0" "bql_packets (blank e) = 0"
  "bql_bytes (blank e) = 0" "mapped_as_page (blank e) = False"
  by (simp_all add: blank_def tx_only_def)

definition unmap_events :: "mac_desc_data \<Rightarrow> event list" where
  "unmap_events e = (case skb e of None \<Rightarrow> [] | Some i \<Rightarrow> [Efree_skb i]) @
     (if skb_dma e \<noteq> 0 then [Edma_unmap (skb_dma e) (skb_dma_len e) (mapped_as_page e)] else [])"

lemma unmap_tx:
  assumes "tx_only e" "mac_unmap_desc_data (e, s) = (e', s')"
  shows "e' = blank e \<and> trace s' = unmap_events e @ trace s"
proof -
  have "pages (pa (rx_hdr (rx e))) = None" "pages (pa_unmap (rx_hdr (rx e))) = None"
    "pages (pa (rx_buf (rx e))) = None" "pages (pa_unmap (rx_buf (rx e))) = None"
    using assms(1) by (simp_all add: tx_only_def no_rx_def no_buffer_def no_page_def)
  then show ?thesis
    using assms by (cases e; cases "skb e") (auto simp: mac_unmap_desc_data_def Let_def tx_only_def
        put_page_def unmap_pages_def free_skb_def dma_unmap_def blank_def unmap_events_def split: if_splits)
qed

lemma unmap_at_view:
  assumes "ring_shape r" "m < ring_size r" "tx_only (ent_data r b m)" "unmap_at (b + word_of_nat m) (r, s) = (r', s')"
  shows "ring_shape r' \<and> frame r' = frame r \<and> descs r' = descs r \<and>
    (\<forall>n < ring_size r. ent_data r' b n = (if n = m then blank (ent_data r b n) else ent_data r b n)) \<and>
    (\<forall>n < ring_size r. ent_desc r' b n = ent_desc r b n) \<and>
    trace s' = unmap_events (ent_data r b m) @ trace s"
proof -
  obtain e s1 where u: "mac_unmap_desc_data (ent_data r b m, s) = (e, s1)" by fastforce
  have e: "e = blank (ent_data r b m)" "trace s1 = unmap_events (ent_data r b m) @ trace s"
    using unmap_tx [OF assms(3) u] by auto
  have r': "r' = set_data (b + word_of_nat m) e r" "s' = s1"
    using assms(4) u by (auto simp: unmap_at_def ent_data_def)
  show ?thesis using set_data_view [OF assms(1,2), of e b] e r' by auto
qed

lemma unmap_range_view:
  assumes "ring_shape r" "u \<le> ring_size r" "\<forall>n < u. tx_only (ent_data r b n)"
    "fold (\<lambda>n. unmap_at (b + word_of_nat n)) [0..<u] (r, s) = (r', s')"
  shows "ring_shape r' \<and> frame r' = frame r \<and> descs r' = descs r \<and>
    (\<forall>n < ring_size r. ent_data r' b n = (if n < u then blank (ent_data r b n) else ent_data r b n)) \<and>
    trace s' = concat (rev (map (\<lambda>n. unmap_events (ent_data r b n)) [0..<u])) @ trace s"
  using assms(2-4)
proof (induction u arbitrary: r' s')
  case 0
  then show ?case using assms(1) by simp
next
  case (Suc u)
  obtain r1 s1 where 1: "fold (\<lambda>n. unmap_at (b + word_of_nat n)) [0..<u] (r, s) = (r1, s1)" by fastforce
  note v1 = Suc.IH [OF _ _ 1]
  have p: "ring_shape r1" "frame r1 = frame r" "ent_data r1 b u = ent_data r b u" "ring_size r1 = ring_size r"
    using v1 Suc.prems frame_eqD(12) [of r1 r] by auto
  have 2: "unmap_at (b + word_of_nat u) (r1, s1) = (r', s')" using Suc.prems(3) 1 by simp
  have "u < ring_size r1" "tx_only (ent_data r1 b u)" using p Suc.prems by auto
  note v2 = unmap_at_view [OF p(1) this 2]
  show ?case using v1 v2 p Suc.prems by auto
qed

section \<open>Mapping a packet into blank entries\<close>

lemma map_area_ok: "\<forall>h. alloc_ok E h \<Longrightarrow> fst (map_area E page n t)"
proof (induction n arbitrary: t rule: less_induct)
  case (less n)
  obtain r i s where t: "t = (r, i, s)" by (metis prod_cases3)
  show ?case
    using less.IH [of "n - min n (unat MAC_TX_MAX_BUF_SIZE)"] less.prems
    unfolding t by (subst map_area.simps) (simp add: dma_map_def Let_def)
qed

lemma map_frags_ok: "\<forall>h. alloc_ok E h \<Longrightarrow> fst (map_frags E fs t)"
proof (induction fs arbitrary: t)
  case (Cons f fs)
  then show ?case using map_area_ok [OF Cons.prems, of True "unat f" t]
    by (cases "map_area E True (unat f) t") (auto split: bool.splits)
qed simp

lemma map_skb_ok:
  assumes "\<forall>h. alloc_ok E h"
  shows "fst (map_skb E k (r, i, s))"
proof -
  have "fst (map_header E (r, i, s))" using assms by (simp add: map_header_def dma_map_def)
  then show ?thesis
    using map_area_ok [OF assms, of False] map_frags_ok [OF assms]
    by (cases "map_header E (r, i, s)") (auto simp: map_skb_def Let_def split: prod.splits bool.splits, (metis fst_conv)+)
qed

definition needs_context :: "mac_ring \<Rightarrow> nat" where
  "needs_context r = (if tso_context r \<or> vlan_context r then 1 else 0)"

lemma packet_areas_cong [simp]:
  "packet_areas k (q\<lparr>desc_count := x, pkt_length := y\<rparr>) = packet_areas k q"
  "packet_areas k (q\<lparr>desc_count := x\<rparr>) = packet_areas k q"
  by (simp_all add: packet_areas_def tx_attr_def)

text \<open>The data of the \<open>j\<close>-th entry after mapping.\<close>

definition buf_data :: "nat \<Rightarrow> buf list \<Rightarrow> (nat \<Rightarrow> mac_desc_data) \<Rightarrow> nat \<Rightarrow> mac_desc_data" where
  "buf_data c bufs D j = (if c \<le> j \<and> j < c + length bufs then set_buf (bufs ! (j - c)) (D j) else D j)"

lemma map_start_view:
  assumes "ring_shape r" "needs_context r + length (packet_areas k (pkt_info r)) \<le> ring_size r"
    "map_skb E k (r\<lparr>pkt_info := (pkt_info r)\<lparr>desc_count := 0, pkt_length := 0\<rparr>\<rparr>, cur r + word_of_nat (needs_context r), s) = (ok, r', i, s')"
  shows "ring_shape r' \<and> descs r' = descs r \<and>
    (\<exists>bufs s1. frame r' = (frame r)\<lparr>pkt_info := (pkt_info r)\<lparr>desc_count := 0, pkt_length := total bufs\<rparr>\<rparr> \<and>
       i = cur r + word_of_nat (needs_context r + length bufs) \<and> length bufs \<le> length (packet_areas k (pkt_info r)) \<and>
       (\<forall>j < ring_size r. ent_data r' (cur r) j = buf_data (needs_context r) bufs (ent_data r (cur r)) j) \<and>
       trace s1 = rev (map emap bufs) @ trace s \<and>
       (if ok then s' = s1 \<and> map snd bufs = packet_areas k (pkt_info r)
        else s' = emit Edma_fail s1))"
proof -
  let ?r = "r\<lparr>pkt_info := (pkt_info r)\<lparr>desc_count := 0, pkt_length := 0\<rparr>\<rparr>"
  have "maps (cur r) (needs_context r) (packet_areas k (pkt_info ?r)) (?r, s) (map_skb E k (?r, cur r + word_of_nat (needs_context r), s))"
    by (rule map_skb_view) (use assms(1,2) in simp_all)
  then obtain bufs s1 where b: "mapped (cur r) (needs_context r) bufs (?r, s) (r', s1)"
    "i = cur r + word_of_nat (needs_context r + length bufs)"
    "if ok then s' = s1 \<and> map snd bufs = packet_areas k (pkt_info r)
     else s' = emit Edma_fail s1 \<and> length bufs < length (packet_areas k (pkt_info r))"
    using assms(3) by (auto simp: maps_def)
  have "length bufs \<le> length (packet_areas k (pkt_info r))"
    using b(3) by (metis length_map less_imp_le order_refl)
  moreover have "frame r' = (frame r)\<lparr>pkt_info := (pkt_info r)\<lparr>desc_count := 0, pkt_length := total bufs\<rparr>\<rparr>"
    using b(1) by (simp add: mapped_def frame_pkt)
  moreover have "\<forall>j < ring_size r. ent_data r' (cur r) j = buf_data (needs_context r) bufs (ent_data r (cur r)) j"
    "trace s1 = rev (map emap bufs) @ trace s" "ring_shape r'" "descs r' = descs r"
    using b(1) by (simp_all add: mapped_def buf_data_def)
  ultimately show ?thesis using b(2,3) by (cases ok) (auto intro!: exI [of _ bufs] exI [of _ s1])
qed

lemma set_buf_simps [simp]:
  "tx_only (set_buf b e) = tx_only e" "dma_desc (set_buf b e) = dma_desc e" "skb (set_buf b e) = skb e"
  "skb_dma (set_buf b e) = fst b" "skb_dma_len (set_buf b e) = fst (snd b)" "bql_packets (set_buf b e) = bql_packets e"
  "bql_bytes (set_buf b e) = bql_bytes e" "mapped_as_page (set_buf b e) = (snd (snd b) \<or> mapped_as_page e)"
  by (cases b; simp add: set_buf_def tx_only_def)+

lemma buf_data_tx_only [simp]: "tx_only (buf_data c bufs D j) = tx_only (D j)"
  by (simp add: buf_data_def)

text \<open>All buffers mapped: the last entry gets the packet, and the count is the number of entries.\<close>

lemma map_tx_skb_success:
  fixes r :: mac_ring and k :: sk_buff
  defines "c \<equiv> needs_context r" and "W \<equiv> packet_areas k (pkt_info r)"
  assumes "ring_shape r" "c + length W \<le> ring_size r" "W \<noteq> []"
    "mac_map_tx_skb E k (r, s) = (n, r', s')" "n \<noteq> 0"
  shows "\<exists>bufs. map snd bufs = W \<and> n = word_of_nat (c + length W) \<and> ring_shape r' \<and> descs r' = descs r \<and>
    frame r' = (frame r)\<lparr>pkt_info := (pkt_info r)\<lparr>desc_count := n, pkt_length := total bufs\<rparr>\<rparr> \<and>
    (\<forall>j < ring_size r. ent_data r' (cur r) j =
       (let e = buf_data c bufs (ent_data r (cur r)) j in if j = c + length W - 1 then e\<lparr>skb := Some (skb_id k)\<rparr> else e)) \<and>
    trace s' = rev (map emap bufs) @ trace s"
proof -
  let ?r = "r\<lparr>pkt_info := (pkt_info r)\<lparr>desc_count := 0, pkt_length := 0\<rparr>\<rparr>"
  have ctx: "tso_context ?r = tso_context r" "vlan_context ?r = vlan_context r"
    by (simp_all add: tso_context_def vlan_context_def tx_attr_def)
  have start: "(if tso_context r \<or> vlan_context r then cur r + 1 else cur r) = cur r + word_of_nat c"
    by (simp add: c_def needs_context_def)
  obtain ok r1 i s1 where 1: "map_skb E k (?r, cur r + word_of_nat c, s) = (ok, r1, i, s1)" by (metis prod_cases4)
  note v = map_start_view [where k = k, OF assms(3), folded c_def W_def, OF assms(4) 1]
  have ok: "ok" using assms(6,7) 1 unfolding mac_map_tx_skb_def
    by (cases ok) (simp_all add: ctx start Let_def)
  then obtain bufs where b: "frame r1 = (frame r)\<lparr>pkt_info := (pkt_info r)\<lparr>desc_count := 0, pkt_length := total bufs\<rparr>\<rparr>"
    "i = cur r + word_of_nat (c + length bufs)" "map snd bufs = W" "trace s1 = rev (map emap bufs) @ trace s"
    "\<forall>j < ring_size r. ent_data r1 (cur r) j = buf_data c bufs (ent_data r (cur r)) j" "ring_shape r1" "descs r1 = descs r"
    using v by auto
  have l: "length bufs = length W" using b(3) by (metis length_map)
  have l0: "0 < length W" using assms(5) by simp
  note f1 = frame_pktD [OF b(1)]
  have i1: "i - 1 = cur r + word_of_nat (c + length W - 1)" 
  proof -
    have "1 \<le> c + length W" using l0 by linarith
    from of_nat_diff [OF this, where 'a = "32 word"] show ?thesis using b(2) l by simp
  qed
  define d where "d = (ent_data r1 (cur r) (c + length W - 1))\<lparr>skb := Some (skb_id k)\<rparr>"
  have "c + length W - 1 < ring_size r1" using assms(4) l0 f1(12) by linarith
  note v2 = set_data_view [OF b(6) this, of d "cur r"]
  have fin: "n = i - cur r" "s' = s1" "r' = (let q = set_data (cur r + word_of_nat (c + length W - 1)) d r1 in
      q\<lparr>pkt_info := (pkt_info q)\<lparr>desc_count := i - cur r\<rparr>\<rparr>)"
    using assms(6) 1 ok unfolding mac_map_tx_skb_def
    by (auto simp: ctx start Let_def i1 d_def ent_data_def simp del: of_nat_add)
  have n: "n = word_of_nat (c + length W)" using fin(1) b(2) l by simp
  let ?q = "set_data (cur r + word_of_nat (c + length W - 1)) d r1"
  have f2: "frame ?q = frame r1" using v2 by (simp add: d_def)
  have "frame r' = (frame r)\<lparr>pkt_info := (pkt_info r)\<lparr>desc_count := n, pkt_length := total bufs\<rparr>\<rparr>"
    using fin f2 b(1) f1 frame_eqD(1) [OF f2] by (simp add: Let_def frame_pkt)
  then show ?thesis using v2 fin b n f1 by (intro exI [of _ bufs]) (auto simp: Let_def d_def)
qed

text \<open>
  A mapping fails: the entries up to the failure are taken back, unless the counter wraps between
  the first entry and the failing one. Then the loop does not run.
\<close>

definition undone :: "u32 \<Rightarrow> nat \<Rightarrow> nat" where
  "undone b n = (if unat b + n < 2 ^ 32 then n else 0)"

lemma undone_unat:
  assumes "n \<le> 2 ^ 31"
  shows "unat (b + word_of_nat n :: u32) - unat b = undone b n"
proof (cases "unat b + n < 2 ^ 32")
  case True
  have "unat (b + word_of_nat n) = unat b + n" using True assms by (simp add: unat_word_ariths unsigned_of_nat take_bit_eq_mod)
  then show ?thesis using True by (simp add: undone_def)
next
  case False
  have "unat b < 2 ^ 32" by (rule unat_u32_less)
  then have "(unat b + n) mod 2 ^ 32 = unat b + n - 2 ^ 32" using False assms by (simp add: mod_if)
  moreover have "unat (b + word_of_nat n) = (unat b + n) mod 2 ^ 32" using assms by (simp add: unat_word_ariths unsigned_of_nat take_bit_eq_mod)
  ultimately show ?thesis using False assms by (simp add: undone_def)
qed

lemma map_tx_skb_failure:
  fixes r :: mac_ring and k :: sk_buff
  defines "c \<equiv> needs_context r" and "W \<equiv> packet_areas k (pkt_info r)"
  assumes "ring_shape r" "c + length W \<le> ring_size r" "W \<noteq> []" "\<forall>j < ring_size r. tx_only (ent_data r (cur r) j)"
    "mac_map_tx_skb E k (r, s) = (0, r', s')"
  shows "\<exists>bufs. ring_shape r' \<and> descs r' = descs r \<and> length bufs \<le> length W \<and> \<not> (\<forall>h. alloc_ok E h) \<and>
    frame r' = (frame r)\<lparr>pkt_info := (pkt_info r)\<lparr>desc_count := 0, pkt_length := total bufs\<rparr>\<rparr> \<and>
    (\<forall>j < ring_size r. ent_data r' (cur r) j =
       (let e = buf_data c bufs (ent_data r (cur r)) j in if j < undone (cur r) (c + length bufs) then blank e else e)) \<and>
    trace s' = concat (rev (map (\<lambda>j. unmap_events (buf_data c bufs (ent_data r (cur r)) j)) [0..<undone (cur r) (c + length bufs)])) @
      Edma_fail # rev (map emap bufs) @ trace s"
proof -
  let ?r = "r\<lparr>pkt_info := (pkt_info r)\<lparr>desc_count := 0, pkt_length := 0\<rparr>\<rparr>"
  have ctx: "tso_context ?r = tso_context r" "vlan_context ?r = vlan_context r"
    by (simp_all add: tso_context_def vlan_context_def tx_attr_def)
  have start: "(if tso_context r \<or> vlan_context r then cur r + 1 else cur r) = cur r + word_of_nat c"
    by (simp add: c_def needs_context_def)
  obtain ok r1 i s1 where 1: "map_skb E k (?r, cur r + word_of_nat c, s) = (ok, r1, i, s1)" by (metis prod_cases4)
  note v = map_start_view [where k = k, OF assms(3), folded c_def W_def, OF assms(4) 1]
  have size: "c + length W \<le> 2 ^ 31" using assms(4) ring_size_bound [OF assms(3)] by simp
  have fail: "\<not> ok"
  proof
    assume ok: "ok"
    then obtain bufs :: "buf list" where b: "i = cur r + word_of_nat (c + length bufs)" "map snd bufs = W" using v by auto
    have l: "length bufs = length W" using b(2) by (metis length_map)
    have "word_of_nat (c + length W) = (0 :: u32)"
      using assms(7) 1 ok b(1) l unfolding mac_map_tx_skb_def by (simp add: ctx start Let_def)
    then have "unat (word_of_nat (c + length W) :: u32) = 0" by (metis unsigned_0)
    then show False using size assms(5) by (subst (asm) unat_u32_of_nat) simp_all
  qed
  then obtain bufs s2 where b: "frame r1 = (frame r)\<lparr>pkt_info := (pkt_info r)\<lparr>desc_count := 0, pkt_length := total bufs\<rparr>\<rparr>"
    "i = cur r + word_of_nat (c + length bufs)" "length bufs \<le> length W" "trace s2 = rev (map emap bufs) @ trace s"
    "\<forall>j < ring_size r. ent_data r1 (cur r) j = buf_data c bufs (ent_data r (cur r)) j" "ring_shape r1" "descs r1 = descs r"
    "s1 = emit Edma_fail s2"
    using v by auto
  note f1 = frame_pktD [OF b(1)]
  let ?u = "undone (cur r) (c + length bufs)"
  have u: "unat i - unat (cur r) = ?u" unfolding b(2) by (rule undone_unat) (use size b(3) in simp)
  have "?u \<le> c + length bufs" by (simp add: undone_def)
  then have ul: "?u \<le> ring_size r1" using assms(4) b(3) f1 by simp
  have 2: "fold (\<lambda>n. unmap_at (cur r + word_of_nat n)) [0..<?u] (r1, s1) = (r', s')"
    using assms(7) 1 fail u unfolding mac_map_tx_skb_def by (simp add: ctx start Let_def)
  have "\<forall>n < ?u. tx_only (ent_data r1 (cur r) n)" using b(5) ul f1 assms(6) by simp
  note w = unmap_range_view [OF b(6) ul this 2]
  have na: "\<not> (\<forall>h. alloc_ok E h)" using map_skb_ok [of E k] 1 fail by (metis fst_conv)
  have m: "map (\<lambda>n. unmap_events (ent_data r1 (cur r) n)) [0..<?u] =
      map (\<lambda>j. unmap_events (buf_data c bufs (ent_data r (cur r)) j)) [0..<?u]"
    using b(5) ul f1 by simp
  show ?thesis using na w b f1 by (intro exI [of _ bufs]) (simp add: Let_def m)
qed

section \<open>The queue\<close>

definition pending :: "mac_ring \<Rightarrow> nat" where
  "pending r = unat (cur r - dirty r)"

text \<open>An entry as the driver will account for it.\<close>

record tx_item =
  item_desc :: mac_dma_desc
  item_skb :: "nat option"
  item_buf :: "buf option"
  item_packets :: u32
  item_bytes :: u32

definition item :: "mac_dma_desc \<Rightarrow> mac_desc_data \<Rightarrow> tx_item" where
  "item d e = \<lparr>item_desc = d, item_skb = skb e,
     item_buf = (if skb_dma e = 0 then None else Some (skb_dma e, skb_dma_len e, mapped_as_page e)),
     item_packets = bql_packets e, item_bytes = bql_bytes e\<rparr>"

definition tx_queue :: "mac_ring \<Rightarrow> tx_item list" where
  "tx_queue r = map (\<lambda>n. item (ent_desc r (dirty r) n) (ent_data r (dirty r) n)) [0..<pending r]"

definition tx_wf :: "mac_ring \<Rightarrow> bool" where
  "tx_wf r \<longleftrightarrow> ring_shape r \<and> pending r \<le> ring_size r \<and>
     (\<forall>n < ring_size r. tx_only (ent_data r (dirty r) n)) \<and>
     (\<forall>n < ring_size r. pending r \<le> n \<longrightarrow>
        ent_desc r (dirty r) n = no_desc \<and> blank (ent_data r (dirty r) n) = ent_data r (dirty r) n)"

lemma cur_pending: "cur r = dirty r + word_of_nat (pending r)"
  by (simp add: pending_def)

lemma ent_cur:
  "ent_desc r' (cur r) n = ent_desc r' (dirty r) (pending r + n)"
  "ent_data r' (cur r) n = ent_data r' (dirty r) (pending r + n)"
  by (simp_all add: ent_desc_def ent_data_def cur_pending [of r] add.assoc)

lemma ent_wrap:
  assumes "ring_shape r"
  shows "ent_desc r b (ring_size r + n) = ent_desc r b n" "ent_data r b (ring_size r + n) = ent_data r b n"
proof -
  have "ridx r (b + word_of_nat (ring_size r + n)) = ridx r (b + word_of_nat n)"
    unfolding ridx_add [OF assms] by (simp add: add.left_commute)
  then show "ent_desc r b (ring_size r + n) = ent_desc r b n" "ent_data r b (ring_size r + n) = ent_data r b n"
    by (simp_all only: ent_desc_def ent_data_def get_desc_def get_data_def)
qed

text \<open>Entries from \<open>cur\<close> on, all around the ring.\<close>

lemma around:
  assumes "ring_shape r'" "ring_size r' = ring_size r" "pending r \<le> ring_size r" "m < ring_size r"
  defines "n \<equiv> (if m < pending r then ring_size r + m - pending r else m - pending r)"
  shows "ent_desc r' (dirty r) m = ent_desc r' (cur r) n" "ent_data r' (dirty r) m = ent_data r' (cur r) n" "n < ring_size r"
proof -
  have "pending r + n = (if m < pending r then ring_size r' + m else m)" using assms by auto
  then show "ent_desc r' (dirty r) m = ent_desc r' (cur r) n" "ent_data r' (dirty r) m = ent_data r' (cur r) n"
    using assms(1) by (auto simp: ent_cur ent_wrap)
  show "n < ring_size r" using assms by auto
qed

lemma enqueue_view:
  assumes "tx_wf r" "ring_shape r'" "ring_size r' = ring_size r" "dirty r' = dirty r" "cur r' = cur r + word_of_nat N"
    "pending r + N \<le> ring_size r"
    "\<forall>n < ring_size r. N \<le> n \<longrightarrow> ent_desc r' (cur r) n = ent_desc r (cur r) n \<and> ent_data r' (cur r) n = ent_data r (cur r) n"
    "\<forall>n < N. tx_only (ent_data r' (cur r) n)"
  shows "tx_wf r' \<and> pending r' = pending r + N \<and>
    tx_queue r' = tx_queue r @ map (\<lambda>n. item (ent_desc r' (cur r) n) (ent_data r' (cur r) n)) [0..<N]"
proof -
  have sh: "ring_shape r" "pending r \<le> ring_size r" using assms(1) by (simp_all add: tx_wf_def)
  have small: "pending r + N < 2 ^ 32" using assms(6) ring_size_bound [OF sh(1)] by simp
  have "cur r' - dirty r' = word_of_nat (pending r + N)" using assms(4,5) by (simp add: pending_def)
  then have p: "pending r' = pending r + N" using small by (simp add: pending_def [of r'] del: of_nat_add)
  have old: "ent_desc r' (dirty r) m = ent_desc r (dirty r) m \<and> ent_data r' (dirty r) m = ent_data r (dirty r) m"
    if "m < ring_size r" "m < pending r \<or> pending r + N \<le> m" for m
  proof -
    let ?n = "if m < pending r then ring_size r + m - pending r else m - pending r"
    have n: "N \<le> ?n" "?n < ring_size r" using that assms(6) by auto
    show ?thesis
      using around [OF assms(2,3) sh(2) that(1)] around [OF sh(1) refl sh(2) that(1)] assms(7) n by metis
  qed
  have new: "ent_desc r' (dirty r) (pending r + n) = ent_desc r' (cur r) n"
    "ent_data r' (dirty r) (pending r + n) = ent_data r' (cur r) n" for n
    by (simp_all add: ent_cur)
  have "tx_only (ent_data r' (dirty r) m)" if "m < ring_size r" for m
  proof (cases "m < pending r \<or> pending r + N \<le> m")
    case True
    then show ?thesis using old [OF that] assms(1) that by (simp add: tx_wf_def)
  next
    case False
    then have "m - pending r < N" "pending r + (m - pending r) = m" by auto
    then show ?thesis using assms(8) new(2) [of "m - pending r"] by simp
  qed
  then have "tx_wf r'" using assms(1-4,6) p old by (simp add: tx_wf_def)
  moreover have "tx_queue r' = tx_queue r @ map (\<lambda>n. item (ent_desc r' (cur r) n) (ent_data r' (cur r) n)) [0..<N]"
  proof (rule nth_equalityI)
    fix m assume "m < length (tx_queue r')"
    then have m: "m < pending r + N" by (simp add: tx_queue_def p)
    show "tx_queue r' ! m = (tx_queue r @ map (\<lambda>n. item (ent_desc r' (cur r) n) (ent_data r' (cur r) n)) [0..<N]) ! m"
      using m assms(4,6) old [of m] new [of "m - pending r"] by (cases "m < pending r") (simp_all add: tx_queue_def p nth_append)
  qed (simp add: tx_queue_def p)
  ultimately show ?thesis using p by simp
qed

end
