(* ===== verification/Xmit_Refine.thy ===== *)
theory Xmit_Refine
  imports Xmit_Queue
begin

text \<open>
  \<open>mac_xmit\<close> and \<open>mac_tx_poll\<close> against the queue: what a packet adds, what a poll removes, which
  mappings and buffers are given back, and the interface of a queue both provide.
\<close>

section \<open>A packet joins the queue\<close>

text \<open>The entries of a packet with the given buffers; \<open>i\<close> is the buffer that is freed at the end.\<close>

definition packet_items :: "bool \<Rightarrow> bool \<Rightarrow> bool \<Rightarrow> mac_pkt_info \<Rightarrow> nat \<Rightarrow> buf list \<Rightarrow> tx_item list" where
  "packet_items tso vlan ic q i bufs =
     (let c = (if tso \<or> vlan then 1 else 0); N = c + length bufs;
          D = (\<lambda>n. if n < c then no_data else set_buf (bufs ! (n - c)) no_data)
      in map (\<lambda>n. \<lparr>item_desc = sent_desc tso vlan ic q N D (\<lambda>_. no_desc) n,
                item_skb = (if n = N - 1 then Some i else None),
                item_buf = (if n < c \<or> fst (bufs ! (n - c)) = 0 then None else Some (bufs ! (n - c))),
                item_packets = (if n = N - 1 then tx_packets q else 0),
                item_bytes = (if n = N - 1 then tx_bytes q else 0)\<rparr>) [0..<N])"

lemma stores_data_cong:
  assumes "skb_dma d = skb_dma e" "skb_dma_len d = skb_dma_len e"
  shows "first_stores b q d = first_stores b q e" "next_stores q d = next_stores q e"
  using assms by (simp_all add: first_stores_def next_stores_def buffer_stores_def)

lemma sent_desc_cong:
  assumes "(if tso \<or> vlan then 1 else 0) \<le> n \<longrightarrow> skb_dma (D n) = skb_dma (D' n) \<and> skb_dma_len (D n) = skb_dma_len (D' n)"
    "d n = d' n"
  shows "sent_desc tso vlan ic q N D d n = sent_desc tso vlan ic q N D' d' n"
  using assms stores_data_cong [of "D n" "D' n"] unfolding sent_desc_def packet_desc_def Let_def by (auto split: if_splits)

lemma blank_fields:
  "blank e = e \<Longrightarrow> skb e = None \<and> skb_dma e = 0 \<and> bql_packets e = 0 \<and> bql_bytes e = 0 \<and> \<not> mapped_as_page e"
  by (metis blank_simps(5-9))

lemma tx_attr_counts [simp]: "tx_attr (q\<lparr>desc_count := a, pkt_length := b\<rparr>) f = tx_attr q f"
  by (simp add: tx_attr_def)

lemma free_at_cur:
  assumes "tx_wf r" "pending r + n < ring_size r"
  shows "ent_desc r (cur r) n = no_desc" "blank (ent_data r (cur r) n) = ent_data r (cur r) n"
  using assms by (simp_all add: ent_cur tx_wf_def)

lemma tx_only_upd [simp]:
  "tx_only (e\<lparr>skb := x\<rparr>) = tx_only e" "tx_only (e\<lparr>bql_packets := y, bql_bytes := z\<rparr>) = tx_only e"
  by (simp_all add: tx_only_def)

lemma skb_last: "skb e = None \<Longrightarrow> (if p then e\<lparr>skb := Some i\<rparr> else e) = e\<lparr>skb := (if p then Some i else None)\<rparr>"
  by (cases e) simp

lemma tx_only_cur:
  assumes "tx_wf r" "n < ring_size r"
  shows "tx_only (ent_data r (cur r) n)"
proof (cases "pending r + n < ring_size r")
  case True
  then show ?thesis using assms by (simp add: ent_cur tx_wf_def)
next
  case False
  then obtain m where "pending r + n = ring_size r + m" "m < ring_size r"
    using assms by (metis tx_wf_def add_less_imp_less_left le_add_diff_inverse linorder_not_less add_mono_thms_linordered_field(4))
  then show ?thesis using assms by (simp add: ent_cur tx_wf_def ent_wrap)
qed

lemma item_of_entry:
  assumes "blank e = e" "x = (if q then e else set_buf b e)\<lparr>skb := (if P then Some i else None)\<rparr>"
    "z = (if P then x\<lparr>bql_packets := m, bql_bytes := n\<rparr> else x)"
  shows "item d z = \<lparr>item_desc = d, item_skb = (if P then Some i else None),
     item_buf = (if q \<or> fst b = 0 then None else Some b),
     item_packets = (if P then m else 0), item_bytes = (if P then n else 0)\<rparr>"
  using assms blank_fields [OF assms(1)] by (cases b; cases P; cases q) (auto simp: item_def)

lemma xmit_mapped_success:
  fixes t :: tx_chan and k :: sk_buff
  defines "r \<equiv> tx_ring t"
  defines "c \<equiv> needs_context r" and "W \<equiv> packet_areas k (pkt_info r)"
  assumes "tx_wf r" "pending r + c + length W \<le> ring_size r" "W \<noteq> []"
    "mac_map_tx_skb E k (r, s) = (n, r1, s1)" "n \<noteq> 0" "xmit_mapped E X p ch k (t, s) = (ret, t', s')"
  shows "ret = NETDEV_TX_OK \<and> tx_wf (tx_ring t') \<and> ring_size (tx_ring t') = ring_size r \<and>
    pending (tx_ring t') = pending r + c + length W \<and>
    (\<exists>ic bufs. map snd bufs = W \<and>
       tx_queue (tx_ring t') = tx_queue r @ packet_items (tso_context r) (vlan_context r) ic
         ((pkt_info r)\<lparr>desc_count := word_of_nat (c + length W), pkt_length := total bufs\<rparr>) (skb_id k) bufs \<and>
       (\<exists>late early v. trace s' = late @ Edesc (ridx r (cur r)) 3 v # Ewmb # early @
            Equeue_sent (queue_index ch) (tx_bytes (pkt_info r)) # rev (map emap bufs) @ trace s \<and>
          list_all signal late \<and> bit v 31 \<and> stores early {ridx r (cur r + word_of_nat j) |j. j < c + length W} \<and>
          quiet early (ridx r (cur r))))"
proof -
  have sh: "ring_shape r" "pending r \<le> ring_size r" "\<forall>j < ring_size r. tx_only (ent_data r (dirty r) j)"
    using assms(4) by (simp_all add: tx_wf_def)
  let ?N = "c + length W"
  have N: "0 < ?N" "c < ?N" "?N \<le> ring_size r" "pending r + ?N \<le> ring_size r" using assms(5,6) by auto
  obtain bufs where b: "map snd bufs = W" "n = word_of_nat ?N" "ring_shape r1" "descs r1 = descs r"
    "frame r1 = (frame r)\<lparr>pkt_info := (pkt_info r)\<lparr>desc_count := n, pkt_length := total bufs\<rparr>\<rparr>"
    "\<forall>j < ring_size r. ent_data r1 (cur r) j =
       (let e = buf_data c bufs (ent_data r (cur r)) j in if j = ?N - 1 then e\<lparr>skb := Some (skb_id k)\<rparr> else e)"
    "trace s1 = rev (map emap bufs) @ trace s"
    using map_tx_skb_success [OF sh(1), of k E s n r1 s1, folded c_def W_def] assms(6-8) N by blast
  note f1 = frame_pktD [OF b(5)]
  have l: "length bufs = length W" using b(1) by (metis length_map)
  have desc1: "ent_desc r1 b j = ent_desc r b j" for b j
    using b(3,4) sh(1) f1 by (simp add: ent_desc_def get_desc_shape)
  have ctx: "tso_context r1 = tso_context r" "vlan_context r1 = vlan_context r"
    using f1 by (simp_all add: tso_context_def vlan_context_def)
  have n: "unat (desc_count (pkt_info r1)) = ?N"
    using N ring_size_bound [OF sh(1)] f1(1) unfolding b(2) by (subst unat_u32_of_nat [symmetric]) auto
  let ?q = "(pkt_info r)\<lparr>desc_count := n, pkt_length := total bufs\<rparr>"
  let ?t1 = "t\<lparr>tx_ring := r1\<rparr>" and ?s1 = "emit (Equeue_sent (queue_index ch) (tx_bytes (pkt_info r))) s1"
  obtain t2 s2 where 2: "mac_dev_xmit X p ch k (?t1, ?s1) = (t2, s2)" by fastforce
  obtain ret3 where 3: "mac_maybe_stop_tx_queue p ch MAC_TX_MAX_DESC_NR (t2, s2) = (ret3, t', s')" and ret: "ret = NETDEV_TX_OK"
    using assms(7-9) 2 f1(1) unfolding xmit_mapped_def by (auto simp: r_def [symmetric] Let_def split: prod.splits)
  have own0: "\<not> own (ent_desc r1 (cur r1) 0)"
    using free_at_cur [OF assms(4), of 0] N desc1 f1(4) by (simp add: own_def no_desc_def)
  have cc: "(if tso_context r1 \<or> vlan_context r1 then 1 else 0) = c" by (simp add: c_def needs_context_def ctx)
  have cr: "(if tso_context r \<or> vlan_context r then 1 else 0) < ?N" using N(2) by (simp add: c_def needs_context_def)
  have v2: "ring_shape (tx_ring t2) \<and> cur (tx_ring t2) = cur r + n \<and> dirty (tx_ring t2) = dirty r \<and>
      dma_desc_count (tx_ring t2) = dma_desc_count r \<and>
      (\<exists>ic. \<forall>j < ring_size r. ent_desc (tx_ring t2) (cur r) j =
         sent_desc (tso_context r) (vlan_context r) ic ?q ?N (ent_data r1 (cur r)) (ent_desc r1 (cur r)) j) \<and>
      (\<forall>j < ring_size r. ent_data (tx_ring t2) (cur r) j = sent_data ?q ?N (ent_data r1 (cur r)) j) \<and>
      (\<exists>late early v. trace s2 = late @ Edesc (ridx r (cur r)) 3 v # Ewmb # early @ trace ?s1 \<and> list_all signal late \<and>
         bit v 31 \<and> stores early {ridx r (cur r + word_of_nat j) |j. j < ?N} \<and> quiet early (ridx r (cur r)))"
    using dev_xmit_view [of ?t1 X p ch k ?s1 t2 s2, simplified, unfolded n, simplified f1 ctx, folded f1(1), unfolded cc] own0 b(3) N(3) 2 f1 cr
    by (simp add: f1)
  obtain x y ev where r': "tx_ring t' = (tx_ring t2)\<lparr>xmit_more := x, queue_stopped := y\<rparr>" "trace s' = ev @ trace s2" "list_all signal ev"
    using maybe_stop_view [OF 3] by blast
  obtain ic where ic: "\<forall>j < ring_size r. ent_desc (tx_ring t') (cur r) j =
         sent_desc (tso_context r) (vlan_context r) ic ?q ?N (ent_data r1 (cur r)) (ent_desc r1 (cur r)) j"
    using v2 r'(1) by auto
  have data: "\<forall>j < ring_size r. ent_data (tx_ring t') (cur r) j = sent_data ?q ?N (ent_data r1 (cur r)) j"
    using v2 r'(1) by simp
  have size: "ring_size (tx_ring t') = ring_size r" using v2 r'(1) by (simp add: ring_size_def)
  have same: "sent_desc (tso_context r) (vlan_context r) ic ?q ?N (ent_data r1 (cur r)) (ent_desc r1 (cur r)) j = ent_desc r (cur r) j \<and>
      sent_data ?q ?N (ent_data r1 (cur r)) j = ent_data r (cur r) j" if "j < ring_size r" "?N \<le> j" for j
    using that N(1) b(6) l assms(6)
    by (auto simp: sent_desc_def packet_desc_def sent_data_def desc1 buf_data_def c_def needs_context_def Let_def)
  have enq: "tx_wf (tx_ring t') \<and> pending (tx_ring t') = pending r + ?N \<and>
      tx_queue (tx_ring t') = tx_queue r @ map (\<lambda>j. item (ent_desc (tx_ring t') (cur r) j) (ent_data (tx_ring t') (cur r) j)) [0..<?N]"
  proof (rule enqueue_view [OF assms(4)])
    show "\<forall>j < ?N. tx_only (ent_data (tx_ring t') (cur r) j)"
    proof (intro allI impI)
      fix j assume "j < ?N"
      then show "tx_only (ent_data (tx_ring t') (cur r) j)"
        using data b(6) N(3) tx_only_cur [OF assms(4), of j] by (auto simp: sent_data_def Let_def)
    qed
  qed (use v2 r'(1) size N(4) ic data same b(2) in auto)
  have items: "map (\<lambda>j. item (ent_desc (tx_ring t') (cur r) j) (ent_data (tx_ring t') (cur r) j)) [0..<?N] =
      packet_items (tso_context r) (vlan_context r) ic ?q (skb_id k) bufs"
    unfolding packet_items_def Let_def needs_context_def [symmetric] c_def [symmetric] l
  proof (rule map_cong [OF refl])
    fix j assume "j \<in> set [0..<?N]"
    then have j: "j < ?N" "j < ring_size r" using N(3) by auto
    have free: "ent_desc r (cur r) j = no_desc" "blank (ent_data r (cur r) j) = ent_data r (cur r) j"
      using free_at_cur [OF assms(4), of j] j(1) N(4) by auto
    note bf = blank_fields [OF free(2)]
    let ?D = "\<lambda>j. if j < c then no_data else set_buf (bufs ! (j - c)) no_data"
    have e: "ent_data r1 (cur r) j = (if j < c then ent_data r (cur r) j
        else set_buf (bufs ! (j - c)) (ent_data r (cur r) j))\<lparr>skb := (if j = ?N - 1 then Some (skb_id k) else None)\<rparr>"
    proof -
      have "skb (buf_data c bufs (ent_data r (cur r)) j) = None" using bf by (simp add: buf_data_def)
      note last = skb_last [OF this]
      have A: "buf_data c bufs (ent_data r (cur r)) j =
          (if j < c then ent_data r (cur r) j else set_buf (bufs ! (j - c)) (ent_data r (cur r) j))"
        using j(1) l by (simp add: buf_data_def)
      have "ent_data r1 (cur r) j = (if j = ?N - 1 then (buf_data c bufs (ent_data r (cur r)) j)\<lparr>skb := Some (skb_id k)\<rparr>
          else buf_data c bufs (ent_data r (cur r)) j)"
        using b(6) j(2) by (simp only: Let_def)
      from this [unfolded last] show ?thesis unfolding A .
    qed
    have d: "ent_desc (tx_ring t') (cur r) j = sent_desc (tso_context r) (vlan_context r) ic ?q ?N ?D (\<lambda>_. no_desc) j"
      using ic j(2) free(1) e by (auto simp: desc1 c_def needs_context_def intro!: sent_desc_cong)
    show "item (ent_desc (tx_ring t') (cur r) j) (ent_data (tx_ring t') (cur r) j) =
        \<lparr>item_desc = sent_desc (tso_context r) (vlan_context r) ic ?q ?N ?D (\<lambda>_. no_desc) j,
         item_skb = (if j = ?N - 1 then Some (skb_id k) else None),
         item_buf = (if j < c \<or> fst (bufs ! (j - c)) = 0 then None else Some (bufs ! (j - c))),
         item_packets = (if j = ?N - 1 then tx_packets ?q else 0),
         item_bytes = (if j = ?N - 1 then tx_bytes ?q else 0)\<rparr>"
      unfolding d by (rule item_of_entry [OF free(2) e]) (use data j(2) in \<open>simp only: sent_data_def\<close>)
  qed
  obtain late early v where tr: "trace s2 = late @ Edesc (ridx r (cur r)) 3 v # Ewmb # early @ trace ?s1" "list_all signal late"
    "bit v 31" "stores early {ridx r (cur r + word_of_nat j) |j. j < ?N}" "quiet early (ridx r (cur r))"
    using v2 by blast
  have "trace s' = (ev @ late) @ Edesc (ridx r (cur r)) 3 v # Ewmb # early @
      Equeue_sent (queue_index ch) (tx_bytes (pkt_info r)) # rev (map emap bufs) @ trace s" "list_all signal (ev @ late)"
    using tr(1,2) r'(2,3) b(7) by simp_all
  then show ?thesis
    using ret enq size b(1) tr(3-5) unfolding items b(2)
    by (intro conjI exI [of _ ic] exI [of _ bufs] exI [of _ "ev @ late"] exI [of _ early] exI [of _ v]) simp_all
qed

section \<open>A packet that cannot be mapped\<close>

text \<open>Changing free entries into other free entries leaves the queue.\<close>

lemma untouched_view:
  assumes "tx_wf r" "ring_shape r'" "ring_size r' = ring_size r" "dirty r' = dirty r" "cur r' = cur r" "pending r + M \<le> ring_size r"
    "\<forall>n < ring_size r. M \<le> n \<longrightarrow> ent_desc r' (cur r) n = ent_desc r (cur r) n \<and> ent_data r' (cur r) n = ent_data r (cur r) n"
    "\<forall>n < M. ent_desc r' (cur r) n = no_desc \<and> blank (ent_data r' (cur r) n) = ent_data r' (cur r) n \<and> tx_only (ent_data r' (cur r) n)"
  shows "tx_wf r' \<and> pending r' = pending r \<and> tx_queue r' = tx_queue r"
proof -
  have sh: "ring_shape r" "pending r \<le> ring_size r" using assms(1) by (simp_all add: tx_wf_def)
  have p: "pending r' = pending r" using assms(4,5) by (simp add: pending_def)
  have old: "ent_desc r' (dirty r) m = ent_desc r (dirty r) m \<and> ent_data r' (dirty r) m = ent_data r (dirty r) m"
    if "m < ring_size r" "m < pending r \<or> pending r + M \<le> m" for m
  proof -
    let ?n = "if m < pending r then ring_size r + m - pending r else m - pending r"
    have n: "M \<le> ?n" "?n < ring_size r" using that assms(6) by auto
    show ?thesis
      using around [OF assms(2,3) sh(2) that(1)] around [OF sh(1) refl sh(2) that(1)] assms(7) n by metis
  qed
  have new: "ent_desc r' (dirty r) m = no_desc \<and> blank (ent_data r' (dirty r) m) = ent_data r' (dirty r) m \<and> tx_only (ent_data r' (dirty r) m)"
    if "pending r \<le> m" "m < pending r + M" for m
  proof -
    have "m - pending r < M" "pending r + (m - pending r) = m" using that by auto
    then show ?thesis using assms(8) ent_cur [of r' r "m - pending r"] by metis
  qed
  have "tx_only (ent_data r' (dirty r) m) \<and> (pending r \<le> m \<longrightarrow>
      ent_desc r' (dirty r) m = no_desc \<and> blank (ent_data r' (dirty r) m) = ent_data r' (dirty r) m)" if "m < ring_size r" for m
    using old [OF that] new [of m] assms(1) that by (cases "m < pending r \<or> pending r + M \<le> m") (auto simp: tx_wf_def)
  then have "tx_wf r'" using assms(2-4) sh(2) p by (simp add: tx_wf_def)
  moreover have "tx_queue r' = tx_queue r"
    using old sh(2) assms(4) p by (simp add: tx_queue_def)
  ultimately show ?thesis using p by simp
qed

definition eunmap :: "buf \<Rightarrow> event" where
  "eunmap = (\<lambda>(a, l, page). Edma_unmap a l page)"

text \<open>The mappings a loop over entries takes back. An address 0 counts as no mapping.\<close>

definition taken_back :: "buf list \<Rightarrow> event list" where
  "taken_back bufs = concat (rev (map (\<lambda>b. if fst b = 0 then [] else [eunmap b]) bufs))"

lemma concat_shift:
  assumes "\<forall>j < c. f j = []" "\<forall>j < length bs. f (c + j) = g (bs ! j)"
  shows "concat (rev (map f [0..<c + length bs])) = concat (rev (map g bs))"
proof -
  have "concat (rev (map f [0..<c])) = []" using assms(1) by simp
  moreover have "map f [c..<c + length bs] = map g bs"
    using assms(2) by (intro nth_equalityI) simp_all
  moreover have "[0..<c + length bs] = [0..<c] @ [c..<c + length bs]" by (rule upt_add_eq_append) simp
  ultimately show ?thesis by (simp only: map_append rev_append concat_append append_Nil2)
qed

lemma undone_events:
  assumes "\<forall>j < c + length bufs. blank (D j) = D j"
  shows "concat (rev (map (\<lambda>j. unmap_events (buf_data c bufs D j)) [0..<c + length bufs])) = taken_back bufs"
  unfolding taken_back_def
proof (rule concat_shift)
  show "\<forall>j < c. unmap_events (buf_data c bufs D j) = []"
    using blank_fields assms by (simp add: buf_data_def unmap_events_def)
  have "unmap_events (set_buf b e) = (if fst b = 0 then [] else [eunmap b])" if "blank e = e" for b e
    using blank_fields [OF that] by (cases b) (simp add: unmap_events_def eunmap_def)
  then show "\<forall>j < length bufs. unmap_events (buf_data c bufs D (c + j)) = (if fst (bufs ! j) = 0 then [] else [eunmap (bufs ! j)])"
    using assms by (simp add: buf_data_def)
qed

lemma xmit_mapped_failure:
  fixes t :: tx_chan and k :: sk_buff
  defines "r \<equiv> tx_ring t"
  defines "c \<equiv> needs_context r" and "W \<equiv> packet_areas k (pkt_info r)"
  assumes "tx_wf r" "pending r + c + length W \<le> ring_size r" "W \<noteq> []" "unat (cur r) + c + length W < 2 ^ 32"
    "mac_map_tx_skb E k (r, s) = (0, r1, s1)" "xmit_mapped E X p ch k (t, s) = (ret, t', s')"
  shows "ret = NETDEV_TX_OK \<and> tx_wf (tx_ring t') \<and> ring_size (tx_ring t') = ring_size r \<and>
    pending (tx_ring t') = pending r \<and> tx_queue (tx_ring t') = tx_queue r \<and> cur (tx_ring t') = cur r \<and>
    (\<exists>bufs. trace s' = Efree_skb (skb_id k) # taken_back bufs @ Edma_fail # rev (map emap bufs) @ trace s)"
proof -
  have sh: "ring_shape r" "pending r \<le> ring_size r" using assms(4) by (simp_all add: tx_wf_def)
  have to: "\<forall>j < ring_size r. tx_only (ent_data r (cur r) j)" using tx_only_cur [OF assms(4)] by blast
  have cW: "c + length W \<le> ring_size r" using assms(5) by simp
  obtain bufs where b: "ring_shape r1" "descs r1 = descs r" "length bufs \<le> length W"
    "frame r1 = (frame r)\<lparr>pkt_info := (pkt_info r)\<lparr>desc_count := 0, pkt_length := total bufs\<rparr>\<rparr>"
    "\<forall>j < ring_size r. ent_data r1 (cur r) j =
       (let e = buf_data c bufs (ent_data r (cur r)) j in if j < undone (cur r) (c + length bufs) then blank e else e)"
    "trace s1 = concat (rev (map (\<lambda>j. unmap_events (buf_data c bufs (ent_data r (cur r)) j)) [0..<undone (cur r) (c + length bufs)])) @
      Edma_fail # rev (map emap bufs) @ trace s"
    using map_tx_skb_failure [OF sh(1), of k E s r1 s1, folded c_def W_def, OF cW assms(6) to assms(8)] by blast
  note f1 = frame_pktD [OF b(4)]
  have u: "undone (cur r) (c + length bufs) = c + length bufs" using assms(7) b(3) by (simp add: undone_def)
  have free: "ent_desc r (cur r) j = no_desc" "blank (ent_data r (cur r) j) = ent_data r (cur r) j" if "j < c + length bufs" for j
    using free_at_cur [OF assms(4), of j] that b(3) assms(5) by auto
  have "tx_wf r1 \<and> pending r1 = pending r \<and> tx_queue r1 = tx_queue r"
  proof (rule untouched_view [OF assms(4) b(1), of "c + length bufs"])
    show "\<forall>n < ring_size r. c + length bufs \<le> n \<longrightarrow>
        ent_desc r1 (cur r) n = ent_desc r (cur r) n \<and> ent_data r1 (cur r) n = ent_data r (cur r) n"
      using b(1,2,5) sh(1) f1 u by (auto simp: ent_desc_def get_desc_shape buf_data_def Let_def)
    show "\<forall>n < c + length bufs. ent_desc r1 (cur r) n = no_desc \<and> blank (ent_data r1 (cur r) n) = ent_data r1 (cur r) n \<and>
        tx_only (ent_data r1 (cur r) n)"
    proof (intro allI impI)
      fix n assume n: "n < c + length bufs"
      then have "n < ring_size r" using b(3) cW by simp
      then have "ent_data r1 (cur r) n = blank (buf_data c bufs (ent_data r (cur r)) n)" using b(5) u n by (simp add: Let_def)
      moreover have "ent_desc r1 (cur r) n = no_desc"
        using free(1) [OF n] b(1,2) sh(1) f1 by (simp add: ent_desc_def get_desc_shape)
      ultimately show "ent_desc r1 (cur r) n = no_desc \<and> blank (ent_data r1 (cur r) n) = ent_data r1 (cur r) n \<and>
        tx_only (ent_data r1 (cur r) n)" using to \<open>n < ring_size r\<close> by simp
    qed
  qed (use f1 b(3) assms(5) in auto)
  moreover have "concat (rev (map (\<lambda>j. unmap_events (buf_data c bufs (ent_data r (cur r)) j)) [0..<c + length bufs])) = taken_back bufs"
    by (rule undone_events) (use free(2) in simp)
  moreover have "ret = NETDEV_TX_OK \<and> tx_ring t' = r1 \<and> s' = emit (Efree_skb (skb_id k)) s1"
    using assms(8,9) unfolding xmit_mapped_def by (auto simp: r_def [symmetric] Let_def)
  ultimately show ?thesis using b(6) f1 u by (auto intro!: exI [of _ bufs])
qed

section \<open>Completed entries leave the queue\<close>

definition item_events :: "tx_item \<Rightarrow> event list" where
  "item_events x = (case item_skb x of None \<Rightarrow> [] | Some i \<Rightarrow> [Efree_skb i]) @
     (case item_buf x of None \<Rightarrow> [] | Some b \<Rightarrow> [eunmap b])"

lemma unmap_events_item: "unmap_events e = item_events (item d e)"
  by (simp add: unmap_events_def item_events_def item_def eunmap_def)

lemma tx_queue_Cons:
  "0 < pending r \<Longrightarrow> tx_queue r = item (ent_desc r (dirty r) 0) (ent_data r (dirty r) 0) #
     map (\<lambda>n. item (ent_desc r (dirty r) (Suc n)) (ent_data r (dirty r) (Suc n))) [0..<pending r - 1]"
  by (cases "pending r") (simp_all add: tx_queue_def upt_conv_Cons map_Suc_upt [symmetric] comp_def del: upt_Suc)

definition reset_stores :: "store list" where
  "reset_stores = [Word 0 0, Word 1 0, Word 2 0, Word 3 0]"

lemma reset_no_desc: "desc_after reset_stores d = no_desc"
  by (cases d) (simp add: reset_stores_def set_word_def no_desc_def)

lemma ent_Suc:
  "ent_desc r (b + 1) n = ent_desc r b (Suc n)" "ent_data r (b + 1) n = ent_data r b (Suc n)"
  by (simp_all add: ent_desc_def ent_data_def add.assoc)

lemma dequeue_view:
  assumes "tx_wf r" "0 < pending r" "unmap_at (dirty r) (r, s) = (r1, s1)"
    "mac_tx_desc_reset (get_data r1 (dirty r1)) (r1, s1) = (r2, s2)"
  shows "dirty r2 = dirty r \<and> cur r2 = cur r \<and> queue_stopped r2 = queue_stopped r \<and> dma_desc_count r2 = dma_desc_count r \<and>
    tx_wf (r2\<lparr>dirty := dirty r + 1\<rparr>) \<and> tx_queue (r2\<lparr>dirty := dirty r + 1\<rparr>) = tl (tx_queue r) \<and>
    trace s2 = Ewmb # store_events (ridx r (dirty r)) reset_stores (ent_desc r (dirty r) 0) @ item_events (hd (tx_queue r)) @ trace s"
proof -
  have sh: "ring_shape r" "pending r \<le> ring_size r" and to: "\<forall>n < ring_size r. tx_only (ent_data r (dirty r) n)"
    using assms(1) by (simp_all add: tx_wf_def)
  have 1: "unmap_at (dirty r + word_of_nat 0) (r, s) = (r1, s1)" using assms(3) by simp
  have t0: "tx_only (ent_data r (dirty r) 0)" using to ring_size_pos [OF sh(1)] by blast
  note v1 = unmap_at_view [OF sh(1) ring_size_pos [OF sh(1)] t0 1]
  have f1: "ring_shape r1" "frame r1 = frame r" using v1 by simp_all
  note g1 = frame_eqD [OF f1(2)]
  obtain s3 where 2: "puts_at (dirty r + word_of_nat 0) reset_stores (r1, s1) = (r2, s3)" and s3: "s2 = emit Ewmb s3"
    using assms(4) g1 by (auto simp: mac_tx_desc_reset_def puts_at_def reset_stores_def split: prod.splits)
  note v2 = puts_at_view [OF f1(1) ring_size_pos [OF f1(1)] 2]
  have f2: "ring_shape r2" "frame r2 = frame r1" "ent_data r2 = ent_data r1"
    using v2 frame_eqD(11) [of r2 r1] by (auto simp: ent_data_def get_data_def fun_eq_iff)
  note g2 = frame_eqD [OF f2(2)]
  have ent: "ent_desc r2 (dirty r) n = (if n = 0 then no_desc else ent_desc r (dirty r) n) \<and>
      ent_data r2 (dirty r) n = (if n = 0 then blank (ent_data r (dirty r) n) else ent_data r (dirty r) n)"
    if "n < ring_size r" for n
    using v1 v2 f2 g1 that by (auto simp: reset_no_desc)
  let ?r = "r2\<lparr>dirty := dirty r + 1\<rparr>"
  have fields: "dirty r2 = dirty r" "cur r2 = cur r" "queue_stopped r2 = queue_stopped r" "dma_desc_count r2 = dma_desc_count r"
    "ring_size r2 = ring_size r"
    using g1 g2 by simp_all
  have p: "pending ?r = pending r - 1"
  proof -
    have "cur r - dirty r \<noteq> 0" using assms(2) by (auto simp: pending_def)
    then have "unat (cur r - dirty r - 1) = unat (cur r - dirty r) - 1" by (rule unat_minus_one)
    then show ?thesis using fields by (simp add: pending_def diff_diff_eq)
  qed
  have e: "ent_desc ?r (dirty ?r) n = (if Suc n = ring_size r then no_desc else ent_desc r (dirty r) (Suc n)) \<and>
      ent_data ?r (dirty ?r) n = (if Suc n = ring_size r then blank (ent_data r (dirty r) 0) else ent_data r (dirty r) (Suc n))"
    if "n < ring_size r" for n
    using that ent [of "Suc n"] ent [of 0] ent_wrap [OF f2(1), of "dirty r" 0] fields ring_size_pos [OF sh(1)] by (auto simp: ent_Suc)
  have "tx_wf ?r" using assms(1) f2(1) fields p e t0 sh unfolding tx_wf_def by auto
  moreover have "tx_queue ?r = tl (tx_queue r)"
  proof -
    have "tx_queue ?r = map (\<lambda>n. item (ent_desc r (dirty r) (Suc n)) (ent_data r (dirty r) (Suc n))) [0..<pending r - 1]"
      unfolding tx_queue_def p by (rule map_cong) (use e sh(2) in auto)
    then show ?thesis using assms(2) by (simp add: tx_queue_Cons)
  qed
  moreover have "trace s2 = Ewmb # store_events (ridx r (dirty r)) reset_stores (ent_desc r (dirty r) 0) @ item_events (hd (tx_queue r)) @ trace s"
    using v1 v2 s3 g1 ring_size_pos [OF sh(1)] assms(2) by (simp add: tx_queue_Cons unmap_events_item [symmetric])
  ultimately show ?thesis using fields by simp
qed

definition last_item :: "tx_item \<Rightarrow> bool" where
  "last_item x \<longleftrightarrow> mac_is_last_desc (item_desc x) \<noteq> 0"

text \<open>How many entries a poll finds completed.\<close>

definition completed :: "nat \<Rightarrow> tx_item list \<Rightarrow> nat" where
  "completed m q = length (takeWhile (\<lambda>x. mac_tx_complete (item_desc x)) (take m q))"

lemma completed_simps [simp]:
  "completed 0 q = 0" "completed m [] = 0"
  "completed (Suc m) (x # q) = (if mac_tx_complete (item_desc x) then Suc (completed m q) else 0)"
  by (simp_all add: completed_def)

text \<open>Events that give something back, and events of a poll.\<close>

fun gives :: "event \<Rightarrow> bool" where
  "gives (Edma_unmap a l page) = True"
| "gives (Efree_skb i) = True"
| "gives _ = False"

fun poll_event :: "event \<Rightarrow> bool" where
  "poll_event (Edesc k n v) = True"
| "poll_event Ewmb = True"
| "poll_event e = gives e"

lemma item_events_gives [simp]: "filter gives (item_events x) = item_events x" "list_all poll_event (item_events x)"
  by (auto simp: item_events_def eunmap_def split: option.split prod.split)

lemma store_events_gives [simp]: "filter gives (store_events k ws d) = []" "list_all poll_event (store_events k ws d)"
  by (induction ws arbitrary: d) auto

definition sum_last :: "(tx_item \<Rightarrow> u32) \<Rightarrow> tx_item list \<Rightarrow> u32" where
  "sum_last f q = sum_list (map f (filter last_item q))"

lemma pending_0: "ring_shape r \<Longrightarrow> pending r = 0 \<longleftrightarrow> dirty r = cur r"
  by (auto simp: pending_def unat_eq_zero)

lemma poll_loop_view:
  assumes "tx_wf r" "tx_poll_loop m (cur r) (n, pk, by, r, s) = (n', pk', by', r', s')"
  defines "j \<equiv> completed m (tx_queue r)"
  shows "n' = n + j \<and> pk' = pk + sum_last item_packets (take j (tx_queue r)) \<and>
    by' = by + sum_last item_bytes (take j (tx_queue r)) \<and>
    tx_wf r' \<and> cur r' = cur r \<and> queue_stopped r' = queue_stopped r \<and> dma_desc_count r' = dma_desc_count r \<and>
    tx_queue r' = drop j (tx_queue r) \<and>
    (\<exists>ev. trace s' = ev @ trace s \<and> list_all poll_event ev \<and>
       filter gives ev = concat (rev (map item_events (take j (tx_queue r)))))"
  using assms(1,2) unfolding j_def
proof (induction m arbitrary: n pk "by" r s)
  case 0
  then show ?case by (simp add: sum_last_def)
next
  case (Suc m)
  have sh: "ring_shape r" using Suc.prems(1) by (simp add: tx_wf_def)
  show ?case
  proof (cases "dirty r = cur r \<or> \<not> mac_tx_complete (get_desc r (dirty r))")
    case True
    then have "completed (Suc m) (tx_queue r) = 0"
    proof (cases "pending r = 0")
      case p: False
      then have "\<not> mac_tx_complete (ent_desc r (dirty r) 0)" using True pending_0 [OF sh] by (simp add: ent_desc_def)
      then show ?thesis using p by (simp add: tx_queue_Cons item_def)
    qed (simp add: tx_queue_def)
    moreover have "(n', pk', by', r', s') = (n, pk, by, r, s)" using Suc.prems(2) True by simp
    ultimately show ?thesis using Suc.prems(1) by (simp add: sum_last_def)
  next
    case False
    then have p: "0 < pending r" using pending_0 [OF sh] by auto
    let ?x = "item (ent_desc r (dirty r) 0) (ent_data r (dirty r) 0)"
    let ?pk = "if last_item ?x then pk + item_packets ?x else pk" and ?by = "if last_item ?x then by + item_bytes ?x else by"
    obtain r1 s1 where 1: "unmap_at (dirty r) (r, s) = (r1, s1)" by fastforce
    obtain r2 s2 where 2: "mac_tx_desc_reset (get_data r1 (dirty r1)) (r1, s1) = (r2, s2)" by fastforce
    note v = dequeue_view [OF Suc.prems(1) p 1 2]
    let ?r = "r2\<lparr>dirty := dirty r2 + 1\<rparr>"
    have step: "tx_poll_loop m (cur ?r) (Suc n, ?pk, ?by, ?r, s2) = (n', pk', by', r', s')"
      using Suc.prems(2) False 1 2 v
      by (auto simp: Let_def last_item_def item_def ent_desc_def ent_data_def split: if_splits)
    have w: "tx_wf ?r" "tx_queue ?r = tl (tx_queue r)" using v by simp_all
    have q: "tx_queue r = ?x # tl (tx_queue r)" using p by (simp add: tx_queue_Cons)
    have c: "mac_tx_complete (item_desc ?x)" using False by (simp add: item_def ent_desc_def)
    let ?j = "completed m (tl (tx_queue r))"
    have j: "completed (Suc m) (tx_queue r) = Suc ?j" by (subst q) (simp add: c)
    have t: "take (Suc ?j) (tx_queue r) = ?x # take ?j (tl (tx_queue r))" by (subst q) simp
    have d: "drop (Suc ?j) (tx_queue r) = drop ?j (tl (tx_queue r))" by (simp add: drop_Suc)
    note ih = Suc.IH [OF w(1) step, unfolded w(2)]
    have tr: "trace s2 = (Ewmb # store_events (ridx r (dirty r)) reset_stores (ent_desc r (dirty r) 0) @ item_events ?x) @ trace s"
      using v q by (metis append_Cons append_assoc list.sel(1))
    show ?thesis unfolding j t d using ih v tr
      by (auto simp: sum_last_def add.assoc)
  qed
qed

end
