(* ===== verification/Xmit_Run.thy ===== *)
theory Xmit_Run
  imports Xmit_Refine "HOL-Library.Multiset"
begin

text \<open>
  Sending and completion as the stack and the card see them: \<open>mac_xmit\<close> and \<open>mac_tx_poll\<close> provide
  a queue, the ring stays well-formed in every run, and what was mapped and handed over is given
  back exactly once.
\<close>

section \<open>Room for a packet\<close>

definition bufs_of :: "nat \<Rightarrow> nat" where
  "bufs_of n = (n + unat MAC_TX_MAX_BUF_SIZE - 1) div unat MAC_TX_MAX_BUF_SIZE"

lemma length_chunks: "length (chunks n) = bufs_of n"
proof (induction n rule: less_induct)
  case (less n)
  show ?case
  proof (cases "n = 0")
    case False
    then have "length (chunks n) = Suc (bufs_of (n - min n (unat MAC_TX_MAX_BUF_SIZE)))"
      using less.IH [of "n - min n (unat MAC_TX_MAX_BUF_SIZE)"] by (subst chunks.simps) simp
    also have "\<dots> = bufs_of n" using False by (cases "n \<le> 16320") (auto simp: bufs_of_def min_def div_if)
    finally show ?thesis .
  qed (subst chunks.simps, simp add: bufs_of_def)
qed

lemma length_area [simp]: "length (area page n) = bufs_of n"
  by (simp add: area_def length_chunks)

lemma area_Nil [simp]: "area page n = [] \<longleftrightarrow> bufs_of n = 0"
  using length_area [of page n] by (metis length_0_conv)

lemma bufs_of_mono: "m \<le> n \<Longrightarrow> bufs_of m \<le> bufs_of n"
  by (simp add: bufs_of_def div_le_mono)

lemma bufs_of_pos [simp]: "0 < bufs_of n \<longleftrightarrow> 0 < n" "bufs_of n = 0 \<longleftrightarrow> n = 0" "bufs_of 0 = 0"
  by (auto simp: bufs_of_def div_eq_0_iff)

lemma bufs_of_u32: "bufs_of (unat (n :: u32)) \<le> 263173"
proof -
  have "unat n \<le> 4294967295" using unat_u32_less [of n] by simp
  then have "bufs_of (unat n) \<le> bufs_of 4294967295" by (rule bufs_of_mono)
  then show ?thesis by (simp add: bufs_of_def)
qed

lemma count_bufs_eq: "count_bufs n x = x + word_of_nat (bufs_of n)"
proof (induction n arbitrary: x rule: less_induct)
  case (less n)
  show ?case
  proof (cases "n = 0")
    case False
    have "bufs_of n = Suc (bufs_of (n - min n (unat MAC_TX_MAX_BUF_SIZE)))"
      using False by (cases "n \<le> 16320") (auto simp: bufs_of_def min_def div_if)
    then show ?thesis
      using False less.IH [of "n - min n (unat MAC_TX_MAX_BUF_SIZE)" "x + 1"] by (subst count_bufs.simps) (simp add: add.assoc)
  qed (subst count_bufs.simps, simp)
qed

lemma count_frags: "fold (\<lambda>f n. n + word_of_nat (bufs_of (unat f))) fs x = x + (word_of_nat (\<Sum>f\<leftarrow>fs. bufs_of (unat f)) :: u32)"
  by (induction fs arbitrary: x) (simp_all add: add.assoc)

lemma tx_attr_bit: "n < 32 \<Longrightarrow> tx_attr q (n, 1) \<longleftrightarrow> bit (attributes q) n"
  unfolding tx_attr_def bit_eq_iff [of "MAC_GET_REG_BITS (attributes q) (n, 1)"] by (auto simp: bit_MAC_GET)

lemma tx_attr_set:
  assumes "m < 32" "n < 32"
  shows "tx_attr (set_attr (m, 1) q) (n, 1) \<longleftrightarrow> m = n \<or> tx_attr q (n, 1)"
  unfolding tx_attr_bit [OF assms(2)] using assms by (auto simp: set_attr_def bit_MAC_SET)

text \<open>
  What the driver relies on about a packet: at most \<open>MAX_SKB_FRAGS\<close> fragments, the header of a
  segmented packet in the linear part, and some data if it has a length.
\<close>

definition packet_header :: "sk_buff \<Rightarrow> u32" where
  "packet_header k = transport_offset k + tcp_hdrlen k"

definition skb_ok :: "sk_buff \<Rightarrow> bool" where
  "skb_ok k \<longleftrightarrow> length (frags k) \<le> 17 \<and>
     (mac_is_tso k \<longrightarrow> packet_header k \<noteq> 0 \<and> packet_header k \<le> skb_headlen k) \<and>
     (skb_len k \<noteq> 0 \<longrightarrow> skb_headlen k \<noteq> 0 \<or> (\<exists>f \<in> set (frags k). f \<noteq> 0))"

definition tso_tag :: "mac_ring \<Rightarrow> sk_buff \<Rightarrow> bool" where
  "tso_tag r k \<longleftrightarrow> mac_is_tso k \<and> gso_size k \<noteq> cur_mss r"

definition vlan_tag_new :: "mac_ring \<Rightarrow> sk_buff \<Rightarrow> bool" where
  "vlan_tag_new r k \<longleftrightarrow> (\<exists>v. vlan_tag k = Some v \<and> v \<noteq> cur_vlan_ctag r)"

text \<open>The number of entries \<open>mac_prep_tx_pkt\<close> counts.\<close>

definition prep_count :: "mac_ring \<Rightarrow> sk_buff \<Rightarrow> nat" where
  "prep_count r k = (if tso_tag r k \<or> vlan_tag_new r k then 1 else 0) + (if mac_is_tso k then 1 else 0) +
     bufs_of (unat (skb_headlen k)) + (\<Sum>f\<leftarrow>frags k. bufs_of (unat f))"

lemma prep_pkt:
  "tx_attr (mac_prep_tx_pkt r k no_pkt) (1, 1) \<longleftrightarrow> mac_is_tso k"
  "tx_attr (mac_prep_tx_pkt r k no_pkt) (2, 1) \<longleftrightarrow> vlan_tag k \<noteq> None"
  "desc_count (mac_prep_tx_pkt r k no_pkt) = word_of_nat (prep_count r k)"
proof -
  have cong: "tx_attr (q\<lparr>desc_count := x\<rparr>) f = tx_attr q f" "tx_attr (q\<lparr>pkt_skb := y, desc_count := z, tx_packets := u, tx_bytes := v\<rparr>) f = tx_attr q f"
    "tx_attr (q\<lparr>pkt_skb := y, tx_packets := u, tx_bytes := v\<rparr>) f = tx_attr q f"
    for q x y z u v f by (simp_all add: tx_attr_def)
  have no: "\<not> tx_attr no_pkt f" for f by (simp add: tx_attr_def no_pkt_def MAC_GET_REG_BITS_def)
  have set: "tx_attr (set_attr (m, Suc 0) q) (n, Suc 0) \<longleftrightarrow> m = n \<or> tx_attr q (n, Suc 0)" if "m < 32" "n < 32" for m n q
    using tx_attr_set [OF that] by simp
  show "tx_attr (mac_prep_tx_pkt r k no_pkt) (1, 1) \<longleftrightarrow> mac_is_tso k"
    "tx_attr (mac_prep_tx_pkt r k no_pkt) (2, 1) \<longleftrightarrow> vlan_tag k \<noteq> None"
    by (simp_all add: mac_prep_tx_pkt_def Let_def cong no set split: option.split)
  have dc: "desc_count (set_attr f q) = desc_count q" for f q by (simp add: set_attr_def)
  show "desc_count (mac_prep_tx_pkt r k no_pkt) = word_of_nat (prep_count r k)"
    by (cases "vlan_tag k") (auto simp: mac_prep_tx_pkt_def Let_def dc count_frags count_bufs_eq prep_count_def tso_tag_def
        vlan_tag_new_def no_pkt_def)
qed

lemma sum_bufs_bound: "(\<Sum>f\<leftarrow>fs. bufs_of (unat (f :: u32))) \<le> length fs * 263173"
  by (induction fs) (auto intro: add_mono bufs_of_u32)

lemma prep_count_small:
  assumes "skb_ok k"
  shows "prep_count r k < 2 ^ 32"
proof -
  have "(\<Sum>f\<leftarrow>frags k. bufs_of (unat f)) \<le> 17 * 263173"
    using sum_bufs_bound [of "frags k"] assms by (simp add: skb_ok_def)
  then show ?thesis using bufs_of_u32 [of "skb_headlen k"] by (simp add: prep_count_def)
qed

text \<open>The packet information when the packet is mapped.\<close>

definition prepared :: "mac_ring \<Rightarrow> sk_buff \<Rightarrow> mac_pkt_info \<Rightarrow> bool" where
  "prepared r k q \<longleftrightarrow> (tx_attr q (1, 1) \<longleftrightarrow> mac_is_tso k) \<and> (tx_attr q (2, 1) \<longleftrightarrow> vlan_tag k \<noteq> None) \<and>
     (mac_is_tso k \<longrightarrow> header_len q = packet_header k \<and> mss q = gso_size k) \<and>
     (\<forall>v. vlan_tag k = Some v \<longrightarrow> vlan_ctag q = v)"

text \<open>The buffers of a packet, as its \<open>sk_buff\<close> has them: the header of a large send, the linear part, the fragments.\<close>

definition skb_areas :: "sk_buff \<Rightarrow> (u32 \<times> bool) list" where
  "skb_areas k =
     (if mac_is_tso k then (packet_header k, False) # area False (unat (skb_headlen k - packet_header k))
      else area False (unat (skb_headlen k))) @ concat (map (area True \<circ> unat) (frags k))"

lemma prepared_areas: "prepared r k q \<Longrightarrow> packet_areas k q = skb_areas k"
  by (auto simp: prepared_def packet_areas_def skb_areas_def)

lemma prepared_after:
  assumes "mac_prep_tso E k (mac_prep_tx_pkt r k no_pkt, s) = (0, q, s')"
  shows "prepared r k (mac_prep_vlan k q)"
proof -
  have cong: "tx_attr (p\<lparr>header_len := a, tcp_header_len := b, tcp_payload_len := c, mss := d, tx_packets := e, tx_bytes := g\<rparr>) f = tx_attr p f"
    "tx_attr (p\<lparr>vlan_ctag := h\<rparr>) f = tx_attr p f" for p a b c d e f g h
    by (simp_all add: tx_attr_def)
  show ?thesis
    using assms prep_pkt(1,2) [of r k]
    by (cases "vlan_tag k") (auto simp: prepared_def mac_prep_tso_def mac_prep_vlan_def Let_def packet_header_def cong split: if_splits prod.splits)
qed

lemma prepared_room:
  assumes "prepared r k q" "skb_ok k" "skb_len k \<noteq> 0"
  shows "needs_context (r\<lparr>pkt_info := q\<rparr>) + length (packet_areas k q) \<le> prep_count r k" "packet_areas k q \<noteq> []"
proof -
  have c: "needs_context (r\<lparr>pkt_info := q\<rparr>) = (if tso_tag r k \<or> vlan_tag_new r k then 1 else 0)"
    using assms(1) by (auto simp: needs_context_def tso_context_def vlan_context_def prepared_def tso_tag_def vlan_tag_new_def)
  have f: "length (concat (map (area True \<circ> unat) fs)) = (\<Sum>f\<leftarrow>fs. bufs_of (unat f))" for fs :: "u32 list"
    by (induction fs) simp_all
  have h: "bufs_of (unat (skb_headlen k - header_len q)) \<le> bufs_of (unat (skb_headlen k))" if "mac_is_tso k"
  proof -
    have "header_len q \<le> skb_headlen k" using that assms(1,2) by (simp add: prepared_def skb_ok_def)
    then show ?thesis by (intro bufs_of_mono) (simp add: unat_sub)
  qed
  show "needs_context (r\<lparr>pkt_info := q\<rparr>) + length (packet_areas k q) \<le> prep_count r k"
    using assms(1) h c unfolding packet_areas_def prep_count_def by (simp add: f prepared_def)
  show "packet_areas k q \<noteq> []"
  proof
    assume "packet_areas k q = []"
    then have "length (packet_areas k q) = 0" by simp
    then have "\<not> mac_is_tso k" "bufs_of (unat (skb_headlen k)) = 0" "(\<Sum>f\<leftarrow>frags k. bufs_of (unat f)) = 0"
      using assms(1) unfolding packet_areas_def by (auto simp: f prepared_def split: if_splits)
    then show False using assms(2,3) by (auto simp: skb_ok_def unat_eq_zero)
  qed
qed

section \<open>Sending\<close>

lemma tx_other_fields [simp]:
  "tx_wf (r\<lparr>pkt_info := q\<rparr>) = tx_wf r" "pending (r\<lparr>pkt_info := q\<rparr>) = pending r" "tx_queue (r\<lparr>pkt_info := q\<rparr>) = tx_queue r"
  "tx_wf (r\<lparr>xmit_more := x\<rparr>) = tx_wf r" "pending (r\<lparr>xmit_more := x\<rparr>) = pending r" "tx_queue (r\<lparr>xmit_more := x\<rparr>) = tx_queue r"
  "tx_wf (r\<lparr>queue_stopped := y\<rparr>) = tx_wf r" "pending (r\<lparr>queue_stopped := y\<rparr>) = pending r" "tx_queue (r\<lparr>queue_stopped := y\<rparr>) = tx_queue r"
  "needs_context (r\<lparr>xmit_more := x\<rparr>) = needs_context r" "needs_context (r\<lparr>queue_stopped := y\<rparr>) = needs_context r"
  by (simp_all add: tx_wf_def pending_def tx_queue_def needs_context_def tso_context_def vlan_context_def)

lemma avail_room:
  assumes "tx_wf r" "n < 2 ^ 32"
  shows "word_of_nat n \<le> mac_tx_avail_desc r \<longleftrightarrow> pending r + n \<le> ring_size r"
proof -
  have p: "pending r \<le> ring_size r" using assms(1) by (simp add: tx_wf_def)
  have "unat (mac_tx_avail_desc r) = ring_size r - pending r"
    using p by (simp add: mac_tx_avail_desc_def ring_size_def pending_def unat_sub word_le_nat_alt)
  then show ?thesis using assms(2) p by (auto simp: word_le_nat_alt)
qed

text \<open>What happens before a packet is mapped.\<close>

fun prelude :: "event \<Rightarrow> bool" where
  "prelude (Eskb_cow b) = True"
| "prelude e = signal e"

lemma signal_prelude: "list_all signal ev \<Longrightarrow> list_all prelude ev"
proof (induction ev)
  case (Cons e ev)
  then show ?case by (cases e) auto
qed simp

lemma link_status_view: "mac_get_link_status E 0 s = (l, s1) \<Longrightarrow> \<exists>ev. trace s1 = ev @ trace s \<and> list_all signal ev"
  by (auto simp: mac_get_link_status_def mac_reg_read_def reg_read_def readl_def Let_def)

lemma prep_tso_view:
  "mac_prep_tso E k (q, s) = (ret, q', s') \<Longrightarrow> \<exists>ev. trace s' = ev @ trace s \<and> list_all prelude ev"
  "mac_prep_tso E k (q, s) = (ret, q', s') \<Longrightarrow> ret = 0 \<or> ret = - ENOMEM \<and> \<not> (\<forall>h. alloc_ok E h)"
  by (auto simp: mac_prep_tso_def skb_cow_head_def Let_def split: if_splits)

text \<open>
  How a call of \<open>mac_xmit\<close> ends, in the queue and in the history: refused, dropped, or sent from
  descriptor \<open>f\<close> on.
\<close>

definition refused :: "tx_item list \<Rightarrow> tx_item list \<Rightarrow> int \<Rightarrow> event list \<Rightarrow> bool" where
  "refused q q' ret ev \<longleftrightarrow> q' = q \<and> (ret = 1 \<or> ret = NETDEV_TX_BUSY) \<and> list_all signal ev"

definition dropped :: "sk_buff \<Rightarrow> tx_item list \<Rightarrow> tx_item list \<Rightarrow> int \<Rightarrow> event list \<Rightarrow> bool" where
  "dropped k q q' ret ev \<longleftrightarrow> q' = q \<and> (ret = NETDEV_TX_OK \<or> ret = - ENOMEM) \<and>
     (\<exists>pre bufs. list_all prelude pre \<and>
        (ev = Efree_skb (skb_id k) # pre \<or>
         ev = Efree_skb (skb_id k) # taken_back bufs @ Edma_fail # rev (map emap bufs) @ pre))"

definition sent :: "mac_channel \<Rightarrow> sk_buff \<Rightarrow> nat \<Rightarrow> tx_item list \<Rightarrow> tx_item list \<Rightarrow> int \<Rightarrow> event list \<Rightarrow> bool" where
  "sent ch k f q q' ret ev \<longleftrightarrow> ret = NETDEV_TX_OK \<and>
     (\<exists>tso vlan ic i bufs late early v pre. map snd bufs = skb_areas k \<and> bufs \<noteq> [] \<and>
        q' = q @ packet_items tso vlan ic i (skb_id k) bufs \<and>
        ev = late @ Edesc f 3 v # Ewmb # early @ Equeue_sent (queue_index ch) (tx_bytes i) # rev (map emap bufs) @ pre \<and>
        list_all signal late \<and> bit v 31 \<and> (\<exists>A. stores early A) \<and> quiet early f \<and> list_all prelude pre)"

text \<open>
  The events of one call. The unwinding of a failed mapping is cut short when the packet's
  descriptors, as \<open>mac_prep_tx_pkt\<close> counts them, reach the end of the 32-bit counter: the loop of
  \<open>mac_map_tx_skb\<close> compares the wrapped counter with the one before.
\<close>

definition new_events :: "kern \<Rightarrow> kern \<Rightarrow> event list" where
  "new_events s s' = take (length (trace s') - length (trace s)) (trace s')"

lemma new_events_eq: "trace s' = ev @ trace s \<Longrightarrow> new_events s s' = ev"
  by (simp add: new_events_def)

definition cut_short :: "mac_ring \<Rightarrow> sk_buff \<Rightarrow> event list \<Rightarrow> bool" where
  "cut_short r k ev \<longleftrightarrow> Edma_fail \<in> set ev \<and> 2 ^ 32 \<le> unat (cur r) + unat (desc_count (mac_prep_tx_pkt r k no_pkt))"

lemma xmit_mapped_view:
  assumes "tx_wf (tx_ring t)" "prepared r0 k (pkt_info (tx_ring t))" "skb_ok k" "skb_len k \<noteq> 0"
    "needs_context (tx_ring t) + length (packet_areas k (pkt_info (tx_ring t))) + pending (tx_ring t) \<le> ring_size (tx_ring t)"
    "(\<forall>h. alloc_ok E h) \<or> unat (cur (tx_ring t)) + needs_context (tx_ring t) + length (packet_areas k (pkt_info (tx_ring t))) < 2 ^ 32 \<or>
      Edma_fail \<notin> set (new_events s s')"
    "xmit_mapped E X p ch k (t, s) = (ret, t', s')"
  shows "tx_wf (tx_ring t') \<and> ring_size (tx_ring t') = ring_size (tx_ring t) \<and>
    (\<exists>ev. trace s' = ev @ trace s \<and>
       (sent ch k (ridx (tx_ring t) (cur (tx_ring t))) (tx_queue (tx_ring t)) (tx_queue (tx_ring t')) ret ev \<or>
        dropped k (tx_queue (tx_ring t)) (tx_queue (tx_ring t')) ret ev \<and> \<not> (\<forall>h. alloc_ok E h)))"
proof -
  let ?r = "tx_ring t" and ?W = "packet_areas k (pkt_info (tx_ring t))"
  have W: "?W \<noteq> []" using prepared_room(2) assms(2-4) by blast
  have room: "pending ?r + needs_context ?r + length ?W \<le> ring_size ?r" using assms(5) by simp
  obtain n r1 s1 where m: "mac_map_tx_skb E k (?r, s) = (n, r1, s1)" by (metis prod_cases3)
  show ?thesis
  proof (cases "n = 0")
    case False
    note v = xmit_mapped_success [OF assms(1) room W m False assms(7)]
    moreover have "?W = skb_areas k" by (rule prepared_areas [OF assms(2)])
    ultimately obtain ic bufs late early v where o: "map snd bufs = ?W" "?W = skb_areas k"
      "tx_queue (tx_ring t') = tx_queue ?r @ packet_items (tso_context ?r) (vlan_context ?r) ic
         ((pkt_info ?r)\<lparr>desc_count := word_of_nat (needs_context ?r + length ?W), pkt_length := total bufs\<rparr>) (skb_id k) bufs"
      "trace s' = late @ Edesc (ridx ?r (cur ?r)) 3 v # Ewmb # early @
            Equeue_sent (queue_index ch) (tx_bytes (pkt_info ?r)) # rev (map emap bufs) @ trace s"
      "list_all signal late" "bit v 31" "\<exists>A. stores early A" "quiet early (ridx ?r (cur ?r))" by blast
    let ?i = "(pkt_info ?r)\<lparr>desc_count := word_of_nat (needs_context ?r + length ?W), pkt_length := total bufs\<rparr>"
    let ?ev = "late @ Edesc (ridx ?r (cur ?r)) 3 v # Ewmb # early @
            Equeue_sent (queue_index ch) (tx_bytes (pkt_info ?r)) # rev (map emap bufs) @ []"
    have "sent ch k (ridx ?r (cur ?r)) (tx_queue ?r) (tx_queue (tx_ring t')) ret ?ev"
      unfolding sent_def
      by (rule conjI, use v in simp, rule exI [of _ "tso_context ?r"], rule exI [of _ "vlan_context ?r"], rule exI [of _ ic],
          rule exI [of _ ?i], rule exI [of _ bufs], rule exI [of _ late], rule exI [of _ early],
          rule exI [of _ v], rule exI [of _ "[]"]) (use o W in auto)
    moreover have "trace s' = ?ev @ trace s" using o(4) by simp
    ultimately show ?thesis using v by blast
  next
    case True
    then have m0: "mac_map_tx_skb E k (?r, s) = (0, r1, s1)" using m by simp
    have sh: "ring_shape ?r" and to: "\<forall>j < ring_size ?r. tx_only (ent_data ?r (cur ?r) j)"
      using assms(1) tx_only_cur by (auto simp: tx_wf_def)
    have "needs_context ?r + length ?W \<le> ring_size ?r" using room by simp
    then obtain bk bs where f: "\<not> (\<forall>h. alloc_ok E h)" "trace s1 = bk @ Edma_fail # bs @ trace s"
      using map_tx_skb_failure [OF sh _ W to m0] by blast
    then have na: "\<not> (\<forall>h. alloc_ok E h)" by simp
    have "trace s' = (Efree_skb (skb_id k) # bk @ Edma_fail # bs) @ trace s"
      using assms(7) m0 f(2) by (auto simp: xmit_mapped_def)
    then have "Edma_fail \<in> set (new_events s s')" by (simp add: new_events_eq)
    then have nw: "unat (cur ?r) + needs_context ?r + length ?W < 2 ^ 32" using assms(6) na by blast
    note v = xmit_mapped_failure [OF assms(1) room W nw m0 assms(7)]
    then obtain bufs where tr: "trace s' = (Efree_skb (skb_id k) # taken_back bufs @ Edma_fail # rev (map emap bufs) @ []) @ trace s" by auto
    have "dropped k (tx_queue ?r) (tx_queue (tx_ring t')) ret (Efree_skb (skb_id k) # taken_back bufs @ Edma_fail # rev (map emap bufs) @ [])"
      using v unfolding dropped_def by (intro conjI exI [of _ "[]"] exI [of _ bufs]) auto
    then show ?thesis using v na tr by blast
  qed
qed

text \<open>Events that come before do not change how the call ends.\<close>

lemma sent_after:
  assumes "sent ch k f q q' ret ev" "list_all prelude pre"
  shows "sent ch k f q q' ret (ev @ pre)"
proof -
  obtain tso vlan ic i bufs late early v pre' where o: "ret = NETDEV_TX_OK" "map snd bufs = skb_areas k" "bufs \<noteq> []"
    "q' = q @ packet_items tso vlan ic i (skb_id k) bufs"
    "ev = late @ Edesc f 3 v # Ewmb # early @ Equeue_sent (queue_index ch) (tx_bytes i) # rev (map emap bufs) @ pre'"
    "list_all signal late" "bit v 31" "\<exists>A. stores early A" "quiet early f" "list_all prelude pre'"
    using assms(1) unfolding sent_def
    by (elim exE conjE) (rule that, assumption+, erule exI, assumption+)
  show ?thesis unfolding sent_def
    by (intro conjI exI [of _ tso] exI [of _ vlan] exI [of _ ic] exI [of _ i] exI [of _ bufs] exI [of _ late] exI [of _ early]
        exI [of _ v] exI [of _ "pre' @ pre"]) (use o assms(2) in simp_all)
qed

lemma dropped_after:
  assumes "dropped k q q' ret ev" "list_all prelude pre"
  shows "dropped k q q' ret (ev @ pre)"
proof -
  obtain pre' bufs where o: "list_all prelude pre'" "ev = Efree_skb (skb_id k) # pre' \<or>
      ev = Efree_skb (skb_id k) # taken_back bufs @ Edma_fail # rev (map emap bufs) @ pre'"
    using assms(1) unfolding dropped_def by blast
  show ?thesis using assms o unfolding dropped_def by (intro conjI exI [of _ "pre' @ pre"] exI [of _ bufs]) auto
qed

lemma xmit_outcome_uncut:
  assumes "tx_wf (tx_ring t)" "skb_ok k"
    "unat (cur (tx_ring t)) + ring_size (tx_ring t) < 2 ^ 32 \<or> (\<forall>h. alloc_ok E h) \<or>
      \<not> cut_short (tx_ring t) k (new_events s s')"
    "mac_xmit E X p ch k (t, s) = (ret, t', s')"
  shows "tx_wf (tx_ring t') \<and> ring_size (tx_ring t') = ring_size (tx_ring t) \<and>
    (\<exists>ev. trace s' = ev @ trace s \<and>
       (refused (tx_queue (tx_ring t)) (tx_queue (tx_ring t')) ret ev \<or>
        dropped k (tx_queue (tx_ring t)) (tx_queue (tx_ring t')) ret ev \<or>
        sent ch k (ridx (tx_ring t) (cur (tx_ring t))) (tx_queue (tx_ring t)) (tx_queue (tx_ring t')) ret ev)) \<and>
    (fst (mac_get_link_status E 0 s) = 0 \<and> skb_len k \<noteq> 0 \<and> (\<forall>h. alloc_ok E h) \<and>
       pending (tx_ring t) + prep_count (tx_ring t) k \<le> ring_size (tx_ring t) \<longrightarrow>
     (\<exists>ev. trace s' = ev @ trace s \<and> sent ch k (ridx (tx_ring t) (cur (tx_ring t))) (tx_queue (tx_ring t)) (tx_queue (tx_ring t')) ret ev))"
proof -
  let ?r = "tx_ring t"
  obtain l s1 where 1: "mac_get_link_status E 0 s = (l, s1)" by fastforce
  obtain ev1 where ev1: "trace s1 = ev1 @ trace s" "list_all signal ev1" using link_status_view [OF 1] by blast
  let ?t1 = "set_pkt (mac_prep_tx_pkt ?r k no_pkt) t"
  consider (down) "l \<noteq> 0" | (empty) "l = 0" "skb_len k = 0" | (go) "l = 0" "skb_len k \<noteq> 0" by blast
  then show ?thesis
  proof cases
    case down
    then have "ret = 1 \<and> t' = t \<and> s' = s1" using assms(4) 1 by (simp add: mac_xmit_def)
    then show ?thesis using assms(1) ev1 1 down by (auto simp: refused_def)
  next
    case empty
    then have "ret = NETDEV_TX_OK \<and> t' = t \<and> s' = emit (Efree_skb (skb_id k)) s1" using assms(4) 1 by (simp add: mac_xmit_def)
    moreover have "dropped k (tx_queue ?r) (tx_queue ?r) NETDEV_TX_OK (Efree_skb (skb_id k) # ev1)"
      using signal_prelude [OF ev1(2)] by (auto simp: dropped_def)
    ultimately show ?thesis using assms(1) ev1 empty by auto
  next
    case go
    obtain ret2 t2 s2 where 2: "mac_maybe_stop_tx_queue p ch (word_of_nat (prep_count ?r k)) (?t1, s1) = (ret2, t2, s2)"
      by (metis prod_cases3)
    note v2 = maybe_stop_view [OF 2]
    obtain ev2 where ev2: "trace s2 = ev2 @ trace s1" "list_all signal ev2" using v2 by blast
    have run: "mac_xmit E X p ch k (t, s) = (if ret2 \<noteq> 0 then (ret2, t2, s2) else xmit_prepared E X p ch k (t2, s2))"
      using 1 2 go prep_pkt(3) [of ?r k] by (simp add: mac_xmit_def set_pkt_def)
    have room: "ret2 = 0 \<longleftrightarrow> pending ?r + prep_count ?r k \<le> ring_size ?r"
      using v2 avail_room [OF assms(1) prep_count_small [OF assms(2)]] by (simp add: set_pkt_def mac_tx_avail_desc_def)
    show ?thesis
    proof (cases "ret2 = 0")
      case False
      then have e: "ret = NETDEV_TX_BUSY" "t' = t2" "s' = s2" using assms(4) run 2 by (auto simp: mac_maybe_stop_tx_queue_def Let_def split: if_splits prod.splits)
      obtain x y where "tx_ring t2 = (tx_ring ?t1)\<lparr>xmit_more := x, queue_stopped := y\<rparr>" using v2 by blast
      then have "tx_wf (tx_ring t') \<and> ring_size (tx_ring t') = ring_size ?r \<and> tx_queue (tx_ring t') = tx_queue ?r"
        using e assms(1) by (simp add: set_pkt_def)
      then show ?thesis using e ev1 ev2 room False by (auto simp: refused_def)
    next
      case True
      then have t2: "tx_ring t2 = ?r\<lparr>pkt_info := mac_prep_tx_pkt ?r k no_pkt\<rparr>" using v2 by (simp add: set_pkt_def)
      obtain ret3 q s3 where 3: "mac_prep_tso E k (mac_prep_tx_pkt ?r k no_pkt, s2) = (ret3, q, s3)" by (metis prod_cases3)
      obtain ev3 where ev3: "trace s3 = ev3 @ trace s2" "list_all prelude ev3" using prep_tso_view(1) [OF 3] by blast
      have pre: "list_all prelude (ev3 @ ev2 @ ev1)" using ev3(2) signal_prelude ev1(2) ev2(2) by simp
      show ?thesis
      proof (cases "ret3 = 0")
        case False
        then have e: "ret = ret3" "tx_ring t' = ?r\<lparr>pkt_info := q\<rparr>" "s' = emit (Efree_skb (skb_id k)) s3"
          using assms(4) run True 3 t2 by (auto simp: xmit_prepared_def set_pkt_def)
        have "dropped k (tx_queue ?r) (tx_queue ?r) ret (Efree_skb (skb_id k) # ev3 @ ev2 @ ev1)"
          using pre e(1) False prep_tso_view(2) [OF 3] unfolding dropped_def
          by (intro conjI exI [of _ "ev3 @ ev2 @ ev1"] exI [of _ "[]"]) auto
        then show ?thesis using e assms(1) ev1 ev2 ev3 False prep_tso_view(2) [OF 3] by auto
      next
        case ok: True
        let ?t3 = "set_pkt (mac_prep_vlan k q) t2"
        have run3: "xmit_mapped E X p ch k (?t3, s3) = (ret, t', s')" using assms(4) run True 3 ok t2 by (simp add: xmit_prepared_def)
        have r3: "tx_ring ?t3 = ?r\<lparr>pkt_info := mac_prep_vlan k q\<rparr>" using t2 by (simp add: set_pkt_def)
        have pr: "prepared ?r k (mac_prep_vlan k q)" using prepared_after 3 ok by blast
        let ?n = "needs_context (?r\<lparr>pkt_info := mac_prep_vlan k q\<rparr>) + length (packet_areas k (mac_prep_vlan k q))"
        have n: "?n \<le> prep_count ?r k" by (rule prepared_room(1) [OF pr assms(2) go(2)])
        then have fit: "?n + pending ?r \<le> ring_size ?r" using True room by simp
        have dc: "unat (desc_count (mac_prep_tx_pkt ?r k no_pkt)) = prep_count ?r k"
          using prep_count_small [OF assms(2), of ?r] by (simp add: prep_pkt(3) unat_u32_of_nat)
        have mono: "Edma_fail \<in> set (new_events s3 s') \<Longrightarrow> Edma_fail \<in> set (new_events s s')"
          unfolding new_events_def by (rule subsetD [OF set_take_subset_set_take]) (simp_all add: ev1(1) ev2(1) ev3(1))
        have nw: "(\<forall>h. alloc_ok E h) \<or> unat (cur ?r) + ?n < 2 ^ 32 \<or> Edma_fail \<notin> set (new_events s3 s')"
          using assms(3) n fit dc mono by (auto simp: cut_short_def)
        note v3 = xmit_mapped_view [OF _ _ assms(2) go(2) _ _ run3, unfolded r3, simplified, OF assms(1) pr]
        have "tx_wf (tx_ring t') \<and> ring_size (tx_ring t') = ring_size ?r \<and>
            (\<exists>ev. trace s' = ev @ trace s3 \<and> (sent ch k (ridx ?r (cur ?r)) (tx_queue ?r) (tx_queue (tx_ring t')) ret ev \<or>
               dropped k (tx_queue ?r) (tx_queue (tx_ring t')) ret ev \<and> (\<exists>h. \<not> alloc_ok E h)))"
          using v3 [OF fit] nw by (simp add: add.assoc)
        then obtain ev where ev: "trace s' = ev @ trace s3" "tx_wf (tx_ring t')" "ring_size (tx_ring t') = ring_size ?r"
          "sent ch k (ridx ?r (cur ?r)) (tx_queue ?r) (tx_queue (tx_ring t')) ret ev \<or>
           dropped k (tx_queue ?r) (tx_queue (tx_ring t')) ret ev \<and> (\<exists>h. \<not> alloc_ok E h)" by blast
        have "trace s' = (ev @ ev3 @ ev2 @ ev1) @ trace s" using ev(1) ev1 ev2 ev3 by simp
        then show ?thesis using ev sent_after [OF _ pre] dropped_after [OF _ pre] by metis
      qed
    qed
  qed
qed

lemma xmit_outcome:
  assumes "tx_wf (tx_ring t)" "skb_ok k"
    "unat (cur (tx_ring t)) + ring_size (tx_ring t) < 2 ^ 32 \<or> (\<forall>h. alloc_ok E h)"
    "mac_xmit E X p ch k (t, s) = (ret, t', s')"
  shows "tx_wf (tx_ring t') \<and> ring_size (tx_ring t') = ring_size (tx_ring t) \<and>
    (\<exists>ev. trace s' = ev @ trace s \<and>
       (refused (tx_queue (tx_ring t)) (tx_queue (tx_ring t')) ret ev \<or>
        dropped k (tx_queue (tx_ring t)) (tx_queue (tx_ring t')) ret ev \<or>
        sent ch k (ridx (tx_ring t) (cur (tx_ring t))) (tx_queue (tx_ring t)) (tx_queue (tx_ring t')) ret ev)) \<and>
    (fst (mac_get_link_status E 0 s) = 0 \<and> skb_len k \<noteq> 0 \<and> (\<forall>h. alloc_ok E h) \<and>
       pending (tx_ring t) + prep_count (tx_ring t) k \<le> ring_size (tx_ring t) \<longrightarrow>
     (\<exists>ev. trace s' = ev @ trace s \<and> sent ch k (ridx (tx_ring t) (cur (tx_ring t))) (tx_queue (tx_ring t)) (tx_queue (tx_ring t')) ret ev))"
  by (rule xmit_outcome_uncut [OF assms(1,2) _ assms(4)]) (use assms(3) in blast)

end
