(* ===== verification/Tx_Correct.thy ===== *)
theory Tx_Correct
  imports Xmit_Run
begin

text \<open>
  What the stack and the card can rely on when they share a transmit ring: packets appear whole and
  in order, completion takes them off the front, and every buffer and mapping comes back once.
\<close>

section \<open>The words of a packet's descriptors\<close>

fun avoids :: "nat \<Rightarrow> store \<Rightarrow> bool" where
  "avoids b (Word n v) = (n < 3)"
| "avoids b (Field n f x) = (n < 3 \<or> b < fst f \<or> fst f + snd f \<le> b)"

lemma avoids_after: "\<forall>w \<in> set ws. avoids b w \<Longrightarrow> b < 32 \<Longrightarrow> bit (desc3 (desc_after ws d)) b = bit (desc3 d) b"
proof (induction ws arbitrary: d)
  case (Cons w ws)
  have "bit (desc3 (set_word (store_word w) (store_value w d) d)) b = bit (desc3 d) b"
    using Cons.prems by (cases w) (auto simp: set_word_def get_word_def bit_MAC_SET)
  then show ?case using Cons by simp
qed simp

lemma field_after:
  assumes "p \<le> b" "b < p + l" "b < 32" "\<forall>w \<in> set ws. avoids b w"
  shows "bit (desc3 (desc_after (Field 3 (p, l) v # ws) d)) b = bit v (b - p)"
  using assms by (simp add: avoids_after set_word_def get_word_def bit_MAC_SET)

lemma avoids_last: "\<forall>w \<in> set (context_stores tso vlan q). avoids 28 w" "\<forall>w \<in> set (first_stores b q d). avoids 28 w"
    "\<forall>w \<in> set (next_stores q d). avoids 28 w"
  by (auto simp: context_stores_def first_stores_def next_stores_def buffer_stores_def)

lemma last_stores_last: "bit (desc3 (desc_after (last_stores ic) d)) 28"
proof -
  have "\<forall>w \<in> set (if ic then [Field 2 TX_NORMAL_DESC2_IC 1] else []). avoids 28 w" by simp
  then show ?thesis unfolding last_stores_def using field_after [of 28 28 1 _ 1 d] by simp
qed

lemma last_desc_bit: "mac_is_last_desc d \<noteq> 0 \<longleftrightarrow> bit (desc3 d) 28"
  unfolding mac_is_last_desc_def desc_bits_def bit_eq_iff [of "MAC_GET_REG_BITS (get_word 3 d) TX_NORMAL_DESC3_LD"]
  by (auto simp: bit_MAC_GET get_word_def)

lemma complete_own: "mac_tx_complete d \<longleftrightarrow> \<not> own d"
  unfolding mac_tx_complete_def desc_bits_def own_def bit_eq_iff [of "MAC_GET_REG_BITS (get_word 3 d) TX_NORMAL_DESC3_OWN"]
  by (auto simp: bit_MAC_GET get_word_def dest: spec [of _ 0])

lemma sent_desc_last:
  assumes "n < N"
  shows "mac_is_last_desc (sent_desc tso vlan ic q N D (\<lambda>_. no_desc) n) \<noteq> 0 \<longleftrightarrow> n = N - 1"
proof -
  have a: "bit (desc3 (desc_after ws no_desc)) 28 \<longleftrightarrow> False" if "\<forall>w \<in> set ws. avoids 28 w" for ws
    using avoids_after [OF that, of no_desc] by (simp add: no_desc_def)
  have o: "bit (desc3 (desc_after [Field 3 TX_NORMAL_DESC3_OWN 1] d)) 28 = bit (desc3 d) 28" for d
    by (rule avoids_after) simp_all
  have "bit (desc3 (packet_desc tso vlan ic q N D (\<lambda>_. no_desc) n)) 28 \<longleftrightarrow> n = N - 1"
    using assms a avoids_last last_stores_last unfolding packet_desc_def Let_def by (auto simp: no_desc_def)
  then show ?thesis unfolding last_desc_bit sent_desc_def Let_def using o by (cases "n = 0") (auto simp del: desc_after_simps)
qed

lemma own_after:
  assumes "ws = xs @ Field 3 TX_NORMAL_DESC3_OWN 1 # ys" "\<forall>w \<in> set ys. avoids 31 w"
  shows "own (desc_after ws d)"
  using field_after [of 31 31 1 ys 1 "desc_after xs d"] assms by (simp add: own_def)

lemma first_stores_own: "own (desc_after (first_stores True q d) e)"
proof (rule own_after)
  let ?ys = "if tx_attr q TX_PACKET_ATTRIBUTES_TSO_ENABLE
      then [Field 3 TX_NORMAL_DESC3_TSE 1, Field 3 TX_NORMAL_DESC3_TCPPL (tcp_payload_len q),
            Field 3 TX_NORMAL_DESC3_TCPHDRLEN (tcp_header_len q div 4)]
      else [Field 3 TX_NORMAL_DESC3_CPC 0] @
           (if tx_attr q TX_PACKET_ATTRIBUTES_CSUM_ENABLE then [Field 3 TX_NORMAL_DESC3_CIC 3] else []) @
           [Field 3 TX_NORMAL_DESC3_FL (pkt_length q)]"
  show "first_stores True q d = (buffer_stores d @
     (if tx_attr q TX_PACKET_ATTRIBUTES_VLAN_CTAG then [Field 2 TX_NORMAL_DESC2_VTIR TX_NORMAL_DESC2_VLAN_INSERT] else []) @
     (if tx_attr q TX_PACKET_ATTRIBUTES_PTP then [Field 2 TX_NORMAL_DESC2_TTSE 1] else []) @
     [Field 3 TX_NORMAL_DESC3_FD 1, Field 3 TX_NORMAL_DESC3_CTXT 0]) @ Field 3 TX_NORMAL_DESC3_OWN 1 # ?ys"
    by (simp add: first_stores_def)
  show "\<forall>w \<in> set ?ys. avoids 31 w" by auto
qed

lemma next_stores_own: "own (desc_after (next_stores q d) e)"
  by (rule own_after [of _ "buffer_stores d" "Field 3 TX_NORMAL_DESC3_CTXT 0 #
     (if tx_attr q TX_PACKET_ATTRIBUTES_CSUM_ENABLE then [Field 3 TX_NORMAL_DESC3_CIC 3] else [])"])
    (auto simp: next_stores_def)

lemma sent_desc_own:
  assumes "n < N"
  shows "own (sent_desc tso vlan ic q N D d n)"
proof (cases "n = 0")
  case True
  then show ?thesis
    using own_after [of "[Field 3 TX_NORMAL_DESC3_OWN 1]" "[]" "[]"] by (simp add: sent_desc_def Let_def del: desc_after_simps)
next
  case False
  have l: "own (desc_after (last_stores ic) e) = own e" for e by (rule no_own_after) (simp add: no_own_last)
  have "own (packet_desc tso vlan ic q N D d n)"
    using False assms l first_stores_own next_stores_own unfolding packet_desc_def Let_def by auto
  then show ?thesis using False by (simp add: sent_desc_def)
qed

text \<open>The values that are there.\<close>

definition somes :: "'a option list \<Rightarrow> 'a list" where
  "somes xs = concat (map (\<lambda>x. case x of None \<Rightarrow> [] | Some y \<Rightarrow> [y]) xs)"

lemma somes_simps [simp]:
  "somes [] = []" "somes (None # xs) = somes xs" "somes (Some y # xs) = y # somes xs" "somes (xs @ ys) = somes xs @ somes ys"
  by (simp_all add: somes_def)

lemma somes_none: "\<forall>x \<in> set xs. x = None \<Longrightarrow> somes xs = []"
  by (induction xs) auto

lemma somes_if: "somes (map (\<lambda>b. if P b then None else Some b) bs) = filter (\<lambda>b. \<not> P b) bs"
  by (induction bs) auto

text \<open>The items of a packet: all of them the card's, one of them the last.\<close>

lemma packet_items_shape:
  fixes tso vlan ic :: bool and q :: mac_pkt_info and i :: nat
  assumes "bufs \<noteq> []"
  defines "xs \<equiv> packet_items tso vlan ic q i bufs"
  shows "length xs = (if tso \<or> vlan then 1 else 0) + length bufs"
    "\<forall>x \<in> set xs. own (item_desc x)"
    "\<forall>n < length xs. last_item (xs ! n) \<longleftrightarrow> n = length xs - 1"
    "\<forall>x \<in> set xs. item_skb x = (if last_item x then Some i else None) \<and>
       item_packets x = (if last_item x then tx_packets q else 0) \<and> item_bytes x = (if last_item x then tx_bytes q else 0)"
    "somes (map item_buf xs) = filter (\<lambda>b. fst b \<noteq> 0) bufs"
    "somes (map item_skb xs) = [i]"
    "sum_list (map item_bytes xs) = tx_bytes q" "sum_list (map item_packets xs) = tx_packets q"
proof -
  define c where "c = (if tso \<or> vlan then 1 else 0 :: nat)"
  define N where "N = c + length bufs"
  define D where "D = (\<lambda>n. if n < c then no_data else set_buf (bufs ! (n - c)) no_data)"
  define f where "f n = \<lparr>item_desc = sent_desc tso vlan ic q N D (\<lambda>_. no_desc) n,
                item_skb = (if n = N - 1 then Some i else None),
                item_buf = (if n < c \<or> fst (bufs ! (n - c)) = 0 then None else Some (bufs ! (n - c))),
                item_packets = (if n = N - 1 then tx_packets q else 0),
                item_bytes = (if n = N - 1 then tx_bytes q else 0)\<rparr>" for n
  have xs: "xs = map f [0..<N]"
    unfolding xs_def packet_items_def Let_def f_def D_def N_def c_def by (rule refl)
  have N: "0 < N" using assms(1) by (simp add: N_def)
  have last: "last_item (f n) \<longleftrightarrow> n = N - 1" if "n < N" for n
    using sent_desc_last [OF that] by (simp add: last_item_def f_def)
  have split: "xs = map f [0..<N - 1] @ [f (N - 1)]"
    using N unfolding xs by (metis Suc_diff_1 list.simps(8,9) map_append upt_Suc_append zero_le)
  show "length xs = (if tso \<or> vlan then 1 else 0) + length bufs" by (simp add: xs N_def c_def)
  show "\<forall>x \<in> set xs. own (item_desc x)" by (auto simp: xs f_def sent_desc_own)
  show "\<forall>n < length xs. last_item (xs ! n) \<longleftrightarrow> n = length xs - 1" using last by (simp add: xs)
  show "\<forall>x \<in> set xs. item_skb x = (if last_item x then Some i else None) \<and>
       item_packets x = (if last_item x then tx_packets q else 0) \<and> item_bytes x = (if last_item x then tx_bytes q else 0)"
    using last by (auto simp: xs) (auto simp: f_def)
  have "map item_buf (map f [c..<N]) = map (\<lambda>b. if fst b = 0 then None else Some b) bufs"
    by (intro nth_equalityI) (simp_all add: N_def f_def)
  moreover have "somes (map item_buf (map f [0..<c])) = []" by (rule somes_none) (auto simp: f_def)
  moreover have "[0..<N] = [0..<c] @ [c..<N]" unfolding N_def by (rule upt_add_eq_append) simp
  ultimately show "somes (map item_buf xs) = filter (\<lambda>b. fst b \<noteq> 0) bufs"
    unfolding xs by (simp only: map_append somes_simps append_Nil somes_if)
  have "somes (map item_skb (map f [0..<N - 1])) = []" by (rule somes_none) (auto simp: f_def)
  then show "somes (map item_skb xs) = [i]" unfolding split by (simp add: f_def)
  have "map item_bytes (map f [0..<N - 1]) = map (\<lambda>_. 0) [0..<N - 1]" "map item_packets (map f [0..<N - 1]) = map (\<lambda>_. 0) [0..<N - 1]"
    by (auto simp: f_def)
  then have "sum_list (map item_bytes (map f [0..<N - 1])) = 0" "sum_list (map item_packets (map f [0..<N - 1])) = 0"
    by (simp_all only: sum_list_0)
  then show "sum_list (map item_bytes xs) = tx_bytes q" "sum_list (map item_packets xs) = tx_packets q"
    unfolding split by (simp_all add: f_def)
qed

section \<open>Completion\<close>

lemma poll_outcome:
  assumes "tx_wf (tx_ring t)" "has_tx_ring ch" "mac_tx_poll ch (t, s) = (ret, t', s')"
  defines "q \<equiv> tx_queue (tx_ring t)"
  defines "j \<equiv> completed (unat MAC_TX_DESC_MAX_PROC) q"
  shows "ret = int j \<and> tx_wf (tx_ring t') \<and> ring_size (tx_ring t') = ring_size (tx_ring t) \<and> tx_queue (tx_ring t') = drop j q \<and>
    (queue_stopped (tx_ring t') \<longleftrightarrow> queue_stopped (tx_ring t) \<and>
       (j = 0 \<or> ring_size (tx_ring t) - (length q - j) \<le> unat MAC_TX_DESC_MIN_FREE)) \<and>
    (\<exists>ev. trace s' = (if j = 0 then [] else
          (if queue_stopped (tx_ring t) \<and> \<not> queue_stopped (tx_ring t') then [Equeue_wake (queue_index ch)] else []) @
          [Equeue_done (queue_index ch) (sum_last item_packets (take j q)) (sum_last item_bytes (take j q))]) @ ev @ trace s \<and>
       list_all poll_event ev \<and> filter gives ev = concat (rev (map item_events (take j q))))"
proof -
  obtain n pk "by" r s1 where 1: "tx_poll_loop (unat MAC_TX_DESC_MAX_PROC) (cur (tx_ring t)) (0, 0, 0, tx_ring t, s) = (n, pk, by, r, s1)"
    by (metis prod_cases5)
  note v = poll_loop_view [OF assms(1) 1, folded q_def, folded j_def]
  have size: "ring_size r = ring_size (tx_ring t)" using v by (simp add: ring_size_def)
  have len: "pending r = length q - j" using v by (metis length_drop length_map length_upt minus_nat.diff_0 tx_queue_def)
  have avail: "mac_tx_avail_desc r > MAC_TX_DESC_MIN_FREE \<longleftrightarrow> \<not> ring_size (tx_ring t) - (length q - j) \<le> unat MAC_TX_DESC_MIN_FREE"
  proof -
    have "pending r \<le> ring_size r" using v by (simp add: tx_wf_def)
    then have "unat (mac_tx_avail_desc r) = ring_size r - pending r"
      by (simp add: mac_tx_avail_desc_def ring_size_def pending_def unat_sub word_le_nat_alt)
    then show ?thesis using len size by (auto simp: word_less_nat_alt)
  qed
  show ?thesis
  proof (cases "j = 0")
    case True
    then have "ret = 0 \<and> t' = t\<lparr>tx_ring := r\<rparr> \<and> s' = s1" using assms(2,3) 1 v by (simp add: mac_tx_poll_def)
    then show ?thesis using v True size by auto
  next
    case False
    let ?wake = "queue_stopped r \<and> mac_tx_avail_desc r > MAC_TX_DESC_MIN_FREE"
    have "ret = int j \<and> t' = t\<lparr>tx_ring := (if ?wake then r\<lparr>queue_stopped := False\<rparr> else r)\<rparr> \<and>
        s' = (if ?wake then emit (Equeue_wake (queue_index ch)) (emit (Equeue_done (queue_index ch) pk by) s1)
              else emit (Equeue_done (queue_index ch) pk by) s1)"
      using assms(2,3) 1 v False by (auto simp: mac_tx_poll_def Let_def split: if_splits)
    then show ?thesis using v False size avail by auto
  qed
qed

section \<open>Accounts\<close>

text \<open>
  What the history says was mapped, taken back, freed, and reported to the byte limits of the
  queue. Every mapping counts, also one at bus address 0, which the driver takes for none.
\<close>

fun ev_map :: "event \<Rightarrow> buf option" where
  "ev_map (Edma_map a l page) = Some (a, l, page)"
| "ev_map _ = None"

fun ev_unmap :: "event \<Rightarrow> buf option" where
  "ev_unmap (Edma_unmap a l page) = Some (a, l, page)"
| "ev_unmap _ = None"

fun ev_free :: "event \<Rightarrow> nat option" where
  "ev_free (Efree_skb i) = Some i"
| "ev_free _ = None"

fun ev_bytes :: "event \<Rightarrow> u32" where
  "ev_bytes (Equeue_sent q n) = n"
| "ev_bytes (Equeue_done q m n) = - n"
| "ev_bytes _ = 0"

definition mapped_in :: "event list \<Rightarrow> buf multiset" where "mapped_in t = mset (somes (map ev_map t))"
definition unmapped_in :: "event list \<Rightarrow> buf multiset" where "unmapped_in t = mset (somes (map ev_unmap t))"
definition freed_in :: "event list \<Rightarrow> nat multiset" where "freed_in t = mset (somes (map ev_free t))"
definition bytes_in :: "event list \<Rightarrow> u32" where "bytes_in t = sum_list (map ev_bytes t)"

lemmas account_defs = mapped_in_def unmapped_in_def freed_in_def bytes_in_def

lemma accounts_append [simp]:
  "mapped_in (xs @ ys) = mapped_in xs + mapped_in ys" "unmapped_in (xs @ ys) = unmapped_in xs + unmapped_in ys"
  "freed_in (xs @ ys) = freed_in xs + freed_in ys" "bytes_in (xs @ ys) = bytes_in xs + bytes_in ys"
  by (simp_all add: account_defs)

lemma accounts_Nil [simp]: "mapped_in [] = {#}" "unmapped_in [] = {#}" "freed_in [] = {#}" "bytes_in [] = 0"
  by (simp_all add: account_defs)

lemma accounts_Cons:
  "mapped_in (e # t) = (case ev_map e of None \<Rightarrow> {#} | Some b \<Rightarrow> {#b#}) + mapped_in t"
  "unmapped_in (e # t) = (case ev_unmap e of None \<Rightarrow> {#} | Some b \<Rightarrow> {#b#}) + unmapped_in t"
  "freed_in (e # t) = (case ev_free e of None \<Rightarrow> {#} | Some b \<Rightarrow> {#b#}) + freed_in t"
  "bytes_in (e # t) = ev_bytes e + bytes_in t"
  by (simp_all add: account_defs split: option.split)

lemma freed_events: "freed_in ev = {#} \<Longrightarrow> Efree_skb i \<notin> set ev"
proof (induction ev)
  case (Cons e ev)
  then show ?case by (cases e) (simp_all add: accounts_Cons)
qed simp

lemma accounts_prelude:
  "list_all prelude ev \<Longrightarrow> mapped_in ev = {#} \<and> unmapped_in ev = {#} \<and> freed_in ev = {#} \<and> bytes_in ev = 0"
proof (induction ev)
  case (Cons e ev)
  then show ?case by (cases e) (simp_all add: accounts_Cons)
qed simp

lemma accounts_signal:
  "list_all signal ev \<Longrightarrow> mapped_in ev = {#} \<and> unmapped_in ev = {#} \<and> freed_in ev = {#} \<and> bytes_in ev = 0"
  using accounts_prelude signal_prelude by blast

lemma accounts_stores:
  "stores ev A \<Longrightarrow> mapped_in ev = {#} \<and> unmapped_in ev = {#} \<and> freed_in ev = {#} \<and> bytes_in ev = 0"
proof (induction ev)
  case (Cons e ev)
  then show ?case by (auto simp: accounts_Cons)
qed simp

lemma accounts_maps:
  "mapped_in (rev (map emap bufs)) = mset bufs \<and> unmapped_in (rev (map emap bufs)) = {#} \<and>
   freed_in (rev (map emap bufs)) = {#} \<and> bytes_in (rev (map emap bufs)) = 0"
  by (induction bufs) (auto simp: accounts_Cons emap_def)

lemma accounts_back:
  "unmapped_in (taken_back bufs) = mset (filter (\<lambda>b. fst b \<noteq> 0) bufs) \<and> mapped_in (taken_back bufs) = {#} \<and>
   freed_in (taken_back bufs) = {#} \<and> bytes_in (taken_back bufs) = 0"
  by (induction bufs) (auto simp: accounts_Cons eunmap_def taken_back_def)

lemma accounts_poll:
  "list_all poll_event ev \<Longrightarrow> mapped_in ev = {#} \<and> unmapped_in ev = unmapped_in (filter gives ev) \<and>
     freed_in ev = freed_in (filter gives ev) \<and> bytes_in ev = 0"
proof (induction ev)
  case (Cons e ev)
  then show ?case by (cases e) (simp_all add: accounts_Cons)
qed simp

lemma accounts_items:
  "unmapped_in (concat (rev (map item_events xs))) = mset (somes (map item_buf xs)) \<and>
   freed_in (concat (rev (map item_events xs))) = mset (somes (map item_skb xs))"
proof (induction xs)
  case (Cons x xs)
  then show ?case
    by (cases "item_skb x"; cases "item_buf x") (auto simp: item_events_def accounts_Cons eunmap_def split: prod.splits)
qed simp

text \<open>
  The books of a ring: what is mapped at a bus address other than 0 is taken back or pending, what
  the stack gave is freed or pending, and the bytes reported as sent are reported as done or pending.
\<close>

definition off_zero :: "buf multiset \<Rightarrow> buf multiset" where
  "off_zero M = filter_mset (\<lambda>b. fst b \<noteq> 0) M"

lemma off_zero_simps [simp]: "off_zero {#} = {#}" "off_zero (M + N) = off_zero M + off_zero N"
  "off_zero (mset bufs) = mset (filter (\<lambda>b. fst b \<noteq> 0) bufs)"
  by (simp_all add: off_zero_def)

definition books :: "nat list \<Rightarrow> tx_item list \<Rightarrow> event list \<Rightarrow> bool" where
  "books given q t \<longleftrightarrow>
     off_zero (mapped_in t) = unmapped_in t + mset (somes (map item_buf q)) \<and>
     mset given = freed_in t + mset (somes (map item_skb q)) \<and>
     bytes_in t = sum_list (map item_bytes q)"

definition items_ok :: "tx_item list \<Rightarrow> bool" where
  "items_ok q \<longleftrightarrow> (\<forall>x \<in> set q. item_bytes x \<noteq> 0 \<longrightarrow> last_item x)"

text \<open>A packet is the stack's again if \<open>mac_xmit\<close> refuses it.\<close>

definition taken :: "int \<Rightarrow> sk_buff \<Rightarrow> nat list" where
  "taken ret k = (if ret = 1 \<or> ret = NETDEV_TX_BUSY then [] else [skb_id k])"

lemma books_refused: "refused q q' ret ev \<Longrightarrow> books g q t \<Longrightarrow> books (g @ taken ret k) q' (ev @ t)"
  using accounts_signal [of ev] by (auto simp: refused_def books_def taken_def)

lemma books_dropped: "dropped k q q' ret ev \<Longrightarrow> books g q t \<Longrightarrow> books (g @ taken ret k) q' (ev @ t)"
  using accounts_prelude accounts_maps accounts_back
  by (auto simp: dropped_def books_def taken_def accounts_Cons ac_simps)

lemma books_sent:
  assumes "sent ch k f q q' ret ev" "books g q t"
  shows "books (g @ taken ret k) q' (ev @ t)"
proof -
  obtain tso vlan ic i bufs late early v pre A where o: "ret = NETDEV_TX_OK" "bufs \<noteq> []"
    "q' = q @ packet_items tso vlan ic i (skb_id k) bufs"
    "ev = late @ Edesc f 3 v # Ewmb # early @ Equeue_sent (queue_index ch) (tx_bytes i) # rev (map emap bufs) @ pre"
    "list_all signal late" "stores early A" "list_all prelude pre"
    using assms(1) unfolding sent_def by (elim exE conjE) (rule that, assumption+)
  show ?thesis
    using assms(2) accounts_signal [OF o(5)] accounts_stores [OF o(6)] accounts_prelude [OF o(7)] accounts_maps [of bufs]
      packet_items_shape(5-7) [OF o(2), of tso vlan ic i "skb_id k"]
    unfolding o(1,3,4) books_def taken_def by (simp add: accounts_Cons ac_simps)
qed

lemma items_ok_sent: "sent ch k f q q' ret ev \<Longrightarrow> items_ok q \<Longrightarrow> items_ok q'"
proof -
  assume a: "sent ch k f q q' ret ev" "items_ok q"
  then obtain tso vlan ic i bufs where o: "bufs \<noteq> []" "q' = q @ packet_items tso vlan ic i (skb_id k) bufs"
    unfolding sent_def by blast
  have "last_item x" if "x \<in> set (packet_items tso vlan ic i (skb_id k) bufs)" "item_bytes x \<noteq> 0" for x
    using packet_items_shape(4) [OF o(1), of tso vlan ic i "skb_id k"] that by (meson)
  then show "items_ok q'" using a(2) unfolding o(2) items_ok_def by auto
qed

lemma sum_last_all: "items_ok q \<Longrightarrow> sum_last item_bytes q = sum_list (map item_bytes q)"
  by (induction q) (auto simp: sum_last_def items_ok_def)

lemma items_ok_take_drop: "items_ok q \<Longrightarrow> items_ok (take j q) \<and> items_ok (drop j q)"
  by (auto simp: items_ok_def dest: in_set_takeD in_set_dropD)

lemma books_polled:
  assumes "books g q t" "items_ok q" "list_all poll_event ev" "filter gives ev = concat (rev (map item_events (take j q)))"
    "wake = [] \<or> wake = [Equeue_wake n]"
  shows "books g (drop j q) ((if j = 0 then [] else wake @ [Equeue_done n (sum_last item_packets (take j q)) (sum_last item_bytes (take j q))]) @ ev @ t)"
proof -
  have s: "somes (map f q) = somes (map f (take j q)) @ somes (map f (drop j q))" for f :: "tx_item \<Rightarrow> 'a option"
    by (metis append_take_drop_id map_append somes_simps(4))
  have b: "sum_list (map item_bytes q) = sum_list (map item_bytes (take j q)) + sum_list (map item_bytes (drop j q))"
    by (metis append_take_drop_id map_append sum_list_append)
  have l: "sum_last item_bytes (take j q) = sum_list (map item_bytes (take j q))"
    using items_ok_take_drop [OF assms(2)] by (simp add: sum_last_all)
  have e: "mapped_in ev = {#}" "unmapped_in ev = mset (somes (map item_buf (take j q)))"
    "freed_in ev = mset (somes (map item_skb (take j q)))" "bytes_in ev = 0"
    using accounts_poll [OF assms(3), unfolded assms(4)] accounts_items [of "take j q"] by simp_all
  let ?pre = "if j = 0 then [] else wake @ [Equeue_done n (sum_last item_packets (take j q)) (sum_last item_bytes (take j q))]"
  have p: "mapped_in ?pre = {#}" "unmapped_in ?pre = {#}" "freed_in ?pre = {#}" "bytes_in ?pre = - sum_list (map item_bytes (take j q))"
    using assms(5) l by (auto simp: accounts_Cons)
  have old: "off_zero (mapped_in t) = unmapped_in t + mset (somes (map item_buf q))" "mset g = freed_in t + mset (somes (map item_skb q))"
    "bytes_in t = sum_list (map item_bytes q)" using assms(1) by (simp_all add: books_def)
  have "off_zero (mapped_in (?pre @ ev @ t)) = unmapped_in (?pre @ ev @ t) + mset (somes (map item_buf (drop j q)))"
    unfolding accounts_append p e off_zero_simps old(1) s [of item_buf] mset_append by simp
  moreover have "mset g = freed_in (?pre @ ev @ t) + mset (somes (map item_skb (drop j q)))"
    unfolding accounts_append p e old(2) s [of item_skb] mset_append by simp
  moreover have "bytes_in (?pre @ ev @ t) = sum_list (map item_bytes (drop j q))"
    unfolding accounts_append p e old(3) b by simp
  ultimately show ?thesis by (simp only: books_def)
qed

section \<open>A new ring\<close>

definition linked :: "mac_ring \<Rightarrow> nat \<Rightarrow> mac_desc_data \<Rightarrow> mac_desc_data" where
  "linked r j e = e\<lparr>dma_desc := j, dma_desc_addr := dma_desc_head_addr r + 16 * word_of_nat j\<rparr>"

lemma ridx_small: "dma_desc_count r = 2 ^ k \<Longrightarrow> k < 32 \<Longrightarrow> j < 2 ^ k \<Longrightarrow> ridx r (word_of_nat j) = j"
proof -
  assume a: "dma_desc_count r = 2 ^ k" "k < 32" "j < 2 ^ k"
  have "(2::nat) ^ k < 2 ^ 32" using a(2) by (intro power_strict_increasing) auto
  then have "unat (word_of_nat j :: u32) = j" using a(3) by (intro unat_u32_of_nat) simp
  then show "ridx r (word_of_nat j) = j" using a by (simp add: ridx_mod)
qed

lemma link_fold:
  assumes "dma_desc_count r = 2 ^ k" "k < 32" "length (datas r) = 2 ^ k" "n \<le> 2 ^ k"
  shows "fold (\<lambda>j r. set_data (word_of_nat j)
       ((get_data r (word_of_nat j))\<lparr>dma_desc := j, dma_desc_addr := dma_desc_head_addr r + 16 * word_of_nat j\<rparr>) r) [0..<n] r =
     r\<lparr>datas := map (\<lambda>j. if j < n then linked r j (datas r ! j) else datas r ! j) [0..<2 ^ k]\<rparr>"
  using assms(4)
proof (induction n)
  case 0
  have "map (\<lambda>j. datas r ! j) [0..<2 ^ k] = datas r" using assms(3) by (metis map_nth)
  then show ?case by simp
next
  case (Suc n)
  let ?r = "r\<lparr>datas := map (\<lambda>j. if j < n then linked r j (datas r ! j) else datas r ! j) [0..<2 ^ k]\<rparr>"
  have i: "ridx ?r (word_of_nat n) = n" using ridx_small [OF assms(1,2), of n] Suc.prems by simp
  have "set_data (word_of_nat n) ((get_data ?r (word_of_nat n))\<lparr>dma_desc := n, dma_desc_addr := dma_desc_head_addr ?r + 16 * word_of_nat n\<rparr>) ?r
      = r\<lparr>datas := (datas ?r)[n := linked r n (datas r ! n)]\<rparr>"
    using i Suc.prems by (simp add: set_data_def get_data_def linked_def)
  also have "(datas ?r)[n := linked r n (datas r ! n)] =
      map (\<lambda>j. if j < Suc n then linked r j (datas r ! j) else datas r ! j) [0..<2 ^ k]"
    using Suc.prems by (intro nth_equalityI) (auto simp: nth_list_update less_Suc_eq)
  finally show ?case using Suc.IH Suc.prems by simp
qed

lemma reset_fold:
  assumes "dma_desc_count r = 2 ^ k" "k < 32" "length (descs r) = 2 ^ k" "length (datas r) = 2 ^ k" "n \<le> 2 ^ k"
    "\<forall>j < 2 ^ k. dma_desc (datas r ! j) = j"
  shows "\<exists>ev s'. fold (\<lambda>i (r, s). mac_tx_desc_reset (get_data r (word_of_nat i)) (r, s)) [0..<n] (r, s) =
      (r\<lparr>descs := map (\<lambda>j. if j < n then no_desc else descs r ! j) [0..<2 ^ k]\<rparr>, s') \<and>
     trace s' = ev @ trace s \<and> list_all poll_event ev \<and> filter gives ev = []"
  using assms(5)
proof (induction n)
  case 0
  have "map (\<lambda>j. descs r ! j) [0..<2 ^ k] = descs r" using assms(3) by (metis map_nth)
  then show ?case by (intro exI [of _ "[]"] exI [of _ s]) simp
next
  case (Suc n)
  let ?r = "r\<lparr>descs := map (\<lambda>j. if j < n then no_desc else descs r ! j) [0..<2 ^ k]\<rparr>"
  obtain ev s1 where ih: "fold (\<lambda>i (r, s). mac_tx_desc_reset (get_data r (word_of_nat i)) (r, s)) [0..<n] (r, s) = (?r, s1)"
    "trace s1 = ev @ trace s" "list_all poll_event ev" "filter gives ev = []" using Suc by auto
  have d: "dma_desc (get_data ?r (word_of_nat n)) = n"
    using ridx_small [OF assms(1,2), of n] Suc.prems assms(6) by (simp add: get_data_def)
  obtain r2 s2 where p: "puts n reset_stores (?r, s1) = (r2, s2)" by fastforce
  have e: "r2 = ?r\<lparr>descs := (descs ?r)[n := no_desc]\<rparr>" "trace s2 = store_events n reset_stores (descs ?r ! n) @ trace s1"
    using puts_effect [of n ?r reset_stores s1] p Suc.prems by (simp_all add: reset_no_desc)
  have "(descs ?r)[n := no_desc] = map (\<lambda>j. if j < Suc n then no_desc else descs r ! j) [0..<2 ^ k]"
    using Suc.prems by (intro nth_equalityI) (auto simp: nth_list_update less_Suc_eq)
  moreover have "mac_tx_desc_reset (get_data ?r (word_of_nat n)) (?r, s1) = (r2, emit Ewmb s2)"
    using p d by (simp add: mac_tx_desc_reset_def reset_stores_def)
  ultimately show ?case using ih e
    by (intro exI [of _ "Ewmb # store_events n reset_stores (descs ?r ! n) @ ev"] exI [of _ "emit Ewmb s2"]) simp
qed

text \<open>What \<open>mac_init_ring\<close> leaves: zeroed entries beside descriptors with any contents.\<close>

definition new_ring :: "mac_ring \<Rightarrow> bool" where
  "new_ring r \<longleftrightarrow> (\<exists>k < 32. dma_desc_count r = 2 ^ k \<and> length (descs r) = 2 ^ k \<and> datas r = replicate (2 ^ k) no_data)"

lemma ring_started:
  assumes "new_ring r" "mac_tx_desc_init ch (r, s) = (r', s')"
  shows "tx_wf r' \<and> tx_queue r' = [] \<and> ring_size r' = ring_size r \<and> cur r' = 0 \<and> \<not> queue_stopped r' \<and>
    (\<forall>j < ring_size r. dma_desc_addr (datas r' ! j) = dma_desc_head_addr r + 16 * word_of_nat j) \<and>
    (\<exists>ev. trace s' =
       [Ewrite Mac_regs (dma_regs ch + DMA_CH_TDTR_LO) (lower_32_bits (dma_desc_head_addr r)),
        Ewrite Mac_regs (dma_regs ch + DMA_CH_TDLR_LO) (lower_32_bits (dma_desc_head_addr r)),
        Ewrite Mac_regs (dma_regs ch + DMA_CH_TDLR_HI) (upper_32_bits (dma_desc_head_addr r)),
        Ewrite Mac_regs (dma_regs ch + DMA_CH_TDRLR) (dma_desc_count r - 1)] @ ev @ trace s \<and>
      list_all poll_event ev \<and> filter gives ev = [])"
proof -
  obtain k where k: "k < 32" "dma_desc_count r = 2 ^ k" "length (descs r) = 2 ^ k" "datas r = replicate (2 ^ k) no_data"
    using assms(1) by (auto simp: new_ring_def)
  define r1 where "r1 = (r\<lparr>datas := map (\<lambda>j. linked r j no_data) [0..<2 ^ k]\<rparr>)
     \<lparr>cur := 0, dirty := 0, xmit_more := False, queue_stopped := False, cur_mss := 0, cur_vlan_ctag := 0\<rparr>"
  have n: "unat (dma_desc_count r) = 2 ^ k" using k unat_2k by simp
  have "link_descs r = r\<lparr>datas := map (\<lambda>j. if j < 2 ^ k then linked r j (datas r ! j) else datas r ! j) [0..<2 ^ k]\<rparr>"
    unfolding link_descs_def n by (rule link_fold) (use k in simp_all)
  also have "map (\<lambda>j. if j < 2 ^ k then linked r j (datas r ! j) else datas r ! j) [0..<2 ^ k] = map (\<lambda>j. linked r j no_data) [0..<2 ^ k]"
    using k(4) by simp
  finally have L: "link_descs r = r\<lparr>datas := map (\<lambda>j. linked r j no_data) [0..<2 ^ k]\<rparr>" .
  then have lc: "unat (dma_desc_count (link_descs r)) = 2 ^ k" using n by simp
  have link: "(link_descs r)\<lparr>cur := 0, dirty := 0, xmit_more := False, queue_stopped := False, cur_mss := 0, cur_vlan_ctag := 0\<rparr> = r1"
    using L by (simp add: r1_def)
  have f1: "dma_desc_count r1 = 2 ^ k" "length (descs r1) = 2 ^ k" "length (datas r1) = 2 ^ k" "datas r1 = map (\<lambda>j. linked r j no_data) [0..<2 ^ k]"
    "cur r1 = 0" "dirty r1 = 0" "\<not> queue_stopped r1" using k by (simp_all add: r1_def)
  obtain ev s1 where rs: "fold (\<lambda>i (r, s). mac_tx_desc_reset (get_data r (word_of_nat i)) (r, s)) [0..<2 ^ k] (r1, s) =
      (r1\<lparr>descs := map (\<lambda>j. if j < 2 ^ k then no_desc else descs r1 ! j) [0..<2 ^ k]\<rparr>, s1)"
    "trace s1 = ev @ trace s" "list_all poll_event ev" "filter gives ev = []"
    using reset_fold [OF f1(1) k(1) f1(2,3), of "2 ^ k" s] f1(4) by (auto simp: linked_def)
  let ?r = "r1\<lparr>descs := map (\<lambda>j. if j < 2 ^ k then no_desc else descs r1 ! j) [0..<2 ^ k]\<rparr>"
  have d: "descs ?r = map (\<lambda>_. no_desc) [0..<2 ^ k]" by simp
  have i: "ridx ?r i < 2 ^ k" for i using ridx_mod [of ?r k i] f1(1) k(1) by simp
  have "ridx ?r 0 = 0" using ridx_mod [of ?r k 0] f1(1) k(1) by simp
  then have a0: "dma_desc_addr (get_data ?r (cur ?r)) = dma_desc_head_addr r"
    using f1 by (simp add: get_data_def linked_def)
  have un: "unat (dma_desc_count r1) = 2 ^ k" using f1(1) unat_2k k(1) by simp
  have run: "mac_tx_desc_init ch (r, s) = (?r, mwrites [(dma_regs ch + DMA_CH_TDRLR, dma_desc_count r - 1),
      (dma_regs ch + DMA_CH_TDLR_HI, upper_32_bits (dma_desc_head_addr r)),
      (dma_regs ch + DMA_CH_TDLR_LO, lower_32_bits (dma_desc_head_addr r)),
      (dma_regs ch + DMA_CH_TDTR_LO, lower_32_bits (dma_desc_head_addr r))] s1)"
    using rs(1) a0 k(2) f1(1) unfolding mac_tx_desc_init_def hw_tx_desc_init_def
    by (simp add: link lc Let_def split del: if_split)
  then have r': "r' = ?r" using assms(2) by simp
  have sz: "ring_size ?r = 2 ^ k" "ring_size r = 2 ^ k" using un n by (simp_all add: ring_size_def)
  have sh: "ring_shape ?r" unfolding ring_shape_def sz using f1 k by (auto simp: linked_def)
  have ent: "ent_desc ?r b m = no_desc \<and> (\<exists>j. ent_data ?r b m = linked r j no_data)" for b m
    using i [of "b + word_of_nat m"] f1 sh by (auto simp: ent_desc_def ent_data_def get_desc_shape get_data_def)
  have bl: "tx_only (linked r j no_data)" "blank (linked r j no_data) = linked r j no_data" for j
    by (simp_all add: linked_def tx_only_def blank_def no_data_def)
  have "tx_wf ?r" unfolding tx_wf_def using sh ent bl f1 by (auto simp: pending_def) (metis bl)+
  moreover have "tx_queue ?r = []" using f1 by (simp add: tx_queue_def pending_def)
  moreover have "\<forall>j < ring_size r. dma_desc_addr (datas ?r ! j) = dma_desc_head_addr r + 16 * word_of_nat j"
    using f1 sz by (simp add: linked_def)
  ultimately show ?thesis using run assms(2) r' f1 sz rs(2-4) by (auto simp: mwrite_def)
qed

end
