(* ===== verification/Tx_Props.thy ===== *)
theory Tx_Props
  imports Tx_Correct Mac_filter
begin

text \<open>
  The properties of the transmit ring. A run starts from a new ring; its steps are calls of
  \<open>mac_xmit\<close>, with any outcome, and of \<open>mac_tx_poll\<close>, and stores of the card to descriptors that
  are pending. The card is only assumed to leave the last-descriptor flag of a pending descriptor as
  it is. The log of a run says which packets were taken and queued, which entries the polls took, and
  whether a failed mapping was left half undone because the counter wrapped within the packet
  (\<open>cut_short\<close>): from then on entries past the end of the queue hold stale mappings, and the
  properties say so by asking for a log without that.
\<close>

section \<open>Runs\<close>

definition card_writes :: "mac_ring \<Rightarrow> mac_ring \<Rightarrow> bool" where
  "card_writes r r' \<longleftrightarrow> r' = r\<lparr>descs := descs r'\<rparr> \<and> length (descs r') = length (descs r) \<and>
     (\<forall>n < ring_size r. pending r \<le> n \<longrightarrow> ent_desc r' (dirty r) n = ent_desc r (dirty r) n) \<and>
     (\<forall>n < pending r. mac_is_last_desc (ent_desc r' (dirty r) n) = mac_is_last_desc (ent_desc r (dirty r) n))"

record tx_log =
  log_taken :: "nat list"
  log_queued :: "sk_buff list"
  log_off :: "tx_item list"
  log_cut :: bool

definition no_log :: tx_log where
  "no_log = \<lparr>log_taken = [], log_queued = [], log_off = [], log_cut = False\<rparr>"

text \<open>A packet is queued if \<open>mac_xmit\<close> accepts it and does not free it.\<close>

definition queued :: "sk_buff \<Rightarrow> int \<Rightarrow> event list \<Rightarrow> sk_buff list" where
  "queued k ret ev = (if ret = NETDEV_TX_OK \<and> Efree_skb (skb_id k) \<notin> set ev then [k] else [])"

definition log_send :: "mac_ring \<Rightarrow> sk_buff \<Rightarrow> int \<Rightarrow> event list \<Rightarrow> tx_log \<Rightarrow> tx_log" where
  "log_send r k ret ev l = l\<lparr>log_taken := log_taken l @ taken ret k, log_queued := log_queued l @ queued k ret ev,
     log_cut := log_cut l \<or> cut_short r k ev\<rparr>"

definition log_poll :: "tx_item list \<Rightarrow> tx_log \<Rightarrow> tx_log" where
  "log_poll xs l = l\<lparr>log_off := log_off l @ xs\<rparr>"

inductive tx_run :: "net_pdata \<Rightarrow> mac_channel \<Rightarrow> tx_chan \<times> kern \<Rightarrow> tx_log \<Rightarrow> tx_chan \<times> kern \<Rightarrow> bool"
  for p ch z where
  start: "tx_run p ch z no_log z"
| xmit: "tx_run p ch z l (t, s) \<Longrightarrow> skb_ok k \<Longrightarrow> mac_xmit E X p ch k (t, s) = (ret, t', s') \<Longrightarrow>
    tx_run p ch z (log_send (tx_ring t) k ret (new_events s s') l) (t', s')"
| poll: "tx_run p ch z l (t, s) \<Longrightarrow> mac_tx_poll ch (t, s) = (ret, t', s') \<Longrightarrow>
    tx_run p ch z (log_poll (take (nat ret) (tx_queue (tx_ring t))) l) (t', s')"
| card: "tx_run p ch z l (t, s) \<Longrightarrow> card_writes (tx_ring t) r \<Longrightarrow> tx_run p ch z l (t\<lparr>tx_ring := r\<rparr>, s)"

lemma log_simps [simp]:
  "log_taken no_log = []" "log_queued no_log = []" "log_off no_log = []" "log_cut no_log = False"
  "log_taken (log_send r k ret ev l) = log_taken l @ taken ret k" "log_queued (log_send r k ret ev l) = log_queued l @ queued k ret ev"
  "log_off (log_send r k ret ev l) = log_off l" "log_cut (log_send r k ret ev l) \<longleftrightarrow> log_cut l \<or> cut_short r k ev"
  "log_taken (log_poll xs l) = log_taken l" "log_queued (log_poll xs l) = log_queued l" "log_off (log_poll xs l) = log_off l @ xs"
  "log_cut (log_poll xs l) = log_cut l"
  by (simp_all add: no_log_def log_send_def log_poll_def)

text \<open>An item without its descriptor, which the card may rewrite.\<close>

definition soft :: "tx_item \<Rightarrow> tx_item" where
  "soft x = x\<lparr>item_desc := no_desc\<rparr>"

lemma soft_fields: "item_skb (soft x) = item_skb x" "item_buf (soft x) = item_buf x" "item_bytes (soft x) = item_bytes x"
  by (simp_all add: soft_def)

lemma card_view:
  assumes "tx_wf r" "card_writes r r'"
  shows "tx_wf r'" "ring_size r' = ring_size r" "cur r' = cur r" "dirty r' = dirty r" "queue_stopped r' = queue_stopped r"
    "map soft (tx_queue r') = map soft (tx_queue r)" "map last_item (tx_queue r') = map last_item (tx_queue r)"
proof -
  obtain ds where r': "r' = r\<lparr>descs := ds\<rparr>" "length ds = length (descs r)"
    using assms(2) unfolding card_writes_def by metis
  have sh: "ring_shape r'" using assms(1) r' by (simp add: tx_wf_def ring_shape_def ring_size_def)
  have f: "pending r' = pending r" "ring_size r' = ring_size r" "cur r' = cur r" "dirty r' = dirty r" "queue_stopped r' = queue_stopped r"
    "ent_data r' = ent_data r"
    using r' by (auto simp: pending_def ring_size_def ent_data_def get_data_def ridx_def fun_eq_iff)
  then show "ring_size r' = ring_size r" "cur r' = cur r" "dirty r' = dirty r" "queue_stopped r' = queue_stopped r" by simp_all
  show "tx_wf r'" using assms sh f by (simp add: tx_wf_def card_writes_def)
  show "map soft (tx_queue r') = map soft (tx_queue r)" using f by (simp add: tx_queue_def soft_def item_def)
  show "map last_item (tx_queue r') = map last_item (tx_queue r)"
    using f assms(2) by (simp add: tx_queue_def last_item_def item_def card_writes_def)
qed

lemma books_soft: "map soft q' = map soft q \<Longrightarrow> books g q' t = books g q t"
proof -
  assume m: "map soft q' = map soft q"
  have "map f q' = map f q" if "\<And>x. f (soft x) = f x" for f :: "tx_item \<Rightarrow> 'b"
    using arg_cong [OF m, of "map f"] that by (simp add: comp_def)
  from this [of item_buf] this [of item_skb] this [of item_bytes] show ?thesis
    by (simp add: books_def soft_fields)
qed

lemma items_ok_soft:
  assumes "map soft q' = map soft q" "map last_item q' = map last_item q" "items_ok q"
  shows "items_ok q'"
proof -
  have b: "map item_bytes q' = map item_bytes q"
    using arg_cong [OF assms(1), of "map item_bytes"] by (simp add: comp_def soft_fields)
  have l: "length q' = length q" using assms(1) by (metis length_map)
  have "item_bytes (q ! n) \<noteq> 0 \<longrightarrow> last_item (q ! n)" if "n < length q" for n
    using assms(3) that by (simp add: items_ok_def)
  then have "item_bytes (q' ! n) \<noteq> 0 \<longrightarrow> last_item (q' ! n)" if "n < length q'" for n
    using that l b assms(2) by (metis nth_map)
  then show ?thesis by (auto simp: items_ok_def in_set_conv_nth)
qed

lemma run_invariant:
  assumes "tx_run p ch (t0, s0) l (t, s)" "tx_wf (tx_ring t0)" "tx_queue (tx_ring t0) = []" "books [] [] (trace s0)" "has_tx_ring ch"
    "\<not> log_cut l"
  shows "tx_wf (tx_ring t) \<and> ring_size (tx_ring t) = ring_size (tx_ring t0) \<and> items_ok (tx_queue (tx_ring t)) \<and>
    books (log_taken l) (tx_queue (tx_ring t)) (trace s)"
  using assms
proof (induction l "(t, s)" arbitrary: t s rule: tx_run.induct)
  case start
  then show ?case by (simp add: items_ok_def)
next
  case (xmit l t s k E X ret t' s')
  have uncut: "\<not> log_cut l" "\<not> cut_short (tx_ring t) k (new_events s s')" using xmit.prems(5) by simp_all
  note ih = xmit.hyps(2) [OF xmit.prems(1-4) uncut(1)]
  obtain ev where ev: "trace s' = ev @ trace s" "refused (tx_queue (tx_ring t)) (tx_queue (tx_ring t')) ret ev \<or>
        dropped k (tx_queue (tx_ring t)) (tx_queue (tx_ring t')) ret ev \<or>
        sent ch k (ridx (tx_ring t) (cur (tx_ring t))) (tx_queue (tx_ring t)) (tx_queue (tx_ring t')) ret ev"
    "tx_wf (tx_ring t')" "ring_size (tx_ring t') = ring_size (tx_ring t)"
    using xmit_outcome_uncut [OF _ xmit.hyps(3) _ xmit.hyps(4)] ih uncut(2) by blast
  have "books (log_taken l @ taken ret k) (tx_queue (tx_ring t')) (trace s')"
    using ev(1,2) ih books_refused books_dropped books_sent by metis
  moreover have "items_ok (tx_queue (tx_ring t'))"
    using ev(2) ih items_ok_sent by (auto simp: refused_def dropped_def)
  ultimately show ?case using ev ih by simp
next
  case (poll l t s ret t' s')
  note ih = poll.hyps(2) [OF poll.prems(1-4)]
  let ?q = "tx_queue (tx_ring t)" and ?j = "completed (unat MAC_TX_DESC_MAX_PROC) (tx_queue (tx_ring t))"
  let ?wake = "if queue_stopped (tx_ring t) \<and> \<not> queue_stopped (tx_ring t') then [Equeue_wake (queue_index ch)] else []"
  note v = poll_outcome [OF _ poll.prems(4) poll.hyps(3)]
  obtain ev where ev: "trace s' = (if ?j = 0 then [] else ?wake @
          [Equeue_done (queue_index ch) (sum_last item_packets (take ?j ?q)) (sum_last item_bytes (take ?j ?q))]) @ ev @ trace s"
       "list_all poll_event ev" "filter gives ev = concat (rev (map item_events (take ?j ?q)))"
    using v ih poll.prems(5) by auto
  have "books (log_taken l) (drop ?j ?q) (trace s')"
    unfolding ev(1) by (rule books_polled [OF _ _ ev(2,3)]) (use ih poll.prems(5) in auto)
  then show ?case using v ih poll.prems(5) items_ok_take_drop by auto
next
  case (card l t s r)
  note ih = card.hyps(2) [OF card.prems]
  then show ?case using card_view [OF _ card.hyps(3)] books_soft items_ok_soft by (metis tx_chan.select_convs(1) tx_chan.simps(9) tx_chan.surjective tx_chan.update_convs(1))
qed

section \<open>First in, first out\<close>

text \<open>
  A queue as its users see it: some steps put goods at the end, each of which makes a list of items;
  others take items from the front.
\<close>

inductive fifo_run :: "('s \<Rightarrow> 'b list \<Rightarrow> 's \<Rightarrow> bool) \<Rightarrow> ('s \<Rightarrow> 'a list \<Rightarrow> 's \<Rightarrow> bool) \<Rightarrow> 's \<Rightarrow> 'b list \<Rightarrow> 'a list \<Rightarrow> 's \<Rightarrow> bool"
  for put off z where
  none: "fifo_run put off z [] [] z"
| put: "fifo_run put off z ks xs s \<Longrightarrow> put s js s' \<Longrightarrow> fifo_run put off z (ks @ js) xs s'"
| off: "fifo_run put off z ks xs s \<Longrightarrow> off s ys s' \<Longrightarrow> fifo_run put off z ks (xs @ ys) s'"

locale fifo =
  fixes ok :: "'s \<Rightarrow> bool" and items :: "'s \<Rightarrow> 'a list" and made :: "'b \<Rightarrow> 'a list \<Rightarrow> bool"
    and put :: "'s \<Rightarrow> 'b list \<Rightarrow> 's \<Rightarrow> bool" and off :: "'s \<Rightarrow> 'a list \<Rightarrow> 's \<Rightarrow> bool"
  assumes put_end: "ok s \<Longrightarrow> put s ks s' \<Longrightarrow> ok s' \<and> (\<exists>xss. list_all2 made ks xss \<and> items s' = items s @ concat xss)"
    and off_front: "ok s \<Longrightarrow> off s ys s' \<Longrightarrow> ok s' \<and> items s = ys @ items s'"
begin

lemma in_order: "fifo_run put off z ks xs s \<Longrightarrow> ok z \<Longrightarrow> ok s \<and> (\<exists>xss. list_all2 made ks xss \<and> items z @ concat xss = xs @ items s)"
proof (induction rule: fifo_run.induct)
  case none
  then show ?case by (intro conjI exI [of _ "[]"]) simp_all
next
  case (put ks xs s js s')
  obtain xss where a: "list_all2 made ks xss" "items z @ concat xss = xs @ items s" using put by blast
  obtain yss where b: "ok s'" "list_all2 made js yss" "items s' = items s @ concat yss" using put put_end by blast
  have "items z @ concat (xss @ yss) = xs @ items s'" using a(2) b(3) by (simp flip: append_assoc)
  then show ?case using b(1) list_all2_appendI [OF a(1) b(2)] by blast
next
  case (off ks xs s ys s')
  then show ?case using off_front [of s ys s'] by auto
qed

end

text \<open>The steps of a transmit ring: the driver sends, not cut short, or the card writes; the driver polls.\<close>

definition tx_put :: "net_pdata \<Rightarrow> mac_channel \<Rightarrow> tx_chan \<times> kern \<Rightarrow> sk_buff list \<Rightarrow> tx_chan \<times> kern \<Rightarrow> bool" where
  "tx_put p ch z ks z' \<longleftrightarrow>
     (\<exists>k E X ret. skb_ok k \<and> mac_xmit E X p ch k z = (ret, z') \<and> ks = queued k ret (new_events (snd z) (snd z')) \<and>
        \<not> cut_short (tx_ring (fst z)) k (new_events (snd z) (snd z'))) \<or>
     (\<exists>r. card_writes (tx_ring (fst z)) r \<and> z' = ((fst z)\<lparr>tx_ring := r\<rparr>, snd z) \<and> ks = [])"

text \<open>
  The entries of a packet: the last one holds its buffer, the others none, and the areas mapped by
  them are those of the packet (an area mapped at bus address 0 is not kept).
\<close>

definition packet_entries :: "sk_buff \<Rightarrow> tx_item list \<Rightarrow> bool" where
  "packet_entries k xs \<longleftrightarrow> xs \<noteq> [] \<and> map item_skb xs = replicate (length xs - 1) None @ [Some (skb_id k)] \<and>
     (\<exists>bufs. map snd bufs = skb_areas k \<and> somes (map item_buf xs) = filter (\<lambda>b. fst b \<noteq> 0) bufs)"

definition tx_items :: "tx_chan \<times> kern \<Rightarrow> tx_item list" where
  "tx_items z = map soft (tx_queue (tx_ring (fst z)))"

definition tx_off :: "mac_channel \<Rightarrow> tx_chan \<times> kern \<Rightarrow> tx_item list \<Rightarrow> tx_chan \<times> kern \<Rightarrow> bool" where
  "tx_off ch z xs z' \<longleftrightarrow> has_tx_ring ch \<and> (\<exists>ret. mac_tx_poll ch z = (ret, z') \<and> xs = take (nat ret) (tx_items z))"

definition tx_ok :: "tx_chan \<times> kern \<Rightarrow> bool" where
  "tx_ok z \<longleftrightarrow> tx_wf (tx_ring (fst z))"

lemma sent_entries:
  assumes "sent ch k f q q' ret ev"
  shows "queued k ret ev = [k] \<and> (\<exists>xs. q' = q @ xs \<and> packet_entries k (map soft xs))"
proof -
  obtain tso vlan ic i bufs late early v pre A where o: "ret = NETDEV_TX_OK" "map snd bufs = skb_areas k" "bufs \<noteq> []"
    "q' = q @ packet_items tso vlan ic i (skb_id k) bufs"
    "ev = late @ Edesc f 3 v # Ewmb # early @ Equeue_sent (queue_index ch) (tx_bytes i) # rev (map emap bufs) @ pre"
    "list_all signal late" "stores early A" "list_all prelude pre"
    using assms unfolding sent_def by (elim exE conjE) (rule that, assumption+)
  let ?xs = "packet_items tso vlan ic i (skb_id k) bufs"
  have "freed_in ev = {#}"
    unfolding o(5) using accounts_signal [OF o(6)] accounts_stores [OF o(7)] accounts_prelude [OF o(8)] accounts_maps [of bufs]
    by (simp add: accounts_Cons)
  then have "queued k ret ev = [k]" using o(1) freed_events [of ev "skb_id k"] by (auto simp: queued_def)
  moreover note sh = packet_items_shape [OF o(3), of tso vlan ic i "skb_id k"]
  have l: "0 < length ?xs" using sh(1) o(3) by simp
  have "map item_skb ?xs = replicate (length ?xs - 1) None @ [Some (skb_id k)]"
  proof (rule nth_equalityI)
    fix n assume "n < length (map item_skb ?xs)"
    then show "map item_skb ?xs ! n = (replicate (length ?xs - 1) None @ [Some (skb_id k)]) ! n"
      using sh(3,4) by (auto simp: nth_append)
  qed (use l in simp)
  then have "packet_entries k (map soft ?xs)"
    using l o(2) sh(5) by (auto simp: packet_entries_def comp_def soft_fields)
  ultimately show ?thesis using o(4) by blast
qed

lemma xmit_entries:
  assumes "tx_wf (tx_ring t)" "skb_ok k" "mac_xmit E X p ch k (t, s) = (ret, t', s')" "\<not> cut_short (tx_ring t) k (new_events s s')"
  shows "tx_wf (tx_ring t') \<and> (\<exists>xss. list_all2 packet_entries (queued k ret (new_events s s')) xss \<and>
    map soft (tx_queue (tx_ring t')) = map soft (tx_queue (tx_ring t)) @ concat xss)"
proof -
  let ?q = "tx_queue (tx_ring t)" and ?q' = "tx_queue (tx_ring t')"
  obtain ev where ev: "tx_wf (tx_ring t')" "trace s' = ev @ trace s" "refused ?q ?q' ret ev \<or> dropped k ?q ?q' ret ev \<or>
      sent ch k (ridx (tx_ring t) (cur (tx_ring t))) ?q ?q' ret ev"
    using xmit_outcome_uncut [OF assms(1,2) _ assms(3)] assms(4) by blast
  note n = new_events_eq [OF ev(2)]
  from ev(3) consider (none) "queued k ret ev = []" "?q' = ?q" | (one) xs where "queued k ret ev = [k]" "?q' = ?q @ xs" "packet_entries k (map soft xs)"
    using sent_entries by (fastforce simp: refused_def dropped_def queued_def)
  then show ?thesis
  proof cases
    case none
    then show ?thesis using ev(1) by (simp add: n)
  next
    case one
    then show ?thesis using ev(1) by (intro conjI exI [of _ "[map soft xs]"]) (simp_all add: n)
  qed
qed

lemma tx_put_end:
  assumes "tx_ok z" "tx_put p ch z ks z'"
  shows "tx_ok z' \<and> (\<exists>xss. list_all2 packet_entries ks xss \<and> tx_items z' = tx_items z @ concat xss)"
proof -
  obtain t s t' s' where z: "z = (t, s)" "z' = (t', s')" by (metis surj_pair)
  from assms(2) consider
    (send) k E X ret where "skb_ok k" "mac_xmit E X p ch k (t, s) = (ret, t', s')" "\<not> cut_short (tx_ring t) k (new_events s s')"
      "ks = queued k ret (new_events s s')"
    | (card) r where "card_writes (tx_ring t) r" "t' = t\<lparr>tx_ring := r\<rparr>" "ks = []"
    unfolding tx_put_def z by auto
  then show ?thesis
  proof cases
    case send
    then show ?thesis using xmit_entries [OF _ send(1-3)] assms(1) by (simp add: tx_ok_def tx_items_def z)
  next
    case card
    then show ?thesis using assms(1) card_view [OF _ card(1)] by (simp add: tx_ok_def tx_items_def z)
  qed
qed

lemma tx_off_front:
  assumes "tx_ok z" "tx_off ch z xs z'"
  shows "tx_ok z' \<and> tx_items z = xs @ tx_items z'"
proof -
  obtain t s t' s' where z: "z = (t, s)" "z' = (t', s')" by (metis surj_pair)
  obtain ret where o: "has_tx_ring ch" "mac_tx_poll ch (t, s) = (ret, t', s')" "xs = take (nat ret) (tx_items z)"
    using assms(2) by (auto simp: tx_off_def z)
  have wf: "tx_wf (tx_ring t)" using assms(1) by (simp add: tx_ok_def z)
  define q where "q = tx_queue (tx_ring t)"
  define j where "j = completed (unat MAC_TX_DESC_MAX_PROC) q"
  have v: "ret = int j" "tx_wf (tx_ring t')" "tx_queue (tx_ring t') = drop j q"
    using poll_outcome [OF wf o(1,2), folded q_def, folded j_def] by blast+
  have "tx_items z = map soft q" "tx_items z' = drop j (map soft q)" "xs = take j (map soft q)"
    using v(1,3) o(3) by (simp_all add: tx_items_def z drop_map flip: q_def)
  then show ?thesis using v(2) by (simp add: tx_ok_def z)
qed

interpretation tx_fifo: fifo tx_ok tx_items packet_entries "tx_put p ch" "tx_off ch" for p ch
proof (unfold_locales, goal_cases)
  case (1 s ks s')
  then show ?case by (rule tx_put_end)
next
  case (2 s ys s')
  then show ?case by (rule tx_off_front)
qed

text \<open>A run of the ring in which no unwinding is cut short is a run of the queue.\<close>

lemma tx_run_fifo:
  assumes "tx_run p ch z l z'" "\<not> log_cut l" "has_tx_ring ch"
  shows "fifo_run (tx_put p ch) (tx_off ch) z (log_queued l) (map soft (log_off l)) z'"
  using assms(1,2)
proof (induction rule: tx_run.induct)
  case start
  then show ?case by (simp add: fifo_run.none)
next
  case (xmit l t s k E X ret t' s')
  then have "tx_put p ch (t, s) (queued k ret (new_events s s')) (t', s')" unfolding tx_put_def fst_conv snd_conv log_simps by blast
  then show ?case using xmit by (simp add: fifo_run.put)
next
  case (poll l t s ret t' s')
  then have "tx_off ch (t, s) (map soft (take (nat ret) (tx_queue (tx_ring t)))) (t', s')"
    using assms(3) by (simp add: tx_off_def tx_items_def take_map)
  then show ?case using poll by (simp add: fifo_run.off)
next
  case (card l t s r)
  then have "tx_put p ch (t, s) [] (t\<lparr>tx_ring := r\<rparr>, s)" unfolding tx_put_def by auto
  from fifo_run.put [OF card.IH [OF card.prems] this] show ?case by simp
qed

section \<open>What the properties rest on\<close>

lemma avail_pending:
  assumes "tx_wf r"
  shows "unat (mac_tx_avail_desc r) = ring_size r - length (tx_queue r)" "length (tx_queue r) \<le> ring_size r"
proof -
  have "pending r \<le> ring_size r" using assms by (simp add: tx_wf_def)
  then show "unat (mac_tx_avail_desc r) = ring_size r - length (tx_queue r)" "length (tx_queue r) \<le> ring_size r"
    by (simp_all add: tx_queue_def mac_tx_avail_desc_def ring_size_def pending_def unat_sub word_le_nat_alt)
qed

lemma started_books:
  assumes "new_ring r" "mac_tx_desc_init ch (r, s) = (r0, s0)" "books [] [] (trace s)"
  shows "books [] [] (trace s0)"
proof -
  obtain w ev where e: "trace s0 = map (\<lambda>(a, v). Ewrite Mac_regs a v) w @ ev @ trace s" "list_all poll_event ev" "filter gives ev = []"
    using ring_started [OF assms(1,2)]
    by (elim conjE exE)
      (rule that [of "[(dma_regs ch + DMA_CH_TDTR_LO, lower_32_bits (dma_desc_head_addr r)),
        (dma_regs ch + DMA_CH_TDLR_LO, lower_32_bits (dma_desc_head_addr r)),
        (dma_regs ch + DMA_CH_TDLR_HI, upper_32_bits (dma_desc_head_addr r)),
        (dma_regs ch + DMA_CH_TDRLR, dma_desc_count r - 1)]"], simp_all)
  have "list_all signal (map (\<lambda>(a, v). Ewrite Mac_regs a v) w)" by (induction w) auto
  from accounts_signal [OF this] accounts_poll [OF e(2)] e(3) assms(3) show ?thesis
    unfolding e(1) by (simp add: books_def)
qed

text \<open>A run from a ring that \<open>mac_tx_desc_init\<close> has set up.\<close>

lemma started_run:
  assumes "new_ring r" "mac_tx_desc_init ch (r, s) = (r0, s0)" "books [] [] (trace s)" "has_tx_ring ch"
    "tx_run p ch (t0\<lparr>tx_ring := r0\<rparr>, s0) l (t, s')" "\<not> log_cut l"
  shows "tx_wf (tx_ring t) \<and> ring_size (tx_ring t) = ring_size r \<and> books (log_taken l) (tx_queue (tx_ring t)) (trace s')"
  using run_invariant [OF assms(5) _ _ started_books [OF assms(1-3)] assms(4) assms(6)] ring_started [OF assms(1,2)] by simp

text \<open>A packet before its first descriptor is handed over.\<close>

lemma quiet_prelude: "list_all prelude ev \<Longrightarrow> quiet ev k"
proof (induction ev)
  case (Cons e ev)
  then show ?case by (cases e) auto
qed simp

lemma quiet_maps: "quiet (rev (map emap bufs)) k"
  by (auto simp: quiet_def emap_def split: prod.splits)

lemma sent_view:
  assumes "sent ch k f q q' ret ev"
  shows "\<exists>late v before. ev = late @ Edesc f 3 v # Ewmb # before \<and> list_all signal late \<and> bit v 31 \<and> quiet before f"
proof -
  obtain late early v pre and bufs :: "buf list" and i :: mac_pkt_info where o:
    "ev = late @ Edesc f 3 v # Ewmb # early @ Equeue_sent (queue_index ch) (tx_bytes i) # rev (map emap bufs) @ pre"
    "list_all signal late" "bit v 31" "quiet early f" "list_all prelude pre"
    using assms unfolding sent_def by blast
  then show ?thesis
    using quiet_prelude quiet_maps
    by (intro exI [of _ late] exI [of _ v] exI [of _ "early @ Equeue_sent (queue_index ch) (tx_bytes i) # rev (map emap bufs) @ pre"])
      simp
qed

text \<open>A poll, and polls until the queue is empty.\<close>

definition polls :: "mac_channel \<Rightarrow> nat \<Rightarrow> tx_chan \<times> kern \<Rightarrow> tx_chan \<times> kern" where
  "polls ch n = (\<lambda>z. snd (mac_tx_poll ch z)) ^^ n"

lemma polls_empty:
  assumes "tx_wf (tx_ring t)" "has_tx_ring ch" "\<forall>x \<in> set (tx_queue (tx_ring t)). \<not> own (item_desc x)"
    "unat MAC_TX_DESC_MIN_FREE < ring_size (tx_ring t)" "queue_stopped (tx_ring t) \<longrightarrow> tx_queue (tx_ring t) \<noteq> []"
  shows "\<exists>n \<le> length (tx_queue (tx_ring t)). \<exists>t' s'. polls ch n (t, s) = (t', s') \<and> tx_queue (tx_ring t') = [] \<and>
    \<not> queue_stopped (tx_ring t')"
  using assms
proof (induction "length (tx_queue (tx_ring t))" arbitrary: t s rule: less_induct)
  case less
  let ?q = "tx_queue (tx_ring t)"
  show ?case
  proof (cases "?q = []")
    case True
    then show ?thesis using less.prems(5) by (intro exI [of _ 0]) (simp add: polls_def)
  next
    case False
    obtain ret t1 s1 where 1: "mac_tx_poll ch (t, s) = (ret, t1, s1)" by (metis prod_cases3)
    let ?j = "completed (unat MAC_TX_DESC_MAX_PROC) ?q"
    note v = poll_outcome [OF less.prems(1,2) 1]
    have tw: "takeWhile (\<lambda>x. mac_tx_complete (item_desc x)) (take (unat MAC_TX_DESC_MAX_PROC) ?q) = take (unat MAC_TX_DESC_MAX_PROC) ?q"
      using less.prems(3) by (auto simp: takeWhile_eq_all_conv complete_own dest: in_set_takeD)
    have j: "0 < ?j" unfolding completed_def tw using False by simp
    have q1: "tx_queue (tx_ring t1) = drop ?j ?q" using v by blast
    have l: "length (tx_queue (tx_ring t1)) < length ?q" using q1 j False by simp
    show ?thesis
    proof (cases "tx_queue (tx_ring t1) = []")
      case True
      then have "length ?q - ?j = 0" using q1 by simp
      then have "\<not> queue_stopped (tx_ring t1)" using v j less.prems(4) by simp
      then show ?thesis using 1 True False by (intro exI [of _ "Suc 0"]) (simp add: polls_def Suc_leI)
    next
      case more: False
      have "\<forall>x \<in> set (tx_queue (tx_ring t1)). \<not> own (item_desc x)" using less.prems(3) q1 by (auto dest: in_set_dropD)
      moreover have "tx_wf (tx_ring t1)" "ring_size (tx_ring t1) = ring_size (tx_ring t)" using v by blast+
      ultimately obtain n t' s' where n: "n \<le> length (tx_queue (tx_ring t1))" "polls ch n (t1, s1) = (t', s')" "tx_queue (tx_ring t') = []"
        "\<not> queue_stopped (tx_ring t')"
        using less.hyps [OF l, of s1] less.prems(2,4) more by metis
      have "polls ch (Suc n) (t, s) = polls ch n (t1, s1)" using 1 unfolding polls_def funpow_Suc_right by simp
      then show ?thesis using n l by (intro exI [of _ "Suc n"]) simp
    qed
  qed
qed

section \<open>Examples\<close>

text \<open>Zeroed rings, a channel, a card whose link is up, and a packet of one buffer.\<close>

definition zero_ring :: "nat \<Rightarrow> mac_ring" where
  "zero_ring k = \<lparr>pkt_info = no_pkt, descs = replicate (2 ^ k) no_desc, dma_desc_head_addr = 0x1000, dma_desc_count = 2 ^ k,
     datas = replicate (2 ^ k) no_data, rx_hdr_pa = no_page, rx_buf_pa = no_page, cur = 0, dirty = 0, coalesce_count = 0,
     xmit_more = False, queue_stopped = False, cur_mss = 0, cur_vlan_ctag = 0\<rparr>"

definition fresh_ring :: "nat \<Rightarrow> mac_ring" where
  "fresh_ring k = (zero_ring k)\<lparr>datas := map (\<lambda>j. no_data\<lparr>dma_desc := j\<rparr>) [0..<2 ^ k]\<rparr>"

definition chan0 :: mac_channel where
  "chan0 = \<lparr>queue_index = 0, dma_regs = 0x3100, has_tx_ring = True, has_rx_ring = True\<rparr>"

definition tx_chan_of :: "mac_ring \<Rightarrow> tx_chan" where
  "tx_chan_of r = \<lparr>tx_ring = r, tx_timer_active = False, tx_desc_update_cnt = 0, tx_desc_cur_last = 0,
     tx_desc_cur_update_total = 0, tx_vlan_packets = 0, tx_tso_packets = 0\<rparr>"

definition up_env :: env where
  "up_env = \<lparr>hw_read = \<lambda>_ _ _. 0, alloc_ok = \<lambda>_. True, dma_addr = \<lambda>_. 0x2000, copy_ok = \<lambda>_. True\<rparr>"

definition pdata0 :: net_pdata where
  "pdata0 = mac_pdata.extend small_pdata (net_pdata.fields 25 1000 25 30)"

definition packet7 :: sk_buff where
  "packet7 = \<lparr>skb_id = 7, skb_len = 60, skb_headlen = 60, frags = [], csum_partial = False, gso_size = 0, gso_segs = 0,
     transport_offset = 0, tcp_hdrlen = 0, vlan_tag = None, sk_more = False, queue_mapping = 0\<rparr>"

lemma new_zero_ring: "k < 32 \<Longrightarrow> new_ring (zero_ring k)"
  by (auto simp: new_ring_def zero_ring_def)

lemma fresh_wf:
  assumes "k < 32" "unat (c - d) \<le> 2 ^ k"
  shows "tx_wf ((fresh_ring k)\<lparr>cur := c, dirty := d\<rparr>) \<and> ring_size ((fresh_ring k)\<lparr>cur := c, dirty := d\<rparr>) = 2 ^ k \<and>
    (\<forall>x \<in> set (tx_queue ((fresh_ring k)\<lparr>cur := c, dirty := d\<rparr>)). item_desc x = no_desc \<and> item_skb x = None \<and> item_buf x = None) \<and>
    length (tx_queue ((fresh_ring k)\<lparr>cur := c, dirty := d\<rparr>)) = unat (c - d)"
proof -
  let ?r = "(fresh_ring k)\<lparr>cur := c, dirty := d\<rparr>"
  have f: "dma_desc_count ?r = 2 ^ k" "descs ?r = replicate (2 ^ k) no_desc" "datas ?r = map (\<lambda>j. no_data\<lparr>dma_desc := j\<rparr>) [0..<2 ^ k]"
    "cur ?r = c" "dirty ?r = d" by (simp_all add: fresh_ring_def zero_ring_def)
  have sz: "ring_size ?r = 2 ^ k" using f(1) unat_2k [OF assms(1)] by (simp add: ring_size_def)
  have sh: "ring_shape ?r" unfolding ring_shape_def sz using f assms(1) by auto
  have i: "ridx ?r m < 2 ^ k" for m using ridx_less [OF sh, of m] sz by simp
  have ent: "ent_desc ?r b m = no_desc \<and> (\<exists>j. ent_data ?r b m = no_data\<lparr>dma_desc := j\<rparr>)" for b m
    using i [of "b + word_of_nat m"] f sh by (auto simp: ent_desc_def ent_data_def get_desc_shape get_data_def)
  have bl: "tx_only (no_data\<lparr>dma_desc := j\<rparr>)" "blank (no_data\<lparr>dma_desc := j\<rparr>) = no_data\<lparr>dma_desc := j\<rparr>" for j
    by (simp_all add: tx_only_def blank_def no_data_def)
  have tb: "tx_only (ent_data ?r b m) \<and> blank (ent_data ?r b m) = ent_data ?r b m" for b m using ent bl by metis
  have "tx_wf ?r" unfolding tx_wf_def using sh ent tb f(4,5) assms(2) sz by (simp add: pending_def)
  moreover have "item (ent_desc ?r b m) (ent_data ?r b m) = \<lparr>item_desc = no_desc, item_skb = None, item_buf = None, item_packets = 0, item_bytes = 0\<rparr>" for b m
  proof -
    obtain j where "ent_desc ?r b m = no_desc" "ent_data ?r b m = no_data\<lparr>dma_desc := j\<rparr>" using ent by blast
    then show ?thesis by (simp add: item_def no_data_def)
  qed
  ultimately show ?thesis using sz f(4,5) by (auto simp: tx_queue_def pending_def)
qed

lemma no_desc_not_own: "\<not> own no_desc"
  by (simp add: own_def no_desc_def)

lemma packet7_facts:
  "skb_ok packet7" "skb_len packet7 \<noteq> 0" "skb_id packet7 = 7" "prep_count r packet7 = 1"
  "fst (mac_get_link_status up_env 0 s) = 0" "alloc_ok up_env h"
proof -
  have "prep_count r packet7 = bufs_of 60" by (simp add: prep_count_def packet7_def tso_tag_def vlan_tag_new_def mac_is_tso_def)
  then show "prep_count r packet7 = 1" by (simp add: bufs_of_def)
qed (simp_all add: packet7_def skb_ok_def mac_is_tso_def up_env_def mac_get_link_status_def mac_reg_read_def reg_read_def
    readl_def Let_def get_field_def)

lemma cur_poll:
  assumes "tx_wf (tx_ring t)" "has_tx_ring ch" "mac_tx_poll ch (t, s) = (ret, t', s')"
  shows "cur (tx_ring t') = cur (tx_ring t)"
proof -
  obtain n pk b r s1 where 1: "tx_poll_loop (unat MAC_TX_DESC_MAX_PROC) (cur (tx_ring t)) (0, 0, 0, tx_ring t, s) = (n, pk, b, r, s1)"
    by (metis prod_cases5)
  then show ?thesis using poll_loop_view [OF assms(1) 1] assms(2,3) by (auto simp: mac_tx_poll_def Let_def split: if_splits)
qed

text \<open>A packet goes into a new ring.\<close>

lemma packet7_uncut: "cur r = 0 \<or> cur r = 1 \<Longrightarrow> \<not> cut_short r packet7 ev"
  by (auto simp: cut_short_def prep_pkt(3) packet7_facts)

lemma packet7_sent:
  assumes "tx_wf (tx_ring t)" "tx_queue (tx_ring t) = []" "1 \<le> ring_size (tx_ring t)"
    "mac_xmit up_env (\<lambda>_ _. False) pdata0 chan0 packet7 (t, s) = (ret, t', s')"
  shows "ret = NETDEV_TX_OK" "queued packet7 ret (new_events s s') = [packet7]"
proof -
  have "pending (tx_ring t) = 0" using assms(2) by (metis length_map length_upt list.size(3) minus_nat.diff_0 tx_queue_def)
  then have "pending (tx_ring t) + prep_count (tx_ring t) packet7 \<le> ring_size (tx_ring t)" using assms(3) by (simp add: packet7_facts)
  then obtain ev where ev: "trace s' = ev @ trace s"
    "sent chan0 packet7 (ridx (tx_ring t) (cur (tx_ring t))) (tx_queue (tx_ring t)) (tx_queue (tx_ring t')) ret ev"
    using xmit_outcome [OF assms(1) packet7_facts(1) _ assms(4)] packet7_facts(2,5,6) by blast
  then show "ret = NETDEV_TX_OK" "queued packet7 ret (new_events s s') = [packet7]"
    using sent_entries [OF ev(2)] new_events_eq [OF ev(1)] ev(2) unfolding sent_def by simp_all
qed

lemma example_run:
  "\<exists>r0 s0 l t s'. mac_tx_desc_init chan0 (zero_ring 2, empty_kern) = (r0, s0) \<and>
     tx_run pdata0 chan0 ((tx_chan_of r0)\<lparr>tx_ring := r0\<rparr>, s0) l (t, s') \<and> \<not> log_cut l \<and> log_taken l = [7]"
proof -
  obtain r0 s0 where 0: "mac_tx_desc_init chan0 (zero_ring 2, empty_kern) = (r0, s0)" by fastforce
  note st = ring_started [OF new_zero_ring [of 2, simplified] 0]
  let ?t = "(tx_chan_of r0)\<lparr>tx_ring := r0\<rparr>"
  obtain ret t s' where x: "mac_xmit up_env (\<lambda>_ _. False) pdata0 chan0 packet7 (?t, s0) = (ret, t, s')" by (metis prod_cases3)
  have "ring_size r0 = 4" using st unat_2k [of 2] by (simp add: ring_size_def zero_ring_def)
  then have "ret = NETDEV_TX_OK" using packet7_sent(1) [OF _ _ _ x] st by simp
  moreover have "\<not> cut_short (tx_ring ?t) packet7 (new_events s0 s')" using st by (intro packet7_uncut) simp
  ultimately show ?thesis
    using 0 tx_run.xmit [OF tx_run.start packet7_facts(1) x] packet7_facts(3) by (intro exI conjI) (assumption+, simp_all add: taken_def)
qed

section \<open>Properties\<close>

text \<open>
  C7. Whatever is sent, polled and written by the card after the ring has been set up, with memory or
  without, and however often the 32-bit counters have wrapped, the ring is well-formed: every entry
  is that of its own descriptor, the entries outside \<open>dirty .. cur\<close> are free and their descriptors
  zero, and \<open>mac_tx_avail_desc\<close> counts exactly the free ones. The one exception is stated as a
  hypothesis: in the run no mapping has failed for a packet whose descriptors reach the end of the
  32-bit counter, for there the unwinding stops short (\<open>log_cut\<close>).
\<close>

theorem tx_ring_sound:
  assumes "new_ring r" "mac_tx_desc_init ch (r, s) = (r0, s0)" "books [] [] (trace s)" "has_tx_ring ch"
    "tx_run p ch (t0\<lparr>tx_ring := r0\<rparr>, s0) l (t, s')" "\<not> log_cut l"
  shows "tx_wf (tx_ring t) \<and> unat (mac_tx_avail_desc (tx_ring t)) + length (tx_queue (tx_ring t)) = ring_size r"
  using started_run [OF assms] avail_pending [of "tx_ring t"] by simp

theorem tx_ring_sound_witness:
  "\<exists>(t :: tx_chan) (s' :: kern). tx_wf (tx_ring t) \<and> unat (mac_tx_avail_desc (tx_ring t)) + length (tx_queue (tx_ring t)) = 4 \<and> mset [7] =
     freed_in (trace s') + mset (somes (map item_skb (tx_queue (tx_ring t))))"
proof -
  obtain r0 s0 l t s' where e: "mac_tx_desc_init chan0 (zero_ring 2, empty_kern) = (r0, s0)"
    "tx_run pdata0 chan0 ((tx_chan_of r0)\<lparr>tx_ring := r0\<rparr>, s0) l (t, s')" "\<not> log_cut l" "log_taken l = [7]" using example_run by blast
  have b: "books [] [] (trace empty_kern)" by (simp add: books_def empty_kern_def)
  have n: "new_ring (zero_ring 2)" by (rule new_zero_ring) simp
  show ?thesis
    using tx_ring_sound [OF n e(1) b _ e(2,3)] started_run [OF n e(1) b _ e(2,3)] unat_2k [of 2]
    by (intro exI [of _ t] exI [of _ s']) (simp add: chan0_def ring_size_def zero_ring_def books_def e(4))
qed

text \<open>
  C5. The accounts of a transmit ring balance after every step of a run: each buffer mapped for the card has been
  unmapped once, with its address, length and kind, or is pending, or lies at bus address 0, which
  the driver takes for no mapping and never unmaps; each packet the stack gave away has been freed
  once or is pending; and the bytes reported to the queue's limit as sent are those reported as done
  and those pending. The hypothesis on the log leaves out runs in which a mapping has failed for a
  packet whose descriptors reach the end of the 32-bit counter: there mappings are lost.
\<close>

theorem tx_books_balance:
  assumes "new_ring r" "mac_tx_desc_init ch (r, s) = (r0, s0)" "books [] [] (trace s)" "has_tx_ring ch"
    "tx_run p ch (t0\<lparr>tx_ring := r0\<rparr>, s0) l (t, s')" "\<not> log_cut l"
  shows "mapped_in (trace s') = unmapped_in (trace s') + mset (somes (map item_buf (tx_queue (tx_ring t)))) +
      filter_mset (\<lambda>b. fst b = 0) (mapped_in (trace s')) \<and>
    mset (log_taken l) = freed_in (trace s') + mset (somes (map item_skb (tx_queue (tx_ring t)))) \<and>
    bytes_in (trace s') = sum_list (map item_bytes (tx_queue (tx_ring t)))"
proof -
  have b: "books (log_taken l) (tx_queue (tx_ring t)) (trace s')" using started_run [OF assms] by simp
  have "mapped_in (trace s') = off_zero (mapped_in (trace s')) + filter_mset (\<lambda>b. fst b = 0) (mapped_in (trace s'))"
    unfolding off_zero_def using multiset_partition [of "mapped_in (trace s')" "\<lambda>b. fst b \<noteq> 0"] by simp
  then show ?thesis using b by (simp add: books_def)
qed

theorem tx_books_balance_witness:
  "\<exists>l t s'. tx_run pdata0 chan0 (tx_chan_of (fst (mac_tx_desc_init chan0 (zero_ring 2, empty_kern))),
       snd (mac_tx_desc_init chan0 (zero_ring 2, empty_kern))) l (t, s') \<and> \<not> log_cut l \<and>
     mset [7] = freed_in (trace s') + mset (somes (map item_skb (tx_queue (tx_ring t))))"
proof -
  obtain r0 s0 l t s' where e: "mac_tx_desc_init chan0 (zero_ring 2, empty_kern) = (r0, s0)"
    "tx_run pdata0 chan0 ((tx_chan_of r0)\<lparr>tx_ring := r0\<rparr>, s0) l (t, s')" "\<not> log_cut l" "log_taken l = [7]" using example_run by blast
  have b: "books [] [] (trace empty_kern)" by (simp add: books_def empty_kern_def)
  have n: "new_ring (zero_ring 2)" by (rule new_zero_ring) simp
  have c: "(tx_chan_of r0)\<lparr>tx_ring := r0\<rparr> = tx_chan_of r0" by (simp add: tx_chan_of_def)
  show ?thesis
    using tx_books_balance [OF n e(1) b _ e(2,3)] e by (intro exI [of _ l] exI [of _ t] exI [of _ s']) (simp add: chan0_def c)
qed

text \<open>
  C4. With the link up, room for the descriptors that \<open>mac_prep_tx_pkt\<close> counts, and memory, \<open>mac_xmit\<close>
  appends a packet to the queue: its descriptors are all the card's, only the last is marked as the
  last, and only that one holds the packet's buffer, to be freed when it completes. The buffers
  mapped are those of the header, the linear part and the fragments, in this order.
\<close>

theorem xmit_appends_packet:
  assumes "tx_wf (tx_ring t)" "skb_ok k" "skb_len k \<noteq> 0" "fst (mac_get_link_status E 0 s) = 0"
    "desc_count (mac_prep_tx_pkt (tx_ring t) k no_pkt) \<le> mac_tx_avail_desc (tx_ring t)" "\<forall>h. alloc_ok E h"
    "mac_xmit E X p ch k (t, s) = (ret, t', s')"
  shows "ret = NETDEV_TX_OK \<and>
    (\<exists>xs bufs. tx_queue (tx_ring t') = tx_queue (tx_ring t) @ xs \<and> xs \<noteq> [] \<and> (\<forall>x \<in> set xs. own (item_desc x)) \<and>
      (\<forall>n < length xs. last_item (xs ! n) \<longleftrightarrow> n = length xs - 1) \<and> somes (map item_skb xs) = [skb_id k] \<and>
      (\<forall>x \<in> set xs. item_skb x = (if last_item x then Some (skb_id k) else None)) \<and>
      map snd bufs = skb_areas k \<and> somes (map item_buf xs) = filter (\<lambda>b. fst b \<noteq> 0) bufs)"
proof -
  have room: "pending (tx_ring t) + prep_count (tx_ring t) k \<le> ring_size (tx_ring t)"
    using assms(5) avail_room [OF assms(1) prep_count_small [OF assms(2)]] by (simp add: prep_pkt(3))
  obtain ev where "sent ch k (ridx (tx_ring t) (cur (tx_ring t))) (tx_queue (tx_ring t)) (tx_queue (tx_ring t')) ret ev"
    using xmit_outcome [OF assms(1,2) _ assms(7)] assms(3,4,6) room by blast
  then obtain tso vlan ic i bufs where o: "ret = NETDEV_TX_OK" "map snd bufs = skb_areas k" "bufs \<noteq> []"
    "tx_queue (tx_ring t') = tx_queue (tx_ring t) @ packet_items tso vlan ic i (skb_id k) bufs"
    unfolding sent_def by blast
  let ?xs = "packet_items tso vlan ic i (skb_id k) bufs"
  have "0 < length ?xs" using o(3) packet_items_shape(1) [OF o(3), of tso vlan ic i "skb_id k"] by simp
  then have "?xs \<noteq> []" by blast
  moreover have "item_skb x = (if last_item x then Some (skb_id k) else None)" if "x \<in> set ?xs" for x
    using packet_items_shape(4) [OF o(3), of tso vlan ic i "skb_id k"] that by blast
  ultimately show ?thesis using o(1,2,4) packet_items_shape(2,3,5,6) [OF o(3), of tso vlan ic i "skb_id k"]
    by (intro conjI exI [of _ ?xs] exI [of _ bufs]) simp_all
qed

theorem xmit_appends_packet_witness:
  "\<exists>t' s'. mac_xmit up_env (\<lambda>_ _. False) pdata0 chan0 packet7 (tx_chan_of (fresh_ring 2), empty_kern) = (NETDEV_TX_OK, t', s') \<and>
     somes (map item_skb (tx_queue (tx_ring t'))) = [7]"
proof -
  obtain ret t' s' where x: "mac_xmit up_env (\<lambda>_ _. False) pdata0 chan0 packet7 (tx_chan_of (fresh_ring 2), empty_kern) = (ret, t', s')"
    by (metis prod_cases3)
  have r: "(fresh_ring 2)\<lparr>cur := 0, dirty := 0\<rparr> = fresh_ring 2" by (simp add: fresh_ring_def zero_ring_def)
  have w: "tx_wf (fresh_ring 2)" "tx_queue (fresh_ring 2) = []" using fresh_wf [of 2 0 0, unfolded r] by simp_all
  have d: "desc_count (mac_prep_tx_pkt (fresh_ring 2) packet7 no_pkt) \<le> mac_tx_avail_desc (fresh_ring 2)"
    by (simp add: prep_pkt(3) packet7_facts mac_tx_avail_desc_def fresh_ring_def zero_ring_def)
  have t: "tx_ring (tx_chan_of r) = r" for r by (simp add: tx_chan_of_def)
  show ?thesis
    using xmit_appends_packet [OF _ packet7_facts(1,2,5) _ _ x, unfolded t, OF w(1) d] x w(2) packet7_facts(3,6) by auto
qed

text \<open>
  C21. \<open>mac_tx_poll\<close> takes the completed entries off the front of the queue, up to half a ring, stops at
  the first the card still owns, and returns their number; what it gives back are just the mappings
  and packets of these entries, in order.
\<close>

theorem poll_takes_completed:
  fixes t :: tx_chan
  defines "q \<equiv> tx_queue (tx_ring t)"
  defines "j \<equiv> length (takeWhile (\<lambda>x. \<not> own (item_desc x)) (take 2048 q))"
  assumes "tx_wf (tx_ring t)" "has_tx_ring ch" "mac_tx_poll ch (t, s) = (ret, t', s')"
  shows "ret = int j \<and> tx_queue (tx_ring t') = drop j q \<and>
    (\<exists>ev. trace s' = ev @ trace s \<and> filter gives ev = concat (rev (map item_events (take j q))))"
proof -
  have j: "completed (unat MAC_TX_DESC_MAX_PROC) q = j" by (simp add: completed_def j_def complete_own)
  note v = poll_outcome [OF assms(3-5), folded q_def, unfolded j]
  obtain ev where ev: "trace s' = (if j = 0 then [] else
          (if queue_stopped (tx_ring t) \<and> \<not> queue_stopped (tx_ring t') then [Equeue_wake (queue_index ch)] else []) @
          [Equeue_done (queue_index ch) (sum_last item_packets (take j q)) (sum_last item_bytes (take j q))]) @ ev @ trace s"
       "filter gives ev = concat (rev (map item_events (take j q)))"
    using v by blast
  let ?pre = "if j = 0 then [] else
          (if queue_stopped (tx_ring t) \<and> \<not> queue_stopped (tx_ring t') then [Equeue_wake (queue_index ch)] else []) @
          [Equeue_done (queue_index ch) (sum_last item_packets (take j q)) (sum_last item_bytes (take j q))]"
  have "trace s' = (?pre @ ev) @ trace s" "filter gives (?pre @ ev) = concat (rev (map item_events (take j q)))"
    using ev by simp_all
  then show ?thesis using v by blast
qed

theorem poll_takes_completed_witness:
  "\<exists>t' s'. mac_tx_poll chan0 (tx_chan_of ((fresh_ring 2)\<lparr>cur := 1, dirty := 0\<rparr>), empty_kern) = (1, t', s') \<and>
     tx_queue (tx_ring t') = []"
proof -
  let ?r = "(fresh_ring 2)\<lparr>cur := 1, dirty := 0\<rparr>"
  obtain ret t' s' where x: "mac_tx_poll chan0 (tx_chan_of ?r, empty_kern) = (ret, t', s')" by (metis prod_cases3)
  have w: "tx_wf ?r" "length (tx_queue ?r) = 1" "\<forall>x \<in> set (tx_queue ?r). item_desc x = no_desc"
    using fresh_wf [of 2 1 0] by auto
  obtain y where y: "tx_queue ?r = [y]" using w(2) by (metis One_nat_def length_0_conv length_Suc_conv)
  then have y2: "item_desc y = no_desc" using w(3) by (metis list.set_intros(1))
  have t: "tx_ring (tx_chan_of r) = r" for r by (simp add: tx_chan_of_def)
  have l: "length (takeWhile (\<lambda>x. \<not> own (item_desc x)) (take 2048 (tx_queue ?r))) = 1"
    unfolding y using y2 no_desc_not_own by simp
  have c: "has_tx_ring chan0" by (simp add: chan0_def)
  note v = poll_takes_completed [OF _ c x, unfolded t l y, OF w(1)]
  then have "ret = 1" "tx_queue (tx_ring t') = []" using y2 no_desc_not_own by simp_all
  then show ?thesis unfolding x by blast
qed

text \<open>
  C8. A packet is handed to the card at once: when \<open>mac_xmit\<close> has added to the queue, the last store to
  the descriptors set the owner bit of the packet's first descriptor, a write barrier stood before
  it, and no earlier store of the call had set that bit. So the card, which takes descriptors in
  order, sees none of them before all are written.
\<close>

theorem first_descriptor_last:
  assumes "tx_wf (tx_ring t)" "skb_ok k" "unat (cur (tx_ring t)) + ring_size (tx_ring t) < 2 ^ 32 \<or> (\<forall>h. alloc_ok E h)"
    "mac_xmit E X p ch k (t, s) = (ret, t', s')" "tx_queue (tx_ring t') \<noteq> tx_queue (tx_ring t)"
  shows "\<exists>late v before. trace s' = late @ Edesc (ridx (tx_ring t) (cur (tx_ring t))) 3 v # Ewmb # before @ trace s \<and>
    list_all signal late \<and> bit v 31 \<and> quiet before (ridx (tx_ring t) (cur (tx_ring t)))"
proof -
  obtain ev where ev: "trace s' = ev @ trace s"
    "sent ch k (ridx (tx_ring t) (cur (tx_ring t))) (tx_queue (tx_ring t)) (tx_queue (tx_ring t')) ret ev"
    using xmit_outcome [OF assms(1-4)] assms(5) by (auto simp: refused_def dropped_def)
  then show ?thesis using sent_view [OF ev(2)] by auto
qed

theorem first_descriptor_last_witness:
  "\<exists>late v before. trace (snd (snd (mac_xmit up_env (\<lambda>_ _. False) pdata0 chan0 packet7 (tx_chan_of (fresh_ring 2), empty_kern)))) =
     late @ Edesc 0 3 v # Ewmb # before \<and> bit v 31 \<and> quiet before 0"
proof -
  obtain ret t' s' where x: "mac_xmit up_env (\<lambda>_ _. False) pdata0 chan0 packet7 (tx_chan_of (fresh_ring 2), empty_kern) = (ret, t', s')"
    by (metis prod_cases3)
  have r: "(fresh_ring 2)\<lparr>cur := 0, dirty := 0\<rparr> = fresh_ring 2" by (simp add: fresh_ring_def zero_ring_def)
  have w: "tx_wf (fresh_ring 2)" "tx_queue (fresh_ring 2) = []" using fresh_wf [of 2 0 0, unfolded r] by simp_all
  have t: "tx_ring (tx_chan_of r) = r" for r by (simp add: tx_chan_of_def)
  have i: "ridx (fresh_ring 2) (cur (fresh_ring 2)) = 0" by (simp add: ridx_def fresh_ring_def zero_ring_def)
  have p: "pending (fresh_ring 2) = 0" "ring_size (fresh_ring 2) = 4"
    by (simp_all add: pending_def ring_size_def fresh_ring_def zero_ring_def)
  have al: "unat (cur (fresh_ring 2)) + ring_size (fresh_ring 2) < 2 ^ 32 \<or> (\<forall>h. alloc_ok up_env h)"
    using packet7_facts(6) by blast
  obtain ev where "sent chan0 packet7 0 [] (tx_queue (tx_ring t')) ret ev"
    using xmit_outcome [OF _ packet7_facts(1) _ x, unfolded t i w(2) p, OF w(1)] al packet7_facts by (auto simp: p)
  then obtain tso vlan ic bufs and i :: mac_pkt_info where q: "bufs \<noteq> []" "tx_queue (tx_ring t') = packet_items tso vlan ic i 7 bufs"
    using packet7_facts(3) unfolding sent_def by auto
  have "somes (map item_skb (tx_queue (tx_ring t'))) = [7]" unfolding q(2) by (rule packet_items_shape(6) [OF q(1)])
  then have "tx_queue (tx_ring t') \<noteq> tx_queue (fresh_ring 2)" unfolding w(2) by auto
  then obtain late v before where e: "trace s' = late @ Edesc 0 3 v # Ewmb # before @ trace empty_kern" "bit v 31" "quiet before 0"
    using first_descriptor_last [OF _ packet7_facts(1) _ x, unfolded t i, OF w(1) al] by blast
  then show ?thesis unfolding x snd_conv
    by (intro exI [of _ late] exI [of _ v] exI [of _ before]) (simp add: empty_kern_def)
qed

text \<open>
  C31. First in, first out: over any run of sends, stores of the card and polls, from any well-formed
  ring, the entries the polls have taken, followed by those still pending, are the entries there
  were, followed by the entries of the packets that \<open>mac_xmit\<close> has queued, packet by packet in the
  order of the calls. The entries of a packet map its areas in order, and its last one holds it. The
  descriptors themselves are left out, for the card rewrites them. As in C5, the log has no unwinding cut short.
\<close>

theorem tx_in_order:
  assumes "tx_run p ch z l z'" "\<not> log_cut l" "has_tx_ring ch" "tx_wf (tx_ring (fst z))"
  shows "\<exists>xss. list_all2 packet_entries (log_queued l) xss \<and>
    map soft (tx_queue (tx_ring (fst z))) @ concat xss = map soft (log_off l) @ map soft (tx_queue (tx_ring (fst z')))"
  using tx_fifo.in_order [OF tx_run_fifo [OF assms(1-3)]] assms(4) by (auto simp: tx_ok_def tx_items_def)

theorem tx_in_order_witness:
  "\<exists>l z' xs. tx_run pdata0 chan0 (tx_chan_of ((fresh_ring 2)\<lparr>cur := 1, dirty := 0\<rparr>), empty_kern) l z' \<and>
     log_queued l = [packet7] \<and> length (log_off l) = 1 \<and> packet_entries packet7 xs \<and>
     map soft (tx_queue ((fresh_ring 2)\<lparr>cur := 1, dirty := 0\<rparr>)) @ xs = map soft (log_off l) @ map soft (tx_queue (tx_ring (fst z')))"
proof -
  let ?r = "(fresh_ring 2)\<lparr>cur := 1, dirty := 0\<rparr>"
  let ?z = "(tx_chan_of ?r, empty_kern)"
  obtain ret t s where x: "mac_tx_poll chan0 ?z = (ret, t, s)" by (metis prod_cases3)
  obtain ret' t' s' where y: "mac_xmit up_env (\<lambda>_ _. False) pdata0 chan0 packet7 (t, s) = (ret', t', s')" by (metis prod_cases3)
  have w: "tx_wf ?r" "length (tx_queue ?r) = 1" "\<forall>x \<in> set (tx_queue ?r). item_desc x = no_desc" "ring_size ?r = 4"
    using fresh_wf [of 2 1 0] by auto
  obtain e where e: "tx_queue ?r = [e]" using w(2) by (metis One_nat_def length_0_conv length_Suc_conv)
  have rg: "tx_ring (tx_chan_of r) = r" for r by (simp add: tx_chan_of_def)
  have c: "has_tx_ring chan0" by (simp add: chan0_def)
  have one: "completed (unat MAC_TX_DESC_MAX_PROC) (tx_queue ?r) = 1"
    using w(3) no_desc_not_own by (simp add: e completed_def complete_own)
  have p: "ret = 1" "tx_wf (tx_ring t)" "tx_queue (tx_ring t) = []" "ring_size (tx_ring t) = 4"
    "cur (tx_ring t) = 1"
    using poll_outcome [OF _ c x, unfolded rg, OF w(1)] cur_poll [OF _ c x, unfolded rg, OF w(1)] w(2,4) unfolding one by simp_all
  define l where "l = log_send (tx_ring t) packet7 ret' (new_events s s') (log_poll [e] no_log)"
  have "tx_run pdata0 chan0 ?z (log_poll [e] no_log) (t, s)"
    using tx_run.poll [OF tx_run.start x, where p = pdata0] by (simp add: p(1) rg e)
  from tx_run.xmit [OF this packet7_facts(1) y] have run: "tx_run pdata0 chan0 ?z l (t', s')" by (simp add: l_def)
  have q: "log_queued l = [packet7]" "log_off l = [e]"
    using packet7_sent(2) [OF p(2,3) _ y] p(4) by (simp_all add: l_def)
  have uncut: "\<not> log_cut l" unfolding l_def by (simp add: packet7_uncut p(5))
  obtain xss where "list_all2 packet_entries [packet7] xss"
    "map soft (tx_queue ?r) @ concat xss = map soft (log_off l) @ map soft (tx_queue (tx_ring t'))"
    using tx_in_order [OF run uncut c, unfolded fst_conv rg, OF w(1)] unfolding q(1) by blast
  moreover from this(1) obtain xs where "xss = [xs]" "packet_entries packet7 xs" by (auto simp: list_all2_Cons1)
  ultimately show ?thesis using run q by (intro exI [of _ l] exI [of _ "(t', s')"] exI [of _ xs]) simp
qed

text \<open>
  A stopped queue starts again: when the card has completed all that is pending, and there is
  something, at most that many polls empty the ring and wake the queue.
\<close>

theorem stopped_queue_wakes:
  assumes "tx_wf (tx_ring t)" "has_tx_ring ch" "\<forall>x \<in> set (tx_queue (tx_ring t)). \<not> own (item_desc x)"
    "unat MAC_TX_DESC_MIN_FREE < ring_size (tx_ring t)" "tx_queue (tx_ring t) \<noteq> []"
  shows "\<exists>n \<le> length (tx_queue (tx_ring t)).
    tx_queue (tx_ring (fst (polls ch n (t, s)))) = [] \<and> \<not> queue_stopped (tx_ring (fst (polls ch n (t, s))))"
proof -
  obtain n t' s' where "n \<le> length (tx_queue (tx_ring t))" "polls ch n (t, s) = (t', s')" "tx_queue (tx_ring t') = []"
    "\<not> queue_stopped (tx_ring t')" using polls_empty [OF assms(1-4)] assms(5) by blast
  then show ?thesis by (intro exI [of _ n]) simp
qed

theorem stopped_queue_wakes_witness:
  "\<exists>n. \<not> queue_stopped (tx_ring (fst (polls chan0 n
     (tx_chan_of ((fresh_ring 10)\<lparr>cur := 1000, dirty := 0, queue_stopped := True\<rparr>), empty_kern))))"
proof -
  let ?r = "(fresh_ring 10)\<lparr>cur := 1000, dirty := 0\<rparr>"
  have w: "tx_wf ?r" "ring_size ?r = 1024" "length (tx_queue ?r) = 1000" "\<forall>x \<in> set (tx_queue ?r). item_desc x = no_desc"
    using fresh_wf [of 10 1000 0] by auto
  have t: "tx_ring (tx_chan_of r) = r" for r by (simp add: tx_chan_of_def)
  have "tx_wf (?r\<lparr>queue_stopped := True\<rparr>)" "ring_size (?r\<lparr>queue_stopped := True\<rparr>) = 1024" "tx_queue (?r\<lparr>queue_stopped := True\<rparr>) = tx_queue ?r"
    using w by (simp_all only: tx_other_fields) (simp add: ring_size_def)
  moreover have "tx_queue ?r \<noteq> []" using w(3) by auto
  ultimately show ?thesis
    using stopped_queue_wakes [of "tx_chan_of (?r\<lparr>queue_stopped := True\<rparr>)" chan0 empty_kern] w(4) no_desc_not_own
    unfolding t by (auto simp: chan0_def)
qed

text \<open>
  When a buffer cannot be mapped, \<open>mac_map_tx_skb\<close> unmaps those it has mapped, unless the 32-bit
  counter wraps within the packet: the loop compares the counters, does not run, and every mapping
  made so far is lost.
\<close>

theorem map_failure_undone_unless_wrap:
  assumes "tx_wf (tx_ring t)" "packet_areas k (pkt_info (tx_ring t)) \<noteq> []"
    "pending (tx_ring t) + needs_context (tx_ring t) + length (packet_areas k (pkt_info (tx_ring t))) \<le> ring_size (tx_ring t)"
    "mac_map_tx_skb E k (tx_ring t, s) = (0, r', s')"
  shows "\<exists>bufs. trace s' =
    (if unat (cur (tx_ring t)) + needs_context (tx_ring t) + length bufs < 2 ^ 32 then taken_back bufs else []) @
    Edma_fail # rev (map emap bufs) @ trace s"
proof -
  let ?r = "tx_ring t" and ?c = "needs_context (tx_ring t)"
  have sh: "ring_shape ?r" using assms(1) by (simp add: tx_wf_def)
  have to: "\<forall>j < ring_size ?r. tx_only (ent_data ?r (cur ?r) j)" using tx_only_cur [OF assms(1)] by blast
  have room: "?c + length (packet_areas k (pkt_info ?r)) \<le> ring_size ?r" using assms(3) by simp
  obtain bufs where b: "length bufs \<le> length (packet_areas k (pkt_info ?r))" "trace s' = concat (rev (map (\<lambda>j. unmap_events
      (buf_data ?c bufs (ent_data ?r (cur ?r)) j)) [0..<undone (cur ?r) (?c + length bufs)])) @ Edma_fail # rev (map emap bufs) @ trace s"
    using map_tx_skb_failure [OF sh room assms(2) to assms(4)] by blast
  have "blank (ent_data ?r (cur ?r) j) = ent_data ?r (cur ?r) j" if "j < ?c + length bufs" for j
    using free_at_cur [OF assms(1), of j] that b(1) assms(3) by auto
  then have "concat (rev (map (\<lambda>j. unmap_events (buf_data ?c bufs (ent_data ?r (cur ?r)) j)) [0..<?c + length bufs])) = taken_back bufs"
    by (intro undone_events) simp
  then show ?thesis using b(2) by (intro exI [of _ bufs]) (simp add: undone_def add.assoc)
qed

text \<open>One mapping succeeds at the end of the counter, the next fails: the first is lost.\<close>

definition poor_card :: env where
  "poor_card = up_env\<lparr>alloc_ok := \<lambda>t. t = []\<rparr>"

theorem map_failure_undone_unless_wrap_witness:
  "trace (snd (snd (mac_map_tx_skb poor_card (packet7\<lparr>frags := [100]\<rparr>) ((fresh_ring 2)\<lparr>cur := - 1, dirty := - 1\<rparr>, empty_kern)))) =
     [Edma_fail, Edma_map 0x2000 60 False]"
proof -
  let ?r = "(fresh_ring 2)\<lparr>cur := - 1, dirty := - 1\<rparr>" and ?k = "packet7\<lparr>frags := [100]\<rparr>"
  have w: "tx_wf ?r" "ring_size ?r = 4" "pending ?r = 0"
    using fresh_wf [of 2 "- 1" "- 1"] by (simp_all add: pending_def)
  obtain n r' s' where m: "mac_map_tx_skb poor_card ?k (?r, empty_kern) = (n, r', s')" by (metis prod_cases3)
  have a: "packet_areas ?k (pkt_info ?r) = [(60, False), (100, True)]" "needs_context ?r = 0"
    by (simp_all add: packet_areas_def area_simps packet7_def fresh_ring_def zero_ring_def no_pkt_def tx_attr_def
        MAC_GET_REG_BITS_def needs_context_def tso_context_def vlan_context_def)
  have v: "n = 0 \<and> trace s' = [Edma_fail, Edma_map 0x2000 60 False]"
    using m by (auto simp: mac_map_tx_skb_def map_skb_def map_header_def map_area.simps dma_map_def Let_def packet7_def fresh_ring_def
        zero_ring_def no_pkt_def tx_attr_def MAC_GET_REG_BITS_def tso_context_def vlan_context_def poor_card_def up_env_def
        empty_kern_def emit_def add_length_def)
  then have "mac_map_tx_skb poor_card ?k (tx_ring (tx_chan_of ?r), empty_kern) = (0, r', s')" using m by (simp add: tx_chan_of_def)
  from map_failure_undone_unless_wrap [OF _ _ _ this] w a v m show ?thesis by (simp add: tx_chan_of_def)
qed

end
