(* ===== verification/Rx.thy ===== *)
theory Rx
  imports Xmit
begin

text \<open>
  The receive path (bx_mac_desc.c, bx_mac_hw.c, bx_mac_net.c): pages are mapped for the card, cut into
  header and payload buffers and handed out through the ring; a poll turns what the card has written
  into socket buffers. \<open>None\<close> is the result of a run that dereferences a null page or descriptor, or
  uses a socket buffer that has been freed, or does not end.
\<close>

section \<open>Register map\<close>

text \<open>Register offsets, and fields as position and length, from the headers.\<close>

abbreviation (input) DMA_CH_RDLR_HI :: u32 where "DMA_CH_RDLR_HI \<equiv> 0x18"
abbreviation (input) DMA_CH_RDLR_LO :: u32 where "DMA_CH_RDLR_LO \<equiv> 0x1c"
abbreviation (input) DMA_CH_RDRLR :: u32 where "DMA_CH_RDRLR \<equiv> 0x34"
abbreviation (input) DMA_CH_RDTR_LO :: u32 where "DMA_CH_RDTR_LO \<equiv> 0x2c"
abbreviation (input) MAC_RX_DESC_MAX_DIRTY :: u32 where "MAC_RX_DESC_MAX_DIRTY \<equiv> 0x200"
abbreviation (input) MAC_SKB_ALLOC_SIZE :: u32 where "MAC_SKB_ALLOC_SIZE \<equiv> 0x200"
abbreviation (input) RX_CONTEXT_DESC3_TSA :: "nat \<times> nat" where "RX_CONTEXT_DESC3_TSA \<equiv> (4, 1)"
abbreviation (input) RX_CONTEXT_DESC3_TSD :: "nat \<times> nat" where "RX_CONTEXT_DESC3_TSD \<equiv> (6, 1)"
abbreviation (input) RX_DESC3_L34T_IPV4_TCP :: u32 where "RX_DESC3_L34T_IPV4_TCP \<equiv> 0x1"
abbreviation (input) RX_DESC3_L34T_IPV4_UDP :: u32 where "RX_DESC3_L34T_IPV4_UDP \<equiv> 0x2"
abbreviation (input) RX_DESC3_L34T_IPV6_TCP :: u32 where "RX_DESC3_L34T_IPV6_TCP \<equiv> 0x9"
abbreviation (input) RX_DESC3_L34T_IPV6_UDP :: u32 where "RX_DESC3_L34T_IPV6_UDP \<equiv> 0xa"
abbreviation (input) RX_NORMAL_DESC0_OVT :: "nat \<times> nat" where "RX_NORMAL_DESC0_OVT \<equiv> (0, 16)"
abbreviation (input) RX_NORMAL_DESC2_HL :: "nat \<times> nat" where "RX_NORMAL_DESC2_HL \<equiv> (0, 10)"
abbreviation (input) RX_NORMAL_DESC3_CDA :: "nat \<times> nat" where "RX_NORMAL_DESC3_CDA \<equiv> (27, 1)"
abbreviation (input) RX_NORMAL_DESC3_CTXT :: "nat \<times> nat" where "RX_NORMAL_DESC3_CTXT \<equiv> (30, 1)"
abbreviation (input) RX_NORMAL_DESC3_ES :: "nat \<times> nat" where "RX_NORMAL_DESC3_ES \<equiv> (15, 1)"
abbreviation (input) RX_NORMAL_DESC3_ETLT :: "nat \<times> nat" where "RX_NORMAL_DESC3_ETLT \<equiv> (16, 4)"
abbreviation (input) RX_NORMAL_DESC3_FD :: "nat \<times> nat" where "RX_NORMAL_DESC3_FD \<equiv> (29, 1)"
abbreviation (input) RX_NORMAL_DESC3_INTE :: "nat \<times> nat" where "RX_NORMAL_DESC3_INTE \<equiv> (30, 1)"
abbreviation (input) RX_NORMAL_DESC3_L34T :: "nat \<times> nat" where "RX_NORMAL_DESC3_L34T \<equiv> (20, 4)"
abbreviation (input) RX_NORMAL_DESC3_LD :: "nat \<times> nat" where "RX_NORMAL_DESC3_LD \<equiv> (28, 1)"
abbreviation (input) RX_NORMAL_DESC3_OWN :: "nat \<times> nat" where "RX_NORMAL_DESC3_OWN \<equiv> (31, 1)"
abbreviation (input) RX_NORMAL_DESC3_PL :: "nat \<times> nat" where "RX_NORMAL_DESC3_PL \<equiv> (0, 14)"
abbreviation (input) RX_NORMAL_DESC3_RSV :: "nat \<times> nat" where "RX_NORMAL_DESC3_RSV \<equiv> (26, 1)"
abbreviation (input) RX_PACKET_ATTRIBUTES_CONTEXT :: "nat \<times> nat" where "RX_PACKET_ATTRIBUTES_CONTEXT \<equiv> (4, 1)"
abbreviation (input) RX_PACKET_ATTRIBUTES_CONTEXT_NEXT :: "nat \<times> nat" where "RX_PACKET_ATTRIBUTES_CONTEXT_NEXT \<equiv> (3, 1)"
abbreviation (input) RX_PACKET_ATTRIBUTES_CSUM_DONE :: "nat \<times> nat" where "RX_PACKET_ATTRIBUTES_CSUM_DONE \<equiv> (0, 1)"
abbreviation (input) RX_PACKET_ATTRIBUTES_INCOMPLETE :: "nat \<times> nat" where "RX_PACKET_ATTRIBUTES_INCOMPLETE \<equiv> (2, 1)"
abbreviation (input) RX_PACKET_ATTRIBUTES_RSS_HASH :: "nat \<times> nat" where "RX_PACKET_ATTRIBUTES_RSS_HASH \<equiv> (6, 1)"
abbreviation (input) RX_PACKET_ATTRIBUTES_RX_TSTAMP :: "nat \<times> nat" where "RX_PACKET_ATTRIBUTES_RX_TSTAMP \<equiv> (5, 1)"
abbreviation (input) RX_PACKET_ATTRIBUTES_VLAN_CTAG :: "nat \<times> nat" where "RX_PACKET_ATTRIBUTES_VLAN_CTAG \<equiv> (1, 1)"
abbreviation (input) RX_PACKET_ERRORS_FRAME :: "nat \<times> nat" where "RX_PACKET_ERRORS_FRAME \<equiv> (3, 1)"

section \<open>State\<close>

text \<open>
  A socket buffer under construction: the source of the bytes copied to its linear part (page,
  offset), their number, and its fragments (page, offset, size, size accounted for).
\<close>

record rx_skb =
  lin_page :: nat
  lin_off :: u32
  lin_len :: u32
  rx_frags :: "(nat \<times> u32 \<times> u32 \<times> u32) list"
  protocol :: u16
  csum_unnecessary :: bool
  hwaccel_vlan :: "u16 option"
  rx_hash :: "(u32 \<times> pkt_hash) option"
  rx_queue :: "nat option"

definition rx_skb_len :: "rx_skb \<Rightarrow> u32" where
  "rx_skb_len k = lin_len k + (\<Sum>(p, off, size, truesize)\<leftarrow>rx_frags k. size)"

text \<open>
  A channel's receive ring. The entries from \<open>rx_linked_to\<close> on have a null descriptor pointer. \<open>skbs\<close> holds
  the socket buffers the driver has, \<open>stack\<close> those it has passed to \<open>napi_gro_receive\<close>, newest first.
\<close>

record rx_chan =
  rx_ring :: mac_ring
  rx_linked_to :: nat
  skbs :: "nat \<Rightarrow> rx_skb option"
  stack :: "(nat \<times> rx_skb) list"
  rx_split_header_packets :: u64
  rx_vlan_packets :: u64

definition set_ring :: "mac_ring \<Rightarrow> rx_chan \<Rightarrow> rx_chan" where
  "set_ring r t = t\<lparr>rx_ring := r\<rparr>"

section \<open>Buffers\<close>

definition PAGE_SIZE :: u32 where "PAGE_SIZE = 4096"

text \<open>\<open>PAGE_ALLOC_COSTLY_ORDER\<close> is 3.\<close>

definition rx_buf_order :: nat where "rx_buf_order = 2"

fun alloc_pages :: "env \<Rightarrow> nat \<Rightarrow> kern \<Rightarrow> (nat \<times> nat) option \<times> kern" where
  "alloc_pages E order s =
     (if alloc_ok E (trace s)
      then (Some (next_obj s, order), emit (Epage_alloc (next_obj s)) (s\<lparr>next_obj := next_obj s + 1\<rparr>))
      else let s = emit Ekalloc_fail s in
           case order of 0 \<Rightarrow> (None, s) | Suc n \<Rightarrow> alloc_pages E n s)"

declare alloc_pages.simps [simp del]

definition mac_alloc_pages :: "env \<Rightarrow> nat \<Rightarrow> mac_page_alloc \<times> kern \<Rightarrow> int \<times> mac_page_alloc \<times> kern" where
  "mac_alloc_pages E order = (\<lambda>(p, s).
     case alloc_pages E order s of
       (None, s) \<Rightarrow> (- ENOMEM, p, s)
     | (Some (pg, order), s) \<Rightarrow>
         case dma_map E (push_bit order PAGE_SIZE) True s of
           (None, s) \<Rightarrow> (- ENOMEM, p, put_page (Some pg) s)
         | (Some a, s) \<Rightarrow> (0, \<lparr>pages = Some pg, pages_len = push_bit order PAGE_SIZE, pages_offset = 0, pages_dma = a\<rparr>, s))"

definition get_page :: "nat option \<Rightarrow> kern \<Rightarrow> kern" where
  "get_page p s = (case p of None \<Rightarrow> s | Some i \<Rightarrow> emit (Epage_get i) s)"

definition mac_set_buffer_data ::
    "u32 \<Rightarrow> mac_buffer_data \<times> mac_page_alloc \<times> kern \<Rightarrow> mac_buffer_data \<times> mac_page_alloc \<times> kern" where
  "mac_set_buffer_data len = (\<lambda>(b, p, s).
     let s = get_page (pages p) s;
         b = b\<lparr>pa := p, dma_base := pages_dma p, dma_off := ucast (pages_offset p), dma_len := len\<rparr>;
         p = p\<lparr>pages_offset := pages_offset p + len\<rparr>
     in if pages_offset p + len > pages_len p then (b\<lparr>pa_unmap := p\<rparr>, no_page, s) else (b, p, s))"

definition mac_map_rx_buffer ::
    "env \<Rightarrow> net_pdata \<Rightarrow> mac_ring \<times> mac_desc_data \<times> kern \<Rightarrow> int \<times> mac_ring \<times> mac_desc_data \<times> kern" where
  "mac_map_rx_buffer E p = (\<lambda>(r, d, s).
     case (if pages (rx_hdr_pa r) = None then mac_alloc_pages E 0 (rx_hdr_pa r, s) else (0, rx_hdr_pa r, s)) of
       (ret, h, s) \<Rightarrow>
     let r = r\<lparr>rx_hdr_pa := h\<rparr> in
     if ret \<noteq> 0 then (ret, r, d, s)
     else case (if pages (rx_buf_pa r) = None then mac_alloc_pages E rx_buf_order (rx_buf_pa r, s) else (0, rx_buf_pa r, s)) of
       (ret, b, s) \<Rightarrow>
     let r = r\<lparr>rx_buf_pa := b\<rparr> in
     if ret \<noteq> 0 then (ret, r, d, s)
     else case mac_set_buffer_data MAC_SKB_ALLOC_SIZE (rx_hdr (rx d), rx_hdr_pa r, s) of (hb, h, s) \<Rightarrow>
          case mac_set_buffer_data (rx_buf_size p) (rx_buf (rx d), rx_buf_pa r, s) of (bd, b, s) \<Rightarrow>
       (0, r\<lparr>rx_hdr_pa := h, rx_buf_pa := b\<rparr>, d\<lparr>rx := (rx d)\<lparr>rx_hdr := hb, rx_buf := bd\<rparr>\<rparr>, s))"

section \<open>Descriptors of the receiver\<close>

definition rx_inte :: "net_pdata \<Rightarrow> u32 \<Rightarrow> u32" where
  "rx_inte p i =
     (if rx_usecs p = 0 \<and> rx_frames p = 0 then 1
      else if rx_frames p \<noteq> 0 \<and> (i + 1) mod rx_frames p = 0 then 1 else 0)"

definition rx_reset_stores :: "net_pdata \<Rightarrow> mac_desc_data \<Rightarrow> u32 \<Rightarrow> store list" where
  "rx_reset_stores p d i =
     (let hdr_dma = dma_base (rx_hdr (rx d)) + dma_off (rx_hdr (rx d));
          buf_dma = dma_base (rx_buf (rx d)) + dma_off (rx_buf (rx d))
      in [Word 0 (lower_32_bits hdr_dma), Word 1 (upper_32_bits hdr_dma), Word 2 (lower_32_bits buf_dma),
          Word 3 (upper_32_bits buf_dma), Field 3 RX_NORMAL_DESC3_INTE (rx_inte p i)])"

definition mac_rx_desc_reset :: "net_pdata \<Rightarrow> mac_desc_data \<Rightarrow> u32 \<Rightarrow> mac_ring \<times> kern \<Rightarrow> mac_ring \<times> kern" where
  "mac_rx_desc_reset p d i t =
     (case puts (dma_desc d) (rx_reset_stores p d i) t of (r, s) \<Rightarrow>
      case puts (dma_desc d) [Field 3 RX_NORMAL_DESC3_OWN 1] (r, emit Ewmb s) of (r, s) \<Rightarrow> (r, emit Ewmb s))"

text \<open>\<open>mac_rx_desc_init\<close> of bx_mac_hw.c; the entries must have descriptors.\<close>

definition hw_rx_desc_init :: "net_pdata \<Rightarrow> mac_channel \<Rightarrow> nat \<Rightarrow> mac_ring \<times> kern \<Rightarrow> (mac_ring \<times> kern) option" where
  "hw_rx_desc_init p c n t =
     (if n < unat (dma_desc_count (fst t)) then None
      else case fold (\<lambda>i (r, s). mac_rx_desc_reset p (get_data r (word_of_nat i)) (word_of_nat i) (r, s))
             [0..<unat (dma_desc_count (fst t))] t of
        (r, s) \<Rightarrow> let a = dma_desc_addr (get_data r (cur r)) in
          Some (r, mwrites [(dma_regs c + DMA_CH_RDRLR, dma_desc_count r - 1),
                       (dma_regs c + DMA_CH_RDLR_HI, upper_32_bits a),
                       (dma_regs c + DMA_CH_RDLR_LO, lower_32_bits a),
                       (dma_regs c + DMA_CH_RDTR_LO,
                          lower_32_bits (dma_desc_addr (get_data r (cur r + dma_desc_count r - 1))))] s))"

text \<open>The loop of \<open>mac_rx_desc_init\<close>: \<open>n\<close> entries from \<open>j\<close>; it ends at the first that gets no buffer.\<close>

fun map_rx_entries :: "env \<Rightarrow> net_pdata \<Rightarrow> nat \<Rightarrow> nat \<Rightarrow> rx_chan \<times> kern \<Rightarrow> rx_chan \<times> kern" where
  "map_rx_entries E p 0 j t = t"
| "map_rx_entries E p (Suc n) j (t, s) =
     (let r = rx_ring t;
          d = (get_data r (word_of_nat j))\<lparr>dma_desc := j, dma_desc_addr := dma_desc_head_addr r + 16 * word_of_nat j\<rparr>
      in case mac_map_rx_buffer E p (r, d, s) of (ret, r, d, s) \<Rightarrow>
         let t = (set_ring (set_data (word_of_nat j) d r) t)\<lparr>rx_linked_to := max (rx_linked_to t) (j + 1)\<rparr>
         in if ret \<noteq> 0 then (t, s) else map_rx_entries E p n (j + 1) (t, s))"

text \<open>\<open>mac_rx_desc_init\<close> of bx_mac_desc.c, on one channel\<close>

definition mac_rx_desc_init :: "env \<Rightarrow> net_pdata \<Rightarrow> mac_channel \<Rightarrow> rx_chan \<times> kern \<Rightarrow> (rx_chan \<times> kern) option" where
  "mac_rx_desc_init E p c = (\<lambda>(t, s).
     case map_rx_entries E p (unat (dma_desc_count (rx_ring t))) 0 (t, s) of (t, s) \<Rightarrow>
     case hw_rx_desc_init p c (rx_linked_to t) ((rx_ring t)\<lparr>cur := 0, dirty := 0\<rparr>, s) of
       None \<Rightarrow> None | Some (r, s) \<Rightarrow> Some (set_ring r t, s))"

section \<open>Refilling\<close>

definition mac_rx_dirty_desc :: "mac_ring \<Rightarrow> u32" where
  "mac_rx_dirty_desc r = cur r - dirty r"

text \<open>The loop runs while \<open>dirty\<close> is not \<open>cur\<close>, which is \<open>n\<close> steps ahead.\<close>

fun rx_refresh_loop :: "env \<Rightarrow> net_pdata \<Rightarrow> nat \<Rightarrow> mac_ring \<times> kern \<Rightarrow> mac_ring \<times> kern" where
  "rx_refresh_loop E p 0 t = t"
| "rx_refresh_loop E p (Suc n) (r, s) =
     (case mac_unmap_desc_data (get_data r (dirty r), s) of (d, s) \<Rightarrow>
      case mac_map_rx_buffer E p (r, d, s) of (ret, r, d, s) \<Rightarrow>
      let r = set_data (dirty r) d r in
      if ret \<noteq> 0 then (r, s)
      else case mac_rx_desc_reset p (get_data r (dirty r)) (dirty r) (r, s) of (r, s) \<Rightarrow>
           rx_refresh_loop E p n (r\<lparr>dirty := dirty r + 1\<rparr>, s))"

definition mac_rx_refresh :: "env \<Rightarrow> net_pdata \<Rightarrow> mac_channel \<Rightarrow> mac_ring \<times> kern \<Rightarrow> mac_ring \<times> kern" where
  "mac_rx_refresh E p c = (\<lambda>(r, s).
     case rx_refresh_loop E p (unat (mac_rx_dirty_desc r)) (r, s) of (r, s) \<Rightarrow>
     (r, mwrite (dma_regs c + DMA_CH_RDTR_LO) (lower_32_bits (dma_desc_addr (get_data r (dirty r - 1)))) (emit Ewmb s)))"

section \<open>Reading a descriptor\<close>

abbreviation set_pattr :: "field \<Rightarrow> u32 \<Rightarrow> mac_pkt_info \<Rightarrow> mac_pkt_info" where
  "set_pattr f v q \<equiv> q\<lparr>attributes := MAC_SET_REG_BITS (attributes q) f v\<rparr>"

definition mac_get_rx_tstamp :: "mac_dma_desc \<Rightarrow> mac_pkt_info \<Rightarrow> mac_pkt_info" where
  "mac_get_rx_tstamp d q =
     (let tsa = desc_bits d 3 RX_CONTEXT_DESC3_TSA; tsd = desc_bits d 3 RX_CONTEXT_DESC3_TSD;
          nsec = push_bit 32 (ucast (desc1 d)) OR (ucast (desc0 d) :: u64)
      in if tsa \<noteq> 0 \<and> tsd = 0 \<and> nsec \<noteq> 0xffffffffffffffff
         then set_pattr RX_PACKET_ATTRIBUTES_RX_TSTAMP 1 (q\<lparr>rx_tstamp := nsec\<rparr>) else q)"

definition rx_hash_of :: "mac_dma_desc \<Rightarrow> mac_pkt_info \<Rightarrow> mac_pkt_info" where
  "rx_hash_of d q =
     (if desc_bits d 3 RX_NORMAL_DESC3_RSV \<noteq> 0
      then let l34t = desc_bits d 3 RX_NORMAL_DESC3_L34T in
        set_pattr RX_PACKET_ATTRIBUTES_RSS_HASH 1
          (q\<lparr>rss_hash := desc1 d,
             rss_hash_type := (if l34t \<in> {RX_DESC3_L34T_IPV4_TCP, RX_DESC3_L34T_IPV4_UDP, RX_DESC3_L34T_IPV6_TCP,
               RX_DESC3_L34T_IPV6_UDP} then PKT_HASH_TYPE_L4 else PKT_HASH_TYPE_L3)\<rparr>)
      else q)"

text \<open>What the last descriptor of a packet says of its errors and its VLAN tag.\<close>

definition rx_last_of :: "net_pdata \<Rightarrow> mac_dma_desc \<Rightarrow> mac_pkt_info \<Rightarrow> mac_pkt_info" where
  "rx_last_of p d q =
     (let q = set_pattr RX_PACKET_ATTRIBUTES_INCOMPLETE 0 q;
          q = (if f_rxcsum p then set_pattr RX_PACKET_ATTRIBUTES_CSUM_DONE 1 q else q);
          err = desc_bits d 3 RX_NORMAL_DESC3_ES; etlt = desc_bits d 3 RX_NORMAL_DESC3_ETLT
      in if err = 0 \<or> etlt = 0
         then (if etlt = 9 \<and> f_vlan_rx p
               then (set_pattr RX_PACKET_ATTRIBUTES_VLAN_CTAG 1 q)\<lparr>vlan_ctag := ucast (desc_bits d 0 RX_NORMAL_DESC0_OVT)\<rparr>
               else q)
         else if etlt = 5 \<or> etlt = 6 then set_pattr RX_PACKET_ATTRIBUTES_CSUM_DONE 0 q
         else q\<lparr>errors := MAC_SET_REG_BITS (errors q) RX_PACKET_ERRORS_FRAME 1\<rparr>)"

definition set_pkt_info :: "mac_pkt_info \<Rightarrow> rx_chan \<Rightarrow> rx_chan" where
  "set_pkt_info q t = t\<lparr>rx_ring := (rx_ring t)\<lparr>pkt_info := q\<rparr>\<rparr>"

text \<open>A normal descriptor, which is the entry's at \<open>cur\<close>.\<close>

definition rx_read_normal :: "net_pdata \<Rightarrow> mac_dma_desc \<Rightarrow> rx_chan \<Rightarrow> rx_chan" where
  "rx_read_normal p d t =
     (let r = rx_ring t; e = get_data r (cur r);
          q = set_pattr RX_PACKET_ATTRIBUTES_CONTEXT 0 (pkt_info r);
          q = (if desc_bits d 3 RX_NORMAL_DESC3_CDA \<noteq> 0 then set_pattr RX_PACKET_ATTRIBUTES_CONTEXT_NEXT 1 q else q);
          fd = desc_bits d 3 RX_NORMAL_DESC3_FD \<noteq> 0;
          hl = (ucast (desc_bits d 2 RX_NORMAL_DESC2_HL) :: u16);
          e = (if fd then e\<lparr>rx := (rx e)\<lparr>rx_hdr_len := hl\<rparr>\<rparr> else e);
          e = e\<lparr>rx := (rx e)\<lparr>rx_len := ucast (desc_bits d 3 RX_NORMAL_DESC3_PL)\<rparr>\<rparr>;
          q = rx_hash_of d q;
          q = (if desc_bits d 3 RX_NORMAL_DESC3_LD = 0 then set_pattr RX_PACKET_ATTRIBUTES_INCOMPLETE 1 q else rx_last_of p d q)
      in (set_pkt_info q (set_ring (set_data (cur r) e r) t))
           \<lparr>rx_split_header_packets := rx_split_header_packets t + (if fd \<and> hl \<noteq> 0 then 1 else 0)\<rparr>)"

definition mac_dev_read :: "net_pdata \<Rightarrow> rx_chan \<Rightarrow> int \<times> rx_chan" where
  "mac_dev_read p t =
     (let r = rx_ring t; d = get_desc r (cur r) in
      if desc_bits d 3 RX_NORMAL_DESC3_OWN \<noteq> 0 then (1, t)
      else if desc_bits d 3 RX_NORMAL_DESC3_CTXT \<noteq> 0
      then (0, set_pkt_info (set_pattr RX_PACKET_ATTRIBUTES_CONTEXT_NEXT 0
             (set_pattr RX_PACKET_ATTRIBUTES_CONTEXT 1 (mac_get_rx_tstamp d (pkt_info r)))) t)
      else (0, rx_read_normal p d t))"

section \<open>Socket buffers\<close>

text \<open>\<open>dev_kfree_skb\<close>: nothing for a null pointer; the buffer must not have been freed.\<close>

definition kfree_skb :: "nat option \<Rightarrow> rx_chan \<times> kern \<Rightarrow> (rx_chan \<times> kern) option" where
  "kfree_skb k = (\<lambda>(t, s).
     case k of None \<Rightarrow> Some (t, s)
     | Some i \<Rightarrow> if skbs t i = None then None else Some (t\<lparr>skbs := (skbs t)(i := None)\<rparr>, emit (Efree_skb i) s))"

text \<open>
  \<open>skb_add_rx_frag\<close> with the payload buffer of entry \<open>i\<close>, whose page then is the socket buffer's. There is
  room for \<open>MAX_SKB_FRAGS\<close> fragments.
\<close>

definition add_rx_frag :: "nat \<Rightarrow> u32 \<Rightarrow> u32 \<Rightarrow> rx_chan \<times> kern \<Rightarrow> (rx_chan \<times> kern) option" where
  "add_rx_frag k i sz = (\<lambda>(t, s).
     let e = get_data (rx_ring t) i; b = rx_buf (rx e) in
     case (skbs t k, pages (pa b)) of
       (Some b', Some pg) \<Rightarrow>
         if length (rx_frags b') < 17
         then Some (t\<lparr>rx_ring := set_data i (e\<lparr>rx := (rx e)\<lparr>rx_buf := b\<lparr>pa := (pa b)\<lparr>pages := None\<rparr>\<rparr>\<rparr>\<rparr>) (rx_ring t),
                      skbs := (skbs t)(k \<mapsto> b'\<lparr>rx_frags := rx_frags b' @ [(pg, pages_offset (pa b), sz, dma_len b)]\<rparr>)\<rparr>,
                   emit (Eskb_frag k pg) s)
         else None
     | _ \<Rightarrow> None)"

definition mac_create_skb :: "env \<Rightarrow> u32 \<Rightarrow> u32 \<Rightarrow> rx_chan \<times> kern \<Rightarrow> (nat option \<times> rx_chan \<times> kern) option" where
  "mac_create_skb E i len = (\<lambda>(t, s).
     if \<not> alloc_ok E (trace s) then Some (None, t, emit Ekalloc_fail s)
     else let e = get_data (rx_ring t) i; h = rx_hdr (rx e); k = next_obj s;
              s = emit (Eskb_alloc k) (s\<lparr>next_obj := k + 1\<rparr>)
       in case pages (pa h) of
         None \<Rightarrow> None
       | Some pg \<Rightarrow>
           let copy_len = (if rx_hdr_len (rx e) \<noteq> 0 then ucast (rx_hdr_len (rx e)) else len);
               copy_len = min (dma_len h) copy_len;
               b = \<lparr>lin_page = pg, lin_off = pages_offset (pa h), lin_len = copy_len, rx_frags = [], protocol = 0,
                    csum_unnecessary = False, hwaccel_vlan = None, rx_hash = None, rx_queue = None\<rparr>;
               t = t\<lparr>skbs := (skbs t)(k \<mapsto> b)\<rparr>;
               len = len - copy_len
           in if len \<noteq> 0
              then (case add_rx_frag k i len (t, s) of None \<Rightarrow> None | Some (t, s) \<Rightarrow> Some (Some k, t, s))
              else Some (Some k, t, s))"

section \<open>Polling\<close>

text \<open>The local variables of \<open>mac_rx_poll\<close>.\<close>

record rx_vars =
  v_skb :: "nat option"
  v_error :: u32
  v_len :: u32
  v_incomplete :: bool
  v_context_next :: bool
  v_received :: u32
  v_count :: int

datatype rx_goto = Stop | Read_again | Next_packet

abbreviation pattr :: "mac_pkt_info \<Rightarrow> field \<Rightarrow> bool" where
  "pattr q f \<equiv> MAC_GET_REG_BITS (attributes q) f \<noteq> 0"

text \<open>The data of the descriptor of entry \<open>i\<close> joins the packet.\<close>

definition rx_data :: "env \<Rightarrow> u32 \<Rightarrow> rx_vars \<times> rx_chan \<times> kern \<Rightarrow> (rx_vars \<times> rx_chan \<times> kern) option" where
  "rx_data E i = (\<lambda>(v, t, s).
     let dma_desc_len = ucast (rx_len (rx (get_data (rx_ring t) i))) - v_len v;
         v = v\<lparr>v_len := v_len v + dma_desc_len\<rparr>
     in if dma_desc_len = 0 then Some (v, t, s)
        else case v_skb v of
          None \<Rightarrow> (case mac_create_skb E i dma_desc_len (t, s) of
                     None \<Rightarrow> None
                   | Some (None, t, s) \<Rightarrow> Some (v\<lparr>v_error := 1\<rparr>, t, s)
                   | Some (Some k, t, s) \<Rightarrow> Some (v\<lparr>v_skb := Some k\<rparr>, t, s))
        | Some k \<Rightarrow> (case add_rx_frag k i dma_desc_len (t, s) of None \<Rightarrow> None | Some (t, s) \<Rightarrow> Some (v, t, s)))"

definition max_len :: "net_pdata \<Rightarrow> rx_skb \<Rightarrow> u32" where
  "max_len p b = word_of_nat (nd_mtu p) + 14 + (if \<not> f_vlan_rx p \<and> protocol b = 0x8100 then 4 else 0)"

text \<open>A whole packet goes up.\<close>

definition rx_up :: "net_pdata \<Rightarrow> mac_channel \<Rightarrow> nat \<Rightarrow> rx_chan \<times> kern \<Rightarrow> (rx_chan \<times> kern) option" where
  "rx_up p c k = (\<lambda>(t, s).
     case skbs t k of
       None \<Rightarrow> None
     | Some b \<Rightarrow>
         if rx_skb_len b > max_len p b then kfree_skb (Some k) (t, s)
         else let q = pkt_info (rx_ring t);
                  b = b\<lparr>csum_unnecessary := pattr q RX_PACKET_ATTRIBUTES_CSUM_DONE,
                        hwaccel_vlan := (if pattr q RX_PACKET_ATTRIBUTES_VLAN_CTAG then Some (vlan_ctag q) else None),
                        rx_hash := (if pattr q RX_PACKET_ATTRIBUTES_RSS_HASH then Some (rss_hash q, rss_hash_type q) else None),
                        rx_queue := Some (queue_index c)\<rparr>
              in Some (t\<lparr>skbs := (skbs t)(k := None), stack := (k, b) # stack t,
                         rx_vlan_packets := rx_vlan_packets t + (if pattr q RX_PACKET_ATTRIBUTES_VLAN_CTAG then 1 else 0)\<rparr>,
                       emit (Erx_skb k) s))"

text \<open>From \<open>read_again\<close> to the next jump.\<close>

definition rx_step :: "env \<Rightarrow> net_pdata \<Rightarrow> mac_channel \<Rightarrow> rx_vars \<times> rx_chan \<times> kern \<Rightarrow>
    (rx_goto \<times> rx_vars \<times> rx_chan \<times> kern) option" where
  "rx_step E p c = (\<lambda>(v, t, s).
     let (t, s) = (if mac_rx_dirty_desc (rx_ring t) > MAC_RX_DESC_MAX_DIRTY
                   then (case mac_rx_refresh E p c (rx_ring t, s) of (r, s) \<Rightarrow> (set_ring r t, s)) else (t, s));
         i = cur (rx_ring t)
     in case mac_dev_read p t of (ret, t) \<Rightarrow>
     if ret \<noteq> 0 then Some (Stop, v, t, s)
     else let t = set_ring ((rx_ring t)\<lparr>cur := i + 1\<rparr>) t; q = pkt_info (rx_ring t);
              v = v\<lparr>v_received := v_received v + 1, v_incomplete := pattr q RX_PACKET_ATTRIBUTES_INCOMPLETE,
                    v_context_next := pattr q RX_PACKET_ATTRIBUTES_CONTEXT_NEXT\<rparr>
       in if (v_incomplete v \<or> v_context_next v) \<and> v_error v \<noteq> 0 then Some (Read_again, v, t, s)
          else if v_error v \<noteq> 0 \<or> errors q \<noteq> 0
          then map_option (\<lambda>(t, s). (Next_packet, v, t, s)) (kfree_skb (v_skb v) (t, s))
          else case (if pattr q RX_PACKET_ATTRIBUTES_CONTEXT then Some (v, t, s) else rx_data E i (v, t, s)) of
            None \<Rightarrow> None
          | Some (v, t, s) \<Rightarrow>
              if v_incomplete v \<or> v_context_next v then Some (Read_again, v, t, s)
              else case v_skb v of None \<Rightarrow> Some (Next_packet, v, t, s)
                | Some k \<Rightarrow> map_option (\<lambda>(t, s). (Next_packet, v, t, s)) (rx_up p c k (t, s)))"

text \<open>The start of a packet: a saved state is taken up by the first.\<close>

definition rx_begin :: "rx_vars \<times> rx_chan \<Rightarrow> rx_vars \<times> rx_chan" where
  "rx_begin = (\<lambda>(v, t).
     let d = get_data (rx_ring t) (cur (rx_ring t)) in
     if v_received v = 0 \<and> state_saved d
     then (v\<lparr>v_skb := state_skb d, v_error := state_error d, v_len := state_len d\<rparr>, t)
     else (v\<lparr>v_skb := None, v_error := 0, v_len := 0\<rparr>, set_pkt_info no_pkt t))"

text \<open>\<open>fresh\<close> at the head of the loop over packets, not at \<open>read_again\<close>.\<close>

partial_function (option) rx_loop :: "env \<Rightarrow> net_pdata \<Rightarrow> mac_channel \<Rightarrow> int \<Rightarrow> bool \<Rightarrow> rx_vars \<times> rx_chan \<times> kern \<Rightarrow>
    (rx_vars \<times> rx_chan \<times> kern) option" where
  "rx_loop E p c budget fresh z =
     (if fresh \<and> v_count (fst z) \<ge> budget then Some z
      else case rx_step E p c (if fresh then (case z of (v, t, s) \<Rightarrow> case rx_begin (v, t) of (v, t) \<Rightarrow> (v, t, s)) else z) of
        None \<Rightarrow> None
      | Some (Stop, z) \<Rightarrow> Some z
      | Some (Read_again, z) \<Rightarrow> rx_loop E p c budget False z
      | Some (Next_packet, v, t, s) \<Rightarrow> rx_loop E p c budget True (v\<lparr>v_count := v_count v + 1\<rparr>, t, s))"

definition rx_vars0 :: rx_vars where
  "rx_vars0 = \<lparr>v_skb = None, v_error = 0, v_len = 0, v_incomplete = False, v_context_next = False, v_received = 0, v_count = 0\<rparr>"

definition mac_rx_poll :: "env \<Rightarrow> net_pdata \<Rightarrow> mac_channel \<Rightarrow> int \<Rightarrow> rx_chan \<times> kern \<Rightarrow> (int \<times> rx_chan \<times> kern) option" where
  "mac_rx_poll E p c budget = (\<lambda>(t, s).
     if \<not> has_rx_ring c then Some (0, t, s)
     else map_option (\<lambda>(v, t, s).
       let r = rx_ring t;
           t = (if v_received v \<noteq> 0 \<and> (v_incomplete v \<or> v_context_next v)
                then set_ring (set_data (cur r) ((get_data r (cur r))\<lparr>state_saved := True, state_skb := v_skb v,
                       state_len := v_len v, state_error := v_error v\<rparr>) r) t
                else t)
       in (v_count v, t, s)) (rx_loop E p c budget True (rx_vars0, t, s)))"

end
