(* ===== verification/Rx_Correct.thy ===== *)
theory Rx_Correct
  imports Rx Tx_Correct
begin

text \<open>
  The receive ring: every page reference and mapping is accounted for, and while the card owns a
  descriptor the buffers it names stay mapped.
\<close>

section \<open>Accounts\<close>

text \<open>References to pages taken and given up, and pages mapped and unmapped, in a history.\<close>

fun ev_got :: "event \<Rightarrow> nat option" where
  "ev_got (Epage_alloc p) = Some p"
| "ev_got (Epage_get p) = Some p"
| "ev_got _ = None"

fun ev_gone :: "event \<Rightarrow> nat option" where
  "ev_gone (Epage_put p) = Some p"
| "ev_gone (Eskb_frag k p) = Some p"
| "ev_gone _ = None"

fun ev_dma :: "event \<Rightarrow> buf option" where
  "ev_dma (Edma_map a l page) = Some (a, l, page)"
| "ev_dma _ = None"

definition got_in :: "event list \<Rightarrow> nat multiset" where "got_in t = mset (somes (map ev_got t))"
definition gone_in :: "event list \<Rightarrow> nat multiset" where "gone_in t = mset (somes (map ev_gone t))"
definition dma_in :: "event list \<Rightarrow> buf multiset" where "dma_in t = mset (somes (map ev_dma t))"

lemmas rx_account_defs = got_in_def gone_in_def dma_in_def

lemma rx_accounts_append [simp]:
  "got_in (xs @ ys) = got_in xs + got_in ys" "gone_in (xs @ ys) = gone_in xs + gone_in ys" "dma_in (xs @ ys) = dma_in xs + dma_in ys"
  by (simp_all add: rx_account_defs)

lemma rx_accounts_Cons:
  "got_in (e # t) = (case ev_got e of None \<Rightarrow> {#} | Some b \<Rightarrow> {#b#}) + got_in t"
  "gone_in (e # t) = (case ev_gone e of None \<Rightarrow> {#} | Some b \<Rightarrow> {#b#}) + gone_in t"
  "dma_in (e # t) = (case ev_dma e of None \<Rightarrow> {#} | Some b \<Rightarrow> {#b#}) + dma_in t"
  by (simp_all add: rx_account_defs split: option.split)

text \<open>What a ring holds.\<close>

definition pages_of :: "mac_page_alloc \<Rightarrow> nat multiset" where
  "pages_of p = (case pages p of None \<Rightarrow> {#} | Some i \<Rightarrow> {#i#})"

definition maps_of :: "mac_page_alloc \<Rightarrow> buf multiset" where
  "maps_of p = (case pages p of None \<Rightarrow> {#} | Some i \<Rightarrow> {#(pages_dma p, pages_len p, True)#})"

definition rx_pages :: "mac_rx_desc_data \<Rightarrow> nat multiset" where
  "rx_pages x = pages_of (pa (rx_hdr x)) + pages_of (pa_unmap (rx_hdr x)) + pages_of (pa (rx_buf x)) + pages_of (pa_unmap (rx_buf x))"

definition rx_maps :: "mac_rx_desc_data \<Rightarrow> buf multiset" where
  "rx_maps x = maps_of (pa_unmap (rx_hdr x)) + maps_of (pa_unmap (rx_buf x))"

definition ring_pages :: "mac_ring \<Rightarrow> nat multiset" where
  "ring_pages r = pages_of (rx_hdr_pa r) + pages_of (rx_buf_pa r) + (\<Sum>e\<leftarrow>datas r. rx_pages (rx e))"

definition ring_maps :: "mac_ring \<Rightarrow> buf multiset" where
  "ring_maps r = maps_of (rx_hdr_pa r) + maps_of (rx_buf_pa r) + (\<Sum>e\<leftarrow>datas r. rx_maps (rx e))"

text \<open>
  The books of a receive ring, with an entry's buffers \<open>x\<close> beside it: a reference taken is given up or
  held, and a page mapped is unmapped or held.
\<close>

definition rx_books :: "nat multiset \<Rightarrow> buf multiset \<Rightarrow> event list \<Rightarrow> bool" where
  "rx_books P M t \<longleftrightarrow> got_in t = gone_in t + P \<and> dma_in t = unmapped_in t + M"

lemma none_held [simp]: "pages_of no_page = {#}" "maps_of no_page = {#}" "rx_pages no_rx = {#}" "rx_maps no_rx = {#}"
  by (simp_all add: pages_of_def maps_of_def no_page_def rx_pages_def rx_maps_def no_rx_def no_buffer_def)

text \<open>Events that the accounts do not see.\<close>

fun other :: "event \<Rightarrow> bool" where
  "other e = (ev_got e = None \<and> ev_gone e = None \<and> ev_dma e = None \<and> ev_unmap e = None)"

lemma rx_books_other: "list_all other ev \<Longrightarrow> rx_books P M t \<Longrightarrow> rx_books P M (ev @ t)"
  by (induction ev) (auto simp: rx_books_def rx_accounts_Cons accounts_Cons)

lemma rx_books_other1 [simp]: "other e \<Longrightarrow> rx_books P M (e # t) = rx_books P M t"
  by (auto simp: rx_books_def rx_accounts_Cons accounts_Cons)

lemma stores_other: "list_all other (store_events k ws d)"
  by (induction ws arbitrary: d) auto

section \<open>Entries of a ring\<close>

definition rx_lens :: "mac_ring \<Rightarrow> bool" where
  "rx_lens r \<longleftrightarrow> (\<exists>k < 32. dma_desc_count r = 2 ^ k) \<and> length (descs r) = ring_size r \<and> length (datas r) = ring_size r"

lemma shape_lens: "ring_shape r \<Longrightarrow> rx_lens r"
  by (simp add: ring_shape_def rx_lens_def)

lemma lens_ridx: "rx_lens r \<Longrightarrow> ridx r i < ring_size r"
  using ridx_mod unat_2k by (fastforce simp: rx_lens_def ring_size_def)

lemma held_sum_update:
  "i < length xs \<Longrightarrow> (\<Sum>x\<leftarrow>xs[i := y]. f x) + f (xs ! i) = (\<Sum>x\<leftarrow>xs. f x) + (f y :: 'b multiset)"
  by (induction xs arbitrary: i) (auto simp: ac_simps split: nat.splits)

text \<open>An entry of the receive ring has nothing of the transmitter.\<close>

definition rx_only :: "mac_desc_data \<Rightarrow> bool" where
  "rx_only e \<longleftrightarrow> skb e = None \<and> skb_dma e = 0"

lemma set_data_held:
  assumes "rx_lens r"
  shows "ring_pages (set_data i d r) + rx_pages (rx (get_data r i)) = ring_pages r + rx_pages (rx d)"
    "ring_maps (set_data i d r) + rx_maps (rx (get_data r i)) = ring_maps r + rx_maps (rx d)"
proof -
  have i: "ridx r i < length (datas r)" using lens_ridx [OF assms] assms by (simp add: rx_lens_def)
  show "ring_pages (set_data i d r) + rx_pages (rx (get_data r i)) = ring_pages r + rx_pages (rx d)"
    using held_sum_update [OF i, of "\<lambda>e. rx_pages (rx e)" d] by (simp add: ring_pages_def set_data_def get_data_def ac_simps)
  show "ring_maps (set_data i d r) + rx_maps (rx (get_data r i)) = ring_maps r + rx_maps (rx d)"
    using held_sum_update [OF i, of "\<lambda>e. rx_maps (rx e)" d] by (simp add: ring_maps_def set_data_def get_data_def ac_simps)
qed

section \<open>Taking back and handing out buffers\<close>

lemma put_page_books: "rx_books (P + pages_of p) M (trace s) \<Longrightarrow> rx_books P M (trace (put_page (pages p) s))"
  by (auto simp: put_page_def rx_books_def pages_of_def rx_accounts_Cons accounts_Cons split: option.splits)

lemma unmap_pages_books:
  assumes "rx_books (P + pages_of p) (M + maps_of p) (trace s)"
  shows "rx_books P M (trace (unmap_pages p s))"
proof (cases "pages p")
  case None
  then show ?thesis using assms by (simp add: unmap_pages_def pages_of_def maps_of_def)
next
  case (Some i)
  then show ?thesis using assms
    by (simp add: unmap_pages_def put_page_def dma_unmap_def rx_books_def pages_of_def maps_of_def rx_accounts_Cons accounts_Cons)
qed

lemma unmap_rx:
  assumes "rx_only d" "mac_unmap_desc_data (d, s) = (d', s')" "rx_books (P + rx_pages (rx d)) (M + rx_maps (rx d)) (trace s)"
  shows "rx_books P M (trace s') \<and> rx d' = no_rx \<and> rx_only d' \<and> dma_desc d' = dma_desc d \<and> dma_desc_addr d' = dma_desc_addr d"
proof -
  let ?h = "rx_hdr (rx d)" and ?b = "rx_buf (rx d)"
  let ?s = "unmap_pages (pa_unmap ?b) (put_page (pages (pa ?b)) (unmap_pages (pa_unmap ?h) (put_page (pages (pa ?h)) s)))"
  have "s' = ?s \<and> rx d' = no_rx \<and> rx_only d' \<and> dma_desc d' = dma_desc d \<and> dma_desc_addr d' = dma_desc_addr d"
    using assms(1,2) by (auto simp: mac_unmap_desc_data_def free_skb_def rx_only_def Let_def split: if_splits)
  moreover have "rx_books P M (trace ?s)"
    by (intro unmap_pages_books put_page_books) (use assms(3) in \<open>simp add: rx_pages_def rx_maps_def ac_simps\<close>)
  ultimately show ?thesis by simp
qed

section \<open>New buffers\<close>

lemma alloc_pages_books:
  "alloc_pages E n s = (x, s') \<Longrightarrow> rx_books P M (trace s) \<Longrightarrow>
     (case x of None \<Rightarrow> rx_books P M (trace s') \<and> \<not> (\<forall>h. alloc_ok E h) | Some (p, k) \<Rightarrow> rx_books (add_mset p P) M (trace s') \<and> k \<le> n)"
proof (induction n arbitrary: s)
  case 0
  then show ?case
    by (subst (asm) alloc_pages.simps) (auto simp: Let_def rx_books_def rx_accounts_Cons accounts_Cons split: if_splits)
next
  case (Suc n)
  show ?case
  proof (cases "alloc_ok E (trace s)")
    case True
    then show ?thesis using Suc.prems
      by (subst (asm) alloc_pages.simps) (auto simp: rx_books_def rx_accounts_Cons accounts_Cons)
  next
    case False
    then have "alloc_pages E n (emit Ekalloc_fail s) = (x, s')"
      using Suc.prems(1) by (subst (asm) alloc_pages.simps) (simp add: Let_def)
    from Suc.IH [OF this] Suc.prems(2) show ?thesis by (auto split: option.splits)
  qed
qed

lemma PAGE_SIZE_order: "k \<le> 2 \<Longrightarrow> unat (push_bit k PAGE_SIZE) = 4096 * 2 ^ k"
proof -
  assume "k \<le> 2"
  then have "k = 0 \<or> k = 1 \<or> k = 2" by auto
  then show ?thesis by (auto simp: PAGE_SIZE_def push_bit_eq_mult)
qed

text \<open>An allocation has room for a buffer of \<open>n\<close> bytes.\<close>

definition pa_ok :: "nat \<Rightarrow> mac_page_alloc \<Rightarrow> bool" where
  "pa_ok n p \<longleftrightarrow> (pages p \<noteq> None \<longrightarrow> unat (pages_offset p) + n \<le> unat (pages_len p) \<and> unat (pages_len p) \<le> 2 ^ 14)"

lemma mac_alloc_pages_view:
  assumes "mac_alloc_pages E k (p0, s) = (ret, p, s')" "pages p0 = None" "rx_books P M (trace s)" "k \<le> 2" "n \<le> 4096"
  shows "rx_books (P + pages_of p) (M + maps_of p) (trace s') \<and> pa_ok n p \<and> (ret = 0 \<longleftrightarrow> pages p \<noteq> None) \<and>
    (ret \<noteq> 0 \<longrightarrow> \<not> (\<forall>h. alloc_ok E h))"
proof -
  obtain x s1 where 1: "alloc_pages E k s = (x, s1)" by fastforce
  note b = alloc_pages_books [OF 1 assms(3)]
  show ?thesis
  proof (cases x)
    case None
    then show ?thesis using assms(1,2) 1 b by (auto simp: mac_alloc_pages_def pages_of_def maps_of_def pa_ok_def)
  next
    case (Some y)
    obtain pg j where y: "x = Some (pg, j)" using Some by (cases y) auto
    have j: "j \<le> 2" "rx_books (add_mset pg P) M (trace s1)" using b y assms(4) by auto
    show ?thesis
    proof (cases "alloc_ok E (trace s1)")
      case True
      have sz: "n \<le> 4096 * 2 ^ j" "4096 * 2 ^ j \<le> (16384 :: nat)"
      proof -
        have "j = 0 \<or> j = 1 \<or> j = 2" using j(1) by auto
        then show "n \<le> 4096 * 2 ^ j" "4096 * 2 ^ j \<le> (16384 :: nat)" using assms(5) by auto
      qed
      have r: "ret = 0" "p = \<lparr>pages = Some pg, pages_len = push_bit j PAGE_SIZE, pages_offset = 0, pages_dma = dma_addr E (trace s1)\<rparr>"
        "trace s' = Edma_map (dma_addr E (trace s1)) (push_bit j PAGE_SIZE) True # trace s1"
        using assms(1) 1 y True by (auto simp: mac_alloc_pages_def dma_map_def)
      show ?thesis unfolding r
        using j(2) sz PAGE_SIZE_order [OF j(1)] by (auto simp: rx_books_def rx_accounts_Cons accounts_Cons pages_of_def maps_of_def pa_ok_def)
    next
      case False
      then show ?thesis using assms(1,2) 1 y j(2)
        by (auto simp: mac_alloc_pages_def dma_map_def put_page_def rx_books_def rx_accounts_Cons accounts_Cons pages_of_def maps_of_def pa_ok_def)
    qed
  qed
qed

text \<open>A buffer lies within a page that is mapped.\<close>

definition buf_in :: "mac_buffer_data \<Rightarrow> (buf \<Rightarrow> bool) \<Rightarrow> bool" where
  "buf_in b f \<longleftrightarrow> (\<exists>l. f (dma_base b, l, True) \<and> unat (dma_off b) + unat (dma_len b) \<le> unat l)"

lemma buf_in_mono: "buf_in b f \<Longrightarrow> (\<And>m. f m \<Longrightarrow> g m) \<Longrightarrow> buf_in b g"
  unfolding buf_in_def by blast

lemma set_buffer_view:
  assumes "mac_set_buffer_data len (no_buffer, p, s) = (b, p', s')" "pages p \<noteq> None" "pa_ok (unat len) p" "unat len \<le> 4096"
    "rx_books (P + pages_of p) (M + maps_of p) (trace s)"
  shows "rx_books (P + (pages_of p' + pages_of (pa b) + pages_of (pa_unmap b))) (M + (maps_of p' + maps_of (pa_unmap b))) (trace s') \<and>
    pa_ok (unat len) p' \<and> maps_of p' + maps_of (pa_unmap b) = maps_of p \<and>
    buf_in b (\<lambda>m. m \<in># maps_of p' + maps_of (pa_unmap b)) \<and> dma_len b = len"
proof -
  obtain pg where pg: "pages p = Some pg" using assms(2) by auto
  let ?q = "p\<lparr>pages_offset := pages_offset p + len\<rparr>"
  have o: "unat (pages_offset p) + unat len \<le> unat (pages_len p)" "unat (pages_len p) \<le> 2 ^ 14"
    using assms(3) pg by (simp_all add: pa_ok_def)
  have off: "unat (pages_offset p + len) = unat (pages_offset p) + unat len"
    using o by (intro unat_add_lem [THEN iffD1]) simp
  have off2: "unat (pages_offset p + len + len) = unat (pages_offset p) + unat len + unat len"
    using o assms(4) off by (subst unat_add_lem [THEN iffD1]) simp_all
  have w: "pages_offset p + len + len > pages_len p \<longleftrightarrow> \<not> unat (pages_offset p) + unat len + unat len \<le> unat (pages_len p)"
    by (simp only: word_less_nat_alt off2 not_le)
  have uc: "unat (ucast (pages_offset p) :: u64) = unat (pages_offset p)"
    using unsigned_less [of "pages_offset p", where ?'a = nat] by (simp add: unsigned_ucast_eq take_bit_nat_eq_self)
  have b: "b = (if pages_offset p + len + len > pages_len p
        then no_buffer\<lparr>pa := p, dma_base := pages_dma p, dma_off := ucast (pages_offset p), dma_len := len, pa_unmap := ?q\<rparr>
        else no_buffer\<lparr>pa := p, dma_base := pages_dma p, dma_off := ucast (pages_offset p), dma_len := len\<rparr>)"
    "p' = (if pages_offset p + len + len > pages_len p then no_page else ?q)" "trace s' = Epage_get pg # trace s"
    using assms(1) pg by (auto simp: mac_set_buffer_data_def get_page_def Let_def split: if_splits)
  show ?thesis
    using assms(5) pg o w off uc unfolding b
    by (cases "pages_offset p + len + len > pages_len p")
      (auto simp: rx_books_def rx_accounts_Cons accounts_Cons pages_of_def maps_of_def pa_ok_def buf_in_def no_buffer_def no_page_def ac_simps)
qed

definition held_more :: "u32 \<Rightarrow> mac_page_alloc \<Rightarrow> mac_page_alloc \<Rightarrow> mac_buffer_data \<Rightarrow> bool" where
  "held_more n p p' b \<longleftrightarrow> dma_len b = n \<and> maps_of p \<subseteq># maps_of p' + maps_of (pa_unmap b) \<and> buf_in b (\<lambda>m. m \<in># maps_of p' + maps_of (pa_unmap b))"

definition rx_size_ok :: "net_pdata \<Rightarrow> bool" where
  "rx_size_ok p \<longleftrightarrow> unat (rx_buf_size p) \<le> 4096"

definition rx_pas_ok :: "net_pdata \<Rightarrow> mac_ring \<Rightarrow> bool" where
  "rx_pas_ok p r \<longleftrightarrow> pa_ok 512 (rx_hdr_pa r) \<and> pa_ok (unat (rx_buf_size p)) (rx_buf_pa r)"

lemma page_for_buffer:
  assumes "(if pages p0 = None then mac_alloc_pages E k (p0, s) else (0, p0, s)) = (ret, p, s')" "k \<le> 2" "n \<le> 4096" "pa_ok n p0"
    "rx_books (P + pages_of p0) (M + maps_of p0) (trace s)"
  shows "rx_books (P + pages_of p) (M + maps_of p) (trace s') \<and> pa_ok n p \<and> maps_of p0 \<subseteq># maps_of p \<and> (ret = 0 \<longleftrightarrow> pages p \<noteq> None) \<and>
    (ret \<noteq> 0 \<longrightarrow> \<not> (\<forall>h. alloc_ok E h))"
proof (cases "pages p0 = None")
  case True
  then have "rx_books P M (trace s)" "maps_of p0 = {#}" using assms(5) by (simp_all add: pages_of_def maps_of_def)
  then show ?thesis using mac_alloc_pages_view [OF _ True _ assms(2,3)] assms(1) True by simp
next
  case False
  then show ?thesis using assms by auto
qed

lemma map_rx_view:
  assumes "mac_map_rx_buffer E p (r, d, s) = (ret, r', d', s')" "rx d = no_rx" "rx_size_ok p" "rx_pas_ok p r"
    "rx_books (P + pages_of (rx_hdr_pa r) + pages_of (rx_buf_pa r)) (M + maps_of (rx_hdr_pa r) + maps_of (rx_buf_pa r)) (trace s)"
  shows "rx_books (P + pages_of (rx_hdr_pa r') + pages_of (rx_buf_pa r') + rx_pages (rx d'))
        (M + maps_of (rx_hdr_pa r') + maps_of (rx_buf_pa r') + rx_maps (rx d')) (trace s') \<and> rx_pas_ok p r' \<and>
      r' = r\<lparr>rx_hdr_pa := rx_hdr_pa r', rx_buf_pa := rx_buf_pa r'\<rparr> \<and> d' = d\<lparr>rx := rx d'\<rparr> \<and>
      (ret \<noteq> 0 \<longrightarrow> rx d' = no_rx \<and> \<not> (\<forall>h. alloc_ok E h)) \<and>
      (ret = 0 \<longrightarrow> held_more 512 (rx_hdr_pa r) (rx_hdr_pa r') (rx_hdr (rx d')) \<and> held_more (rx_buf_size p) (rx_buf_pa r) (rx_buf_pa r') (rx_buf (rx d')))"
proof -
  have n: "unat (0x200 :: u32) = 512" "(512::nat) \<le> 4096" by simp_all
  obtain ret1 h s1 where 1: "(if pages (rx_hdr_pa r) = None then mac_alloc_pages E 0 (rx_hdr_pa r, s) else (0, rx_hdr_pa r, s)) = (ret1, h, s1)"
    by (metis prod_cases3)
  have b0: "rx_books (P + pages_of (rx_buf_pa r) + pages_of (rx_hdr_pa r)) (M + maps_of (rx_buf_pa r) + maps_of (rx_hdr_pa r)) (trace s)"
    using assms(5) by (simp add: ac_simps)
  have ok: "pa_ok 512 (rx_hdr_pa r)" "pa_ok (unat (rx_buf_size p)) (rx_buf_pa r)" "unat (rx_buf_size p) \<le> 4096"
    using assms(3,4) by (simp_all add: rx_pas_ok_def rx_size_ok_def)
  note v1 = page_for_buffer [OF 1 _ n(2) ok(1) b0, simplified]
  show ?thesis
  proof (cases "ret1 = 0")
    case False
    then have "ret = ret1 \<and> r' = r\<lparr>rx_hdr_pa := h\<rparr> \<and> d' = d \<and> s' = s1"
      using assms(1) 1 by (simp add: mac_map_rx_buffer_def)
    then show ?thesis using v1 False ok assms(2) by (simp add: rx_pas_ok_def ac_simps)
  next
    case True
    obtain ret2 b s2 where 2: "(if pages (rx_buf_pa r) = None then mac_alloc_pages E rx_buf_order (rx_buf_pa r, s1) else (0, rx_buf_pa r, s1)) = (ret2, b, s2)"
      by (metis prod_cases3)
    have b1: "rx_books (P + pages_of h + pages_of (rx_buf_pa r)) (M + maps_of h + maps_of (rx_buf_pa r)) (trace s1)"
      using v1 by (simp add: ac_simps)
    note v2 = page_for_buffer [OF 2 _ ok(3,2) b1, simplified rx_buf_order_def, simplified]
    show ?thesis
    proof (cases "ret2 = 0")
      case False
      then have "ret = ret2 \<and> r' = r\<lparr>rx_hdr_pa := h, rx_buf_pa := b\<rparr> \<and> d' = d \<and> s' = s2"
        using assms(1) 1 2 True by (simp add: mac_map_rx_buffer_def Let_def cong del: if_weak_cong)
      then show ?thesis using v1 v2 False assms(2) by (simp add: rx_pas_ok_def ac_simps)
    next
      case ok2: True
      obtain hd h' s3 where 3: "mac_set_buffer_data MAC_SKB_ALLOC_SIZE (no_buffer, h, s2) = (hd, h', s3)" by (metis prod_cases3)
      obtain bd b' s4 where 4: "mac_set_buffer_data (rx_buf_size p) (no_buffer, b, s3) = (bd, b', s4)" by (metis prod_cases3)
      have b2: "rx_books (P + pages_of b + pages_of h) (M + maps_of b + maps_of h) (trace s2)" using v2 by (simp add: ac_simps)
      have hp: "pages h \<noteq> None" "pa_ok (unat (0x200 :: u32)) h" "unat (0x200 :: u32) \<le> 4096" using v1 True n by simp_all
      note v3 = set_buffer_view [OF 3 hp b2]
      have b3: "rx_books ((P + (pages_of h' + pages_of (pa hd) + pages_of (pa_unmap hd))) + pages_of b)
         ((M + (maps_of h' + maps_of (pa_unmap hd))) + maps_of b) (trace s3)" using v3 [THEN conjunct1] by (simp add: ac_simps)
      have bp: "pages b \<noteq> None" "pa_ok (unat (rx_buf_size p)) b" using v2 ok2 by simp_all
      note v4 = set_buffer_view [OF 4 bp ok(3) b3]
      have res: "ret = 0 \<and> r' = r\<lparr>rx_hdr_pa := h', rx_buf_pa := b'\<rparr> \<and> d' = d\<lparr>rx := (rx d)\<lparr>rx_hdr := hd, rx_buf := bd\<rparr>\<rparr> \<and> s' = s4"
        using assms(1,2) 1 2 3 4 True ok2 by (simp add: mac_map_rx_buffer_def no_rx_def Let_def cong del: if_weak_cong)
      have m: "maps_of (rx_hdr_pa r) \<subseteq># maps_of h" "maps_of (rx_buf_pa r) \<subseteq># maps_of b" using v1 v2 by blast+
      have "rx_books (P + pages_of h' + pages_of b' + rx_pages (rx d')) (M + maps_of h' + maps_of b' + rx_maps (rx d')) (trace s')"
        using v4 res by (simp add: rx_pages_def rx_maps_def ac_simps)
      moreover have "held_more 512 (rx_hdr_pa r) h' hd" "held_more (rx_buf_size p) (rx_buf_pa r) b' bd"
        unfolding held_more_def using v3 v4 m by metis+
      moreover have "rx_pas_ok p r'" using v3 v4 res by (simp add: rx_pas_ok_def)
      ultimately show ?thesis using res by simp
    qed
  qed
qed

section \<open>The books of a ring\<close>

lemma sum_list_focus:
  "i < length xs \<Longrightarrow> \<exists>R. \<forall>y. (\<Sum>x\<leftarrow>xs[i := y]. f x) = R + (f y :: 'b multiset)"
proof (induction xs arbitrary: i)
  case (Cons x xs)
  show ?case
  proof (cases i)
    case 0
    then show ?thesis by (intro exI [of _ "\<Sum>x\<leftarrow>xs. f x"]) (simp add: ac_simps)
  next
    case (Suc j)
    then obtain R where "\<forall>y. (\<Sum>x\<leftarrow>xs[j := y]. f x) = R + f y" using Cons by auto
    then show ?thesis using Suc by (intro exI [of _ "f x + R"]) (simp add: ac_simps)
  qed
qed simp

text \<open>The ring without the buffers of one entry.\<close>

lemma entry_focus:
  assumes "rx_lens r"
  shows "\<exists>P M. \<forall>d r'. datas r' = datas r \<longrightarrow> dma_desc_count r' = dma_desc_count r \<longrightarrow>
     ring_pages (set_data i d r') = P + pages_of (rx_hdr_pa r') + pages_of (rx_buf_pa r') + rx_pages (rx d) \<and>
     ring_maps (set_data i d r') = M + maps_of (rx_hdr_pa r') + maps_of (rx_buf_pa r') + rx_maps (rx d)"
proof -
  have i: "ridx r i < length (datas r)" using lens_ridx [OF assms] assms by (simp add: rx_lens_def)
  obtain P where P: "\<forall>y. (\<Sum>e\<leftarrow>(datas r)[ridx r i := y]. rx_pages (rx e)) = P + rx_pages (rx y)"
    using sum_list_focus [OF i] by blast
  obtain M where M: "\<forall>y. (\<Sum>e\<leftarrow>(datas r)[ridx r i := y]. rx_maps (rx e)) = M + rx_maps (rx y)"
    using sum_list_focus [OF i] by blast
  show ?thesis
    using P M by (intro exI [of _ P] exI [of _ M]) (simp add: ring_pages_def ring_maps_def set_data_def ridx_def ac_simps)
qed

lemma set_data_same: "rx_lens r \<Longrightarrow> set_data i (get_data r i) r = r"
  by (simp add: set_data_def get_data_def)

definition rx_ok :: "net_pdata \<Rightarrow> mac_ring \<Rightarrow> kern \<Rightarrow> bool" where
  "rx_ok p r s \<longleftrightarrow> rx_lens r \<and> (\<forall>e \<in> set (datas r). rx_only e) \<and> rx_pas_ok p r \<and>
     rx_books (ring_pages r) (ring_maps r) (trace s)"

lemma get_data_in: "rx_lens r \<Longrightarrow> get_data r i \<in> set (datas r)"
  using lens_ridx [of r i] by (simp add: get_data_def rx_lens_def)

lemma set_data_lens [simp]: "rx_lens (set_data i d r) = rx_lens r"
  by (simp add: rx_lens_def set_data_def ring_size_def)

lemma set_data_only: "\<forall>e \<in> set (datas r). rx_only e \<Longrightarrow> rx_only d \<Longrightarrow> \<forall>e \<in> set (datas (set_data i d r)). rx_only e"
  using set_update_subset_insert by (fastforce simp: set_data_def)

text \<open>Changing an entry without changing what it holds, or other fields.\<close>

lemma rx_ok_entry:
  assumes "rx_ok p r s" "rx_pages (rx d) = rx_pages (rx (get_data r i))" "rx_maps (rx d) = rx_maps (rx (get_data r i))" "rx_only d"
  shows "rx_ok p (set_data i d r) s"
proof -
  have l: "rx_lens r" using assms(1) by (simp add: rx_ok_def)
  have "ring_pages (set_data i d r) = ring_pages r" "ring_maps (set_data i d r) = ring_maps r"
    using set_data_held [OF l, of i d] assms(2,3) by simp_all
  then show ?thesis using assms(1) set_data_only [OF _ assms(4), of r i]
    by (simp add: rx_ok_def rx_pas_ok_def) (simp add: set_data_def)
qed

text \<open>Only the descriptors differ.\<close>

definition rx_same :: "mac_ring \<Rightarrow> mac_ring \<Rightarrow> bool" where
  "rx_same r r' \<longleftrightarrow> r' = r\<lparr>descs := descs r'\<rparr> \<and> length (descs r') = length (descs r)"

definition rx_frame :: "mac_ring \<Rightarrow> mac_ring \<Rightarrow> bool" where
  "rx_frame r r' \<longleftrightarrow> dma_desc_count r' = dma_desc_count r \<and> length (descs r') = length (descs r) \<and> datas r' = datas r \<and>
     rx_hdr_pa r' = rx_hdr_pa r \<and> rx_buf_pa r' = rx_buf_pa r"

lemma rx_ok_frame: "rx_ok p r s \<Longrightarrow> rx_frame r r' \<Longrightarrow> rx_ok p r' s"
  by (simp add: rx_ok_def rx_frame_def rx_lens_def ring_size_def rx_pas_ok_def ring_pages_def ring_maps_def)

lemma rx_same_fields:
  "rx_same r r' \<Longrightarrow> cur r' = cur r \<and> dirty r' = dirty r \<and> pkt_info r' = pkt_info r \<and> datas r' = datas r \<and>
     dma_desc_count r' = dma_desc_count r \<and> rx_hdr_pa r' = rx_hdr_pa r \<and> rx_buf_pa r' = rx_buf_pa r \<and> length (descs r') = length (descs r)"
  unfolding rx_same_def by (metis mac_ring.select_convs mac_ring.surjective mac_ring.update_convs(2))

lemma rx_same_frame: "rx_same r r' \<Longrightarrow> rx_frame r r'"
  using rx_same_fields by (simp add: rx_frame_def)

lemma rx_ok_other: "rx_ok p r s \<Longrightarrow> trace s' = ev @ trace s \<Longrightarrow> list_all other ev \<Longrightarrow> rx_ok p r s'"
  by (simp add: rx_ok_def rx_books_other)

lemma rx_same_trans: "rx_same r r1 \<Longrightarrow> rx_same r1 r2 \<Longrightarrow> rx_same r r2"
  unfolding rx_same_def by (metis mac_ring.select_convs(2) mac_ring.surjective mac_ring.update_convs(2))

lemma puts_rx:
  assumes "puts k ws (r, s) = (r', s')" "rx_ok p r s"
  shows "rx_ok p r' s' \<and> rx_same r r'"
proof -
  have "\<exists>ev. rx_same r r' \<and> trace s' = ev @ trace s \<and> list_all other ev" using assms(1)
  proof (induction ws arbitrary: r s)
    case Nil
    then show ?case by (simp add: puts_def rx_same_def)
  next
    case (Cons w ws)
    obtain r1 s1 where 1: "put k w (r, s) = (r1, s1)" by fastforce
    then have "puts k ws (r1, s1) = (r', s')" using Cons.prems by (simp add: puts_def)
    from Cons.IH [OF this] obtain ev where ev: "rx_same r1 r'" "trace s' = ev @ trace s1" "list_all other ev" by blast
    have "rx_same r r1" "trace s1 = [Edesc k (store_word w) (store_value w (descs r ! k))] @ trace s"
      "other (Edesc k (store_word w) (store_value w (descs r ! k)))"
      using 1 by (auto simp: put_def Let_def rx_same_def)
    then show ?case using ev rx_same_trans
      by (intro exI [of _ "ev @ [Edesc k (store_word w) (store_value w (descs r ! k))]"]) (auto simp del: other.simps)
  qed
  then show ?thesis using rx_same_frame rx_ok_frame rx_ok_other assms(2) by blast
qed

lemma rx_reset_ok:
  assumes "mac_rx_desc_reset p d i (r, s) = (r', s')" "rx_ok q r s"
  shows "rx_ok q r' s' \<and> rx_same r r'"
proof -
  obtain r1 s1 where 1: "puts (dma_desc d) (rx_reset_stores p d i) (r, s) = (r1, s1)" by fastforce
  obtain r2 s2 where 2: "puts (dma_desc d) [Field 3 RX_NORMAL_DESC3_OWN 1] (r1, emit Ewmb s1) = (r2, s2)" by fastforce
  note o1 = puts_rx [OF 1 assms(2)]
  have "rx_ok q r1 (emit Ewmb s1)" using o1 by (simp add: rx_ok_def)
  note o2 = puts_rx [OF 2 this]
  have "r' = r2 \<and> s' = emit Ewmb s2" using assms(1) 1 2 by (simp add: mac_rx_desc_reset_def)
  then show ?thesis using o1 o2 rx_same_trans by (auto simp: rx_ok_def)
qed

text \<open>An entry that holds nothing gets buffers.\<close>

lemma rx_fill:
  assumes "rx_ok p (set_data i d r) s" "rx d = no_rx" "rx_size_ok p" "mac_map_rx_buffer E p (r, d, s) = (ret, r', d', s')"
  shows "rx_ok p (set_data i d' r') s' \<and> r' = r\<lparr>rx_hdr_pa := rx_hdr_pa r', rx_buf_pa := rx_buf_pa r'\<rparr> \<and> d' = d\<lparr>rx := rx d'\<rparr> \<and>
    (ret \<noteq> 0 \<longrightarrow> rx d' = no_rx \<and> \<not> (\<forall>h. alloc_ok E h)) \<and>
    (ret = 0 \<longrightarrow> held_more 512 (rx_hdr_pa r) (rx_hdr_pa r') (rx_hdr (rx d')) \<and> held_more (rx_buf_size p) (rx_buf_pa r) (rx_buf_pa r') (rx_buf (rx d')))"
proof -
  have l: "rx_lens r" "rx_pas_ok p r" "rx_only d" "\<forall>e \<in> set (datas (set_data i d r)). rx_only e"
    using assms(1) get_data_in [of "set_data i d r" i] lens_ridx [of r i]
    by (auto simp: rx_ok_def rx_pas_ok_def get_data_def set_data_def ridx_def rx_lens_def ring_size_def)
  obtain P M where f: "\<And>d r'. datas r' = datas r \<Longrightarrow> dma_desc_count r' = dma_desc_count r \<Longrightarrow>
     ring_pages (set_data i d r') = P + pages_of (rx_hdr_pa r') + pages_of (rx_buf_pa r') + rx_pages (rx d) \<and>
     ring_maps (set_data i d r') = M + maps_of (rx_hdr_pa r') + maps_of (rx_buf_pa r') + rx_maps (rx d)"
    using entry_focus [OF l(1), of i] by blast
  have b: "rx_books (P + pages_of (rx_hdr_pa r) + pages_of (rx_buf_pa r)) (M + maps_of (rx_hdr_pa r) + maps_of (rx_buf_pa r)) (trace s)"
    using f [of r d] assms(1,2) by (simp add: rx_ok_def)
  note v = map_rx_view [OF assms(4,2,3) l(2) b]
  then have r': "r' = r\<lparr>rx_hdr_pa := rx_hdr_pa r', rx_buf_pa := rx_buf_pa r'\<rparr>" "d' = d\<lparr>rx := rx d'\<rparr>" by blast+
  have s: "datas r' = datas r" "dma_desc_count r' = dma_desc_count r" "descs r' = descs r" by (subst r', simp)+
  have d': "rx_only d'" using l(3) by (subst r'(2), simp add: rx_only_def)
  have o: "\<forall>e \<in> set (datas (set_data i d' r')). rx_only e"
    using set_data_only [OF l(4) d', of i] s by (simp add: set_data_def ridx_def)
  have "rx_ok p (set_data i d' r') s'"
    using v f [OF s(1,2), of d'] l s o by (simp add: rx_ok_def rx_pas_ok_def rx_lens_def ring_size_def) (simp add: set_data_def)
  then show ?thesis using v r' by blast
qed

lemma rx_unmap:
  assumes "rx_ok p r s" "mac_unmap_desc_data (get_data r i, s) = (d, s')"
  shows "rx_ok p (set_data i d r) s' \<and> rx d = no_rx \<and> dma_desc d = dma_desc (get_data r i) \<and> dma_desc_addr d = dma_desc_addr (get_data r i)"
proof -
  have l: "rx_lens r" "rx_only (get_data r i)" "\<forall>e \<in> set (datas r). rx_only e"
    using assms(1) get_data_in by (auto simp: rx_ok_def)
  obtain P M where f: "\<And>d. ring_pages (set_data i d r) = P + rx_pages (rx d) \<and> ring_maps (set_data i d r) = M + rx_maps (rx d)"
    using entry_focus [OF l(1), of i] by blast
  have b: "rx_books (P + rx_pages (rx (get_data r i))) (M + rx_maps (rx (get_data r i))) (trace s)"
    using f [of "get_data r i"] set_data_same [OF l(1), of i] assms(1) by (simp add: rx_ok_def)
  note u = unmap_rx [OF l(2) assms(2) b]
  then show ?thesis using f [of d] set_data_only [OF l(3), of d i] assms(1)
    by (simp add: rx_ok_def rx_pas_ok_def) (simp add: set_data_def)
qed

text \<open>An entry gets new buffers in place of the old.\<close>

lemma rx_refill:
  assumes "rx_ok p r s" "rx_size_ok p" "mac_unmap_desc_data (get_data r i, s) = (d, s1)"
    "mac_map_rx_buffer E p (r, d, s1) = (ret, r', d', s2)"
  shows "rx_ok p (set_data i d' r') s2 \<and> r' = r\<lparr>rx_hdr_pa := rx_hdr_pa r', rx_buf_pa := rx_buf_pa r'\<rparr> \<and>
    dma_desc d' = dma_desc (get_data r i) \<and> dma_desc_addr d' = dma_desc_addr (get_data r i) \<and>
    (ret \<noteq> 0 \<longrightarrow> rx d' = no_rx \<and> \<not> (\<forall>h. alloc_ok E h)) \<and>
    (ret = 0 \<longrightarrow> held_more 512 (rx_hdr_pa r) (rx_hdr_pa r') (rx_hdr (rx d')) \<and> held_more (rx_buf_size p) (rx_buf_pa r) (rx_buf_pa r') (rx_buf (rx d')))"
proof -
  note u = rx_unmap [OF assms(1,3)]
  have u2: "rx_ok p (set_data i d r) s1" "rx d = no_rx" using u by blast+
  note v = rx_fill [OF u2 assms(2,4)]
  have "dma_desc d' = dma_desc d \<and> dma_desc_addr d' = dma_desc_addr d" using v by (metis mac_desc_data.select_convs(1,2) mac_desc_data.surjective mac_desc_data.update_convs(8))
  then show ?thesis using u v by simp
qed

lemma rx_refresh_loop_ok:
  "rx_refresh_loop E p n (r, s) = (r', s') \<Longrightarrow> rx_ok p r s \<Longrightarrow> rx_size_ok p \<Longrightarrow>
     rx_ok p r' s' \<and> cur r' = cur r \<and> pkt_info r' = pkt_info r"
proof (induction n arbitrary: r s)
  case (Suc n)
  obtain d s1 where 1: "mac_unmap_desc_data (get_data r (dirty r), s) = (d, s1)" by fastforce
  obtain ret r1 d1 s2 where 2: "mac_map_rx_buffer E p (r, d, s1) = (ret, r1, d1, s2)" by (metis prod_cases4)
  let ?r = "set_data (dirty r1) d1 r1"
  note v = rx_refill [OF Suc.prems(2,3) 1 2]
  obtain h b where hb: "r1 = r\<lparr>rx_hdr_pa := h, rx_buf_pa := b\<rparr>" using v by blast
  have s: "cur ?r = cur r" "pkt_info ?r = pkt_info r" "dirty r1 = dirty r" "dirty ?r = dirty r" by (simp_all add: hb set_data_def)
  have ok: "rx_ok p ?r s2" using v s by simp
  show ?case
  proof (cases "ret = 0")
    case False
    then show ?thesis using Suc.prems(1) 1 2 ok s by (simp add: Let_def)
  next
    case True
    obtain r2 s3 where 3: "mac_rx_desc_reset p (get_data ?r (dirty ?r)) (dirty ?r) (?r, s2) = (r2, s3)" by fastforce
    have o: "rx_ok p r2 s3" "rx_same ?r r2" using rx_reset_ok [OF 3 ok] by blast+
    then have c: "cur r2 = cur r \<and> pkt_info r2 = pkt_info r" using s rx_same_fields by metis
    have o2: "rx_ok p (r2\<lparr>dirty := dirty r2 + 1\<rparr>) s3" using rx_ok_frame [OF o(1)] by (simp add: rx_frame_def)
    have "rx_refresh_loop E p n (r2\<lparr>dirty := dirty r2 + 1\<rparr>, s3) = (r', s')"
      using Suc.prems(1) 1 2 3 True s by (simp add: Let_def)
    from Suc.IH [OF this o2 Suc.prems(3)] c show ?thesis by simp
  qed
qed simp

end
