(* ===== verification/Rx_Poll.thy ===== *)
theory Rx_Poll
  imports Rx_Correct
begin

text \<open>
  What one poll of a receive ring keeps: a locale of the laws an invariant of a ring and its kernel
  needs so that \<open>mac_rx_poll\<close> keeps it, and two such invariants, that every page is accounted for
  and that what the card owns stays mapped.
\<close>

section \<open>The laws of an invariant\<close>

text \<open>The refresh at \<open>read_again\<close>, which comes when the ring is behind by more than half.\<close>

definition rx_refreshed :: "env \<Rightarrow> net_pdata \<Rightarrow> mac_channel \<Rightarrow> mac_ring \<times> kern \<Rightarrow> mac_ring \<times> kern" where
  "rx_refreshed E p c z = (if mac_rx_dirty_desc (fst z) > MAC_RX_DESC_MAX_DIRTY then mac_rx_refresh E p c z else z)"

text \<open>An entry that holds the same buffers.\<close>

definition kept :: "mac_desc_data \<Rightarrow> mac_desc_data \<Rightarrow> bool" where
  "kept e e' \<longleftrightarrow> rx_hdr (rx e') = rx_hdr (rx e) \<and> rx_buf (rx e') = rx_buf (rx e) \<and> skb e' = skb e \<and> skb_dma e' = skb_dma e \<and>
     dma_desc e' = dma_desc e \<and> dma_desc_addr e' = dma_desc_addr e"

text \<open>An entry whose payload page has gone to a socket buffer.\<close>

definition given_away :: "mac_desc_data \<Rightarrow> mac_desc_data" where
  "given_away e = e\<lparr>rx := (rx e)\<lparr>rx_buf := (rx_buf (rx e))\<lparr>pa := (pa (rx_buf (rx e)))\<lparr>pages := None\<rparr>\<rparr>\<rparr>\<rparr>"

lemma read_keeps:
  assumes "mac_dev_read p t = (0, t')" "rx_lens (rx_ring t)"
  shows "cur (rx_ring t') = cur (rx_ring t) \<and> dirty (rx_ring t') = dirty (rx_ring t) \<and>
    desc_bits (get_desc (rx_ring t') (cur (rx_ring t'))) 3 RX_NORMAL_DESC3_OWN = 0"
proof -
  have "ridx (rx_ring t) (cur (rx_ring t)) < length (datas (rx_ring t))"
    using lens_ridx [OF assms(2)] assms(2) by (simp add: rx_lens_def)
  then show ?thesis using assms(1)
    by (auto simp: mac_dev_read_def Let_def set_pkt_info_def rx_read_normal_def set_ring_def get_desc_def get_data_def set_data_def ridx_def
      split: if_splits)
qed

locale rx_invariant =
  fixes E :: env and p :: net_pdata and c :: mac_channel and I :: "mac_ring \<Rightarrow> kern \<Rightarrow> bool" and ready :: "u32 \<Rightarrow> bool"
  assumes lens: "I r s \<Longrightarrow> rx_lens r"
    and quiet: "I r s \<Longrightarrow> other e \<Longrightarrow> I r (emit e s)"
    and objects: "I r s \<Longrightarrow> I r (s\<lparr>next_obj := n\<rparr>)"
    and info: "I r s \<Longrightarrow> I (r\<lparr>pkt_info := q\<rparr>) s"
    and entry: "I r s \<Longrightarrow> kept (get_data r i) d \<Longrightarrow> I (set_data i d r) s"
    and give: "I r s \<Longrightarrow> pages (pa (rx_buf (rx (get_data r i)))) = Some pg \<Longrightarrow>
      I (set_data i (given_away (get_data r i)) r) (emit (Eskb_frag k pg) s)"
    and refresh: "I r s \<Longrightarrow> rx_refreshed E p c (r, s) = (r', s') \<Longrightarrow> I r' s' \<and> ready (cur r' - dirty r')"
    and advance: "I r s \<Longrightarrow> ready (cur r - dirty r) \<Longrightarrow> desc_bits (get_desc r (cur r)) 3 RX_NORMAL_DESC3_OWN = 0 \<Longrightarrow>
      I (r\<lparr>cur := cur r + 1\<rparr>) s"
begin

lemma keep_free: "kfree_skb k (t, s) = Some (t', s') \<Longrightarrow> I (rx_ring t) s \<Longrightarrow> I (rx_ring t') s'"
  by (auto simp: kfree_skb_def quiet split: option.splits if_splits)

lemma keep_frag:
  assumes "add_rx_frag k i n (t, s) = Some (t', s')" "I (rx_ring t) s"
  shows "I (rx_ring t') s'"
proof -
  obtain pg where "pages (pa (rx_buf (rx (get_data (rx_ring t) i)))) = Some pg"
    "rx_ring t' = set_data i (given_away (get_data (rx_ring t) i)) (rx_ring t)" "s' = emit (Eskb_frag k pg) s"
    using assms(1) by (auto simp: add_rx_frag_def given_away_def Let_def split: option.splits if_splits)
  then show ?thesis using give assms(2) by simp
qed

lemma keep_create:
  assumes "mac_create_skb E i n (t, s) = Some (k, t', s')" "I (rx_ring t) s"
  shows "I (rx_ring t') s'"
proof (cases "alloc_ok E (trace s)")
  case False
  then show ?thesis using assms quiet by (auto simp: mac_create_skb_def)
next
  case True
  let ?s = "emit (Eskb_alloc (next_obj s)) (s\<lparr>next_obj := next_obj s + 1\<rparr>)"
  have "I (rx_ring t) ?s" using assms(2) objects quiet by simp
  moreover obtain b t1 where "t1 = t\<lparr>skbs := b\<rparr>" "(t', s') = (t1, ?s) \<or> (\<exists>m. add_rx_frag (next_obj s) i m (t1, ?s) = Some (t', s'))"
    using assms(1) True by (auto simp: mac_create_skb_def Let_def split: option.splits if_splits)
  ultimately show ?thesis using keep_frag [of "next_obj s" i _ t1 ?s t' s'] by auto
qed

lemma keep_up:
  assumes "rx_up p c k (t, s) = Some (t', s')" "I (rx_ring t) s"
  shows "I (rx_ring t') s'"
proof -
  have "kfree_skb (Some k) (t, s) = Some (t', s') \<or> rx_ring t' = rx_ring t \<and> s' = emit (Erx_skb k) s"
    using assms(1) by (auto simp: rx_up_def Let_def split: option.splits if_splits)
  then show ?thesis using keep_free quiet assms(2) by fastforce
qed

lemma keep_data:
  assumes "rx_data E i (v, t, s) = Some (v', t', s')" "I (rx_ring t) s"
  shows "I (rx_ring t') s'"
proof -
  have "(t', s') = (t, s) \<or> (\<exists>n k. mac_create_skb E i n (t, s) = Some (k, t', s')) \<or> (\<exists>k n. add_rx_frag k i n (t, s) = Some (t', s'))"
    using assms(1) by (auto simp: rx_data_def Let_def split: option.splits if_splits)
  then show ?thesis using keep_create keep_frag assms(2) by auto
qed

text \<open>Reading a descriptor changes the packet's description and the lengths of the entry.\<close>

lemma keep_normal:
  assumes "I (rx_ring t) s"
  shows "I (rx_ring (rx_read_normal p d t)) s"
proof -
  let ?r = "rx_ring t"
  obtain q e where e: "rx_ring (rx_read_normal p d t) = (set_data (cur ?r) e ?r)\<lparr>pkt_info := q\<rparr>" "kept (get_data ?r (cur ?r)) e"
    by (simp add: rx_read_normal_def Let_def set_ring_def set_pkt_info_def kept_def)
  then show ?thesis using assms entry info by simp
qed

lemma keep_read: "mac_dev_read p t = (ret, t') \<Longrightarrow> I (rx_ring t) s \<Longrightarrow> I (rx_ring t') s"
  using keep_normal info by (auto simp: mac_dev_read_def Let_def set_pkt_info_def split: if_splits)

lemma keep_step:
  assumes "rx_step E p c (v, t, s) = Some (g, v', t', s')" "I (rx_ring t) s"
  shows "I (rx_ring t') s'"
proof -
  obtain r1 s1 where 1: "rx_refreshed E p c (rx_ring t, s) = (r1, s1)" by fastforce
  let ?t = "set_ring r1 t"
  obtain ret t2 where 2: "mac_dev_read p ?t = (ret, t2)" by fastforce
  have i1: "I r1 s1" "ready (cur r1 - dirty r1)" using refresh [OF assms(2) 1] by blast+
  then have i2: "I (rx_ring t2) s1" using keep_read [OF 2] by (simp add: set_ring_def)
  have e: "(if mac_rx_dirty_desc (rx_ring t) > MAC_RX_DESC_MAX_DIRTY
             then case mac_rx_refresh E p c (rx_ring t, s) of (r, s) \<Rightarrow> (set_ring r t, s) else (t, s)) = (?t, s1)"
    using 1 by (auto simp: rx_refreshed_def set_ring_def split: if_splits)
  show ?thesis
  proof (cases "ret = 0")
    case False
    then have "t' = t2 \<and> s' = s1" using assms(1) 2 unfolding rx_step_def by (auto simp: e)
    then show ?thesis using i2 by simp
  next
    case True
    let ?t3 = "set_ring ((rx_ring t2)\<lparr>cur := cur r1 + 1\<rparr>) t2"
    have rd: "cur (rx_ring t2) = cur r1" "dirty (rx_ring t2) = dirty r1"
      "desc_bits (get_desc (rx_ring t2) (cur (rx_ring t2))) 3 RX_NORMAL_DESC3_OWN = 0"
      using read_keeps [OF 2 [unfolded True]] lens [OF i1(1)] unfolding set_ring_def by (metis rx_chan.select_convs(1) rx_chan.surjective rx_chan.update_convs(1))+
    have i3: "I (rx_ring ?t3) s1"
      using advance [OF i2 _ rd(3)] i1(2) rd by (simp add: set_ring_def)
    have "(t', s') = (?t3, s1) \<or> (\<exists>k. kfree_skb k (?t3, s1) = Some (t', s')) \<or>
       (\<exists>i w w'. rx_data E i (w, ?t3, s1) = Some (w', t', s')) \<or>
       (\<exists>i w w' u z k. rx_data E i (w, ?t3, s1) = Some (w', u, z) \<and> rx_up p c k (u, z) = Some (t', s')) \<or>
       (\<exists>k. rx_up p c k (?t3, s1) = Some (t', s'))"
      using assms(1) 2 True unfolding rx_step_def
      by (auto simp: e Let_def set_ring_def split: if_splits option.splits prod.splits)
    then show ?thesis
      using i3 keep_free keep_data keep_up by (elim disjE exE conjE) (blast | simp)+
  qed
qed

lemma keep_begin: "rx_begin (v, t) = (v', t') \<Longrightarrow> I (rx_ring t) s \<Longrightarrow> I (rx_ring t') s"
  using info by (auto simp: rx_begin_def set_pkt_info_def Let_def split: if_splits)

lemma keep_loop_all:
  assumes "rx_loop E p c b f z = Some z'"
  shows "I (rx_ring (fst (snd z))) (snd (snd z)) \<longrightarrow> I (rx_ring (fst (snd z'))) (snd (snd z'))"
proof -
  let ?P = "\<lambda>E' p' c' b f z z'. E' = E \<and> p' = p \<and> c' = c \<and> I (rx_ring (fst (snd z))) (snd (snd z)) \<longrightarrow>
     I (rx_ring (fst (snd z'))) (snd (snd z'))"
  have "?P E p c b f z z'"
  proof (rule rx_loop.raw_induct [where P = ?P, OF _ assms])
    fix loop E' p' c' b f and z z' :: "rx_vars \<times> rx_chan \<times> kern"
    let ?z = "if f then (case z of (v, t, s) \<Rightarrow> case rx_begin (v, t) of (v, t) \<Rightarrow> (v, t, s)) else z"
    assume ih: "\<And>E' p' c' b f z z'. loop E' p' c' b f z = Some z' \<Longrightarrow> ?P E' p' c' b f z z'"
      and body: "(if f \<and> v_count (fst z) \<ge> b then Some z
      else case rx_step E' p' c' ?z of None \<Rightarrow> None
      | Some (Stop, z) \<Rightarrow> Some z
      | Some (Read_again, z) \<Rightarrow> loop E' p' c' b False z
      | Some (Next_packet, v, t, s) \<Rightarrow> loop E' p' c' b True (v\<lparr>v_count := v_count v + 1\<rparr>, t, s)) = Some z'"
    show "?P E' p' c' b f z z'"
  proof (intro impI, elim conjE)
    assume eq: "E' = E" "p' = p" "c' = c" and i0: "I (rx_ring (fst (snd z))) (snd (snd z))"
    note body = body [unfolded eq]
    have IH: "\<And>f z. loop E p c b f z = Some z' \<Longrightarrow> I (rx_ring (fst (snd z))) (snd (snd z)) \<Longrightarrow> I (rx_ring (fst (snd z'))) (snd (snd z'))"
      using ih by blast
    obtain v t s where z1: "?z = (v, t, s)" by (metis prod_cases3)
    have i1: "I (rx_ring t) s" using z1 i0 keep_begin by (auto split: if_splits prod.splits)
    show "I (rx_ring (fst (snd z'))) (snd (snd z'))"
    proof (cases "f \<and> v_count (fst z) \<ge> b")
      case True
      then show ?thesis using body i0 by simp
    next
      case False
      then obtain g v' t' s' where st: "rx_step E p c (v, t, s) = Some (g, v', t', s')"
        using body z1 by (auto split: option.splits)
      have i2: "I (rx_ring t') s'" using keep_step [OF st i1] .
      show ?thesis
      proof (cases g)
        case Stop
        then show ?thesis using body False z1 st i2 by auto
      next
        case Read_again
        then have "loop E p c b False (v', t', s') = Some z'" using body False z1 st by auto
        then show ?thesis using IH i2 by fastforce
      next
        case Next_packet
        then have "loop E p c b True (v'\<lparr>v_count := v_count v' + 1\<rparr>, t', s') = Some z'" using body False z1 st by auto
        then show ?thesis using IH i2 by fastforce
      qed
    qed
    qed
  qed
  then show ?thesis by simp
qed

lemma keep_poll:
  assumes "mac_rx_poll E p c b (t, s) = Some (n, t', s')" "I (rx_ring t) s"
  shows "I (rx_ring t') s'"
proof (cases "has_rx_ring c")
  case False
  then show ?thesis using assms by (simp add: mac_rx_poll_def)
next
  case True
  let ?e = "\<lambda>u v. (get_data (rx_ring u) (cur (rx_ring u)))\<lparr>state_saved := True, state_skb := v_skb v, state_len := v_len v, state_error := v_error v\<rparr>"
  obtain v u where l: "rx_loop E p c b True (rx_vars0, t, s) = Some (v, u, s')"
    and t': "t' = u \<or> t' = set_ring (set_data (cur (rx_ring u)) (?e u v) (rx_ring u)) u"
    using assms(1) True by (auto simp: mac_rx_poll_def Let_def split: if_splits)
  have e: "kept (get_data (rx_ring u) (cur (rx_ring u))) (?e u v)" by (simp add: kept_def)
  have "I (rx_ring u) s'" using keep_loop_all [OF l] assms(2) by simp
  then show ?thesis using t' entry [OF _ e] by (auto simp: set_ring_def)
qed

end

section \<open>The books of a poll\<close>

lemma rx_ok_emit [simp]: "other e \<Longrightarrow> rx_ok p r (emit e s) = rx_ok p r s"
  by (simp add: rx_ok_def)

lemma rx_ok_soft [simp]:
  "rx_ok p (r\<lparr>pkt_info := q\<rparr>) s = rx_ok p r s" "rx_ok p (r\<lparr>cur := i\<rparr>) s = rx_ok p r s" "rx_ok p (r\<lparr>dirty := i\<rparr>) s = rx_ok p r s"
  "rx_ok p r (s\<lparr>next_obj := n\<rparr>) = rx_ok p r s"
  by (simp_all add: rx_ok_def rx_lens_def ring_size_def rx_pas_ok_def ring_pages_def ring_maps_def)

lemma mwrite_other: "\<exists>e. other e \<and> trace (mwrite a v s) = e # trace s"
  by (simp add: mwrite_def writel_def)

lemma rx_ok_mwrite [simp]: "rx_ok p r (mwrite a v s) = rx_ok p r s"
  using mwrite_other [of a v s] by (auto simp: rx_ok_def simp del: other.simps)

lemma rx_ok_give:
  assumes "rx_ok p r s" "pages (pa (rx_buf (rx (get_data r i)))) = Some pg"
  shows "rx_ok p (set_data i (given_away (get_data r i)) r) (emit (Eskb_frag k pg) s)"
proof -
  let ?e = "get_data r i"
  have l: "rx_lens r" "rx_only ?e" "\<forall>e \<in> set (datas r). rx_only e" using assms(1) get_data_in by (auto simp: rx_ok_def)
  obtain P M where f: "\<And>d r'. datas r' = datas r \<Longrightarrow> dma_desc_count r' = dma_desc_count r \<Longrightarrow>
     ring_pages (set_data i d r') = P + pages_of (rx_hdr_pa r') + pages_of (rx_buf_pa r') + rx_pages (rx d) \<and>
     ring_maps (set_data i d r') = M + maps_of (rx_hdr_pa r') + maps_of (rx_buf_pa r') + rx_maps (rx d)"
    using entry_focus [OF l(1), of i] by blast
  have "rx_pages (rx ?e) = add_mset pg (rx_pages (rx (given_away ?e)))" "rx_maps (rx (given_away ?e)) = rx_maps (rx ?e)"
    using assms(2) by (simp_all add: given_away_def rx_pages_def rx_maps_def pages_of_def)
  then have "rx_books (ring_pages (set_data i (given_away ?e) r)) (ring_maps (set_data i (given_away ?e) r)) (trace (emit (Eskb_frag k pg) s))"
    using f [of r "given_away ?e"] f [of r ?e] set_data_same [OF l(1), of i] assms(1)
    by (simp add: rx_ok_def rx_books_def rx_accounts_Cons accounts_Cons)
  moreover have "\<forall>e \<in> set (datas (set_data i (given_away ?e) r)). rx_only e"
    by (rule set_data_only [OF l(3)]) (use l(2) in \<open>simp add: rx_only_def given_away_def\<close>)
  ultimately show ?thesis using assms(1) by (simp add: rx_ok_def rx_pas_ok_def) (simp add: set_data_def)
qed

lemma rx_ok_refresh:
  assumes "mac_rx_refresh E p c (r, s) = (r', s')" "rx_ok p r s" "rx_size_ok p"
  shows "rx_ok p r' s'"
proof -
  obtain r1 s1 where 1: "rx_refresh_loop E p (unat (mac_rx_dirty_desc r)) (r, s) = (r1, s1)" by fastforce
  show ?thesis using rx_refresh_loop_ok [OF 1 assms(2,3)] assms(1) 1 by (auto simp: mac_rx_refresh_def)
qed

definition rx_good :: "net_pdata \<Rightarrow> mac_ring \<Rightarrow> kern \<Rightarrow> bool" where
  "rx_good p r s \<longleftrightarrow> rx_size_ok p \<and> rx_ok p r s"

interpretation rx_accounts: rx_invariant E p c "rx_good p" "\<lambda>_. True"
proof unfold_locales
  fix r s i d
  assume "rx_good p r s" "kept (get_data r i) d"
  then show "rx_good p (set_data i d r) s"
    using rx_ok_entry [of p r s d i] get_data_in [of r i] by (auto simp: rx_good_def kept_def rx_pages_def rx_maps_def rx_only_def rx_ok_def)
qed (auto simp: rx_good_def rx_ok_give rx_refreshed_def rx_ok_refresh rx_ok_def [of p r s for r s, THEN iffD1] simp del: other.simps split: if_splits)

end
