(* ===== verification/Rx_Window.thy ===== *)
theory Rx_Window
  imports Rx_Poll
begin

text \<open>
  The receive ring as the card sees it. Positions count from \<open>dirty\<close>: those before \<open>cur\<close> wait to be
  refilled, the others name buffers for the card. A page that has been cut up is unmapped with the
  entry that got its last buffer, so each buffer lies in a page that its own entry, a later one or
  the ring keeps mapped.
\<close>

section \<open>Positions\<close>

definition rx_at :: "mac_ring \<Rightarrow> nat \<Rightarrow> nat \<Rightarrow> nat" where
  "rx_at r d n = (d + n) mod ring_size r"

definition maps_from :: "(mac_rx_desc_data \<Rightarrow> mac_buffer_data) \<Rightarrow> mac_ring \<Rightarrow> nat \<Rightarrow> nat \<Rightarrow> buf set" where
  "maps_from f r d n = {m. \<exists>j. n \<le> j \<and> j < ring_size r \<and> m \<in># maps_of (pa_unmap (f (rx (datas r ! rx_at r d j))))}"

definition rx_covered :: "net_pdata \<Rightarrow> mac_ring \<Rightarrow> nat \<Rightarrow> nat \<Rightarrow> bool" where
  "rx_covered p r d n \<longleftrightarrow> (let x = rx (datas r ! rx_at r d n) in dma_len (rx_hdr x) = 512 \<and> dma_len (rx_buf x) = rx_buf_size p \<and>
     buf_in (rx_hdr x) (\<lambda>m. m \<in># maps_of (rx_hdr_pa r) \<or> m \<in> maps_from rx_hdr r d n) \<and>
     buf_in (rx_buf x) (\<lambda>m. m \<in># maps_of (rx_buf_pa r) \<or> m \<in> maps_from rx_buf r d n))"

text \<open>The addresses a descriptor gives the card; the two high bits of the second are flags.\<close>

definition desc_hdr :: "mac_dma_desc \<Rightarrow> u64" where
  "desc_hdr d = push_bit 32 (ucast (desc1 d)) OR ucast (desc0 d)"

definition desc_buf :: "mac_dma_desc \<Rightarrow> u64" where
  "desc_buf d = take_bit 62 (push_bit 32 (ucast (desc3 d)) OR ucast (desc2 d))"

definition desc_names :: "mac_dma_desc \<Rightarrow> mac_rx_desc_data \<Rightarrow> bool" where
  "desc_names d x \<longleftrightarrow> desc_hdr d = dma_base (rx_hdr x) + dma_off (rx_hdr x) \<and>
     desc_buf d = take_bit 62 (dma_base (rx_buf x) + dma_off (rx_buf x))"

abbreviation rx_own :: "mac_dma_desc \<Rightarrow> bool" where
  "rx_own d \<equiv> desc_bits d 3 RX_NORMAL_DESC3_OWN \<noteq> 0"

text \<open>\<open>q\<close> entries from \<open>d\<close> have been consumed.\<close>

definition rx_window :: "net_pdata \<Rightarrow> mac_ring \<Rightarrow> nat \<Rightarrow> nat \<Rightarrow> bool" where
  "rx_window p r d q \<longleftrightarrow> q \<le> ring_size r \<and> (\<forall>n < ring_size r. (q \<le> n \<longrightarrow> rx_covered p r d n) \<and>
     (rx_own (descs r ! rx_at r d n) \<longrightarrow> q \<le> n \<and> desc_names (descs r ! rx_at r d n) (rx (datas r ! rx_at r d n))))"

lemma rx_at_lt [simp]: "0 < ring_size r \<Longrightarrow> rx_at r d n < ring_size r"
  by (simp add: rx_at_def)

lemma rx_at_inj: "i < ring_size r \<Longrightarrow> j < ring_size r \<Longrightarrow> rx_at r d i = rx_at r d j \<longleftrightarrow> i = j"
  using mod_apart [of d i "ring_size r" j] by (auto simp: rx_at_def)

lemma rx_at_Suc: "rx_at r (Suc d) n = rx_at r d (Suc n)"
  by (simp add: rx_at_def)

lemma rx_at_last: "0 < ring_size r \<Longrightarrow> rx_at r (Suc d) (ring_size r - 1) = rx_at r d 0"
  by (simp add: rx_at_def)

lemma rx_at_surj:
  assumes "k < ring_size r"
  shows "\<exists>n < ring_size r. rx_at r d n = k"
proof -
  let ?N = "ring_size r"
  have "d + (k + ?N - d mod ?N) = k + ?N * (d div ?N + 1)"
    using assms mod_less_divisor [of ?N d] mult_div_mod_eq [of ?N d] unfolding distrib_left mult_1_right by linarith
  then have "(d + (k + ?N - d mod ?N)) mod ?N = k" using assms mod_mult_self2 [of k ?N "d div ?N + 1"] by (simp only: mod_less)
  then have "(d + (k + ?N - d mod ?N) mod ?N) mod ?N = k" by (simp only: mod_add_right_eq)
  then show ?thesis using assms by (intro exI [of _ "(k + ?N - d mod ?N) mod ?N"]) (simp add: rx_at_def)
qed

lemma rx_at_mod: "rx_at r (d mod ring_size r) n = rx_at r d n"
  by (simp add: rx_at_def mod_add_left_eq)

lemma rx_window_mod: "rx_window p r (d mod ring_size r) q = rx_window p r d q"
  by (simp add: rx_window_def rx_covered_def maps_from_def rx_at_mod)

section \<open>Refilling the oldest entry\<close>

text \<open>The ring after its oldest entry got buffers.\<close>

definition rx_filled :: "net_pdata \<Rightarrow> mac_ring \<Rightarrow> nat \<Rightarrow> mac_desc_data \<Rightarrow> mac_ring \<Rightarrow> bool" where
  "rx_filled p r d e r' \<longleftrightarrow> dma_desc_count r' = dma_desc_count r \<and> descs r' = descs r \<and> datas r' = (datas r)[rx_at r d 0 := e] \<and>
     held_more 512 (rx_hdr_pa r) (rx_hdr_pa r') (rx_hdr (rx e)) \<and> held_more (rx_buf_size p) (rx_buf_pa r) (rx_buf_pa r') (rx_buf (rx e))"

lemma filled_entry:
  assumes "rx_filled p r d e r'" "length (datas r) = ring_size r" "n < ring_size r"
  shows "datas r' ! rx_at r' (Suc d) n = (if Suc n = ring_size r then e else datas r ! rx_at r d (Suc n))"
proof -
  have N: "ring_size r' = ring_size r" "0 < ring_size r" using assms by (simp_all add: rx_filled_def ring_size_def)
  have "rx_at r' (Suc d) n = rx_at r d (Suc n)" using N by (simp add: rx_at_def)
  then show ?thesis
    using assms N rx_at_inj [of "Suc n" r 0 d] rx_at_lt [OF N(2)] rx_at_last [OF N(2)]
    by (cases "Suc n = ring_size r") (auto simp: rx_filled_def nth_list_update rx_at_def)
qed

lemma filled_maps:
  assumes "rx_filled p r d e r'" "length (datas r) = ring_size r" "n < ring_size r"
  shows "m \<in># maps_of (pa_unmap (f (rx e))) \<Longrightarrow> m \<in> maps_from f r' (Suc d) n"
    "m \<in> maps_from f r d (Suc n) \<Longrightarrow> m \<in> maps_from f r' (Suc d) n"
proof -
  have N: "ring_size r' = ring_size r" using assms by (simp add: rx_filled_def ring_size_def)
  show "m \<in># maps_of (pa_unmap (f (rx e))) \<Longrightarrow> m \<in> maps_from f r' (Suc d) n"
    using filled_entry [OF assms(1,2), of "ring_size r - 1"] assms(3) N unfolding maps_from_def
    by (auto intro!: exI [of _ "ring_size r - 1"])
  assume "m \<in> maps_from f r d (Suc n)"
  then obtain j where j: "Suc n \<le> j" "j < ring_size r" "m \<in># maps_of (pa_unmap (f (rx (datas r ! rx_at r d j))))"
    by (auto simp: maps_from_def)
  then have "datas r' ! rx_at r' (Suc d) (j - 1) = datas r ! rx_at r d j"
    using filled_entry [OF assms(1,2), of "j - 1"] by simp
  then show "m \<in> maps_from f r' (Suc d) n"
    using j N unfolding maps_from_def by (auto intro!: exI [of _ "j - 1"])
qed

lemma held_cover:
  assumes "rx_filled p r d e r'" "length (datas r) = ring_size r" "n < ring_size r"
  shows "m \<in># maps_of (rx_hdr_pa r) \<Longrightarrow> m \<in># maps_of (rx_hdr_pa r') \<or> m \<in> maps_from rx_hdr r' (Suc d) n"
    "m \<in># maps_of (rx_buf_pa r) \<Longrightarrow> m \<in># maps_of (rx_buf_pa r') \<or> m \<in> maps_from rx_buf r' (Suc d) n"
proof -
  have "maps_of (rx_hdr_pa r) \<subseteq># maps_of (rx_hdr_pa r') + maps_of (pa_unmap (rx_hdr (rx e)))"
    "maps_of (rx_buf_pa r) \<subseteq># maps_of (rx_buf_pa r') + maps_of (pa_unmap (rx_buf (rx e)))"
    using assms(1) by (auto simp: rx_filled_def held_more_def)
  note sub = this
  show "m \<in># maps_of (rx_hdr_pa r) \<Longrightarrow> m \<in># maps_of (rx_hdr_pa r') \<or> m \<in> maps_from rx_hdr r' (Suc d) n"
    using filled_maps(1) [OF assms, of m rx_hdr] sub(1) by (meson mset_subset_eqD union_iff)
  show "m \<in># maps_of (rx_buf_pa r) \<Longrightarrow> m \<in># maps_of (rx_buf_pa r') \<or> m \<in> maps_from rx_buf r' (Suc d) n"
    using filled_maps(1) [OF assms, of m rx_buf] sub(2) by (meson mset_subset_eqD union_iff)
qed

lemma window_fill:
  assumes "rx_window p r d q" "0 < q" "rx_filled p r d e r'" "length (datas r) = ring_size r"
  shows "rx_window p r' (Suc d) (q - 1)"
proof -
  have N: "ring_size r' = ring_size r" "descs r' = descs r" "0 < ring_size r" using assms by (auto simp: rx_filled_def ring_size_def rx_window_def)
  have h: "held_more 512 (rx_hdr_pa r) (rx_hdr_pa r') (rx_hdr (rx e))" "held_more (rx_buf_size p) (rx_buf_pa r) (rx_buf_pa r') (rx_buf (rx e))"
    using assms(3) by (simp_all add: rx_filled_def)
  have at: "rx_at r' (Suc d) n = rx_at r d (Suc n)" for n using N by (simp add: rx_at_def)
  have cov: "rx_covered p r' (Suc d) n" if n: "n < ring_size r" "q - 1 \<le> n" for n
  proof (cases "Suc n = ring_size r")
    case True
    then have "datas r' ! rx_at r' (Suc d) n = e" using filled_entry [OF assms(3,4) n(1)] by simp
    then show ?thesis
      using h filled_maps(1) [OF assms(3,4) n(1)] unfolding rx_covered_def Let_def held_more_def
      by (auto elim!: buf_in_mono)
  next
    case False
    then have e: "datas r' ! rx_at r' (Suc d) n = datas r ! rx_at r d (Suc n)" using filled_entry [OF assms(3,4) n(1)] by simp
    have "rx_covered p r d (Suc n)" using assms(1,2) n False by (auto simp: rx_window_def)
    then have x: "dma_len (rx_hdr (rx (datas r ! rx_at r d (Suc n)))) = 512" "dma_len (rx_buf (rx (datas r ! rx_at r d (Suc n)))) = rx_buf_size p"
      "buf_in (rx_hdr (rx (datas r ! rx_at r d (Suc n)))) (\<lambda>m. m \<in># maps_of (rx_hdr_pa r) \<or> m \<in> maps_from rx_hdr r d (Suc n))"
      "buf_in (rx_buf (rx (datas r ! rx_at r d (Suc n)))) (\<lambda>m. m \<in># maps_of (rx_buf_pa r) \<or> m \<in> maps_from rx_buf r d (Suc n))"
      by (simp_all add: rx_covered_def Let_def)
    have "buf_in (rx_hdr (rx (datas r ! rx_at r d (Suc n)))) (\<lambda>m. m \<in># maps_of (rx_hdr_pa r') \<or> m \<in> maps_from rx_hdr r' (Suc d) n)"
      by (rule buf_in_mono [OF x(3)]) (use held_cover(1) [OF assms(3,4) n(1)] filled_maps(2) [OF assms(3,4) n(1), of _ rx_hdr] in blast)
    moreover have "buf_in (rx_buf (rx (datas r ! rx_at r d (Suc n)))) (\<lambda>m. m \<in># maps_of (rx_buf_pa r') \<or> m \<in> maps_from rx_buf r' (Suc d) n)"
      by (rule buf_in_mono [OF x(4)]) (use held_cover(2) [OF assms(3,4) n(1)] filled_maps(2) [OF assms(3,4) n(1), of _ rx_buf] in blast)
    ultimately show ?thesis using x(1,2) by (simp add: rx_covered_def Let_def e)
  qed
  have own: "q - 1 \<le> n \<and> desc_names (descs r' ! rx_at r' (Suc d) n) (rx (datas r' ! rx_at r' (Suc d) n))"
    if n: "n < ring_size r" and o: "rx_own (descs r' ! rx_at r' (Suc d) n)" for n
  proof (cases "Suc n = ring_size r")
    case True
    then have "rx_at r' (Suc d) n = rx_at r d 0" using at rx_at_last [OF N(3), of d] by (simp add: rx_at_Suc flip: True)
    then have "rx_own (descs r ! rx_at r d 0)" using o N by simp
    then have "q \<le> 0" using assms(1) N(3) unfolding rx_window_def by blast
    then show ?thesis using assms(2) by simp
  next
    case False
    then have e: "datas r' ! rx_at r' (Suc d) n = datas r ! rx_at r d (Suc n)" using filled_entry [OF assms(3,4) n] by simp
    have "rx_own (descs r ! rx_at r d (Suc n))" using o N at by simp
    moreover have "Suc n < ring_size r" using n False by simp
    ultimately have "q \<le> Suc n \<and> desc_names (descs r ! rx_at r d (Suc n)) (rx (datas r ! rx_at r d (Suc n)))"
      using assms(1) unfolding rx_window_def by blast
    then show ?thesis unfolding e using N at by auto
  qed
  show ?thesis using assms(1) cov own N(1) by (auto simp: rx_window_def)
qed

section \<open>What a reset stores\<close>

lemma halves: "push_bit 32 (ucast (upper_32_bits a)) OR ucast (lower_32_bits a) = (a :: u64)"
  by (rule bit_eqI) (auto simp: bit_simps upper_32_bits_def lower_32_bits_def)

lemma halves_flags:
  assumes "\<And>j. j < 30 \<Longrightarrow> bit u j \<longleftrightarrow> bit (upper_32_bits a) j"
  shows "take_bit 62 (push_bit 32 (ucast u) OR ucast (lower_32_bits a)) = take_bit 62 (a :: u64)"
proof (rule bit_word_eqI)
  fix n
  assume n: "n < LENGTH(64)"
  show "bit (take_bit 62 (push_bit 32 (ucast u) OR ucast (lower_32_bits a)) :: u64) n = bit (take_bit 62 a) n"
    using n assms [of "n - 32"] by (auto simp: bit_simps upper_32_bits_def lower_32_bits_def)
qed

lemma reset_names: "desc_names (desc_after (rx_reset_stores p e i @ [Field 3 RX_NORMAL_DESC3_OWN 1]) d) (rx e)"
proof -
  let ?h = "dma_base (rx_hdr (rx e)) + dma_off (rx_hdr (rx e))" and ?b = "dma_base (rx_buf (rx e)) + dma_off (rx_buf (rx e))"
  let ?w = "MAC_SET_REG_BITS (MAC_SET_REG_BITS (upper_32_bits ?b) RX_NORMAL_DESC3_INTE (rx_inte p i)) RX_NORMAL_DESC3_OWN 1"
  have d: "desc_after (rx_reset_stores p e i @ [Field 3 RX_NORMAL_DESC3_OWN 1]) d =
    \<lparr>desc0 = lower_32_bits ?h, desc1 = upper_32_bits ?h, desc2 = lower_32_bits ?b, desc3 = ?w\<rparr>"
    by (cases d) (simp add: rx_reset_stores_def Let_def set_word_def get_word_def)
  have "take_bit 62 (push_bit 32 (ucast ?w) OR ucast (lower_32_bits ?b)) = take_bit 62 ?b"
    by (rule halves_flags) (simp add: bit_MAC_SET)
  then show ?thesis unfolding d desc_names_def desc_hdr_def desc_buf_def by (simp add: halves)
qed

lemma reset_effect:
  assumes "mac_rx_desc_reset p e i (r, s) = (r', s')" "dma_desc e < length (descs r)"
  shows "r' = r\<lparr>descs := (descs r)[dma_desc e := desc_after (rx_reset_stores p e i @ [Field 3 RX_NORMAL_DESC3_OWN 1]) (descs r ! dma_desc e)]\<rparr>"
proof -
  let ?k = "dma_desc e"
  obtain r1 s1 where 1: "puts ?k (rx_reset_stores p e i) (r, s) = (r1, s1)" by fastforce
  obtain r2 s2 where 2: "puts ?k [Field 3 RX_NORMAL_DESC3_OWN 1] (r1, emit Ewmb s1) = (r2, s2)" by fastforce
  have "r1 = r\<lparr>descs := (descs r)[?k := desc_after (rx_reset_stores p e i) (descs r ! ?k)]\<rparr>"
    using puts_effect [OF assms(2), of "rx_reset_stores p e i" s] 1 by simp
  moreover have "r2 = r1\<lparr>descs := (descs r1)[?k := desc_after [Field 3 RX_NORMAL_DESC3_OWN 1] (descs r1 ! ?k)]\<rparr>"
    using puts_effect [of ?k r1 "[Field 3 RX_NORMAL_DESC3_OWN 1]" "emit Ewmb s1"] 2 calculation assms(2) by simp
  moreover have "r' = r2" using assms(1) 1 2 by (simp add: mac_rx_desc_reset_def)
  ultimately show ?thesis using assms(2) by simp
qed

lemma window_reset:
  assumes "rx_window p r d q" "mac_rx_desc_reset p e i (r, s) = (r', s')" "n < ring_size r" "q \<le> n"
    "dma_desc e = rx_at r d n" "datas r ! rx_at r d n = e" "length (descs r) = ring_size r"
  shows "rx_window p r' d q"
proof -
  let ?D = "desc_after (rx_reset_stores p e i @ [Field 3 RX_NORMAL_DESC3_OWN 1]) (descs r ! dma_desc e)"
  have lt: "rx_at r d m < ring_size r" for m using assms(3) by simp
  have r': "r' = r\<lparr>descs := (descs r)[rx_at r d n := ?D]\<rparr>"
    using reset_effect [OF assms(2)] assms(5,7) lt by simp
  have f: "ring_size r' = ring_size r" "datas r' = datas r" "rx_hdr_pa r' = rx_hdr_pa r" "rx_buf_pa r' = rx_buf_pa r"
    by (simp_all add: r' ring_size_def)
  have at: "rx_at r' = rx_at r" by (simp add: rx_at_def f fun_eq_iff)
  have cov: "rx_covered p r' d m = rx_covered p r d m" for m by (simp add: rx_covered_def maps_from_def f at)
  have "descs r' ! rx_at r d m = (if m = n then ?D else descs r ! rx_at r d m)" if "m < ring_size r" for m
    using that assms(3,7) lt rx_at_inj [OF that assms(3)] rx_at_inj [OF assms(3) that] by (auto simp: r' nth_list_update)
  then show ?thesis
    using assms(1,4,6) reset_names [of p e i "descs r ! dma_desc e"] by (auto simp: rx_window_def f at cov)
qed

end
