(* ===== verification/Rx_Safe.thy ===== *)
theory Rx_Safe
  imports Rx_Window
begin

text \<open>While every allocation succeeds, a poll keeps the window of the card: the second invariant.\<close>

section \<open>Refreshing\<close>

definition rx_linked :: "mac_ring \<Rightarrow> bool" where
  "rx_linked r \<longleftrightarrow> (\<forall>k < ring_size r. dma_desc (datas r ! k) = k)"

lemma lens_ridx_mod: "rx_lens r \<Longrightarrow> ridx r i = unat i mod ring_size r"
  using ridx_mod unat_2k by (fastforce simp: rx_lens_def ring_size_def)

lemma lens_pos: "rx_lens r \<Longrightarrow> 0 < ring_size r"
  by (auto simp: rx_lens_def ring_size_def unat_2k)

lemma unat_mod_ring:
  fixes i :: u32
  assumes "rx_lens r"
  shows "unat (i + word_of_nat n) mod ring_size r = (unat i + n) mod ring_size r"
proof -
  obtain k where k: "k < 32" "dma_desc_count r = 2 ^ k" using assms by (auto simp: rx_lens_def)
  have N: "ring_size r = 2 ^ k" using k by (simp add: ring_size_def unat_2k)
  have "(2::nat) ^ k dvd 2 ^ 32" using k by (intro le_imp_power_dvd) simp
  then have m: "x mod 4294967296 mod 2 ^ k = x mod 2 ^ k" for x :: nat by (simp add: mod_mod_cancel)
  show ?thesis unfolding N by (simp add: unat_word_ariths unsigned_of_nat take_bit_eq_mod m mod_add_right_eq)
qed

lemma window_dirty:
  assumes "rx_lens r"
  shows "rx_window p r (unat ((i :: u32) + 1)) q = rx_window p r (Suc (unat i)) q"
  using unat_mod_ring [OF assms, of i 1] rx_window_mod [of p r "unat (i + 1)" q] rx_window_mod [of p r "Suc (unat i)" q] by simp

lemma window_frame:
  assumes "rx_window p r d q" "dma_desc_count r' = dma_desc_count r" "descs r' = descs r" "datas r' = datas r"
    "rx_hdr_pa r' = rx_hdr_pa r" "rx_buf_pa r' = rx_buf_pa r"
  shows "rx_window p r' d q"
proof -
  have "ring_size r' = ring_size r" using assms by (simp add: ring_size_def)
  moreover from this have "rx_at r' = rx_at r" by (simp add: rx_at_def fun_eq_iff)
  ultimately show ?thesis using assms by (simp add: rx_window_def rx_covered_def maps_from_def)
qed

lemma window_refresh_loop:
  "rx_refresh_loop E p n (r, s) = (r', s') \<Longrightarrow> rx_ok p r s \<Longrightarrow> rx_size_ok p \<Longrightarrow> \<forall>h. alloc_ok E h \<Longrightarrow> rx_linked r \<Longrightarrow>
     rx_window p r (unat (dirty r)) n \<Longrightarrow>
     rx_window p r' (unat (dirty r')) 0 \<and> dirty r' = dirty r + word_of_nat n \<and> rx_linked r' \<and> ring_size r' = ring_size r"
proof (induction n arbitrary: r s)
  case (Suc n)
  let ?i = "ridx r (dirty r)"
  obtain d s1 where 1: "mac_unmap_desc_data (get_data r (dirty r), s) = (d, s1)" by fastforce
  obtain ret r1 d1 s2 where 2: "mac_map_rx_buffer E p (r, d, s1) = (ret, r1, d1, s2)" by (metis prod_cases4)
  let ?r = "set_data (dirty r1) d1 r1"
  note v = rx_refill [OF Suc.prems(2,3) 1 2]
  obtain h b where hb: "r1 = r\<lparr>rx_hdr_pa := h, rx_buf_pa := b\<rparr>" using v by blast
  have l: "rx_lens r" "ring_size ?r = ring_size r" "length (datas r) = ring_size r" "length (descs r) = ring_size r"
    using Suc.prems(2) by (simp_all add: rx_ok_def rx_lens_def hb set_data_def ring_size_def)
  have i: "?i = rx_at r (unat (dirty r)) 0" "?i < ring_size r"
    using lens_ridx_mod [OF l(1)] lens_pos [OF l(1)] by (simp_all add: rx_at_def)
  have s: "dirty r1 = dirty r" "dirty ?r = dirty r" "datas ?r = (datas r)[?i := d1]" "descs ?r = descs r"
    by (simp_all add: hb set_data_def ridx_def)
  have ok: "rx_ok p ?r s2" using v s by simp
  have ret: "ret = 0" using v Suc.prems(4) by blast
  have dd: "dma_desc d1 = ?i" using v Suc.prems(5) i(2) by (simp add: rx_linked_def get_data_def)
  have "rx_filled p r (unat (dirty r)) d1 ?r"
    using v ret s i(1) by (simp add: rx_filled_def) (simp add: hb set_data_def)
  then have w: "rx_window p ?r (Suc (unat (dirty r))) n"
    using window_fill [OF Suc.prems(6)] l(3) by fastforce
  have g: "get_data ?r (dirty ?r) = d1" using i(2) l(3) s by (simp add: get_data_def ridx_def) (simp add: hb set_data_def ridx_def)
  obtain r2 s3 where 3: "mac_rx_desc_reset p d1 (dirty ?r) (?r, s2) = (r2, s3)" by fastforce
  have o: "rx_ok p r2 s3" "rx_same ?r r2" using rx_reset_ok [OF 3 ok] by blast+
  note f = rx_same_fields [OF o(2)]
  have last: "rx_at ?r (Suc (unat (dirty r))) (ring_size ?r - 1) = ?i"
    using rx_at_last [of ?r "unat (dirty r)"] lens_pos [OF l(1)] l(2) i(1) by (simp add: rx_at_def)
  have w2: "rx_window p r2 (Suc (unat (dirty r))) n"
  proof (rule window_reset [OF w 3])
    show "ring_size ?r - 1 < ring_size ?r" using lens_pos [OF l(1)] l(2) by simp
    show "n \<le> ring_size ?r - 1" using Suc.prems(6) l(2) unfolding rx_window_def by linarith
    show "dma_desc d1 = rx_at ?r (Suc (unat (dirty r))) (ring_size ?r - 1)" using last dd by simp
    show "datas ?r ! rx_at ?r (Suc (unat (dirty r))) (ring_size ?r - 1) = d1" unfolding last using i(2) l(3) by (simp add: s(3))
    show "length (descs ?r) = ring_size ?r" using s(4) l(2,4) by simp
  qed
  let ?r3 = "r2\<lparr>dirty := dirty r2 + 1\<rparr>"
  have d3: "dirty ?r3 = dirty r + 1" "ring_size ?r3 = ring_size r" using f s(2) l(2) by (simp_all add: ring_size_def)
  have l3: "rx_lens ?r3" using o(1) by (simp add: rx_ok_def rx_lens_def ring_size_def)
  have lk: "rx_linked ?r3" using Suc.prems(5) f s(3) l(2,3) dd i(2) by (auto simp: rx_linked_def ring_size_def nth_list_update)
  have w3: "rx_window p ?r3 (unat (dirty ?r3)) n"
    using window_frame [OF w2, of ?r3] window_dirty [OF l3, of p "dirty r" n] d3 by simp
  have o3: "rx_ok p ?r3 s3" using rx_ok_frame [OF o(1), of ?r3] by (simp add: rx_frame_def)
  have "rx_refresh_loop E p n (?r3, s3) = (r', s')"
    using Suc.prems(1) 1 2 3 ret s g by (simp add: Let_def)
  note r = Suc.IH [OF this o3 Suc.prems(3,4) lk w3]
  have "dirty r' = dirty r + word_of_nat (Suc n)" "ring_size r' = ring_size r" using r d3 by (simp_all add: ac_simps)
  then show ?case using r by blast
qed simp

section \<open>The safe states\<close>

definition rx_safe :: "net_pdata \<Rightarrow> mac_ring \<Rightarrow> bool" where
  "rx_safe p r \<longleftrightarrow> rx_linked r \<and> 513 \<le> ring_size r \<and> unat (cur r - dirty r) \<le> 513 \<and>
     rx_window p r (unat (dirty r)) (unat (cur r - dirty r))"

text \<open>An entry that names the same buffers.\<close>

definition same_buffers :: "mac_rx_desc_data \<Rightarrow> mac_rx_desc_data \<Rightarrow> bool" where
  "same_buffers x y \<longleftrightarrow> (rx_hdr x)\<lparr>pa := no_page\<rparr> = (rx_hdr y)\<lparr>pa := no_page\<rparr> \<and> (rx_buf x)\<lparr>pa := no_page\<rparr> = (rx_buf y)\<lparr>pa := no_page\<rparr>"

lemma same_buffer_fields:
  "b\<lparr>pa := no_page\<rparr> = b'\<lparr>pa := no_page\<rparr> \<Longrightarrow>
     pa_unmap b = pa_unmap b' \<and> dma_base b = dma_base b' \<and> dma_off b = dma_off b' \<and> dma_len b = dma_len b'"
  by (cases b; cases b') simp

lemma window_same:
  assumes "\<forall>k < ring_size r. same_buffers (rx (datas r ! k)) (rx (datas r' ! k))" "ring_size r' = ring_size r"
    "descs r' = descs r" "rx_hdr_pa r' = rx_hdr_pa r" "rx_buf_pa r' = rx_buf_pa r"
  shows "rx_window p r' d q = rx_window p r d q"
proof -
  have at: "rx_at r' = rx_at r" using assms(2) by (simp add: rx_at_def fun_eq_iff)
  have e: "pa_unmap (f (rx (datas r ! rx_at r d n))) = pa_unmap (f (rx (datas r' ! rx_at r d n))) \<and>
       dma_base (f (rx (datas r ! rx_at r d n))) = dma_base (f (rx (datas r' ! rx_at r d n))) \<and>
       dma_off (f (rx (datas r ! rx_at r d n))) = dma_off (f (rx (datas r' ! rx_at r d n))) \<and>
       dma_len (f (rx (datas r ! rx_at r d n))) = dma_len (f (rx (datas r' ! rx_at r d n)))"
    if "n < ring_size r" "f = rx_hdr \<or> f = rx_buf" for n f
  proof -
    have "same_buffers (rx (datas r ! rx_at r d n)) (rx (datas r' ! rx_at r d n))" using assms(1) that(1) rx_at_lt [of r d n] by simp
    then have "(f (rx (datas r ! rx_at r d n)))\<lparr>pa := no_page\<rparr> = (f (rx (datas r' ! rx_at r d n)))\<lparr>pa := no_page\<rparr>"
      using that(2) by (auto simp: same_buffers_def)
    from same_buffer_fields [OF this] show ?thesis .
  qed
  have m: "maps_from rx_hdr r' d n = maps_from rx_hdr r d n" "maps_from rx_buf r' d n = maps_from rx_buf r d n" for n
    using e by (auto simp: maps_from_def at assms(2))
  have "rx_covered p r' d n = rx_covered p r d n"
    "desc_names x (rx (datas r' ! rx_at r d n)) = desc_names x (rx (datas r ! rx_at r d n))" if "n < ring_size r" for n x
    using e [OF that, of rx_hdr] e [OF that, of rx_buf] by (simp_all add: rx_covered_def Let_def m at assms buf_in_def desc_names_def)
  then show ?thesis by (auto simp: rx_window_def at assms)
qed

lemma safe_entry:
  assumes "rx_safe p r" "rx_lens r" "same_buffers (rx (get_data r i)) (rx e)" "dma_desc e = dma_desc (get_data r i)"
  shows "rx_safe p (set_data i e r)"
proof -
  let ?r = "set_data i e r"
  have i: "ridx r i < length (datas r)" using lens_ridx [OF assms(2)] assms(2) by (simp add: rx_lens_def)
  have f: "ring_size ?r = ring_size r" "descs ?r = descs r" "rx_hdr_pa ?r = rx_hdr_pa r" "rx_buf_pa ?r = rx_buf_pa r"
    "cur ?r = cur r" "dirty ?r = dirty r" by (simp_all add: set_data_def ring_size_def)
  have "datas ?r ! k = (if k = ridx r i then e else datas r ! k)" for k using i by (auto simp: set_data_def nth_list_update)
  then have s: "\<forall>k < ring_size r. same_buffers (rx (datas r ! k)) (rx (datas ?r ! k))" "rx_linked ?r = rx_linked r"
    using assms(3,4) f(1) by (auto simp: get_data_def same_buffers_def rx_linked_def)
  show ?thesis using assms(1) window_same [OF s(1) f(1-4)] s(2) f by (simp add: rx_safe_def)
qed

lemma safe_soft: "rx_safe p (r\<lparr>pkt_info := q\<rparr>) = rx_safe p r"
proof -
  have "rx_window p (r\<lparr>pkt_info := q\<rparr>) d n = rx_window p r d n" for d n
    by (rule window_same) (simp_all add: same_buffers_def ring_size_def)
  then show ?thesis by (simp add: rx_safe_def rx_linked_def ring_size_def)
qed

lemma safe_refresh:
  assumes "rx_refreshed E p c (r, s) = (r', s')" "rx_safe p r" "rx_good p r s" "\<forall>h. alloc_ok E h"
  shows "rx_safe p r' \<and> cur r' - dirty r' \<le> 512"
proof (cases "cur r - dirty r > 512")
  case False
  then show ?thesis using assms(1,2) by (auto simp: rx_refreshed_def mac_rx_dirty_desc_def)
next
  case True
  let ?n = "unat (cur r - dirty r)"
  obtain s1 where 1: "rx_refresh_loop E p ?n (r, s) = (r', s1)"
    using assms(1) True by (auto simp: rx_refreshed_def mac_rx_refresh_def mac_rx_dirty_desc_def split: prod.splits)
  have w: "rx_ok p r s" "rx_size_ok p" "rx_linked r" "rx_window p r (unat (dirty r)) ?n"
    using assms(2,3) by (simp_all add: rx_safe_def rx_good_def)
  note v = window_refresh_loop [OF 1 w(1,2) assms(4) w(3,4)]
  then have "cur r' - dirty r' = 0" using rx_refresh_loop_ok [OF 1 w(1,2)] by simp
  moreover have "rx_window p r' (unat (dirty r')) 0" "rx_linked r'" "513 \<le> ring_size r'"
    using v assms(2) unfolding rx_safe_def by metis+
  ultimately show ?thesis by (simp add: rx_safe_def)
qed

lemma safe_advance:
  assumes "rx_safe p r" "rx_lens r" "cur r - dirty r \<le> 512" "desc_bits (get_desc r (cur r)) 3 RX_NORMAL_DESC3_OWN = 0"
  shows "rx_safe p (r\<lparr>cur := cur r + 1\<rparr>)"
proof -
  let ?q = "unat (cur r - dirty r)" and ?r = "r\<lparr>cur := cur r + 1\<rparr>"
  have q: "?q \<le> 512" using assms(3) by (simp add: word_le_nat_alt)
  have q1: "unat (cur r + 1 - dirty r) = Suc ?q"
  proof -
    have "cur r + 1 - dirty r = (cur r - dirty r) + 1" by simp
    moreover have "unat (x + 1) = Suc (unat x)" if "unat x \<le> 512" for x :: u32
      using that unat_add_lem [of x 1, THEN iffD1] by simp
    ultimately show ?thesis using q by metis
  qed
  have N: "?q < ring_size r" using q assms(1) by (simp add: rx_safe_def)
  have at: "rx_at r (unat (dirty r)) ?q = ridx r (cur r)"
    using unat_mod_ring [OF assms(2), of "dirty r" ?q] lens_ridx_mod [OF assms(2), of "cur r"] by (simp add: rx_at_def)
  have "ridx r (cur r) < ring_size r" using lens_ridx [OF assms(2)] .
  then have "get_desc r (cur r) = descs r ! rx_at r (unat (dirty r)) ?q"
    using assms(1) at by (simp add: get_desc_def get_data_def rx_safe_def rx_linked_def)
  then have "rx_window p r (unat (dirty r)) (Suc ?q)"
    using assms(1,4) N unfolding rx_safe_def rx_window_def by (metis Suc_leI le_antisym not_less_eq_eq Suc_leD)
  then have "rx_window p ?r (unat (dirty r)) (Suc ?q)" by (rule window_frame) simp_all
  then show ?thesis using assms(1) q q1 by (simp add: rx_safe_def rx_linked_def ring_size_def)
qed

interpretation rx_mapped: rx_invariant E p c "\<lambda>r s. (\<forall>h. alloc_ok E h) \<and> rx_good p r s \<and> rx_safe p r" "\<lambda>n. n \<le> 512"
proof unfold_locales
  fix r s i d
  assume I: "(\<forall>h. alloc_ok E h) \<and> rx_good p r s \<and> rx_safe p r"
  show l: "rx_lens r" using I rx_accounts.lens by blast
  show "kept (get_data r i) d \<Longrightarrow> (\<forall>h. alloc_ok E h) \<and> rx_good p (set_data i d r) s \<and> rx_safe p (set_data i d r)"
    using I rx_accounts.entry safe_entry [OF _ l, of p i d] by (auto simp: kept_def same_buffers_def)
  show "pages (pa (rx_buf (rx (get_data r i)))) = Some pg \<Longrightarrow> (\<forall>h. alloc_ok E h) \<and>
      rx_good p (set_data i (given_away (get_data r i)) r) (emit (Eskb_frag k pg) s) \<and> rx_safe p (set_data i (given_away (get_data r i)) r)" for k pg
    using I rx_accounts.give safe_entry [OF _ l, of p i "given_away (get_data r i)"] by (auto simp: same_buffers_def given_away_def)
  show "cur r - dirty r \<le> 512 \<Longrightarrow> desc_bits (get_desc r (cur r)) 3 RX_NORMAL_DESC3_OWN = 0 \<Longrightarrow>
      (\<forall>h. alloc_ok E h) \<and> rx_good p (r\<lparr>cur := cur r + 1\<rparr>) s \<and> rx_safe p (r\<lparr>cur := cur r + 1\<rparr>)"
    using I rx_accounts.advance safe_advance [OF _ l, of p] by auto
qed (use rx_accounts.quiet rx_accounts.objects rx_accounts.info rx_accounts.refresh in
  \<open>auto simp: safe_soft simp del: other.simps dest: safe_refresh\<close>)

end
