(* ===== verification/Rx_Props.thy ===== *)
theory Rx_Props
  imports Rx_Safe Tx_Props
begin

text \<open>
  The properties of a receive ring. A run sets up a new ring; its steps are polls and stores of the
  card, which gives descriptors back and cannot take one.
\<close>

section \<open>Setting up\<close>

lemma rx_ok_mwrites [simp]: "rx_ok p r (mwrites ws s) = rx_ok p r s"
  by (induction ws s rule: mwrites.induct) simp_all

definition rx_fresh :: "mac_ring \<Rightarrow> bool" where
  "rx_fresh r \<longleftrightarrow> rx_lens r \<and> rx_hdr_pa r = no_page \<and> rx_buf_pa r = no_page \<and>
     (\<forall>e \<in> set (datas r). rx e = no_rx \<and> rx_only e) \<and> (\<forall>d \<in> set (descs r). \<not> rx_own d)"

lemma fresh_ok: "rx_fresh r \<Longrightarrow> rx_books {#} {#} (trace s) \<Longrightarrow> rx_ok p r s"
proof -
  assume f: "rx_fresh r" "rx_books {#} {#} (trace s)"
  then have "\<And>e. e \<in> set (datas r) \<Longrightarrow> rx_pages (rx e) = {#} \<and> rx_maps (rx e) = {#}" by (simp add: rx_fresh_def)
  then have "(\<Sum>e\<leftarrow>datas r. rx_pages (rx e)) = {#}" "(\<Sum>e\<leftarrow>datas r. rx_maps (rx e)) = {#}"
    by (simp_all cong: map_cong)
  then show ?thesis using f by (simp add: rx_ok_def rx_fresh_def rx_pas_ok_def pa_ok_def ring_pages_def ring_maps_def) (simp add: no_page_def)
qed

lemma fresh_window: "rx_fresh r \<Longrightarrow> rx_window p r 0 (ring_size r)"
  by (auto simp: rx_window_def rx_fresh_def rx_lens_def rx_at_def)

lemma lens_index: "rx_lens r \<Longrightarrow> j < ring_size r \<Longrightarrow> ridx r (word_of_nat j) = j"
proof -
  assume l: "rx_lens r" "j < ring_size r"
  have "ring_size r < 2 ^ 32" using unsigned_less [of "dma_desc_count r", where ?'a = nat] by (simp add: ring_size_def)
  then show ?thesis using l lens_ridx_mod by (simp add: unat_u32_of_nat)
qed

lemma map_entries:
  "map_rx_entries E p n j (t, s) = (t', s') \<Longrightarrow> rx_ok p (rx_ring t) s \<Longrightarrow> rx_size_ok p \<Longrightarrow> j + n = ring_size (rx_ring t) \<Longrightarrow>
   \<forall>k. j \<le> k \<and> k < ring_size (rx_ring t) \<longrightarrow> rx (datas (rx_ring t) ! k) = no_rx \<Longrightarrow> \<forall>k < j. dma_desc (datas (rx_ring t) ! k) = k \<Longrightarrow>
   rx_ok p (rx_ring t') s' \<and> ring_size (rx_ring t') = ring_size (rx_ring t) \<and>
   ((\<forall>h. alloc_ok E h) \<and> rx_window p (rx_ring t) j n \<longrightarrow> rx_window p (rx_ring t') (j + n) 0 \<and> rx_linked (rx_ring t')) \<and>
   ((\<forall>h. alloc_ok E h) \<and> j \<le> rx_linked_to t \<longrightarrow> j + n \<le> rx_linked_to t')"
proof (induction n arbitrary: j t s)
  case 0
  then show ?case by (auto simp: rx_linked_def)
next
  case (Suc n)
  let ?r = "rx_ring t" and ?w = "word_of_nat j :: u32"
  have l: "rx_lens ?r" "length (datas ?r) = ring_size ?r" "j < ring_size ?r" using Suc.prems(2,4) by (simp_all add: rx_ok_def rx_lens_def)
  have i: "ridx ?r ?w = j" using lens_index [OF l(1,3)] .
  let ?d = "(get_data ?r ?w)\<lparr>dma_desc := j, dma_desc_addr := dma_desc_head_addr ?r + 16 * word_of_nat j\<rparr>"
  have e: "rx ?d = no_rx" using Suc.prems(5) i l(3) by (simp add: get_data_def)
  have ok: "rx_ok p (set_data ?w ?d ?r) s"
    by (rule rx_ok_entry [OF Suc.prems(2)]) (use Suc.prems(2) get_data_in [OF l(1), of ?w] in \<open>auto simp: rx_ok_def rx_only_def\<close>)
  obtain ret r1 d1 s1 where 2: "mac_map_rx_buffer E p (?r, ?d, s) = (ret, r1, d1, s1)" by (metis prod_cases4)
  note v = rx_fill [OF ok e Suc.prems(3) 2]
  obtain h b where hb: "r1 = ?r\<lparr>rx_hdr_pa := h, rx_buf_pa := b\<rparr>" using v by blast
  let ?r1 = "set_data ?w d1 r1"
  let ?t1 = "(set_ring ?r1 t)\<lparr>rx_linked_to := max (rx_linked_to t) (j + 1)\<rparr>"
  have d1: "d1 = ?d\<lparr>rx := rx d1\<rparr>" using v by blast
  then have dd: "dma_desc d1 = j" by (metis mac_desc_data.select_convs(1) mac_desc_data.surjective mac_desc_data.update_convs(1,2,8))
  have f: "rx_ring ?t1 = ?r1" "ring_size ?r1 = ring_size ?r" "datas ?r1 = (datas ?r)[j := d1]" "descs ?r1 = descs ?r"
    using i by (simp_all add: set_ring_def hb set_data_def ring_size_def ridx_def)
  show ?case
  proof (cases "ret = 0")
    case False
    then have "t' = ?t1 \<and> s' = s1" using Suc.prems(1) 2 by (simp add: Let_def)
    then show ?thesis using v False f by auto
  next
    case True
    then have m: "map_rx_entries E p n (Suc j) (?t1, s1) = (t', s')" using Suc.prems(1) 2 by (simp add: Let_def)
    have ih: "rx_ok p (rx_ring t') s' \<and> ring_size (rx_ring t') = ring_size (rx_ring ?t1) \<and>
       ((\<forall>h. alloc_ok E h) \<and> rx_window p (rx_ring ?t1) (Suc j) n \<longrightarrow> rx_window p (rx_ring t') (Suc j + n) 0 \<and> rx_linked (rx_ring t')) \<and>
       ((\<forall>h. alloc_ok E h) \<and> Suc j \<le> rx_linked_to ?t1 \<longrightarrow> Suc j + n \<le> rx_linked_to t')"
    proof (rule Suc.IH [OF m _ Suc.prems(3)])
      show "rx_ok p (rx_ring ?t1) s1" using v f by simp
      show "Suc j + n = ring_size (rx_ring ?t1)" using Suc.prems(4) f by simp
      show "\<forall>k. Suc j \<le> k \<and> k < ring_size (rx_ring ?t1) \<longrightarrow> rx (datas (rx_ring ?t1) ! k) = no_rx" using Suc.prems(5) f by auto
      show "\<forall>k < Suc j. dma_desc (datas (rx_ring ?t1) ! k) = k" using Suc.prems(6) f l dd by (auto simp: nth_list_update)
    qed
    have "rx_window p ?r1 (Suc j) n" if "rx_window p ?r j (Suc n)"
    proof -
      have "rx_filled p ?r j d1 ?r1"
        using v True f l by (simp add: rx_filled_def rx_at_def) (simp add: hb set_data_def)
      then show ?thesis using window_fill [OF that] l by fastforce
    qed
    then show ?thesis using ih f by auto
  qed
qed

lemma reset_owns: "rx_own (desc_after (rx_reset_stores p e i @ [Field 3 RX_NORMAL_DESC3_OWN 1]) d)"
proof -
  have g: "get_word 3 (set_word 3 v x) = v" for v x by (simp add: get_word_def set_word_def)
  have "MAC_GET_REG_BITS (MAC_SET_REG_BITS w RX_NORMAL_DESC3_OWN 1) RX_NORMAL_DESC3_OWN = 1" for w
    by (rule MAC_GET_SET) (simp_all add: in_word_def)
  then show ?thesis by (simp add: desc_bits_def g)
qed

lemma reset_all:
  "fold (\<lambda>i (r, s). mac_rx_desc_reset p (get_data r (word_of_nat i)) (word_of_nat i) (r, s)) xs (r, s) = (r', s') \<Longrightarrow>
   rx_ok p r s \<Longrightarrow> \<forall>i \<in> set xs. i < ring_size r \<Longrightarrow>
   rx_ok p r' s' \<and> rx_same r r' \<and> (rx_linked r \<and> rx_window p r 0 0 \<longrightarrow> rx_window p r' 0 0) \<and>
     (rx_linked r \<longrightarrow> (\<forall>k < ring_size r. k \<in> set xs \<or> rx_own (descs r ! k) \<longrightarrow> rx_own (descs r' ! k)))"
proof (induction xs arbitrary: r s)
  case Nil
  then show ?case by (simp add: rx_same_def)
next
  case (Cons i xs)
  let ?e = "get_data r (word_of_nat i)"
  obtain r1 s1 where 1: "mac_rx_desc_reset p ?e (word_of_nat i) (r, s) = (r1, s1)" by fastforce
  have l: "rx_lens r" "length (descs r) = ring_size r" using Cons.prems(2) by (simp_all add: rx_ok_def rx_lens_def)
  have i: "i < ring_size r" "?e = datas r ! i" "rx_at r 0 i = i" using Cons.prems(3) lens_index [OF l(1)] by (simp_all add: get_data_def rx_at_def)
  have o: "rx_ok p r1 s1" "rx_same r r1" using rx_reset_ok [OF 1 Cons.prems(2)] by blast+
  note f = rx_same_fields [OF o(2)]
  have w: "rx_linked r \<and> rx_window p r 0 0 \<longrightarrow> rx_linked r1 \<and> rx_window p r1 0 0"
    using window_reset [OF _ 1 i(1), of 0 0] i l f by (auto simp: rx_linked_def ring_size_def)
  have w1: "rx_linked r \<longrightarrow> (\<forall>k < ring_size r. k = i \<or> rx_own (descs r ! k) \<longrightarrow> rx_own (descs r1 ! k))"
    using reset_effect [OF 1] reset_owns [of p ?e "word_of_nat i"] i l by (auto simp: rx_linked_def nth_list_update)
  have "rx_ok p r' s' \<and> rx_same r1 r' \<and> (rx_linked r1 \<and> rx_window p r1 0 0 \<longrightarrow> rx_window p r' 0 0) \<and>
     (rx_linked r1 \<longrightarrow> (\<forall>k < ring_size r1. k \<in> set xs \<or> rx_own (descs r1 ! k) \<longrightarrow> rx_own (descs r' ! k)))"
  proof (rule Cons.IH [OF _ o(1)])
    show "fold (\<lambda>i (r, s). mac_rx_desc_reset p (get_data r (word_of_nat i)) (word_of_nat i) (r, s)) xs (r1, s1) = (r', s')"
      using Cons.prems(1) 1 by simp
    show "\<forall>i \<in> set xs. i < ring_size r1" using Cons.prems(3) f by (simp add: ring_size_def)
  qed
  moreover have "rx_linked r1 = rx_linked r" "ring_size r1 = ring_size r" using f by (simp_all add: rx_linked_def ring_size_def)
  ultimately show ?case using w w1 o(2) rx_same_trans by auto
qed

lemma init_view:
  assumes "mac_rx_desc_init E p c (t0, s0) = Some (t, s)" "rx_fresh (rx_ring t0)" "rx_size_ok p" "rx_books {#} {#} (trace s0)"
  shows "rx_good p (rx_ring t) s \<and> ring_size (rx_ring t) = ring_size (rx_ring t0) \<and>
    ((\<forall>h. alloc_ok E h) \<and> 513 \<le> ring_size (rx_ring t0) \<longrightarrow> rx_safe p (rx_ring t)) \<and>
    ((\<forall>h. alloc_ok E h) \<longrightarrow> (\<forall>k < ring_size (rx_ring t). rx_own (descs (rx_ring t) ! k)))"
proof -
  let ?N = "ring_size (rx_ring t0)"
  obtain t1 s1 where 1: "map_rx_entries E p ?N 0 (t0, s0) = (t1, s1)" by fastforce
  let ?r1 = "(rx_ring t1)\<lparr>cur := 0, dirty := 0\<rparr>"
  have l: "rx_lens (rx_ring t0)" "\<forall>k < ?N. rx (datas (rx_ring t0) ! k) = no_rx"
    using assms(2) by (auto simp: rx_fresh_def rx_lens_def)
  have m: "rx_ok p (rx_ring t1) s1 \<and> ring_size (rx_ring t1) = ?N \<and>
     ((\<forall>h. alloc_ok E h) \<and> rx_window p (rx_ring t0) 0 ?N \<longrightarrow> rx_window p (rx_ring t1) (0 + ?N) 0 \<and> rx_linked (rx_ring t1)) \<and>
     ((\<forall>h. alloc_ok E h) \<and> 0 \<le> rx_linked_to t0 \<longrightarrow> 0 + ?N \<le> rx_linked_to t1)"
    by (rule map_entries [OF 1 fresh_ok [OF assms(2,4)] assms(3)]) (use l in auto)
  have ok: "rx_ok p ?r1 s1" using m by simp
  have N: "ring_size ?r1 = ?N" using m by (simp add: ring_size_def)
  obtain r2 s2 where 2: "fold (\<lambda>i (r, s). mac_rx_desc_reset p (get_data r (word_of_nat i)) (word_of_nat i) (r, s))
      [0..<ring_size ?r1] (?r1, s1) = (r2, s2)" by fastforce
  have r2: "rx_ring t = r2 \<and> (rx_ok p r2 s2 \<longrightarrow> rx_ok p r2 s)"
    using assms(1) 1 2 by (auto simp: mac_rx_desc_init_def hw_rx_desc_init_def ring_size_def set_ring_def Let_def split: if_splits option.splits)
  have a: "rx_ok p r2 s2 \<and> rx_same ?r1 r2 \<and> (rx_linked ?r1 \<and> rx_window p ?r1 0 0 \<longrightarrow> rx_window p r2 0 0) \<and>
     (rx_linked ?r1 \<longrightarrow> (\<forall>k < ring_size ?r1. rx_own (descs r2 ! k)))"
    using reset_all [OF 2 ok] by simp
  then have f: "cur r2 = 0" "dirty r2 = 0" "ring_size r2 = ?N" "rx_linked r2 = rx_linked ?r1"
    using rx_same_fields [of ?r1 r2] m by (auto simp: ring_size_def rx_linked_def)
  have "rx_window p ?r1 0 0 \<and> rx_linked ?r1" if "\<forall>h. alloc_ok E h"
  proof -
    have "rx_window p (rx_ring t1) 0 0 \<and> rx_linked (rx_ring t1)"
      using m that fresh_window [OF assms(2)] rx_window_mod [of p "rx_ring t1" ?N 0] by simp
    then show ?thesis using window_frame [of p "rx_ring t1" 0 0 ?r1] by (simp add: rx_linked_def ring_size_def)
  qed
  then show ?thesis using a f r2 assms(3) N by (auto simp: rx_good_def rx_safe_def)
qed

text \<open>Setting up succeeds when every allocation does.\<close>

lemma init_some:
  assumes "rx_fresh (rx_ring t)" "rx_size_ok p" "rx_books {#} {#} (trace s)" "\<forall>h. alloc_ok E h"
  shows "\<exists>z. mac_rx_desc_init E p c (t, s) = Some z"
proof -
  obtain t1 s1 where 1: "map_rx_entries E p (ring_size (rx_ring t)) 0 (t, s) = (t1, s1)" by fastforce
  have "ring_size (rx_ring t1) = ring_size (rx_ring t) \<and> 0 + ring_size (rx_ring t) \<le> rx_linked_to t1"
    using map_entries [OF 1 fresh_ok [OF assms(1,3)] assms(2)] assms(1,4) by (auto simp: rx_fresh_def rx_lens_def)
  then show ?thesis using 1 by (simp add: mac_rx_desc_init_def hw_rx_desc_init_def ring_size_def Let_def split: prod.splits)
qed

section \<open>The card\<close>

definition rx_card :: "mac_ring \<Rightarrow> mac_ring \<Rightarrow> bool" where
  "rx_card r r' \<longleftrightarrow> r' = r\<lparr>descs := descs r'\<rparr> \<and> length (descs r') = length (descs r) \<and>
     (\<forall>k < length (descs r). rx_own (descs r' ! k) \<longrightarrow> descs r' ! k = descs r ! k)"

lemma card_keeps:
  assumes "rx_card r r'" "rx_good p r s"
  shows "rx_good p r' s \<and> (rx_safe p r \<longrightarrow> rx_safe p r') \<and> ring_size r' = ring_size r"
proof -
  have s: "rx_same r r'" using assms(1) by (simp add: rx_card_def rx_same_def)
  note f = rx_same_fields [OF s]
  have N: "ring_size r' = ring_size r" "rx_at r' = rx_at r" using f by (simp_all add: ring_size_def rx_at_def fun_eq_iff)
  have l: "rx_lens r" using rx_accounts.lens [OF assms(2)] .
  then have own: "rx_own (descs r' ! k) \<Longrightarrow> k < ring_size r \<Longrightarrow> rx_own (descs r ! k) \<and> descs r' ! k = descs r ! k" for k
    using assms(1) unfolding rx_card_def rx_lens_def by metis
  have "rx_window p r d q \<Longrightarrow> rx_window p r' d q" for d q
    using own rx_at_lt [OF lens_pos [OF l]] f N by (fastforce simp: rx_window_def rx_covered_def maps_from_def)
  then show ?thesis using assms(2) rx_ok_frame [OF _ rx_same_frame [OF s], of p s] f N
    by (simp add: rx_good_def rx_safe_def rx_linked_def)
qed

section \<open>Runs\<close>

inductive rx_run :: "env \<Rightarrow> net_pdata \<Rightarrow> mac_channel \<Rightarrow> rx_chan \<times> kern \<Rightarrow> rx_chan \<times> kern \<Rightarrow> bool" for E p c z where
  start: "mac_rx_desc_init E p c z = Some z' \<Longrightarrow> rx_run E p c z z'"
| poll: "rx_run E p c z (t, s) \<Longrightarrow> mac_rx_poll E p c b (t, s) = Some (n, t', s') \<Longrightarrow> rx_run E p c z (t', s')"
| card: "rx_run E p c z (t, s) \<Longrightarrow> rx_card (rx_ring t) r \<Longrightarrow> rx_run E p c z (set_ring r t, s)"

lemma rx_run_keeps:
  assumes "rx_run E p c (t0, s0) (t, s)" "rx_fresh (rx_ring t0)" "rx_size_ok p" "rx_books {#} {#} (trace s0)"
  shows "rx_good p (rx_ring t) s \<and> ((\<forall>h. alloc_ok E h) \<and> 513 \<le> ring_size (rx_ring t0) \<longrightarrow> rx_safe p (rx_ring t))"
  using assms
proof (induction "(t, s)" arbitrary: t s rule: rx_run.induct)
  case start
  then show ?case using init_view by blast
next
  case (poll t s b n t' s')
  note ih = poll.hyps(2) [OF poll.prems]
  then show ?case
    using rx_accounts.keep_poll [OF poll.hyps(3)] rx_mapped.keep_poll [OF poll.hyps(3)] by blast
next
  case (card t s r)
  note ih = card.hyps(2) [OF card.prems]
  then show ?case using card_keeps [OF card.hyps(3)] by (auto simp: set_ring_def)
qed

text \<open>A mapping that has been made and not yet undone.\<close>

definition mapped_now :: "event list \<Rightarrow> buf \<Rightarrow> bool" where
  "mapped_now h m \<longleftrightarrow> count (unmapped_in h) m < count (dma_in h) m"

lemma held_mapped: "rx_books P M h \<Longrightarrow> m \<in># M \<Longrightarrow> mapped_now h m"
  by (auto simp: rx_books_def mapped_now_def)

lemma covered_held:
  assumes "rx_covered p r d n" "length (datas r) = ring_size r" "n < ring_size r"
  shows "buf_in (rx_hdr (rx (datas r ! rx_at r d n))) (\<lambda>m. m \<in># ring_maps r) \<and> buf_in (rx_buf (rx (datas r ! rx_at r d n))) (\<lambda>m. m \<in># ring_maps r)"
proof -
  have e: "datas r ! rx_at r d j \<in> set (datas r)" for j using assms(2,3) by simp
  have s: "x \<in># f e \<Longrightarrow> e \<in> set xs \<Longrightarrow> x \<in># (\<Sum>y\<leftarrow>xs. f y)" for x f e and xs :: "mac_desc_data list"
    by (induction xs) auto
  have "m \<in> maps_from rx_hdr r d n \<Longrightarrow> m \<in># ring_maps r" "m \<in> maps_from rx_buf r d n \<Longrightarrow> m \<in># ring_maps r" for m
    using s [OF _ e, of m "\<lambda>e. rx_maps (rx e)"] by (auto simp: maps_from_def ring_maps_def rx_maps_def)
  moreover have "m \<in># maps_of (rx_hdr_pa r) \<Longrightarrow> m \<in># ring_maps r" "m \<in># maps_of (rx_buf_pa r) \<Longrightarrow> m \<in># ring_maps r" for m
    by (simp_all add: ring_maps_def)
  ultimately show ?thesis using assms(1) unfolding rx_covered_def Let_def by (elim conjE) (intro conjI; erule buf_in_mono; blast)
qed

section \<open>The properties\<close>

definition rx_chan_of :: "mac_ring \<Rightarrow> rx_chan" where
  "rx_chan_of r = \<lparr>rx_ring = r, rx_linked_to = 0, skbs = (\<lambda>_. None), stack = [], rx_split_header_packets = 0, rx_vlan_packets = 0\<rparr>"

lemma zero_fresh: "k < 32 \<Longrightarrow> rx_fresh (zero_ring k)"
  by (auto simp: rx_fresh_def zero_ring_def rx_lens_def ring_size_def unat_2k no_data_def rx_only_def no_desc_def desc_bits_def
    get_word_def MAC_GET_REG_BITS_def)

lemma empty_books: "rx_books {#} {#} (trace empty_kern)"
  by (simp add: rx_books_def empty_kern_def rx_account_defs account_defs)

lemma pdata0_size: "rx_size_ok pdata0"
  by (simp add: rx_size_ok_def pdata0_def small_pdata_def mac_pdata.defs net_pdata.defs)

text \<open>
  C10. The receive path keeps its accounts: from a new ring, whatever allocations fail, however often it is polled and
  whatever descriptors the card gives back in between, every reference taken to a page has been given
  up, passed to a socket buffer or is held by the ring, and every page mapped for the card has been
  unmapped or is still kept mapped by the ring, once each.
\<close>
lemma rx_books_balance:
  assumes "rx_run E p c (t0, s0) (t, s)" "rx_fresh (rx_ring t0)" "rx_size_ok p" "rx_books {#} {#} (trace s0)"
  shows "got_in (trace s) = gone_in (trace s) + ring_pages (rx_ring t) \<and> dma_in (trace s) = unmapped_in (trace s) + ring_maps (rx_ring t)"
  using rx_run_keeps [OF assms] by (simp add: rx_good_def rx_ok_def rx_books_def)

lemma rx_books_balance_witness:
  "\<exists>(t :: rx_chan) (s :: kern). mac_rx_desc_init up_env pdata0 chan0 (rx_chan_of (zero_ring 12), empty_kern) = Some (t, s) \<and>
     got_in (trace s) = gone_in (trace s) + ring_pages (rx_ring t) \<and> dma_in (trace s) = unmapped_in (trace s) + ring_maps (rx_ring t)"
proof -
  have f: "rx_fresh (rx_ring (rx_chan_of (zero_ring 12)))" by (simp add: rx_chan_of_def zero_fresh)
  have up: "\<forall>h. alloc_ok up_env h" by (simp add: up_env_def)
  obtain t s where i: "mac_rx_desc_init up_env pdata0 chan0 (rx_chan_of (zero_ring 12), empty_kern) = Some (t, s)"
    using init_some [OF f pdata0_size empty_books up, of chan0] by (metis surj_pair)
  show ?thesis using i rx_books_balance [OF rx_run.start [OF i] f pdata0_size empty_books] by blast
qed

text \<open>
  C9. The card never reaches memory it has lost: while allocations succeed, on a ring of at least 513
  entries, each descriptor that the card owns, at any moment of any run, names a header buffer of 512
  bytes and a payload buffer of \<open>rx_buf_size\<close> bytes that lie within pages mapped and not yet
  unmapped, although a page is shared by many entries and unmapped with the last of them.
\<close>
lemma card_buffers_mapped:
  assumes "rx_run E p c (t0, s0) (t, s)" "rx_fresh (rx_ring t0)" "rx_size_ok p" "rx_books {#} {#} (trace s0)"
    "\<forall>h. alloc_ok E h" "513 \<le> ring_size (rx_ring t0)" "k < ring_size (rx_ring t)" "rx_own (descs (rx_ring t) ! k)"
  shows "\<exists>a i l b j m. desc_hdr (descs (rx_ring t) ! k) = a + i \<and> unat i + 512 \<le> unat l \<and> mapped_now (trace s) (a, l, True) \<and>
    desc_buf (descs (rx_ring t) ! k) = take_bit 62 (b + j) \<and> unat j + unat (rx_buf_size p) \<le> unat m \<and> mapped_now (trace s) (b, m, True)"
proof -
  let ?r = "rx_ring t"
  have g: "rx_good p ?r s" "rx_safe p ?r" using rx_run_keeps [OF assms(1-4)] assms(5,6) by blast+
  obtain n where n: "n < ring_size ?r" "rx_at ?r (unat (dirty ?r)) n = k" using rx_at_surj [OF assms(7)] by blast
  have w: "desc_names (descs ?r ! k) (rx (datas ?r ! k)) \<and> rx_covered p ?r (unat (dirty ?r)) n"
    using g(2) n assms(8) unfolding rx_safe_def rx_window_def by blast
  have b: "rx_books (ring_pages ?r) (ring_maps ?r) (trace s)" "length (datas ?r) = ring_size ?r"
    using g(1) by (simp_all add: rx_good_def rx_ok_def rx_lens_def)
  obtain l m where "mapped_now (trace s) (dma_base (rx_hdr (rx (datas ?r ! k))), l, True)" "unat (dma_off (rx_hdr (rx (datas ?r ! k)))) + 512 \<le> unat l"
    "mapped_now (trace s) (dma_base (rx_buf (rx (datas ?r ! k))), m, True)" "unat (dma_off (rx_buf (rx (datas ?r ! k)))) + unat (rx_buf_size p) \<le> unat m"
    using covered_held [of p ?r "unat (dirty ?r)" n] w b n held_mapped [OF b(1)] unfolding buf_in_def rx_covered_def Let_def n(2) by fastforce
  then show ?thesis using w unfolding desc_names_def by blast
qed

lemma card_buffers_mapped_witness:
  "\<exists>(t :: rx_chan) (s :: kern) (a :: u64) l. mac_rx_desc_init up_env pdata0 chan0 (rx_chan_of (zero_ring 12), empty_kern) = Some (t, s) \<and>
     rx_own (descs (rx_ring t) ! 0) \<and> mapped_now (trace s) (a, l, True)"
proof -
  have f: "rx_fresh (rx_ring (rx_chan_of (zero_ring 12)))" by (simp add: rx_chan_of_def zero_fresh)
  have up: "\<forall>h. alloc_ok up_env h" by (simp add: up_env_def)
  have N: "ring_size (rx_ring (rx_chan_of (zero_ring 12))) = 4096" by (simp add: rx_chan_of_def zero_ring_def ring_size_def)
  obtain t s where i: "mac_rx_desc_init up_env pdata0 chan0 (rx_chan_of (zero_ring 12), empty_kern) = Some (t, s)"
    using init_some [OF f pdata0_size empty_books up, of chan0] by (metis surj_pair)
  have v: "ring_size (rx_ring t) = 4096" "rx_own (descs (rx_ring t) ! 0)"
    using init_view [OF i f pdata0_size empty_books] up N by auto
  have "513 \<le> ring_size (rx_ring (rx_chan_of (zero_ring 12)))" "0 < ring_size (rx_ring t)" using N v by simp_all
  note c = card_buffers_mapped [OF rx_run.start [OF i] f pdata0_size empty_books up this v(2)]
  show ?thesis using i v(2) c by blast
qed

end
