(* ===== verification/Rx_Error.thy ===== *)
theory Rx_Error
  imports Rx_Props
begin

text \<open>What becomes of a packet in error, and of a whole packet.\<close>

section \<open>Steps of a poll\<close>

definition rx_behind :: "mac_ring \<Rightarrow> bool" where
  "rx_behind r \<longleftrightarrow> mac_rx_dirty_desc r > MAC_RX_DESC_MAX_DIRTY"

text \<open>The channel after a descriptor has been read.\<close>

definition passed :: "rx_chan \<Rightarrow> rx_chan \<Rightarrow> rx_chan" where
  "passed t t' = set_ring ((rx_ring t')\<lparr>cur := cur (rx_ring t) + 1\<rparr>) t'"

lemma passed_simps [simp]:
  "rx_ring (passed t t') = (rx_ring t')\<lparr>cur := cur (rx_ring t) + 1\<rparr>" "skbs (passed t t') = skbs t'" "stack (passed t t') = stack t'"
  by (simp_all add: passed_def set_ring_def)

definition seen :: "mac_pkt_info \<Rightarrow> rx_vars \<Rightarrow> rx_vars" where
  "seen q v = v\<lparr>v_received := v_received v + 1, v_incomplete := pattr q RX_PACKET_ATTRIBUTES_INCOMPLETE,
     v_context_next := pattr q RX_PACKET_ATTRIBUTES_CONTEXT_NEXT\<rparr>"

lemma seen_simps [simp]:
  "v_skb (seen q v) = v_skb v" "v_error (seen q v) = v_error v" "v_len (seen q v) = v_len v" "v_count (seen q v) = v_count v"
  "v_received (seen q v) = v_received v + 1" "v_incomplete (seen q v) = pattr q RX_PACKET_ATTRIBUTES_INCOMPLETE"
  "v_context_next (seen q v) = pattr q RX_PACKET_ATTRIBUTES_CONTEXT_NEXT"
  by (simp_all add: seen_def)

lemma step_error:
  assumes "\<not> rx_behind (rx_ring t)" "mac_dev_read p t = (0, t')" "errors (pkt_info (rx_ring t')) \<noteq> 0" "v_error v = 0"
  shows "rx_step E p c (v, t, s) =
    map_option (\<lambda>(u, s). (Next_packet, seen (pkt_info (rx_ring t')) v, u, s)) (kfree_skb (v_skb v) (passed t t', s))"
  using assms by (simp add: rx_step_def rx_behind_def Let_def seen_def passed_def set_ring_def)

lemma set_one_nonzero: "in_word f \<Longrightarrow> 0 < snd f \<Longrightarrow> MAC_SET_REG_BITS w f 1 \<noteq> 0"
proof
  assume f: "in_word f" "0 < snd f" and z: "MAC_SET_REG_BITS w f 1 = 0"
  have "bit (MAC_SET_REG_BITS w f 1) (fst f)" using f by (subst bit_MAC_SET) (auto simp: in_word_def)
  then show False using z by simp
qed

text \<open>Errors noted stay noted.\<close>

lemma rx_hash_errors [simp]: "errors (rx_hash_of d q) = errors q"
  by (simp add: rx_hash_of_def Let_def)

lemma rx_last_errors: "errors q \<noteq> 0 \<Longrightarrow> errors (rx_last_of p d q) \<noteq> 0"
  using set_one_nonzero [of RX_PACKET_ERRORS_FRAME] by (auto simp: rx_last_of_def Let_def in_word_def)

lemma errors_stay:
  assumes "mac_dev_read p t = (0, t')" "errors (pkt_info (rx_ring t)) \<noteq> 0"
  shows "errors (pkt_info (rx_ring t')) \<noteq> 0"
  using assms rx_last_errors
  by (auto simp: mac_dev_read_def Let_def rx_read_normal_def set_pkt_info_def set_ring_def mac_get_rx_tstamp_def split: if_splits)

text \<open>The last descriptor of a packet, in error, with a context descriptor to follow.\<close>

definition bad_last :: "mac_dma_desc \<Rightarrow> bool" where
  "bad_last d \<longleftrightarrow> desc_bits d 3 RX_NORMAL_DESC3_OWN = 0 \<and> desc_bits d 3 RX_NORMAL_DESC3_CTXT = 0 \<and>
     desc_bits d 3 RX_NORMAL_DESC3_LD \<noteq> 0 \<and> desc_bits d 3 RX_NORMAL_DESC3_CDA \<noteq> 0 \<and>
     desc_bits d 3 RX_NORMAL_DESC3_ES \<noteq> 0 \<and> desc_bits d 3 RX_NORMAL_DESC3_ETLT \<notin> {0, 5, 6}"

lemma pattr_keep: "fst f + snd f \<le> fst g \<or> fst g + snd g \<le> fst f \<Longrightarrow> pattr (set_pattr g x q) f = pattr q f"
  by (simp add: MAC_GET_other)

lemma read_bad:
  assumes "bad_last (get_desc (rx_ring t) (cur (rx_ring t)))"
  obtains t' where "mac_dev_read p t = (0, t')" "errors (pkt_info (rx_ring t')) \<noteq> 0"
    "pattr (pkt_info (rx_ring t')) RX_PACKET_ATTRIBUTES_CONTEXT_NEXT" "skbs t' = skbs t" "stack t' = stack t"
    "cur (rx_ring t') = cur (rx_ring t)" "dirty (rx_ring t') = dirty (rx_ring t)"
proof -
  let ?d = "get_desc (rx_ring t) (cur (rx_ring t))"
  let ?t = "rx_read_normal p ?d t"
  have "mac_dev_read p t = (0, ?t)" using assms by (simp add: mac_dev_read_def bad_last_def Let_def)
  moreover have "errors (pkt_info (rx_ring ?t)) \<noteq> 0"
    using assms set_one_nonzero [of RX_PACKET_ERRORS_FRAME]
    by (auto simp: rx_read_normal_def Let_def bad_last_def rx_last_of_def set_pkt_info_def set_ring_def in_word_def)
  moreover have "pattr (pkt_info (rx_ring ?t)) RX_PACKET_ATTRIBUTES_CONTEXT_NEXT"
  proof -
    have g: "MAC_GET_REG_BITS (MAC_SET_REG_BITS w RX_PACKET_ATTRIBUTES_CONTEXT_NEXT 1) RX_PACKET_ATTRIBUTES_CONTEXT_NEXT = 1" for w
      by (rule MAC_GET_SET) (simp_all add: in_word_def)
    show ?thesis using assms g
      by (auto simp: rx_read_normal_def Let_def bad_last_def rx_last_of_def set_pkt_info_def set_ring_def rx_hash_of_def MAC_GET_other)
  qed
  moreover have "skbs ?t = skbs t" "stack ?t = stack t" "cur (rx_ring ?t) = cur (rx_ring t)" "dirty (rx_ring ?t) = dirty (rx_ring t)"
    by (simp_all add: rx_read_normal_def Let_def set_pkt_info_def set_ring_def set_data_def)
  ultimately show ?thesis using that by blast
qed

section \<open>The properties\<close>

lemma get_set_data: "rx_lens r \<Longrightarrow> get_data (set_data i d r) i = d"
  using lens_ridx [of r i] by (simp add: get_data_def set_data_def ridx_def rx_lens_def)

lemma read_skbs: "mac_dev_read p t = (ret, t') \<Longrightarrow> skbs t' = skbs t"
  by (auto simp: mac_dev_read_def Let_def rx_read_normal_def set_pkt_info_def set_ring_def split: if_splits)

lemma read_lens: "mac_dev_read p t = (ret, t') \<Longrightarrow> rx_lens (rx_ring t) \<Longrightarrow> rx_lens (rx_ring t')"
  by (auto simp: mac_dev_read_def Let_def rx_read_normal_def set_pkt_info_def set_ring_def set_data_def rx_lens_def ring_size_def split: if_splits)

text \<open>A poll that starts with the saved buffer \<open>k\<close> and an error noted: its first step frees \<open>k\<close>.\<close>

lemma poll_saved:
  assumes "has_rx_ring c" "0 < b" "\<not> rx_behind (rx_ring t)" "state_saved (get_data (rx_ring t) (cur (rx_ring t)))"
    "state_skb (get_data (rx_ring t) (cur (rx_ring t))) = Some k" "state_error (get_data (rx_ring t) (cur (rx_ring t))) = 0"
    "skbs t k = None" "errors (pkt_info (rx_ring t)) \<noteq> 0" "desc_bits (get_desc (rx_ring t) (cur (rx_ring t))) 3 RX_NORMAL_DESC3_OWN = 0"
  shows "(\<exists>v t2. rx_begin (rx_vars0, t) = (v, t) \<and> v_skb v = Some k \<and> mac_dev_read p t = (0, t2) \<and>
      errors (pkt_info (rx_ring t2)) \<noteq> 0 \<and> skbs t2 k = None \<and>
      rx_step E p c (v, t, s) = map_option (\<lambda>(u, s). (Next_packet, seen (pkt_info (rx_ring t2)) v, u, s)) (kfree_skb (Some k) (passed t t2, s))) \<and>
    mac_rx_poll E p c b (t, s) = None"
proof -
  let ?e = "get_data (rx_ring t) (cur (rx_ring t))"
  let ?v = "rx_vars0\<lparr>v_skb := Some k, v_error := 0, v_len := state_len ?e\<rparr>"
  have bg: "rx_begin (rx_vars0, t) = (?v, t)" using assms(4-6) by (simp add: rx_begin_def rx_vars0_def)
  have "\<exists>t'. mac_dev_read p t = (0, t')" using assms(9) by (simp add: mac_dev_read_def Let_def)
  then obtain t' where rd: "mac_dev_read p t = (0, t')" ..
  have er: "errors (pkt_info (rx_ring t')) \<noteq> 0" by (rule errors_stay [OF rd assms(8)])
  have sk: "skbs t' k = None" using read_skbs [OF rd] assms(7) by simp
  have st: "rx_step E p c (?v, t, s) =
      map_option (\<lambda>(u, s). (Next_packet, seen (pkt_info (rx_ring t')) ?v, u, s)) (kfree_skb (Some k) (passed t t', s))"
    using step_error [OF assms(3) rd er, of ?v E c s] by (simp add: rx_vars0_def)
  also have "\<dots> = None" using sk by (simp add: kfree_skb_def)
  finally have "rx_loop E p c b True (rx_vars0, t, s) = None"
    using assms(2) bg by (subst rx_loop.simps) (simp add: rx_vars0_def)
  then have "mac_rx_poll E p c b (t, s) = None" using assms(1) by (simp add: mac_rx_poll_def)
  moreover have "v_skb ?v = Some k" by simp
  ultimately show ?thesis using bg rd er sk st by blast
qed

text \<open>
  C18. A packet cut off by the budget and found in error is freed twice. When its last descriptor reports an
  error, announces a context descriptor and is the last the budget allows, the poll frees the socket
  buffer taken over from the poll before, and yet saves it for the next poll; whatever the card then
  gives back, the next poll takes the saved buffer up and its first step is the result of freeing it
  again, which is not defined, for the buffer is no longer there.
\<close>
lemma bad_packet_freed_twice:
  assumes "has_rx_ring c" "rx_lens (rx_ring t)" "mac_rx_dirty_desc (rx_ring t) < MAC_RX_DESC_MAX_DIRTY"
    "state_saved (get_data (rx_ring t) (cur (rx_ring t)))" "state_skb (get_data (rx_ring t) (cur (rx_ring t))) = Some k"
    "state_error (get_data (rx_ring t) (cur (rx_ring t))) = 0" "skbs t k \<noteq> None"
    "bad_last (get_desc (rx_ring t) (cur (rx_ring t)))"
  shows "\<exists>t' s'. mac_rx_poll E p c 1 (t, s) = Some (1, t', s') \<and> s' = emit (Efree_skb k) s \<and> skbs t' k = None \<and>
    state_saved (get_data (rx_ring t') (cur (rx_ring t'))) \<and> state_skb (get_data (rx_ring t') (cur (rx_ring t'))) = Some k \<and>
    (\<forall>r b. rx_card (rx_ring t') r \<longrightarrow> desc_bits (get_desc r (cur r)) 3 RX_NORMAL_DESC3_OWN = 0 \<longrightarrow> 0 < b \<longrightarrow>
       (\<exists>v u. rx_begin (rx_vars0, set_ring r t') = (v, set_ring r t') \<and> v_skb v = Some k \<and>
          mac_dev_read p (set_ring r t') = (0, u) \<and> errors (pkt_info (rx_ring u)) \<noteq> 0 \<and> skbs u k = None \<and>
          rx_step E p c (v, set_ring r t', s') =
            map_option (\<lambda>(w, s). (Next_packet, seen (pkt_info (rx_ring u)) v, w, s)) (kfree_skb (Some k) (passed (set_ring r t') u, s'))) \<and>
       mac_rx_poll E p c b (set_ring r t', s') = None)"
proof -
  let ?e = "get_data (rx_ring t) (cur (rx_ring t))"
  let ?v = "rx_vars0\<lparr>v_skb := Some k, v_error := 0, v_len := state_len ?e\<rparr>"
  have nb: "\<not> rx_behind (rx_ring t)" using assms(3) by (simp add: rx_behind_def)
  obtain t1 where rd: "mac_dev_read p t = (0, t1)" "errors (pkt_info (rx_ring t1)) \<noteq> 0"
    "pattr (pkt_info (rx_ring t1)) RX_PACKET_ATTRIBUTES_CONTEXT_NEXT" "skbs t1 = skbs t" "stack t1 = stack t"
    "cur (rx_ring t1) = cur (rx_ring t)" "dirty (rx_ring t1) = dirty (rx_ring t)"
    using read_bad [OF assms(8)] by metis
  let ?t2 = "(passed t t1)\<lparr>skbs := (skbs t)(k := None)\<rparr>" and ?s = "emit (Efree_skb k) s"
  let ?w = "seen (pkt_info (rx_ring t1)) ?v"
  have bg: "rx_begin (rx_vars0, t) = (?v, t)" using assms(4-6) by (simp add: rx_begin_def rx_vars0_def)
  have "rx_step E p c (?v, t, s) = Some (Next_packet, ?w, ?t2, ?s)"
    using step_error [OF nb rd(1,2), of ?v E c s] assms(7) rd(4) by (simp add: kfree_skb_def rx_vars0_def)
  then have "rx_loop E p c 1 True (rx_vars0, t, s) = rx_loop E p c 1 True (?w\<lparr>v_count := v_count ?w + 1\<rparr>, ?t2, ?s)"
    using bg by (subst rx_loop.simps) (simp add: rx_vars0_def)
  also have "\<dots> = Some (?w\<lparr>v_count := v_count ?w + 1\<rparr>, ?t2, ?s)"
    by (subst rx_loop.simps) (simp add: rx_vars0_def)
  finally have l: "rx_loop E p c 1 True (rx_vars0, t, s) = Some (?w\<lparr>v_count := v_count ?w + 1\<rparr>, ?t2, ?s)" .
  let ?r = "rx_ring ?t2"
  let ?e2 = "(get_data ?r (cur ?r))\<lparr>state_saved := True, state_skb := Some k, state_len := v_len ?w, state_error := v_error ?w\<rparr>"
  let ?t3 = "set_ring (set_data (cur ?r) ?e2 ?r) ?t2"
  have p: "mac_rx_poll E p c 1 (t, s) = Some (1, ?t3, ?s)"
    using assms(1) l rd(3) by (simp add: mac_rx_poll_def Let_def rx_vars0_def)
  have lens: "rx_lens (rx_ring t1)" "rx_lens ?r"
    using read_lens [OF rd(1) assms(2)] by (simp_all add: rx_lens_def ring_size_def)
  have g3: "get_data (rx_ring ?t3) (cur (rx_ring ?t3)) = ?e2"
    using get_set_data [OF lens(2), of "cur ?r" ?e2] by (simp add: get_data_def ridx_def set_ring_def set_data_def)
  have "(\<exists>v u. rx_begin (rx_vars0, set_ring r ?t3) = (v, set_ring r ?t3) \<and> v_skb v = Some k \<and>
          mac_dev_read p (set_ring r ?t3) = (0, u) \<and> errors (pkt_info (rx_ring u)) \<noteq> 0 \<and> skbs u k = None \<and>
          rx_step E p c (v, set_ring r ?t3, ?s) =
            map_option (\<lambda>(w, s). (Next_packet, seen (pkt_info (rx_ring u)) v, w, s)) (kfree_skb (Some k) (passed (set_ring r ?t3) u, ?s))) \<and>
       mac_rx_poll E p c b (set_ring r ?t3, ?s) = None"
    if r: "rx_card (rx_ring ?t3) r" "desc_bits (get_desc r (cur r)) 3 RX_NORMAL_DESC3_OWN = 0" "0 < b" for r b
  proof -
    have r1: "rx_same (rx_ring ?t3) r" using r(1) unfolding rx_card_def rx_same_def by blast
    have f: "datas r = datas (rx_ring ?t3)" "cur r = cur ?r" "dirty r = dirty ?r" "pkt_info r = pkt_info ?r" "dma_desc_count r = dma_desc_count ?r"
      using rx_same_fields [OF r1] unfolding set_ring_def set_data_def by simp_all
    have g: "get_data r (cur r) = ?e2"
      using get_set_data [OF lens(2), of "cur ?r" ?e2] f by (simp add: get_data_def ridx_def set_ring_def set_data_def)
    have "mac_rx_dirty_desc r = mac_rx_dirty_desc (rx_ring t) + 1" using f rd(6,7) by (simp add: mac_rx_dirty_desc_def)
    then have nb: "\<not> rx_behind r" using assms(3) inc_le [of "mac_rx_dirty_desc (rx_ring t)" MAC_RX_DESC_MAX_DIRTY]
      by (simp add: rx_behind_def not_less)
    show ?thesis
      by (rule poll_saved [OF assms(1) r(3), where k = k]) (use nb g f rd(2) r(2) in \<open>simp_all add: set_ring_def rx_vars0_def\<close>)
  qed
  moreover have "state_saved ?e2" "state_skb ?e2 = Some k" "skbs ?t3 k = None" by (simp_all add: set_ring_def)
  ultimately show ?thesis using p g3 by (intro exI [of _ ?t3] exI [of _ ?s]) simp
qed

text \<open>Entry 0 has a socket buffer saved, and its descriptor is given back in error.\<close>

definition buffer0 :: rx_skb where
  "buffer0 = \<lparr>lin_page = 0, lin_off = 0, lin_len = 512, rx_frags = [], protocol = 0, csum_unnecessary = False,
     hwaccel_vlan = None, rx_hash = None, rx_queue = None\<rparr>"

definition saved_chan :: rx_chan where
  "saved_chan = (rx_chan_of ((zero_ring 1)\<lparr>datas := [no_data\<lparr>state_saved := True, state_skb := Some 5, state_len := 512\<rparr>, no_data],
     descs := [\<lparr>desc0 = 0, desc1 = 0, desc2 = 0, desc3 = 0x18018000\<rparr>, no_desc]\<rparr>))\<lparr>skbs := [5 \<mapsto> buffer0]\<rparr>"

lemma bad_packet_freed_twice_witness:
  "\<exists>(t' :: rx_chan) (s' :: kern). mac_rx_poll up_env pdata0 chan0 1 (saved_chan, empty_kern) = Some (1, t', s') \<and>
     s' = emit (Efree_skb 5) empty_kern \<and> skbs t' 5 = None \<and>
    state_saved (get_data (rx_ring t') (cur (rx_ring t'))) \<and> state_skb (get_data (rx_ring t') (cur (rx_ring t'))) = Some 5 \<and>
    (\<forall>r b. rx_card (rx_ring t') r \<longrightarrow> desc_bits (get_desc r (cur r)) 3 RX_NORMAL_DESC3_OWN = 0 \<longrightarrow> 0 < b \<longrightarrow>
       (\<exists>v u. rx_begin (rx_vars0, set_ring r t') = (v, set_ring r t') \<and> v_skb v = Some 5 \<and>
          mac_dev_read pdata0 (set_ring r t') = (0, u) \<and> errors (pkt_info (rx_ring u)) \<noteq> 0 \<and> skbs u 5 = None \<and>
          rx_step up_env pdata0 chan0 (v, set_ring r t', s') =
            map_option (\<lambda>(w, s). (Next_packet, seen (pkt_info (rx_ring u)) v, w, s)) (kfree_skb (Some 5) (passed (set_ring r t') u, s'))) \<and>
       mac_rx_poll up_env pdata0 chan0 b (set_ring r t', s') = None)"
proof (rule bad_packet_freed_twice [where k = 5])
  show "rx_lens (rx_ring saved_chan)"
    unfolding rx_lens_def by (intro conjI exI [of _ 1]) (simp_all add: saved_chan_def rx_chan_of_def zero_ring_def ring_size_def)
  show "bad_last (get_desc (rx_ring saved_chan) (cur (rx_ring saved_chan)))"
    by (simp add: saved_chan_def rx_chan_of_def zero_ring_def get_desc_def get_data_def ridx_def no_data_def bad_last_def desc_bits_def
      get_word_def MAC_GET_REG_BITS_def genmask_def mask_eq_exp_minus_1 push_bit_eq_mult)
qed (simp_all add: saved_chan_def rx_chan_of_def zero_ring_def chan0_def mac_rx_dirty_desc_def get_data_def ridx_def no_data_def)

end
