(* ===== verification/Rx_Deliver.thy ===== *)
theory Rx_Deliver
  imports Rx_Error
begin

text \<open>A packet that the card has put into one descriptor goes up whole.\<close>

definition good_last :: "mac_dma_desc \<Rightarrow> bool" where
  "good_last d \<longleftrightarrow> desc_bits d 3 RX_NORMAL_DESC3_OWN = 0 \<and> desc_bits d 3 RX_NORMAL_DESC3_CTXT = 0 \<and>
     desc_bits d 3 RX_NORMAL_DESC3_LD \<noteq> 0 \<and> desc_bits d 3 RX_NORMAL_DESC3_CDA = 0 \<and> desc_bits d 3 RX_NORMAL_DESC3_ES = 0"

text \<open>The packet's length, and how much of it is copied.\<close>

definition pkt_len :: "mac_dma_desc \<Rightarrow> u32" where
  "pkt_len d = ucast (ucast (desc_bits d 3 RX_NORMAL_DESC3_PL) :: u16)"

definition split_len :: "mac_dma_desc \<Rightarrow> mac_rx_desc_data \<Rightarrow> u16" where
  "split_len d x = (if desc_bits d 3 RX_NORMAL_DESC3_FD \<noteq> 0 then ucast (desc_bits d 2 RX_NORMAL_DESC2_HL) else rx_hdr_len x)"

definition linear_len :: "mac_dma_desc \<Rightarrow> mac_rx_desc_data \<Rightarrow> u32" where
  "linear_len d x = min (dma_len (rx_hdr x)) (if split_len d x \<noteq> 0 then ucast (split_len d x) else pkt_len d)"

definition read_entry :: "mac_dma_desc \<Rightarrow> mac_desc_data \<Rightarrow> mac_desc_data" where
  "read_entry d e = e\<lparr>rx := (rx e)\<lparr>rx_hdr_len := split_len d (rx e), rx_len := ucast (desc_bits d 3 RX_NORMAL_DESC3_PL)\<rparr>\<rparr>"

lemma read_good:
  assumes "good_last (get_desc (rx_ring t) (cur (rx_ring t)))" "pkt_info (rx_ring t) = no_pkt"
  obtains q n where "mac_dev_read p t = (0, (set_pkt_info q (set_ring (set_data (cur (rx_ring t))
      (read_entry (get_desc (rx_ring t) (cur (rx_ring t))) (get_data (rx_ring t) (cur (rx_ring t)))) (rx_ring t)) t))\<lparr>rx_split_header_packets := n\<rparr>)"
    "errors q = 0" "\<not> pattr q RX_PACKET_ATTRIBUTES_INCOMPLETE" "\<not> pattr q RX_PACKET_ATTRIBUTES_CONTEXT_NEXT" "\<not> pattr q RX_PACKET_ATTRIBUTES_CONTEXT"
    "pattr q RX_PACKET_ATTRIBUTES_CSUM_DONE = f_rxcsum p"
proof -
  let ?r = "rx_ring t" and ?d = "get_desc (rx_ring t) (cur (rx_ring t))" and ?e = "get_data (rx_ring t) (cur (rx_ring t))"
  let ?q = "rx_last_of p ?d (rx_hash_of ?d (set_pattr RX_PACKET_ATTRIBUTES_CONTEXT 0 no_pkt))"
  have z: "MAC_GET_REG_BITS 0 f = 0" for f by (simp add: MAC_GET_REG_BITS_def)
  have g: "MAC_GET_REG_BITS (MAC_SET_REG_BITS w f 0) f = 0" if "in_word f" "snd f = 1" for w f
    by (rule MAC_GET_SET) (use that in simp_all)
  have g1: "MAC_GET_REG_BITS (MAC_SET_REG_BITS w f 1) f = 1" if "in_word f" "snd f = 1" for w f
    by (rule MAC_GET_SET) (use that in simp_all)
  have no: "attributes no_pkt = 0" "errors no_pkt = 0" by (simp_all add: no_pkt_def)
  have "errors ?q = 0" using assms(1) no by (simp add: rx_last_of_def Let_def good_last_def)
  moreover have "\<not> pattr ?q RX_PACKET_ATTRIBUTES_INCOMPLETE" "\<not> pattr ?q RX_PACKET_ATTRIBUTES_CONTEXT_NEXT" "\<not> pattr ?q RX_PACKET_ATTRIBUTES_CONTEXT"
    "pattr ?q RX_PACKET_ATTRIBUTES_CSUM_DONE = f_rxcsum p"
    using assms(1) by (auto simp: rx_last_of_def rx_hash_of_def Let_def good_last_def MAC_GET_other g g1 no z in_word_def)
  moreover have "\<exists>n. mac_dev_read p t = (0, (set_pkt_info ?q (set_ring (set_data (cur ?r) (read_entry ?d ?e) ?r) t))\<lparr>rx_split_header_packets := n\<rparr>)"
    using assms by (simp add: mac_dev_read_def rx_read_normal_def Let_def good_last_def read_entry_def split_len_def) blast
  ultimately show ?thesis using that by blast
qed

text \<open>\<open>mac_create_skb\<close> and \<open>skb_add_rx_frag\<close> on an entry that has both its pages.\<close>

lemma create_view:
  assumes "alloc_ok E (trace s)" "pages (pa (rx_hdr (rx e))) = Some h" "pages (pa (rx_buf (rx e))) = Some g" "e = get_data (rx_ring t) i"
    "m = min (dma_len (rx_hdr (rx e))) (if rx_hdr_len (rx e) \<noteq> 0 then ucast (rx_hdr_len (rx e)) else n)"
  obtains r s' where "mac_create_skb E i n (t, s) = Some (Some (next_obj s), t\<lparr>rx_ring := r,
      skbs := (skbs t)(next_obj s \<mapsto> \<lparr>lin_page = h, lin_off = pages_offset (pa (rx_hdr (rx e))), lin_len = m,
        rx_frags = (if n - m = 0 then [] else [(g, pages_offset (pa (rx_buf (rx e))), n - m, dma_len (rx_buf (rx e)))]), protocol = 0,
        csum_unnecessary = False, hwaccel_vlan = None, rx_hash = None, rx_queue = None\<rparr>)\<rparr>, s')"
    "pkt_info r = pkt_info (rx_ring t)" "cur r = cur (rx_ring t)"
proof -
  let ?b = "\<lparr>lin_page = h, lin_off = pages_offset (pa (rx_hdr (rx e))), lin_len = m, rx_frags = [], protocol = 0,
        csum_unnecessary = False, hwaccel_vlan = None, rx_hash = None, rx_queue = None\<rparr>"
  let ?s = "emit (Eskb_alloc (next_obj s)) (s\<lparr>next_obj := next_obj s + 1\<rparr>)" and ?t = "t\<lparr>skbs := (skbs t)(next_obj s \<mapsto> ?b)\<rparr>"
  have c: "mac_create_skb E i n (t, s) = (if n - m \<noteq> 0
      then (case add_rx_frag (next_obj s) i (n - m) (?t, ?s) of None \<Rightarrow> None | Some (t, u) \<Rightarrow> Some (Some (next_obj s), t, u))
      else Some (Some (next_obj s), ?t, ?s))"
    using assms unfolding mac_create_skb_def Let_def by simp
  show ?thesis
  proof (cases "n - m = 0")
    case True
    then show ?thesis using c that [of "rx_ring t" ?s] by simp
  next
    case False
    have f: "add_rx_frag (next_obj s) i (n - m) (?t, ?s) = Some (?t\<lparr>rx_ring := set_data i (given_away e) (rx_ring t),
       skbs := (skbs ?t)(next_obj s \<mapsto> ?b\<lparr>rx_frags := [(g, pages_offset (pa (rx_buf (rx e))), n - m, dma_len (rx_buf (rx e)))]\<rparr>)\<rparr>,
       emit (Eskb_frag (next_obj s) g) ?s)"
      using assms(3) unfolding assms(4) by (simp add: add_rx_frag_def Let_def given_away_def)
    show ?thesis
    proof (rule that)
      show "pkt_info (set_data i (given_away e) (rx_ring t)) = pkt_info (rx_ring t)" "cur (set_data i (given_away e) (rx_ring t)) = cur (rx_ring t)"
        by (simp_all add: set_data_def)
    qed (use False f c in \<open>simp\<close>)
  qed
qed

lemma step_last:
  assumes "\<not> rx_behind (rx_ring t)" "mac_dev_read p t = (0, t')" "pkt_info (rx_ring t') = q" "cur (rx_ring t) = i" "errors q = 0" "v_error v = 0"
    "\<not> pattr q RX_PACKET_ATTRIBUTES_INCOMPLETE" "\<not> pattr q RX_PACKET_ATTRIBUTES_CONTEXT_NEXT"
    "\<not> pattr q RX_PACKET_ATTRIBUTES_CONTEXT"
    "rx_data E i (seen q v, passed t t', s) = Some (w, u, s1)"
    "v_skb w = Some k" "\<not> v_incomplete w" "\<not> v_context_next w" "rx_up p c k (u, s1) = Some (t4, s4)"
  shows "rx_step E p c (v, t, s) = Some (Next_packet, w, t4, s4)"
  using assms by (simp add: rx_step_def rx_behind_def Let_def seen_def passed_def set_ring_def)

text \<open>The step that reads it.\<close>

lemma packet_step:
  fixes t :: rx_chan
  defines "e \<equiv> get_data (rx_ring t) (cur (rx_ring t))" and "d \<equiv> get_desc (rx_ring t) (cur (rx_ring t))"
  assumes "has_rx_ring c" "rx_lens (rx_ring t)" "mac_rx_dirty_desc (rx_ring t) \<le> MAC_RX_DESC_MAX_DIRTY" "good_last d" "\<not> state_saved e"
    "alloc_ok E (trace s)" "pages (pa (rx_hdr (rx e))) = Some h" "pages (pa (rx_buf (rx e))) = Some g"
    "pkt_len d \<noteq> 0" "pkt_len d \<le> word_of_nat (nd_mtu p) + 14"
  shows "\<exists>w t' s' b. rx_step E p c (rx_vars0, set_pkt_info no_pkt t, s) = Some (Next_packet, w, t', s') \<and>
    v_count w = 0 \<and> \<not> v_incomplete w \<and> \<not> v_context_next w \<and> stack t' = (next_obj s, b) # stack t \<and>
    cur (rx_ring t') = cur (rx_ring t) + 1 \<and> rx_skb_len b = pkt_len d \<and>
    lin_page b = h \<and> lin_off b = pages_offset (pa (rx_hdr (rx e))) \<and> lin_len b = linear_len d (rx e) \<and>
    rx_frags b = (if pkt_len d = linear_len d (rx e) then []
      else [(g, pages_offset (pa (rx_buf (rx e))), pkt_len d - linear_len d (rx e), dma_len (rx_buf (rx e)))]) \<and>
    csum_unnecessary b = f_rxcsum p \<and> rx_queue b = Some (queue_index c)"
proof -
  let ?i = "cur (rx_ring t)" and ?t0 = "set_pkt_info no_pkt t"
  have r0: "get_desc (rx_ring ?t0) (cur (rx_ring ?t0)) = d" "get_data (rx_ring ?t0) (cur (rx_ring ?t0)) = e" "cur (rx_ring ?t0) = ?i"
    "pkt_info (rx_ring ?t0) = no_pkt" "rx_lens (rx_ring ?t0)" "\<not> rx_behind (rx_ring ?t0)"
    using assms(4,5) by (simp_all add: d_def e_def set_pkt_info_def get_desc_def get_data_def ridx_def rx_lens_def ring_size_def rx_behind_def
      mac_rx_dirty_desc_def not_less)
  obtain q n where rd: "mac_dev_read p ?t0 = (0, (set_pkt_info q (set_ring (set_data ?i (read_entry d e) (rx_ring ?t0)) ?t0))\<lparr>rx_split_header_packets := n\<rparr>)"
    and q: "errors q = 0" "\<not> pattr q RX_PACKET_ATTRIBUTES_INCOMPLETE" "\<not> pattr q RX_PACKET_ATTRIBUTES_CONTEXT_NEXT" "\<not> pattr q RX_PACKET_ATTRIBUTES_CONTEXT"
    "pattr q RX_PACKET_ATTRIBUTES_CSUM_DONE = f_rxcsum p"
    using read_good [of ?t0 p] assms(6) r0 by metis
  let ?t1 = "(set_pkt_info q (set_ring (set_data ?i (read_entry d e) (rx_ring ?t0)) ?t0))\<lparr>rx_split_header_packets := n\<rparr>"
  have q1: "pkt_info (rx_ring ?t1) = q" by (simp add: set_pkt_info_def)
  let ?t2 = "passed ?t0 ?t1"
  have e2: "get_data (rx_ring ?t2) ?i = read_entry d e"
    using get_set_data [OF r0(5), of ?i "read_entry d e"] by (simp add: get_data_def ridx_def set_pkt_info_def set_ring_def set_data_def)
  have p2: "pkt_info (rx_ring ?t2) = q" "cur (rx_ring ?t2) = ?i + 1" "stack ?t2 = stack t"
    by (simp_all add: set_pkt_info_def set_ring_def)
  have pg: "pages (pa (rx_hdr (rx (read_entry d e)))) = Some h" "pages (pa (rx_buf (rx (read_entry d e)))) = Some g"
    using assms(9,10) by (simp_all add: read_entry_def)
  have re: "rx_hdr (rx (read_entry d e)) = rx_hdr (rx e)" "rx_buf (rx (read_entry d e)) = rx_buf (rx e)" by (simp_all add: read_entry_def)
  have m: "linear_len d (rx e) = min (dma_len (rx_hdr (rx (read_entry d e))))
      (if rx_hdr_len (rx (read_entry d e)) \<noteq> 0 then ucast (rx_hdr_len (rx (read_entry d e))) else pkt_len d)"
    by (simp add: linear_len_def read_entry_def)
  let ?b = "\<lparr>lin_page = h, lin_off = pages_offset (pa (rx_hdr (rx e))), lin_len = linear_len d (rx e),
        rx_frags = (if pkt_len d - linear_len d (rx e) = 0 then [] else [(g, pages_offset (pa (rx_buf (rx e))), pkt_len d - linear_len d (rx e),
          dma_len (rx_buf (rx e)))]), protocol = 0, csum_unnecessary = False, hwaccel_vlan = None, rx_hash = None, rx_queue = None\<rparr>"
  obtain r s' where cr: "mac_create_skb E ?i (pkt_len d) (?t2, s) = Some (Some (next_obj s), ?t2\<lparr>rx_ring := r,
      skbs := (skbs ?t2)(next_obj s \<mapsto> ?b)\<rparr>, s')" "pkt_info r = q" "cur r = ?i + 1"
    by (rule create_view [OF assms(8) pg e2 [symmetric] m, unfolded re p2])
  let ?t3 = "?t2\<lparr>rx_ring := r, skbs := (skbs ?t2)(next_obj s \<mapsto> ?b)\<rparr>"
  let ?v = "seen q rx_vars0"
  have dt: "rx_data E ?i (?v, ?t2, s) = Some (?v\<lparr>v_len := pkt_len d, v_skb := Some (next_obj s)\<rparr>, ?t3, s')"
    using cr(1) e2 assms(11) by (simp add: rx_data_def Let_def read_entry_def pkt_len_def rx_vars0_def)
  have bl: "rx_skb_len ?b = pkt_len d" by (simp add: rx_skb_len_def)
  let ?b2 = "?b\<lparr>csum_unnecessary := pattr q RX_PACKET_ATTRIBUTES_CSUM_DONE,
      hwaccel_vlan := (if pattr q RX_PACKET_ATTRIBUTES_VLAN_CTAG then Some (vlan_ctag q) else None),
      rx_hash := (if pattr q RX_PACKET_ATTRIBUTES_RSS_HASH then Some (rss_hash q, rss_hash_type q) else None),
      rx_queue := Some (queue_index c)\<rparr>"
  have "\<not> rx_skb_len ?b > max_len p ?b" using assms(12) unfolding bl by (simp add: max_len_def not_less)
  then have up: "rx_up p c (next_obj s) (?t3, s') = Some (?t3\<lparr>skbs := (skbs ?t3)(next_obj s := None), stack := (next_obj s, ?b2) # stack t,
      rx_vlan_packets := rx_vlan_packets ?t3 + (if pattr q RX_PACKET_ATTRIBUTES_VLAN_CTAG then 1 else 0)\<rparr>, emit (Erx_skb (next_obj s)) s')"
    unfolding rx_up_def Let_def using cr(2) p2 by simp
  obtain t4 s4 where t4: "rx_up p c (next_obj s) (?t3, s') = Some (t4, s4)" "stack t4 = (next_obj s, ?b2) # stack t" "rx_ring t4 = r"
    using up by simp
  let ?w = "?v\<lparr>v_len := pkt_len d, v_skb := Some (next_obj s)\<rparr>"
  have "rx_step E p c (rx_vars0, ?t0, s) = Some (Next_packet, ?w, t4, s4)"
    by (rule step_last [OF r0(6) rd q1 r0(3) _ _ _ _ _ dt _ _ _ t4(1)]) (use q p2 in \<open>simp_all add: rx_vars0_def\<close>)
  moreover have "rx_skb_len ?b2 = pkt_len d" by (simp add: rx_skb_len_def)
  ultimately show ?thesis
    using t4 cr(3) q by (intro exI [of _ ?w] exI [of _ t4] exI [of _ s4] exI [of _ ?b2] conjI) (simp_all add: rx_vars0_def)
qed

text \<open>
  C11. A packet in one good descriptor is delivered whole: with room for a socket buffer and the entry's
  pages in place, a poll that may take one packet passes up one buffer of just the length the card
  reported. Its linear part is copied from the header buffer and the rest, if any, is one fragment of
  the payload buffer; the checksum is taken as verified when the feature is on.
\<close>
lemma packet_delivered:
  fixes t :: rx_chan
  defines "e \<equiv> get_data (rx_ring t) (cur (rx_ring t))" and "d \<equiv> get_desc (rx_ring t) (cur (rx_ring t))"
  assumes "has_rx_ring c" "rx_lens (rx_ring t)" "mac_rx_dirty_desc (rx_ring t) \<le> MAC_RX_DESC_MAX_DIRTY" "good_last d" "\<not> state_saved e"
    "alloc_ok E (trace s)" "pages (pa (rx_hdr (rx e))) = Some h" "pages (pa (rx_buf (rx e))) = Some g"
    "pkt_len d \<noteq> 0" "pkt_len d \<le> word_of_nat (nd_mtu p) + 14"
  shows "\<exists>t' s' b. mac_rx_poll E p c 1 (t, s) = Some (1, t', s') \<and> stack t' = (next_obj s, b) # stack t \<and>
    cur (rx_ring t') = cur (rx_ring t) + 1 \<and> rx_skb_len b = pkt_len d \<and>
    lin_page b = h \<and> lin_off b = pages_offset (pa (rx_hdr (rx e))) \<and> lin_len b = linear_len d (rx e) \<and>
    rx_frags b = (if pkt_len d = linear_len d (rx e) then []
      else [(g, pages_offset (pa (rx_buf (rx e))), pkt_len d - linear_len d (rx e), dma_len (rx_buf (rx e)))]) \<and>
    csum_unnecessary b = f_rxcsum p \<and> rx_queue b = Some (queue_index c)"
proof -
  obtain w t' s' b where st: "rx_step E p c (rx_vars0, set_pkt_info no_pkt t, s) = Some (Next_packet, w, t', s')"
    and w: "v_count w = 0" "\<not> v_incomplete w" "\<not> v_context_next w" and b: "stack t' = (next_obj s, b) # stack t \<and>
    cur (rx_ring t') = cur (rx_ring t) + 1 \<and> rx_skb_len b = pkt_len d \<and>
    lin_page b = h \<and> lin_off b = pages_offset (pa (rx_hdr (rx e))) \<and> lin_len b = linear_len d (rx e) \<and>
    rx_frags b = (if pkt_len d = linear_len d (rx e) then []
      else [(g, pages_offset (pa (rx_buf (rx e))), pkt_len d - linear_len d (rx e), dma_len (rx_buf (rx e)))]) \<and>
    csum_unnecessary b = f_rxcsum p \<and> rx_queue b = Some (queue_index c)"
    using packet_step [OF assms(3-12) [unfolded e_def d_def]] unfolding e_def d_def by blast
  have bg: "rx_begin (rx_vars0, t) = (rx_vars0, set_pkt_info no_pkt t)" using assms(7) by (simp add: rx_begin_def rx_vars0_def e_def)
  have "rx_loop E p c 1 True (rx_vars0, t, s) = rx_loop E p c 1 True (w\<lparr>v_count := v_count w + 1\<rparr>, t', s')"
    using bg st by (subst rx_loop.simps) (simp add: rx_vars0_def)
  also have "\<dots> = Some (w\<lparr>v_count := v_count w + 1\<rparr>, t', s')"
    by (subst rx_loop.simps) (simp add: w)
  finally have "mac_rx_poll E p c 1 (t, s) = Some (1, t', s')"
    using assms(3) w by (simp add: mac_rx_poll_def Let_def)
  then show ?thesis using b by blast
qed

text \<open>A packet of 600 bytes in the first descriptor; 512 are copied.\<close>

definition page_at :: "nat \<Rightarrow> u32 \<Rightarrow> mac_page_alloc" where
  "page_at i n = \<lparr>pages = Some i, pages_len = 4096, pages_offset = n, pages_dma = 0x10000\<rparr>"

definition filled_chan :: rx_chan where
  "filled_chan = rx_chan_of ((zero_ring 1)\<lparr>datas := [no_data\<lparr>rx := no_rx\<lparr>
       rx_hdr := no_buffer\<lparr>pa := page_at 7 0, dma_len := 512\<rparr>, rx_buf := no_buffer\<lparr>pa := page_at 8 1536, dma_len := 1536\<rparr>\<rparr>\<rparr>, no_data],
     descs := [\<lparr>desc0 = 0, desc1 = 0, desc2 = 0, desc3 = 0x10000258\<rparr>, no_desc]\<rparr>)"

lemma packet_delivered_witness:
  "\<exists>(t' :: rx_chan) (s' :: kern) (b :: rx_skb). mac_rx_poll up_env (pdata0\<lparr>nd_mtu := 1500\<rparr>) chan0 1 (filled_chan, empty_kern) = Some (1, t', s') \<and>
     stack t' = [(0, b)] \<and> rx_skb_len b = 600 \<and> lin_page b = 7 \<and> lin_len b = 512 \<and> rx_frags b = [(8, 1536, 88, 1536)]"
proof -
  let ?e = "get_data (rx_ring filled_chan) (cur (rx_ring filled_chan))" and ?d = "get_desc (rx_ring filled_chan) (cur (rx_ring filled_chan))"
  have e: "?e = no_data\<lparr>rx := no_rx\<lparr>rx_hdr := no_buffer\<lparr>pa := page_at 7 0, dma_len := 512\<rparr>, rx_buf := no_buffer\<lparr>pa := page_at 8 1536, dma_len := 1536\<rparr>\<rparr>\<rparr>"
    "?d = \<lparr>desc0 = 0, desc1 = 0, desc2 = 0, desc3 = 0x10000258\<rparr>"
    by (simp_all add: filled_chan_def rx_chan_of_def zero_ring_def get_data_def get_desc_def ridx_def no_data_def)
  note b = desc_bits_def get_word_def MAC_GET_REG_BITS_def genmask_def mask_eq_exp_minus_1 push_bit_eq_mult
  have g: "good_last ?d" "pkt_len ?d = 600" "linear_len ?d (rx ?e) = 512"
    unfolding e by (simp_all add: good_last_def pkt_len_def linear_len_def split_len_def b no_rx_def no_buffer_def min_def)
  have l: "rx_lens (rx_ring filled_chan)"
    unfolding rx_lens_def by (intro conjI exI [of _ 1]) (simp_all add: filled_chan_def rx_chan_of_def zero_ring_def ring_size_def)
  have s: "has_rx_ring chan0" "mac_rx_dirty_desc (rx_ring filled_chan) \<le> MAC_RX_DESC_MAX_DIRTY" "\<not> state_saved ?e" "stack filled_chan = []"
    "alloc_ok up_env (trace empty_kern)" "next_obj empty_kern = 0" "pages (pa (rx_hdr (rx ?e))) = Some 7" "pages (pa (rx_buf (rx ?e))) = Some 8"
    unfolding e by (simp_all add: filled_chan_def rx_chan_of_def zero_ring_def chan0_def up_env_def empty_kern_def mac_rx_dirty_desc_def no_data_def
      no_rx_def no_buffer_def page_at_def)
  have m: "pkt_len ?d \<noteq> 0" "pkt_len ?d \<le> word_of_nat (nd_mtu (pdata0\<lparr>nd_mtu := 1500\<rparr>)) + 14" unfolding g(2) by simp_all
  note d = packet_delivered [OF s(1) l s(2) g(1) s(3,5,7,8) m]
  have f: "pages_offset (pa (rx_buf (rx ?e))) = 1536" "dma_len (rx_buf (rx ?e)) = 1536" "600 - (512 :: u32) = 88" "(600 :: u32) \<noteq> 512"
    unfolding e by (simp_all add: page_at_def)
  show ?thesis using d unfolding g s(4,6) f(1,2,3) if_not_P [OF f(4)] by blast
qed

end
