(* ===== verification/Channels.thy ===== *)
theory Channels
  imports Rx
begin

text \<open>
  Allocation and release of the channels and their rings (bx_mac_desc.c). Each ring is pointed to by one
  channel, which holds it here; the arrays the rings and channels lie in are objects of the kernel. What
  fresh descriptor memory contains is an argument. \<open>None\<close> is the result of a run that dereferences a
  pointer to nothing, or frees one that was not allocated.
\<close>

section \<open>Register map\<close>

text \<open>Register offsets, and fields as position and length, from the headers.\<close>

abbreviation (input) DMA_CH_BASE :: u32 where "DMA_CH_BASE \<equiv> 0x3100"
abbreviation (input) DMA_CH_INC :: u32 where "DMA_CH_INC \<equiv> 0x80"

section \<open>State\<close>

text \<open>The result of \<open>kcalloc\<close>; for no elements it is \<open>ZERO_SIZE_PTR\<close>, which may only be freed.\<close>

datatype block = Null | Zero_size | Mem nat

definition kcalloc :: "env \<Rightarrow> nat \<Rightarrow> kern \<Rightarrow> block \<times> kern" where
  "kcalloc E n s = (if n = 0 then (Zero_size, s) else case kalloc E s of (None, s) \<Rightarrow> (Null, s) | (Some i, s) \<Rightarrow> (Mem i, s))"

text \<open>\<open>kfree\<close> of a pointer \<open>k\<close> elements into a block.\<close>

definition kfree_at :: "block \<Rightarrow> nat \<Rightarrow> kern \<Rightarrow> kern option" where
  "kfree_at b k s = (if k \<noteq> 0 then None else Some (case b of Mem i \<Rightarrow> kfree (Some i) s | _ \<Rightarrow> s))"

record ring_mem =
  ring_of :: mac_ring
  desc_head :: "nat option"
  data_head :: "nat option"

record channel_mem =
  chan :: mac_channel
  dma_irq :: int
  tx_mem :: "ring_mem option"
  rx_mem :: "ring_mem option"

text \<open>\<open>channel_head\<close> points to \<open>channels\<close>; \<open>tx_block\<close> and \<open>rx_block\<close> are what the first rings' pointers point to.\<close>

record chan_pdata =
  channel_head :: block
  channels :: "channel_mem list"
  tx_block :: block
  rx_block :: block
  channel_count :: nat
  tx_ring_count :: nat
  rx_ring_count :: nat
  tx_desc_count :: u32
  rx_desc_count :: u32
  per_channel_irq :: bool
  channel_irq :: "nat \<Rightarrow> int"
  regs_base :: u32

text \<open>A ring in zeroed memory.\<close>

definition no_ring :: ring_mem where
  "no_ring = \<lparr>ring_of = \<lparr>pkt_info = no_pkt, descs = [], dma_desc_head_addr = 0, dma_desc_count = 0, datas = [], rx_hdr_pa = no_page,
     rx_buf_pa = no_page, cur = 0, dirty = 0, coalesce_count = 0, xmit_more = False, queue_stopped = False, cur_mss = 0, cur_vlan_ctag = 0\<rparr>,
     desc_head = None, data_head = None\<rparr>"

section \<open>Rings\<close>

text \<open>The entries of a ring are unmapped in order, as \<open>mac_free_tx_data\<close> and \<open>mac_free_rx_data\<close> do too.\<close>

definition unmap_all :: "mac_ring \<times> kern \<Rightarrow> mac_ring \<times> kern" where
  "unmap_all z = fold (\<lambda>i. unmap_at (word_of_nat i)) [0..<unat (dma_desc_count (fst z))] z"

definition free_page_alloc :: "mac_page_alloc \<times> kern \<Rightarrow> mac_page_alloc \<times> kern" where
  "free_page_alloc = (\<lambda>(p, s). if pages p \<noteq> None then (no_page, unmap_pages p s) else (p, s))"

definition mac_free_ring :: "ring_mem \<times> kern \<Rightarrow> ring_mem \<times> kern" where
  "mac_free_ring = (\<lambda>(m, s).
     let (m, s) = (if data_head m \<noteq> None
           then (case unmap_all (ring_of m, s) of (r, s) \<Rightarrow>
                 (m\<lparr>ring_of := r\<lparr>datas := []\<rparr>, data_head := None\<rparr>, kfree (data_head m) s))
           else (m, s));
         (h, s) = free_page_alloc (rx_hdr_pa (ring_of m), s);
         (b, s) = free_page_alloc (rx_buf_pa (ring_of m), s);
         m = m\<lparr>ring_of := (ring_of m)\<lparr>rx_hdr_pa := h, rx_buf_pa := b\<rparr>\<rparr>
     in case desc_head m of None \<Rightarrow> (m, s)
        | Some i \<Rightarrow> (m\<lparr>ring_of := (ring_of m)\<lparr>descs := []\<rparr>, desc_head := None\<rparr>, dma_free i s))"

definition mac_init_ring :: "env \<Rightarrow> (event list \<Rightarrow> nat \<Rightarrow> mac_dma_desc) \<Rightarrow> u32 \<Rightarrow> ring_mem \<times> kern \<Rightarrow> int \<times> ring_mem \<times> kern" where
  "mac_init_ring E D n = (\<lambda>(m, s).
     let m = m\<lparr>ring_of := (ring_of m)\<lparr>dma_desc_count := n\<rparr>\<rparr>
     in case dma_alloc E (16 * n) s of
       (None, s) \<Rightarrow> (- ENOMEM, m, s)
     | (Some (i, a), s) \<Rightarrow>
         let m = m\<lparr>ring_of := (ring_of m)\<lparr>descs := map (D (trace s)) [0..<unat n], dma_desc_head_addr := a\<rparr>, desc_head := Some i\<rparr>
         in case kalloc E s of
           (None, s) \<Rightarrow> (- ENOMEM, m, s)
         | (Some j, s) \<Rightarrow> (0, m\<lparr>ring_of := (ring_of m)\<lparr>datas := replicate (unat n) no_data\<rparr>, data_head := Some j\<rparr>, s))"

text \<open>Both accept a null ring.\<close>

definition free_ring_opt :: "ring_mem option \<times> kern \<Rightarrow> ring_mem option \<times> kern" where
  "free_ring_opt = (\<lambda>(m, s). case m of None \<Rightarrow> (None, s) | Some m \<Rightarrow> (case mac_free_ring (m, s) of (m, s) \<Rightarrow> (Some m, s)))"

definition init_ring_opt ::
    "env \<Rightarrow> (event list \<Rightarrow> nat \<Rightarrow> mac_dma_desc) \<Rightarrow> u32 \<Rightarrow> ring_mem option \<times> kern \<Rightarrow> int \<times> ring_mem option \<times> kern" where
  "init_ring_opt E D n = (\<lambda>(m, s). case m of None \<Rightarrow> (0, None, s)
     | Some m \<Rightarrow> (case mac_init_ring E D n (m, s) of (ret, m, s) \<Rightarrow> (ret, Some m, s)))"

fun free_ring_list :: "channel_mem list \<Rightarrow> kern \<Rightarrow> channel_mem list \<times> kern" where
  "free_ring_list [] s = ([], s)"
| "free_ring_list (c # cs) s =
     (case free_ring_opt (tx_mem c, s) of (t, s) \<Rightarrow> case free_ring_opt (rx_mem c, s) of (r, s) \<Rightarrow>
      case free_ring_list cs s of (cs, s) \<Rightarrow> (c\<lparr>tx_mem := t, rx_mem := r\<rparr> # cs, s))"

definition mac_free_rings :: "chan_pdata \<times> kern \<Rightarrow> chan_pdata \<times> kern" where
  "mac_free_rings = (\<lambda>(p, s). if channel_head p = Null then (p, s)
     else case free_ring_list (channels p) s of (cs, s) \<Rightarrow> (p\<lparr>channels := cs\<rparr>, s))"

fun init_ring_list :: "env \<Rightarrow> (event list \<Rightarrow> nat \<Rightarrow> mac_dma_desc) \<Rightarrow> u32 \<Rightarrow> u32 \<Rightarrow> channel_mem list \<Rightarrow> kern \<Rightarrow> int \<times> channel_mem list \<times> kern" where
  "init_ring_list E D n m [] s = (0, [], s)"
| "init_ring_list E D n m (c # cs) s =
     (case init_ring_opt E D n (tx_mem c, s) of (ret, t, s) \<Rightarrow>
      if ret \<noteq> 0 then (ret, c\<lparr>tx_mem := t\<rparr> # cs, s)
      else case init_ring_opt E D m (rx_mem c, s) of (ret, r, s) \<Rightarrow>
      if ret \<noteq> 0 then (ret, c\<lparr>tx_mem := t, rx_mem := r\<rparr> # cs, s)
      else case init_ring_list E D n m cs s of (ret, cs, s) \<Rightarrow> (ret, c\<lparr>tx_mem := t, rx_mem := r\<rparr> # cs, s))"

definition mac_alloc_rings :: "env \<Rightarrow> (event list \<Rightarrow> nat \<Rightarrow> mac_dma_desc) \<Rightarrow> chan_pdata \<times> kern \<Rightarrow> int \<times> chan_pdata \<times> kern" where
  "mac_alloc_rings E D = (\<lambda>(p, s).
     case init_ring_list E D (tx_desc_count p) (rx_desc_count p) (channels p) s of (ret, cs, s) \<Rightarrow>
     let p = p\<lparr>channels := cs\<rparr>
     in if ret \<noteq> 0 then (case mac_free_rings (p, s) of (p, s) \<Rightarrow> (ret, p, s)) else (0, p, s))"

section \<open>Channels\<close>

definition mac_free_channels :: "chan_pdata \<times> kern \<Rightarrow> (chan_pdata \<times> kern) option" where
  "mac_free_channels = (\<lambda>(p, s). case channel_head p of
       Null \<Rightarrow> Some (p, s)
     | Zero_size \<Rightarrow> None
     | Mem i \<Rightarrow> (case channels p of [] \<Rightarrow> None
       | c # cs \<Rightarrow>
           Option.bind (kfree_at (if tx_mem c = None then Null else tx_block p) 0 s) (\<lambda>s.
           Option.bind (kfree_at (if rx_mem c = None then Null else rx_block p) 0 s) (\<lambda>s.
           Some (p\<lparr>channel_head := Null, channels := [], channel_count := 0\<rparr>, kfree (Some i) s)))))"

definition new_channel :: "chan_pdata \<Rightarrow> nat \<Rightarrow> int \<Rightarrow> channel_mem" where
  "new_channel p i irq =
     \<lparr>chan = \<lparr>queue_index = i, dma_regs = regs_base p + DMA_CH_BASE + DMA_CH_INC * word_of_nat i,
        has_tx_ring = (i < tx_ring_count p), has_rx_ring = (i < rx_ring_count p)\<rparr>,
      dma_irq = irq,
      tx_mem = (if i < tx_ring_count p then Some no_ring else None),
      rx_mem = (if i < rx_ring_count p then Some no_ring else None)\<rparr>"

text \<open>The loop of \<open>mac_alloc_channels\<close> over \<open>n\<close> channels from \<open>i\<close>: the status, how many it set up, and the channels.\<close>

fun channel_loop :: "chan_pdata \<Rightarrow> nat \<Rightarrow> nat \<Rightarrow> int \<times> nat \<times> channel_mem list" where
  "channel_loop p 0 i = (0, i, [])"
| "channel_loop p (Suc n) i =
     (if per_channel_irq p \<and> channel_irq p i < 0 then (channel_irq p i, i, [])
      else case channel_loop p n (i + 1) of (ret, k, cs) \<Rightarrow>
        (ret, k, new_channel p i (if per_channel_irq p then channel_irq p i else 0) # cs))"

text \<open>At \<open>err_irq\<close> the pointers to the rings have moved on by one for each channel set up.\<close>

definition mac_alloc_channels :: "env \<Rightarrow> chan_pdata \<times> kern \<Rightarrow> (int \<times> chan_pdata \<times> kern) option" where
  "mac_alloc_channels E = (\<lambda>(p, s).
     case kcalloc E (channel_count p) s of (head, s) \<Rightarrow>
     if head = Null then Some (- ENOMEM, p, s)
     else case kcalloc E (tx_ring_count p) s of (tb, s) \<Rightarrow>
     if tb = Null then map_option (\<lambda>s. (- ENOMEM, p, s)) (kfree_at head 0 s)
     else case kcalloc E (rx_ring_count p) s of (rb, s) \<Rightarrow>
     if rb = Null then Option.bind (kfree_at tb 0 s) (\<lambda>s. map_option (\<lambda>s. (- ENOMEM, p, s)) (kfree_at head 0 s))
     else case channel_loop p (channel_count p) 0 of (ret, k, cs) \<Rightarrow>
     if ret < 0
     then Option.bind (kfree_at rb (min k (rx_ring_count p)) s) (\<lambda>s.
          Option.bind (kfree_at tb (min k (tx_ring_count p)) s) (\<lambda>s.
          map_option (\<lambda>s. (ret, p, s)) (kfree_at head 0 s)))
     else Some (0, p\<lparr>channel_head := head, channels := cs, tx_block := tb, rx_block := rb\<rparr>, s))"

definition mac_free_channels_and_rings :: "chan_pdata \<times> kern \<Rightarrow> (chan_pdata \<times> kern) option" where
  "mac_free_channels_and_rings z = mac_free_channels (mac_free_rings z)"

definition mac_alloc_channels_and_rings ::
    "env \<Rightarrow> (event list \<Rightarrow> nat \<Rightarrow> mac_dma_desc) \<Rightarrow> chan_pdata \<times> kern \<Rightarrow> (int \<times> chan_pdata \<times> kern) option" where
  "mac_alloc_channels_and_rings E D z =
     Option.bind (mac_alloc_channels E z) (\<lambda>(ret, p, s).
     if ret \<noteq> 0 then map_option (\<lambda>(p, s). (ret, p, s)) (mac_free_channels_and_rings (p, s))
     else case mac_alloc_rings E D (p, s) of (ret, p, s) \<Rightarrow>
       if ret \<noteq> 0 then map_option (\<lambda>(p, s). (ret, p, s)) (mac_free_channels_and_rings (p, s)) else Some (0, p, s))"

text \<open>\<open>mac_free_tx_data\<close> and \<open>mac_free_rx_data\<close> end at the first channel without a ring.\<close>

fun free_data :: "(channel_mem \<Rightarrow> ring_mem option) \<Rightarrow> (ring_mem \<Rightarrow> channel_mem \<Rightarrow> channel_mem) \<Rightarrow> channel_mem list \<Rightarrow> kern \<Rightarrow> channel_mem list \<times> kern" where
  "free_data f g [] s = ([], s)"
| "free_data f g (c # cs) s = (case f c of None \<Rightarrow> (c # cs, s)
     | Some m \<Rightarrow> (case unmap_all (ring_of m, s) of (r, s) \<Rightarrow> case free_data f g cs s of (cs, s) \<Rightarrow> (g (m\<lparr>ring_of := r\<rparr>) c # cs, s)))"

definition mac_free_tx_data :: "chan_pdata \<times> kern \<Rightarrow> chan_pdata \<times> kern" where
  "mac_free_tx_data = (\<lambda>(p, s). case free_data tx_mem (\<lambda>m c. c\<lparr>tx_mem := Some m\<rparr>) (channels p) s of (cs, s) \<Rightarrow> (p\<lparr>channels := cs\<rparr>, s))"

definition mac_free_rx_data :: "chan_pdata \<times> kern \<Rightarrow> chan_pdata \<times> kern" where
  "mac_free_rx_data = (\<lambda>(p, s). case free_data rx_mem (\<lambda>m c. c\<lparr>rx_mem := Some m\<rparr>) (channels p) s of (cs, s) \<Rightarrow> (p\<lparr>channels := cs\<rparr>, s))"

end
