(* ===== verification/Channels_Correct.thy ===== *)
theory Channels_Correct
  imports Channels Rx_Props
begin

text \<open>
  Allocation and release of channels and rings: whatever fails, nothing is lost; a ring taken down gives
  back the pages and mappings it held; and a card that has been closed comes up again without channels.
\<close>

section \<open>Live objects\<close>

text \<open>Events that allocate and free no object.\<close>

fun no_obj :: "event \<Rightarrow> bool" where
  "no_obj (Ekalloc i) = False"
| "no_obj (Edma_alloc i n) = False"
| "no_obj (Ekfree i) = False"
| "no_obj (Edma_free i) = False"
| "no_obj _ = True"

text \<open>
  \<open>live_objs\<close> does not show a second release of an object; \<open>frees_ok\<close> does: every object released in a
  history was live at that moment.
\<close>

fun frees_ok :: "event list \<Rightarrow> bool" where
  "frees_ok [] = True"
| "frees_ok (Ekfree i # t) = (i \<in> live_objs t \<and> frees_ok t)"
| "frees_ok (Edma_free i # t) = (i \<in> live_objs t \<and> frees_ok t)"
| "frees_ok (_ # t) = frees_ok t"

text \<open>Objects that are held are counted: one that is held twice would be released twice.\<close>

definition held_once :: "nat multiset \<Rightarrow> bool" where
  "held_once A \<longleftrightarrow> (\<forall>i. count A i \<le> 1)"

text \<open>A step releases the objects \<open>A\<close>, each once; a step takes the objects \<open>A\<close>, each of them new.\<close>

definition gives_back :: "nat multiset \<Rightarrow> kern \<Rightarrow> kern \<Rightarrow> bool" where
  "gives_back A s s' \<longleftrightarrow> live_objs (trace s') = live_objs (trace s) - set_mset A \<and> next_obj s' = next_obj s \<and>
     (frees_ok (trace s) \<and> held_once A \<and> set_mset A \<subseteq> live_objs (trace s) \<longrightarrow> frees_ok (trace s'))"

definition takes :: "nat multiset \<Rightarrow> kern \<Rightarrow> kern \<Rightarrow> bool" where
  "takes A s s' \<longleftrightarrow> live_objs (trace s') = live_objs (trace s) \<union> set_mset A \<and> next_obj s \<le> next_obj s' \<and>
     (\<forall>i \<in># A. next_obj s \<le> i \<and> i < next_obj s') \<and> held_once A \<and> (frees_ok (trace s) \<longrightarrow> frees_ok (trace s'))"

lemma held_once_none [simp]: "held_once {#}"
  by (simp add: held_once_def)

lemma held_once_one [simp]: "held_once {#i#}"
  by (simp add: held_once_def)

lemma held_once_parts:
  assumes "held_once (A + B)"
  shows "held_once A \<and> held_once B \<and> set_mset A \<inter> set_mset B = {}"
proof -
  have s: "count A i + count B i \<le> 1" for i using assms by (simp add: held_once_def)
  have "i \<notin> set_mset A \<inter> set_mset B" for i using s [of i] by (auto simp flip: count_greater_zero_iff)
  moreover have "count A i \<le> 1" "count B i \<le> 1" for i using s [of i] by simp_all
  ultimately show ?thesis by (auto simp: held_once_def)
qed

lemma held_once_union:
  assumes "held_once A" "held_once B" "set_mset A \<inter> set_mset B = {}"
  shows "held_once (A + B)"
  unfolding held_once_def
proof
  fix i
  have "count A i = 0 \<or> count B i = 0" using assms(3) by (auto simp: disjoint_iff not_in_iff)
  then show "count (A + B) i \<le> 1" using assms(1,2) by (auto simp: held_once_def)
qed

lemma gives_back_trans:
  assumes "gives_back A s s1" "gives_back B s1 s2"
  shows "gives_back (A + B) s s2"
proof -
  have "frees_ok (trace s2)" if h: "frees_ok (trace s)" "held_once (A + B)" "set_mset (A + B) \<subseteq> live_objs (trace s)"
  proof -
    note d = held_once_parts [OF h(2)]
    have s: "set_mset A \<subseteq> live_objs (trace s)" "set_mset B \<subseteq> live_objs (trace s)" using h(3) by simp_all
    have "frees_ok (trace s1)" using assms(1) h(1) d s(1) by (simp add: gives_back_def)
    moreover have "set_mset B \<subseteq> live_objs (trace s1)" using assms(1) d s(2) by (auto simp: gives_back_def)
    ultimately show ?thesis using assms(2) d by (simp add: gives_back_def)
  qed
  then show ?thesis using assms by (auto simp: gives_back_def)
qed

lemma takes_refl [simp]: "takes {#} s s"
  by (simp add: takes_def)

lemma takes_trans:
  assumes "takes A s s1" "takes B s1 s2"
  shows "takes (A + B) s s2"
proof -
  have "i < next_obj s1" if "i \<in># A" for i using assms(1) that by (simp add: takes_def)
  moreover have "next_obj s1 \<le> i" if "i \<in># B" for i using assms(2) that by (simp add: takes_def)
  ultimately have "set_mset A \<inter> set_mset B = {}" by (meson disjoint_iff leD)
  then have "held_once (A + B)" using assms by (intro held_once_union) (simp_all add: takes_def)
  moreover have "\<forall>i \<in># A + B. next_obj s \<le> i \<and> i < next_obj s2" using assms by (fastforce simp: takes_def)
  moreover have "frees_ok (trace s) \<longrightarrow> frees_ok (trace s2)" using assms by (simp add: takes_def)
  ultimately show ?thesis using assms by (simp add: takes_def Un_assoc)
qed

text \<open>What was taken and is given back leaves the objects as they were.\<close>

lemma take_give:
  assumes "objs_below s" "takes A s s1" "gives_back A s1 s2"
  shows "live_objs (trace s2) = live_objs (trace s) \<and> next_obj s \<le> next_obj s2 \<and> (frees_ok (trace s) \<longrightarrow> frees_ok (trace s2))"
proof -
  have "next_obj s \<le> i" if "i \<in># A" for i using assms(2) that by (simp add: takes_def)
  moreover have "i < next_obj s" if "i \<in> live_objs (trace s)" for i using assms(1) that by (simp add: objs_below_def)
  ultimately have "i \<notin> live_objs (trace s)" if "i \<in># A" for i using that by (meson leD)
  then show ?thesis using assms(2,3) by (auto simp: takes_def gives_back_def)
qed

abbreviation same_objs :: "kern \<Rightarrow> kern \<Rightarrow> bool" where
  "same_objs \<equiv> gives_back {#}"

lemma same_objs_refl [simp]: "same_objs s s"
  by (simp add: gives_back_def)

lemma same_objs_trans: "same_objs s s1 \<Longrightarrow> same_objs s1 s2 \<Longrightarrow> same_objs s s2"
  using gives_back_trans by fastforce

lemma same_then_gives: "same_objs s s1 \<Longrightarrow> gives_back A s1 s2 \<Longrightarrow> gives_back A s s2"
  using gives_back_trans by fastforce

lemma gives_then_same: "gives_back A s s1 \<Longrightarrow> same_objs s1 s2 \<Longrightarrow> gives_back A s s2"
  using gives_back_trans by fastforce

lemma gives_kfree: "gives_back (mset_set (set_option p)) s (kfree p s)"
  by (cases p) (auto simp: gives_back_def)

lemma gives_dma_free: "gives_back {#i#} s (dma_free i s)"
  by (auto simp: gives_back_def)

lemma same_objs_emit: "no_obj e \<Longrightarrow> same_objs s (emit e s)"
  by (cases e) (auto simp: gives_back_def)

lemma same_objs_put_page: "same_objs s (put_page p s)"
  using same_objs_emit by (auto simp: put_page_def split: option.split)

lemma same_objs_unmap_pages: "same_objs s (unmap_pages p s)"
  using same_objs_put_page same_objs_emit [of "Edma_unmap (pages_dma p) (pages_len p) True" s] same_objs_trans
  by (auto simp: unmap_pages_def dma_unmap_def)

lemma same_objs_unmap:
  assumes "mac_unmap_desc_data (d, s) = (d', s')"
  shows "same_objs s s'"
proof -
  let ?s0 = "if skb_dma d \<noteq> 0 then dma_unmap (skb_dma d) (skb_dma_len d) (mapped_as_page d) s else s"
  let ?s1 = "free_skb (skb d) ?s0"
  let ?h = "rx_hdr (rx d)" and ?b = "rx_buf (rx d)"
  have e: "s' = unmap_pages (pa_unmap ?b) (put_page (pages (pa ?b)) (unmap_pages (pa_unmap ?h) (put_page (pages (pa ?h)) ?s1)))"
    using assms by (auto simp: mac_unmap_desc_data_def Let_def split: if_splits)
  have "same_objs s ?s0" using same_objs_emit by (simp add: dma_unmap_def)
  moreover have "same_objs ?s0 ?s1" using same_objs_emit by (simp add: free_skb_def split: option.split)
  ultimately show ?thesis unfolding e using same_objs_unmap_pages same_objs_put_page same_objs_trans by meson
qed

lemma same_objs_unmap_all:
  assumes "unmap_all (r, s) = (r', s')"
  shows "same_objs s s'"
proof -
  have "fold (\<lambda>i. unmap_at (word_of_nat i)) xs (r, s) = (r', s') \<Longrightarrow> same_objs s s'" for xs
  proof (induction xs arbitrary: r s)
    case (Cons i xs)
    obtain r1 s1 where 1: "unmap_at (word_of_nat i) (r, s) = (r1, s1)" by fastforce
    then have "same_objs s s1" using same_objs_unmap by (auto simp: unmap_at_def split: prod.splits)
    then show ?case using Cons.IH [of r1 s1] Cons.prems 1 same_objs_trans by auto
  qed simp
  then show ?thesis using assms by (simp add: unmap_all_def)
qed

section \<open>Rings\<close>

definition ring_objs :: "ring_mem \<Rightarrow> nat multiset" where
  "ring_objs m = mset_set (set_option (desc_head m)) + mset_set (set_option (data_head m))"

definition opt_objs :: "ring_mem option \<Rightarrow> nat multiset" where
  "opt_objs m = (case m of None \<Rightarrow> {#} | Some m \<Rightarrow> ring_objs m)"

definition chan_objs :: "channel_mem \<Rightarrow> nat multiset" where
  "chan_objs c = opt_objs (tx_mem c) + opt_objs (rx_mem c)"

definition objs_of :: "channel_mem list \<Rightarrow> nat multiset" where
  "objs_of cs = (\<Sum>c\<leftarrow>cs. chan_objs c)"

lemma objs_of_simps [simp]: "objs_of [] = {#}" "objs_of (c # cs) = chan_objs c + objs_of cs"
  by (simp_all add: objs_of_def)

lemma free_page_alloc_view: "free_page_alloc (p, s) = (p', s') \<Longrightarrow> same_objs s s'"
  using same_objs_unmap_pages by (auto simp: free_page_alloc_def split: if_splits)

lemma free_ring_view:
  assumes "mac_free_ring (m, s) = (m', s')"
  shows "gives_back (ring_objs m) s s' \<and> ring_objs m' = {#}"
proof -
  obtain m1 s1 where 1: "(if data_head m \<noteq> None
           then (case unmap_all (ring_of m, s) of (r, s) \<Rightarrow>
                 (m\<lparr>ring_of := r\<lparr>datas := []\<rparr>, data_head := None\<rparr>, kfree (data_head m) s))
           else (m, s)) = (m1, s1)" by fastforce
  have a: "gives_back (mset_set (set_option (data_head m))) s s1 \<and> data_head m1 = None \<and> desc_head m1 = desc_head m"
  proof (cases "data_head m")
    case None
    then show ?thesis using 1 by simp
  next
    case (Some j)
    obtain r2 s2 where u: "unmap_all (ring_of m, s) = (r2, s2)" by fastforce
    then have "m1 = m\<lparr>ring_of := r2\<lparr>datas := []\<rparr>, data_head := None\<rparr>" "s1 = kfree (Some j) s2" using 1 Some by simp_all
    then show ?thesis using same_then_gives [OF same_objs_unmap_all [OF u] gives_kfree [of "Some j" s2]] Some by simp
  qed
  obtain h s2 where 2: "free_page_alloc (rx_hdr_pa (ring_of m1), s1) = (h, s2)" by fastforce
  obtain b s3 where 3: "free_page_alloc (rx_buf_pa (ring_of m1), s2) = (b, s3)" by fastforce
  have b: "gives_back (mset_set (set_option (data_head m))) s s3"
    using gives_then_same [OF conjunct1 [OF a] same_objs_trans [OF free_page_alloc_view [OF 2] free_page_alloc_view [OF 3]]] .
  let ?m = "m1\<lparr>ring_of := (ring_of m1)\<lparr>rx_hdr_pa := h, rx_buf_pa := b\<rparr>\<rparr>"
  have e: "(case desc_head ?m of None \<Rightarrow> (?m, s3)
        | Some i \<Rightarrow> (?m\<lparr>ring_of := (ring_of ?m)\<lparr>descs := []\<rparr>, desc_head := None\<rparr>, dma_free i s3)) = (m', s')"
    using assms 1 2 3 unfolding mac_free_ring_def Let_def by simp
  show ?thesis
  proof (cases "desc_head m1")
    case None
    then have "m' = ?m \<and> s' = s3" using e by simp
    then show ?thesis using None a b by (simp add: ring_objs_def)
  next
    case (Some i)
    then have "m' = ?m\<lparr>ring_of := (ring_of ?m)\<lparr>descs := []\<rparr>, desc_head := None\<rparr> \<and> s' = dma_free i s3" using e by simp
    then show ?thesis using Some a gives_back_trans [OF b gives_dma_free [of i s3]] by (simp add: ring_objs_def add.commute)
  qed
qed

lemma free_ring_opt_view:
  assumes "free_ring_opt (m, s) = (m', s')"
  shows "gives_back (opt_objs m) s s' \<and> opt_objs m' = {#} \<and> (m' = None \<longleftrightarrow> m = None)"
  using assms free_ring_view by (auto simp: free_ring_opt_def opt_objs_def split: option.splits prod.splits)

lemma free_ring_list_view:
  "free_ring_list cs s = (cs', s') \<Longrightarrow>
     gives_back (objs_of cs) s s' \<and> objs_of cs' = {#} \<and>
     map (\<lambda>c. (tx_mem c = None, rx_mem c = None)) cs' = map (\<lambda>c. (tx_mem c = None, rx_mem c = None)) cs"
proof (induction cs arbitrary: s cs' s')
  case (Cons c cs)
  obtain t s1 where 1: "free_ring_opt (tx_mem c, s) = (t, s1)" by fastforce
  obtain r s2 where 2: "free_ring_opt (rx_mem c, s1) = (r, s2)" by fastforce
  obtain ds s3 where 3: "free_ring_list cs s2 = (ds, s3)" by fastforce
  note v = free_ring_opt_view [OF 1] free_ring_opt_view [OF 2] Cons.IH [OF 3]
  have g: "gives_back (chan_objs c + objs_of cs) s s3" unfolding chan_objs_def
    using gives_back_trans [OF gives_back_trans [OF v(1) [THEN conjunct1] v(2) [THEN conjunct1]] v(3) [THEN conjunct1]] .
  have "cs' = c\<lparr>tx_mem := t, rx_mem := r\<rparr> # ds \<and> s' = s3" using Cons.prems 1 2 3 by simp
  then show ?case using g v by (simp add: chan_objs_def)
qed simp

lemma dma_alloc_view: "dma_alloc E n s = (r, s') \<Longrightarrow> takes (mset_set (set_option (map_option fst r))) s s'"
  by (auto simp: dma_alloc_def takes_def split: if_splits)

lemma kalloc_view: "kalloc E s = (r, s') \<Longrightarrow> takes (mset_set (set_option r)) s s'"
  by (auto simp: kalloc_def takes_def split: if_splits)

lemma init_ring_view:
  assumes "mac_init_ring E D n (m, s) = (ret, m', s')" "ring_objs m = {#}"
  shows "takes (ring_objs m') s s' \<and> ret \<le> 0 \<and> ((\<forall>h. alloc_ok E h) \<longrightarrow> ret = 0)"
proof -
  have m: "desc_head m = None" "data_head m = None" using assms(2) by (cases "desc_head m"; cases "data_head m"; simp add: ring_objs_def)+
  obtain a s1 where 1: "dma_alloc E (16 * n) s = (a, s1)" by fastforce
  note t1 = dma_alloc_view [OF 1]
  show ?thesis
  proof (cases a)
    case None
    then have "ret = - ENOMEM" "ring_objs m' = {#}" "s' = s1" using assms(1) 1 m by (auto simp: mac_init_ring_def Let_def ring_objs_def)
    moreover have "\<not> alloc_ok E (trace s)" using 1 None by (auto simp: dma_alloc_def split: if_splits)
    ultimately show ?thesis using t1 None by auto
  next
    case (Some ia)
    obtain b s2 where 2: "kalloc E s1 = (b, s2)" by fastforce
    note t2 = takes_trans [OF t1 kalloc_view [OF 2]]
    have o: "ring_objs m' = mset_set (set_option (map_option fst a)) + mset_set (set_option b)" "s' = s2"
      "ret = (if b = None then - ENOMEM else 0)"
      using assms(1) 1 2 Some m by (cases ia; auto simp: mac_init_ring_def Let_def ring_objs_def split: option.splits)+
    have "b \<noteq> None" if "\<forall>h. alloc_ok E h" using 2 that by (auto simp: kalloc_def)
    then show ?thesis using t2 unfolding o by (auto simp del: not_None_eq)
  qed
qed

lemma init_ring_opt_view:
  assumes "init_ring_opt E D n (m, s) = (ret, m', s')" "opt_objs m = {#}"
  shows "takes (opt_objs m') s s' \<and> (m' = None \<longleftrightarrow> m = None) \<and> ret \<le> 0 \<and> ((\<forall>h. alloc_ok E h) \<longrightarrow> ret = 0)"
proof (cases m)
  case None
  then show ?thesis using assms by (simp add: init_ring_opt_def opt_objs_def)
next
  case (Some k)
  obtain k' where k': "mac_init_ring E D n (k, s) = (ret, k', s')" "m' = Some k'"
    using assms(1) Some by (auto simp: init_ring_opt_def split: prod.splits)
  show ?thesis using init_ring_view [OF k'(1)] assms(2) Some k'(2) by (simp add: opt_objs_def)
qed

lemma init_ring_list_view:
  "init_ring_list E D n m cs s = (ret, cs', s') \<Longrightarrow> objs_of cs = {#} \<Longrightarrow>
     takes (objs_of cs') s s' \<and>
     map (\<lambda>c. (tx_mem c = None, rx_mem c = None)) cs' = map (\<lambda>c. (tx_mem c = None, rx_mem c = None)) cs \<and>
     ret \<le> 0 \<and> ((\<forall>h. alloc_ok E h) \<longrightarrow> ret = 0)"
proof (induction cs arbitrary: s ret cs' s')
  case (Cons c cs)
  have n: "opt_objs (tx_mem c) = {#}" "opt_objs (rx_mem c) = {#}" "objs_of cs = {#}" using Cons.prems(2) by (auto simp: chan_objs_def)
  obtain ret1 t s1 where 1: "init_ring_opt E D n (tx_mem c, s) = (ret1, t, s1)" by (metis prod_cases3)
  note v1 = init_ring_opt_view [OF 1 n(1)]
  show ?case
  proof (cases "ret1 = 0")
    case False
    then have "ret = ret1 \<and> cs' = c\<lparr>tx_mem := t\<rparr> # cs \<and> s' = s1" using Cons.prems(1) 1 by simp
    then show ?thesis using v1 n False by (auto simp: chan_objs_def)
  next
    case True
    obtain ret2 r s2 where 2: "init_ring_opt E D m (rx_mem c, s1) = (ret2, r, s2)" by (metis prod_cases3)
    note v2 = init_ring_opt_view [OF 2 n(2)]
    have t2: "takes (opt_objs t + opt_objs r) s s2" using takes_trans [OF v1 [THEN conjunct1] v2 [THEN conjunct1]] .
    show ?thesis
    proof (cases "ret2 = 0")
      case False
      then have "ret = ret2 \<and> cs' = c\<lparr>tx_mem := t, rx_mem := r\<rparr> # cs \<and> s' = s2" using Cons.prems(1) 1 2 True by simp
      then show ?thesis using v1 v2 t2 n False by (auto simp: chan_objs_def)
    next
      case ok: True
      obtain ds where ds: "init_ring_list E D n m cs s2 = (ret, ds, s')" "cs' = c\<lparr>tx_mem := t, rx_mem := r\<rparr> # ds"
        using Cons.prems(1) 1 2 True ok by (auto split: prod.splits)
      note ih = Cons.IH [OF ds(1) n(3)]
      have o: "objs_of cs' = opt_objs t + opt_objs r + objs_of ds" by (simp add: ds(2) chan_objs_def)
      have "takes (objs_of cs') s s'" unfolding o using takes_trans [OF t2 ih [THEN conjunct1]] .
      moreover have "map (\<lambda>c. (tx_mem c = None, rx_mem c = None)) cs' = map (\<lambda>c. (tx_mem c = None, rx_mem c = None)) (c # cs)"
        using v1 v2 ih by (simp add: ds(2))
      ultimately show ?thesis using ih by blast
    qed
  qed
qed simp

section \<open>Channels\<close>

text \<open>The blocks of the channels and of the arrays of rings.\<close>

definition block_obj :: "block \<Rightarrow> nat multiset" where
  "block_obj b = (case b of Mem i \<Rightarrow> {#i#} | _ \<Rightarrow> {#})"

definition pdata_objs :: "chan_pdata \<Rightarrow> nat multiset" where
  "pdata_objs p = (if channel_head p = Null then {#} else block_obj (channel_head p) + block_obj (tx_block p) + block_obj (rx_block p) + objs_of (channels p))"

text \<open>The channels as \<open>mac_alloc_channels\<close> leaves them, with rings in any state.\<close>

definition chans_ok :: "chan_pdata \<Rightarrow> bool" where
  "chans_ok p \<longleftrightarrow> (\<exists>i. channel_head p = Mem i) \<and> channels p \<noteq> [] \<and> tx_mem (channels p ! 0) \<noteq> None \<and> rx_mem (channels p ! 0) \<noteq> None"

lemma kcalloc_view:
  assumes "kcalloc E n s = (b, s')"
  shows "takes (block_obj b) s s' \<and> (b = Zero_size \<longleftrightarrow> n = 0) \<and> ((\<forall>h. alloc_ok E h) \<longrightarrow> b \<noteq> Null)"
  using assms by (auto simp: kcalloc_def kalloc_def block_obj_def takes_def split: if_splits)

lemma kfree_block: "kfree_at b 0 s = Some s' \<longleftrightarrow> s' = (case b of Mem i \<Rightarrow> kfree (Some i) s | _ \<Rightarrow> s)"
  by (auto simp: kfree_at_def)

lemma kfree_block_view: "kfree_at b 0 s = Some s' \<Longrightarrow> gives_back (block_obj b) s s'"
  using gives_kfree by (auto simp: kfree_at_def block_obj_def gives_back_def split: block.splits)

lemma free_rings_view:
  assumes "mac_free_rings (p, s) = (p', s')"
  shows "gives_back (if channel_head p = Null then {#} else objs_of (channels p)) s s' \<and>
    (channel_head p \<noteq> Null \<longrightarrow> objs_of (channels p') = {#}) \<and> p' = p\<lparr>channels := channels p'\<rparr> \<and>
    map (\<lambda>c. (tx_mem c = None, rx_mem c = None)) (channels p') = map (\<lambda>c. (tx_mem c = None, rx_mem c = None)) (channels p)"
  using assms free_ring_list_view by (auto simp: mac_free_rings_def split: if_splits prod.splits)

lemma shape_ok:
  assumes "map (\<lambda>c. (tx_mem c = None, rx_mem c = None)) cs = map (\<lambda>c. (tx_mem c = None, rx_mem c = None)) (channels p)" "chans_ok p"
  shows "chans_ok (p\<lparr>channels := cs\<rparr>)"
  using assms by (cases cs; cases "channels p") (auto simp: chans_ok_def)

lemma free_all_view:
  assumes "chans_ok p"
  obtains p' s' where "mac_free_channels_and_rings (p, s) = Some (p', s')" "gives_back (pdata_objs p) s s'"
    "channel_head p' = Null" "channel_count p' = 0" "p' = p\<lparr>channel_head := Null, channels := [], channel_count := 0\<rparr>"
proof -
  obtain p1 s1 where 1: "mac_free_rings (p, s) = (p1, s1)" by fastforce
  note v = free_rings_view [OF 1]
  have p1: "p1 = p\<lparr>channels := channels p1\<rparr>" using v by blast
  have ok: "chans_ok p1" using shape_ok [OF _ assms, of "channels p1"] v by metis
  obtain i where i: "channel_head p1 = Mem i" using ok by (auto simp: chans_ok_def)
  have h: "tx_block p1 = tx_block p" "rx_block p1 = rx_block p" "channel_head p1 = channel_head p" by (subst p1, simp)+
  then have h: "channel_head p = Mem i" "tx_block p1 = tx_block p" "rx_block p1 = rx_block p" using i by simp_all
  obtain c cs tm rm where c: "channels p1 = c # cs" "tx_mem c = Some tm" "rx_mem c = Some rm" using ok by (cases "channels p1") (auto simp: chans_ok_def)
  obtain s2 where 2: "kfree_at (tx_block p) 0 s1 = Some s2" by (simp add: kfree_at_def)
  obtain s3 where 3: "kfree_at (rx_block p) 0 s2 = Some s3" by (simp add: kfree_at_def)
  let ?p = "p1\<lparr>channel_head := Null, channels := [], channel_count := 0\<rparr>" and ?s = "kfree (Some i) s3"
  have f: "mac_free_channels_and_rings (p, s) = Some (?p, ?s)"
    using 1 2 3 i c h by (simp add: mac_free_channels_and_rings_def mac_free_channels_def)
  have e: "?p = p\<lparr>channel_head := Null, channels := [], channel_count := 0\<rparr>" by (subst p1) simp
  show ?thesis
  proof (rule that [OF f])
    have "gives_back (objs_of (channels p)) s s1" using v h by simp
    from gives_back_trans [OF gives_back_trans [OF gives_back_trans [OF this kfree_block_view [OF 2]] kfree_block_view [OF 3]]
        gives_kfree [of "Some i" s3]]
    show "gives_back (pdata_objs p) s ?s" using h by (simp add: pdata_objs_def block_obj_def ac_simps)
    show "?p = p\<lparr>channel_head := Null, channels := [], channel_count := 0\<rparr>" by (rule e)
  qed simp_all
qed

text \<open>Every channel has an interrupt, where each needs its own.\<close>

definition irqs_ok :: "chan_pdata \<Rightarrow> bool" where
  "irqs_ok p \<longleftrightarrow> (per_channel_irq p \<longrightarrow> (\<forall>i. 0 \<le> channel_irq p i))"

lemma channel_loop_view:
  "irqs_ok p \<Longrightarrow> channel_loop p n i = (ret, k, cs) \<Longrightarrow>
     ret = 0 \<and> k = i + n \<and> length cs = n \<and> objs_of cs = {#} \<and>
     (\<forall>j < n. (tx_mem (cs ! j) = None \<longleftrightarrow> tx_ring_count p \<le> i + j) \<and> (rx_mem (cs ! j) = None \<longleftrightarrow> rx_ring_count p \<le> i + j))"
proof (induction n arbitrary: i ret k cs)
  case (Suc n)
  let ?c = "new_channel p i (if per_channel_irq p then channel_irq p i else 0)"
  have "\<not> (per_channel_irq p \<and> channel_irq p i < 0)" using Suc.prems(1) by (auto simp: irqs_ok_def not_less)
  then obtain ds where ds: "channel_loop p n (i + 1) = (ret, k, ds)" "cs = ?c # ds"
    using Suc.prems(2) by (auto simp del: de_Morgan_conj split: prod.splits)
  have "chan_objs ?c = {#}" by (simp add: chan_objs_def opt_objs_def new_channel_def no_ring_def ring_objs_def)
  then show ?case using Suc.IH [OF Suc.prems(1) ds(1)] ds(2) by (auto simp: nth_Cons new_channel_def split: nat.splits)
qed auto

lemma alloc_channels_view:
  assumes "channel_head p = Null" "irqs_ok p" "0 < tx_ring_count p" "0 < rx_ring_count p" "0 < channel_count p" "objs_below s"
  obtains ret p' s' where "mac_alloc_channels E (p, s) = Some (ret, p', s')"
    "ret \<noteq> 0 \<Longrightarrow> p' = p \<and> live_objs (trace s') = live_objs (trace s) \<and> (frees_ok (trace s) \<longrightarrow> frees_ok (trace s'))"
    "ret = 0 \<Longrightarrow> chans_ok p' \<and> objs_of (channels p') = {#} \<and> takes (pdata_objs p') s s' \<and>
       p' = p\<lparr>channel_head := channel_head p', channels := channels p', tx_block := tx_block p', rx_block := rx_block p'\<rparr>"
    "\<forall>h. alloc_ok E h \<Longrightarrow> ret = 0"
proof -
  obtain h s1 where 1: "kcalloc E (channel_count p) s = (h, s1)" by fastforce
  obtain tb s2 where 2: "kcalloc E (tx_ring_count p) s1 = (tb, s2)" by fastforce
  obtain rb s3 where 3: "kcalloc E (rx_ring_count p) s2 = (rb, s3)" by fastforce
  note v1 = kcalloc_view [OF 1] and v2 = kcalloc_view [OF 2] and v3 = kcalloc_view [OF 3]
  have z: "h \<noteq> Zero_size" "tb \<noteq> Zero_size" "rb \<noteq> Zero_size" using v1 v2 v3 assms(3-5) by auto
  note t2 = takes_trans [OF conjunct1 [OF v1] conjunct1 [OF v2]]
  note t3 = takes_trans [OF t2 conjunct1 [OF v3]]
  obtain ret k cs where l: "channel_loop p (channel_count p) 0 = (ret, k, cs)" by (metis prod_cases3)
  note lv = channel_loop_view [OF assms(2) l]
  consider "h = Null" | i where "h = Mem i" "tb = Null" | i j where "h = Mem i" "tb = Mem j" "rb = Null"
    | i j n where "h = Mem i" "tb = Mem j" "rb = Mem n"
    using z by (cases h; cases tb; cases rb) auto
  then show ?thesis
  proof cases
    case h: 1
    then have r: "mac_alloc_channels E (p, s) = Some (- ENOMEM, p, s1)" using 1 by (simp add: mac_alloc_channels_def)
    have "takes {#} s s1" using v1 h by (simp add: block_obj_def)
    then show ?thesis by (intro that [OF r]) (use v1 h in \<open>auto simp: takes_def\<close>)
  next
    case h: 2
    then have r: "mac_alloc_channels E (p, s) = Some (- ENOMEM, p, kfree (Some i) s2)" using 1 2
      by (simp add: mac_alloc_channels_def kfree_at_def)
    have t: "takes {#i#} s s2" using t2 h by (simp add: block_obj_def)
    have g: "gives_back {#i#} s2 (kfree (Some i) s2)" using gives_kfree [of "Some i" s2] by simp
    show ?thesis by (rule that [OF r]) (use v1 v2 h take_give [OF assms(6) t g] in auto)
  next
    case h: 3
    let ?s = "kfree (Some i) (kfree (Some j) s3)"
    have r: "mac_alloc_channels E (p, s) = Some (- ENOMEM, p, ?s)" using 1 2 3 h by (simp add: mac_alloc_channels_def kfree_at_def)
    have t: "takes ({#j#} + {#i#}) s s3" using t3 h by (simp add: block_obj_def add_mset_commute)
    have g: "gives_back ({#j#} + {#i#}) s3 ?s"
      using gives_back_trans [OF gives_kfree [of "Some j" s3] gives_kfree [of "Some i"]] by simp
    show ?thesis by (rule that [OF r]) (use v1 v2 v3 h take_give [OF assms(6) t g] in auto)
  next
    case h: 4
    let ?p = "p\<lparr>channel_head := h, channels := cs, tx_block := tb, rx_block := rb\<rparr>"
    have r: "mac_alloc_channels E (p, s) = Some (0, ?p, s3)" using 1 2 3 h l lv by (simp add: mac_alloc_channels_def)
    have o: "pdata_objs ?p = block_obj h + block_obj tb + block_obj rb" using h lv by (simp add: pdata_objs_def)
    have c: "chans_ok ?p" using h lv assms(3-5) by (auto simp: chans_ok_def)
    show ?thesis by (rule that [OF r]) (use t3 o c lv in auto)
  qed
qed

lemma alloc_all_view:
  assumes "channel_head p = Null" "irqs_ok p" "0 < tx_ring_count p" "0 < rx_ring_count p" "0 < channel_count p" "objs_below s"
  obtains ret p' s' where "mac_alloc_channels_and_rings E D (p, s) = Some (ret, p', s')"
    "ret \<noteq> 0 \<Longrightarrow> channel_head p' = Null \<and> live_objs (trace s') = live_objs (trace s) \<and> (frees_ok (trace s) \<longrightarrow> frees_ok (trace s'))"
    "ret = 0 \<Longrightarrow> chans_ok p' \<and> takes (pdata_objs p') s s' \<and>
       tx_ring_count p' = tx_ring_count p \<and> rx_ring_count p' = rx_ring_count p"
    "\<forall>h. alloc_ok E h \<Longrightarrow> ret = 0"
proof -
  obtain ret p1 s1 where 1: "mac_alloc_channels E (p, s) = Some (ret, p1, s1)"
    "ret \<noteq> 0 \<Longrightarrow> p1 = p \<and> live_objs (trace s1) = live_objs (trace s) \<and> (frees_ok (trace s) \<longrightarrow> frees_ok (trace s1))"
    "ret = 0 \<Longrightarrow> chans_ok p1 \<and> objs_of (channels p1) = {#} \<and> takes (pdata_objs p1) s s1 \<and>
       p1 = p\<lparr>channel_head := channel_head p1, channels := channels p1, tx_block := tx_block p1, rx_block := rx_block p1\<rparr>"
    "\<forall>h. alloc_ok E h \<Longrightarrow> ret = 0"
    using alloc_channels_view [OF assms, of E] by blast
  show ?thesis
  proof (cases "ret = 0")
    case False
    then have "mac_alloc_channels_and_rings E D (p, s) = Some (ret, p1, s1)"
      using 1(1,2) assms(1) by (simp add: mac_alloc_channels_and_rings_def mac_free_channels_and_rings_def mac_free_rings_def mac_free_channels_def)
    then show ?thesis by (rule that) (use 1(2,4) False assms(1) in auto)
  next
    case True
    note v1 = 1(3) [OF True]
    have cnt: "tx_ring_count p1 = tx_ring_count p" "rx_ring_count p1 = rx_ring_count p"
      using v1 by (metis chan_pdata.select_convs(6,7) chan_pdata.surjective chan_pdata.update_convs(1-4))+
    obtain ret2 cs s2 where 2: "init_ring_list E D (tx_desc_count p1) (rx_desc_count p1) (channels p1) s1 = (ret2, cs, s2)"
      by (metis prod_cases3)
    note v2 = init_ring_list_view [OF 2 v1 [THEN conjunct2, THEN conjunct1]]
    let ?p = "p1\<lparr>channels := cs\<rparr>"
    have ok: "chans_ok ?p" using shape_ok [of cs p1] v1 v2 by blast
    then have nn: "channel_head p1 \<noteq> Null" by (auto simp: chans_ok_def)
    have o: "pdata_objs ?p = pdata_objs p1 + objs_of cs" using v1 nn by (simp add: pdata_objs_def)
    have t: "takes (pdata_objs ?p) s s2" unfolding o by (rule takes_trans [of _ s s1]) (use v1 v2 in blast)+
    show ?thesis
    proof (cases "ret2 = 0")
      case t2: True
      have "mac_alloc_channels_and_rings E D (p, s) = Some (0, ?p, s2)"
        using 1(1) True 2 t2 by (simp add: mac_alloc_channels_and_rings_def mac_alloc_rings_def Let_def)
      then show ?thesis by (rule that) (use ok t cnt in auto)
    next
      case f2: False
      obtain p3 s3 where 3: "mac_free_rings (?p, s2) = (p3, s3)" by fastforce
      note v3 = free_rings_view [OF 3]
      have p3: "p3 = ?p\<lparr>channels := channels p3\<rparr>" using v3 by blast
      have ok3: "chans_ok p3" using shape_ok [OF _ ok, of "channels p3"] v3 by (metis chan_pdata.select_convs(2) chan_pdata.surjective chan_pdata.update_convs(2))
      obtain p4 s4 where 4: "mac_free_channels_and_rings (p3, s3) = Some (p4, s4)" "gives_back (pdata_objs p3) s3 s4"
        "channel_head p4 = Null" using free_all_view [OF ok3, of s3] by metis
      have e: "mac_alloc_channels_and_rings E D (p, s) = Some (ret2, p4, s4)"
        using 1(1) True 2 f2 3 4(1) by (simp add: mac_alloc_channels_and_rings_def mac_alloc_rings_def Let_def)
      have h3: "channel_head p3 = channel_head p1" "tx_block p3 = tx_block p1" "rx_block p3 = rx_block p1" by (subst p3, simp)+
      have "objs_of (channels p3) = {#}" "objs_of (channels p1) = {#}" using v3 nn v1 by simp_all
      then have "pdata_objs p3 = pdata_objs p1" using h3 by (simp add: pdata_objs_def)
      moreover have "gives_back (objs_of cs) s2 s3" using v3 nn by simp
      ultimately have g: "gives_back (pdata_objs ?p) s2 s4" using gives_back_trans [OF _ 4(2)] unfolding o by (metis add.commute)
      show ?thesis by (rule that [OF e]) (use take_give [OF assms(6) t g] 4(3) f2 v2 in auto)
    qed
  qed
qed

section \<open>Taking a receive ring down\<close>

lemma unmap_at_rx:
  assumes "rx_ok p r s" "unmap_at i (r, s) = (r', s')"
  shows "rx_ok p r' s' \<and> rx_hdr_pa r' = rx_hdr_pa r \<and> rx_buf_pa r' = rx_buf_pa r \<and> dma_desc_count r' = dma_desc_count r \<and>
    rx (get_data r' i) = no_rx \<and> (\<forall>k < ring_size r. rx (datas r ! k) = no_rx \<longrightarrow> rx (datas r' ! k) = no_rx)"
proof -
  obtain d where d: "mac_unmap_desc_data (get_data r i, s) = (d, s')" "r' = set_data i d r"
    using assms(2) by (auto simp: unmap_at_def split: prod.splits)
  have l: "rx_lens r" using assms(1) by (simp add: rx_ok_def)
  note u = rx_unmap [OF assms(1) d(1)]
  have "rx (datas r' ! k) = no_rx" if "k < ring_size r" "rx (datas r ! k) = no_rx" for k
    using that u l lens_ridx [OF l, of i] by (auto simp: d(2) set_data_def nth_list_update rx_lens_def)
  moreover have "ridx r i < length (datas r)" using lens_ridx [OF l, of i] l by (simp add: rx_lens_def)
  ultimately show ?thesis using u by (simp add: d(2) get_data_def ridx_def) (simp add: set_data_def ridx_def)
qed

lemma unmap_all_rx:
  assumes "rx_ok p r s" "unmap_all (r, s) = (r', s')"
  shows "rx_books (pages_of (rx_hdr_pa r) + pages_of (rx_buf_pa r)) (maps_of (rx_hdr_pa r) + maps_of (rx_buf_pa r)) (trace s') \<and>
    rx_hdr_pa r' = rx_hdr_pa r \<and> rx_buf_pa r' = rx_buf_pa r"
proof -
  have l: "rx_lens r" using assms(1) by (simp add: rx_ok_def)
  have f: "fold (\<lambda>i. unmap_at (word_of_nat i)) xs (q, u) = (r', s') \<Longrightarrow> rx_ok p q u \<Longrightarrow> \<forall>i \<in> set xs. i < ring_size q \<Longrightarrow>
      rx_ok p r' s' \<and> rx_hdr_pa r' = rx_hdr_pa q \<and> rx_buf_pa r' = rx_buf_pa q \<and>
      (\<forall>k < ring_size q. k \<in> set xs \<or> rx (datas q ! k) = no_rx \<longrightarrow> rx (datas r' ! k) = no_rx) \<and> ring_size r' = ring_size q" for xs q u
  proof (induction xs arbitrary: q u)
    case (Cons i xs)
    obtain q1 u1 where 1: "unmap_at (word_of_nat i) (q, u) = (q1, u1)" by fastforce
    note v = unmap_at_rx [OF Cons.prems(2) 1]
    have "rx_lens q1" "i < ring_size q1" using v Cons.prems(3) by (simp_all add: rx_ok_def ring_size_def)
    then have i: "rx (datas q1 ! i) = no_rx" using v lens_index by (metis get_data_def)
    have "fold (\<lambda>i. unmap_at (word_of_nat i)) xs (q1, u1) = (r', s')" using Cons.prems(1) 1 by simp
    from Cons.IH [OF this] show ?case using v Cons.prems(3) i by (auto simp: ring_size_def)
  qed simp
  have g: "rx_ok p r' s' \<and> rx_hdr_pa r' = rx_hdr_pa r \<and> rx_buf_pa r' = rx_buf_pa r \<and>
      (\<forall>k < ring_size r. rx (datas r' ! k) = no_rx) \<and> ring_size r' = ring_size r"
    using f [of "[0..<ring_size r]" r s] assms by (auto simp: unmap_all_def ring_size_def)
  then have "\<And>e. e \<in> set (datas r') \<Longrightarrow> rx e = no_rx" by (auto simp: rx_ok_def rx_lens_def in_set_conv_nth)
  then have "(\<Sum>e\<leftarrow>datas r'. rx_pages (rx e)) = {#}" "(\<Sum>e\<leftarrow>datas r'. rx_maps (rx e)) = {#}" by (simp_all cong: map_cong)
  then show ?thesis using g by (auto simp: rx_ok_def ring_pages_def ring_maps_def)
qed

lemma free_page_alloc_books:
  assumes "free_page_alloc (p, s) = (p', s')" "rx_books (P + pages_of p) (M + maps_of p) (trace s)"
  shows "rx_books P M (trace s')"
proof (cases "pages p = None")
  case True
  then show ?thesis using assms by (simp add: free_page_alloc_def pages_of_def maps_of_def)
next
  case False
  then show ?thesis using assms unmap_pages_books [OF assms(2)] by (simp add: free_page_alloc_def)
qed

section \<open>The properties\<close>

definition const_mem :: "event list \<Rightarrow> nat \<Rightarrow> mac_dma_desc" where
  "const_mem h j = no_desc"

text \<open>A driver set up for \<open>n\<close> channels of each kind, with rings of 4096 entries, its channels not allocated.\<close>

definition closed_pdata :: "nat \<Rightarrow> chan_pdata" where
  "closed_pdata n = \<lparr>channel_head = Null, channels = [], tx_block = Null, rx_block = Null, channel_count = n, tx_ring_count = n,
     rx_ring_count = n, tx_desc_count = 4096, rx_desc_count = 4096, per_channel_irq = False, channel_irq = (\<lambda>_. 0), regs_base = 0\<rparr>"

lemma empty_below: "objs_below empty_kern"
  by (simp add: objs_below_def empty_kern_def)

text \<open>
  C19. Allocating the channels and rings and releasing them balance, whichever allocations fail, for
  positive numbers of channels and rings and with an interrupt for every channel that needs its own: the
  allocation is always defined; when it fails, all it had taken has been given back; when it succeeds,
  what it took is new and held once, and the release is defined and gives all of it back. Neither the
  failing allocation nor the release frees an object that is not live: nothing is freed twice.
\<close>
lemma channels_alloc_free:
  assumes "channel_head p = Null" "irqs_ok p" "0 < tx_ring_count p" "0 < rx_ring_count p" "0 < channel_count p" "objs_below s"
    "frees_ok (trace s)"
  shows "\<exists>ret p' s'. mac_alloc_channels_and_rings E D (p, s) = Some (ret, p', s') \<and> frees_ok (trace s') \<and>
    (ret \<noteq> 0 \<longrightarrow> channel_head p' = Null \<and> live_objs (trace s') = live_objs (trace s)) \<and>
    (ret = 0 \<longrightarrow> live_objs (trace s') = live_objs (trace s) \<union> set_mset (pdata_objs p') \<and>
      set_mset (pdata_objs p') \<inter> live_objs (trace s) = {} \<and> held_once (pdata_objs p') \<and>
      (\<exists>p'' s''. mac_free_channels_and_rings (p', s') = Some (p'', s'') \<and> channel_head p'' = Null \<and>
         live_objs (trace s'') = live_objs (trace s) \<and> frees_ok (trace s'')))"
proof -
  obtain ret p' s' where a: "mac_alloc_channels_and_rings E D (p, s) = Some (ret, p', s')"
    "ret \<noteq> 0 \<Longrightarrow> channel_head p' = Null \<and> live_objs (trace s') = live_objs (trace s) \<and> (frees_ok (trace s) \<longrightarrow> frees_ok (trace s'))"
    "ret = 0 \<Longrightarrow> chans_ok p' \<and> takes (pdata_objs p') s s'"
    using alloc_all_view [OF assms(1-6), of E D] by metis
  show ?thesis
  proof (cases "ret = 0")
    case True
    note v = a(3) [OF True]
    obtain p'' s'' where f: "mac_free_channels_and_rings (p', s') = Some (p'', s'')" "gives_back (pdata_objs p') s' s''"
      "channel_head p'' = Null" using free_all_view [of p' s'] v by metis
    note tg = take_give [OF assms(6) conjunct2 [OF v] f(2)]
    have "set_mset (pdata_objs p') \<inter> live_objs (trace s) = {}"
      using v assms(6) by (auto simp: takes_def objs_below_def disjoint_iff leD)
    then show ?thesis using a(1) v f tg True assms(7) by (auto simp: takes_def)
  next
    case False
    then show ?thesis using a assms(7) by blast
  qed
qed

lemma channels_alloc_free_witness:
  "\<exists>ret p' s'. mac_alloc_channels_and_rings up_env const_mem (closed_pdata 4, empty_kern) = Some (ret, p', s') \<and>
    (ret = 0 \<longrightarrow> (\<exists>p'' s''. mac_free_channels_and_rings (p', s') = Some (p'', s'') \<and> live_objs (trace s'') = {} \<and> frees_ok (trace s'')))"
proof -
  have h: "channel_head (closed_pdata 4) = Null" "irqs_ok (closed_pdata 4)" "0 < tx_ring_count (closed_pdata 4)"
    "0 < rx_ring_count (closed_pdata 4)" "0 < channel_count (closed_pdata 4)"
    by (simp_all add: closed_pdata_def irqs_ok_def)
  have e: "live_objs (trace empty_kern) = {}" "frees_ok (trace empty_kern)" by (simp_all add: empty_kern_def)
  show ?thesis using channels_alloc_free [OF h empty_below e(2), of up_env const_mem] unfolding e(1) by blast
qed

text \<open>
  A card that has been closed does not come back: releasing the channels sets their number to 0, and
  nothing sets it again. So the next allocation succeeds without any channel, whatever memory there is,
  and the release after it dereferences the pointer \<open>kcalloc\<close> returns for no elements.
\<close>
lemma reopened_without_channels:
  assumes "channel_head p = Null" "irqs_ok p" "0 < tx_ring_count p" "0 < rx_ring_count p" "0 < channel_count p" "objs_below s"
    "mac_alloc_channels_and_rings E D (p, s) = Some (0, p1, s1)" "mac_free_channels_and_rings (p1, s1) = Some (p2, s2)" "\<forall>h. alloc_ok E h"
  shows "\<exists>p3 s3. mac_alloc_channels_and_rings E D (p2, s2) = Some (0, p3, s3) \<and> channels p3 = [] \<and>
    mac_free_channels_and_rings (p3, s3) = None"
proof -
  obtain ret p' s' where a: "mac_alloc_channels_and_rings E D (p, s) = Some (ret, p', s')"
    "ret = 0 \<Longrightarrow> chans_ok p' \<and> tx_ring_count p' = tx_ring_count p \<and> rx_ring_count p' = rx_ring_count p"
    using alloc_all_view [OF assms(1-6), of E D] by metis
  then have v: "chans_ok p1" "tx_ring_count p1 = tx_ring_count p" "rx_ring_count p1 = rx_ring_count p" using assms(7) by simp_all
  obtain q u where f: "mac_free_channels_and_rings (p1, s1) = Some (q, u)"
    "q = p1\<lparr>channel_head := Null, channels := [], channel_count := 0\<rparr>" using free_all_view [OF v(1), of s1] by metis
  have p2: "channel_head p2 = Null" "channel_count p2 = 0" "tx_ring_count p2 \<noteq> 0" "rx_ring_count p2 \<noteq> 0"
    using f assms(3,4,8) v by simp_all
  have k: "\<exists>i z. kcalloc E n w = (Mem i, z)" if "n \<noteq> 0" for n w using that assms(9) by (simp add: kcalloc_def kalloc_def)
  obtain i z1 where 1: "kcalloc E (tx_ring_count p2) s2 = (Mem i, z1)" using k [OF p2(3)] by blast
  obtain j z2 where 2: "kcalloc E (rx_ring_count p2) z1 = (Mem j, z2)" using k [OF p2(4)] by blast
  let ?p = "p2\<lparr>channel_head := Zero_size, channels := [], tx_block := Mem i, rx_block := Mem j\<rparr>"
  have "mac_alloc_channels E (p2, s2) = Some (0, ?p, z2)"
    using 1 2 p2(2) by (simp add: mac_alloc_channels_def kcalloc_def [of E 0])
  then have "mac_alloc_channels_and_rings E D (p2, s2) = Some (0, ?p, z2)"
    by (simp add: mac_alloc_channels_and_rings_def mac_alloc_rings_def Let_def)
  moreover have "mac_free_channels_and_rings (?p, z2) = None"
    by (simp add: mac_free_channels_and_rings_def mac_free_rings_def mac_free_channels_def)
  ultimately show ?thesis by (intro exI [of _ ?p] exI [of _ z2]) simp
qed

lemma reopened_without_channels_witness:
  "\<exists>p1 s1 p2 s2 p3 s3. mac_alloc_channels_and_rings up_env const_mem (closed_pdata 4, empty_kern) = Some (0, p1, s1) \<and>
    mac_free_channels_and_rings (p1, s1) = Some (p2, s2) \<and> mac_alloc_channels_and_rings up_env const_mem (p2, s2) = Some (0, p3, s3) \<and>
    channels p3 = [] \<and> mac_free_channels_and_rings (p3, s3) = None"
proof -
  have h: "channel_head (closed_pdata 4) = Null" "irqs_ok (closed_pdata 4)" "0 < tx_ring_count (closed_pdata 4)"
    "0 < rx_ring_count (closed_pdata 4)" "0 < channel_count (closed_pdata 4)"
    by (simp_all add: closed_pdata_def irqs_ok_def)
  have up: "\<forall>h. alloc_ok up_env h" by (simp add: up_env_def)
  obtain p1 s1 where a: "mac_alloc_channels_and_rings up_env const_mem (closed_pdata 4, empty_kern) = Some (0, p1, s1)" "chans_ok p1"
    using alloc_all_view [OF h empty_below, of up_env const_mem] up by metis
  obtain p2 s2 where f: "mac_free_channels_and_rings (p1, s1) = Some (p2, s2)" using free_all_view [OF a(2), of s1] by metis
  show ?thesis using a(1) f reopened_without_channels [OF h empty_below a(1) f up] by blast
qed

text \<open>
  C20. Taking a receive ring down returns everything: after any run of the ring, whatever allocations
  failed, \<open>mac_free_ring\<close> leaves no reference to a page but those passed to socket buffers, and no page mapped.
\<close>
lemma rx_teardown_returns_all:
  assumes "rx_run E p c (t0, s0) (t, s)" "rx_fresh (rx_ring t0)" "rx_size_ok p" "rx_books {#} {#} (trace s0)"
    "ring_of m = rx_ring t" "data_head m \<noteq> None" "mac_free_ring (m, s) = (m', s')"
  shows "got_in (trace s') = gone_in (trace s') \<and> dma_in (trace s') = unmapped_in (trace s')"
proof -
  have ok: "rx_ok p (rx_ring t) s" using rx_run_keeps [OF assms(1-4)] by (simp add: rx_good_def)
  obtain r1 s1 where 1: "unmap_all (rx_ring t, s) = (r1, s1)" by fastforce
  note v = unmap_all_rx [OF ok 1]
  obtain j where j: "data_head m = Some j" using assms(6) by blast
  let ?s1 = "kfree (Some j) s1"
  obtain h s2 where 2: "free_page_alloc (rx_hdr_pa (rx_ring t), ?s1) = (h, s2)" by fastforce
  obtain b s3 where 3: "free_page_alloc (rx_buf_pa (rx_ring t), s2) = (b, s3)" by fastforce
  have "rx_books ({#} + pages_of (rx_buf_pa (rx_ring t)) + pages_of (rx_hdr_pa (rx_ring t)))
      ({#} + maps_of (rx_buf_pa (rx_ring t)) + maps_of (rx_hdr_pa (rx_ring t))) (trace ?s1)"
    using v by (simp add: ac_simps)
  from free_page_alloc_books [OF 2 this] have "rx_books {#} {#} (trace s3)" using free_page_alloc_books [OF 3] by simp
  moreover have "s' = s3 \<or> (\<exists>i. s' = dma_free i s3)"
    using assms(5,7) 1 2 3 j v by (auto simp: mac_free_ring_def Let_def split: option.splits)
  ultimately have "rx_books {#} {#} (trace s')" by auto
  then show ?thesis by (simp add: rx_books_def)
qed

lemma rx_teardown_returns_all_witness:
  "\<exists>(t :: rx_chan) (s :: kern) (m' :: ring_mem) (s' :: kern).
     mac_rx_desc_init up_env pdata0 chan0 (rx_chan_of (zero_ring 12), empty_kern) = Some (t, s) \<and>
     mac_free_ring (no_ring\<lparr>ring_of := rx_ring t, data_head := Some 7\<rparr>, s) = (m', s') \<and> dma_in (trace s') = unmapped_in (trace s')"
proof -
  have f: "rx_fresh (rx_ring (rx_chan_of (zero_ring 12)))" by (simp add: rx_chan_of_def zero_fresh)
  have up: "\<forall>h. alloc_ok up_env h" by (simp add: up_env_def)
  obtain t s where i: "mac_rx_desc_init up_env pdata0 chan0 (rx_chan_of (zero_ring 12), empty_kern) = Some (t, s)"
    using init_some [OF f pdata0_size empty_books up, of chan0] by (metis surj_pair)
  let ?m = "no_ring\<lparr>ring_of := rx_ring t, data_head := Some 7\<rparr>"
  obtain m' s' where m: "mac_free_ring (?m, s) = (m', s')" by fastforce
  have "ring_of ?m = rx_ring t" "data_head ?m \<noteq> None" by simp_all
  then show ?thesis using i m rx_teardown_returns_all [OF rx_run.start [OF i] f pdata0_size empty_books _ _ m] by blast
qed

end
