(* ===== verification/Pcs.thy ===== *)
theory Pcs
  imports Mac_cfg
begin

text \<open>
  The registers of the physical coding sublayer of the two ports: the parts of bx_pcs.c that
  only access registers. The functions that also keep state in \<open>struct rnic_pdata\<close> are in Link.
  \<open>RNIC_PRINTK\<close> is empty in the build. The waits of bx_pcs.c have no time-out: None is a wait that does not end.
\<close>

section \<open>Register map\<close>

text \<open>
  Offsets of bx_pcs.h, and its fields applied to a value: high bit, low bit, value. A macro like
  \<open>RST\<close> stands for the two bounds.
\<close>

abbreviation (input) SR_PMA_KR_PMD_CTRL :: u32 where "SR_PMA_KR_PMD_CTRL \<equiv> 0x10096"
abbreviation (input) SR_PMA_KR_PMD_STS :: u32 where "SR_PMA_KR_PMD_STS \<equiv> 0x10097"
abbreviation (input) SR_PMA_KR_FEC_CTRL :: u32 where "SR_PMA_KR_FEC_CTRL \<equiv> 0x100ab"
abbreviation (input) SR_PMA_RS_FEC_CTRL :: u32 where "SR_PMA_RS_FEC_CTRL \<equiv> 0x100c8"
abbreviation (input) VR_PMA_SNPS_MP_25G_16G_TX_GENCTRL0 :: u32 where "VR_PMA_SNPS_MP_25G_16G_TX_GENCTRL0 \<equiv> 0x18030"
abbreviation (input) VR_PMA_SNPS_MP_25G_16G_TX_EQ_CTRL0_LN0 :: u32 where "VR_PMA_SNPS_MP_25G_16G_TX_EQ_CTRL0_LN0 \<equiv> 0x18036"
abbreviation (input) VR_PMA_SNPS_MP_25G_16G_TX_EQ_CTRL1_LN0 :: u32 where "VR_PMA_SNPS_MP_25G_16G_TX_EQ_CTRL1_LN0 \<equiv> 0x18037"
abbreviation (input) VR_PMA_SNPS_MP_25G_16G_TX_EQ_CTRL0_LN1 :: u32 where "VR_PMA_SNPS_MP_25G_16G_TX_EQ_CTRL0_LN1 \<equiv> 0x18038"
abbreviation (input) VR_PMA_SNPS_MP_25G_16G_TX_EQ_CTRL1_LN1 :: u32 where "VR_PMA_SNPS_MP_25G_16G_TX_EQ_CTRL1_LN1 \<equiv> 0x18039"
abbreviation (input) VR_PMA_SNPS_MP_25G_16G_TX_EQ_CTRL0_LN2 :: u32 where "VR_PMA_SNPS_MP_25G_16G_TX_EQ_CTRL0_LN2 \<equiv> 0x1803a"
abbreviation (input) VR_PMA_SNPS_MP_25G_16G_TX_EQ_CTRL1_LN2 :: u32 where "VR_PMA_SNPS_MP_25G_16G_TX_EQ_CTRL1_LN2 \<equiv> 0x1803b"
abbreviation (input) VR_PMA_SNPS_MP_25G_16G_TX_EQ_CTRL0_LN3 :: u32 where "VR_PMA_SNPS_MP_25G_16G_TX_EQ_CTRL0_LN3 \<equiv> 0x1803c"
abbreviation (input) VR_PMA_SNPS_MP_25G_16G_TX_EQ_CTRL1_LN3 :: u32 where "VR_PMA_SNPS_MP_25G_16G_TX_EQ_CTRL1_LN3 \<equiv> 0x1803d"
abbreviation (input) VR_PMA_SNPS_MP_25G_TX_GEN_CTRL5 :: u32 where "VR_PMA_SNPS_MP_25G_TX_GEN_CTRL5 \<equiv> 0x18046"
abbreviation (input) VR_PMA_SNPS_MP_25G_TX_DCC_CTRL :: u32 where "VR_PMA_SNPS_MP_25G_TX_DCC_CTRL \<equiv> 0x18047"
abbreviation (input) VR_PMA_SNPS_MP_25G_16G_RX_GENCTRL1 :: u32 where "VR_PMA_SNPS_MP_25G_16G_RX_GENCTRL1 \<equiv> 0x18051"
abbreviation (input) VR_PMA_SNPS_MP_25G_RX_GENCTRL3 :: u32 where "VR_PMA_SNPS_MP_25G_RX_GENCTRL3 \<equiv> 0x18053"
abbreviation (input) VR_PMA_SNPS_MP_25G_RX_RATE_CTRL :: u32 where "VR_PMA_SNPS_MP_25G_RX_RATE_CTRL \<equiv> 0x18054"
abbreviation (input) VR_PMA_SNPS_MP_25G_RX_GENCTRL5 :: u32 where "VR_PMA_SNPS_MP_25G_RX_GENCTRL5 \<equiv> 0x18056"
abbreviation (input) VR_PMA_SNPS_MP_25G_16G_RX_EQ_CTRL0 :: u32 where "VR_PMA_SNPS_MP_25G_16G_RX_EQ_CTRL0 \<equiv> 0x18058"
abbreviation (input) VR_PMA_SNPS_MP_25G_16G_RX_EQ_CTRL1 :: u32 where "VR_PMA_SNPS_MP_25G_16G_RX_EQ_CTRL1 \<equiv> 0x18059"
abbreviation (input) VR_PMA_SNPS_MP_25G_16G_RX_EQ_CTRL2 :: u32 where "VR_PMA_SNPS_MP_25G_16G_RX_EQ_CTRL2 \<equiv> 0x1805a"
abbreviation (input) VR_PMA_SNPS_MP_25G_16G_RX_EQ_CTRL3 :: u32 where "VR_PMA_SNPS_MP_25G_16G_RX_EQ_CTRL3 \<equiv> 0x1805b"
abbreviation (input) VR_PMA_SNPS_MP_25G_RX_AFE_RATE_CTRL :: u32 where "VR_PMA_SNPS_MP_25G_RX_AFE_RATE_CTRL \<equiv> 0x1805d"
abbreviation (input) VR_PMA_SNPS_MP_25G_16G_DFE_TAP_CTRL0 :: u32 where "VR_PMA_SNPS_MP_25G_16G_DFE_TAP_CTRL0 \<equiv> 0x1805e"
abbreviation (input) VR_PMA_SNPS_MP_25G_16G_DFE_TAP_CTRL1 :: u32 where "VR_PMA_SNPS_MP_25G_16G_DFE_TAP_CTRL1 \<equiv> 0x1805f"
abbreviation (input) VR_PMA_SNPS_MP_25G_16G_RX_PPM_CTRL0 :: u32 where "VR_PMA_SNPS_MP_25G_16G_RX_PPM_CTRL0 \<equiv> 0x18065"
abbreviation (input) VR_PMA_SNPS_MP_25G_16G_RX_PPM_CTRL1 :: u32 where "VR_PMA_SNPS_MP_25G_16G_RX_PPM_CTRL1 \<equiv> 0x18066"
abbreviation (input) VR_PMA_SNPS_MP_25G_16G_RX_IQ_CTRL0 :: u32 where "VR_PMA_SNPS_MP_25G_16G_RX_IQ_CTRL0 \<equiv> 0x1806a"
abbreviation (input) VR_PMA_SNPS_MP_25G_16G_RX_IQ_CTRL1 :: u32 where "VR_PMA_SNPS_MP_25G_16G_RX_IQ_CTRL1 \<equiv> 0x1806b"
abbreviation (input) VR_PMA_SNPS_MP_25G_16G_RX_IQ_CTRL2 :: u32 where "VR_PMA_SNPS_MP_25G_16G_RX_IQ_CTRL2 \<equiv> 0x1806c"
abbreviation (input) VR_PMA_SNPS_MP_25G_16G_RX_IQ_CTRL3 :: u32 where "VR_PMA_SNPS_MP_25G_16G_RX_IQ_CTRL3 \<equiv> 0x1806d"
abbreviation (input) VR_PMA_SNPS_MP_25G_16G_MPLL_CMN_CTRL :: u32 where "VR_PMA_SNPS_MP_25G_16G_MPLL_CMN_CTRL \<equiv> 0x18070"
abbreviation (input) VR_PMA_SNPS_MP_25G_MPLLA_CTRL0 :: u32 where "VR_PMA_SNPS_MP_25G_MPLLA_CTRL0 \<equiv> 0x18071"
abbreviation (input) VR_PMA_SNPS_MP_25G_MPLLA_CTRL2 :: u32 where "VR_PMA_SNPS_MP_25G_MPLLA_CTRL2 \<equiv> 0x18073"
abbreviation (input) VR_PMA_SNPS_MP_25G_MPLLB_CTRL0 :: u32 where "VR_PMA_SNPS_MP_25G_MPLLB_CTRL0 \<equiv> 0x18074"
abbreviation (input) VR_PMA_SNPS_MP_25G_MPLLB_CTRL2 :: u32 where "VR_PMA_SNPS_MP_25G_MPLLB_CTRL2 \<equiv> 0x18076"
abbreviation (input) VR_PMA_SNPS_MP_25G_MPLLA_CTRL3 :: u32 where "VR_PMA_SNPS_MP_25G_MPLLA_CTRL3 \<equiv> 0x18077"
abbreviation (input) VR_PMA_SNPS_MP_25G_MPLLB_CTRL3 :: u32 where "VR_PMA_SNPS_MP_25G_MPLLB_CTRL3 \<equiv> 0x18078"
abbreviation (input) VR_PMA_SNPS_MP_25G_MPLLA_CTRL4 :: u32 where "VR_PMA_SNPS_MP_25G_MPLLA_CTRL4 \<equiv> 0x18079"
abbreviation (input) VR_PMA_SNPS_MP_25G_MPLLB_CTRL4 :: u32 where "VR_PMA_SNPS_MP_25G_MPLLB_CTRL4 \<equiv> 0x1807a"
abbreviation (input) VR_PMA_SNPS_MP_25G_16G_MISC_CTRL0 :: u32 where "VR_PMA_SNPS_MP_25G_16G_MISC_CTRL0 \<equiv> 0x18090"
abbreviation (input) VR_PMA_SNPS_MP_25G_16G_REF_CLK_CTRL :: u32 where "VR_PMA_SNPS_MP_25G_16G_REF_CLK_CTRL \<equiv> 0x18091"
abbreviation (input) VR_PMA_SNPS_MP_25G_16G_VCO_CAL_LD0 :: u32 where "VR_PMA_SNPS_MP_25G_16G_VCO_CAL_LD0 \<equiv> 0x18092"
abbreviation (input) VR_PMA_SNPS_MP_25G_16G_VCO_CAL_LD1 :: u32 where "VR_PMA_SNPS_MP_25G_16G_VCO_CAL_LD1 \<equiv> 0x18093"
abbreviation (input) VR_PMA_SNPS_MP_25G_16G_VCO_CAL_LD2 :: u32 where "VR_PMA_SNPS_MP_25G_16G_VCO_CAL_LD2 \<equiv> 0x18094"
abbreviation (input) VR_PMA_SNPS_MP_25G_16G_VCO_CAL_LD3 :: u32 where "VR_PMA_SNPS_MP_25G_16G_VCO_CAL_LD3 \<equiv> 0x18095"
abbreviation (input) VR_PMA_SNPS_MP_25G_16G_VCO_CAL_REF0 :: u32 where "VR_PMA_SNPS_MP_25G_16G_VCO_CAL_REF0 \<equiv> 0x18096"
abbreviation (input) VR_PMA_SNPS_MP_25G_16G_VCO_CAL_REF1 :: u32 where "VR_PMA_SNPS_MP_25G_16G_VCO_CAL_REF1 \<equiv> 0x18097"
abbreviation (input) VR_PMA_SNPS_MP_25G_16G_SRAM :: u32 where "VR_PMA_SNPS_MP_25G_16G_SRAM \<equiv> 0x1809a"
abbreviation (input) VR_PMA_SNPS_MP_25G_16G_CR_CTRL :: u32 where "VR_PMA_SNPS_MP_25G_16G_CR_CTRL \<equiv> 0x180a0"
abbreviation (input) VR_PMA_SNPS_MP_25G_16G_CR_ADDR :: u32 where "VR_PMA_SNPS_MP_25G_16G_CR_ADDR \<equiv> 0x180a1"
abbreviation (input) VR_PMA_SNPS_MP_25G_16G_CR_DATA :: u32 where "VR_PMA_SNPS_MP_25G_16G_CR_DATA \<equiv> 0x180a2"
abbreviation (input) SR_PCS_CTRL1 :: u32 where "SR_PCS_CTRL1 \<equiv> 0x30000"
abbreviation (input) SR_PCS_STS1 :: u32 where "SR_PCS_STS1 \<equiv> 0x30001"
abbreviation (input) SR_PCS_CTRL2 :: u32 where "SR_PCS_CTRL2 \<equiv> 0x30007"
abbreviation (input) SR_PCS_TP_CTRL :: u32 where "SR_PCS_TP_CTRL \<equiv> 0x3002a"
abbreviation (input) VR_PCS_DIG_CTRL1 :: u32 where "VR_PCS_DIG_CTRL1 \<equiv> 0x38000"
abbreviation (input) VR_PCS_DIG_CTRL3 :: u32 where "VR_PCS_DIG_CTRL3 \<equiv> 0x38003"
abbreviation (input) VR_PCS_AM_CNT :: u32 where "VR_PCS_AM_CNT \<equiv> 0x38018"
abbreviation (input) SR_AN_CTRL :: u32 where "SR_AN_CTRL \<equiv> 0x70000"
abbreviation (input) SR_AN_STS :: u32 where "SR_AN_STS \<equiv> 0x70001"
abbreviation (input) SR_AN_ADV1 :: u32 where "SR_AN_ADV1 \<equiv> 0x70010"
abbreviation (input) SR_AN_ADV2 :: u32 where "SR_AN_ADV2 \<equiv> 0x70011"
abbreviation (input) SR_AN_ADV3 :: u32 where "SR_AN_ADV3 \<equiv> 0x70012"
abbreviation (input) SR_AN_LP_ABL1 :: u32 where "SR_AN_LP_ABL1 \<equiv> 0x70013"
abbreviation (input) SR_AN_LP_ABL2 :: u32 where "SR_AN_LP_ABL2 \<equiv> 0x70014"
abbreviation (input) SR_AN_LP_ABL3 :: u32 where "SR_AN_LP_ABL3 \<equiv> 0x70015"
abbreviation (input) SR_AN_XNP_TX1 :: u32 where "SR_AN_XNP_TX1 \<equiv> 0x70016"
abbreviation (input) SR_AN_XNP_TX2 :: u32 where "SR_AN_XNP_TX2 \<equiv> 0x70017"
abbreviation (input) SR_AN_XNP_TX3 :: u32 where "SR_AN_XNP_TX3 \<equiv> 0x70018"
abbreviation (input) SR_AN_LP_XNP_ABL1 :: u32 where "SR_AN_LP_XNP_ABL1 \<equiv> 0x70019"
abbreviation (input) SR_AN_LP_XNP_ABL2 :: u32 where "SR_AN_LP_XNP_ABL2 \<equiv> 0x7001a"
abbreviation (input) SR_AN_LP_XNP_ABL3 :: u32 where "SR_AN_LP_XNP_ABL3 \<equiv> 0x7001b"
abbreviation (input) SR_AN_COMP_STS :: u32 where "SR_AN_COMP_STS \<equiv> 0x70030"
abbreviation (input) VR_AN_INTR_MSK :: u32 where "VR_AN_INTR_MSK \<equiv> 0x78001"
abbreviation (input) VR_AN_INTR :: u32 where "VR_AN_INTR \<equiv> 0x78002"

abbreviation (input) CTLE_BOOST_0 :: "u32 \<Rightarrow> nat \<times> nat \<times> u32" where "CTLE_BOOST_0 v \<equiv> (4, 0, v)"
abbreviation (input) CTLE_BOOST_1 :: "u32 \<Rightarrow> nat \<times> nat \<times> u32" where "CTLE_BOOST_1 v \<equiv> (4, 0, v)"
abbreviation (input) CTLE_BOOST_2 :: "u32 \<Rightarrow> nat \<times> nat \<times> u32" where "CTLE_BOOST_2 v \<equiv> (4, 0, v)"
abbreviation (input) CTLE_BOOST_3 :: "u32 \<Rightarrow> nat \<times> nat \<times> u32" where "CTLE_BOOST_3 v \<equiv> (4, 0, v)"
abbreviation (input) CTLE_POLE_0 :: "u32 \<Rightarrow> nat \<times> nat \<times> u32" where "CTLE_POLE_0 v \<equiv> (7, 5, v)"
abbreviation (input) CTLE_POLE_1 :: "u32 \<Rightarrow> nat \<times> nat \<times> u32" where "CTLE_POLE_1 v \<equiv> (7, 5, v)"
abbreviation (input) CTLE_POLE_2 :: "u32 \<Rightarrow> nat \<times> nat \<times> u32" where "CTLE_POLE_2 v \<equiv> (7, 5, v)"
abbreviation (input) CTLE_POLE_3 :: "u32 \<Rightarrow> nat \<times> nat \<times> u32" where "CTLE_POLE_3 v \<equiv> (7, 5, v)"
abbreviation (input) DFE_TAP1_0 :: "u32 \<Rightarrow> nat \<times> nat \<times> u32" where "DFE_TAP1_0 v \<equiv> (7, 0, v)"
abbreviation (input) DFE_TAP1_1 :: "u32 \<Rightarrow> nat \<times> nat \<times> u32" where "DFE_TAP1_1 v \<equiv> (7, 0, v)"
abbreviation (input) DFE_TAP1_2 :: "u32 \<Rightarrow> nat \<times> nat \<times> u32" where "DFE_TAP1_2 v \<equiv> (7, 0, v)"
abbreviation (input) DFE_TAP1_3 :: "u32 \<Rightarrow> nat \<times> nat \<times> u32" where "DFE_TAP1_3 v \<equiv> (7, 0, v)"
abbreviation (input) EQ_AFE_RT_0 :: "u32 \<Rightarrow> nat \<times> nat \<times> u32" where "EQ_AFE_RT_0 v \<equiv> (2, 0, v)"
abbreviation (input) EQ_AFE_RT_1 :: "u32 \<Rightarrow> nat \<times> nat \<times> u32" where "EQ_AFE_RT_1 v \<equiv> (6, 4, v)"
abbreviation (input) EQ_AFE_RT_2 :: "u32 \<Rightarrow> nat \<times> nat \<times> u32" where "EQ_AFE_RT_2 v \<equiv> (10, 8, v)"
abbreviation (input) EQ_AFE_RT_3 :: "u32 \<Rightarrow> nat \<times> nat \<times> u32" where "EQ_AFE_RT_3 v \<equiv> (14, 12, v)"
abbreviation (input) EXT_LD_DONE :: "u32 \<Rightarrow> nat \<times> nat \<times> u32" where "EXT_LD_DONE v \<equiv> (1, 1, v)"
abbreviation (input) HF_EN_0 :: "u32 \<Rightarrow> nat \<times> nat \<times> u32" where "HF_EN_0 v \<equiv> (12, 12, v)"
abbreviation (input) HF_EN_3_1 :: "u32 \<Rightarrow> nat \<times> nat \<times> u32" where "HF_EN_3_1 v \<equiv> (15, 13, v)"
abbreviation (input) LF_TH_0 :: "u32 \<Rightarrow> nat \<times> nat \<times> u32" where "LF_TH_0 v \<equiv> (2, 0, v)"
abbreviation (input) LF_TH_1 :: "u32 \<Rightarrow> nat \<times> nat \<times> u32" where "LF_TH_1 v \<equiv> (5, 3, v)"
abbreviation (input) LF_TH_2 :: "u32 \<Rightarrow> nat \<times> nat \<times> u32" where "LF_TH_2 v \<equiv> (8, 6, v)"
abbreviation (input) LF_TH_3 :: "u32 \<Rightarrow> nat \<times> nat \<times> u32" where "LF_TH_3 v \<equiv> (11, 9, v)"
abbreviation (input) MPLLA_CAL_DISABLE :: "u32 \<Rightarrow> nat \<times> nat \<times> u32" where "MPLLA_CAL_DISABLE v \<equiv> (15, 15, v)"
abbreviation (input) MPLLA_DIV_MULT :: "u32 \<Rightarrow> nat \<times> nat \<times> u32" where "MPLLA_DIV_MULT v \<equiv> (7, 0, v)"
abbreviation (input) MPLLA_HIGH_BW :: "u32 \<Rightarrow> nat \<times> nat \<times> u32" where "MPLLA_HIGH_BW v \<equiv> (15, 0, v)"
abbreviation (input) MPLLA_LOW_BW :: "u32 \<Rightarrow> nat \<times> nat \<times> u32" where "MPLLA_LOW_BW v \<equiv> (15, 0, v)"
abbreviation (input) MPLLA_MULTIPLIER :: "u32 \<Rightarrow> nat \<times> nat \<times> u32" where "MPLLA_MULTIPLIER v \<equiv> (11, 0, v)"
abbreviation (input) MPLLA_TX_CLK_DIV :: "u32 \<Rightarrow> nat \<times> nat \<times> u32" where "MPLLA_TX_CLK_DIV v \<equiv> (14, 12, v)"
abbreviation (input) MPLLB_CAL_DISABLE :: "u32 \<Rightarrow> nat \<times> nat \<times> u32" where "MPLLB_CAL_DISABLE v \<equiv> (15, 15, v)"
abbreviation (input) MPLLB_DIV_MULT :: "u32 \<Rightarrow> nat \<times> nat \<times> u32" where "MPLLB_DIV_MULT v \<equiv> (7, 0, v)"
abbreviation (input) MPLLB_HIGH_BW :: "u32 \<Rightarrow> nat \<times> nat \<times> u32" where "MPLLB_HIGH_BW v \<equiv> (15, 0, v)"
abbreviation (input) MPLLB_LOW_BW :: "u32 \<Rightarrow> nat \<times> nat \<times> u32" where "MPLLB_LOW_BW v \<equiv> (15, 0, v)"
abbreviation (input) MPLLB_MULTIPLIER :: "u32 \<Rightarrow> nat \<times> nat \<times> u32" where "MPLLB_MULTIPLIER v \<equiv> (11, 0, v)"
abbreviation (input) MPLLB_SEL :: "u32 \<Rightarrow> nat \<times> nat \<times> u32" where "MPLLB_SEL v \<equiv> (7, 4, v)"
abbreviation (input) MPLLB_TX_CLK_DIV :: "u32 \<Rightarrow> nat \<times> nat \<times> u32" where "MPLLB_TX_CLK_DIV v \<equiv> (14, 12, v)"
abbreviation (input) MSK_PHY_RST :: "u32 \<Rightarrow> nat \<times> nat \<times> u32" where "MSK_PHY_RST v \<equiv> (8, 8, v)"
abbreviation (input) PCS_AN_RST :: "u32 \<Rightarrow> nat \<times> nat \<times> u32" where "PCS_AN_RST v \<equiv> (15, 15, v)"
abbreviation (input) PCS_SPEED_SEL :: "u32 \<Rightarrow> nat \<times> nat \<times> u32" where "PCS_SPEED_SEL v \<equiv> (5, 2, v)"
abbreviation (input) PCS_TYPE_SEL :: "u32 \<Rightarrow> nat \<times> nat \<times> u32" where "PCS_TYPE_SEL v \<equiv> (3, 0, v)"
abbreviation (input) R2TLBE :: "u32 \<Rightarrow> nat \<times> nat \<times> u32" where "R2TLBE v \<equiv> (14, 14, v)"
abbreviation (input) REF_CLK_DIV2 :: "u32 \<Rightarrow> nat \<times> nat \<times> u32" where "REF_CLK_DIV2 v \<equiv> (2, 2, v)"
abbreviation (input) REF_CLK_MPLLA_DIV :: "u32 \<Rightarrow> nat \<times> nat \<times> u32" where "REF_CLK_MPLLA_DIV v \<equiv> (14, 12, v)"
abbreviation (input) REF_CLK_MPLLB_DIV :: "u32 \<Rightarrow> nat \<times> nat \<times> u32" where "REF_CLK_MPLLB_DIV v \<equiv> (11, 9, v)"
abbreviation (input) REF_RANGE :: "u32 \<Rightarrow> nat \<times> nat \<times> u32" where "REF_RANGE v \<equiv> (5, 3, v)"
abbreviation (input) RX0_CDR_PPM_MAX :: "u32 \<Rightarrow> nat \<times> nat \<times> u32" where "RX0_CDR_PPM_MAX v \<equiv> (4, 0, v)"
abbreviation (input) RX0_DELTA_IQ :: "u32 \<Rightarrow> nat \<times> nat \<times> u32" where "RX0_DELTA_IQ v \<equiv> (11, 8, v)"
abbreviation (input) RX0_RATE :: "u32 \<Rightarrow> nat \<times> nat \<times> u32" where "RX0_RATE v \<equiv> (2, 0, v)"
abbreviation (input) RX1_CDR_PPM_MAX :: "u32 \<Rightarrow> nat \<times> nat \<times> u32" where "RX1_CDR_PPM_MAX v \<equiv> (12, 8, v)"
abbreviation (input) RX1_DELTA_IQ :: "u32 \<Rightarrow> nat \<times> nat \<times> u32" where "RX1_DELTA_IQ v \<equiv> (11, 8, v)"
abbreviation (input) RX1_RATE :: "u32 \<Rightarrow> nat \<times> nat \<times> u32" where "RX1_RATE v \<equiv> (6, 4, v)"
abbreviation (input) RX2TX_LB_EN :: "u32 \<Rightarrow> nat \<times> nat \<times> u32" where "RX2TX_LB_EN v \<equiv> (7, 4, v)"
abbreviation (input) RX2_CDR_PPM_MAX :: "u32 \<Rightarrow> nat \<times> nat \<times> u32" where "RX2_CDR_PPM_MAX v \<equiv> (4, 0, v)"
abbreviation (input) RX2_DELTA_IQ :: "u32 \<Rightarrow> nat \<times> nat \<times> u32" where "RX2_DELTA_IQ v \<equiv> (11, 8, v)"
abbreviation (input) RX2_RATE :: "u32 \<Rightarrow> nat \<times> nat \<times> u32" where "RX2_RATE v \<equiv> (10, 8, v)"
abbreviation (input) RX3_CDR_PPM_MAX :: "u32 \<Rightarrow> nat \<times> nat \<times> u32" where "RX3_CDR_PPM_MAX v \<equiv> (12, 8, v)"
abbreviation (input) RX3_DELTA_IQ :: "u32 \<Rightarrow> nat \<times> nat \<times> u32" where "RX3_DELTA_IQ v \<equiv> (11, 8, v)"
abbreviation (input) RX3_RATE :: "u32 \<Rightarrow> nat \<times> nat \<times> u32" where "RX3_RATE v \<equiv> (14, 12, v)"
abbreviation (input) TX2RX_LB_EN :: "u32 \<Rightarrow> nat \<times> nat \<times> u32" where "TX2RX_LB_EN v \<equiv> (3, 0, v)"
abbreviation (input) TX_ALIGN_WD_XFER_0 :: "u32 \<Rightarrow> nat \<times> nat \<times> u32" where "TX_ALIGN_WD_XFER_0 v \<equiv> (0, 0, v)"
abbreviation (input) TX_ALIGN_WD_XFER_1 :: "u32 \<Rightarrow> nat \<times> nat \<times> u32" where "TX_ALIGN_WD_XFER_1 v \<equiv> (1, 1, v)"
abbreviation (input) TX_ALIGN_WD_XFER_2 :: "u32 \<Rightarrow> nat \<times> nat \<times> u32" where "TX_ALIGN_WD_XFER_2 v \<equiv> (2, 2, v)"
abbreviation (input) TX_ALIGN_WD_XFER_3 :: "u32 \<Rightarrow> nat \<times> nat \<times> u32" where "TX_ALIGN_WD_XFER_3 v \<equiv> (3, 3, v)"
abbreviation (input) TX_EQ_MAIN :: "u32 \<Rightarrow> nat \<times> nat \<times> u32" where "TX_EQ_MAIN v \<equiv> (13, 8, v)"
abbreviation (input) TX_EQ_OVER_RIDE :: "u32 \<Rightarrow> nat \<times> nat \<times> u32" where "TX_EQ_OVER_RIDE v \<equiv> (6, 6, v)"
abbreviation (input) TX_EQ_POST :: "u32 \<Rightarrow> nat \<times> nat \<times> u32" where "TX_EQ_POST v \<equiv> (5, 0, v)"
abbreviation (input) TX_EQ_PRE :: "u32 \<Rightarrow> nat \<times> nat \<times> u32" where "TX_EQ_PRE v \<equiv> (5, 0, v)"
abbreviation (input) VCO_LD_VAL_0 :: "u32 \<Rightarrow> nat \<times> nat \<times> u32" where "VCO_LD_VAL_0 v \<equiv> (12, 0, v)"
abbreviation (input) VCO_LD_VAL_1 :: "u32 \<Rightarrow> nat \<times> nat \<times> u32" where "VCO_LD_VAL_1 v \<equiv> (12, 0, v)"
abbreviation (input) VCO_LD_VAL_2 :: "u32 \<Rightarrow> nat \<times> nat \<times> u32" where "VCO_LD_VAL_2 v \<equiv> (12, 0, v)"
abbreviation (input) VCO_LD_VAL_3 :: "u32 \<Rightarrow> nat \<times> nat \<times> u32" where "VCO_LD_VAL_3 v \<equiv> (12, 0, v)"
abbreviation (input) VCO_REF_LD_0 :: "u32 \<Rightarrow> nat \<times> nat \<times> u32" where "VCO_REF_LD_0 v \<equiv> (6, 0, v)"
abbreviation (input) VCO_REF_LD_1 :: "u32 \<Rightarrow> nat \<times> nat \<times> u32" where "VCO_REF_LD_1 v \<equiv> (14, 8, v)"
abbreviation (input) VCO_REF_LD_2 :: "u32 \<Rightarrow> nat \<times> nat \<times> u32" where "VCO_REF_LD_2 v \<equiv> (6, 0, v)"
abbreviation (input) VCO_REF_LD_3 :: "u32 \<Rightarrow> nat \<times> nat \<times> u32" where "VCO_REF_LD_3 v \<equiv> (14, 8, v)"
abbreviation (input) VR_RST :: "u32 \<Rightarrow> nat \<times> nat \<times> u32" where "VR_RST v \<equiv> (15, 15, v)"

section \<open>Access\<close>

text \<open>\<open>RNIC_REG_BASE_ADDR_PCS_0\<close> and \<open>RNIC_REG_BASE_ADDR_PCS_1\<close>\<close>

definition pcs_base :: "nat \<Rightarrow> u32" where
  "pcs_base pcs_id = (if pcs_id \<noteq> 0 then 0x8000000 else 0x7000000)"

definition pcs_reg_write :: "nat \<Rightarrow> u32 \<Rightarrow> u32 \<Rightarrow> kern \<Rightarrow> kern" where
  "pcs_reg_write pcs_id offset wdata = reg_write (pcs_base pcs_id + push_bit 2 offset) wdata"

definition pcs_reg_read :: "env \<Rightarrow> nat \<Rightarrow> u32 \<Rightarrow> kern \<Rightarrow> u32 \<times> kern" where
  "pcs_reg_read E pcs_id offset = reg_read E (pcs_base pcs_id + push_bit 2 offset)"

text \<open>
  The two shapes of a change: a register is read, some of its fields are set and it is written
  back, or it is read and written with a constant.
\<close>

datatype pcs_op = Fields u32 "(nat \<times> nat \<times> u32) list" | Put u32 u32

fun pcs_step :: "env \<Rightarrow> nat \<Rightarrow> pcs_op \<Rightarrow> kern \<Rightarrow> kern" where
  "pcs_step E pcs_id (Fields off fs) s =
     (let (data, s) = pcs_reg_read E pcs_id off s in pcs_reg_write pcs_id off (set_fields fs data) s)"
| "pcs_step E pcs_id (Put off v) s =
     (let (data, s) = pcs_reg_read E pcs_id off s in pcs_reg_write pcs_id off v s)"

definition pcs_run :: "env \<Rightarrow> nat \<Rightarrow> pcs_op list \<Rightarrow> kern \<Rightarrow> kern" where
  "pcs_run E pcs_id = fold (pcs_step E pcs_id)"

text \<open>
  The waits: \<open>data = pcs_reg_read(..., addr); while (get_bits(data, bit, bit) != want)
  data = pcs_reg_read(..., addr);\<close>
\<close>

partial_function (option) pcs_poll :: "env \<Rightarrow> nat \<Rightarrow> u32 \<Rightarrow> nat \<Rightarrow> u32 \<Rightarrow> kern \<Rightarrow> kern option" where
  "pcs_poll E pcs_id addr b want s =
     (let (data, s) = pcs_reg_read E pcs_id addr s
      in if get_field data b b \<noteq> want then pcs_poll E pcs_id addr b want s else Some s)"

section \<open>Start-up of a port\<close>

definition pcs_wait_sram_init_done :: "env \<Rightarrow> nat \<Rightarrow> kern \<Rightarrow> kern option" where
  "pcs_wait_sram_init_done E port_id = pcs_poll E port_id VR_PMA_SNPS_MP_25G_16G_SRAM 0 1"

definition pcs_sram_ext_load_done :: "env \<Rightarrow> nat \<Rightarrow> kern \<Rightarrow> kern" where
  "pcs_sram_ext_load_done E port_id = pcs_run E port_id
     [Fields VR_PMA_SNPS_MP_25G_16G_SRAM [EXT_LD_DONE 1]]"

definition pcs_wait_soft_reset_clear :: "env \<Rightarrow> nat \<Rightarrow> kern \<Rightarrow> kern option" where
  "pcs_wait_soft_reset_clear E port_id = pcs_poll E port_id SR_PCS_CTRL1 15 0"

definition pcs_get_rlu :: "env \<Rightarrow> nat \<Rightarrow> kern \<Rightarrow> u32 \<times> kern" where
  "pcs_get_rlu E port_id s =
     (let (data, s) = pcs_reg_read E port_id SR_PCS_STS1 s in (get_field data 2 2, s))"

text \<open>Both reads are of the same register; the sleep in between changes nothing.\<close>

definition pcs_wait_rlu :: "env \<Rightarrow> nat \<Rightarrow> kern \<Rightarrow> kern" where
  "pcs_wait_rlu E port_id s = snd (pcs_get_rlu E port_id (snd (pcs_get_rlu E port_id s)))"

text \<open>\<open>PHY_SRAM_UPDATE_EN\<close> is not defined.\<close>

definition pcs_sram_cfg :: "env \<Rightarrow> nat \<Rightarrow> kern \<Rightarrow> kern option" where
  "pcs_sram_cfg E port_id s = do {
     s \<leftarrow> pcs_wait_sram_init_done E port_id s;
     Some (pcs_sram_ext_load_done E port_id s)
   }"

definition pcs_set_vr_reset :: "env \<Rightarrow> nat \<Rightarrow> kern \<Rightarrow> kern" where
  "pcs_set_vr_reset E port_id = pcs_run E port_id
     [Fields VR_PCS_DIG_CTRL1 [VR_RST 1]]"

definition pcs_wait_vr_reset_clear :: "env \<Rightarrow> nat \<Rightarrow> kern \<Rightarrow> kern option" where
  "pcs_wait_vr_reset_clear E port_id = pcs_poll E port_id VR_PCS_DIG_CTRL1 15 0"

section \<open>Clocks and lanes\<close>

definition pcs_mplla_cfg :: "env \<Rightarrow> nat \<Rightarrow> kern \<Rightarrow> kern" where
  "pcs_mplla_cfg E port_id = pcs_run E port_id
     [Fields VR_PMA_SNPS_MP_25G_16G_REF_CLK_CTRL [REF_RANGE 3, REF_CLK_DIV2 0, REF_CLK_MPLLA_DIV 0],
      Fields VR_PMA_SNPS_MP_25G_MPLLA_CTRL0 [MPLLA_MULTIPLIER 0x84],
      Fields VR_PMA_SNPS_MP_25G_MPLLA_CTRL2 [MPLLA_DIV_MULT 8, MPLLA_TX_CLK_DIV 2],
      Fields VR_PMA_SNPS_MP_25G_MPLLA_CTRL3 [MPLLA_LOW_BW 0x18],
      Fields VR_PMA_SNPS_MP_25G_MPLLA_CTRL4 [MPLLA_HIGH_BW 0x18]]"

definition pcs_mpllb_cfg :: "env \<Rightarrow> nat \<Rightarrow> kern \<Rightarrow> kern" where
  "pcs_mpllb_cfg E port_id = pcs_run E port_id
     [Fields VR_PMA_SNPS_MP_25G_16G_REF_CLK_CTRL [REF_RANGE 3, REF_CLK_DIV2 0, REF_CLK_MPLLB_DIV 0],
      Fields VR_PMA_SNPS_MP_25G_MPLLB_CTRL0 [MPLLB_MULTIPLIER 0xa5],
      Fields VR_PMA_SNPS_MP_25G_MPLLB_CTRL2 [MPLLB_DIV_MULT 4, MPLLB_TX_CLK_DIV 1],
      Fields VR_PMA_SNPS_MP_25G_MPLLB_CTRL3 [MPLLB_LOW_BW 0x18],
      Fields VR_PMA_SNPS_MP_25G_MPLLB_CTRL4 [MPLLB_HIGH_BW 0x18]]"

definition pcs_per_lane_cfg_10g :: "env \<Rightarrow> nat \<Rightarrow> kern \<Rightarrow> kern" where
  "pcs_per_lane_cfg_10g E port_id = pcs_run E port_id
     [Fields VR_PMA_SNPS_MP_25G_16G_VCO_CAL_REF0 [VCO_REF_LD_0 0xb, VCO_REF_LD_1 0xb],
      Fields VR_PMA_SNPS_MP_25G_16G_VCO_CAL_REF1 [VCO_REF_LD_2 0xb, VCO_REF_LD_3 0xb],
      Fields VR_PMA_SNPS_MP_25G_16G_VCO_CAL_LD0 [VCO_LD_VAL_0 0x5ac],
      Fields VR_PMA_SNPS_MP_25G_16G_VCO_CAL_LD1 [VCO_LD_VAL_1 0x5ac],
      Fields VR_PMA_SNPS_MP_25G_16G_VCO_CAL_LD2 [VCO_LD_VAL_2 0x5ac],
      Fields VR_PMA_SNPS_MP_25G_16G_VCO_CAL_LD3 [VCO_LD_VAL_3 0x5ac],
      Fields VR_PMA_SNPS_MP_25G_16G_RX_PPM_CTRL0 [RX0_CDR_PPM_MAX 0x13, RX1_CDR_PPM_MAX 0x13],
      Fields VR_PMA_SNPS_MP_25G_16G_RX_PPM_CTRL1 [RX2_CDR_PPM_MAX 0x13, RX3_CDR_PPM_MAX 0x13],
      Fields VR_PMA_SNPS_MP_25G_16G_MPLL_CMN_CTRL [MPLLB_SEL 0],
      Fields VR_PMA_SNPS_MP_25G_TX_GEN_CTRL5 [TX_ALIGN_WD_XFER_0 0, TX_ALIGN_WD_XFER_1 0, TX_ALIGN_WD_XFER_2 0, TX_ALIGN_WD_XFER_3 0],
      Put VR_PMA_SNPS_MP_25G_TX_DCC_CTRL 0xbbbb,
      Fields VR_PMA_SNPS_MP_25G_RX_AFE_RATE_CTRL [EQ_AFE_RT_0 4, EQ_AFE_RT_1 4, EQ_AFE_RT_2 4, EQ_AFE_RT_3 4],
      Fields VR_PMA_SNPS_MP_25G_RX_RATE_CTRL [RX0_RATE 1, RX1_RATE 1, RX2_RATE 1, RX3_RATE 1],
      Fields VR_PMA_SNPS_MP_25G_16G_RX_IQ_CTRL0 [RX0_DELTA_IQ 6],
      Fields VR_PMA_SNPS_MP_25G_16G_RX_IQ_CTRL1 [RX1_DELTA_IQ 6],
      Fields VR_PMA_SNPS_MP_25G_16G_RX_IQ_CTRL2 [RX2_DELTA_IQ 6],
      Fields VR_PMA_SNPS_MP_25G_16G_RX_IQ_CTRL3 [RX3_DELTA_IQ 6],
      Fields VR_PMA_SNPS_MP_25G_16G_RX_EQ_CTRL0 [CTLE_BOOST_0 0x11],
      Fields VR_PMA_SNPS_MP_25G_16G_RX_EQ_CTRL1 [CTLE_BOOST_1 0x11],
      Fields VR_PMA_SNPS_MP_25G_16G_RX_EQ_CTRL2 [CTLE_BOOST_2 0x11],
      Fields VR_PMA_SNPS_MP_25G_16G_RX_EQ_CTRL3 [CTLE_BOOST_3 0x11],
      Fields VR_PMA_SNPS_MP_25G_16G_RX_EQ_CTRL0 [CTLE_POLE_0 2],
      Fields VR_PMA_SNPS_MP_25G_16G_RX_EQ_CTRL1 [CTLE_POLE_1 2],
      Fields VR_PMA_SNPS_MP_25G_16G_RX_EQ_CTRL2 [CTLE_POLE_2 2],
      Fields VR_PMA_SNPS_MP_25G_16G_RX_EQ_CTRL3 [CTLE_POLE_3 2],
      Fields VR_PMA_SNPS_MP_25G_16G_DFE_TAP_CTRL0 [DFE_TAP1_0 0xf, DFE_TAP1_1 0xf],
      Fields VR_PMA_SNPS_MP_25G_16G_DFE_TAP_CTRL1 [DFE_TAP1_2 0xf, DFE_TAP1_3 0xf],
      Fields VR_PMA_SNPS_MP_25G_RX_GENCTRL5 [HF_EN_0 0, HF_EN_3_1 0],
      Fields VR_PMA_SNPS_MP_25G_RX_GENCTRL3 [LF_TH_0 4, LF_TH_1 4, LF_TH_2 4, LF_TH_3 4]]"

definition pcs_per_lane_cfg_25g :: "env \<Rightarrow> nat \<Rightarrow> kern \<Rightarrow> kern" where
  "pcs_per_lane_cfg_25g E port_id = pcs_run E port_id
     [Fields VR_PMA_SNPS_MP_25G_16G_VCO_CAL_REF0 [VCO_REF_LD_0 9, VCO_REF_LD_1 9],
      Fields VR_PMA_SNPS_MP_25G_16G_VCO_CAL_REF1 [VCO_REF_LD_2 9, VCO_REF_LD_3 9],
      Fields VR_PMA_SNPS_MP_25G_16G_VCO_CAL_LD0 [VCO_LD_VAL_0 0x5cd],
      Fields VR_PMA_SNPS_MP_25G_16G_VCO_CAL_LD1 [VCO_LD_VAL_1 0x5cd],
      Fields VR_PMA_SNPS_MP_25G_16G_VCO_CAL_LD2 [VCO_LD_VAL_2 0x5cd],
      Fields VR_PMA_SNPS_MP_25G_16G_VCO_CAL_LD3 [VCO_LD_VAL_3 0x5cd],
      Fields VR_PMA_SNPS_MP_25G_16G_RX_PPM_CTRL0 [RX0_CDR_PPM_MAX 0x14, RX1_CDR_PPM_MAX 0x14],
      Fields VR_PMA_SNPS_MP_25G_16G_RX_PPM_CTRL1 [RX2_CDR_PPM_MAX 0x14, RX3_CDR_PPM_MAX 0x14],
      Fields VR_PMA_SNPS_MP_25G_16G_MPLL_CMN_CTRL [MPLLB_SEL 0xf],
      Fields VR_PMA_SNPS_MP_25G_TX_GEN_CTRL5 [TX_ALIGN_WD_XFER_0 1, TX_ALIGN_WD_XFER_1 1, TX_ALIGN_WD_XFER_2 1, TX_ALIGN_WD_XFER_3 1],
      Put VR_PMA_SNPS_MP_25G_TX_DCC_CTRL 0xcccc,
      Fields VR_PMA_SNPS_MP_25G_RX_AFE_RATE_CTRL [EQ_AFE_RT_0 0, EQ_AFE_RT_1 0, EQ_AFE_RT_2 0, EQ_AFE_RT_3 0],
      Fields VR_PMA_SNPS_MP_25G_RX_RATE_CTRL [RX0_RATE 0, RX1_RATE 0, RX2_RATE 0, RX3_RATE 0],
      Fields VR_PMA_SNPS_MP_25G_16G_RX_IQ_CTRL0 [RX0_DELTA_IQ 3],
      Fields VR_PMA_SNPS_MP_25G_16G_RX_IQ_CTRL1 [RX1_DELTA_IQ 3],
      Fields VR_PMA_SNPS_MP_25G_16G_RX_IQ_CTRL2 [RX2_DELTA_IQ 3],
      Fields VR_PMA_SNPS_MP_25G_16G_RX_IQ_CTRL3 [RX3_DELTA_IQ 3],
      Fields VR_PMA_SNPS_MP_25G_16G_RX_EQ_CTRL0 [CTLE_BOOST_0 0xc],
      Fields VR_PMA_SNPS_MP_25G_16G_RX_EQ_CTRL1 [CTLE_BOOST_1 0xc],
      Fields VR_PMA_SNPS_MP_25G_16G_RX_EQ_CTRL2 [CTLE_BOOST_2 0xc],
      Fields VR_PMA_SNPS_MP_25G_16G_RX_EQ_CTRL3 [CTLE_BOOST_3 0xc],
      Fields VR_PMA_SNPS_MP_25G_16G_RX_EQ_CTRL0 [CTLE_POLE_0 3],
      Fields VR_PMA_SNPS_MP_25G_16G_RX_EQ_CTRL1 [CTLE_POLE_1 3],
      Fields VR_PMA_SNPS_MP_25G_16G_RX_EQ_CTRL2 [CTLE_POLE_2 3],
      Fields VR_PMA_SNPS_MP_25G_16G_RX_EQ_CTRL3 [CTLE_POLE_3 3],
      Fields VR_PMA_SNPS_MP_25G_16G_DFE_TAP_CTRL0 [DFE_TAP1_0 0xf, DFE_TAP1_1 0xf],
      Fields VR_PMA_SNPS_MP_25G_16G_DFE_TAP_CTRL1 [DFE_TAP1_2 0xf, DFE_TAP1_3 0xf],
      Fields VR_PMA_SNPS_MP_25G_RX_GENCTRL5 [HF_EN_0 0, HF_EN_3_1 0],
      Fields VR_PMA_SNPS_MP_25G_RX_GENCTRL3 [LF_TH_0 4, LF_TH_1 4, LF_TH_2 4, LF_TH_3 4]]"

text \<open>
  \<open>KRT_EN\<close> is not defined where bx_pcs.h is read, so \<open>TX_EQ_OVER_RIDE_VAL\<close> is 1.
\<close>

definition pcs_tx_eq_cfg :: "env \<Rightarrow> nat \<Rightarrow> kern \<Rightarrow> kern" where
  "pcs_tx_eq_cfg E port_id = pcs_run E port_id
     [Fields VR_PMA_SNPS_MP_25G_16G_TX_EQ_CTRL0_LN0 [TX_EQ_PRE 0, TX_EQ_MAIN 0x18],
      Fields VR_PMA_SNPS_MP_25G_16G_TX_EQ_CTRL0_LN1 [TX_EQ_PRE 0, TX_EQ_MAIN 0x18],
      Fields VR_PMA_SNPS_MP_25G_16G_TX_EQ_CTRL0_LN2 [TX_EQ_PRE 0, TX_EQ_MAIN 0x18],
      Fields VR_PMA_SNPS_MP_25G_16G_TX_EQ_CTRL0_LN3 [TX_EQ_PRE 0, TX_EQ_MAIN 0x18],
      Fields VR_PMA_SNPS_MP_25G_16G_TX_EQ_CTRL1_LN0 [TX_EQ_POST 0, TX_EQ_OVER_RIDE 1],
      Fields VR_PMA_SNPS_MP_25G_16G_TX_EQ_CTRL1_LN1 [TX_EQ_POST 0, TX_EQ_OVER_RIDE 1],
      Fields VR_PMA_SNPS_MP_25G_16G_TX_EQ_CTRL1_LN2 [TX_EQ_POST 0, TX_EQ_OVER_RIDE 1],
      Fields VR_PMA_SNPS_MP_25G_16G_TX_EQ_CTRL1_LN3 [TX_EQ_POST 0, TX_EQ_OVER_RIDE 1]]"

section \<open>The PHY behind the control registers\<close>

definition pcs_cr_cmd :: "env \<Rightarrow> nat \<Rightarrow> u32 \<Rightarrow> kern \<Rightarrow> kern option" where
  "pcs_cr_cmd E port_id wr s =
     pcs_poll E port_id VR_PMA_SNPS_MP_25G_16G_CR_CTRL 0 0
       (pcs_run E port_id [Fields VR_PMA_SNPS_MP_25G_16G_CR_CTRL [(1, 1, wr)],
          Fields VR_PMA_SNPS_MP_25G_16G_CR_CTRL [(0, 0, 1)]] s)"

definition pcs_cr_wr_phy :: "env \<Rightarrow> nat \<Rightarrow> u32 \<Rightarrow> u32 \<Rightarrow> kern \<Rightarrow> kern option" where
  "pcs_cr_wr_phy E port_id addr wdata s = do {
     s \<leftarrow> pcs_poll E port_id VR_PMA_SNPS_MP_25G_16G_CR_CTRL 0 0 s;
     let s = pcs_reg_write port_id VR_PMA_SNPS_MP_25G_16G_CR_ADDR addr s;
     let s = pcs_reg_write port_id VR_PMA_SNPS_MP_25G_16G_CR_DATA wdata s;
     pcs_cr_cmd E port_id 1 s
   }"

definition pcs_cr_rd_phy :: "env \<Rightarrow> nat \<Rightarrow> u32 \<Rightarrow> kern \<Rightarrow> (u32 \<times> kern) option" where
  "pcs_cr_rd_phy E port_id addr s = do {
     s \<leftarrow> pcs_poll E port_id VR_PMA_SNPS_MP_25G_16G_CR_CTRL 0 0 s;
     let s = pcs_reg_write port_id VR_PMA_SNPS_MP_25G_16G_CR_ADDR addr s;
     s \<leftarrow> pcs_cr_cmd E port_id 0 s;
     Some (pcs_reg_read E port_id VR_PMA_SNPS_MP_25G_16G_CR_DATA s)
   }"

fun pcs_cr_wr_all :: "env \<Rightarrow> nat \<Rightarrow> u32 \<Rightarrow> u32 list \<Rightarrow> kern \<Rightarrow> kern option" where
  "pcs_cr_wr_all E port_id v [] s = Some s"
| "pcs_cr_wr_all E port_id v (a # as) s = do {
     s \<leftarrow> pcs_cr_wr_phy E port_id a v s;
     pcs_cr_wr_all E port_id v as s
   }"

definition pcs_phy_r2t_lb_en :: "env \<Rightarrow> nat \<Rightarrow> kern \<Rightarrow> kern option" where
  "pcs_phy_r2t_lb_en E port_id = pcs_cr_wr_all E port_id 6 [0x1000, 0x1100, 0x1200, 0x1300]"

definition pcs_phy_t2r_lb_en :: "env \<Rightarrow> nat \<Rightarrow> kern \<Rightarrow> kern option" where
  "pcs_phy_t2r_lb_en E port_id = pcs_cr_wr_all E port_id 5 [0x1000, 0x1100, 0x1200, 0x1300]"

section \<open>Loopbacks, inversion and test patterns\<close>

definition pcs_r2t_lb_en :: "env \<Rightarrow> nat \<Rightarrow> kern \<Rightarrow> kern" where
  "pcs_r2t_lb_en E port_id = pcs_run E port_id
     [Fields VR_PCS_DIG_CTRL1 [R2TLBE 1]]"

text \<open>None of the loopback macros is defined.\<close>

definition pcs_loopback_cfg :: "env \<Rightarrow> nat \<Rightarrow> kern \<Rightarrow> kern" where
  "pcs_loopback_cfg E port_id s = s"

definition pcs_phy_r2t_lb_en_pcs :: "env \<Rightarrow> nat \<Rightarrow> kern \<Rightarrow> kern" where
  "pcs_phy_r2t_lb_en_pcs E port_id = pcs_run E port_id
     [Fields VR_PMA_SNPS_MP_25G_16G_MISC_CTRL0 [RX2TX_LB_EN 0xf]]"

definition pcs_phy_t2r_lb_en_pcs :: "env \<Rightarrow> nat \<Rightarrow> kern \<Rightarrow> kern" where
  "pcs_phy_t2r_lb_en_pcs E port_id = pcs_run E port_id
     [Fields VR_PMA_SNPS_MP_25G_16G_MISC_CTRL0 [TX2RX_LB_EN 0xf]]"

definition pcs_tx_invert_en :: "env \<Rightarrow> nat \<Rightarrow> kern \<Rightarrow> kern" where
  "pcs_tx_invert_en E port_id = pcs_run E port_id
     [Fields VR_PMA_SNPS_MP_25G_16G_TX_GENCTRL0 [(7, 4, 0xf)]]"

definition pcs_rx_invert_en :: "env \<Rightarrow> nat \<Rightarrow> kern \<Rightarrow> kern" where
  "pcs_rx_invert_en E port_id = pcs_run E port_id
     [Fields VR_PMA_SNPS_MP_25G_16G_RX_GENCTRL1 [(3, 0, 0xf)]]"

definition pcs_tx_rx_invert_en :: "env \<Rightarrow> nat \<Rightarrow> kern \<Rightarrow> kern" where
  "pcs_tx_rx_invert_en E port_id s = pcs_rx_invert_en E port_id (pcs_tx_invert_en E port_id s)"

definition pcs_enable_prbs31 :: "env \<Rightarrow> nat \<Rightarrow> kern \<Rightarrow> kern" where
  "pcs_enable_prbs31 E port_id = pcs_run E port_id
     [Fields SR_PCS_TP_CTRL [(4, 4, 1)]]"

definition pcs_disable_prbs31 :: "env \<Rightarrow> nat \<Rightarrow> kern \<Rightarrow> kern" where
  "pcs_disable_prbs31 E port_id = pcs_run E port_id
     [Fields SR_PCS_TP_CTRL [(4, 4, 0)]]"

definition pcs_enable_idle_pattern :: "env \<Rightarrow> nat \<Rightarrow> kern \<Rightarrow> kern" where
  "pcs_enable_idle_pattern E port_id = pcs_run E port_id
     [Fields SR_PCS_TP_CTRL [(3, 3, 1), (0, 0, 1)]]"

definition pcs_disable_idle_pattern :: "env \<Rightarrow> nat \<Rightarrow> kern \<Rightarrow> kern" where
  "pcs_disable_idle_pattern E port_id = pcs_run E port_id
     [Fields SR_PCS_TP_CTRL [(3, 3, 0), (0, 0, 0)]]"

definition pcs_msk_phy_rst :: "env \<Rightarrow> nat \<Rightarrow> kern \<Rightarrow> kern" where
  "pcs_msk_phy_rst E port_id = pcs_run E port_id
     [Fields VR_PCS_DIG_CTRL3 [MSK_PHY_RST 1]]"

definition pcs_set_am_cnt :: "env \<Rightarrow> nat \<Rightarrow> kern \<Rightarrow> kern" where
  "pcs_set_am_cnt E port_id = pcs_run E port_id
     [Fields VR_PCS_AM_CNT [(13, 0, 0x80)]]"

section \<open>Auto-negotiation: registers\<close>

definition pcs_an_enable :: "env \<Rightarrow> nat \<Rightarrow> kern \<Rightarrow> kern" where
  "pcs_an_enable E port_id = pcs_run E port_id
     [Fields SR_AN_CTRL [(12, 12, 1)]]"

definition pcs_an_ext_np_ctl_en :: "env \<Rightarrow> nat \<Rightarrow> kern \<Rightarrow> kern" where
  "pcs_an_ext_np_ctl_en E port_id = pcs_run E port_id
     [Fields SR_AN_CTRL [(13, 13, 1)]]"

definition pcs_an_enable_intr :: "nat \<Rightarrow> kern \<Rightarrow> kern" where
  "pcs_an_enable_intr port_id = pcs_reg_write port_id VR_AN_INTR_MSK 7"

definition pcs_an_get_intr :: "env \<Rightarrow> nat \<Rightarrow> kern \<Rightarrow> u32 \<times> kern" where
  "pcs_an_get_intr E port_id s =
     (let (data, s) = pcs_reg_read E port_id VR_AN_INTR s in (get_field data 2 0, s))"

definition pcs_an_rst :: "env \<Rightarrow> nat \<Rightarrow> kern \<Rightarrow> kern option" where
  "pcs_an_rst E port_id s =
     pcs_poll E port_id SR_AN_CTRL 15 0
       (pcs_run E port_id [Fields SR_AN_CTRL [PCS_AN_RST 1]] (pcs_msk_phy_rst E port_id s))"

text \<open>\<open>PCS_AN_PDET_EN\<close> is not defined.\<close>

definition pcs_an_pdet_cfg :: "env \<Rightarrow> nat \<Rightarrow> kern \<Rightarrow> kern" where
  "pcs_an_pdet_cfg E port_id s = s"

definition pcs_an_wait_sts :: "env \<Rightarrow> nat \<Rightarrow> kern \<Rightarrow> kern option" where
  "pcs_an_wait_sts E port_id = pcs_poll E port_id SR_AN_STS 6 1"

definition pcs_an_clear_intr :: "env \<Rightarrow> nat \<Rightarrow> nat \<times> nat \<Rightarrow> kern \<Rightarrow> kern" where
  "pcs_an_clear_intr E port_id rng =
     pcs_run E port_id [Fields VR_AN_INTR [(fst rng, snd rng, 0)]]"

definition pcs_an_clear_all_intr :: "nat \<Rightarrow> kern \<Rightarrow> kern" where
  "pcs_an_clear_all_intr port_id = pcs_reg_write port_id VR_AN_INTR 0"

text \<open>Bit 15 of the first of three registers, which are read from the third down.\<close>

definition read_xnp :: "env \<Rightarrow> nat \<Rightarrow> u32 \<times> u32 \<times> u32 \<Rightarrow> kern \<Rightarrow> u32 \<times> kern" where
  "read_xnp E port_id regs3 s =
     (let (r1, r2, r3) = regs3;
          (d2, s) = pcs_reg_read E port_id r3 s;
          (d1, s) = pcs_reg_read E port_id r2 s;
          (d0, s) = pcs_reg_read E port_id r1 s
      in (get_field d0 15 15, s))"

definition pcs_an_read_lp_base_page :: "env \<Rightarrow> nat \<Rightarrow> kern \<Rightarrow> u32 \<times> kern" where
  "pcs_an_read_lp_base_page E port_id = read_xnp E port_id (SR_AN_LP_ABL1, SR_AN_LP_ABL2, SR_AN_LP_ABL3)"

definition pcs_an_read_lp_next_page :: "env \<Rightarrow> nat \<Rightarrow> kern \<Rightarrow> u32 \<times> kern" where
  "pcs_an_read_lp_next_page E port_id =
     read_xnp E port_id (SR_AN_LP_XNP_ABL1, SR_AN_LP_XNP_ABL2, SR_AN_LP_XNP_ABL3)"

definition pcs_an_read_adv_base_page :: "env \<Rightarrow> nat \<Rightarrow> kern \<Rightarrow> u32 \<times> kern" where
  "pcs_an_read_adv_base_page E port_id = read_xnp E port_id (SR_AN_ADV1, SR_AN_ADV2, SR_AN_ADV3)"

definition pcs_an_read_adv_next_page :: "env \<Rightarrow> nat \<Rightarrow> kern \<Rightarrow> u32 \<times> kern" where
  "pcs_an_read_adv_next_page E port_id = read_xnp E port_id (SR_AN_XNP_TX1, SR_AN_XNP_TX2, SR_AN_XNP_TX3)"

definition pcs_an_check_comp_state :: "env \<Rightarrow> nat \<Rightarrow> kern \<Rightarrow> u32 \<times> kern" where
  "pcs_an_check_comp_state E port_id = pcs_reg_read E port_id SR_AN_COMP_STS"

definition pcs_an_comp :: "env \<Rightarrow> nat \<Rightarrow> kern \<Rightarrow> u32 \<times> kern" where
  "pcs_an_comp E port_id s =
     (let (data, s) = pcs_reg_read E port_id SR_AN_STS s in (get_field data 5 5, s))"

definition pcs_an_print_state :: "env \<Rightarrow> nat \<Rightarrow> kern \<Rightarrow> u32 \<times> kern" where
  "pcs_an_print_state = pcs_an_comp"

section \<open>Link training: registers\<close>

definition pcs_krt_disable :: "env \<Rightarrow> nat \<Rightarrow> kern \<Rightarrow> kern" where
  "pcs_krt_disable E port_id = pcs_run E port_id
     [Fields SR_PMA_KR_PMD_CTRL [(1, 1, 0)]]"

definition pcs_krt_enable :: "env \<Rightarrow> nat \<Rightarrow> kern \<Rightarrow> kern" where
  "pcs_krt_enable E port_id = pcs_run E port_id
     [Fields SR_PMA_KR_PMD_CTRL [(1, 1, 1)]]"

definition pcs_krt_restart :: "env \<Rightarrow> nat \<Rightarrow> kern \<Rightarrow> kern" where
  "pcs_krt_restart E port_id = pcs_run E port_id
     [Fields SR_PMA_KR_PMD_CTRL [(0, 0, 1)]]"

definition pcs_krt_cl72_enable :: "env \<Rightarrow> nat \<Rightarrow> kern \<Rightarrow> kern" where
  "pcs_krt_cl72_enable E port_id = pcs_run E port_id
     [Fields VR_PCS_DIG_CTRL3 [(2, 2, 1)]]"

definition pcs_krt_cfg :: "env \<Rightarrow> nat \<Rightarrow> kern \<Rightarrow> kern" where
  "pcs_krt_cfg E port_id = pcs_krt_cl72_enable E port_id"

end
