(* ===== verification/Units.thy ===== *)
theory Units
  imports Mac_cfg
begin

text \<open>
  The small units of the card: the port unit (bx_mpp.c), the interrupt unit (bx_ieu.c), the PCIe
  unit (bx_pcie.c), the connection manager (bx_cm.c) and the packet handler (bx_phd.c).
  \<open>RNIC_PRINTK\<close> is empty in the build; \<open>RNIC_LEGACY_INT_EN\<close> is defined and \<open>RNIC_MSI_EN\<close>,
  \<open>PFC_EN\<close> and \<open>IOC_EN\<close> are not. The index arguments of the interrupt unit are below 32, where
  \<open>set_bits\<close> is \<open>set_field\<close>: the receive functions add 7 to a channel number below 7.
\<close>

section \<open>Port unit\<close>

abbreviation (input) MPP_REG_ADDR_MPP_PARAM :: u32 where "MPP_REG_ADDR_MPP_PARAM \<equiv> 0x24"
abbreviation (input) MPP_REG_ADDR_PHY_PARAM :: u32 where "MPP_REG_ADDR_PHY_PARAM \<equiv> 0x38"
abbreviation (input) MPP_REG_ADDR_MPP_MASK_PKEY :: u32 where "MPP_REG_ADDR_MPP_MASK_PKEY \<equiv> 0x40"
abbreviation (input) MPP_REG_ADDR_MPP_MASK :: u32 where "MPP_REG_ADDR_MPP_MASK \<equiv> 0x44"

text \<open>\<open>RNIC_REG_BASE_ADDR_MPP\<close>\<close>

definition mpp_reg_write :: "u32 \<Rightarrow> u32 \<Rightarrow> kern \<Rightarrow> kern" where
  "mpp_reg_write offset wdata = reg_write (0x6000000 + offset) wdata"

definition mpp_reg_read :: "env \<Rightarrow> u32 \<Rightarrow> kern \<Rightarrow> u32 \<times> kern" where
  "mpp_reg_read E offset = reg_read E (0x6000000 + offset)"

definition mpp_mask_pkey_set :: "kern \<Rightarrow> kern" where
  "mpp_mask_pkey_set = mpp_reg_write MPP_REG_ADDR_MPP_MASK_PKEY 0x55667788"

definition mpp_mask_pkey_clear :: "kern \<Rightarrow> kern" where
  "mpp_mask_pkey_clear = mpp_reg_write MPP_REG_ADDR_MPP_MASK_PKEY 0"

definition mpp_mask_set :: "u32 \<Rightarrow> kern \<Rightarrow> kern" where
  "mpp_mask_set wdata s =
     mpp_mask_pkey_clear (mpp_reg_write MPP_REG_ADDR_MPP_MASK wdata (mpp_mask_pkey_set s))"

definition mpp_enable_port_mask :: "env \<Rightarrow> nat \<Rightarrow> kern \<Rightarrow> kern" where
  "mpp_enable_port_mask E pcs_id s =
     (let (data, s) = mpp_reg_read E MPP_REG_ADDR_MPP_MASK s;
          data = (if pcs_id = 0 then set_field data 1 0 3 else set_field data 3 2 3)
      in mpp_mask_set data s)"

text \<open>A read of a register, a change of one field, and the write.\<close>

definition mpp_rmw :: "env \<Rightarrow> u32 \<Rightarrow> nat \<Rightarrow> u32 \<Rightarrow> kern \<Rightarrow> kern" where
  "mpp_rmw E off b v s =
     (let (data, s) = mpp_reg_read E off s in mpp_reg_write off (set_field data b b v) s)"

definition mpp_phy_sram_bypass :: "env \<Rightarrow> kern \<Rightarrow> kern" where
  "mpp_phy_sram_bypass E = mpp_rmw E MPP_REG_ADDR_PHY_PARAM 10 1"

definition mpp_port_rst_n_set :: "env \<Rightarrow> nat \<Rightarrow> kern \<Rightarrow> kern" where
  "mpp_port_rst_n_set E pcs_id = mpp_rmw E MPP_REG_ADDR_MPP_PARAM (if pcs_id = 0 then 1 else 3) 0"

definition mpp_port_rst_n_release :: "env \<Rightarrow> nat \<Rightarrow> kern \<Rightarrow> kern" where
  "mpp_port_rst_n_release E pcs_id = mpp_rmw E MPP_REG_ADDR_MPP_PARAM (if pcs_id = 0 then 1 else 3) 1"

text \<open>Both branches of the source set the same field.\<close>

definition mpp_set_phy_pg_rst :: "env \<Rightarrow> nat \<Rightarrow> kern \<Rightarrow> kern" where
  "mpp_set_phy_pg_rst E pcs_id = mpp_rmw E MPP_REG_ADDR_PHY_PARAM 7 1"

definition mpp_release_phy_pg_rst :: "env \<Rightarrow> nat \<Rightarrow> kern \<Rightarrow> kern" where
  "mpp_release_phy_pg_rst E pcs_id = mpp_rmw E MPP_REG_ADDR_PHY_PARAM 7 0"

definition mpp_enable_port :: "env \<Rightarrow> nat \<Rightarrow> kern \<Rightarrow> kern" where
  "mpp_enable_port E pcs_id s =
     mpp_rmw E MPP_REG_ADDR_MPP_PARAM (if pcs_id = 0 then 0 else 2) 1 (mpp_enable_port_mask E pcs_id s)"

definition mpp_disable_port :: "env \<Rightarrow> nat \<Rightarrow> kern \<Rightarrow> kern" where
  "mpp_disable_port E pcs_id s =
     mpp_rmw E MPP_REG_ADDR_MPP_PARAM (if pcs_id = 0 then 0 else 2) 0 (mpp_enable_port_mask E pcs_id s)"

definition mpp_phy_ctl_sel :: "env \<Rightarrow> nat \<Rightarrow> kern \<Rightarrow> kern" where
  "mpp_phy_ctl_sel E pcs_id = mpp_rmw E MPP_REG_ADDR_MPP_PARAM 4 (word_of_nat pcs_id)"

section \<open>Interrupt unit\<close>

text \<open>\<open>RNIC_REG_BASE_ADDR_IEU\<close>\<close>

definition ieu_reg_write :: "u32 \<Rightarrow> u32 \<Rightarrow> kern \<Rightarrow> kern" where
  "ieu_reg_write offset wdata = reg_write (0x5000000 + offset) wdata"

definition ieu_reg_read :: "env \<Rightarrow> u32 \<Rightarrow> kern \<Rightarrow> u32 \<times> kern" where
  "ieu_reg_read E offset = reg_read E (0x5000000 + offset)"

definition ieu_rmw :: "env \<Rightarrow> u32 \<Rightarrow> nat \<Rightarrow> nat \<Rightarrow> u32 \<Rightarrow> kern \<Rightarrow> kern" where
  "ieu_rmw E off h l v s =
     (let (data, s) = ieu_reg_read E off s in ieu_reg_write off (set_field data h l v) s)"

definition ieu_report_pending_intr :: "env \<Rightarrow> kern \<Rightarrow> kern" where
  "ieu_report_pending_intr E s = snd (ieu_reg_read E 0xc20 s)"

definition ieu_hpb_csr_err_evt_int_en :: "kern \<Rightarrow> kern" where
  "ieu_hpb_csr_err_evt_int_en = ieu_reg_write 0xc8 0xffffffff"

definition ieu_hpb_csr_misc_int_en :: "kern \<Rightarrow> kern" where
  "ieu_hpb_csr_misc_int_en = ieu_reg_write 0xc 0xf"

definition ieu_int_direction_cfg :: "kern \<Rightarrow> kern" where
  "ieu_int_direction_cfg = ieu_reg_write 0xc74 0"

definition ieu_clear_intr_all :: "kern \<Rightarrow> kern" where
  "ieu_clear_intr_all = ieu_reg_write 0xc28 0xffffffff"

definition ieu_clear_intr_one :: "env \<Rightarrow> nat \<Rightarrow> kern \<Rightarrow> kern" where
  "ieu_clear_intr_one E i = ieu_rmw E 0xc28 i i 1"

definition ieu_disable_intr_one :: "env \<Rightarrow> nat \<Rightarrow> kern \<Rightarrow> kern" where
  "ieu_disable_intr_one E i = ieu_rmw E 0xc80 i i 0"

definition ieu_enable_intr_one :: "env \<Rightarrow> nat \<Rightarrow> kern \<Rightarrow> kern" where
  "ieu_enable_intr_one E i s = ieu_rmw E 0xc80 i i 1 (ieu_clear_intr_one E i s)"

definition ieu_clear_intr_tx_one :: "env \<Rightarrow> nat \<Rightarrow> kern \<Rightarrow> kern" where
  "ieu_clear_intr_tx_one E i = ieu_clear_intr_one E i"

definition ieu_disable_intr_tx_one :: "env \<Rightarrow> nat \<Rightarrow> kern \<Rightarrow> kern" where
  "ieu_disable_intr_tx_one E i = ieu_disable_intr_one E i"

definition ieu_enable_intr_tx_one :: "env \<Rightarrow> nat \<Rightarrow> kern \<Rightarrow> kern" where
  "ieu_enable_intr_tx_one E i = ieu_enable_intr_one E i"

definition ieu_clear_intr_rx_one :: "env \<Rightarrow> nat \<Rightarrow> kern \<Rightarrow> kern" where
  "ieu_clear_intr_rx_one E i = ieu_clear_intr_one E (i + 7)"

definition ieu_disable_intr_rx_one :: "env \<Rightarrow> nat \<Rightarrow> kern \<Rightarrow> kern" where
  "ieu_disable_intr_rx_one E i = ieu_disable_intr_one E (i + 7)"

definition ieu_enable_intr_rx_one :: "env \<Rightarrow> nat \<Rightarrow> kern \<Rightarrow> kern" where
  "ieu_enable_intr_rx_one E i = ieu_enable_intr_one E (i + 7)"

definition ieu_clear_intr_tx_all :: "kern \<Rightarrow> kern" where
  "ieu_clear_intr_tx_all = ieu_reg_write 0xc28 0x7f"

definition ieu_clear_intr_rx_all :: "kern \<Rightarrow> kern" where
  "ieu_clear_intr_rx_all = ieu_reg_write 0xc28 0x3f80"

definition ieu_disable_intr_all :: "kern \<Rightarrow> kern" where
  "ieu_disable_intr_all s = ieu_reg_write 0xc84 0 (ieu_reg_write 0xc80 0 s)"

definition ieu_enable_intr_all :: "kern \<Rightarrow> kern" where
  "ieu_enable_intr_all s =
     ieu_clear_intr_all (ieu_reg_write 0xc84 0xffffffff (ieu_reg_write 0xc80 0xffffffff s))"

definition ieu_disable_intr_tx_all :: "env \<Rightarrow> kern \<Rightarrow> kern" where
  "ieu_disable_intr_tx_all E = ieu_rmw E 0xc80 6 0 0"

definition ieu_disable_intr_rx_all :: "env \<Rightarrow> kern \<Rightarrow> kern" where
  "ieu_disable_intr_rx_all E = ieu_rmw E 0xc80 13 7 0"

definition ieu_disable_intr_tx_rx_all :: "env \<Rightarrow> kern \<Rightarrow> kern" where
  "ieu_disable_intr_tx_rx_all E s = ieu_disable_intr_rx_all E (ieu_disable_intr_tx_all E s)"

definition ieu_clear_intr_tx_rx_all :: "kern \<Rightarrow> kern" where
  "ieu_clear_intr_tx_rx_all s = ieu_clear_intr_rx_all (ieu_clear_intr_tx_all s)"

definition ieu_enable_intr_tx_rx_all :: "kern \<Rightarrow> kern" where
  "ieu_enable_intr_tx_rx_all s = ieu_reg_write 0xc84 1 (ieu_clear_intr_all s)"

definition ieu_enable_intr_tx_all :: "env \<Rightarrow> kern \<Rightarrow> kern" where
  "ieu_enable_intr_tx_all E s = ieu_rmw E 0xc80 6 0 0x7f (ieu_clear_intr_tx_all s)"

definition ieu_enable_intr_rx_all :: "env \<Rightarrow> kern \<Rightarrow> kern" where
  "ieu_enable_intr_rx_all E s = ieu_rmw E 0xc80 13 7 0x7f (ieu_clear_intr_rx_all s)"

definition ieu_init :: "kern \<Rightarrow> kern" where
  "ieu_init s =
     ieu_enable_intr_tx_rx_all (ieu_int_direction_cfg (ieu_hpb_csr_misc_int_en
       (ieu_hpb_csr_err_evt_int_en s)))"

section \<open>PCIe unit\<close>

definition pcie_base :: "nat \<Rightarrow> u32" where
  "pcie_base pcie_id = (if pcie_id = 1 then 0x3000000 else if pcie_id = 2 then 0x4000000 else 0x2000000)"

definition pcie_reg_write :: "nat \<Rightarrow> u32 \<Rightarrow> u32 \<Rightarrow> kern \<Rightarrow> kern" where
  "pcie_reg_write pcie_id offset wdata = reg_write (pcie_base pcie_id + offset) wdata"

definition pcie_reg_read :: "env \<Rightarrow> nat \<Rightarrow> u32 \<Rightarrow> kern \<Rightarrow> u32 \<times> kern" where
  "pcie_reg_read E pcie_id offset = reg_read E (pcie_base pcie_id + offset)"

definition pcie_reg_test :: "env \<Rightarrow> kern \<Rightarrow> kern" where
  "pcie_reg_test E s =
     snd (pcie_reg_read E 0 0x1002c0 (pcie_reg_write 0 0x1002c0 0 (snd (pcie_reg_read E 0 0x1002c0 s))))"

definition pcie_clear_link_down :: "kern \<Rightarrow> kern" where
  "pcie_clear_link_down = pcie_reg_write 0 0x400824 0"

definition pcie_set_max_payload_size :: "env \<Rightarrow> kern \<Rightarrow> kern" where
  "pcie_set_max_payload_size E s =
     (let (data, s) = pcie_reg_read E 0 0xc8 s in pcie_reg_write 0 0xc8 (set_field data 7 5 2) s)"

definition pcie_get_max_payload_size :: "env \<Rightarrow> kern \<Rightarrow> u32 \<times> kern" where
  "pcie_get_max_payload_size E s =
     (let (data, s) = pcie_reg_read E 0 0xc8 s in (get_field data 7 5, s))"

definition pcie_set_max_request_size :: "env \<Rightarrow> kern \<Rightarrow> kern" where
  "pcie_set_max_request_size E s =
     (let (data, s) = pcie_reg_read E 0 0xc8 s in pcie_reg_write 0 0xc8 (set_field data 14 12 3) s)"

definition pcie_init :: "kern \<Rightarrow> kern" where
  "pcie_init = pcie_clear_link_down"

section \<open>Connection manager and packet handler\<close>

text \<open>Both are behind the indirect register window. \<open>BASE_ADDR_CMCFG\<close> and its siblings are in bx_mpb.h.\<close>

definition cmcfg_reg_write :: "u32 \<Rightarrow> u32 \<Rightarrow> kern \<Rightarrow> kern" where
  "cmcfg_reg_write addr wdata = mpb_reg_write 0x20000000 addr wdata"

definition cmcfg_reg_read :: "env \<Rightarrow> u32 \<Rightarrow> kern \<Rightarrow> u32 \<times> kern" where
  "cmcfg_reg_read E addr = mpb_reg_read E 0x20000000 addr"

definition cmmsg_reg_write :: "u32 \<Rightarrow> u32 \<Rightarrow> kern \<Rightarrow> kern" where
  "cmmsg_reg_write addr wdata = mpb_reg_write 0x30000000 addr wdata"

definition cmmsg_reg_read :: "env \<Rightarrow> u32 \<Rightarrow> kern \<Rightarrow> u32 \<times> kern" where
  "cmmsg_reg_read E addr = mpb_reg_read E 0x30000000 addr"

fun cmcfg_writes :: "(u32 \<times> u32) list \<Rightarrow> kern \<Rightarrow> kern" where
  "cmcfg_writes [] s = s"
| "cmcfg_writes ((a, v) # ws) s = cmcfg_writes ws (cmcfg_reg_write a v s)"

definition cm_init :: "kern \<Rightarrow> kern" where
  "cm_init = cmcfg_writes
     [(0, 3), (1, 3), (2, 3), (0x12, 0x0100007f), (0x16, 0x5a5a5a5a), (0x17, 0x5a5a)]"

definition phd_init :: "nat \<Rightarrow> kern \<Rightarrow> kern" where
  "phd_init phd_id s =
     (let base = (if phd_id \<noteq> 0 then 0x60000000 else 0x50000000);
          s = mpb_reg_write base 0x16 0x0100007f s;
          s = mpb_reg_write base 0x26 0xc0000000 s;
          s = mpb_reg_write base 0x28 0 s
      in mpb_reg_write base 0 1 s)"

end
