(* ===== verification/Pcs_Correct.thy ===== *)
theory Pcs_Correct
  imports Pcs Units Mac_Correct
begin

text \<open>
  What runs of register changes of the physical layer leave in a card that keeps what is written
  to it, bit by bit; the lane profiles; and the interrupt unit in a legacy build.
\<close>

section \<open>Runs bit by bit\<close>

text \<open>The address of a register, and the ranges of bits that a run of changes sets.\<close>

definition pcs_addr :: "nat \<Rightarrow> u32 \<Rightarrow> u32" where
  "pcs_addr i off = pcs_base i + push_bit 2 off"

fun op_ranges :: "pcs_op \<Rightarrow> (u32 \<times> nat \<times> nat) list" where
  "op_ranges (Fields off fs) = map (\<lambda>(h, l, v). (off, h, l)) fs"
| "op_ranges (Put off v) = [(off, 31, 0)]"

definition ranges :: "pcs_op list \<Rightarrow> (u32 \<times> nat \<times> nat) list" where
  "ranges ops = concat (map op_ranges ops)"

definition ranges_ok :: "pcs_op list \<Rightarrow> bool" where
  "ranges_ok ops \<longleftrightarrow> list_all (\<lambda>(off, h, l). l \<le> h \<and> h \<le> 31) (ranges ops)"

definition touches :: "nat \<Rightarrow> pcs_op list \<Rightarrow> u32 \<Rightarrow> nat \<Rightarrow> bool" where
  "touches i ops a k \<longleftrightarrow> list_ex (\<lambda>(off, h, l). pcs_addr i off = a \<and> l \<le> k \<and> k \<le> h) (ranges ops)"

text \<open>Every range of the first run lies in one of the second.\<close>

definition covers :: "pcs_op list \<Rightarrow> pcs_op list \<Rightarrow> bool" where
  "covers ops' ops \<longleftrightarrow> list_all (\<lambda>(off, h, l). list_ex (\<lambda>(off', h', l'). off' = off \<and> l' \<le> l \<and> h \<le> h') (ranges ops')) (ranges ops)"

lemma touches_iff: "touches i ops a k \<longleftrightarrow> (\<exists>off h l. (off, h, l) \<in> set (ranges ops) \<and> pcs_addr i off = a \<and> l \<le> k \<and> k \<le> h)"
  by (force simp: touches_def list_ex_iff)

lemma covers_touches:
  assumes "covers ops' ops" and "touches i ops a k"
  shows "touches i ops' a k"
proof -
  obtain off h l where r: "(off, h, l) \<in> set (ranges ops)" "pcs_addr i off = a" "l \<le> k" "k \<le> h"
    using assms(2) unfolding touches_iff by blast
  then obtain h' l' where "(off, h', l') \<in> set (ranges ops')" "l' \<le> l" "h \<le> h'"
    using assms(1) by (fastforce simp: covers_def list_all_iff list_ex_iff)
  with r show ?thesis unfolding touches_iff by (blast intro: le_trans)
qed

text \<open>The value of a bit after a run, from the value before.\<close>

definition field_bit :: "nat \<Rightarrow> nat \<times> nat \<times> u32 \<Rightarrow> bool \<Rightarrow> bool" where
  "field_bit k = (\<lambda>(h, l, v) b. if l \<le> k \<and> k \<le> h then bit v (k - l) else b)"

fun op_bit :: "nat \<Rightarrow> pcs_op \<Rightarrow> u32 \<Rightarrow> nat \<Rightarrow> bool \<Rightarrow> bool" where
  "op_bit i (Fields off fs) a k b = (if pcs_addr i off = a then fold (field_bit k) fs b else b)"
| "op_bit i (Put off v) a k b = (if pcs_addr i off = a then bit v k else b)"

lemma bit_set_fields:
  "list_all (\<lambda>(h, l, v). l \<le> h \<and> h \<le> 31) fs \<Longrightarrow> k < 32 \<Longrightarrow>
   bit (set_fields fs d) k = fold (field_bit k) fs (bit d k)"
proof (induction fs arbitrary: d)
  case Nil
  then show ?case by (simp add: set_fields_def)
next
  case (Cons f fs)
  obtain h l v where f: "f = (h, l, v)" by (cases f)
  have "bit (set_fields (f # fs) d) k = bit (set_fields fs (set_field d h l v)) k"
    by (simp add: set_fields_def f)
  also have "\<dots> = fold (field_bit k) fs (bit (set_field d h l v) k)" using Cons by (simp add: f)
  finally show ?case using Cons.prems by (simp add: f field_bit_def bit_set_field)
qed

lemma regs_pcs_write [simp]: "regs (pcs_reg_write i off v s) = (regs s)(pcs_addr i off := v)"
  by (rule ext) (simp add: pcs_reg_write_def reg_write_def pcs_addr_def)

lemma regs_pcs_read [simp]: "regs (snd (pcs_reg_read E i off s)) = regs s"
  by (rule ext) (simp add: pcs_reg_read_def reg_read_def readl_def Let_def)

context mac_device
begin

lemma pcs_read_value: "fst (pcs_reg_read E i off s) = regs s (pcs_addr i off)"
  by (simp add: pcs_reg_read_def reg_read_def readl_def keeps Let_def pcs_addr_def)

lemma step_bit:
  assumes "ranges_ok [x]" and "k < 32"
  shows "bit (regs (pcs_step E i x s) a) k = op_bit i x a k (bit (regs s a) k)"
proof (cases x)
  case (Fields off fs)
  then have "list_all (\<lambda>(h, l, v). l \<le> h \<and> h \<le> 31) fs"
    using assms(1) by (auto simp: ranges_ok_def ranges_def list_all_iff)
  from bit_set_fields [OF this assms(2)] show ?thesis
    by (auto simp: Fields Let_def split_def pcs_read_value)
next
  case (Put off v)
  then show ?thesis by (simp add: Let_def split_def)
qed

lemma run_bit:
  assumes "ranges_ok ops" and "k < 32"
  shows "bit (regs (pcs_run E i ops s) a) k = fold (\<lambda>x. op_bit i x a k) ops (bit (regs s a) k)"
  using assms(1)
proof (induction ops arbitrary: s)
  case (Cons x ops)
  then have "ranges_ok [x]" "ranges_ok ops" by (simp_all add: ranges_ok_def ranges_def)
  then show ?case using Cons.IH step_bit assms(2) by (simp add: pcs_run_def)
qed (simp add: pcs_run_def)

end

lemma field_bit_hit:
  "list_ex (\<lambda>(h, l, v). l \<le> k \<and> k \<le> h) fs \<Longrightarrow> fold (field_bit k) fs b = fold (field_bit k) fs b'"
proof (induction fs arbitrary: b b')
  case (Cons f fs)
  obtain h l v where f: "f = (h, l, v)" by (cases f)
  show ?case
  proof (cases "l \<le> k \<and> k \<le> h")
    case True
    then show ?thesis by (simp add: f field_bit_def)
  next
    case False
    then have "list_ex (\<lambda>(h, l, v). l \<le> k \<and> k \<le> h) fs" using Cons.prems by (auto simp: f)
    from Cons.IH [OF this] show ?thesis by (simp add: f)
  qed
qed simp

lemma field_bit_same:
  "\<not> list_ex (\<lambda>(h, l, v). l \<le> k \<and> k \<le> h) fs \<Longrightarrow> fold (field_bit k) fs c = c"
proof (induction fs arbitrary: c)
  case (Cons f fs)
  obtain h l v where f: "f = (h, l, v)" by (cases f)
  have "\<not> (l \<le> k \<and> k \<le> h)" "\<not> list_ex (\<lambda>(h, l, v). l \<le> k \<and> k \<le> h) fs"
    using Cons.prems unfolding f by simp_all
  then have "field_bit k f c = c" by (auto simp: f field_bit_def)
  then show ?case using Cons.IH \<open>\<not> list_ex _ fs\<close> by simp
qed simp

lemma touches_fields:
  "touches i [Fields off fs] a k \<longleftrightarrow> pcs_addr i off = a \<and> list_ex (\<lambda>(h, l, v). l \<le> k \<and> k \<le> h) fs"
  by (induction fs) (auto simp: touches_def ranges_def split_def)

lemma op_touched: "touches i [x] a k \<Longrightarrow> op_bit i x a k b = op_bit i x a k b'"
proof (cases x)
  case (Fields off fs)
  assume "touches i [x] a k"
  then show ?thesis using field_bit_hit [of k fs b b'] by (simp add: Fields touches_fields)
next
  case (Put off v)
  assume "touches i [x] a k"
  then show ?thesis by (simp add: Put touches_def ranges_def)
qed

lemma op_untouched:
  assumes "k < 32" and "\<not> touches i [x] a k"
  shows "op_bit i x a k b = b"
proof (cases x)
  case (Fields off fs)
  then show ?thesis using assms(2) field_bit_same by (simp add: touches_fields)
next
  case (Put off v)
  then show ?thesis using assms by (auto simp: touches_def ranges_def)
qed

lemma touches_cons: "touches i (x # ops) a k \<longleftrightarrow> touches i [x] a k \<or> touches i ops a k"
  by (simp add: touches_def ranges_def)

lemma run_untouched:
  "k < 32 \<Longrightarrow> \<not> touches i ops a k \<Longrightarrow> fold (\<lambda>x. op_bit i x a k) ops b = b"
proof (induction ops)
  case (Cons x ops)
  then show ?case using op_untouched touches_cons [of i x ops a k] by simp
qed simp

lemma run_touched:
  "k < 32 \<Longrightarrow> touches i ops a k \<Longrightarrow> fold (\<lambda>x. op_bit i x a k) ops b = fold (\<lambda>x. op_bit i x a k) ops b'"
proof (induction ops arbitrary: b b')
  case (Cons x ops)
  then show ?case
    using op_touched [of i x a k b b'] run_untouched [of k i ops a] touches_cons [of i x ops a k]
    by (cases "touches i ops a k") simp_all
qed (simp add: touches_def ranges_def)

lemma run_absorbs:
  assumes "mac_device E" and "ranges_ok ops" "ranges_ok ops'" and "covers ops' ops"
  shows "regs (pcs_run E i ops' (pcs_run E i ops s)) = regs (pcs_run E i ops' s)"
proof
  fix a
  show "regs (pcs_run E i ops' (pcs_run E i ops s)) a = regs (pcs_run E i ops' s) a"
  proof (rule word_eqI_bits)
    fix k assume "k < LENGTH(32)"
    then have k: "k < 32" by simp
    show "bit (regs (pcs_run E i ops' (pcs_run E i ops s)) a) k = bit (regs (pcs_run E i ops' s) a) k"
      unfolding mac_device.run_bit [OF assms(1,3) k] mac_device.run_bit [OF assms(1,2) k]
      using run_touched [OF k] run_untouched [OF k] covers_touches [OF assms(4)] by metis
  qed
qed


section \<open>Lane profiles\<close>




text \<open>A run that covers another and is covered by it replaces it, and leaves what neither sets.\<close>

lemma profiles_swap:
  assumes "mac_device E" and "f = pcs_run E i ops" "g = pcs_run E i ops'"
    and "ranges_ok ops" "ranges_ok ops'" "covers ops' ops" "covers ops ops'"
  shows "regs (g (f s)) = regs (g s) \<and> regs (f (g s)) = regs (f s)"
  using assms run_absorbs by metis

lemma run_keeps:
  assumes "mac_device E" and "f = pcs_run E i ops" and "ranges_ok ops" and "\<not> touches i ops a k" and "k < 32"
  shows "bit (regs (f s) a) k = bit (regs s a) k"
  using mac_device.run_bit [OF assms(1,3,5), of i s a] run_untouched [OF assms(5,4)] assms(2) by simp

text \<open>
  The two lane profiles replace each other. On a card whose registers keep what is written,
  configuring the lanes for 25G after 10G, or for 10G after 25G, leaves every register as if the
  other profile had never been set. Neither sets the DFE taps of lanes 1 and 3: both fields of a
  tap register are declared as its lower half.
\<close>

theorem lane_profiles_replace:
  assumes "mac_device E" and "off \<in> {0x1805e, 0x1805f}" and "8 \<le> k" "k < 16"
  shows "regs (pcs_per_lane_cfg_25g E i (pcs_per_lane_cfg_10g E i s)) = regs (pcs_per_lane_cfg_25g E i s) \<and>
    regs (pcs_per_lane_cfg_10g E i (pcs_per_lane_cfg_25g E i s)) = regs (pcs_per_lane_cfg_10g E i s) \<and>
    bit (regs (pcs_per_lane_cfg_25g E i s) (pcs_addr i off)) k = bit (regs s (pcs_addr i off)) k \<and>
    bit (regs (pcs_per_lane_cfg_10g E i s) (pcs_addr i off)) k = bit (regs s (pcs_addr i off)) k"
proof -
  have "regs (pcs_per_lane_cfg_25g E i (pcs_per_lane_cfg_10g E i s)) = regs (pcs_per_lane_cfg_25g E i s) \<and>
      regs (pcs_per_lane_cfg_10g E i (pcs_per_lane_cfg_25g E i s)) = regs (pcs_per_lane_cfg_10g E i s)"
    by (rule profiles_swap [OF assms(1) pcs_per_lane_cfg_10g_def pcs_per_lane_cfg_25g_def])
      (simp_all add: ranges_ok_def ranges_def covers_def)
  moreover have "bit (regs (pcs_per_lane_cfg_25g E i s) (pcs_addr i off)) k = bit (regs s (pcs_addr i off)) k"
    by (rule run_keeps [OF assms(1) pcs_per_lane_cfg_25g_def])
      (use assms(2-4) in \<open>auto simp: ranges_ok_def ranges_def touches_def pcs_addr_def\<close>)
  moreover have "bit (regs (pcs_per_lane_cfg_10g E i s) (pcs_addr i off)) k = bit (regs s (pcs_addr i off)) k"
    by (rule run_keeps [OF assms(1) pcs_per_lane_cfg_10g_def])
      (use assms(2-4) in \<open>auto simp: ranges_ok_def ranges_def touches_def pcs_addr_def\<close>)
  ultimately show ?thesis by blast
qed

theorem lane_profiles_replace_witness:
  "regs (pcs_per_lane_cfg_25g keep_env 0 (pcs_per_lane_cfg_10g keep_env 0 empty_kern)) =
   regs (pcs_per_lane_cfg_25g keep_env 0 empty_kern)"
  using lane_profiles_replace [OF keep_card.mac_device_axioms, of "0x1805e" 8] by simp

section \<open>Interrupts in a legacy build\<close>

lemma regs_ieu_write [simp]: "regs (ieu_reg_write off v s) = (regs s)(0x5000000 + off := v)"
  by (rule ext) (simp add: ieu_reg_write_def reg_write_def)

lemma regs_ieu_rmw:
  "regs (ieu_rmw E off h l v s) = upd_reg (0x5000000 + off) (\<lambda>d. set_field d h l v) (regs s)" if "mac_device E"
proof -
  have "fst (ieu_reg_read E off s) = regs s (0x5000000 + off)"
    using that by (simp add: ieu_reg_read_def reg_read_def readl_def mac_device_def Let_def)
  moreover have "regs (snd (ieu_reg_read E off s)) = regs s"
    by (rule ext) (simp add: ieu_reg_read_def reg_read_def readl_def Let_def)
  ultimately show ?thesis by (simp add: ieu_rmw_def upd_reg_def Let_def split_def)
qed

text \<open>
  In the legacy build disabling the interrupts does not disable them. Enabling sets the mask
  of the side band interrupt, register 0xc84; disabling clears the masks of the message-signalled
  interrupts in register 0xc80, which that build never sets, and leaves 0xc84 on.
\<close>

theorem legacy_interrupt_stays_on:
  assumes "mac_device E"
  shows "regs (ieu_disable_intr_tx_rx_all E (ieu_enable_intr_tx_rx_all s)) 0x5000c84 = 1 \<and>
    regs (ieu_disable_intr_tx_rx_all E s) 0x5000c84 = regs s 0x5000c84 \<and>
    (\<forall>k. k < 14 \<longrightarrow> \<not> bit (regs (ieu_disable_intr_tx_rx_all E s) 0x5000c80) k)"
  using assms
  by (auto simp: ieu_disable_intr_tx_rx_all_def ieu_disable_intr_rx_all_def ieu_disable_intr_tx_all_def
      ieu_enable_intr_tx_rx_all_def ieu_clear_intr_all_def regs_ieu_rmw upd_reg_def bit_set_field)

theorem legacy_interrupt_stays_on_witness:
  "regs (ieu_disable_intr_tx_rx_all keep_env (ieu_enable_intr_tx_rx_all empty_kern)) 0x5000c84 = 1"
  using legacy_interrupt_stays_on [OF keep_card.mac_device_axioms] by blast

end
