(* ===== verification/Link.thy ===== *)
theory Link
  imports Pcs Units
begin

text \<open>
  Bringing the link up: the speed tables (bx_mpu.c), the parts of bx_pcs.c that keep state, the
  start-up of the units (\<open>mpp_init\<close>, \<open>rnic_init\<close>, \<open>mac_hw_exit\<close>) and the timers that watch the
  link (bx_mac_net.c). The fields \<open>pcs_0_x\<close> and \<open>pcs_1_x\<close> of \<open>struct rnic_pdata\<close> are the field \<open>x\<close>
  of the ports 0 and 1. Of the configuration macros only \<open>PORT_0_25G\<close> is defined, so \<open>PORT_0_EN\<close>
  is too. \<open>get_random_num\<close> takes its value from the kernel: a function of the history.
\<close>

section \<open>State\<close>

record port_state =
  port_speed :: int
  link_down_cnt :: int
  type_sel :: u32
  speed_sel :: u32
  mode_50g :: u32
  mpllb_sel :: int
  krt_en :: int
  an_en :: int
  rs_fec_en :: int
  base_r_fec_en :: int
  an_bp_1 :: u32
  an_bp_2 :: u32
  an_bp_3 :: u32
  an_nxp_0 :: "u32 \<times> u32 \<times> u32"   \<comment> \<open>\<open>an_nxp_1_0\<close>, \<open>an_nxp_2_0\<close>, \<open>an_nxp_3_0\<close>\<close>
  an_nxp_1 :: "u32 \<times> u32 \<times> u32"   \<comment> \<open>\<open>an_nxp_1_1\<close>, \<open>an_nxp_2_1\<close>, \<open>an_nxp_3_1\<close>\<close>
  an_nxp_index :: int
  krt_lane_mask :: u32
  krt_cl72_en :: int
  krt_check :: int
  speed_switch :: int
  an_start :: int
  an_rcv_cnt :: int
  an_intr_check_cnt :: int
  an_success :: int
  an_restart_lock :: int
  krt_start :: int
  krt_success :: int
  krt_failed :: int
  link_up_only :: int

record pcs_pdata = rnic_pdata +
  mplla_en :: int
  mpllb_en :: int
  port_0 :: port_state
  port_1 :: port_state
  an_nxp_null :: "u32 \<times> u32 \<times> u32"

text \<open>With the two fields of \<open>struct mac_pdata\<close> that the link uses, and the card.\<close>

record link =
  pd :: pcs_pdata
  link_check_usecs :: nat
  link_up :: int
  card :: kern

definition port :: "nat \<Rightarrow> pcs_pdata \<Rightarrow> port_state" where
  "port i P = (if i = 0 then port_0 P else port_1 P)"

definition upd_port :: "nat \<Rightarrow> (port_state \<Rightarrow> port_state) \<Rightarrow> pcs_pdata \<Rightarrow> pcs_pdata" where
  "upd_port i f P =
     (if i = 0 then P\<lparr>port_0 := f (port_0 P)\<rparr> else P\<lparr>port_1 := f (port_1 P)\<rparr>)"

definition with_port :: "nat \<Rightarrow> (port_state \<Rightarrow> port_state) \<Rightarrow> link \<Rightarrow> link" where
  "with_port i f L = L\<lparr>pd := upd_port i f (pd L)\<rparr>"

definition on_card :: "(kern \<Rightarrow> kern) \<Rightarrow> link \<Rightarrow> link" where
  "on_card f L = L\<lparr>card := f (card L)\<rparr>"

text \<open>\<open>PCS_LINK_CHECK_SLOW_TIMER_USECS\<close> and \<open>PCS_LINK_CHECK_FAST_TIMER_USECS\<close>\<close>

abbreviation (input) SLOW :: nat where "SLOW \<equiv> 100000"
abbreviation (input) FAST :: nat where "FAST \<equiv> 1"

definition get_random_num :: "(event list \<Rightarrow> u32) \<Rightarrow> kern \<Rightarrow> u32 \<times> kern" where
  "get_random_num rnd s =
     (rnd (trace s), emit (Ecall ''get_random_bytes'' [unat (rnd (trace s))]) s)"

section \<open>Speed tables\<close>

definition null_next :: "pcs_pdata \<Rightarrow> port_state \<Rightarrow> port_state" where
  "null_next P p = p\<lparr>an_nxp_0 := an_nxp_null P, an_nxp_1 := an_nxp_null P\<rparr>"

definition speed_fields :: "u32 \<Rightarrow> u32 \<Rightarrow> u32 \<Rightarrow> int \<Rightarrow> port_state \<Rightarrow> port_state" where
  "speed_fields ty sp m b p = p\<lparr>type_sel := ty, speed_sel := sp, mode_50g := m, mpllb_sel := b\<rparr>"

definition base_page :: "u32 \<Rightarrow> u32 \<Rightarrow> u32 \<Rightarrow> port_state \<Rightarrow> port_state" where
  "base_page a b c p = p\<lparr>an_bp_1 := a, an_bp_2 := b, an_bp_3 := c\<rparr>"

definition train_fields :: "u32 \<Rightarrow> int \<Rightarrow> port_state \<Rightarrow> port_state" where
  "train_fields lanes cl72 p = p\<lparr>krt_lane_mask := lanes, krt_cl72_en := cl72\<rparr>"

definition neg_fields :: "int \<Rightarrow> int \<Rightarrow> int \<Rightarrow> port_state \<Rightarrow> port_state" where
  "neg_fields k a u p = p\<lparr>krt_en := k, an_en := a, link_up_only := u\<rparr>"

definition next_pages :: "u32 \<times> u32 \<times> u32 \<Rightarrow> u32 \<times> u32 \<times> u32 \<Rightarrow> port_state \<Rightarrow> port_state" where
  "next_pages a b p = p\<lparr>an_nxp_0 := a, an_nxp_1 := b\<rparr>"

text \<open>The consortium's next pages; the last one differs between 25G and 50G.\<close>

definition nxp_first :: "u32 \<times> u32 \<times> u32" where
  "nxp_first = (0xA005, 0x0353, 0x04DF)"

definition mpu_speed_set_0 :: "pcs_pdata \<Rightarrow> pcs_pdata" where
  "mpu_speed_set_0 P =
     (let sp = port_speed (port_0 P)
      in if sp = 50 then
           (P\<lparr>mpllb_en := 1, mac_0_speed_mode := 2,
              port_0 := neg_fields 0 1 1 (train_fields 3 1 (next_pages nxp_first (0x0203, 0x0330, 0x0F00)
                (base_page 0x8001 0xC380 0 (speed_fields 4 4 3 1 (port_0 P)))))\<rparr>)
         else if sp = 25 then
           (P\<lparr>mpllb_en := 1, mac_0_speed_mode := 1,
              port_0 := neg_fields 0 1 1 (train_fields 1 1 (next_pages nxp_first (0x0203, 0x0030, 0x0F00)
                (base_page 0x8001 0xC080 0 (speed_fields 7 5 1 1 (port_0 P)))))\<rparr>)
         else if sp = 40 then
           (P\<lparr>mplla_en := 1, mac_0_speed_mode := 0,
              port_0 := neg_fields 1 1 0 (train_fields 0xf 0 (null_next P
                (base_page 1 0xC380 0 (speed_fields 4 3 0 0 (port_0 P)))))\<rparr>)
         else if sp = 10 then
           (P\<lparr>mplla_en := 1, mac_0_speed_mode := 4,
              port_0 := neg_fields 1 1 0 (train_fields 1 0 (null_next P
                (base_page 1 0x0080 0 (speed_fields 0 0 0 0 (port_0 P)))))\<rparr>)
         else
           (P\<lparr>mpllb_en := 1, mac_0_speed_mode := 3,
              port_0 := neg_fields 1 1 0 (train_fields 0xf 0 (null_next P
                (base_page 1 0xF380 0 (speed_fields 5 4 0 1 (port_0 P)))))\<rparr>))"

text \<open>
  Port 1 keeps its negotiation switches, and its next pages in the default case. The base page
  of 50G is written twice, and the second value stays.
\<close>

definition mpu_speed_set_1 :: "pcs_pdata \<Rightarrow> pcs_pdata" where
  "mpu_speed_set_1 P =
     (let sp = port_speed (port_1 P)
      in if sp = 50 then
           (P\<lparr>mpllb_en := 1, mac_1_speed_mode := 2,
              port_1 := train_fields 3 1 (next_pages nxp_first (0x0203, 0x0330, 0x0F00)
                (base_page 0x8001 0xC080 0 (speed_fields 4 4 3 1 (port_1 P))))\<rparr>)
         else if sp = 25 then
           (P\<lparr>mpllb_en := 1, mac_1_speed_mode := 1,
              port_1 := train_fields 1 1 (next_pages nxp_first (0x0203, 0x0030, 0x0F00)
                (base_page 0x8001 0xC080 0 (speed_fields 7 5 1 1 (port_1 P))))\<rparr>)
         else if sp = 10 then
           (P\<lparr>mplla_en := 1, mac_1_speed_mode := 4,
              port_1 := train_fields 1 0 (null_next P
                (base_page 1 0x0080 0 (speed_fields 0 0 0 0 (port_1 P))))\<rparr>)
         else
           (P\<lparr>mpllb_en := 1, mac_1_speed_mode := 2,
              port_1 := train_fields 3 0
                (base_page 1 0xC380 0 (speed_fields 4 4 3 1 (port_1 P)))\<rparr>))"

definition mpu_speed_set :: "nat \<Rightarrow> pcs_pdata \<Rightarrow> pcs_pdata" where
  "mpu_speed_set port_id P = (if port_id = 0 then mpu_speed_set_0 P else mpu_speed_set_1 P)"

definition idle_fields :: "port_state \<Rightarrow> port_state" where
  "idle_fields p = p\<lparr>krt_check := 0, speed_switch := 0, an_start := 0, an_restart_lock := 0,
     an_rcv_cnt := 0, an_intr_check_cnt := 0, an_success := 0, krt_start := 0, krt_success := 0,
     krt_failed := 0, an_nxp_index := 0, rs_fec_en := 0, base_r_fec_en := 0, link_down_cnt := 0\<rparr>"

text \<open>
  The macro \<open>PORT_0_25G\<close> sets the speed of port 0; port 1 has the default. The switch
  \<open>pcs_1_link_up_only\<close> is not initialised.
\<close>

definition mpu_init :: "pcs_pdata \<Rightarrow> pcs_pdata" where
  "mpu_init P =
     (let P = P\<lparr>mplla_en := 0, mpllb_en := 0, mac_0_speed_mode := 3, mac_1_speed_mode := 2,
                an_nxp_null := (0x2001, 0, 0)\<rparr>;
          P = P\<lparr>port_0 := idle_fields (neg_fields 0 0 0 (train_fields 0xf 0
                (next_pages nxp_first (0x0203, 0x0330, 0x0F00) (base_page 1 0xF380 0
                (speed_fields 5 4 0 1 ((port_0 P)\<lparr>port_speed := 25\<rparr>))))))\<rparr>;
          P = P\<lparr>port_1 := idle_fields (train_fields 3 0
                (next_pages nxp_first (0x0203, 0x0330, 0x0F00) (base_page 1 0xC380 0
                (speed_fields 4 4 3 1 ((port_1 P)\<lparr>port_speed := 50, krt_en := 0, an_en := 0\<rparr>)))))\<rparr>;
          P = (if mplla_en P = 0 \<and> mpllb_en P = 0 then P\<lparr>mpllb_en := 1\<rparr> else P)
      in mpu_speed_set 1 (mpu_speed_set 0 P))"

section \<open>Programming the speed\<close>

text \<open>\<open>port_id == 0 && pcs_0_x == v || port_id == 1 && pcs_1_x == v\<close>\<close>

definition port_is :: "nat \<Rightarrow> (port_state \<Rightarrow> int) \<Rightarrow> int \<Rightarrow> pcs_pdata \<Rightarrow> bool" where
  "port_is i sel v P \<longleftrightarrow> (i = 0 \<and> sel (port_0 P) = v) \<or> (i = 1 \<and> sel (port_1 P) = v)"

definition pcs_rs_fec_cfg :: "env \<Rightarrow> pcs_pdata \<Rightarrow> nat \<Rightarrow> kern \<Rightarrow> kern" where
  "pcs_rs_fec_cfg E P port_id = pcs_run E port_id
     [Fields SR_PMA_RS_FEC_CTRL [(2, 2, if port_is port_id rs_fec_en 1 P then 1 else 0)]]"

definition pcs_base_r_fec_cfg :: "env \<Rightarrow> pcs_pdata \<Rightarrow> nat \<Rightarrow> kern \<Rightarrow> kern" where
  "pcs_base_r_fec_cfg E P port_id = pcs_run E port_id
     [Fields SR_PMA_KR_FEC_CTRL [(0, 0, if port_is port_id base_r_fec_en 1 P then 1 else 0)]]"

definition pcs_type_cfg :: "env \<Rightarrow> pcs_pdata \<Rightarrow> nat \<Rightarrow> kern \<Rightarrow> kern" where
  "pcs_type_cfg E P port_id = pcs_run E port_id
     [Fields SR_PCS_CTRL2 [PCS_TYPE_SEL (type_sel (port port_id P))]]"

definition pcs_pcs_speed_set :: "env \<Rightarrow> pcs_pdata \<Rightarrow> nat \<Rightarrow> kern \<Rightarrow> kern" where
  "pcs_pcs_speed_set E P port_id = pcs_run E port_id
     [Fields SR_PCS_CTRL1 [PCS_SPEED_SEL (speed_sel (port port_id P))]]"

definition pcs_50g_mode_cfg :: "env \<Rightarrow> pcs_pdata \<Rightarrow> nat \<Rightarrow> kern \<Rightarrow> kern" where
  "pcs_50g_mode_cfg E P port_id = pcs_run E port_id
     [Fields VR_PCS_DIG_CTRL3 [(1, 0, mode_50g (port port_id P))]]"

definition pcs_speed_set :: "env \<Rightarrow> pcs_pdata \<Rightarrow> nat \<Rightarrow> kern \<Rightarrow> kern" where
  "pcs_speed_set E P port_id s =
     (let s = pcs_rs_fec_cfg E P port_id s;
          s = pcs_base_r_fec_cfg E P port_id s;
          s = pcs_type_cfg E P port_id s;
          s = pcs_pcs_speed_set E P port_id s
      in pcs_50g_mode_cfg E P port_id s)"

definition pcs_per_lane_cfg :: "env \<Rightarrow> pcs_pdata \<Rightarrow> nat \<Rightarrow> kern \<Rightarrow> kern" where
  "pcs_per_lane_cfg E P port_id s =
     (let s = (if port_is port_id mpllb_sel 0 P then pcs_per_lane_cfg_10g E port_id s else s)
      in if port_is port_id mpllb_sel 1 P then pcs_per_lane_cfg_25g E port_id s else s)"

definition pcs_mpll_en_cfg :: "env \<Rightarrow> pcs_pdata \<Rightarrow> nat \<Rightarrow> kern \<Rightarrow> kern" where
  "pcs_mpll_en_cfg E P port_id = pcs_run E port_id
     [Fields VR_PMA_SNPS_MP_25G_MPLLA_CTRL0 [MPLLA_CAL_DISABLE (if mplla_en P = 0 then 1 else 0)],
      Fields VR_PMA_SNPS_MP_25G_MPLLB_CTRL0 [MPLLB_CAL_DISABLE (if mpllb_en P = 0 then 1 else 0)]]"

definition pcs_mpll_cfg :: "env \<Rightarrow> pcs_pdata \<Rightarrow> nat \<Rightarrow> kern \<Rightarrow> kern" where
  "pcs_mpll_cfg E P port_id s =
     (let s = (if mplla_en P = 1 then pcs_mplla_cfg E port_id s else s);
          s = (if mpllb_en P = 1 then pcs_mpllb_cfg E port_id s else s)
      in pcs_mpll_en_cfg E P port_id s)"

definition pcs_speed_common_cfg :: "env \<Rightarrow> pcs_pdata \<Rightarrow> nat \<Rightarrow> kern \<Rightarrow> kern option" where
  "pcs_speed_common_cfg E P port_id s = do {
     let s = pcs_mpll_cfg E P port_id s;
     let s = pcs_per_lane_cfg E P port_id s;
     let s = pcs_set_vr_reset E port_id s;
     s \<leftarrow> pcs_sram_cfg E port_id s;
     s \<leftarrow> pcs_wait_vr_reset_clear E port_id s;
     Some (pcs_tx_eq_cfg E port_id s)
   }"

definition pcs_speed_switch :: "env \<Rightarrow> pcs_pdata \<Rightarrow> nat \<Rightarrow> kern \<Rightarrow> kern option" where
  "pcs_speed_switch E P port_id s = pcs_speed_common_cfg E P port_id (pcs_speed_set E P port_id s)"

section \<open>Auto-negotiation and link training\<close>

definition pcs_an_disable :: "env \<Rightarrow> nat \<Rightarrow> link \<Rightarrow> link" where
  "pcs_an_disable E port_id L =
     with_port port_id (\<lambda>p. p\<lparr>an_start := 0, an_rcv_cnt := 0, an_intr_check_cnt := 0\<rparr>)
       (on_card (pcs_run E port_id [Fields SR_AN_CTRL [(12, 12, 0)]]) L)"

text \<open>The pages shown for port 1 are those of port 0; \<open>printk\<close> has no other effect.\<close>

definition pcs_an_base_page_cfg :: "nat \<Rightarrow> link \<Rightarrow> link" where
  "pcs_an_base_page_cfg port_id L =
     (let p = port port_id (pd L)
      in on_card (\<lambda>s. pcs_reg_write port_id SR_AN_ADV1 (an_bp_1 p)
           (pcs_reg_write port_id SR_AN_ADV2 (an_bp_2 p)
             (pcs_reg_write port_id SR_AN_ADV3 (an_bp_3 p) s))) L)"

definition pcs_an_cfg :: "env \<Rightarrow> nat \<Rightarrow> link \<Rightarrow> link" where
  "pcs_an_cfg E port_id L =
     (let L = pcs_an_disable E port_id L;
          L = on_card (pcs_an_clear_all_intr port_id) L;
          L = on_card (pcs_an_enable_intr port_id) L;
          L = on_card (pcs_an_ext_np_ctl_en E port_id) L;
          L = on_card (pcs_an_pdet_cfg E port_id) L
      in pcs_an_base_page_cfg port_id L)"

text \<open>The switch is that of port 0, whatever the port.\<close>

definition pcs_an_start :: "env \<Rightarrow> nat \<Rightarrow> link \<Rightarrow> link" where
  "pcs_an_start E port_id L =
     (if an_en (port_0 (pd L)) \<noteq> 0 then
        (let L = on_card (pcs_an_clear_all_intr port_id) L;
             L = on_card (pcs_run E port_id [Fields SR_AN_CTRL [(12, 12, 1), (9, 9, 1)]]) L;
             L = with_port port_id (\<lambda>p. p\<lparr>an_start := 1, an_restart_lock := 1, an_rcv_cnt := 0,
                   an_intr_check_cnt := 0, an_success := 0, an_nxp_index := 0, krt_success := 0,
                   krt_failed := 0\<rparr>) L
         in L\<lparr>link_check_usecs := FAST\<rparr>)
      else L)"

definition pcs_krt_start :: "env \<Rightarrow> nat \<Rightarrow> link \<Rightarrow> link" where
  "pcs_krt_start E port_id L =
     (let p = port port_id (pd L)
      in if krt_start p = 0 then
           (if krt_en p \<noteq> 0 then
              on_card (pcs_krt_restart E port_id) (on_card (pcs_krt_enable E port_id)
                (with_port port_id (\<lambda>p. p\<lparr>krt_start := 1\<rparr>) L))
            else with_port port_id (\<lambda>p. p\<lparr>krt_failed := 1\<rparr>) L)
         else L)"

definition pcs_an_timeout :: "env \<Rightarrow> nat \<Rightarrow> link \<Rightarrow> link" where
  "pcs_an_timeout E port_id L = (pcs_an_disable E port_id L)\<lparr>link_check_usecs := SLOW\<rparr>"

definition pcs_an_inc_link :: "env \<Rightarrow> (event list \<Rightarrow> u32) \<Rightarrow> nat \<Rightarrow> link \<Rightarrow> link" where
  "pcs_an_inc_link E rnd port_id L =
     (let L = on_card (pcs_an_clear_intr E port_id (1, 1)) L;
          L = pcs_an_disable E port_id L;
          (r, s) = get_random_num rnd (card L)
      in L\<lparr>card := s, link_check_usecs := unat r mod SLOW + 1\<rparr>)"

text \<open>The flags of training are those of port 0, whatever the port.\<close>

definition pcs_an_int_cmpl :: "env \<Rightarrow> nat \<Rightarrow> link \<Rightarrow> link" where
  "pcs_an_int_cmpl E port_id L =
     (let L = (if krt_success (port_0 (pd L)) \<noteq> 0 \<or> krt_failed (port_0 (pd L)) \<noteq> 0 then
                 pcs_an_disable E port_id
                   (with_port port_id (\<lambda>p. p\<lparr>an_success := 1, an_start := 0\<rparr>) L)
               else pcs_krt_start E port_id L);
          L = on_card (pcs_an_clear_intr E port_id (0, 0)) L
      in L\<lparr>link_check_usecs := SLOW\<rparr>)"

text \<open>The next page of a port that the index selects; a switch without a case for it: the null page.\<close>

definition next_page_of :: "nat \<Rightarrow> pcs_pdata \<Rightarrow> u32 \<times> u32 \<times> u32" where
  "next_page_of i P =
     (if an_nxp_index (port i P) = 0 then an_nxp_0 (port i P)
      else if an_nxp_index (port i P) = 1 then an_nxp_1 (port i P)
      else an_nxp_null P)"

definition send_page :: "nat \<Rightarrow> u32 \<times> u32 \<times> u32 \<Rightarrow> kern \<Rightarrow> kern" where
  "send_page port_id pg s =
     (let (p1, p2, p3) = pg
      in pcs_reg_write port_id SR_AN_XNP_TX1 p1 (pcs_reg_write port_id SR_AN_XNP_TX2 p2
           (pcs_reg_write port_id SR_AN_XNP_TX3 p3 s)))"

definition pcs_an_nxp_check :: "env \<Rightarrow> nat \<Rightarrow> link \<Rightarrow> link" where
  "pcs_an_nxp_check E port_id L =
     (let p = port port_id (pd L);
          (adv_xnp, s) = (if an_nxp_index p = 0 then pcs_an_read_adv_base_page E port_id (card L)
                          else pcs_an_read_adv_next_page E port_id (card L));
          (lp_xnp, s) = (if an_nxp_index p = 0 then pcs_an_read_lp_base_page E port_id s
                         else pcs_an_read_lp_next_page E port_id s);
          s = (if adv_xnp = 1 \<or> lp_xnp = 1 then send_page port_id (next_page_of port_id (pd L)) s else s);
          L = L\<lparr>card := s\<rparr>;
          L = (if port_speed p = 25 \<or> port_speed p = 50
               then with_port port_id (\<lambda>p. p\<lparr>an_nxp_index := an_nxp_index p + 1\<rparr>) L else L)
      in if adv_xnp = 0 \<and> lp_xnp = 0 \<and> krt_start (port_0 (pd L)) = 0 \<and>
            krt_success (port_0 (pd L)) = 0 \<and> krt_failed (port_0 (pd L)) = 0
         then pcs_krt_start E port_id L else L)"

text \<open>
  \<open>PCS_AN_MAX_RCV_CNT\<close> is 50. At the limit port 0 is disabled and port 1 times out; the period
  set by the time-out is overwritten.
\<close>

definition pcs_an_pg_rcv :: "env \<Rightarrow> nat \<Rightarrow> link \<Rightarrow> link" where
  "pcs_an_pg_rcv E port_id L =
     (let q = port_0 (pd L);
          L = (if krt_start q = 0 \<and> krt_success q = 0 \<and> krt_failed q = 0 then
                 (let L = pcs_an_nxp_check E port_id L;
                      (c, s) = pcs_an_comp E port_id (card L);
                      s = (if c \<noteq> 0 then snd (pcs_an_check_comp_state E port_id s) else s);
                      L = with_port port_id (\<lambda>p. p\<lparr>an_rcv_cnt := an_rcv_cnt p + 1\<rparr>) (L\<lparr>card := s\<rparr>)
                  in if an_rcv_cnt (port port_id (pd L)) \<ge> 50
                     then (if port_id = 0 then pcs_an_disable E port_id L else pcs_an_timeout E port_id L)
                     else L)
               else L);
          L = on_card (pcs_an_clear_intr E port_id (2, 2)) L
      in L\<lparr>link_check_usecs := FAST\<rparr>)"

text \<open>The verdict on the lanes of the mask: some lane's four status bits are 1; some lane's top bit is set.\<close>

definition krt_ok :: "u32 \<Rightarrow> u32 \<Rightarrow> bool" where
  "krt_ok lanes sts \<longleftrightarrow>
     (get_field lanes 0 0 = 1 \<and> get_field sts 3 0 = 1) \<or> (get_field lanes 1 1 = 1 \<and> get_field sts 7 4 = 1) \<or>
     (get_field lanes 2 2 = 1 \<and> get_field sts 11 8 = 1) \<or> (get_field lanes 3 3 = 1 \<and> get_field sts 15 12 = 1)"

definition krt_bad :: "u32 \<Rightarrow> u32 \<Rightarrow> bool" where
  "krt_bad lanes sts \<longleftrightarrow>
     (get_field lanes 0 0 = 1 \<and> get_field sts 3 3 = 1) \<or> (get_field lanes 1 1 = 1 \<and> get_field sts 7 7 = 1) \<or>
     (get_field lanes 2 2 = 1 \<and> get_field sts 11 11 = 1) \<or> (get_field lanes 3 3 = 1 \<and> get_field sts 15 15 = 1)"

definition pcs_krt_check_state :: "env \<Rightarrow> nat \<Rightarrow> link \<Rightarrow> link" where
  "pcs_krt_check_state E port_id L =
     (let lanes = krt_lane_mask (port port_id (pd L));
          (sts, s) = pcs_reg_read E port_id SR_PMA_KR_PMD_STS (card L);
          ok = krt_ok lanes sts;
          bad = krt_bad lanes sts;
          L = L\<lparr>card := s\<rparr>;
          L = (if bad then with_port port_id (\<lambda>p. p\<lparr>krt_failed := 1\<rparr>) L else L);
          L = (if ok then with_port port_id (\<lambda>p. p\<lparr>krt_success := 1\<rparr>) L else L)
      in if \<not> bad \<and> \<not> ok then L\<lparr>link_check_usecs := FAST\<rparr>
         else (with_port port_id (\<lambda>p. p\<lparr>krt_start := 0\<rparr>) L)\<lparr>link_check_usecs := SLOW\<rparr>)"

section \<open>Start-up\<close>

definition pcs_init :: "env \<Rightarrow> nat \<Rightarrow> link \<Rightarrow> link option" where
  "pcs_init E port_id L = do {
     s \<leftarrow> pcs_sram_cfg E port_id (card L);
     s \<leftarrow> pcs_wait_soft_reset_clear E port_id s;
     s \<leftarrow> pcs_speed_switch E (pd L) port_id s;
     let s = pcs_loopback_cfg E port_id s;
     let L = pcs_an_cfg E port_id (L\<lparr>card := s\<rparr>);
     Some (on_card (pcs_krt_cfg E port_id) L)
   }"

definition mpp_init :: "env \<Rightarrow> link \<Rightarrow> link option" where
  "mpp_init E L = do {
     let L = L\<lparr>pd := mpu_init (pd L)\<rparr>;
     let L = on_card (mpp_phy_ctl_sel E 0) L;
     let L = on_card (mpp_enable_port E 0) L;
     let L = on_card (mpp_port_rst_n_set E 0) L;
     let L = on_card (mpp_port_rst_n_release E 0) L;
     L \<leftarrow> pcs_init E 0 L;
     Some (on_card (mpp_phy_ctl_sel E 0) L)
   }"

definition rnic_init :: "env \<Rightarrow> link \<Rightarrow> link option" where
  "rnic_init E L = mpp_init E (on_card ieu_init (on_card pcie_init L))"

text \<open>\<open>mac_hw_exit\<close> starts the units again; it returns 0.\<close>

definition mac_hw_exit :: "env \<Rightarrow> link \<Rightarrow> link option" where
  "mac_hw_exit E L = rnic_init E L"

section \<open>Timers\<close>

definition mod_timer :: "nat \<Rightarrow> kern \<Rightarrow> kern" where
  "mod_timer usecs = emit (Ecall ''mod_timer'' [usecs])"

text \<open>\<open>IEU_CLR_INTR_TIMER_USECS\<close>\<close>

definition ieu_clear_intr_all_timer :: "kern \<Rightarrow> kern" where
  "ieu_clear_intr_all_timer s = mod_timer 1000 (ieu_clear_intr_all s)"

definition pcs_an_restart_lock_timer :: "env \<Rightarrow> link \<Rightarrow> link" where
  "pcs_an_restart_lock_timer E L =
     pcs_an_disable E 0 (with_port 0 (\<lambda>p. p\<lparr>an_restart_lock := 0\<rparr>) L)"

text \<open>The first loop of \<open>rnic_link_check_timer\<close>: \<open>--retry_cnt\<close> from 5 leaves four rounds.\<close>

fun link_poll :: "env \<Rightarrow> nat \<Rightarrow> kern \<Rightarrow> bool \<times> kern" where
  "link_poll E 0 s = (False, s)"
| "link_poll E (Suc n) s =
     (let (rlu, s) = pcs_get_rlu E 0 s;
          (ls, s) = mac_get_link_status E 0 s
      in if rlu = 1 \<and> ls = 0 then (True, s) else link_poll E n s)"

text \<open>\<open>RNIC_MAX_LINK_DOWN_CNT\<close> is 3.\<close>

definition note_link :: "bool \<Rightarrow> link \<Rightarrow> link" where
  "note_link up L =
     (if up then
        (with_port 0 (\<lambda>p. p\<lparr>link_down_cnt := 0\<rparr>)
           (if link_up L \<noteq> 1 then L\<lparr>link_up := 1\<rparr> else L))\<lparr>link_check_usecs := SLOW\<rparr>
      else
        (let L = (if link_up L \<noteq> 0 then L\<lparr>link_up := 0\<rparr> else L);
             L = with_port 0 (\<lambda>p. p\<lparr>link_down_cnt := link_down_cnt p + 1\<rparr>) L
         in if link_down_cnt (port_0 (pd L)) \<ge> 3
            then with_port 0 (\<lambda>p. p\<lparr>an_success := 0, krt_success := 0, krt_failed := 0, link_down_cnt := 0\<rparr>) L
            else L))"

text \<open>
  What the timer does with an interrupt of the negotiation, and without one.
  \<open>PCS_AN_MAX_INTR_CHECK_CNT\<close> is 10000.
\<close>

definition an_interrupt :: "env \<Rightarrow> (event list \<Rightarrow> u32) \<Rightarrow> u32 \<Rightarrow> link \<Rightarrow> link" where
  "an_interrupt E rnd an_intr L =
     (let L = (if get_field an_intr 0 0 \<noteq> 0 then pcs_an_int_cmpl E 0 L else L);
          L = (if get_field an_intr 1 1 \<noteq> 0 then pcs_an_inc_link E rnd 0 L else L);
          L = (if get_field an_intr 2 2 \<noteq> 0 then pcs_an_pg_rcv E 0 L else L)
      in with_port 0 (\<lambda>p. p\<lparr>an_intr_check_cnt := 0\<rparr>) L)"

definition force_up :: "env \<Rightarrow> (event list \<Rightarrow> u32) \<Rightarrow> link \<Rightarrow> link" where
  "force_up E rnd L =
     (let L = pcs_an_disable E 0 L;
          L = with_port 0 (\<lambda>p. p\<lparr>krt_success := 1, an_success := 1\<rparr>) L;
          (r, s) = get_random_num rnd (card L)
      in L\<lparr>card := s, link_check_usecs := unat r mod SLOW + 1\<rparr>)"

definition an_poll :: "env \<Rightarrow> (event list \<Rightarrow> u32) \<Rightarrow> link \<Rightarrow> link" where
  "an_poll E rnd L =
     (let (an_intr, s) = pcs_an_get_intr E 0 (card L);
          L = L\<lparr>card := s\<rparr>
      in if an_intr \<noteq> 0 \<and> link_up_only (port_0 (pd L)) \<noteq> 0 then force_up E rnd L
         else
           (let L = (if an_intr \<noteq> 0 then an_interrupt E rnd an_intr L
                     else with_port 0 (\<lambda>p. p\<lparr>an_intr_check_cnt := an_intr_check_cnt p + 1\<rparr>) L)
            in if an_intr_check_cnt (port_0 (pd L)) \<ge> 10000 then pcs_an_timeout E 0 L else L))"

definition an_tick :: "env \<Rightarrow> (event list \<Rightarrow> u32) \<Rightarrow> link \<Rightarrow> link" where
  "an_tick E rnd L =
     (let p = port_0 (pd L)
      in if an_en p \<noteq> 0 \<and> (an_success p = 0 \<or> krt_success p = 0) then
           (if an_start p = 0 \<and> krt_start p = 0 then pcs_an_start E 0 L
            else if krt_start p \<noteq> 0 then pcs_krt_check_state E 0 L
            else an_poll E rnd L)
         else L)"

text \<open>Every path ends with the same \<open>mod_timer\<close>, the early return after \<open>force_up\<close> too.\<close>

definition rnic_link_check_timer :: "env \<Rightarrow> (event list \<Rightarrow> u32) \<Rightarrow> link \<Rightarrow> link" where
  "rnic_link_check_timer E rnd L =
     (let (up, s) = link_poll E 4 (card L);
          L = note_link up (L\<lparr>card := s\<rparr>);
          L = an_tick E rnd L
      in on_card (mod_timer (link_check_usecs L)) L)"

end
