(* ===== verification/Link_Correct.thy ===== *)
theory Link_Correct
  imports Link Mac_Correct
begin

text \<open>
  The watch over the link: the invariant of the timer, what a settled link costs, when a lost
  link is negotiated again, and the negotiation that never settles because training fails.
\<close>

section \<open>Components of the state\<close>

lemma on_card_fields [simp]:
  "pd (on_card f L) = pd L" "link_check_usecs (on_card f L) = link_check_usecs L"
  "link_up (on_card f L) = link_up L" "card (on_card f L) = f (card L)"
  by (simp_all add: on_card_def)

lemma with_port_fields [simp]:
  "pd (with_port i f L) = upd_port i f (pd L)" "link_check_usecs (with_port i f L) = link_check_usecs L"
  "link_up (with_port i f L) = link_up L" "card (with_port i f L) = card L"
  by (simp_all add: with_port_def)

lemma port_upd [simp]:
  "port_0 (upd_port 0 f P) = f (port_0 P)" "port 0 P = port_0 P"
  by (simp_all add: upd_port_def port_def)

text \<open>What the watch may do to port 0: the counters stay in their bounds and the period in its.\<close>

definition port_ok :: "port_state \<Rightarrow> bool" where
  "port_ok p \<longleftrightarrow> 0 \<le> an_rcv_cnt p \<and> an_rcv_cnt p < 50 \<and> 0 \<le> an_intr_check_cnt p \<and>
     an_intr_check_cnt p < 10000 \<and> 0 \<le> link_down_cnt p \<and> link_down_cnt p < 3 \<and>
     0 \<le> an_nxp_index p \<and> an_nxp_index p \<le> (if an_start p = 0 then 50 else an_rcv_cnt p)"

definition usecs_ok :: "link \<Rightarrow> bool" where
  "usecs_ok L \<longleftrightarrow> 1 \<le> link_check_usecs L \<and> link_check_usecs L \<le> 100000"

definition link_ok :: "link \<Rightarrow> bool" where
  "link_ok L \<longleftrightarrow> port_ok (port_0 (pd L)) \<and> usecs_ok L"

lemma random_period: "1 \<le> unat (r :: u32) mod 100000 + 1 \<and> unat r mod 100000 + 1 \<le> 100000"
  using mod_less_divisor [of 100000 "unat r"] by linarith

lemma an_disable_fields [simp]:
  "port_0 (pd (pcs_an_disable E 0 L)) =
     (port_0 (pd L))\<lparr>an_start := 0, an_rcv_cnt := 0, an_intr_check_cnt := 0\<rparr>"
  "link_check_usecs (pcs_an_disable E 0 L) = link_check_usecs L"
  "link_up (pcs_an_disable E 0 L) = link_up L"
  by (simp_all add: pcs_an_disable_def)

lemma krt_start_fields:
  "port_0 (pd (pcs_krt_start E 0 L)) =
     (let p = port_0 (pd L)
      in if krt_start p \<noteq> 0 then p else if krt_en p \<noteq> 0 then p\<lparr>krt_start := 1\<rparr> else p\<lparr>krt_failed := 1\<rparr>)"
  "link_check_usecs (pcs_krt_start E 0 L) = link_check_usecs L"
  "link_up (pcs_krt_start E 0 L) = link_up L"
  by (simp_all add: pcs_krt_start_def Let_def)

text \<open>The next-page check keeps everything but the index and the flags of training.\<close>

definition page_step :: "port_state \<Rightarrow> port_state \<Rightarrow> bool" where
  "page_step p q \<longleftrightarrow> an_rcv_cnt q = an_rcv_cnt p \<and> an_intr_check_cnt q = an_intr_check_cnt p \<and>
     link_down_cnt q = link_down_cnt p \<and> an_start q = an_start p \<and> krt_success q = krt_success p \<and>
     an_success q = an_success p \<and> an_en q = an_en p \<and> link_up_only q = link_up_only p \<and>
     krt_lane_mask q = krt_lane_mask p \<and> krt_en q = krt_en p \<and>
     an_nxp_index p \<le> an_nxp_index q \<and> an_nxp_index q \<le> an_nxp_index p + 1"

lemma nxp_check_step:
  "page_step (port_0 (pd L)) (port_0 (pd (pcs_an_nxp_check E 0 L)))"
  "link_check_usecs (pcs_an_nxp_check E 0 L) = link_check_usecs L"
  "link_up (pcs_an_nxp_check E 0 L) = link_up L"
  by (simp_all add: pcs_an_nxp_check_def Let_def split_def krt_start_fields page_step_def)

section \<open>The invariant\<close>

lemma an_start_ok: "link_ok L \<Longrightarrow> link_ok (pcs_an_start E 0 L)"
  by (simp add: pcs_an_start_def Let_def link_ok_def port_ok_def usecs_ok_def)

lemma timeout_ok: "link_ok L \<Longrightarrow> link_ok (pcs_an_timeout E 0 L)"
  by (auto simp: pcs_an_timeout_def link_ok_def port_ok_def usecs_ok_def split: if_splits)

lemma krt_check_ok: "link_ok L \<Longrightarrow> link_ok (pcs_krt_check_state E 0 L)"
  by (auto simp: pcs_krt_check_state_def Let_def split_def link_ok_def port_ok_def usecs_ok_def
      split: if_splits)

lemma krt_start_ok: "link_ok L \<Longrightarrow> link_ok (pcs_krt_start E 0 L)"
  by (auto simp: link_ok_def usecs_ok_def krt_start_fields port_ok_def Let_def split: if_splits)

lemma int_cmpl_ok: "link_ok L \<Longrightarrow> link_ok (pcs_an_int_cmpl E 0 L)"
  using krt_start_ok [of L E]
  by (auto simp: pcs_an_int_cmpl_def Let_def link_ok_def usecs_ok_def port_ok_def split: if_splits)

lemma inc_link_ok: "link_ok L \<Longrightarrow> link_ok (pcs_an_inc_link E rnd 0 L)"
  by (auto simp: pcs_an_inc_link_def Let_def split_def link_ok_def usecs_ok_def port_ok_def
      less_Suc_eq_le [symmetric] split: if_splits)

lemma force_up_ok: "link_ok L \<Longrightarrow> link_ok (force_up E rnd L)"
  by (auto simp: force_up_def Let_def split_def link_ok_def usecs_ok_def port_ok_def
      less_Suc_eq_le [symmetric] split: if_splits)


text \<open>Whether a page still counts: training has not begun or the index is not at its limit.\<close>

definition page_room :: "port_state \<Rightarrow> bool" where
  "page_room p \<longleftrightarrow> krt_start p \<noteq> 0 \<or> krt_success p \<noteq> 0 \<or> krt_failed p \<noteq> 0 \<or> an_nxp_index p \<le> 49"

lemma pg_rcv_ok:
  assumes "link_ok L" and "page_room (port_0 (pd L))"
  shows "link_ok (pcs_an_pg_rcv E 0 L)"
proof -
  have "page_step (port_0 (pd L)) (port_0 (pd (pcs_an_nxp_check E 0 L)))" by (rule nxp_check_step)
  then show ?thesis
    using assms
    by (auto simp: pcs_an_pg_rcv_def Let_def split_def link_ok_def usecs_ok_def port_ok_def page_step_def
        page_room_def split: if_splits)
qed

lemma int_cmpl_room: "page_room (port_0 (pd L)) \<Longrightarrow> page_room (port_0 (pd (pcs_an_int_cmpl E 0 L)))"
  by (auto simp: pcs_an_int_cmpl_def Let_def page_room_def krt_start_fields)

lemma inc_link_room: "page_room (port_0 (pd L)) \<Longrightarrow> page_room (port_0 (pd (pcs_an_inc_link E rnd 0 L)))"
  by (auto simp: pcs_an_inc_link_def Let_def split_def page_room_def)

lemma an_interrupt_ok:
  assumes "link_ok L" and "page_room (port_0 (pd L))"
  shows "link_ok (an_interrupt E rnd i L)"
proof -
  let ?a = "if get_field i 0 0 \<noteq> 0 then pcs_an_int_cmpl E 0 L else L"
  let ?b = "if get_field i 1 1 \<noteq> 0 then pcs_an_inc_link E rnd 0 ?a else ?a"
  let ?c = "if get_field i 2 2 \<noteq> 0 then pcs_an_pg_rcv E 0 ?b else ?b"
  have a: "link_ok ?a \<and> page_room (port_0 (pd ?a))" using assms int_cmpl_ok int_cmpl_room by simp
  then have b: "link_ok ?b \<and> page_room (port_0 (pd ?b))" using inc_link_ok inc_link_room by (cases "get_field i 1 1 \<noteq> 0") simp_all
  then have "link_ok ?c" using pg_rcv_ok by (cases "get_field i 2 2 \<noteq> 0") simp_all
  moreover have "link_ok L' \<Longrightarrow> link_ok (with_port 0 (\<lambda>p. p\<lparr>an_intr_check_cnt := 0\<rparr>) L')" for L'
    by (auto simp: link_ok_def port_ok_def usecs_ok_def split: if_splits)
  ultimately show ?thesis unfolding an_interrupt_def Let_def by blast
qed

lemma card_ok [simp]: "link_ok (L\<lparr>card := s\<rparr>) = link_ok L"
  by (simp add: link_ok_def usecs_ok_def)

lemma an_poll_ok:
  assumes ok: "link_ok L" and run: "an_start (port_0 (pd L)) \<noteq> 0"
  shows "link_ok (an_poll E rnd L)"
proof -
  obtain i s where rd: "pcs_an_get_intr E 0 (card L) = (i, s)" by fastforce
  let ?L = "L\<lparr>card := s\<rparr>"
  have room: "page_room (port_0 (pd ?L))"
    using ok run by (auto simp: link_ok_def port_ok_def page_room_def split: if_splits)
  have to: "link_ok (if 10000 \<le> an_intr_check_cnt (port_0 (pd M)) then pcs_an_timeout E 0 M else M)"
    if "link_ok M \<or> M = with_port 0 (\<lambda>p. p\<lparr>an_intr_check_cnt := an_intr_check_cnt p + 1\<rparr>) ?L" for M
    using that
  proof
    assume "link_ok M" then show ?thesis using timeout_ok by simp
  next
    assume "M = with_port 0 (\<lambda>p. p\<lparr>an_intr_check_cnt := an_intr_check_cnt p + 1\<rparr>) ?L"
    then show ?thesis using ok run
      by (auto simp: pcs_an_timeout_def link_ok_def port_ok_def usecs_ok_def split: if_splits)
  qed
  let ?m = "if i \<noteq> 0 then an_interrupt E rnd i ?L
    else with_port 0 (\<lambda>p. p\<lparr>an_intr_check_cnt := an_intr_check_cnt p + 1\<rparr>) ?L"
  have "link_ok ?m \<or> ?m = with_port 0 (\<lambda>p. p\<lparr>an_intr_check_cnt := an_intr_check_cnt p + 1\<rparr>) ?L"
    using an_interrupt_ok [of ?L E rnd i] ok room by simp
  from to [OF this] force_up_ok [of ?L E rnd] ok show ?thesis
    unfolding an_poll_def rd Let_def prod.case by simp
qed

lemma an_tick_ok: "link_ok L \<Longrightarrow> link_ok (an_tick E rnd L)"
  unfolding an_tick_def Let_def using an_start_ok krt_check_ok an_poll_ok by simp

lemma note_link_ok: "link_ok L \<Longrightarrow> link_ok (note_link up L)"
  by (cases up) (auto simp: note_link_def Let_def link_ok_def port_ok_def usecs_ok_def split: if_splits)

lemma timer_ok: "link_ok L \<Longrightarrow> link_ok (rnic_link_check_timer E rnd L)"
proof -
  assume ok: "link_ok L"
  obtain up s where p: "link_poll E 4 (card L) = (up, s)" by fastforce
  have "link_ok (an_tick E rnd (note_link up (L\<lparr>card := s\<rparr>)))"
    using ok by (intro an_tick_ok note_link_ok) simp
  then show ?thesis
    unfolding rnic_link_check_timer_def p Let_def prod.case
    by (simp add: link_ok_def usecs_ok_def)
qed


section \<open>Start-up\<close>

lemma pcs_init_pd:
  assumes "pcs_init E 0 L = Some L'"
  shows "pd L' = upd_port 0 (\<lambda>p. p\<lparr>an_start := 0, an_rcv_cnt := 0, an_intr_check_cnt := 0\<rparr>) (pd L) \<and>
    link_check_usecs L' = link_check_usecs L \<and> link_up L' = link_up L"
  using assms
  by (auto simp: pcs_init_def pcs_an_cfg_def pcs_an_disable_def pcs_an_base_page_cfg_def Let_def bind_eq_Some_conv)

lemma rnic_init_pd:
  assumes "rnic_init E L = Some L'"
  shows "pd L' = upd_port 0 (\<lambda>p. p\<lparr>an_start := 0, an_rcv_cnt := 0, an_intr_check_cnt := 0\<rparr>) (mpu_init (pd L)) \<and>
    link_check_usecs L' = link_check_usecs L \<and> link_up L' = link_up L"
  using assms by (auto simp: rnic_init_def mpp_init_def Let_def bind_eq_Some_conv dest!: pcs_init_pd)

text \<open>Port 0 after \<open>mpu_init\<close>: 25G, negotiation on, training off, and any answer accepted.\<close>

lemma mpu_init_port_0:
  "port_0 (mpu_init P) =
     idle_fields (neg_fields 0 1 1 (train_fields 1 1 (next_pages nxp_first (0x0203, 0x0030, 0x0F00)
       (base_page 0x8001 0xC080 0 (speed_fields 7 5 1 1 ((port_0 P)\<lparr>port_speed := 25\<rparr>))))))"
  by (simp add: mpu_init_def mpu_speed_set_def mpu_speed_set_0_def mpu_speed_set_1_def Let_def idle_fields_def
      neg_fields_def train_fields_def next_pages_def base_page_def speed_fields_def)

lemma rnic_init_port_ok: "rnic_init E L = Some L' \<Longrightarrow> port_ok (port_0 (pd L'))"
  by (auto dest!: rnic_init_pd simp: mpu_init_port_0 idle_fields_def neg_fields_def train_fields_def next_pages_def
      base_page_def speed_fields_def port_ok_def)

text \<open>
  What may happen to the link: probing starts the units and sets the period, the timer fires, the
  card is started again (a stop or a restart of the interface), and the rest of the driver works
  on the card.
\<close>

inductive link_reach :: "env \<Rightarrow> (event list \<Rightarrow> u32) \<Rightarrow> link \<Rightarrow> bool" for E rnd where
  probed: "mac_hw_exit E L = Some L' \<Longrightarrow> link_reach E rnd (L'\<lparr>link_check_usecs := SLOW, link_up := 2\<rparr>)"
| fired: "link_reach E rnd L \<Longrightarrow> link_reach E rnd (rnic_link_check_timer E rnd L)"
| restarted: "link_reach E rnd L \<Longrightarrow> mac_hw_exit E L = Some L' \<Longrightarrow> link_reach E rnd L'"
| others: "link_reach E rnd L \<Longrightarrow> link_reach E rnd (L\<lparr>card := s\<rparr>)"

lemma link_reach_ok: "link_reach E rnd L \<Longrightarrow> link_ok L"
proof (induction rule: link_reach.induct)
  case (probed L L')
  then show ?case by (simp add: mac_hw_exit_def link_ok_def rnic_init_port_ok usecs_ok_def)
next
  case (fired L)
  then show ?case by (simp add: timer_ok)
next
  case (restarted L L')
  then show ?case
    by (auto simp: mac_hw_exit_def link_ok_def usecs_ok_def rnic_init_port_ok dest!: rnic_init_pd)
next
  case (others L s)
  then show ?case by simp
qed

text \<open>
  C23. The watch over the link never stops and never overflows. On every card and in every order of
  timer ticks, restarts and other accesses, each tick ends by arming the timer again with a
  period between 1 and 100000 microseconds, and the counters of the port stay below their
  limits: 50 pages, 10000 checks and 3 ticks without a link.
\<close>

theorem link_watch_goes_on:
  assumes "link_reach E rnd L"
  shows "\<exists>u t. trace (card (rnic_link_check_timer E rnd L)) = Ecall ''mod_timer'' [u] # t \<and>
    1 \<le> u \<and> u \<le> 100000 \<and>
    0 \<le> an_rcv_cnt (port_0 (pd L)) \<and> an_rcv_cnt (port_0 (pd L)) < 50 \<and>
    0 \<le> an_intr_check_cnt (port_0 (pd L)) \<and> an_intr_check_cnt (port_0 (pd L)) < 10000 \<and>
    0 \<le> link_down_cnt (port_0 (pd L)) \<and> link_down_cnt (port_0 (pd L)) < 3"
proof -
  obtain up s where p: "link_poll E 4 (card L) = (up, s)" by fastforce
  let ?L = "an_tick E rnd (note_link up (L\<lparr>card := s\<rparr>))"
  have "link_ok ?L" using link_reach_ok [OF assms] by (intro an_tick_ok note_link_ok) simp
  moreover have "trace (card (rnic_link_check_timer E rnd L)) =
      Ecall ''mod_timer'' [link_check_usecs ?L] # trace (card ?L)"
    by (simp add: rnic_link_check_timer_def p Let_def mod_timer_def)
  ultimately show ?thesis
    using link_reach_ok [OF assms] by (auto simp: link_ok_def usecs_ok_def port_ok_def)
qed


text \<open>The waits return exactly if one of the reads to come answers.\<close>

fun pcs_nth_read :: "env \<Rightarrow> nat \<Rightarrow> u32 \<Rightarrow> nat \<Rightarrow> kern \<Rightarrow> u32" where
  "pcs_nth_read E i a 0 s = fst (pcs_reg_read E i a s)"
| "pcs_nth_read E i a (Suc k) s = pcs_nth_read E i a k (snd (pcs_reg_read E i a s))"

lemma pcs_poll_returns:
  "get_field (pcs_nth_read E i a k s) b b = w \<Longrightarrow> \<exists>s'. pcs_poll E i a b w s = Some s'"
  by (induction k arbitrary: s) (subst pcs_poll.simps, simp add: Let_def split_def)+

lemma pcs_poll_only_if:
  assumes "pcs_poll E i a b w s = Some s'"
  shows "\<exists>k. get_field (pcs_nth_read E i a k s) b b = w"
proof -
  let ?P = "\<lambda>E i a b w s (r :: kern). \<exists>k. get_field (pcs_nth_read E i a k s) b b = w"
  have "?P E i a b w s s'"
  proof (rule pcs_poll.raw_induct [where P = ?P, OF _ assms])
    fix f E i a b w s r
    assume IH: "\<And>E i a b w s r. f E i a b w s = Some r \<Longrightarrow> ?P E i a b w s r"
      and eq: "(let (data, s) = pcs_reg_read E i a s
        in if get_field data b b \<noteq> w then f E i a b w s else Some s) = Some r"
    show "?P E i a b w s r"
    proof (cases "get_field (fst (pcs_reg_read E i a s)) b b = w")
      case True
      then show ?thesis by (intro exI [of _ 0]) simp
    next
      case False
      with eq have "f E i a b w (snd (pcs_reg_read E i a s)) = Some r" by (simp add: Let_def split_def)
      from IH [OF this] show ?thesis by (metis pcs_nth_read.simps(2))
    qed
  qed
  then show ?thesis by simp
qed

text \<open>A card that answers the three waits of the start-up in its own time.\<close>

locale link_card =
  fixes E :: env
  assumes sram_done: "\<exists>k. get_field (pcs_nth_read E i VR_PMA_SNPS_MP_25G_16G_SRAM k s) 0 0 = 1"
    and reset_done: "\<exists>k. get_field (pcs_nth_read E i SR_PCS_CTRL1 k s) 15 15 = 0"
    and vr_done: "\<exists>k. get_field (pcs_nth_read E i VR_PCS_DIG_CTRL1 k s) 15 15 = 0"
begin

lemma sram_returns: "\<exists>s'. pcs_sram_cfg E i s = Some s'"
  using sram_done [of i s] pcs_poll_returns by (fastforce simp: pcs_sram_cfg_def pcs_wait_sram_init_done_def)

lemma reset_returns: "\<exists>s'. pcs_wait_soft_reset_clear E i s = Some s'"
  using reset_done [of i s] pcs_poll_returns by (fastforce simp: pcs_wait_soft_reset_clear_def)

lemma vr_returns: "\<exists>s'. pcs_wait_vr_reset_clear E i s = Some s'"
  using vr_done [of i s] pcs_poll_returns by (fastforce simp: pcs_wait_vr_reset_clear_def)

lemma switch_returns: "\<exists>s'. pcs_speed_switch E P i s = Some s'"
  unfolding pcs_speed_switch_def pcs_speed_common_cfg_def Let_def
  by (metis bind.bind_lunit sram_returns vr_returns)

lemma init_returns: "\<exists>L'. rnic_init E L = Some L'"
  unfolding rnic_init_def mpp_init_def pcs_init_def Let_def
  by (metis bind.bind_lunit sram_returns reset_returns switch_returns)

end

text \<open>A card that always reads 1.\<close>

definition one_env :: env where
  "one_env = file_env\<lparr>hw_read := \<lambda>t r a. 1\<rparr>"

lemma one_env_read [simp]: "fst (pcs_reg_read one_env i a s) = 1"
  by (simp add: pcs_reg_read_def reg_read_def readl_def one_env_def Let_def)

interpretation one_card: link_card one_env
proof
  have one: "pcs_nth_read one_env i a 0 s = 1" for i a s by simp
  have "get_field 1 0 0 = (1 :: u32)" "get_field 1 15 15 = (0 :: u32)" by (simp_all add: get_field_def)
  then show "\<exists>k. get_field (pcs_nth_read one_env i VR_PMA_SNPS_MP_25G_16G_SRAM k s) 0 0 = 1"
    "\<exists>k. get_field (pcs_nth_read one_env i SR_PCS_CTRL1 k s) 15 15 = 0"
    "\<exists>k. get_field (pcs_nth_read one_env i VR_PCS_DIG_CTRL1 k s) 15 15 = 0" for i s
    using one by metis+
qed

text \<open>
  C29. Starting the units of the card returns if the card answers each of the three waits after
  any number of polls, and then port 0 is set up for 25G with no negotiation going on. If the
  memory of the PHY never reports that it is ready, the call does not return: there is no
  time-out, and probing hangs.
\<close>

theorem start_up_waits:
  "(link_card E \<longrightarrow> (\<exists>L'. rnic_init E L = Some L' \<and> port_speed (port_0 (pd L')) = 25 \<and>
      an_en (port_0 (pd L')) = 1 \<and> an_start (port_0 (pd L')) = 0 \<and> krt_start (port_0 (pd L')) = 0)) \<and>
   ((\<forall>k s. get_field (pcs_nth_read E 0 0x1809A k s) 0 0 \<noteq> 1) \<longrightarrow> rnic_init E L = None)"
proof (intro conjI impI)
  assume "link_card E"
  then obtain L' where L': "rnic_init E L = Some L'" using link_card.init_returns by blast
  moreover from rnic_init_pd [OF this] have "port_speed (port_0 (pd L')) = 25 \<and>
      an_en (port_0 (pd L')) = 1 \<and> an_start (port_0 (pd L')) = 0 \<and> krt_start (port_0 (pd L')) = 0"
    by (simp add: mpu_init_port_0 idle_fields_def neg_fields_def train_fields_def next_pages_def
        base_page_def speed_fields_def)
  ultimately show "\<exists>L'. rnic_init E L = Some L' \<and> port_speed (port_0 (pd L')) = 25 \<and>
      an_en (port_0 (pd L')) = 1 \<and> an_start (port_0 (pd L')) = 0 \<and> krt_start (port_0 (pd L')) = 0" by blast
next
  assume never: "\<forall>k s. get_field (pcs_nth_read E 0 0x1809A k s) 0 0 \<noteq> 1"
  have "pcs_poll E 0 0x1809A 0 1 s = None" for s
    using pcs_poll_only_if [of E 0 "0x1809A" 0 1 s] never by (cases "pcs_poll E 0 0x1809A 0 1 s") auto
  then show "rnic_init E L = None"
    by (simp add: rnic_init_def mpp_init_def pcs_init_def pcs_sram_cfg_def pcs_wait_sram_init_done_def Let_def)
qed

definition dead_env :: env where
  "dead_env = file_env\<lparr>hw_read := \<lambda>t r a. 0\<rparr>"

lemma dead_env_read: "pcs_nth_read dead_env i a k s = 0"
  by (induction k arbitrary: s) (simp_all add: pcs_reg_read_def reg_read_def readl_def dead_env_def Let_def)

theorem start_up_waits_witness:
  "(\<forall>L. (\<exists>L'. rnic_init one_env L = Some L' \<and> port_speed (port_0 (pd L')) = 25) \<and> rnic_init dead_env L = None)"
proof
  fix L
  have "\<forall>k s. get_field (pcs_nth_read dead_env 0 0x1809A k s) 0 0 \<noteq> 1"
    unfolding dead_env_read by (simp add: get_field_def)
  then have "rnic_init dead_env L = None" using start_up_waits [of dead_env L] by blast
  moreover have "\<exists>L'. rnic_init one_env L = Some L' \<and> port_speed (port_0 (pd L')) = 25"
    using start_up_waits [of one_env L] one_card.link_card_axioms by blast
  ultimately show "(\<exists>L'. rnic_init one_env L = Some L' \<and> port_speed (port_0 (pd L')) = 25) \<and> rnic_init dead_env L = None"
    by blast
qed

section \<open>A settled link\<close>

abbreviation settled :: "port_state \<Rightarrow> bool" where
  "settled p \<equiv> an_success p \<noteq> 0 \<and> krt_success p \<noteq> 0"

lemma writes_pcs_read [simp]: "writes (trace (snd (pcs_reg_read E i a s))) = writes (trace s)"
  by (simp add: pcs_reg_read_def reg_read_def readl_def Let_def)

lemma writes_link_status [simp]: "writes (trace (snd (mac_get_link_status E i s))) = writes (trace s)"
  by (simp add: mac_get_link_status_def mac_reg_read_def reg_read_def readl_def Let_def)

lemma writes_link_poll [simp]: "writes (trace (snd (link_poll E n s))) = writes (trace s)"
  by (induction n arbitrary: s) (simp_all add: Let_def split_def pcs_get_rlu_def)

lemma timer_split:
  "rnic_link_check_timer E rnd L =
     (let L' = an_tick E rnd (note_link (fst (link_poll E 4 (card L))) (L\<lparr>card := snd (link_poll E 4 (card L))\<rparr>))
      in on_card (mod_timer (link_check_usecs L')) L')"
  by (simp add: rnic_link_check_timer_def Let_def split_def)

text \<open>
  A settled link costs nothing: as long as a tick finds the link up, it writes no register,
  keeps the results of negotiation and training, and comes again after 100 ms.
\<close>

theorem settled_link_left_alone:
  assumes "settled (port_0 (pd L))" and "fst (link_poll E 4 (card L))"
  shows "let L' = rnic_link_check_timer E rnd L
    in writes (trace (card L')) = writes (trace (card L)) \<and> settled (port_0 (pd L')) \<and>
       port_0 (pd L') = (port_0 (pd L))\<lparr>link_down_cnt := 0\<rparr> \<and> link_up L' = 1 \<and> link_check_usecs L' = 100000"
  using assms by (simp add: timer_split note_link_def an_tick_def mod_timer_def Let_def)

text \<open>A card whose link is up, and a state to start from.\<close>

definition good_env :: env where
  "good_env = file_env\<lparr>hw_read := \<lambda>t r a. if a = 0x70c0004 then 4 else 0\<rparr>"

definition zero_port :: port_state where
  "zero_port = \<lparr>port_speed = 0, link_down_cnt = 0, type_sel = 0, speed_sel = 0, mode_50g = 0, mpllb_sel = 0,
     krt_en = 0, an_en = 0, rs_fec_en = 0, base_r_fec_en = 0, an_bp_1 = 0, an_bp_2 = 0, an_bp_3 = 0,
     an_nxp_0 = (0, 0, 0), an_nxp_1 = (0, 0, 0), an_nxp_index = 0, krt_lane_mask = 0, krt_cl72_en = 0,
     krt_check = 0, speed_switch = 0, an_start = 0, an_rcv_cnt = 0, an_intr_check_cnt = 0, an_success = 0,
     an_restart_lock = 0, krt_start = 0, krt_success = 0, krt_failed = 0, link_up_only = 0\<rparr>"

definition link_with :: "port_state \<Rightarrow> link" where
  "link_with p = \<lparr>pd = \<lparr>mac_0_speed_mode = 0, mac_1_speed_mode = 0, malloc_high_addr = 0, tx_desc_base_addr = 0,
       rx_desc_base_addr = 0, mplla_en = 0, mpllb_en = 1, port_0 = p, port_1 = zero_port,
       an_nxp_null = (0x2001, 0, 0)\<rparr>,
     link_check_usecs = 100000, link_up = 2, card = empty_kern\<rparr>"

lemma link_with_fields [simp]:
  "port_0 (pd (link_with p)) = p" "card (link_with p) = empty_kern" "link_check_usecs (link_with p) = 100000"
  "link_up (link_with p) = 2"
  by (simp_all add: link_with_def)

lemma good_env_up: "fst (link_poll good_env 4 s)"
proof -
  have r: "fst (pcs_get_rlu good_env 0 s) = 1" for s
    by (simp add: pcs_get_rlu_def pcs_reg_read_def reg_read_def readl_def good_env_def pcs_base_def
        get_field_def Let_def)
  have l: "fst (mac_get_link_status good_env 0 s) = 0" for s
    by (simp add: mac_get_link_status_def mac_reg_read_def reg_read_def readl_def good_env_def mac_base_def
        get_field_def Let_def)
  show ?thesis using r l by (simp add: numeral_eq_Suc Let_def split_def)
qed

theorem settled_link_left_alone_witness:
  "link_up (rnic_link_check_timer good_env (\<lambda>_. 0)
     (link_with (zero_port\<lparr>an_en := 1, an_success := 1, krt_success := 1, link_down_cnt := 2\<rparr>))) = 1"
  using settled_link_left_alone [of "link_with (zero_port\<lparr>an_en := 1, an_success := 1, krt_success := 1,
    link_down_cnt := 2\<rparr>)" good_env "\<lambda>_. 0"] good_env_up
  by (simp add: Let_def)

theorem link_watch_goes_on_witness:
  "\<exists>L. link_reach one_env (\<lambda>_. 0) L \<and> an_rcv_cnt (port_0 (pd L)) < 50"
proof -
  obtain L' where "mac_hw_exit one_env (link_with zero_port) = Some L'"
    unfolding mac_hw_exit_def using one_card.init_returns by blast
  then have r: "link_reach one_env (\<lambda>_. 0) (L'\<lparr>link_check_usecs := 100000, link_up := 2\<rparr>)" by (rule probed)
  from link_watch_goes_on [OF r] r show ?thesis by blast
qed

section \<open>A lost link\<close>

text \<open>The registers \<open>VR_AN_INTR\<close> and \<open>SR_AN_CTRL\<close> of port 0, cleared and told to start.\<close>

definition starts_negotiation :: "kern \<Rightarrow> kern \<Rightarrow> bool" where
  "starts_negotiation s s' \<longleftrightarrow> (\<exists>v. bit v 12 \<and> bit v 9 \<and>
     writes (trace s') = writes (trace s) @ [(Pcie_bar, 0x71e0008, 0), (Pcie_bar, 0x71c0000, v)])"

lemma writes_pcs_write [simp]:
  "writes (trace (pcs_reg_write i off v s)) = writes (trace s) @ [(Pcie_bar, pcs_base i + push_bit 2 off, v)]"
  by (simp add: pcs_reg_write_def reg_write_def)

lemma starts_negotiationI:
  assumes "an_en (port_0 (pd L)) \<noteq> 0"
  shows "starts_negotiation (card L) (card (pcs_an_start E 0 L))"
proof -
  let ?s = "pcs_an_clear_all_intr 0 (card L)"
  let ?v = "set_fields [(12, 12, 1), (9, 9, 1)] (fst (pcs_reg_read E 0 0x70000 ?s))"
  have "bit ?v 12 \<and> bit ?v 9" by (simp add: set_fields_def bit_set_field)
  then show ?thesis
    using assms unfolding starts_negotiation_def
    by (intro exI [of _ ?v])
      (simp add: pcs_an_start_def pcs_run_def pcs_an_clear_all_intr_def Let_def split_def pcs_base_def)
qed

lemma tick_down:
  assumes "\<not> fst (link_poll E 4 (card L))" and "link_down_cnt (port_0 (pd L)) < 2" and "settled (port_0 (pd L))"
  shows "port_0 (pd (rnic_link_check_timer E rnd L)) =
      (port_0 (pd L))\<lparr>link_down_cnt := link_down_cnt (port_0 (pd L)) + 1\<rparr> \<and>
    writes (trace (card (rnic_link_check_timer E rnd L))) = writes (trace (card L))"
  using assms by (simp add: timer_split note_link_def an_tick_def mod_timer_def Let_def)

lemma starts_after_reads:
  "starts_negotiation s t \<Longrightarrow> writes (trace s0) = writes (trace s) \<Longrightarrow> writes (trace t') = writes (trace t) \<Longrightarrow>
   starts_negotiation s0 t'"
  by (simp add: starts_negotiation_def)

lemma tick_restarts:
  assumes "an_en (port_0 (pd L)) \<noteq> 0" and "an_start (port_0 (pd L)) = 0" "krt_start (port_0 (pd L)) = 0"
    and "\<not> fst (link_poll E 4 (card L)) \<and> link_down_cnt (port_0 (pd L)) \<ge> 2 \<or> \<not> settled (port_0 (pd L))"
  shows "starts_negotiation (card L) (card (rnic_link_check_timer E rnd L)) \<and>
    an_start (port_0 (pd (rnic_link_check_timer E rnd L))) = 1 \<and>
    link_check_usecs (rnic_link_check_timer E rnd L) = 1"
proof -
  let ?N = "note_link (fst (link_poll E 4 (card L))) (L\<lparr>card := snd (link_poll E 4 (card L))\<rparr>)"
  have q: "an_en (port_0 (pd ?N)) \<noteq> 0" "an_start (port_0 (pd ?N)) = 0" "krt_start (port_0 (pd ?N)) = 0"
    "\<not> settled (port_0 (pd ?N))"
    using assms by (auto simp: note_link_def Let_def)
  then have t: "an_tick E rnd ?N = pcs_an_start E 0 ?N" by (auto simp: an_tick_def Let_def)
  have w: "writes (trace (card ?N)) = writes (trace (card L))" by (simp add: note_link_def Let_def)
  have "starts_negotiation (card L) (card (rnic_link_check_timer E rnd L))"
    by (rule starts_after_reads [OF starts_negotiationI [OF q(1), of E]])
      (simp_all add: w timer_split t Let_def mod_timer_def)
  then show ?thesis using q(1) by (simp add: timer_split t Let_def pcs_an_start_def)
qed

text \<open>
  C28. A lost link is negotiated again at the third tick that misses it, and not before: from a
  settled port, two ticks without a link change nothing but the count and write nothing, and the
  third drops the results and starts the negotiation on the card.
\<close>

theorem lost_link_renegotiated:
  assumes "\<And>s. \<not> fst (link_poll E 4 s)" and "settled (port_0 (pd L))" and "an_en (port_0 (pd L)) \<noteq> 0"
    and "an_start (port_0 (pd L)) = 0" "krt_start (port_0 (pd L)) = 0" "link_down_cnt (port_0 (pd L)) = 0"
  shows "let tick = rnic_link_check_timer E rnd; L2 = tick (tick L); L3 = tick L2
    in settled (port_0 (pd L2)) \<and> writes (trace (card L2)) = writes (trace (card L)) \<and>
       starts_negotiation (card L) (card L3) \<and> an_start (port_0 (pd L3)) = 1 \<and>
       \<not> settled (port_0 (pd L3)) \<and> link_check_usecs L3 = 1"
proof -
  define L1 where "L1 = rnic_link_check_timer E rnd L"
  define L2 where "L2 = rnic_link_check_timer E rnd L1"
  define L3 where "L3 = rnic_link_check_timer E rnd L2"
  have 1: "port_0 (pd L1) = (port_0 (pd L))\<lparr>link_down_cnt := 1\<rparr>" "writes (trace (card L1)) = writes (trace (card L))"
    using tick_down [of E L rnd, OF assms(1)] assms(2,6) unfolding L1_def by simp_all
  have 2: "port_0 (pd L2) = (port_0 (pd L))\<lparr>link_down_cnt := 2\<rparr>" "writes (trace (card L2)) = writes (trace (card L))"
    using tick_down [of E L1 rnd, OF assms(1)] assms(2) 1 unfolding L2_def by simp_all
  have 3: "starts_negotiation (card L2) (card L3) \<and> an_start (port_0 (pd L3)) = 1 \<and> link_check_usecs L3 = 1"
    unfolding L3_def by (rule tick_restarts) (simp_all add: 2 assms(1,3-5))
  have "\<not> settled (port_0 (pd L3))"
    unfolding L3_def
    by (simp add: 2 assms(1,3-5) timer_split note_link_def an_tick_def pcs_an_start_def Let_def)
  with 2 3 assms(2) have "settled (port_0 (pd L2)) \<and> writes (trace (card L2)) = writes (trace (card L)) \<and>
       starts_negotiation (card L) (card L3) \<and> an_start (port_0 (pd L3)) = 1 \<and>
       \<not> settled (port_0 (pd L3)) \<and> link_check_usecs L3 = 1"
    by (simp add: starts_negotiation_def)
  then show ?thesis unfolding Let_def L1_def L2_def L3_def .
qed

lemma dead_env_down: "\<not> fst (link_poll dead_env 4 s)"
proof -
  have "fst (pcs_get_rlu dead_env 0 s) \<noteq> 1" for s
    using dead_env_read [of 0 "0x30001" 0 s] by (simp add: pcs_get_rlu_def get_field_def Let_def split_def)
  then show ?thesis by (simp add: numeral_eq_Suc Let_def split_def)
qed

theorem lost_link_renegotiated_witness:
  "an_start (port_0 (pd (((rnic_link_check_timer dead_env (\<lambda>_. 0)) ^^ 3)
     (link_with (zero_port\<lparr>an_en := 1, an_success := 1, krt_success := 1\<rparr>))))) = 1"
  using lost_link_renegotiated [of dead_env "link_with (zero_port\<lparr>an_en := 1, an_success := 1, krt_success := 1\<rparr>)"
      "\<lambda>_. 0"] dead_env_down
  by (simp add: Let_def zero_port_def numeral_eq_Suc)

section \<open>Training\<close>

text \<open>A port that negotiates, takes only training for success, and has not been trained.\<close>

definition untrained :: "u32 \<Rightarrow> port_state \<Rightarrow> bool" where
  "untrained m p \<longleftrightarrow> krt_success p = 0 \<and> an_en p \<noteq> 0 \<and> link_up_only p = 0 \<and> krt_lane_mask p = m"

lemma untrained_pg:
  assumes "untrained m (port_0 (pd L))"
  shows "untrained m (port_0 (pd (pcs_an_pg_rcv E 0 L)))"
proof -
  have "page_step (port_0 (pd L)) (port_0 (pd (pcs_an_nxp_check E 0 L)))" by (rule nxp_check_step)
  then show ?thesis
    using assms by (auto simp: pcs_an_pg_rcv_def Let_def split_def untrained_def page_step_def)
qed

lemma untrained_start: "untrained m (port_0 (pd L)) \<Longrightarrow> untrained m (port_0 (pd (pcs_an_start E 0 L)))"
  by (simp add: untrained_def pcs_an_start_def Let_def)

lemma untrained_timeout: "untrained m (port_0 (pd L)) \<Longrightarrow> untrained m (port_0 (pd (pcs_an_timeout E 0 L)))"
  by (simp add: untrained_def pcs_an_timeout_def)

lemma untrained_int_cmpl: "untrained m (port_0 (pd L)) \<Longrightarrow> untrained m (port_0 (pd (pcs_an_int_cmpl E 0 L)))"
  by (simp add: untrained_def pcs_an_int_cmpl_def krt_start_fields Let_def)

lemma untrained_inc_link: "untrained m (port_0 (pd L)) \<Longrightarrow> untrained m (port_0 (pd (pcs_an_inc_link E rnd 0 L)))"
  by (simp add: untrained_def pcs_an_inc_link_def Let_def split_def)

lemma untrained_note: "untrained m (port_0 (pd L)) \<Longrightarrow> untrained m (port_0 (pd (note_link up L)))"
  by (simp add: untrained_def note_link_def Let_def)

lemmas untrained_ops = untrained_start untrained_timeout untrained_int_cmpl untrained_inc_link untrained_note

lemma untrained_interrupt:
  assumes "untrained m (port_0 (pd L))"
  shows "untrained m (port_0 (pd (an_interrupt E rnd i L)))"
proof -
  let ?a = "if get_field i 0 0 \<noteq> 0 then pcs_an_int_cmpl E 0 L else L"
  let ?b = "if get_field i 1 1 \<noteq> 0 then pcs_an_inc_link E rnd 0 ?a else ?a"
  let ?c = "if get_field i 2 2 \<noteq> 0 then pcs_an_pg_rcv E 0 ?b else ?b"
  have "untrained m (port_0 (pd ?a))" using assms untrained_ops(3) by (cases "get_field i 0 0 \<noteq> 0") simp_all
  then have "untrained m (port_0 (pd ?b))" using untrained_ops(4) by (cases "get_field i 1 1 \<noteq> 0") simp_all
  then have "untrained m (port_0 (pd ?c))" using untrained_pg by (cases "get_field i 2 2 \<noteq> 0") simp_all
  moreover have "untrained m (port_0 (pd (with_port 0 (\<lambda>p. p\<lparr>an_intr_check_cnt := 0\<rparr>) M))) =
      untrained m (port_0 (pd M))" for M by (simp add: untrained_def)
  ultimately show ?thesis unfolding an_interrupt_def Let_def by blast
qed

lemma untrained_check:
  assumes "untrained m (port_0 (pd L))" and "\<And>t. \<not> krt_ok m (hw_read E t Pcie_bar 0x704025c)"
  shows "untrained m (port_0 (pd (pcs_krt_check_state E 0 L)))"
  using assms
  by (simp add: pcs_krt_check_state_def Let_def split_def untrained_def pcs_reg_read_def reg_read_def readl_def
      pcs_base_def)

lemma untrained_poll:
  assumes "untrained m (port_0 (pd L))"
  shows "untrained m (port_0 (pd (an_poll E rnd L)))"
proof -
  obtain i s where rd: "pcs_an_get_intr E 0 (card L) = (i, s)" by fastforce
  let ?m = "if i \<noteq> 0 then an_interrupt E rnd i (L\<lparr>card := s\<rparr>)
    else with_port 0 (\<lambda>p. p\<lparr>an_intr_check_cnt := an_intr_check_cnt p + 1\<rparr>) (L\<lparr>card := s\<rparr>)"
  have "untrained m (port_0 (pd ?m))"
    using untrained_interrupt [of m "L\<lparr>card := s\<rparr>" E rnd i] assms by (simp add: untrained_def)
  then show ?thesis
    using assms untrained_ops(2) [of m ?m E] unfolding an_poll_def rd Let_def prod.case
    by (simp add: untrained_def)
qed

lemma untrained_tick:
  assumes "untrained m (port_0 (pd L))" and "\<And>t. \<not> krt_ok m (hw_read E t Pcie_bar 0x704025c)"
  shows "untrained m (port_0 (pd (rnic_link_check_timer E rnd L)))"
proof -
  let ?N = "note_link (fst (link_poll E 4 (card L))) (L\<lparr>card := snd (link_poll E 4 (card L))\<rparr>)"
  have "untrained m (port_0 (pd ?N))" using untrained_ops(5) assms(1) by simp
  then have "untrained m (port_0 (pd (an_tick E rnd ?N)))"
    unfolding an_tick_def Let_def using untrained_ops(1) untrained_check untrained_poll assms(2) by simp
  then show ?thesis by (simp add: timer_split Let_def)
qed

text \<open>
  A negotiation whose training fails never settles. If the card never reports a trained lane,
  on a port that negotiates and does not take every answer for success, then after any number of
  ticks the port is not settled, and whenever no negotiation is going on the next tick starts one,
  whether the link is up or not: the result that the partners have agreed on is not kept.
\<close>

theorem failed_training_never_settles:
  assumes "untrained m (port_0 (pd L))" and "\<And>t. \<not> krt_ok m (hw_read E t Pcie_bar 0x704025c)"
  shows "let L' = ((rnic_link_check_timer E rnd) ^^ n) L; L'' = rnic_link_check_timer E rnd L'
    in \<not> settled (port_0 (pd L')) \<and>
       (an_start (port_0 (pd L')) = 0 \<and> krt_start (port_0 (pd L')) = 0 \<longrightarrow>
          starts_negotiation (card L') (card L'') \<and> an_start (port_0 (pd L'')) = 1)"
proof -
  have u: "untrained m (port_0 (pd (((rnic_link_check_timer E rnd) ^^ n) L)))"
    by (induction n) (use assms untrained_tick in simp_all)
  then show ?thesis
    using tick_restarts [of "((rnic_link_check_timer E rnd) ^^ n) L" E rnd] by (simp add: Let_def untrained_def)
qed

text \<open>A card whose link is up, whose negotiation completes and whose training fails on every lane.\<close>

definition fail_env :: env where
  "fail_env = file_env\<lparr>hw_read := \<lambda>t r a. if a = 0x70c0004 then 4 else if a = 0x704025c then 0x8888
     else if a = 0x71e0008 then 1 else 0\<rparr>"

theorem failed_training_never_settles_witness:
  "\<forall>n. \<not> settled (port_0 (pd (((rnic_link_check_timer fail_env (\<lambda>_. 0)) ^^ n)
     (link_with (zero_port\<lparr>an_en := 1, krt_en := 1, krt_lane_mask := 0xf\<rparr>))))) \<and>
   an_start (port_0 (pd (rnic_link_check_timer fail_env (\<lambda>_. 0)
     (link_with (zero_port\<lparr>an_en := 1, krt_en := 1, krt_lane_mask := 0xf\<rparr>))))) = 1"
proof -
  let ?L = "link_with (zero_port\<lparr>an_en := 1, krt_en := 1, krt_lane_mask := 0xf\<rparr>)"
  have u: "untrained 0xf (port_0 (pd ?L))" by (simp add: untrained_def zero_port_def)
  have k: "\<not> krt_ok 0xf (hw_read fail_env t Pcie_bar 0x704025c)" for t
    by (simp add: fail_env_def krt_ok_def get_field_def)
  from failed_training_never_settles [OF u k, where rnd = "\<lambda>_. 0"] failed_training_never_settles [OF u k, where rnd = "\<lambda>_. 0" and n = 0]
  show ?thesis by (simp add: Let_def zero_port_def)
qed

text \<open>
  One trained lane is enough. When the status of training has a trained lane and a failed
  lane of the mask, the check sets both results and ends the training, and the completion that
  follows settles the port: a 40G or 100G link with failed lanes counts as trained.
\<close>

theorem one_lane_decides:
  assumes "krt_ok m sts" "krt_bad m sts" and "krt_lane_mask (port_0 (pd L)) = m"
    and "fst (pcs_reg_read E 0 0x10097 (card L)) = sts"
  shows "let L1 = pcs_krt_check_state E 0 L; L2 = pcs_an_int_cmpl E 0 L1
    in krt_failed (port_0 (pd L1)) = 1 \<and> krt_success (port_0 (pd L1)) = 1 \<and> krt_start (port_0 (pd L1)) = 0 \<and>
       settled (port_0 (pd L2)) \<and> krt_failed (port_0 (pd L2)) = 1"
  using assms by (simp add: pcs_krt_check_state_def pcs_an_int_cmpl_def Let_def split_def)

theorem one_lane_decides_witness:
  "settled (port_0 (pd (pcs_an_int_cmpl one_env 0 (pcs_krt_check_state
     (file_env\<lparr>hw_read := \<lambda>t r a. 0x81\<rparr>) 0 (link_with (zero_port\<lparr>krt_lane_mask := 0xf\<rparr>))))))"
proof -
  let ?E = "file_env\<lparr>hw_read := \<lambda>t r a. 0x81\<rparr>" and ?L = "link_with (zero_port\<lparr>krt_lane_mask := 0xf\<rparr>)"
  have "krt_ok 0xf 0x81" "krt_bad 0xf 0x81" by (simp_all add: krt_ok_def krt_bad_def get_field_def)
  moreover have "fst (pcs_reg_read ?E 0 0x10097 (card ?L)) = 0x81"
    by (simp add: pcs_reg_read_def reg_read_def readl_def Let_def)
  ultimately show ?thesis
    using one_lane_decides [of "0xf" "0x81" ?L ?E] by (simp add: Let_def pcs_an_int_cmpl_def)
qed

end
