(* ===== verification/Life.thy ===== *)
theory Life
  imports Link Channels Mac_stat
begin

text \<open>
  The life of the Ethernet interface (bx_mac_net.c): opening, closing, starting, stopping and
  restarting it, its timers, interrupt lines and NAPI contexts, and the interrupt handlers of a
  legacy build. The channels and rings are those of Channels, the start of the units that
  \<open>hw_ops->exit\<close> performs is that of Link; the other entries of the table \<open>struct mac_hw_ops\<close> that
  the life cycle calls are an argument. None is a call that does not return or a kernel check
  that fails.
\<close>

section \<open>Register map\<close>

text \<open>Register offsets, and fields as position and length, from the headers.\<close>

abbreviation (input) DMA_CH_SR_FBE :: "nat \<times> nat" where "DMA_CH_SR_FBE \<equiv> (12, 1)"
abbreviation (input) DMA_CH_SR_RBU :: "nat \<times> nat" where "DMA_CH_SR_RBU \<equiv> (7, 1)"
abbreviation (input) DMA_CH_SR_RI :: "nat \<times> nat" where "DMA_CH_SR_RI \<equiv> (6, 1)"
abbreviation (input) DMA_CH_SR_RPS :: "nat \<times> nat" where "DMA_CH_SR_RPS \<equiv> (8, 1)"
abbreviation (input) DMA_CH_SR_TBU :: "nat \<times> nat" where "DMA_CH_SR_TBU \<equiv> (2, 1)"
abbreviation (input) DMA_CH_SR_TI :: "nat \<times> nat" where "DMA_CH_SR_TI \<equiv> (0, 1)"
abbreviation (input) DMA_CH_SR_TPS :: "nat \<times> nat" where "DMA_CH_SR_TPS \<equiv> (1, 1)"
abbreviation (input) DMA_ISR :: u32 where "DMA_ISR \<equiv> 0x3008"
abbreviation (input) DMA_ISR_MACIS :: "nat \<times> nat" where "DMA_ISR_MACIS \<equiv> (17, 1)"
abbreviation (input) MAC_ISR :: u32 where "MAC_ISR \<equiv> 0xb0"
abbreviation (input) MAC_ISR_MMCRXIS :: "nat \<times> nat" where "MAC_ISR_MMCRXIS \<equiv> (9, 1)"
abbreviation (input) MAC_ISR_MMCTXIS :: "nat \<times> nat" where "MAC_ISR_MMCTXIS \<equiv> (10, 1)"

section \<open>Kernel\<close>

text \<open>The error number of a missing device.\<close>

abbreviation ENODEV :: int where
  "ENODEV \<equiv> 19"

section \<open>NAPI and interrupt lines\<close>

text \<open>
  A NAPI context as the kernel documents it: \<open>netif_napi_add\<close> leaves it disabled, \<open>napi_enable\<close>
  insists that it is not enabled, \<open>napi_disable\<close> waits until it is not scheduled, and for ever if it
  is disabled already. Deleting one takes it off the device's list only. Zeroed memory reads as an
  idle context that is not on the list.
\<close>

datatype napi_state = Napi_idle | Napi_sched | Napi_off

record napi =
  listed :: bool
  napi_st :: napi_state

datatype isr_stat = Napi_poll_isr | Napi_poll_txtimer | Tx_process_stopped | Rx_process_stopped
  | Tx_buffer_unavailable | Rx_buffer_unavailable | Fatal_bus_error

text \<open>
  The device's NAPI context and interrupt line are at None, those of channel \<open>i\<close> at \<open>Some i\<close>.
  \<open>tx_timers i\<close>: the timer of channel \<open>i\<close> is pending; \<open>timer_flags i\<close>: its \<open>tx_timer_active\<close>.
\<close>

record life =
  lnk :: link
  mem :: chan_pdata
  running :: bool
  napis :: "nat option \<Rightarrow> napi"
  irqs :: "nat option \<Rightarrow> bool"
  ieu_timer :: bool
  link_timer :: bool
  lock_timer :: bool
  tx_timers :: "nat \<Rightarrow> bool"
  timer_flags :: "nat \<Rightarrow> bool"
  queues_on :: bool
  restart_work :: bool
  buf_size :: u32
  mtu :: u32
  isr_stats :: "isr_stat \<Rightarrow> u64"
  mmc :: "mmc_stat \<Rightarrow> u64"

text \<open>The entries of \<open>struct mac_hw_ops\<close>.\<close>

record hw_ops =
  op_init :: "kern \<Rightarrow> (int \<times> kern) option"
  op_enable_tx :: "kern \<Rightarrow> kern"
  op_enable_rx :: "kern \<Rightarrow> kern"
  op_disable_tx :: "kern \<Rightarrow> kern"
  op_disable_rx :: "kern \<Rightarrow> kern"

definition hw :: "(kern \<Rightarrow> kern) \<Rightarrow> life \<Rightarrow> life" where
  "hw f L = L\<lparr>lnk := on_card f (lnk L)\<rparr>"

definition set_napi :: "nat option \<Rightarrow> napi \<Rightarrow> life \<Rightarrow> life" where
  "set_napi k n L = L\<lparr>napis := (napis L)(k := n)\<rparr>"

definition netif_napi_add :: "nat option \<Rightarrow> life \<Rightarrow> life" where
  "netif_napi_add k = set_napi k \<lparr>listed = True, napi_st = Napi_off\<rparr>"

definition napi_enable :: "nat option \<Rightarrow> life \<Rightarrow> life option" where
  "napi_enable k L =
     (if napi_st (napis L k) = Napi_idle then None else Some (set_napi k ((napis L k)\<lparr>napi_st := Napi_idle\<rparr>) L))"

definition napi_disable :: "nat option \<Rightarrow> life \<Rightarrow> life option" where
  "napi_disable k L =
     (if napi_st (napis L k) = Napi_off then None else Some (set_napi k ((napis L k)\<lparr>napi_st := Napi_off\<rparr>) L))"

definition netif_napi_del :: "nat option \<Rightarrow> life \<Rightarrow> life" where
  "netif_napi_del k L = set_napi k ((napis L k)\<lparr>listed := False\<rparr>) L"

text \<open>\<open>napi_schedule_prep\<close> and \<open>__napi_schedule\<close> after it.\<close>

definition napi_schedule :: "nat option \<Rightarrow> (life \<Rightarrow> life) \<Rightarrow> life \<Rightarrow> life" where
  "napi_schedule k between L =
     (if napi_st (napis L k) = Napi_idle
      then between (set_napi k ((napis L k)\<lparr>napi_st := Napi_sched\<rparr>) L) else L)"

definition napi_complete_done :: "nat option \<Rightarrow> life \<Rightarrow> life" where
  "napi_complete_done k L =
     (if napi_st (napis L k) = Napi_sched then set_napi k ((napis L k)\<lparr>napi_st := Napi_idle\<rparr>) L else L)"

definition irq_no :: "nat option \<Rightarrow> nat" where
  "irq_no k = (case k of None \<Rightarrow> 0 | Some i \<Rightarrow> Suc i)"

text \<open>Whether a line can be had is up to the kernel: a status for each request.\<close>

definition devm_request_irq :: "(event list \<Rightarrow> nat option \<Rightarrow> int) \<Rightarrow> nat option \<Rightarrow> life \<Rightarrow> int \<times> life" where
  "devm_request_irq R k L =
     (let ret = R (trace (card (lnk L))) k;
          L = hw (emit (Ecall ''request_irq'' [irq_no k])) L
      in (ret, if ret = 0 then L\<lparr>irqs := (irqs L)(k := True)\<rparr> else L))"

definition devm_free_irq :: "nat option \<Rightarrow> life \<Rightarrow> life" where
  "devm_free_irq k L = (hw (emit (Ecall ''free_irq'' [irq_no k])) L)\<lparr>irqs := (irqs L)(k := False)\<rparr>"

section \<open>Interrupt masks\<close>

definition mac_enable_rx_tx_ints :: "life \<Rightarrow> life" where
  "mac_enable_rx_tx_ints = hw ieu_enable_intr_tx_rx_all"

definition mac_disable_rx_tx_ints :: "env \<Rightarrow> life \<Rightarrow> life" where
  "mac_disable_rx_tx_ints E = hw (ieu_disable_intr_tx_rx_all E)"

section \<open>Timers\<close>

text \<open>The loops over the transmit timers end at the first channel without a transmit ring.\<close>

definition tx_lead :: "life \<Rightarrow> nat" where
  "tx_lead L = length (takeWhile (\<lambda>c. tx_mem c \<noteq> None) (channels (mem L)))"

definition mac_init_timers :: "life \<Rightarrow> life" where
  "mac_init_timers L = L\<lparr>tx_timers := (\<lambda>i. i \<ge> tx_lead L \<and> tx_timers L i),
     ieu_timer := False, link_timer := False, lock_timer := False\<rparr>"

text \<open>\<open>del_timer_sync\<close> of each; \<open>tx_timer_active\<close> keeps its value.\<close>

definition mac_stop_timers :: "life \<Rightarrow> life" where
  "mac_stop_timers L = L\<lparr>tx_timers := (\<lambda>i. i \<ge> tx_lead L \<and> tx_timers L i),
     ieu_timer := False, link_timer := False, lock_timer := False\<rparr>"

definition mac_tx_timer :: "env \<Rightarrow> nat \<Rightarrow> life \<Rightarrow> life" where
  "mac_tx_timer E i L =
     (let L = L\<lparr>tx_timers := (tx_timers L)(i := False)\<rparr>;
          k = (if per_channel_irq (mem L) then Some i else None);
          L = napi_schedule k (\<lambda>L.
                (let L = (if per_channel_irq (mem L) then hw (emit (Ecall ''disable_irq_nosync'' [irq_no (Some i)])) L
                          else mac_disable_rx_tx_ints E L)
                 in L\<lparr>isr_stats := (isr_stats L)(Napi_poll_txtimer := isr_stats L Napi_poll_txtimer + 1)\<rparr>)) L
      in L\<lparr>timer_flags := (timer_flags L)(i := False)\<rparr>)"

section \<open>NAPI and interrupts of the interface\<close>

definition napi_keys :: "life \<Rightarrow> nat option list" where
  "napi_keys L = (if per_channel_irq (mem L) then map Some [0..<channel_count (mem L)] else [None])"

fun each :: "(nat option \<Rightarrow> life \<Rightarrow> life option) \<Rightarrow> nat option list \<Rightarrow> life \<Rightarrow> life option" where
  "each f [] L = Some L"
| "each f (k # ks) L = Option.bind (f k L) (each f ks)"

definition mac_napi_enable :: "bool \<Rightarrow> life \<Rightarrow> life option" where
  "mac_napi_enable add L =
     each (\<lambda>k L. napi_enable k (if add then netif_napi_add k L else L)) (napi_keys L) L"

definition mac_napi_disable :: "bool \<Rightarrow> life \<Rightarrow> life option" where
  "mac_napi_disable del L =
     each (\<lambda>k L. map_option (\<lambda>L. if del then netif_napi_del k L else L) (napi_disable k L)) (napi_keys L) L"

text \<open>The channels' lines from \<open>i\<close> on; on failure those before, from the last, and the device's are freed.\<close>

fun request_channel_irqs :: "(event list \<Rightarrow> nat option \<Rightarrow> int) \<Rightarrow> nat \<Rightarrow> nat \<Rightarrow> life \<Rightarrow> int \<times> life" where
  "request_channel_irqs R 0 i L = (0, L)"
| "request_channel_irqs R (Suc n) i L =
     (let (ret, L) = devm_request_irq R (Some i) L
      in if ret \<noteq> 0 then (ret, devm_free_irq None (fold (\<lambda>j. devm_free_irq (Some j)) (rev [0..<i]) L))
         else request_channel_irqs R n (i + 1) L)"

definition mac_request_irqs :: "(event list \<Rightarrow> nat option \<Rightarrow> int) \<Rightarrow> life \<Rightarrow> int \<times> life" where
  "mac_request_irqs R L =
     (let (ret, L) = devm_request_irq R None L
      in if ret \<noteq> 0 then (ret, L)
         else if \<not> per_channel_irq (mem L) then (0, L)
         else request_channel_irqs R (channel_count (mem L)) 0 L)"

definition mac_free_irqs :: "life \<Rightarrow> life" where
  "mac_free_irqs L =
     (let L = devm_free_irq None L
      in if \<not> per_channel_irq (mem L) then L
         else fold (\<lambda>j. devm_free_irq (Some j)) [0..<channel_count (mem L)] L)"

section \<open>Start and stop\<close>

text \<open>An operation on the channels and the card.\<close>

definition on_mem :: "(chan_pdata \<times> kern \<Rightarrow> chan_pdata \<times> kern) \<Rightarrow> life \<Rightarrow> life" where
  "on_mem f L = (case f (mem L, card (lnk L)) of (m, s) \<Rightarrow> L\<lparr>mem := m, lnk := (lnk L)\<lparr>card := s\<rparr>\<rparr>)"

definition hw_exit :: "env \<Rightarrow> life \<Rightarrow> life option" where
  "hw_exit E L = map_option (\<lambda>l. L\<lparr>lnk := l\<rparr>) (mac_hw_exit E (lnk L))"

text \<open>The status of \<open>hw_ops->init\<close> is dropped.\<close>

definition mac_start :: "env \<Rightarrow> hw_ops \<Rightarrow> (event list \<Rightarrow> nat option \<Rightarrow> int) \<Rightarrow> life \<Rightarrow> (int \<times> life) option" where
  "mac_start E H R L = do {
     (i, s) \<leftarrow> op_init H (card (lnk L));
     L \<leftarrow> mac_napi_enable True (hw (\<lambda>_. s) L);
     let (ret, L) = mac_request_irqs R L;
     if ret \<noteq> 0 then do {
       L \<leftarrow> mac_napi_disable True L;
       L \<leftarrow> hw_exit E L;
       Some (ret, L)
     } else do {
       let L = hw (op_enable_rx H) (hw (op_enable_tx H) L);
       let L = (hw (mod_timer 1000) (L\<lparr>queues_on := True\<rparr>))\<lparr>ieu_timer := True\<rparr>;
       let L = (hw (mod_timer (link_check_usecs (lnk L))) L)\<lparr>link_timer := True\<rparr>;
       Some (0, L)
     }
   }"

text \<open>\<open>netdev_tx_reset_queue\<close> of the queues of the channels that have a transmit ring.\<close>

definition reset_queues :: "life \<Rightarrow> life" where
  "reset_queues L =
     fold (\<lambda>c. hw (emit (Ecall ''netdev_tx_reset_queue'' [queue_index (chan c)])))
       (filter (\<lambda>c. tx_mem c \<noteq> None) (channels (mem L))) L"

definition mac_stop :: "env \<Rightarrow> hw_ops \<Rightarrow> life \<Rightarrow> life option" where
  "mac_stop E H L = do {
     let L = mac_stop_timers (L\<lparr>queues_on := False\<rparr>);
     let L = hw (op_disable_rx H) (hw (op_disable_tx H) L);
     let L = mac_free_irqs L;
     L \<leftarrow> mac_napi_disable True L;
     L \<leftarrow> hw_exit E L;
     Some (reset_queues L)
   }"

text \<open>The status of the start is dropped.\<close>

definition mac_restart_dev :: "env \<Rightarrow> hw_ops \<Rightarrow> (event list \<Rightarrow> nat option \<Rightarrow> int) \<Rightarrow> life \<Rightarrow> life option" where
  "mac_restart_dev E H R L =
     (if \<not> running L then Some L
      else do {
        L \<leftarrow> mac_stop E H L;
        let L = on_mem mac_free_rx_data (on_mem mac_free_tx_data L);
        (ret, L) \<leftarrow> mac_start E H R L;
        Some L
      })"

text \<open>The work item; it runs under the lock of the network configuration.\<close>

definition mac_restart :: "env \<Rightarrow> hw_ops \<Rightarrow> (event list \<Rightarrow> nat option \<Rightarrow> int) \<Rightarrow> life \<Rightarrow> life option" where
  "mac_restart E H R L = mac_restart_dev E H R (L\<lparr>restart_work := False\<rparr>)"

section \<open>Opening and closing\<close>

text \<open>\<open>MAC_JUMBO_PACKET_MTU\<close> 9000, \<open>MAC_RX_MIN_BUF_SIZE\<close> 1522, \<open>MAC_RX_BUF_ALIGN\<close> 64, and the kernel's lengths.\<close>

definition mac_calc_rx_buf_size :: "u32 \<Rightarrow> int" where
  "mac_calc_rx_buf_size m =
     (if m > 9000 then - EINVAL
      else let n = m + 14 + 4 + 4;
               n = min (max n 1522) 4096
           in uint ((n + 63) AND NOT 63))"

definition mac_open :: "env \<Rightarrow> hw_ops \<Rightarrow> (event list \<Rightarrow> nat option \<Rightarrow> int) \<Rightarrow> (event list \<Rightarrow> nat \<Rightarrow> mac_dma_desc) \<Rightarrow>
    life \<Rightarrow> (int \<times> life) option" where
  "mac_open E H R D L =
     (let n = mac_calc_rx_buf_size (mtu L)
      in if n < 0 then Some (n, L)
         else do {
           let L = L\<lparr>buf_size := word_of_int n\<rparr>;
           (ret, m, s) \<leftarrow> mac_alloc_channels_and_rings E D (mem L, card (lnk L));
           let L = hw (\<lambda>_. s) (L\<lparr>mem := m\<rparr>);
           if ret \<noteq> 0 then Some (ret, L)
           else do {
             let L = mac_init_timers (L\<lparr>restart_work := False, tx_timers := (\<lambda>_. False), timer_flags := (\<lambda>_. False),
                       napis := (\<lambda>k. if k = None then napis L None else \<lparr>listed = False, napi_st = Napi_idle\<rparr>)\<rparr>);
             (ret, L) \<leftarrow> mac_start E H R L;
             if ret \<noteq> 0 then do {
               (m, s) \<leftarrow> mac_free_channels_and_rings (mem L, card (lnk L));
               Some (ret, hw (\<lambda>_. s) (L\<lparr>mem := m\<rparr>))
             } else Some (0, L)
           }
         })"

definition mac_close :: "env \<Rightarrow> hw_ops \<Rightarrow> life \<Rightarrow> (int \<times> life) option" where
  "mac_close E H L = do {
     L \<leftarrow> mac_stop E H L;
     (m, s) \<leftarrow> mac_free_channels_and_rings (mem L, card (lnk L));
     Some (0, hw (\<lambda>_. s) (L\<lparr>mem := m\<rparr>))
   }"

text \<open>
  What the kernel does around the two: the interface counts as running from before \<open>ndo_open\<close>, unless
  that fails, until before \<open>ndo_stop\<close>.
\<close>

definition dev_open :: "env \<Rightarrow> hw_ops \<Rightarrow> (event list \<Rightarrow> nat option \<Rightarrow> int) \<Rightarrow> (event list \<Rightarrow> nat \<Rightarrow> mac_dma_desc) \<Rightarrow>
    life \<Rightarrow> (int \<times> life) option" where
  "dev_open E H R D L =
     (if running L then Some (0, L)
      else map_option (\<lambda>(ret, L). (ret, L\<lparr>running := (ret = 0)\<rparr>)) (mac_open E H R D (L\<lparr>running := True\<rparr>)))"

definition dev_close :: "env \<Rightarrow> hw_ops \<Rightarrow> life \<Rightarrow> life option" where
  "dev_close E H L =
     (if \<not> running L then Some L else map_option snd (mac_close E H (L\<lparr>running := False\<rparr>)))"

definition mac_tx_timeout :: "life \<Rightarrow> life" where
  "mac_tx_timeout L = L\<lparr>restart_work := True\<rparr>"

definition mac_ioctl :: "life \<Rightarrow> int" where
  "mac_ioctl L = (if \<not> running L then - ENODEV else 0)"

definition mac_change_mtu :: "env \<Rightarrow> hw_ops \<Rightarrow> (event list \<Rightarrow> nat option \<Rightarrow> int) \<Rightarrow> u32 \<Rightarrow> life \<Rightarrow> (int \<times> life) option" where
  "mac_change_mtu E H R m L =
     (let n = mac_calc_rx_buf_size m
      in if n < 0 then Some (n, L)
         else map_option (\<lambda>L. (0, L)) (mac_restart_dev E H R (L\<lparr>buf_size := word_of_int n, mtu := m\<rparr>)))"

section \<open>Interrupt handlers\<close>

definition count_isr :: "isr_stat \<Rightarrow> life \<Rightarrow> life" where
  "count_isr st L = L\<lparr>isr_stats := (isr_stats L)(st := isr_stats L st + 1)\<rparr>"

definition hw_status :: "env \<Rightarrow> u32 \<Rightarrow> life \<Rightarrow> u32 \<times> life" where
  "hw_status E a L = (let (v, s) = mread E a (card (lnk L)) in (v, hw (\<lambda>_. s) L))"

text \<open>What channel 0 counts of its status, in the order of the code.\<close>

definition sr_counts :: "((nat \<times> nat) \<times> isr_stat) list" where
  "sr_counts = [(DMA_CH_SR_TPS, Tx_process_stopped), (DMA_CH_SR_RPS, Rx_process_stopped),
     (DMA_CH_SR_TBU, Tx_buffer_unavailable), (DMA_CH_SR_RBU, Rx_buffer_unavailable),
     (DMA_CH_SR_FBE, Fatal_bus_error)]"

text \<open>
  One turn of the loop of \<open>mac_isr\<close>; \<open>c\<close> is the first channel. Channels from 1 on write their status
  to their own register, and then, as channel 0 does, to the register of channel 0.
\<close>

definition isr_channel :: "env \<Rightarrow> mac_channel \<Rightarrow> nat \<Rightarrow> life \<Rightarrow> life" where
  "isr_channel E c i L =
     (let (sr, L) = hw_status E (dma_regs c + word_of_nat i * DMA_CH_INC + DMA_CH_SR) L;
          event = (MAC_GET_REG_BITS sr DMA_CH_SR_TI \<noteq> 0 \<or> MAC_GET_REG_BITS sr DMA_CH_SR_RI \<noteq> 0);
          L = (if i \<ge> 1
               then (let L = (if i = 6 \<and> event
                              then hw (ieu_disable_intr_rx_one E 6) (hw (ieu_disable_intr_tx_one E 6) L) else L)
                     in hw (mwrite (dma_regs c + word_of_nat i * DMA_CH_INC + DMA_CH_SR) sr) L)
               else if \<not> per_channel_irq (mem L) \<and> event
               then napi_schedule None (\<lambda>L. count_isr Napi_poll_isr (mac_disable_rx_tx_ints E L)) L else L);
          L = (if i = 0
               then (let L = fold (\<lambda>(f, st) L. if MAC_GET_REG_BITS sr f \<noteq> 0 then count_isr st L else L) sr_counts L
                     in if MAC_GET_REG_BITS sr DMA_CH_SR_FBE \<noteq> 0 then L\<lparr>restart_work := True\<rparr> else L)
               else L)
      in hw (mwrite (dma_regs c + DMA_CH_SR) sr) L)"

definition mmc_isr :: "(env \<Rightarrow> (mmc_stat \<Rightarrow> u64) \<Rightarrow> kern \<Rightarrow> (mmc_stat \<Rightarrow> u64) \<times> kern) \<Rightarrow> env \<Rightarrow> life \<Rightarrow> life" where
  "mmc_isr f E L = (let (st, s) = f E (mmc L) (card (lnk L)) in hw (\<lambda>_. s) (L\<lparr>mmc := st\<rparr>))"

text \<open>Seven channels are looked at, whatever \<open>channel_count\<close> is; without a first channel there is nothing to read from.\<close>

definition mac_isr :: "env \<Rightarrow> life \<Rightarrow> life option" where
  "mac_isr E L =
     (let (dma_isr, L) = hw_status E DMA_ISR L;
          due = filter (bit dma_isr) [0..<7]
      in if dma_isr = 0 then Some L
         else if due \<noteq> [] \<and> channels (mem L) = [] then None
         else (let L = fold (isr_channel E (chan (hd (channels (mem L))))) due L
               in if MAC_GET_REG_BITS dma_isr DMA_ISR_MACIS \<noteq> 0
                  then (let (isr, L) = hw_status E MAC_ISR L;
                            L = (if MAC_GET_REG_BITS isr MAC_ISR_MMCTXIS \<noteq> 0 then mmc_isr mac_tx_mmc_int E L else L);
                            L = (if MAC_GET_REG_BITS isr MAC_ISR_MMCRXIS \<noteq> 0 then mmc_isr mac_rx_mmc_int E L else L)
                        in Some L)
                  else Some L))"

text \<open>The handler of a channel's own line.\<close>

definition mac_dma_isr :: "env \<Rightarrow> nat \<Rightarrow> life \<Rightarrow> life" where
  "mac_dma_isr E i =
     napi_schedule (Some i) (\<lambda>L. hw (emit (Ecall ''disable_irq_nosync'' [irq_no (Some i)])) (mac_disable_rx_tx_ints E L))"

text \<open>\<open>netpoll\<close> calls the handlers of the channels, or that of the device with its line disabled.\<close>

definition mac_poll_controller :: "env \<Rightarrow> life \<Rightarrow> life option" where
  "mac_poll_controller E L =
     (if per_channel_irq (mem L) then Some (fold (mac_dma_isr E) [0..<channel_count (mem L)] L)
      else map_option (hw (emit (Ecall ''enable_irq'' [irq_no None])))
             (mac_isr E (hw (emit (Ecall ''disable_irq'' [irq_no None])) L)))"

end
