(* ===== verification/Life_Correct.thy ===== *)
theory Life_Correct
  imports Life Link_Correct Channels_Correct Xmit
begin

text \<open>
  Properties of the life cycle: what an interface that is up holds, what closing it returns, the
  interface that a failed restart leaves, the transmit timer across a restart, and the status that
  the handler writes to the first channel.
\<close>

section \<open>Fields\<close>

lemma hw_fields [simp]:
  "mem (hw f L) = mem L" "running (hw f L) = running L" "napis (hw f L) = napis L" "irqs (hw f L) = irqs L"
  "ieu_timer (hw f L) = ieu_timer L" "link_timer (hw f L) = link_timer L" "lock_timer (hw f L) = lock_timer L"
  "tx_timers (hw f L) = tx_timers L" "timer_flags (hw f L) = timer_flags L" "queues_on (hw f L) = queues_on L"
  "restart_work (hw f L) = restart_work L" "card (lnk (hw f L)) = f (card (lnk L))" "napi_keys (hw f L) = napi_keys L"
  by (simp_all add: hw_def on_card_def napi_keys_def)

lemma set_napi_fields [simp]:
  "mem (set_napi k n L) = mem L" "running (set_napi k n L) = running L" "irqs (set_napi k n L) = irqs L"
  "napis (set_napi k n L) = (napis L)(k := n)" "tx_timers (set_napi k n L) = tx_timers L"
  "timer_flags (set_napi k n L) = timer_flags L" "queues_on (set_napi k n L) = queues_on L"
  "ieu_timer (set_napi k n L) = ieu_timer L" "link_timer (set_napi k n L) = link_timer L"
  "lock_timer (set_napi k n L) = lock_timer L" "lnk (set_napi k n L) = lnk L"
  by (simp_all add: set_napi_def)

text \<open>The parts a step of the NAPI list or of the interrupt lines leaves alone.\<close>

definition same_rest :: "life \<Rightarrow> life \<Rightarrow> bool" where
  "same_rest L L' \<longleftrightarrow> mem L' = mem L \<and> running L' = running L \<and> tx_timers L' = tx_timers L \<and>
     timer_flags L' = timer_flags L \<and> queues_on L' = queues_on L \<and> ieu_timer L' = ieu_timer L \<and>
     link_timer L' = link_timer L \<and> lock_timer L' = lock_timer L"

lemma same_rest_refl [simp]: "same_rest L L"
  by (simp add: same_rest_def)

lemma same_rest_trans: "same_rest L L1 \<Longrightarrow> same_rest L1 L2 \<Longrightarrow> same_rest L L2"
  by (simp add: same_rest_def)

lemma distinct_keys: "distinct (napi_keys L)"
  by (simp add: napi_keys_def distinct_map)

lemma keys_of_rest: "same_rest L L' \<Longrightarrow> napi_keys L' = napi_keys L"
  by (simp add: same_rest_def napi_keys_def)

section \<open>Interrupt lines and NAPI\<close>

lemma napi_full [simp]: "(n :: napi)\<lparr>napi_st := a, listed := b\<rparr> = \<lparr>listed = b, napi_st = a\<rparr>"
  by (cases n) simp

lemma enable_all:
  assumes "distinct ks"
  shows "\<exists>L'. each (\<lambda>k L. napi_enable k (netif_napi_add k L)) ks L = Some L' \<and> same_rest L L' \<and> irqs L' = irqs L \<and>
    lnk L' = lnk L \<and> napis L' = (\<lambda>k. if k \<in> set ks then \<lparr>listed = True, napi_st = Napi_idle\<rparr> else napis L k)"
  using assms
proof (induction ks arbitrary: L)
  case (Cons k ks)
  let ?L = "set_napi k \<lparr>listed = True, napi_st = Napi_idle\<rparr> (set_napi k \<lparr>listed = True, napi_st = Napi_off\<rparr> L)"
  have e: "napi_enable k (netif_napi_add k L) = Some ?L"
    by (simp add: napi_enable_def netif_napi_add_def)
  from Cons obtain L' where L': "each (\<lambda>k L. napi_enable k (netif_napi_add k L)) ks ?L = Some L'" "same_rest ?L L'"
    "irqs L' = irqs ?L" "lnk L' = lnk ?L"
    "napis L' = (\<lambda>j. if j \<in> set ks then \<lparr>listed = True, napi_st = Napi_idle\<rparr> else napis ?L j)"
    by fastforce
  show ?case
  proof (intro exI conjI)
    show "each (\<lambda>k L. napi_enable k (netif_napi_add k L)) (k # ks) L = Some L'"
      by (simp only: each.simps e bind.simps) (rule L'(1))
    show "same_rest L L'" using L'(2) by (simp add: same_rest_def)
    show "irqs L' = irqs L" "lnk L' = lnk L" using L'(3,4) by simp_all
    show "napis L' = (\<lambda>j. if j \<in> set (k # ks) then \<lparr>listed = True, napi_st = Napi_idle\<rparr> else napis L j)"
      using L'(5) by (simp add: fun_eq_iff)
  qed
qed simp

lemma disable_all:
  assumes "distinct ks" and "\<forall>k \<in> set ks. napi_st (napis L k) \<noteq> Napi_off"
  shows "\<exists>L'. each (\<lambda>k L. map_option (netif_napi_del k) (napi_disable k L)) ks L = Some L' \<and> same_rest L L' \<and> irqs L' = irqs L \<and>
    lnk L' = lnk L \<and> napis L' = (\<lambda>k. if k \<in> set ks then \<lparr>listed = False, napi_st = Napi_off\<rparr> else napis L k)"
  using assms
proof (induction ks arbitrary: L)
  case (Cons k ks)
  let ?L = "set_napi k \<lparr>listed = False, napi_st = Napi_off\<rparr> (set_napi k ((napis L k)\<lparr>napi_st := Napi_off\<rparr>) L)"
  have e: "map_option (netif_napi_del k) (napi_disable k L) = Some ?L"
    using Cons.prems by (simp add: napi_disable_def netif_napi_del_def)
  from Cons.prems have "\<forall>j \<in> set ks. napi_st (napis ?L j) \<noteq> Napi_off" by auto
  moreover have "distinct ks" using Cons.prems(1) by simp
  ultimately obtain L' where L': "each (\<lambda>k L. map_option (netif_napi_del k) (napi_disable k L)) ks ?L = Some L'" "same_rest ?L L'"
    "irqs L' = irqs ?L" "lnk L' = lnk ?L"
    "napis L' = (\<lambda>j. if j \<in> set ks then \<lparr>listed = False, napi_st = Napi_off\<rparr> else napis ?L j)"
    using Cons.IH [of ?L] by blast
  show ?case
  proof (intro exI conjI)
    show "each (\<lambda>k L. map_option (netif_napi_del k) (napi_disable k L)) (k # ks) L = Some L'"
      by (simp only: each.simps e bind.simps) (rule L'(1))
    show "same_rest L L'" using L'(2) by (simp add: same_rest_def)
    show "irqs L' = irqs L" "lnk L' = lnk L" using L'(3,4) by simp_all
    show "napis L' = (\<lambda>j. if j \<in> set (k # ks) then \<lparr>listed = False, napi_st = Napi_off\<rparr> else napis L j)"
      using L'(5) by (simp add: fun_eq_iff)
  qed
qed simp

lemma disable_none:
  assumes "k \<in> set ks" and "distinct ks" and "napi_st (napis L k) = Napi_off"
  shows "each (\<lambda>k L. map_option (netif_napi_del k) (napi_disable k L)) ks L = None"
  using assms
proof (induction ks arbitrary: L)
  case (Cons j ks)
  show ?case
  proof (cases "napi_disable j L")
    case (Some M)
    then have "M = set_napi j ((napis L j)\<lparr>napi_st := Napi_off\<rparr>) L" "j \<noteq> k"
      using Cons.prems(3) by (auto simp: napi_disable_def split: if_splits)
    then show ?thesis using Cons Some by (simp add: netif_napi_del_def)
  qed simp
qed simp


text \<open>What a step of the interrupt lines leaves alone.\<close>

definition same_napi :: "life \<Rightarrow> life \<Rightarrow> bool" where
  "same_napi L L' \<longleftrightarrow> same_rest L L' \<and> napis L' = napis L"

lemma same_napi_refl [simp]: "same_napi L L"
  by (simp add: same_napi_def)

lemma same_napi_trans: "same_napi L L1 \<Longrightarrow> same_napi L1 L2 \<Longrightarrow> same_napi L L2"
  by (auto simp: same_napi_def intro: same_rest_trans)

lemma same_napi_hw [simp]: "same_napi L (hw f M) = same_napi L M"
  by (simp add: same_napi_def same_rest_def)

lemma same_napi_irqs [simp]: "same_napi L (M\<lparr>irqs := f\<rparr>) = same_napi L M"
  by (simp add: same_napi_def same_rest_def)

definition irq_keys :: "life \<Rightarrow> nat option list" where
  "irq_keys L = None # (if per_channel_irq (mem L) then map Some [0..<channel_count (mem L)] else [])"

lemma irq_keys_hw [simp]: "irq_keys (hw f L) = irq_keys L" "irq_keys (L\<lparr>irqs := g\<rparr>) = irq_keys L"
  by (simp_all add: irq_keys_def)

lemma keys_of_napi: "same_napi L L' \<Longrightarrow> irq_keys L' = irq_keys L \<and> napi_keys L' = napi_keys L"
  by (simp add: same_napi_def same_rest_def irq_keys_def napi_keys_def)

lemma request_one:
  "devm_request_irq R k L = (ret, L') \<Longrightarrow>
     same_napi L L' \<and> (ret = 0 \<longrightarrow> irqs L' = (irqs L)(k := True)) \<and> ret = R (trace (card (lnk L))) k"
  by (auto simp: devm_request_irq_def Let_def split: if_splits)

lemma request_channels:
  "request_channel_irqs R n i L = (ret, L') \<Longrightarrow>
     same_napi L (if ret = 0 then L' else L) \<and>
     (ret = 0 \<longrightarrow> irqs L' = (\<lambda>k. k \<in> Some ` {i..<i + n} \<or> irqs L k)) \<and> ((\<forall>h k. R h k = 0) \<longrightarrow> ret = 0)"
proof (induction n arbitrary: i L)
  case (Suc n)
  obtain r L1 where 1: "devm_request_irq R (Some i) L = (r, L1)" by fastforce
  note v = request_one [OF 1]
  show ?case
  proof (cases "r = 0")
    case True
    then have "request_channel_irqs R n (i + 1) L1 = (ret, L')" using Suc.prems 1 by simp
    note ih = Suc.IH [OF this]
    have "same_napi L L'" if "ret = 0" using ih v that by (auto intro: same_napi_trans)
    moreover have "irqs L' = (\<lambda>k. k \<in> Some ` {i..<i + Suc n} \<or> irqs L k)" if "ret = 0"
      using ih v that True by (auto simp: fun_eq_iff image_iff)
    ultimately show ?thesis using ih by auto
  next
    case False
    then show ?thesis using Suc.prems 1 v by (auto simp: Let_def)
  qed
qed auto

lemma request_all:
  assumes "mac_request_irqs R L = (ret, L')"
  shows "(ret = 0 \<longrightarrow> same_napi L L' \<and> irqs L' = (\<lambda>k. k \<in> set (irq_keys L) \<or> irqs L k)) \<and> ((\<forall>h k. R h k = 0) \<longrightarrow> ret = 0)"
proof -
  obtain r L1 where 1: "devm_request_irq R None L = (r, L1)" by fastforce
  note v = request_one [OF 1]
  show ?thesis
  proof (cases "r = 0 \<and> per_channel_irq (mem L1)")
    case True
    then have r: "request_channel_irqs R (channel_count (mem L1)) 0 L1 = (ret, L')"
      using assms 1 by (simp add: mac_request_irqs_def)
    have m: "mem L1 = mem L" using v by (simp add: same_napi_def same_rest_def)
    have "irqs L' = (\<lambda>k. k \<in> set (irq_keys L) \<or> irqs L k)" if "ret = 0"
      using request_channels [OF r] that v True m by (auto simp: irq_keys_def fun_eq_iff)
    then show ?thesis using request_channels [OF r] v by (auto intro: same_napi_trans)
  next
    case False
    have "irqs L' = (\<lambda>k. k \<in> set (irq_keys L) \<or> irqs L k)" if "ret = 0"
      using assms 1 v False that
      by (auto simp: mac_request_irqs_def irq_keys_def fun_eq_iff same_napi_def same_rest_def split: if_splits)
    then show ?thesis using assms 1 v False by (auto simp: mac_request_irqs_def split: if_splits)
  qed
qed

lemma free_lines:
  "same_napi L (fold (\<lambda>j. devm_free_irq (Some j)) js L) \<and>
   irqs (fold (\<lambda>j. devm_free_irq (Some j)) js L) = (\<lambda>k. k \<notin> Some ` set js \<and> irqs L k)"
proof (induction js arbitrary: L)
  case (Cons j js)
  have "same_napi L (devm_free_irq (Some j) L)" by (simp add: devm_free_irq_def)
  moreover have "irqs (devm_free_irq (Some j) L) = (irqs L)(Some j := False)" by (simp add: devm_free_irq_def)
  ultimately show ?case using Cons.IH [of "devm_free_irq (Some j) L"]
    by (auto simp: fun_eq_iff intro: same_napi_trans)
qed simp

lemma free_all_lines:
  "same_napi L (mac_free_irqs L)" "irqs (mac_free_irqs L) = (\<lambda>k. k \<notin> set (irq_keys L) \<and> irqs L k)"
proof -
  have 1: "same_napi L (devm_free_irq None L)" "irqs (devm_free_irq None L) = (irqs L)(None := False)"
    "mem (devm_free_irq None L) = mem L" by (simp_all add: devm_free_irq_def)
  show "same_napi L (mac_free_irqs L)"
    using 1 free_lines [of "devm_free_irq None L"] by (auto simp: mac_free_irqs_def Let_def intro: same_napi_trans)
  show "irqs (mac_free_irqs L) = (\<lambda>k. k \<notin> set (irq_keys L) \<and> irqs L k)"
    using 1 free_lines [of "devm_free_irq None L" "[0..<channel_count (mem L)]"]
    by (auto simp: mac_free_irqs_def Let_def irq_keys_def fun_eq_iff)
qed

section \<open>Start and stop\<close>

text \<open>An interface that holds nothing, and one that holds all it needs.\<close>

definition at_rest :: "life \<Rightarrow> bool" where
  "at_rest L \<longleftrightarrow> (\<forall>k. \<not> irqs L k \<and> \<not> listed (napis L k)) \<and> \<not> ieu_timer L \<and> \<not> link_timer L \<and> \<not> lock_timer L \<and>
     (\<forall>i. \<not> tx_timers L i)"

definition up :: "life \<Rightarrow> bool" where
  "up L \<longleftrightarrow> chans_ok (mem L) \<and> (\<forall>k. irqs L k \<longleftrightarrow> k \<in> set (irq_keys L)) \<and>
     (\<forall>k. listed (napis L k) \<longleftrightarrow> k \<in> set (napi_keys L)) \<and>
     (\<forall>k \<in> set (napi_keys L). napi_st (napis L k) \<noteq> Napi_off) \<and>
     queues_on L \<and> ieu_timer L \<and> link_timer L \<and> (\<forall>i. tx_timers L i \<longrightarrow> i < tx_lead L)"

lemma tx_lead_hw [simp]: "tx_lead (hw f L) = tx_lead L"
  by (simp add: tx_lead_def)

lemma start_up:
  assumes "at_rest L" and "chans_ok (mem L)" and "mac_start E H R L = Some (0, L')"
  shows "up L' \<and> mem L' = mem L \<and> running L' = running L \<and> timer_flags L' = timer_flags L \<and> tx_timers L' = tx_timers L"
proof -
  from assms(3) obtain i s where i: "op_init H (card (lnk L)) = Some (i, s)"
    by (auto simp: mac_start_def bind_eq_Some_conv)
  obtain M where M: "mac_napi_enable True (hw (\<lambda>_. s) L) = Some M" "same_rest (hw (\<lambda>_. s) L) M" "irqs M = irqs L"
    "napis M = (\<lambda>k. if k \<in> set (napi_keys L) then \<lparr>listed = True, napi_st = Napi_idle\<rparr> else napis L k)"
    using enable_all [OF distinct_keys, of "hw (\<lambda>_. s) L" "hw (\<lambda>_. s) L"]
    by (auto simp: mac_napi_enable_def cong del: if_weak_cong)
  obtain ret N where N: "mac_request_irqs R M = (ret, N)" by fastforce
  have r: "ret = 0"
    using assms(3) i M(1) N by (auto simp: mac_start_def Let_def bind_eq_Some_conv split: if_splits)
  then have n: "same_napi M N" "irqs N = (\<lambda>k. k \<in> set (irq_keys M) \<or> irqs L k)"
    using request_all [OF N] M(3) by auto
  have L': "L' = (hw (mod_timer (link_check_usecs (lnk ((hw (mod_timer 1000) ((hw (op_enable_rx H) (hw (op_enable_tx H) N))
      \<lparr>queues_on := True\<rparr>))\<lparr>ieu_timer := True\<rparr>)))) ((hw (mod_timer 1000) ((hw (op_enable_rx H) (hw (op_enable_tx H) N))
      \<lparr>queues_on := True\<rparr>))\<lparr>ieu_timer := True\<rparr>))\<lparr>link_timer := True\<rparr>"
    using assms(3) i M(1) N r by (simp add: mac_start_def Let_def)
  have m: "mem N = mem L" "running N = running L" "timer_flags N = timer_flags L" "tx_timers N = tx_timers L" "napis N = napis M"
    using n M(2) by (simp_all add: same_napi_def same_rest_def)
  have k: "irq_keys M = irq_keys L" "napi_keys M = napi_keys L" using M(2) by (simp_all add: irq_keys_def napi_keys_def same_rest_def)
  have q: "\<not> irqs L k" "\<not> listed (napis L k)" "\<not> tx_timers L j" for k j using assms(1) by (simp_all add: at_rest_def)
  have l: "mem L' = mem L" "running L' = running L" "timer_flags L' = timer_flags L" "tx_timers L' = tx_timers L"
    "irqs L' = irqs N" "napis L' = napis N" "queues_on L'" "ieu_timer L'" "link_timer L'"
    using m by (simp_all add: L')
  have kl: "irq_keys L' = irq_keys L" "napi_keys L' = napi_keys L" by (simp_all add: irq_keys_def napi_keys_def l(1))
  have "up L'" unfolding up_def kl l using assms(2) n(2) k q m(5) M(4) l by simp
  with l show ?thesis by simp
qed

lemma stop_quiet:
  assumes "up L" and "link_card E"
  shows "\<exists>L'. mac_stop E H L = Some L' \<and> at_rest L' \<and> \<not> queues_on L' \<and> mem L' = mem L \<and> running L' = running L \<and>
    timer_flags L' = timer_flags L"
proof -
  define A where "A = hw (op_disable_rx H) (hw (op_disable_tx H) (mac_stop_timers (L\<lparr>queues_on := False\<rparr>)))"
  have a: "mem A = mem L" "running A = running L" "irqs A = irqs L" "napis A = napis L" "timer_flags A = timer_flags L"
    "\<not> queues_on A" "\<not> ieu_timer A" "\<not> link_timer A" "\<not> lock_timer A"
    "tx_timers A = (\<lambda>i. i \<ge> tx_lead L \<and> tx_timers L i)"
    by (simp_all add: A_def mac_stop_timers_def tx_lead_def)
  define B where "B = mac_free_irqs A"
  have b: "same_napi A B" "irqs B = (\<lambda>k. k \<notin> set (irq_keys A) \<and> irqs A k)" using free_all_lines [of A] by (simp_all add: B_def)
  have kb: "napi_keys B = napi_keys L" "irq_keys A = irq_keys L"
    using b(1) a(1) by (simp_all add: napi_keys_def irq_keys_def same_napi_def same_rest_def)
  have "\<forall>k \<in> set (napi_keys B). napi_st (napis B k) \<noteq> Napi_off"
    using assms(1) b(1) a(4) kb by (simp add: up_def same_napi_def)
  from disable_all [OF distinct_keys this] obtain C where C: "mac_napi_disable True B = Some C" "same_rest B C" "irqs C = irqs B"
    "napis C = (\<lambda>k. if k \<in> set (napi_keys L) then \<lparr>listed = False, napi_st = Napi_off\<rparr> else napis B k)"
    by (auto simp: mac_napi_disable_def kb cong del: if_weak_cong)
  obtain l where l: "mac_hw_exit E (lnk C) = Some l"
    using link_card.init_returns [OF assms(2)] by (auto simp: mac_hw_exit_def)
  define D where "D = reset_queues (C\<lparr>lnk := l\<rparr>)"
  have f: "mem (fold (\<lambda>c. hw (g c)) cs M) = mem M \<and> running (fold (\<lambda>c. hw (g c)) cs M) = running M \<and>
    irqs (fold (\<lambda>c. hw (g c)) cs M) = irqs M \<and> napis (fold (\<lambda>c. hw (g c)) cs M) = napis M \<and>
    timer_flags (fold (\<lambda>c. hw (g c)) cs M) = timer_flags M \<and> tx_timers (fold (\<lambda>c. hw (g c)) cs M) = tx_timers M \<and>
    queues_on (fold (\<lambda>c. hw (g c)) cs M) = queues_on M \<and> ieu_timer (fold (\<lambda>c. hw (g c)) cs M) = ieu_timer M \<and>
    link_timer (fold (\<lambda>c. hw (g c)) cs M) = link_timer M \<and> lock_timer (fold (\<lambda>c. hw (g c)) cs M) = lock_timer M"
    for g and cs :: "channel_mem list" and M
    by (induction cs arbitrary: M) simp_all
  have d: "mem D = mem C" "running D = running C" "irqs D = irqs C" "napis D = napis C" "timer_flags D = timer_flags C"
    "tx_timers D = tx_timers C" "queues_on D = queues_on C" "ieu_timer D = ieu_timer C" "link_timer D = link_timer C"
    "lock_timer D = lock_timer C"
    by (simp_all add: D_def reset_queues_def f)
  have stop: "mac_stop E H L = Some D"
    using C(1) l by (simp add: mac_stop_def hw_exit_def Let_def D_def A_def [symmetric] B_def [symmetric])
  have c: "mem C = mem L" "running C = running L" "timer_flags C = timer_flags L" "\<not> queues_on C" "\<not> ieu_timer C"
    "\<not> link_timer C" "\<not> lock_timer C" "tx_timers C = (\<lambda>i. i \<ge> tx_lead L \<and> tx_timers L i)" "napis B = napis L"
    using C(2) b(1) a by (simp_all add: same_rest_def same_napi_def)
  have "at_rest D"
    unfolding at_rest_def d c C(3,4) b(2) kb a(3)
    using assms(1) c by (auto simp: up_def not_le)
  then show ?thesis using stop d c by simp
qed

end
