(* ===== verification/Life_Props.thy ===== *)
theory Life_Props
  imports Life_Correct
begin

text \<open>
  The properties of the life cycle of the interface, over the lemmas of Life_Correct.
\<close>

section \<open>An interface in use\<close>

abbreviation shape :: "channel_mem list \<Rightarrow> (bool \<times> bool) list" where
  "shape cs \<equiv> map (\<lambda>c. (tx_mem c = None, rx_mem c = None)) cs"

text \<open>
  What happens between opening and closing: interrupts, the transmit timers being armed and firing,
  polls that end, work on the rings, accesses to the card and the link, and restarts.
\<close>

inductive in_use :: "env \<Rightarrow> hw_ops \<Rightarrow> (event list \<Rightarrow> nat option \<Rightarrow> int) \<Rightarrow> (event list \<Rightarrow> nat \<Rightarrow> mac_dma_desc) \<Rightarrow> life \<Rightarrow> bool"
  for E H R D where
  opened: "in_use E H R D L'" if "at_rest L" "\<not> running L" "channel_head (mem L) = Null" "irqs_ok (mem L)"
    "0 < tx_ring_count (mem L)" "0 < rx_ring_count (mem L)" "0 < channel_count (mem L)" "objs_below (card (lnk L))"
    "dev_open E H R D L = Some (0, L')"
| interrupt: "in_use E H R D L'" if "in_use E H R D L" "mac_isr E L = Some L'"
| channel_interrupt: "in_use E H R D (mac_dma_isr E i L)" if "in_use E H R D L" "Some i \<in> set (napi_keys L)"
| armed: "in_use E H R D (L\<lparr>tx_timers := (tx_timers L)(i := True), timer_flags := (timer_flags L)(i := True)\<rparr>)"
    if "in_use E H R D L" "i < tx_lead L" "\<not> timer_flags L i"
| fired: "in_use E H R D (mac_tx_timer E i L)" if "in_use E H R D L" "tx_timers L i" "i < channel_count (mem L)"
| polled: "in_use E H R D (napi_complete_done k L)" if "in_use E H R D L" "k \<in> set (napi_keys L)"
| traffic: "in_use E H R D (L\<lparr>mem := (mem L)\<lparr>channels := cs\<rparr>\<rparr>)" if "in_use E H R D L" "shape cs = shape (channels (mem L))"
| accessed: "in_use E H R D (L\<lparr>lnk := l\<rparr>)" if "in_use E H R D L"
| timed_out: "in_use E H R D (mac_tx_timeout L)" if "in_use E H R D L"
| restarted: "in_use E H R D L'" if "in_use E H R D L" "mac_restart E H R L = Some L'"

lemma shape_lead:
  assumes "shape cs = shape ds"
  shows "length (takeWhile (\<lambda>c. tx_mem c \<noteq> None) cs) = length (takeWhile (\<lambda>c. tx_mem c \<noteq> None) ds)"
  using assms by (induction cs ds rule: list_induct2') auto

lemma free_data_shape:
  assumes "\<And>m c. f c \<noteq> None \<Longrightarrow> (tx_mem (g m c) = None \<longleftrightarrow> tx_mem c = None) \<and> (rx_mem (g m c) = None \<longleftrightarrow> rx_mem c = None)"
  shows "shape (fst (free_data f g cs s)) = shape cs"
  using assms by (induction cs arbitrary: s) (simp_all add: split_def split: option.splits)

lemma free_tx_rx:
  "\<exists>cs. mem (on_mem mac_free_rx_data (on_mem mac_free_tx_data L)) = (mem L)\<lparr>channels := cs\<rparr> \<and> shape cs = shape (channels (mem L))"
proof -
  have s: "mem (on_mem mac_free_tx_data M) = (mem M)\<lparr>channels := fst (free_data tx_mem (\<lambda>m c. c\<lparr>tx_mem := Some m\<rparr>) (channels (mem M)) (card (lnk M)))\<rparr>"
    "mem (on_mem mac_free_rx_data M) = (mem M)\<lparr>channels := fst (free_data rx_mem (\<lambda>m c. c\<lparr>rx_mem := Some m\<rparr>) (channels (mem M)) (card (lnk M)))\<rparr>" for M
    by (simp_all add: on_mem_def mac_free_tx_data_def mac_free_rx_data_def split_def)
  have t: "shape (fst (free_data tx_mem (\<lambda>m c. c\<lparr>tx_mem := Some m\<rparr>) cs s)) = shape cs"
    "shape (fst (free_data rx_mem (\<lambda>m c. c\<lparr>rx_mem := Some m\<rparr>) cs s)) = shape cs" for cs s
    by (rule free_data_shape; auto)+
  show ?thesis unfolding s by (intro exI [of _ "fst (free_data rx_mem _ _ _)"]) (auto simp: t)
qed

lemma on_mem_fields [simp]:
  "running (on_mem f L) = running L" "irqs (on_mem f L) = irqs L" "napis (on_mem f L) = napis L"
  "timer_flags (on_mem f L) = timer_flags L" "tx_timers (on_mem f L) = tx_timers L" "ieu_timer (on_mem f L) = ieu_timer L"
  "link_timer (on_mem f L) = link_timer L" "lock_timer (on_mem f L) = lock_timer L" "queues_on (on_mem f L) = queues_on L"
  by (simp_all add: on_mem_def split_def)

lemma quiet_on_mem [simp]: "at_rest (on_mem f L) = at_rest L"
  by (simp add: at_rest_def)

text \<open>What a restart does up to the start.\<close>

lemma restart_stops:
  assumes "up L" and "running L" and "link_card E"
  shows "\<exists>M. mac_restart E H R L = Option.bind (mac_start E H R M) (\<lambda>(ret, L). Some L) \<and> at_rest M \<and> chans_ok (mem M) \<and>
    shape (channels (mem M)) = shape (channels (mem L)) \<and> running M \<and> timer_flags M = timer_flags L \<and>
    napi_keys M = napi_keys L \<and> \<not> queues_on M"
proof -
  let ?L = "L\<lparr>restart_work := False\<rparr>"
  have "up ?L" using assms(1) by (simp add: up_def irq_keys_def napi_keys_def tx_lead_def)
  from stop_quiet [OF this assms(3), of H] obtain S where S: "mac_stop E H ?L = Some S" "at_rest S" "mem S = mem L" "running S = running L"
    "timer_flags S = timer_flags L" "\<not> queues_on S" by auto
  let ?M = "on_mem mac_free_rx_data (on_mem mac_free_tx_data S)"
  obtain cs where cs: "mem ?M = (mem L)\<lparr>channels := cs\<rparr>" "shape cs = shape (channels (mem L))"
    using free_tx_rx [of S] S(3) by auto
  have "chans_ok (mem ?M)" unfolding cs(1) using shape_ok [OF cs(2)] assms(1) by (simp add: up_def)
  moreover have "mac_restart E H R L = Option.bind (mac_start E H R ?M) (\<lambda>(ret, L). Some L)"
    using assms(2) S(1) by (simp add: mac_restart_def mac_restart_dev_def Let_def)
  moreover have "napi_keys ?M = napi_keys L" by (simp add: napi_keys_def cs(1))
  ultimately show ?thesis using S assms(2) cs by (intro exI [of _ ?M]) simp
qed

lemma start_status:
  assumes "mac_start E H R L = Some (ret, L')" and "\<forall>h k. R h k = 0"
  shows "ret = 0"
proof -
  have "fst (mac_request_irqs R M) = 0" for M
    using request_all [of R M "fst (mac_request_irqs R M)" "snd (mac_request_irqs R M)"] assms(2) by simp
  then show ?thesis using assms(1)
    by (auto simp: mac_start_def bind_eq_Some_conv Let_def split_def split: if_splits)
qed

section \<open>The invariant\<close>

definition well_up :: "life \<Rightarrow> bool" where
  "well_up L \<longleftrightarrow> up L \<and> running L"

lemma well_upI:
  assumes "well_up L" "mem L' = mem L" "irqs L' = irqs L" "queues_on L' = queues_on L" "ieu_timer L' = ieu_timer L"
    "link_timer L' = link_timer L" "running L' = running L" "\<forall>k. listed (napis L' k) = listed (napis L k)"
    "\<forall>k. napi_st (napis L k) \<noteq> Napi_off \<longrightarrow> napi_st (napis L' k) \<noteq> Napi_off"
    "\<forall>i. tx_timers L' i \<longrightarrow> tx_timers L i \<or> i < tx_lead L"
  shows "well_up L'"
  using assms by (auto simp: well_up_def up_def irq_keys_def napi_keys_def tx_lead_def)

lemma well_up_hw [simp]: "well_up (hw f L) = well_up L"
  by (simp add: well_up_def up_def tx_lead_def)

lemma well_up_count [simp]: "well_up (count_isr st L) = well_up L"
  by (simp add: well_up_def up_def count_isr_def irq_keys_def napi_keys_def tx_lead_def)

lemma well_up_schedule:
  assumes "well_up L" and "\<And>L. well_up L \<Longrightarrow> well_up (f L)"
  shows "well_up (napi_schedule k f L)"
proof -
  have "well_up (set_napi k ((napis L k)\<lparr>napi_st := Napi_sched\<rparr>) L)" by (rule well_upI [OF assms(1)]) simp_all
  then show ?thesis using assms by (simp add: napi_schedule_def)
qed

lemma well_up_status: "well_up L \<Longrightarrow> well_up (snd (hw_status E a L))"
  by (simp add: hw_status_def split_def Let_def)

lemma well_up_fields:
  "well_up L \<Longrightarrow> well_up (L\<lparr>restart_work := b\<rparr>)" "well_up L \<Longrightarrow> well_up (L\<lparr>mmc := m\<rparr>)"
  "well_up L \<Longrightarrow> well_up (L\<lparr>isr_stats := t\<rparr>)" "well_up L \<Longrightarrow> well_up (L\<lparr>lnk := l\<rparr>)" "well_up L \<Longrightarrow> well_up (L\<lparr>timer_flags := g\<rparr>)"
  "well_up L \<Longrightarrow> well_up (L\<lparr>tx_timers := (tx_timers L)(i := False)\<rparr>)"
  by (erule well_upI; simp)+

lemma well_up_counts: "well_up L \<Longrightarrow> well_up (fold (\<lambda>(f, st) L. if P f then count_isr st L else L) xs L)"
  by (induction xs arbitrary: L) (auto split: prod.splits)

lemma well_up_channel:
  assumes "well_up L" shows "well_up (isr_channel E c i L)"
proof -
  obtain v M where M: "hw_status E (dma_regs c + word_of_nat i * DMA_CH_INC + DMA_CH_SR) L = (v, M)" by fastforce
  then have "well_up M" using well_up_status [OF assms, of E "dma_regs c + word_of_nat i * DMA_CH_INC + DMA_CH_SR"] by simp
  then show ?thesis
    unfolding isr_channel_def M Let_def prod.case
    by (auto intro!: well_up_fields well_up_counts well_up_schedule simp: mac_disable_rx_tx_ints_def)
qed

lemma well_up_isr:
  assumes "well_up L" and "mac_isr E L = Some L'" shows "well_up L'"
proof -
  have ch: "well_up (fold (isr_channel E c) js M)" if "well_up M" for c js M
    using that by (induction js arbitrary: M) (simp_all add: well_up_channel)
  have mm: "well_up (mmc_isr f E M)" if "well_up M" for f M
    using that by (simp add: mmc_isr_def split_def well_up_fields Let_def)
  obtain v M where M: "hw_status E DMA_ISR L = (v, M)" by fastforce
  then have w: "well_up M" using well_up_status [OF assms(1), of E DMA_ISR] by simp
  let ?N = "fold (isr_channel E (chan (hd (channels (mem M))))) (filter (bit v) [0..<7]) M"
  obtain u U where U: "hw_status E MAC_ISR ?N = (u, U)" by fastforce
  have "well_up ?N" using ch w by blast
  moreover from this have "well_up U" using well_up_status [of ?N E MAC_ISR] U by simp
  ultimately show ?thesis
    using assms(2) w mm unfolding mac_isr_def M Let_def prod.case U
    by (auto split: if_splits)
qed

lemma well_up_traffic:
  assumes "well_up L" and "shape cs = shape (channels (mem L))"
  shows "well_up (L\<lparr>mem := (mem L)\<lparr>channels := cs\<rparr>\<rparr>)"
proof -
  have "chans_ok ((mem L)\<lparr>channels := cs\<rparr>)" using shape_ok [OF assms(2)] assms(1) by (simp add: well_up_def up_def)
  moreover have "tx_lead (L\<lparr>mem := (mem L)\<lparr>channels := cs\<rparr>\<rparr>) = tx_lead L" using shape_lead [OF assms(2)] by (simp add: tx_lead_def)
  ultimately show ?thesis using assms(1) by (simp add: well_up_def up_def irq_keys_def napi_keys_def)
qed

lemma opened_up:
  assumes "at_rest L" "\<not> running L" "channel_head (mem L) = Null" "irqs_ok (mem L)" "0 < tx_ring_count (mem L)"
    "0 < rx_ring_count (mem L)" "0 < channel_count (mem L)" "objs_below (card (lnk L))" "dev_open E H R D L = Some (0, L')"
  shows "well_up L'"
proof -
  obtain N where N: "mac_open E H R D (L\<lparr>running := True\<rparr>) = Some (0, N)" "L' = N\<lparr>running := True\<rparr>"
    using assms(2,9) by (auto simp: dev_open_def)
  obtain ret m s where a: "mac_alloc_channels_and_rings E D (mem L, card (lnk L)) = Some (ret, m, s)" "ret = 0 \<Longrightarrow> chans_ok m"
    using alloc_all_view [OF assms(3-8), of E D] by metis
  define A where "A = mac_init_timers ((hw (\<lambda>_. s) (L\<lparr>running := True, buf_size := word_of_int (mac_calc_rx_buf_size (mtu L)), mem := m\<rparr>))
    \<lparr>restart_work := False, tx_timers := (\<lambda>_. False), timer_flags := (\<lambda>_. False),
     napis := (\<lambda>k. if k = None then napis L None else \<lparr>listed = False, napi_st = Napi_idle\<rparr>)\<rparr>)"
  have ret: "ret = 0" using N(1) a(1) by (auto simp: mac_open_def Let_def split: if_splits)
  have st: "mac_start E H R A = Some (0, N)"
    using N(1) a(1) ret unfolding A_def
    by (auto simp: mac_open_def Let_def hw_def bind_eq_Some_conv split: if_splits cong del: if_weak_cong)
  have "at_rest A" using assms(1) by (simp add: A_def at_rest_def mac_init_timers_def)
  moreover have "chans_ok (mem A)" using a(2) ret by (simp add: A_def mac_init_timers_def)
  ultimately have "up N" using start_up [OF _ _ st] by blast
  then show ?thesis by (simp add: N(2) well_up_def up_def irq_keys_def napi_keys_def tx_lead_def)
qed

lemma in_use_up:
  assumes "in_use E H R D L" and "\<forall>h k. R h k = 0" and "link_card E"
  shows "well_up L"
  using assms(1)
proof induction
  case (opened L L')
  then show ?case by (rule opened_up)
next
  case (interrupt L L')
  then show ?case using well_up_isr by blast
next
  case (channel_interrupt L i)
  then show ?case by (auto simp: mac_dma_isr_def mac_disable_rx_tx_ints_def intro: well_up_schedule)
next
  case (armed L i)
  show ?case by (rule well_upI [OF armed.IH]) (use armed.hyps in auto)
next
  case (fired L i)
  then show ?case
    by (auto simp: mac_tx_timer_def Let_def mac_disable_rx_tx_ints_def intro!: well_up_fields well_up_schedule)
next
  case (polled L k)
  show ?case by (rule well_upI [OF polled.IH]) (simp_all add: napi_complete_done_def)
next
  case (traffic L cs)
  then show ?case by (simp add: well_up_traffic)
next
  case (accessed L l)
  then show ?case by (simp add: well_up_fields)
next
  case (timed_out L)
  then show ?case by (simp add: mac_tx_timeout_def well_up_fields)
next
  case (restarted L L')
  then obtain M where M: "mac_restart E H R L = Option.bind (mac_start E H R M) (\<lambda>(ret, L). Some L)" "at_rest M" "chans_ok (mem M)" "running M"
    using restart_stops [OF _ _ assms(3), of L H R] by (auto simp: well_up_def)
  then obtain ret where r: "mac_start E H R M = Some (ret, L')" using restarted.hyps by (cases "mac_start E H R M") auto
  then have "ret = 0" using start_status assms(2) by blast
  then show ?case using start_up [OF M(2,3)] r M(4) by (simp add: well_up_def)
qed

section \<open>The properties\<close>

lemma napi_keys_upd [simp]:
  "napi_keys (L\<lparr>lnk := l\<rparr>) = napi_keys L" "napi_keys (L\<lparr>running := b\<rparr>) = napi_keys L"
  "napi_keys (L\<lparr>restart_work := b\<rparr>) = napi_keys L" "napi_keys (L\<lparr>queues_on := b\<rparr>) = napi_keys L"
  "napi_keys (mac_stop_timers L) = napi_keys L"
  by (simp_all add: napi_keys_def mac_stop_timers_def)

lemma stop_timers_napis: "napis (mac_stop_timers L) = napis L"
  by (simp add: mac_stop_timers_def)

text \<open>
  C22. An interface in use holds what it needs, and closing it gives all of it back. While every
  interrupt line asked for is granted, the following holds after opening and any sequence of interrupts,
  timers, polls, traffic and restarts: exactly the lines of the device and, if each has its own, of the
  channels are requested, exactly the NAPI contexts in use are listed and none is disabled; and closing
  returns, with no line, no NAPI context and no timer left, the queues stopped and the channels freed.
\<close>

theorem in_use_then_closed:
  assumes "in_use E H R D L" and "\<forall>h k. R h k = 0" and "link_card E"
  shows "(\<forall>k. irqs L k \<longleftrightarrow> k \<in> set (irq_keys L)) \<and> (\<forall>k. listed (napis L k) \<longleftrightarrow> k \<in> set (napi_keys L)) \<and>
    (\<forall>k \<in> set (napi_keys L). napi_st (napis L k) \<noteq> Napi_off) \<and> link_timer L \<and>
    (\<exists>L'. dev_close E H L = Some L' \<and> at_rest L' \<and> \<not> queues_on L' \<and> \<not> running L' \<and> channels (mem L') = [])"
proof -
  have u: "up L" "running L" using in_use_up [OF assms] by (simp_all add: well_up_def)
  then have "up (L\<lparr>running := False\<rparr>)" by (simp add: up_def irq_keys_def napi_keys_def tx_lead_def)
  from stop_quiet [OF this assms(3), of H] obtain S where S: "mac_stop E H (L\<lparr>running := False\<rparr>) = Some S" "at_rest S" "\<not> queues_on S"
    "mem S = mem L" "\<not> running S" by auto
  have "chans_ok (mem S)" using u(1) S(4) by (simp add: up_def)
  then obtain p s where "mac_free_channels_and_rings (mem S, card (lnk S)) = Some (p, s)"
    "p = (mem S)\<lparr>channel_head := Null, channels := [], channel_count := 0\<rparr>"
    using free_all_view [of "mem S" "card (lnk S)"] by metis
  then show ?thesis using u S by (auto simp: up_def dev_close_def mac_close_def at_rest_def)
qed

text \<open>
  C26. A restart whose interrupt line is refused leaves an interface that cannot be closed. The status
  of the start is dropped, so the interface still counts as running, but it has no line and its NAPI
  contexts are disabled: closing it, and restarting it again, waits for ever in \<open>napi_disable\<close>.
\<close>

theorem failed_restart_blocks_close:
  assumes "up L" and "running L" and "link_card E" and "\<forall>s. op_init H s \<noteq> None" and "\<forall>h. R h None \<noteq> 0" and "napi_keys L \<noteq> []"
  shows "\<exists>L'. mac_restart E H R L = Some L' \<and> running L' \<and> (\<forall>k. \<not> irqs L' k) \<and> \<not> queues_on L' \<and>
    dev_close E H L' = None \<and> (\<forall>R'. mac_restart E H R' L' = None)"
proof -
  obtain M where M: "mac_restart E H R L = Option.bind (mac_start E H R M) (\<lambda>(ret, L). Some L)" "at_rest M" "chans_ok (mem M)"
    "running M" "napi_keys M = napi_keys L" "\<not> queues_on M"
    using restart_stops [OF assms(1-3), of H R] by auto
  obtain i s where i: "op_init H (card (lnk M)) = Some (i, s)" using assms(4) by fastforce
  obtain N where N: "mac_napi_enable True (hw (\<lambda>_. s) M) = Some N" "same_rest (hw (\<lambda>_. s) M) N" "irqs N = irqs M"
    "napis N = (\<lambda>k. if k \<in> set (napi_keys M) then \<lparr>listed = True, napi_st = Napi_idle\<rparr> else napis M k)"
    using enable_all [OF distinct_keys, of "hw (\<lambda>_. s) M" "hw (\<lambda>_. s) M"]
    by (auto simp: mac_napi_enable_def cong del: if_weak_cong)
  let ?r = "R (trace (card (lnk N))) None" and ?Q = "hw (emit (Ecall ''request_irq'' [irq_no None])) N"
  have r: "mac_request_irqs R N = (?r, ?Q)" "?r \<noteq> 0"
    using assms(5) by (simp_all add: mac_request_irqs_def devm_request_irq_def Let_def)
  have k: "napi_keys N = napi_keys L" using keys_of_rest [OF N(2)] M(5) by simp
  have "\<forall>k \<in> set (napi_keys ?Q). napi_st (napis ?Q k) \<noteq> Napi_off" using N(4) k M(5) by simp
  from disable_all [OF distinct_keys this] obtain C where C: "mac_napi_disable True ?Q = Some C" "same_rest ?Q C" "irqs C = irqs ?Q"
    "napis C = (\<lambda>k. if k \<in> set (napi_keys L) then \<lparr>listed = False, napi_st = Napi_off\<rparr> else napis ?Q k)"
    by (auto simp: mac_napi_disable_def k cong del: if_weak_cong)
  obtain l where l: "mac_hw_exit E (lnk C) = Some l"
    using link_card.init_returns [OF assms(3)] by (auto simp: mac_hw_exit_def)
  let ?L = "C\<lparr>lnk := l\<rparr>"
  have re: "mac_restart E H R L = Some ?L"
    using M(1) i N(1) r C(1) l by (simp add: mac_start_def hw_exit_def Let_def)
  have kc: "napi_keys C = napi_keys L" using keys_of_rest [OF C(2)] k by simp
  then have kl: "napi_keys ?L = napi_keys L" by simp
  have f: "running ?L" "\<not> queues_on ?L" "irqs ?L = irqs M" "napis ?L = napis C"
    using N(2,3) C(2,3) M(4,6) by (simp_all add: same_rest_def)
  obtain j where j: "j \<in> set (napi_keys L)" using assms(6) by (cases "napi_keys L") auto
  have stuck: "mac_stop E H K = None" if "napis K = napis C" "napi_keys K = napi_keys L" for K
  proof -
    let ?A = "mac_free_irqs (hw (op_disable_rx H) (hw (op_disable_tx H) (mac_stop_timers (K\<lparr>queues_on := False\<rparr>))))"
    let ?B = "hw (op_disable_rx H) (hw (op_disable_tx H) (mac_stop_timers (K\<lparr>queues_on := False\<rparr>)))"
    have A: "napis ?A = napis ?B" "napi_keys ?A = napi_keys ?B"
      using free_all_lines(1) [of ?B] keys_of_napi [OF free_all_lines(1), of ?B] by (simp_all add: same_napi_def)
    have "napis ?B = napis C" "napi_keys ?B = napi_keys L" using that by (simp_all add: stop_timers_napis)
    with A have "napis ?A = napis C" "napi_keys ?A = napi_keys L" by simp_all
    then have "mac_napi_disable True ?A = None"
      using disable_none [OF j distinct_keys, of ?A] C(4) j by (simp add: mac_napi_disable_def)
    then show ?thesis by (simp add: mac_stop_def Let_def)
  qed
  have "dev_close E H ?L = None" using stuck [of "?L\<lparr>running := False\<rparr>"] f kl by (simp add: dev_close_def mac_close_def)
  moreover have "mac_restart E H R' ?L = None" for R'
    using stuck [of "?L\<lparr>restart_work := False\<rparr>"] f kl by (simp add: mac_restart_def mac_restart_dev_def)
  ultimately show ?thesis using re f M(2) by (intro exI [of _ ?L]) (simp add: at_rest_def)
qed

lemma start_returns:
  assumes "\<forall>s. op_init H s \<noteq> None" and "\<forall>h k. R h k = 0"
  shows "\<exists>L'. mac_start E H R L = Some (0, L')"
proof -
  obtain j s where j: "op_init H (card (lnk L)) = Some (j, s)" using assms(1) by fastforce
  obtain N where N: "mac_napi_enable True (hw (\<lambda>_. s) L) = Some N"
    using enable_all [OF distinct_keys, of "hw (\<lambda>_. s) L" "hw (\<lambda>_. s) L"] by (auto simp: mac_napi_enable_def)
  have "fst (mac_request_irqs R N) = 0"
    using request_all [of R N "fst (mac_request_irqs R N)" "snd (mac_request_irqs R N)"] assms(2) by simp
  then show ?thesis using j N by (auto simp: mac_start_def Let_def split_def)
qed

text \<open>
  A restart can lose the transmit timer of a channel for good. When the timer is pending, the
  restart deletes it but leaves the flag that says it is: the interface comes up with the flag set and no timer,
  and while the flag is set no transmission arms the timer, or clears the flag.
\<close>

theorem restart_loses_timer:
  assumes "up L" and "running L" and "link_card E" and "\<forall>s. op_init H s \<noteq> None" and "\<forall>h k. R h k = 0"
    and "tx_timers L i" and "timer_flags L i"
  shows "(\<exists>L'. mac_restart E H R L = Some L' \<and> up L' \<and> timer_flags L' i \<and> \<not> tx_timers L' i) \<and>
    (\<forall>p c t s. tx_timer_active t \<longrightarrow> (let (t', s') = mac_tx_start_xmit p c (t, s)
       in tx_timer_active t' \<and> filter (\<lambda>e. e = Etimer) (trace s') = filter (\<lambda>e. e = Etimer) (trace s)))"
proof
  obtain M where M: "mac_restart E H R L = Option.bind (mac_start E H R M) (\<lambda>(ret, L). Some L)" "at_rest M" "chans_ok (mem M)"
    "running M" "timer_flags M = timer_flags L"
    using restart_stops [OF assms(1-3), of H R] by auto
  obtain L' where L': "mac_start E H R M = Some (0, L')" using start_returns [OF assms(4,5)] by blast
  then have "up L' \<and> timer_flags L' = timer_flags L \<and> tx_timers L' = tx_timers M"
    using start_up [OF M(2,3) L'] M(5) by simp
  moreover have "\<not> tx_timers M i" using M(2) by (simp add: at_rest_def)
  ultimately show "\<exists>L'. mac_restart E H R L = Some L' \<and> up L' \<and> timer_flags L' i \<and> \<not> tx_timers L' i"
    using M(1) L' assms(7) by simp
next
  show "\<forall>p c t s. tx_timer_active t \<longrightarrow> (let (t', s') = mac_tx_start_xmit p c (t, s)
       in tx_timer_active t' \<and> filter (\<lambda>e. e = Etimer) (trace s') = filter (\<lambda>e. e = Etimer) (trace s))"
    by (simp add: mac_tx_start_xmit_def mwrite_def writel_def emit_def Let_def)
qed

text \<open>Events of the interrupt unit: none is an access to the registers of the channels.\<close>

definition off_channels :: "kern \<Rightarrow> kern \<Rightarrow> bool" where
  "off_channels s s' \<longleftrightarrow> (\<exists>evs. trace s' = evs @ trace s \<and> (\<forall>e \<in> set evs. \<exists>a v. e = Eread Pcie_bar a v \<or> e = Ewrite Pcie_bar a v))"

lemma off_rmw: "off_channels s (ieu_rmw E off h l v s)"
  by (simp add: off_channels_def ieu_rmw_def ieu_reg_read_def ieu_reg_write_def reg_read_def reg_write_def readl_def
      writel_def emit_def Let_def)

lemma off_trans: "off_channels s s1 \<Longrightarrow> off_channels s1 s2 \<Longrightarrow> off_channels s s2"
  unfolding off_channels_def by (metis (no_types, lifting) Un_iff append.assoc set_append)

lemma off_disable_6: "off_channels s (ieu_disable_intr_rx_one E 6 (ieu_disable_intr_tx_one E 6 s))"
  unfolding ieu_disable_intr_rx_one_def ieu_disable_intr_tx_one_def ieu_disable_intr_one_def
  using off_rmw off_trans by blast

text \<open>What a turn of the loop for a channel other than the first does.\<close>

lemma isr_other:
  assumes "1 \<le> i"
  shows "\<exists>M sr evs. isr_channel E c i L = M \<and> napis M = napis L \<and> mem M = mem L \<and>
    trace (card (lnk M)) = Ewrite Mac_regs (dma_regs c + DMA_CH_SR) sr #
      Ewrite Mac_regs (dma_regs c + word_of_nat i * DMA_CH_INC + DMA_CH_SR) sr # evs @
      Eread Mac_regs (dma_regs c + word_of_nat i * DMA_CH_INC + DMA_CH_SR) sr # trace (card (lnk L)) \<and>
    (\<forall>e \<in> set evs. \<exists>a v. e = Eread Pcie_bar a v \<or> e = Ewrite Pcie_bar a v)"
proof -
  let ?a = "dma_regs c + word_of_nat i * DMA_CH_INC + DMA_CH_SR"
  define sr where "sr = hw_read E (trace (card (lnk L))) Mac_regs ?a"
  define K where "K = hw (\<lambda>_. emit (Eread Mac_regs ?a sr) (card (lnk L))) L"
  have st: "hw_status E ?a L = (sr, K)"
    by (simp add: hw_status_def mread_def readl_def sr_def K_def Let_def)
  let ?ev = "MAC_GET_REG_BITS sr DMA_CH_SR_TI \<noteq> 0 \<or> MAC_GET_REG_BITS sr DMA_CH_SR_RI \<noteq> 0"
  let ?N = "if i = 6 \<and> ?ev then hw (ieu_disable_intr_rx_one E 6) (hw (ieu_disable_intr_tx_one E 6) K) else K"
  have off: "off_channels (card (lnk K)) (card (lnk ?N))"
    using off_disable_6 [of "card (lnk K)" E] by (simp add: off_channels_def)
  then obtain evs where evs: "trace (card (lnk ?N)) = evs @ trace (card (lnk K))"
    "\<forall>e \<in> set evs. \<exists>a v. e = Eread Pcie_bar a v \<or> e = Ewrite Pcie_bar a v"
    unfolding off_channels_def by blast
  have M: "isr_channel E c i L = hw (mwrite (dma_regs c + DMA_CH_SR) sr) (hw (mwrite ?a sr) ?N)"
    using assms unfolding isr_channel_def st Let_def prod.case by simp
  have "napis ?N = napis L" "mem ?N = mem L" by (simp_all add: K_def)
  then show ?thesis using evs M
    by (intro exI [of _ "isr_channel E c i L"] exI [of _ sr] exI [of _ evs])
      (simp add: mwrite_def writel_def emit_def K_def)
qed

text \<open>
  C27. The handler acknowledges to channel 0 what it read from another channel. On an interrupt of channel
  \<open>i\<close> alone, from 1 to 6, it writes the status of that channel to the status register of channel 0 without
  having read that register, and schedules no poll: of the events of channel 0 that came in meanwhile,
  those with a bit set in the status of the other channel are cleared unseen.
\<close>

theorem other_status_acknowledged:
  assumes "1 \<le> i" "i < 7" and "channels (mem L) = c # cs" and "dma_regs (chan c) = 0x3100"
    and "hw_read E (trace (card (lnk L))) Mac_regs DMA_ISR = push_bit i 1"
  shows "\<exists>L' sr evs. mac_isr E L = Some L' \<and> napis L' = napis L \<and> trace (card (lnk L')) = evs @ trace (card (lnk L)) \<and>
    Eread Mac_regs (0x3160 + word_of_nat i * 0x80) sr \<in> set evs \<and> Ewrite Mac_regs 0x3160 sr \<in> set evs \<and>
    (\<forall>v. Eread Mac_regs 0x3160 v \<notin> set evs)"
proof -
  let ?K = "hw (\<lambda>_. emit (Eread Mac_regs DMA_ISR (push_bit i 1)) (card (lnk L))) L"
  have st: "hw_status E DMA_ISR L = (push_bit i 1, ?K)"
    using assms(5) by (simp add: hw_status_def mread_def readl_def Let_def)
  have i: "i \<in> {1, 2, 3, 4, 5, 6}" using assms(1,2) by auto
  then have b: "push_bit i 1 \<noteq> (0 :: u32)" "filter (bit (push_bit i 1 :: u32)) [0..<7] = [i]"
    "MAC_GET_REG_BITS (push_bit i 1) DMA_ISR_MACIS = 0"
    and a: "(0x3160 :: u32) + word_of_nat i * 0x80 \<noteq> 0x3160"
    by (auto simp: upt_rec bit_push_bit_iff MAC_GET_REG_BITS_def genmask_def)
  obtain M sr evs where M: "isr_channel E (chan c) i ?K = M" "napis M = napis L"
    "trace (card (lnk M)) = Ewrite Mac_regs (dma_regs (chan c) + DMA_CH_SR) sr #
      Ewrite Mac_regs (dma_regs (chan c) + word_of_nat i * DMA_CH_INC + DMA_CH_SR) sr # evs @
      Eread Mac_regs (dma_regs (chan c) + word_of_nat i * DMA_CH_INC + DMA_CH_SR) sr # trace (card (lnk ?K))"
    "\<forall>e \<in> set evs. \<exists>a v. e = Eread Pcie_bar a v \<or> e = Ewrite Pcie_bar a v"
    using isr_other [OF assms(1), of E "chan c" ?K] by auto
  have isr: "mac_isr E L = Some M"
    using assms(3) M(1) b unfolding mac_isr_def st Let_def prod.case b(2) by simp
  let ?evs = "Ewrite Mac_regs 0x3160 sr # Ewrite Mac_regs (0x3160 + word_of_nat i * 0x80) sr # evs @
    [Eread Mac_regs (0x3160 + word_of_nat i * 0x80) sr, Eread Mac_regs DMA_ISR (push_bit i 1)]"
  have t: "trace (card (lnk M)) = ?evs @ trace (card (lnk L))"
    unfolding M(3) assms(4) by (simp add: emit_def add_ac)
  have "Eread Mac_regs 0x3160 v \<notin> set evs" for v using M(4) by force
  then have "\<forall>v. Eread Mac_regs 0x3160 v \<notin> set ?evs" using a by auto
  then show ?thesis using isr M(2) t
    by (intro exI [of _ M] exI [of _ sr] exI [of _ ?evs]) simp
qed

section \<open>Witnesses\<close>

text \<open>A table whose entries do nothing, lines that are granted or refused, and an interface that was never opened.\<close>

definition plain_ops :: hw_ops where
  "plain_ops = \<lparr>op_init = (\<lambda>s. Some (0, s)), op_enable_tx = id, op_enable_rx = id, op_disable_tx = id, op_disable_rx = id\<rparr>"

definition granted :: "event list \<Rightarrow> nat option \<Rightarrow> int" where
  "granted h k = 0"

definition refused :: "event list \<Rightarrow> nat option \<Rightarrow> int" where
  "refused h k = - 16"

definition closed_life :: life where
  "closed_life = \<lparr>lnk = link_with zero_port, mem = closed_pdata 4, running = False,
     napis = (\<lambda>_. \<lparr>listed = False, napi_st = Napi_idle\<rparr>), irqs = (\<lambda>_. False), ieu_timer = False, link_timer = False,
     lock_timer = False, tx_timers = (\<lambda>_. False), timer_flags = (\<lambda>_. False), queues_on = False, restart_work = False,
     buf_size = 0, mtu = 1500, isr_stats = (\<lambda>_. 0), mmc = (\<lambda>_. 0)\<rparr>"

text \<open>One that is open with one channel, whose transmit timer is pending.\<close>

definition open_life :: life where
  "open_life = closed_life\<lparr>mem := (closed_pdata 4)\<lparr>channel_head := Mem 0, channels := [new_channel (closed_pdata 4) 0 0]\<rparr>,
     running := True, napis := (\<lambda>k. \<lparr>listed = (k = None), napi_st = Napi_idle\<rparr>), irqs := (\<lambda>k. k = None), ieu_timer := True,
     link_timer := True, tx_timers := (\<lambda>i. i = 0), timer_flags := (\<lambda>i. i = 0), queues_on := True\<rparr>"

lemma open_life_up: "up open_life" "running open_life" "napi_keys open_life = [None]" "tx_timers open_life 0" "timer_flags open_life 0"
proof -
  show k: "napi_keys open_life = [None]" by (simp add: open_life_def napi_keys_def closed_pdata_def)
  have i: "irq_keys open_life = [None]" by (simp add: open_life_def irq_keys_def closed_pdata_def)
  have c: "chans_ok (mem open_life)" by (simp add: open_life_def chans_ok_def new_channel_def closed_pdata_def)
  have t: "tx_lead open_life = 1" by (simp add: open_life_def tx_lead_def new_channel_def closed_pdata_def)
  show "up open_life" unfolding up_def k i t using c by (simp add: open_life_def)
qed (simp_all add: open_life_def)

lemma plain_init: "\<forall>s. op_init plain_ops s \<noteq> None"
  by (simp add: plain_ops_def)

lemma opened_once: "\<exists>L. in_use one_env plain_ops granted const_mem L"
proof -
  have h: "channel_head (closed_pdata 4) = Null" "irqs_ok (closed_pdata 4)" "0 < tx_ring_count (closed_pdata 4)"
    "0 < rx_ring_count (closed_pdata 4)" "0 < channel_count (closed_pdata 4)"
    by (simp_all add: closed_pdata_def irqs_ok_def)
  have "\<forall>h. alloc_ok one_env h" by (simp add: one_env_def file_env_def)
  with alloc_all_view [OF h empty_below, of one_env const_mem] obtain p s where
    a: "mac_alloc_channels_and_rings one_env const_mem (closed_pdata 4, empty_kern) = Some (0, p, s)" by metis
  have m: "mac_calc_rx_buf_size 1500 = 1536" by code_simp
  obtain G where G: "\<And>M. mac_start one_env plain_ops granted M = Some (0, G M)"
    using start_returns [OF plain_init, of granted one_env] by (metis granted_def)
  have "\<exists>L'. mac_open one_env plain_ops granted const_mem (closed_life\<lparr>running := True\<rparr>) = Some (0, L')"
    using a m by (simp add: mac_open_def closed_life_def link_with_def G Let_def)
  then obtain L' where "mac_open one_env plain_ops granted const_mem (closed_life\<lparr>running := True\<rparr>) = Some (0, L')"
    by blast
  then have "dev_open one_env plain_ops granted const_mem closed_life = Some (0, L'\<lparr>running := True\<rparr>)"
    by (simp add: dev_open_def closed_life_def)
  moreover have "at_rest closed_life" by (simp add: at_rest_def closed_life_def)
  ultimately have "in_use one_env plain_ops granted const_mem (L'\<lparr>running := True\<rparr>)"
    using h empty_below by (intro opened [of closed_life]) (simp_all add: closed_life_def)
  then show ?thesis by blast
qed

theorem in_use_then_closed_witness:
  "\<exists>L L'. in_use one_env plain_ops granted const_mem L \<and> irqs L None \<and>
     dev_close one_env plain_ops (mac_tx_timeout L) = Some L' \<and> \<not> irqs L' None"
proof -
  obtain L where L: "in_use one_env plain_ops granted const_mem L" using opened_once by blast
  then have "in_use one_env plain_ops granted const_mem (mac_tx_timeout L)" by (rule timed_out)
  from in_use_then_closed [OF this _ one_card.link_card_axioms]
  obtain L' where "dev_close one_env plain_ops (mac_tx_timeout L) = Some L'" "at_rest L'" by (auto simp: granted_def)
  moreover have "irqs L None"
    using in_use_then_closed [OF L _ one_card.link_card_axioms] by (simp add: granted_def irq_keys_def)
  ultimately show ?thesis using L by (auto simp: at_rest_def)
qed

theorem failed_restart_blocks_close_witness:
  "\<exists>L'. mac_restart one_env plain_ops refused open_life = Some L' \<and> running L' \<and> dev_close one_env plain_ops L' = None"
  using failed_restart_blocks_close [OF open_life_up(1,2) one_card.link_card_axioms plain_init, of refused] open_life_up(3)
  by (auto simp: refused_def)

theorem restart_loses_timer_witness:
  "\<exists>L'. mac_restart one_env plain_ops granted open_life = Some L' \<and> timer_flags L' 0 \<and> \<not> tx_timers L' 0"
  using restart_loses_timer [OF open_life_up(1,2) one_card.link_card_axioms plain_init _ open_life_up(4,5), of granted]
  by (auto simp: granted_def)

definition isr_env :: env where
  "isr_env = file_env\<lparr>hw_read := (\<lambda>t r a. if r = Mac_regs \<and> a = DMA_ISR then 4 else 0x41)\<rparr>"

theorem other_status_acknowledged_witness:
  "\<exists>L' evs. mac_isr isr_env open_life = Some L' \<and> trace (card (lnk L')) = evs \<and>
     (\<exists>sr. Ewrite Mac_regs 0x3160 sr \<in> set evs) \<and> (\<forall>v. Eread Mac_regs 0x3160 v \<notin> set evs)"
proof -
  have "channels (mem open_life) = [new_channel (closed_pdata 4) 0 0]" "dma_regs (chan (new_channel (closed_pdata 4) 0 0)) = 0x3100"
    "card (lnk open_life) = empty_kern"
    by (simp_all add: open_life_def closed_life_def new_channel_def closed_pdata_def)
  moreover have "hw_read isr_env t Mac_regs DMA_ISR = push_bit 2 1" for t by (simp add: isr_env_def)
  ultimately show ?thesis
    using other_status_acknowledged [of 2 open_life "new_channel (closed_pdata 4) 0 0" "[]" isr_env] by (auto simp: empty_kern_def)
qed

end
