(* ===== verification/Ulib.thy ===== *)
theory Ulib
  imports Post
begin

text \<open>
  The user-space provider (libbxroce/bxroce_verbs.c, bxroce_main.h, bxroce_hw.c): memory regions,
  building and posting work requests from user space. The window at \<open>qp->iova\<close> is the page of the
  PCIe bar that the kernel maps, with the same registers. The entries of a queue have the size of
  \<open>struct bxroce_wqe\<close> and \<open>struct bxroce_rqe\<close>. Statuses are positive error numbers here, as in
  the source, except where it says \<open>-EINVAL\<close>. The robust mutex \<open>hw_lock\<close> is always obtained. None is an access
  outside a buffer, a null pointer, a division by zero or a loop that does not end. The printing
  functions \<open>bxroce_printf_wqe\<close> and \<open>bxroce_printf_rqe\<close> have no effect here.
\<close>

section \<open>Types\<close>

datatype ibv_qp_type = IBV_QPT_RC | IBV_QPT_UC | IBV_QPT_UD | IBV_QPT_DRIVER | IBV_QPT_OTHER

datatype ibv_wr_opcode = IBV_WR_SEND | IBV_WR_SEND_WITH_IMM | IBV_WR_SEND_WITH_INV
  | IBV_WR_RDMA_WRITE | IBV_WR_RDMA_WRITE_WITH_IMM | IBV_WR_RDMA_READ | IBV_WR_OTHER

text \<open>\<open>struct bxroce_qp_hwq_info\<close>; its buffer is in the queue pair.\<close>

record uqueue =
  u_max_sges :: u32
  u_head :: u32
  u_tail :: u32
  u_entry_size :: u32
  u_max_cnt :: u32
  u_max_wqe_idx :: u32
  u_overhead :: u32
  u_len :: u32
  u_pa :: u64
  u_foe :: qp_foe

text \<open>The first entry of \<open>addrtbl\<close>, the only one used.\<close>

record qp_addrtbl =
  dmaaddr :: u64
  vaddr :: u64
  addr_len :: u32

record uqp =
  uid :: u32
  usq :: uqueue
  urq :: uqueue
  usq_mem :: "wqe list"
  urq_mem :: "rqe list"
  uwr_tbl :: "(u64 \<times> u8) list"      \<comment> \<open>\<open>wqe_wr_id_tbl\<close>: \<open>wrid\<close>, \<open>signaled\<close>\<close>
  urqe_tbl :: "u64 list"
  rdma_addr :: u64
  addrtbl :: qp_addrtbl
  utype :: ibv_qp_type
  ustate :: qp_state
  uqkey :: u32
  usignaled :: bool
  udestqp :: u32
  upkey_index :: u32
  usgid_idx :: int
  umac :: "u8 list"
  usgid :: "u8 list"
  udgid :: "u8 list"

record usend_wr =
  uwr_id :: u64
  usg_list :: "sge list"
  uwr_op :: ibv_wr_opcode
  send_flag_signaled :: bool
  send_flag_inline :: bool
  uimm_data :: u32
  ud_remote_qpn :: u32
  ud_remote_qkey :: u32
  ud_ah :: "u8 list option"         \<comment> \<open>the address \<open>dmac\<close> of the address handle\<close>
  rdma_rkey :: u32
  rdma_remote_addr :: u64

text \<open>\<open>struct bxroce_mr_sginfo\<close>; \<open>mr_vmr\<close> identifies the region it describes.\<close>

record mr_sginfo =
  mr_self :: nat                    \<comment> \<open>the object it is in, and that of \<open>sginfo\<close>\<close>
  mr_sgobj :: nat
  mr_vmr :: nat
  mr_iova :: u64
  mr_length :: u32
  mr_offset :: u32
  mr_sginfo :: "(u64 \<times> u32) list"

section \<open>Queues\<close>

definition bxroce_hwq_inc_head :: "uqueue \<Rightarrow> uqueue option" where
  "bxroce_hwq_inc_head q =
     (if u_max_cnt q = 0 then None else Some (q\<lparr>u_head := (u_head q + 1) mod u_max_cnt q\<rparr>))"

definition bxroce_hwq_inc_sqtail :: "uqueue \<Rightarrow> uqueue option" where
  "bxroce_hwq_inc_sqtail q =
     (if u_overhead q = 0 then None else Some (q\<lparr>u_tail := (u_tail q + 1) mod u_overhead q\<rparr>))"

definition bxroce_hwq_inc_rqtail :: "uqueue \<Rightarrow> uqueue option" where
  "bxroce_hwq_inc_rqtail q =
     (if u_max_cnt q = 0 then None else Some (q\<lparr>u_tail := (u_tail q + 1) mod u_max_cnt q\<rparr>))"

definition bxroce_check_foe_u :: "nat \<Rightarrow> u32 \<Rightarrow> int" where
  "bxroce_check_foe_u num_sge free_cnt = (if word_of_nat num_sge > free_cnt then ENOMEM else 0)"

definition bxroce_rqhwq_free_cnt :: "uqueue \<Rightarrow> u32" where
  "bxroce_rqhwq_free_cnt q =
     (if u_head q > u_tail q then (u_max_wqe_idx q - u_head q + u_tail q) mod u_max_cnt q
      else if u_head q = u_tail q then (if u_foe q = BXROCE_Q_EMPTY then u_max_cnt q else 0)
      else u_tail q - u_head q)"

definition bxroce_sqhwq_free_cnt :: "uqueue \<Rightarrow> u32" where
  "bxroce_sqhwq_free_cnt q = u_max_wqe_idx q - u_head q"

definition bxroce_hwq_head_u :: "uqueue \<Rightarrow> nat" where
  "bxroce_hwq_head_u q = unat (u_head q)"

section \<open>Memory regions\<close>

text \<open>The scan of \<open>dev->mr_list\<close>: both ends of a region count as inside.\<close>

definition in_region :: "u64 \<Rightarrow> mr_sginfo \<Rightarrow> bool" where
  "in_region a m \<longleftrightarrow> a \<ge> mr_iova m \<and> a \<le> mr_iova m + ucast (mr_length m)"

text \<open>The address stored in an entry; without a region it is left as it is.\<close>

definition sge_localaddr :: "mr_sginfo list \<Rightarrow> u64 \<Rightarrow> u64 \<Rightarrow> u64 option" where
  "sge_localaddr ms a old =
     (case find (in_region a) ms of
        None \<Rightarrow> Some old
      | Some m \<Rightarrow> (case mr_sginfo m of [] \<Rightarrow> None
          | (phyaddr, len) # _ \<Rightarrow> Some (phyaddr + (a - mr_iova m) + ucast (mr_offset m))))"

text \<open>Of the receive queue, whose \<open>offset\<close> has 32 bits.\<close>

definition rsge_localaddr :: "mr_sginfo list \<Rightarrow> u64 \<Rightarrow> u64 option" where
  "rsge_localaddr ms a =
     (case find (in_region a) ms of
        None \<Rightarrow> Some 0
      | Some m \<Rightarrow> (case mr_sginfo m of [] \<Rightarrow> None
          | (phyaddr, len) # _ \<Rightarrow>
              Some (phyaddr + ucast (ucast (a - mr_iova m) :: u32) + ucast (mr_offset m))))"

text \<open>
  What the exchange server answers to a request (command, address, key), as a function of the
  history: \<open>read\<close> returns -1, or 0, or a \<open>struct sg_phy_info\<close>.
\<close>

datatype reply = Read_error | Closed | Sg_info u64 u32

type_synonym server = "event list \<Rightarrow> u32 \<Rightarrow> u64 \<Rightarrow> u32 \<Rightarrow> reply"

abbreviation (input) CMD_WRITE :: u32 where "CMD_WRITE \<equiv> 0x120"
abbreviation (input) CMD_READ :: u32 where "CMD_READ \<equiv> 0x110"
abbreviation (input) CMD_REMOVE :: u32 where "CMD_REMOVE \<equiv> 0x121"

text \<open>\<open>socket\<close>, \<open>connect\<close>, \<open>write\<close> and \<open>read\<close>; the socket is closed on some paths only.\<close>

definition ask_server :: "server \<Rightarrow> u32 \<Rightarrow> u64 \<Rightarrow> u32 \<Rightarrow> kern \<Rightarrow> reply \<times> kern" where
  "ask_server X cmd a key s =
     (let s = emit (Ecall ''socket'' []) s
      in (X (trace s) cmd a key, emit (Ecall ''exchange'' [unat cmd, unat a, unat key]) s))"

text \<open>A \<open>malloc\<close> whose result is used unchecked.\<close>

definition malloc_used :: "env \<Rightarrow> kern \<Rightarrow> (nat \<times> kern) option" where
  "malloc_used E s = (case kalloc E s of (None, s) \<Rightarrow> None | (Some i, s) \<Rightarrow> Some (i, s))"

text \<open>\<open>bxroce_reg_mrinfo\<close> and \<open>bxroce_dereg_mrinfo\<close> differ in the command only.\<close>

definition bxroce_reg_mrinfo :: "env \<Rightarrow> server \<Rightarrow> u32 \<Rightarrow> u64 \<Rightarrow> u32 \<Rightarrow> kern \<Rightarrow> (int \<times> kern) option" where
  "bxroce_reg_mrinfo E X cmd a key s = do {
     (sg, s) \<leftarrow> malloc_used E s;
     let (r, s) = ask_server X cmd a key s;
     if r = Read_error then Some (- 1, s)
     else Some (0, emit (Ecall ''close'' []) (kfree (Some sg) s))
   }"

text \<open>The stores \<open>(mr_sginfo->sginfo + i*stride)->...\<close>: \<open>stride\<close> is the size of an element, 16.\<close>

fun fill_sginfo :: "nat \<Rightarrow> (u64 \<times> u32) list \<Rightarrow> (u64 \<times> u32) list \<Rightarrow> (u64 \<times> u32) list option" where
  "fill_sginfo i [] arr = Some arr"
| "fill_sginfo i (g # gs) arr =
     (if i * 16 < length arr then fill_sginfo (Suc i) gs (arr[i * 16 := g]) else None)"

text \<open>The answer of the kernel to the registration: the key and the scatter table, or an error.\<close>

datatype reg_resp = Reg_failed | Reg_ok u32 u32 "(u64 \<times> u32) list"

text \<open>\<open>bxroce_dereg_mr\<close>; \<open>destroyed\<close> is the status of the kernel. A region that is not listed: the list's head is used as an entry.\<close>

definition bxroce_dereg_mr_u :: "env \<Rightarrow> server \<Rightarrow> int \<Rightarrow> nat \<Rightarrow> u32 \<Rightarrow> mr_sginfo list \<Rightarrow> kern \<Rightarrow>
    (int \<times> mr_sginfo list \<times> kern) option" where
  "bxroce_dereg_mr_u E X destroyed vmr key ms s = do {
     (va, s) \<leftarrow> malloc_used E s;
     m \<leftarrow> find (\<lambda>m. mr_vmr m = vmr) ms;
     (case mr_sginfo m of [] \<Rightarrow> None | _ \<Rightarrow> do {
       let ms = remove1 m ms;
       let s = kfree (Some (mr_self m)) (kfree (Some (mr_sgobj m)) s);
       if destroyed \<noteq> 0 then Some (destroyed, ms, s)
       else do {
         (ret, s) \<leftarrow> bxroce_reg_mrinfo E X CMD_REMOVE (mr_iova m) key s;
         if ret \<noteq> 0 then Some (ret, ms, kfree (Some va) s)
         else Some (0, ms, kfree (Some vmr) (kfree (Some va) s))
       }
     })
   }"

text \<open>
  \<open>bxroce_reg_mr\<close>: the region, or None for NULL. \<open>destroyed\<close> is the status of the kernel for the
  deregistration on the error path.
\<close>

definition bxroce_reg_mr_u :: "env \<Rightarrow> server \<Rightarrow> reg_resp \<Rightarrow> int \<Rightarrow> u64 \<Rightarrow> u64 \<Rightarrow> mr_sginfo list \<Rightarrow> kern \<Rightarrow>
    (nat option \<times> mr_sginfo list \<times> kern) option" where
  "bxroce_reg_mr_u E X resp destroyed len hca_va ms s =
     (case kalloc E s of (None, s) \<Rightarrow> Some (None, ms, s)
      | (Some vmr, s) \<Rightarrow>
        (case resp of Reg_failed \<Rightarrow> Some (None, ms, kfree (Some vmr) s)
         | Reg_ok key off sgs \<Rightarrow> do {
             (mi, s) \<leftarrow> malloc_used E s;
             (si, s) \<leftarrow> malloc_used E s;
             (va, s) \<leftarrow> malloc_used E s;
             sginfo \<leftarrow> fill_sginfo 0 sgs (replicate (length sgs) (0, 0));
             let m = \<lparr>mr_self = mi, mr_sgobj = si, mr_vmr = vmr, mr_iova = hca_va, mr_length = ucast len, mr_offset = off, mr_sginfo = sginfo\<rparr>;
             let ms = (if length sgs \<le> 256 then ms @ [m] else ms);
             (ret, s) \<leftarrow> bxroce_reg_mrinfo E X CMD_WRITE hca_va key s;
             if ret \<noteq> 0 then do {
               (ret, ms, s) \<leftarrow> bxroce_dereg_mr_u E X destroyed vmr key ms s;
               Some (None, ms, kfree (Some va) s)
             } else Some (Some vmr, ms, s)
           }))"

section \<open>Building a send entry\<close>

definition set_wqe_dmac_u :: "u8 list \<Rightarrow> wqe \<Rightarrow> wqe" where
  "set_wqe_dmac_u mac w =
     w\<lparr>wqe_destqp := (wqe_destqp w AND 0x000f) + dmac_destqp mac,
       destsocket1 := dmac_socket1 mac,
       destsocket2 := (destsocket2 w AND 0xf0) + drop_bit 4 (mac ! 5)\<rparr>"

text \<open>As in the kernel, but the transport byte is raised by 0x50.\<close>

definition bxroce_set_wqe_opcode_u :: "wqe \<Rightarrow> u8 \<Rightarrow> u8 \<Rightarrow> wqe" where
  "bxroce_set_wqe_opcode_u w qpt opcode =
     (let opcode_l = push_bit 4 opcode; opcode_h = qpt;
          w = (if drop_bit 4 (destsocket2 w) \<noteq> 0
               then w\<lparr>destsocket2 := destsocket2 w AND 0x0f\<rparr> else w);
          w = w\<lparr>destsocket2 := destsocket2 w + opcode_l\<rparr>;
          w = (if wqe_opcode w \<noteq> 0 then w\<lparr>wqe_opcode := destsocket2 w AND 0xf0\<rparr> else w);
          w = w\<lparr>wqe_opcode := wqe_opcode w + opcode_h\<rparr>
      in w\<lparr>wqe_opcode := wqe_opcode w + 0x50\<rparr>)"

definition transport_of :: "ibv_qp_type \<Rightarrow> u8 option" where
  "transport_of t = (case t of IBV_QPT_UD \<Rightarrow> Some UD | IBV_QPT_UC \<Rightarrow> Some UC
     | IBV_QPT_DRIVER \<Rightarrow> Some RD | IBV_QPT_RC \<Rightarrow> Some RC | IBV_QPT_OTHER \<Rightarrow> None)"

text \<open>A plain send has the opcode of a send with immediate data.\<close>

definition opcode_of :: "ibv_wr_opcode \<Rightarrow> u8 option" where
  "opcode_of oc = (case oc of IBV_WR_SEND \<Rightarrow> Some SEND_WITH_IMM
     | IBV_WR_SEND_WITH_IMM \<Rightarrow> Some SEND_WITH_IMM | IBV_WR_SEND_WITH_INV \<Rightarrow> Some SEND_WITH_INV
     | IBV_WR_RDMA_WRITE \<Rightarrow> Some RDMA_WRITE | IBV_WR_RDMA_WRITE_WITH_IMM \<Rightarrow> Some WRITE_WITH_IMM
     | IBV_WR_RDMA_READ \<Rightarrow> Some RDMA_READ | IBV_WR_OTHER \<Rightarrow> None)"

definition bxroce_build_wqe_opcode_u :: "uqp \<Rightarrow> wqe \<Rightarrow> usend_wr \<Rightarrow> int \<times> wqe" where
  "bxroce_build_wqe_opcode_u q w wr =
     (case (transport_of (utype q), opcode_of (uwr_op wr)) of
        (Some t, Some oc) \<Rightarrow>
          if t = UD \<and> oc AND (SEND OR SEND_WITH_IMM) = 0 then (EINVAL, w)
          else if t = UC \<and> oc AND (SEND OR SEND_WITH_IMM OR RDMA_WRITE OR WRITE_WITH_IMM) = 0
          then (EINVAL, w)
          else if t = RD \<and> oc AND SEND_WITH_INV \<noteq> 0 then (EINVAL, w)
          else (0, bxroce_set_wqe_opcode_u w t oc)
      | _ \<Rightarrow> (EINVAL, w))"

text \<open>The end of both \<open>prepare\<close> functions.\<close>

definition note_wr_id_u :: "uqp \<Rightarrow> usend_wr \<Rightarrow> uqp option" where
  "note_wr_id_u q wr =
     (let h = unat (u_head (usq q))
      in if h < length (uwr_tbl q)
         then Some (q\<lparr>uwr_tbl := (uwr_tbl q)[h :=
                (uwr_id wr, if send_flag_signaled wr \<or> usignaled q then 1 else 0)]\<rparr>)
         else None)"

definition bxroce_prepare_send_wqe_u :: "uqp \<Rightarrow> wqe \<Rightarrow> usend_wr \<Rightarrow> (int \<times> uqp \<times> wqe) option" where
  "bxroce_prepare_send_wqe_u q w wr =
     (let (status, q, w) =
        (if utype q = IBV_QPT_UD
         then (let (status, w) = bxroce_build_wqe_opcode_u q w wr
               in if status \<noteq> 0 then (status, q, w)
                  else let w = (set_destqp_bits (ucast (ud_remote_qpn wr)) w)\<lparr>wqe_qkey := ud_remote_qkey wr\<rparr>
                       in case ud_ah wr of None \<Rightarrow> (EINVAL, q, w)
                          | Some dmac \<Rightarrow> (0, q\<lparr>umac := dmac\<rparr>, set_wqe_dmac_u dmac w))
         else (let (status, w) = bxroce_build_wqe_opcode_u q (w\<lparr>wqe_qkey := uqkey q\<rparr>) wr
               in if status \<noteq> 0 then (status, q, w)
                  else let w = (if udestqp q \<noteq> 0 then set_destqp_bits (ucast (udestqp q)) w else w)
                       in (0, q, set_wqe_dmac_u (umac q) w)))
      in if status \<noteq> 0 then Some (status, q, w)
         else
           let w = (if upkey_index q \<noteq> 0 then w\<lparr>wqe_pkey := ucast (upkey_index q)\<rparr> else w);
               w = w\<lparr>llpinfo_lo := llpinfo_of (udgid q), llpinfo_hi := 0\<rparr>
           in map_option (\<lambda>q. (0, q, w)) (note_wr_id_u q wr))"

definition bxroce_prepare_write_wqe_u :: "uqp \<Rightarrow> wqe \<Rightarrow> usend_wr \<Rightarrow> (int \<times> uqp \<times> wqe) option" where
  "bxroce_prepare_write_wqe_u q w wr =
     (let (status, w) = bxroce_build_wqe_opcode_u q w wr
      in if status \<noteq> 0 then Some (EINVAL, q, w)
         else
           let w = (if udestqp q \<noteq> 0 then set_destqp_bits (ucast (udestqp q)) w else w);
               w = set_wqe_dmac_u (umac q) w;
               w = w\<lparr>wqe_rkey := rdma_rkey wr, destaddr := rdma_addr q, wqe_qkey := uqkey q,
                     wqe_pkey := ucast (upkey_index q), llpinfo_lo := llpinfo_of (udgid q),
                     llpinfo_hi := 0\<rparr>
           in map_option (\<lambda>q. (0, q, w)) (note_wr_id_u q wr))"

section \<open>The entries of a work request\<close>

definition put_wqe_u :: "nat \<Rightarrow> wqe \<Rightarrow> uqp \<Rightarrow> uqp option" where
  "put_wqe_u i w q =
     (if i < length (usq_mem q) then Some (q\<lparr>usq_mem := (usq_mem q)[i := w]\<rparr>) else None)"

definition advance_head_u :: "uqp \<Rightarrow> uqp option" where
  "advance_head_u q = map_option (\<lambda>h. q\<lparr>usq := h\<rparr>) (bxroce_hwq_inc_head (usq q))"

text \<open>
  The loop of \<open>bxroce_build_sges\<close> and \<open>bxroce_buildwrite_sges\<close>; \<open>i\<close> is the entry \<open>tmpwqe\<close> points
  to, and \<open>keep\<close> holds in the first round if the entry already has the immediate data.
\<close>

fun sges_loop_u :: "(uqp \<Rightarrow> wqe \<Rightarrow> usend_wr \<Rightarrow> (int \<times> uqp \<times> wqe) option) \<Rightarrow> mr_sginfo list \<Rightarrow> usend_wr \<Rightarrow> bool \<Rightarrow>
    sge list \<Rightarrow> nat \<Rightarrow> uqp \<Rightarrow> (int \<times> nat \<times> uqp) option" where
  "sges_loop_u prepare ms wr keep [] i q = Some (0, i, q)"
| "sges_loop_u prepare ms wr keep (g # gs) i q =
     (if i \<ge> length (usq_mem q) then None
      else do {
        let w = (if keep then usq_mem q ! i else zero_wqe);
        a \<leftarrow> sge_localaddr ms (sge_addr g) (localaddr w);
        (status, q, w) \<leftarrow> prepare q (w\<lparr>localaddr := a\<rparr>) wr;
        if status \<noteq> 0 then do { q \<leftarrow> put_wqe_u i w q; Some (status, i, q) }
        else do {
          q \<leftarrow> put_wqe_u i (w\<lparr>wqe_lkey := sge_lkey g, dmalen := sge_length g\<rparr>) q;
          q \<leftarrow> advance_head_u q;
          sges_loop_u prepare ms wr False gs (unat (u_head (usq q))) q
        }
      })"

definition build_entries_u :: "(uqp \<Rightarrow> wqe \<Rightarrow> usend_wr \<Rightarrow> (int \<times> uqp \<times> wqe) option) \<Rightarrow> ibv_wr_opcode \<Rightarrow>
    mr_sginfo list \<Rightarrow> nat \<Rightarrow> usend_wr \<Rightarrow> uqp \<Rightarrow> (int \<times> uqp) option" where
  "build_entries_u prepare imm_op ms i wr q = do {
     (status, i, q) \<leftarrow> sges_loop_u prepare ms wr (uwr_op wr = imm_op) (usg_list wr) i q;
     if status = 0 \<and> usg_list wr = [] \<and> uwr_op wr = imm_op
     then if i < length (usq_mem q)
          then do {
            (status, q, w) \<leftarrow> prepare q (usq_mem q ! i) wr;
            q \<leftarrow> put_wqe_u i w q;
            q \<leftarrow> advance_head_u q;
            Some (status, q)
          }
          else None
     else Some (status, q)
   }"

definition bxroce_build_sges_u :: "mr_sginfo list \<Rightarrow> nat \<Rightarrow> usend_wr \<Rightarrow> uqp \<Rightarrow> (int \<times> uqp) option" where
  "bxroce_build_sges_u = build_entries_u bxroce_prepare_send_wqe_u IBV_WR_SEND_WITH_IMM"

definition bxroce_buildwrite_sges_u :: "mr_sginfo list \<Rightarrow> nat \<Rightarrow> usend_wr \<Rightarrow> uqp \<Rightarrow> (int \<times> uqp) option" where
  "bxroce_buildwrite_sges_u = build_entries_u bxroce_prepare_write_wqe_u IBV_WR_RDMA_WRITE_WITH_IMM"

text \<open>Inline data is refused, after the length is stored in the entry; \<open>err\<close> is \<open>EINVAL\<close> or \<open>-EINVAL\<close>.\<close>

definition refuse_inline_u :: "int \<Rightarrow> nat \<Rightarrow> usend_wr \<Rightarrow> uqp \<Rightarrow> (int \<times> uqp) option" where
  "refuse_inline_u err i wr q =
     (if i < length (usq_mem q)
      then map_option (\<lambda>q. (err, q))
             (put_wqe_u i ((usq_mem q ! i)\<lparr>dmalen := bxroce_sglist_len (usg_list wr)\<rparr>) q)
      else None)"

definition bxroce_build_inline_sges_u :: "mr_sginfo list \<Rightarrow> nat \<Rightarrow> usend_wr \<Rightarrow> uqp \<Rightarrow> (int \<times> uqp) option" where
  "bxroce_build_inline_sges_u ms i wr q =
     (if send_flag_inline wr \<and> utype q \<noteq> IBV_QPT_UD then refuse_inline_u EINVAL i wr q
      else bxroce_build_sges_u ms i wr q)"

definition bxroce_buildwrite_inline_sges_u :: "mr_sginfo list \<Rightarrow> nat \<Rightarrow> usend_wr \<Rightarrow> uqp \<Rightarrow> (int \<times> uqp) option" where
  "bxroce_buildwrite_inline_sges_u ms i wr q =
     (if send_flag_inline wr \<and> utype q \<noteq> IBV_QPT_UD then refuse_inline_u (- EINVAL) i wr q
      else bxroce_buildwrite_sges_u ms i wr q)"

definition bxroce_build_send_u :: "mr_sginfo list \<Rightarrow> nat \<Rightarrow> usend_wr \<Rightarrow> uqp \<Rightarrow> (int \<times> uqp) option" where
  "bxroce_build_send_u = bxroce_build_inline_sges_u"

section \<open>The remote address\<close>

text \<open>
  \<open>bxroce_exchange_dmaaddrinfo\<close>. On an error the request, the answer and the socket are not released.
\<close>

definition bxroce_exchange_dmaaddrinfo :: "env \<Rightarrow> server \<Rightarrow> usend_wr \<Rightarrow> uqp \<Rightarrow> kern \<Rightarrow> (int \<times> uqp \<times> kern) option" where
  "bxroce_exchange_dmaaddrinfo E X wr q s = do {
     (va, s) \<leftarrow> malloc_used E s;
     (sg, s) \<leftarrow> malloc_used E s;
     let (r, s) = ask_server X CMD_READ (rdma_remote_addr wr) (rdma_rkey wr) s;
     (case r of
        Read_error \<Rightarrow> Some (EINVAL, q, s)
      | Closed \<Rightarrow> Some (EINVAL, q, s)
      | Sg_info phyaddr len \<Rightarrow>
          if phyaddr = rdma_remote_addr wr then Some (EINVAL, q, s)
          else Some (0, q\<lparr>addrtbl := \<lparr>dmaaddr = phyaddr, vaddr = rdma_remote_addr wr, addr_len = len\<rparr>\<rparr>,
                 emit (Ecall ''close'' []) (kfree (Some sg) (kfree (Some va) s))))
   }"

text \<open>The address is in the table: \<open>offset\<close> is a signed \<open>int\<close>.\<close>

definition addr_known :: "usend_wr \<Rightarrow> uqp \<Rightarrow> bool" where
  "addr_known wr q \<longleftrightarrow> rdma_remote_addr wr \<ge> vaddr (addrtbl q) \<and>
     rdma_remote_addr wr \<le> vaddr (addrtbl q) + ucast (addr_len (addrtbl q))"

definition known_addr :: "usend_wr \<Rightarrow> uqp \<Rightarrow> u64" where
  "known_addr wr q =
     dmaaddr (addrtbl q) + scast (ucast (rdma_remote_addr wr - vaddr (addrtbl q)) :: u32)"

definition bxroce_build_write_u :: "env \<Rightarrow> server \<Rightarrow> mr_sginfo list \<Rightarrow> nat \<Rightarrow> usend_wr \<Rightarrow> uqp \<Rightarrow> kern \<Rightarrow>
    (int \<times> uqp \<times> kern) option" where
  "bxroce_build_write_u E X ms i wr q s =
     (if addr_known wr q
      then map_option (\<lambda>(st, q). (st, q, s))
             (bxroce_buildwrite_inline_sges_u ms i wr (q\<lparr>rdma_addr := known_addr wr q\<rparr>))
      else do {
        (status, q, s) \<leftarrow> bxroce_exchange_dmaaddrinfo E X wr q s;
        if status \<noteq> 0 then Some (status, q, s)
        else map_option (\<lambda>(st, q). (st, q, s))
               (bxroce_buildwrite_inline_sges_u ms i wr (q\<lparr>rdma_addr := dmaaddr (addrtbl q)\<rparr>))
      })"

text \<open>The statuses of the exchange and of the building are dropped.\<close>

definition bxroce_build_read_u :: "env \<Rightarrow> server \<Rightarrow> mr_sginfo list \<Rightarrow> nat \<Rightarrow> usend_wr \<Rightarrow> uqp \<Rightarrow> kern \<Rightarrow>
    (uqp \<times> kern) option" where
  "bxroce_build_read_u E X ms i wr q s = do {
     (q, s) \<leftarrow> (if addr_known wr q then Some (q\<lparr>rdma_addr := known_addr wr q\<rparr>, s)
       else map_option (\<lambda>(status, q, s). (q\<lparr>rdma_addr := dmaaddr (addrtbl q)\<rparr>, s))
              (bxroce_exchange_dmaaddrinfo E X wr q s));
     map_option (\<lambda>(status, q). (q, s)) (bxroce_buildwrite_inline_sges_u ms i wr q)
   }"

section \<open>Posting\<close>

definition bxroce_ring_sq_hw_u :: "uqp \<Rightarrow> usend_wr \<Rightarrow> kern \<Rightarrow> kern" where
  "bxroce_ring_sq_hw_u q wr s =
     (if usg_list wr = [] \<and> uwr_op wr \<noteq> IBV_WR_RDMA_WRITE_WITH_IMM \<and> uwr_op wr \<noteq> IBV_WR_SEND_WITH_IMM
      then s
      else mutex_unlock Hw_lock (pgu_writes
        [(QPLISTREADQPN, uid q), (WRITEORREADQPLIST, 1), (WRITEQPLISTMASK, 7), (QPLISTWRITEQPN, 0),
         (WPFORQPLIST, u_head (usq q) * u_entry_size (usq q)), (WRITEQPLISTMASK, 1), (QPLISTWRITEQPN, 1),
         (WRITEORREADQPLIST, 0)] (mutex_lock Hw_lock s)))"

text \<open>\<open>bxroce_init_sq_ptr\<close>: when the card has read all that was written, both start at 0 again.\<close>

definition bxroce_init_sq_ptr :: "env \<Rightarrow> uqp \<Rightarrow> kern \<Rightarrow> uqp \<times> kern" where
  "bxroce_init_sq_ptr E q s =
     (let s = pgu_writes [(QPLISTREADQPN, uid q), (WRITEORREADQPLIST, 1), (WRITEQPLISTMASK, 7), (QPLISTWRITEQPN, 0)]
                (mutex_lock Hw_lock s);
          (t, s) = pgu_read E READQPLISTDATA2 s;
          (h, s) = pgu_read E READQPLISTDATA s;
          (q, s) = (if h = t
             then (q\<lparr>usq := (usq q)\<lparr>u_overhead := u_head (usq q), u_head := 0\<rparr>\<rparr>,
                   pgu_writes [(WPFORQPLIST, 0), (WPFORQPLIST2, 0), (WRITEQPLISTMASK, 3), (QPLISTWRITEQPN, 1)] s)
             else (q, s))
      in (q, mutex_unlock Hw_lock (pgu_writes [(WRITEORREADQPLIST, 0)] s)))"

text \<open>The two that nothing calls; \<open>sizeof(struct bxroce_wqe)\<close> is 64.\<close>

definition bxroce_update_sq_tail_u :: "env \<Rightarrow> uqp \<Rightarrow> kern \<Rightarrow> uqp \<times> kern" where
  "bxroce_update_sq_tail_u E q s =
     (let (t, s) = read_qplist E (uid q) READQPLISTDATA2 s;
          h = (usq q)\<lparr>u_tail := t div 64\<rparr>;
          h = (if u_tail h = u_head h then h\<lparr>u_foe := BXROCE_Q_EMPTY\<rparr> else h)
      in (q\<lparr>usq := h\<rparr>, s))"

definition bxroce_update_sq_head_u :: "env \<Rightarrow> uqp \<Rightarrow> kern \<Rightarrow> (uqp \<times> kern) option" where
  "bxroce_update_sq_head_u E q s =
     (let (v, s) = read_qplist E (uid q) READQPLISTDATA s
      in if u_entry_size (usq q) = 0 then None
         else
           let tmphead = u_head (usq q);
               h = (usq q)\<lparr>u_head := v div u_entry_size (usq q)\<rparr>;
               h = (if tmphead \<noteq> u_head h \<and> u_head h = u_tail h then h\<lparr>u_foe := BXROCE_Q_FULL\<rparr> else h)
           in Some (q\<lparr>usq := h\<rparr>, s))"

text \<open>The switch on the opcode; \<open>be32toh\<close> is \<open>ntohl\<close>.\<close>

definition build_wr_u :: "env \<Rightarrow> server \<Rightarrow> mr_sginfo list \<Rightarrow> usend_wr \<Rightarrow> uqp \<Rightarrow> kern \<Rightarrow> (int \<times> uqp \<times> kern) option" where
  "build_wr_u E X ms wr q s =
     (let i = bxroce_hwq_head_u (usq q)
      in case uwr_op wr of
           IBV_WR_SEND_WITH_IMM \<Rightarrow> do {
             q \<leftarrow> put_wqe_u i (zero_wqe\<lparr>immdt := ntohl (uimm_data wr)\<rparr>) q;
             map_option (\<lambda>(st, q). (st, q, s)) (bxroce_build_send_u ms i wr q)
           }
         | IBV_WR_SEND \<Rightarrow> map_option (\<lambda>(st, q). (st, q, s)) (bxroce_build_send_u ms i wr q)
         | IBV_WR_SEND_WITH_INV \<Rightarrow> do {
             q \<leftarrow> put_wqe_u i (zero_wqe\<lparr>wqe_lkey := ntohl (uimm_data wr)\<rparr>) q;
             map_option (\<lambda>(st, q). (st, q, s)) (bxroce_build_send_u ms i wr q)
           }
         | IBV_WR_RDMA_WRITE_WITH_IMM \<Rightarrow> do {
             q \<leftarrow> put_wqe_u i (zero_wqe\<lparr>immdt := ntohl (uimm_data wr)\<rparr>) q;
             bxroce_build_write_u E X ms i wr q s
           }
         | IBV_WR_RDMA_WRITE \<Rightarrow> bxroce_build_write_u E X ms i wr q s
         | IBV_WR_RDMA_READ \<Rightarrow> map_option (\<lambda>(q, s). (0, q, s)) (bxroce_build_read_u E X ms i wr q s)
         | IBV_WR_OTHER \<Rightarrow> Some (EINVAL, q, s))"

text \<open>
  The loop of \<open>bxroce_post_send\<close>. With too little room at the end of the queue it starts the
  pointers again and tries the same request anew, for as long as that takes.
\<close>

partial_function (option) post_send_loop_u :: "env \<Rightarrow> server \<Rightarrow> mr_sginfo list \<Rightarrow> usend_wr list \<Rightarrow> uqp \<Rightarrow> kern \<Rightarrow>
    (int \<times> usend_wr option \<times> uqp \<times> kern) option" where
  "post_send_loop_u E X ms wrs q s =
     (case wrs of [] \<Rightarrow> Some (0, None, q, s)
      | wr # rest \<Rightarrow>
        if utype q = IBV_QPT_UD \<and> uwr_op wr \<noteq> IBV_WR_SEND \<and> uwr_op wr \<noteq> IBV_WR_SEND_WITH_IMM
        then Some (EINVAL, Some wr, q, s)
        else let free_cnt = bxroce_sqhwq_free_cnt (usq q);
                 num_sge = word_of_nat (length (usg_list wr)) in
        if free_cnt = 0 \<or> num_sge > u_max_sges (usq q) then Some (ENOMEM, Some wr, q, s)
        else if free_cnt \<le> num_sge
        then (case bxroce_init_sq_ptr E q s of (q, s) \<Rightarrow> post_send_loop_u E X ms wrs q s)
        else if bxroce_check_foe_u (length (usg_list wr)) free_cnt \<noteq> 0
        then Some (bxroce_check_foe_u (length (usg_list wr)) free_cnt, None, q, s)
        else (case build_wr_u E X ms wr q s of None \<Rightarrow> None
          | Some (status, q, s) \<Rightarrow>
            if status \<noteq> 0 then Some (status, Some wr, q, s)
            else post_send_loop_u E X ms rest q (bxroce_ring_sq_hw_u q wr s)))"

definition bxroce_post_send_u :: "env \<Rightarrow> server \<Rightarrow> mr_sginfo list \<Rightarrow> usend_wr list \<Rightarrow> uqp \<Rightarrow> kern \<Rightarrow>
    (int \<times> usend_wr option \<times> uqp \<times> kern) option" where
  "bxroce_post_send_u E X ms wrs q s =
     (let s = mutex_lock Q_lock s
      in if ustate q \<noteq> BXROCE_QPS_RTS \<and> ustate q \<noteq> BXROCE_QPS_SQD
         then Some (EINVAL, (case wrs of [] \<Rightarrow> None | wr # _ \<Rightarrow> Some wr), q, mutex_unlock Q_lock s)
         else map_option (\<lambda>(status, bad, q, s). (status, bad, q, mutex_unlock Q_lock s))
                (post_send_loop_u E X ms wrs q s))"

section \<open>The receive queue\<close>

text \<open>\<open>tmprqe += 1\<close> is not taken modulo the length of the queue.\<close>

fun rqsges_loop_u :: "mr_sginfo list \<Rightarrow> u64 \<Rightarrow> sge list \<Rightarrow> nat \<Rightarrow> nat \<Rightarrow> uqp \<Rightarrow> uqp option" where
  "rqsges_loop_u ms wrid [] r i q = Some q"
| "rqsges_loop_u ms wrid (g # gs) r i q =
     (let k = unat ((u_head (urq q) + word_of_nat i) mod u_max_cnt (urq q))
      in if r + i < length (urq_mem q) \<and> u_max_cnt (urq q) \<noteq> 0 \<and> k < length (urqe_tbl q)
         then do {
           a \<leftarrow> rsge_localaddr ms (sge_addr g);
           rqsges_loop_u ms wrid gs r (Suc i)
             (q\<lparr>urq_mem := (urq_mem q)[r + i := \<lparr>descbaseaddr = a, rqe_dmalen = sge_length g, rqe_opcode = 0x80000000\<rparr>],
                urqe_tbl := (urqe_tbl q)[k := wrid]\<rparr>)
         }
         else None)"

definition bxroce_build_rqsges_u :: "mr_sginfo list \<Rightarrow> nat \<Rightarrow> recv_wr \<Rightarrow> uqp \<times> kern \<Rightarrow> (uqp \<times> kern) option" where
  "bxroce_build_rqsges_u ms r wr = (\<lambda>(q, s). do {
     q \<leftarrow> rqsges_loop_u ms (rwr_id wr) (rsg_list wr) r 0 q;
     let s = mutex_unlock Dev_lock (mutex_lock Dev_lock s);
     if rsg_list wr = []
     then if r < length (urq_mem q)
          then Some (q\<lparr>urq_mem := (urq_mem q)[r := \<lparr>descbaseaddr = 0, rqe_dmalen = 0, rqe_opcode = 0\<rparr>]\<rparr>, s)
          else None
     else Some (q, s)
   })"

definition bxroce_ring_rq_hw_u :: "uqp \<Rightarrow> recv_wr \<Rightarrow> kern \<Rightarrow> kern" where
  "bxroce_ring_rq_hw_u q wr s =
     mutex_unlock Hw_lock (pgu_writes
       [(RCVQ_INF, uid q), (RCVQ_DI, (u_head (urq q) + word_of_nat (length (rsg_list wr))) * u_entry_size (urq q)),
        (RCVQ_DI + 4, 0), (RCVQ_WRRD, 2)] (mutex_lock Hw_lock s))"

definition bxroce_update_rq_head_u :: "recv_wr \<Rightarrow> uqp \<Rightarrow> uqp option" where
  "bxroce_update_rq_head_u wr q =
     (if rsg_list wr = [] then Some q
      else if u_max_cnt (urq q) = 0 then None
      else let h = (urq q)\<lparr>u_head := (u_head (urq q) + word_of_nat (length (rsg_list wr))) mod u_max_cnt (urq q)\<rparr>;
               h = (if u_head h = u_tail h then h\<lparr>u_foe := BXROCE_Q_FULL\<rparr> else h)
           in Some (q\<lparr>urq := h\<rparr>))"

fun post_recv_loop_u :: "mr_sginfo list \<Rightarrow> recv_wr list \<Rightarrow> uqp \<Rightarrow> kern \<Rightarrow> (int \<times> recv_wr option \<times> uqp \<times> kern) option" where
  "post_recv_loop_u ms [] q s = Some (0, None, q, s)"
| "post_recv_loop_u ms (wr # wrs) q s =
     (if u_head (urq q) > u_tail (urq q) \<and> u_max_cnt (urq q) = 0 then None
      else let free_cnt = bxroce_rqhwq_free_cnt (urq q)
      in if free_cnt = 0 \<or> word_of_nat (length (rsg_list wr)) > u_max_sges (urq q)
         then Some (ENOMEM, Some wr, q, s)
         else
           let status = bxroce_check_foe_u (length (rsg_list wr)) free_cnt
           in if status \<noteq> 0 then Some (status, None, q, s)
              else do {
                (q, s) \<leftarrow> bxroce_build_rqsges_u ms (bxroce_hwq_head_u (urq q)) wr (q, s);
                let s = bxroce_ring_rq_hw_u q wr s;
                q \<leftarrow> bxroce_update_rq_head_u wr q;
                post_recv_loop_u ms wrs q s
              })"

definition bxroce_post_recv_u :: "mr_sginfo list \<Rightarrow> recv_wr list \<Rightarrow> uqp \<Rightarrow> kern \<Rightarrow>
    (int \<times> recv_wr option \<times> uqp \<times> kern) option" where
  "bxroce_post_recv_u ms wrs q s =
     (let s = mutex_lock Q_lock s
      in if ustate q = BXROCE_QPS_RST \<or> ustate q = BXROCE_QPS_ERR
         then Some (EINVAL, (case wrs of [] \<Rightarrow> None | wr # _ \<Rightarrow> Some wr), q, mutex_unlock Q_lock s)
         else map_option (\<lambda>(status, bad, q, s). (status, bad, q, mutex_unlock Q_lock s)) (post_recv_loop_u ms wrs q s))"

text \<open>Nothing calls this one; it keeps nothing of what it reads.\<close>

definition bxroce_update_rq_tail_u :: "env \<Rightarrow> uqp \<Rightarrow> kern \<Rightarrow> kern" where
  "bxroce_update_rq_tail_u E q s =
     (let s = pgu_writes [(RCVQ_INF, uid q), (RCVQ_DI, ucast (u_pa (urq q))), (RCVQ_DI + 4, ucast (drop_bit 32 (u_pa (urq q)))),
                (RCVQ_WRRD, 0x20)] (mutex_lock Hw_lock s);
          s = fold (\<lambda>r s. snd (pgu_read E r s)) [RCVQ_INF, RCVQ_DI + 8, RCVQ_DI + 4, RCVQ_DI] s
      in mutex_unlock Hw_lock s)"

end
