(* ===== verification/Ulib_poll.thy ===== *)
theory Ulib_poll
  imports Ulib
begin

text \<open>
  Polling a completion queue from user space (libbxroce/bxroce_verbs.c). A completion queue has
  three rings of 16-byte entries that the card fills between calls: completed sends
  (\<open>xmitva\<close>), received messages (\<open>rxva\<close>) and sent packets (\<open>txva\<close>), with the indices \<open>xmitrp\<close>,
  \<open>rxrp\<close> and \<open>txrp\<close>. The caller's array of work completions is a list; None is an access outside
  it, outside a ring or a table, a null pointer or a division by zero.
\<close>

section \<open>Types\<close>

record utxcqe =
  tx_pkey :: u16
  tx_opcode :: u8
  tx_destqp :: u16
  tx_immdt :: u32

text \<open>\<open>struct bxroce_rxcqe\<close> and \<open>struct bxroce_xmitcqe\<close> have the same fields.\<close>

record urxcqe =
  bth_pkey :: u16
  bth_24_31 :: u8
  bth_destqp :: u16
  rcvdestqpeecofremoterqt :: u16
  bth_64_87_lo :: u16
  bth_64_87_hi :: u8
  aeth :: u8
  cqe_immdt :: u32
  hff :: u8

datatype uwc_opcode = IBV_WC_RECV | Wc_opcode nat

datatype uwc_status = IBV_WC_SUCCESS | Wc_status nat

record ibv_wc =
  wc_wr_id :: u64
  wc_status :: uwc_status
  wc_opcode :: uwc_opcode
  wc_imm_data :: u32
  wc_qp_num :: u32
  wc_src_qp :: u32
  wc_flags :: u32
  wc_pkey_index :: u16

abbreviation (input) IBV_WC_GRH :: u32 where "IBV_WC_GRH \<equiv> 1"
abbreviation (input) IBV_WC_WITH_IMM :: u32 where "IBV_WC_WITH_IMM \<equiv> 2"

record ucq =
  tx_ring :: "utxcqe list"
  rx_ring :: "urxcqe list"
  xmit_ring :: "urxcqe list"
  txrp :: u32
  rxrp :: u32
  xmitrp :: u32
  cq_phase :: u32
  cq_qp_id :: u32

definition zero_utxcqe :: utxcqe where
  "zero_utxcqe = \<lparr>tx_pkey = 0, tx_opcode = 0, tx_destqp = 0, tx_immdt = 0\<rparr>"

definition zero_urxcqe :: urxcqe where
  "zero_urxcqe = \<lparr>bth_pkey = 0, bth_24_31 = 0, bth_destqp = 0, rcvdestqpeecofremoterqt = 0, bth_64_87_lo = 0,
     bth_64_87_hi = 0, aeth = 0, cqe_immdt = 0, hff = 0\<rparr>"

section \<open>One completion\<close>

text \<open>A store to the caller's array.\<close>

definition put_wc :: "nat \<Rightarrow> (ibv_wc \<Rightarrow> ibv_wc) \<Rightarrow> ibv_wc list \<Rightarrow> ibv_wc list option" where
  "put_wc k f ws = (if k < length ws then Some (ws[k := f (ws ! k)]) else None)"

text \<open>The result says whether a completion was stored; the opcode of the completion is left as it is.\<close>

definition bxroce_poll_scqe :: "uqp \<Rightarrow> nat \<Rightarrow> ibv_wc list \<Rightarrow> (bool \<times> uqp \<times> ibv_wc list) option" where
  "bxroce_poll_scqe q k ws =
     (let t = unat (u_tail (usq q))
      in if t \<ge> length (uwr_tbl q) then None
         else do {
           (polled, ws) \<leftarrow>
             (if snd (uwr_tbl q ! t) = 0 then Some (False, ws)
              else map_option (Pair True) (put_wc k (\<lambda>w. w\<lparr>wc_status := IBV_WC_SUCCESS, wc_flags := 0,
                     wc_qp_num := uid q, wc_wr_id := fst (uwr_tbl q ! t)\<rparr>) ws));
           h \<leftarrow> bxroce_hwq_inc_sqtail (usq q);
           Some (polled, q\<lparr>usq := h\<rparr>, ws)
         })"

definition bxroce_poll_rcqe :: "uqp \<Rightarrow> urxcqe \<Rightarrow> nat \<Rightarrow> ibv_wc list \<Rightarrow> (uqp \<times> ibv_wc list) option" where
  "bxroce_poll_rcqe q e k ws = do {
     ws \<leftarrow> put_wc k (\<lambda>w.
       let w = w\<lparr>wc_opcode := IBV_WC_RECV, wc_qp_num := uid q, wc_status := IBV_WC_SUCCESS\<rparr>;
           w = (if utype q = IBV_QPT_UD
                then w\<lparr>wc_src_qp := ucast (bth_destqp e), wc_pkey_index := bth_pkey e, wc_flags := IBV_WC_GRH\<rparr>
                else w);
           w = (if cqe_immdt e \<noteq> 0
                then w\<lparr>wc_imm_data := ntohl (cqe_immdt e), wc_flags := wc_flags w OR IBV_WC_WITH_IMM\<rparr>
                else w)
       in w) ws;
     (if unat (u_tail (urq q)) < length (urqe_tbl q)
      then do {
        let ws = ws[k := (ws ! k)\<lparr>wc_wr_id := urqe_tbl q ! unat (u_tail (urq q))\<rparr>];
        h \<leftarrow> bxroce_hwq_inc_rqtail (urq q);
        Some (q\<lparr>urq := h\<rparr>, ws)
      }
      else None)
   }"

text \<open>The loop over \<open>num_rx_left\<close>, with the index of the next completion of the caller's array.\<close>

fun rx_left_loop :: "nat \<Rightarrow> uqp \<Rightarrow> urxcqe \<Rightarrow> nat \<Rightarrow> ibv_wc list \<Rightarrow> (uqp \<times> nat \<times> ibv_wc list) option" where
  "rx_left_loop 0 q e k ws = Some (q, k, ws)"
| "rx_left_loop (Suc n) q e k ws =
     (case bxroce_poll_rcqe q e k ws of None \<Rightarrow> None
      | Some (q, ws) \<Rightarrow> rx_left_loop n q e (Suc k) ws)"

text \<open>How many receives one entry stands for; the counter last seen is kept in \<open>rq.overhead\<close>.\<close>

definition num_rx_left :: "urxcqe \<Rightarrow> uqp \<Rightarrow> u32 \<Rightarrow> (u32 \<times> uqp \<times> u32) option" where
  "num_rx_left e q phase =
     (let lo = ucast (bth_64_87_lo e) :: u32
      in if lo = 0 then Some (1, q\<lparr>urq := (urq q)\<lparr>u_overhead := lo\<rparr>\<rparr>, lo + 1)
         else if phase = 0 then None
         else
           let n = (lo - u_overhead (urq q)) div phase;
               n = (if u_overhead (urq q) = 0 then n + 1 else n)
           in Some (n, q\<lparr>urq := (urq q)\<lparr>u_overhead := lo\<rparr>\<rparr>, phase))"

section \<open>Rounds\<close>

text \<open>The first branch of a round: a completed send.\<close>

definition round_xmit :: "ucq \<Rightarrow> uqp \<Rightarrow> int \<Rightarrow> nat \<Rightarrow> ibv_wc list \<Rightarrow>
    (ucq \<times> uqp \<times> int \<times> nat \<times> ibv_wc list) option" where
  "round_xmit c q num_entries k ws =
     (let r = unat (xmitrp c)
      in if hff (xmit_ring c ! r) = 0 then Some (c, q, num_entries, k, ws)
         else map_option (\<lambda>(polled, q, ws).
           (c\<lparr>xmit_ring := (xmit_ring c)[r := zero_urxcqe], xmitrp := (xmitrp c + 1) mod 256\<rparr>, q,
            if polled then num_entries - 1 else num_entries, if polled then Suc k else k, ws))
           (bxroce_poll_scqe q k ws))"

text \<open>The second: received messages.\<close>

definition round_rx :: "ucq \<Rightarrow> uqp \<Rightarrow> int \<Rightarrow> nat \<Rightarrow> ibv_wc list \<Rightarrow>
    (ucq \<times> uqp \<times> int \<times> nat \<times> ibv_wc list) option" where
  "round_rx c q num_entries k ws =
     (let r = unat (rxrp c); e = rx_ring c ! r
      in if hff e = 0 then Some (c, q, num_entries, k, ws)
         else do {
           (n, q, phase) \<leftarrow> num_rx_left e q (cq_phase c);
           (q, k, ws) \<leftarrow> rx_left_loop (unat n) q e k ws;
           Some (c\<lparr>cq_phase := phase, rx_ring := (rx_ring c)[r := zero_urxcqe], rxrp := (rxrp c + 1) mod 256\<rparr>,
             q, num_entries - int (unat n), k, ws)
         })"

text \<open>The third, \<open>just for test\<close>: sent packets are cleared.\<close>

definition round_tx :: "ucq \<Rightarrow> ucq" where
  "round_tx c =
     (let r = unat (txrp c)
      in if tx_opcode (tx_ring c ! r) = 0 then c
         else c\<lparr>tx_ring := (tx_ring c)[r := zero_utxcqe], txrp := (txrp c + 1) mod 256\<rparr>)"

definition rps_ok :: "ucq \<Rightarrow> bool" where
  "rps_ok c \<longleftrightarrow> unat (xmitrp c) < length (xmit_ring c) \<and> unat (rxrp c) < length (rx_ring c) \<and>
     unat (txrp c) < length (tx_ring c)"

definition poll_round :: "ucq \<Rightarrow> uqp \<Rightarrow> int \<Rightarrow> nat \<Rightarrow> ibv_wc list \<Rightarrow>
    (ucq \<times> uqp \<times> int \<times> nat \<times> ibv_wc list) option" where
  "poll_round c q num_entries k ws = do {
     (c, q, num_entries, k, ws) \<leftarrow> round_xmit c q num_entries k ws;
     (c, q, num_entries, k, ws) \<leftarrow> round_rx c q num_entries k ws;
     Some (round_tx c, q, num_entries, k, ws)
   }"

definition cqe_pending :: "ucq \<Rightarrow> bool" where
  "cqe_pending c \<longleftrightarrow> hff (xmit_ring c ! unat (xmitrp c)) \<noteq> 0 \<or> hff (rx_ring c ! unat (rxrp c)) \<noteq> 0"

definition cqes_left :: "ucq \<Rightarrow> nat" where
  "cqes_left c = length (filter (\<lambda>e. hff e \<noteq> 0) (xmit_ring c)) + length (filter (\<lambda>e. hff e \<noteq> 0) (rx_ring c))"

lemma filter_clear:
  "i < length es \<Longrightarrow> length (filter (\<lambda>e. hff e \<noteq> 0) (es[i := zero_urxcqe])) +
     (if hff (es ! i) \<noteq> 0 then 1 else 0) = length (filter (\<lambda>e. hff e \<noteq> 0) es)"
proof (induction es arbitrary: i)
  case (Cons e es)
  then show ?case by (cases i) (auto simp: zero_urxcqe_def split: if_splits)
qed simp

lemma cqes_left_round_tx [simp]: "cqes_left (round_tx c) = cqes_left c"
  by (simp add: cqes_left_def round_tx_def Let_def)

lemma round_xmit_left:
  assumes "round_xmit c q n k ws = Some (c', q', n', k', ws')" and "rps_ok c"
  shows "cqes_left c' + (if hff (xmit_ring c ! unat (xmitrp c)) \<noteq> 0 then 1 else 0) = cqes_left c"
    and "rx_ring c' = rx_ring c" and "rxrp c' = rxrp c"
  using assms filter_clear [of "unat (xmitrp c)" "xmit_ring c"]
  by (auto simp: round_xmit_def Let_def cqes_left_def rps_ok_def split: if_splits)

lemma round_rx_left:
  assumes "round_rx c q n k ws = Some (c', q', n', k', ws')" and "unat (rxrp c) < length (rx_ring c)"
  shows "cqes_left c' + (if hff (rx_ring c ! unat (rxrp c)) \<noteq> 0 then 1 else 0) = cqes_left c"
  using assms filter_clear [of "unat (rxrp c)" "rx_ring c"]
  by (auto simp: round_rx_def Let_def cqes_left_def split: if_splits bind_splits)

lemma poll_round_less:
  assumes "poll_round c q n k ws = Some (c', q', n', k', ws')" and "rps_ok c" and "cqe_pending c"
  shows "cqes_left c' < cqes_left c"
proof -
  obtain c1 q1 n1 k1 ws1 where x: "round_xmit c q n k ws = Some (c1, q1, n1, k1, ws1)"
    using assms(1) by (auto simp: poll_round_def split: bind_splits)
  then obtain c2 where r: "round_rx c1 q1 n1 k1 ws1 = Some (c2, q', n', k', ws')" "c' = round_tx c2"
    using assms(1) by (auto simp: poll_round_def split: bind_splits)
  note X = round_xmit_left [OF x assms(2)]
  have R: "cqes_left c2 + (if hff (rx_ring c ! unat (rxrp c)) \<noteq> 0 then 1 else 0) = cqes_left c1"
    using round_rx_left [OF r(1)] assms(2) X(2,3) by (simp add: rps_ok_def)
  show ?thesis using assms(3) X(1) R r(2) by (auto simp: cqe_pending_def split: if_splits)
qed

text \<open>
  The loop over \<open>num_entries\<close>, an \<open>int\<close> that ends the loop only when it is exactly 0. It stops
  after at most as many rounds as there are entries.
\<close>

function poll_loop_u :: "ucq \<Rightarrow> uqp option \<Rightarrow> int \<Rightarrow> nat \<Rightarrow> ibv_wc list \<Rightarrow>
    (ucq \<times> uqp option \<times> nat \<times> ibv_wc list) option" where
  "poll_loop_u c qo num_entries k ws =
     (if num_entries = 0 then Some (c, qo, k, ws)
      else if \<not> rps_ok c then None
      else if \<not> cqe_pending c then Some (c, qo, k, ws)
      else (case qo of None \<Rightarrow> None
        | Some q \<Rightarrow> (case poll_round c q num_entries k ws of None \<Rightarrow> None
          | Some (c', q', n', k', ws') \<Rightarrow> poll_loop_u c' (Some q') n' k' ws')))"
  by pat_completeness auto
termination
  by (relation "measure (\<lambda>(c, _). cqes_left c)") (auto intro: poll_round_less)

declare poll_loop_u.simps [simp del]

definition bxroce_poll_hwcq_u :: "ucq \<Rightarrow> uqp option \<Rightarrow> int \<Rightarrow> ibv_wc list \<Rightarrow>
    (int \<times> ucq \<times> uqp option \<times> ibv_wc list) option" where
  "bxroce_poll_hwcq_u c qo num_entries ws =
     map_option (\<lambda>(c, qo, k, ws). (int k, c, qo, ws)) (poll_loop_u c qo num_entries 0 ws)"

text \<open>
  \<open>dev->qp_tbl[cq->qp_id]\<close> is the queue pair the queue serves. With completions left to poll the
  pointers of the queue pair are compared, without effect; without a queue pair the variable is not set.
\<close>

definition bxroce_poll_cq_u :: "ucq \<Rightarrow> (u32 \<Rightarrow> uqp option) \<Rightarrow> int \<Rightarrow> ibv_wc list \<Rightarrow> kern \<Rightarrow>
    (int \<times> ucq \<times> (u32 \<Rightarrow> uqp option) \<times> ibv_wc list \<times> kern) option" where
  "bxroce_poll_cq_u c tbl num_entries ws s = do {
     let s = mutex_lock Cq_lock s;
     (n, c, qo, ws) \<leftarrow> bxroce_poll_hwcq_u c (tbl (cq_qp_id c)) num_entries ws;
     let s = mutex_unlock Cq_lock s;
     (if num_entries - n \<noteq> 0 \<and> qo = None then None
      else Some (n, c, tbl(cq_qp_id c := qo), ws, s))
   }"

definition bxroce_arm_cq_u :: "kern \<Rightarrow> int \<times> kern" where
  "bxroce_arm_cq_u s = (0, mutex_unlock Cq_lock (mutex_lock Cq_lock s))"

end
