(* ===== verification/Ulib_obj.thy ===== *)
theory Ulib_obj
  imports Ulib_poll Qp_state
begin

text \<open>
  The objects of the user-space provider (libbxroce/bxroce_verbs.c, bxroce_main.c): contexts,
  protection domains, address handles, completion queues and queue pairs, with the calls into the
  kernel as answers of the environment. The table \<open>dev->qp_tbl\<close> maps a number to the object the
  library keeps for the queue pair. None is undefined behaviour: an index outside the table.
\<close>

section \<open>Mappings and calls\<close>

text \<open>\<open>mmap\<close> gives a fresh mapping or \<open>MAP_FAILED\<close>; a pointer of a zeroed object is \<open>Null\<close>.\<close>

datatype map_ptr = Null | Map_failed | Mapped nat

definition umap :: "env \<Rightarrow> u64 \<Rightarrow> kern \<Rightarrow> map_ptr \<times> kern" where
  "umap E off s =
     (if alloc_ok E (trace s)
      then (Mapped (next_obj s), (emit (Ecall ''mmap'' [next_obj s, unat off]) s)\<lparr>next_obj := Suc (next_obj s)\<rparr>)
      else (Map_failed, emit (Ecall ''mmap_failed'' [unat off]) s))"

definition munmap :: "map_ptr \<Rightarrow> kern \<Rightarrow> kern" where
  "munmap p = emit (case p of Mapped i \<Rightarrow> Ecall ''munmap'' [i] | _ \<Rightarrow> Ecall ''munmap_bad'' [])"

text \<open>The status of a call into the kernel.\<close>

definition ibv_cmd :: "(event list \<Rightarrow> int) \<Rightarrow> string \<Rightarrow> nat \<Rightarrow> kern \<Rightarrow> int \<times> kern" where
  "ibv_cmd K name arg s = (K (trace s), emit (Ecall name [arg, nat \<bar>K (trace s)\<bar>]) s)"

section \<open>Contexts, domains and address handles\<close>

abbreviation (input) BXROCE_INVALID_AH_IDX :: u32 where "BXROCE_INVALID_AH_IDX \<equiv> 0xffffffff"

definition bxroce_init_ahid_tbl :: "u32 list \<Rightarrow> u32 \<Rightarrow> u32 list option" where
  "bxroce_init_ahid_tbl tbl len =
     (let n = unat len div 4
      in if n \<le> length tbl then Some (replicate n BXROCE_INVALID_AH_IDX @ drop n tbl) else None)"

record udevctx =
  uctx_self :: nat
  uctx_ah_tbl :: map_ptr
  uctx_ah_tbl_len :: u32

record udev =
  udev_id :: u32
  udev_wqe_size :: u32
  udev_rqe_size :: u32
  udev_fw_ver :: "u8 list"
  udev_hw_lock :: "nat option"

record context_resp =
  cr_dev_id :: u32
  cr_wqe_size :: u32
  cr_rqe_size :: u32
  cr_fw_ver :: "u8 list"
  cr_ah_tbl_len :: u32
  cr_ah_tbl_page :: u64

text \<open>The shared memory with the lock of the register window; a failure leaves the pointer as it is.\<close>

definition bxroce_start_listening_server :: "env \<Rightarrow> udev \<Rightarrow> kern \<Rightarrow> udev \<times> kern" where
  "bxroce_start_listening_server E d s =
     (let (p, s) = umap E 0 s
      in case p of Mapped i \<Rightarrow> (d\<lparr>udev_hw_lock := Some i\<rparr>, s) | _ \<Rightarrow> (d, s))"

text \<open>\<open>tbl\<close> is the mapped table of address handles.\<close>

definition bxroce_alloc_context :: "env \<Rightarrow> (event list \<Rightarrow> int) \<Rightarrow> context_resp \<Rightarrow> u32 list \<Rightarrow> udev \<Rightarrow> kern \<Rightarrow>
    (udevctx option \<times> u32 list \<times> udev \<times> kern) option" where
  "bxroce_alloc_context E K resp tbl d s =
     (case kalloc E s of (None, s) \<Rightarrow> Some (None, tbl, d, s)
      | (Some i, s) \<Rightarrow>
        let (ret, s) = ibv_cmd K ''get_context'' i s
        in if ret \<noteq> 0 then Some (None, tbl, d, kfree (Some i) s)
           else
             let d = d\<lparr>udev_id := cr_dev_id resp, udev_wqe_size := cr_wqe_size resp,
                       udev_rqe_size := cr_rqe_size resp, udev_fw_ver := cr_fw_ver resp\<rparr>;
                 (p, s) = umap E (cr_ah_tbl_page resp) s
             in if p = Map_failed then Some (None, tbl, d, kfree (Some i) s)
                else do {
                  tbl \<leftarrow> bxroce_init_ahid_tbl tbl (cr_ah_tbl_len resp);
                  let (d, s) = bxroce_start_listening_server E d s;
                  Some (Some \<lparr>uctx_self = i, uctx_ah_tbl = p, uctx_ah_tbl_len = cr_ah_tbl_len resp\<rparr>, tbl, d, s)
                })"

definition bxroce_free_context :: "udevctx \<Rightarrow> kern \<Rightarrow> kern" where
  "bxroce_free_context c s =
     kfree (Some (uctx_self c)) (if uctx_ah_tbl c \<noteq> Null then munmap (uctx_ah_tbl c) s else s)"

text \<open>A device with its table of queue pairs, which \<open>bxroce_uninit_device\<close> does not free.\<close>

definition bxroce_device_alloc :: "env \<Rightarrow> kern \<Rightarrow> (nat \<times> nat) option \<times> kern" where
  "bxroce_device_alloc E s =
     (case kalloc E s of (None, s) \<Rightarrow> (None, s)
      | (Some d, s) \<Rightarrow> (case kalloc E s of (None, s) \<Rightarrow> (None, kfree (Some d) s)
          | (Some t, s) \<Rightarrow> (Some (d, t), s)))"

definition bxroce_uninit_device :: "nat \<Rightarrow> nat option \<Rightarrow> kern \<Rightarrow> kern" where
  "bxroce_uninit_device d hw_lock s =
     kfree (Some d) (munmap (case hw_lock of None \<Rightarrow> Null | Some i \<Rightarrow> Mapped i) s)"

text \<open>The firmware version is three numbers of 16 bits.\<close>

definition bxroce_query_device_u :: "int \<Rightarrow> u64 \<Rightarrow> int \<times> (u64 \<times> u64 \<times> u64) option" where
  "bxroce_query_device_u status raw_fw_ver =
     (if status \<noteq> 0 then (status, None)
      else (status, Some (drop_bit 32 raw_fw_ver AND 0xffff, drop_bit 16 raw_fw_ver AND 0xffff,
              raw_fw_ver AND 0xffff)))"

definition bxroce_alloc_pd_u :: "env \<Rightarrow> (event list \<Rightarrow> int) \<Rightarrow> kern \<Rightarrow> nat option \<times> kern" where
  "bxroce_alloc_pd_u E K s =
     (case kalloc E s of (None, s) \<Rightarrow> (None, s)
      | (Some i, s) \<Rightarrow> (let (ret, s) = ibv_cmd K ''alloc_pd'' i s
          in if ret \<noteq> 0 then (None, kfree (Some i) s) else (Some i, s)))"

definition bxroce_free_pd_u :: "(event list \<Rightarrow> int) \<Rightarrow> nat \<Rightarrow> kern \<Rightarrow> int \<times> kern" where
  "bxroce_free_pd_u K i s =
     (let (ret, s) = ibv_cmd K ''dealloc_pd'' i s
      in (ret, if ret = 0 then kfree (Some i) s else s))"

record uah =
  uah_self :: nat
  uah_daddr :: u32
  uah_dmac :: "u8 list"

definition bxroce_create_ah_u :: "env \<Rightarrow> (event list \<Rightarrow> int) \<Rightarrow> u32 \<Rightarrow> u8 list \<Rightarrow> kern \<Rightarrow> uah option \<times> kern" where
  "bxroce_create_ah_u E K daddr dmac s =
     (case kalloc E s of (None, s) \<Rightarrow> (None, s)
      | (Some i, s) \<Rightarrow> (let (ret, s) = ibv_cmd K ''create_ah'' i s
          in if ret \<noteq> 0 then (None, kfree (Some i) s)
             else (Some \<lparr>uah_self = i, uah_daddr = daddr, uah_dmac = take 6 dmac\<rparr>, s)))"

definition bxroce_destroy_ah_u :: "(event list \<Rightarrow> int) \<Rightarrow> uah \<Rightarrow> kern \<Rightarrow> int \<times> kern" where
  "bxroce_destroy_ah_u K a s =
     (let (ret, s) = ibv_cmd K ''destroy_ah'' (uah_self a) s in (ret, kfree (Some (uah_self a)) s))"

section \<open>Completion queues\<close>

record ucq_obj =
  ucq_self :: nat
  ucq_id :: u32
  ucq_len :: u32
  ucq_va :: map_ptr             \<comment> \<open>\<open>txva\<close>; \<open>xmitva\<close> and \<open>rxva\<close> point into the same mapping\<close>
  ucq_cqe :: int
  ucq_iova :: map_ptr
  ucq_qp_id :: u32

record cq_resp =
  cqr_id :: u32
  cqr_page_size :: u32
  cqr_txpage :: u64

definition bxroce_create_cq_u :: "env \<Rightarrow> (event list \<Rightarrow> int) \<Rightarrow> cq_resp \<Rightarrow> int \<Rightarrow> kern \<Rightarrow> ucq_obj option \<times> kern" where
  "bxroce_create_cq_u E K resp cqe s =
     (case kalloc E s of (None, s) \<Rightarrow> (None, s)
      | (Some i, s) \<Rightarrow>
        let (status, s) = ibv_cmd K ''create_cq'' i s
        in if status \<noteq> 0 then (None, kfree (Some i) s)
           else
             let (va, s) = umap E (cqr_txpage resp) s
             in if va = Map_failed
                then (None, kfree (Some i) (snd (ibv_cmd K ''destroy_cq'' i s)))
                else (Some \<lparr>ucq_self = i, ucq_id = cqr_id resp, ucq_len = cqr_page_size resp, ucq_va = va,
                        ucq_cqe = cqe, ucq_iova = Null, ucq_qp_id = 0\<rparr>, s))"

definition bxroce_resize_cq_u :: "(event list \<Rightarrow> int) \<Rightarrow> int \<Rightarrow> ucq_obj \<Rightarrow> kern \<Rightarrow> int \<times> ucq_obj \<times> kern" where
  "bxroce_resize_cq_u K new_entries c s =
     (let (status, s) = ibv_cmd K ''resize_cq'' (ucq_self c) s
      in (status, if status = 0 then c\<lparr>ucq_cqe := new_entries\<rparr> else c, s))"

text \<open>One page of the mapping is unmapped for each of its three parts.\<close>

definition bxroce_destroy_cq_u :: "(event list \<Rightarrow> int) \<Rightarrow> ucq_obj \<Rightarrow> kern \<Rightarrow> int \<times> kern" where
  "bxroce_destroy_cq_u K c s =
     (let (status, s) = ibv_cmd K ''destroy_cq'' (ucq_self c) s
      in if status \<noteq> 0 then (status, s)
         else (0, kfree (Some (ucq_self c))
                (munmap (ucq_va c) (munmap (ucq_va c) (munmap (ucq_va c) s)))))"

section \<open>Queue pairs\<close>

text \<open>What the library keeps of a queue pair beside the queues themselves.\<close>

record uqp_obj =
  uqo_self :: nat
  uqo_id :: u32
  wr_tbl_obj :: "nat option"
  rqe_tbl_obj :: "nat option"
  addrtbl_obj :: "nat option"
  sq_va :: map_ptr
  rq_va :: map_ptr
  iova_va :: map_ptr
  info_va :: map_ptr
  uqo_sq :: uqueue
  uqo_rq :: uqueue
  uqo_type :: ibv_qp_type
  uqo_state :: qp_state
  uqo_signaled :: bool

record qp_init =
  qi_type :: ibv_qp_type
  qi_max_inline_data :: u32
  qi_srq :: bool
  qi_sq_sig_all :: bool
  qi_max_send_sge :: u32
  qi_max_recv_sge :: u32

record qp_resp =
  qr_id :: u32
  qr_num_wqe :: u32
  qr_num_rqe :: u32
  qr_sq_page_size :: u32
  qr_rq_page_size :: u32
  qr_sq_page :: u64
  qr_rq_page :: u64
  qr_ioaddr :: u64
  qr_qp_info :: u64

type_synonym qp_tbl = "u32 \<Rightarrow> nat option"

abbreviation (input) BXROCE_MAX_QP :: u32 where "BXROCE_MAX_QP \<equiv> 1024"

definition bxroce_add_qpn_map :: "u32 \<Rightarrow> nat \<Rightarrow> qp_tbl \<Rightarrow> kern \<Rightarrow> (qp_tbl \<times> kern) option" where
  "bxroce_add_qpn_map n i tbl s =
     (if n < BXROCE_MAX_QP then Some (tbl(n \<mapsto> i), mutex_unlock Dev_lock (mutex_lock Dev_lock s)) else None)"

definition bxroce_del_qpn_map :: "u32 \<Rightarrow> qp_tbl \<Rightarrow> qp_tbl option" where
  "bxroce_del_qpn_map n tbl = (if n < BXROCE_MAX_QP then Some (tbl(n := None)) else None)"

definition zero_uqueue :: uqueue where
  "zero_uqueue = \<lparr>u_max_sges = 0, u_head = 0, u_tail = 0, u_entry_size = 0, u_max_cnt = 0, u_max_wqe_idx = 0,
     u_overhead = 0, u_len = 0, u_pa = 0, u_foe = BXROCE_Q_FULL\<rparr>"

text \<open>
  \<open>bxroce_destroy_qp\<close>; \<open>same\<close> says that both completion queues are one. The mapping of the
  registers is unmapped when it is there and has not failed, the others when they are there.
\<close>

definition bxroce_destroy_qp_u :: "(event list \<Rightarrow> int) \<Rightarrow> bool \<Rightarrow> uqp_obj \<Rightarrow> qp_tbl \<Rightarrow> kern \<Rightarrow>
    (int \<times> qp_tbl \<times> kern) option" where
  "bxroce_destroy_qp_u K same q tbl s =
     (let s = (if iova_va q \<noteq> Null \<and> iova_va q \<noteq> Map_failed then munmap (iova_va q) s else s);
          s = (if sq_va q \<noteq> Null then munmap (sq_va q) s else s);
          s = (if rq_va q \<noteq> Null then munmap (rq_va q) s else s);
          s = (if info_va q \<noteq> Null then munmap (info_va q) s else s);
          s = mutex_lock Sq_cq_lock s;
          s = (if same then s else mutex_lock Rq_cq_lock s)
      in do {
        tbl \<leftarrow> bxroce_del_qpn_map (uqo_id q) tbl;
        let s = (if same then s else mutex_unlock Rq_cq_lock s);
        let s = mutex_unlock Sq_cq_lock s;
        let (status, s) = ibv_cmd K ''destroy_qp'' (unat (uqo_id q)) (mutex_lock Dev_lock s);
        let s = mutex_unlock Dev_lock s;
        Some (status, tbl, kfree (Some (uqo_self q)) (kfree (addrtbl_obj q)
          (kfree (wr_tbl_obj q) (kfree (rqe_tbl_obj q) s))))
      })"

text \<open>
  The steps of \<open>bxroce_create_qp\<close> up to its labels: \<open>Kernel_err\<close> frees the object only, \<open>Map_err\<close>
  unmaps the send queue first, \<open>Map_err1\<close> destroys the queue pair, \<open>Map_err2\<close> unmaps the registers
  before that.
\<close>

datatype create_exit = Created | Kernel_err | Map_err | Map_err1 | Map_err2

definition set_sq :: "qp_init \<Rightarrow> qp_resp \<Rightarrow> u32 \<Rightarrow> uqueue \<Rightarrow> uqueue" where
  "set_sq a r wqe_size h = h\<lparr>u_len := qr_sq_page_size r, u_max_wqe_idx := qr_num_wqe r - 1,
     u_overhead := (qr_num_wqe r - 1) + 1, u_entry_size := wqe_size, u_max_sges := qi_max_send_sge a,
     u_pa := qr_sq_page r\<rparr>"

definition set_rq :: "qp_init \<Rightarrow> qp_resp \<Rightarrow> u32 \<Rightarrow> uqueue \<Rightarrow> uqueue" where
  "set_rq a r rqe_size h = h\<lparr>u_len := qr_rq_page_size r, u_max_wqe_idx := qr_num_rqe r - 1,
     u_overhead := 0, u_entry_size := rqe_size, u_pa := qr_rq_page r, u_max_sges := qi_max_recv_sge a\<rparr>"

definition map_qp :: "env \<Rightarrow> qp_init \<Rightarrow> qp_resp \<Rightarrow> udev \<Rightarrow> uqp_obj \<Rightarrow> kern \<Rightarrow> create_exit \<times> uqp_obj \<times> kern" where
  "map_qp E a r d q s =
     (case kalloc E s of (None, s) \<Rightarrow> (Map_err, q, s) | (Some t, s) \<Rightarrow>
      let q = q\<lparr>wr_tbl_obj := Some t\<rparr> in
      (case kalloc E s of (None, s) \<Rightarrow> (Map_err, q, s) | (Some t, s) \<Rightarrow>
       let q = q\<lparr>rqe_tbl_obj := Some t\<rparr>; (p, s) = umap E (qr_sq_page r) s; q = q\<lparr>sq_va := p\<rparr> in
       if p = Map_failed then (Kernel_err, q, s) else
       let q = q\<lparr>uqo_sq := set_sq a r (udev_wqe_size d) (uqo_sq q)\<rparr>;
           (p, s) = umap E (qr_rq_page r) s; q = q\<lparr>rq_va := p\<rparr> in
       if p = Map_failed then (Map_err, q, s) else
       let q = q\<lparr>uqo_rq := set_rq a r (udev_rqe_size d) (uqo_rq q)\<rparr>;
           (p, s) = umap E (qr_ioaddr r) s; q = q\<lparr>iova_va := p\<rparr> in
       if p = Map_failed then (Map_err1, q, s) else
       let (p, s) = umap E (qr_qp_info r) s; q = q\<lparr>info_va := p\<rparr> in
       if p = Map_failed then (Map_err2, q, s) else
       (case kalloc E s of (t, s) \<Rightarrow> (Created, q\<lparr>addrtbl_obj := t, uqo_state := BXROCE_QPS_RST\<rparr>, s))))"

text \<open>The completion queues serve the queue pair created last.\<close>

definition attach_cq :: "uqp_obj \<Rightarrow> ucq_obj \<Rightarrow> ucq_obj" where
  "attach_cq q c = c\<lparr>ucq_iova := iova_va q, ucq_qp_id := uqo_id q\<rparr>"

text \<open>\<open>cqs\<close> are the completion queues, \<open>sc\<close> and \<open>rc\<close> those of sends and receives.\<close>

type_synonym cq_objs = "nat \<Rightarrow> ucq_obj"

definition bxroce_create_qp_u :: "env \<Rightarrow> (event list \<Rightarrow> int) \<Rightarrow> qp_init \<Rightarrow> qp_resp \<Rightarrow> udev \<Rightarrow> nat \<Rightarrow> nat \<Rightarrow>
    cq_objs \<Rightarrow> qp_tbl \<Rightarrow> kern \<Rightarrow> (uqp_obj option \<times> cq_objs \<times> qp_tbl \<times> kern) option" where
  "bxroce_create_qp_u E K a r d sc rc cqs tbl s =
     (case kalloc E s of (None, s) \<Rightarrow> Some (None, cqs, tbl, s)
      | (Some i, s) \<Rightarrow>
        if qi_max_inline_data a \<noteq> 0 \<or> qi_srq a then Some (None, cqs, tbl, kfree (Some i) s)
        else
          let (status, s) = ibv_cmd K ''create_qp'' i s
          in if status \<noteq> 0 then Some (None, cqs, tbl, kfree (Some i) s)
             else do {
               (tbl, s) \<leftarrow> bxroce_add_qpn_map (qr_id r) i tbl s;
               let q = \<lparr>uqo_self = i, uqo_id = qr_id r, wr_tbl_obj = None, rqe_tbl_obj = None, addrtbl_obj = None,
                 sq_va = Null, rq_va = Null, iova_va = Null, info_va = Null,
                 uqo_sq = zero_uqueue\<lparr>u_max_cnt := qr_num_wqe r\<rparr>, uqo_rq = zero_uqueue\<lparr>u_max_cnt := qr_num_rqe r\<rparr>,
                 uqo_type = qi_type a, uqo_state = BXROCE_QPS_RST, uqo_signaled = qi_sq_sig_all a\<rparr>;
               (case map_qp E a r d q s of
                  (Created, q, s) \<Rightarrow> Some (Some q, (let cqs = cqs(sc := attach_cq q (cqs sc)) in cqs(rc := attach_cq q (cqs rc))), tbl, s)
                | (Kernel_err, q, s) \<Rightarrow> Some (None, cqs, tbl, kfree (Some i) s)
                | (Map_err, q, s) \<Rightarrow> Some (None, cqs, tbl, kfree (Some i) (munmap (sq_va q) s))
                | (Map_err1, q, s) \<Rightarrow> map_option (\<lambda>(_, tbl, s). (None, cqs, tbl, s)) (bxroce_destroy_qp_u K (sc = rc) q tbl s)
                | (Map_err2, q, s) \<Rightarrow> map_option (\<lambda>(_, tbl, s). (None, cqs, tbl, s))
                    (bxroce_destroy_qp_u K (sc = rc) q tbl (munmap (iova_va q) s)))
             })"

section \<open>States\<close>

text \<open>The same translation as in the kernel, of which the state machine below allows fewer steps.\<close>

definition get_bxroce_qp_state_u :: "ib_qp_state \<Rightarrow> qp_state" where
  "get_bxroce_qp_state_u qps = (case qps of IB_QPS_RESET \<Rightarrow> BXROCE_QPS_RST | IB_QPS_INIT \<Rightarrow> BXROCE_QPS_INIT
     | IB_QPS_RTR \<Rightarrow> BXROCE_QPS_RTR | IB_QPS_RTS \<Rightarrow> BXROCE_QPS_RTS | IB_QPS_SQD \<Rightarrow> BXROCE_QPS_SQD
     | IB_QPS_SQE \<Rightarrow> BXROCE_QPS_SQE | IB_QPS_ERR \<Rightarrow> BXROCE_QPS_ERR)"

fun step_allowed :: "qp_state \<Rightarrow> qp_state \<Rightarrow> bool" where
  "step_allowed BXROCE_QPS_RST n = (n = BXROCE_QPS_RST \<or> n = BXROCE_QPS_INIT)"
| "step_allowed BXROCE_QPS_INIT n = (n = BXROCE_QPS_INIT \<or> n = BXROCE_QPS_RTR \<or> n = BXROCE_QPS_ERR)"
| "step_allowed BXROCE_QPS_RTR n = (n = BXROCE_QPS_RTS \<or> n = BXROCE_QPS_ERR)"
| "step_allowed BXROCE_QPS_RTS n = (n = BXROCE_QPS_ERR)"
| "step_allowed BXROCE_QPS_ERR n = (n = BXROCE_QPS_RST)"
| "step_allowed _ n = False"

definition bxroce_qp_state_machine_u :: "ib_qp_state \<Rightarrow> uqp \<Rightarrow> kern \<Rightarrow> int \<times> uqp \<times> kern" where
  "bxroce_qp_state_machine_u new_ib_state q s =
     (let new_state = get_bxroce_qp_state_u new_ib_state;
          s = mutex_lock Q_lock s
      in if new_state = ustate q then (1, q, mutex_unlock Q_lock s)
         else if \<not> step_allowed (ustate q) new_state then (EINVAL, q, mutex_unlock Q_lock s)
         else
           let q = (if ustate q = BXROCE_QPS_RST \<and> new_state = BXROCE_QPS_INIT
                    then q\<lparr>usq := (usq q)\<lparr>u_head := 0, u_tail := 0, u_foe := BXROCE_Q_EMPTY\<rparr>,
                           urq := (urq q)\<lparr>u_head := 0, u_tail := 0, u_foe := BXROCE_Q_EMPTY\<rparr>\<rparr>
                    else q)
           in (0, q\<lparr>ustate := new_state\<rparr>, mutex_unlock Q_lock s))"

text \<open>
  \<open>bxroce_modify_qp\<close>: \<open>status\<close> is the answer of the kernel, \<open>info\<close> the page the kernel shares. The
  status of the state machine is dropped.
\<close>

definition take_info :: "qp_change_info \<Rightarrow> uqp \<Rightarrow> uqp" where
  "take_info ci q = q\<lparr>uqkey := ci_qkey ci, upkey_index := ci_pkey_index ci, usignaled := ci_signaled ci,
     usgid_idx := ci_sgid_idx ci, udestqp := ci_destqp ci, umac := take 6 (ci_mac_addr ci),
     udgid := take 16 (ci_dgid ci), usgid := take 16 (ci_sgid ci)\<rparr>"

definition bxroce_modify_qp_u :: "int \<Rightarrow> ib_qp_state \<Rightarrow> u32 \<Rightarrow> qp_change_info option \<Rightarrow> uqp \<Rightarrow> kern \<Rightarrow> int \<times> uqp \<times> kern" where
  "bxroce_modify_qp_u status new_state attr_mask info q s =
     (let (q, s) = (if status = 0 \<and> bit attr_mask IB_QP_STATE
                    then snd (bxroce_qp_state_machine_u new_state q s) else (q, s));
          q = (case info of None \<Rightarrow> q | Some ci \<Rightarrow> take_info ci q)
      in (status, q, s))"

definition bxroce_query_qp_u :: "int \<Rightarrow> ib_qp_state \<Rightarrow> uqp \<Rightarrow> kern \<Rightarrow> int \<times> uqp \<times> kern" where
  "bxroce_query_qp_u status cur_state q s =
     (if status = 0 then (status, snd (bxroce_qp_state_machine_u cur_state q s)) else (status, q, s))"

end
