(* ===== verification/Exchange.thy ===== *)
theory Exchange
  imports Prelude
begin

text \<open>
  The exchange server (rdma_exchange/exchange.c): a process that keeps the physical addresses of
  the memory regions all processes of a host have registered, and answers where a remote address
  lies. The pool is the array \<open>mr_pool\<close> with the counter \<open>mr_len\<close>; a request is handled under
  \<open>rw_lock\<close>, so requests of several connections follow each other in some order. A \<open>read\<close> gives a
  whole request. None is an access outside the pool.
\<close>

section \<open>Bytes\<close>

text \<open>The layout of words and of \<open>struct mr_phy_info\<close> in memory, for \<open>memmove\<close>.\<close>

fun le_bytes :: "nat \<Rightarrow> 'a::len word \<Rightarrow> u8 list" where
  "le_bytes 0 w = []"
| "le_bytes (Suc n) w = ucast w # le_bytes n (drop_bit 8 w)"

fun of_le :: "u8 list \<Rightarrow> 'a::len word" where
  "of_le [] = 0"
| "of_le (b # bs) = ucast b OR push_bit 8 (of_le bs)"

record mr_phy_info =
  mp_phyaddr :: u64
  mp_vaddr :: u64
  mp_rkey :: u32
  mp_len :: u32
  mp_rsved :: u64

definition entry_bytes :: "mr_phy_info \<Rightarrow> u8 list" where
  "entry_bytes m = le_bytes 8 (mp_phyaddr m) @ le_bytes 8 (mp_vaddr m) @ le_bytes 4 (mp_rkey m)
     @ le_bytes 4 (mp_len m) @ le_bytes 8 (mp_rsved m)"

definition entry_of :: "u8 list \<Rightarrow> mr_phy_info" where
  "entry_of bs = \<lparr>mp_phyaddr = of_le (take 8 bs), mp_vaddr = of_le (take 8 (drop 8 bs)),
     mp_rkey = of_le (take 4 (drop 16 bs)), mp_len = of_le (take 4 (drop 20 bs)),
     mp_rsved = of_le (take 8 (drop 24 bs))\<rparr>"

definition pool_bytes :: "mr_phy_info list \<Rightarrow> u8 list" where
  "pool_bytes ms = concat (map entry_bytes ms)"

fun entries_of :: "nat \<Rightarrow> u8 list \<Rightarrow> mr_phy_info list" where
  "entries_of 0 bs = []"
| "entries_of (Suc n) bs = entry_of (take 32 bs) # entries_of n (drop 32 bs)"

text \<open>\<open>memmove(&mr_pool[i], &mr_pool[i+1], n)\<close>, \<open>n\<close> in bytes.\<close>

definition memmove_pool :: "nat \<Rightarrow> nat \<Rightarrow> mr_phy_info list \<Rightarrow> mr_phy_info list" where
  "memmove_pool i n ms =
     (let b = pool_bytes ms
      in entries_of (length ms)
           (take (32 * i) b @ take n (drop (32 * Suc i) b) @ drop (32 * i + n) b))"

section \<open>Requests\<close>

abbreviation (input) CMD_WRITE :: u32 where "CMD_WRITE \<equiv> 0x120"
abbreviation (input) CMD_REMOVE :: u32 where "CMD_REMOVE \<equiv> 0x121"
abbreviation (input) CMD_READ :: u32 where "CMD_READ \<equiv> 0x110"

record qp_vaddr =
  qv_cmd :: u32
  qv_rkey :: u32
  qv_vaddr :: u64
  qv_phyaddr :: u64
  qv_len :: u32

text \<open>\<open>struct sg_phy_info\<close> of the server, whose \<open>size\<close> has 64 bits.\<close>

record sg_phy_info =
  sg_phyaddr :: u64
  sg_size :: u64

record xserver =
  mr_pool :: "mr_phy_info list"
  mr_len :: int

definition zero_entry :: mr_phy_info where
  "zero_entry = \<lparr>mp_phyaddr = 0, mp_vaddr = 0, mp_rkey = 0, mp_len = 0, mp_rsved = 0\<rparr>"

text \<open>The pool of \<open>MR_REGION_SIZE\<close> bytes; \<open>n\<close> is 131072.\<close>

definition empty_server :: "nat \<Rightarrow> xserver" where
  "empty_server n = \<lparr>mr_pool = replicate n zero_entry, mr_len = 0\<rparr>"

abbreviation (input) MR_ENTRIES :: nat where "MR_ENTRIES \<equiv> 131072"

definition bxroce_remove_mr :: "nat \<Rightarrow> xserver \<Rightarrow> xserver" where
  "bxroce_remove_mr i st =
     (let movelen = nat (mr_len st) - i - 1
      in st\<lparr>mr_pool := (if movelen = 0 then (mr_pool st)[i := zero_entry]
                        else memmove_pool i movelen (mr_pool st))\<rparr>)"

text \<open>The entries the loops over \<open>i < mr_len\<close> visit.\<close>

definition listed :: "xserver \<Rightarrow> mr_phy_info list" where
  "listed st = take (nat (mr_len st)) (mr_pool st)"

fun first_at :: "('a \<Rightarrow> bool) \<Rightarrow> 'a list \<Rightarrow> nat option" where
  "first_at P [] = None"
| "first_at P (x # xs) = (if P x then Some 0 else map_option Suc (first_at P xs))"

definition covers_addr :: "u32 \<Rightarrow> u64 \<Rightarrow> mr_phy_info \<Rightarrow> bool" where
  "covers_addr key a m \<longleftrightarrow> key = mp_rkey m \<and> a \<ge> mp_vaddr m \<and> a \<le> mp_vaddr m + ucast (mp_len m)"

text \<open>\<open>offset\<close> is a signed \<open>int\<close>.\<close>

definition address_in :: "mr_phy_info \<Rightarrow> u64 \<Rightarrow> u64" where
  "address_in m a = mp_phyaddr m + scast (ucast (a - mp_vaddr m) :: u32)"

definition server_read :: "qp_vaddr \<Rightarrow> xserver \<Rightarrow> sg_phy_info \<Rightarrow> sg_phy_info" where
  "server_read v st g =
     (case find (covers_addr (qv_rkey v) (qv_vaddr v)) (listed st) of
        None \<Rightarrow> g\<lparr>sg_phyaddr := qv_vaddr v\<rparr>
      | Some m \<Rightarrow> g\<lparr>sg_phyaddr := address_in m (qv_vaddr v), sg_size := ucast (mp_len m)\<rparr>)"

text \<open>The field \<open>rsved\<close> of the entry keeps its value.\<close>

definition server_write :: "qp_vaddr \<Rightarrow> xserver \<Rightarrow> sg_phy_info \<Rightarrow> (sg_phy_info \<times> xserver) option" where
  "server_write v st g =
     (let k = nat (mr_len st)
      in if mr_len st < 0 \<or> k \<ge> length (mr_pool st) then None
         else Some (g\<lparr>sg_phyaddr := qv_phyaddr v\<rparr>,
           st\<lparr>mr_pool := (mr_pool st)[k := \<lparr>mp_phyaddr = qv_phyaddr v, mp_vaddr = qv_vaddr v,
                mp_rkey = qv_rkey v, mp_len = qv_len v, mp_rsved = mp_rsved (mr_pool st ! k)\<rparr>],
              mr_len := mr_len st + 1\<rparr>))"

definition is_region :: "u32 \<Rightarrow> u64 \<Rightarrow> mr_phy_info \<Rightarrow> bool" where
  "is_region key a m \<longleftrightarrow> mp_rkey m = key \<and> mp_vaddr m = a"

definition server_remove :: "qp_vaddr \<Rightarrow> xserver \<Rightarrow> sg_phy_info \<Rightarrow> sg_phy_info \<times> xserver" where
  "server_remove v st g =
     (let st = (case first_at (is_region (qv_rkey v) (qv_vaddr v)) (listed st) of
                  None \<Rightarrow> st | Some i \<Rightarrow> bxroce_remove_mr i st)
      in (g\<lparr>sg_phyaddr := qv_phyaddr v\<rparr>, st\<lparr>mr_len := mr_len st - 1\<rparr>))"

text \<open>One turn of the loop of \<open>server_fun\<close>; \<open>g\<close> is the answer buffer of the connection.\<close>

definition server_request :: "qp_vaddr \<Rightarrow> xserver \<Rightarrow> sg_phy_info \<Rightarrow> (sg_phy_info \<times> xserver) option" where
  "server_request v st g =
     (if qv_cmd v = CMD_READ then Some (server_read v st g, st)
      else if qv_cmd v = CMD_WRITE then server_write v st g
      else if qv_cmd v = CMD_REMOVE then Some (server_remove v st g)
      else Some (g\<lparr>sg_phyaddr := qv_vaddr v\<rparr>, st))"

section \<open>The process\<close>

text \<open>
  A connection has a thread of its own, which \<open>main\<close> detaches: the requests its client has still to
  send, the answer buffer, whether a request has been handled and not yet answered, and the answers
  written.
\<close>

record conn =
  c_asks :: "qp_vaddr list"
  c_info :: sg_phy_info
  c_busy :: bool
  c_sent :: "sg_phy_info list"

definition new_conn :: "qp_vaddr list \<Rightarrow> conn" where
  "new_conn vs = \<lparr>c_asks = vs, c_info = \<lparr>sg_phyaddr = 0, sg_size = 0\<rparr>, c_busy = False, c_sent = []\<rparr>"

text \<open>Where \<open>main\<close> is: before counting, in \<open>accept\<close>, behind the loop, and after \<open>exit\<close>, which ends every thread.\<close>

datatype main_at = At_count | At_accept | At_break | At_exit

record process =
  p_at :: main_at
  p_num :: int
  p_conns :: "conn list"
  p_pool :: xserver

definition server_start :: "xserver \<Rightarrow> process" where
  "server_start st = \<lparr>p_at = At_count, p_num = 0, p_conns = [], p_pool = st\<rparr>"

text \<open>
  What can happen next: \<open>main\<close> counts, accepts a client (one whose \<open>accept\<close> fails has no requests), or
  exits; the thread of a connection reads a request and handles it under \<open>rw_lock\<close>, or writes the answer.
\<close>

datatype turn = Count | Accept "qp_vaddr list" | Exit | Handle nat | Reply nat

definition main_turn :: "turn \<Rightarrow> process \<Rightarrow> process option" where
  "main_turn t p =
     (case t of
        Count \<Rightarrow> if p_at p \<noteq> At_count then None
          else Some (p\<lparr>p_num := p_num p + 1, p_at := if p_num p + 1 > 1024 then At_break else At_accept\<rparr>)
      | Accept vs \<Rightarrow> if p_at p \<noteq> At_accept then None
          else Some (p\<lparr>p_conns := p_conns p @ [new_conn vs], p_at := At_count\<rparr>)
      | Exit \<Rightarrow> if p_at p \<noteq> At_break then None else Some (p\<lparr>p_at := At_exit\<rparr>)
      | _ \<Rightarrow> None)"

definition server_fun_read :: "nat \<Rightarrow> process \<Rightarrow> process option" where
  "server_fun_read i p =
     (let c = p_conns p ! i
      in if c_busy c then None
         else case c_asks c of [] \<Rightarrow> None
           | v # vs \<Rightarrow> (case server_request v (p_pool p) (c_info c) of None \<Rightarrow> None
               | Some (g, st) \<Rightarrow> Some (p\<lparr>p_pool := st, p_conns := (p_conns p)[i := c\<lparr>c_asks := vs, c_info := g, c_busy := True\<rparr>]\<rparr>)))"

definition server_fun_write :: "nat \<Rightarrow> process \<Rightarrow> process option" where
  "server_fun_write i p =
     (let c = p_conns p ! i
      in if \<not> c_busy c then None
         else Some (p\<lparr>p_conns := (p_conns p)[i := c\<lparr>c_busy := False, c_sent := c_sent c @ [c_info c]\<rparr>]\<rparr>))"

definition server_turn :: "turn \<Rightarrow> process \<Rightarrow> process option" where
  "server_turn t p =
     (case t of
        Handle i \<Rightarrow> if p_at p = At_exit \<or> i \<ge> length (p_conns p) then None else server_fun_read i p
      | Reply i \<Rightarrow> if p_at p = At_exit \<or> i \<ge> length (p_conns p) then None else server_fun_write i p
      | _ \<Rightarrow> main_turn t p)"

text \<open>Any order of turns; None when one of them is not possible where it stands, or leaves the pool.\<close>

fun server_turns :: "turn list \<Rightarrow> process \<Rightarrow> process option" where
  "server_turns [] p = Some p"
| "server_turns (t # ts) p = (case server_turn t p of None \<Rightarrow> None | Some q \<Rightarrow> server_turns ts q)"

end
