(* ===== verification/Exchange_Correct.thy ===== *)
theory Exchange_Correct
  imports Exchange
begin

text \<open>
  The exchange server: the layout of its pool in memory, a directory of regions that it
  implements as long as regions are removed in the reverse order of their registration, and what
  happens otherwise.
\<close>

section \<open>Layout\<close>

lemma length_le_bytes [simp]: "length (le_bytes n w) = n"
  by (induction n arbitrary: w) auto

lemma nth_le_bytes: "k < n \<Longrightarrow> le_bytes n w ! k = ucast (drop_bit (8 * k) w)"
proof (induction n arbitrary: k w)
  case (Suc n)
  show ?case
  proof (cases k)
    case (Suc j)
    then have "le_bytes (Suc n) w ! k = ucast (drop_bit (8 * j) (drop_bit 8 w))"
      using Suc.IH [of j "drop_bit 8 w"] Suc.prems by simp
    also have "drop_bit (8 * j) (drop_bit 8 w) = drop_bit (8 * k) w"
      by (simp add: Suc drop_bit_drop_bit add.commute)
    finally show ?thesis .
  qed simp
qed simp

lemma bit_of_le:
  "bit (of_le bs :: 'a::len word) n \<longleftrightarrow>
     n < LENGTH('a) \<and> n div 8 < length bs \<and> bit (bs ! (n div 8)) (n mod 8)"
proof (induction bs arbitrary: n)
  case (Cons b bs)
  show ?case
  proof (cases "n < 8")
    case True
    then show ?thesis by (auto simp: bit_or_iff bit_push_bit_iff bit_ucast_iff)
  next
    case False
    then obtain m where n: "n = m + 8" by (metis add.commute le_Suc_ex not_less)
    then have "n div 8 = Suc (m div 8)" "n mod 8 = m mod 8" by simp_all
    with n show ?thesis
      by (auto simp: Cons.IH bit_or_iff bit_push_bit_iff bit_ucast_iff)
  qed
qed simp

lemma bit_byte: "bit (ucast (drop_bit (8 * (n div 8)) w) :: u8) (n mod 8) = bit (w :: 'a::len word) n"
proof -
  have "8 * (n div 8) + n mod 8 = n" by simp
  then show ?thesis by (simp add: bit_ucast_iff bit_drop_bit_eq) 
qed

lemma of_le_bytes: "LENGTH('a) = 8 * n \<Longrightarrow> of_le (le_bytes n w) = (w :: 'a::len word)"
  by (rule word_eqI_bits) (simp add: bit_of_le nth_le_bytes bit_byte less_mult_imp_div_less mult.commute)

text \<open>The low \<open>k\<close> bytes of one word under the others of another.\<close>

definition low_bytes :: "nat \<Rightarrow> 'a::len word \<Rightarrow> 'a word \<Rightarrow> 'a word" where
  "low_bytes k v w = (v AND mask (8 * k)) OR (w AND NOT (mask (8 * k)))"

lemma of_le_mixed:
  assumes "LENGTH('a) = 8 * n" and "k \<le> n"
  shows "of_le (take k (le_bytes n v) @ drop k (le_bytes n w)) = low_bytes k v (w :: 'a::len word)"
proof (rule word_eqI_bits)
  fix m assume m: "m < LENGTH('a)"
  then have d: "m div 8 < n" by (simp add: assms less_mult_imp_div_less mult.commute)
  have lt: "m < 8 * k \<longleftrightarrow> m div 8 < k" by (simp add: div_less_iff_less_mult mult.commute)
  show "bit (of_le (take k (le_bytes n v) @ drop k (le_bytes n w)) :: 'a word) m
      = bit (low_bytes k v w) m"
    using m d assms(2)
    by (cases "m div 8 < k")
       (simp_all add: bit_of_le low_bytes_def nth_append nth_le_bytes bit_byte bit_or_iff
         bit_and_iff bit_not_iff bit_mask_iff lt min_def)
qed

lemma length_entry_bytes [simp]: "length (entry_bytes m) = 32"
  by (simp add: entry_bytes_def)

lemma entry_of_bytes [simp]: "entry_of (entry_bytes m) = m"
  by (simp add: entry_of_def entry_bytes_def of_le_bytes)

lemma pool_bytes_simps [simp]:
  "pool_bytes [] = []" "pool_bytes (m # ms) = entry_bytes m @ pool_bytes ms"
  "pool_bytes (ms @ ms') = pool_bytes ms @ pool_bytes ms'"
  by (simp_all add: pool_bytes_def)

lemma length_pool_bytes [simp]: "length (pool_bytes ms) = 32 * length ms"
  by (induction ms) auto

lemma entries_of_append:
  "entries_of (length ms + n) (pool_bytes ms @ b) = ms @ entries_of n b"
  by (induction ms) auto

lemma entries_of_pool [simp]: "entries_of (length ms) (pool_bytes ms) = ms"
  using entries_of_append [of ms 0 "[]"] by simp

text \<open>Moving fewer than 32 bytes mixes two neighbours and leaves the rest.\<close>

lemma memmove_split:
  assumes k: "k \<le> 32"
  shows "memmove_pool (length ms) k (ms @ p # q # rest)
    = ms @ entry_of (take k (entry_bytes q) @ drop k (entry_bytes p)) # q # rest"
proof -
  let ?b = "pool_bytes (ms @ p # q # rest)"
  have t: "take (32 * length ms) ?b = pool_bytes ms" by simp
  have m: "take k (drop (32 * Suc (length ms)) ?b) = take k (entry_bytes q)"
    using k by simp
  have r: "drop (32 * length ms + k) ?b = drop k (entry_bytes p) @ pool_bytes (q # rest)"
    using k by simp
  have "memmove_pool (length ms) k (ms @ p # q # rest)
      = entries_of (length ms + Suc (length (q # rest)))
          (pool_bytes ms @ (take k (entry_bytes q) @ drop k (entry_bytes p)) @ pool_bytes (q # rest))"
    unfolding memmove_pool_def Let_def t m r by simp
  also have "\<dots> = ms @ entry_of (take k (entry_bytes q) @ drop k (entry_bytes p)) # q # rest"
    unfolding entries_of_append using k by simp
  finally show ?thesis .
qed

lemma entry_of_mixed:
  assumes "k \<le> 8"
  shows "entry_of (take k (entry_bytes q) @ drop k (entry_bytes p))
    = p\<lparr>mp_phyaddr := low_bytes k (mp_phyaddr q) (mp_phyaddr p)\<rparr>"
proof -
  have *: "take k (entry_bytes q) @ drop k (entry_bytes p)
      = (take k (le_bytes 8 (mp_phyaddr q)) @ drop k (le_bytes 8 (mp_phyaddr p)))
        @ drop 8 (entry_bytes p)"
    using assms by (simp add: entry_bytes_def)
  have l: "length (take k (le_bytes 8 (mp_phyaddr q)) @ drop k (le_bytes 8 (mp_phyaddr p))) = 8"
    using assms by simp
  show ?thesis
    unfolding * entry_of_def
    using assms l by (simp add: of_le_mixed [where n = 8] entry_bytes_def of_le_bytes)
qed

section \<open>The directory\<close>

text \<open>What the server promises: a list of regions, by key, address, physical address and length.\<close>

type_synonym directory = "(u32 \<times> u64 \<times> u64 \<times> u32) list"

definition region_of :: "mr_phy_info \<Rightarrow> u32 \<times> u64 \<times> u64 \<times> u32" where
  "region_of m = (mp_rkey m, mp_vaddr m, mp_phyaddr m, mp_len m)"

definition directory_of :: "xserver \<Rightarrow> directory" where
  "directory_of st = map region_of (listed st)"

fun forget_region :: "u32 \<Rightarrow> u64 \<Rightarrow> directory \<Rightarrow> directory" where
  "forget_region key a [] = []"
| "forget_region key a ((k, v, p, n) # ds) =
     (if k = key \<and> v = a then ds else (k, v, p, n) # forget_region key a ds)"

definition dir_step :: "qp_vaddr \<Rightarrow> directory \<Rightarrow> directory" where
  "dir_step v ds =
     (if qv_cmd v = CMD_WRITE then ds @ [(qv_rkey v, qv_vaddr v, qv_phyaddr v, qv_len v)]
      else if qv_cmd v = CMD_REMOVE then forget_region (qv_rkey v) (qv_vaddr v) ds
      else ds)"

text \<open>The address a lookup gives; an address nobody registered is given back as it is.\<close>

fun dir_lookup :: "u32 \<Rightarrow> u64 \<Rightarrow> directory \<Rightarrow> u64" where
  "dir_lookup key a [] = a"
| "dir_lookup key a ((k, v, p, n) # ds) =
     (if k = key \<and> v \<le> a \<and> a \<le> v + ucast n then p + scast (ucast (a - v) :: u32)
      else dir_lookup key a ds)"

definition server_ok :: "xserver \<Rightarrow> bool" where
  "server_ok st \<longleftrightarrow> 0 \<le> mr_len st \<and> nat (mr_len st) \<le> length (mr_pool st)"

lemma length_listed [simp]: "server_ok st \<Longrightarrow> length (listed st) = nat (mr_len st)"
  by (simp add: listed_def server_ok_def)

lemma find_dir_lookup:
  "(case find (covers_addr key a) ms of None \<Rightarrow> a | Some m \<Rightarrow> address_in m a)
    = dir_lookup key a (map region_of ms)"
  by (induction ms) (auto simp: covers_addr_def region_of_def address_in_def)

lemma listed_write:
  assumes "server_ok st" and "nat (mr_len st) < length (mr_pool st)"
  shows "listed (st\<lparr>mr_pool := (mr_pool st)[nat (mr_len st) := m], mr_len := mr_len st + 1\<rparr>)
    = listed st @ [m]"
proof -
  have "nat (mr_len st + 1) = Suc (nat (mr_len st))" using assms(1) unfolding server_ok_def by linarith
  then show ?thesis using assms(2) by (simp add: listed_def take_Suc_conv_app_nth)
qed

lemma first_at_SomeD:
  "first_at P xs = Some i \<Longrightarrow> \<exists>ys x zs. xs = ys @ x # zs \<and> length ys = i \<and> P x \<and> (\<forall>y\<in>set ys. \<not> P y)"
proof (induction xs arbitrary: i)
  case (Cons x xs)
  show ?case
  proof (cases "P x")
    case True
    with Cons.prems have "i = 0" by simp
    then show ?thesis using True by (intro exI [of _ "[]"]) simp
  next
    case False
    with Cons.prems obtain j where j: "first_at P xs = Some j" "i = Suc j" by auto
    from Cons.IH [OF j(1)] obtain ys y zs
      where "xs = ys @ y # zs" "length ys = j" "P y" "\<forall>y\<in>set ys. \<not> P y" by blast
    then show ?thesis using False j(2) by (intro exI [of _ "x # ys"]) auto
  qed
qed simp

lemma first_at_append:
  "\<forall>y\<in>set ys. \<not> P y \<Longrightarrow> P x \<Longrightarrow> first_at P (ys @ x # zs) = Some (length ys)"
  by (induction ys) auto

lemma first_at_NoneD: "first_at P xs = None \<Longrightarrow> x \<in> set xs \<Longrightarrow> \<not> P x"
  by (induction xs) (auto split: if_splits)

lemma forget_region_append:
  "\<forall>m\<in>set ms. \<not> is_region key a m \<Longrightarrow> is_region key a p \<Longrightarrow>
    forget_region key a (map region_of (ms @ p # zs)) = map region_of (ms @ zs)"
  by (induction ms) (auto simp: is_region_def region_of_def)

lemma pool_split:
  assumes "listed st = ms @ zs"
  shows "mr_pool st = ms @ zs @ drop (nat (mr_len st)) (mr_pool st)"
  using append_take_drop_id [of "nat (mr_len st)" "mr_pool st"] assms
  by (metis append.assoc listed_def)

text \<open>The end of the list forgets itself: the counter goes down.\<close>

lemma listed_shorter:
  assumes "server_ok st" and "nat (mr_len st) = Suc n" and "mr_pool st' = xs @ rest" and "length xs = n"
    and "mr_len st' = mr_len st - 1"
  shows "listed st' = xs"
proof -
  have "nat (mr_len st') = n" using assms(2,5) by simp
  then show ?thesis using assms(3,4) by (simp add: listed_def)
qed

lemma remove_last:
  assumes ok: "server_ok st" and ms: "listed st = ms @ [p]" and none: "\<forall>m\<in>set ms. \<not> is_region key a m"
    and p: "is_region key a p" and key: "key = qv_rkey v" and a: "a = qv_vaddr v"
  shows "listed (snd (server_remove v st g)) = ms" "server_ok (snd (server_remove v st g))"
proof -
  have len: "nat (mr_len st) = Suc (length ms)" using length_listed [OF ok] ms by simp
  have at: "first_at (is_region (qv_rkey v) (qv_vaddr v)) (listed st) = Some (length ms)"
    using first_at_append [OF none p, of "[]"] ms key a by simp
  have st': "snd (server_remove v st g)
      = st\<lparr>mr_pool := (mr_pool st)[length ms := zero_entry], mr_len := mr_len st - 1\<rparr>"
    using at len by (simp add: server_remove_def bxroce_remove_mr_def Let_def)
  have pool: "(mr_pool st)[length ms := zero_entry]
      = ms @ zero_entry # drop (nat (mr_len st)) (mr_pool st)"
    by (subst pool_split [OF ms]) simp
  show "listed (snd (server_remove v st g)) = ms"
    by (rule listed_shorter [OF ok len, where rest = "zero_entry # drop (nat (mr_len st)) (mr_pool st)"])
       (simp_all add: st' pool)
  show "server_ok (snd (server_remove v st g))"
    using ok len unfolding st' server_ok_def by auto
qed

section \<open>Properties\<close>

text \<open>
  C14. As long as the pool has room for a registration and the region a removal names is the last of
  the list, every request does on the pool what it does on the directory, and answers the address
  the directory gives.
\<close>

theorem exchange_refines_directory:
  assumes "server_ok st"
    and "qv_cmd v = CMD_WRITE \<Longrightarrow> nat (mr_len st) < length (mr_pool st)"
    and "qv_cmd v = CMD_REMOVE \<Longrightarrow> \<exists>ms p. listed st = ms @ [p] \<and> is_region (qv_rkey v) (qv_vaddr v) p \<and>
           (\<forall>m\<in>set ms. \<not> is_region (qv_rkey v) (qv_vaddr v) m)"
  shows "\<exists>g' st'. server_request v st g = Some (g', st') \<and> server_ok st' \<and>
    directory_of st' = dir_step v (directory_of st) \<and>
    (qv_cmd v = CMD_READ \<longrightarrow> sg_phyaddr g' = dir_lookup (qv_rkey v) (qv_vaddr v) (directory_of st))"
proof -
  consider (r) "qv_cmd v = CMD_READ" | (w) "qv_cmd v = CMD_WRITE" | (d) "qv_cmd v = CMD_REMOVE"
    | (x) "qv_cmd v \<noteq> CMD_READ" "qv_cmd v \<noteq> CMD_WRITE" "qv_cmd v \<noteq> CMD_REMOVE" by blast
  then show ?thesis
  proof cases
    case r
    have "sg_phyaddr (server_read v st g) = dir_lookup (qv_rkey v) (qv_vaddr v) (directory_of st)"
      unfolding directory_of_def find_dir_lookup [symmetric]
      by (simp add: server_read_def split: option.split)
    then show ?thesis using r assms(1) by (simp add: server_request_def dir_step_def)
  next
    case w
    let ?m = "\<lparr>mp_phyaddr = qv_phyaddr v, mp_vaddr = qv_vaddr v, mp_rkey = qv_rkey v, mp_len = qv_len v,
                mp_rsved = mp_rsved (mr_pool st ! nat (mr_len st))\<rparr>"
    let ?st = "st\<lparr>mr_pool := (mr_pool st)[nat (mr_len st) := ?m], mr_len := mr_len st + 1\<rparr>"
    have "server_request v st g = Some (g\<lparr>sg_phyaddr := qv_phyaddr v\<rparr>, ?st)"
      using w assms(1) assms(2) [OF w]
      by (simp add: server_request_def server_write_def server_ok_def Let_def)
    moreover have "listed ?st = listed st @ [?m]"
      by (rule listed_write [OF assms(1) assms(2) [OF w]])
    moreover have "server_ok ?st" using assms(1) assms(2) [OF w] by (auto simp: server_ok_def)
    ultimately show ?thesis using w by (simp add: directory_of_def dir_step_def region_of_def)
  next
    case d
    from assms(3) [OF d] obtain ms p where ms: "listed st = ms @ [p]"
      and p: "is_region (qv_rkey v) (qv_vaddr v) p"
      and none: "\<forall>m\<in>set ms. \<not> is_region (qv_rkey v) (qv_vaddr v) m" by blast
    note rl = remove_last [OF assms(1) ms none p refl refl]
    have "server_request v st g = Some (fst (server_remove v st g), snd (server_remove v st g))"
      using d by (simp add: server_request_def)
    moreover have "directory_of (snd (server_remove v st g)) = dir_step v (directory_of st)"
      using forget_region_append [OF none p, of "[]"] d
      by (simp add: directory_of_def rl(1) ms dir_step_def)
    ultimately show ?thesis using rl(2) d by (intro exI [of _ "fst (server_remove v st g)"] exI [of _ "snd (server_remove v st g)"]) simp
  next
    case x
    then show ?thesis using assms(1) by (simp add: server_request_def dir_step_def)
  qed
qed

text \<open>A small pool with three regions, for the examples.\<close>

definition sample_server :: xserver where
  "sample_server = \<lparr>mr_pool =
     [\<lparr>mp_phyaddr = 0x10000, mp_vaddr = 0x1000, mp_rkey = 1, mp_len = 0x100, mp_rsved = 0\<rparr>,
      \<lparr>mp_phyaddr = 0x20034, mp_vaddr = 0x2000, mp_rkey = 2, mp_len = 0x100, mp_rsved = 0\<rparr>,
      \<lparr>mp_phyaddr = 0x30056, mp_vaddr = 0x3000, mp_rkey = 3, mp_len = 0x100, mp_rsved = 0\<rparr>,
      zero_entry], mr_len = 3\<rparr>"

definition sample_request :: "u32 \<Rightarrow> u32 \<Rightarrow> u64 \<Rightarrow> qp_vaddr" where
  "sample_request cmd key a = \<lparr>qv_cmd = cmd, qv_rkey = key, qv_vaddr = a, qv_phyaddr = 0x50000, qv_len = 0x10\<rparr>"

definition sample_answer :: sg_phy_info where
  "sample_answer = \<lparr>sg_phyaddr = 0, sg_size = 0\<rparr>"

lemmas sample_defs = sample_server_def sample_request_def sample_answer_def zero_entry_def

theorem exchange_refines_directory_witness:
  "\<exists>g' st'. server_request (sample_request CMD_REMOVE 3 0x3000) sample_server sample_answer = Some (g', st') \<and>
     server_ok st' \<and> directory_of st' = [(1, 0x1000, 0x10000, 0x100), (2, 0x2000, 0x20034, 0x100)]"
proof -
  have ok: "server_ok sample_server" by (simp add: server_ok_def sample_server_def)
  have l: "listed sample_server = [mr_pool sample_server ! 0, mr_pool sample_server ! 1] @ [mr_pool sample_server ! 2]"
    by (simp add: listed_def sample_server_def numeral_3_eq_3)
  have d: "dir_step (sample_request CMD_REMOVE 3 0x3000) (directory_of sample_server)
      = [(1, 0x1000, 0x10000, 0x100), (2, 0x2000, 0x20034, 0x100)]"
    unfolding directory_of_def l by (simp add: dir_step_def region_of_def sample_defs)
  show ?thesis
    using exchange_refines_directory [OF ok, of "sample_request CMD_REMOVE 3 0x3000" sample_answer] l
    unfolding d by (force simp: is_region_def sample_defs)
qed

text \<open>
  C16. Removing a region that is not the last leaves it in the list, its physical address mixed with
  that of its neighbour, and drops the last region instead: \<open>memmove\<close> is given a number of entries,
  not of bytes. A later lookup of the removed region is answered with the mixed address. (Up to eight
  regions behind it; with more, the other fields are damaged too.)
\<close>

theorem removed_region_answered:
  assumes "server_ok st" and "listed st = ms @ p # q # zs" and "length zs < 8"
    and "is_region (qv_rkey v) (qv_vaddr v) p" and "\<forall>m\<in>set ms. \<not> is_region (qv_rkey v) (qv_vaddr v) m"
    and "qv_cmd v = CMD_REMOVE"
    and "qv_cmd r = CMD_READ" and "covers_addr (qv_rkey r) (qv_vaddr r) p"
    and "\<forall>m\<in>set ms. \<not> covers_addr (qv_rkey r) (qv_vaddr r) m"
  shows "\<exists>g' st'. server_request v st g = Some (g', st') \<and>
    listed st' = ms @ p\<lparr>mp_phyaddr := low_bytes (Suc (length zs)) (mp_phyaddr q) (mp_phyaddr p)\<rparr> # butlast (q # zs) \<and>
    map_option (\<lambda>(g, _). sg_phyaddr g) (server_request r st' g) =
      Some (low_bytes (Suc (length zs)) (mp_phyaddr q) (mp_phyaddr p) + scast (ucast (qv_vaddr r - mp_vaddr p) :: u32))"
proof -
  let ?p = "p\<lparr>mp_phyaddr := low_bytes (Suc (length zs)) (mp_phyaddr q) (mp_phyaddr p)\<rparr>"
  let ?tl = "drop (nat (mr_len st)) (mr_pool st)"
  let ?st = "snd (server_remove v st g)"
  have len: "nat (mr_len st) = Suc (length ms + Suc (length zs))"
    using length_listed [OF assms(1)] assms(2) by simp
  have at: "first_at (is_region (qv_rkey v) (qv_vaddr v)) (listed st) = Some (length ms)"
    unfolding assms(2) by (rule first_at_append [OF assms(5,4)])
  have pool: "mr_pool st = ms @ p # q # zs @ ?tl"
    using pool_split [of st "ms @ p # q # zs" "[]"] assms(2) by simp
  have mv: "memmove_pool (length ms) (Suc (length zs)) (mr_pool st) = ms @ ?p # q # zs @ ?tl"
    using memmove_split [of "Suc (length zs)" ms p q "zs @ ?tl"] pool assms(3)
    by (simp add: entry_of_mixed)
  have st': "?st = st\<lparr>mr_pool := ms @ ?p # q # zs @ ?tl, mr_len := mr_len st - 1\<rparr>"
    using at len mv by (simp add: server_remove_def bxroce_remove_mr_def Let_def)
  have zs: "butlast (q # zs) @ [last (q # zs)] = q # zs" by (rule append_butlast_last_id) simp
  have l: "listed ?st = ms @ ?p # butlast (q # zs)"
  proof (rule listed_shorter [OF assms(1) len, where rest = "last (q # zs) # ?tl"])
    show "mr_pool ?st = (ms @ ?p # butlast (q # zs)) @ last (q # zs) # ?tl"
      unfolding st' using arg_cong [OF zs, of "\<lambda>x. ms @ ?p # x @ ?tl"] by simp
  qed (simp_all add: st')
  have "find (covers_addr (qv_rkey r) (qv_vaddr r)) (listed ?st) = Some ?p"
    unfolding l using assms(8,9) by (induction ms) (auto simp: covers_addr_def)
  then have "map_option (\<lambda>(g, _). sg_phyaddr g) (server_request r ?st g)
      = Some (low_bytes (Suc (length zs)) (mp_phyaddr q) (mp_phyaddr p) + scast (ucast (qv_vaddr r - mp_vaddr p) :: u32))"
    using assms(7) by (simp add: server_request_def server_read_def address_in_def)
  moreover have "server_request v st g = Some (fst (server_remove v st g), ?st)"
    using assms(6) by (simp add: server_request_def)
  ultimately show ?thesis using l by blast
qed

theorem removed_region_answered_witness:
  "\<exists>g' st'. server_request (sample_request CMD_REMOVE 1 0x1000) sample_server sample_answer = Some (g', st') \<and>
     map_option (\<lambda>(g, _). sg_phyaddr g) (server_request (sample_request CMD_READ 1 0x1010) st' sample_answer)
       = Some 0x10044"
proof -
  let ?ms = "mr_pool sample_server"
  have ok: "server_ok sample_server" by (simp add: server_ok_def sample_server_def)
  have l: "listed sample_server = [] @ ?ms ! 0 # ?ms ! 1 # [?ms ! 2]"
    by (simp add: listed_def sample_server_def numeral_3_eq_3)
  have e: "low_bytes (Suc (length [?ms ! 2])) (mp_phyaddr (?ms ! 1)) (mp_phyaddr (?ms ! 0))
      + scast (ucast (qv_vaddr (sample_request CMD_READ 1 0x1010) - mp_vaddr (?ms ! 0)) :: u32) = 0x10044"
    by (simp add: sample_defs low_bytes_def mask_eq_exp_minus_1)
  have a: "length [?ms ! 2] < 8" by simp
  have b: "is_region (qv_rkey (sample_request CMD_REMOVE 1 0x1000)) (qv_vaddr (sample_request CMD_REMOVE 1 0x1000)) (?ms ! 0)"
    by (simp add: is_region_def sample_defs)
  have c: "covers_addr (qv_rkey (sample_request CMD_READ 1 0x1010)) (qv_vaddr (sample_request CMD_READ 1 0x1010)) (?ms ! 0)"
    by (simp add: covers_addr_def sample_defs)
  have d: "qv_cmd (sample_request k 1 x) = k" for k x by (simp add: sample_request_def)
  show ?thesis
    using removed_region_answered [OF ok l a b _ d d c, of sample_answer]
    unfolding e by fastforce
qed

text \<open>
  Removing a region that is not in the list drops the last one; from an empty list it makes the
  next registration write before the pool.
\<close>

theorem unknown_removal_drops_last:
  assumes "server_ok st" and "\<forall>m\<in>set (listed st). \<not> is_region (qv_rkey v) (qv_vaddr v) m"
    and "qv_cmd v = CMD_REMOVE" and "qv_cmd w = CMD_WRITE"
  shows "\<exists>g' st'. server_request v st g = Some (g', st') \<and> listed st' = butlast (listed st) \<and>
    (listed st = [] \<longrightarrow> server_request w st' g' = None)"
proof -
  have "first_at (is_region (qv_rkey v) (qv_vaddr v)) (listed st) = None"
    using assms(2) first_at_SomeD [of "is_region (qv_rkey v) (qv_vaddr v)" "listed st"]
    by (cases "first_at (is_region (qv_rkey v) (qv_vaddr v)) (listed st)") fastforce+
  then have r: "server_request v st g = Some (g\<lparr>sg_phyaddr := qv_phyaddr v\<rparr>, st\<lparr>mr_len := mr_len st - 1\<rparr>)"
    using assms(3) by (simp add: server_request_def server_remove_def)
  have "nat (mr_len st - 1) = nat (mr_len st) - 1" by simp
  then have "listed (st\<lparr>mr_len := mr_len st - 1\<rparr>) = butlast (listed st)"
    using assms(1) by (simp add: listed_def server_ok_def butlast_take)
  moreover have "server_request w (st\<lparr>mr_len := mr_len st - 1\<rparr>) (g\<lparr>sg_phyaddr := qv_phyaddr v\<rparr>) = None"
    if "listed st = []"
  proof -
    have "mr_len st = 0" using length_listed [OF assms(1)] that assms(1) by (simp add: server_ok_def)
    then show ?thesis using assms(4) by (simp add: server_request_def server_write_def)
  qed
  ultimately show ?thesis using r by blast
qed

theorem unknown_removal_drops_last_witness:
  "\<exists>g' st'. server_request (sample_request CMD_REMOVE 9 0x9000) (empty_server 4) sample_answer = Some (g', st') \<and>
     server_request (sample_request CMD_WRITE 9 0x9000) st' g' = None"
  using unknown_removal_drops_last [of "empty_server 4" "sample_request CMD_REMOVE 9 0x9000"
      "sample_request CMD_WRITE 9 0x9000" sample_answer]
  by (auto simp: server_ok_def empty_server_def listed_def sample_defs)

section \<open>The life of the server\<close>

text \<open>\<open>tmp_num\<close> counts the clients accepted, and one more once the loop has counted the next.\<close>

definition counted :: "process \<Rightarrow> bool" where
  "counted p \<longleftrightarrow> (case p_at p of
       At_count \<Rightarrow> p_num p = int (length (p_conns p)) \<and> length (p_conns p) \<le> 1024
     | At_accept \<Rightarrow> p_num p = int (length (p_conns p)) + 1 \<and> length (p_conns p) < 1024
     | _ \<Rightarrow> length (p_conns p) = 1024)"

lemma counted_turn:
  assumes "counted p" and "server_turn t p = Some q"
  shows "counted q \<and> length (p_conns q) = length (p_conns p) + (case t of Accept _ \<Rightarrow> 1 | _ \<Rightarrow> 0)"
  using assms
  by (cases t; cases "p_at p") (auto simp: counted_def server_turn_def main_turn_def server_fun_read_def server_fun_write_def Let_def
      split: if_splits list.splits option.splits)

lemma counted_turns:
  "server_turns ts p = Some q \<Longrightarrow> counted p \<Longrightarrow>
     counted q \<and> length (p_conns q) = length (p_conns p) + length (filter (\<lambda>t. \<exists>vs. t = Accept vs) ts)"
proof (induction ts arbitrary: p)
  case (Cons t ts)
  then obtain r where r: "server_turn t p = Some r" "server_turns ts r = Some q" by (auto split: option.splits)
  note v = counted_turn [OF Cons.prems(2) r(1)]
  show ?case using Cons.IH [OF r(2)] v by (cases t) auto
qed simp

lemma counted_start: "counted (server_start st)"
  by (simp add: counted_def server_start_def)

lemma server_turns_append: "server_turns (ts @ us) p = Option.bind (server_turns ts p) (server_turns us)"
  by (induction ts arbitrary: p) (auto split: option.split)

text \<open>With nobody left to accept, \<open>main\<close> runs to its end whatever the threads have still to do.\<close>

lemma full_server_exits:
  assumes "counted p" and "length (p_conns p) = 1024"
  shows "\<exists>us q. set us \<subseteq> {Count, Exit} \<and> server_turns us p = Some q \<and> p_at q = At_exit \<and> p_conns q = p_conns p \<and> p_pool q = p_pool p"
proof -
  let ?us = "case p_at p of At_count \<Rightarrow> [Count, Exit] | At_break \<Rightarrow> [Exit] | _ \<Rightarrow> []"
  have "server_turns (case p_at p of At_count \<Rightarrow> [Count, Exit] | At_break \<Rightarrow> [Exit] | _ \<Rightarrow> []) p =
      Some (p\<lparr>p_at := At_exit, p_num := p_num p + (if p_at p = At_count then 1 else 0)\<rparr>)"
    using assms by (cases "p_at p") (simp_all add: counted_def server_turn_def main_turn_def)
  then show ?thesis by (intro exI [of _ ?us]) (simp split: main_at.split)
qed

lemma client_accepted:
  assumes "counted p" and "length (p_conns p) < 1024"
  shows "\<exists>us q. set us \<subseteq> {Count} \<and> server_turns (us @ [Accept vs]) p = Some q \<and> p_conns q = p_conns p @ [new_conn vs] \<and> p_pool q = p_pool p"
proof -
  let ?us = "if p_at p = At_count then [Count] else []"
  have "server_turns ((if p_at p = At_count then [Count] else []) @ [Accept vs]) p =
      Some (p\<lparr>p_at := At_count, p_num := int (length (p_conns p)) + 1, p_conns := p_conns p @ [new_conn vs]\<rparr>)"
    using assms by (cases "p_at p") (simp_all add: counted_def server_turn_def main_turn_def)
  then show ?thesis by (intro exI [of _ ?us]) auto
qed

text \<open>
  C40. The server accepts 1024 connections in its whole life and ends at once then, in whatever order its
  threads run: as long as fewer have been accepted, a client that connects is; with the 1024th, \<open>main\<close>
  accepts nobody else and can run to its exit without waiting for a thread, so the requests that wait are
  never answered; after the exit nothing happens, and before the 1024th there is no exit.
\<close>

theorem server_ends_after_1024:
  assumes "server_turns ts (server_start st) = Some p"
  shows "length (p_conns p) = length (filter (\<lambda>t. \<exists>vs. t = Accept vs) ts) \<and> length (p_conns p) \<le> 1024 \<and>
    (p_at p = At_exit \<longrightarrow> length (p_conns p) = 1024 \<and> (\<forall>t. server_turn t p = None)) \<and>
    (length (p_conns p) < 1024 \<longrightarrow> (\<forall>vs. \<exists>us q. set us \<subseteq> {Count} \<and> server_turns (us @ [Accept vs]) p = Some q \<and>
       p_conns q = p_conns p @ [new_conn vs] \<and> p_pool q = p_pool p)) \<and>
    (length (p_conns p) = 1024 \<longrightarrow> (\<forall>vs. server_turn (Accept vs) p = None) \<and>
       (\<exists>us q. set us \<subseteq> {Count, Exit} \<and> server_turns us p = Some q \<and> p_at q = At_exit \<and> p_conns q = p_conns p \<and> p_pool q = p_pool p))"
proof (intro conjI)
  note c = counted_turns [OF assms counted_start]
  show "length (p_conns p) = length (filter (\<lambda>t. \<exists>vs. t = Accept vs) ts)" using c by (simp add: server_start_def)
  show "length (p_conns p) \<le> 1024" using c by (simp add: counted_def split: main_at.splits)
  have "server_turn t p = None" if "p_at p = At_exit" for t
    using that by (cases t) (simp_all add: server_turn_def main_turn_def)
  then show "p_at p = At_exit \<longrightarrow> length (p_conns p) = 1024 \<and> (\<forall>t. server_turn t p = None)"
    using conjunct1 [OF c] by (auto simp: counted_def)
  show "length (p_conns p) < 1024 \<longrightarrow> (\<forall>vs. \<exists>us q. set us \<subseteq> {Count} \<and> server_turns (us @ [Accept vs]) p = Some q \<and>
       p_conns q = p_conns p @ [new_conn vs] \<and> p_pool q = p_pool p)" using client_accepted c by blast
  have "server_turn (Accept vs) p = None" if "length (p_conns p) = 1024" for vs
    using that c by (auto simp: server_turn_def main_turn_def counted_def)
  then show "length (p_conns p) = 1024 \<longrightarrow> (\<forall>vs. server_turn (Accept vs) p = None) \<and>
       (\<exists>us q. set us \<subseteq> {Count, Exit} \<and> server_turns us p = Some q \<and> p_at q = At_exit \<and> p_conns q = p_conns p \<and> p_pool q = p_pool p)"
    using full_server_exits c by blast
qed

lemma accept_many:
  "n \<le> 1024 \<Longrightarrow> server_turns (concat (replicate n [Count, Accept vs])) (server_start st) =
     Some \<lparr>p_at = At_count, p_num = int n, p_conns = replicate n (new_conn vs), p_pool = st\<rparr>"
proof (induction n)
  case (Suc n)
  have "concat (replicate (Suc n) [Count, Accept vs]) = concat (replicate n [Count, Accept vs]) @ [Count, Accept vs]"
    by (simp flip: replicate_append_same)
  then show ?case
    using Suc by (simp add: server_turns_append server_turn_def main_turn_def flip: replicate_append_same)
qed (simp add: server_start_def)

theorem server_ends_after_1024_witness:
  "\<exists>ts q. server_turns ts (server_start sample_server) = Some q \<and> p_at q = At_exit \<and>
     p_conns q = replicate 1024 (new_conn [sample_request CMD_READ 1 0x1010])"
proof -
  let ?ts = "concat (replicate 1024 [Count, Accept [sample_request CMD_READ 1 0x1010]])"
  let ?p = "\<lparr>p_at = At_count, p_num = 1024, p_conns = replicate 1024 (new_conn [sample_request CMD_READ 1 0x1010]), p_pool = sample_server\<rparr>"
  have r: "server_turns ?ts (server_start sample_server) = Some ?p"
    using accept_many [of 1024 "[sample_request CMD_READ 1 0x1010]" sample_server] by simp
  have l: "length (p_conns ?p) = 1024" by simp
  obtain us q where q: "server_turns us ?p = Some q" "p_at q = At_exit" "p_conns q = p_conns ?p"
    using server_ends_after_1024 [OF r] l by blast
  have "server_turns (?ts @ us) (server_start sample_server) = Some q"
    using r q(1) by (simp add: server_turns_append)
  then show ?thesis using q by (intro exI [of _ "?ts @ us"] exI [of _ q]) simp
qed

end
