(* ===== verification/Ulib_Correct.thy ===== *)
theory Ulib_Correct
  imports Ulib_obj Exchange_Correct
begin

text \<open>
  The user-space provider: what a posted request leaves in the queue and at the card, when posting
  does not return or is refused for ever, registration, the remote address from the exchange
  server, polling, and the objects.
\<close>

section \<open>Samples\<close>

definition lib_env :: env where
  "lib_env = \<lparr>hw_read = (\<lambda>t r a. 0), alloc_ok = (\<lambda>t. True), dma_addr = (\<lambda>t. 0), copy_ok = (\<lambda>t. True)\<rparr>"

definition sample_queue :: uqueue where
  "sample_queue = \<lparr>u_max_sges = 8, u_head = 0, u_tail = 0, u_entry_size = 64, u_max_cnt = 8, u_max_wqe_idx = 7,
     u_overhead = 8, u_len = 512, u_pa = 0, u_foe = BXROCE_Q_EMPTY\<rparr>"

definition sample_uqp :: uqp where
  "sample_uqp = \<lparr>uid = 3, usq = sample_queue, urq = sample_queue, usq_mem = replicate 8 zero_wqe,
     urq_mem = replicate 8 \<lparr>descbaseaddr = 0, rqe_dmalen = 0, rqe_opcode = 0\<rparr>, uwr_tbl = replicate 8 (0, 0),
     urqe_tbl = replicate 8 0, rdma_addr = 0, addrtbl = \<lparr>dmaaddr = 0x70000, vaddr = 0x7000, addr_len = 0x100\<rparr>,
     utype = IBV_QPT_RC, ustate = BXROCE_QPS_RTS, uqkey = 0, usignaled = False, udestqp = 5, upkey_index = 0,
     usgid_idx = 0, umac = [1, 2, 3, 4, 5, 6], usgid = replicate 16 0, udgid = replicate 16 0\<rparr>"

definition sample_wr :: "ibv_wr_opcode \<Rightarrow> sge list \<Rightarrow> usend_wr" where
  "sample_wr oc gs = \<lparr>uwr_id = 42, usg_list = gs, uwr_op = oc, send_flag_signaled = True, send_flag_inline = False,
     uimm_data = 0, ud_remote_qpn = 0, ud_remote_qkey = 0, ud_ah = None, rdma_rkey = 1, rdma_remote_addr = 0x1010\<rparr>"

definition sample_sge :: sge where
  "sample_sge = \<lparr>sge_addr = 0x4010, sge_length = 0x20, sge_lkey = 7\<rparr>"

definition sample_mr :: mr_sginfo where
  "sample_mr = \<lparr>mr_self = 0, mr_sgobj = 1, mr_vmr = 2, mr_iova = 0x4000, mr_length = 0x100, mr_offset = 0,
     mr_sginfo = [(0x90000, 0x1000)]\<rparr>"

definition no_server :: server where
  "no_server t cmd a key = Closed"

lemmas lib_samples = lib_env_def sample_queue_def sample_uqp_def sample_wr_def sample_sge_def sample_mr_def

section \<open>Posting that does not return\<close>

lemma init_sq_ptr_cases:
  "fst (bxroce_init_sq_ptr E q s) = q \<or>
   fst (bxroce_init_sq_ptr E q s) = q\<lparr>usq := (usq q)\<lparr>u_overhead := u_head (usq q), u_head := 0\<rparr>\<rparr>"
  by (simp add: bxroce_init_sq_ptr_def Let_def case_prod_unfold)

definition never_fits :: "env \<Rightarrow> usend_wr \<Rightarrow> uqp \<Rightarrow> bool" where
  "never_fits E wr q \<longleftrightarrow>
     \<not> (utype q = IBV_QPT_UD \<and> uwr_op wr \<noteq> IBV_WR_SEND \<and> uwr_op wr \<noteq> IBV_WR_SEND_WITH_IMM) \<and>
     u_head (usq q) < u_max_wqe_idx (usq q) \<and> (word_of_nat (length (usg_list wr)) :: u32) \<le> u_max_sges (usq q) \<and>
     bxroce_sqhwq_free_cnt (usq q) \<le> word_of_nat (length (usg_list wr)) \<and>
     ((\<forall>q s. fst (bxroce_init_sq_ptr E q s) = q) \<or> u_max_wqe_idx (usq q) \<le> word_of_nat (length (usg_list wr)))"

lemma never_fits_init:
  assumes "never_fits E wr q"
  shows "never_fits E wr (fst (bxroce_init_sq_ptr E q s))"
proof (cases "fst (bxroce_init_sq_ptr E q s) = q")
  case True
  then show ?thesis using assms by simp
next
  case False
  then have 2: "fst (bxroce_init_sq_ptr E q s) = q\<lparr>usq := (usq q)\<lparr>u_overhead := u_head (usq q), u_head := 0\<rparr>\<rparr>"
    using init_sq_ptr_cases by blast
  have "0 < u_max_wqe_idx (usq q)" using assms word_gt_0 by (force simp: never_fits_def)
  then show ?thesis using 2 False assms by (auto simp: never_fits_def bxroce_sqhwq_free_cnt_def)
qed

lemma post_loop_spins:
  assumes "post_send_loop_u E X ms wrs q s = Some r"
  shows "wrs = wr # rest \<longrightarrow> \<not> never_fits E wr q"
proof -
  let ?P = "\<lambda>E' X' ms' wrs q s r. E' = E \<longrightarrow> wrs = wr # rest \<longrightarrow> \<not> never_fits E wr q"
  have "?P E X ms wrs q s r"
  proof (rule post_send_loop_u.raw_induct [where P = ?P, OF _ assms])
    fix loop E' X' ms' wrs q s r
    assume ih: "\<And>E' X' ms' wrs q s r. loop E' X' ms' wrs q s = Some r \<Longrightarrow> ?P E' X' ms' wrs q s r"
      and body: "(case wrs of [] \<Rightarrow> Some (0, None, q, s)
      | wr # rest \<Rightarrow>
        if utype q = IBV_QPT_UD \<and> uwr_op wr \<noteq> IBV_WR_SEND \<and> uwr_op wr \<noteq> IBV_WR_SEND_WITH_IMM
        then Some (EINVAL, Some wr, q, s)
        else let free_cnt = bxroce_sqhwq_free_cnt (usq q);
                 num_sge = word_of_nat (length (usg_list wr)) in
        if free_cnt = 0 \<or> num_sge > u_max_sges (usq q) then Some (ENOMEM, Some wr, q, s)
        else if free_cnt \<le> num_sge
        then (case bxroce_init_sq_ptr E' q s of (q, s) \<Rightarrow> loop E' X' ms' wrs q s)
        else if bxroce_check_foe_u (length (usg_list wr)) free_cnt \<noteq> 0
        then Some (bxroce_check_foe_u (length (usg_list wr)) free_cnt, None, q, s)
        else (case build_wr_u E' X' ms' wr q s of None \<Rightarrow> None
          | Some (status, q, s) \<Rightarrow>
            if status \<noteq> 0 then Some (status, Some wr, q, s)
            else loop E' X' ms' rest q (bxroce_ring_sq_hw_u q wr s))) = Some r"
    show "?P E' X' ms' wrs q s r"
    proof (intro impI notI)
      assume eq: "E' = E" "wrs = wr # rest" and nf: "never_fits E wr q"
      have nz: "bxroce_sqhwq_free_cnt (usq q) \<noteq> 0"
        using nf by (auto simp: never_fits_def bxroce_sqhwq_free_cnt_def)
      have "loop E X' ms' (wr # rest) (fst (bxroce_init_sq_ptr E q s)) (snd (bxroce_init_sq_ptr E q s)) = Some r"
      proof -
        have "\<not> (utype q = IBV_QPT_UD \<and> uwr_op wr \<noteq> IBV_WR_SEND \<and> uwr_op wr \<noteq> IBV_WR_SEND_WITH_IMM)"
          "\<not> (bxroce_sqhwq_free_cnt (usq q) = 0 \<or> (word_of_nat (length (usg_list wr)) :: u32) > u_max_sges (usq q))"
          "bxroce_sqhwq_free_cnt (usq q) \<le> word_of_nat (length (usg_list wr))"
          using nf nz by (simp_all add: never_fits_def not_less)
        then show ?thesis using body unfolding eq
          by (simp only: list.case Let_def if_False if_True case_prod_unfold)
      qed
      from ih [OF this] show False using never_fits_init [OF nf] by simp
    qed
  qed
  then show ?thesis by simp
qed

text \<open>
  C32. A request that does not fit behind the head is tried again until it does, with the lock held: it
  never returns when the card does not catch up, and even with an idle card when the request has as
  many entries as the queue.
\<close>

theorem post_send_never_returns:
  assumes "ustate q = BXROCE_QPS_RTS" and "utype q \<noteq> IBV_QPT_UD"
    and "u_head (usq q) < u_max_wqe_idx (usq q)"
    and "u_max_wqe_idx (usq q) - u_head (usq q) \<le> word_of_nat (length (usg_list wr))"
    and "word_of_nat (length (usg_list wr)) \<le> u_max_sges (usq q)"
    and "(\<forall>q s. fst (bxroce_init_sq_ptr E q s) = q) \<or> u_max_wqe_idx (usq q) \<le> word_of_nat (length (usg_list wr))"
  shows "bxroce_post_send_u E X ms (wr # wrs) q s = None"
proof -
  have "never_fits E wr q" using assms by (auto simp: never_fits_def bxroce_sqhwq_free_cnt_def)
  then have "post_send_loop_u E X ms (wr # wrs) q (mutex_lock Q_lock s) = None"
    using post_loop_spins [of E X ms "wr # wrs" q "mutex_lock Q_lock s"] by (metis not_Some_eq)
  then show ?thesis using assms(1) by (simp add: bxroce_post_send_u_def)
qed

theorem post_send_never_returns_witness:
  "bxroce_post_send_u lib_env no_server [] [sample_wr IBV_WR_SEND (replicate 7 sample_sge)] sample_uqp empty_kern = None"
  by (rule post_send_never_returns) (simp_all add: lib_samples)

section \<open>What posting a send leaves\<close>

lemma localaddr_opcode [simp]: "localaddr (bxroce_set_wqe_opcode_u w t oc) = localaddr w"
  by (simp add: bxroce_set_wqe_opcode_u_def Let_def)

lemma localaddr_dest [simp]:
  "localaddr (set_wqe_dmac_u mac w) = localaddr w" "localaddr (set_destqp_bits d w) = localaddr w"
  by (simp_all add: set_wqe_dmac_u_def set_destqp_bits_def Let_def)

lemma build_opcode_send:
  assumes "utype q = IBV_QPT_RC \<or> utype q = IBV_QPT_UC" and "uwr_op wr = IBV_WR_SEND \<or> uwr_op wr = IBV_WR_SEND_WITH_IMM"
  shows "\<exists>t. bxroce_build_wqe_opcode_u q w wr = (0, bxroce_set_wqe_opcode_u w t SEND_WITH_IMM)"
proof -
  have "opcode_of (uwr_op wr) = Some SEND_WITH_IMM" using assms(2) by (auto simp: opcode_of_def)
  moreover have "transport_of (utype q) = Some RC \<or> transport_of (utype q) = Some UC"
    using assms(1) by (auto simp: transport_of_def)
  ultimately show ?thesis by (auto simp: bxroce_build_wqe_opcode_u_def)
qed

lemma prepare_send_ok:
  assumes "utype q = IBV_QPT_RC \<or> utype q = IBV_QPT_UC" and "uwr_op wr = IBV_WR_SEND \<or> uwr_op wr = IBV_WR_SEND_WITH_IMM"
    and "unat (u_head (usq q)) < length (uwr_tbl q)"
  shows "\<exists>w'. bxroce_prepare_send_wqe_u q w wr = Some (0, q\<lparr>uwr_tbl := (uwr_tbl q)[unat (u_head (usq q)) :=
      (uwr_id wr, if send_flag_signaled wr \<or> usignaled q then 1 else 0)]\<rparr>, w') \<and> localaddr w' = localaddr w"
proof -
  obtain t where t: "bxroce_build_wqe_opcode_u q (w\<lparr>wqe_qkey := uqkey q\<rparr>) wr
      = (0, bxroce_set_wqe_opcode_u (w\<lparr>wqe_qkey := uqkey q\<rparr>) t SEND_WITH_IMM)"
    using build_opcode_send [OF assms(1,2)] by blast
  have ud: "utype q \<noteq> IBV_QPT_UD" using assms(1) by auto
  show ?thesis
    unfolding bxroce_prepare_send_wqe_u_def if_not_P [OF ud] t
    using assms(3) by (simp add: note_wr_id_u_def)
qed

text \<open>What the card must find in the entry of a scatter element.\<close>

definition entry_ok :: "mr_sginfo list \<Rightarrow> sge \<Rightarrow> wqe \<Rightarrow> bool" where
  "entry_ok ms g w \<longleftrightarrow> sge_localaddr ms (sge_addr g) 0 = Some (localaddr w) \<and> dmalen w = sge_length g \<and>
     wqe_lkey w = sge_lkey g"

definition region_tables :: "mr_sginfo list \<Rightarrow> bool" where
  "region_tables ms \<longleftrightarrow> (\<forall>m\<in>set ms. mr_sginfo m \<noteq> [])"

lemma sge_localaddr_Some: "region_tables ms \<Longrightarrow> \<exists>a. sge_localaddr ms b v = Some a"
  by (force simp: sge_localaddr_def region_tables_def find_Some_iff split: option.split list.split)

lemma unat_add_small: "unat (h :: u32) + n < 2 ^ 32 \<Longrightarrow> unat (h + word_of_nat n) = unat h + n"
  by (simp add: unat_word_ariths unsigned_of_nat take_bit_nat_eq_self)

lemma inc_head_small:
  assumes "unat (u_head h) + 1 < unat (u_max_cnt h)"
  shows "bxroce_hwq_inc_head h = Some (h\<lparr>u_head := u_head h + 1\<rparr>)"
proof -
  have b: "unat (u_head h) + 1 < 2 ^ 32" using assms unat_u32_less [of "u_max_cnt h"] by linarith
  have u: "unat (u_head h + 1) = unat (u_head h) + 1" using unat_add_small [of "u_head h" 1] b by simp
  have "u_max_cnt h \<noteq> 0" using assms by auto
  moreover have "(u_head h + 1) mod u_max_cnt h = u_head h + 1"
    using assms u by (simp add: word_arith_nat_mod)
  ultimately show ?thesis by (simp add: bxroce_hwq_inc_head_def)
qed

text \<open>The queue pair after \<open>n\<close> entries have been written.\<close>

definition moved :: "uqp \<Rightarrow> nat \<Rightarrow> wqe list \<Rightarrow> (u64 \<times> u8) list \<Rightarrow> uqp" where
  "moved q n mem tbl =
     q\<lparr>usq := (usq q)\<lparr>u_head := u_head (usq q) + word_of_nat n\<rparr>, usq_mem := mem, uwr_tbl := tbl\<rparr>"

definition wr_mark :: "uqp \<Rightarrow> usend_wr \<Rightarrow> u64 \<times> u8" where
  "wr_mark q wr = (uwr_id wr, if send_flag_signaled wr \<or> usignaled q then 1 else 0)"

definition room_for :: "nat \<Rightarrow> uqp \<Rightarrow> bool" where
  "room_for n q \<longleftrightarrow> unat (u_head (usq q)) + n < unat (u_max_cnt (usq q)) \<and>
     unat (u_max_cnt (usq q)) \<le> length (usq_mem q) \<and> unat (u_max_cnt (usq q)) \<le> length (uwr_tbl q)"

lemma room_head: "room_for (Suc n) q \<Longrightarrow> unat (u_head (usq q) + 1) = Suc (unat (u_head (usq q)))"
  using unat_add_small [of "u_head (usq q)" 1] unat_u32_less [of "u_max_cnt (usq q)"]
  by (simp add: room_for_def)

lemma update_order:
  "q\<lparr>uwr_tbl := t, usq_mem := m, usq := h\<rparr> = q\<lparr>usq := h, usq_mem := m, uwr_tbl := t\<rparr>"
  by (cases q) simp

lemma sges_step:
  assumes "utype q = IBV_QPT_RC \<or> utype q = IBV_QPT_UC" and "uwr_op wr = IBV_WR_SEND \<or> uwr_op wr = IBV_WR_SEND_WITH_IMM"
    and "region_tables ms" and "room_for (Suc n) q" and "h = unat (u_head (usq q))"
  shows "\<exists>w. entry_ok ms g w \<and>
    sges_loop_u bxroce_prepare_send_wqe_u ms wr False (g # gs) h q =
    sges_loop_u bxroce_prepare_send_wqe_u ms wr False gs (Suc h)
      (moved q 1 ((usq_mem q)[h := w]) ((uwr_tbl q)[h := wr_mark q wr]))"
proof -
  obtain a where a: "sge_localaddr ms (sge_addr g) 0 = Some a" using sge_localaddr_Some [OF assms(3)] by blast
  have h: "h < length (usq_mem q)" "unat (u_head (usq q)) < length (uwr_tbl q)"
    using assms(4,5) by (simp_all add: room_for_def)
  obtain w where w: "bxroce_prepare_send_wqe_u q (zero_wqe\<lparr>localaddr := a\<rparr>) wr
      = Some (0, q\<lparr>uwr_tbl := (uwr_tbl q)[h := wr_mark q wr]\<rparr>, w)" "localaddr w = a"
    using prepare_send_ok [OF assms(1,2) h(2), of "zero_wqe\<lparr>localaddr := a\<rparr>"] assms(5)
    by (auto simp: wr_mark_def)
  have inc: "bxroce_hwq_inc_head (usq q) = Some ((usq q)\<lparr>u_head := u_head (usq q) + 1\<rparr>)"
    by (rule inc_head_small) (use assms(4) in \<open>simp add: room_for_def\<close>)
  have z: "localaddr zero_wqe = 0" by (simp add: zero_wqe_def)
  let ?w = "w\<lparr>wqe_lkey := sge_lkey g, dmalen := sge_length g\<rparr>"
  have "entry_ok ms g ?w" using a w(2) by (simp add: entry_ok_def)
  moreover have "sges_loop_u bxroce_prepare_send_wqe_u ms wr False (g # gs) h q =
    sges_loop_u bxroce_prepare_send_wqe_u ms wr False gs (Suc h)
      (moved q 1 ((usq_mem q)[h := ?w]) ((uwr_tbl q)[h := wr_mark q wr]))"
    using h(1) a w(1) inc room_head [OF assms(4)] assms(5)
    by (simp add: z put_wqe_u_def advance_head_u_def moved_def update_order)
  ultimately show ?thesis by blast
qed

lemma moved_again: "moved (moved q (Suc 0) mem tbl) n mem' tbl' = moved q (Suc n) mem' tbl'"
  by (simp add: moved_def add.assoc)

lemma sges_loop_send:
  assumes "utype q = IBV_QPT_RC \<or> utype q = IBV_QPT_UC" and "uwr_op wr = IBV_WR_SEND \<or> uwr_op wr = IBV_WR_SEND_WITH_IMM"
    and "region_tables ms" and "room_for (length gs) q" and "h = unat (u_head (usq q))"
  shows "\<exists>mem tbl. sges_loop_u bxroce_prepare_send_wqe_u ms wr False gs h q
      = Some (0, h + length gs, moved q (length gs) mem tbl) \<and>
    length mem = length (usq_mem q) \<and> length tbl = length (uwr_tbl q) \<and>
    (\<forall>j<length gs. entry_ok ms (gs ! j) (mem ! (h + j)) \<and> tbl ! (h + j) = wr_mark q wr) \<and>
    (\<forall>k. k < h \<or> h + length gs \<le> k \<longrightarrow> mem ! k = usq_mem q ! k \<and> tbl ! k = uwr_tbl q ! k)"
  using assms
proof (induction gs arbitrary: q h)
  case Nil
  have "moved q 0 (usq_mem q) (uwr_tbl q) = q" by (simp add: moved_def)
  then show ?case
    by (intro exI [of _ "usq_mem q"] exI [of _ "uwr_tbl q"]) simp
next
  case (Cons g gs)
  have rm: "room_for (Suc (length gs)) q" using Cons.prems(4) by simp
  obtain w where w: "entry_ok ms g w" and st:
    "sges_loop_u bxroce_prepare_send_wqe_u ms wr False (g # gs) h q =
     sges_loop_u bxroce_prepare_send_wqe_u ms wr False gs (Suc h)
      (moved q 1 ((usq_mem q)[h := w]) ((uwr_tbl q)[h := wr_mark q wr]))"
    using sges_step [OF Cons.prems(1-3) rm Cons.prems(5)] by blast
  let ?q = "moved q 1 ((usq_mem q)[h := w]) ((uwr_tbl q)[h := wr_mark q wr])"
  have hd': "Suc h = unat (u_head (usq ?q))" using room_head [OF rm] Cons.prems(5) by (simp add: moved_def)
  have rm': "room_for (length gs) ?q"
    using rm room_head [OF rm] by (simp add: room_for_def moved_def)
  have ty: "utype ?q = IBV_QPT_RC \<or> utype ?q = IBV_QPT_UC" using Cons.prems(1) by (simp add: moved_def)
  obtain mem tbl where ih: "sges_loop_u bxroce_prepare_send_wqe_u ms wr False gs (Suc h) ?q
      = Some (0, Suc h + length gs, moved ?q (length gs) mem tbl)"
    "length mem = length (usq_mem ?q)" "length tbl = length (uwr_tbl ?q)"
    "\<forall>j<length gs. entry_ok ms (gs ! j) (mem ! (Suc h + j)) \<and> tbl ! (Suc h + j) = wr_mark ?q wr"
    "\<forall>k. k < Suc h \<or> Suc h + length gs \<le> k \<longrightarrow> mem ! k = usq_mem ?q ! k \<and> tbl ! k = uwr_tbl ?q ! k"
    using Cons.IH [OF ty Cons.prems(2,3) rm' hd'] by blast
  have mk: "wr_mark ?q wr = wr_mark q wr" by (simp add: wr_mark_def moved_def)
  have hl: "h < length (usq_mem q)" "h < length (uwr_tbl q)"
    using Cons.prems(4,5) by (simp_all add: room_for_def)
  have at: "mem ! h = w" "tbl ! h = wr_mark q wr" using ih(5) hl by (simp_all add: moved_def)
  show ?case
  proof (intro exI conjI allI impI)
    show "sges_loop_u bxroce_prepare_send_wqe_u ms wr False (g # gs) h q
      = Some (0, h + length (g # gs), moved q (length (g # gs)) mem tbl)"
      unfolding st ih(1) by (simp add: moved_again)
    show "length mem = length (usq_mem q)" "length tbl = length (uwr_tbl q)"
      using ih(2,3) by (simp_all add: moved_def)
  next
    fix j assume j: "j < length (g # gs)"
    show "entry_ok ms ((g # gs) ! j) (mem ! (h + j))" "tbl ! (h + j) = wr_mark q wr"
      using j ih(4) w at mk by (cases j; simp)+
  next
    fix k assume k: "k < h \<or> h + length (g # gs) \<le> k"
    then have k: "k \<noteq> h" "k < Suc h \<or> Suc h + length gs \<le> k" by auto
    show "mem ! k = usq_mem q ! k" "tbl ! k = uwr_tbl q ! k"
      using ih(5) [rule_format, OF k(2)] k(1) by (simp_all add: moved_def)
  qed
qed

text \<open>A send that fits.\<close>

lemma post_send_fits:
  assumes "ustate q = BXROCE_QPS_RTS" and "utype q = IBV_QPT_RC \<or> utype q = IBV_QPT_UC"
    and "uwr_op wr = IBV_WR_SEND" and "\<not> send_flag_inline wr" and "region_tables ms"
    and "usg_list wr \<noteq> []" and "word_of_nat (length (usg_list wr)) \<le> u_max_sges (usq q)"
    and "u_max_wqe_idx (usq q) = u_max_cnt (usq q) - 1" and "room_for (Suc (length (usg_list wr))) q"
    and "h = unat (u_head (usq q))"
  shows "\<exists>mem tbl. let q' = moved q (length (usg_list wr)) mem tbl in
    bxroce_post_send_u E X ms [wr] q s =
      Some (0, None, q', mutex_unlock Q_lock (bxroce_ring_sq_hw_u q' wr (mutex_lock Q_lock s))) \<and>
    length mem = length (usq_mem q) \<and> length tbl = length (uwr_tbl q) \<and>
    (\<forall>j<length (usg_list wr). entry_ok ms (usg_list wr ! j) (mem ! (h + j)) \<and> tbl ! (h + j) = wr_mark q wr) \<and>
    (\<forall>k. k < h \<or> h + length (usg_list wr) \<le> k \<longrightarrow> mem ! k = usq_mem q ! k \<and> tbl ! k = uwr_tbl q ! k)"
proof -
  let ?n = "length (usg_list wr)"
  have small: "?n < 2 ^ 32" using assms(9) unat_u32_less [of "u_max_cnt (usq q)"] by (simp add: room_for_def)
  have un: "unat (word_of_nat ?n :: u32) = ?n" using small by simp
  have "unat (u_max_wqe_idx (usq q)) = unat (u_max_cnt (usq q)) - 1"
    using assms(8,9) by (simp add: unat_sub_if' room_for_def)
  moreover have "Suc (unat (u_head (usq q)) + ?n) < unat (u_max_cnt (usq q))"
    using assms(9) by (simp add: room_for_def)
  ultimately have "unat (u_head (usq q)) \<le> unat (u_max_wqe_idx (usq q))" and
    mx: "unat (u_max_wqe_idx (usq q)) - unat (u_head (usq q)) > ?n" by linarith+
  then have "unat (bxroce_sqhwq_free_cnt (usq q)) > ?n"
    using unat_sub [of "u_head (usq q)" "u_max_wqe_idx (usq q)"]
    by (simp add: bxroce_sqhwq_free_cnt_def word_le_nat_alt)
  then have fit: "word_of_nat ?n < bxroce_sqhwq_free_cnt (usq q)"
    using un by (simp add: word_less_nat_alt)
  then have nz: "bxroce_sqhwq_free_cnt (usq q) \<noteq> 0" by auto
  have chk: "bxroce_check_foe_u ?n (bxroce_sqhwq_free_cnt (usq q)) = 0"
    using fit by (simp add: bxroce_check_foe_u_def)
  have rm: "room_for ?n q" using assms(9) by (simp add: room_for_def)
  have op: "uwr_op wr = IBV_WR_SEND \<or> uwr_op wr = IBV_WR_SEND_WITH_IMM" using assms(3) by simp
  obtain mem tbl where L: "sges_loop_u bxroce_prepare_send_wqe_u ms wr False (usg_list wr) h q
      = Some (0, h + ?n, moved q ?n mem tbl)" "length mem = length (usq_mem q)" "length tbl = length (uwr_tbl q)"
    "\<forall>j<?n. entry_ok ms (usg_list wr ! j) (mem ! (h + j)) \<and> tbl ! (h + j) = wr_mark q wr"
    "\<forall>k. k < h \<or> h + ?n \<le> k \<longrightarrow> mem ! k = usq_mem q ! k \<and> tbl ! k = uwr_tbl q ! k"
    using sges_loop_send [OF assms(2) op assms(5) rm assms(10)] by blast
  have b: "build_wr_u E X ms wr q s = Some (0, moved q ?n mem tbl, s)" for s
    using L(1) assms(3,4,6,10)
    by (simp add: build_wr_u_def bxroce_build_send_u_def bxroce_build_inline_sges_u_def bxroce_build_sges_u_def
        build_entries_u_def bxroce_hwq_head_u_def)
  have ud: "utype q \<noteq> IBV_QPT_UD" using assms(2) by auto
  have "post_send_loop_u E X ms [wr] q s
      = Some (0, None, moved q ?n mem tbl, bxroce_ring_sq_hw_u (moved q ?n mem tbl) wr s)" for s
    using ud nz leD [OF assms(7)] leD [OF fit [THEN less_imp_le]] not_le [THEN iffD2, OF fit] chk b
    by (subst post_send_loop_u.simps) (simp add: Let_def post_send_loop_u.simps [of E X ms "[]"])
  then show ?thesis using L(2-5) assms(1) by (auto simp: bxroce_post_send_u_def Let_def)
qed

text \<open>
  C12. A send that fits writes one entry for each scatter element behind the head, with the physical
  address its region gives, notes its identifier for each of them, leaves every other entry alone,
  moves the head behind them and rings the card's doorbell once, with the locks given back.
\<close>

theorem send_posted:
  assumes "ustate q = BXROCE_QPS_RTS" and "utype q = IBV_QPT_RC \<or> utype q = IBV_QPT_UC"
    and "uwr_op wr = IBV_WR_SEND" and "\<not> send_flag_inline wr" and "region_tables ms"
    and "usg_list wr \<noteq> []" and "word_of_nat (length (usg_list wr)) \<le> u_max_sges (usq q)"
    and "u_max_wqe_idx (usq q) = u_max_cnt (usq q) - 1" and "room_for (Suc (length (usg_list wr))) q"
    and "h = unat (u_head (usq q))"
  shows "\<exists>mem tbl. let q' = moved q (length (usg_list wr)) mem tbl in
    bxroce_post_send_u E X ms [wr] q s =
      Some (0, None, q', mutex_unlock Q_lock (bxroce_ring_sq_hw_u q' wr (mutex_lock Q_lock s))) \<and>
    length mem = length (usq_mem q) \<and>
    (\<forall>j<length (usg_list wr). entry_ok ms (usg_list wr ! j) (mem ! (h + j)) \<and> tbl ! (h + j) = wr_mark q wr) \<and>
    (\<forall>k. k < h \<or> h + length (usg_list wr) \<le> k \<longrightarrow> mem ! k = usq_mem q ! k \<and> tbl ! k = uwr_tbl q ! k)"
  using post_send_fits [OF assms, of E X s] by (auto simp: Let_def)

theorem send_posted_witness:
  "\<exists>q' s'. bxroce_post_send_u lib_env no_server [sample_mr] [sample_wr IBV_WR_SEND [sample_sge, sample_sge]] sample_uqp empty_kern =
     Some (0, None, q', s') \<and> u_head (usq q') = 2 \<and> localaddr (usq_mem q' ! 1) = 0x90010 \<and> uwr_tbl q' ! 1 = (42, 1)"
proof -
  have a: "sge_localaddr [sample_mr] (sge_addr sample_sge) 0 = Some 0x90010"
    by (simp add: sge_localaddr_def in_region_def lib_samples)
  let ?wr = "sample_wr IBV_WR_SEND [sample_sge, sample_sge]"
  have n: "length [sample_sge, sample_sge] = 2" and g: "usg_list ?wr = [sample_sge, sample_sge]" by (simp_all add: sample_wr_def)
  have "region_tables [sample_mr]" "ustate sample_uqp = BXROCE_QPS_RTS" "utype sample_uqp = IBV_QPT_RC \<or> utype sample_uqp = IBV_QPT_UC"
    "uwr_op ?wr = IBV_WR_SEND" "\<not> send_flag_inline ?wr" "usg_list ?wr \<noteq> []"
    "word_of_nat (length (usg_list ?wr)) \<le> u_max_sges (usq sample_uqp)"
    "u_max_wqe_idx (usq sample_uqp) = u_max_cnt (usq sample_uqp) - 1" "room_for (Suc (length (usg_list ?wr))) sample_uqp"
    "0 = unat (u_head (usq sample_uqp))"
    by (simp_all add: region_tables_def room_for_def lib_samples)
  from send_posted [OF this(2-5) this(1) this(6-), of lib_env no_server empty_kern]
  obtain mem tbl where *: "bxroce_post_send_u lib_env no_server [sample_mr] [?wr] sample_uqp empty_kern =
      Some (0, None, moved sample_uqp 2 mem tbl,
        mutex_unlock Q_lock (bxroce_ring_sq_hw_u (moved sample_uqp 2 mem tbl) ?wr (mutex_lock Q_lock empty_kern)))"
    "\<forall>j<2. entry_ok [sample_mr] ([sample_sge, sample_sge] ! j) (mem ! (0 + j)) \<and> tbl ! (0 + j) = wr_mark sample_uqp ?wr"
    unfolding Let_def g n by (elim exE conjE) (rule that; assumption)
  have "entry_ok [sample_mr] sample_sge (mem ! 1)" "tbl ! 1 = (42, 1)"
    using *(2) [rule_format, of 1] by (simp_all add: wr_mark_def lib_samples)
  moreover have "u_head (usq (moved sample_uqp 2 mem tbl)) = 2" by (simp add: moved_def lib_samples)
  ultimately show ?thesis using *(1) a by (auto simp: entry_ok_def moved_def)
qed

section \<open>A queue that stays full\<close>

text \<open>
  C33. A send with immediate data and no scatter element that takes the last free entry succeeds, and
  from then on every request is refused for want of memory, however far the card gets: the free count is
  tested before the pointers are started again.
\<close>

theorem queue_refused_for_ever:
  assumes "ustate q = BXROCE_QPS_RTS" and "utype q = IBV_QPT_RC \<or> utype q = IBV_QPT_UC"
    and "uwr_op wr = IBV_WR_SEND_WITH_IMM" and "usg_list wr = []" and "\<not> send_flag_inline wr"
    and "u_max_wqe_idx (usq q) = u_head (usq q) + 1" and "room_for 1 q"
  shows "\<exists>q' s'. bxroce_post_send_u E X ms [wr] q s = Some (0, None, q', s') \<and>
    (\<forall>E' X' ms' wr' wrs s''. bxroce_post_send_u E' X' ms' (wr' # wrs) q' s'' =
       Some (ENOMEM, Some wr', q', mutex_unlock Q_lock (mutex_lock Q_lock s'')))"
proof -
  let ?h = "unat (u_head (usq q))"
  have op: "uwr_op wr = IBV_WR_SEND \<or> uwr_op wr = IBV_WR_SEND_WITH_IMM" using assms(3) by simp
  have ud: "utype q \<noteq> IBV_QPT_UD" using assms(2) by auto
  have hl: "?h < length (usq_mem q)" "?h < length (uwr_tbl q)" using assms(7) by (simp_all add: room_for_def)
  let ?q = "q\<lparr>usq_mem := (usq_mem q)[?h := zero_wqe\<lparr>immdt := ntohl (uimm_data wr)\<rparr>]\<rparr>"
  obtain w where w: "bxroce_prepare_send_wqe_u ?q (zero_wqe\<lparr>immdt := ntohl (uimm_data wr)\<rparr>) wr
      = Some (0, ?q\<lparr>uwr_tbl := (uwr_tbl q)[?h := wr_mark q wr]\<rparr>, w)"
    using prepare_send_ok [of ?q wr "zero_wqe\<lparr>immdt := ntohl (uimm_data wr)\<rparr>"] assms(2) op hl(2)
    by (auto simp: wr_mark_def)
  have inc: "bxroce_hwq_inc_head (usq q) = Some ((usq q)\<lparr>u_head := u_head (usq q) + 1\<rparr>)"
    by (rule inc_head_small) (use assms(7) in \<open>simp add: room_for_def\<close>)
  let ?q' = "moved q 1 ((usq_mem q)[?h := w]) ((uwr_tbl q)[?h := wr_mark q wr])"
  have b: "build_wr_u E X ms wr q s = Some (0, ?q', s)" for s
    using assms(3,4,5) w hl(1) inc
    by (simp add: build_wr_u_def bxroce_build_send_u_def bxroce_build_inline_sges_u_def bxroce_build_sges_u_def
        build_entries_u_def bxroce_hwq_head_u_def put_wqe_u_def advance_head_u_def moved_def update_order Let_def)
  have free: "bxroce_sqhwq_free_cnt (usq q) = 1" using assms(6) by (simp add: bxroce_sqhwq_free_cnt_def)
  have "post_send_loop_u E X ms [wr] q s = Some (0, None, ?q', bxroce_ring_sq_hw_u ?q' wr s)" for s
    using ud b assms(4)
    by (subst post_send_loop_u.simps)
       (simp add: Let_def free bxroce_check_foe_u_def post_send_loop_u.simps [of E X ms "[]"])
  then have first: "bxroce_post_send_u E X ms [wr] q s =
      Some (0, None, ?q', mutex_unlock Q_lock (bxroce_ring_sq_hw_u ?q' wr (mutex_lock Q_lock s)))"
    using assms(1) by (simp add: bxroce_post_send_u_def)
  have "bxroce_sqhwq_free_cnt (usq ?q') = 0" "utype ?q' \<noteq> IBV_QPT_UD" "ustate ?q' = BXROCE_QPS_RTS"
    using assms(1,6) ud by (simp_all add: bxroce_sqhwq_free_cnt_def moved_def)
  then have "bxroce_post_send_u E' X' ms' (wr' # wrs) ?q' s'' =
      Some (ENOMEM, Some wr', ?q', mutex_unlock Q_lock (mutex_lock Q_lock s''))" for E' X' ms' wr' wrs s''
    unfolding bxroce_post_send_u_def by (subst post_send_loop_u.simps) (simp add: Let_def)
  with first show ?thesis by blast
qed

theorem queue_refused_for_ever_witness:
  "\<exists>q' s'. bxroce_post_send_u lib_env no_server [] [sample_wr IBV_WR_SEND_WITH_IMM []]
       (sample_uqp\<lparr>usq := sample_queue\<lparr>u_head := 6\<rparr>\<rparr>) empty_kern = Some (0, None, q', s') \<and>
     bxroce_post_send_u lib_env no_server [] [sample_wr IBV_WR_SEND []] q' s'
       = Some (ENOMEM, Some (sample_wr IBV_WR_SEND []), q', mutex_unlock Q_lock (mutex_lock Q_lock s'))"
  using queue_refused_for_ever [of "sample_uqp\<lparr>usq := sample_queue\<lparr>u_head := 6\<rparr>\<rparr>" "sample_wr IBV_WR_SEND_WITH_IMM []"
      lib_env no_server "[]" empty_kern]
  by (fastforce simp: room_for_def sample_uqp_def sample_queue_def sample_wr_def)

section \<open>Registration\<close>

lemma fill_sginfo_overflow:
  "gs \<noteq> [] \<Longrightarrow> 2 \<le> length arr \<Longrightarrow> i + length gs = length arr \<Longrightarrow> fill_sginfo i gs arr = None"
proof (induction gs arbitrary: i arr)
  case (Cons g gs)
  show ?case
  proof (cases "gs = []")
    case True
    then have "i = length arr - 1" using Cons.prems by simp
    then have "\<not> i * 16 < length arr" using Cons.prems(2) by simp
    then show ?thesis by simp
  next
    case False
    then show ?thesis using Cons.IH [of "arr[i * 16 := g]" "Suc i"] Cons.prems by simp
  qed
qed simp

lemma kalloc_ok: "alloc_ok E (trace s) \<Longrightarrow> \<exists>i s'. kalloc E s = (Some i, s')"
  by (simp add: kalloc_def)

lemma reg_mrinfo_ok:
  assumes "\<forall>t. alloc_ok E t" and "\<forall>t cmd a key. X t cmd a key \<noteq> Read_error"
  shows "\<exists>s'. bxroce_reg_mrinfo E X cmd a key s = Some (0, s')"
proof -
  obtain i s1 where "kalloc E s = (Some i, s1)" using kalloc_ok assms(1) by blast
  then show ?thesis
    using assms(2) by (simp add: bxroce_reg_mrinfo_def malloc_used_def ask_server_def Let_def)
qed

text \<open>
  C34. With memory and an exchange server that answers, registering a region for which the kernel reports
  one scatter entry lists it with its address and length (cut to 32 bits); with two or more entries the
  copy of the table steps by the size of an entry and leaves the array.
\<close>

theorem registration_by_entries:
  assumes "\<forall>t. alloc_ok E t" and "\<forall>t cmd a key. X t cmd a key \<noteq> Read_error"
  shows "(length sgs = 1 \<longrightarrow> (\<exists>vmr m s'.
      bxroce_reg_mr_u E X (Reg_ok key off sgs) destroyed len va ms s = Some (Some vmr, ms @ [m], s') \<and>
      mr_vmr m = vmr \<and> mr_iova m = va \<and> mr_length m = ucast len \<and> mr_offset m = off \<and> mr_sginfo m = sgs)) \<and>
    (2 \<le> length sgs \<longrightarrow> bxroce_reg_mr_u E X (Reg_ok key off sgs) destroyed len va ms s = None)"
proof -
  obtain v s1 where 1: "kalloc E s = (Some v, s1)" using kalloc_ok assms(1) by blast
  obtain mi s2 where 2: "kalloc E s1 = (Some mi, s2)" using kalloc_ok assms(1) by blast
  obtain si s3 where 3: "kalloc E s2 = (Some si, s3)" using kalloc_ok assms(1) by blast
  obtain a s4 where 4: "kalloc E s3 = (Some a, s4)" using kalloc_ok assms(1) by blast
  obtain s5 where 5: "bxroce_reg_mrinfo E X CMD_WRITE va key s4 = Some (0, s5)"
    using reg_mrinfo_ok [OF assms] by blast
  have one: "\<exists>vmr m s'.
      bxroce_reg_mr_u E X (Reg_ok key off sgs) destroyed len va ms s = Some (Some vmr, ms @ [m], s') \<and>
      mr_vmr m = vmr \<and> mr_iova m = va \<and> mr_length m = ucast len \<and> mr_offset m = off \<and> mr_sginfo m = sgs"
    if n: "length sgs = 1"
  proof -
    obtain g where g: "sgs = [g]" using n by (cases sgs) auto
    let ?m = "\<lparr>mr_self = mi, mr_sgobj = si, mr_vmr = v, mr_iova = va, mr_length = ucast len, mr_offset = off,
      mr_sginfo = [g]\<rparr>"
    have "bxroce_reg_mr_u E X (Reg_ok key off sgs) destroyed len va ms s = Some (Some v, ms @ [?m], s5)"
      using 1 2 3 4 5 g by (simp add: bxroce_reg_mr_u_def malloc_used_def)
    then show ?thesis using g by (intro exI [of _ v] exI [of _ ?m] exI [of _ s5]) simp
  qed
  have "bxroce_reg_mr_u E X (Reg_ok key off sgs) destroyed len va ms s = None" if "2 \<le> length sgs"
  proof -
    have "sgs \<noteq> []" using that by auto
    then have "fill_sginfo 0 sgs (replicate (length sgs) (0, 0)) = None"
      using that by (intro fill_sginfo_overflow) simp_all
    then show ?thesis using 1 2 3 4 by (simp add: bxroce_reg_mr_u_def malloc_used_def)
  qed
  with one show ?thesis by blast
qed

theorem registration_by_entries_witness:
  "bxroce_reg_mr_u lib_env (\<lambda>t cmd a key. Closed) (Reg_ok 1 0 [(0x1000, 0x1000), (0x8000, 0x1000)]) 0 0x2000 0x4000 [] empty_kern = None \<and>
   (\<exists>vmr m s'. bxroce_reg_mr_u lib_env (\<lambda>t cmd a key. Closed) (Reg_ok 1 0 [(0x1000, 0x1000)]) 0 0x1000 0x4000 [] empty_kern
      = Some (Some vmr, [] @ [m], s') \<and> mr_sginfo m = [(0x1000, 0x1000)])"
proof -
  have a: "\<forall>t. alloc_ok lib_env t" by (simp add: lib_env_def)
  have b: "\<forall>t cmd a key. (\<lambda>t cmd a key. Closed) t cmd a key \<noteq> Read_error" by simp
  show ?thesis
    using registration_by_entries [where E = lib_env and X = "\<lambda>t cmd a key. Closed" and key = 1 and off = 0
        and destroyed = 0 and len = "0x2000" and va = "0x4000" and ms = "[]" and s = empty_kern
        and sgs = "[(0x1000, 0x1000), (0x8000, 0x1000)]", OF a b]
      registration_by_entries [where E = lib_env and X = "\<lambda>t cmd a key. Closed" and key = 1 and off = 0
        and destroyed = 0 and len = "0x1000" and va = "0x4000" and ms = "[]" and s = empty_kern
        and sgs = "[(0x1000, 0x1000)]", OF a b]
    by fastforce
qed

section \<open>Remote addresses\<close>

lemma prepare_write_ok:
  assumes "utype q = IBV_QPT_RC" and "uwr_op wr = IBV_WR_RDMA_WRITE"
    and "unat (u_head (usq q)) < length (uwr_tbl q)"
  shows "\<exists>w'. bxroce_prepare_write_wqe_u q w wr = Some (0, q\<lparr>uwr_tbl := (uwr_tbl q)[unat (u_head (usq q)) :=
      wr_mark q wr]\<rparr>, w') \<and> localaddr w' = localaddr w \<and> destaddr w' = rdma_addr q \<and> wqe_rkey w' = rdma_rkey wr"
proof -
  have o: "bxroce_build_wqe_opcode_u q w wr = (0, bxroce_set_wqe_opcode_u w RC RDMA_WRITE)"
    using assms(1,2) by (simp add: bxroce_build_wqe_opcode_u_def transport_of_def opcode_of_def)
  show ?thesis
    unfolding bxroce_prepare_write_wqe_u_def o
    using assms(3) by (simp add: note_wr_id_u_def wr_mark_def)
qed

lemma write_one:
  assumes "region_tables ms" and "room_for 1 q" and "utype q = IBV_QPT_RC" and "uwr_op wr = IBV_WR_RDMA_WRITE"
    and "\<not> send_flag_inline wr" and "usg_list wr = [g]" and "h = unat (u_head (usq q))"
  shows "\<exists>w. entry_ok ms g w \<and> destaddr w = rdma_addr q \<and> wqe_rkey w = rdma_rkey wr \<and> h < length (usq_mem q) \<and>
    bxroce_buildwrite_inline_sges_u ms h wr q = Some (0, moved q 1 ((usq_mem q)[h := w]) ((uwr_tbl q)[h := wr_mark q wr]))"
proof -
  obtain a where a: "sge_localaddr ms (sge_addr g) 0 = Some a" using sge_localaddr_Some [OF assms(1)] by blast
  have hl: "h < length (usq_mem q)" "unat (u_head (usq q)) < length (uwr_tbl q)"
    using assms(2,7) by (simp_all add: room_for_def)
  obtain w where w: "bxroce_prepare_write_wqe_u q (zero_wqe\<lparr>localaddr := a\<rparr>) wr
      = Some (0, q\<lparr>uwr_tbl := (uwr_tbl q)[h := wr_mark q wr]\<rparr>, w)" "localaddr w = a" "destaddr w = rdma_addr q"
    "wqe_rkey w = rdma_rkey wr"
    using prepare_write_ok [OF assms(3,4) hl(2), of "zero_wqe\<lparr>localaddr := a\<rparr>"] assms(7) by auto
  have inc: "bxroce_hwq_inc_head (usq q) = Some ((usq q)\<lparr>u_head := u_head (usq q) + 1\<rparr>)"
    by (rule inc_head_small) (use assms(2) in \<open>simp add: room_for_def\<close>)
  have z: "localaddr zero_wqe = 0" by (simp add: zero_wqe_def)
  let ?w = "w\<lparr>wqe_lkey := sge_lkey g, dmalen := sge_length g\<rparr>"
  have "sges_loop_u bxroce_prepare_write_wqe_u ms wr False [g] h q = Some (0, unat (u_head (usq q) + 1),
      moved q 1 ((usq_mem q)[h := ?w]) ((uwr_tbl q)[h := wr_mark q wr]))"
    using hl a w(1) inc by (simp add: z put_wqe_u_def advance_head_u_def moved_def update_order)
  then have "bxroce_buildwrite_inline_sges_u ms h wr q
      = Some (0, moved q 1 ((usq_mem q)[h := ?w]) ((uwr_tbl q)[h := wr_mark q wr]))"
    using assms(4-6) by (simp add: bxroce_buildwrite_inline_sges_u_def bxroce_buildwrite_sges_u_def build_entries_u_def)
  moreover have "entry_ok ms g ?w" using a w(2) by (simp add: entry_ok_def)
  ultimately show ?thesis using w(3,4) hl(1) by (intro exI [of _ ?w]) simp
qed

text \<open>
  What the library relies on: a service that answers a lookup with an address, the one asked for when
  it knows no other.
\<close>

locale remote_directory =
  fixes X :: server
    and look :: "u32 \<Rightarrow> u64 \<Rightarrow> u64"
  assumes answer: "\<exists>n. X t CMD_READ a key = Sg_info (look key a) n"
begin

lemma exchange_result:
  assumes "\<forall>t. alloc_ok E t"
  shows "\<exists>n s'. bxroce_exchange_dmaaddrinfo E X wr q s =
    (if look (rdma_rkey wr) (rdma_remote_addr wr) = rdma_remote_addr wr then Some (EINVAL, q, s')
     else Some (0, q\<lparr>addrtbl := \<lparr>dmaaddr = look (rdma_rkey wr) (rdma_remote_addr wr), vaddr = rdma_remote_addr wr,
       addr_len = n\<rparr>\<rparr>, s'))"
proof -
  obtain va s1 where 1: "kalloc E s = (Some va, s1)" using kalloc_ok assms by blast
  obtain sg s2 where 2: "kalloc E s1 = (Some sg, s2)" using kalloc_ok assms by blast
  obtain n where "X (trace (emit (Ecall ''socket'' []) s2)) CMD_READ (rdma_remote_addr wr) (rdma_rkey wr)
      = Sg_info (look (rdma_rkey wr) (rdma_remote_addr wr)) n"
    using answer by blast
  then show ?thesis
    using 1 2 by (auto intro: exI [of _ n] simp: bxroce_exchange_dmaaddrinfo_def malloc_used_def ask_server_def Let_def)
qed

lemma write_goes_there:
  assumes "\<forall>t. alloc_ok E t" and "region_tables ms" and "room_for 1 q" and "utype q = IBV_QPT_RC"
    and "uwr_op wr = IBV_WR_RDMA_WRITE" and "\<not> send_flag_inline wr" and "usg_list wr = [g]" and "\<not> addr_known wr q"
    and "h = unat (u_head (usq q))" and "p = look (rdma_rkey wr) (rdma_remote_addr wr)"
  shows "\<exists>q' s'. bxroce_build_write_u E X ms h wr q s = Some (if p = rdma_remote_addr wr then EINVAL else 0, q', s') \<and>
    (p = rdma_remote_addr wr \<longrightarrow> q' = q) \<and>
    (p \<noteq> rdma_remote_addr wr \<longrightarrow> entry_ok ms g (usq_mem q' ! h) \<and> destaddr (usq_mem q' ! h) = p \<and>
       wqe_rkey (usq_mem q' ! h) = rdma_rkey wr \<and> u_head (usq q') = u_head (usq q) + 1)"
proof -
  obtain n s3 where ex: "bxroce_exchange_dmaaddrinfo E X wr q s = (if p = rdma_remote_addr wr then Some (EINVAL, q, s3)
      else Some (0, q\<lparr>addrtbl := \<lparr>dmaaddr = p, vaddr = rdma_remote_addr wr, addr_len = n\<rparr>\<rparr>, s3))"
    using exchange_result [OF assms(1), of wr q s] assms(10) by blast
  show ?thesis
  proof (cases "p = rdma_remote_addr wr")
    case True
    then show ?thesis using assms(8) ex by (simp add: bxroce_build_write_u_def)
  next
    case False
    let ?q = "q\<lparr>addrtbl := \<lparr>dmaaddr = p, vaddr = rdma_remote_addr wr, addr_len = n\<rparr>, rdma_addr := p\<rparr>"
    have r: "room_for 1 ?q" "utype ?q = IBV_QPT_RC" "h = unat (u_head (usq ?q))"
      using assms(3,4,9) by (simp_all add: room_for_def)
    obtain w where w: "entry_ok ms g w" "destaddr w = rdma_addr ?q" "wqe_rkey w = rdma_rkey wr" "h < length (usq_mem ?q)"
      "bxroce_buildwrite_inline_sges_u ms h wr ?q
        = Some (0, moved ?q 1 ((usq_mem ?q)[h := w]) ((uwr_tbl ?q)[h := wr_mark ?q wr]))"
      using write_one [OF assms(2) r(1,2) assms(5-7) r(3)] by blast
    then have "bxroce_build_write_u E X ms h wr q s
        = Some (0, moved ?q 1 ((usq_mem ?q)[h := w]) ((uwr_tbl ?q)[h := wr_mark ?q wr]), s3)"
      using assms(8) ex False by (simp add: bxroce_build_write_u_def)
    then show ?thesis using False w(1-4) by (simp add: moved_def)
  qed
qed

end

text \<open>The exchange server as that service, with a pool that does not change during the call.\<close>

definition server_of :: "xserver \<Rightarrow> server" where
  "server_of st t cmd a key =
     (let g = server_read \<lparr>qv_cmd = cmd, qv_rkey = key, qv_vaddr = a, qv_phyaddr = 0, qv_len = 0\<rparr> st
                \<lparr>sg_phyaddr = 0, sg_size = 0\<rparr>
      in Sg_info (sg_phyaddr g) (ucast (sg_size g)))"

lemma server_of_answers: "\<exists>n. server_of st t cmd a key = Sg_info (dir_lookup key a (directory_of st)) n"
proof -
  have "sg_phyaddr (server_read \<lparr>qv_cmd = cmd, qv_rkey = key, qv_vaddr = a, qv_phyaddr = 0, qv_len = 0\<rparr> st g)
      = dir_lookup key a (directory_of st)" for g
    unfolding directory_of_def find_dir_lookup [symmetric] by (simp add: server_read_def split: option.split)
  then show ?thesis by (simp add: server_of_def Let_def)
qed

interpretation exchange: remote_directory "server_of st" "\<lambda>key a. dir_lookup key a (directory_of st)" for st
  by unfold_locales (rule server_of_answers)

text \<open>
  C13. With the exchange server, an RDMA write of one scatter element to an address the queue pair has not
  cached gets, as its destination, the physical address under which the directory has the remote
  address and key; an address nobody registered is refused.
\<close>

theorem write_finds_remote_region:
  assumes "\<forall>t. alloc_ok E t" and "region_tables ms" and "room_for 1 q" and "utype q = IBV_QPT_RC"
    and "uwr_op wr = IBV_WR_RDMA_WRITE" and "\<not> send_flag_inline wr" and "usg_list wr = [g]" and "\<not> addr_known wr q"
    and "h = unat (u_head (usq q))" and "p = dir_lookup (rdma_rkey wr) (rdma_remote_addr wr) (directory_of st)"
  shows "\<exists>q' s'. bxroce_build_write_u E (server_of st) ms h wr q s
      = Some (if p = rdma_remote_addr wr then EINVAL else 0, q', s') \<and>
    (p = rdma_remote_addr wr \<longrightarrow> q' = q) \<and>
    (p \<noteq> rdma_remote_addr wr \<longrightarrow> entry_ok ms g (usq_mem q' ! h) \<and> destaddr (usq_mem q' ! h) = p \<and>
       wqe_rkey (usq_mem q' ! h) = rdma_rkey wr \<and> u_head (usq q') = u_head (usq q) + 1)"
  using exchange.write_goes_there [OF assms(1-9), of p st s] assms(10) by blast

theorem write_finds_remote_region_witness:
  "\<exists>q' s'. bxroce_build_write_u lib_env (server_of sample_server) [sample_mr] 0 (sample_wr IBV_WR_RDMA_WRITE [sample_sge])
      sample_uqp empty_kern = Some (0, q', s') \<and> destaddr (usq_mem q' ! 0) = 0x10010 \<and> wqe_rkey (usq_mem q' ! 0) = 1"
proof -
  let ?wr = "sample_wr IBV_WR_RDMA_WRITE [sample_sge]"
  have l: "directory_of sample_server = [(1, 0x1000, 0x10000, 0x100), (2, 0x2000, 0x20034, 0x100), (3, 0x3000, 0x30056, 0x100)]"
    by (simp add: directory_of_def listed_def sample_server_def region_of_def numeral_3_eq_3)
  have p: "0x10010 = dir_lookup (rdma_rkey ?wr) (rdma_remote_addr ?wr) (directory_of sample_server)"
    unfolding l by (simp add: sample_wr_def)
  have "\<forall>t. alloc_ok lib_env t" "region_tables [sample_mr]" "room_for 1 sample_uqp"
    "utype sample_uqp = IBV_QPT_RC" "uwr_op ?wr = IBV_WR_RDMA_WRITE" "\<not> send_flag_inline ?wr"
    "usg_list ?wr = [sample_sge]" "\<not> addr_known ?wr sample_uqp" "0 = unat (u_head (usq sample_uqp))"
    by (simp_all add: region_tables_def room_for_def addr_known_def lib_samples)
  note P = write_finds_remote_region [OF this p, of empty_kern]
  have "(0x10010 :: u64) \<noteq> rdma_remote_addr ?wr" and k: "rdma_rkey ?wr = 1" by (simp_all add: sample_wr_def)
  with P show ?thesis by auto
qed

text \<open>
  C35. The address a queue pair caches from one answer serves every later RDMA write to an address from
  the one asked for up to the length of the whole region behind it: with another key, when the region has
  been removed, or beyond its end, the server is not asked and the card is sent there.
\<close>

theorem cached_address_reused:
  assumes "addrtbl q = \<lparr>dmaaddr = p, vaddr = v, addr_len = n\<rparr>" and "v \<le> rdma_remote_addr wr"
    and "rdma_remote_addr wr \<le> v + ucast n" and "region_tables ms" and "room_for 1 q" and "utype q = IBV_QPT_RC"
    and "uwr_op wr = IBV_WR_RDMA_WRITE" and "\<not> send_flag_inline wr" and "usg_list wr = [g]"
    and "h = unat (u_head (usq q))"
  shows "\<exists>q'. bxroce_build_write_u E X ms h wr q s = Some (0, q', s) \<and>
    destaddr (usq_mem q' ! h) = p + scast (ucast (rdma_remote_addr wr - v) :: u32) \<and> addrtbl q' = addrtbl q"
proof -
  let ?d = "p + scast (ucast (rdma_remote_addr wr - v) :: u32)"
  let ?q = "q\<lparr>rdma_addr := ?d\<rparr>"
  have known: "addr_known wr q" "known_addr wr q = ?d"
    using assms(1-3) by (simp_all add: addr_known_def known_addr_def)
  have r: "room_for 1 ?q" "utype ?q = IBV_QPT_RC" "h = unat (u_head (usq ?q))"
    using assms(5,6,10) by (simp_all add: room_for_def)
  obtain w where w: "destaddr w = rdma_addr ?q" "h < length (usq_mem ?q)"
    "bxroce_buildwrite_inline_sges_u ms h wr ?q
      = Some (0, moved ?q 1 ((usq_mem ?q)[h := w]) ((uwr_tbl ?q)[h := wr_mark ?q wr]))"
    using write_one [OF assms(4) r(1,2) assms(7-9) r(3)] by blast
  then have "bxroce_build_write_u E X ms h wr q s
      = Some (0, moved ?q 1 ((usq_mem ?q)[h := w]) ((uwr_tbl ?q)[h := wr_mark ?q wr]), s)"
    using known by (simp add: bxroce_build_write_u_def)
  then show ?thesis using w(1,2) by (simp add: moved_def)
qed

theorem cached_address_reused_witness:
  "\<exists>q'. bxroce_build_write_u lib_env (\<lambda>t cmd a key. Closed) [sample_mr] 0
       ((sample_wr IBV_WR_RDMA_WRITE [sample_sge])\<lparr>rdma_remote_addr := 0x7080, rdma_rkey := 9\<rparr>) sample_uqp empty_kern
     = Some (0, q', empty_kern) \<and> destaddr (usq_mem q' ! 0) = 0x70080"
  using cached_address_reused [of sample_uqp "0x70000" "0x7000" "0x100"
      "(sample_wr IBV_WR_RDMA_WRITE [sample_sge])\<lparr>rdma_remote_addr := 0x7080, rdma_rkey := 9\<rparr>" "[sample_mr]"
      sample_sge 0 lib_env "\<lambda>t cmd a key. Closed" empty_kern]
  by (fastforce simp: room_for_def region_tables_def lib_samples)

end
