(* ===== verification/Ulib_Props.thy ===== *)
theory Ulib_Props
  imports Ulib_Correct
begin

text \<open>
  The user-space provider, continued: polling a completion queue, the states of a queue pair beside
  those the kernel keeps, and the creation and destruction of a queue pair.
\<close>

section \<open>Polling sends\<close>

definition rings_ok :: "ucq \<Rightarrow> bool" where
  "rings_ok c \<longleftrightarrow> length (xmit_ring c) = 256 \<and> length (rx_ring c) = 256 \<and> length (tx_ring c) = 256 \<and>
     xmitrp c < 256 \<and> rxrp c < 256 \<and> txrp c < 256"

lemma mod_256: "(w :: u32) mod 256 < 256"
  by (simp add: word_mod_less_divisor)

lemma rings_ok_rps: "rings_ok c \<Longrightarrow> rps_ok c"
  by (simp add: rings_ok_def rps_ok_def word_less_nat_alt)

lemma rings_ok_round_tx: "rings_ok c \<Longrightarrow> rings_ok (round_tx c)"
  by (simp add: rings_ok_def round_tx_def Let_def mod_256)

lemma round_tx_other [simp]:
  "xmit_ring (round_tx c) = xmit_ring c" "rx_ring (round_tx c) = rx_ring c"
  "xmitrp (round_tx c) = xmitrp c" "rxrp (round_tx c) = rxrp c" "cq_phase (round_tx c) = cq_phase c"
  by (simp_all add: round_tx_def Let_def)

text \<open>
  \<open>k\<close> completed sends from the index on, around the ring of 256 entries, none behind them and no
  message received.
\<close>

definition sends_done :: "nat \<Rightarrow> ucq \<Rightarrow> bool" where
  "sends_done k c \<longleftrightarrow> rings_ok c \<and> k < 256 \<and> hff (rx_ring c ! unat (rxrp c)) = 0 \<and>
     (\<forall>i<k. hff (xmit_ring c ! ((unat (xmitrp c) + i) mod 256)) \<noteq> 0) \<and> hff (xmit_ring c ! ((unat (xmitrp c) + k) mod 256)) = 0"

text \<open>The tail runs around the first \<open>overhead\<close> entries; \<open>tail_at q i\<close> is where it is after \<open>i\<close> steps.\<close>

definition tail_ok :: "uqp \<Rightarrow> bool" where
  "tail_ok q \<longleftrightarrow> unat (u_tail (usq q)) < unat (u_overhead (usq q)) \<and> unat (u_overhead (usq q)) \<le> length (uwr_tbl q)"

definition tail_at :: "uqp \<Rightarrow> nat \<Rightarrow> nat" where
  "tail_at q i = (unat (u_tail (usq q)) + i) mod unat (u_overhead (usq q))"

definition next_marks :: "nat \<Rightarrow> uqp \<Rightarrow> (u64 \<times> u8) list" where
  "next_marks k q = map (\<lambda>i. uwr_tbl q ! tail_at q i) [0..<k]"

definition signalled_ids :: "(u64 \<times> u8) list \<Rightarrow> u64 list" where
  "signalled_ids ms = map fst (filter (\<lambda>m. snd m \<noteq> 0) ms)"

text \<open>The queue pair after \<open>k\<close> of its sends have been taken.\<close>

definition sends_taken :: "nat \<Rightarrow> uqp \<Rightarrow> uqp" where
  "sends_taken k q = q\<lparr>usq := (usq q)\<lparr>u_tail := word_of_nat (tail_at q k)\<rparr>\<rparr>"

lemma tail_at_less: "tail_ok q \<Longrightarrow> tail_at q i < unat (u_overhead (usq q))"
  by (simp add: tail_ok_def tail_at_def)

lemma sends_taken_simps [simp]:
  "uwr_tbl (sends_taken k q) = uwr_tbl q" "uid (sends_taken k q) = uid q" "u_head (usq (sends_taken k q)) = u_head (usq q)"
  "u_overhead (usq (sends_taken k q)) = u_overhead (usq q)"
  by (simp_all add: sends_taken_def)

lemma taken_tail:
  assumes "tail_ok q"
  shows "unat (u_tail (usq (sends_taken k q))) = tail_at q k" "tail_ok (sends_taken k q)" "tail_at (sends_taken k q) i = tail_at q (k + i)"
proof -
  have "tail_at q k < 2 ^ 32" using tail_at_less [OF assms, of k] unat_u32_less [of "u_overhead (usq q)"] by linarith
  then show t: "unat (u_tail (usq (sends_taken k q))) = tail_at q k" by (simp add: sends_taken_def)
  show "tail_ok (sends_taken k q)" using assms tail_at_less [OF assms, of k] t by (simp add: tail_ok_def)
  show "tail_at (sends_taken k q) i = tail_at q (k + i)"
    using t by (simp add: tail_at_def mod_add_left_eq add.assoc)
qed

lemma taken_Suc:
  assumes "tail_ok q"
  shows "sends_taken k (sends_taken 1 q) = sends_taken (Suc k) q"
proof -
  have "tail_at (sends_taken 1 q) k = tail_at q (Suc k)" using taken_tail(3) [OF assms, of 1 k] by simp
  then have "sends_taken k (sends_taken 1 q) = (sends_taken 1 q)\<lparr>usq := (usq (sends_taken 1 q))\<lparr>u_tail := word_of_nat (tail_at q (Suc k))\<rparr>\<rparr>"
    by (simp add: sends_taken_def [of k])
  then show ?thesis by (simp add: sends_taken_def)
qed

lemma taken_0: "tail_ok q \<Longrightarrow> sends_taken 0 q = q"
  by (simp add: sends_taken_def tail_at_def tail_ok_def)

lemma inc_sqtail:
  assumes "tail_ok q"
  shows "bxroce_hwq_inc_sqtail (usq q) = Some ((usq q)\<lparr>u_tail := word_of_nat (tail_at q 1)\<rparr>)"
proof -
  have b: "unat (u_tail (usq q)) + 1 < 2 ^ 32" using assms unat_u32_less [of "u_overhead (usq q)"] by (simp add: tail_ok_def)
  have u: "unat (u_tail (usq q) + 1) = unat (u_tail (usq q)) + 1" using unat_add_small [of "u_tail (usq q)" 1] b by simp
  have "u_overhead (usq q) \<noteq> 0" using assms by (auto simp: tail_ok_def)
  moreover have "(u_tail (usq q) + 1) mod u_overhead (usq q) = word_of_nat (tail_at q 1)"
    by (simp add: word_arith_nat_mod u tail_at_def)
  ultimately show ?thesis by (simp add: bxroce_hwq_inc_sqtail_def)
qed

lemma next_marks_Suc: "tail_ok q \<Longrightarrow> next_marks (Suc k) q = uwr_tbl q ! unat (u_tail (usq q)) # next_marks k (sends_taken 1 q)"
  using taken_tail(3) [of q 1]
  by (simp add: next_marks_def upt_conv_Cons map_Suc_upt [symmetric] comp_def tail_at_def [of q 0] tail_ok_def del: upt_Suc)

lemma sends_done_step:
  assumes "sends_done (Suc k) c"
  shows "sends_done k (round_tx (c\<lparr>xmit_ring := (xmit_ring c)[unat (xmitrp c) := zero_urxcqe],
    xmitrp := (xmitrp c + 1) mod 256\<rparr>))"
    (is "sends_done k (round_tx ?c)")
proof -
  let ?x = "unat (xmitrp c)"
  have x: "?x < 256" "Suc k < 256" using assms by (simp_all add: sends_done_def rings_ok_def word_less_nat_alt)
  have u: "unat (xmitrp c + 1) = Suc ?x"
    using unat_add_small [of "xmitrp c" 1] x by simp
  have r: "unat ((xmitrp c + 1) mod 256) = Suc ?x mod 256" by (simp add: unat_mod_distrib u)
  have ok: "rings_ok (round_tx ?c)"
    by (rule rings_ok_round_tx) (use assms in \<open>simp add: sends_done_def rings_ok_def mod_256\<close>)
  have ne: "(?x + Suc i) mod 256 \<noteq> ?x" if "i \<le> k" for i
  proof
    assume "(?x + Suc i) mod 256 = ?x"
    then have "(?x + Suc i) mod 256 = ?x mod 256" using x(1) by simp
    then have "256 dvd (?x + Suc i) - ?x" using mod_eq_dvd_iff_nat [of ?x "?x + Suc i" 256] by simp
    then show False using x(2) that by (auto dest: dvd_imp_le)
  qed
  have at: "xmit_ring ?c ! ((unat (xmitrp ?c) + i) mod 256) = xmit_ring c ! ((?x + Suc i) mod 256)" if "i \<le> k" for i
    using ne [OF that] by (simp add: r mod_add_left_eq)
  show ?thesis
    unfolding sends_done_def
    using assms x ok at by (auto simp: sends_done_def)
qed

lemma poll_one_send:
  assumes "sends_done (Suc k) c" and "tail_ok q" and "N \<noteq> 0"
    and "m = uwr_tbl q ! unat (u_tail (usq q))" and "snd m \<noteq> 0 \<Longrightarrow> j < length ws"
  shows "\<exists>c'. sends_done k c' \<and> poll_loop_u c (Some q) N j ws =
    (if snd m = 0 then poll_loop_u c' (Some (sends_taken 1 q)) N j ws
     else poll_loop_u c' (Some (sends_taken 1 q)) (N - 1) (Suc j) (ws[j := (ws ! j)\<lparr>wc_status := IBV_WC_SUCCESS,
       wc_flags := 0, wc_qp_num := uid q, wc_wr_id := fst m\<rparr>]))"
proof -
  let ?c = "c\<lparr>xmit_ring := (xmit_ring c)[unat (xmitrp c) := zero_urxcqe], xmitrp := (xmitrp c + 1) mod 256\<rparr>"
  have ring: "rings_ok c" and r: "hff (rx_ring c ! unat (rxrp c)) = 0"
    using assms(1) by (simp_all add: sends_done_def)
  have "hff (xmit_ring c ! ((unat (xmitrp c) + 0) mod 256)) \<noteq> 0" using assms(1) unfolding sends_done_def by blast
  then have x: "hff (xmit_ring c ! unat (xmitrp c)) \<noteq> 0" using ring by (simp add: rings_ok_def word_less_nat_alt)
  have p: "cqe_pending c" using x by (simp add: cqe_pending_def)
  have t: "unat (u_tail (usq q)) < length (uwr_tbl q)" using assms(2) by (simp add: tail_ok_def)
  have tk: "q\<lparr>usq := (usq q)\<lparr>u_tail := word_of_nat (tail_at q 1)\<rparr>\<rparr> = sends_taken 1 q" by (simp add: sends_taken_def)
  have "poll_round c q N j ws =
    (if snd m = 0 then Some (round_tx ?c, sends_taken 1 q, N, j, ws)
     else Some (round_tx ?c, sends_taken 1 q, N - 1, Suc j, ws[j := (ws ! j)\<lparr>wc_status := IBV_WC_SUCCESS,
       wc_flags := 0, wc_qp_num := uid q, wc_wr_id := fst m\<rparr>]))"
    using x r t inc_sqtail [OF assms(2)] tk assms(4,5)
    by (simp add: poll_round_def round_xmit_def round_rx_def bxroce_poll_scqe_def put_wc_def Let_def)
  moreover have "sends_done k (round_tx ?c)" by (rule sends_done_step [OF assms(1)])
  ultimately show ?thesis
    using assms(3) p rings_ok_rps [OF ring]
    by (subst poll_loop_u.simps) (auto intro: exI [of _ "round_tx ?c"])
qed

lemma poll_sends:
  assumes "sends_done k c" and "tail_ok q" and "int (length (signalled_ids (next_marks k q))) < N"
    and "j + length (signalled_ids (next_marks k q)) \<le> length ws"
  shows "\<exists>c' ws'. poll_loop_u c (Some q) N j ws = Some (c', Some (sends_taken k q), j + length (signalled_ids (next_marks k q)), ws') \<and>
    length ws' = length ws \<and> sends_done 0 c' \<and>
    (\<forall>i<j. ws' ! i = ws ! i) \<and>
    (\<forall>i<length (signalled_ids (next_marks k q)). wc_wr_id (ws' ! (j + i)) = signalled_ids (next_marks k q) ! i \<and>
       wc_status (ws' ! (j + i)) = IBV_WC_SUCCESS \<and> wc_qp_num (ws' ! (j + i)) = uid q)"
  using assms
proof (induction k arbitrary: c q N j ws)
  case 0
  have "sends_taken 0 q = q" using 0 by (simp add: taken_0)
  moreover have "\<not> cqe_pending c" "rps_ok c" "N \<noteq> 0"
    using 0 rings_ok_rps by (auto simp: sends_done_def cqe_pending_def signalled_ids_def rings_ok_def word_less_nat_alt)
  ultimately show ?case using 0 by (subst poll_loop_u.simps) (simp add: next_marks_def signalled_ids_def)
next
  case (Suc k)
  let ?m = "uwr_tbl q ! unat (u_tail (usq q))"
  have marks: "next_marks (Suc k) q = ?m # next_marks k (sends_taken 1 q)" by (rule next_marks_Suc [OF Suc.prems(2)])
  have fits: "tail_ok (sends_taken 1 q)" by (rule taken_tail(2) [OF Suc.prems(2)])
  note tS = taken_Suc [OF Suc.prems(2)]
  have N: "N \<noteq> 0" using Suc.prems(3) by auto
  have u: "uid (sends_taken 1 q) = uid q" by simp
  show ?case
  proof (cases "snd ?m = 0")
    case True
    then obtain c1 where c1: "sends_done k c1" "poll_loop_u c (Some q) N j ws = poll_loop_u c1 (Some (sends_taken 1 q)) N j ws"
      using poll_one_send [OF Suc.prems(1,2) N refl, of j ws] by auto
    have ids: "signalled_ids (next_marks (Suc k) q) = signalled_ids (next_marks k (sends_taken 1 q))"
      using True marks by (simp add: signalled_ids_def)
    show ?thesis
      unfolding c1(2) ids tS [symmetric]
      using Suc.IH [OF c1(1) fits, of N j ws] Suc.prems(3,4) unfolding ids u by blast
  next
    case False
    have ids: "signalled_ids (next_marks (Suc k) q) = fst ?m # signalled_ids (next_marks k (sends_taken 1 q))"
      using False marks by (simp add: signalled_ids_def)
    let ?ws = "ws[j := (ws ! j)\<lparr>wc_status := IBV_WC_SUCCESS, wc_flags := 0, wc_qp_num := uid q, wc_wr_id := fst ?m\<rparr>]"
    have j: "j < length ws" using Suc.prems(4) unfolding ids by simp
    then obtain c1 where c1: "sends_done k c1"
      "poll_loop_u c (Some q) N j ws = poll_loop_u c1 (Some (sends_taken 1 q)) (N - 1) (Suc j) ?ws"
      using poll_one_send [OF Suc.prems(1,2) N refl, of j ws] False by auto
    obtain c' ws' where ih: "poll_loop_u c1 (Some (sends_taken 1 q)) (N - 1) (Suc j) ?ws
        = Some (c', Some (sends_taken k (sends_taken 1 q)), Suc j + length (signalled_ids (next_marks k (sends_taken 1 q))), ws')"
      "length ws' = length ?ws" "sends_done 0 c'" "\<forall>i<Suc j. ws' ! i = ?ws ! i"
      "\<forall>i<length (signalled_ids (next_marks k (sends_taken 1 q))).
         wc_wr_id (ws' ! (Suc j + i)) = signalled_ids (next_marks k (sends_taken 1 q)) ! i \<and>
         wc_status (ws' ! (Suc j + i)) = IBV_WC_SUCCESS \<and> wc_qp_num (ws' ! (Suc j + i)) = uid q"
      using Suc.IH [OF c1(1) fits, of "N - 1" "Suc j" ?ws] Suc.prems(3,4) unfolding ids u by auto
    show ?thesis
    proof (intro exI conjI allI impI)
      show "poll_loop_u c (Some q) N j ws = Some (c', Some (sends_taken (Suc k) q),
          j + length (signalled_ids (next_marks (Suc k) q)), ws')"
        unfolding c1(2) ih(1) ids tS by simp
      show "length ws' = length ws" "sends_done 0 c'" using ih(2,3) by simp_all
    next
      fix i assume "i < j"
      then show "ws' ! i = ws ! i" using ih(4) by simp
    next
      fix i assume i: "i < length (signalled_ids (next_marks (Suc k) q))"
      have at: "ws' ! j = ?ws ! j" using ih(4) by simp
      show "wc_wr_id (ws' ! (j + i)) = signalled_ids (next_marks (Suc k) q) ! i"
        "wc_status (ws' ! (j + i)) = IBV_WC_SUCCESS" "wc_qp_num (ws' ! (j + i)) = uid q"
        using i ih(5) at j unfolding ids by (cases i; simp)+
    qed
  qed
qed

text \<open>
  The marks of the entries posted and not yet polled, from the tail on. Posting appends the marks of
  the request, polling takes them off.
\<close>

definition outstanding :: "uqp \<Rightarrow> (u64 \<times> u8) list \<Rightarrow> bool" where
  "outstanding q ms \<longleftrightarrow> tail_ok q \<and> next_marks (length ms) q = ms \<and> length ms \<le> unat (u_overhead (usq q)) \<and>
     tail_at q (length ms) = unat (u_head (usq q)) mod unat (u_overhead (usq q))"

lemma next_marks_nth: "i < k \<Longrightarrow> next_marks k q ! i = uwr_tbl q ! tail_at q i"
  by (simp add: next_marks_def)

lemma outstanding_taken:
  assumes "outstanding q ms" "k \<le> length ms"
  shows "outstanding (sends_taken k q) (drop k ms)"
proof -
  have t: "tail_ok q" using assms(1) by (simp add: outstanding_def)
  have "next_marks (length ms) q = ms" using assms(1) by (simp add: outstanding_def)
  then have n: "ms ! i = uwr_tbl q ! tail_at q i" if "i < length ms" for i using next_marks_nth [OF that, of q] by simp
  have "next_marks (length ms - k) (sends_taken k q) = drop k ms"
    by (rule nth_equalityI) (simp_all add: next_marks_def taken_tail(3) [OF t] n)
  then show ?thesis
    using assms taken_tail [OF t] by (auto simp: outstanding_def)
qed

lemma mod_shift_ne:
  assumes "i < j" "j < i + n"
  shows "(t + i) mod n \<noteq> (t + j) mod (n :: nat)"
proof
  assume "(t + i) mod n = (t + j) mod n"
  then have "n dvd (t + j) - (t + i)" using assms(1) mod_eq_dvd_iff_nat [of "t + i" "t + j" n] by simp
  then show False using assms by (auto dest: dvd_imp_le)
qed

lemma outstanding_posted:
  assumes o: "outstanding q ms" and n: "0 < n" "unat (u_head (usq q)) + n \<le> unat (u_overhead (usq q))" "length ms + n \<le> unat (u_overhead (usq q))"
    and tbl: "length tbl = length (uwr_tbl q)" "\<forall>j<n. tbl ! (unat (u_head (usq q)) + j) = m"
      "\<forall>k. k < unat (u_head (usq q)) \<or> unat (u_head (usq q)) + n \<le> k \<longrightarrow> tbl ! k = uwr_tbl q ! k"
  shows "outstanding (moved q n mem tbl) (ms @ replicate n m)"
proof -
  let ?h = "unat (u_head (usq q))" and ?v = "unat (u_overhead (usq q))" and ?q = "moved q n mem tbl"
  have t: "tail_ok q" "tail_at q (length ms) = ?h" "next_marks (length ms) q = ms"
    using o n(1,2) by (simp_all add: outstanding_def)
  have q: "tail_ok ?q" "tail_at ?q = tail_at q" "uwr_tbl ?q = tbl" "u_overhead (usq ?q) = u_overhead (usq q)"
    using t(1) tbl(1) by (simp_all add: tail_ok_def tail_at_def moved_def fun_eq_iff)
  have small: "?h + n < 2 ^ 32" using n(2) unat_u32_less [of "u_overhead (usq q)"] by linarith
  then have "n < 2 ^ 32" by simp
  then have hd: "unat (u_head (usq ?q)) = ?h + n" using unat_add_small [of "u_head (usq q)" n] small by (simp add: moved_def)
  have new: "tail_at q (length ms + j) = ?h + j" if "j < n" for j
  proof -
    have "tail_at q (length ms + j) = (tail_at q (length ms) + j) mod ?v" by (simp add: tail_at_def mod_add_left_eq add.assoc)
    then show ?thesis using t(2) that n(2) by simp
  qed
  have old: "tbl ! tail_at q i = ms ! i" if "i < length ms" for i
  proof -
    have "tail_at q i \<noteq> ?h + j" if "j < n" for j
    proof -
      have "tail_at q i \<noteq> tail_at q (length ms + j)"
        unfolding tail_at_def by (rule mod_shift_ne) (use \<open>i < length ms\<close> that n(3) in simp_all)
      then show ?thesis using new [OF that] by simp
    qed
    then have "tail_at q i < ?h \<or> ?h + n \<le> tail_at q i" by (metis add_diff_inverse_nat not_less add_less_cancel_left)
    then have "tbl ! tail_at q i = uwr_tbl q ! tail_at q i" using tbl(3) by blast
    then show ?thesis using next_marks_nth [OF that, of q] t(3) by simp
  qed
  have "next_marks (length ms + n) ?q = ms @ replicate n m"
  proof (rule nth_equalityI)
    fix i assume "i < length (next_marks (length ms + n) ?q)"
    then have i: "i < length ms + n" by (simp add: next_marks_def)
    show "next_marks (length ms + n) ?q ! i = (ms @ replicate n m) ! i"
    proof (cases "i < length ms")
      case True
      then show ?thesis using i old by (simp add: next_marks_nth q nth_append)
    next
      case False
      then obtain j where "i = length ms + j" "j < n" using i by (metis add_diff_inverse_nat nat_add_left_cancel_less)
      then show ?thesis using new tbl(2) by (simp add: next_marks_nth q nth_append)
    qed
  qed (simp add: next_marks_def)
  moreover have "tail_at q (length ms + n) = (?h + n) mod ?v"
  proof -
    have "tail_at q (length ms + n) = (tail_at q (length ms) + n) mod ?v" by (simp add: tail_at_def mod_add_left_eq add.assoc)
    then show ?thesis using t(2) by simp
  qed
  ultimately show ?thesis using q hd n(3) by (simp add: outstanding_def)
qed

text \<open>
  C15. Completions carry the identifiers of the requests, around both rings. Let \<open>ms\<close> be the marks of
  the entries posted and not yet polled, and let a send of \<open>n\<close> scatter elements fit: it is posted, and the
  marks are \<open>ms\<close> followed by \<open>n\<close> times that of the request. When the card has then completed \<open>k\<close> of these
  entries (fewer than 256, and no message was received), polling with room for one more than it stores returns
  one successful completion for each of the \<open>k\<close> whose request was signalled, in the order of posting and
  with its identifier, clears their entries in the ring of 256, moves the tail around the first
  \<open>overhead\<close> entries of the send queue, and leaves the marks of the others. That it fits means: behind
  the head up to \<open>overhead\<close>, and no more than \<open>overhead\<close> entries outstanding.
\<close>

theorem poll_reports_signalled:
  assumes "outstanding q ms" and "n = length (usg_list wr)" and "marks = ms @ replicate n (wr_mark q wr)"
    and "ustate q = BXROCE_QPS_RTS" and "utype q = IBV_QPT_RC \<or> utype q = IBV_QPT_UC"
    and "uwr_op wr = IBV_WR_SEND" and "\<not> send_flag_inline wr" and "region_tables rs" and "0 < n"
    and "word_of_nat n \<le> u_max_sges (usq q)" and "u_max_wqe_idx (usq q) = u_max_cnt (usq q) - 1" and "room_for (Suc n) q"
    and "unat (u_head (usq q)) + n \<le> unat (u_overhead (usq q))" and "length ms + n \<le> unat (u_overhead (usq q))"
    and "sends_done k c" and "k \<le> length marks" and "ids = signalled_ids (take k marks)"
    and "int (length ids) < N" and "length ids \<le> length ws"
  shows "\<exists>q1 s1 c' ws'. bxroce_post_send_u E X rs [wr] q s = Some (0, None, q1, s1) \<and> outstanding q1 marks \<and>
    bxroce_poll_hwcq_u c (Some q1) N ws = Some (int (length ids), c', Some (sends_taken k q1), ws') \<and>
    outstanding (sends_taken k q1) (drop k marks) \<and> sends_done 0 c' \<and> length ws' = length ws \<and>
    (\<forall>i<length ids. wc_wr_id (ws' ! i) = ids ! i \<and> wc_status (ws' ! i) = IBV_WC_SUCCESS \<and> wc_qp_num (ws' ! i) = uid q)"
proof -
  let ?h = "unat (u_head (usq q))"
  have ne: "usg_list wr \<noteq> []" using assms(2,9) by auto
  obtain mem tbl where p: "bxroce_post_send_u E X rs [wr] q s = Some (0, None, moved q n mem tbl,
      mutex_unlock Q_lock (bxroce_ring_sq_hw_u (moved q n mem tbl) wr (mutex_lock Q_lock s)))"
    "length tbl = length (uwr_tbl q)" "\<forall>j<n. tbl ! (?h + j) = wr_mark q wr"
    "\<forall>k. k < ?h \<or> ?h + n \<le> k \<longrightarrow> tbl ! k = uwr_tbl q ! k"
    using post_send_fits [OF assms(4-8) ne _ assms(11) _ refl, of E X s] assms(10,12) unfolding assms(2) [symmetric] Let_def by blast
  let ?q = "moved q n mem tbl"
  have o: "outstanding ?q marks" unfolding assms(3) by (rule outstanding_posted [OF assms(1,9,13,14) p(2-4)])
  then have t: "tail_ok ?q" "next_marks (length marks) ?q = marks" by (simp_all add: outstanding_def)
  have "next_marks k ?q = take k (next_marks (length marks) ?q)"
    using assms(16) by (simp add: next_marks_def take_map min_def)
  then have ids: "signalled_ids (next_marks k ?q) = ids" using t(2) assms(17) by simp
  have u: "uid ?q = uid q" by (simp add: moved_def)
  show ?thesis
    using poll_sends [OF assms(15) t(1), of N 0 ws, unfolded ids u] assms(18,19) p(1) o outstanding_taken [OF o assms(16)]
    by (auto simp: bxroce_poll_hwcq_u_def)
qed

definition done_cqe :: "u16 \<Rightarrow> urxcqe" where
  "done_cqe lo = zero_urxcqe\<lparr>bth_64_87_lo := lo, hff := 0xff\<rparr>"

definition sample_ucq :: ucq where
  "sample_ucq = \<lparr>tx_ring = replicate 256 zero_utxcqe, rx_ring = replicate 256 zero_urxcqe,
     xmit_ring = done_cqe 0 # done_cqe 0 # replicate 254 zero_urxcqe, txrp = 0, rxrp = 0, xmitrp = 0, cq_phase = 0,
     cq_qp_id = 3\<rparr>"

definition sample_wc :: ibv_wc where
  "sample_wc = \<lparr>wc_wr_id = 0, wc_status = Wc_status 5, wc_opcode = Wc_opcode 0, wc_imm_data = 0, wc_qp_num = 0,
     wc_src_qp = 0, wc_flags = 0, wc_pkey_index = 0\<rparr>"

text \<open>
  The pointers have been started again at 3 with entry 2 not yet polled; a send of two elements takes the
  entries 0 and 1, and the card completes all three, from the last entry of its ring on.
\<close>

definition restarted_uqp :: uqp where
  "restarted_uqp = sample_uqp\<lparr>usq := sample_queue\<lparr>u_tail := 2, u_overhead := 3\<rparr>, uwr_tbl := (7, 0) # (8, 0) # (9, 1) # replicate 5 (0, 0)\<rparr>"

definition round_ucq :: ucq where
  "round_ucq = sample_ucq\<lparr>xmit_ring := (done_cqe 0 # done_cqe 0 # replicate 253 zero_urxcqe) @ [done_cqe 0], xmitrp := 255\<rparr>"

lemma round_sends: "sends_done 3 round_ucq"
proof -
  have "hff (xmit_ring round_ucq ! ((255 + i) mod 256)) \<noteq> 0" if "i < 3" for i
  proof -
    from that have "i = 0 \<or> i = 1 \<or> i = 2" by auto
    then show ?thesis by (auto simp: round_ucq_def done_cqe_def nth_append)
  qed
  then show ?thesis
    by (simp add: sends_done_def rings_ok_def round_ucq_def sample_ucq_def zero_urxcqe_def nth_append)
qed

theorem poll_reports_signalled_witness:
  "\<exists>q1 s1 c' ws'. bxroce_post_send_u lib_env no_server [sample_mr] [sample_wr IBV_WR_SEND [sample_sge, sample_sge]] restarted_uqp empty_kern =
       Some (0, None, q1, s1) \<and>
     bxroce_poll_hwcq_u round_ucq (Some q1) 4 (replicate 4 sample_wc) = Some (3, c', Some (sends_taken 3 q1), ws') \<and>
     wc_wr_id (ws' ! 0) = 9 \<and> wc_wr_id (ws' ! 1) = 42 \<and> wc_wr_id (ws' ! 2) = 42"
proof -
  let ?wr = "sample_wr IBV_WR_SEND [sample_sge, sample_sge]"
  have n: "2 = length (usg_list ?wr)" by (simp add: sample_wr_def)
  have o: "outstanding restarted_uqp [(9, 1)]"
    by (simp add: outstanding_def tail_ok_def tail_at_def next_marks_def restarted_uqp_def sample_uqp_def sample_queue_def)
  have m: "[(9, 1), (42, 1), (42, 1)] = [(9, 1)] @ replicate 2 (wr_mark restarted_uqp ?wr)"
    by (simp add: wr_mark_def sample_wr_def numeral_2_eq_2)
  have i: "[9, 42, 42] = signalled_ids (take 3 [(9, 1), (42, 1), (42, 1)])" by (simp add: signalled_ids_def)
  have c: "ustate restarted_uqp = BXROCE_QPS_RTS" "utype restarted_uqp = IBV_QPT_RC \<or> utype restarted_uqp = IBV_QPT_UC"
    "uwr_op ?wr = IBV_WR_SEND" "\<not> send_flag_inline ?wr" "region_tables [sample_mr]" "0 < (2 :: nat)"
    "word_of_nat 2 \<le> u_max_sges (usq restarted_uqp)" "u_max_wqe_idx (usq restarted_uqp) = u_max_cnt (usq restarted_uqp) - 1"
    "room_for (Suc 2) restarted_uqp" "unat (u_head (usq restarted_uqp)) + 2 \<le> unat (u_overhead (usq restarted_uqp))"
    "length [(9 :: u64, 1 :: u8)] + 2 \<le> unat (u_overhead (usq restarted_uqp))"
    by (simp_all add: region_tables_def room_for_def restarted_uqp_def lib_samples)
  from poll_reports_signalled [OF o n m c round_sends _ i, of 4 "replicate 4 sample_wc" lib_env no_server empty_kern]
  obtain q1 s1 c' ws' where "bxroce_post_send_u lib_env no_server [sample_mr] [?wr] restarted_uqp empty_kern = Some (0, None, q1, s1)"
    "bxroce_poll_hwcq_u round_ucq (Some q1) 4 (replicate 4 sample_wc) = Some (3, c', Some (sends_taken 3 q1), ws')"
    "\<forall>i<3. wc_wr_id (ws' ! i) = [9, 42, 42] ! i" by auto
  then show ?thesis by (intro exI [of _ q1] exI [of _ s1] exI [of _ c'] exI [of _ ws']) simp
qed

text \<open>
  When everything posted has been polled and the pointers are started again, the tail is left where the
  head was: the next completion is looked up there, and not at entry 0, where the next request has
  noted its identifier.
\<close>

theorem drained_restart_misreads:
  assumes "u_tail (usq q) = u_head (usq q)" and "h = unat (u_head (usq q))" and "0 < h" and "h < length (uwr_tbl q)"
    and "fst (bxroce_init_sq_ptr E q s) = q1" and "q1 \<noteq> q" and "note_wr_id_u q1 wr = Some q2"
    and "snd (uwr_tbl q ! h) \<noteq> 0" and "k < length ws"
  shows "uwr_tbl q2 ! 0 = wr_mark q wr \<and>
    (\<exists>q3 ws'. bxroce_poll_scqe q2 k ws = Some (True, q3, ws') \<and> wc_wr_id (ws' ! k) = fst (uwr_tbl q ! h))"
proof -
  have q1: "q1 = q\<lparr>usq := (usq q)\<lparr>u_overhead := u_head (usq q), u_head := 0\<rparr>\<rparr>"
    using init_sq_ptr_cases [of E q s] assms(5,6) by auto
  have q2: "q2 = q1\<lparr>uwr_tbl := (uwr_tbl q)[0 := wr_mark q wr]\<rparr>" "0 < length (uwr_tbl q)"
    using assms(4,7) by (auto simp: note_wr_id_u_def q1 wr_mark_def Let_def split: if_splits)
  have "u_head (usq q) \<noteq> 0" using assms(2,3) by auto
  then show ?thesis
    using q2 assms(1-4,8,9) by (simp add: q1 bxroce_poll_scqe_def bxroce_hwq_inc_sqtail_def put_wc_def Let_def)
qed

theorem drained_restart_misreads_witness:
  "\<exists>q2 q3 ws'. note_wr_id_u (fst (bxroce_init_sq_ptr lib_env (sample_uqp\<lparr>usq := sample_queue\<lparr>u_head := 3, u_tail := 3\<rparr>,
       uwr_tbl := replicate 8 (5, 1)\<rparr>) empty_kern)) (sample_wr IBV_WR_SEND [sample_sge]) = Some q2 \<and>
     bxroce_poll_scqe q2 0 [sample_wc] = Some (True, q3, ws') \<and> wc_wr_id (ws' ! 0) = 5 \<and> uwr_tbl q2 ! 0 = (42, 1)"
proof -
  let ?q = "sample_uqp\<lparr>usq := sample_queue\<lparr>u_head := 3, u_tail := 3\<rparr>, uwr_tbl := replicate 8 (5, 1)\<rparr>"
  let ?q1 = "fst (bxroce_init_sq_ptr lib_env ?q empty_kern)"
  have "fst (pgu_read lib_env off s) = 0" for off s
    by (simp add: pgu_read_def bxroce_mpb_reg_read_def reg_read_def readl_def lib_env_def Let_def split: prod.split)
  then have q1: "?q1 = ?q\<lparr>usq := (usq ?q)\<lparr>u_overhead := 3, u_head := 0\<rparr>\<rparr>"
    by (simp add: bxroce_init_sq_ptr_def Let_def case_prod_unfold del: pgu_writes.simps)
  obtain q2 where q2: "note_wr_id_u ?q1 (sample_wr IBV_WR_SEND [sample_sge]) = Some q2"
    by (simp add: note_wr_id_u_def q1)
  have ne: "?q1 \<noteq> ?q" unfolding q1 by (simp add: sample_uqp_def sample_queue_def)
  have f: "u_tail (usq ?q) = u_head (usq ?q)" "3 = unat (u_head (usq ?q))" "0 < (3 :: nat)" "3 < length (uwr_tbl ?q)"
    "snd (uwr_tbl ?q ! 3) \<noteq> 0" "0 < length [sample_wc]"
    by simp_all
  show ?thesis
    using drained_restart_misreads [OF f(1-4) refl ne q2 f(5,6)] q2 by (simp add: wr_mark_def lib_samples)
qed

section \<open>Polling receives\<close>

lemma poll_rcqe_length: "bxroce_poll_rcqe q e k ws = Some (q', ws') \<Longrightarrow> k < length ws \<and> length ws' = length ws"
  by (auto simp: bxroce_poll_rcqe_def put_wc_def Let_def split: if_splits bind_splits)

lemma rx_left_overrun: "length ws < k + n \<Longrightarrow> k \<le> length ws \<Longrightarrow> rx_left_loop n q e k ws = None"
proof (induction n arbitrary: q k ws)
  case (Suc n)
  then show ?case
    using poll_rcqe_length [of q e k ws] by (cases "bxroce_poll_rcqe q e k ws") fastforce+
qed simp

text \<open>The three entries of the receive ring from the index on: counters 0 and 1, and none.\<close>

definition two_received :: "ucq \<Rightarrow> bool" where
  "two_received c \<longleftrightarrow> rings_ok c \<and> unat (rxrp c) + 2 < 256 \<and> hff (xmit_ring c ! unat (xmitrp c)) = 0 \<and>
     hff (rx_ring c ! unat (rxrp c)) \<noteq> 0 \<and> bth_64_87_lo (rx_ring c ! unat (rxrp c)) = 0 \<and>
     hff (rx_ring c ! (unat (rxrp c) + 1)) \<noteq> 0 \<and> bth_64_87_lo (rx_ring c ! (unat (rxrp c) + 1)) = 1 \<and>
     hff (rx_ring c ! (unat (rxrp c) + 2)) = 0"

lemma poll_rcqe_ok:
  assumes "k < length ws" and "unat (u_tail (urq q)) < length (urqe_tbl q)"
    and "unat (u_max_cnt (urq q)) \<le> length (urqe_tbl q)" and "u_max_cnt (urq q) \<noteq> 0"
  shows "\<exists>q' ws'. bxroce_poll_rcqe q e k ws = Some (q', ws') \<and> length ws' = length ws \<and>
    u_overhead (urq q') = u_overhead (urq q) \<and> unat (u_tail (urq q')) < length (urqe_tbl q') \<and>
    urqe_tbl q' = urqe_tbl q \<and> u_max_cnt (urq q') = u_max_cnt (urq q)"
proof -
  have "unat ((u_tail (urq q) + 1) mod u_max_cnt (urq q)) < unat (u_max_cnt (urq q))"
    using assms(4) by (simp add: word_less_nat_alt [symmetric] word_mod_less_divisor word_gt_0)
  then show ?thesis
    using assms by (simp add: bxroce_poll_rcqe_def put_wc_def bxroce_hwq_inc_rqtail_def Let_def)
qed

lemma rx_left_ok:
  assumes "k + n \<le> length ws" and "unat (u_tail (urq q)) < length (urqe_tbl q)"
    and "unat (u_max_cnt (urq q)) \<le> length (urqe_tbl q)" and "u_max_cnt (urq q) \<noteq> 0"
  shows "\<exists>q' ws'. rx_left_loop n q e k ws = Some (q', k + n, ws') \<and> length ws' = length ws \<and>
    u_overhead (urq q') = u_overhead (urq q) \<and> unat (u_tail (urq q')) < length (urqe_tbl q') \<and>
    urqe_tbl q' = urqe_tbl q \<and> u_max_cnt (urq q') = u_max_cnt (urq q)"
  using assms
proof (induction n arbitrary: q k ws)
  case (Suc n)
  obtain q1 ws1 where 1: "bxroce_poll_rcqe q e k ws = Some (q1, ws1)" "length ws1 = length ws"
    "u_overhead (urq q1) = u_overhead (urq q)" "unat (u_tail (urq q1)) < length (urqe_tbl q1)"
    "urqe_tbl q1 = urqe_tbl q" "u_max_cnt (urq q1) = u_max_cnt (urq q)"
    using poll_rcqe_ok [of k ws q e] Suc.prems by auto
  obtain q' ws' where "rx_left_loop n q1 e (Suc k) ws1 = Some (q', Suc k + n, ws')" "length ws' = length ws1"
    "u_overhead (urq q') = u_overhead (urq q1)" "unat (u_tail (urq q')) < length (urqe_tbl q')"
    "urqe_tbl q' = urqe_tbl q1" "u_max_cnt (urq q') = u_max_cnt (urq q1)"
    using Suc.IH [of "Suc k" ws1 q1] Suc.prems 1 by auto
  then show ?case using 1 by simp
qed simp

text \<open>
  C37. The counter of a received message decides how many completions it stands for, and nothing compares
  that with the room left. A counter other than 0 divides by the step the queue keeps: that is 0 until a
  message with counter 0 has come, so a first message with another counter divides by 0. With a
  step, the number is the distance of the counter from the last one, divided by the step, and one more when the last
  was 0; when that exceeds the caller's array, the array is filled to its end and the next
  completion is written behind it. (The receive queue is that of a working queue pair.)
\<close>

theorem poll_leaves_array:
  assumes "rings_ok c" and "N = int (length ws)" and "ws \<noteq> []"
    and "hff (xmit_ring c ! unat (xmitrp c)) = 0" and "e = rx_ring c ! unat (rxrp c)" and "hff e \<noteq> 0" and "bth_64_87_lo e \<noteq> 0"
    and "unat (u_tail (urq q)) < length (urqe_tbl q)" and "unat (u_max_cnt (urq q)) \<le> length (urqe_tbl q)" and "u_max_cnt (urq q) \<noteq> 0"
    and "cnt = (ucast (bth_64_87_lo e) - u_overhead (urq q)) div cq_phase c + (if u_overhead (urq q) = 0 then 1 else 0)"
  shows "(cq_phase c = 0 \<longrightarrow> num_rx_left e q (cq_phase c) = None \<and> bxroce_poll_hwcq_u c (Some q) N ws = None) \<and>
    (cq_phase c \<noteq> 0 \<and> length ws < unat cnt \<longrightarrow>
     (\<exists>q1 q2 ws2. num_rx_left e q (cq_phase c) = Some (cnt, q1, cq_phase c) \<and>
        rx_left_loop (length ws) q1 e 0 ws = Some (q2, length ws, ws2) \<and> length ws2 = length ws \<and>
        bxroce_poll_rcqe q2 e (length ws) ws2 = None) \<and>
     bxroce_poll_hwcq_u c (Some q) N ws = None)"
proof -
  have pend: "cqe_pending c" "rps_ok c" "N \<noteq> 0"
    using assms(1-3,5,6) rings_ok_rps by (auto simp: cqe_pending_def)
  have stop: "bxroce_poll_hwcq_u c (Some q) N ws = None" if "poll_round c q N 0 ws = None"
    unfolding bxroce_poll_hwcq_u_def using that pend by (subst poll_loop_u.simps) simp
  have lo: "(ucast (bth_64_87_lo e) :: u32) \<noteq> 0"
  proof
    assume z: "(ucast (bth_64_87_lo e) :: u32) = 0"
    have "bit (bth_64_87_lo e) n = bit (ucast (bth_64_87_lo e) :: u32) n" if "n < LENGTH(16)" for n
      using that by (simp add: bit_simps)
    then have "bth_64_87_lo e = 0" using z by (intro word_eqI_bits) simp_all
    then show False using assms(7) by simp
  qed
  let ?q = "q\<lparr>urq := (urq q)\<lparr>u_overhead := ucast (bth_64_87_lo e)\<rparr>\<rparr>"
  have "num_rx_left e q (cq_phase c) = None \<and> bxroce_poll_hwcq_u c (Some q) N ws = None" if "cq_phase c = 0"
  proof -
    have n: "num_rx_left e q (cq_phase c) = None" using lo that by (simp add: num_rx_left_def)
    then have "poll_round c q N 0 ws = None"
      using assms(4-6) by (simp add: poll_round_def round_xmit_def round_rx_def Let_def)
    then show ?thesis using n stop by simp
  qed
  moreover have "(\<exists>q1 q2 ws2. num_rx_left e q (cq_phase c) = Some (cnt, q1, cq_phase c) \<and>
        rx_left_loop (length ws) q1 e 0 ws = Some (q2, length ws, ws2) \<and> length ws2 = length ws \<and>
        bxroce_poll_rcqe q2 e (length ws) ws2 = None) \<and> bxroce_poll_hwcq_u c (Some q) N ws = None"
    if ph: "cq_phase c \<noteq> 0" "length ws < unat cnt"
  proof -
    have n: "num_rx_left e q (cq_phase c) = Some (cnt, ?q, cq_phase c)"
      using lo ph(1) assms(11) by (simp add: num_rx_left_def Let_def)
    have "rx_left_loop (unat cnt) ?q e 0 ws = None" by (rule rx_left_overrun) (use ph(2) in simp_all)
    then have "poll_round c q N 0 ws = None"
      using assms(4-6) n by (simp add: poll_round_def round_xmit_def round_rx_def Let_def)
    moreover obtain q2 ws2 where l: "rx_left_loop (length ws) ?q e 0 ws = Some (q2, length ws, ws2)" "length ws2 = length ws"
      using rx_left_ok [of 0 "length ws" ws ?q e] assms(8-10) by auto
    moreover have "bxroce_poll_rcqe q2 e (length ws) ws2 = None"
      using l(2) by (simp add: bxroce_poll_rcqe_def put_wc_def)
    ultimately show ?thesis using n stop by blast
  qed
  ultimately show ?thesis by blast
qed

theorem poll_leaves_array_witness:
  "bxroce_poll_hwcq_u (sample_ucq\<lparr>xmit_ring := replicate 256 zero_urxcqe, rx_ring := done_cqe 3 # replicate 255 zero_urxcqe\<rparr>)
     (Some sample_uqp) 2 [sample_wc, sample_wc] = None \<and>
   bxroce_poll_hwcq_u (sample_ucq\<lparr>xmit_ring := replicate 256 zero_urxcqe, rx_ring := done_cqe 9 # replicate 255 zero_urxcqe,
     cq_phase := 1\<rparr>) (Some (sample_uqp\<lparr>urq := sample_queue\<lparr>u_overhead := 5\<rparr>\<rparr>)) 2 [sample_wc, sample_wc] = None"
proof -
  let ?c = "sample_ucq\<lparr>xmit_ring := replicate 256 zero_urxcqe, rx_ring := done_cqe 3 # replicate 255 zero_urxcqe\<rparr>"
  let ?d = "sample_ucq\<lparr>xmit_ring := replicate 256 zero_urxcqe, rx_ring := done_cqe 9 # replicate 255 zero_urxcqe, cq_phase := 1\<rparr>"
  let ?r = "sample_uqp\<lparr>urq := sample_queue\<lparr>u_overhead := 5\<rparr>\<rparr>"
  have q: "unat (u_tail (urq sample_uqp)) < length (urqe_tbl sample_uqp)" "unat (u_max_cnt (urq sample_uqp)) \<le> length (urqe_tbl sample_uqp)"
    "u_max_cnt (urq sample_uqp) \<noteq> 0"
    "unat (u_tail (urq ?r)) < length (urqe_tbl ?r)" "unat (u_max_cnt (urq ?r)) \<le> length (urqe_tbl ?r)" "u_max_cnt (urq ?r) \<noteq> 0"
    by (simp_all add: sample_uqp_def sample_queue_def)
  have c: "rings_ok ?c" "hff (xmit_ring ?c ! unat (xmitrp ?c)) = 0" "hff (rx_ring ?c ! unat (rxrp ?c)) \<noteq> 0"
    "bth_64_87_lo (rx_ring ?c ! unat (rxrp ?c)) \<noteq> 0" "cq_phase ?c = 0"
    by (simp_all add: rings_ok_def sample_ucq_def zero_urxcqe_def done_cqe_def)
  have d: "rings_ok ?d" "hff (xmit_ring ?d ! unat (xmitrp ?d)) = 0" "hff (rx_ring ?d ! unat (rxrp ?d)) \<noteq> 0"
    "bth_64_87_lo (rx_ring ?d ! unat (rxrp ?d)) \<noteq> 0" "cq_phase ?d \<noteq> 0"
    by (simp_all add: rings_ok_def sample_ucq_def zero_urxcqe_def done_cqe_def)
  have cnt: "4 = (ucast (bth_64_87_lo (rx_ring ?d ! unat (rxrp ?d))) - u_overhead (urq ?r)) div cq_phase ?d +
      (if u_overhead (urq ?r) = 0 then 1 else 0)"
    by (simp add: sample_ucq_def zero_urxcqe_def done_cqe_def sample_uqp_def sample_queue_def)
  show ?thesis
    using poll_leaves_array [OF c(1) _ _ c(2) refl c(3,4) q(1-3) refl, of 2 "[sample_wc, sample_wc]"] c(5)
      poll_leaves_array [OF d(1) _ _ d(2) refl d(3,4) q(4-6) cnt, of 2 "[sample_wc, sample_wc]"] d(5) by simp
qed

text \<open>One round that takes a message with \<open>n\<close> completions.\<close>

lemma poll_round_rx:
  assumes "rings_ok c" and "unat (rxrp c) + 1 < 256" and "hff (xmit_ring c ! unat (xmitrp c)) = 0"
    and "e = rx_ring c ! unat (rxrp c)" and "hff e \<noteq> 0"
    and "num_rx_left e q (cq_phase c) = Some (n, q\<lparr>urq := (urq q)\<lparr>u_overhead := v\<rparr>\<rparr>, ph)"
    and "k + unat n \<le> length ws" and "unat (u_tail (urq q)) < length (urqe_tbl q)"
    and "unat (u_max_cnt (urq q)) \<le> length (urqe_tbl q)" and "u_max_cnt (urq q) \<noteq> 0" and "N \<noteq> 0"
  shows "\<exists>c' q' ws'. poll_loop_u c (Some q) N k ws = poll_loop_u c' (Some q') (N - int (unat n)) (k + unat n) ws' \<and>
    rings_ok c' \<and> unat (rxrp c') = Suc (unat (rxrp c)) \<and> xmit_ring c' = xmit_ring c \<and> xmitrp c' = xmitrp c \<and>
    (\<forall>i. i \<noteq> unat (rxrp c) \<longrightarrow> rx_ring c' ! i = rx_ring c ! i) \<and> cq_phase c' = ph \<and>
    length ws' = length ws \<and> u_overhead (urq q') = v \<and> unat (u_tail (urq q')) < length (urqe_tbl q') \<and>
    unat (u_max_cnt (urq q')) \<le> length (urqe_tbl q') \<and> u_max_cnt (urq q') \<noteq> 0"
proof -
  let ?q = "q\<lparr>urq := (urq q)\<lparr>u_overhead := v\<rparr>\<rparr>"
  let ?c = "c\<lparr>cq_phase := ph, rx_ring := (rx_ring c)[unat (rxrp c) := zero_urxcqe], rxrp := (rxrp c + 1) mod 256\<rparr>"
  obtain q' ws' where l: "rx_left_loop (unat n) ?q e k ws = Some (q', k + unat n, ws')" "length ws' = length ws"
    "u_overhead (urq q') = v" "unat (u_tail (urq q')) < length (urqe_tbl q')" "urqe_tbl q' = urqe_tbl q"
    "u_max_cnt (urq q') = u_max_cnt (urq q)"
    using rx_left_ok [of k "unat n" ws ?q e] assms(7-10) by auto
  have r: "poll_round c q N k ws = Some (round_tx ?c, q', N - int (unat n), k + unat n, ws')"
    using assms(3-6) l(1) by (simp add: poll_round_def round_xmit_def round_rx_def Let_def)
  have u: "unat (rxrp c + 1) = Suc (unat (rxrp c))" using unat_add_small [of "rxrp c" 1] assms(2) by simp
  have rp: "unat ((rxrp c + 1) mod 256) = Suc (unat (rxrp c))" using assms(2) by (simp add: unat_mod_distrib u)
  have ok: "rings_ok (round_tx ?c)"
    by (rule rings_ok_round_tx) (use assms(1) in \<open>simp add: rings_ok_def mod_256\<close>)
  have p: "cqe_pending c" "rps_ok c" using assms(1,4,5) rings_ok_rps by (auto simp: cqe_pending_def)
  have "poll_loop_u c (Some q) N k ws = poll_loop_u (round_tx ?c) (Some q') (N - int (unat n)) (k + unat n) ws'"
    using assms(11) p r by (subst poll_loop_u.simps) simp
  then show ?thesis
    using ok rp l assms(9,10)
    by (intro exI [of _ "round_tx ?c"] exI [of _ q'] exI [of _ ws']) simp
qed

text \<open>
  C36. Two messages, with the counters 0 and 1, are reported as three completions: the first leaves the
  counter last seen at 0, and for the second that means one more.
\<close>

theorem two_messages_three_completions:
  assumes "two_received c" and "3 < N" and "3 \<le> length ws"
    and "unat (u_tail (urq q)) < length (urqe_tbl q)" and "unat (u_max_cnt (urq q)) \<le> length (urqe_tbl q)"
    and "u_max_cnt (urq q) \<noteq> 0"
  shows "\<exists>c' q' ws'. bxroce_poll_hwcq_u c (Some q) N ws = Some (3, c', Some q', ws')"
proof -
  let ?e = "rx_ring c ! unat (rxrp c)"
  have t: "rings_ok c" "unat (rxrp c) + 1 < 256" "hff (xmit_ring c ! unat (xmitrp c)) = 0" "hff ?e \<noteq> 0"
    "bth_64_87_lo ?e = 0"
    using assms(1) by (simp_all add: two_received_def)
  have n1: "num_rx_left ?e q (cq_phase c) = Some (1, q\<lparr>urq := (urq q)\<lparr>u_overhead := 0\<rparr>\<rparr>, 1)"
    using t(5) by (simp add: num_rx_left_def)
  obtain c1 q1 ws1 where 1: "poll_loop_u c (Some q) N 0 ws = poll_loop_u c1 (Some q1) (N - 1) 1 ws1"
    "rings_ok c1" "unat (rxrp c1) = Suc (unat (rxrp c))" "xmit_ring c1 = xmit_ring c" "xmitrp c1 = xmitrp c"
    "\<forall>i. i \<noteq> unat (rxrp c) \<longrightarrow> rx_ring c1 ! i = rx_ring c ! i" "cq_phase c1 = 1" "length ws1 = length ws"
    "u_overhead (urq q1) = 0" "unat (u_tail (urq q1)) < length (urqe_tbl q1)"
    "unat (u_max_cnt (urq q1)) \<le> length (urqe_tbl q1)" "u_max_cnt (urq q1) \<noteq> 0"
    using poll_round_rx [OF t(1-3) refl t(4) n1, of 0 ws N] assms(2-6) by auto
  let ?e1 = "rx_ring c1 ! unat (rxrp c1)"
  have e1: "hff ?e1 \<noteq> 0" "bth_64_87_lo ?e1 = 1" "unat (rxrp c1) + 1 < 256" "hff (xmit_ring c1 ! unat (xmitrp c1)) = 0"
    using assms(1) 1(3-6) by (simp_all add: two_received_def)
  have n2: "num_rx_left ?e1 q1 (cq_phase c1) = Some (2, q1\<lparr>urq := (urq q1)\<lparr>u_overhead := 1\<rparr>\<rparr>, 1)"
    using e1(2) 1(7,9) by (simp add: num_rx_left_def Let_def)
  obtain c2 q2 ws2 where 2: "poll_loop_u c1 (Some q1) (N - 1) 1 ws1 = poll_loop_u c2 (Some q2) (N - 3) 3 ws2"
    "rings_ok c2" "unat (rxrp c2) = Suc (unat (rxrp c1))" "xmit_ring c2 = xmit_ring c1" "xmitrp c2 = xmitrp c1"
    "\<forall>i. i \<noteq> unat (rxrp c1) \<longrightarrow> rx_ring c2 ! i = rx_ring c1 ! i"
    using poll_round_rx [OF 1(2) e1(3,4) refl e1(1) n2, of 1 ws1 "N - 1"] assms(2,3) 1(8,10-12) by (auto simp: numeral_3_eq_3)
  have "rx_ring c2 ! unat (rxrp c2) = rx_ring c ! (unat (rxrp c) + 2)"
    using 1(3,6) 2(3,6) by simp
  then have "\<not> cqe_pending c2"
    using assms(1) e1(4) 2(4,5) by (simp add: cqe_pending_def two_received_def)
  then have "poll_loop_u c2 (Some q2) (N - 3) 3 ws2 = Some (c2, Some q2, 3, ws2)"
    using rings_ok_rps [OF 2(2)] by (subst poll_loop_u.simps) simp
  then show ?thesis using 1(1) 2(1) by (simp add: bxroce_poll_hwcq_u_def)
qed

theorem two_messages_three_completions_witness:
  "\<exists>c' q' ws'. bxroce_poll_hwcq_u (sample_ucq\<lparr>xmit_ring := replicate 256 zero_urxcqe,
     rx_ring := done_cqe 0 # done_cqe 1 # replicate 254 zero_urxcqe\<rparr>) (Some sample_uqp) 4 (replicate 4 sample_wc)
     = Some (3, c', Some q', ws')"
  by (rule two_messages_three_completions)
     (simp_all add: two_received_def rings_ok_def sample_ucq_def zero_urxcqe_def done_cqe_def sample_uqp_def sample_queue_def)

section \<open>States\<close>

definition after_info :: "qp_change_info option \<Rightarrow> uqp \<Rightarrow> uqp" where
  "after_info info q = (case info of None \<Rightarrow> q | Some ci \<Rightarrow> take_info ci q)"

text \<open>Modifications that the kernel accepts, one after the other.\<close>

definition modify_states :: "ib_qp_state list \<Rightarrow> qp_change_info option \<Rightarrow> uqp \<times> kern \<Rightarrow> uqp \<times> kern" where
  "modify_states ns info = fold (\<lambda>n (q, s). snd (bxroce_modify_qp_u 0 n 1 info q s)) ns"

definition kernel_states :: "ib_qp_state list \<Rightarrow> mqp \<times> kern \<Rightarrow> mqp \<times> kern" where
  "kernel_states ns = fold (\<lambda>n (q, s). snd (bxroce_qp_state_change n q s)) ns"

lemma state_machine_refused:
  "ustate q = BXROCE_QPS_RTS \<Longrightarrow> n \<noteq> IB_QPS_ERR \<Longrightarrow>
    \<exists>s'. snd (bxroce_qp_state_machine_u n q s) = (q, s')"
  by (cases n) (simp_all add: bxroce_qp_state_machine_u_def get_bxroce_qp_state_u_def Let_def)

lemma modify_refused:
  assumes "ustate q = BXROCE_QPS_RTS" and "n \<noteq> IB_QPS_ERR"
  shows "\<exists>s'. snd (bxroce_modify_qp_u 0 n 1 info q s) = (after_info info q, s')"
  using state_machine_refused [OF assms, of s]
  by (auto simp: bxroce_modify_qp_u_def after_info_def split: prod.splits)

lemma after_info_state: "ustate (after_info info q) = ustate q" "usq (after_info info q) = usq q"
  by (auto simp: after_info_def take_info_def split: option.split)

lemma after_info_idem: "after_info info (after_info info q) = after_info info q"
  by (auto simp: after_info_def take_info_def split: option.split)

lemma modify_states_refused:
  assumes "ustate q = BXROCE_QPS_RTS" and "IB_QPS_ERR \<notin> set ns" and "ns \<noteq> []"
  shows "\<exists>s'. modify_states ns info (q, s) = (after_info info q, s')"
  using assms
proof (induction ns arbitrary: q s)
  case (Cons n ns)
  have "n \<noteq> IB_QPS_ERR" using Cons.prems(2) by auto
  then obtain s1 where s1: "snd (bxroce_modify_qp_u 0 n 1 info q s) = (after_info info q, s1)"
    using modify_refused [OF Cons.prems(1), of n info s] by blast
  then have m: "modify_states (n # ns) info (q, s) = modify_states ns info (after_info info q, s1)"
    by (simp add: modify_states_def)
  show ?case
  proof (cases "ns = []")
    case True
    then show ?thesis unfolding m by (simp add: modify_states_def)
  next
    case False
    then show ?thesis
      unfolding m using Cons.IH [of "after_info info q" s1] Cons.prems by (simp add: after_info_state after_info_idem)
  qed
qed simp

lemma kernel_reset_heads:
  assumes "qp_state q = BXROCE_QPS_RTS"
  shows "\<exists>q' s'. kernel_states [IB_QPS_RESET, IB_QPS_INIT, IB_QPS_RTR, IB_QPS_RTS] (q, s) = (q', s') \<and>
    qp_state q' = BXROCE_QPS_RTS \<and> head (sq q') = 0 \<and> foe (sq q') = BXROCE_Q_EMPTY"
  using assms by (simp add: kernel_states_def bxroce_qp_state_change_def Let_def)

text \<open>
  C38. A queue pair that is sends_taken from working through reset back to working, every call with success,
  has its head at the start of the queue in the kernel and where it was in the library: the library's
  state machine does not know the step from working to reset, and the status that says so is dropped.
\<close>

theorem reset_not_followed:
  assumes "ustate q = BXROCE_QPS_RTS" and "qp_state k = BXROCE_QPS_RTS"
  shows "\<exists>q' s' k' z'. modify_states [IB_QPS_RESET, IB_QPS_INIT, IB_QPS_RTR, IB_QPS_RTS] info (q, s) = (q', s') \<and>
    kernel_states [IB_QPS_RESET, IB_QPS_INIT, IB_QPS_RTR, IB_QPS_RTS] (k, z) = (k', z') \<and>
    ustate q' = BXROCE_QPS_RTS \<and> qp_state k' = BXROCE_QPS_RTS \<and> u_head (usq q') = u_head (usq q) \<and> head (sq k') = 0"
proof -
  obtain s' where "modify_states [IB_QPS_RESET, IB_QPS_INIT, IB_QPS_RTR, IB_QPS_RTS] info (q, s) = (after_info info q, s')"
    using modify_states_refused [OF assms(1), of "[IB_QPS_RESET, IB_QPS_INIT, IB_QPS_RTR, IB_QPS_RTS]"] by fastforce
  then show ?thesis using kernel_reset_heads [OF assms(2), of z] assms(1) by (fastforce simp: after_info_state)
qed

theorem reset_not_followed_witness:
  "\<forall>k z. \<exists>q' s' k' z'. modify_states [IB_QPS_RESET, IB_QPS_INIT, IB_QPS_RTR, IB_QPS_RTS] None
      (sample_uqp\<lparr>usq := sample_queue\<lparr>u_head := 5\<rparr>\<rparr>, empty_kern) = (q', s') \<and>
    kernel_states [IB_QPS_RESET, IB_QPS_INIT, IB_QPS_RTR, IB_QPS_RTS] (k\<lparr>qp_state := BXROCE_QPS_RTS\<rparr>, z) = (k', z') \<and>
    u_head (usq q') = 5 \<and> head (sq k') = 0"
proof (intro allI)
  fix k :: mqp and z :: kern
  let ?q = "sample_uqp\<lparr>usq := sample_queue\<lparr>u_head := 5\<rparr>\<rparr>"
  have "ustate ?q = BXROCE_QPS_RTS" "qp_state (k\<lparr>qp_state := BXROCE_QPS_RTS\<rparr>) = BXROCE_QPS_RTS" "u_head (usq ?q) = 5"
    by (simp_all add: sample_uqp_def)
  with reset_not_followed [of ?q "k\<lparr>qp_state := BXROCE_QPS_RTS\<rparr>" None empty_kern z]
  show "\<exists>q' s' k' z'. modify_states [IB_QPS_RESET, IB_QPS_INIT, IB_QPS_RTR, IB_QPS_RTS] None (?q, empty_kern) = (q', s') \<and>
      kernel_states [IB_QPS_RESET, IB_QPS_INIT, IB_QPS_RTR, IB_QPS_RTS] (k\<lparr>qp_state := BXROCE_QPS_RTS\<rparr>, z) = (k', z') \<and>
      u_head (usq q') = 5 \<and> head (sq k') = 0" by auto
qed

section \<open>Creating and destroying a queue pair\<close>

lemma umap_fail: "\<not> alloc_ok E (trace s) \<Longrightarrow> umap E off s = (Map_failed, emit (Ecall ''mmap_failed'' [unat off]) s)"
  by (simp add: umap_def)

text \<open>
  C39. When memory runs out right after the object of a queue pair was allocated, creation frees that
  object and reports failure, but leaves it in the table of the device under the number the kernel gave,
  and does not take the queue pair back in the kernel.
\<close>

theorem failed_create_leaves_entry:
  assumes "kalloc E s = (Some i, s1)" and "\<forall>t. length (trace s1) < length t \<longrightarrow> \<not> alloc_ok E t"
    and "qi_max_inline_data a = 0" and "\<not> qi_srq a" and "\<forall>t. K t = 0" and "qr_id r < BXROCE_MAX_QP"
  shows "\<exists>tbl' s'. bxroce_create_qp_u E K a r d sc rc cqs tbl s = Some (None, cqs, tbl', s') \<and>
    tbl' (qr_id r) = Some i \<and> i \<notin> live_objs (trace s') \<and>
    (\<forall>n. Ecall ''destroy_qp'' [n, 0] \<in> set (trace s') \<longrightarrow> Ecall ''destroy_qp'' [n, 0] \<in> set (trace s1))"
proof -
  let ?s2 = "mutex_unlock Dev_lock (mutex_lock Dev_lock (emit (Ecall ''create_qp'' [i, 0]) s1))"
  have f: "kalloc E ?s2 = (None, emit Ekalloc_fail ?s2)"
    using assms(2) by (simp add: kalloc_def)
  have "bxroce_create_qp_u E K a r d sc rc cqs tbl s = Some (None, cqs, tbl(qr_id r \<mapsto> i),
      kfree (Some i) (munmap Null (emit Ekalloc_fail ?s2)))"
    using assms(1,3-6) f
    by (simp add: bxroce_create_qp_u_def ibv_cmd_def bxroce_add_qpn_map_def map_qp_def)
  then show ?thesis by (simp add: munmap_def)
qed

definition one_object_env :: env where
  "one_object_env = lib_env\<lparr>alloc_ok := (\<lambda>t. t = [])\<rparr>"

definition sample_init :: qp_init where
  "sample_init = \<lparr>qi_type = IBV_QPT_RC, qi_max_inline_data = 0, qi_srq = False, qi_sq_sig_all = False,
     qi_max_send_sge = 4, qi_max_recv_sge = 4\<rparr>"

definition sample_resp :: qp_resp where
  "sample_resp = \<lparr>qr_id = 3, qr_num_wqe = 256, qr_num_rqe = 256, qr_sq_page_size = 0x4000, qr_rq_page_size = 0x1000,
     qr_sq_page = 0x10000, qr_rq_page = 0x20000, qr_ioaddr = 0x30000, qr_qp_info = 0x40000\<rparr>"

definition sample_udev :: udev where
  "sample_udev = \<lparr>udev_id = 0, udev_wqe_size = 64, udev_rqe_size = 16, udev_fw_ver = [], udev_hw_lock = None\<rparr>"

definition sample_cq :: ucq_obj where
  "sample_cq = \<lparr>ucq_self = 0, ucq_id = 0, ucq_len = 0x1000, ucq_va = Null, ucq_cqe = 16, ucq_iova = Null, ucq_qp_id = 0\<rparr>"

theorem failed_create_leaves_entry_witness:
  "\<exists>tbl' s'. bxroce_create_qp_u one_object_env (\<lambda>t. 0) sample_init sample_resp sample_udev 0 1 (\<lambda>n. sample_cq) (\<lambda>n. None) empty_kern
     = Some (None, (\<lambda>n. sample_cq), tbl', s') \<and> tbl' 3 = Some 0 \<and> 0 \<notin> live_objs (trace s')"
proof -
  have k: "kalloc one_object_env empty_kern = (Some 0, (emit (Ekalloc 0) empty_kern)\<lparr>next_obj := 1\<rparr>)"
    by (simp add: kalloc_def one_object_env_def empty_kern_def)
  have "\<forall>t. length (trace ((emit (Ekalloc 0) empty_kern)\<lparr>next_obj := 1\<rparr>)) < length t \<longrightarrow> \<not> alloc_ok one_object_env t"
    by (auto simp: one_object_env_def)
  from failed_create_leaves_entry [OF k this, of sample_init "\<lambda>t. 0" sample_resp sample_udev 0 1 "\<lambda>n. sample_cq" "\<lambda>n. None"]
  show ?thesis by (fastforce simp: sample_init_def sample_resp_def)
qed

text \<open>The mappings of a process at the end of a history.\<close>

fun maps_live :: "event list \<Rightarrow> nat set" where
  "maps_live [] = {}"
| "maps_live (e # t) =
     (case e of Ecall n (i # _) \<Rightarrow>
        if n = ''mmap'' then insert i (maps_live t) else if n = ''munmap'' then maps_live t - {i} else maps_live t
      | _ \<Rightarrow> maps_live t)"

definition maps_below :: "kern \<Rightarrow> bool" where
  "maps_below s \<longleftrightarrow> (\<forall>i\<in>maps_live (trace s). i < next_obj s)"

lemma kalloc_all: "\<forall>t. alloc_ok E t \<Longrightarrow>
    kalloc E s = (Some (next_obj s), (emit (Ekalloc (next_obj s)) s)\<lparr>next_obj := Suc (next_obj s)\<rparr>)"
  by (simp add: kalloc_def)

lemma umap_all: "\<forall>t. alloc_ok E t \<Longrightarrow>
    umap E off s = (Mapped (next_obj s), (emit (Ecall ''mmap'' [next_obj s, unat off]) s)\<lparr>next_obj := Suc (next_obj s)\<rparr>)"
  by (simp add: umap_def)

text \<open>
  C17. With memory and a kernel that agrees, a queue pair is created with the number and the sizes the kernel
  gave and entered in the table; destroying it succeeds, clears its entry and gives back every object and
  every mapping.
\<close>

theorem user_qp_create_destroy:
  assumes "\<forall>t. alloc_ok E t" and "\<forall>t. K t = 0" and "qi_max_inline_data a = 0" and "\<not> qi_srq a"
    and "qr_id r < BXROCE_MAX_QP" and "objs_below s" and "maps_below s"
  shows "\<exists>q cqs' s1 s2. bxroce_create_qp_u E K a r d sc rc cqs tbl s = Some (Some q, cqs', tbl(qr_id r \<mapsto> uqo_self q), s1) \<and>
    uqo_id q = qr_id r \<and> u_max_cnt (uqo_sq q) = qr_num_wqe r \<and> u_max_wqe_idx (uqo_sq q) = qr_num_wqe r - 1 \<and>
    u_overhead (uqo_sq q) = qr_num_wqe r \<and> u_max_cnt (uqo_rq q) = qr_num_rqe r \<and>
    ucq_qp_id (cqs' sc) = qr_id r \<and> ucq_qp_id (cqs' rc) = qr_id r \<and>
    bxroce_destroy_qp_u K (sc = rc) q (tbl(qr_id r \<mapsto> uqo_self q)) s1 = Some (0, tbl(qr_id r := None), s2) \<and>
    live_objs (trace s2) = live_objs (trace s) \<and> maps_live (trace s2) = maps_live (trace s)"
proof -
  note all = kalloc_all [OF assms(1)] umap_all [OF assms(1)]
  let ?n = "next_obj s"
  have fresh: "?n + j \<notin> live_objs (trace s)" "?n + j \<notin> maps_live (trace s)" for j
    using assms(6,7) by (auto simp: objs_below_def maps_below_def)
  note fr = fresh [of 0] fresh [of 1] fresh [of 2] fresh [of 3] fresh [of 4] fresh [of 5] fresh [of 6] fresh [of 7]
  have c: "\<exists>q cqs' s1. bxroce_create_qp_u E K a r d sc rc cqs tbl s = Some (Some q, cqs', tbl(qr_id r \<mapsto> uqo_self q), s1) \<and>
    uqo_self q = ?n \<and> uqo_id q = qr_id r \<and> wr_tbl_obj q = Some (?n + 1) \<and> rqe_tbl_obj q = Some (?n + 2) \<and>
    sq_va q = Mapped (?n + 3) \<and> rq_va q = Mapped (?n + 4) \<and> iova_va q = Mapped (?n + 5) \<and> info_va q = Mapped (?n + 6) \<and>
    addrtbl_obj q = Some (?n + 7) \<and> u_max_cnt (uqo_sq q) = qr_num_wqe r \<and> u_max_wqe_idx (uqo_sq q) = qr_num_wqe r - 1 \<and>
    u_overhead (uqo_sq q) = qr_num_wqe r \<and> u_max_cnt (uqo_rq q) = qr_num_rqe r \<and>
    ucq_qp_id (cqs' sc) = qr_id r \<and> ucq_qp_id (cqs' rc) = qr_id r \<and>
    live_objs (trace s1) = {?n, ?n + 1, ?n + 2, ?n + 7} \<union> live_objs (trace s) \<and>
    maps_live (trace s1) = {?n + 3, ?n + 4, ?n + 5, ?n + 6} \<union> maps_live (trace s)"
    using assms(2-5)
    by (auto simp: bxroce_create_qp_u_def all ibv_cmd_def bxroce_add_qpn_map_def map_qp_def set_sq_def set_rq_def
        zero_uqueue_def attach_cq_def Let_def)
  then obtain q cqs' s1 where q: "bxroce_create_qp_u E K a r d sc rc cqs tbl s
      = Some (Some q, cqs', tbl(qr_id r \<mapsto> uqo_self q), s1)"
    "uqo_self q = ?n" "uqo_id q = qr_id r" "wr_tbl_obj q = Some (?n + 1)" "rqe_tbl_obj q = Some (?n + 2)"
    "sq_va q = Mapped (?n + 3)" "rq_va q = Mapped (?n + 4)" "iova_va q = Mapped (?n + 5)" "info_va q = Mapped (?n + 6)"
    "addrtbl_obj q = Some (?n + 7)" "u_max_cnt (uqo_sq q) = qr_num_wqe r" "u_max_wqe_idx (uqo_sq q) = qr_num_wqe r - 1"
    "u_overhead (uqo_sq q) = qr_num_wqe r" "u_max_cnt (uqo_rq q) = qr_num_rqe r"
    "ucq_qp_id (cqs' sc) = qr_id r" "ucq_qp_id (cqs' rc) = qr_id r"
    "live_objs (trace s1) = {?n, ?n + 1, ?n + 2, ?n + 7} \<union> live_objs (trace s)"
    "maps_live (trace s1) = {?n + 3, ?n + 4, ?n + 5, ?n + 6} \<union> maps_live (trace s)"
    by (elim exE conjE) (rule that; assumption)
  obtain s2 where d: "bxroce_destroy_qp_u K (sc = rc) q (tbl(qr_id r \<mapsto> uqo_self q)) s1 = Some (0, tbl(qr_id r := None), s2)"
      "live_objs (trace s2) = live_objs (trace s1) - {?n + 2} - {?n + 1} - {?n + 7} - {?n}"
      "maps_live (trace s2) = maps_live (trace s1) - {?n + 5} - {?n + 3} - {?n + 4} - {?n + 6}"
    using assms(2,5) q(2-10)
    by (simp add: bxroce_destroy_qp_u_def bxroce_del_qpn_map_def ibv_cmd_def munmap_def Let_def)
  have l: "live_objs (trace s1) - {?n + 2} - {?n + 1} - {?n + 7} - {?n} = live_objs (trace s)"
    unfolding q(17) using fr by auto
  have m: "maps_live (trace s1) - {?n + 5} - {?n + 3} - {?n + 4} - {?n + 6} = maps_live (trace s)"
    unfolding q(18) using fr by auto
  show ?thesis
    by (rule exI [of _ q], rule exI [of _ cqs'], rule exI [of _ s1], rule exI [of _ s2], intro conjI)
       (fact q d(1) | simp only: d(2,3) l m)+
qed

theorem user_qp_create_destroy_witness:
  "\<exists>q cqs' s1 s2. bxroce_create_qp_u lib_env (\<lambda>t. 0) sample_init sample_resp sample_udev 0 1 (\<lambda>n. sample_cq) (\<lambda>n. None) empty_kern
      = Some (Some q, cqs', (\<lambda>n. None)(3 \<mapsto> uqo_self q), s1) \<and>
    bxroce_destroy_qp_u (\<lambda>t. 0) False q ((\<lambda>n. None)(3 \<mapsto> uqo_self q)) s1 = Some (0, (\<lambda>n. None)(3 := None), s2) \<and>
    live_objs (trace s2) = {}"
  using user_qp_create_destroy [where E = lib_env and K = "\<lambda>t. 0" and a = sample_init and r = sample_resp and s = empty_kern
      and d = sample_udev and sc = 0 and rc = 1 and cqs = "\<lambda>n. sample_cq" and tbl = "\<lambda>n. None"]
  by (fastforce simp: lib_env_def sample_init_def sample_resp_def objs_below_def maps_below_def empty_kern_def)

end
