(* ===== verification/Spec2Isabelle.thy ===== *)
theory Spec2Isabelle
  imports Mr_Correct Ah Context Post Qp_Correct Mac_Correct Hw_Correct Mac_run Tx_Props Rx_Deliver Channels_Correct
    Pcs_Correct Link_Correct Life_Props Ulib_Props
begin

text \<open>
  A verification development for the bx RNIC driver: the Ethernet driver of the card (src/bx_*.c),
  the RDMA driver above it (src/bx_roce_driver), the user-space provider of the verbs (src/libbxroce) and
  the server that tells the hosts each other's physical addresses (src/rdma_exchange). The card has two faces. The Ethernet driver maps the
  PCIe bar, runs the MAC with its descriptor rings and hands the RDMA driver the device; the RDMA
  driver keeps the objects of the verbs (pools of memory regions, protection domains, completion
  queues, queue pairs, address handles) and programs the packet units of the card through an indirect
  register window. This theory imports all others and holds nothing else.

  What is shared. Prelude names the C integer types as words (arithmetic wraps) and the errno values;
  a function that returns 0 or a negative errno gives an int, one that returns a pointer or an error
  pointer a sum. Kernel is what the drivers see of the kernel and the card: the state \<open>kern\<close> is the
  history of all that leaves the driver (register accesses, allocations, locks, barriers, stores to
  descriptors, DMA mappings, page references, socket buffers), and the record \<open>env\<close> has the answers
  (register values, whether an allocation or a user copy succeeds, bus addresses) as functions of that
  history. Theorems hold for all of them unless they say otherwise. An \<open>option\<close> that is \<open>None\<close> stands
  for undefined behaviour or a loop that does not end, and each theory says which. Code outside src/
  (crc32_le, ib_umem_get, rdma_gid2ip, the contents of fresh or card-written memory) is an argument.

  Theories and sources, RDMA driver:
  Bits - set_bits, get_bits of bx_rnic_com.c and their copies in bxroce_hw.c.
  Mpb, Regs - the register window, bxroce_mpb_reg.c and bx_mpb.c, with the polling loops.
  Idalloc - the bitmaps of queue pair and completion queue numbers, bxroce_hw.c.
  Pool, Pool_Correct - bxroce_pool.c: caches, pools, indices, keys, reference counts; the trees are
  HOL-Library trees with the source's descents.
  Mr, Mr_Correct - memory regions, keys, page maps, registration (bxroce_pool.c, bxroce_verbs.c).
  Ah - address handles, bxroce_ah.c. Context - user contexts, mmap and protection domains.
  Wqe, Post - work queue entries and posting, bxroce_verbs.c. Pbu - bx_pbu.c.
  Dev, Cq, Cq_Correct, Qp_state, Qp, Qp_Correct - the device, completion queues and queue pairs.
  Hw_init, Hw_Correct - bxroce_init_hw and what it calls in bxroce_hw.c.
  Ethernet driver:
  Mac_cfg, Mac_Correct - bx_mac_cfg.c. Macreg - the field macros of header/bx_mac.h.
  Mac_hw, Mac_filter, Mac_queue, Mac_stat, Mac_run - bx_mac_hw.c: filters, queues, counters,
  receive side scaling, interrupts, starting and stopping.
  Ring, Xmit and Ring_Correct, Xmit_Correct, Xmit_Queue, Xmit_Refine, Xmit_Run, Tx_Correct, Tx_Props -
  descriptor rings and the transmit path (bx_mac_desc.c, bx_mac_hw.c, bx_mac_net.c).
  Rx and Rx_Correct, Rx_Poll, Rx_Window, Rx_Safe, Rx_Props, Rx_Error, Rx_Deliver - the receive path.
  Channels, Channels_Correct - allocation and release of channels and rings, bx_mac_desc.c.
  Pcs, Pcs_Correct - the registers of the physical coding sublayer, bx_pcs.c. Units - bx_mpp.c,
  bx_ieu.c, bx_pcie.c, bx_cm.c, bx_phd.c. Link, Link_Correct - speeds, negotiation and training of the
  link, the start of the units and the timers that watch the link (bx_mpu.c, bx_pcs.c, bx_rnic_com.c,
  bx_mac_net.c). Life, Life_Correct, Life_Props - opening, closing and restarting the interface, its
  timers, interrupt lines, NAPI contexts and interrupt handlers (bx_mac_net.c).

  Theories and sources, user space:
  Exchange, Exchange_Correct - the exchange server, exchange.c: a pool of registered regions as an array,
  with the layout in memory that \<open>memmove\<close> works on, the requests, and the process with
  its threads, which take their turns in any order.
  Ulib - registration and posting, libbxroce/bxroce_verbs.c; Ulib_poll - polling; Ulib_obj - contexts,
  domains, address handles, completion queues, queue pairs and their states (with bxroce_main.c).
  Ulib_Correct, Ulib_Props - their lemmas. The library asks the server for remote addresses: the locale
  \<open>remote_directory\<close> says what it relies on and is interpreted on the model of the server.

  What the lemmas show. Pools: the invariant of an indexed pool is kept by every operation, and every
  run of operations is defined. Memory regions: after any history of registrations (\<open>mr_run\<close>)
  the keys are unique, the scatter table
  is the user's memory, registration is undone by deregistration, with the error paths on which it
  is not. The number allocators never give out a number twice. A polling loop returns exactly when
  the card answers. Work queue entries have the fields the card reads; posting keeps locks balanced
  and takes no more entries than are free. Queues created can be posted to, and destroyed give their
  memory back. The MAC's filters let through what they are to let through. The transmit ring refines
  an abstract queue: sending appends a whole packet, completion takes a prefix, in order; the first
  descriptor is handed over last; the books of mappings, packets and bytes balance. A run of
  the ring keeps a log (\<open>tx_log\<close>) of what was taken, queued and completed, and of whether the unwinding of a
  failed mapping was cut short at the end of the 32-bit counter: theorems on runs exclude that by a hypothesis
  on the log. \<open>frees_ok\<close> (Channels_Correct) says that no object is freed twice, which \<open>live_objs\<close> does not
  show: channels and rings are allocated and released so. The receive ring
  keeps its own books, and what the card owns stays mapped. The watch of the link goes on for ever within
  its bounds; an interface in use holds its lines and NAPI contexts and gives them back, unless a restart
  failed; the interrupt handler acknowledges to channel 0 what it read elsewhere. The exchange server keeps
  a directory as long as regions are removed last in, first out, and mixes addresses otherwise; a send of the
  library leaves exactly its entries and a doorbell, a write finds the address of the directory, a poll
  reports the signalled ones of the sends posted, around both rings, a queue pair is created and destroyed without a trace; and each of these has
  its theorem on where it fails. Locales carry such arguments:
  \<open>fifo\<close> (Tx_Props) for queues, interpreted on the transmit ring, and \<open>rx_invariant\<close> (Rx_Poll), the
  laws under which \<open>mac_rx_poll\<close> keeps an invariant, interpreted twice, and \<open>remote_directory\<close>; others are in Pool, Mpb and
  the theories of the device objects.

  Bounds. Loops over a fixed number of registers or entries are recursion on that number. Loops that
  wait for the card are partial functions or, where the source counts retries, recursion on its own
  bound. A poll of the transmit ring takes at most half a ring, as in the source; the receive poll is
  a partial function, since nothing in the source bounds the descriptors of a packet. Ring counters
  wrap at 2^32 and rings have a power of two of entries. The loop of the library's post is a partial
  function, since it may not end; its poll ends because every round clears an entry. The card stores to descriptors between
  calls of the driver, not within one.

  Not modelled. The order in which \<open>mac_hw_init\<close> calls the functions of bx_mac_hw.c, each of which is
  modelled; it is an argument of the life cycle, and so are the other entries of the operation table it
  uses. bx_rnic.c, bx_roce.c, bx_mac.c (probing and glue), bx_mac_ethtool.c (reports), in bx_mac_net.c the
  NAPI polls of both rings together, statistics copies, features and VLAN registration; most of
  bxroce_main.c (registration with the RDMA core, sysfs, notifiers), the debug output throughout, the code
  for RNIC_MSI_EN, which the build does not define; of the user-space library the copies of the register
  accesses (bxroce_hw.c) and of the lists of the kernel (list.h), and of the exchange server the set-up of
  its socket and shared memory.
\<close>

end
